(* ===== verification/Prelude.thy ===== *)
theory Prelude
  imports Main "HOL-Library.Word" "HOL-Library.State_Monad"
begin

text \<open>
  Shared vocabulary of the development: the widths of the C integer types on the
  32-bit target, pointers that may be NULL, the state monad in which the code that
  touches hardware is written, the collections of rewrite rules the components share,
  and generic facts about words, byte lists and index loops.
\<close>

unbundle bit_operations_syntax

named_theorems io_simps "results of the memory-mapped I/O primitives"
named_theorems dif_simps "definitions of the enumerations and register tables of a device"

section \<open>C types\<close>

type_synonym u8 = "8 word"
type_synonym u16 = "16 word"
type_synonym u32 = "32 word"
type_synonym u64 = "64 word"

text \<open>
  A pointer argument is \<open>NULL\<close> or refers to an object; the model carries the
  object's content. A function that writes through the pointer returns the new content.
\<close>

type_synonym 'a ptr = "'a option"

abbreviation NULL :: "'a ptr" where
  "NULL \<equiv> None"

definition store :: "'a ptr \<Rightarrow> 'a \<Rightarrow> 'a ptr" where
  "store p v = map_option (\<lambda>_. v) p"

lemma store_simps [simp]: "store NULL v = NULL" "store (Some u) v = Some v"
  by (simp_all add: store_def)

section \<open>The state monad\<close>

abbreviation ret :: "'a \<Rightarrow> ('s, 'a) state" where
  "ret \<equiv> State_Monad.return"

definition do_if :: "bool \<Rightarrow> ('s, unit) state \<Rightarrow> ('s, unit) state" where
  "do_if b m = (if b then m else ret ())"

lemma do_if_simps [simp]: "do_if True m = m" "do_if False m = ret ()"
  by (simp_all add: do_if_def)

text \<open>A counting loop \<open>for (i = 0; i < n; ++i) body i\<close> is a run over its index list.\<close>

primrec for_each :: "'i list \<Rightarrow> ('i \<Rightarrow> ('s, unit) state) \<Rightarrow> ('s, unit) state" where
  "for_each [] body = ret ()"
| "for_each (i # is) body = do { _ \<leftarrow> body i; for_each is body }"

lemma for_each_append:
  "for_each (xs @ ys) body = do { _ \<leftarrow> for_each xs body; for_each ys body }"
  by (induction xs) simp_all

lemma run_for_each_invariant:
  assumes "P s"
    and "\<And>i s. i \<in> set is \<Longrightarrow> P s \<Longrightarrow> P (snd (run_state (body i) s))"
  shows "P (snd (run_state (for_each is body) s))"
  using assms
proof (induction "is" arbitrary: s)
  case Nil
  then show ?case by simp
next
  case (Cons i "is")
  then have "P (snd (run_state (body i) s))" by simp
  with Cons show ?case by (simp add: case_prod_unfold)
qed

section \<open>Words\<close>

lemma unat_less_iff: "unat (x :: 'a::len word) < unat y \<longleftrightarrow> x < y"
  by (simp add: word_less_nat_alt)

lemma bit_word32_bound: "bit (x :: u32) n \<Longrightarrow> n < 32"
  using bit_imp_le_length [of x n] by simp

lemma bit_word8_bound: "bit (x :: u8) n \<Longrightarrow> n < 8"
  using bit_imp_le_length [of x n] by simp

lemma unat_u32_bound [simp]: "unat (x :: u32) < 4294967296"
  using unsigned_less [of x] by simp

lemma unat_u64_bound [simp]: "unat (x :: u64) < 18446744073709551616"
  using unsigned_less [of x] by simp

lemma unat_u16_bound [simp]: "unat (x :: u16) < 65536"
  using unsigned_less [of x] by simp

lemma unat_u8_bound [simp]: "unat (x :: u8) < 256"
  using unsigned_less [of x] by simp

lemma unat_of_nat_u32: "n < 4294967296 \<Longrightarrow> unat (of_nat n :: u32) = n"
  by (simp add: unat_of_nat take_bit_nat_eq_self)

lemma word32_eq_iff: "(x :: u32) = y \<longleftrightarrow> (\<forall>n < 32. bit x n \<longleftrightarrow> bit y n)"
  using bit_word_eqI [of x y] by auto

lemma word8_eq_iff: "(x :: u8) = y \<longleftrightarrow> (\<forall>n < 8. bit x n \<longleftrightarrow> bit y n)"
  using bit_word_eqI [of x y] by auto

lemma unat_ucast_up:
  assumes "LENGTH('a::len) \<le> LENGTH('b::len)"
  shows "unat (ucast (x :: 'a word) :: 'b word) = unat x"
proof -
  have "unat x < 2 ^ LENGTH('b)"
    using unsigned_less [of x] assms by (meson less_le_trans one_le_numeral power_increasing)
  then show ?thesis by (simp add: unsigned_ucast_eq take_bit_nat_eq_self)
qed

lemma unat_ucast_widen [simp]:
  "unat (ucast (x :: u32) :: u64) = unat x"
  "unat (ucast (h :: u16) :: u32) = unat h"
  "unat (ucast (b :: u8) :: u32) = unat b"
  by (simp_all add: unat_ucast_up)

text \<open>Alignment of addresses to a word boundary.\<close>

lemma Suc_Suc_minus_2: "2 \<le> n \<Longrightarrow> Suc (Suc (n - 2)) = n"
  by arith

lemma and_not_mask_mult4: "(a :: u32) AND NOT 3 = a div 4 * 4"
proof -
  have "a div 4 * 4 = push_bit 2 (drop_bit 2 a)"
    by (simp add: push_bit_eq_mult drop_bit_eq_div)
  also have "\<dots> = a AND NOT (mask 2)"
    by (rule bit_eqI) (auto simp: bit_simps Suc_Suc_minus_2)
  finally show ?thesis by (simp add: mask_eq_exp_minus_1)
qed

section \<open>Little-endian bytes of a word\<close>

definition word_bytes :: "u32 \<Rightarrow> u8 list" where
  "word_bytes w = [ucast w, ucast (drop_bit 8 w), ucast (drop_bit 16 w), ucast (drop_bit 24 w)]"

definition byte_of :: "u32 \<Rightarrow> nat \<Rightarrow> u8" where
  "byte_of w i = ucast (drop_bit (8 * i) w)"

definition bytes_word :: "u8 list \<Rightarrow> u32" where
  "bytes_word bs = ucast (bs ! 0) OR push_bit 8 (ucast (bs ! 1))
     OR push_bit 16 (ucast (bs ! 2)) OR push_bit 24 (ucast (bs ! 3))"

lemma length_word_bytes [simp]: "length (word_bytes w) = 4"
  by (simp add: word_bytes_def)

lemma less_4_cases: "i < 4 \<Longrightarrow> i = 0 \<or> i = 1 \<or> i = 2 \<or> i = (3 :: nat)"
  by arith

lemma nth_word_bytes [simp]: "i < 4 \<Longrightarrow> word_bytes w ! i = byte_of w i"
  by (drule less_4_cases) (auto simp: word_bytes_def byte_of_def)

lemma bytes_word_word_bytes [simp]: "bytes_word (word_bytes w) = w"
proof (rule bit_eqI)
  fix n
  show "bit (bytes_word (word_bytes w)) n \<longleftrightarrow> bit w n"
  proof (cases "bit w n")
    case True
    then have "n < 32" by (rule bit_word32_bound)
    then consider "n < 8" | "8 \<le> n \<and> n < 16" | "16 \<le> n \<and> n < 24" | "24 \<le> n \<and> n < 32"
      by linarith
    then show ?thesis
      using True by cases (auto simp: bytes_word_def word_bytes_def bit_simps)
  next
    case False
    then show ?thesis by (auto simp: bytes_word_def word_bytes_def bit_simps)
  qed
qed

lemma word_bytes_bytes_word4: "word_bytes (bytes_word [a, b, c, d]) = [a, b, c, d]"
  by (auto simp: word_bytes_def bytes_word_def word8_eq_iff bit_simps dest: bit_word8_bound)

lemma word_bytes_bytes_word [simp]: "length bs = 4 \<Longrightarrow> word_bytes (bytes_word bs) = bs"
  using word_bytes_bytes_word4 by (auto simp: length_Suc_conv numeral_eq_Suc)

lemma byte_of_bytes_word: "length bs = 4 \<Longrightarrow> i < 4 \<Longrightarrow> byte_of (bytes_word bs) i = bs ! i"
  by (metis nth_word_bytes word_bytes_bytes_word)

lemma word_bytes_inject: "word_bytes v = word_bytes w \<longleftrightarrow> v = w"
  by (metis bytes_word_word_bytes)

text \<open>The words of a buffer, little-endian, and the bytes of words.\<close>

definition words_of_bytes :: "u8 list \<Rightarrow> nat \<Rightarrow> u32 list" where
  "words_of_bytes bytes n = map (\<lambda>i. bytes_word (take 4 (drop (4 * i) bytes))) [0..<n]"

lemma length_words_of_bytes [simp]: "length (words_of_bytes bytes n) = n"
  by (simp add: words_of_bytes_def)

lemma nth_words_of_bytes [simp]:
  "i < n \<Longrightarrow> words_of_bytes bytes n ! i = bytes_word (take 4 (drop (4 * i) bytes))"
  by (simp add: words_of_bytes_def)

lemma words_of_bytes_Suc:
  "words_of_bytes bytes (Suc n) = bytes_word (take 4 bytes) # words_of_bytes (drop 4 bytes) n"
proof (rule nth_equalityI)
  show "words_of_bytes bytes (Suc n) ! i = (bytes_word (take 4 bytes) # words_of_bytes (drop 4 bytes) n) ! i"
    if "i < length (words_of_bytes bytes (Suc n))" for i
    using that by (cases i) (simp_all add: add.commute)
qed simp

definition bytes_of_words :: "u32 list \<Rightarrow> u8 list" where
  "bytes_of_words ws = concat (map word_bytes ws)"

lemma bytes_of_words_simps [simp]:
  "bytes_of_words [] = []" "bytes_of_words (w # ws) = word_bytes w @ bytes_of_words ws"
  by (simp_all add: bytes_of_words_def)

lemma length_bytes_of_words [simp]: "length (bytes_of_words ws) = 4 * length ws"
  by (induction ws) simp_all

lemma bytes_of_words_of_bytes: "length bytes = 4 * n \<Longrightarrow> bytes_of_words (words_of_bytes bytes n) = bytes"
proof (induction n arbitrary: bytes)
  case (Suc n)
  then have "bytes_of_words (words_of_bytes (drop 4 bytes) n) = drop 4 bytes" by simp
  then show ?case using Suc.prems by (simp add: words_of_bytes_Suc)
qed (simp add: words_of_bytes_def)

lemma words_of_bytes_of_words: "words_of_bytes (bytes_of_words ws) (length ws) = ws"
  by (induction ws) (simp_all add: words_of_bytes_Suc, simp add: words_of_bytes_def)

end
