(* ===== verification/CMemory.thy ===== *)
theory CMemory
  imports Prelude "HOL-Library.List_Lexorder"
begin

text \<open>
  The byte-memory routines of the device library (\<open>sw/device/lib/base/memory.c\<close> and
  \<open>memory.h\<close>). Main memory is a map from 32-bit addresses to bytes; a pointer is its
  address and pointer arithmetic wraps at 32 bits. Each \<open>for\<close> loop runs over the list of
  its indices, so an early \<open>return\<close> is a branch of the recursion.
\<close>

type_synonym mem = "u32 \<Rightarrow> u8"

definition memcpy :: "mem \<Rightarrow> u32 \<Rightarrow> u32 \<Rightarrow> u32 \<Rightarrow> mem" where
  "memcpy m dest src len =
     fold (\<lambda>i m. m(dest + of_nat i := m (src + of_nat i))) [0..<unat len] m"

definition memset :: "mem \<Rightarrow> u32 \<Rightarrow> u32 \<Rightarrow> u32 \<Rightarrow> mem" where
  "memset m dest value len =
     (let value8 = ucast value in
      fold (\<lambda>i m. m(dest + of_nat i := value8)) [0..<unat len] m)"

abbreviation kMemCmpEq :: int where "kMemCmpEq \<equiv> 0"
abbreviation kMemCmpLt :: int where "kMemCmpLt \<equiv> -42"
abbreviation kMemCmpGt :: int where "kMemCmpGt \<equiv> 42"

primrec memcmp_loop :: "mem \<Rightarrow> u32 \<Rightarrow> u32 \<Rightarrow> nat list \<Rightarrow> int" where
  "memcmp_loop m lhs rhs [] = kMemCmpEq"
| "memcmp_loop m lhs rhs (i # is) =
     (if m (lhs + of_nat i) < m (rhs + of_nat i) then kMemCmpLt
      else if m (lhs + of_nat i) > m (rhs + of_nat i) then kMemCmpGt
      else memcmp_loop m lhs rhs is)"

definition memcmp :: "mem \<Rightarrow> u32 \<Rightarrow> u32 \<Rightarrow> u32 \<Rightarrow> int" where
  "memcmp m lhs rhs len = memcmp_loop m lhs rhs [0..<unat len]"

primrec memchr_loop :: "mem \<Rightarrow> u32 \<Rightarrow> u8 \<Rightarrow> nat list \<Rightarrow> u32 option" where
  "memchr_loop m ptr8 value8 [] = NULL"
| "memchr_loop m ptr8 value8 (i # is) =
     (if m (ptr8 + of_nat i) = value8 then Some (ptr8 + of_nat i)
      else memchr_loop m ptr8 value8 is)"

definition memchr :: "mem \<Rightarrow> u32 \<Rightarrow> u32 \<Rightarrow> u32 \<Rightarrow> u32 option" where
  "memchr m p value len = memchr_loop m p (ucast value) [0..<unat len]"

primrec memrchr_loop :: "mem \<Rightarrow> u32 \<Rightarrow> u8 \<Rightarrow> nat \<Rightarrow> nat list \<Rightarrow> u32 option" where
  "memrchr_loop m ptr8 value8 len [] = NULL"
| "memrchr_loop m ptr8 value8 len (i # is) =
     (let idx = len - i - 1 in
      if m (ptr8 + of_nat idx) = value8 then Some (ptr8 + of_nat idx)
      else memrchr_loop m ptr8 value8 len is)"

definition memrchr :: "mem \<Rightarrow> u32 \<Rightarrow> u32 \<Rightarrow> u32 \<Rightarrow> u32 option" where
  "memrchr m p value len = memrchr_loop m p (ucast value) (unat len) [0..<unat len]"

text \<open>Word loads and stores; the target is little-endian.\<close>

definition read_32 :: "mem \<Rightarrow> u32 \<Rightarrow> u32" where
  "read_32 m p = bytes_word (map (\<lambda>i. m (p + of_nat i)) [0..<4])"

definition write_32 :: "mem \<Rightarrow> u32 \<Rightarrow> u32 \<Rightarrow> mem" where
  "write_32 m value p = fold (\<lambda>i m. m(p + of_nat i := byte_of value i)) [0..<4] m"

section \<open>What a region holds\<close>

definition region :: "mem \<Rightarrow> u32 \<Rightarrow> nat \<Rightarrow> u8 list" where
  "region m p n = map (\<lambda>i. m (p + of_nat i)) [0..<n]"

lemma length_region [simp]: "length (region m p n) = n"
  by (simp add: region_def)

lemma nth_region [simp]: "i < n \<Longrightarrow> region m p n ! i = m (p + of_nat i)"
  by (simp add: region_def)

lemma in_set_region: "v \<in> set (region m p n) \<longleftrightarrow> (\<exists>i < n. m (p + of_nat i) = v)"
  by (auto simp: region_def)

lemma region_Suc: "region m p (Suc n) = region m p n @ [m (p + of_nat n)]"
  by (simp add: region_def)

definition addresses :: "u32 \<Rightarrow> nat \<Rightarrow> u32 set" where
  "addresses p n = (\<lambda>i. p + of_nat i) ` {..<n}"

lemma addresses_mono: "k \<le> n \<Longrightarrow> addresses p k \<subseteq> addresses p n"
  by (auto simp: addresses_def)

lemma addresses_upt: "addresses p n = (\<lambda>i. p + of_nat i) ` set [0..<n]"
  by (auto simp: addresses_def)

lemma of_nat_u32_eq_iff: "i < 4294967296 \<Longrightarrow> j < 4294967296 \<Longrightarrow> (of_nat i :: u32) = of_nat j \<longleftrightarrow> i = j"
  by (simp add: word_of_nat_eq_iff take_bit_nat_eq_self)

text \<open>
  A loop that writes one byte per index of a block of addresses, each value being read
  from outside the block: afterwards the block holds the values, nothing else changed.
\<close>

lemma fold_store_bytes:
  assumes "n \<le> 4294967296"
    and indep: "\<And>i m m'. i < n \<Longrightarrow> (\<And>a. a \<notin> addresses p n \<Longrightarrow> m a = m' a) \<Longrightarrow> f i m = f i m'"
    and "k \<le> n"
  shows "(\<forall>i < k. fold (\<lambda>i m. m(p + of_nat i := f i m)) [0..<k] m (p + of_nat i) = f i m)
    \<and> (\<forall>a. a \<notin> addresses p k \<longrightarrow> fold (\<lambda>i m. m(p + of_nat i := f i m)) [0..<k] m a = m a)"
  using \<open>k \<le> n\<close>
proof (induction k)
  case 0
  then show ?case by simp
next
  case (Suc k)
  define m' where "m' = fold (\<lambda>i m. m(p + of_nat i := f i m)) [0..<k] m"
  have IH: "\<forall>i < k. m' (p + of_nat i) = f i m" "\<forall>a. a \<notin> addresses p k \<longrightarrow> m' a = m a"
    using Suc.IH [OF Suc_leD [OF Suc.prems]] unfolding m'_def by blast+
  have fk: "f k m' = f k m"
    using Suc.prems IH(2) addresses_mono [of k n p] by (intro indep) auto
  have step: "fold (\<lambda>i m. m(p + of_nat i := f i m)) [0..<Suc k] m = m'(p + of_nat k := f k m)"
    by (simp add: m'_def [symmetric] fk)
  have "p + (of_nat i :: u32) \<noteq> p + of_nat k" if "i < k" for i
    using that assms(1) Suc.prems by (simp add: of_nat_u32_eq_iff)
  then show ?case
    unfolding step using IH by (auto simp: less_Suc_eq addresses_def lessThan_Suc)
qed

lemmas fold_store_bytes_at = fold_store_bytes [THEN conjunct1, rule_format]
lemmas fold_store_bytes_other = fold_store_bytes [THEN conjunct2, rule_format]

lemma unat_le_2_32: "unat (len :: u32) \<le> 4294967296"
  using unat_u32_bound [of len] by linarith

lemma memcpy_region:
  assumes "addresses dest (unat len) \<inter> addresses src (unat len) = {}"
  shows "region (memcpy m dest src len) dest (unat len) = region m src (unat len)
    \<and> (\<forall>a. a \<notin> addresses dest (unat len) \<longrightarrow> memcpy m dest src len a = m a)"
proof -
  have indep: "m1 (src + of_nat i) = m2 (src + of_nat i)"
    if "i < unat len" "\<And>a. a \<notin> addresses dest (unat len) \<Longrightarrow> m1 a = m2 a" for i and m1 m2 :: mem
    using that(1) assms by (intro that(2)) (auto simp: addresses_def)
  have "fold_spec" if "fold_spec = ((\<forall>i < unat len. memcpy m dest src len (dest + of_nat i) = m (src + of_nat i))
      \<and> (\<forall>a. a \<notin> addresses dest (unat len) \<longrightarrow> memcpy m dest src len a = m a))" for fold_spec
    unfolding that memcpy_def
    by (rule fold_store_bytes [OF unat_le_2_32 _ order_refl, where f = "\<lambda>i m. m (src + of_nat i)"])
      (rule indep)
  then show ?thesis
    by (auto simp: region_def)
qed

lemma memset_region:
  "region (memset m dest val len) dest (unat len) = replicate (unat len) (ucast val)
    \<and> (\<forall>a. a \<notin> addresses dest (unat len) \<longrightarrow> memset m dest val len a = m a)"
  using fold_store_bytes [OF unat_le_2_32 _ order_refl, where f = "\<lambda>_ _. ucast val" and m = m]
  by (auto simp: memset_def Let_def region_def list_eq_iff_nth_eq)

lemma write_32_region:
  "region (write_32 m value p) p 4 = word_bytes value
    \<and> (\<forall>a. a \<notin> addresses p 4 \<longrightarrow> write_32 m value p a = m a)"
  using fold_store_bytes [of 4, OF _ _ order_refl, where f = "\<lambda>i _. byte_of value i" and m = m]
  by (auto simp: write_32_def region_def list_eq_iff_nth_eq)

lemma read_32_region: "read_32 m p = bytes_word (region m p 4)"
  by (simp add: read_32_def region_def)

section \<open>Comparing and searching\<close>

lemma memcmp_loop_lex:
  "memcmp_loop m lhs rhs xs =
     (if map (\<lambda>i. m (lhs + of_nat i)) xs < map (\<lambda>i. m (rhs + of_nat i)) xs then kMemCmpLt
      else if map (\<lambda>i. m (rhs + of_nat i)) xs < map (\<lambda>i. m (lhs + of_nat i)) xs then kMemCmpGt
      else kMemCmpEq)"
proof (induction xs)
  case Nil
  then show ?case by simp
next
  case (Cons i xs)
  then show ?case
    by (cases "m (lhs + of_nat i)" "m (rhs + of_nat i)" rule: linorder_cases) simp_all
qed

lemma memcmp_region:
  "memcmp m lhs rhs len =
     (if region m lhs (unat len) < region m rhs (unat len) then kMemCmpLt
      else if region m rhs (unat len) < region m lhs (unat len) then kMemCmpGt else kMemCmpEq)"
  unfolding memcmp_def region_def by (rule memcmp_loop_lex)

lemma memchr_loop_find:
  "memchr_loop m q v is = map_option (\<lambda>i. q + of_nat i) (find (\<lambda>i. m (q + of_nat i) = v) is)"
  by (induction "is") auto

lemma memrchr_loop_find:
  "memrchr_loop m q v n is =
     map_option (\<lambda>i. q + of_nat i) (find (\<lambda>i. m (q + of_nat i) = v) (map (\<lambda>i. n - i - 1) is))"
  by (induction "is") (auto simp: Let_def)

lemma map_rev_upt: "map (\<lambda>i. n - i - 1) [0..<n] = rev [0..<n]"
  by (intro nth_equalityI) (auto simp: rev_nth)

lemma find_upt_Some_iff:
  "find P [0..<n] = Some i \<longleftrightarrow> i < n \<and> P i \<and> (\<forall>j < i. \<not> P j)"
  by (auto simp: find_Some_iff)

lemma find_rev_upt_Some_iff:
  "find P (rev [0..<n]) = Some i \<longleftrightarrow> i < n \<and> P i \<and> (\<forall>j. i < j \<and> j < n \<longrightarrow> \<not> P j)"
proof -
  have "(\<exists>k<n. P (n - Suc k) \<and> i = n - Suc k \<and> (\<forall>j<k. \<not> P (n - Suc j))) \<longleftrightarrow>
      i < n \<and> P i \<and> (\<forall>j. i < j \<and> j < n \<longrightarrow> \<not> P j)" (is "?L \<longleftrightarrow> ?R")
  proof
    assume ?L
    then obtain k where k: "k < n" "P (n - Suc k)" "i = n - Suc k" "\<forall>j<k. \<not> P (n - Suc j)" by blast
    have "\<not> P j" if "i < j" "j < n" for j
      using k(4) [rule_format, of "n - Suc j"] that k(1,3) by auto
    with k show ?R by auto
  next
    assume ?R
    then show ?L by (intro exI [of _ "n - Suc i"]) auto
  qed
  then show ?thesis by (auto simp: find_Some_iff rev_nth)
qed

section \<open>Properties\<close>

text \<open>
  The memory routines against their region specifications: for disjoint regions \<open>memcpy\<close> makes the
  destination hold what the source held; \<open>memset\<close> fills; a stored word is loaded back;
  none of them changes a byte outside its destination; and the sign of \<open>memcmp\<close> is the
  lexicographic order of the two regions.
\<close>

lemma memory_routines_correct:
  assumes "addresses dest (unat len) \<inter> addresses src (unat len) = {}"
  shows "region (memcpy m dest src len) dest (unat len) = region m src (unat len)
    \<and> {a. memcpy m dest src len a \<noteq> m a} \<subseteq> addresses dest (unat len)
    \<and> region (memset m dest val len) dest (unat len) = replicate (unat len) (ucast val)
    \<and> {a. memset m dest val len a \<noteq> m a} \<subseteq> addresses dest (unat len)
    \<and> read_32 (write_32 m word p) p = word
    \<and> {a. write_32 m word p a \<noteq> m a} \<subseteq> addresses p 4
    \<and> sgn (memcmp m dest src len) = (if region m dest (unat len) < region m src (unat len) then -1
        else if region m dest (unat len) = region m src (unat len) then 0 else 1)"
  using memcpy_region [OF assms, of m] memset_region [of m dest val len] write_32_region [of m word p]
  by (auto simp: read_32_region memcmp_region)

lemma memory_routines_correct_witness:
  "region (memcpy (\<lambda>a. ucast a) 100 200 3) 100 3 = [200, 201, 202]"
proof -
  have "addresses 100 (unat (3 :: u32)) \<inter> addresses 200 (unat (3 :: u32)) = {}"
    by (simp add: addresses_upt upt_rec)
  from memory_routines_correct [OF this, of "\<lambda>a. ucast a"] show ?thesis
    by (simp add: region_def upt_rec)
qed

text \<open>
  \<open>memchr\<close> finds the first and \<open>memrchr\<close> the last byte of the region that equals the
  value cut to 8 bits, and both return \<open>NULL\<close> exactly when there is none.
\<close>

lemma memchr_memrchr_correct:
  "memchr m p value len = map_option (\<lambda>i. p + of_nat i) (find (\<lambda>i. region m p (unat len) ! i = ucast value) [0..<unat len])
   \<and> memrchr m p value len = map_option (\<lambda>i. p + of_nat i) (find (\<lambda>i. region m p (unat len) ! i = ucast value) (rev [0..<unat len]))
   \<and> (memchr m p value len = NULL \<longleftrightarrow> ucast value \<notin> set (region m p (unat len)))
   \<and> (memrchr m p value len = NULL \<longleftrightarrow> ucast value \<notin> set (region m p (unat len)))"
proof -
  have find_cong': "find (\<lambda>i. region m p (unat len) ! i = v) is = find (\<lambda>i. m (p + of_nat i) = v) is"
    if "set is \<subseteq> {..<unat len}" for "is" v
    using that by (induction "is") auto
  have "memchr m p value len = map_option (\<lambda>i. p + of_nat i) (find (\<lambda>i. m (p + of_nat i) = ucast value) [0..<unat len])"
    by (simp add: memchr_def memchr_loop_find)
  moreover have "memrchr m p value len = map_option (\<lambda>i. p + of_nat i) (find (\<lambda>i. m (p + of_nat i) = ucast value) (rev [0..<unat len]))"
    unfolding memrchr_def memrchr_loop_find map_rev_upt ..
  ultimately show ?thesis
    by (auto simp: find_cong' atLeast0LessThan find_None_iff in_set_region)
qed

end
