(* ===== verification/Bitfield.thy ===== *)
theory Bitfield
  imports Prelude
begin

text \<open>
  The bitfield library (\<open>sw/device/lib/base/bitfield.h\<close>): reading and writing a
  field (a mask at a bit index) or a single bit of a 32-bit value, and the bit-counting
  helpers. Shift amounts of 32 or more are undefined behaviour in C; here they give 0,
  and every field the drivers use is within the word.
\<close>

section \<open>Fields\<close>

record bitfield_field32 =
  field_mask :: u32
  field_index :: u32

definition bitfield_field32_read :: "u32 \<Rightarrow> bitfield_field32 \<Rightarrow> u32" where
  "bitfield_field32_read bitfield field =
     drop_bit (unat (field_index field)) bitfield AND field_mask field"

definition bitfield_field32_write :: "u32 \<Rightarrow> bitfield_field32 \<Rightarrow> u32 \<Rightarrow> u32" where
  "bitfield_field32_write bitfield field value =
     (let bitfield = bitfield AND NOT (push_bit (unat (field_index field)) (field_mask field))
      in bitfield OR push_bit (unat (field_index field)) (value AND field_mask field))"

definition bitfield_bit32_to_field32 :: "u32 \<Rightarrow> bitfield_field32" where
  "bitfield_bit32_to_field32 bit_index = \<lparr>field_mask = 0x1, field_index = bit_index\<rparr>"

definition bitfield_bit32_read :: "u32 \<Rightarrow> u32 \<Rightarrow> bool" where
  "bitfield_bit32_read bitfield bit_index =
     (bitfield_field32_read bitfield (bitfield_bit32_to_field32 bit_index) = 0x1)"

definition bitfield_bit32_write :: "u32 \<Rightarrow> u32 \<Rightarrow> bool \<Rightarrow> u32" where
  "bitfield_bit32_write bitfield bit_index value =
     bitfield_field32_write bitfield (bitfield_bit32_to_field32 bit_index)
       (if value then 0x1 else 0x0)"

section \<open>Counting bits\<close>

text \<open>
  The compiler builtins, by their documented meaning: \<open>ffs\<close> is one more than the
  index of the least significant one bit, or zero; \<open>clz\<close> and \<open>ctz\<close> count the zeros
  above the most, below the least significant one bit (undefined on 0); \<open>popcount\<close>
  counts the one bits and \<open>parity\<close> is that count modulo 2.
\<close>

definition builtin_ctz :: "u32 \<Rightarrow> nat" where
  "builtin_ctz x = length (takeWhile (\<lambda>i. \<not> bit x i) [0..<32])"

definition builtin_clz :: "u32 \<Rightarrow> nat" where
  "builtin_clz x = length (takeWhile (\<lambda>i. \<not> bit x i) (rev [0..<32]))"

definition builtin_popcount :: "u32 \<Rightarrow> nat" where
  "builtin_popcount x = length (filter (bit x) [0..<32])"

definition bitfield_find_first_set32 :: "u32 \<Rightarrow> nat" where
  "bitfield_find_first_set32 bitfield = (if bitfield = 0 then 0 else Suc (builtin_ctz bitfield))"

definition bitfield_count_leading_zeroes32 :: "u32 \<Rightarrow> nat" where
  "bitfield_count_leading_zeroes32 bitfield = (if bitfield \<noteq> 0 then builtin_clz bitfield else 32)"

definition bitfield_count_trailing_zeroes32 :: "u32 \<Rightarrow> nat" where
  "bitfield_count_trailing_zeroes32 bitfield = (if bitfield \<noteq> 0 then builtin_ctz bitfield else 32)"

definition bitfield_popcount32 :: "u32 \<Rightarrow> nat" where
  "bitfield_popcount32 bitfield = builtin_popcount bitfield"

definition bitfield_parity32 :: "u32 \<Rightarrow> nat" where
  "bitfield_parity32 bitfield = builtin_popcount bitfield mod 2"

definition bitfield_byteswap32 :: "u32 \<Rightarrow> u32" where
  "bitfield_byteswap32 bitfield = bytes_word (rev (word_bytes bitfield))"

section \<open>Bits of a field\<close>

lemma bit_field32_read:
  "bit (bitfield_field32_read r f) n \<longleftrightarrow>
     bit r (unat (field_index f) + n) \<and> bit (field_mask f) n"
  by (simp add: bitfield_field32_read_def bit_simps)

lemma bit_field32_write:
  "bit (bitfield_field32_write r f v) n \<longleftrightarrow>
     (if n < 32 \<and> unat (field_index f) \<le> n \<and> bit (field_mask f) (n - unat (field_index f))
      then bit v (n - unat (field_index f)) else bit r n)"
  using bit_word32_bound [of r n]
  by (auto simp: bitfield_field32_write_def Let_def bit_simps)

text \<open>A field lies within the word when its mask loses no bit by the shift.\<close>

definition field_ok :: "bitfield_field32 \<Rightarrow> bool" where
  "field_ok f \<longleftrightarrow>
     drop_bit (unat (field_index f)) (push_bit (unat (field_index f)) (field_mask f)) = field_mask f"

definition field_bits :: "bitfield_field32 \<Rightarrow> u32" where
  "field_bits f = push_bit (unat (field_index f)) (field_mask f)"

lemma field_ok_bit: "field_ok f \<Longrightarrow> bit (field_mask f) n \<Longrightarrow> unat (field_index f) + n < 32"
  unfolding field_ok_def by (drule arg_cong [where f = "\<lambda>w. bit w n"]) (auto simp: bit_simps)

lemma bit_field_bits:
  "bit (field_bits f) n \<longleftrightarrow>
     n < 32 \<and> unat (field_index f) \<le> n \<and> bit (field_mask f) (n - unat (field_index f))"
  by (auto simp: field_bits_def bit_simps)

lemma field32_read_write_same:
  assumes "field_ok f"
  shows "bitfield_field32_read (bitfield_field32_write r f v) f = v AND field_mask f"
  by (rule bit_eqI) (use field_ok_bit [OF assms] in \<open>auto simp: bit_field32_read bit_field32_write bit_simps\<close>)

lemma field32_read_write_other:
  assumes "field_bits f AND field_bits g = 0" "field_ok f"
  shows "bitfield_field32_read (bitfield_field32_write r g v) f = bitfield_field32_read r f"
proof (rule bit_eqI)
  fix n
  have "\<not> (bit (field_bits f) (unat (field_index f) + n) \<and> bit (field_bits g) (unat (field_index f) + n))"
    using assms(1) by (metis bit_0_eq bit_and_iff bot_apply bot_bool_def)
  then show "bit (bitfield_field32_read (bitfield_field32_write r g v) f) n =
      bit (bitfield_field32_read r f) n"
    using field_ok_bit [OF assms(2), of n]
    by (auto simp: bit_field32_read bit_field32_write bit_field_bits)
qed

lemma field32_write_idem:
  "bitfield_field32_write (bitfield_field32_write r f u) f v = bitfield_field32_write r f v"
  by (rule bit_eqI) (auto simp: bit_field32_write)

lemma field32_write_commute:
  assumes "field_bits f AND field_bits g = 0"
  shows "bitfield_field32_write (bitfield_field32_write r f u) g v =
    bitfield_field32_write (bitfield_field32_write r g v) f u"
proof (rule bit_eqI)
  fix n
  have "\<not> (bit (field_bits f) n \<and> bit (field_bits g) n)"
    using assms by (metis bit_0_eq bit_and_iff bot_apply bot_bool_def)
  then show "bit (bitfield_field32_write (bitfield_field32_write r f u) g v) n =
      bit (bitfield_field32_write (bitfield_field32_write r g v) f u) n"
    by (auto simp: bit_field32_write bit_field_bits)
qed

lemma field32_write_outside:
  "(bitfield_field32_write r f v) AND NOT (field_bits f) = r AND NOT (field_bits f)"
  by (rule bit_eqI) (auto simp: bit_field32_write bit_field_bits bit_simps)

section \<open>Single bits\<close>

lemma bit_one_word [simp]: "bit (1 :: 'a::len word) n \<longleftrightarrow> n = 0"
  by (simp add: bit_1_iff)

lemma bit32_read_eq_bit: "bitfield_bit32_read r i \<longleftrightarrow> bit r (unat i)"
proof
  assume "bitfield_bit32_read r i"
  then have "bit (bitfield_field32_read r (bitfield_bit32_to_field32 i)) 0"
    by (simp add: bitfield_bit32_read_def)
  then show "bit r (unat i)" by (simp add: bit_field32_read bitfield_bit32_to_field32_def)
next
  assume "bit r (unat i)"
  then have "bitfield_field32_read r (bitfield_bit32_to_field32 i) = 1"
    by (intro bit_eqI) (auto simp: bit_field32_read bitfield_bit32_to_field32_def)
  then show "bitfield_bit32_read r i" by (simp add: bitfield_bit32_read_def)
qed

lemma bit_bit32_write:
  "bit (bitfield_bit32_write r i v) n \<longleftrightarrow> (if n < 32 \<and> n = unat i then v else bit r n)"
  by (auto simp: bitfield_bit32_write_def bit_field32_write bitfield_bit32_to_field32_def)

lemma bit32_read_write:
  "unat i < 32 \<Longrightarrow> bitfield_bit32_read (bitfield_bit32_write r i v) j \<longleftrightarrow>
     (if j = i then v else bitfield_bit32_read r j)"
  by (auto simp: bit32_read_eq_bit bit_bit32_write word_unat_eq_iff)

lemma field32_read_bit_write:
  "\<not> bit (field_bits f) (unat i) \<Longrightarrow>
     bitfield_field32_read (bitfield_bit32_write r i v) f = bitfield_field32_read r f"
  by (rule bit_eqI) (metis add_diff_cancel_left' bit_bit32_write bit_field32_read bit_field_bits le_add1)

lemma bit_field32_write_outside:
  "\<not> bit (field_bits f) n \<Longrightarrow> bit (bitfield_field32_write r f v) n \<longleftrightarrow> bit r n"
  by (auto simp: bit_field32_write bit_field_bits)

lemma bit32_write_0: "unat i < 32 \<Longrightarrow> bitfield_bit32_write 0 i True = push_bit (unat i) 1"
  by (rule bit_eqI) (auto simp: bit_bit32_write bit_simps)

section \<open>Counting bits: what the results mean\<close>

lemma length_takeWhile_first:
  assumes "\<exists>i < n. P i"
  shows "length (takeWhile (\<lambda>i. \<not> P i) [0..<n]) < n \<and> P (length (takeWhile (\<lambda>i. \<not> P i) [0..<n]))
     \<and> (\<forall>j < length (takeWhile (\<lambda>i. \<not> P i) [0..<n]). \<not> P j)"
proof -
  let ?k = "length (takeWhile (\<lambda>i. \<not> P i) [0..<n])"
  have k: "?k < n"
  proof (rule ccontr)
    assume "\<not> ?k < n"
    then have "takeWhile (\<lambda>i. \<not> P i) [0..<n] = [0..<n]"
      by (metis takeWhile_eq_take take_all length_upt minus_nat.diff_0 not_less)
    then have "\<forall>i \<in> set [0..<n]. \<not> P i" by (metis set_takeWhileD)
    with assms show False by auto
  qed
  have "\<not> \<not> P ([0..<n] ! ?k)" using k by (intro nth_length_takeWhile) simp
  moreover have "\<not> P j" if "j < ?k" for j
    using that k takeWhile_nth [OF that] nth_mem [OF that] set_takeWhileD by fastforce
  ultimately show ?thesis using k by simp
qed

lemma word_nonzero_bit: "(x :: u32) \<noteq> 0 \<Longrightarrow> \<exists>i < 32. bit x i"
  using word32_eq_iff [of x 0] by auto

lemma builtin_ctz_least:
  "x \<noteq> 0 \<Longrightarrow> builtin_ctz x < 32 \<and> bit x (builtin_ctz x) \<and> (\<forall>j < builtin_ctz x. \<not> bit x j)"
  unfolding builtin_ctz_def by (rule length_takeWhile_first, rule word_nonzero_bit)

lemma builtin_clz_rev: "builtin_clz x = length (takeWhile (\<lambda>i. \<not> bit x (31 - i)) [0..<32])"
proof -
  have "rev [0..<32] = map (\<lambda>i. 31 - i) [0..<32 :: nat]"
    by (simp add: upt_conv_Cons)
  then show ?thesis
    by (simp add: builtin_clz_def takeWhile_map comp_def del: upt_rec_numeral)
qed

lemma builtin_clz_greatest:
  assumes "x \<noteq> 0"
  shows "builtin_clz x < 32 \<and> bit x (31 - builtin_clz x) \<and> (\<forall>j > 31 - builtin_clz x. \<not> bit x j)"
proof -
  obtain i where "i < 32" "bit x i" using word_nonzero_bit [OF assms] by blast
  then have "\<exists>i < 32. bit x (31 - i)" by (intro exI [of _ "31 - i"]) simp
  from length_takeWhile_first [OF this] have *:
    "builtin_clz x < 32" "bit x (31 - builtin_clz x)" "\<forall>j < builtin_clz x. \<not> bit x (31 - j)"
    by (auto simp: builtin_clz_rev)
  have "\<not> bit x j" if "j > 31 - builtin_clz x" for j
    using *(3) [rule_format, of "31 - j"] that bit_word32_bound [of x j] *(1)
    by (cases "j < 32") auto
  with * show ?thesis by blast
qed

lemma byteswap32_involutive: "bitfield_byteswap32 (bitfield_byteswap32 x) = x"
  by (simp add: bitfield_byteswap32_def)

lemma byteswap32_byte: "i < 4 \<Longrightarrow> byte_of (bitfield_byteswap32 x) i = byte_of x (3 - i)"
  by (simp add: bitfield_byteswap32_def rev_nth flip: nth_word_bytes)

section \<open>Properties\<close>

text \<open>
  Writing a field that lies within the word and reading it back gives the value cut to
  the mask; no bit outside the field changes, and a field disjoint from it reads as before.
\<close>

lemma bitfield_field32_write_correct:
  assumes "field_ok f" "field_ok g" "field_bits g AND field_bits f = 0"
  shows "bitfield_field32_read (bitfield_field32_write r f v) f = v AND field_mask f
    \<and> bitfield_field32_write r f v AND NOT (field_bits f) = r AND NOT (field_bits f)
    \<and> bitfield_field32_read (bitfield_field32_write r f v) g = bitfield_field32_read r g"
  using assms by (simp add: field32_read_write_same field32_write_outside field32_read_write_other)

lemma bitfield_field32_write_correct_witness:
  "bitfield_field32_read (bitfield_field32_write 0xffffffff \<lparr>field_mask = 0xff, field_index = 8\<rparr> 0x1ab)
     \<lparr>field_mask = 0xff, field_index = 8\<rparr> = 0xab
   \<and> bitfield_field32_read (bitfield_field32_write 0xffffffff \<lparr>field_mask = 0xff, field_index = 8\<rparr> 0x1ab)
     \<lparr>field_mask = 0xff, field_index = 0\<rparr> = 0xff"
  using bitfield_field32_write_correct [of "\<lparr>field_mask = 0xff, field_index = 8\<rparr>"
      "\<lparr>field_mask = 0xff, field_index = 0\<rparr>" "0xffffffff" "0x1ab"]
  by (simp add: field_ok_def field_bits_def bitfield_field32_read_def)

text \<open>
  The bit-counting helpers: of a nonzero word, the count of trailing zeros is the index
  of the least one bit and \<open>ffs\<close> is one more, the count of leading zeros is the distance
  of the greatest one bit from bit 31; of zero they are 32, 0 and 32. Swapping the bytes
  twice is the identity and byte \<open>i\<close> of the swapped word is byte \<open>3 - i\<close>.
\<close>

lemma bitfield_counts_correct:
  "if x = 0
   then bitfield_count_trailing_zeroes32 x = 32 \<and> bitfield_count_leading_zeroes32 x = 32
     \<and> bitfield_find_first_set32 x = 0
   else bit x (bitfield_count_trailing_zeroes32 x)
     \<and> {j. j < bitfield_count_trailing_zeroes32 x \<and> bit x j} = {}
     \<and> bitfield_find_first_set32 x = Suc (bitfield_count_trailing_zeroes32 x)
     \<and> bit x (31 - bitfield_count_leading_zeroes32 x)
     \<and> {j. j > 31 - bitfield_count_leading_zeroes32 x \<and> bit x j} = {}"
  using builtin_ctz_least [of x] builtin_clz_greatest [of x]
  by (auto simp: bitfield_count_trailing_zeroes32_def bitfield_count_leading_zeroes32_def
      bitfield_find_first_set32_def)

end
