(* ===== verification/Mmio.thy ===== *)
theory Mmio
  imports Bitfield
begin

text \<open>
  Memory-mapped I/O (\<open>sw/device/lib/base/mmio.h\<close> and \<open>mmio.c\<close>). The hardware behind the
  bus is a parameter: the world holds the history of bus accesses and two functions that
  say what the device answers to the next read, given that history, so every deterministic
  device is an instance and a volatile register may answer differently each time. A plain
  register (or SRAM) is the device \<open>reg_file\<close>, which answers with the last word written.
\<close>

section \<open>The bus\<close>

datatype bus_event = Rd32 u32 u32 | Wr32 u32 u32 | Rd8 u32 u8 | Wr8 u32 u8

record world =
  dev32 :: "bus_event list \<Rightarrow> u32 \<Rightarrow> u32"
  dev8 :: "bus_event list \<Rightarrow> u32 \<Rightarrow> u8"
  trace :: "bus_event list" \<comment> \<open>newest access first\<close>

type_synonym 'a io = "(world, 'a) state"

definition bus_read32 :: "u32 \<Rightarrow> u32 io" where
  "bus_read32 a = State (\<lambda>w. let v = dev32 w (trace w) a in (v, w\<lparr>trace := Rd32 a v # trace w\<rparr>))"

definition bus_write32 :: "u32 \<Rightarrow> u32 \<Rightarrow> unit io" where
  "bus_write32 a v = State (\<lambda>w. ((), w\<lparr>trace := Wr32 a v # trace w\<rparr>))"

definition bus_read8 :: "u32 \<Rightarrow> u8 io" where
  "bus_read8 a = State (\<lambda>w. let v = dev8 w (trace w) a in (v, w\<lparr>trace := Rd8 a v # trace w\<rparr>))"

definition bus_write8 :: "u32 \<Rightarrow> u8 \<Rightarrow> unit io" where
  "bus_write8 a v = State (\<lambda>w. ((), w\<lparr>trace := Wr8 a v # trace w\<rparr>))"

text \<open>The word a read of an address would return now.\<close>

definition cur32 :: "world \<Rightarrow> u32 \<Rightarrow> u32" where
  "cur32 w a = dev32 w (trace w) a"

lemma run_bus_read32 [io_simps]:
  "run_state (bus_read32 a) w = (cur32 w a, w\<lparr>trace := Rd32 a (cur32 w a) # trace w\<rparr>)"
  by (simp add: bus_read32_def cur32_def Let_def)

lemma run_bus_write32 [io_simps]:
  "run_state (bus_write32 a v) w = ((), w\<lparr>trace := Wr32 a v # trace w\<rparr>)"
  by (simp add: bus_write32_def)

section \<open>Regions\<close>

record mmio_region =
  mmio_base :: u32

definition mmio_region_from_addr :: "u32 \<Rightarrow> mmio_region" where
  "mmio_region_from_addr address = \<lparr>mmio_base = address\<rparr>"

text \<open>
  \<open>((volatile uint32_t * )base)[offset / sizeof(uint32_t)]\<close>: the offset is divided as an
  unsigned 32-bit value (\<open>sizeof\<close> is unsigned) and the index scaled by 4.
\<close>

definition mmio_addr32 :: "mmio_region \<Rightarrow> u32 \<Rightarrow> u32" where
  "mmio_addr32 base offset = mmio_base base + 4 * (offset div 4)"

text \<open>A word-aligned offset is its own address.\<close>

lemma mult4_div4: "4 * ((4 * k) div 4) = 4 * (k :: u32)"
proof -
  have "4 * k = push_bit 2 k" by (simp add: push_bit_eq_mult mult.commute)
  moreover have "push_bit 2 k AND NOT (mask 2) = push_bit 2 k"
    by (rule bit_eqI) (auto simp: bit_simps)
  ultimately have "4 * k AND NOT 3 = 4 * k" by (simp add: mask_eq_exp_minus_1)
  then show ?thesis using and_not_mask_mult4 [of "4 * k"] by (simp add: mult.commute)
qed

lemma mmio_addr32_aligned: "offset = 4 * k \<Longrightarrow> mmio_addr32 base offset = mmio_base base + offset"
  by (simp add: mmio_addr32_def mult4_div4)

definition mmio_region_read8 :: "mmio_region \<Rightarrow> u32 \<Rightarrow> u8 io" where
  "mmio_region_read8 base offset = bus_read8 (mmio_base base + offset)"

definition mmio_region_read32 :: "mmio_region \<Rightarrow> u32 \<Rightarrow> u32 io" where
  "mmio_region_read32 base offset = bus_read32 (mmio_addr32 base offset)"

definition mmio_region_write8 :: "mmio_region \<Rightarrow> u32 \<Rightarrow> u8 \<Rightarrow> unit io" where
  "mmio_region_write8 base offset val = bus_write8 (mmio_base base + offset) val"

definition mmio_region_write32 :: "mmio_region \<Rightarrow> u32 \<Rightarrow> u32 \<Rightarrow> unit io" where
  "mmio_region_write32 base offset val = bus_write32 (mmio_addr32 base offset) val"

definition mmio_region_read_mask32 :: "mmio_region \<Rightarrow> u32 \<Rightarrow> u32 \<Rightarrow> u32 \<Rightarrow> u32 io" where
  "mmio_region_read_mask32 base offset msk mask_index = do {
     reg \<leftarrow> mmio_region_read32 base offset;
     ret (bitfield_field32_read reg \<lparr>field_mask = msk, field_index = mask_index\<rparr>)
   }"

definition mmio_region_get_bit32 :: "mmio_region \<Rightarrow> u32 \<Rightarrow> u32 \<Rightarrow> bool io" where
  "mmio_region_get_bit32 base offset bit_index = do {
     reg \<leftarrow> mmio_region_read32 base offset;
     ret (bitfield_bit32_read reg bit_index)
   }"

definition mmio_region_nonatomic_clear_mask32 :: "mmio_region \<Rightarrow> u32 \<Rightarrow> u32 \<Rightarrow> u32 \<Rightarrow> unit io" where
  "mmio_region_nonatomic_clear_mask32 base offset msk mask_index = do {
     register_value \<leftarrow> mmio_region_read32 base offset;
     let register_value = bitfield_field32_write register_value
       \<lparr>field_mask = msk, field_index = mask_index\<rparr> 0x0;
     mmio_region_write32 base offset register_value
   }"

definition mmio_region_nonatomic_set_mask32 :: "mmio_region \<Rightarrow> u32 \<Rightarrow> u32 \<Rightarrow> u32 \<Rightarrow> unit io" where
  "mmio_region_nonatomic_set_mask32 base offset msk mask_index = do {
     register_value \<leftarrow> mmio_region_read32 base offset;
     let register_value = bitfield_field32_write register_value
       \<lparr>field_mask = msk, field_index = mask_index\<rparr> (NOT 0x0);
     mmio_region_write32 base offset register_value
   }"

definition mmio_region_write_only_set_mask32 :: "mmio_region \<Rightarrow> u32 \<Rightarrow> u32 \<Rightarrow> u32 \<Rightarrow> unit io" where
  "mmio_region_write_only_set_mask32 base offset msk mask_index = do {
     let register_value = 0x0;
     let register_value = bitfield_field32_write register_value
       \<lparr>field_mask = msk, field_index = mask_index\<rparr> (NOT 0x0);
     mmio_region_write32 base offset register_value
   }"

definition mmio_region_nonatomic_set_field32 :: "mmio_region \<Rightarrow> u32 \<Rightarrow> bitfield_field32 \<Rightarrow> u32 \<Rightarrow> unit io" where
  "mmio_region_nonatomic_set_field32 base offset field val = do {
     register_value \<leftarrow> mmio_region_read32 base offset;
     let register_value = bitfield_field32_write register_value field val;
     mmio_region_write32 base offset register_value
   }"

definition mmio_region_write_only_set_field32 :: "mmio_region \<Rightarrow> u32 \<Rightarrow> bitfield_field32 \<Rightarrow> u32 \<Rightarrow> unit io" where
  "mmio_region_write_only_set_field32 base offset field val = do {
     let register_value = 0x0;
     let register_value = bitfield_field32_write register_value field val;
     mmio_region_write32 base offset register_value
   }"

definition mmio_region_nonatomic_clear_bit32 :: "mmio_region \<Rightarrow> u32 \<Rightarrow> u32 \<Rightarrow> unit io" where
  "mmio_region_nonatomic_clear_bit32 base offset bit_index = do {
     register_value \<leftarrow> mmio_region_read32 base offset;
     let register_value = bitfield_bit32_write register_value bit_index False;
     mmio_region_write32 base offset register_value
   }"

definition mmio_region_nonatomic_set_bit32 :: "mmio_region \<Rightarrow> u32 \<Rightarrow> u32 \<Rightarrow> unit io" where
  "mmio_region_nonatomic_set_bit32 base offset bit_index = do {
     register_value \<leftarrow> mmio_region_read32 base offset;
     let register_value = bitfield_bit32_write register_value bit_index True;
     mmio_region_write32 base offset register_value
   }"

definition mmio_region_write_only_set_bit32 :: "mmio_region \<Rightarrow> u32 \<Rightarrow> u32 \<Rightarrow> unit io" where
  "mmio_region_write_only_set_bit32 base offset bit_index = do {
     let register_value = 0x0;
     let register_value = bitfield_bit32_write register_value bit_index True;
     mmio_region_write32 base offset register_value
   }"

section \<open>Block copies\<close>

text \<open>
  The buffer in main memory is the list of its bytes from the pointer on, the returned list
  its content afterwards; \<open>size_t\<close> counts are naturals below \<open>2^32\<close>.
\<close>

definition misalignment32_of :: "u32 \<Rightarrow> u32" where
  "misalignment32_of addr = addr mod 4"

text \<open>The loop over whole words, the last of which may be copied in part.\<close>

function mmio_memcpy32_words ::
  "mmio_region \<Rightarrow> u32 \<Rightarrow> u8 list \<Rightarrow> nat \<Rightarrow> bool \<Rightarrow> u8 list io" where
  "mmio_memcpy32_words base offset buf len from_mmio =
     (if len > 0 then
        (let bytes_to_copy = (if 4 > len then len else 4) in do {
           current_word \<leftarrow> (if from_mmio \<or> bytes_to_copy \<noteq> 4 then mmio_region_read32 base offset else ret 0);
           if from_mmio then do {
             rest \<leftarrow> mmio_memcpy32_words base (offset + of_nat bytes_to_copy)
               (drop bytes_to_copy buf) (len - bytes_to_copy) from_mmio;
             ret (take bytes_to_copy (word_bytes current_word) @ rest)
           } else do {
             _ \<leftarrow> mmio_region_write32 base offset
               (bytes_word (take bytes_to_copy buf @ drop bytes_to_copy (word_bytes current_word)));
             rest \<leftarrow> mmio_memcpy32_words base (offset + of_nat bytes_to_copy)
               (drop bytes_to_copy buf) (len - bytes_to_copy) from_mmio;
             ret (take bytes_to_copy buf @ rest)
           }
         })
      else ret buf)"
  by pat_completeness auto
termination
  by (relation "measure (\<lambda>(base, offset, buf, len, from_mmio). len)") auto

declare mmio_memcpy32_words.simps [simp del]

definition mmio_region_memcpy32 ::
  "mmio_region \<Rightarrow> u32 \<Rightarrow> u8 list \<Rightarrow> nat \<Rightarrow> bool \<Rightarrow> u8 list io" where
  "mmio_region_memcpy32 base offset buf len from_mmio =
     (if len = 0 then ret buf
      else
        (let misalignment = unat (misalignment32_of offset) in
         if misalignment \<noteq> 0 then
           (let realignment = (if 4 - misalignment > len then len else 4 - misalignment) in do {
              let current_word_offset = offset - of_nat misalignment;
              current_word \<leftarrow> mmio_region_read32 base current_word_offset;
              (if from_mmio then do {
                 rest \<leftarrow> mmio_memcpy32_words base (offset + of_nat realignment)
                   (drop realignment buf) (len - realignment) from_mmio;
                 ret (take realignment (drop misalignment (word_bytes current_word)) @ rest)
               } else do {
                 _ \<leftarrow> mmio_region_write32 base current_word_offset
                   (bytes_word (take misalignment (word_bytes current_word) @ take realignment buf
                      @ drop (misalignment + realignment) (word_bytes current_word)));
                 rest \<leftarrow> mmio_memcpy32_words base (offset + of_nat realignment)
                   (drop realignment buf) (len - realignment) from_mmio;
                 ret (take realignment buf @ rest)
               })
            })
         else mmio_memcpy32_words base offset buf len from_mmio))"

definition mmio_region_memcpy_from_mmio32 :: "mmio_region \<Rightarrow> u32 \<Rightarrow> u8 list \<Rightarrow> nat \<Rightarrow> u8 list io" where
  "mmio_region_memcpy_from_mmio32 base offset dest len = mmio_region_memcpy32 base offset dest len True"

definition mmio_region_memcpy_to_mmio32 :: "mmio_region \<Rightarrow> u32 \<Rightarrow> u8 list \<Rightarrow> nat \<Rightarrow> unit io" where
  "mmio_region_memcpy_to_mmio32 base offset src len = do {
     _ \<leftarrow> mmio_region_memcpy32 base offset src len False;
     ret ()
   }"

section \<open>Busy waiting\<close>

text \<open>\<open>while (cond()) {}\<close> may never end: not returning is the value \<open>None\<close>.\<close>

partial_function (option) spin_while :: "bool io \<Rightarrow> world \<Rightarrow> world option" where
  "spin_while cond w =
     (case run_state cond w of (b, w') \<Rightarrow> if b then spin_while cond w' else Some w')"

section \<open>What the accesses do to the world\<close>

abbreviation log :: "bus_event \<Rightarrow> world \<Rightarrow> world" where
  "log e w \<equiv> w\<lparr>trace := e # trace w\<rparr>"

lemma run_read32 [io_simps]:
  "run_state (mmio_region_read32 b off) w =
     (cur32 w (mmio_addr32 b off), log (Rd32 (mmio_addr32 b off) (cur32 w (mmio_addr32 b off))) w)"
  by (simp add: mmio_region_read32_def io_simps)

lemma run_write32 [io_simps]:
  "run_state (mmio_region_write32 b off v) w = ((), log (Wr32 (mmio_addr32 b off) v) w)"
  by (simp add: mmio_region_write32_def io_simps)

lemma run_if [io_simps]:
  "run_state (if b then m else n) w = (if b then run_state m w else run_state n w)"
  by simp

lemma run_do_if [io_simps]:
  "run_state (do_if b m) w = (if b then run_state m w else ((), w))"
  by (simp add: do_if_def)

text \<open>A read, then a write of a function of the value read: the shape of every nonatomic update.\<close>

definition modify32 :: "u32 \<Rightarrow> (u32 \<Rightarrow> u32) \<Rightarrow> world \<Rightarrow> world" where
  "modify32 a f w = log (Wr32 a (f (cur32 w a))) (log (Rd32 a (cur32 w a)) w)"

abbreviation all_ones :: u32 where
  "all_ones \<equiv> NOT 0"

lemmas mmio_nonatomic_defs =
  mmio_region_nonatomic_clear_mask32_def mmio_region_nonatomic_set_mask32_def
  mmio_region_nonatomic_set_field32_def mmio_region_nonatomic_clear_bit32_def
  mmio_region_nonatomic_set_bit32_def

lemmas mmio_write_only_defs =
  mmio_region_write_only_set_mask32_def mmio_region_write_only_set_field32_def
  mmio_region_write_only_set_bit32_def

lemma run_nonatomic [io_simps]:
  "run_state (mmio_region_nonatomic_clear_mask32 b off m i) w =
     ((), modify32 (mmio_addr32 b off) (\<lambda>r. bitfield_field32_write r \<lparr>field_mask = m, field_index = i\<rparr> 0) w)"
  "run_state (mmio_region_nonatomic_set_mask32 b off m i) w =
     ((), modify32 (mmio_addr32 b off) (\<lambda>r. bitfield_field32_write r \<lparr>field_mask = m, field_index = i\<rparr> all_ones) w)"
  "run_state (mmio_region_nonatomic_set_field32 b off f v) w =
     ((), modify32 (mmio_addr32 b off) (\<lambda>r. bitfield_field32_write r f v) w)"
  "run_state (mmio_region_nonatomic_clear_bit32 b off n) w =
     ((), modify32 (mmio_addr32 b off) (\<lambda>r. bitfield_bit32_write r n False) w)"
  "run_state (mmio_region_nonatomic_set_bit32 b off n) w =
     ((), modify32 (mmio_addr32 b off) (\<lambda>r. bitfield_bit32_write r n True) w)"
  by (simp_all add: mmio_nonatomic_defs modify32_def io_simps Let_def)

lemma run_write_only [io_simps]:
  "run_state (mmio_region_write_only_set_mask32 b off m i) w =
     ((), log (Wr32 (mmio_addr32 b off) (bitfield_field32_write 0 \<lparr>field_mask = m, field_index = i\<rparr> all_ones)) w)"
  "run_state (mmio_region_write_only_set_field32 b off f v) w =
     ((), log (Wr32 (mmio_addr32 b off) (bitfield_field32_write 0 f v)) w)"
  "run_state (mmio_region_write_only_set_bit32 b off n) w =
     ((), log (Wr32 (mmio_addr32 b off) (bitfield_bit32_write 0 n True)) w)"
  by (simp_all add: mmio_write_only_defs io_simps Let_def)

lemma run_get_bit32 [io_simps]:
  "run_state (mmio_region_get_bit32 b off n) w =
     (bit (cur32 w (mmio_addr32 b off)) (unat n),
      log (Rd32 (mmio_addr32 b off) (cur32 w (mmio_addr32 b off))) w)"
  by (simp add: mmio_region_get_bit32_def io_simps bit32_read_eq_bit)

lemma run_read_mask32 [io_simps]:
  "run_state (mmio_region_read_mask32 b off m i) w =
     (bitfield_field32_read (cur32 w (mmio_addr32 b off)) \<lparr>field_mask = m, field_index = i\<rparr>,
      log (Rd32 (mmio_addr32 b off) (cur32 w (mmio_addr32 b off))) w)"
  by (simp add: mmio_region_read_mask32_def io_simps)

section \<open>Plain registers\<close>

text \<open>A register that holds the last word written, or its initial value.\<close>

fun reg_file :: "(u32 \<Rightarrow> u32) \<Rightarrow> bus_event list \<Rightarrow> u32 \<Rightarrow> u32" where
  "reg_file init [] a = init a"
| "reg_file init (Wr32 b v # h) a = (if a = b then v else reg_file init h a)"
| "reg_file init (_ # h) a = reg_file init h a"

definition plain :: "(u32 \<Rightarrow> u32) \<Rightarrow> world \<Rightarrow> bool" where
  "plain init w \<longleftrightarrow> dev32 w = reg_file init"

definition plain_world :: "(u32 \<Rightarrow> u32) \<Rightarrow> world" where
  "plain_world init = \<lparr>dev32 = reg_file init, dev8 = (\<lambda>_ _. 0), trace = []\<rparr>"

lemma plain_plain_world [simp]: "plain init (plain_world init)"
  by (simp add: plain_def plain_world_def)

lemma cur32_plain_world [simp]: "cur32 (plain_world init) a = init a"
  by (simp add: cur32_def plain_world_def)

text \<open>
  The interface the drivers rely on where the hardware documents a register as plain storage:
  a load returns the stored word and changes nothing, a store changes that word only.
\<close>

locale word_memory =
  fixes inv :: "'s \<Rightarrow> bool"
    and ld :: "'s \<Rightarrow> u32 \<Rightarrow> u32"
    and rd :: "u32 \<Rightarrow> ('s, u32) state"
    and wr :: "u32 \<Rightarrow> u32 \<Rightarrow> ('s, unit) state"
  assumes rd_value: "inv s \<Longrightarrow> fst (run_state (rd a) s) = ld s a"
    and rd_frame: "inv s \<Longrightarrow> inv (snd (run_state (rd a) s)) \<and> ld (snd (run_state (rd a) s)) = ld s"
    and wr_update: "inv s \<Longrightarrow> inv (snd (run_state (wr a v) s)) \<and> ld (snd (run_state (wr a v) s)) = (ld s)(a := v)"
begin

lemma run_rd: "inv s \<Longrightarrow> \<exists>s'. run_state (rd a) s = (ld s a, s') \<and> inv s' \<and> ld s' = ld s"
  using rd_value rd_frame by (metis prod.collapse)

lemma run_wr: "inv s \<Longrightarrow> \<exists>s'. run_state (wr a v) s = ((), s') \<and> inv s' \<and> ld s' = (ld s)(a := v)"
  using wr_update by (metis prod.collapse old.unit.exhaust)

lemma write_then_read:
  "inv s \<Longrightarrow> fst (run_state (do { _ \<leftarrow> wr a v; rd b }) s) = (if b = a then v else ld s b)"
  using run_wr [of s a v] rd_value by fastforce

lemma read_modify_write:
  assumes "inv s"
  shows "inv (snd (run_state (do { v \<leftarrow> rd a; wr a (f v) }) s))
    \<and> ld (snd (run_state (do { v \<leftarrow> rd a; wr a (f v) }) s)) = (ld s)(a := f (ld s a))"
proof -
  obtain s1 where s1: "run_state (rd a) s = (ld s a, s1)" "inv s1" "ld s1 = ld s"
    using run_rd [OF assms] by blast
  obtain s2 where "run_state (wr a (f (ld s a))) s1 = ((), s2)" "inv s2" "ld s2 = (ld s1)(a := f (ld s a))"
    using run_wr [OF s1(2)] by blast
  with s1 show ?thesis by simp
qed

lemma write_all:
  assumes "inv s"
  shows "inv (snd (run_state (for_each is (\<lambda>i. wr (adr i) (val i))) s))
    \<and> ld (snd (run_state (for_each is (\<lambda>i. wr (adr i) (val i))) s)) =
        fold (\<lambda>i m. m(adr i := val i)) is (ld s)"
  using assms
proof (induction "is" arbitrary: s)
  case Nil
  then show ?case by simp
next
  case (Cons i "is")
  obtain s' where "run_state (wr (adr i) (val i)) s = ((), s')" "inv s'" "ld s' = (ld s)(adr i := val i)"
    using run_wr [OF Cons.prems] by blast
  with Cons.IH [of s'] show ?case by simp
qed

end

lemma plain_trace [simp]: "plain init (w\<lparr>trace := t\<rparr>) = plain init w"
  by (simp add: plain_def)

lemma cur32_plain_step [simp]:
  "plain init w \<Longrightarrow> cur32 (w\<lparr>trace := Rd32 a v # t\<rparr>) = cur32 (w\<lparr>trace := t\<rparr>)"
  "plain init w \<Longrightarrow> cur32 (w\<lparr>trace := Wr32 a v # t\<rparr>) = (cur32 (w\<lparr>trace := t\<rparr>))(a := v)"
  by (auto simp: plain_def cur32_def)

interpretation regs: word_memory "plain init" cur32 bus_read32 bus_write32
  by unfold_locales (simp_all add: io_simps)

lemma plain_modify [simp]:
  "plain init w \<Longrightarrow> plain init (modify32 a f w) \<and> cur32 (modify32 a f w) = (cur32 w)(a := f (cur32 w a))"
  by (simp add: modify32_def)

text \<open>The register at word index \<open>n\<close> of a region: distinct indices are distinct addresses.\<close>

definition reg_addr :: "mmio_region \<Rightarrow> nat \<Rightarrow> u32" where
  "reg_addr base n = mmio_base base + 4 * of_nat n"

lemma mmio_addr32_reg_addr: "offset = of_nat (4 * n) \<Longrightarrow> mmio_addr32 base offset = reg_addr base n"
  by (simp add: mmio_addr32_def mult4_div4 reg_addr_def)

lemma reg_addr_inject:
  assumes "m < 1073741824" "n < 1073741824"
  shows "reg_addr base m = reg_addr base n \<longleftrightarrow> m = n"
proof
  assume "reg_addr base m = reg_addr base n"
  then have "(of_nat (4 * m) :: u32) = of_nat (4 * n)" by (simp add: reg_addr_def)
  then have "4 * m mod 2 ^ 32 = 4 * n mod (2 ^ 32 :: nat)"
    by (simp only: word_unat_eq_iff unsigned_of_nat take_bit_eq_mod) simp
  with assms show "m = n" by simp
qed simp

text \<open>A loop that clears a set of registers.\<close>

lemma plain_clear_all:
  assumes "plain init w"
  shows "plain init (snd (run_state (for_each is (\<lambda>i. mmio_region_write32 b (off i) 0)) w))
    \<and> cur32 (snd (run_state (for_each is (\<lambda>i. mmio_region_write32 b (off i) 0)) w)) =
        (\<lambda>a. if a \<in> (\<lambda>i. mmio_addr32 b (off i)) ` set is then 0 else cur32 w a)"
  using assms
proof (induction "is" arbitrary: w)
  case Nil
  then show ?case by simp
next
  case (Cons i "is")
  then have "plain init (log (Wr32 (mmio_addr32 b (off i)) 0) w)" by simp
  from Cons.IH [OF this] show ?case using Cons.prems by (auto simp: io_simps fun_eq_iff)
qed

section \<open>Busy waiting: when a polling loop returns\<close>

text \<open>The world after the condition has been evaluated \<open>n\<close> times.\<close>

definition polls :: "bool io \<Rightarrow> nat \<Rightarrow> world \<Rightarrow> world" where
  "polls cond n w = ((\<lambda>w. snd (run_state cond w)) ^^ n) w"

lemma polls_0 [simp]: "polls cond 0 w = w"
  by (simp add: polls_def)

lemma polls_Suc [simp]: "polls cond (Suc n) w = polls cond n (snd (run_state cond w))"
  by (simp add: polls_def funpow_Suc_right del: funpow.simps)

lemma spin_while_returns:
  assumes "\<And>k. k < n \<Longrightarrow> fst (run_state cond (polls cond k w))"
    and "\<not> fst (run_state cond (polls cond n w))"
  shows "spin_while cond w = Some (polls cond (Suc n) w)"
  using assms
proof (induction n arbitrary: w)
  case 0
  then show ?case by (subst spin_while.simps) (simp add: case_prod_unfold)
next
  case (Suc n)
  have "fst (run_state cond w)" using Suc.prems(1) [of 0] by simp
  moreover have "spin_while cond (snd (run_state cond w)) = Some (polls cond (Suc (Suc n)) w)"
    using Suc.IH [of "snd (run_state cond w)"] Suc.prems(1) [of "Suc k" for k] Suc.prems(2) by simp
  ultimately show ?case by (subst spin_while.simps) (simp add: case_prod_unfold)
qed

lemma spin_while_SomeD:
  "spin_while cond w = Some w' \<Longrightarrow>
     \<exists>n. (\<forall>k < n. fst (run_state cond (polls cond k w))) \<and> \<not> fst (run_state cond (polls cond n w))
       \<and> w' = polls cond (Suc n) w"
proof (erule spin_while.raw_induct [rotated])
  fix spin cond w w'
  assume IH: "\<And>cond w w'. spin cond w = Some w' \<Longrightarrow>
      \<exists>n. (\<forall>k < n. fst (run_state cond (polls cond k w))) \<and> \<not> fst (run_state cond (polls cond n w))
        \<and> w' = polls cond (Suc n) w"
    and eq: "(case run_state cond w of (b, w1) \<Rightarrow> if b then spin cond w1 else Some w1) = Some w'"
  show "\<exists>n. (\<forall>k < n. fst (run_state cond (polls cond k w))) \<and> \<not> fst (run_state cond (polls cond n w))
      \<and> w' = polls cond (Suc n) w"
  proof (cases "fst (run_state cond w)")
    case True
    with eq have "spin cond (snd (run_state cond w)) = Some w'" by (simp add: case_prod_unfold)
    from IH [OF this] obtain n where n: "\<forall>k < n. fst (run_state cond (polls cond k (snd (run_state cond w))))"
      "\<not> fst (run_state cond (polls cond n (snd (run_state cond w))))"
      "w' = polls cond (Suc n) (snd (run_state cond w))" by blast
    have "fst (run_state cond (polls cond k w))" if "k < Suc n" for k
      using that n(1) True by (cases k) auto
    with n show ?thesis by (intro exI [of _ "Suc n"]) simp
  next
    case False
    with eq show ?thesis by (intro exI [of _ 0]) (simp add: case_prod_unfold)
  qed
qed

text \<open>A loop whose condition never becomes false does not return.\<close>

lemma spin_while_diverges:
  "(\<And>k. fst (run_state cond (polls cond k w))) \<Longrightarrow> spin_while cond w = None"
  using spin_while_SomeD [of cond w] by (cases "spin_while cond w") auto

lemma spin_while_returns_iff:
  "(\<exists>w'. spin_while cond w = Some w') \<longleftrightarrow> (\<exists>n. \<not> fst (run_state cond (polls cond n w)))"
proof
  assume "\<exists>w'. spin_while cond w = Some w'"
  then show "\<exists>n. \<not> fst (run_state cond (polls cond n w))" using spin_while_SomeD by blast
next
  assume "\<exists>n. \<not> fst (run_state cond (polls cond n w))"
  then obtain n where "\<not> fst (run_state cond (polls cond n w))"
    and "\<And>k. k < n \<Longrightarrow> fst (run_state cond (polls cond k w))"
    using exists_least_iff [of "\<lambda>n. \<not> fst (run_state cond (polls cond n w))"] by blast
  then show "\<exists>w'. spin_while cond w = Some w'" using spin_while_returns by blast
qed

text \<open>A polling loop that returns has seen its condition false once, at the end.\<close>

lemma spin_while_last:
  assumes "spin_while cond w = Some w'"
  shows "\<exists>w0. \<not> fst (run_state cond w0) \<and> w' = snd (run_state cond w0)"
proof -
  from spin_while_SomeD [OF assms] obtain n where
    "\<not> fst (run_state cond (polls cond n w))" "w' = polls cond (Suc n) w" by blast
  moreover have "polls cond (Suc n) w = snd (run_state cond (polls cond n w))"
    by (simp add: polls_def)
  ultimately show ?thesis by blast
qed

lemma spin_while_invariant:
  assumes "spin_while cond w = Some w'" and "P w"
    and "\<And>w. P w \<Longrightarrow> P (snd (run_state cond w))"
  shows "P w'"
proof -
  have "P (polls cond n w)" for n
    using assms(2,3) by (induction n) (simp_all add: polls_def)
  with spin_while_SomeD [OF assms(1)] show ?thesis by blast
qed

section \<open>Reading a trace\<close>

text \<open>The words written to, and read from, an address, in the order of the accesses.\<close>

fun writes_to :: "u32 \<Rightarrow> bus_event list \<Rightarrow> u32 list" where
  "writes_to a [] = []"
| "writes_to a (Wr32 b v # h) = writes_to a h @ (if b = a then [v] else [])"
| "writes_to a (_ # h) = writes_to a h"

fun reads_from :: "u32 \<Rightarrow> bus_event list \<Rightarrow> u32 list" where
  "reads_from a [] = []"
| "reads_from a (Rd32 b v # h) = reads_from a h @ (if b = a then [v] else [])"
| "reads_from a (_ # h) = reads_from a h"

text \<open>All writes, with their addresses, in the order of the accesses.\<close>

fun bus_writes :: "bus_event list \<Rightarrow> (u32 \<times> u32) list" where
  "bus_writes [] = []"
| "bus_writes (Wr32 a v # h) = bus_writes h @ [(a, v)]"
| "bus_writes (_ # h) = bus_writes h"

end
