(* ===== verification/MmioCopy.thy ===== *)
theory MmioCopy
  imports Mmio
begin

text \<open>
  What the block copies of \<open>mmio.c\<close> do on plain storage. Word storage is viewed as bytes
  (little-endian), indexed by natural addresses; writing a block of bytes is the function
  \<open>upd_bytes\<close>, and the word-by-word loop with its two partial words implements it.
\<close>

section \<open>The byte view of word storage\<close>

definition mem_byte :: "(u32 \<Rightarrow> u32) \<Rightarrow> nat \<Rightarrow> u8" where
  "mem_byte ld n = byte_of (ld (of_nat (4 * (n div 4)))) (n mod 4)"

definition mem_bytes :: "(u32 \<Rightarrow> u32) \<Rightarrow> nat \<Rightarrow> nat \<Rightarrow> u8 list" where
  "mem_bytes ld a n = map (mem_byte ld) [a..<a + n]"

definition upd_bytes :: "(nat \<Rightarrow> u8) \<Rightarrow> nat \<Rightarrow> u8 list \<Rightarrow> nat \<Rightarrow> u8" where
  "upd_bytes f a xs n = (if a \<le> n \<and> n < a + length xs then xs ! (n - a) else f n)"

text \<open>Two views agree on the addresses of the 32-bit space.\<close>

definition same_bytes :: "(nat \<Rightarrow> u8) \<Rightarrow> (nat \<Rightarrow> u8) \<Rightarrow> bool" where
  "same_bytes f g \<longleftrightarrow> (\<forall>n < 4294967296. f n = g n)"

lemma length_mem_bytes [simp]: "length (mem_bytes ld a n) = n"
  by (simp add: mem_bytes_def)

lemma mem_bytes_0 [simp]: "mem_bytes ld a 0 = []"
  by (simp add: mem_bytes_def)

lemma mem_bytes_add: "mem_bytes ld a (m + n) = mem_bytes ld a m @ mem_bytes ld (a + m) n"
  using upt_add_eq_append [of a "a + m" n] by (simp add: mem_bytes_def add.assoc)

lemma upd_bytes_append: "upd_bytes f a (xs @ ys) = upd_bytes (upd_bytes f a xs) (a + length xs) ys"
  by (auto simp: upd_bytes_def nth_append fun_eq_iff)

lemma upd_bytes_Nil [simp]: "upd_bytes f a [] = f"
  by (auto simp: upd_bytes_def fun_eq_iff)

lemma same_bytes_refl [simp]: "same_bytes f f"
  by (simp add: same_bytes_def)

lemma same_bytes_trans [trans]: "same_bytes f g \<Longrightarrow> same_bytes g h \<Longrightarrow> same_bytes f h"
  by (simp add: same_bytes_def)

lemma same_bytes_upd: "same_bytes f g \<Longrightarrow> same_bytes (upd_bytes f a xs) (upd_bytes g a xs)"
  by (auto simp: same_bytes_def upd_bytes_def)

lemma of_nat_u32_inject: "m < 4294967296 \<Longrightarrow> n < 4294967296 \<Longrightarrow> (of_nat m :: u32) = of_nat n \<longleftrightarrow> m = n"
  by (simp add: word_of_nat_eq_iff take_bit_nat_eq_self)

lemma word_div_4_mult: "4 * (off div (4 :: u32)) = of_nat (4 * (unat off div 4))"
proof -
  have "off div 4 = of_nat (unat off div unat (4 :: u32))"
    by (rule word_arith_nat_div)
  then have "off div 4 = of_nat (unat off div 4)" by (subst (asm) unat_numeral) simp
  then show ?thesis by (simp only: of_nat_mult of_nat_numeral)
qed

lemma aligned_word:
  assumes "4 dvd N" "N \<le> n" "n < N + (4 :: nat)"
  shows "n div 4 = N div 4 \<and> n mod 4 = n - N"
proof -
  obtain m where m: "N = 4 * m" using assms(1) by (rule dvdE)
  then have "n div 4 = m" using assms(2,3) by (intro div_nat_eqI) auto
  then show ?thesis using m minus_mult_div_eq_mod [of n 4] by simp
qed

lemma aligned_word_iff:
  assumes "4 dvd N"
  shows "4 * (n div 4) = N \<longleftrightarrow> N \<le> n \<and> n < N + (4 :: nat)"
proof
  assume N: "4 * (n div 4) = N"
  have "4 * (n div 4) + n mod 4 = n" by (rule mult_div_mod_eq)
  then have n: "N + n mod 4 = n" unfolding N .
  have "N + n mod 4 < N + 4" by (rule add_strict_left_mono) simp
  then have "n < N + 4" unfolding n .
  moreover have "N \<le> N + n mod 4" by (rule le_add1)
  then have "N \<le> n" unfolding n .
  ultimately show "N \<le> n \<and> n < N + 4" by blast
next
  assume "N \<le> n \<and> n < N + 4"
  then have "n div 4 = N div 4" using aligned_word [OF assms] by blast
  then show "4 * (n div 4) = N" by (simp only: dvd_mult_div_cancel [OF assms])
qed

lemma upd_word_bytes:
  assumes "n < 4294967296" "4 dvd N" "N < 4294967296"
  shows "mem_byte (ld(of_nat N := v)) n = (if N \<le> n \<and> n < N + 4 then byte_of v (n - N) else mem_byte ld n)"
proof -
  have "(of_nat (4 * (n div 4)) :: u32) = of_nat N \<longleftrightarrow> 4 * (n div 4) = N"
    using assms by (intro of_nat_u32_inject) auto
  moreover have "4 * (n div 4) = N \<longleftrightarrow> N \<le> n \<and> n < N + 4"
    using assms(2) by (rule aligned_word_iff)
  moreover have "n mod 4 = n - N" if "N \<le> n \<and> n < N + 4"
    using that aligned_word [OF assms(2)] by blast
  ultimately show ?thesis by (auto simp: mem_byte_def)
qed

text \<open>Splicing bytes into the word at \<open>N\<close> and storing it.\<close>

lemma splice_word:
  assumes "4 dvd N" "N < 4294967296" "q + length xs \<le> 4"
  shows "same_bytes
    (mem_byte (ld(of_nat N := bytes_word (take q (word_bytes (ld (of_nat N))) @ xs
        @ drop (q + length xs) (word_bytes (ld (of_nat N)))))))
    (upd_bytes (mem_byte ld) (N + q) xs)"
  unfolding same_bytes_def
proof (intro allI impI)
  fix n :: nat
  assume n: "n < 4294967296"
  let ?w = "ld (of_nat N)"
  let ?bs = "take q (word_bytes ?w) @ xs @ drop (q + length xs) (word_bytes ?w)"
  have len: "length ?bs = 4" using assms(3) by simp
  show "mem_byte (ld(of_nat N := bytes_word ?bs)) n = upd_bytes (mem_byte ld) (N + q) xs n"
  proof (cases "N \<le> n \<and> n < N + 4")
    case True
    then have "n div 4 = N div 4" "n mod 4 = n - N" using aligned_word [OF assms(1)] by blast+
    then have old: "mem_byte ld n = byte_of ?w (n - N)"
      using assms(1) by (simp add: mem_byte_def)
    have "mem_byte (ld(of_nat N := bytes_word ?bs)) n = ?bs ! (n - N)"
      using True n assms(1,2) byte_of_bytes_word [OF len, of "n - N"] by (simp only: upd_word_bytes) auto
    also have "\<dots> = upd_bytes (mem_byte ld) (N + q) xs n"
      using True assms(3) by (auto simp: upd_bytes_def nth_append old)
    finally show ?thesis .
  next
    case False
    then show ?thesis
      using n assms by (auto simp: upd_word_bytes upd_bytes_def)
  qed
qed

lemma mem_bytes_word:
  assumes "4 dvd N" "N < 4294967296" "q + k \<le> 4"
  shows "mem_bytes ld (N + q) k = take k (drop q (word_bytes (ld (of_nat N))))"
proof (rule nth_equalityI)
  fix i
  assume "i < length (mem_bytes ld (N + q) k)"
  then have i: "i < k" by simp
  then have "(N + q + i) div 4 = N div 4" "(N + q + i) mod 4 = q + i"
    using assms aligned_word [OF assms(1), of "N + q + i"] by auto
  then show "mem_bytes ld (N + q) k ! i = take k (drop q (word_bytes (ld (of_nat N)))) ! i"
    using i assms by (simp add: mem_bytes_def mem_byte_def)
qed (use assms in simp)

section \<open>The copy loops\<close>

text \<open>Addresses of the region: the base and the block are word-aligned and inside the space.\<close>

lemma mmio_addr32_nat:
  assumes "4 dvd unat (mmio_base b)" "unat (mmio_base b) + unat off < 4294967296"
  shows "mmio_addr32 b off = of_nat (unat (mmio_base b) + 4 * (unat off div 4))"
  unfolding mmio_addr32_def word_div_4_mult by simp

lemma words_to_mmio_step:
  assumes "plain init w" "4 dvd unat (mmio_base b)" "4 dvd unat off"
    and "unat (mmio_base b) + unat off + len \<le> 4294967296" "len \<le> length buf" "0 < len"
  defines "k \<equiv> if 4 > len then len else 4"
  obtains w2 where "plain init w2"
    "same_bytes (mem_byte (cur32 w2)) (upd_bytes (mem_byte (cur32 w)) (unat (mmio_base b) + unat off) (take k buf))"
    "snd (run_state (mmio_memcpy32_words b off buf len False) w) =
      snd (run_state (mmio_memcpy32_words b (off + of_nat k) (drop k buf) (len - k) False) w2)"
proof
  define N where "N = unat (mmio_base b) + unat off"
  have N: "4 dvd N" "N < 4294967296" using assms by (auto simp: N_def)
  have addr: "mmio_addr32 b off = of_nat N"
    using assms by (simp add: mmio_addr32_nat N_def)
  define cw where "cw = (if k \<noteq> 4 then cur32 w (of_nat N) else 0)"
  define v where "v = bytes_word (take k buf @ drop k (word_bytes cw))"
  define w1 where "w1 = (if k \<noteq> 4 then log (Rd32 (of_nat N) (cur32 w (of_nat N))) w else w)"
  define w2 where "w2 = log (Wr32 (of_nat N) v) w1"
  show "plain init w2" using assms(1) by (auto simp: w2_def w1_def)
  have w2: "cur32 w2 = (cur32 w)(of_nat N := v)"
    using assms(1) by (auto simp: w2_def w1_def)
  have k: "k \<le> 4" "k \<le> len" by (simp_all add: k_def)
  have v: "v = bytes_word (take 0 (word_bytes (cur32 w (of_nat N))) @ take k buf
      @ drop (0 + length (take k buf)) (word_bytes (cur32 w (of_nat N))))"
  proof -
    have "length (take k buf) = k" using assms(5) k by simp
    then show ?thesis by (cases "k = 4") (simp_all add: v_def cw_def)
  qed
  show "same_bytes (mem_byte (cur32 w2)) (upd_bytes (mem_byte (cur32 w)) (unat (mmio_base b) + unat off) (take k buf))"
    using splice_word [OF N, of 0 "take k buf" "cur32 w"] k(1) unfolding w2 v N_def [symmetric] by simp
  show "snd (run_state (mmio_memcpy32_words b off buf len False) w) =
      snd (run_state (mmio_memcpy32_words b (off + of_nat k) (drop k buf) (len - k) False) w2)"
    using assms(6)
    by (subst mmio_memcpy32_words.simps)
      (auto simp: Let_def k_def [symmetric] io_simps addr w2_def w1_def v_def cw_def case_prod_unfold)
qed

lemma unat_add_le:
  "unat (off :: u32) + k < 4294967296 \<Longrightarrow> unat (off + of_nat k) = unat off + k"
  by (simp add: unat_word_ariths take_bit_nat_eq_self unat_of_nat)

lemma words_to_mmio:
  assumes "plain init w" "4 dvd unat (mmio_base b)" "4 dvd unat off"
    and "unat (mmio_base b) + unat off + len \<le> 4294967296" "len \<le> length buf"
  shows "plain init (snd (run_state (mmio_memcpy32_words b off buf len False) w))
    \<and> same_bytes (mem_byte (cur32 (snd (run_state (mmio_memcpy32_words b off buf len False) w))))
        (upd_bytes (mem_byte (cur32 w)) (unat (mmio_base b) + unat off) (take len buf))"
  using assms
proof (induction len arbitrary: off buf w rule: less_induct)
  case (less len)
  define k where "k = (if 4 > len then len else 4)"
  define N where "N = unat (mmio_base b) + unat off"
  have k: "0 < len \<Longrightarrow> 0 < k" "k \<le> len" "len - k > 0 \<Longrightarrow> k = 4" by (auto simp: k_def split: if_splits)
  show ?case
  proof (cases "len = 0")
    case True
    then show ?thesis
      using less.prems by (simp add: mmio_memcpy32_words.simps [of b off buf 0])
  next
    case False
    obtain w2 where w2: "plain init w2"
      "same_bytes (mem_byte (cur32 w2)) (upd_bytes (mem_byte (cur32 w)) N (take k buf))"
      and unfold: "snd (run_state (mmio_memcpy32_words b off buf len False) w) =
        snd (run_state (mmio_memcpy32_words b (off + of_nat k) (drop k buf) (len - k) False) w2)"
      using words_to_mmio_step [OF less.prems] False unfolding k_def N_def by blast
    have IH: "plain init (snd (run_state (mmio_memcpy32_words b (off + of_nat k) (drop k buf) (len - k) False) w2))
      \<and> same_bytes (mem_byte (cur32 (snd (run_state (mmio_memcpy32_words b (off + of_nat k) (drop k buf) (len - k) False) w2))))
          (upd_bytes (mem_byte (cur32 w2)) (N + k) (take (len - k) (drop k buf)))"
    proof (cases "len - k = 0")
      case True
      then show ?thesis using w2(1) by (simp add: mmio_memcpy32_words.simps [of _ _ _ 0])
    next
      case more: False
      then have "unat (off + of_nat k) = unat off + k" "k = 4"
        using k less.prems(4) unat_add_le [of off k] by simp_all
      then show ?thesis
        using less.IH [of "len - k" w2 "off + of_nat k" "drop k buf"] less.prems w2(1) more
        by (auto simp: N_def add.assoc)
    qed
    have "take len buf = take k buf @ take (len - k) (drop k buf)"
      using k(2) by (metis le_add_diff_inverse take_add)
    moreover have "length (take k buf) = k" using k(2) less.prems(5) by simp
    ultimately have "same_bytes (upd_bytes (mem_byte (cur32 w2)) (N + k) (take (len - k) (drop k buf)))
        (upd_bytes (mem_byte (cur32 w)) N (take len buf))"
      using same_bytes_upd [OF w2(2)] by (simp only: upd_bytes_append)
    then show ?thesis
      using IH same_bytes_trans unfolding unfold N_def by blast
  qed
qed

lemma words_0 [simp]: "mmio_memcpy32_words b off buf 0 from_mmio = ret buf"
  by (subst mmio_memcpy32_words.simps) simp

lemma words_from_mmio:
  assumes "plain init w" "4 dvd unat (mmio_base b)" "4 dvd unat off"
    and "unat (mmio_base b) + unat off + len \<le> 4294967296"
  shows "\<exists>w'. run_state (mmio_memcpy32_words b off buf len True) w =
      (mem_bytes (cur32 w) (unat (mmio_base b) + unat off) len @ drop len buf, w')
    \<and> plain init w' \<and> cur32 w' = cur32 w"
  using assms
proof (induction len arbitrary: off buf w rule: less_induct)
  case (less len)
  define k where "k = (if 4 > len then len else 4)"
  define N where "N = unat (mmio_base b) + unat off"
  show ?case
  proof (cases "len = 0")
    case True
    then show ?thesis using less.prems by simp
  next
    case False
    have k: "0 < k" "k \<le> 4" "k \<le> len" "len - k > 0 \<Longrightarrow> k = 4" using False by (auto simp: k_def)
    have N: "4 dvd N" "N < 4294967296" using less.prems False by (auto simp: N_def)
    have addr: "mmio_addr32 b off = of_nat N"
      using less.prems N(2) by (simp add: mmio_addr32_nat N_def)
    define w1 where "w1 = log (Rd32 (of_nat N) (cur32 w (of_nat N))) w"
    have w1: "plain init w1" "cur32 w1 = cur32 w" using less.prems(1) by (auto simp: w1_def)
    have step: "run_state (mmio_memcpy32_words b off buf len True) w =
        (case run_state (mmio_memcpy32_words b (off + of_nat k) (drop k buf) (len - k) True) w1 of
          (rest, w') \<Rightarrow> (take k (word_bytes (cur32 w (of_nat N))) @ rest, w'))"
      using False by (subst mmio_memcpy32_words.simps)
        (auto simp: Let_def k_def [symmetric] io_simps addr w1_def)
    have "\<exists>w'. run_state (mmio_memcpy32_words b (off + of_nat k) (drop k buf) (len - k) True) w1 =
        (mem_bytes (cur32 w) (N + k) (len - k) @ drop len buf, w') \<and> plain init w' \<and> cur32 w' = cur32 w"
    proof (cases "len - k = 0")
      case True
      then show ?thesis using w1 k(3) by simp
    next
      case more: False
      then have "unat (off + of_nat k) = unat off + k" "k = 4"
        using k less.prems(4) unat_add_le [of off k] by simp_all
      then show ?thesis
        using less.IH [of "len - k" w1 "off + of_nat k" "drop k buf"] less.prems w1 more
        by (auto simp: N_def add.assoc)
    qed
    moreover have "take k (word_bytes (cur32 w (of_nat N))) @ mem_bytes (cur32 w) (N + k) (len - k) =
        mem_bytes (cur32 w) N len"
      using mem_bytes_word [OF N, of 0 k "cur32 w"] mem_bytes_add [of "cur32 w" N k "len - k"] k by simp
    ultimately show ?thesis unfolding step N_def [symmetric] by (auto simp: append_assoc [symmetric])
  qed
qed

text \<open>A block that starts within a word: the offset of that word and the bytes up to its end.\<close>

lemma misaligned_word:
  assumes "unat (misalignment32_of off) = mis" "4 dvd unat (mmio_base b)"
    and "unat (mmio_base b) + unat off < 4294967296"
  shows "mmio_addr32 b (off - of_nat mis) = of_nat (unat (mmio_base b) + unat off - mis)"
    and "4 dvd unat (mmio_base b) + unat off - mis" and "mis < 4" and "mis \<le> unat off"
    and "mis = 0 \<longleftrightarrow> 4 dvd unat off" and "r + mis = 4 \<Longrightarrow> 4 dvd unat off + r"
proof -
  have mis: "mis = unat off mod 4"
    using assms(1) by (simp add: misalignment32_of_def unat_mod)
  then show "mis < 4" and le: "mis \<le> unat off" and "mis = 0 \<longleftrightarrow> 4 dvd unat off"
    by auto
  have off: "unat (off - of_nat mis) = unat off - mis"
  proof -
    have m: "unat (of_nat mis :: u32) = mis" using \<open>mis < 4\<close> by (intro unat_of_nat_u32) simp
    then have "of_nat mis \<le> off" using le by (simp add: word_le_nat_alt)
    then show ?thesis using m by (simp add: unat_sub)
  qed
  have eq: "unat off - mis = 4 * (unat off div 4)"
    unfolding mis by (rule minus_mod_eq_mult_div)
  show "4 dvd unat (mmio_base b) + unat off - mis"
    using eq le assms(2) by (metis Nat.add_diff_assoc dvd_add dvd_triv_left)
  show "mmio_addr32 b (off - of_nat mis) = of_nat (unat (mmio_base b) + unat off - mis)"
  proof -
    have sum: "unat (mmio_base b) + unat off - mis = unat (mmio_base b) + 4 * (unat (off - of_nat mis) div 4)"
      using off eq le by simp
    show ?thesis
      unfolding sum by (rule mmio_addr32_nat [OF assms(2)]) (use assms(3) off in linarith)
  qed
  show "4 dvd unat off + r" if "r + mis = 4"
  proof -
    have "unat off + r = (unat off - mis) + (r + mis)" using le by simp
    also have "\<dots> = 4 * (unat off div 4 + 1)" unfolding eq that by simp
    finally show ?thesis by simp
  qed
qed

lemma memcpy32_to_mmio:
  assumes "plain init w" "4 dvd unat (mmio_base b)"
    and "unat (mmio_base b) + unat off + len \<le> 4294967296" "len \<le> length buf"
  shows "plain init (snd (run_state (mmio_region_memcpy32 b off buf len False) w))
    \<and> same_bytes (mem_byte (cur32 (snd (run_state (mmio_region_memcpy32 b off buf len False) w))))
        (upd_bytes (mem_byte (cur32 w)) (unat (mmio_base b) + unat off) (take len buf))"
proof -
  define mis where "mis = unat (misalignment32_of off)"
  define r where "r = (if 4 - mis > len then len else 4 - mis)"
  define N where "N = unat (mmio_base b) + unat off - mis"
  show ?thesis
  proof (cases "len = 0 \<or> mis = 0")
    case True
    then show ?thesis
      using assms words_to_mmio [OF assms(1,2) _ assms(3,4)] misaligned_word [of off mis b]
      by (cases "len = 0") (auto simp: mmio_region_memcpy32_def Let_def mis_def)
  next
    case False
    then have len: "0 < len" "mis \<noteq> 0" by auto
    have m: "mmio_addr32 b (off - of_nat mis) = of_nat N" "4 dvd N" "mis < 4" "mis \<le> unat off"
      "r + mis = 4 \<Longrightarrow> 4 dvd unat off + r"
      using misaligned_word(1-5) [of off mis b] misaligned_word(6) [of off mis b r] assms len
      by (auto simp: mis_def N_def)
    have r: "mis + r \<le> 4" "r \<le> len" "len - r > 0 \<Longrightarrow> r + mis = 4"
      using m(3) by (auto simp: r_def split: if_splits)
    have N: "N < 4294967296" "N + mis = unat (mmio_base b) + unat off"
      using assms(3) len m(4) by (auto simp: N_def)
    have lr: "length (take r buf) = r" using assms(4) r(2) by simp
    let ?cw = "cur32 w (of_nat N)"
    define w2 where "w2 = log (Wr32 (of_nat N) (bytes_word (take mis (word_bytes ?cw) @ take r buf
        @ drop (mis + r) (word_bytes ?cw)))) (log (Rd32 (of_nat N) ?cw) w)"
    have w2: "plain init w2"
      "same_bytes (mem_byte (cur32 w2)) (upd_bytes (mem_byte (cur32 w)) (N + mis) (take r buf))"
      using splice_word [OF m(2) N(1), of mis "take r buf" "cur32 w"] assms(1) r(1) lr
      by (simp_all add: w2_def)
    have run: "snd (run_state (mmio_region_memcpy32 b off buf len False) w) =
        snd (run_state (mmio_memcpy32_words b (off + of_nat r) (drop r buf) (len - r) False) w2)"
      using len m(1) unfolding mmio_region_memcpy32_def
      by (simp add: Let_def mis_def [symmetric] r_def [symmetric] io_simps w2_def case_prod_unfold)
    have rest: "plain init (snd (run_state (mmio_memcpy32_words b (off + of_nat r) (drop r buf) (len - r) False) w2))
      \<and> same_bytes (mem_byte (cur32 (snd (run_state (mmio_memcpy32_words b (off + of_nat r) (drop r buf) (len - r) False) w2))))
          (upd_bytes (mem_byte (cur32 w2)) (N + mis + r) (take (len - r) (drop r buf)))"
    proof (cases "len - r = 0")
      case True
      then show ?thesis using w2(1) by simp
    next
      case more: False
      then have "unat (off + of_nat r) = unat off + r" "4 dvd unat off + r"
        using r m(5) assms(3) unat_add_le [of off r] by simp_all
      then show ?thesis
        using words_to_mmio [OF w2(1) assms(2), of "off + of_nat r" "len - r" "drop r buf"] assms more
        by (simp add: N add.assoc)
    qed
    have "take len buf = take r buf @ take (len - r) (drop r buf)"
      using r(2) by (metis le_add_diff_inverse take_add)
    then have "same_bytes (upd_bytes (mem_byte (cur32 w2)) (N + mis + r) (take (len - r) (drop r buf)))
        (upd_bytes (mem_byte (cur32 w)) (N + mis) (take len buf))"
      using same_bytes_upd [OF w2(2)] lr by (simp only: upd_bytes_append)
    then show ?thesis
      using rest same_bytes_trans unfolding run N(2) [symmetric] by blast
  qed
qed

lemma memcpy32_from_mmio:
  assumes "plain init w" "4 dvd unat (mmio_base b)"
    and "unat (mmio_base b) + unat off + len \<le> 4294967296"
  shows "\<exists>w'. run_state (mmio_region_memcpy32 b off buf len True) w =
      (mem_bytes (cur32 w) (unat (mmio_base b) + unat off) len @ drop len buf, w')
    \<and> plain init w' \<and> cur32 w' = cur32 w"
proof -
  define mis where "mis = unat (misalignment32_of off)"
  define r where "r = (if 4 - mis > len then len else 4 - mis)"
  define N where "N = unat (mmio_base b) + unat off - mis"
  show ?thesis
  proof (cases "len = 0 \<or> mis = 0")
    case True
    then show ?thesis
      using assms words_from_mmio [OF assms(1,2) _ assms(3)] misaligned_word [of off mis b]
      by (cases "len = 0") (auto simp: mmio_region_memcpy32_def Let_def mis_def)
  next
    case False
    then have len: "0 < len" "mis \<noteq> 0" by auto
    have m: "mmio_addr32 b (off - of_nat mis) = of_nat N" "4 dvd N" "mis < 4" "mis \<le> unat off"
      "r + mis = 4 \<Longrightarrow> 4 dvd unat off + r"
      using misaligned_word(1-5) [of off mis b] misaligned_word(6) [of off mis b r] assms len
      by (auto simp: mis_def N_def)
    have r: "mis + r \<le> 4" "r \<le> len" "len - r > 0 \<Longrightarrow> r + mis = 4"
      using m(3) by (auto simp: r_def split: if_splits)
    have N: "N < 4294967296" "N + mis = unat (mmio_base b) + unat off"
      using assms(3) len m(4) by (auto simp: N_def)
    define w1 where "w1 = log (Rd32 (of_nat N) (cur32 w (of_nat N))) w"
    have w1: "plain init w1" "cur32 w1 = cur32 w" using assms(1) by (auto simp: w1_def)
    have run: "run_state (mmio_region_memcpy32 b off buf len True) w =
        (case run_state (mmio_memcpy32_words b (off + of_nat r) (drop r buf) (len - r) True) w1 of
          (rest, w') \<Rightarrow> (take r (drop mis (word_bytes (cur32 w (of_nat N)))) @ rest, w'))"
      using len m(1) unfolding mmio_region_memcpy32_def
      by (simp add: Let_def mis_def [symmetric] r_def [symmetric] io_simps w1_def)
    have "\<exists>w'. run_state (mmio_memcpy32_words b (off + of_nat r) (drop r buf) (len - r) True) w1 =
        (mem_bytes (cur32 w) (N + mis + r) (len - r) @ drop len buf, w') \<and> plain init w' \<and> cur32 w' = cur32 w"
    proof (cases "len - r = 0")
      case True
      then show ?thesis using w1 r(2) by simp
    next
      case more: False
      then have "unat (off + of_nat r) = unat off + r" "4 dvd unat off + r"
        using r m(5) assms(3) unat_add_le [of off r] by simp_all
      then show ?thesis
        using words_from_mmio [OF w1(1) assms(2), of "off + of_nat r" "len - r" "drop r buf"] assms w1 more
        by (auto simp: N add.assoc)
    qed
    moreover have "take r (drop mis (word_bytes (cur32 w (of_nat N)))) @ mem_bytes (cur32 w) (N + mis + r) (len - r) =
        mem_bytes (cur32 w) (N + mis) len"
      using mem_bytes_word [OF m(2) N(1) r(1), of "cur32 w"] mem_bytes_add [of "cur32 w" "N + mis" r "len - r"] r(2)
      by simp
    ultimately show ?thesis unfolding run N(2) [symmetric] by (auto simp: append_assoc [symmetric])
  qed
qed

section \<open>Properties\<close>

text \<open>
  A block of bytes copied to plain storage with \<open>mmio_region_memcpy_to_mmio32\<close>, at any alignment
  and of any length, replaces exactly the bytes of the block: every other byte of the storage,
  those sharing a word with the block's ends included, keeps its value.
\<close>

lemma memcpy_to_mmio32_writes_block:
  assumes "plain init w" "4 dvd unat (mmio_base b)"
    and "unat (mmio_base b) + unat off + len \<le> 4294967296" "len \<le> length src"
    and "n < 4294967296"
  shows "mem_byte (cur32 (snd (run_state (mmio_region_memcpy_to_mmio32 b off src len) w))) n =
    (let start = unat (mmio_base b) + unat off in
     if start \<le> n \<and> n < start + len then src ! (n - start) else mem_byte (cur32 w) n)"
proof -
  have "snd (run_state (mmio_region_memcpy_to_mmio32 b off src len) w) =
      snd (run_state (mmio_region_memcpy32 b off src len False) w)"
    by (simp add: mmio_region_memcpy_to_mmio32_def case_prod_unfold)
  then show ?thesis
    using memcpy32_to_mmio [OF assms(1-4)] assms(4,5)
    by (auto simp: same_bytes_def upd_bytes_def Let_def)
qed

lemma memcpy_to_mmio32_writes_block_witness:
  "mem_byte (cur32 (snd (run_state (mmio_region_memcpy_to_mmio32 \<lparr>mmio_base = 0x1000\<rparr> 3 [1, 2, 3] 3)
     (plain_world (\<lambda>_. 0xaabbccdd))))) 0x1004 = 2"
  using memcpy_to_mmio32_writes_block [of "\<lambda>_. 0xaabbccdd" "plain_world (\<lambda>_. 0xaabbccdd)"
      "\<lparr>mmio_base = 0x1000\<rparr>" 3 3 "[1, 2, 3]" "0x1004"]
  by (simp add: Let_def)

text \<open>
  Round trip through device memory: what \<open>mmio_region_memcpy_to_mmio32\<close> wrote,
  \<open>mmio_region_memcpy_from_mmio32\<close> reads back, at any alignment and length.
\<close>

lemma memcpy_mmio32_roundtrip:
  assumes "plain init w" "4 dvd unat (mmio_base b)"
    and "unat (mmio_base b) + unat off + len \<le> 4294967296" "length src = len" "length dest = len"
  shows "fst (run_state (do {
      _ \<leftarrow> mmio_region_memcpy_to_mmio32 b off src len;
      mmio_region_memcpy_from_mmio32 b off dest len
    }) w) = src"
proof -
  define w1 where "w1 = snd (run_state (mmio_region_memcpy_to_mmio32 b off src len) w)"
  have eq: "w1 = snd (run_state (mmio_region_memcpy32 b off src len False) w)"
    by (simp add: w1_def mmio_region_memcpy_to_mmio32_def case_prod_unfold)
  have w1: "plain init w1"
    "same_bytes (mem_byte (cur32 w1)) (upd_bytes (mem_byte (cur32 w)) (unat (mmio_base b) + unat off) src)"
    using memcpy32_to_mmio [OF assms(1-3), of src] assms(4) by (auto simp: eq)
  have "mem_bytes (cur32 w1) (unat (mmio_base b) + unat off) len = src"
    using w1(2) assms(3,4) by (intro nth_equalityI) (auto simp: mem_bytes_def same_bytes_def upd_bytes_def)
  then have "fst (run_state (mmio_region_memcpy32 b off dest len True) w1) = src"
    using memcpy32_from_mmio [OF w1(1) assms(2,3), of dest] assms(5) by auto
  then show ?thesis
    by (simp add: w1_def mmio_region_memcpy_from_mmio32_def case_prod_unfold)
qed

lemma memcpy_mmio32_roundtrip_witness:
  "fst (run_state (do {
      _ \<leftarrow> mmio_region_memcpy_to_mmio32 \<lparr>mmio_base = 0x1000\<rparr> 2 [1, 2, 3, 4, 5, 6, 7] 7;
      mmio_region_memcpy_from_mmio32 \<lparr>mmio_base = 0x1000\<rparr> 2 (replicate 7 0) 7
    }) (plain_world (\<lambda>_. 0))) = [1, 2, 3, 4, 5, 6, 7]"
  by (rule memcpy_mmio32_roundtrip [of "\<lambda>_. 0"]) simp_all

end
