(* ===== verification/IrqBlock.thy ===== *)
theory IrqBlock
  imports Mmio
begin

text \<open>
  The contract of the interrupt-enable operations that the device drivers share: every driver
  has a table from interrupts to bits of one enable register and the operations
  \<open>irq_set_enabled\<close>, \<open>irq_get_enabled\<close>, \<open>irq_disable_all\<close> and \<open>irq_restore_all\<close>.
  On a plain enable register they implement the abstract set of enabled interrupts.
\<close>

definition enabled_irqs :: "('irq \<Rightarrow> nat option) \<Rightarrow> u32 \<Rightarrow> world \<Rightarrow> 'irq set" where
  "enabled_irqs irq_bit reg w = {i. \<exists>n. irq_bit i = Some n \<and> bit (cur32 w reg) n}"

locale irq_block =
  fixes irq_bit :: "'irq \<Rightarrow> nat option"
    and reg :: u32
    and set_en :: "'irq \<Rightarrow> bool \<Rightarrow> world \<Rightarrow> world"
    and get_en :: "'irq \<Rightarrow> world \<Rightarrow> bool"
    and disable :: "world \<Rightarrow> u32 \<times> world"
    and restore :: "u32 \<Rightarrow> world \<Rightarrow> world"
  assumes irq_bit_inj: "irq_bit i = Some n \<Longrightarrow> irq_bit j = Some n \<Longrightarrow> i = j"
    and irq_bit_bound: "irq_bit i = Some n \<Longrightarrow> n < 32"
    and set_en_law: "plain init w \<Longrightarrow> irq_bit i = Some n \<Longrightarrow> plain init (set_en i b w)
      \<and> cur32 (set_en i b w) = (cur32 w)(reg := bitfield_bit32_write (cur32 w reg) (of_nat n) b)"
    and get_en_law: "irq_bit i = Some n \<Longrightarrow> get_en i w \<longleftrightarrow> bit (cur32 w reg) n"
    and disable_law: "plain init w \<Longrightarrow> fst (disable w) = cur32 w reg \<and> plain init (snd (disable w))
      \<and> cur32 (snd (disable w)) = (cur32 w)(reg := 0)"
    and restore_law: "plain init w \<Longrightarrow> plain init (restore s w) \<and> cur32 (restore s w) = (cur32 w)(reg := s)"
begin

lemma get_en_iff: "irq_bit i = Some n \<Longrightarrow> get_en i w \<longleftrightarrow> i \<in> enabled_irqs irq_bit reg w"
  using get_en_law by (simp add: enabled_irqs_def)

lemma set_en_enabled:
  assumes "plain init w" "irq_bit i = Some n"
  shows "enabled_irqs irq_bit reg (set_en i b w) =
    (if b then insert i (enabled_irqs irq_bit reg w) else enabled_irqs irq_bit reg w - {i})"
proof -
  have "n < 32" using irq_bit_bound [OF assms(2)] .
  then have un: "unat (of_nat n :: u32) = n" by (simp add: unsigned_of_nat take_bit_nat_eq_self)
  have new: "bit (cur32 (set_en i b w) reg) m \<longleftrightarrow> (if m = n then b else bit (cur32 w reg) m)" for m
    using set_en_law [OF assms] \<open>n < 32\<close> by (simp add: bit_bit32_write un)
  show ?thesis
  proof (rule set_eqI)
    fix j
    show "j \<in> enabled_irqs irq_bit reg (set_en i b w) \<longleftrightarrow>
      j \<in> (if b then insert i (enabled_irqs irq_bit reg w) else enabled_irqs irq_bit reg w - {i})"
    proof (cases "j = i")
      case True
      then show ?thesis using assms(2) by (simp add: enabled_irqs_def new)
    next
      case False
      then have "irq_bit j \<noteq> Some n" using irq_bit_inj assms(2) by blast
      with False show ?thesis by (auto simp: enabled_irqs_def new)
    qed
  qed
qed

lemma set_en_get_en:
  assumes "plain init w" "irq_bit i = Some n" "irq_bit j = Some m"
  shows "get_en j (set_en i b w) \<longleftrightarrow> (if j = i then b else get_en j w)"
  unfolding get_en_iff [OF assms(3)] set_en_enabled [OF assms(1,2)] by auto

lemma disable_enabled: "plain init w \<Longrightarrow> enabled_irqs irq_bit reg (snd (disable w)) = {}"
  using disable_law by (simp add: enabled_irqs_def)

lemma restore_enabled:
  "plain init w \<Longrightarrow> plain init w' \<Longrightarrow>
     enabled_irqs irq_bit reg (restore (fst (disable w)) w') = enabled_irqs irq_bit reg w"
  using disable_law restore_law by (simp add: enabled_irqs_def)

end

end
