(* ===== verification/DifUart.thy ===== *)
theory DifUart
  imports IrqBlock
begin

text \<open>
  The UART driver (\<open>sw/device/lib/dif/dif_uart.c\<close>, types of \<open>dif_uart.h\<close>). Register offsets
  and fields are those of \<open>hw/ip/uart/data/uart.hjson\<close> (and \<open>uart_reg_pkg.sv\<close>), from which the
  included header is generated. A value of a C enumeration outside its enumerators is the
  \<open>other\<close> constructor, so that every \<open>default:\<close> label is a branch.
\<close>

section \<open>Registers\<close>

abbreviation UART_INTR_STATE_REG_OFFSET :: u32 where "UART_INTR_STATE_REG_OFFSET \<equiv> 0x0"
abbreviation UART_INTR_ENABLE_REG_OFFSET :: u32 where "UART_INTR_ENABLE_REG_OFFSET \<equiv> 0x4"
abbreviation UART_INTR_TEST_REG_OFFSET :: u32 where "UART_INTR_TEST_REG_OFFSET \<equiv> 0x8"
abbreviation UART_CTRL_REG_OFFSET :: u32 where "UART_CTRL_REG_OFFSET \<equiv> 0xc"
abbreviation UART_STATUS_REG_OFFSET :: u32 where "UART_STATUS_REG_OFFSET \<equiv> 0x10"
abbreviation UART_RDATA_REG_OFFSET :: u32 where "UART_RDATA_REG_OFFSET \<equiv> 0x14"
abbreviation UART_WDATA_REG_OFFSET :: u32 where "UART_WDATA_REG_OFFSET \<equiv> 0x18"
abbreviation UART_FIFO_CTRL_REG_OFFSET :: u32 where "UART_FIFO_CTRL_REG_OFFSET \<equiv> 0x1c"
abbreviation UART_FIFO_STATUS_REG_OFFSET :: u32 where "UART_FIFO_STATUS_REG_OFFSET \<equiv> 0x20"
abbreviation UART_OVRD_REG_OFFSET :: u32 where "UART_OVRD_REG_OFFSET \<equiv> 0x24"
abbreviation UART_TIMEOUT_CTRL_REG_OFFSET :: u32 where "UART_TIMEOUT_CTRL_REG_OFFSET \<equiv> 0x2c"

abbreviation UART_CTRL_TX_BIT :: u32 where "UART_CTRL_TX_BIT \<equiv> 0"
abbreviation UART_CTRL_RX_BIT :: u32 where "UART_CTRL_RX_BIT \<equiv> 1"
abbreviation UART_CTRL_SLPBK_BIT :: u32 where "UART_CTRL_SLPBK_BIT \<equiv> 4"
abbreviation UART_CTRL_LLPBK_BIT :: u32 where "UART_CTRL_LLPBK_BIT \<equiv> 5"
abbreviation UART_CTRL_PARITY_EN_BIT :: u32 where "UART_CTRL_PARITY_EN_BIT \<equiv> 6"
abbreviation UART_CTRL_PARITY_ODD_BIT :: u32 where "UART_CTRL_PARITY_ODD_BIT \<equiv> 7"
abbreviation UART_CTRL_NCO_MASK :: u32 where "UART_CTRL_NCO_MASK \<equiv> 0xffff"
abbreviation UART_CTRL_NCO_FIELD :: bitfield_field32 where
  "UART_CTRL_NCO_FIELD \<equiv> \<lparr>field_mask = 0xffff, field_index = 16\<rparr>"
abbreviation UART_STATUS_TXFULL_BIT :: u32 where "UART_STATUS_TXFULL_BIT \<equiv> 0"
abbreviation UART_STATUS_TXIDLE_BIT :: u32 where "UART_STATUS_TXIDLE_BIT \<equiv> 3"
abbreviation UART_STATUS_RXEMPTY_BIT :: u32 where "UART_STATUS_RXEMPTY_BIT \<equiv> 5"
abbreviation UART_RDATA_RDATA_FIELD :: bitfield_field32 where
  "UART_RDATA_RDATA_FIELD \<equiv> \<lparr>field_mask = 0xff, field_index = 0\<rparr>"
abbreviation UART_WDATA_WDATA_FIELD :: bitfield_field32 where
  "UART_WDATA_WDATA_FIELD \<equiv> \<lparr>field_mask = 0xff, field_index = 0\<rparr>"
abbreviation UART_FIFO_CTRL_RXRST_BIT :: u32 where "UART_FIFO_CTRL_RXRST_BIT \<equiv> 0"
abbreviation UART_FIFO_CTRL_TXRST_BIT :: u32 where "UART_FIFO_CTRL_TXRST_BIT \<equiv> 1"
abbreviation UART_FIFO_CTRL_RXILVL_FIELD :: bitfield_field32 where
  "UART_FIFO_CTRL_RXILVL_FIELD \<equiv> \<lparr>field_mask = 0x7, field_index = 2\<rparr>"
abbreviation UART_FIFO_CTRL_TXILVL_FIELD :: bitfield_field32 where
  "UART_FIFO_CTRL_TXILVL_FIELD \<equiv> \<lparr>field_mask = 0x3, field_index = 5\<rparr>"
abbreviation UART_FIFO_STATUS_TXLVL_FIELD :: bitfield_field32 where
  "UART_FIFO_STATUS_TXLVL_FIELD \<equiv> \<lparr>field_mask = 0x3f, field_index = 0\<rparr>"
abbreviation UART_FIFO_STATUS_RXLVL_FIELD :: bitfield_field32 where
  "UART_FIFO_STATUS_RXLVL_FIELD \<equiv> \<lparr>field_mask = 0x3f, field_index = 16\<rparr>"
abbreviation UART_TIMEOUT_CTRL_VAL_MASK :: u32 where "UART_TIMEOUT_CTRL_VAL_MASK \<equiv> 0xffffff"
abbreviation UART_TIMEOUT_CTRL_VAL_FIELD :: bitfield_field32 where
  "UART_TIMEOUT_CTRL_VAL_FIELD \<equiv> \<lparr>field_mask = 0xffffff, field_index = 0\<rparr>"
abbreviation UART_TIMEOUT_CTRL_EN_BIT :: u32 where "UART_TIMEOUT_CTRL_EN_BIT \<equiv> 31"

abbreviation UART_INTR_STATE_MASK :: u32 where "UART_INTR_STATE_MASK \<equiv> 0xffffffff"
abbreviation kDifUartFifoSizeBytes :: u32 where "kDifUartFifoSizeBytes \<equiv> 32"

section \<open>Types\<close>

datatype dif_uart_toggle = kDifUartToggleEnabled | kDifUartToggleDisabled | dif_uart_toggle_other nat

datatype dif_uart_parity = kDifUartParityOdd | kDifUartParityEven | dif_uart_parity_other nat

record dif_uart_params =
  uart_base_addr :: mmio_region

record dif_uart_config =
  baudrate :: u32
  clk_freq_hz :: u32
  parity_enable :: dif_uart_toggle
  parity :: dif_uart_parity

record dif_uart =
  uart_params :: dif_uart_params

datatype dif_uart_result = kDifUartOk | kDifUartError | kDifUartBadArg

datatype dif_uart_config_result =
  kDifUartConfigOk | kDifUartConfigError | kDifUartConfigBadArg
| kDifUartConfigBadConfig | kDifUartConfigBadNco

datatype dif_uart_irq =
  kDifUartIrqTxWatermark | kDifUartIrqRxWatermark | kDifUartIrqTxEmpty | kDifUartIrqRxOverflow
| kDifUartIrqRxFrameErr | kDifUartIrqRxBreakErr | kDifUartIrqRxTimeout | kDifUartIrqRxParityErr
| dif_uart_irq_other nat

datatype dif_uart_watermark =
  kDifUartWatermarkByte1 | kDifUartWatermarkByte4 | kDifUartWatermarkByte8
| kDifUartWatermarkByte16 | kDifUartWatermarkByte30 | dif_uart_watermark_other nat

datatype dif_uart_fifo_reset =
  kDifUartFifoResetRx | kDifUartFifoResetTx | kDifUartFifoResetAll | dif_uart_fifo_reset_other nat

datatype dif_uart_loopback = kDifUartLoopbackSystem | kDifUartLoopbackLine | dif_uart_loopback_other nat

abbreviation uart_read :: "dif_uart \<Rightarrow> u32 \<Rightarrow> u32 io" where
  "uart_read uart off \<equiv> mmio_region_read32 (uart_base_addr (uart_params uart)) off"

abbreviation uart_write :: "dif_uart \<Rightarrow> u32 \<Rightarrow> u32 \<Rightarrow> unit io" where
  "uart_write uart off v \<equiv> mmio_region_write32 (uart_base_addr (uart_params uart)) off v"

section \<open>Helpers\<close>

definition uart_tx_full :: "dif_uart \<Rightarrow> bool io" where
  "uart_tx_full uart = do {
     reg \<leftarrow> uart_read uart UART_STATUS_REG_OFFSET;
     ret (bitfield_bit32_read reg UART_STATUS_TXFULL_BIT)
   }"

definition uart_tx_idle :: "dif_uart \<Rightarrow> bool io" where
  "uart_tx_idle uart = do {
     reg \<leftarrow> uart_read uart UART_STATUS_REG_OFFSET;
     ret (bitfield_bit32_read reg UART_STATUS_TXIDLE_BIT)
   }"

definition uart_rx_empty :: "dif_uart \<Rightarrow> bool io" where
  "uart_rx_empty uart = do {
     reg \<leftarrow> uart_read uart UART_STATUS_REG_OFFSET;
     ret (bitfield_bit32_read reg UART_STATUS_RXEMPTY_BIT)
   }"

definition uart_rx_fifo_read :: "dif_uart \<Rightarrow> u8 io" where
  "uart_rx_fifo_read uart = do {
     reg \<leftarrow> uart_read uart UART_RDATA_REG_OFFSET;
     ret (ucast (bitfield_field32_read reg UART_RDATA_RDATA_FIELD))
   }"

definition uart_tx_fifo_write :: "dif_uart \<Rightarrow> u8 \<Rightarrow> unit io" where
  "uart_tx_fifo_write uart byte = do {
     let reg = bitfield_field32_write 0 UART_WDATA_WDATA_FIELD (ucast byte);
     uart_write uart UART_WDATA_REG_OFFSET reg
   }"

text \<open>\<open>None\<close> is the return value \<open>false\<close>, for a value that is no interrupt.\<close>

fun uart_irq_offset_get :: "dif_uart_irq \<Rightarrow> u32 option" where
  "uart_irq_offset_get kDifUartIrqTxWatermark = Some 0"
| "uart_irq_offset_get kDifUartIrqRxWatermark = Some 1"
| "uart_irq_offset_get kDifUartIrqTxEmpty = Some 2"
| "uart_irq_offset_get kDifUartIrqRxOverflow = Some 3"
| "uart_irq_offset_get kDifUartIrqRxFrameErr = Some 4"
| "uart_irq_offset_get kDifUartIrqRxBreakErr = Some 5"
| "uart_irq_offset_get kDifUartIrqRxTimeout = Some 6"
| "uart_irq_offset_get kDifUartIrqRxParityErr = Some 7"
| "uart_irq_offset_get (dif_uart_irq_other _) = None"

definition uart_reset :: "dif_uart \<Rightarrow> unit io" where
  "uart_reset uart = do {
     _ \<leftarrow> uart_write uart UART_CTRL_REG_OFFSET 0;
     let reg = 0;
     let reg = bitfield_bit32_write reg UART_FIFO_CTRL_RXRST_BIT True;
     let reg = bitfield_bit32_write reg UART_FIFO_CTRL_TXRST_BIT True;
     _ \<leftarrow> uart_write uart UART_FIFO_CTRL_REG_OFFSET reg;
     _ \<leftarrow> uart_write uart UART_OVRD_REG_OFFSET 0;
     _ \<leftarrow> uart_write uart UART_TIMEOUT_CTRL_REG_OFFSET 0;
     _ \<leftarrow> uart_write uart UART_INTR_ENABLE_REG_OFFSET 0;
     uart_write uart UART_INTR_STATE_REG_OFFSET UART_INTR_STATE_MASK
   }"

text \<open>The send loop, from index \<open>bytes_written\<close> on.\<close>

function uart_bytes_send_from :: "dif_uart \<Rightarrow> u8 list \<Rightarrow> nat \<Rightarrow> nat \<Rightarrow> nat io" where
  "uart_bytes_send_from uart data bytes_requested bytes_written =
     (if bytes_written < bytes_requested then do {
        full \<leftarrow> uart_tx_full uart;
        (if \<not> full then do {
           _ \<leftarrow> uart_tx_fifo_write uart (data ! bytes_written);
           uart_bytes_send_from uart data bytes_requested (Suc bytes_written)
         } else ret bytes_written)
      } else ret bytes_written)"
  by pat_completeness auto
termination
  by (relation "measure (\<lambda>(uart, data, bytes_requested, bytes_written). bytes_requested - bytes_written)") auto

definition uart_bytes_send :: "dif_uart \<Rightarrow> u8 list \<Rightarrow> nat \<Rightarrow> nat io" where
  "uart_bytes_send uart data bytes_requested = uart_bytes_send_from uart data bytes_requested 0"

text \<open>The receive loop returns the count and the buffer.\<close>

function uart_bytes_receive_from :: "dif_uart \<Rightarrow> nat \<Rightarrow> u8 list \<Rightarrow> nat \<Rightarrow> (nat \<times> u8 list) io" where
  "uart_bytes_receive_from uart bytes_requested data bytes_read =
     (if bytes_read < bytes_requested then do {
        empty \<leftarrow> uart_rx_empty uart;
        (if \<not> empty then do {
           byte \<leftarrow> uart_rx_fifo_read uart;
           uart_bytes_receive_from uart bytes_requested (data[bytes_read := byte]) (Suc bytes_read)
         } else ret (bytes_read, data))
      } else ret (bytes_read, data))"
  by pat_completeness auto
termination
  by (relation "measure (\<lambda>(uart, bytes_requested, data, bytes_read). bytes_requested - bytes_read)") auto

definition uart_bytes_receive :: "dif_uart \<Rightarrow> nat \<Rightarrow> u8 list \<Rightarrow> (nat \<times> u8 list) io" where
  "uart_bytes_receive uart bytes_requested data = uart_bytes_receive_from uart bytes_requested data 0"

declare uart_bytes_send_from.simps [simp del] uart_bytes_receive_from.simps [simp del]

section \<open>Driver operations\<close>

definition dif_uart_init :: "dif_uart_params \<Rightarrow> dif_uart ptr \<Rightarrow> dif_uart_result \<times> dif_uart ptr" where
  "dif_uart_init params uart =
     (case uart of NULL \<Rightarrow> (kDifUartBadArg, NULL)
      | Some u \<Rightarrow> (kDifUartOk, Some (u\<lparr>uart_params := params\<rparr>)))"

text \<open>The width of the NCO field: \<open>for (i = 0; i < 32; i++) nco_width += (MASK >> i) & 1\<close>.\<close>

definition uart_nco_width :: u32 where
  "uart_nco_width = fold (\<lambda>i n. n + (drop_bit i UART_CTRL_NCO_MASK AND 1)) [0..<32] 0"

definition dif_uart_configure :: "dif_uart ptr \<Rightarrow> dif_uart_config \<Rightarrow> dif_uart_config_result io" where
  "dif_uart_configure uart config =
     (case uart of NULL \<Rightarrow> ret kDifUartConfigBadArg
      | Some uart \<Rightarrow>
        if baudrate config = 0 \<or> clk_freq_hz config = 0 then ret kDifUartConfigBadConfig
        else
          (let nco = (push_bit (unat (uart_nco_width + 4)) (ucast (baudrate config)) :: u64)
                 div ucast (clk_freq_hz config);
               nco_masked = (ucast (nco AND ucast UART_CTRL_NCO_MASK) :: u32)
           in if nco \<noteq> ucast nco_masked then ret kDifUartConfigBadNco
           else do {
             _ \<leftarrow> uart_reset uart;
             let reg = 0;
             let reg = bitfield_field32_write reg UART_CTRL_NCO_FIELD nco_masked;
             let reg = bitfield_bit32_write reg UART_CTRL_TX_BIT True;
             let reg = bitfield_bit32_write reg UART_CTRL_RX_BIT True;
             let reg = (if parity_enable config = kDifUartToggleEnabled
                        then bitfield_bit32_write reg UART_CTRL_PARITY_EN_BIT True else reg);
             let reg = (if parity config = kDifUartParityOdd
                        then bitfield_bit32_write reg UART_CTRL_PARITY_ODD_BIT True else reg);
             _ \<leftarrow> uart_write uart UART_CTRL_REG_OFFSET reg;
             _ \<leftarrow> uart_write uart UART_INTR_ENABLE_REG_OFFSET 0;
             ret kDifUartConfigOk
           }))"

definition dif_uart_irq_is_pending ::
  "dif_uart ptr \<Rightarrow> dif_uart_irq \<Rightarrow> bool ptr \<Rightarrow> (dif_uart_result \<times> bool ptr) io" where
  "dif_uart_irq_is_pending uart irq is_pending =
     (case (uart, is_pending) of
        (Some uart, Some _) \<Rightarrow>
          (case uart_irq_offset_get irq of None \<Rightarrow> ret (kDifUartError, is_pending)
           | Some offset \<Rightarrow> do {
               reg \<leftarrow> uart_read uart UART_INTR_STATE_REG_OFFSET;
               ret (kDifUartOk, store is_pending (bitfield_bit32_read reg offset))
             })
      | _ \<Rightarrow> ret (kDifUartBadArg, is_pending))"

definition dif_uart_irq_acknowledge :: "dif_uart ptr \<Rightarrow> dif_uart_irq \<Rightarrow> dif_uart_result io" where
  "dif_uart_irq_acknowledge uart irq =
     (case uart of NULL \<Rightarrow> ret kDifUartBadArg
      | Some uart \<Rightarrow>
        (case uart_irq_offset_get irq of None \<Rightarrow> ret kDifUartError
         | Some offset \<Rightarrow> do {
             let reg = bitfield_bit32_write 0 offset True;
             _ \<leftarrow> uart_write uart UART_INTR_STATE_REG_OFFSET reg;
             ret kDifUartOk
           }))"

definition dif_uart_irq_disable_all :: "dif_uart ptr \<Rightarrow> u32 ptr \<Rightarrow> (dif_uart_result \<times> u32 ptr) io" where
  "dif_uart_irq_disable_all uart snapshot =
     (case uart of NULL \<Rightarrow> ret (kDifUartBadArg, snapshot)
      | Some uart \<Rightarrow> do {
          snapshot' \<leftarrow> (if snapshot \<noteq> NULL then do {
              v \<leftarrow> uart_read uart UART_INTR_ENABLE_REG_OFFSET;
              ret (store snapshot v)
            } else ret snapshot);
          _ \<leftarrow> uart_write uart UART_INTR_ENABLE_REG_OFFSET 0;
          ret (kDifUartOk, snapshot')
        })"

definition dif_uart_irq_restore_all :: "dif_uart ptr \<Rightarrow> u32 ptr \<Rightarrow> dif_uart_result io" where
  "dif_uart_irq_restore_all uart snapshot =
     (case (uart, snapshot) of
        (Some uart, Some snapshot) \<Rightarrow> do {
          _ \<leftarrow> uart_write uart UART_INTR_ENABLE_REG_OFFSET snapshot;
          ret kDifUartOk
        }
      | _ \<Rightarrow> ret kDifUartBadArg)"

definition dif_uart_irq_get_enabled ::
  "dif_uart ptr \<Rightarrow> dif_uart_irq \<Rightarrow> dif_uart_toggle ptr \<Rightarrow> (dif_uart_result \<times> dif_uart_toggle ptr) io" where
  "dif_uart_irq_get_enabled uart irq st =
     (case (uart, st) of
        (Some uart, Some _) \<Rightarrow>
          (case uart_irq_offset_get irq of None \<Rightarrow> ret (kDifUartError, st)
           | Some offset \<Rightarrow> do {
               reg \<leftarrow> uart_read uart UART_INTR_ENABLE_REG_OFFSET;
               let is_enabled = bitfield_bit32_read reg offset;
               ret (kDifUartOk, store st (if is_enabled then kDifUartToggleEnabled else kDifUartToggleDisabled))
             })
      | _ \<Rightarrow> ret (kDifUartBadArg, st))"

definition dif_uart_irq_set_enabled ::
  "dif_uart ptr \<Rightarrow> dif_uart_irq \<Rightarrow> dif_uart_toggle \<Rightarrow> dif_uart_result io" where
  "dif_uart_irq_set_enabled uart irq st =
     (case uart of NULL \<Rightarrow> ret kDifUartBadArg
      | Some uart \<Rightarrow>
        (case uart_irq_offset_get irq of None \<Rightarrow> ret kDifUartError
         | Some offset \<Rightarrow> do {
             reg \<leftarrow> uart_read uart UART_INTR_ENABLE_REG_OFFSET;
             let bit = (st = kDifUartToggleEnabled);
             let reg = bitfield_bit32_write reg offset bit;
             _ \<leftarrow> uart_write uart UART_INTR_ENABLE_REG_OFFSET reg;
             ret kDifUartOk
           }))"

definition dif_uart_irq_force :: "dif_uart ptr \<Rightarrow> dif_uart_irq \<Rightarrow> dif_uart_result io" where
  "dif_uart_irq_force uart irq =
     (case uart of NULL \<Rightarrow> ret kDifUartBadArg
      | Some uart \<Rightarrow>
        (case uart_irq_offset_get irq of None \<Rightarrow> ret kDifUartError
         | Some offset \<Rightarrow> do {
             let reg = bitfield_bit32_write 0 offset True;
             _ \<leftarrow> uart_write uart UART_INTR_TEST_REG_OFFSET reg;
             ret kDifUartOk
           }))"

fun uart_rx_watermark_value :: "dif_uart_watermark \<Rightarrow> u32 option" where
  "uart_rx_watermark_value kDifUartWatermarkByte1 = Some 0"
| "uart_rx_watermark_value kDifUartWatermarkByte4 = Some 1"
| "uart_rx_watermark_value kDifUartWatermarkByte8 = Some 2"
| "uart_rx_watermark_value kDifUartWatermarkByte16 = Some 3"
| "uart_rx_watermark_value kDifUartWatermarkByte30 = Some 4"
| "uart_rx_watermark_value (dif_uart_watermark_other _) = None"

definition dif_uart_watermark_rx_set :: "dif_uart ptr \<Rightarrow> dif_uart_watermark \<Rightarrow> dif_uart_result io" where
  "dif_uart_watermark_rx_set uart watermark =
     (case uart of NULL \<Rightarrow> ret kDifUartBadArg
      | Some uart \<Rightarrow>
        (case uart_rx_watermark_value watermark of None \<Rightarrow> ret kDifUartError
         | Some val \<Rightarrow> do {
             reg \<leftarrow> uart_read uart UART_FIFO_CTRL_REG_OFFSET;
             let reg = bitfield_field32_write reg UART_FIFO_CTRL_RXILVL_FIELD val;
             _ \<leftarrow> uart_write uart UART_FIFO_CTRL_REG_OFFSET reg;
             ret kDifUartOk
           }))"

fun uart_tx_watermark_value :: "dif_uart_watermark \<Rightarrow> u32 option" where
  "uart_tx_watermark_value kDifUartWatermarkByte1 = Some 0"
| "uart_tx_watermark_value kDifUartWatermarkByte4 = Some 1"
| "uart_tx_watermark_value kDifUartWatermarkByte8 = Some 2"
| "uart_tx_watermark_value kDifUartWatermarkByte16 = Some 3"
| "uart_tx_watermark_value _ = None"

definition dif_uart_watermark_tx_set :: "dif_uart ptr \<Rightarrow> dif_uart_watermark \<Rightarrow> dif_uart_result io" where
  "dif_uart_watermark_tx_set uart watermark =
     (case uart of NULL \<Rightarrow> ret kDifUartBadArg
      | Some uart \<Rightarrow>
        (case uart_tx_watermark_value watermark of None \<Rightarrow> ret kDifUartError
         | Some val \<Rightarrow> do {
             reg \<leftarrow> uart_read uart UART_FIFO_CTRL_REG_OFFSET;
             let reg = bitfield_field32_write reg UART_FIFO_CTRL_TXILVL_FIELD val;
             _ \<leftarrow> uart_write uart UART_FIFO_CTRL_REG_OFFSET reg;
             ret kDifUartOk
           }))"

definition dif_uart_bytes_send ::
  "dif_uart ptr \<Rightarrow> u8 list ptr \<Rightarrow> nat \<Rightarrow> nat ptr \<Rightarrow> (dif_uart_result \<times> nat ptr) io" where
  "dif_uart_bytes_send uart data bytes_requested bytes_written =
     (case (uart, data) of
        (Some uart, Some data) \<Rightarrow> do {
          res \<leftarrow> uart_bytes_send uart data bytes_requested;
          ret (kDifUartOk, store bytes_written res)
        }
      | _ \<Rightarrow> ret (kDifUartBadArg, bytes_written))"

definition dif_uart_bytes_receive ::
  "dif_uart ptr \<Rightarrow> nat \<Rightarrow> u8 list ptr \<Rightarrow> nat ptr \<Rightarrow> (dif_uart_result \<times> u8 list ptr \<times> nat ptr) io" where
  "dif_uart_bytes_receive uart bytes_requested data bytes_read =
     (case (uart, data) of
        (Some uart, Some buf) \<Rightarrow> do {
          (res, buf) \<leftarrow> uart_bytes_receive uart bytes_requested buf;
          ret (kDifUartOk, Some buf, store bytes_read res)
        }
      | _ \<Rightarrow> ret (kDifUartBadArg, data, bytes_read))"

text \<open>The polled operations busy-wait: \<open>None\<close> when they never return.\<close>

definition dif_uart_byte_send_polled ::
  "dif_uart ptr \<Rightarrow> u8 \<Rightarrow> world \<Rightarrow> (dif_uart_result \<times> world) option" where
  "dif_uart_byte_send_polled uart byte w =
     (case uart of NULL \<Rightarrow> Some (kDifUartBadArg, w)
      | Some uart \<Rightarrow> do {
          w1 \<leftarrow> spin_while (uart_tx_full uart) w;
          let (_, w2) = run_state (uart_bytes_send uart [byte] 1) w1;
          w3 \<leftarrow> spin_while (do { idle \<leftarrow> uart_tx_idle uart; ret (\<not> idle) }) w2;
          Some (kDifUartOk, w3)
        })"

definition dif_uart_byte_receive_polled ::
  "dif_uart ptr \<Rightarrow> u8 ptr \<Rightarrow> world \<Rightarrow> (dif_uart_result \<times> u8 ptr \<times> world) option" where
  "dif_uart_byte_receive_polled uart byte w =
     (case (uart, byte) of
        (Some uart, Some b) \<Rightarrow> do {
          w1 \<leftarrow> spin_while (uart_rx_empty uart) w;
          let ((_, buf), w2) = run_state (uart_bytes_receive uart 1 [b]) w1;
          Some (kDifUartOk, Some (buf ! 0), w2)
        }
      | _ \<Rightarrow> Some (kDifUartBadArg, byte, w))"

definition dif_uart_rx_bytes_available :: "dif_uart ptr \<Rightarrow> u32 ptr \<Rightarrow> (dif_uart_result \<times> u32 ptr) io" where
  "dif_uart_rx_bytes_available uart num_bytes =
     (case (uart, num_bytes) of
        (Some uart, Some _) \<Rightarrow> do {
          reg \<leftarrow> uart_read uart UART_FIFO_STATUS_REG_OFFSET;
          ret (kDifUartOk, store num_bytes (bitfield_field32_read reg UART_FIFO_STATUS_RXLVL_FIELD))
        }
      | _ \<Rightarrow> ret (kDifUartBadArg, num_bytes))"

definition dif_uart_tx_bytes_available :: "dif_uart ptr \<Rightarrow> u32 ptr \<Rightarrow> (dif_uart_result \<times> u32 ptr) io" where
  "dif_uart_tx_bytes_available uart num_bytes =
     (case (uart, num_bytes) of
        (Some uart, Some _) \<Rightarrow> do {
          reg \<leftarrow> uart_read uart UART_FIFO_STATUS_REG_OFFSET;
          let fill_bytes = bitfield_field32_read reg UART_FIFO_STATUS_TXLVL_FIELD;
          ret (kDifUartOk, store num_bytes (kDifUartFifoSizeBytes - fill_bytes))
        }
      | _ \<Rightarrow> ret (kDifUartBadArg, num_bytes))"

definition dif_uart_fifo_reset :: "dif_uart ptr \<Rightarrow> dif_uart_fifo_reset \<Rightarrow> dif_uart_result io" where
  "dif_uart_fifo_reset uart reset =
     (case uart of NULL \<Rightarrow> ret kDifUartBadArg
      | Some uart \<Rightarrow> do {
          reg \<leftarrow> uart_read uart UART_FIFO_CTRL_REG_OFFSET;
          let reg = (if reset = kDifUartFifoResetRx \<or> reset = kDifUartFifoResetAll
                     then bitfield_bit32_write reg UART_FIFO_CTRL_RXRST_BIT True else reg);
          let reg = (if reset = kDifUartFifoResetTx \<or> reset = kDifUartFifoResetAll
                     then bitfield_bit32_write reg UART_FIFO_CTRL_TXRST_BIT True else reg);
          _ \<leftarrow> uart_write uart UART_FIFO_CTRL_REG_OFFSET reg;
          ret kDifUartOk
        })"

text \<open>\<open>loopback ? LLPBK : SLPBK\<close> tests the enumeration value, and \<open>kDifUartLoopbackSystem\<close> is 0.\<close>

definition dif_uart_loopback_set ::
  "dif_uart ptr \<Rightarrow> dif_uart_loopback \<Rightarrow> dif_uart_toggle \<Rightarrow> dif_uart_result io" where
  "dif_uart_loopback_set uart loopback enable =
     (case uart of NULL \<Rightarrow> ret kDifUartBadArg
      | Some uart \<Rightarrow> do {
          let index = (if loopback \<noteq> kDifUartLoopbackSystem then UART_CTRL_LLPBK_BIT else UART_CTRL_SLPBK_BIT);
          reg \<leftarrow> uart_read uart UART_CTRL_REG_OFFSET;
          let reg = bitfield_bit32_write reg index (enable = kDifUartToggleEnabled);
          _ \<leftarrow> uart_write uart UART_CTRL_REG_OFFSET reg;
          ret kDifUartOk
        })"

definition dif_uart_enable_rx_timeout :: "dif_uart ptr \<Rightarrow> u32 \<Rightarrow> dif_uart_result io" where
  "dif_uart_enable_rx_timeout uart duration_ticks =
     (case uart of NULL \<Rightarrow> ret kDifUartBadArg
      | Some uart \<Rightarrow>
        if duration_ticks AND NOT UART_TIMEOUT_CTRL_VAL_MASK \<noteq> 0 then ret kDifUartBadArg
        else do {
          let reg = bitfield_bit32_write 0 UART_TIMEOUT_CTRL_EN_BIT True;
          let reg = bitfield_field32_write reg UART_TIMEOUT_CTRL_VAL_FIELD duration_ticks;
          _ \<leftarrow> uart_write uart UART_TIMEOUT_CTRL_REG_OFFSET reg;
          ret kDifUartOk
        })"

definition dif_uart_disable_rx_timeout :: "dif_uart ptr \<Rightarrow> dif_uart_result io" where
  "dif_uart_disable_rx_timeout uart =
     (case uart of NULL \<Rightarrow> ret kDifUartBadArg
      | Some uart \<Rightarrow> do {
          let reg = bitfield_bit32_write 0 UART_TIMEOUT_CTRL_EN_BIT False;
          let reg = bitfield_field32_write reg UART_TIMEOUT_CTRL_VAL_FIELD 0;
          _ \<leftarrow> uart_write uart UART_TIMEOUT_CTRL_REG_OFFSET reg;
          ret kDifUartOk
        })"

definition dif_uart_get_rx_timeout ::
  "dif_uart ptr \<Rightarrow> dif_uart_toggle ptr \<Rightarrow> u32 ptr \<Rightarrow> (dif_uart_result \<times> dif_uart_toggle ptr \<times> u32 ptr) io" where
  "dif_uart_get_rx_timeout uart status duration_ticks =
     (case (uart, status) of
        (Some uart, Some _) \<Rightarrow> do {
          reg \<leftarrow> uart_read uart UART_TIMEOUT_CTRL_REG_OFFSET;
          ret (kDifUartOk,
               store status (if bitfield_bit32_read reg UART_TIMEOUT_CTRL_EN_BIT
                             then kDifUartToggleEnabled else kDifUartToggleDisabled),
               store duration_ticks (bitfield_field32_read reg UART_TIMEOUT_CTRL_VAL_FIELD))
        }
      | _ \<Rightarrow> ret (kDifUartBadArg, status, duration_ticks))"

section \<open>What the helpers do\<close>

lemmas uart_reg_defs = mmio_addr32_def Let_def bit32_read_eq_bit

abbreviation uart_addr :: "dif_uart \<Rightarrow> u32 \<Rightarrow> u32" where
  "uart_addr u off \<equiv> mmio_addr32 (uart_base_addr (uart_params u)) off"

lemma run_uart_status [io_simps]:
  "run_state (uart_tx_full u) w =
     (bit (cur32 w (uart_addr u 0x10)) 0, log (Rd32 (uart_addr u 0x10) (cur32 w (uart_addr u 0x10))) w)"
  "run_state (uart_tx_idle u) w =
     (bit (cur32 w (uart_addr u 0x10)) 3, log (Rd32 (uart_addr u 0x10) (cur32 w (uart_addr u 0x10))) w)"
  "run_state (uart_rx_empty u) w =
     (bit (cur32 w (uart_addr u 0x10)) 5, log (Rd32 (uart_addr u 0x10) (cur32 w (uart_addr u 0x10))) w)"
  by (simp_all add: uart_tx_full_def uart_tx_idle_def uart_rx_empty_def io_simps bit32_read_eq_bit)

lemma and_0xff: "v AND (0xff :: u32) = take_bit 8 v"
  by (simp add: take_bit_eq_mask mask_eq_exp_minus_1)

lemma ucast_u8_and_0xff [simp]: "(ucast (v AND 0xff :: u32) :: u8) = ucast v"
  unfolding and_0xff by (rule bit_eqI) (auto simp: bit_simps)

lemma ucast_u32_and_0xff [simp]: "(ucast (b :: u8) :: u32) AND 0xff = ucast b"
  unfolding and_0xff by (rule bit_eqI) (auto simp: bit_simps dest: bit_word8_bound)

lemma run_uart_fifo [io_simps]:
  "run_state (uart_rx_fifo_read u) w =
     (ucast (cur32 w (uart_addr u 0x14)), log (Rd32 (uart_addr u 0x14) (cur32 w (uart_addr u 0x14))) w)"
  "run_state (uart_tx_fifo_write u b) w = ((), log (Wr32 (uart_addr u 0x18) (ucast b)) w)"
  by (simp_all add: uart_rx_fifo_read_def uart_tx_fifo_write_def io_simps bitfield_field32_read_def
      bitfield_field32_write_def)

lemma uart_addr_inject [simp]:
  "uart_addr u a = uart_addr u b \<longleftrightarrow> 4 * (a div 4) = 4 * (b div 4)"
  by (simp add: mmio_addr32_def)

section \<open>The FIFO loops\<close>

text \<open>
  The send loop, on any device: it writes a prefix of the remaining bytes to the data register
  and nothing else, and stops early only after a status read that showed a full FIFO.
\<close>

lemma run_uart_bytes_send_from:
  assumes "i \<le> n" "n \<le> length data"
    and "run_state (uart_bytes_send_from u data n i) w = (k, w')"
  shows "i \<le> k \<and> k \<le> n \<and> dev32 w' = dev32 w
    \<and> writes_to (uart_addr u 0x18) (trace w') =
        writes_to (uart_addr u 0x18) (trace w) @ map ucast (take (k - i) (drop i data))
    \<and> (\<forall>a. a \<noteq> uart_addr u 0x18 \<longrightarrow> writes_to a (trace w') = writes_to a (trace w))
    \<and> (k < n \<longrightarrow> (\<exists>v h. trace w' = Rd32 (uart_addr u 0x10) v # h \<and> bit v 0))"
  using assms
proof (induction "n - i" arbitrary: i w)
  case 0
  then show ?case by (subst (asm) uart_bytes_send_from.simps) simp
next
  case (Suc m)
  then have "i < n" by simp
  define v where "v = cur32 w (uart_addr u 0x10)"
  show ?case
  proof (cases "bit v 0")
    case True
    with Suc.prems \<open>i < n\<close> show ?thesis
      by (subst (asm) uart_bytes_send_from.simps) (auto simp: io_simps v_def)
  next
    case False
    let ?w = "log (Wr32 (uart_addr u 0x18) (ucast (data ! i))) (log (Rd32 (uart_addr u 0x10) v) w)"
    have run: "run_state (uart_bytes_send_from u data n (Suc i)) ?w = (k, w')"
      using Suc.prems(3) \<open>i < n\<close> False
      by (subst (asm) uart_bytes_send_from.simps) (simp add: io_simps v_def)
    have "m = n - Suc i" using Suc.hyps(2) by simp
    from Suc.hyps(1) [OF this _ Suc.prems(2) run] \<open>i < n\<close>
    have IH: "Suc i \<le> k" "k \<le> n" "dev32 w' = dev32 ?w"
      "writes_to (uart_addr u 0x18) (trace w') =
         writes_to (uart_addr u 0x18) (trace ?w) @ map ucast (take (k - Suc i) (drop (Suc i) data))"
      "\<forall>a. a \<noteq> uart_addr u 0x18 \<longrightarrow> writes_to a (trace w') = writes_to a (trace ?w)"
      "k < n \<longrightarrow> (\<exists>v h. trace w' = Rd32 (uart_addr u 0x10) v # h \<and> bit v 0)"
      by auto
    have "drop i data = data ! i # drop (Suc i) data"
      using \<open>i < n\<close> Suc.prems(2) by (simp add: Cons_nth_drop_Suc)
    moreover have "k - i = Suc (k - Suc i)" using IH(1) by simp
    ultimately show ?thesis using IH by auto
  qed
qed

lemma take_list_update_Suc: "i < length xs \<Longrightarrow> take (Suc i) (xs[i := x]) = take i xs @ [x]"
  by (simp add: take_Suc_conv_app_nth)

lemma run_uart_bytes_receive_from:
  assumes "i \<le> n" "n \<le> length data"
    and "run_state (uart_bytes_receive_from u n data i) w = ((k, data'), w')"
  shows "i \<le> k \<and> k \<le> n \<and> dev32 w' = dev32 w
    \<and> (\<exists>vs. length vs = k - i
        \<and> reads_from (uart_addr u 0x14) (trace w') = reads_from (uart_addr u 0x14) (trace w) @ vs
        \<and> data' = take i data @ map ucast vs @ drop k data)
    \<and> (\<forall>a. writes_to a (trace w') = writes_to a (trace w))
    \<and> (k < n \<longrightarrow> (\<exists>v h. trace w' = Rd32 (uart_addr u 0x10) v # h \<and> bit v 5))"
  using assms
proof (induction "n - i" arbitrary: i w data)
  case 0
  then show ?case by (subst (asm) uart_bytes_receive_from.simps) simp
next
  case (Suc m)
  then have "i < n" by simp
  define v where "v = cur32 w (uart_addr u 0x10)"
  show ?case
  proof (cases "bit v 5")
    case True
    with Suc.prems \<open>i < n\<close> show ?thesis
      by (subst (asm) uart_bytes_receive_from.simps) (auto simp: io_simps v_def)
  next
    case False
    define w1 where "w1 = log (Rd32 (uart_addr u 0x10) v) w"
    define b where "b = cur32 w1 (uart_addr u 0x14)"
    let ?w = "log (Rd32 (uart_addr u 0x14) b) w1"
    have run: "run_state (uart_bytes_receive_from u n (data[i := ucast b]) (Suc i)) ?w = ((k, data'), w')"
      using Suc.prems(3) \<open>i < n\<close> False
      by (subst (asm) uart_bytes_receive_from.simps) (simp add: io_simps v_def b_def w1_def)
    have "m = n - Suc i" using Suc.hyps(2) by simp
    from Suc.hyps(1) [OF this _ _ run] \<open>i < n\<close> Suc.prems(2)
    obtain vs where IH: "Suc i \<le> k" "k \<le> n" "dev32 w' = dev32 ?w" "length vs = k - Suc i"
      "reads_from (uart_addr u 0x14) (trace w') = reads_from (uart_addr u 0x14) (trace ?w) @ vs"
      "data' = take (Suc i) (data[i := ucast b]) @ map ucast vs @ drop k (data[i := ucast b])"
      "\<forall>a. writes_to a (trace w') = writes_to a (trace ?w)"
      "k < n \<longrightarrow> (\<exists>v h. trace w' = Rd32 (uart_addr u 0x10) v # h \<and> bit v 5)"
      by auto
    have "length (b # vs) = k - i" using IH by simp
    moreover have "reads_from (uart_addr u 0x14) (trace w') = reads_from (uart_addr u 0x14) (trace w) @ b # vs"
      using IH(5) by (simp add: w1_def)
    moreover have "data' = take i data @ map ucast (b # vs) @ drop k data"
      using IH(1,6) \<open>i < n\<close> Suc.prems(2) by (simp add: take_list_update_Suc)
    ultimately show ?thesis using IH(1,2,3,7,8) by (auto simp: w1_def)
  qed
qed

section \<open>The baud-rate divisor\<close>

lemma uart_nco_width: "uart_nco_width = 16"
  by (simp add: uart_nco_width_def upt_conv_Cons)

lemma uart_nco_unat:
  "unat ((push_bit 20 (ucast (b :: u32)) :: u64) div ucast (c :: u32)) = unat b * 2 ^ 20 div unat c"
proof -
  have "unat b * 2 ^ 20 < 2 ^ 64" using unat_u32_bound [of b] by (simp del: unat_u32_bound)
  then have "unat (push_bit 20 (ucast b) :: u64) = unat b * 2 ^ 20"
    by (simp add: push_bit_eq_mult unat_word_ariths)
  then show ?thesis by (simp add: unat_div)
qed

lemma uart_nco_fits:
  "(x :: u64) = ucast (ucast (x AND 0xffff) :: u32) \<longleftrightarrow> unat x < 2 ^ 16"
proof -
  have and16: "x AND 0xffff = take_bit 16 x" by (simp add: take_bit_eq_mask mask_eq_exp_minus_1)
  have "(ucast (ucast (take_bit 16 x) :: u32) :: u64) = take_bit 16 x"
    by (rule bit_eqI) (auto simp: bit_simps)
  moreover have "x = take_bit 16 x \<longleftrightarrow> unat x = take_bit 16 (unat x)"
    by (simp add: word_unat_eq_iff unsigned_take_bit_eq)
  moreover have "\<dots> \<longleftrightarrow> unat x < 2 ^ 16"
    by (metis take_bit_nat_eq_self_iff)
  ultimately show ?thesis by (simp add: and16)
qed

lemma uart_nco_unat': "unat (((ucast (b :: u32) :: u64) * 0x100000) div ucast (c :: u32)) = unat b * 2 ^ 20 div unat c"
  using uart_nco_unat [of b c] by (simp add: push_bit_eq_mult)

lemma and_0xffff: "x AND 0xffff = take_bit 16 (x :: u64)" "y AND 0xffff = take_bit 16 (y :: u32)"
  by (simp_all add: take_bit_eq_mask mask_eq_exp_minus_1)

lemma uart_nco_mask:
  assumes "unat x < 2 ^ 16"
  shows "unat (ucast ((x :: u64) AND 0xffff) AND 0xffff :: u32) = unat x"
proof -
  have "take_bit 16 (ucast (take_bit 16 x) :: u32) = take_bit 16 (ucast x)"
    by (rule bit_eqI) (auto simp: bit_simps)
  moreover have "take_bit 16 (unat x) = unat x"
    using assms by (rule take_bit_nat_eq_self)
  ultimately show ?thesis by (simp add: and_0xffff unsigned_take_bit_eq unsigned_ucast_eq)
qed

text \<open>The control word that \<open>dif_uart_configure\<close> assembles.\<close>

definition uart_ctrl_word :: "u32 \<Rightarrow> dif_uart_config \<Rightarrow> u32" where
  "uart_ctrl_word nco c =
     (let reg = bitfield_bit32_write (bitfield_bit32_write (bitfield_field32_write 0 UART_CTRL_NCO_FIELD nco)
        UART_CTRL_TX_BIT True) UART_CTRL_RX_BIT True;
        reg = (if parity_enable c = kDifUartToggleEnabled then bitfield_bit32_write reg UART_CTRL_PARITY_EN_BIT True else reg)
      in if parity c = kDifUartParityOdd then bitfield_bit32_write reg UART_CTRL_PARITY_ODD_BIT True else reg)"

lemma uart_ctrl_word_fields:
  "bitfield_field32_read (uart_ctrl_word nco c) UART_CTRL_NCO_FIELD = nco AND 0xffff"
  "bit (uart_ctrl_word nco c) 0" "bit (uart_ctrl_word nco c) 1" "bit (uart_ctrl_word nco c) (Suc 0)"
  "bit (uart_ctrl_word nco c) 6 \<longleftrightarrow> parity_enable c = kDifUartToggleEnabled"
  "bit (uart_ctrl_word nco c) 7 \<longleftrightarrow> parity c = kDifUartParityOdd"
  by (auto simp: uart_ctrl_word_def Let_def bit_bit32_write bit_field32_write_outside
      field32_read_bit_write field32_read_write_same field_ok_def field_bits_def)

lemma run_dif_uart_configure:
  "run_state (dif_uart_configure (Some u) c) w =
     (if baudrate c = 0 \<or> clk_freq_hz c = 0 then (kDifUartConfigBadConfig, w)
      else if 2 ^ 16 \<le> unat (baudrate c) * 2 ^ 20 div unat (clk_freq_hz c) then (kDifUartConfigBadNco, w)
      else (kDifUartConfigOk, w\<lparr>trace :=
         [Wr32 (uart_addr u UART_INTR_ENABLE_REG_OFFSET) 0, Wr32 (uart_addr u UART_CTRL_REG_OFFSET)
            (uart_ctrl_word (ucast (((push_bit 20 (ucast (baudrate c)) :: u64) div ucast (clk_freq_hz c)) AND 0xffff)) c),
          Wr32 (uart_addr u UART_INTR_STATE_REG_OFFSET) 0xffffffff, Wr32 (uart_addr u UART_INTR_ENABLE_REG_OFFSET) 0,
          Wr32 (uart_addr u UART_TIMEOUT_CTRL_REG_OFFSET) 0, Wr32 (uart_addr u UART_OVRD_REG_OFFSET) 0,
          Wr32 (uart_addr u UART_FIFO_CTRL_REG_OFFSET) 3, Wr32 (uart_addr u UART_CTRL_REG_OFFSET) 0] @ trace w\<rparr>))"
proof -
  define nco where "nco = (push_bit 20 (ucast (baudrate c)) :: u64) div ucast (clk_freq_hz c)"
  have nco: "unat nco = unat (baudrate c) * 2 ^ 20 div unat (clk_freq_hz c)"
    unfolding nco_def by (rule uart_nco_unat)
  have fits: "nco = ucast (ucast (nco AND 0xffff) :: u32) \<longleftrightarrow> \<not> 2 ^ 16 \<le> unat nco"
    unfolding uart_nco_fits by (rule not_le [symmetric])
  have width: "unat (uart_nco_width + 4) = 20" by (simp add: uart_nco_width)
  have mask: "(ucast UART_CTRL_NCO_MASK :: u64) = 0xffff" by simp
  have rst: "bitfield_bit32_write (bitfield_bit32_write 0 UART_FIFO_CTRL_RXRST_BIT True) UART_FIFO_CTRL_TXRST_BIT True = 3"
    by (simp add: bitfield_bit32_write_def bitfield_bit32_to_field32_def bitfield_field32_write_def)
  show ?thesis
    unfolding dif_uart_configure_def uart_reset_def option.case width mask nco_def [symmetric] nco [symmetric]
    by (simp add: fits io_simps Let_def rst uart_ctrl_word_def)
qed

section \<open>Properties\<close>

text \<open>
  C32. Configuring the UART on any device. A zero baud rate or clock is refused, and so is a
  divisor \<open>baudrate * 2^20 div clk_freq_hz\<close> that does not fit the 16-bit NCO field, both without
  any bus access. Otherwise the driver resets the device register by register, then writes
  a control word whose NCO field is exactly that divisor, with TX and RX enabled and the parity bits as
  configured, and leaves the interrupts disabled; nothing else is accessed.
\<close>

theorem dif_uart_configure_correct:
  "let (r, w') = run_state (dif_uart_configure (Some u) c) w;
       nco = unat (baudrate c) * 2 ^ 20 div unat (clk_freq_hz c)
   in if baudrate c = 0 \<or> clk_freq_hz c = 0 then r = kDifUartConfigBadConfig \<and> w' = w
      else if 2 ^ 16 \<le> nco then r = kDifUartConfigBadNco \<and> w' = w
      else r = kDifUartConfigOk \<and> (\<exists>ctrl.
        trace w' = [Wr32 (uart_addr u UART_INTR_ENABLE_REG_OFFSET) 0, Wr32 (uart_addr u UART_CTRL_REG_OFFSET) ctrl,
          Wr32 (uart_addr u UART_INTR_STATE_REG_OFFSET) 0xffffffff, Wr32 (uart_addr u UART_INTR_ENABLE_REG_OFFSET) 0,
          Wr32 (uart_addr u UART_TIMEOUT_CTRL_REG_OFFSET) 0, Wr32 (uart_addr u UART_OVRD_REG_OFFSET) 0,
          Wr32 (uart_addr u UART_FIFO_CTRL_REG_OFFSET) 3, Wr32 (uart_addr u UART_CTRL_REG_OFFSET) 0] @ trace w
        \<and> unat (bitfield_field32_read ctrl UART_CTRL_NCO_FIELD) = nco
        \<and> bit ctrl 0 \<and> bit ctrl 1
        \<and> (bit ctrl 6 \<longleftrightarrow> parity_enable c = kDifUartToggleEnabled)
        \<and> (bit ctrl 7 \<longleftrightarrow> parity c = kDifUartParityOdd))"
proof -
  let ?x = "(push_bit 20 (ucast (baudrate c)) :: u64) div ucast (clk_freq_hz c)"
  have nco: "unat (ucast (?x AND 0xffff) AND 0xffff :: u32) = unat (baudrate c) * 2 ^ 20 div unat (clk_freq_hz c)"
    if "\<not> 2 ^ 16 \<le> unat (baudrate c) * 2 ^ 20 div unat (clk_freq_hz c)"
    using that unfolding uart_nco_unat [symmetric] not_le by (rule uart_nco_mask)
  show ?thesis
    unfolding run_dif_uart_configure
    by (auto simp: uart_ctrl_word_fields nco split del: if_split split: if_split_asm)
qed

text \<open>
  C33. Sending a buffer on any device: the count returned is at most the count requested, the
  words written to the data register are exactly that many bytes from the front of the buffer in
  order, no other register is written, and a short count means that the last access was a status
  read that showed a full FIFO. If the status never shows it full, everything is sent.
\<close>

theorem dif_uart_bytes_send_correct:
  assumes "n \<le> length data"
    and "run_state (dif_uart_bytes_send (Some u) (Some data) n (Some k0)) w = ((r, Some k), w')"
  shows "r = kDifUartOk \<and> k \<le> n
    \<and> writes_to (uart_addr u UART_WDATA_REG_OFFSET) (trace w') =
        writes_to (uart_addr u UART_WDATA_REG_OFFSET) (trace w) @ map ucast (take k data)
    \<and> (\<forall>a. a \<noteq> uart_addr u UART_WDATA_REG_OFFSET \<longrightarrow> writes_to a (trace w') = writes_to a (trace w))
    \<and> (k < n \<longrightarrow> (\<exists>v h. trace w' = Rd32 (uart_addr u UART_STATUS_REG_OFFSET) v # h \<and> bit v 0))"
proof -
  from assms(2) have "r = kDifUartOk" "run_state (uart_bytes_send_from u data n 0) w = (k, w')"
    by (auto simp: dif_uart_bytes_send_def uart_bytes_send_def split: prod.splits)
  with run_uart_bytes_send_from [OF _ assms(1), of 0 u w k w'] show ?thesis by auto
qed

definition idle_uart :: world where
  "idle_uart = \<lparr>dev32 = (\<lambda>_ _. 8), dev8 = (\<lambda>_ _. 0), trace = []\<rparr>"

abbreviation uart0 :: dif_uart where
  "uart0 \<equiv> \<lparr>uart_params = \<lparr>uart_base_addr = \<lparr>mmio_base = 0x40000000\<rparr>\<rparr>\<rparr>"

theorem dif_uart_bytes_send_correct_witness:
  "\<exists>w'. run_state (dif_uart_bytes_send (Some uart0) (Some [0x41, 0x42]) 2 (Some 0)) idle_uart = ((kDifUartOk, Some 2), w')
     \<and> writes_to 0x40000018 (trace w') = [0x41, 0x42]"
proof -
  have n: "(2 :: nat) \<le> length [0x41 :: u8, 0x42]" by simp
  have "\<exists>w'. run_state (dif_uart_bytes_send (Some uart0) (Some [0x41, 0x42]) 2 (Some 0)) idle_uart = ((kDifUartOk, Some 2), w')"
    by (simp add: dif_uart_bytes_send_def uart_bytes_send_def uart_bytes_send_from.simps io_simps idle_uart_def cur32_def)
  then obtain w' where run: "run_state (dif_uart_bytes_send (Some uart0) (Some [0x41, 0x42]) 2 (Some 0)) idle_uart
    = ((kDifUartOk, Some 2), w')" by blast
  from dif_uart_bytes_send_correct [OF n run] show ?thesis
    by (intro exI [of _ w'] conjI run) (simp add: mmio_addr32_def idle_uart_def)
qed

section \<open>Interrupts\<close>

abbreviation uart_irq_bit :: "dif_uart_irq \<Rightarrow> nat option" where
  "uart_irq_bit irq \<equiv> map_option unat (uart_irq_offset_get irq)"

lemma uart_irq_offset_inj:
  "uart_irq_offset_get i = Some m \<Longrightarrow> uart_irq_offset_get j = Some n \<Longrightarrow> unat n = unat m \<Longrightarrow> i = j"
  by (cases i; cases j) auto

lemma uart_irq_offset_bound: "uart_irq_offset_get i = Some n \<Longrightarrow> unat n < 32"
  by (cases i) auto

abbreviation uart_toggle :: "bool \<Rightarrow> dif_uart_toggle" where
  "uart_toggle b \<equiv> (if b then kDifUartToggleEnabled else kDifUartToggleDisabled)"

interpretation uart_irqs: irq_block uart_irq_bit "uart_addr u UART_INTR_ENABLE_REG_OFFSET"
    "\<lambda>i b w. snd (run_state (dif_uart_irq_set_enabled (Some u) i (uart_toggle b)) w)"
    "\<lambda>i w. fst (run_state (dif_uart_irq_get_enabled (Some u) i (Some kDifUartToggleDisabled)) w)
       = (kDifUartOk, Some kDifUartToggleEnabled)"
    "\<lambda>w. case run_state (dif_uart_irq_disable_all (Some u) (Some 0)) w of ((_, s), w') \<Rightarrow> (the s, w')"
    "\<lambda>s w. snd (run_state (dif_uart_irq_restore_all (Some u) (Some s)) w)"
  for u
  by unfold_locales
    (auto simp: dif_uart_irq_set_enabled_def dif_uart_irq_get_enabled_def dif_uart_irq_disable_all_def
      dif_uart_irq_restore_all_def io_simps Let_def bit32_read_eq_bit uart_irq_offset_bound
      word_unat_eq_iff dest: uart_irq_offset_inj split: if_splits)

text \<open>
  The interrupt-enable operations of the UART implement the set of enabled interrupts: enabling
  inserts one, disabling removes it, and no other changes; reading tells membership;
  \<open>dif_uart_irq_disable_all\<close> empties the set and restoring the snapshot it took brings the
  set back, whatever was enabled in between.
\<close>

lemma dif_uart_irq_enable_set:
  assumes "plain init w" "plain init w'" "uart_irq_bit i = Some n"
    and E: "E = enabled_irqs uart_irq_bit (uart_addr u UART_INTR_ENABLE_REG_OFFSET)"
    and "run_state (dif_uart_irq_disable_all (Some u) (Some 0)) w = ((r, Some snapshot), w0)"
  shows "E (snd (run_state (dif_uart_irq_set_enabled (Some u) i kDifUartToggleEnabled) w)) = insert i (E w)
    \<and> E (snd (run_state (dif_uart_irq_set_enabled (Some u) i kDifUartToggleDisabled) w)) = E w - {i}
    \<and> (fst (run_state (dif_uart_irq_get_enabled (Some u) i (Some kDifUartToggleDisabled)) w)
        = (kDifUartOk, Some kDifUartToggleEnabled) \<longleftrightarrow> i \<in> E w)
    \<and> E w0 = {}
    \<and> E (snd (run_state (dif_uart_irq_restore_all (Some u) (Some snapshot)) w')) = E w"
  using uart_irqs.set_en_enabled [OF assms(1,3), of u True] uart_irqs.set_en_enabled [OF assms(1,3), of u False]
    uart_irqs.get_en_iff [OF assms(3), of u w] uart_irqs.disable_enabled [OF assms(1), of u]
    uart_irqs.restore_enabled [OF assms(1,2), of u] assms(5)
  by (simp add: E)

lemma dif_uart_irq_enable_set_witness:
  "enabled_irqs uart_irq_bit 0x40000004
     (snd (run_state (dif_uart_irq_set_enabled (Some uart0) kDifUartIrqRxOverflow kDifUartToggleEnabled) (plain_world (\<lambda>_. 0))))
   = {kDifUartIrqRxOverflow}"
proof -
  let ?w = "plain_world (\<lambda>_. 0)"
  obtain w0 where run: "run_state (dif_uart_irq_disable_all (Some uart0) (Some 0)) ?w = ((kDifUartOk, Some 0), w0)"
    by (simp add: dif_uart_irq_disable_all_def io_simps)
  have "uart_irq_bit kDifUartIrqRxOverflow = Some 3" by simp
  from dif_uart_irq_enable_set [OF plain_plain_world plain_plain_world this refl run]
  show ?thesis by (simp add: mmio_addr32_def) (simp add: enabled_irqs_def)
qed

section \<open>Polling\<close>

text \<open>
  What the hardware documents: a FIFO that is not full stays so until software writes, and
  the transmitter drains in bounded time.
\<close>

definition tx_not_full_stable :: "dif_uart \<Rightarrow> world \<Rightarrow> bool" where
  "tx_not_full_stable u w \<longleftrightarrow> (\<forall>h. let v = dev32 w h (uart_addr u 0x10) in
     \<not> bit v 0 \<longrightarrow> \<not> bit (dev32 w (Rd32 (uart_addr u 0x10) v # h) (uart_addr u 0x10)) 0)"

lemma spin_status_trace:
  assumes "spin_while cond w = Some w'"
    and step: "\<And>w. dev32 (snd (run_state cond w)) = dev32 w
      \<and> (\<forall>a. writes_to a (trace (snd (run_state cond w))) = writes_to a (trace w))"
  shows "dev32 w' = dev32 w \<and> (\<forall>a. writes_to a (trace w') = writes_to a (trace w))"
  by (rule spin_while_invariant [OF assms(1), where P = "\<lambda>v. dev32 v = dev32 w
      \<and> (\<forall>a. writes_to a (trace v) = writes_to a (trace w))"]) (use step in auto)

lemma byte_send_polled_run:
  assumes "\<exists>n. \<not> fst (run_state (uart_tx_full u) (polls (uart_tx_full u) n w))"
    and "tx_not_full_stable u w"
    and "\<And>w1. dev32 w1 = dev32 w \<Longrightarrow> \<exists>n. fst (run_state (uart_tx_idle u) (polls (uart_tx_idle u) n w1))"
  shows "\<exists>w'. dif_uart_byte_send_polled (Some u) byte w = Some (kDifUartOk, w')
    \<and> writes_to (uart_addr u UART_WDATA_REG_OFFSET) (trace w') =
        writes_to (uart_addr u UART_WDATA_REG_OFFSET) (trace w) @ [ucast byte]
    \<and> (\<forall>a. a \<noteq> uart_addr u UART_WDATA_REG_OFFSET \<longrightarrow> writes_to a (trace w') = writes_to a (trace w))
    \<and> dev32 w' = dev32 w"
proof -
  let ?notidle = "do { idle \<leftarrow> uart_tx_idle u; ret (\<not> idle) }"
  have st: "dev32 (snd (run_state (uart_tx_full u) v)) = dev32 v
      \<and> (\<forall>a. writes_to a (trace (snd (run_state (uart_tx_full u) v))) = writes_to a (trace v))"
    "dev32 (snd (run_state ?notidle v)) = dev32 v
      \<and> (\<forall>a. writes_to a (trace (snd (run_state ?notidle v))) = writes_to a (trace v))" for v
    by (simp_all add: io_simps)
  from assms(1) obtain w1 where w1: "spin_while (uart_tx_full u) w = Some w1"
    using spin_while_returns_iff by blast
  note s1 = spin_status_trace [OF w1 st(1)]
  from spin_while_last [OF w1] obtain w0 where "\<not> fst (run_state (uart_tx_full u) w0)"
    "w1 = snd (run_state (uart_tx_full u) w0)" by blast
  with assms(2) s1 have free: "\<not> bit (cur32 w1 (uart_addr u 0x10)) 0"
    by (auto simp: io_simps tx_not_full_stable_def Let_def cur32_def)
  define w2 where "w2 = log (Wr32 (uart_addr u 0x18) (ucast byte))
    (log (Rd32 (uart_addr u 0x10) (cur32 w1 (uart_addr u 0x10))) w1)"
  have w2: "run_state (uart_bytes_send u [byte] 1) w1 = (1, w2)"
    using free by (simp add: uart_bytes_send_def uart_bytes_send_from.simps io_simps w2_def)
  have "dev32 w2 = dev32 w" using s1 by (simp add: w2_def)
  then obtain n where "fst (run_state (uart_tx_idle u) (polls (uart_tx_idle u) n w2))"
    using assms(3) by blast
  moreover have "(\<lambda>v. snd (run_state ?notidle v)) = (\<lambda>v. snd (run_state (uart_tx_idle u) v))"
    by (simp add: io_simps)
  then have "polls ?notidle n w2 = polls (uart_tx_idle u) n w2" by (simp add: polls_def)
  ultimately have "\<not> fst (run_state ?notidle (polls ?notidle n w2))" by (simp add: case_prod_unfold)
  then obtain w3 where w3: "spin_while ?notidle w2 = Some w3"
    using spin_while_returns_iff by blast
  note s3 = spin_status_trace [OF w3 st(2)]
  have "dif_uart_byte_send_polled (Some u) byte w = Some (kDifUartOk, w3)"
    by (simp add: dif_uart_byte_send_polled_def w1 w2 w3 del: One_nat_def)
  then show ?thesis using s1 s3 by (simp add: w2_def)
qed

text \<open>
  C34. Sending a byte by polling on a device whose status eventually reads \<open>not full\<close>, stays so until
  the next write, and whose transmitter eventually reads \<open>idle\<close>: the operation returns
  \<open>kDifUartOk\<close> and has written exactly this byte to the data register, and nothing else.
  (The driver discards the count of the inner send, so without the stability a byte may be lost.)
\<close>

theorem dif_uart_byte_send_polled_returns:
  assumes "\<exists>n. \<not> fst (run_state (uart_tx_full u) (polls (uart_tx_full u) n w))"
    and "tx_not_full_stable u w"
    and "\<And>w1. dev32 w1 = dev32 w \<Longrightarrow> \<exists>n. fst (run_state (uart_tx_idle u) (polls (uart_tx_idle u) n w1))"
  shows "\<exists>w'. dif_uart_byte_send_polled (Some u) byte w = Some (kDifUartOk, w')
    \<and> writes_to (uart_addr u UART_WDATA_REG_OFFSET) (trace w') =
        writes_to (uart_addr u UART_WDATA_REG_OFFSET) (trace w) @ [ucast byte]
    \<and> (\<forall>a. a \<noteq> uart_addr u UART_WDATA_REG_OFFSET \<longrightarrow> writes_to a (trace w') = writes_to a (trace w))"
  using byte_send_polled_run [OF assms(1-3)] by blast

theorem dif_uart_byte_send_polled_returns_witness:
  "\<exists>w'. dif_uart_byte_send_polled (Some uart0) 0x41 idle_uart = Some (kDifUartOk, w')
     \<and> writes_to 0x40000018 (trace w') = [0x41]"
proof -
  have a: "\<exists>n. \<not> fst (run_state (uart_tx_full uart0) (polls (uart_tx_full uart0) n idle_uart))"
    by (intro exI [of _ 0]) (simp add: io_simps idle_uart_def cur32_def)
  have b: "tx_not_full_stable uart0 idle_uart" by (simp add: tx_not_full_stable_def idle_uart_def)
  have c: "\<exists>n. fst (run_state (uart_tx_idle uart0) (polls (uart_tx_idle uart0) n w1))"
    if "dev32 w1 = dev32 idle_uart" for w1
    by (intro exI [of _ 0]) (use that in \<open>simp add: io_simps idle_uart_def cur32_def\<close>)
  from dif_uart_byte_send_polled_returns [OF a b c, where byte = "0x41"]
  show ?thesis by (auto simp: mmio_addr32_def idle_uart_def)
qed

end
