(* ===== verification/DifRvTimer.thy ===== *)
theory DifRvTimer
  imports Mmio
begin

text \<open>
  The timer driver (\<open>sw/device/lib/dif/dif_rv_timer.c\<close>). Register offsets are those of
  \<open>hw/ip/rv_timer/data/rv_timer.hjson\<close>. \<open>ptrdiff_t\<close> arithmetic mixed with \<open>uint32_t\<close>
  operands is unsigned 32-bit arithmetic on the target, so offsets are words.
\<close>

section \<open>Registers and types\<close>

abbreviation RV_TIMER_CTRL_REG_OFFSET :: u32 where "RV_TIMER_CTRL_REG_OFFSET \<equiv> 0x0"
abbreviation RV_TIMER_CFG0_REG_OFFSET :: u32 where "RV_TIMER_CFG0_REG_OFFSET \<equiv> 0x100"
abbreviation RV_TIMER_TIMER_V_LOWER0_REG_OFFSET :: u32 where "RV_TIMER_TIMER_V_LOWER0_REG_OFFSET \<equiv> 0x104"
abbreviation RV_TIMER_TIMER_V_UPPER0_REG_OFFSET :: u32 where "RV_TIMER_TIMER_V_UPPER0_REG_OFFSET \<equiv> 0x108"
abbreviation RV_TIMER_COMPARE_LOWER0_0_REG_OFFSET :: u32 where "RV_TIMER_COMPARE_LOWER0_0_REG_OFFSET \<equiv> 0x10c"
abbreviation RV_TIMER_COMPARE_UPPER0_0_REG_OFFSET :: u32 where "RV_TIMER_COMPARE_UPPER0_0_REG_OFFSET \<equiv> 0x110"
abbreviation RV_TIMER_INTR_ENABLE0_REG_OFFSET :: u32 where "RV_TIMER_INTR_ENABLE0_REG_OFFSET \<equiv> 0x114"
abbreviation RV_TIMER_INTR_STATE0_REG_OFFSET :: u32 where "RV_TIMER_INTR_STATE0_REG_OFFSET \<equiv> 0x118"
abbreviation RV_TIMER_INTR_TEST0_REG_OFFSET :: u32 where "RV_TIMER_INTR_TEST0_REG_OFFSET \<equiv> 0x11c"
abbreviation RV_TIMER_CFG0_PRESCALE_MASK :: u64 where "RV_TIMER_CFG0_PRESCALE_MASK \<equiv> 0xfff"
abbreviation RV_TIMER_CFG0_STEP_MASK :: u64 where "RV_TIMER_CFG0_STEP_MASK \<equiv> 0xff"
abbreviation RV_TIMER_CFG0_PRESCALE_FIELD :: bitfield_field32 where
  "RV_TIMER_CFG0_PRESCALE_FIELD \<equiv> \<lparr>field_mask = 0xfff, field_index = 0\<rparr>"
abbreviation RV_TIMER_CFG0_STEP_FIELD :: bitfield_field32 where
  "RV_TIMER_CFG0_STEP_FIELD \<equiv> \<lparr>field_mask = 0xff, field_index = 16\<rparr>"
abbreviation UINT32_MAX :: u32 where "UINT32_MAX \<equiv> 0xffffffff"
abbreviation UINT64_MAX :: u64 where "UINT64_MAX \<equiv> 0xffffffffffffffff"

datatype dif_rv_timer_enabled =
  kDifRvTimerDisabled | kDifRvTimerEnabled | dif_rv_timer_enabled_other nat

record dif_rv_timer_tick_params =
  prescale :: u16
  tick_step :: u8

datatype dif_rv_timer_result = kDifRvTimerOk | kDifRvTimerBadArg | kDifRvTimerError

datatype dif_rv_timer_approximate_tick_params_result =
  kDifRvTimerApproximateTickParamsOk | kDifRvTimerApproximateTickParamsBadArg
| kDifRvTimerApproximateTickParamsError | kDifRvTimerApproximateTickParamsUnrepresentable

record dif_rv_timer_config =
  hart_count :: u32
  comparator_count :: u32

record dif_rv_timer =
  rv_timer_base_addr :: mmio_region
  rv_timer_config :: dif_rv_timer_config

abbreviation kHartRegisterSpacing :: u32 where "kHartRegisterSpacing \<equiv> 0x100"

definition reg_for_hart :: "u32 \<Rightarrow> u32 \<Rightarrow> u32" where
  "reg_for_hart hart reg_offset = kHartRegisterSpacing * hart + reg_offset"

section \<open>Tick parameters\<close>

function euclidean_gcd :: "u64 \<Rightarrow> u64 \<Rightarrow> u64" where
  "euclidean_gcd a b = (if b \<noteq> 0 then euclidean_gcd b (a mod b) else a)"
  by pat_completeness auto
termination
  by (relation "measure (\<lambda>(a, b). unat b)") (auto simp: unat_mod word_neq_0_conv word_less_nat_alt)

declare euclidean_gcd.simps [simp del]

text \<open>
  \<open>None\<close>: a division by zero, undefined in C, which happens when both frequencies are zero.
\<close>

definition dif_rv_timer_approximate_tick_params ::
  "u64 \<Rightarrow> u64 \<Rightarrow> dif_rv_timer_tick_params ptr
     \<Rightarrow> (dif_rv_timer_approximate_tick_params_result \<times> dif_rv_timer_tick_params ptr) option" where
  "dif_rv_timer_approximate_tick_params clock_freq counter_freq out =
     (case out of NULL \<Rightarrow> Some (kDifRvTimerApproximateTickParamsBadArg, out)
      | Some _ \<Rightarrow>
        (let g = euclidean_gcd clock_freq counter_freq in
         if g = 0 then None
         else
           (let prescale' = clock_freq div g - 1;
                step = counter_freq div g
            in if prescale' > RV_TIMER_CFG0_PRESCALE_MASK \<or> step > RV_TIMER_CFG0_STEP_MASK
               then Some (kDifRvTimerApproximateTickParamsUnrepresentable, out)
               else Some (kDifRvTimerApproximateTickParamsOk,
                 store out \<lparr>prescale = ucast prescale', tick_step = ucast step\<rparr>))))"

definition dif_rv_timer_set_tick_params ::
  "dif_rv_timer ptr \<Rightarrow> u32 \<Rightarrow> dif_rv_timer_tick_params \<Rightarrow> dif_rv_timer_result io" where
  "dif_rv_timer_set_tick_params timer hart_id params =
     (case timer of NULL \<Rightarrow> ret kDifRvTimerBadArg
      | Some timer \<Rightarrow>
        if hart_id \<ge> hart_count (rv_timer_config timer) then ret kDifRvTimerBadArg
        else do {
          let config_value = 0;
          let config_value = bitfield_field32_write config_value RV_TIMER_CFG0_PRESCALE_FIELD (ucast (prescale params));
          let config_value = bitfield_field32_write config_value RV_TIMER_CFG0_STEP_FIELD (ucast (tick_step params));
          _ \<leftarrow> mmio_region_write32 (rv_timer_base_addr timer) (reg_for_hart hart_id RV_TIMER_CFG0_REG_OFFSET) config_value;
          ret kDifRvTimerOk
        })"

section \<open>Counter\<close>

definition dif_rv_timer_counter_set_enabled ::
  "dif_rv_timer ptr \<Rightarrow> u32 \<Rightarrow> dif_rv_timer_enabled \<Rightarrow> dif_rv_timer_result io" where
  "dif_rv_timer_counter_set_enabled timer hart_id st =
     (case timer of NULL \<Rightarrow> ret kDifRvTimerBadArg
      | Some timer \<Rightarrow>
        if hart_id \<ge> hart_count (rv_timer_config timer) then ret kDifRvTimerBadArg
        else (case st of
            kDifRvTimerEnabled \<Rightarrow> do {
              _ \<leftarrow> mmio_region_nonatomic_set_bit32 (rv_timer_base_addr timer) RV_TIMER_CTRL_REG_OFFSET hart_id;
              ret kDifRvTimerOk }
          | kDifRvTimerDisabled \<Rightarrow> do {
              _ \<leftarrow> mmio_region_nonatomic_clear_bit32 (rv_timer_base_addr timer) RV_TIMER_CTRL_REG_OFFSET hart_id;
              ret kDifRvTimerOk }
          | dif_rv_timer_enabled_other _ \<Rightarrow> ret kDifRvTimerBadArg))"

text \<open>One pass of the \<open>while (true)\<close> loop: the two halves read and the overflow check.\<close>

definition rv_timer_counter_sample :: "dif_rv_timer \<Rightarrow> u32 \<Rightarrow> (u32 \<times> u32 \<times> u32) io" where
  "rv_timer_counter_sample timer hart_id = do {
     upper \<leftarrow> mmio_region_read32 (rv_timer_base_addr timer) (reg_for_hart hart_id RV_TIMER_TIMER_V_UPPER0_REG_OFFSET);
     lower \<leftarrow> mmio_region_read32 (rv_timer_base_addr timer) (reg_for_hart hart_id RV_TIMER_TIMER_V_LOWER0_REG_OFFSET);
     overflow_check \<leftarrow> mmio_region_read32 (rv_timer_base_addr timer) (reg_for_hart hart_id RV_TIMER_TIMER_V_UPPER0_REG_OFFSET);
     ret (upper, lower, overflow_check)
   }"

partial_function (option) rv_timer_counter_loop :: "dif_rv_timer \<Rightarrow> u32 \<Rightarrow> world \<Rightarrow> (u64 \<times> world) option" where
  "rv_timer_counter_loop timer hart_id w =
     (case run_state (rv_timer_counter_sample timer hart_id) w of ((upper, lower, overflow_check), w') \<Rightarrow>
        if upper = overflow_check then Some (push_bit 32 (ucast upper) OR ucast lower, w')
        else rv_timer_counter_loop timer hart_id w')"

definition dif_rv_timer_counter_read ::
  "dif_rv_timer ptr \<Rightarrow> u32 \<Rightarrow> u64 ptr \<Rightarrow> world \<Rightarrow> (dif_rv_timer_result \<times> u64 ptr \<times> world) option" where
  "dif_rv_timer_counter_read timer hart_id out w =
     (case (timer, out) of
        (Some t, Some _) \<Rightarrow>
          if hart_id \<ge> hart_count (rv_timer_config t) then Some (kDifRvTimerBadArg, out, w)
          else map_option (\<lambda>(v, w'). (kDifRvTimerOk, store out v, w')) (rv_timer_counter_loop t hart_id w)
      | _ \<Rightarrow> Some (kDifRvTimerBadArg, out, w))"

section \<open>Comparators\<close>

definition dif_rv_timer_arm :: "dif_rv_timer ptr \<Rightarrow> u32 \<Rightarrow> u32 \<Rightarrow> u64 \<Rightarrow> dif_rv_timer_result io" where
  "dif_rv_timer_arm timer hart_id comp_id threshold =
     (case timer of NULL \<Rightarrow> ret kDifRvTimerBadArg
      | Some timer \<Rightarrow>
        if hart_id \<ge> hart_count (rv_timer_config timer) \<or> comp_id \<ge> comparator_count (rv_timer_config timer)
        then ret kDifRvTimerBadArg
        else do {
          let lower = ucast threshold;
          let upper = ucast (drop_bit 32 threshold);
          let lower_reg = reg_for_hart hart_id RV_TIMER_COMPARE_LOWER0_0_REG_OFFSET + (8 * comp_id);
          let upper_reg = reg_for_hart hart_id RV_TIMER_COMPARE_UPPER0_0_REG_OFFSET + (8 * comp_id);
          _ \<leftarrow> mmio_region_write32 (rv_timer_base_addr timer) upper_reg UINT32_MAX;
          _ \<leftarrow> mmio_region_write32 (rv_timer_base_addr timer) lower_reg lower;
          _ \<leftarrow> mmio_region_write32 (rv_timer_base_addr timer) upper_reg upper;
          ret kDifRvTimerOk
        })"

section \<open>Interrupts\<close>

definition kComparatorsInReggenHeader :: u32 where
  "kComparatorsInReggenHeader = (RV_TIMER_INTR_ENABLE0_REG_OFFSET - RV_TIMER_COMPARE_LOWER0_0_REG_OFFSET) div 8"

definition irq_reg_for_hart :: "u32 \<Rightarrow> u32 \<Rightarrow> u32 \<Rightarrow> u32" where
  "irq_reg_for_hart hart_id comparators reg_offset =
     (let extra_comparator_offset = 8 * (comparators - kComparatorsInReggenHeader)
      in reg_for_hart hart_id reg_offset + extra_comparator_offset)"

abbreviation rv_timer_bad_comp :: "dif_rv_timer \<Rightarrow> u32 \<Rightarrow> u32 \<Rightarrow> bool" where
  "rv_timer_bad_comp timer hart_id comp_id \<equiv>
     hart_id \<ge> hart_count (rv_timer_config timer) \<or> comp_id \<ge> comparator_count (rv_timer_config timer)"

definition dif_rv_timer_irq_enable ::
  "dif_rv_timer ptr \<Rightarrow> u32 \<Rightarrow> u32 \<Rightarrow> dif_rv_timer_enabled \<Rightarrow> dif_rv_timer_result io" where
  "dif_rv_timer_irq_enable timer hart_id comp_id st =
     (case timer of NULL \<Rightarrow> ret kDifRvTimerBadArg
      | Some timer \<Rightarrow>
        if rv_timer_bad_comp timer hart_id comp_id then ret kDifRvTimerBadArg
        else
          (let reg = irq_reg_for_hart hart_id (comparator_count (rv_timer_config timer)) RV_TIMER_INTR_ENABLE0_REG_OFFSET
           in case st of
              kDifRvTimerEnabled \<Rightarrow> do {
                _ \<leftarrow> mmio_region_nonatomic_set_bit32 (rv_timer_base_addr timer) reg comp_id;
                ret kDifRvTimerOk }
            | kDifRvTimerDisabled \<Rightarrow> do {
                _ \<leftarrow> mmio_region_nonatomic_clear_bit32 (rv_timer_base_addr timer) reg comp_id;
                ret kDifRvTimerOk }
            | dif_rv_timer_enabled_other _ \<Rightarrow> ret kDifRvTimerBadArg))"

definition dif_rv_timer_irq_get ::
  "dif_rv_timer ptr \<Rightarrow> u32 \<Rightarrow> u32 \<Rightarrow> bool ptr \<Rightarrow> (dif_rv_timer_result \<times> bool ptr) io" where
  "dif_rv_timer_irq_get timer hart_id comp_id flag_out =
     (case (timer, flag_out) of
        (Some timer, Some _) \<Rightarrow>
          if rv_timer_bad_comp timer hart_id comp_id then ret (kDifRvTimerBadArg, flag_out)
          else do {
            let reg = irq_reg_for_hart hart_id (comparator_count (rv_timer_config timer)) RV_TIMER_INTR_STATE0_REG_OFFSET;
            flag \<leftarrow> mmio_region_get_bit32 (rv_timer_base_addr timer) reg comp_id;
            ret (kDifRvTimerOk, store flag_out flag)
          }
      | _ \<Rightarrow> ret (kDifRvTimerBadArg, flag_out))"

definition dif_rv_timer_irq_clear :: "dif_rv_timer ptr \<Rightarrow> u32 \<Rightarrow> u32 \<Rightarrow> dif_rv_timer_result io" where
  "dif_rv_timer_irq_clear timer hart_id comp_id =
     (case timer of NULL \<Rightarrow> ret kDifRvTimerBadArg
      | Some timer \<Rightarrow>
        if rv_timer_bad_comp timer hart_id comp_id then ret kDifRvTimerBadArg
        else do {
          let reg = irq_reg_for_hart hart_id (comparator_count (rv_timer_config timer)) RV_TIMER_INTR_STATE0_REG_OFFSET;
          _ \<leftarrow> mmio_region_write32 (rv_timer_base_addr timer) reg (push_bit (unat comp_id) 1);
          ret kDifRvTimerOk
        })"

definition dif_rv_timer_irq_disable ::
  "dif_rv_timer ptr \<Rightarrow> u32 \<Rightarrow> u32 ptr \<Rightarrow> (dif_rv_timer_result \<times> u32 ptr) io" where
  "dif_rv_timer_irq_disable timer hart_id st =
     (case timer of NULL \<Rightarrow> ret (kDifRvTimerBadArg, st)
      | Some timer \<Rightarrow>
        if hart_id \<ge> hart_count (rv_timer_config timer) then ret (kDifRvTimerBadArg, st)
        else do {
          let reg = irq_reg_for_hart hart_id (comparator_count (rv_timer_config timer)) RV_TIMER_INTR_ENABLE0_REG_OFFSET;
          st' \<leftarrow> (if st \<noteq> NULL then do {
              v \<leftarrow> mmio_region_read32 (rv_timer_base_addr timer) reg;
              ret (store st v)
            } else ret st);
          _ \<leftarrow> mmio_region_write32 (rv_timer_base_addr timer) reg 0;
          ret (kDifRvTimerOk, st')
        })"

definition dif_rv_timer_irq_restore :: "dif_rv_timer ptr \<Rightarrow> u32 \<Rightarrow> u32 \<Rightarrow> dif_rv_timer_result io" where
  "dif_rv_timer_irq_restore timer hart_id st =
     (case timer of NULL \<Rightarrow> ret kDifRvTimerBadArg
      | Some timer \<Rightarrow>
        if hart_id \<ge> hart_count (rv_timer_config timer) then ret kDifRvTimerBadArg
        else do {
          let reg = irq_reg_for_hart hart_id (comparator_count (rv_timer_config timer)) RV_TIMER_INTR_ENABLE0_REG_OFFSET;
          _ \<leftarrow> mmio_region_write32 (rv_timer_base_addr timer) reg st;
          ret kDifRvTimerOk
        })"

definition dif_rv_timer_irq_force :: "dif_rv_timer ptr \<Rightarrow> u32 \<Rightarrow> u32 \<Rightarrow> dif_rv_timer_result io" where
  "dif_rv_timer_irq_force timer hart_id comp_id =
     (case timer of NULL \<Rightarrow> ret kDifRvTimerBadArg
      | Some timer \<Rightarrow>
        if rv_timer_bad_comp timer hart_id comp_id then ret kDifRvTimerBadArg
        else do {
          let reg = irq_reg_for_hart hart_id (comparator_count (rv_timer_config timer)) RV_TIMER_INTR_TEST0_REG_OFFSET;
          _ \<leftarrow> mmio_region_write32 (rv_timer_base_addr timer) reg (push_bit (unat comp_id) 1);
          ret kDifRvTimerOk
        })"

section \<open>Reset and initialisation\<close>

text \<open>A counting loop whose body may return an error from the function.\<close>

primrec rv_timer_until_error :: "'i list \<Rightarrow> ('i \<Rightarrow> dif_rv_timer_result io) \<Rightarrow> dif_rv_timer_result io" where
  "rv_timer_until_error [] body = ret kDifRvTimerOk"
| "rv_timer_until_error (i # is) body = do {
     error \<leftarrow> body i;
     (if error \<noteq> kDifRvTimerOk then ret error else rv_timer_until_error is body)
   }"

definition dif_rv_timer_reset :: "dif_rv_timer ptr \<Rightarrow> dif_rv_timer_result io" where
  "dif_rv_timer_reset timer =
     (case timer of NULL \<Rightarrow> ret kDifRvTimerBadArg
      | Some t \<Rightarrow> do {
          _ \<leftarrow> mmio_region_write32 (rv_timer_base_addr t) RV_TIMER_CTRL_REG_OFFSET 0x0;
          rv_timer_until_error [0..<unat (hart_count (rv_timer_config t))] (\<lambda>hart. do {
            let hart_id = (of_nat hart :: u32);
            let irq_status = irq_reg_for_hart hart_id (comparator_count (rv_timer_config t)) RV_TIMER_INTR_STATE0_REG_OFFSET;
            let irq_enable = irq_reg_for_hart hart_id (comparator_count (rv_timer_config t)) RV_TIMER_INTR_ENABLE0_REG_OFFSET;
            _ \<leftarrow> mmio_region_write32 (rv_timer_base_addr t) irq_enable 0x0;
            _ \<leftarrow> mmio_region_write32 (rv_timer_base_addr t) irq_status UINT32_MAX;
            error \<leftarrow> rv_timer_until_error [0..<unat (comparator_count (rv_timer_config t))]
              (\<lambda>comp. dif_rv_timer_arm timer hart_id (of_nat comp) UINT64_MAX);
            (if error \<noteq> kDifRvTimerOk then ret error else do {
               _ \<leftarrow> mmio_region_write32 (rv_timer_base_addr t) (reg_for_hart hart_id RV_TIMER_TIMER_V_LOWER0_REG_OFFSET) 0x0;
               _ \<leftarrow> mmio_region_write32 (rv_timer_base_addr t) (reg_for_hart hart_id RV_TIMER_TIMER_V_UPPER0_REG_OFFSET) 0x0;
               ret kDifRvTimerOk
             })
          })
        })"

definition dif_rv_timer_init ::
  "mmio_region \<Rightarrow> dif_rv_timer_config \<Rightarrow> dif_rv_timer ptr \<Rightarrow> (dif_rv_timer_result \<times> dif_rv_timer ptr) io" where
  "dif_rv_timer_init base_addr config timer_out =
     (case timer_out of NULL \<Rightarrow> ret (kDifRvTimerBadArg, NULL)
      | Some t \<Rightarrow>
        if hart_count config < 1 \<or> comparator_count config < 1 then ret (kDifRvTimerBadArg, timer_out)
        else do {
          let t = t\<lparr>rv_timer_base_addr := base_addr, rv_timer_config := config\<rparr>;
          r \<leftarrow> dif_rv_timer_reset (Some t);
          ret (r, Some t)
        })"

section \<open>The greatest common divisor\<close>

lemma euclidean_gcd_unat: "unat (euclidean_gcd a b) = gcd (unat a) (unat b)"
proof (induction a b rule: euclidean_gcd.induct)
  case (1 a b)
  show ?case
  proof (cases "b = 0")
    case True
    then show ?thesis by (simp add: euclidean_gcd.simps)
  next
    case False
    then have "unat (euclidean_gcd a b) = unat (euclidean_gcd b (a mod b))"
      by (subst euclidean_gcd.simps) simp
    also have "\<dots> = gcd (unat b) (unat a mod unat b)"
      using 1 [OF False] by (simp add: unat_mod)
    also have "\<dots> = gcd (unat a) (unat b)" by (metis gcd_red_nat gcd.commute)
    finally show ?thesis .
  qed
qed

lemma word64_minus_1: "(x :: u64) \<noteq> 0 \<Longrightarrow> unat (x - 1) = unat x - 1"
  by (simp add: unat_minus_one)

text \<open>
  The tick parameters are exact. For a nonzero clock the computation never divides by zero; it
  succeeds precisely when the fraction \<open>counter_freq / clock_freq\<close> in lowest terms has a
  denominator of at most 4096 and a numerator of at most 255, and then the stored
  parameters satisfy \<open>counter_freq * (prescale + 1) = clock_freq * step\<close> with no rounding. Otherwise
  the output is left alone. With a zero clock the wrapped prescaler is refused, except that the
  code divides by zero when both frequencies are zero.
\<close>

lemma approximate_tick_params_exact:
  "if clock = 0 then dif_rv_timer_approximate_tick_params clock counter (Some p) =
      (if counter = 0 then None else Some (kDifRvTimerApproximateTickParamsUnrepresentable, Some p))
   else let g = gcd (unat clock) (unat counter);
            fits = (unat clock div g \<le> 4096 \<and> unat counter div g \<le> 255)
      in case dif_rv_timer_approximate_tick_params clock counter (Some p) of
           Some (kDifRvTimerApproximateTickParamsOk, Some q) \<Rightarrow> fits
             \<and> unat counter * (unat (prescale q) + 1) = unat clock * unat (tick_step q)
         | Some (kDifRvTimerApproximateTickParamsUnrepresentable, q) \<Rightarrow> \<not> fits \<and> q = Some p
         | _ \<Rightarrow> False"
proof -
  define g where "g = gcd (unat clock) (unat counter)"
  define gw where "gw = euclidean_gcd clock counter"
  have gw: "unat gw = g" by (simp add: gw_def g_def euclidean_gcd_unat)
  show ?thesis
  proof (cases "clock = 0")
    case False
    then have "0 < unat clock" by (simp add: unat_gt_0)
    then have "0 < g" and gdvd: "g dvd unat clock" "g dvd unat counter" by (simp_all add: g_def)
    then have "0 < unat clock div g" using \<open>0 < unat clock\<close> by (metis div_greater_zero_iff dvd_imp_le)
    have gw0: "gw \<noteq> 0" using gw \<open>0 < g\<close> by auto
    have ndiv: "unat (clock div gw) = unat clock div g" "unat (counter div gw) = unat counter div g"
      by (simp_all add: unat_div gw)
    then have p: "unat (clock div gw - 1) = unat clock div g - 1"
      using \<open>0 < unat clock div g\<close> by (subst word64_minus_1) auto
    have unrep: "clock div gw - 1 > RV_TIMER_CFG0_PRESCALE_MASK \<or> counter div gw > RV_TIMER_CFG0_STEP_MASK
      \<longleftrightarrow> \<not> (unat clock div g \<le> 4096 \<and> unat counter div g \<le> 255)"
      using \<open>0 < unat clock div g\<close> by (auto simp: word_less_nat_alt p ndiv)
    show ?thesis
    proof (cases "unat clock div g \<le> 4096 \<and> unat counter div g \<le> 255")
      case True
      have "unat (ucast (clock div gw - 1) :: u16) = unat clock div g - 1"
        using True by (auto simp: unsigned_ucast_eq p intro!: take_bit_nat_eq_self)
      moreover have "unat (ucast (counter div gw) :: u8) = unat counter div g"
        using True by (auto simp: unsigned_ucast_eq ndiv intro!: take_bit_nat_eq_self)
      moreover have "unat counter * (unat clock div g) = unat clock * (unat counter div g)"
        using gdvd by (metis div_mult_swap mult.commute)
      moreover have "dif_rv_timer_approximate_tick_params clock counter (Some p) =
        Some (kDifRvTimerApproximateTickParamsOk,
          Some \<lparr>prescale = ucast (clock div gw - 1), tick_step = ucast (counter div gw)\<rparr>)"
        using unrep True gw0
        by (simp add: dif_rv_timer_approximate_tick_params_def gw_def [symmetric] Let_def)
      ultimately show ?thesis
        using False True \<open>0 < unat clock div g\<close> by (simp add: g_def [symmetric] Let_def)
    next
      case unfit: False
      have "dif_rv_timer_approximate_tick_params clock counter (Some p) =
        Some (kDifRvTimerApproximateTickParamsUnrepresentable, Some p)"
        using unrep unfit gw0
        by (simp add: dif_rv_timer_approximate_tick_params_def gw_def [symmetric] Let_def)
      then show ?thesis using False unfit by (simp add: g_def [symmetric] Let_def)
    qed
  next
    case True
    then have "euclidean_gcd 0 counter = counter" by (simp add: word_unat_eq_iff euclidean_gcd_unat)
    then show ?thesis
      by (cases "counter = 0")
        (simp_all add: True dif_rv_timer_approximate_tick_params_def Let_def)
  qed
qed

section \<open>Reading the counter\<close>

abbreviation rv_timer_addr :: "dif_rv_timer \<Rightarrow> u32 \<Rightarrow> u32" where
  "rv_timer_addr t off \<equiv> mmio_addr32 (rv_timer_base_addr t) off"

text \<open>
  A device whose counter registers show the two halves of a 64-bit value that never decreases
  (and never wraps) from one bus access to the next.
\<close>

definition counter_device :: "dif_rv_timer \<Rightarrow> u32 \<Rightarrow> (bus_event list \<Rightarrow> u64) \<Rightarrow> world \<Rightarrow> bool" where
  "counter_device t hart c w \<longleftrightarrow>
     (\<forall>h. dev32 w h (rv_timer_addr t (reg_for_hart hart 0x108)) = ucast (drop_bit 32 (c h))
        \<and> dev32 w h (rv_timer_addr t (reg_for_hart hart 0x104)) = ucast (c h))
     \<and> (\<forall>h e. c h \<le> c (e # h))"

lemma join_halves:
  assumes "(ucast (drop_bit 32 x) :: u32) = ucast (drop_bit 32 y)"
  shows "push_bit 32 (ucast (ucast (drop_bit 32 x) :: u32)) OR ucast (ucast y :: u32) = (y :: u64)"
  unfolding assms by (rule bit_eqI) (auto simp: bit_simps)

lemma drop_bit_32_ucast: "unat (ucast (drop_bit 32 (x :: u64)) :: u32) = unat x div 2 ^ 32"
proof -
  have "unat x div 2 ^ 32 < 2 ^ 32" using unat_u64_bound [of x] by (simp del: unat_u64_bound)
  then show ?thesis by (simp add: unsigned_ucast_eq unsigned_drop_bit_eq drop_bit_eq_div unat_div take_bit_nat_eq_self)
qed

lemma upper_half_mono: "x \<le> y \<Longrightarrow> unat (ucast (drop_bit 32 x) :: u32) \<le> unat (ucast (drop_bit 32 (y :: u64)) :: u32)"
  unfolding drop_bit_32_ucast by (simp add: word_le_nat_alt div_le_mono)

lemma rv_timer_counter_loop_returns:
  assumes "counter_device t hart c w"
  shows "\<exists>w' ds es. rv_timer_counter_loop t hart w = Some (c (es @ trace w), w')
    \<and> trace w' = ds @ es @ trace w \<and> dev32 w' = dev32 w"
  using assms
proof (induction "4294967296 - unat (ucast (drop_bit 32 (c (trace w))) :: u32)" arbitrary: w rule: less_induct)
  case less
  let ?u = "rv_timer_addr t (reg_for_hart hart 0x108)" and ?l = "rv_timer_addr t (reg_for_hart hart 0x104)"
  define h1 where "h1 = Rd32 ?u (ucast (drop_bit 32 (c (trace w)))) # trace w"
  define h2 where "h2 = Rd32 ?l (ucast (c h1)) # h1"
  define w' where "w' = w\<lparr>trace := Rd32 ?u (ucast (drop_bit 32 (c h2))) # h2\<rparr>"
  have dev: "\<And>h. dev32 w h ?u = ucast (drop_bit 32 (c h))" "\<And>h. dev32 w h ?l = ucast (c h)"
    and mono: "\<And>h e. c h \<le> c (e # h)"
    using less.prems by (auto simp: counter_device_def)
  have run: "run_state (rv_timer_counter_sample t hart) w =
      ((ucast (drop_bit 32 (c (trace w))), ucast (c h1), ucast (drop_bit 32 (c h2))), w')"
    by (simp add: rv_timer_counter_sample_def io_simps cur32_def dev h1_def h2_def w'_def)
  have le: "c (trace w) \<le> c h1" "c h1 \<le> c h2" "c h2 \<le> c (trace w')"
    by (simp_all add: h1_def h2_def w'_def mono)
  show ?case
  proof (cases "(ucast (drop_bit 32 (c (trace w))) :: u32) = ucast (drop_bit 32 (c h2))")
    case True
    then have "(ucast (drop_bit 32 (c (trace w))) :: u32) = ucast (drop_bit 32 (c h1))"
      using upper_half_mono [OF le(1)] upper_half_mono [OF le(2)] by (simp add: word_unat_eq_iff)
    from join_halves [OF this] True
    have "rv_timer_counter_loop t hart w = Some (c h1, w')"
      by (subst rv_timer_counter_loop.simps) (simp add: run)
    then show ?thesis
      by (intro exI [of _ w'] exI [of _ "[Rd32 ?u (ucast (drop_bit 32 (c h2))), Rd32 ?l (ucast (c h1))]"]
          exI [of _ "[Rd32 ?u (ucast (drop_bit 32 (c (trace w))))]"]) (simp add: w'_def h2_def h1_def)
  next
    case False
    have loop: "rv_timer_counter_loop t hart w = rv_timer_counter_loop t hart w'"
      using False by (subst rv_timer_counter_loop.simps) (simp add: run)
    have "unat (ucast (drop_bit 32 (c (trace w))) :: u32) \<noteq> unat (ucast (drop_bit 32 (c h2)) :: u32)"
      using False by (simp add: word_unat_eq_iff)
    then have lt: "4294967296 - unat (ucast (drop_bit 32 (c (trace w'))) :: u32)
        < 4294967296 - unat (ucast (drop_bit 32 (c (trace w))) :: u32)"
      using upper_half_mono [OF le(1)] upper_half_mono [OF le(2)] upper_half_mono [OF le(3)]
        unat_u32_bound [of "ucast (drop_bit 32 (c (trace w)))"]
        unat_u32_bound [of "ucast (drop_bit 32 (c (trace w')))"] by linarith
    have "counter_device t hart c w'" using less.prems by (simp add: counter_device_def w'_def)
    from less.hyps [OF lt this] obtain w2 ds es where
      "rv_timer_counter_loop t hart w' = Some (c (es @ trace w'), w2)"
      "trace w2 = ds @ es @ trace w'" "dev32 w2 = dev32 w'" by blast
    then show ?thesis unfolding loop
      by (intro exI [of _ w2] exI [of _ ds] exI [of _ "es @ [Rd32 ?u (ucast (drop_bit 32 (c h2))),
        Rd32 ?l (ucast (c h1)), Rd32 ?u (ucast (drop_bit 32 (c (trace w))))]"]) (simp add: w'_def h2_def h1_def)
  qed
qed

text \<open>
  C14. Reading the 64-bit counter through two 32-bit registers is atomic and terminates: on a device whose
  counter never decreases, \<open>dif_rv_timer_counter_read\<close> returns \<open>kDifRvTimerOk\<close> after finitely many passes,
  and the value stored is exactly the counter's value at some instant between the call and the
  return, however often the lower half overflows in between.
\<close>

theorem dif_rv_timer_counter_read_atomic:
  assumes "hart < hart_count (rv_timer_config t)" "counter_device t hart c w"
  shows "\<exists>v w' ds es. dif_rv_timer_counter_read (Some t) hart (Some x) w = Some (kDifRvTimerOk, Some v, w')
    \<and> trace w' = ds @ es @ trace w \<and> v = c (es @ trace w)"
  using rv_timer_counter_loop_returns [OF assms(2)] assms(1)
  by (auto simp: dif_rv_timer_counter_read_def not_le)

abbreviation timer0 :: dif_rv_timer where
  "timer0 \<equiv> \<lparr>rv_timer_base_addr = \<lparr>mmio_base = 0x40080000\<rparr>,
     rv_timer_config = \<lparr>hart_count = 1, comparator_count = 1\<rparr>\<rparr>"

theorem dif_rv_timer_counter_read_atomic_witness:
  "\<exists>v w'. dif_rv_timer_counter_read (Some timer0) 0 (Some 0)
     \<lparr>dev32 = (\<lambda>h a. if a = 0x40080108 then 5 else 7), dev8 = (\<lambda>_ _. 0), trace = []\<rparr> =
     Some (kDifRvTimerOk, Some v, w') \<and> v = 0x500000007"
proof -
  let ?w = "\<lparr>dev32 = (\<lambda>h a. if a = 0x40080108 then 5 else 7), dev8 = (\<lambda>_ _. 0), trace = []\<rparr>"
  have hart: "0 < hart_count (rv_timer_config timer0)" by simp
  have "counter_device timer0 0 (\<lambda>_. 0x500000007) ?w"
    by (simp add: counter_device_def mmio_addr32_def reg_for_hart_def)
  from dif_rv_timer_counter_read_atomic [OF hart this, of 0] show ?thesis by auto
qed

section \<open>Arming a comparator\<close>

definition rv_timer_compare :: "dif_rv_timer \<Rightarrow> u32 \<Rightarrow> u32 \<Rightarrow> world \<Rightarrow> u64" where
  "rv_timer_compare t hart cmp w =
     push_bit 32 (ucast (cur32 w (rv_timer_addr t (reg_for_hart hart RV_TIMER_COMPARE_UPPER0_0_REG_OFFSET + 8 * cmp))))
     OR ucast (cur32 w (rv_timer_addr t (reg_for_hart hart RV_TIMER_COMPARE_LOWER0_0_REG_OFFSET + 8 * cmp)))"

lemma rv_timer_compare_addr:
  "rv_timer_addr t (reg_for_hart hart 0x110 + 8 * cmp) =
     mmio_base (rv_timer_base_addr t) + (reg_for_hart hart 0x110 + 8 * cmp)"
  "rv_timer_addr t (reg_for_hart hart 0x10c + 8 * cmp) =
     mmio_base (rv_timer_base_addr t) + (reg_for_hart hart 0x10c + 8 * cmp)"
  by (rule mmio_addr32_aligned [where k = "0x40 * hart + 0x44 + 2 * cmp"], simp add: reg_for_hart_def)
    (rule mmio_addr32_aligned [where k = "0x40 * hart + 0x43 + 2 * cmp"], simp add: reg_for_hart_def)

lemma rv_timer_compare_addr_neq:
  "rv_timer_addr t (reg_for_hart hart 0x110 + 8 * cmp) \<noteq> rv_timer_addr t (reg_for_hart hart 0x10c + 8 * cmp)"
  unfolding rv_timer_compare_addr by (simp add: reg_for_hart_def)

lemma max_upper_ge: "0xffffffff00000000 \<le> (push_bit 32 (ucast (0xffffffff :: u32)) OR ucast (x :: u32) :: u64)"
  using le_word_or2 [of "push_bit 32 (ucast (0xffffffff :: u32)) :: u64" "ucast x"] by simp

text \<open>
  C35. Arming a comparator never sets off the alarm early. With the compare registers plain storage,
  \<open>dif_rv_timer_arm\<close> takes three writes, and after each of them the 64-bit compare value is
  the new threshold or at least \<open>0xffffffff00000000\<close>: there is no intermediate mixture of the old and new halves.
  At the end it is the threshold.
\<close>

theorem dif_rv_timer_arm_never_early:
  assumes "plain init w" "hart < hart_count (rv_timer_config t)" "cmp < comparator_count (rv_timer_config t)"
    and "run_state (dif_rv_timer_arm (Some t) hart cmp threshold) w = (r, w')"
  shows "r = kDifRvTimerOk \<and> rv_timer_compare t hart cmp w' = threshold
    \<and> (\<forall>k < 3. let v = rv_timer_compare t hart cmp (w'\<lparr>trace := drop k (trace w')\<rparr>)
        in v = threshold \<or> 0xffffffff00000000 \<le> v)
    \<and> drop 3 (trace w') = trace w"
proof -
  let ?u = "rv_timer_addr t (reg_for_hart hart 0x110 + 8 * cmp)"
  let ?l = "rv_timer_addr t (reg_for_hart hart 0x10c + 8 * cmp)"
  have bounds: "\<not> hart_count (rv_timer_config t) \<le> hart" "\<not> comparator_count (rv_timer_config t) \<le> cmp"
    using assms(2,3) by simp_all
  have w': "w' = w\<lparr>trace := Wr32 ?u (ucast (drop_bit 32 threshold)) # Wr32 ?l (ucast threshold)
      # Wr32 ?u UINT32_MAX # trace w\<rparr>" and r: "r = kDifRvTimerOk"
    using assms(4) bounds by (auto simp: dif_rv_timer_arm_def io_simps Let_def)
  have final: "rv_timer_compare t hart cmp w' = threshold"
    using assms(1) rv_timer_compare_addr_neq [of t hart cmp] join_halves [OF refl, of threshold]
    by (simp add: w' rv_timer_compare_def)
  have mid: "0xffffffff00000000 \<le> rv_timer_compare t hart cmp (w'\<lparr>trace := drop 1 (trace w')\<rparr>)"
    "0xffffffff00000000 \<le> rv_timer_compare t hart cmp (w'\<lparr>trace := drop 2 (trace w')\<rparr>)"
    using assms(1) rv_timer_compare_addr_neq [of t hart cmp] max_upper_ge
    by (simp_all add: w' rv_timer_compare_def)
  have "let v = rv_timer_compare t hart cmp (w'\<lparr>trace := drop k (trace w')\<rparr>)
      in v = threshold \<or> 0xffffffff00000000 \<le> v" if "k < 3" for k
  proof -
    from that have "k = 0 \<or> k = 1 \<or> k = 2" by arith
    with mid final show ?thesis unfolding Let_def by (elim disjE) simp_all
  qed
  with final r show ?thesis by (simp add: w')
qed

theorem dif_rv_timer_arm_never_early_witness:
  "rv_timer_compare timer0 0 0 (snd (run_state (dif_rv_timer_arm (Some timer0) 0 0 0x123456789) (plain_world (\<lambda>_. 1))))
   = 0x123456789"
proof -
  have "0 < hart_count (rv_timer_config timer0)" "0 < comparator_count (rv_timer_config timer0)" by simp_all
  from dif_rv_timer_arm_never_early [OF plain_plain_world this prod.collapse [symmetric]] show ?thesis by blast
qed

end
