(* ===== verification/DifPlic.thy ===== *)
theory DifPlic
  imports Mmio
begin

text \<open>
  The platform-level interrupt controller driver (\<open>sw/device/lib/dif/dif_plic.c\<close>). The
  register map is the generated one of \<open>hw/top_earlgrey/ip/rv_plic\<close>: 171 sources, one target.
\<close>

section \<open>Registers and types\<close>

abbreviation RV_PLIC_PARAM_NUMSRC :: u32 where "RV_PLIC_PARAM_NUMSRC \<equiv> 171"
abbreviation RV_PLIC_PARAM_NUMTARGET :: u32 where "RV_PLIC_PARAM_NUMTARGET \<equiv> 1"
abbreviation RV_PLIC_PARAM_REG_WIDTH :: u32 where "RV_PLIC_PARAM_REG_WIDTH \<equiv> 32"
abbreviation RV_PLIC_LE_MULTIREG_COUNT :: nat where "RV_PLIC_LE_MULTIREG_COUNT \<equiv> 6"
abbreviation RV_PLIC_IE0_MULTIREG_COUNT :: nat where "RV_PLIC_IE0_MULTIREG_COUNT \<equiv> 6"
abbreviation RV_PLIC_IP_0_REG_OFFSET :: u32 where "RV_PLIC_IP_0_REG_OFFSET \<equiv> 0x0"
abbreviation RV_PLIC_LE_0_REG_OFFSET :: u32 where "RV_PLIC_LE_0_REG_OFFSET \<equiv> 0x18"
abbreviation RV_PLIC_PRIO0_REG_OFFSET :: u32 where "RV_PLIC_PRIO0_REG_OFFSET \<equiv> 0x30"
abbreviation RV_PLIC_IE0_0_REG_OFFSET :: u32 where "RV_PLIC_IE0_0_REG_OFFSET \<equiv> 0x300"
abbreviation RV_PLIC_THRESHOLD0_REG_OFFSET :: u32 where "RV_PLIC_THRESHOLD0_REG_OFFSET \<equiv> 0x318"
abbreviation RV_PLIC_CC0_REG_OFFSET :: u32 where "RV_PLIC_CC0_REG_OFFSET \<equiv> 0x31c"
abbreviation RV_PLIC_MSIP0_REG_OFFSET :: u32 where "RV_PLIC_MSIP0_REG_OFFSET \<equiv> 0x320"
abbreviation kDifPlicMaxPriority :: u32 where "kDifPlicMaxPriority \<equiv> 0x3"

type_synonym dif_plic_irq_id = u32
type_synonym dif_plic_target = u32

datatype dif_plic_toggle = kDifPlicToggleEnabled | kDifPlicToggleDisabled | dif_plic_toggle_other nat

datatype dif_plic_irq_trigger =
  kDifPlicIrqTriggerEdge | kDifPlicIrqTriggerLevel | dif_plic_irq_trigger_other nat

datatype dif_plic_result = kDifPlicOk | kDifPlicError | kDifPlicBadArg

record dif_plic_params =
  plic_base_addr :: mmio_region

record dif_plic =
  plic_params :: dif_plic_params

record plic_reg_info =
  reg_offset :: u32
  bit_index :: u8

abbreviation plic_base :: "dif_plic \<Rightarrow> mmio_region" where
  "plic_base plic \<equiv> plic_base_addr (plic_params plic)"

section \<open>Register addresses\<close>

text \<open>The register index is truncated to eight bits.\<close>

definition plic_offset_from_reg0 :: "dif_plic_irq_id \<Rightarrow> u32" where
  "plic_offset_from_reg0 irq =
     (let register_index = (ucast (irq div RV_PLIC_PARAM_REG_WIDTH) :: u8) in ucast register_index * 4)"

definition plic_irq_bit_index :: "dif_plic_irq_id \<Rightarrow> u8" where
  "plic_irq_bit_index irq = ucast (irq mod RV_PLIC_PARAM_REG_WIDTH)"

definition plic_irq_enable_base_for_target :: "dif_plic_target \<Rightarrow> u32" where
  "plic_irq_enable_base_for_target target =
     (let range = of_nat RV_PLIC_IE0_MULTIREG_COUNT * 4 in RV_PLIC_IE0_0_REG_OFFSET + range * target)"

definition plic_software_irq_base_for_target :: "dif_plic_target \<Rightarrow> u32" where
  "plic_software_irq_base_for_target target = RV_PLIC_MSIP0_REG_OFFSET + target * 4"

definition plic_threshold_base_for_target :: "dif_plic_target \<Rightarrow> u32" where
  "plic_threshold_base_for_target target = RV_PLIC_THRESHOLD0_REG_OFFSET + target * 4"

definition plic_claim_complete_base_for_target :: "dif_plic_target \<Rightarrow> u32" where
  "plic_claim_complete_base_for_target target = RV_PLIC_CC0_REG_OFFSET + target * 4"

definition plic_irq_enable_reg_info :: "dif_plic_irq_id \<Rightarrow> dif_plic_target \<Rightarrow> plic_reg_info" where
  "plic_irq_enable_reg_info irq target =
     (let offset = plic_offset_from_reg0 irq in
      \<lparr>reg_offset = plic_irq_enable_base_for_target target + offset, bit_index = plic_irq_bit_index irq\<rparr>)"

definition plic_irq_trigger_type_reg_info :: "dif_plic_irq_id \<Rightarrow> plic_reg_info" where
  "plic_irq_trigger_type_reg_info irq =
     (let offset = plic_offset_from_reg0 irq in
      \<lparr>reg_offset = RV_PLIC_LE_0_REG_OFFSET + offset, bit_index = plic_irq_bit_index irq\<rparr>)"

definition plic_irq_pending_reg_info :: "dif_plic_irq_id \<Rightarrow> plic_reg_info" where
  "plic_irq_pending_reg_info irq =
     (let offset = plic_offset_from_reg0 irq in
      \<lparr>reg_offset = RV_PLIC_IP_0_REG_OFFSET + offset, bit_index = plic_irq_bit_index irq\<rparr>)"

definition plic_priority_reg_offset :: "dif_plic_irq_id \<Rightarrow> u32" where
  "plic_priority_reg_offset irq = (let offset = irq * 4 in RV_PLIC_PRIO0_REG_OFFSET + offset)"

section \<open>Reset and initialisation\<close>

definition plic_reset :: "dif_plic \<Rightarrow> unit io" where
  "plic_reset plic = do {
     _ \<leftarrow> for_each [0..<RV_PLIC_LE_MULTIREG_COUNT] (\<lambda>i.
       let offset = RV_PLIC_LE_0_REG_OFFSET + of_nat i * 4 in mmio_region_write32 (plic_base plic) offset 0);
     _ \<leftarrow> for_each [0..<unat RV_PLIC_PARAM_NUMSRC] (\<lambda>i.
       let offset = plic_priority_reg_offset (of_nat i) in mmio_region_write32 (plic_base plic) offset 0);
     for_each [0..<unat RV_PLIC_PARAM_NUMTARGET] (\<lambda>target. do {
       let offset = plic_irq_enable_base_for_target (of_nat target);
       _ \<leftarrow> for_each [0..<RV_PLIC_IE0_MULTIREG_COUNT] (\<lambda>i.
         let multireg_offset = offset + of_nat i * 4 in mmio_region_write32 (plic_base plic) multireg_offset 0);
       let offset = plic_threshold_base_for_target (of_nat target);
       _ \<leftarrow> mmio_region_write32 (plic_base plic) offset 0;
       let offset = plic_software_irq_base_for_target (of_nat target);
       mmio_region_write32 (plic_base plic) offset 0
     })
   }"

definition dif_plic_init :: "dif_plic_params \<Rightarrow> dif_plic ptr \<Rightarrow> (dif_plic_result \<times> dif_plic ptr) io" where
  "dif_plic_init params plic =
     (case plic of NULL \<Rightarrow> ret (kDifPlicBadArg, NULL)
      | Some plic \<Rightarrow> do {
          let plic = plic\<lparr>plic_params := params\<rparr>;
          _ \<leftarrow> plic_reset plic;
          ret (kDifPlicOk, Some plic)
        })"

section \<open>Interrupt sources\<close>

text \<open>
  \<open>dif_plic_irq_get_enabled\<close> writes through \<open>state\<close> without a NULL check, so the object is
  an argument here.
\<close>

definition dif_plic_irq_get_enabled ::
  "dif_plic ptr \<Rightarrow> dif_plic_irq_id \<Rightarrow> dif_plic_target \<Rightarrow> dif_plic_toggle
     \<Rightarrow> (dif_plic_result \<times> dif_plic_toggle) io" where
  "dif_plic_irq_get_enabled plic irq target st =
     (case plic of NULL \<Rightarrow> ret (kDifPlicBadArg, st)
      | Some plic \<Rightarrow>
        if irq \<ge> RV_PLIC_PARAM_NUMSRC \<or> target \<ge> RV_PLIC_PARAM_NUMTARGET then ret (kDifPlicBadArg, st)
        else do {
          let reg_info = plic_irq_enable_reg_info irq target;
          reg \<leftarrow> mmio_region_read32 (plic_base plic) (reg_offset reg_info);
          let is_enabled = bitfield_bit32_read reg (ucast (bit_index reg_info));
          ret (kDifPlicOk, if is_enabled then kDifPlicToggleEnabled else kDifPlicToggleDisabled)
        })"

fun plic_toggle_flag :: "dif_plic_toggle \<Rightarrow> bool option" where
  "plic_toggle_flag kDifPlicToggleEnabled = Some True"
| "plic_toggle_flag kDifPlicToggleDisabled = Some False"
| "plic_toggle_flag (dif_plic_toggle_other _) = None"

definition dif_plic_irq_set_enabled ::
  "dif_plic ptr \<Rightarrow> dif_plic_irq_id \<Rightarrow> dif_plic_target \<Rightarrow> dif_plic_toggle \<Rightarrow> dif_plic_result io" where
  "dif_plic_irq_set_enabled plic irq target st =
     (case plic of NULL \<Rightarrow> ret kDifPlicBadArg
      | Some plic \<Rightarrow>
        if irq \<ge> RV_PLIC_PARAM_NUMSRC \<or> target \<ge> RV_PLIC_PARAM_NUMTARGET then ret kDifPlicBadArg
        else (case plic_toggle_flag st of None \<Rightarrow> ret kDifPlicBadArg
          | Some flag \<Rightarrow> do {
              let reg_info = plic_irq_enable_reg_info irq target;
              reg \<leftarrow> mmio_region_read32 (plic_base plic) (reg_offset reg_info);
              let reg = bitfield_bit32_write reg (ucast (bit_index reg_info)) flag;
              _ \<leftarrow> mmio_region_write32 (plic_base plic) (reg_offset reg_info) reg;
              ret kDifPlicOk
            }))"

fun plic_trigger_flag :: "dif_plic_irq_trigger \<Rightarrow> bool option" where
  "plic_trigger_flag kDifPlicIrqTriggerEdge = Some True"
| "plic_trigger_flag kDifPlicIrqTriggerLevel = Some False"
| "plic_trigger_flag (dif_plic_irq_trigger_other _) = None"

definition dif_plic_irq_set_trigger ::
  "dif_plic ptr \<Rightarrow> dif_plic_irq_id \<Rightarrow> dif_plic_irq_trigger \<Rightarrow> dif_plic_result io" where
  "dif_plic_irq_set_trigger plic irq trigger =
     (case plic of NULL \<Rightarrow> ret kDifPlicBadArg
      | Some plic \<Rightarrow>
        if irq \<ge> RV_PLIC_PARAM_NUMSRC then ret kDifPlicBadArg
        else (case plic_trigger_flag trigger of None \<Rightarrow> ret kDifPlicBadArg
          | Some flag \<Rightarrow> do {
              let reg_info = plic_irq_trigger_type_reg_info irq;
              reg \<leftarrow> mmio_region_read32 (plic_base plic) (reg_offset reg_info);
              let reg = bitfield_bit32_write reg (ucast (bit_index reg_info)) flag;
              _ \<leftarrow> mmio_region_write32 (plic_base plic) (reg_offset reg_info) reg;
              ret kDifPlicOk
            }))"

definition dif_plic_irq_set_priority ::
  "dif_plic ptr \<Rightarrow> dif_plic_irq_id \<Rightarrow> u32 \<Rightarrow> dif_plic_result io" where
  "dif_plic_irq_set_priority plic irq priority =
     (case plic of NULL \<Rightarrow> ret kDifPlicBadArg
      | Some plic \<Rightarrow>
        if irq \<ge> RV_PLIC_PARAM_NUMSRC \<or> priority > kDifPlicMaxPriority then ret kDifPlicBadArg
        else do {
          let offset = plic_priority_reg_offset irq;
          _ \<leftarrow> mmio_region_write32 (plic_base plic) offset priority;
          ret kDifPlicOk
        })"

definition dif_plic_target_set_threshold ::
  "dif_plic ptr \<Rightarrow> dif_plic_target \<Rightarrow> u32 \<Rightarrow> dif_plic_result io" where
  "dif_plic_target_set_threshold plic target threshold =
     (case plic of NULL \<Rightarrow> ret kDifPlicBadArg
      | Some plic \<Rightarrow>
        if target \<ge> RV_PLIC_PARAM_NUMTARGET \<or> threshold > kDifPlicMaxPriority then ret kDifPlicBadArg
        else do {
          let threshold_offset = plic_threshold_base_for_target target;
          _ \<leftarrow> mmio_region_write32 (plic_base plic) threshold_offset threshold;
          ret kDifPlicOk
        })"

definition dif_plic_irq_is_pending ::
  "dif_plic ptr \<Rightarrow> dif_plic_irq_id \<Rightarrow> bool ptr \<Rightarrow> (dif_plic_result \<times> bool ptr) io" where
  "dif_plic_irq_is_pending plic irq is_pending =
     (case (plic, is_pending) of
        (Some plic, Some _) \<Rightarrow>
          if irq \<ge> RV_PLIC_PARAM_NUMSRC then ret (kDifPlicBadArg, is_pending)
          else do {
            let reg_info = plic_irq_pending_reg_info irq;
            reg \<leftarrow> mmio_region_read32 (plic_base plic) (reg_offset reg_info);
            ret (kDifPlicOk, store is_pending (bitfield_bit32_read reg (ucast (bit_index reg_info))))
          }
      | _ \<Rightarrow> ret (kDifPlicBadArg, is_pending))"

section \<open>Claim, complete and software interrupts\<close>

definition dif_plic_irq_claim ::
  "dif_plic ptr \<Rightarrow> dif_plic_target \<Rightarrow> dif_plic_irq_id ptr \<Rightarrow> (dif_plic_result \<times> dif_plic_irq_id ptr) io" where
  "dif_plic_irq_claim plic target claim_data =
     (case (plic, claim_data) of
        (Some plic, Some _) \<Rightarrow>
          if target \<ge> RV_PLIC_PARAM_NUMTARGET then ret (kDifPlicBadArg, claim_data)
          else do {
            let claim_complete_reg = plic_claim_complete_base_for_target target;
            v \<leftarrow> mmio_region_read32 (plic_base plic) claim_complete_reg;
            ret (kDifPlicOk, store claim_data v)
          }
      | _ \<Rightarrow> ret (kDifPlicBadArg, claim_data))"

definition dif_plic_irq_complete ::
  "dif_plic ptr \<Rightarrow> dif_plic_target \<Rightarrow> dif_plic_irq_id ptr \<Rightarrow> dif_plic_result io" where
  "dif_plic_irq_complete plic target complete_data =
     (case (plic, complete_data) of
        (Some plic, Some complete_data) \<Rightarrow>
          if target \<ge> RV_PLIC_PARAM_NUMTARGET then ret kDifPlicBadArg
          else do {
            let claim_complete_reg = plic_claim_complete_base_for_target target;
            _ \<leftarrow> mmio_region_write32 (plic_base plic) claim_complete_reg complete_data;
            ret kDifPlicOk
          }
      | _ \<Rightarrow> ret kDifPlicBadArg)"

definition dif_plic_software_irq_force :: "dif_plic ptr \<Rightarrow> dif_plic_target \<Rightarrow> dif_plic_result io" where
  "dif_plic_software_irq_force plic target =
     (case plic of NULL \<Rightarrow> ret kDifPlicBadArg
      | Some plic \<Rightarrow>
        if target \<ge> RV_PLIC_PARAM_NUMTARGET then ret kDifPlicBadArg
        else do {
          let msip_offset = plic_software_irq_base_for_target target;
          _ \<leftarrow> mmio_region_write32 (plic_base plic) msip_offset 1;
          ret kDifPlicOk
        })"

definition dif_plic_software_irq_acknowledge :: "dif_plic ptr \<Rightarrow> dif_plic_target \<Rightarrow> dif_plic_result io" where
  "dif_plic_software_irq_acknowledge plic target =
     (case plic of NULL \<Rightarrow> ret kDifPlicBadArg
      | Some plic \<Rightarrow>
        if target \<ge> RV_PLIC_PARAM_NUMTARGET then ret kDifPlicBadArg
        else do {
          let msip_offset = plic_software_irq_base_for_target target;
          _ \<leftarrow> mmio_region_write32 (plic_base plic) msip_offset 0;
          ret kDifPlicOk
        })"

definition dif_plic_software_irq_is_pending ::
  "dif_plic ptr \<Rightarrow> dif_plic_target \<Rightarrow> bool ptr \<Rightarrow> (dif_plic_result \<times> bool ptr) io" where
  "dif_plic_software_irq_is_pending plic target is_pending =
     (case (plic, is_pending) of
        (Some plic, Some _) \<Rightarrow>
          if target \<ge> RV_PLIC_PARAM_NUMTARGET then ret (kDifPlicBadArg, is_pending)
          else do {
            let msip_offset = plic_software_irq_base_for_target target;
            register_value \<leftarrow> mmio_region_read32 (plic_base plic) msip_offset;
            ret (kDifPlicOk, store is_pending (if register_value = 1 then True else False))
          }
      | _ \<Rightarrow> ret (kDifPlicBadArg, is_pending))"

section \<open>The abstract controller\<close>

text \<open>What the registers mean: per source, whether it is enabled, edge-triggered, and its priority.\<close>

record plic_spec =
  spec_enabled :: "nat set"
  spec_edge :: "nat set"
  spec_priority :: "nat \<Rightarrow> u32"
  spec_threshold :: u32
  spec_software :: bool

text \<open>One bit per source from word index \<open>k\<close> on, and one word per source.\<close>

definition source_bits :: "(u32 \<Rightarrow> u32) \<Rightarrow> mmio_region \<Rightarrow> nat \<Rightarrow> nat set" where
  "source_bits c b k = {n. n < 171 \<and> bit (c (reg_addr b (k + n div 32))) (n mod 32)}"

definition source_words :: "(u32 \<Rightarrow> u32) \<Rightarrow> mmio_region \<Rightarrow> nat \<Rightarrow> nat \<Rightarrow> u32" where
  "source_words c b k n = (if n < 171 then c (reg_addr b (k + n)) else 0)"

definition plic_abs :: "dif_plic \<Rightarrow> world \<Rightarrow> plic_spec" where
  "plic_abs p w = \<lparr>
     spec_enabled = source_bits (cur32 w) (plic_base p) 192,
     spec_edge = source_bits (cur32 w) (plic_base p) 6,
     spec_priority = source_words (cur32 w) (plic_base p) 12,
     spec_threshold = cur32 w (reg_addr (plic_base p) 198),
     spec_software = (cur32 w (reg_addr (plic_base p) 200) = 1)\<rparr>"

lemma plic_offset_from_reg0: "irq < 171 \<Longrightarrow> plic_offset_from_reg0 irq = of_nat (4 * (unat irq div 32))"
proof -
  assume "irq < 171"
  then have "unat irq < 171" by (simp add: word_less_nat_alt)
  then have "unat irq div 32 < 256" by simp
  then have "ucast (ucast (irq div 32) :: u8) = irq div 32"
    by (simp add: word_unat_eq_iff unsigned_ucast_eq unsigned_take_bit_eq unat_div take_bit_nat_eq_self)
  moreover have "irq div 32 = of_nat (unat irq div 32)"
    using \<open>unat irq div 32 < 256\<close> by (simp add: word_unat_eq_iff unat_div unsigned_of_nat take_bit_nat_eq_self)
  ultimately show ?thesis by (simp add: plic_offset_from_reg0_def)
qed

lemma plic_irq_bit_index: "unat (plic_irq_bit_index irq) = unat irq mod 32"
proof -
  have "unat irq mod 32 < 256" by (rule less_trans [of _ 32]) simp_all
  then show ?thesis
    by (simp add: plic_irq_bit_index_def unat_mod unsigned_ucast_eq unsigned_take_bit_eq take_bit_nat_eq_self)
qed

lemma plic_addrs:
  assumes "irq < 171"
  shows "mmio_addr32 b (reg_offset (plic_irq_enable_reg_info irq 0)) = reg_addr b (192 + unat irq div 32)"
    "mmio_addr32 b (reg_offset (plic_irq_trigger_type_reg_info irq)) = reg_addr b (6 + unat irq div 32)"
    "mmio_addr32 b (reg_offset (plic_irq_pending_reg_info irq)) = reg_addr b (unat irq div 32)"
    "mmio_addr32 b (plic_priority_reg_offset irq) = reg_addr b (12 + unat irq)"
  using plic_offset_from_reg0 [OF assms]
  by (auto simp: plic_irq_enable_reg_info_def plic_irq_trigger_type_reg_info_def plic_irq_pending_reg_info_def
      plic_priority_reg_offset_def plic_irq_enable_base_for_target_def Let_def intro!: mmio_addr32_reg_addr)

section \<open>Refinement\<close>

text \<open>The effect of a bit write, a register write and a bit update on the tables of the abstraction.\<close>

lemma source_bits_update:
  assumes "unat i < 171" "k < 1000" "a = reg_addr b (k + unat i div 32)"
  shows "source_bits (c(a := bitfield_bit32_write (c a) (ucast (plic_irq_bit_index i)) v)) b k =
    (if v then insert (unat i) (source_bits c b k) else source_bits c b k - {unat i})"
proof -
  define c' where "c' = c(a := bitfield_bit32_write (c a) (ucast (plic_irq_bit_index i)) v)"
  have upd: "bit (c' (reg_addr b (k + n div 32))) (n mod 32) \<longleftrightarrow>
      (if n = unat i then v else bit (c (reg_addr b (k + n div 32))) (n mod 32))" if "n < 171" for n
  proof -
    have "reg_addr b (k + n div 32) = a \<longleftrightarrow> n div 32 = unat i div 32"
      unfolding assms(3) using that assms(1,2) by (subst reg_addr_inject) simp_all
    moreover have "n = unat i" if "n div 32 = unat i div 32" "n mod 32 = unat i mod 32"
      using that by (metis div_mult_mod_eq)
    ultimately show ?thesis
      by (auto simp: c'_def assms(3) bit_bit32_write plic_irq_bit_index)
  qed
  show ?thesis unfolding c'_def [symmetric] source_bits_def using assms(1)
    by (cases v) (auto simp: upd split: if_splits)
qed

lemma source_bits_frame:
  assumes "k < 1000" "j < 1000" "j < k \<or> k + 6 \<le> j"
  shows "source_bits (c(reg_addr b j := x)) b k = source_bits c b k"
proof -
  have "reg_addr b (k + n div 32) \<noteq> reg_addr b j" if "n < 171" for n
    using that assms by (subst reg_addr_inject) auto
  then show ?thesis by (auto simp: source_bits_def)
qed

lemma source_words_update:
  assumes "n < 171" "k < 1000"
  shows "source_words (c(reg_addr b (k + n) := x)) b k = (source_words c b k)(n := x)"
  using assms by (auto simp: source_words_def fun_eq_iff reg_addr_inject)

lemma source_words_frame:
  assumes "k < 1000" "j < 1000" "j < k \<or> k + 171 \<le> j"
  shows "source_words (c(reg_addr b j := x)) b k = source_words c b k"
  using assms by (auto simp: source_words_def fun_eq_iff reg_addr_inject)

lemmas plic_tables = source_bits_frame source_words_frame reg_addr_inject

lemma run_plic_irq_set_enabled:
  assumes "irq < 171" "plic_toggle_flag st = Some flag"
  shows "run_state (dif_plic_irq_set_enabled (Some p) irq 0 st) w =
    (kDifPlicOk, modify32 (reg_addr (plic_base p) (192 + unat irq div 32))
       (\<lambda>r. bitfield_bit32_write r (ucast (plic_irq_bit_index irq)) flag) w)"
  using assms by (simp add: dif_plic_irq_set_enabled_def io_simps Let_def plic_addrs modify32_def not_le [symmetric])
    (simp add: plic_irq_enable_reg_info_def Let_def)

lemma run_plic_irq_set_trigger:
  assumes "irq < 171" "plic_trigger_flag t = Some flag"
  shows "run_state (dif_plic_irq_set_trigger (Some p) irq t) w =
    (kDifPlicOk, modify32 (reg_addr (plic_base p) (6 + unat irq div 32))
       (\<lambda>r. bitfield_bit32_write r (ucast (plic_irq_bit_index irq)) flag) w)"
  using assms by (simp add: dif_plic_irq_set_trigger_def io_simps Let_def plic_addrs modify32_def not_le [symmetric])
    (simp add: plic_irq_trigger_type_reg_info_def Let_def)

lemma plic_fixed_addrs:
  "mmio_addr32 b (plic_threshold_base_for_target 0) = reg_addr b 198"
  "mmio_addr32 b (plic_software_irq_base_for_target 0) = reg_addr b 200"
  by (rule mmio_addr32_reg_addr, simp add: plic_threshold_base_for_target_def plic_software_irq_base_for_target_def)+

lemma source_index_bound: "(irq :: u32) < 171 \<Longrightarrow> unat irq < 171 \<and> unat irq div 32 < (6 :: nat)"
  by (simp add: word_less_nat_alt less_mult_imp_div_less)

lemma plic_set_enabled_abs:
  assumes "plain init w" "irq < 171" "plic_toggle_flag st = Some flag"
  shows "plic_abs p (snd (run_state (dif_plic_irq_set_enabled (Some p) irq 0 st) w)) =
    (plic_abs p w)\<lparr>spec_enabled := (if flag then insert (unat irq) (spec_enabled (plic_abs p w))
       else spec_enabled (plic_abs p w) - {unat irq})\<rparr>"
  unfolding plic_abs_def run_plic_irq_set_enabled [OF assms(2,3)] snd_conv conjunct2 [OF plain_modify [OF assms(1)]]
  using source_index_bound [OF assms(2)]
  by (simp add: source_bits_update plic_tables)

lemma plic_set_trigger_abs:
  assumes "plain init w" "irq < 171" "plic_trigger_flag t = Some flag"
  shows "plic_abs p (snd (run_state (dif_plic_irq_set_trigger (Some p) irq t) w)) =
    (plic_abs p w)\<lparr>spec_edge := (if flag then insert (unat irq) (spec_edge (plic_abs p w))
       else spec_edge (plic_abs p w) - {unat irq})\<rparr>"
  unfolding plic_abs_def run_plic_irq_set_trigger [OF assms(2,3)] snd_conv conjunct2 [OF plain_modify [OF assms(1)]]
  using source_index_bound [OF assms(2)]
  by (simp add: source_bits_update plic_tables)

lemma plic_set_priority_abs:
  assumes "plain init w" "irq < 171" "v \<le> 3"
  shows "plic_abs p (snd (run_state (dif_plic_irq_set_priority (Some p) irq v) w)) =
    (plic_abs p w)\<lparr>spec_priority := (spec_priority (plic_abs p w))(unat irq := v)\<rparr>"
proof -
  have "\<not> 171 \<le> irq" "\<not> 3 < v" using assms by simp_all
  then have "run_state (dif_plic_irq_set_priority (Some p) irq v) w =
      (kDifPlicOk, log (Wr32 (reg_addr (plic_base p) (12 + unat irq)) v) w)"
    by (simp add: dif_plic_irq_set_priority_def io_simps Let_def plic_addrs assms(2))
  then show ?thesis
    using source_index_bound [OF assms(2)] assms(1) by (simp add: plic_abs_def source_words_update plic_tables)
qed

lemma plic_set_threshold_abs:
  assumes "plain init w" "v \<le> 3"
  shows "plic_abs p (snd (run_state (dif_plic_target_set_threshold (Some p) 0 v) w)) =
    (plic_abs p w)\<lparr>spec_threshold := v\<rparr>"
proof -
  have "\<not> 3 < v" using assms by simp
  then have "run_state (dif_plic_target_set_threshold (Some p) 0 v) w =
      (kDifPlicOk, log (Wr32 (reg_addr (plic_base p) 198) v) w)"
    by (simp add: dif_plic_target_set_threshold_def io_simps Let_def plic_fixed_addrs)
  then show ?thesis using assms(1) by (simp add: plic_abs_def plic_tables)
qed

lemma plic_software_abs:
  assumes "plain init w"
  shows "plic_abs p (snd (run_state (dif_plic_software_irq_force (Some p) 0) w)) = (plic_abs p w)\<lparr>spec_software := True\<rparr>"
    "plic_abs p (snd (run_state (dif_plic_software_irq_acknowledge (Some p) 0) w)) = (plic_abs p w)\<lparr>spec_software := False\<rparr>"
  using assms
  by (simp_all add: dif_plic_software_irq_force_def dif_plic_software_irq_acknowledge_def plic_abs_def io_simps Let_def
      plic_fixed_addrs plic_tables)

section \<open>Reset\<close>

text \<open>The word indices that \<open>plic_reset\<close> clears.\<close>

lemma plic_reset_addr:
  "mmio_addr32 b (0x18 + of_nat i * 4) = reg_addr b (6 + i)"
  "mmio_addr32 b (plic_priority_reg_offset (of_nat i)) = reg_addr b (12 + i)"
  "mmio_addr32 b (plic_irq_enable_base_for_target 0 + of_nat i * 4) = reg_addr b (192 + i)"
  by (auto simp: plic_priority_reg_offset_def plic_irq_enable_base_for_target_def intro!: mmio_addr32_reg_addr)

lemma plic_reset_zero:
  assumes "plain init w"
    and w'_def: "w' = snd (run_state (plic_reset p) w)"
  shows "plain init w' \<and> (\<forall>k. (6 \<le> k \<and> k < 183) \<or> (192 \<le> k \<and> k < 199) \<or> k = 200
    \<longrightarrow> cur32 w' (reg_addr (plic_base p) k) = 0)"
proof -
  let ?b = "plic_base p"
  define w1 where "w1 = snd (run_state (for_each [0..<6] (\<lambda>i. mmio_region_write32 ?b (0x18 + of_nat i * 4) 0)) w)"
  define w2 where "w2 = snd (run_state (for_each [0..<171] (\<lambda>i. mmio_region_write32 ?b (plic_priority_reg_offset (of_nat i)) 0)) w1)"
  define w3 where "w3 = snd (run_state (for_each [0..<6] (\<lambda>i. mmio_region_write32 ?b (plic_irq_enable_base_for_target 0 + of_nat i * 4) 0)) w2)"
  have w': "w' = log (Wr32 (reg_addr ?b 200) 0) (log (Wr32 (reg_addr ?b 198) 0) w3)"
    by (simp add: w'_def plic_reset_def Let_def io_simps plic_fixed_addrs w3_def w2_def w1_def case_prod_unfold)
  have c1: "plain init w1" "cur32 w1 = (\<lambda>a. if a \<in> (\<lambda>i. reg_addr ?b (6 + i)) ` {0..<6} then 0 else cur32 w a)"
    using plain_clear_all [OF assms(1), of "[0..<6]" ?b "\<lambda>i. 0x18 + of_nat i * 4"]
    by (simp_all add: w1_def plic_reset_addr)
  have c2: "plain init w2" "cur32 w2 = (\<lambda>a. if a \<in> (\<lambda>i. reg_addr ?b (12 + i)) ` {0..<171} then 0 else cur32 w1 a)"
    using plain_clear_all [OF c1(1), of "[0..<171]" ?b "\<lambda>i. plic_priority_reg_offset (of_nat i)"]
    by (simp_all add: w2_def plic_reset_addr)
  have c3: "plain init w3" "cur32 w3 = (\<lambda>a. if a \<in> (\<lambda>i. reg_addr ?b (192 + i)) ` {0..<6} then 0 else cur32 w2 a)"
    using plain_clear_all [OF c2(1), of "[0..<6]" ?b "\<lambda>i. plic_irq_enable_base_for_target 0 + of_nat i * 4"]
    by (simp_all add: w3_def plic_reset_addr)
  have img: "reg_addr ?b k \<in> (\<lambda>i. reg_addr ?b (j + i)) ` {0..<m}" if "j \<le> k" "k < j + m" for j k m
    using that by (intro image_eqI [of _ _ "k - j"]) auto
  have "cur32 w' (reg_addr ?b k) = 0" if "(6 \<le> k \<and> k < 183) \<or> (192 \<le> k \<and> k < 199) \<or> k = 200" for k
  proof -
    from that consider "6 \<le> k \<and> k < 12" | "12 \<le> k \<and> k < 183" | "192 \<le> k \<and> k < 198" | "k = 198" | "k = 200"
      by linarith
    then show ?thesis
      using img [of 6 k 6] img [of 12 k 171] img [of 192 k 6] c3(1)
      by cases (simp_all add: w' c3(2) c2(2) c1(2))
  qed
  with c3(1) show ?thesis by (simp add: w')
qed

section \<open>Properties\<close>

text \<open>
  C28. The controller driver refines its specification. On plain registers, for every valid source
  each operation changes exactly the component it names of the abstract controller (the sets of enabled
  and of edge-triggered sources, the priority table, the threshold of the target, the software interrupt), and
  all the others keep their value; \<open>dif_plic_irq_get_enabled\<close> reads membership. So the
  bit and register arithmetic never lets one source disturb another.
\<close>

theorem dif_plic_refines_spec:
  assumes "plain init w" "irq < 171" "v \<le> 3"
  shows "let a = plic_abs p w; after = (\<lambda>m. plic_abs p (snd (run_state m w))) in
    after (dif_plic_irq_set_enabled (Some p) irq 0 kDifPlicToggleEnabled)
      = a\<lparr>spec_enabled := insert (unat irq) (spec_enabled a)\<rparr>
    \<and> after (dif_plic_irq_set_enabled (Some p) irq 0 kDifPlicToggleDisabled)
      = a\<lparr>spec_enabled := spec_enabled a - {unat irq}\<rparr>
    \<and> after (dif_plic_irq_set_trigger (Some p) irq kDifPlicIrqTriggerEdge)
      = a\<lparr>spec_edge := insert (unat irq) (spec_edge a)\<rparr>
    \<and> after (dif_plic_irq_set_trigger (Some p) irq kDifPlicIrqTriggerLevel)
      = a\<lparr>spec_edge := spec_edge a - {unat irq}\<rparr>
    \<and> after (dif_plic_irq_set_priority (Some p) irq v) = a\<lparr>spec_priority := (spec_priority a)(unat irq := v)\<rparr>
    \<and> after (dif_plic_target_set_threshold (Some p) 0 v) = a\<lparr>spec_threshold := v\<rparr>
    \<and> after (dif_plic_software_irq_force (Some p) 0) = a\<lparr>spec_software := True\<rparr>
    \<and> after (dif_plic_software_irq_acknowledge (Some p) 0) = a\<lparr>spec_software := False\<rparr>
    \<and> fst (run_state (dif_plic_irq_get_enabled (Some p) irq 0 st) w) =
        (kDifPlicOk, if unat irq \<in> spec_enabled a then kDifPlicToggleEnabled else kDifPlicToggleDisabled)"
proof -
  have "\<not> 171 \<le> irq" using assms(2) by simp
  then have get: "fst (run_state (dif_plic_irq_get_enabled (Some p) irq 0 st) w) =
      (kDifPlicOk, if unat irq \<in> spec_enabled (plic_abs p w) then kDifPlicToggleEnabled else kDifPlicToggleDisabled)"
    using source_index_bound [OF assms(2)] plic_addrs(1) [OF assms(2)]
    by (simp add: dif_plic_irq_get_enabled_def io_simps Let_def bit32_read_eq_bit plic_abs_def source_bits_def)
      (simp add: plic_irq_enable_reg_info_def Let_def plic_irq_bit_index)
  show ?thesis
    unfolding Let_def
    by (intro conjI)
      (simp_all add: plic_set_enabled_abs [OF assms(1,2), where flag = True]
        plic_set_enabled_abs [OF assms(1,2), where flag = False] plic_set_trigger_abs [OF assms(1,2), where flag = True]
        plic_set_trigger_abs [OF assms(1,2), where flag = False]
        plic_set_priority_abs [OF assms] plic_set_threshold_abs [OF assms(1,3)] plic_software_abs [OF assms(1)] get)
qed

abbreviation plic0 :: dif_plic where
  "plic0 \<equiv> \<lparr>plic_params = \<lparr>plic_base_addr = \<lparr>mmio_base = 0x40090000\<rparr>\<rparr>\<rparr>"

theorem dif_plic_refines_spec_witness:
  "spec_priority (plic_abs plic0 (snd (run_state (dif_plic_irq_set_priority (Some plic0) 170 3) (plain_world (\<lambda>_. 0))))) 170 = 3"
proof -
  have "(170 :: u32) < 171" "(3 :: u32) \<le> 3" by simp_all
  from dif_plic_refines_spec [OF plain_plain_world this, where p = plic0 and st = kDifPlicToggleEnabled]
  show ?thesis by (simp add: Let_def)
qed

text \<open>
  Initialising the controller over plain registers brings it to the empty state whatever it held: no source enabled,
  all level-triggered, every priority and the threshold zero, no software interrupt pending.
\<close>

lemma dif_plic_init_clears:
  assumes "plain init w"
    and "run_state (dif_plic_init params (Some p)) w = ((r, Some p'), w')"
  shows "r = kDifPlicOk \<and> plic_params p' = params
    \<and> plic_abs p' w' = \<lparr>spec_enabled = {}, spec_edge = {}, spec_priority = (\<lambda>_. 0), spec_threshold = 0, spec_software = False\<rparr>"
proof -
  from assms(2) have r: "r = kDifPlicOk" "p' = p\<lparr>plic_params := params\<rparr>"
    and w': "w' = snd (run_state (plic_reset p') w)"
    by (auto simp: dif_plic_init_def Let_def split: prod.splits)
  have zero: "cur32 w' (reg_addr (plic_base p') k) = 0" if "(6 \<le> k \<and> k < 183) \<or> (192 \<le> k \<and> k < 199) \<or> k = 200" for k
    using plic_reset_zero [OF assms(1) w'] that by blast
  have "x div 32 < 6" if "x < 171" for x :: nat using that by (simp add: less_mult_imp_div_less)
  then have bits: "cur32 w' (reg_addr (plic_base p') (192 + x div 32)) = 0"
    "cur32 w' (reg_addr (plic_base p') (6 + x div 32)) = 0" if "x < 171" for x
    using that by (auto intro!: zero simp: trans_less_add1)
  have "source_bits (cur32 w') (plic_base p') 192 = {}" "source_bits (cur32 w') (plic_base p') 6 = {}"
    "source_words (cur32 w') (plic_base p') 12 = (\<lambda>_. 0)"
    "cur32 w' (reg_addr (plic_base p') 198) = 0" "cur32 w' (reg_addr (plic_base p') 200) = 0"
    by (auto simp: source_bits_def source_words_def zero bits)
  then show ?thesis using r by (simp add: plic_abs_def)
qed

lemma dif_plic_init_clears_witness:
  "plic_abs plic0 (snd (run_state (dif_plic_init (plic_params plic0) (Some plic0)) (plain_world (\<lambda>_. 7)))) =
     \<lparr>spec_enabled = {}, spec_edge = {}, spec_priority = (\<lambda>_. 0), spec_threshold = 0, spec_software = False\<rparr>"
proof -
  obtain w' where run: "run_state (dif_plic_init (plic_params plic0) (Some plic0)) (plain_world (\<lambda>_. 7)) = ((kDifPlicOk, Some plic0), w')"
    by (simp add: dif_plic_init_def Let_def split_beta)
  from dif_plic_init_clears [OF plain_plain_world this] show ?thesis unfolding run snd_conv by blast
qed

end
