(* ===== verification/DifGpio.thy ===== *)
theory DifGpio
  imports IrqBlock
begin

text \<open>
  The GPIO driver (\<open>sw/device/lib/dif/dif_gpio.c\<close>). Register offsets are those of
  \<open>hw/ip/gpio/data/gpio.hjson\<close>.
\<close>

section \<open>Registers and types\<close>

abbreviation GPIO_INTR_STATE_REG_OFFSET :: u32 where "GPIO_INTR_STATE_REG_OFFSET \<equiv> 0x0"
abbreviation GPIO_INTR_ENABLE_REG_OFFSET :: u32 where "GPIO_INTR_ENABLE_REG_OFFSET \<equiv> 0x4"
abbreviation GPIO_INTR_TEST_REG_OFFSET :: u32 where "GPIO_INTR_TEST_REG_OFFSET \<equiv> 0x8"
abbreviation GPIO_DATA_IN_REG_OFFSET :: u32 where "GPIO_DATA_IN_REG_OFFSET \<equiv> 0xc"
abbreviation GPIO_DIRECT_OUT_REG_OFFSET :: u32 where "GPIO_DIRECT_OUT_REG_OFFSET \<equiv> 0x10"
abbreviation GPIO_MASKED_OUT_LOWER_REG_OFFSET :: u32 where "GPIO_MASKED_OUT_LOWER_REG_OFFSET \<equiv> 0x14"
abbreviation GPIO_MASKED_OUT_UPPER_REG_OFFSET :: u32 where "GPIO_MASKED_OUT_UPPER_REG_OFFSET \<equiv> 0x18"
abbreviation GPIO_DIRECT_OE_REG_OFFSET :: u32 where "GPIO_DIRECT_OE_REG_OFFSET \<equiv> 0x1c"
abbreviation GPIO_MASKED_OE_LOWER_REG_OFFSET :: u32 where "GPIO_MASKED_OE_LOWER_REG_OFFSET \<equiv> 0x20"
abbreviation GPIO_MASKED_OE_UPPER_REG_OFFSET :: u32 where "GPIO_MASKED_OE_UPPER_REG_OFFSET \<equiv> 0x24"
abbreviation GPIO_INTR_CTRL_EN_RISING_REG_OFFSET :: u32 where "GPIO_INTR_CTRL_EN_RISING_REG_OFFSET \<equiv> 0x28"
abbreviation GPIO_INTR_CTRL_EN_FALLING_REG_OFFSET :: u32 where "GPIO_INTR_CTRL_EN_FALLING_REG_OFFSET \<equiv> 0x2c"
abbreviation GPIO_INTR_CTRL_EN_LVLHIGH_REG_OFFSET :: u32 where "GPIO_INTR_CTRL_EN_LVLHIGH_REG_OFFSET \<equiv> 0x30"
abbreviation GPIO_INTR_CTRL_EN_LVLLOW_REG_OFFSET :: u32 where "GPIO_INTR_CTRL_EN_LVLLOW_REG_OFFSET \<equiv> 0x34"
abbreviation GPIO_CTRL_EN_INPUT_FILTER_REG_OFFSET :: u32 where "GPIO_CTRL_EN_INPUT_FILTER_REG_OFFSET \<equiv> 0x38"

type_synonym dif_gpio_pin = u32
type_synonym dif_gpio_mask = u32
type_synonym dif_gpio_state = u32

datatype dif_gpio_toggle = kDifGpioToggleEnabled | kDifGpioToggleDisabled | dif_gpio_toggle_other nat

record dif_gpio_params =
  gpio_base_addr :: mmio_region

record dif_gpio =
  gpio_params :: dif_gpio_params

datatype dif_gpio_result = kDifGpioOk | kDifGpioError | kDifGpioBadArg

datatype dif_gpio_irq_trigger =
  kDifGpioIrqTriggerEdgeRising | kDifGpioIrqTriggerEdgeFalling | kDifGpioIrqTriggerLevelLow
| kDifGpioIrqTriggerLevelHigh | kDifGpioIrqTriggerEdgeRisingFalling
| kDifGpioIrqTriggerEdgeRisingLevelLow | kDifGpioIrqTriggerEdgeFallingLevelHigh
| dif_gpio_irq_trigger_other nat

abbreviation gpio_base :: "dif_gpio \<Rightarrow> mmio_region" where
  "gpio_base gpio \<equiv> gpio_base_addr (gpio_params gpio)"

section \<open>Masked writes\<close>

definition index_to_mask :: "u32 \<Rightarrow> u32" where
  "index_to_mask index = push_bit (unat index) 1"

definition gpio_masked_write :: "dif_gpio ptr \<Rightarrow> u32 \<Rightarrow> u32 \<Rightarrow> u32 \<Rightarrow> u32 \<Rightarrow> dif_gpio_result io" where
  "gpio_masked_write gpio reg_lower_offset reg_upper_offset msk val =
     (case gpio of NULL \<Rightarrow> ret kDifGpioBadArg
      | Some gpio \<Rightarrow> do {
          let mask_lower_half = msk AND 0x0000FFFF;
          let mask_upper_half = msk AND 0xFFFF0000;
          _ \<leftarrow> do_if (mask_lower_half \<noteq> 0)
            (mmio_region_write32 (gpio_base gpio) reg_lower_offset
               (push_bit 16 mask_lower_half OR (val AND 0x0000FFFF)));
          _ \<leftarrow> do_if (mask_upper_half \<noteq> 0)
            (mmio_region_write32 (gpio_base gpio) reg_upper_offset
               (mask_upper_half OR drop_bit 16 (val AND 0xFFFF0000)));
          ret kDifGpioOk
        })"

definition gpio_masked_bit_write :: "dif_gpio ptr \<Rightarrow> u32 \<Rightarrow> u32 \<Rightarrow> u32 \<Rightarrow> bool \<Rightarrow> dif_gpio_result io" where
  "gpio_masked_bit_write gpio reg_lower_offset reg_upper_offset index val =
     (case gpio of NULL \<Rightarrow> ret kDifGpioBadArg
      | Some gpio \<Rightarrow> do {
          let offset = (if index < 16 then reg_lower_offset else reg_upper_offset);
          let msk = index_to_mask (index mod 16);
          _ \<leftarrow> mmio_region_write32 (gpio_base gpio) offset (push_bit 16 msk OR (if val then msk else 0));
          ret kDifGpioOk
        })"

section \<open>Initialisation\<close>

definition dif_gpio_init :: "dif_gpio_params \<Rightarrow> dif_gpio ptr \<Rightarrow> dif_gpio_result \<times> dif_gpio ptr" where
  "dif_gpio_init params gpio =
     (case gpio of NULL \<Rightarrow> (kDifGpioBadArg, NULL)
      | Some g \<Rightarrow> (kDifGpioOk, Some (g\<lparr>gpio_params := params\<rparr>)))"

definition dif_gpio_reset :: "dif_gpio ptr \<Rightarrow> dif_gpio_result io" where
  "dif_gpio_reset gpio =
     (case gpio of NULL \<Rightarrow> ret kDifGpioBadArg
      | Some gpio \<Rightarrow> do {
          _ \<leftarrow> mmio_region_write32 (gpio_base gpio) GPIO_INTR_ENABLE_REG_OFFSET 0;
          _ \<leftarrow> mmio_region_write32 (gpio_base gpio) GPIO_DIRECT_OE_REG_OFFSET 0;
          _ \<leftarrow> mmio_region_write32 (gpio_base gpio) GPIO_DIRECT_OUT_REG_OFFSET 0;
          _ \<leftarrow> mmio_region_write32 (gpio_base gpio) GPIO_INTR_CTRL_EN_RISING_REG_OFFSET 0;
          _ \<leftarrow> mmio_region_write32 (gpio_base gpio) GPIO_INTR_CTRL_EN_FALLING_REG_OFFSET 0;
          _ \<leftarrow> mmio_region_write32 (gpio_base gpio) GPIO_INTR_CTRL_EN_LVLHIGH_REG_OFFSET 0;
          _ \<leftarrow> mmio_region_write32 (gpio_base gpio) GPIO_INTR_CTRL_EN_LVLLOW_REG_OFFSET 0;
          _ \<leftarrow> mmio_region_write32 (gpio_base gpio) GPIO_CTRL_EN_INPUT_FILTER_REG_OFFSET 0;
          _ \<leftarrow> mmio_region_write32 (gpio_base gpio) GPIO_INTR_STATE_REG_OFFSET 0xFFFFFFFF;
          ret kDifGpioOk
        })"

section \<open>Interrupts\<close>

definition dif_gpio_irq_is_pending ::
  "dif_gpio ptr \<Rightarrow> dif_gpio_pin \<Rightarrow> bool ptr \<Rightarrow> (dif_gpio_result \<times> bool ptr) io" where
  "dif_gpio_irq_is_pending gpio pin is_pending =
     (case (gpio, is_pending) of
        (Some gpio, Some _) \<Rightarrow> do {
          v \<leftarrow> mmio_region_get_bit32 (gpio_base gpio) GPIO_INTR_STATE_REG_OFFSET pin;
          ret (kDifGpioOk, store is_pending v)
        }
      | _ \<Rightarrow> ret (kDifGpioBadArg, is_pending))"

definition dif_gpio_irq_is_pending_all ::
  "dif_gpio ptr \<Rightarrow> dif_gpio_state ptr \<Rightarrow> (dif_gpio_result \<times> dif_gpio_state ptr) io" where
  "dif_gpio_irq_is_pending_all gpio is_pending =
     (case (gpio, is_pending) of
        (Some gpio, Some _) \<Rightarrow> do {
          v \<leftarrow> mmio_region_read32 (gpio_base gpio) GPIO_INTR_STATE_REG_OFFSET;
          ret (kDifGpioOk, store is_pending v)
        }
      | _ \<Rightarrow> ret (kDifGpioBadArg, is_pending))"

definition dif_gpio_irq_acknowledge :: "dif_gpio ptr \<Rightarrow> dif_gpio_pin \<Rightarrow> dif_gpio_result io" where
  "dif_gpio_irq_acknowledge gpio pin =
     (case gpio of NULL \<Rightarrow> ret kDifGpioBadArg
      | Some gpio \<Rightarrow> do {
          _ \<leftarrow> mmio_region_write32 (gpio_base gpio) GPIO_INTR_STATE_REG_OFFSET (index_to_mask pin);
          ret kDifGpioOk
        })"

definition dif_gpio_irq_get_enabled ::
  "dif_gpio ptr \<Rightarrow> dif_gpio_pin \<Rightarrow> dif_gpio_toggle ptr \<Rightarrow> (dif_gpio_result \<times> dif_gpio_toggle ptr) io" where
  "dif_gpio_irq_get_enabled gpio pin st =
     (case (gpio, st) of
        (Some gpio, Some _) \<Rightarrow> do {
          is_enabled \<leftarrow> mmio_region_get_bit32 (gpio_base gpio) GPIO_INTR_ENABLE_REG_OFFSET pin;
          ret (kDifGpioOk, store st (if is_enabled then kDifGpioToggleEnabled else kDifGpioToggleDisabled))
        }
      | _ \<Rightarrow> ret (kDifGpioBadArg, st))"

definition dif_gpio_irq_set_enabled ::
  "dif_gpio ptr \<Rightarrow> dif_gpio_pin \<Rightarrow> dif_gpio_toggle \<Rightarrow> dif_gpio_result io" where
  "dif_gpio_irq_set_enabled gpio pin st =
     (case gpio of NULL \<Rightarrow> ret kDifGpioBadArg
      | Some gpio \<Rightarrow>
        (case st of
           kDifGpioToggleEnabled \<Rightarrow> do {
             _ \<leftarrow> mmio_region_nonatomic_set_bit32 (gpio_base gpio) GPIO_INTR_ENABLE_REG_OFFSET pin;
             ret kDifGpioOk }
         | kDifGpioToggleDisabled \<Rightarrow> do {
             _ \<leftarrow> mmio_region_nonatomic_clear_bit32 (gpio_base gpio) GPIO_INTR_ENABLE_REG_OFFSET pin;
             ret kDifGpioOk }
         | dif_gpio_toggle_other _ \<Rightarrow> ret kDifGpioBadArg))"

definition dif_gpio_irq_set_enabled_masked ::
  "dif_gpio ptr \<Rightarrow> dif_gpio_mask \<Rightarrow> dif_gpio_toggle \<Rightarrow> dif_gpio_result io" where
  "dif_gpio_irq_set_enabled_masked gpio msk st =
     (case gpio of NULL \<Rightarrow> ret kDifGpioBadArg
      | Some gpio \<Rightarrow>
        (case st of
           kDifGpioToggleEnabled \<Rightarrow> do {
             _ \<leftarrow> mmio_region_nonatomic_set_mask32 (gpio_base gpio) GPIO_INTR_ENABLE_REG_OFFSET msk 0;
             ret kDifGpioOk }
         | kDifGpioToggleDisabled \<Rightarrow> do {
             _ \<leftarrow> mmio_region_nonatomic_clear_mask32 (gpio_base gpio) GPIO_INTR_ENABLE_REG_OFFSET msk 0;
             ret kDifGpioOk }
         | dif_gpio_toggle_other _ \<Rightarrow> ret kDifGpioBadArg))"

definition dif_gpio_irq_force :: "dif_gpio ptr \<Rightarrow> dif_gpio_pin \<Rightarrow> dif_gpio_result io" where
  "dif_gpio_irq_force gpio pin =
     (case gpio of NULL \<Rightarrow> ret kDifGpioBadArg
      | Some gpio \<Rightarrow> do {
          _ \<leftarrow> mmio_region_write32 (gpio_base gpio) GPIO_INTR_TEST_REG_OFFSET (index_to_mask pin);
          ret kDifGpioOk
        })"

definition dif_gpio_irq_disable_all ::
  "dif_gpio ptr \<Rightarrow> dif_gpio_state ptr \<Rightarrow> (dif_gpio_result \<times> dif_gpio_state ptr) io" where
  "dif_gpio_irq_disable_all gpio snapshot =
     (case gpio of NULL \<Rightarrow> ret (kDifGpioBadArg, snapshot)
      | Some gpio \<Rightarrow> do {
          snapshot' \<leftarrow> (if snapshot \<noteq> NULL then do {
              v \<leftarrow> mmio_region_read32 (gpio_base gpio) GPIO_INTR_ENABLE_REG_OFFSET;
              ret (store snapshot v)
            } else ret snapshot);
          _ \<leftarrow> mmio_region_write32 (gpio_base gpio) GPIO_INTR_ENABLE_REG_OFFSET 0;
          ret (kDifGpioOk, snapshot')
        })"

definition dif_gpio_irq_restore_all :: "dif_gpio ptr \<Rightarrow> dif_gpio_state ptr \<Rightarrow> dif_gpio_result io" where
  "dif_gpio_irq_restore_all gpio snapshot =
     (case (gpio, snapshot) of
        (Some gpio, Some snapshot) \<Rightarrow> do {
          _ \<leftarrow> mmio_region_write32 (gpio_base gpio) GPIO_INTR_ENABLE_REG_OFFSET snapshot;
          ret kDifGpioOk
        }
      | _ \<Rightarrow> ret kDifGpioBadArg)"

definition dif_gpio_irq_set_trigger ::
  "dif_gpio ptr \<Rightarrow> dif_gpio_mask \<Rightarrow> dif_gpio_irq_trigger \<Rightarrow> dif_gpio_result io" where
  "dif_gpio_irq_set_trigger gpio msk trigger =
     (case gpio of NULL \<Rightarrow> ret kDifGpioBadArg
      | Some gpio \<Rightarrow> do {
          _ \<leftarrow> mmio_region_nonatomic_clear_mask32 (gpio_base gpio) GPIO_INTR_CTRL_EN_RISING_REG_OFFSET msk 0;
          _ \<leftarrow> mmio_region_nonatomic_clear_mask32 (gpio_base gpio) GPIO_INTR_CTRL_EN_FALLING_REG_OFFSET msk 0;
          _ \<leftarrow> mmio_region_nonatomic_clear_mask32 (gpio_base gpio) GPIO_INTR_CTRL_EN_LVLHIGH_REG_OFFSET msk 0;
          _ \<leftarrow> mmio_region_nonatomic_clear_mask32 (gpio_base gpio) GPIO_INTR_CTRL_EN_LVLLOW_REG_OFFSET msk 0;
          (case trigger of
             kDifGpioIrqTriggerEdgeRising \<Rightarrow> do {
               _ \<leftarrow> mmio_region_nonatomic_set_mask32 (gpio_base gpio) GPIO_INTR_CTRL_EN_RISING_REG_OFFSET msk 0;
               ret kDifGpioOk }
           | kDifGpioIrqTriggerEdgeFalling \<Rightarrow> do {
               _ \<leftarrow> mmio_region_nonatomic_set_mask32 (gpio_base gpio) GPIO_INTR_CTRL_EN_FALLING_REG_OFFSET msk 0;
               ret kDifGpioOk }
           | kDifGpioIrqTriggerLevelLow \<Rightarrow> do {
               _ \<leftarrow> mmio_region_nonatomic_set_mask32 (gpio_base gpio) GPIO_INTR_CTRL_EN_LVLLOW_REG_OFFSET msk 0;
               ret kDifGpioOk }
           | kDifGpioIrqTriggerLevelHigh \<Rightarrow> do {
               _ \<leftarrow> mmio_region_nonatomic_set_mask32 (gpio_base gpio) GPIO_INTR_CTRL_EN_LVLHIGH_REG_OFFSET msk 0;
               ret kDifGpioOk }
           | kDifGpioIrqTriggerEdgeRisingFalling \<Rightarrow> do {
               _ \<leftarrow> mmio_region_nonatomic_set_mask32 (gpio_base gpio) GPIO_INTR_CTRL_EN_RISING_REG_OFFSET msk 0;
               _ \<leftarrow> mmio_region_nonatomic_set_mask32 (gpio_base gpio) GPIO_INTR_CTRL_EN_FALLING_REG_OFFSET msk 0;
               ret kDifGpioOk }
           | kDifGpioIrqTriggerEdgeRisingLevelLow \<Rightarrow> do {
               _ \<leftarrow> mmio_region_nonatomic_set_mask32 (gpio_base gpio) GPIO_INTR_CTRL_EN_RISING_REG_OFFSET msk 0;
               _ \<leftarrow> mmio_region_nonatomic_set_mask32 (gpio_base gpio) GPIO_INTR_CTRL_EN_LVLLOW_REG_OFFSET msk 0;
               ret kDifGpioOk }
           | kDifGpioIrqTriggerEdgeFallingLevelHigh \<Rightarrow> do {
               _ \<leftarrow> mmio_region_nonatomic_set_mask32 (gpio_base gpio) GPIO_INTR_CTRL_EN_FALLING_REG_OFFSET msk 0;
               _ \<leftarrow> mmio_region_nonatomic_set_mask32 (gpio_base gpio) GPIO_INTR_CTRL_EN_LVLHIGH_REG_OFFSET msk 0;
               ret kDifGpioOk }
           | dif_gpio_irq_trigger_other _ \<Rightarrow> ret kDifGpioError)
        })"

section \<open>Pins\<close>

definition dif_gpio_read_all :: "dif_gpio ptr \<Rightarrow> dif_gpio_state ptr \<Rightarrow> (dif_gpio_result \<times> dif_gpio_state ptr) io" where
  "dif_gpio_read_all gpio st =
     (case (gpio, st) of
        (Some gpio, Some _) \<Rightarrow> do {
          v \<leftarrow> mmio_region_read32 (gpio_base gpio) GPIO_DATA_IN_REG_OFFSET;
          ret (kDifGpioOk, store st v)
        }
      | _ \<Rightarrow> ret (kDifGpioBadArg, st))"

definition dif_gpio_read :: "dif_gpio ptr \<Rightarrow> dif_gpio_pin \<Rightarrow> bool ptr \<Rightarrow> (dif_gpio_result \<times> bool ptr) io" where
  "dif_gpio_read gpio pin st =
     (case (gpio, st) of
        (Some gpio, Some _) \<Rightarrow> do {
          v \<leftarrow> mmio_region_get_bit32 (gpio_base gpio) GPIO_DATA_IN_REG_OFFSET pin;
          ret (kDifGpioOk, store st v)
        }
      | _ \<Rightarrow> ret (kDifGpioBadArg, st))"

definition dif_gpio_write_all :: "dif_gpio ptr \<Rightarrow> dif_gpio_state \<Rightarrow> dif_gpio_result io" where
  "dif_gpio_write_all gpio st =
     (case gpio of NULL \<Rightarrow> ret kDifGpioBadArg
      | Some gpio \<Rightarrow> do {
          _ \<leftarrow> mmio_region_write32 (gpio_base gpio) GPIO_DIRECT_OUT_REG_OFFSET st;
          ret kDifGpioOk
        })"

definition dif_gpio_write :: "dif_gpio ptr \<Rightarrow> dif_gpio_pin \<Rightarrow> bool \<Rightarrow> dif_gpio_result io" where
  "dif_gpio_write gpio pin st =
     gpio_masked_bit_write gpio GPIO_MASKED_OUT_LOWER_REG_OFFSET GPIO_MASKED_OUT_UPPER_REG_OFFSET pin st"

definition dif_gpio_write_masked :: "dif_gpio ptr \<Rightarrow> dif_gpio_mask \<Rightarrow> dif_gpio_state \<Rightarrow> dif_gpio_result io" where
  "dif_gpio_write_masked gpio msk st =
     gpio_masked_write gpio GPIO_MASKED_OUT_LOWER_REG_OFFSET GPIO_MASKED_OUT_UPPER_REG_OFFSET msk st"

definition dif_gpio_output_set_enabled_all :: "dif_gpio ptr \<Rightarrow> dif_gpio_state \<Rightarrow> dif_gpio_result io" where
  "dif_gpio_output_set_enabled_all gpio st =
     (case gpio of NULL \<Rightarrow> ret kDifGpioBadArg
      | Some gpio \<Rightarrow> do {
          _ \<leftarrow> mmio_region_write32 (gpio_base gpio) GPIO_DIRECT_OE_REG_OFFSET st;
          ret kDifGpioOk
        })"

text \<open>The enumeration value is converted to \<open>bool\<close>: everything but \<open>Disabled = false\<close> is true.\<close>

definition dif_gpio_output_set_enabled ::
  "dif_gpio ptr \<Rightarrow> dif_gpio_pin \<Rightarrow> dif_gpio_toggle \<Rightarrow> dif_gpio_result io" where
  "dif_gpio_output_set_enabled gpio pin st =
     (if gpio = NULL then ret kDifGpioBadArg
      else gpio_masked_bit_write gpio GPIO_MASKED_OE_LOWER_REG_OFFSET GPIO_MASKED_OE_UPPER_REG_OFFSET pin
        (st \<noteq> kDifGpioToggleDisabled))"

definition dif_gpio_output_set_enabled_masked ::
  "dif_gpio ptr \<Rightarrow> dif_gpio_mask \<Rightarrow> dif_gpio_state \<Rightarrow> dif_gpio_result io" where
  "dif_gpio_output_set_enabled_masked gpio msk st =
     gpio_masked_write gpio GPIO_MASKED_OE_LOWER_REG_OFFSET GPIO_MASKED_OE_UPPER_REG_OFFSET msk st"

definition dif_gpio_input_noise_filter_set_enabled ::
  "dif_gpio ptr \<Rightarrow> dif_gpio_mask \<Rightarrow> dif_gpio_toggle \<Rightarrow> dif_gpio_result io" where
  "dif_gpio_input_noise_filter_set_enabled gpio msk st =
     (case gpio of NULL \<Rightarrow> ret kDifGpioBadArg
      | Some gpio \<Rightarrow>
        (case st of
           kDifGpioToggleEnabled \<Rightarrow> do {
             _ \<leftarrow> mmio_region_nonatomic_set_mask32 (gpio_base gpio) GPIO_CTRL_EN_INPUT_FILTER_REG_OFFSET msk 0;
             ret kDifGpioOk }
         | kDifGpioToggleDisabled \<Rightarrow> do {
             _ \<leftarrow> mmio_region_nonatomic_clear_mask32 (gpio_base gpio) GPIO_CTRL_EN_INPUT_FILTER_REG_OFFSET msk 0;
             ret kDifGpioOk }
         | dif_gpio_toggle_other _ \<Rightarrow> ret kDifGpioBadArg))"

section \<open>The pins behind the masked registers\<close>

text \<open>
  What \<open>gpio.hjson\<close> documents of the output (and output-enable) register: a direct write
  replaces it, a write to the masked register of the lower or upper half changes the bits of that half
  selected by the upper 16 bits of the word to the values in its lower 16 bits. The content after a history of accesses:
\<close>

fun masked_pins :: "u32 \<Rightarrow> u32 \<Rightarrow> u32 \<Rightarrow> bus_event list \<Rightarrow> u32" where
  "masked_pins direct lower upper [] = 0"
| "masked_pins direct lower upper (Wr32 a v # h) =
     (let r = masked_pins direct lower upper h in
      if a = direct then v
      else if a = lower then (r AND NOT (drop_bit 16 v)) OR (v AND drop_bit 16 v)
      else if a = upper then (r AND NOT (v AND 0xffff0000)) OR (push_bit 16 v AND v)
      else r)"
| "masked_pins direct lower upper (_ # h) = masked_pins direct lower upper h"

abbreviation gpio_addr :: "dif_gpio \<Rightarrow> u32 \<Rightarrow> u32" where
  "gpio_addr g off \<equiv> mmio_addr32 (gpio_base g) off"

definition gpio_out :: "dif_gpio \<Rightarrow> world \<Rightarrow> u32" where
  "gpio_out g w = masked_pins (gpio_addr g 0x10) (gpio_addr g 0x14) (gpio_addr g 0x18) (trace w)"

definition gpio_oe :: "dif_gpio \<Rightarrow> world \<Rightarrow> u32" where
  "gpio_oe g w = masked_pins (gpio_addr g 0x1c) (gpio_addr g 0x20) (gpio_addr g 0x24) (trace w)"

lemma gpio_addr_inject [simp]: "gpio_addr g a = gpio_addr g b \<longleftrightarrow> 4 * (a div 4) = 4 * (b div 4)"
  by (simp add: mmio_addr32_def)

lemma half_masks: "(0xffff :: u32) = mask 16" "(0xffff0000 :: u32) = push_bit 16 (mask 16)"
  by (simp_all add: mask_eq_exp_minus_1)

text \<open>The words the driver writes, as the device reads them.\<close>

lemma lower_write:
  "(r AND NOT (drop_bit 16 (push_bit 16 (m AND 0xffff) OR (v AND 0xffff))))
     OR ((push_bit 16 (m AND 0xffff) OR (v AND 0xffff)) AND drop_bit 16 (push_bit 16 (m AND 0xffff) OR (v AND 0xffff)))
   = (r AND NOT (m AND 0xffff)) OR (v AND (m AND 0xffff) :: u32)"
  unfolding half_masks by (rule bit_eqI) (auto simp: bit_simps)

lemma upper_write:
  "(r AND NOT (((m AND 0xffff0000) OR drop_bit 16 (v AND 0xffff0000)) AND 0xffff0000))
     OR (push_bit 16 ((m AND 0xffff0000) OR drop_bit 16 (v AND 0xffff0000))
         AND ((m AND 0xffff0000) OR drop_bit 16 (v AND 0xffff0000)))
   = (r AND NOT (m AND 0xffff0000)) OR (v AND (m AND 0xffff0000) :: u32)"
  unfolding half_masks by (rule bit_eqI) (auto simp: bit_simps)

lemma both_halves:
  "(((r AND NOT (m AND 0xffff)) OR (v AND (m AND 0xffff))) AND NOT (m AND 0xffff0000)) OR (v AND (m AND 0xffff0000))
   = (r AND NOT m) OR (v AND m :: u32)"
  unfolding half_masks by (rule bit_eqI) (auto simp: bit_simps not_less)

definition set_pins :: "u32 \<Rightarrow> u32 \<Rightarrow> u32 \<Rightarrow> u32" where
  "set_pins r m v = (r AND NOT m) OR (v AND m)"

lemma gpio_masked_write_pins:
  assumes "lo = mmio_addr32 (gpio_base g) l" "up = mmio_addr32 (gpio_base g) u" "d \<noteq> lo" "d \<noteq> up" "lo \<noteq> up"
    and "run_state (gpio_masked_write (Some g) l u m v) w = (r, w')"
  shows "r = kDifGpioOk \<and> masked_pins d lo up (trace w') = set_pins (masked_pins d lo up (trace w)) m v
    \<and> (\<forall>x y z. x \<notin> {lo, up} \<and> y \<notin> {lo, up} \<and> z \<notin> {lo, up}
        \<longrightarrow> masked_pins x y z (trace w') = masked_pins x y z (trace w))"
proof -
  define w1 where "w1 = (if m AND 0xffff \<noteq> 0 then log (Wr32 lo (push_bit 16 (m AND 0xffff) OR (v AND 0xffff))) w else w)"
  have w': "w' = (if m AND 0xffff0000 \<noteq> 0 then log (Wr32 up ((m AND 0xffff0000) OR drop_bit 16 (v AND 0xffff0000))) w1 else w1)"
    and r: "r = kDifGpioOk"
    using assms(6) by (auto simp: gpio_masked_write_def io_simps Let_def w1_def assms(1,2) do_if_def split: if_splits)
  let ?p = "masked_pins d lo up"
  have lower: "?p (trace w1) = (?p (trace w) AND NOT (m AND 0xffff)) OR (v AND (m AND 0xffff))"
  proof (cases "m AND 0xffff = 0")
    case True
    show ?thesis unfolding w1_def True by simp
  next
    case False
    then show ?thesis
      unfolding lower_write [of "?p (trace w)" m v, symmetric] using assms(3,4,5) by (simp add: w1_def Let_def)
  qed
  have "?p (trace w') = (?p (trace w1) AND NOT (m AND 0xffff0000)) OR (v AND (m AND 0xffff0000))"
  proof (cases "m AND 0xffff0000 = 0")
    case True
    show ?thesis unfolding w' True by simp
  next
    case False
    then show ?thesis
      unfolding upper_write [of "?p (trace w1)" m v, symmetric] using assms(3,4,5) by (simp add: w' Let_def)
  qed
  then have "?p (trace w') = set_pins (?p (trace w)) m v"
    unfolding lower both_halves set_pins_def .
  then show ?thesis using r by (auto simp: w' w1_def Let_def)
qed

lemma index_to_mask_bits: "bit (index_to_mask i) n \<longleftrightarrow> n < 32 \<and> n = unat i"
  by (auto simp: index_to_mask_def bit_simps)

lemma gpio_masked_bit_write_pins:
  assumes "lo = mmio_addr32 (gpio_base g) l" "up = mmio_addr32 (gpio_base g) u" "d \<noteq> lo" "d \<noteq> up" "lo \<noteq> up"
    and "pin < 32" and "run_state (gpio_masked_bit_write (Some g) l u pin v) w = (r, w')"
  shows "r = kDifGpioOk
    \<and> masked_pins d lo up (trace w') = set_pins (masked_pins d lo up (trace w)) (index_to_mask pin) (if v then all_ones else 0)
    \<and> (\<forall>x y z. x \<notin> {lo, up} \<and> y \<notin> {lo, up} \<and> z \<notin> {lo, up}
        \<longrightarrow> masked_pins x y z (trace w') = masked_pins x y z (trace w))"
proof -
  let ?m = "index_to_mask (pin mod 16)"
  let ?x = "push_bit 16 ?m OR (if v then ?m else 0)"
  have p: "unat pin < 32" using assms(6) by (simp add: word_less_nat_alt)
  have m16: "unat (pin mod 16) = unat pin mod 16" by (simp add: unat_mod)
  have w': "w' = log (Wr32 (if pin < 16 then lo else up) ?x) w" and r: "r = kDifGpioOk"
    using assms(7) by (auto simp: gpio_masked_bit_write_def io_simps Let_def assms(1,2))
  let ?p = "masked_pins d lo up (trace w)"
  have low: "(?p AND NOT (drop_bit 16 ?x)) OR (?x AND drop_bit 16 ?x)
      = set_pins ?p (index_to_mask pin) (if v then all_ones else 0)" if "pin < 16"
  proof -
    have "unat pin < 16" using that by (simp add: word_less_nat_alt)
    then show ?thesis unfolding set_pins_def
      by (intro bit_eqI) (auto simp: bit_simps index_to_mask_bits m16)
  qed
  have up: "(?p AND NOT (?x AND 0xffff0000)) OR (push_bit 16 ?x AND ?x)
      = set_pins ?p (index_to_mask pin) (if v then all_ones else 0)" if "\<not> pin < 16"
  proof -
    have "16 \<le> unat pin" using that by (simp add: word_less_nat_alt)
    then have "unat pin mod 16 = unat pin - 16" using p by (simp add: mod_if)
    then show ?thesis unfolding set_pins_def half_masks using p \<open>16 \<le> unat pin\<close>
      by (intro bit_eqI) (auto simp: bit_simps index_to_mask_bits m16)
  qed
  show ?thesis using assms(3,4,5) r low up by (auto simp: w' Let_def)
qed

section \<open>Interrupt triggers\<close>

lemma mask_write_set_pins:
  "bitfield_field32_write r \<lparr>field_mask = m, field_index = 0\<rparr> v = set_pins r m v"
  by (simp add: bitfield_field32_write_def set_pins_def Let_def)

lemma bit_set_pins: "bit (set_pins r m v) n \<longleftrightarrow> (if bit m n then bit v n else bit r n)"
  by (auto simp: set_pins_def bit_simps dest: bit_word32_bound)

lemma set_pins_twice [simp]: "set_pins (set_pins r m u) m v = set_pins r m v"
  by (rule bit_eqI) (simp add: bit_set_pins)

text \<open>Which of the four kinds (rising, falling, level high, level low) a trigger selects.\<close>

fun trigger_kinds :: "dif_gpio_irq_trigger \<Rightarrow> (bool \<times> bool \<times> bool \<times> bool) option" where
  "trigger_kinds kDifGpioIrqTriggerEdgeRising = Some (True, False, False, False)"
| "trigger_kinds kDifGpioIrqTriggerEdgeFalling = Some (False, True, False, False)"
| "trigger_kinds kDifGpioIrqTriggerLevelLow = Some (False, False, False, True)"
| "trigger_kinds kDifGpioIrqTriggerLevelHigh = Some (False, False, True, False)"
| "trigger_kinds kDifGpioIrqTriggerEdgeRisingFalling = Some (True, True, False, False)"
| "trigger_kinds kDifGpioIrqTriggerEdgeRisingLevelLow = Some (True, False, False, True)"
| "trigger_kinds kDifGpioIrqTriggerEdgeFallingLevelHigh = Some (False, True, True, False)"
| "trigger_kinds (dif_gpio_irq_trigger_other _) = None"

abbreviation ones_if :: "bool \<Rightarrow> u32" where
  "ones_if b \<equiv> (if b then all_ones else 0)"

section \<open>Properties\<close>

text \<open>
  Writing pins. Against the documented behaviour of the masked registers and from any history, \<open>dif_gpio_write_masked\<close>
  sets exactly the selected output pins to the given values, over both halves; \<open>dif_gpio_write\<close> sets one pin with
  one write, without a read; the output-enable operations do the same to the
  output-enable register, and neither touches the other's register.
\<close>

lemma dif_gpio_write_pins:
  assumes "pin < 32"
  shows "let after = (\<lambda>m. snd (run_state m w)) in
    gpio_out g (after (dif_gpio_write_masked (Some g) m v)) = set_pins (gpio_out g w) m v
    \<and> gpio_oe g (after (dif_gpio_write_masked (Some g) m v)) = gpio_oe g w
    \<and> gpio_out g (after (dif_gpio_write (Some g) pin b)) = set_pins (gpio_out g w) (push_bit (unat pin) 1) (ones_if b)
    \<and> gpio_oe g (after (dif_gpio_write (Some g) pin b)) = gpio_oe g w
    \<and> gpio_oe g (after (dif_gpio_output_set_enabled_masked (Some g) m v)) = set_pins (gpio_oe g w) m v
    \<and> gpio_out g (after (dif_gpio_output_set_enabled_masked (Some g) m v)) = gpio_out g w
    \<and> gpio_oe g (after (dif_gpio_output_set_enabled (Some g) pin kDifGpioToggleDisabled)) =
        set_pins (gpio_oe g w) (push_bit (unat pin) 1) 0
    \<and> gpio_out g (after (dif_gpio_write_all (Some g) v)) = v
    \<and> gpio_oe g (after (dif_gpio_output_set_enabled_all (Some g) v)) = v"
proof -
  note out = gpio_masked_write_pins [OF refl refl _ _ _ prod.collapse [symmetric],
    where d = "gpio_addr g 0x10" and l = "0x14" and u = "0x18" and m = m and v = v and w = w]
  note oe = gpio_masked_write_pins [OF refl refl _ _ _ prod.collapse [symmetric],
    where d = "gpio_addr g 0x1c" and l = "0x20" and u = "0x24" and m = m and v = v and w = w]
  note out1 = gpio_masked_bit_write_pins [OF refl refl _ _ _ assms prod.collapse [symmetric],
    where d = "gpio_addr g 0x10" and l = "0x14" and u = "0x18" and v = b and w = w]
  note oe1 = gpio_masked_bit_write_pins [OF refl refl _ _ _ assms prod.collapse [symmetric],
    where d = "gpio_addr g 0x1c" and l = "0x20" and u = "0x24" and v = False and w = w]
  show ?thesis
    unfolding Let_def
    using out oe out1 oe1
    by (simp add: gpio_out_def gpio_oe_def dif_gpio_write_masked_def dif_gpio_write_def
        dif_gpio_output_set_enabled_masked_def dif_gpio_output_set_enabled_def
        dif_gpio_write_all_def dif_gpio_output_set_enabled_all_def io_simps index_to_mask_def)
qed

abbreviation gpio0 :: dif_gpio where
  "gpio0 \<equiv> \<lparr>gpio_params = \<lparr>gpio_base_addr = \<lparr>mmio_base = 0x40010000\<rparr>\<rparr>\<rparr>"

lemma dif_gpio_write_pins_witness:
  "gpio_out gpio0 (snd (run_state (dif_gpio_write_masked (Some gpio0) 0x00ff00ff 0x12345678) (plain_world (\<lambda>_. 0)))) = 0x00340078"
proof -
  have "(17 :: u32) < 32" by simp
  from dif_gpio_write_pins [OF this, of "plain_world (\<lambda>_. 0)" gpio0 "0x00ff00ff" "0x12345678" True]
  show ?thesis by (simp add: Let_def) (simp add: set_pins_def gpio_out_def plain_world_def)
qed

text \<open>
  Selecting triggers. On plain registers, a valid trigger leaves every pin of the mask with exactly the
  trigger kinds it names in the four control registers, and every other pin as it was; an invalid one is refused but has by
  then disabled all triggers of the mask.
\<close>

lemma dif_gpio_irq_set_trigger_correct:
  assumes "plain init w" "run_state (dif_gpio_irq_set_trigger (Some g) m t) w = (r, w')"
  shows "(case trigger_kinds t of
      Some (rise, fall, high, low) \<Rightarrow> r = kDifGpioOk
        \<and> cur32 w' = (cur32 w)(
          gpio_addr g GPIO_INTR_CTRL_EN_RISING_REG_OFFSET := set_pins (cur32 w (gpio_addr g GPIO_INTR_CTRL_EN_RISING_REG_OFFSET)) m (ones_if rise),
          gpio_addr g GPIO_INTR_CTRL_EN_FALLING_REG_OFFSET := set_pins (cur32 w (gpio_addr g GPIO_INTR_CTRL_EN_FALLING_REG_OFFSET)) m (ones_if fall),
          gpio_addr g GPIO_INTR_CTRL_EN_LVLHIGH_REG_OFFSET := set_pins (cur32 w (gpio_addr g GPIO_INTR_CTRL_EN_LVLHIGH_REG_OFFSET)) m (ones_if high),
          gpio_addr g GPIO_INTR_CTRL_EN_LVLLOW_REG_OFFSET := set_pins (cur32 w (gpio_addr g GPIO_INTR_CTRL_EN_LVLLOW_REG_OFFSET)) m (ones_if low))
    | None \<Rightarrow> r = kDifGpioError
        \<and> cur32 w' = (cur32 w)(
          gpio_addr g GPIO_INTR_CTRL_EN_RISING_REG_OFFSET := set_pins (cur32 w (gpio_addr g GPIO_INTR_CTRL_EN_RISING_REG_OFFSET)) m 0,
          gpio_addr g GPIO_INTR_CTRL_EN_FALLING_REG_OFFSET := set_pins (cur32 w (gpio_addr g GPIO_INTR_CTRL_EN_FALLING_REG_OFFSET)) m 0,
          gpio_addr g GPIO_INTR_CTRL_EN_LVLHIGH_REG_OFFSET := set_pins (cur32 w (gpio_addr g GPIO_INTR_CTRL_EN_LVLHIGH_REG_OFFSET)) m 0,
          gpio_addr g GPIO_INTR_CTRL_EN_LVLLOW_REG_OFFSET := set_pins (cur32 w (gpio_addr g GPIO_INTR_CTRL_EN_LVLLOW_REG_OFFSET)) m 0))"
  using assms
  by (cases t) (auto simp: dif_gpio_irq_set_trigger_def io_simps mask_write_set_pins plain_modify [of init] intro!: ext)

lemma dif_gpio_irq_set_trigger_correct_witness:
  "cur32 (snd (run_state (dif_gpio_irq_set_trigger (Some gpio0) 0xf0 kDifGpioIrqTriggerEdgeRisingLevelLow)
      (plain_world (\<lambda>_. 0xff)))) 0x40010034 = 0xff"
  using dif_gpio_irq_set_trigger_correct [OF plain_plain_world prod.collapse [symmetric],
    of gpio0 "0xf0" kDifGpioIrqTriggerEdgeRisingLevelLow "\<lambda>_. 0xff"]
  by (simp add: mmio_addr32_def set_pins_def)

section \<open>Interrupts\<close>

abbreviation gpio_irq_bit :: "dif_gpio_pin \<Rightarrow> nat option" where
  "gpio_irq_bit pin \<equiv> (if pin < 32 then Some (unat pin) else None)"

interpretation gpio_irqs: irq_block gpio_irq_bit "gpio_addr g GPIO_INTR_ENABLE_REG_OFFSET"
    "\<lambda>i b w. snd (run_state (dif_gpio_irq_set_enabled (Some g) i
       (if b then kDifGpioToggleEnabled else kDifGpioToggleDisabled)) w)"
    "\<lambda>i w. fst (run_state (dif_gpio_irq_get_enabled (Some g) i (Some kDifGpioToggleDisabled)) w)
       = (kDifGpioOk, Some kDifGpioToggleEnabled)"
    "\<lambda>w. case run_state (dif_gpio_irq_disable_all (Some g) (Some 0)) w of ((_, s), w') \<Rightarrow> (the s, w')"
    "\<lambda>s w. snd (run_state (dif_gpio_irq_restore_all (Some g) (Some s)) w)"
  for g
  by unfold_locales
    (auto simp: dif_gpio_irq_set_enabled_def dif_gpio_irq_get_enabled_def dif_gpio_irq_disable_all_def
      dif_gpio_irq_restore_all_def io_simps Let_def bit32_read_eq_bit word_unat_eq_iff word_less_nat_alt split: if_splits)

text \<open>
  The interrupt-enable operations of the GPIO driver implement the set of enabled pins, single pins and masks alike:
  enabling and disabling a pin inserts and removes it, the masked forms unite with and subtract the
  pins of the mask, disabling all empties the set and restoring the snapshot brings it back.
\<close>

lemma dif_gpio_irq_enable_set:
  assumes "plain init w" "pin < 32"
    and E: "E = enabled_irqs gpio_irq_bit (gpio_addr g GPIO_INTR_ENABLE_REG_OFFSET)"
    and "run_state (dif_gpio_irq_disable_all (Some g) (Some 0)) w = ((r, Some snapshot), w0)"
  shows "E (snd (run_state (dif_gpio_irq_set_enabled (Some g) pin kDifGpioToggleEnabled) w)) = insert pin (E w)
    \<and> E (snd (run_state (dif_gpio_irq_set_enabled (Some g) pin kDifGpioToggleDisabled) w)) = E w - {pin}
    \<and> E (snd (run_state (dif_gpio_irq_set_enabled_masked (Some g) m kDifGpioToggleEnabled) w)) =
        E w \<union> {i. i < 32 \<and> bit m (unat i)}
    \<and> E (snd (run_state (dif_gpio_irq_set_enabled_masked (Some g) m kDifGpioToggleDisabled) w)) =
        E w - {i. i < 32 \<and> bit m (unat i)}
    \<and> E w0 = {} \<and> E (snd (run_state (dif_gpio_irq_restore_all (Some g) (Some snapshot)) w0)) = E w"
proof -
  have pb: "gpio_irq_bit pin = Some (unat pin)" using assms(2) by simp
  have masked: "E (snd (run_state (dif_gpio_irq_set_enabled_masked (Some g) m kDifGpioToggleEnabled) w)) =
        E w \<union> {i. i < 32 \<and> bit m (unat i)}"
      "E (snd (run_state (dif_gpio_irq_set_enabled_masked (Some g) m kDifGpioToggleDisabled) w)) =
        E w - {i. i < 32 \<and> bit m (unat i)}"
    using assms(1) by (auto simp: E enabled_irqs_def dif_gpio_irq_set_enabled_masked_def io_simps mask_write_set_pins
        bit_set_pins word_less_nat_alt bit_simps split: if_splits)
  have w0: "plain init w0" using gpio_irqs.disable_law [OF assms(1), of g] assms(4) by simp
  show ?thesis
    using gpio_irqs.set_en_enabled [OF assms(1) pb, of g True] gpio_irqs.set_en_enabled [OF assms(1) pb, of g False]
      gpio_irqs.disable_enabled [OF assms(1), of g] gpio_irqs.restore_enabled [OF assms(1) w0, of g] assms(4) masked
    by (simp add: E)
qed

lemma dif_gpio_irq_enable_set_witness:
  "enabled_irqs gpio_irq_bit 0x40010004
     (snd (run_state (dif_gpio_irq_set_enabled (Some gpio0) 31 kDifGpioToggleEnabled) (plain_world (\<lambda>_. 0)))) = {31}"
proof -
  let ?w = "plain_world (\<lambda>_. 0)"
  obtain w0 where run: "run_state (dif_gpio_irq_disable_all (Some gpio0) (Some 0)) ?w = ((kDifGpioOk, Some 0), w0)"
    by (simp add: dif_gpio_irq_disable_all_def io_simps)
  have "(31 :: u32) < 32" by simp
  from dif_gpio_irq_enable_set [OF plain_plain_world this refl run, of 0]
  have "enabled_irqs gpio_irq_bit (gpio_addr gpio0 GPIO_INTR_ENABLE_REG_OFFSET)
     (snd (run_state (dif_gpio_irq_set_enabled (Some gpio0) 31 kDifGpioToggleEnabled) ?w)) =
     insert 31 (enabled_irqs gpio_irq_bit (gpio_addr gpio0 GPIO_INTR_ENABLE_REG_OFFSET) ?w)" by blast
  then show ?thesis by (simp add: mmio_addr32_def) (simp add: enabled_irqs_def)
qed

end
