(* ===== verification/FreePool.thy ===== *)
theory FreePool
  imports Prelude
begin

text \<open>
  The contract of a pool of free resources identified by ids, from which a client takes
  ids and to which it gives them back, and what the client may rely on: an id that is handed out
  is not handed out again before it is returned, and returning an outstanding id never fails.
\<close>

text \<open>The free ids are distinct and none of them is outstanding.\<close>

definition pool_disjoint :: "'id list \<Rightarrow> 'id set \<Rightarrow> bool" where
  "pool_disjoint free out \<longleftrightarrow> distinct free \<and> set free \<inter> out = {}"

locale free_pool =
  fixes ok :: "'p \<Rightarrow> bool"
    and free :: "'p \<Rightarrow> 'id list"
    and valid :: "'id set"
    and add :: "'p \<Rightarrow> 'id \<Rightarrow> bool \<times> 'p"
    and rem :: "'p \<Rightarrow> bool \<times> 'p \<times> 'id option"
  assumes finite_valid: "finite valid"
    and free_valid: "ok p \<Longrightarrow> set (free p) \<subseteq> valid"
    and add_law: "ok p \<Longrightarrow> i \<in> valid \<Longrightarrow> length (free p) < card valid
      \<Longrightarrow> fst (add p i) \<and> ok (snd (add p i)) \<and> free (snd (add p i)) = i # free p"
    and rem_law: "ok p \<Longrightarrow> free p = i # r
      \<Longrightarrow> fst (rem p) \<and> snd (snd (rem p)) = Some i \<and> ok (fst (snd (rem p))) \<and> free (fst (snd (rem p))) = r"
begin

lemma take_owned:
  assumes "ok p" "pool_disjoint (free p) out" "free p = i # r"
  shows "i \<notin> out \<and> i \<in> valid \<and> ok (fst (snd (rem p)))
    \<and> pool_disjoint (free (fst (snd (rem p)))) (insert i out)"
  using rem_law [OF assms(1,3)] free_valid [OF assms(1)] assms(2,3) by (auto simp: pool_disjoint_def)

lemma room_for_outstanding:
  assumes "ok p" "pool_disjoint (free p) out" "i \<in> out" "i \<in> valid"
  shows "length (free p) < card valid"
proof -
  have "set (free p) \<subset> valid" using assms free_valid [OF assms(1)] by (auto simp: pool_disjoint_def)
  then have "card (set (free p)) < card valid" by (rule psubset_card_mono [OF finite_valid])
  then show ?thesis using assms(2) by (simp add: pool_disjoint_def distinct_card)
qed

lemma give_owned:
  assumes "ok p" "pool_disjoint (free p) out" "i \<in> out" "i \<in> valid"
  shows "fst (add p i) \<and> ok (snd (add p i)) \<and> free (snd (add p i)) = i # free p
    \<and> pool_disjoint (free (snd (add p i))) (out - {i})"
  using add_law [OF assms(1,4) room_for_outstanding [OF assms]] assms(2,3) by (auto simp: pool_disjoint_def)

lemma add_rem:
  assumes "ok p" "i \<in> valid" "length (free p) < card valid"
  shows "snd (snd (rem (snd (add p i)))) = Some i \<and> free (fst (snd (rem (snd (add p i))))) = free p"
  using add_law [OF assms] rem_law by blast

end

end
