(* ===== verification/DifUsbdev.thy ===== *)
theory DifUsbdev
  imports IrqBlock MmioCopy FreePool
begin

text \<open>
  The USB device driver (\<open>sw/device/lib/dif/dif_usbdev.c\<close>): the free buffer pool, the
  endpoints, the packet buffers in the device's SRAM and the interrupts. Register offsets and
  fields are those of \<open>hw/ip/usbdev/data/usbdev.hjson\<close>.
\<close>

section \<open>Registers\<close>

abbreviation USBDEV_INTR_STATE_REG_OFFSET :: u32 where "USBDEV_INTR_STATE_REG_OFFSET \<equiv> 0x0"
abbreviation USBDEV_INTR_ENABLE_REG_OFFSET :: u32 where "USBDEV_INTR_ENABLE_REG_OFFSET \<equiv> 0x4"
abbreviation USBDEV_INTR_TEST_REG_OFFSET :: u32 where "USBDEV_INTR_TEST_REG_OFFSET \<equiv> 0x8"
abbreviation USBDEV_USBCTRL_REG_OFFSET :: u32 where "USBDEV_USBCTRL_REG_OFFSET \<equiv> 0xc"
abbreviation USBDEV_USBSTAT_REG_OFFSET :: u32 where "USBDEV_USBSTAT_REG_OFFSET \<equiv> 0x10"
abbreviation USBDEV_AVBUFFER_REG_OFFSET :: u32 where "USBDEV_AVBUFFER_REG_OFFSET \<equiv> 0x14"
abbreviation USBDEV_RXFIFO_REG_OFFSET :: u32 where "USBDEV_RXFIFO_REG_OFFSET \<equiv> 0x18"
abbreviation USBDEV_RXENABLE_SETUP_REG_OFFSET :: u32 where "USBDEV_RXENABLE_SETUP_REG_OFFSET \<equiv> 0x1c"
abbreviation USBDEV_RXENABLE_OUT_REG_OFFSET :: u32 where "USBDEV_RXENABLE_OUT_REG_OFFSET \<equiv> 0x20"
abbreviation USBDEV_IN_SENT_REG_OFFSET :: u32 where "USBDEV_IN_SENT_REG_OFFSET \<equiv> 0x24"
abbreviation USBDEV_STALL_REG_OFFSET :: u32 where "USBDEV_STALL_REG_OFFSET \<equiv> 0x28"
abbreviation USBDEV_CONFIGIN_0_REG_OFFSET :: u32 where "USBDEV_CONFIGIN_0_REG_OFFSET \<equiv> 0x2c"
abbreviation USBDEV_ISO_REG_OFFSET :: u32 where "USBDEV_ISO_REG_OFFSET \<equiv> 0x5c"
abbreviation USBDEV_PHY_CONFIG_REG_OFFSET :: u32 where "USBDEV_PHY_CONFIG_REG_OFFSET \<equiv> 0x6c"
abbreviation USBDEV_BUFFER_REG_OFFSET :: u32 where "USBDEV_BUFFER_REG_OFFSET \<equiv> 0x800"
abbreviation USBDEV_USBCTRL_ENABLE_BIT :: u32 where "USBDEV_USBCTRL_ENABLE_BIT \<equiv> 0"
abbreviation USBDEV_USBSTAT_HOST_LOST_BIT :: u32 where "USBDEV_USBSTAT_HOST_LOST_BIT \<equiv> 11"
abbreviation USBDEV_USBSTAT_SENSE_BIT :: u32 where "USBDEV_USBSTAT_SENSE_BIT \<equiv> 15"
abbreviation USBDEV_USBSTAT_AV_FULL_BIT :: u32 where "USBDEV_USBSTAT_AV_FULL_BIT \<equiv> 23"
abbreviation USBDEV_USBSTAT_RX_EMPTY_BIT :: u32 where "USBDEV_USBSTAT_RX_EMPTY_BIT \<equiv> 31"
abbreviation USBDEV_RXFIFO_SETUP_BIT :: u32 where "USBDEV_RXFIFO_SETUP_BIT \<equiv> 19"
abbreviation USBDEV_CONFIGIN_0_PEND_0_BIT :: u32 where "USBDEV_CONFIGIN_0_PEND_0_BIT \<equiv> 30"
abbreviation USBDEV_CONFIGIN_0_RDY_0_BIT :: u32 where "USBDEV_CONFIGIN_0_RDY_0_BIT \<equiv> 31"
abbreviation USBDEV_PHY_CONFIG_RX_DIFFERENTIAL_MODE_BIT :: u32 where "USBDEV_PHY_CONFIG_RX_DIFFERENTIAL_MODE_BIT \<equiv> 0"
abbreviation USBDEV_PHY_CONFIG_TX_DIFFERENTIAL_MODE_BIT :: u32 where "USBDEV_PHY_CONFIG_TX_DIFFERENTIAL_MODE_BIT \<equiv> 1"
abbreviation USBDEV_PHY_CONFIG_EOP_SINGLE_BIT_BIT :: u32 where "USBDEV_PHY_CONFIG_EOP_SINGLE_BIT_BIT \<equiv> 2"
abbreviation USBDEV_PHY_CONFIG_OVERRIDE_PWR_SENSE_EN_BIT :: u32 where "USBDEV_PHY_CONFIG_OVERRIDE_PWR_SENSE_EN_BIT \<equiv> 3"
abbreviation USBDEV_PHY_CONFIG_OVERRIDE_PWR_SENSE_VAL_BIT :: u32 where "USBDEV_PHY_CONFIG_OVERRIDE_PWR_SENSE_VAL_BIT \<equiv> 4"
abbreviation USBDEV_PHY_CONFIG_PINFLIP_BIT :: u32 where "USBDEV_PHY_CONFIG_PINFLIP_BIT \<equiv> 5"
abbreviation USBDEV_PHY_CONFIG_USB_REF_DISABLE_BIT :: u32 where "USBDEV_PHY_CONFIG_USB_REF_DISABLE_BIT \<equiv> 6"
abbreviation USBDEV_USBCTRL_DEVICE_ADDRESS_FIELD :: bitfield_field32 where
  "USBDEV_USBCTRL_DEVICE_ADDRESS_FIELD \<equiv> \<lparr>field_mask = 0x7f, field_index = 16\<rparr>"
abbreviation USBDEV_USBSTAT_FRAME_FIELD :: bitfield_field32 where
  "USBDEV_USBSTAT_FRAME_FIELD \<equiv> \<lparr>field_mask = 0x7ff, field_index = 0\<rparr>"
abbreviation USBDEV_USBSTAT_LINK_STATE_FIELD :: bitfield_field32 where
  "USBDEV_USBSTAT_LINK_STATE_FIELD \<equiv> \<lparr>field_mask = 0x7, field_index = 12\<rparr>"
abbreviation USBDEV_USBSTAT_AV_DEPTH_FIELD :: bitfield_field32 where
  "USBDEV_USBSTAT_AV_DEPTH_FIELD \<equiv> \<lparr>field_mask = 0x7, field_index = 16\<rparr>"
abbreviation USBDEV_USBSTAT_RX_DEPTH_FIELD :: bitfield_field32 where
  "USBDEV_USBSTAT_RX_DEPTH_FIELD \<equiv> \<lparr>field_mask = 0x7, field_index = 24\<rparr>"
abbreviation USBDEV_AVBUFFER_BUFFER_FIELD :: bitfield_field32 where
  "USBDEV_AVBUFFER_BUFFER_FIELD \<equiv> \<lparr>field_mask = 0x1f, field_index = 0\<rparr>"
abbreviation USBDEV_RXFIFO_BUFFER_FIELD :: bitfield_field32 where
  "USBDEV_RXFIFO_BUFFER_FIELD \<equiv> \<lparr>field_mask = 0x1f, field_index = 0\<rparr>"
abbreviation USBDEV_RXFIFO_SIZE_FIELD :: bitfield_field32 where
  "USBDEV_RXFIFO_SIZE_FIELD \<equiv> \<lparr>field_mask = 0x7f, field_index = 8\<rparr>"
abbreviation USBDEV_RXFIFO_EP_FIELD :: bitfield_field32 where
  "USBDEV_RXFIFO_EP_FIELD \<equiv> \<lparr>field_mask = 0xf, field_index = 20\<rparr>"
abbreviation USBDEV_CONFIGIN_0_BUFFER_0_FIELD :: bitfield_field32 where
  "USBDEV_CONFIGIN_0_BUFFER_0_FIELD \<equiv> \<lparr>field_mask = 0x1f, field_index = 0\<rparr>"
abbreviation USBDEV_CONFIGIN_0_SIZE_0_FIELD :: bitfield_field32 where
  "USBDEV_CONFIGIN_0_SIZE_0_FIELD \<equiv> \<lparr>field_mask = 0x7f, field_index = 8\<rparr>"
abbreviation USBDEV_NUM_ENDPOINTS :: u8 where "USBDEV_NUM_ENDPOINTS \<equiv> 12"
abbreviation USBDEV_NUM_BUFFERS :: u8 where "USBDEV_NUM_BUFFERS \<equiv> 32"
abbreviation USBDEV_BUFFER_ENTRY_SIZE_BYTES :: u32 where "USBDEV_BUFFER_ENTRY_SIZE_BYTES \<equiv> 64"

section \<open>Types\<close>

text \<open>The pool is a stack; \<open>top\<close> is an \<open>int8_t\<close>, the index of the top element or -1.\<close>

record dif_usbdev_buffer_pool =
  pool_buffers :: "u8 list"
  pool_top :: u8

datatype dif_usbdev_buffer_type =
  kDifUsbdevBufferTypeRead | kDifUsbdevBufferTypeWrite | kDifUsbdevBufferTypeStale
| dif_usbdev_buffer_type_other nat

record dif_usbdev_buffer =
  buffer_id :: u8
  buffer_offset :: u8
  remaining_bytes :: u8
  buffer_type :: dif_usbdev_buffer_type

record dif_usbdev =
  usbdev_base_addr :: mmio_region
  buffer_pool :: dif_usbdev_buffer_pool

datatype dif_usbdev_toggle = kDifUsbdevToggleDisable | kDifUsbdevToggleEnable | dif_usbdev_toggle_other nat

datatype dif_usbdev_power_sense_override =
  kDifUsbdevPowerSenseOverrideDisabled | kDifUsbdevPowerSenseOverridePresent
| kDifUsbdevPowerSenseOverrideNotPresent | dif_usbdev_power_sense_override_other nat

record dif_usbdev_config =
  cfg_base_addr :: mmio_region
  differential_rx :: dif_usbdev_toggle
  differential_tx :: dif_usbdev_toggle
  single_bit_eop :: dif_usbdev_toggle
  power_sense_override :: dif_usbdev_power_sense_override
  pin_flip :: dif_usbdev_toggle
  clock_sync_signals :: dif_usbdev_toggle

datatype dif_usbdev_result = kDifUsbdevOK | kDifUsbdevError | kDifUsbdevBadArg

record dif_usbdev_rx_packet_info =
  packet_endpoint :: u8
  packet_length :: u8
  packet_is_setup :: bool

datatype dif_usbdev_recv_result =
  kDifUsbdevRecvResultOK | kDifUsbdevRecvResultError | kDifUsbdevRecvResultBadArg
| kDifUsbdevRecvResultNoNewPacket

datatype dif_usbdev_buffer_read_result =
  kDifUsbdevBufferReadResultOK | kDifUsbdevBufferReadResultError
| kDifUsbdevBufferReadResultBadArg | kDifUsbdevBufferReadResultContinue

datatype dif_usbdev_buffer_request_result =
  kDifUsbdevBufferRequestResultOK | kDifUsbdevBufferRequestResultError
| kDifUsbdevBufferRequestResultBadArg | kDifUsbdevBufferRequestResultNoBuffers

datatype dif_usbdev_buffer_write_result =
  kDifUsbdevBufferWriteResultOK | kDifUsbdevBufferWriteResultError
| kDifUsbdevBufferWriteResultBadArg | kDifUsbdevBufferWriteResultFull

datatype dif_usbdev_tx_status =
  kDifUsbdevTxStatusNoPacket | kDifUsbdevTxStatusPending | kDifUsbdevTxStatusSent
| kDifUsbdevTxStatusCancelled

datatype dif_usbdev_link_state =
  kDifUsbdevLinkStateDisconnected | kDifUsbdevLinkStatePowered | kDifUsbdevLinkStatePoweredSuspend
| kDifUsbdevLinkStateActive | kDifUsbdevLinkStateSuspend

text \<open>A value beyond the last enumerator is \<open>other n\<close>, the value \<open>16 + n\<close>.\<close>

datatype dif_usbdev_irq =
  kDifUsbdevIrqPktReceived | kDifUsbdevIrqPktSent | kDifUsbdevIrqDisconnected | kDifUsbdevIrqHostLost
| kDifUsbdevIrqLinkReset | kDifUsbdevIrqLinkSuspend | kDifUsbdevIrqLinkResume | kDifUsbdevIrqAvEmpty
| kDifUsbdevIrqRxFull | kDifUsbdevIrqAvOverflow | kDifUsbdevIrqLinkInError | kDifUsbdevIrqRxCrcError
| kDifUsbdevIrqRxPidError | kDifUsbdevIrqRxBitstuffError | kDifUsbdevIrqFrame | kDifUsbdevIrqConnected
| dif_usbdev_irq_other nat

abbreviation kDifUsbdevIrqFirst :: dif_usbdev_irq where "kDifUsbdevIrqFirst \<equiv> kDifUsbdevIrqPktReceived"
abbreviation kDifUsbdevIrqLast :: dif_usbdev_irq where "kDifUsbdevIrqLast \<equiv> kDifUsbdevIrqConnected"

text \<open>The values of the enumerators, and their order.\<close>

fun usbdev_irq_code :: "dif_usbdev_irq \<Rightarrow> nat" where
  "usbdev_irq_code kDifUsbdevIrqPktReceived = 0"
| "usbdev_irq_code kDifUsbdevIrqPktSent = 1"
| "usbdev_irq_code kDifUsbdevIrqDisconnected = 2"
| "usbdev_irq_code kDifUsbdevIrqHostLost = 3"
| "usbdev_irq_code kDifUsbdevIrqLinkReset = 4"
| "usbdev_irq_code kDifUsbdevIrqLinkSuspend = 5"
| "usbdev_irq_code kDifUsbdevIrqLinkResume = 6"
| "usbdev_irq_code kDifUsbdevIrqAvEmpty = 7"
| "usbdev_irq_code kDifUsbdevIrqRxFull = 8"
| "usbdev_irq_code kDifUsbdevIrqAvOverflow = 9"
| "usbdev_irq_code kDifUsbdevIrqLinkInError = 10"
| "usbdev_irq_code kDifUsbdevIrqRxCrcError = 11"
| "usbdev_irq_code kDifUsbdevIrqRxPidError = 12"
| "usbdev_irq_code kDifUsbdevIrqRxBitstuffError = 13"
| "usbdev_irq_code kDifUsbdevIrqFrame = 14"
| "usbdev_irq_code kDifUsbdevIrqConnected = 15"
| "usbdev_irq_code (dif_usbdev_irq_other n) = 16 + n"

lemma usbdev_irq_code_inject: "usbdev_irq_code i = usbdev_irq_code j \<Longrightarrow> i = j"
  by (cases i; cases j) simp_all

instantiation dif_usbdev_irq :: linorder
begin

definition less_eq_dif_usbdev_irq :: "dif_usbdev_irq \<Rightarrow> dif_usbdev_irq \<Rightarrow> bool" where
  "less_eq_dif_usbdev_irq i j \<longleftrightarrow> usbdev_irq_code i \<le> usbdev_irq_code j"

definition less_dif_usbdev_irq :: "dif_usbdev_irq \<Rightarrow> dif_usbdev_irq \<Rightarrow> bool" where
  "less_dif_usbdev_irq i j \<longleftrightarrow> usbdev_irq_code i < usbdev_irq_code j"

instance
  by intro_classes
    (auto simp: less_eq_dif_usbdev_irq_def less_dif_usbdev_irq_def intro: usbdev_irq_code_inject)

end

fun usbdev_toggle_code :: "dif_usbdev_toggle \<Rightarrow> nat" where
  "usbdev_toggle_code kDifUsbdevToggleDisable = 0"
| "usbdev_toggle_code kDifUsbdevToggleEnable = 1"
| "usbdev_toggle_code (dif_usbdev_toggle_other n) = 2 + n"

record endpoint_hw_info =
  config_in_reg_offset :: u32
  hw_bit_index :: u8

definition kEndpointHwInfos :: "endpoint_hw_info list" where
  "kEndpointHwInfos =
     map (\<lambda>n. \<lparr>config_in_reg_offset = USBDEV_CONFIGIN_0_REG_OFFSET + 4 * of_nat n, hw_bit_index = of_nat n\<rparr>) [0..<12]"

definition kIrqEnumToBitIndex :: "dif_usbdev_irq \<Rightarrow> u32" where
  "kIrqEnumToBitIndex irq = of_nat (usbdev_irq_code irq)"

section \<open>The free buffer pool\<close>

abbreviation BUFFER_POOL_FULL :: u8 where "BUFFER_POOL_FULL \<equiv> USBDEV_NUM_BUFFERS - 1"
abbreviation BUFFER_POOL_EMPTY :: u8 where "BUFFER_POOL_EMPTY \<equiv> -1"

definition buffer_pool_is_full :: "dif_usbdev_buffer_pool \<Rightarrow> bool" where
  "buffer_pool_is_full pool \<longleftrightarrow> pool_top pool = BUFFER_POOL_FULL"

definition buffer_pool_is_empty :: "dif_usbdev_buffer_pool \<Rightarrow> bool" where
  "buffer_pool_is_empty pool \<longleftrightarrow> pool_top pool = BUFFER_POOL_EMPTY"

definition buffer_pool_is_valid_buffer_id :: "u8 \<Rightarrow> bool" where
  "buffer_pool_is_valid_buffer_id id' \<longleftrightarrow> id' < USBDEV_NUM_BUFFERS"

definition buffer_pool_add :: "dif_usbdev_buffer_pool \<Rightarrow> u8 \<Rightarrow> bool \<times> dif_usbdev_buffer_pool" where
  "buffer_pool_add pool id' =
     (if buffer_pool_is_full pool \<or> \<not> buffer_pool_is_valid_buffer_id id' then (False, pool)
      else
        (let pool = pool\<lparr>pool_top := pool_top pool + 1\<rparr>;
             pool = pool\<lparr>pool_buffers := (pool_buffers pool)[nat (sint (pool_top pool)) := id']\<rparr>
         in (True, pool)))"

definition buffer_pool_remove ::
  "dif_usbdev_buffer_pool \<Rightarrow> u8 ptr \<Rightarrow> bool \<times> dif_usbdev_buffer_pool \<times> u8 ptr" where
  "buffer_pool_remove pool id' =
     (if buffer_pool_is_empty pool \<or> id' = NULL then (False, pool, id')
      else
        (let id' = store id' (pool_buffers pool ! nat (sint (pool_top pool)));
             pool = pool\<lparr>pool_top := pool_top pool - 1\<rparr>
         in (True, pool, id')))"

primrec buffer_pool_add_all :: "nat list \<Rightarrow> dif_usbdev_buffer_pool \<Rightarrow> bool \<times> dif_usbdev_buffer_pool" where
  "buffer_pool_add_all [] pool = (True, pool)"
| "buffer_pool_add_all (i # is) pool =
     (case buffer_pool_add pool (of_nat i) of (ok, pool) \<Rightarrow>
        if \<not> ok then (False, pool) else buffer_pool_add_all is pool)"

definition buffer_pool_init :: "dif_usbdev_buffer_pool \<Rightarrow> bool \<times> dif_usbdev_buffer_pool" where
  "buffer_pool_init pool =
     (let pool = pool\<lparr>pool_top := -1\<rparr> in buffer_pool_add_all [0..<unat USBDEV_NUM_BUFFERS] pool)"

section \<open>Utility functions\<close>

definition is_valid_toggle :: "dif_usbdev_toggle \<Rightarrow> bool" where
  "is_valid_toggle val \<longleftrightarrow> val = kDifUsbdevToggleEnable \<or> val = kDifUsbdevToggleDisable"

definition is_valid_power_sense_override :: "dif_usbdev_power_sense_override \<Rightarrow> bool" where
  "is_valid_power_sense_override val \<longleftrightarrow>
     val = kDifUsbdevPowerSenseOverrideDisabled \<or> val = kDifUsbdevPowerSenseOverridePresent
     \<or> val = kDifUsbdevPowerSenseOverrideNotPresent"

definition is_valid_endpoint :: "u8 \<Rightarrow> bool" where
  "is_valid_endpoint endpoint \<longleftrightarrow> endpoint < USBDEV_NUM_ENDPOINTS"

definition is_valid_irq :: "dif_usbdev_irq \<Rightarrow> bool" where
  "is_valid_irq irq \<longleftrightarrow> irq \<ge> kDifUsbdevIrqFirst \<and> irq \<le> kDifUsbdevIrqLast"

text \<open>
  The condition of the inner \<open>if\<close> is the enumerator \<open>kDifUsbdevToggleEnable\<close> itself, as in the source.
\<close>

definition endpoint_functionality_enable ::
  "dif_usbdev ptr \<Rightarrow> u32 \<Rightarrow> u8 \<Rightarrow> dif_usbdev_toggle \<Rightarrow> dif_usbdev_result io" where
  "endpoint_functionality_enable usbdev reg_offset endpoint new_state =
     (case usbdev of NULL \<Rightarrow> ret kDifUsbdevBadArg
      | Some usbdev \<Rightarrow>
        if \<not> is_valid_endpoint endpoint \<or> \<not> is_valid_toggle new_state then ret kDifUsbdevBadArg
        else if usbdev_toggle_code kDifUsbdevToggleEnable \<noteq> 0 then do {
          _ \<leftarrow> mmio_region_nonatomic_set_bit32 (usbdev_base_addr usbdev) reg_offset
            (ucast (hw_bit_index (kEndpointHwInfos ! unat endpoint)));
          ret kDifUsbdevOK
        } else do {
          _ \<leftarrow> mmio_region_nonatomic_clear_bit32 (usbdev_base_addr usbdev) reg_offset
            (ucast (hw_bit_index (kEndpointHwInfos ! unat endpoint)));
          ret kDifUsbdevOK
        })"

definition get_buffer_addr :: "u8 \<Rightarrow> u32 \<Rightarrow> u32" where
  "get_buffer_addr id' offset =
     USBDEV_BUFFER_REG_OFFSET + (ucast id' * USBDEV_BUFFER_ENTRY_SIZE_BYTES) + offset"

section \<open>Initialisation\<close>

definition usbdev_set_phy_bit :: "bool \<Rightarrow> u32 \<Rightarrow> u32 \<Rightarrow> u32" where
  "usbdev_set_phy_bit c bit_ix v =
     (if c then bitfield_field32_write v \<lparr>field_mask = 1, field_index = bit_ix\<rparr> 1 else v)"

definition dif_usbdev_init ::
  "dif_usbdev_config ptr \<Rightarrow> dif_usbdev ptr \<Rightarrow> (dif_usbdev_result \<times> dif_usbdev ptr) io" where
  "dif_usbdev_init config usbdev =
     (case (usbdev, config) of
        (Some dev, Some config) \<Rightarrow>
          if \<not> is_valid_toggle (differential_rx config) \<or> \<not> is_valid_toggle (differential_tx config)
             \<or> \<not> is_valid_toggle (single_bit_eop config)
             \<or> \<not> is_valid_power_sense_override (power_sense_override config)
             \<or> \<not> is_valid_toggle (pin_flip config) \<or> \<not> is_valid_toggle (clock_sync_signals config)
          then ret (kDifUsbdevBadArg, usbdev)
          else
            (let dev = dev\<lparr>usbdev_base_addr := cfg_base_addr config\<rparr> in
             case buffer_pool_init (buffer_pool dev) of (ok, pool) \<Rightarrow>
               let dev = dev\<lparr>buffer_pool := pool\<rparr> in
               if \<not> ok then ret (kDifUsbdevError, Some dev)
               else do {
                 let phy_config_val = 0;
                 let phy_config_val = usbdev_set_phy_bit (differential_rx config = kDifUsbdevToggleEnable)
                   USBDEV_PHY_CONFIG_RX_DIFFERENTIAL_MODE_BIT phy_config_val;
                 let phy_config_val = usbdev_set_phy_bit (differential_tx config = kDifUsbdevToggleEnable)
                   USBDEV_PHY_CONFIG_TX_DIFFERENTIAL_MODE_BIT phy_config_val;
                 let phy_config_val = usbdev_set_phy_bit (single_bit_eop config = kDifUsbdevToggleEnable)
                   USBDEV_PHY_CONFIG_EOP_SINGLE_BIT_BIT phy_config_val;
                 let phy_config_val =
                   (if power_sense_override config = kDifUsbdevPowerSenseOverridePresent then
                      usbdev_set_phy_bit True USBDEV_PHY_CONFIG_OVERRIDE_PWR_SENSE_VAL_BIT
                        (usbdev_set_phy_bit True USBDEV_PHY_CONFIG_OVERRIDE_PWR_SENSE_EN_BIT phy_config_val)
                    else if power_sense_override config = kDifUsbdevPowerSenseOverrideNotPresent then
                      usbdev_set_phy_bit True USBDEV_PHY_CONFIG_OVERRIDE_PWR_SENSE_EN_BIT phy_config_val
                    else phy_config_val);
                 let phy_config_val = usbdev_set_phy_bit (pin_flip config = kDifUsbdevToggleEnable)
                   USBDEV_PHY_CONFIG_PINFLIP_BIT phy_config_val;
                 let phy_config_val = usbdev_set_phy_bit (clock_sync_signals config = kDifUsbdevToggleDisable)
                   USBDEV_PHY_CONFIG_USB_REF_DISABLE_BIT phy_config_val;
                 _ \<leftarrow> mmio_region_write32 (usbdev_base_addr dev) USBDEV_PHY_CONFIG_REG_OFFSET phy_config_val;
                 ret (kDifUsbdevOK, Some dev)
               })
      | _ \<Rightarrow> ret (kDifUsbdevBadArg, usbdev))"

section \<open>The available-buffer FIFO\<close>

lemma pool_top_decreases: "(t :: u8) \<noteq> -1 \<Longrightarrow> unat t < unat (t + 1)"
  by (metis lessI unat_1 unat_minus_one unat_gt_0 add_diff_cancel_right' add_neg_numeral_special(7) add.inverse_inverse
      diff_Suc_1 Suc_pred eq_neg_iff_add_eq_0)

function usbdev_fill_loop :: "dif_usbdev \<Rightarrow> (dif_usbdev_result \<times> dif_usbdev) io" where
  "usbdev_fill_loop usbdev = do {
     full \<leftarrow> mmio_region_get_bit32 (usbdev_base_addr usbdev) USBDEV_USBSTAT_REG_OFFSET USBDEV_USBSTAT_AV_FULL_BIT;
     (if \<not> full \<and> \<not> buffer_pool_is_empty (buffer_pool usbdev) then
        (case buffer_pool_remove (buffer_pool usbdev) (Some 0) of (ok, pool, id') \<Rightarrow>
           if \<not> ok then ret (kDifUsbdevError, usbdev)
           else do {
             _ \<leftarrow> mmio_region_write_only_set_field32 (usbdev_base_addr usbdev) USBDEV_AVBUFFER_REG_OFFSET
               USBDEV_AVBUFFER_BUFFER_FIELD (ucast (the id'));
             usbdev_fill_loop (usbdev\<lparr>buffer_pool := pool\<rparr>)
           })
      else ret (kDifUsbdevOK, usbdev))
   }"
  by pat_completeness auto

termination
  by (relation "measure (\<lambda>usbdev. unat (pool_top (buffer_pool usbdev) + 1))")
    (auto simp: buffer_pool_remove_def buffer_pool_is_empty_def Let_def pool_top_decreases split: if_splits)

declare usbdev_fill_loop.simps [simp del]

definition dif_usbdev_fill_available_fifo :: "dif_usbdev ptr \<Rightarrow> (dif_usbdev_result \<times> dif_usbdev ptr) io" where
  "dif_usbdev_fill_available_fifo usbdev =
     (case usbdev of NULL \<Rightarrow> ret (kDifUsbdevBadArg, NULL)
      | Some usbdev \<Rightarrow> do { (r, dev) \<leftarrow> usbdev_fill_loop usbdev; ret (r, Some dev) })"

section \<open>Endpoints\<close>

definition dif_usbdev_endpoint_setup_enable :: "dif_usbdev ptr \<Rightarrow> u8 \<Rightarrow> dif_usbdev_toggle \<Rightarrow> dif_usbdev_result io" where
  "dif_usbdev_endpoint_setup_enable usbdev endpoint new_state =
     endpoint_functionality_enable usbdev USBDEV_RXENABLE_SETUP_REG_OFFSET endpoint new_state"

definition dif_usbdev_endpoint_out_enable :: "dif_usbdev ptr \<Rightarrow> u8 \<Rightarrow> dif_usbdev_toggle \<Rightarrow> dif_usbdev_result io" where
  "dif_usbdev_endpoint_out_enable usbdev endpoint new_state =
     endpoint_functionality_enable usbdev USBDEV_RXENABLE_OUT_REG_OFFSET endpoint new_state"

definition dif_usbdev_endpoint_stall_enable :: "dif_usbdev ptr \<Rightarrow> u8 \<Rightarrow> dif_usbdev_toggle \<Rightarrow> dif_usbdev_result io" where
  "dif_usbdev_endpoint_stall_enable usbdev endpoint new_state =
     endpoint_functionality_enable usbdev USBDEV_STALL_REG_OFFSET endpoint new_state"

definition dif_usbdev_endpoint_stall_get ::
  "dif_usbdev ptr \<Rightarrow> u8 \<Rightarrow> bool ptr \<Rightarrow> (dif_usbdev_result \<times> bool ptr) io" where
  "dif_usbdev_endpoint_stall_get usbdev endpoint st =
     (case (usbdev, st) of
        (Some usbdev, Some _) \<Rightarrow>
          if \<not> is_valid_endpoint endpoint then ret (kDifUsbdevBadArg, st)
          else do {
            v \<leftarrow> mmio_region_get_bit32 (usbdev_base_addr usbdev) USBDEV_STALL_REG_OFFSET
              (ucast (hw_bit_index (kEndpointHwInfos ! unat endpoint)));
            ret (kDifUsbdevOK, store st v)
          }
      | _ \<Rightarrow> ret (kDifUsbdevBadArg, st))"

definition dif_usbdev_endpoint_iso_enable :: "dif_usbdev ptr \<Rightarrow> u8 \<Rightarrow> dif_usbdev_toggle \<Rightarrow> dif_usbdev_result io" where
  "dif_usbdev_endpoint_iso_enable usbdev endpoint new_state =
     endpoint_functionality_enable usbdev USBDEV_ISO_REG_OFFSET endpoint new_state"

definition dif_usbdev_interface_enable :: "dif_usbdev ptr \<Rightarrow> dif_usbdev_toggle \<Rightarrow> dif_usbdev_result io" where
  "dif_usbdev_interface_enable usbdev new_state =
     (case usbdev of NULL \<Rightarrow> ret kDifUsbdevBadArg
      | Some usbdev \<Rightarrow>
        if \<not> is_valid_toggle new_state then ret kDifUsbdevBadArg
        else do {
          _ \<leftarrow> (if new_state = kDifUsbdevToggleEnable
            then mmio_region_nonatomic_set_bit32 (usbdev_base_addr usbdev) USBDEV_USBCTRL_REG_OFFSET USBDEV_USBCTRL_ENABLE_BIT
            else mmio_region_nonatomic_clear_bit32 (usbdev_base_addr usbdev) USBDEV_USBCTRL_REG_OFFSET USBDEV_USBCTRL_ENABLE_BIT);
          ret kDifUsbdevOK
        })"

section \<open>Receiving\<close>

definition dif_usbdev_recv ::
  "dif_usbdev ptr \<Rightarrow> dif_usbdev_rx_packet_info ptr \<Rightarrow> dif_usbdev_buffer ptr
     \<Rightarrow> (dif_usbdev_recv_result \<times> dif_usbdev_rx_packet_info ptr \<times> dif_usbdev_buffer ptr) io" where
  "dif_usbdev_recv usbdev info buffer =
     (case (usbdev, info, buffer) of
        (Some usbdev, Some _, Some _) \<Rightarrow> do {
          empty \<leftarrow> mmio_region_get_bit32 (usbdev_base_addr usbdev) USBDEV_USBSTAT_REG_OFFSET USBDEV_USBSTAT_RX_EMPTY_BIT;
          (if empty then ret (kDifUsbdevRecvResultNoNewPacket, info, buffer)
           else do {
             fifo_entry \<leftarrow> mmio_region_read32 (usbdev_base_addr usbdev) USBDEV_RXFIFO_REG_OFFSET;
             let new_info = \<lparr>
               packet_endpoint = ucast (bitfield_field32_read fifo_entry USBDEV_RXFIFO_EP_FIELD),
               packet_length = ucast (bitfield_field32_read fifo_entry USBDEV_RXFIFO_SIZE_FIELD),
               packet_is_setup = bitfield_bit32_read fifo_entry USBDEV_RXFIFO_SETUP_BIT\<rparr>;
             let new_buffer = \<lparr>
               buffer_id = ucast (bitfield_field32_read fifo_entry USBDEV_RXFIFO_BUFFER_FIELD),
               buffer_offset = 0,
               remaining_bytes = packet_length new_info,
               buffer_type = kDifUsbdevBufferTypeRead\<rparr>;
             ret (kDifUsbdevRecvResultOK, store info new_info, store buffer new_buffer)
           })
        }
      | _ \<Rightarrow> ret (kDifUsbdevRecvResultBadArg, info, buffer))"

section \<open>Buffers\<close>

text \<open>The operations on the pool alone do not touch the bus.\<close>

definition dif_usbdev_buffer_request ::
  "dif_usbdev ptr \<Rightarrow> dif_usbdev_buffer ptr
     \<Rightarrow> dif_usbdev_buffer_request_result \<times> dif_usbdev ptr \<times> dif_usbdev_buffer ptr" where
  "dif_usbdev_buffer_request usbdev buffer =
     (case (usbdev, buffer) of
        (Some dev, Some _) \<Rightarrow>
          if buffer_pool_is_empty (buffer_pool dev) then (kDifUsbdevBufferRequestResultNoBuffers, usbdev, buffer)
          else
            (case buffer_pool_remove (buffer_pool dev) (Some 0) of (ok, pool, id') \<Rightarrow>
               if \<not> ok then (kDifUsbdevBufferRequestResultError, usbdev, buffer)
               else (kDifUsbdevBufferRequestResultOK, Some (dev\<lparr>buffer_pool := pool\<rparr>),
                 store buffer \<lparr>buffer_id = the id', buffer_offset = 0,
                   remaining_bytes = ucast USBDEV_BUFFER_ENTRY_SIZE_BYTES, buffer_type = kDifUsbdevBufferTypeWrite\<rparr>))
      | _ \<Rightarrow> (kDifUsbdevBufferRequestResultBadArg, usbdev, buffer))"

definition dif_usbdev_buffer_return ::
  "dif_usbdev ptr \<Rightarrow> dif_usbdev_buffer ptr \<Rightarrow> dif_usbdev_result \<times> dif_usbdev ptr \<times> dif_usbdev_buffer ptr" where
  "dif_usbdev_buffer_return usbdev buffer =
     (case (usbdev, buffer) of
        (Some dev, Some buf) \<Rightarrow>
          if buffer_type buf = kDifUsbdevBufferTypeRead \<or> buffer_type buf = kDifUsbdevBufferTypeWrite then
            (case buffer_pool_add (buffer_pool dev) (buffer_id buf) of (ok, pool) \<Rightarrow>
               if \<not> ok then (kDifUsbdevError, usbdev, buffer)
               else (kDifUsbdevOK, Some (dev\<lparr>buffer_pool := pool\<rparr>),
                 Some (buf\<lparr>buffer_type := kDifUsbdevBufferTypeStale\<rparr>)))
          else (kDifUsbdevBadArg, usbdev, buffer)
      | _ \<Rightarrow> (kDifUsbdevBadArg, usbdev, buffer))"

definition dif_usbdev_buffer_read ::
  "dif_usbdev ptr \<Rightarrow> dif_usbdev_buffer ptr \<Rightarrow> u8 list ptr \<Rightarrow> nat \<Rightarrow> nat ptr
     \<Rightarrow> (dif_usbdev_buffer_read_result \<times> dif_usbdev ptr \<times> dif_usbdev_buffer ptr \<times> u8 list ptr \<times> nat ptr) io" where
  "dif_usbdev_buffer_read usbdev buffer dst dst_len bytes_written =
     (case (usbdev, buffer, dst) of
        (Some dev, Some buf, Some d) \<Rightarrow>
          if buffer_type buf \<noteq> kDifUsbdevBufferTypeRead
          then ret (kDifUsbdevBufferReadResultBadArg, usbdev, buffer, dst, bytes_written)
          else do {
            let bytes_to_copy = unat (remaining_bytes buf);
            let bytes_to_copy = (if bytes_to_copy > dst_len then dst_len else bytes_to_copy);
            let buffer_addr = get_buffer_addr (buffer_id buf) (ucast (buffer_offset buf));
            d \<leftarrow> mmio_region_memcpy_from_mmio32 (usbdev_base_addr dev) buffer_addr d bytes_to_copy;
            let buf = buf\<lparr>buffer_offset := buffer_offset buf + of_nat bytes_to_copy,
                         remaining_bytes := remaining_bytes buf - of_nat bytes_to_copy\<rparr>;
            let bytes_written = store bytes_written bytes_to_copy;
            (if remaining_bytes buf > 0
             then ret (kDifUsbdevBufferReadResultContinue, usbdev, Some buf, Some d, bytes_written)
             else
               (case buffer_pool_add (buffer_pool dev) (buffer_id buf) of (ok, pool) \<Rightarrow>
                  if \<not> ok then ret (kDifUsbdevBufferReadResultError, usbdev, Some buf, Some d, bytes_written)
                  else ret (kDifUsbdevBufferReadResultOK, Some (dev\<lparr>buffer_pool := pool\<rparr>),
                    Some (buf\<lparr>buffer_type := kDifUsbdevBufferTypeStale\<rparr>), Some d, bytes_written)))
          }
      | _ \<Rightarrow> ret (kDifUsbdevBufferReadResultBadArg, usbdev, buffer, dst, bytes_written))"

definition dif_usbdev_buffer_write ::
  "dif_usbdev ptr \<Rightarrow> dif_usbdev_buffer ptr \<Rightarrow> u8 list ptr \<Rightarrow> nat \<Rightarrow> nat ptr
     \<Rightarrow> (dif_usbdev_buffer_write_result \<times> dif_usbdev_buffer ptr \<times> nat ptr) io" where
  "dif_usbdev_buffer_write usbdev buffer src src_len bytes_written =
     (case (usbdev, buffer, src) of
        (Some dev, Some buf, Some src) \<Rightarrow>
          if buffer_type buf \<noteq> kDifUsbdevBufferTypeWrite
          then ret (kDifUsbdevBufferWriteResultBadArg, buffer, bytes_written)
          else do {
            let bytes_to_copy = unat (remaining_bytes buf);
            let bytes_to_copy = (if bytes_to_copy > src_len then src_len else bytes_to_copy);
            let buffer_addr = get_buffer_addr (buffer_id buf) (ucast (buffer_offset buf));
            _ \<leftarrow> mmio_region_memcpy_to_mmio32 (usbdev_base_addr dev) buffer_addr src bytes_to_copy;
            let buf = buf\<lparr>buffer_offset := buffer_offset buf + of_nat bytes_to_copy,
                         remaining_bytes := remaining_bytes buf - of_nat bytes_to_copy\<rparr>;
            let bytes_written = store bytes_written bytes_to_copy;
            (if remaining_bytes buf = 0 \<and> bytes_to_copy < src_len
             then ret (kDifUsbdevBufferWriteResultFull, Some buf, bytes_written)
             else ret (kDifUsbdevBufferWriteResultOK, Some buf, bytes_written))
          }
      | _ \<Rightarrow> ret (kDifUsbdevBufferWriteResultBadArg, buffer, bytes_written))"

section \<open>Transmitting\<close>

definition dif_usbdev_send ::
  "dif_usbdev ptr \<Rightarrow> u8 \<Rightarrow> dif_usbdev_buffer ptr \<Rightarrow> (dif_usbdev_result \<times> dif_usbdev_buffer ptr) io" where
  "dif_usbdev_send usbdev endpoint buffer =
     (case (usbdev, buffer) of
        (Some dev, Some buf) \<Rightarrow>
          if \<not> is_valid_endpoint endpoint \<or> buffer_type buf \<noteq> kDifUsbdevBufferTypeWrite
          then ret (kDifUsbdevBadArg, buffer)
          else do {
            let reg_offset = config_in_reg_offset (kEndpointHwInfos ! unat endpoint);
            config_in_val \<leftarrow> mmio_region_read32 (usbdev_base_addr dev) reg_offset;
            let config_in_val = bitfield_field32_write config_in_val USBDEV_CONFIGIN_0_BUFFER_0_FIELD (ucast (buffer_id buf));
            let config_in_val = bitfield_field32_write config_in_val USBDEV_CONFIGIN_0_SIZE_0_FIELD (ucast (buffer_offset buf));
            _ \<leftarrow> mmio_region_write32 (usbdev_base_addr dev) reg_offset config_in_val;
            _ \<leftarrow> mmio_region_nonatomic_set_bit32 (usbdev_base_addr dev) reg_offset USBDEV_CONFIGIN_0_RDY_0_BIT;
            ret (kDifUsbdevOK, Some (buf\<lparr>buffer_type := kDifUsbdevBufferTypeStale\<rparr>))
          }
      | _ \<Rightarrow> ret (kDifUsbdevBadArg, buffer))"

definition dif_usbdev_get_tx_status ::
  "dif_usbdev ptr \<Rightarrow> u8 \<Rightarrow> dif_usbdev_tx_status ptr
     \<Rightarrow> (dif_usbdev_result \<times> dif_usbdev ptr \<times> dif_usbdev_tx_status ptr) io" where
  "dif_usbdev_get_tx_status usbdev endpoint status =
     (case (usbdev, status) of
        (Some dev, Some _) \<Rightarrow>
          if \<not> is_valid_endpoint endpoint then ret (kDifUsbdevBadArg, usbdev, status)
          else do {
            let reg_offset = config_in_reg_offset (kEndpointHwInfos ! unat endpoint);
            let endpoint_bit_index = hw_bit_index (kEndpointHwInfos ! unat endpoint);
            config_in_val \<leftarrow> mmio_region_read32 (usbdev_base_addr dev) reg_offset;
            let buffer = (ucast (bitfield_field32_read config_in_val USBDEV_CONFIGIN_0_BUFFER_0_FIELD) :: u8);
            (if bitfield_field32_read config_in_val \<lparr>field_mask = 1, field_index = USBDEV_CONFIGIN_0_RDY_0_BIT\<rparr> \<noteq> 0
             then ret (kDifUsbdevOK, usbdev, store status kDifUsbdevTxStatusPending)
             else do {
               sent \<leftarrow> mmio_region_get_bit32 (usbdev_base_addr dev) USBDEV_IN_SENT_REG_OFFSET (ucast endpoint_bit_index);
               (if sent then do {
                  _ \<leftarrow> mmio_region_write_only_set_bit32 (usbdev_base_addr dev) USBDEV_IN_SENT_REG_OFFSET (ucast endpoint_bit_index);
                  (case buffer_pool_add (buffer_pool dev) buffer of (ok, pool) \<Rightarrow>
                     if \<not> ok then ret (kDifUsbdevError, usbdev, status)
                     else ret (kDifUsbdevOK, Some (dev\<lparr>buffer_pool := pool\<rparr>), store status kDifUsbdevTxStatusSent))
                }
                else if bitfield_field32_read config_in_val \<lparr>field_mask = 1, field_index = USBDEV_CONFIGIN_0_PEND_0_BIT\<rparr> \<noteq> 0
                then do {
                  _ \<leftarrow> mmio_region_write_only_set_bit32 (usbdev_base_addr dev) reg_offset USBDEV_CONFIGIN_0_PEND_0_BIT;
                  (case buffer_pool_add (buffer_pool dev) buffer of (ok, pool) \<Rightarrow>
                     if \<not> ok then ret (kDifUsbdevError, usbdev, status)
                     else ret (kDifUsbdevOK, Some (dev\<lparr>buffer_pool := pool\<rparr>), store status kDifUsbdevTxStatusCancelled))
                }
                else ret (kDifUsbdevOK, usbdev, store status kDifUsbdevTxStatusNoPacket))
             })
          }
      | _ \<Rightarrow> ret (kDifUsbdevBadArg, usbdev, status))"

section \<open>Address and status\<close>

definition dif_usbdev_address_set :: "dif_usbdev ptr \<Rightarrow> u8 \<Rightarrow> dif_usbdev_result io" where
  "dif_usbdev_address_set usbdev addr =
     (case usbdev of NULL \<Rightarrow> ret kDifUsbdevBadArg
      | Some usbdev \<Rightarrow> do {
          _ \<leftarrow> mmio_region_nonatomic_set_field32 (usbdev_base_addr usbdev) USBDEV_USBCTRL_REG_OFFSET
            USBDEV_USBCTRL_DEVICE_ADDRESS_FIELD (ucast addr);
          ret kDifUsbdevOK
        })"

definition dif_usbdev_address_get :: "dif_usbdev ptr \<Rightarrow> u8 ptr \<Rightarrow> (dif_usbdev_result \<times> u8 ptr) io" where
  "dif_usbdev_address_get usbdev addr =
     (case (usbdev, addr) of
        (Some usbdev, Some _) \<Rightarrow> do {
          v \<leftarrow> mmio_region_read_mask32 (usbdev_base_addr usbdev) USBDEV_USBCTRL_REG_OFFSET 0x7f 16;
          ret (kDifUsbdevOK, store addr (ucast v))
        }
      | _ \<Rightarrow> ret (kDifUsbdevBadArg, addr))"

definition dif_usbdev_status_get_frame :: "dif_usbdev ptr \<Rightarrow> u16 ptr \<Rightarrow> (dif_usbdev_result \<times> u16 ptr) io" where
  "dif_usbdev_status_get_frame usbdev frame_index =
     (case (usbdev, frame_index) of
        (Some usbdev, Some _) \<Rightarrow> do {
          v \<leftarrow> mmio_region_read_mask32 (usbdev_base_addr usbdev) USBDEV_USBSTAT_REG_OFFSET 0x7ff 0;
          ret (kDifUsbdevOK, store frame_index (ucast v))
        }
      | _ \<Rightarrow> ret (kDifUsbdevBadArg, frame_index))"

definition dif_usbdev_status_get_host_lost :: "dif_usbdev ptr \<Rightarrow> bool ptr \<Rightarrow> (dif_usbdev_result \<times> bool ptr) io" where
  "dif_usbdev_status_get_host_lost usbdev host_lost =
     (case (usbdev, host_lost) of
        (Some usbdev, Some _) \<Rightarrow> do {
          v \<leftarrow> mmio_region_get_bit32 (usbdev_base_addr usbdev) USBDEV_USBSTAT_REG_OFFSET USBDEV_USBSTAT_HOST_LOST_BIT;
          ret (kDifUsbdevOK, store host_lost v)
        }
      | _ \<Rightarrow> ret (kDifUsbdevBadArg, host_lost))"

definition usbdev_link_state :: "u32 \<Rightarrow> dif_usbdev_link_state option" where
  "usbdev_link_state val =
     (if val = 0 then Some kDifUsbdevLinkStateDisconnected
      else if val = 1 then Some kDifUsbdevLinkStatePowered
      else if val = 2 then Some kDifUsbdevLinkStatePoweredSuspend
      else if val = 3 then Some kDifUsbdevLinkStateActive
      else if val = 4 then Some kDifUsbdevLinkStateSuspend
      else None)"

definition dif_usbdev_status_get_link_state ::
  "dif_usbdev ptr \<Rightarrow> dif_usbdev_link_state ptr \<Rightarrow> (dif_usbdev_result \<times> dif_usbdev_link_state ptr) io" where
  "dif_usbdev_status_get_link_state usbdev link_state =
     (case (usbdev, link_state) of
        (Some usbdev, Some _) \<Rightarrow> do {
          val \<leftarrow> mmio_region_read_mask32 (usbdev_base_addr usbdev) USBDEV_USBSTAT_REG_OFFSET 0x7 12;
          (case usbdev_link_state val of
             Some s \<Rightarrow> ret (kDifUsbdevOK, store link_state s)
           | None \<Rightarrow> ret (kDifUsbdevError, link_state))
        }
      | _ \<Rightarrow> ret (kDifUsbdevBadArg, link_state))"

definition dif_usbdev_status_get_sense :: "dif_usbdev ptr \<Rightarrow> bool ptr \<Rightarrow> (dif_usbdev_result \<times> bool ptr) io" where
  "dif_usbdev_status_get_sense usbdev sense =
     (case (usbdev, sense) of
        (Some usbdev, Some _) \<Rightarrow> do {
          v \<leftarrow> mmio_region_get_bit32 (usbdev_base_addr usbdev) USBDEV_USBSTAT_REG_OFFSET USBDEV_USBSTAT_SENSE_BIT;
          ret (kDifUsbdevOK, store sense v)
        }
      | _ \<Rightarrow> ret (kDifUsbdevBadArg, sense))"

definition dif_usbdev_status_get_available_fifo_depth :: "dif_usbdev ptr \<Rightarrow> u8 ptr \<Rightarrow> (dif_usbdev_result \<times> u8 ptr) io" where
  "dif_usbdev_status_get_available_fifo_depth usbdev depth =
     (case (usbdev, depth) of
        (Some usbdev, Some _) \<Rightarrow> do {
          v \<leftarrow> mmio_region_read_mask32 (usbdev_base_addr usbdev) USBDEV_USBSTAT_REG_OFFSET 0x7 16;
          ret (kDifUsbdevOK, store depth (ucast v))
        }
      | _ \<Rightarrow> ret (kDifUsbdevBadArg, depth))"

definition dif_usbdev_status_get_available_fifo_full :: "dif_usbdev ptr \<Rightarrow> bool ptr \<Rightarrow> (dif_usbdev_result \<times> bool ptr) io" where
  "dif_usbdev_status_get_available_fifo_full usbdev is_full =
     (case (usbdev, is_full) of
        (Some usbdev, Some _) \<Rightarrow> do {
          v \<leftarrow> mmio_region_get_bit32 (usbdev_base_addr usbdev) USBDEV_USBSTAT_REG_OFFSET USBDEV_USBSTAT_AV_FULL_BIT;
          ret (kDifUsbdevOK, store is_full v)
        }
      | _ \<Rightarrow> ret (kDifUsbdevBadArg, is_full))"

definition dif_usbdev_status_get_rx_fifo_depth :: "dif_usbdev ptr \<Rightarrow> u8 ptr \<Rightarrow> (dif_usbdev_result \<times> u8 ptr) io" where
  "dif_usbdev_status_get_rx_fifo_depth usbdev depth =
     (case (usbdev, depth) of
        (Some usbdev, Some _) \<Rightarrow> do {
          v \<leftarrow> mmio_region_read_mask32 (usbdev_base_addr usbdev) USBDEV_USBSTAT_REG_OFFSET 0x7 24;
          ret (kDifUsbdevOK, store depth (ucast v))
        }
      | _ \<Rightarrow> ret (kDifUsbdevBadArg, depth))"

definition dif_usbdev_status_get_rx_fifo_empty :: "dif_usbdev ptr \<Rightarrow> bool ptr \<Rightarrow> (dif_usbdev_result \<times> bool ptr) io" where
  "dif_usbdev_status_get_rx_fifo_empty usbdev is_full =
     (case (usbdev, is_full) of
        (Some usbdev, Some _) \<Rightarrow> do {
          v \<leftarrow> mmio_region_get_bit32 (usbdev_base_addr usbdev) USBDEV_USBSTAT_REG_OFFSET USBDEV_USBSTAT_RX_EMPTY_BIT;
          ret (kDifUsbdevOK, store is_full v)
        }
      | _ \<Rightarrow> ret (kDifUsbdevBadArg, is_full))"

section \<open>Interrupts\<close>

definition dif_usbdev_irq_enable :: "dif_usbdev ptr \<Rightarrow> dif_usbdev_irq \<Rightarrow> dif_usbdev_toggle \<Rightarrow> dif_usbdev_result io" where
  "dif_usbdev_irq_enable usbdev irq st =
     (case usbdev of NULL \<Rightarrow> ret kDifUsbdevBadArg
      | Some usbdev \<Rightarrow>
        if \<not> is_valid_irq irq \<or> \<not> is_valid_toggle st then ret kDifUsbdevBadArg
        else do {
          _ \<leftarrow> (if st = kDifUsbdevToggleEnable
            then mmio_region_nonatomic_set_bit32 (usbdev_base_addr usbdev) USBDEV_INTR_ENABLE_REG_OFFSET (kIrqEnumToBitIndex irq)
            else mmio_region_nonatomic_clear_bit32 (usbdev_base_addr usbdev) USBDEV_INTR_ENABLE_REG_OFFSET (kIrqEnumToBitIndex irq));
          ret kDifUsbdevOK
        })"

definition dif_usbdev_irq_get :: "dif_usbdev ptr \<Rightarrow> dif_usbdev_irq \<Rightarrow> bool ptr \<Rightarrow> (dif_usbdev_result \<times> bool ptr) io" where
  "dif_usbdev_irq_get usbdev irq st =
     (case (usbdev, st) of
        (Some usbdev, Some _) \<Rightarrow>
          if \<not> is_valid_irq irq then ret (kDifUsbdevBadArg, st)
          else do {
            v \<leftarrow> mmio_region_get_bit32 (usbdev_base_addr usbdev) USBDEV_INTR_STATE_REG_OFFSET (kIrqEnumToBitIndex irq);
            ret (kDifUsbdevOK, store st v)
          }
      | _ \<Rightarrow> ret (kDifUsbdevBadArg, st))"

definition dif_usbdev_irq_clear :: "dif_usbdev ptr \<Rightarrow> dif_usbdev_irq \<Rightarrow> dif_usbdev_result io" where
  "dif_usbdev_irq_clear usbdev irq =
     (case usbdev of NULL \<Rightarrow> ret kDifUsbdevBadArg
      | Some usbdev \<Rightarrow>
        if \<not> is_valid_irq irq then ret kDifUsbdevBadArg
        else do {
          _ \<leftarrow> mmio_region_write_only_set_bit32 (usbdev_base_addr usbdev) USBDEV_INTR_STATE_REG_OFFSET (kIrqEnumToBitIndex irq);
          ret kDifUsbdevOK
        })"

definition dif_usbdev_irq_clear_all :: "dif_usbdev ptr \<Rightarrow> dif_usbdev_result io" where
  "dif_usbdev_irq_clear_all usbdev =
     (case usbdev of NULL \<Rightarrow> ret kDifUsbdevBadArg
      | Some usbdev \<Rightarrow> do {
          _ \<leftarrow> mmio_region_write32 (usbdev_base_addr usbdev) USBDEV_INTR_STATE_REG_OFFSET 0xffffffff;
          ret kDifUsbdevOK
        })"

definition dif_usbdev_irq_disable_all :: "dif_usbdev ptr \<Rightarrow> u32 ptr \<Rightarrow> (dif_usbdev_result \<times> u32 ptr) io" where
  "dif_usbdev_irq_disable_all usbdev cur_config =
     (case usbdev of NULL \<Rightarrow> ret (kDifUsbdevBadArg, cur_config)
      | Some usbdev \<Rightarrow> do {
          cur_config' \<leftarrow> (if cur_config \<noteq> NULL then do {
              v \<leftarrow> mmio_region_read32 (usbdev_base_addr usbdev) USBDEV_INTR_ENABLE_REG_OFFSET;
              ret (store cur_config v)
            } else ret cur_config);
          _ \<leftarrow> mmio_region_write32 (usbdev_base_addr usbdev) USBDEV_INTR_ENABLE_REG_OFFSET 0;
          ret (kDifUsbdevOK, cur_config')
        })"

definition dif_usbdev_irq_restore :: "dif_usbdev ptr \<Rightarrow> u32 \<Rightarrow> dif_usbdev_result io" where
  "dif_usbdev_irq_restore usbdev new_config =
     (case usbdev of NULL \<Rightarrow> ret kDifUsbdevBadArg
      | Some usbdev \<Rightarrow> do {
          _ \<leftarrow> mmio_region_write32 (usbdev_base_addr usbdev) USBDEV_INTR_ENABLE_REG_OFFSET new_config;
          ret kDifUsbdevOK
        })"

definition dif_usbdev_irq_test :: "dif_usbdev ptr \<Rightarrow> dif_usbdev_irq \<Rightarrow> dif_usbdev_result io" where
  "dif_usbdev_irq_test usbdev irq =
     (case usbdev of NULL \<Rightarrow> ret kDifUsbdevBadArg
      | Some usbdev \<Rightarrow>
        if \<not> is_valid_irq irq then ret kDifUsbdevBadArg
        else do {
          _ \<leftarrow> mmio_region_write_only_set_bit32 (usbdev_base_addr usbdev) USBDEV_INTR_TEST_REG_OFFSET (kIrqEnumToBitIndex irq);
          ret kDifUsbdevOK
        })"

section \<open>The pool as a stack of free ids\<close>

definition free_ids :: "dif_usbdev_buffer_pool \<Rightarrow> u8 list" where
  "free_ids p = rev (take (unat (pool_top p + 1)) (pool_buffers p))"

definition pool_ok :: "dif_usbdev_buffer_pool \<Rightarrow> bool" where
  "pool_ok p \<longleftrightarrow> length (pool_buffers p) = 32 \<and> unat (pool_top p + 1) \<le> 32 \<and> set (free_ids p) \<subseteq> {i. i < 32}"

definition buffer_pool_take :: "dif_usbdev_buffer_pool \<Rightarrow> bool \<times> dif_usbdev_buffer_pool \<times> u8 ptr" where
  "buffer_pool_take p = buffer_pool_remove p (Some 0)"

lemma small_sint:
  assumes "unat (t :: u8) < 32"
  shows "nat (sint t) = unat t"
proof -
  have "uint t = int (unat t)" by simp
  then have "uint t < 32" using assms by linarith
  moreover have "- 128 \<le> uint t" by (rule order_trans [of _ 0]) simp_all
  ultimately have "signed_take_bit 7 (uint t) = uint t" by (intro signed_take_bit_int_eq_self) simp_all
  then have "sint t = uint t" by (simp add: sint_uint)
  then show ?thesis by (simp add: nat_uint_eq)
qed

lemma unat_Suc_u8:
  assumes "(t :: u8) + 1 \<noteq> 0"
  shows "unat (t + 1) = Suc (unat t)"
proof -
  have eq: "unat (t + 1) = (unat t + 1) mod 256" by (simp add: unat_word_ariths)
  moreover have "unat (t + 1) \<noteq> 0" using assms by (metis unat_0 word_unat_eq_iff)
  ultimately have "unat t \<noteq> 255" by auto
  with eq unat_u8_bound [of t] show ?thesis by (simp del: unat_u8_bound)
qed

lemma top_index:
  assumes "unat (t + 1 :: u8) \<le> 32"
  shows "t = -1 \<or> (unat (t + 1) = Suc (unat t) \<and> unat t < 32)"
proof (cases "t + 1 = 0")
  case True
  then show ?thesis by (simp add: add_eq_0_iff2)
next
  case False
  then show ?thesis using unat_Suc_u8 [OF False] assms by simp
qed

lemma length_free_ids: "pool_ok p \<Longrightarrow> length (free_ids p) = unat (pool_top p + 1)"
  by (simp add: free_ids_def pool_ok_def)

lemma valid_ids_image: "{i :: u8. i < 32} = of_nat ` {..<32}"
proof (intro equalityI subsetI)
  fix i :: u8
  assume "i \<in> {i. i < 32}"
  then have "unat i < 32" by (simp add: word_less_nat_alt)
  then show "i \<in> of_nat ` {..<32}" by (intro image_eqI [of _ _ "unat i"]) simp_all
next
  fix i :: u8
  assume "i \<in> of_nat ` {..<32}"
  then obtain n where "i = of_nat n" "n < 32" by auto
  then show "i \<in> {i. i < 32}" by (simp add: word_less_nat_alt unsigned_of_nat take_bit_nat_eq_self)
qed

lemma card_valid_ids: "card {i :: u8. i < 32} = 32"
proof -
  have "inj_on (of_nat :: nat \<Rightarrow> u8) {..<32}"
    by (rule inj_onI) (simp add: word_of_nat_eq_iff take_bit_nat_eq_self)
  then show ?thesis unfolding valid_ids_image by (simp add: card_image)
qed

lemma pool_add_law:
  assumes "pool_ok p" "i < 32" "length (free_ids p) < 32"
  shows "fst (buffer_pool_add p i) \<and> pool_ok (snd (buffer_pool_add p i))
    \<and> free_ids (snd (buffer_pool_add p i)) = i # free_ids p"
proof -
  let ?n = "unat (pool_top p + 1)"
  have len: "length (pool_buffers p) = 32" and n: "?n < 32"
    using assms length_free_ids [OF assms(1)] by (simp_all add: pool_ok_def)
  have "pool_top p \<noteq> 31" using n by auto
  then have add: "buffer_pool_add p i = (True, p\<lparr>pool_top := pool_top p + 1, pool_buffers := (pool_buffers p)[?n := i]\<rparr>)"
    using assms(2) small_sint [OF n]
    by (simp add: buffer_pool_add_def buffer_pool_is_full_def buffer_pool_is_valid_buffer_id_def not_less)
  have "pool_top p + 1 + 1 \<noteq> 0"
  proof
    assume "pool_top p + 1 + 1 = 0"
    then have "pool_top p + 1 = -1" by (metis add_eq_0_iff2)
    then have "?n = unat (- 1 :: u8)" by (simp only:)
    then show False using n by (simp add: unsigned_minus_1_eq_mask mask_eq_exp_minus_1)
  qed
  then have "unat (pool_top p + 1 + 1) = Suc ?n" by (rule unat_Suc_u8)
  then show ?thesis
    using assms(1,2) len n by (simp add: add free_ids_def pool_ok_def take_Suc_conv_app_nth)
qed

lemma pool_rem_law:
  assumes "pool_ok p" "free_ids p = i # r"
  shows "fst (buffer_pool_take p) \<and> snd (snd (buffer_pool_take p)) = Some i
    \<and> pool_ok (fst (snd (buffer_pool_take p))) \<and> free_ids (fst (snd (buffer_pool_take p))) = r"
proof -
  have "unat (pool_top p + 1) \<noteq> 0" using length_free_ids [OF assms(1)] assms(2) by auto
  then have "pool_top p \<noteq> -1" by auto
  then have n: "unat (pool_top p + 1) = Suc (unat (pool_top p))" "unat (pool_top p) < 32"
    using top_index assms(1) by (auto simp: pool_ok_def)
  have split: "free_ids p = (pool_buffers p ! unat (pool_top p)) # rev (take (unat (pool_top p)) (pool_buffers p))"
    using assms(1) n by (simp add: free_ids_def pool_ok_def take_Suc_conv_app_nth)
  then show ?thesis
    using assms n \<open>pool_top p \<noteq> -1\<close>
    by (auto simp: buffer_pool_take_def buffer_pool_remove_def buffer_pool_is_empty_def free_ids_def pool_ok_def
        Let_def small_sint)
qed

interpretation usb_pool: free_pool pool_ok free_ids "{i. i < 32}" buffer_pool_add buffer_pool_take
  by unfold_locales (simp_all add: card_valid_ids pool_add_law pool_rem_law, simp add: pool_ok_def)

lemma pool_empty_iff: "pool_ok p \<Longrightarrow> buffer_pool_is_empty p \<longleftrightarrow> free_ids p = []"
  using top_index [of "pool_top p"] length_free_ids [of p]
  by (auto simp: buffer_pool_is_empty_def pool_ok_def)

lemma pool_add_all:
  assumes "pool_ok p" "length (free_ids p) + length is \<le> 32" "\<forall>i \<in> set is. i < 32"
  shows "fst (buffer_pool_add_all is p) \<and> pool_ok (snd (buffer_pool_add_all is p))
    \<and> free_ids (snd (buffer_pool_add_all is p)) = rev (map of_nat is) @ free_ids p"
  using assms
proof (induction "is" arbitrary: p)
  case Nil
  then show ?case by simp
next
  case (Cons i "is")
  have "(of_nat i :: u8) < 32" using Cons.prems(3) valid_ids_image by auto
  with Cons.prems have law: "fst (buffer_pool_add p (of_nat i))" "pool_ok (snd (buffer_pool_add p (of_nat i)))"
    "free_ids (snd (buffer_pool_add p (of_nat i))) = of_nat i # free_ids p"
    using pool_add_law [of p "of_nat i"] by simp_all
  with Cons.IH [of "snd (buffer_pool_add p (of_nat i))"] Cons.prems show ?case
    by (simp add: case_prod_unfold)
qed

lemma buffer_pool_init_full:
  assumes "length (pool_buffers p) = 32"
  shows "fst (buffer_pool_init p) \<and> pool_ok (snd (buffer_pool_init p))
    \<and> free_ids (snd (buffer_pool_init p)) = rev (map of_nat [0..<32])"
proof -
  let ?e = "p\<lparr>pool_top := -1\<rparr>"
  have "free_ids ?e = []" by (simp add: free_ids_def)
  moreover have "pool_ok ?e" using assms by (simp add: pool_ok_def free_ids_def)
  ultimately show ?thesis using pool_add_all [of ?e "[0..<32]"] by (simp add: buffer_pool_init_def Let_def)
qed

section \<open>The fill loop\<close>

abbreviation usb_addr :: "dif_usbdev \<Rightarrow> u32 \<Rightarrow> u32" where
  "usb_addr dev off \<equiv> mmio_addr32 (usbdev_base_addr dev) off"

lemma usb_addr_inject [simp]: "usb_addr dev a = usb_addr dev b \<longleftrightarrow> 4 * (a div 4) = 4 * (b div 4)"
  by (simp add: mmio_addr32_def)

lemma avbuffer_word: "i < 32 \<Longrightarrow> bitfield_field32_write 0 USBDEV_AVBUFFER_BUFFER_FIELD (ucast (i :: u8)) = ucast i"
proof -
  assume "i < 32"
  then have "take_bit 5 (unat i) = unat i" by (intro take_bit_nat_eq_self) (simp add: word_less_nat_alt)
  then have "(ucast i :: u32) AND 0x1f = ucast i"
    using take_bit_eq_mask [of 5 "ucast i :: u32"]
    by (simp add: word_unat_eq_iff unsigned_take_bit_eq mask_eq_exp_minus_1 flip: take_bit_eq_mask)
  then show ?thesis by (simp add: bitfield_field32_write_def)
qed

text \<open>
  On any device the loop moves ids from the top of the pool to the FIFO until the device reports
  it full or the pool is empty.
\<close>

lemma run_usbdev_fill_loop:
  assumes "pool_ok (buffer_pool dev)" "run_state (usbdev_fill_loop dev) w = ((r, dev'), w')"
  shows "r = kDifUsbdevOK \<and> pool_ok (buffer_pool dev') \<and> dev' = dev\<lparr>buffer_pool := buffer_pool dev'\<rparr>
    \<and> (\<exists>ids. free_ids (buffer_pool dev) = ids @ free_ids (buffer_pool dev')
        \<and> writes_to (usb_addr dev 0x14) (trace w') = writes_to (usb_addr dev 0x14) (trace w) @ map ucast ids)
    \<and> (\<forall>a. a \<noteq> usb_addr dev 0x14 \<longrightarrow> writes_to a (trace w') = writes_to a (trace w))
    \<and> (free_ids (buffer_pool dev') \<noteq> [] \<longrightarrow> (\<exists>v h. trace w' = Rd32 (usb_addr dev 0x10) v # h \<and> bit v 23))"
  using assms
proof (induction "length (free_ids (buffer_pool dev))" arbitrary: dev w)
  case 0
  then have "buffer_pool_is_empty (buffer_pool dev)" by (simp add: pool_empty_iff)
  with 0 show ?case by (subst (asm) usbdev_fill_loop.simps) (auto simp: io_simps)
next
  case (Suc n)
  then obtain i rest where ids: "free_ids (buffer_pool dev) = i # rest" by (cases "free_ids (buffer_pool dev)") auto
  then have ne: "\<not> buffer_pool_is_empty (buffer_pool dev)" using Suc.prems by (simp add: pool_empty_iff)
  define v where "v = cur32 w (usb_addr dev 0x10)"
  show ?case
  proof (cases "bit v 23")
    case True
    with Suc.prems ids show ?thesis
      by (subst (asm) usbdev_fill_loop.simps) (auto simp: io_simps v_def)
  next
    case False
    define pool where "pool = fst (snd (buffer_pool_take (buffer_pool dev)))"
    from pool_rem_law [OF Suc.prems(1) ids]
    have take: "buffer_pool_remove (buffer_pool dev) (Some 0) = (True, pool, Some i)"
      and pool: "pool_ok pool" "free_ids pool = rest"
      by (auto simp: pool_def buffer_pool_take_def prod_eq_iff)
    have i: "i < 32" using Suc.prems(1) ids by (auto simp: pool_ok_def)
    let ?dev = "dev\<lparr>buffer_pool := pool\<rparr>"
    let ?w = "log (Wr32 (usb_addr dev 0x14) (ucast i)) (log (Rd32 (usb_addr dev 0x10) v) w)"
    have run: "run_state (usbdev_fill_loop ?dev) ?w = ((r, dev'), w')"
      using Suc.prems(2) False ne
      by (subst (asm) usbdev_fill_loop.simps) (simp add: io_simps v_def take avbuffer_word [OF i])
    have n: "n = length (free_ids (buffer_pool ?dev))" using Suc.hyps(2) ids pool by simp
    from Suc.hyps(1) [OF n _ run] pool(1)
    have IH: "r = kDifUsbdevOK" "pool_ok (buffer_pool dev')" "dev' = dev\<lparr>buffer_pool := buffer_pool dev'\<rparr>"
      "\<exists>is. rest = is @ free_ids (buffer_pool dev')
        \<and> writes_to (usb_addr dev 0x14) (trace w') = writes_to (usb_addr dev 0x14) (trace ?w) @ map ucast is"
      "\<forall>a. a \<noteq> usb_addr dev 0x14 \<longrightarrow> writes_to a (trace w') = writes_to a (trace ?w)"
      "free_ids (buffer_pool dev') \<noteq> [] \<longrightarrow> (\<exists>v h. trace w' = Rd32 (usb_addr dev 0x10) v # h \<and> bit v 23)"
      using pool(2) by auto
    from IH(4) obtain "is" where "rest = is @ free_ids (buffer_pool dev')"
      "writes_to (usb_addr dev 0x14) (trace w') = writes_to (usb_addr dev 0x14) (trace w) @ map ucast (i # is)"
      by auto
    then have "\<exists>js. free_ids (buffer_pool dev) = js @ free_ids (buffer_pool dev')
        \<and> writes_to (usb_addr dev 0x14) (trace w') = writes_to (usb_addr dev 0x14) (trace w) @ map ucast js"
      using ids by (intro exI [of _ "i # is"]) simp
    then show ?thesis using IH by auto
  qed
qed

section \<open>Properties\<close>

lemma bit_set_phy_bit:
  "unat b < 32 \<Longrightarrow> bit (usbdev_set_phy_bit c b v) n \<longleftrightarrow> (if n = unat b \<and> c then True else bit v n)"
  by (auto simp: usbdev_set_phy_bit_def bit_field32_write)

text \<open>
  Initialising the USB device. A configuration with an out-of-range enumeration value is refused without a bus access.
  A valid one leaves the pool holding all 32 buffer ids exactly once and takes
  one bus access, a write to PHY_CONFIG whose bits are exactly the configured ones: the power-sense value is overridden only when
  the override is enabled, and the reference is disabled when the clock synchronisation signals are.
\<close>

lemma dif_usbdev_init_correct:
  assumes "length (pool_buffers (buffer_pool dev)) = 32"
    and "run_state (dif_usbdev_init (Some c) (Some dev)) w = ((r, dev'), w')"
  shows "if is_valid_toggle (differential_rx c) \<and> is_valid_toggle (differential_tx c)
      \<and> is_valid_toggle (single_bit_eop c) \<and> is_valid_power_sense_override (power_sense_override c)
      \<and> is_valid_toggle (pin_flip c) \<and> is_valid_toggle (clock_sync_signals c)
    then r = kDifUsbdevOK \<and> (\<exists>d v. dev' = Some d \<and> usbdev_base_addr d = cfg_base_addr c
        \<and> pool_ok (buffer_pool d) \<and> free_ids (buffer_pool d) = rev (map of_nat [0..<32])
        \<and> trace w' = Wr32 (usb_addr d USBDEV_PHY_CONFIG_REG_OFFSET) v # trace w
        \<and> (bit v 0 \<longleftrightarrow> differential_rx c = kDifUsbdevToggleEnable)
        \<and> (bit v 1 \<longleftrightarrow> differential_tx c = kDifUsbdevToggleEnable)
        \<and> (bit v 2 \<longleftrightarrow> single_bit_eop c = kDifUsbdevToggleEnable)
        \<and> (bit v 3 \<longleftrightarrow> power_sense_override c \<noteq> kDifUsbdevPowerSenseOverrideDisabled)
        \<and> (bit v 4 \<longleftrightarrow> power_sense_override c = kDifUsbdevPowerSenseOverridePresent)
        \<and> (bit v 5 \<longleftrightarrow> pin_flip c = kDifUsbdevToggleEnable)
        \<and> (bit v 6 \<longleftrightarrow> clock_sync_signals c = kDifUsbdevToggleDisable))
    else r = kDifUsbdevBadArg \<and> dev' = Some dev \<and> w' = w"
proof -
  let ?valid = "is_valid_toggle (differential_rx c) \<and> is_valid_toggle (differential_tx c)
      \<and> is_valid_toggle (single_bit_eop c) \<and> is_valid_power_sense_override (power_sense_override c)
      \<and> is_valid_toggle (pin_flip c) \<and> is_valid_toggle (clock_sync_signals c)"
  from buffer_pool_init_full [OF assms(1)] obtain pool where
    pool: "buffer_pool_init (buffer_pool dev) = (True, pool)" "pool_ok pool" "free_ids pool = rev (map of_nat [0..<32])"
    by (metis prod.collapse)
  show ?thesis
  proof (cases ?valid)
    case True
    then have ps: "power_sense_override c = kDifUsbdevPowerSenseOverrideDisabled \<or>
        power_sense_override c = kDifUsbdevPowerSenseOverridePresent
        \<or> power_sense_override c = kDifUsbdevPowerSenseOverrideNotPresent"
      by (simp add: is_valid_power_sense_override_def)
    show ?thesis
      using True assms(2) ps pool(2,3)
      by (auto simp: dif_usbdev_init_def pool(1) Let_def io_simps bit_set_phy_bit)
  next
    case False
    then show ?thesis using assms(2) by (auto simp: dif_usbdev_init_def split: if_splits)
  qed
qed

abbreviation usbdev0 :: dif_usbdev where
  "usbdev0 \<equiv> \<lparr>usbdev_base_addr = \<lparr>mmio_base = 0\<rparr>, buffer_pool = \<lparr>pool_buffers = replicate 32 0, pool_top = 5\<rparr>\<rparr>"

abbreviation usb_config0 :: dif_usbdev_config where
  "usb_config0 \<equiv> \<lparr>cfg_base_addr = \<lparr>mmio_base = 0x40110000\<rparr>, differential_rx = kDifUsbdevToggleEnable,
     differential_tx = kDifUsbdevToggleDisable, single_bit_eop = kDifUsbdevToggleDisable,
     power_sense_override = kDifUsbdevPowerSenseOverridePresent, pin_flip = kDifUsbdevToggleDisable,
     clock_sync_signals = kDifUsbdevToggleEnable\<rparr>"

lemma dif_usbdev_init_correct_witness:
  "\<exists>d w'. run_state (dif_usbdev_init (Some usb_config0) (Some usbdev0)) (plain_world (\<lambda>_. 0)) = ((kDifUsbdevOK, Some d), w')
     \<and> free_ids (buffer_pool d) = rev (map of_nat [0..<32])"
proof -
  obtain r d w' where run: "run_state (dif_usbdev_init (Some usb_config0) (Some usbdev0)) (plain_world (\<lambda>_. 0)) = ((r, d), w')"
    by (metis prod.collapse)
  have "length (pool_buffers (buffer_pool usbdev0)) = 32" by simp
  from dif_usbdev_init_correct [OF this run] show ?thesis
    unfolding run by (auto simp: is_valid_toggle_def is_valid_power_sense_override_def)
qed


abbreviation usb_pool0 :: dif_usbdev_buffer_pool where
  "usb_pool0 \<equiv> \<lparr>pool_buffers = 4 # 9 # replicate 30 0, pool_top = 1\<rparr>"


text \<open>
  Filling the available-buffer FIFO, on any device: the operation always returns \<open>kDifUsbdevOK\<close>; the ids it writes to
  AVBUFFER are exactly those it took from the pool, in the order of the stack; it writes nothing else; and it stops only when the
  pool is empty or right after a status read that showed the FIFO full.
\<close>

lemma dif_usbdev_fill_available_fifo_correct:
  assumes "pool_ok (buffer_pool dev)"
    and "run_state (dif_usbdev_fill_available_fifo (Some dev)) w = ((r, dev'), w')"
  shows "r = kDifUsbdevOK \<and> (\<exists>d ids. dev' = Some d \<and> pool_ok (buffer_pool d)
    \<and> free_ids (buffer_pool dev) = ids @ free_ids (buffer_pool d)
    \<and> writes_to (usb_addr dev USBDEV_AVBUFFER_REG_OFFSET) (trace w') =
        writes_to (usb_addr dev USBDEV_AVBUFFER_REG_OFFSET) (trace w) @ map ucast ids
    \<and> (\<forall>a. a \<noteq> usb_addr dev USBDEV_AVBUFFER_REG_OFFSET \<longrightarrow> writes_to a (trace w') = writes_to a (trace w))
    \<and> (free_ids (buffer_pool d) \<noteq> [] \<longrightarrow>
        (\<exists>v h. trace w' = Rd32 (usb_addr dev USBDEV_USBSTAT_REG_OFFSET) v # h \<and> bit v 23)))"
proof -
  obtain d where run: "run_state (usbdev_fill_loop dev) w = ((r, d), w')" and d: "dev' = Some d"
    using assms(2) by (auto simp: dif_usbdev_fill_available_fifo_def split: prod.splits)
  show ?thesis using run_usbdev_fill_loop [OF assms(1) run] d by blast
qed

lemma dif_usbdev_fill_available_fifo_correct_witness:
  "\<exists>d w'. run_state (dif_usbdev_fill_available_fifo (Some (usbdev0\<lparr>buffer_pool := usb_pool0\<rparr>))) (plain_world (\<lambda>_. 0)) =
     ((kDifUsbdevOK, Some d), w') \<and> writes_to 0x14 (trace w') @ map ucast (free_ids (buffer_pool d)) = [9, 4]"
proof -
  let ?dev = "usbdev0\<lparr>buffer_pool := usb_pool0\<rparr>"
  obtain r d w' where run: "run_state (dif_usbdev_fill_available_fifo (Some ?dev)) (plain_world (\<lambda>_. 0)) = ((r, d), w')"
    by (metis prod.collapse)
  have f: "free_ids usb_pool0 = [9, 4]" by (simp add: free_ids_def)
  then have "pool_ok (buffer_pool ?dev)" by (simp add: pool_ok_def)
  from dif_usbdev_fill_available_fifo_correct [OF this run] obtain d' ids where
    *: "r = kDifUsbdevOK" "d = Some d'" "[9, 4] = ids @ free_ids (buffer_pool d')"
    "writes_to 0x14 (trace w') = map ucast ids"
    using f by (auto simp: mmio_addr32_def plain_world_def)
  have "map ucast ids @ map ucast (free_ids (buffer_pool d')) = (map ucast [9, 4 :: u8] :: u32 list)"
    by (simp only: map_append [symmetric] *(3) [symmetric])
  then show ?thesis unfolding run using *(1,2,4) by simp
qed

section \<open>Packet buffers\<close>

text \<open>The first byte, as a natural address, of what is left of a buffer.\<close>

definition slot_start :: "dif_usbdev \<Rightarrow> dif_usbdev_buffer \<Rightarrow> nat" where
  "slot_start dev b = unat (mmio_base (usbdev_base_addr dev)) + 0x800 + 64 * unat (buffer_id b) + unat (buffer_offset b)"

definition buffer_ok :: "dif_usbdev_buffer \<Rightarrow> bool" where
  "buffer_ok b \<longleftrightarrow> buffer_id b < 32 \<and> unat (buffer_offset b) + unat (remaining_bytes b) \<le> 64"

lemma get_buffer_addr_unat:
  "unat (get_buffer_addr i (ucast (off :: u8))) = 0x800 + 64 * unat i + unat off"
proof -
  have "unat i < 256" "unat off < 256" by simp_all
  then show ?thesis
    by (simp add: get_buffer_addr_def unat_word_ariths mult.commute del: unat_u8_bound)
qed

lemma buffer_advance:
  assumes "unat (off :: u8) + unat (rem :: u8) \<le> 64" "k \<le> unat rem"
  shows "unat (off + of_nat k) = unat off + k" "unat (rem - of_nat k) = unat rem - k"
proof -
  have "of_nat k \<le> rem" using assms unat_u8_bound [of rem]
    by (simp add: word_le_nat_alt unsigned_of_nat take_bit_nat_eq_self del: unat_u8_bound)
  then show "unat (rem - of_nat k) = unat rem - k"
    using assms by (simp add: unat_sub unsigned_of_nat take_bit_nat_eq_self)
  show "unat (off + of_nat k) = unat off + k"
    using assms by (simp add: unat_word_ariths unsigned_of_nat take_bit_nat_eq_self)
qed

lemma nat_of_u8_zero: "(x :: u8) = 0 \<longleftrightarrow> unat x = 0"
  by (simp add: word_unat_eq_iff)

text \<open>
  Writing a packet buffer over plain buffer memory. The driver copies as much as fits into the rest of the buffer, reports the count and
  \<open>Full\<close> exactly when something was left over, advances the buffer by the count, and changes no
  byte of device memory but those \<open>k\<close> bytes, all inside the 64-byte slot of this buffer id.
\<close>

lemma dif_usbdev_buffer_write_correct:
  assumes "plain init w" "4 dvd unat (mmio_base (usbdev_base_addr dev))"
    and "unat (mmio_base (usbdev_base_addr dev)) + 0x1000 \<le> 4294967296"
    and "buffer_ok b" "buffer_type b = kDifUsbdevBufferTypeWrite"
    and "run_state (dif_usbdev_buffer_write (Some dev) (Some b) (Some src) (length src) (Some n0)) w = ((r, b', n), w')"
  shows "let k = min (unat (remaining_bytes b)) (length src) in
    n = Some k \<and> r = (if unat (remaining_bytes b) < length src then kDifUsbdevBufferWriteResultFull else kDifUsbdevBufferWriteResultOK)
    \<and> (\<exists>c. b' = Some c \<and> buffer_ok c \<and> buffer_id c = buffer_id b \<and> buffer_type c = buffer_type b
        \<and> unat (buffer_offset c) = unat (buffer_offset b) + k \<and> unat (remaining_bytes c) = unat (remaining_bytes b) - k)
    \<and> slot_start dev b + k \<le> unat (mmio_base (usbdev_base_addr dev)) + 0x800 + 64 * unat (buffer_id b) + 64
    \<and> (\<forall>m < 4294967296. mem_byte (cur32 w') m =
        (if slot_start dev b \<le> m \<and> m < slot_start dev b + k then src ! (m - slot_start dev b) else mem_byte (cur32 w) m))"
proof -
  define k where "k = min (unat (remaining_bytes b)) (length src)"
  have ok: "unat (buffer_offset b) + unat (remaining_bytes b) \<le> 64" and id: "unat (buffer_id b) < 32"
    using assms(4) by (simp_all add: buffer_ok_def word_less_nat_alt)
  have k: "k \<le> unat (remaining_bytes b)" "k \<le> length src" by (simp_all add: k_def)
  note adv = buffer_advance [OF ok k(1)]
  define off where "off = get_buffer_addr (buffer_id b) (ucast (buffer_offset b))"
  have off: "unat (mmio_base (usbdev_base_addr dev)) + unat off = slot_start dev b"
    by (simp add: off_def get_buffer_addr_unat slot_start_def)
  have bound: "unat (mmio_base (usbdev_base_addr dev)) + unat off + k \<le> 4294967296"
    using assms(3) ok id k(1) unfolding off slot_start_def by linarith
  have kk: "(if length src < unat (remaining_bytes b) then length src else unat (remaining_bytes b)) = k"
    by (auto simp: k_def)
  define c where "c = b\<lparr>buffer_offset := buffer_offset b + of_nat k, remaining_bytes := remaining_bytes b - of_nat k\<rparr>"
  have "run_state (dif_usbdev_buffer_write (Some dev) (Some b) (Some src) (length src) (Some n0)) w =
      ((if remaining_bytes c = 0 \<and> k < length src then kDifUsbdevBufferWriteResultFull else kDifUsbdevBufferWriteResultOK,
        Some c, Some k), snd (run_state (mmio_region_memcpy32 (usbdev_base_addr dev) off src k False) w))"
    unfolding dif_usbdev_buffer_write_def prod.case option.case Let_def kk off_def [symmetric]
    by (simp add: assms(5) mmio_region_memcpy_to_mmio32_def c_def case_prod_unfold)
  then have run: "w' = snd (run_state (mmio_region_memcpy32 (usbdev_base_addr dev) off src k False) w)"
    "n = Some k" "b' = Some c"
    "r = (if remaining_bytes c = 0 \<and> k < length src then kDifUsbdevBufferWriteResultFull else kDifUsbdevBufferWriteResultOK)"
    using assms(6) by simp_all
  have "same_bytes (mem_byte (cur32 w')) (upd_bytes (mem_byte (cur32 w)) (slot_start dev b) (take k src))"
    using memcpy32_to_mmio [OF assms(1,2) bound k(2)] run(1) off by simp
  moreover have "length (take k src) = k" using k(2) by simp
  moreover have "r = (if unat (remaining_bytes b) < length src then kDifUsbdevBufferWriteResultFull else kDifUsbdevBufferWriteResultOK)"
    unfolding run(4) using adv(2) by (auto simp: c_def nat_of_u8_zero k_def)
  moreover have "buffer_ok c" using assms(4) adv ok k(1) by (simp add: buffer_ok_def c_def)
  moreover have "slot_start dev b + k \<le> unat (mmio_base (usbdev_base_addr dev)) + 0x800 + 64 * unat (buffer_id b) + 64"
    using ok k(1) by (simp add: slot_start_def)
  ultimately show ?thesis
    using run(2,3) adv unfolding k_def [symmetric] Let_def
    by (auto simp: c_def same_bytes_def upd_bytes_def)
qed

lemma dif_usbdev_buffer_write_correct_witness:
  "\<exists>r b' n w'. run_state (dif_usbdev_buffer_write (Some (usbdev0\<lparr>usbdev_base_addr := \<lparr>mmio_base = 0x40110000\<rparr>\<rparr>))
      (Some \<lparr>buffer_id = 3, buffer_offset = 61, remaining_bytes = 3, buffer_type = kDifUsbdevBufferTypeWrite\<rparr>)
      (Some [1, 2, 3, 4, 5]) (length [1, 2, 3, 4, 5 :: u8]) (Some 0)) (plain_world (\<lambda>_. 0)) = ((r, b', n), w')
    \<and> r = kDifUsbdevBufferWriteResultFull \<and> n = Some 3 \<and> mem_byte (cur32 w') 0x401108ff = 3
    \<and> mem_byte (cur32 w') 0x40110900 = 0"
proof -
  let ?dev = "usbdev0\<lparr>usbdev_base_addr := \<lparr>mmio_base = 0x40110000\<rparr>\<rparr>"
  let ?b = "\<lparr>buffer_id = 3, buffer_offset = 61, remaining_bytes = 3, buffer_type = kDifUsbdevBufferTypeWrite\<rparr>"
  obtain r b' n w' where run: "run_state (dif_usbdev_buffer_write (Some ?dev) (Some ?b) (Some [1, 2, 3, 4, 5])
      (length [1, 2, 3, 4, 5 :: u8]) (Some 0)) (plain_world (\<lambda>_. 0)) = ((r, b', n), w')"
    by (metis prod.collapse)
  have h: "4 dvd unat (mmio_base (usbdev_base_addr ?dev))" "unat (mmio_base (usbdev_base_addr ?dev)) + 0x1000 \<le> 4294967296"
    "buffer_ok ?b" "buffer_type ?b = kDifUsbdevBufferTypeWrite"
    by (simp_all add: buffer_ok_def)
  note t = dif_usbdev_buffer_write_correct [OF plain_plain_world h run]
  then have "r = kDifUsbdevBufferWriteResultFull" "n = Some 3" by (simp_all add: Let_def)
  moreover have "slot_start ?dev ?b = 0x401108fd" by (simp add: slot_start_def)
  then have "mem_byte (cur32 w') m = (if 0x401108fd \<le> m \<and> m < 0x401108fd + 3 then [1, 2, 3, 4, 5] ! (m - 0x401108fd)
      else mem_byte (cur32 (plain_world (\<lambda>_. 0))) m)" if "m < 4294967296" for m
    using t that unfolding Let_def by simp
  note mem = this
  have "mem_byte (cur32 w') 0x401108ff = 3" "mem_byte (cur32 w') 0x40110900 = 0"
    by (subst mem, simp, simp)+ (simp add: mem_byte_def byte_of_def)
  ultimately show ?thesis unfolding run by blast
qed

section \<open>Endpoints\<close>

lemma endpoint_hw_info:
  assumes "e < 12"
  shows "kEndpointHwInfos ! unat e = \<lparr>config_in_reg_offset = 0x2c + 4 * ucast e, hw_bit_index = e\<rparr>"
proof -
  have "unat e < 12" using assms by (simp add: word_less_nat_alt)
  moreover have "(of_nat (unat e) :: u32) = ucast e" by (simp add: word_unat_eq_iff unsigned_of_nat unsigned_ucast_eq)
  ultimately show ?thesis by (simp add: kEndpointHwInfos_def)
qed

lemma configin_addr: "usb_addr dev (0x2c + 4 * ucast (e :: u8)) = reg_addr (usbdev_base_addr dev) (11 + unat e)"
proof (rule mmio_addr32_reg_addr)
  have "(of_nat (unat e) :: u32) = ucast e" by (simp add: word_unat_eq_iff unsigned_of_nat unsigned_ucast_eq)
  then show "0x2c + 4 * ucast e = (of_nat (4 * (11 + unat e)) :: u32)" by simp
qed

text \<open>
  The endpoint-enable operations never disable: on plain registers, for a valid endpoint and either request, \<open>kDifUsbdevToggleDisable\<close>
  included, the endpoint's bit of the register is set and all other bits and registers are kept, because the
  helper tests the enumerator instead of its argument.
\<close>

lemma endpoint_enable_ignores_request:
  assumes "plain init w" "endpoint < 12" "is_valid_toggle st"
    and "op \<in> {(dif_usbdev_endpoint_setup_enable, USBDEV_RXENABLE_SETUP_REG_OFFSET),
      (dif_usbdev_endpoint_out_enable, USBDEV_RXENABLE_OUT_REG_OFFSET),
      (dif_usbdev_endpoint_stall_enable, USBDEV_STALL_REG_OFFSET),
      (dif_usbdev_endpoint_iso_enable, USBDEV_ISO_REG_OFFSET)}"
  shows "let (r, w') = run_state (fst op (Some dev) endpoint st) w; a = usb_addr dev (snd op) in
    r = kDifUsbdevOK \<and> cur32 w' = (cur32 w)(a := bitfield_bit32_write (cur32 w a) (ucast endpoint) True)"
proof -
  have "is_valid_endpoint endpoint" using assms(2) by (simp add: is_valid_endpoint_def)
  then show ?thesis
    using assms(1,3,4) endpoint_hw_info [OF assms(2)]
    by (auto simp: dif_usbdev_endpoint_setup_enable_def dif_usbdev_endpoint_out_enable_def
        dif_usbdev_endpoint_stall_enable_def dif_usbdev_endpoint_iso_enable_def
        endpoint_functionality_enable_def io_simps)
qed

lemma endpoint_enable_ignores_request_witness:
  "cur32 (snd (run_state (dif_usbdev_endpoint_stall_enable (Some usbdev0) 5 kDifUsbdevToggleDisable) (plain_world (\<lambda>_. 0)))) 0x28 = 0x20"
proof -
  have h: "(5 :: u8) < 12" "is_valid_toggle kDifUsbdevToggleDisable" by (simp_all add: is_valid_toggle_def)
  have "cur32 (snd (run_state (dif_usbdev_endpoint_stall_enable (Some usbdev0) 5 kDifUsbdevToggleDisable) (plain_world (\<lambda>_. 0)))) =
      (cur32 (plain_world (\<lambda>_. 0)))(0x28 := bitfield_bit32_write 0 5 True)"
    using endpoint_enable_ignores_request [OF plain_plain_world h,
        of "(dif_usbdev_endpoint_stall_enable, USBDEV_STALL_REG_OFFSET)" usbdev0]
    by (simp add: Let_def case_prod_unfold mmio_addr32_def)
  then show ?thesis
    by (simp add: bitfield_bit32_write_def bitfield_bit32_to_field32_def bitfield_field32_write_def)
qed

text \<open>
  Sending a packet. For a valid endpoint over plain registers, \<open>dif_usbdev_send\<close> puts the buffer id, the number of bytes
  written so far and the ready bit into the endpoint's CONFIGIN register, keeps every other register and marks the buffer stale so
  that it cannot be sent or written again; the transmit status is then \<open>Pending\<close> and the pool is unchanged.
\<close>

lemma dif_usbdev_send_correct:
  assumes "plain init w" "endpoint < 12" "buffer_ok b" "buffer_type b = kDifUsbdevBufferTypeWrite"
    and "run_state (dif_usbdev_send (Some dev) endpoint (Some b)) w = ((r, b'), w')"
  shows "r = kDifUsbdevOK \<and> b' = Some (b\<lparr>buffer_type := kDifUsbdevBufferTypeStale\<rparr>)
    \<and> (\<exists>v. cur32 w' = (cur32 w)(usb_addr dev (USBDEV_CONFIGIN_0_REG_OFFSET + 4 * ucast endpoint) := v)
        \<and> bitfield_field32_read v USBDEV_CONFIGIN_0_BUFFER_0_FIELD = ucast (buffer_id b)
        \<and> bitfield_field32_read v USBDEV_CONFIGIN_0_SIZE_0_FIELD = ucast (buffer_offset b)
        \<and> bit v 31)
    \<and> fst (run_state (dif_usbdev_get_tx_status (Some dev) endpoint (Some s)) w') =
        (kDifUsbdevOK, Some dev, Some kDifUsbdevTxStatusPending)
    \<and> fst (run_state (dif_usbdev_send (Some dev) endpoint b') w') = (kDifUsbdevBadArg, b')"
proof -
  let ?a = "usb_addr dev (0x2c + 4 * ucast endpoint)"
  have ep: "is_valid_endpoint endpoint" using assms(2) by (simp add: is_valid_endpoint_def)
  have id: "unat (buffer_id b) < 32" and off: "unat (buffer_offset b) \<le> 64"
    using assms(3) by (auto simp: buffer_ok_def word_less_nat_alt)
  define v where "v = bitfield_bit32_write (bitfield_field32_write (bitfield_field32_write (cur32 w ?a)
      USBDEV_CONFIGIN_0_BUFFER_0_FIELD (ucast (buffer_id b))) USBDEV_CONFIGIN_0_SIZE_0_FIELD (ucast (buffer_offset b))) 31 True"
  have r: "r = kDifUsbdevOK" "b' = Some (b\<lparr>buffer_type := kDifUsbdevBufferTypeStale\<rparr>)"
    and w': "plain init w'" "cur32 w' = (cur32 w)(?a := v)"
    using assms(1,4,5) ep endpoint_hw_info [OF assms(2)]
    by (auto simp: dif_usbdev_send_def io_simps Let_def v_def)
  have "bitfield_field32_read v USBDEV_CONFIGIN_0_BUFFER_0_FIELD = ucast (buffer_id b) AND 0x1f"
    "bitfield_field32_read v USBDEV_CONFIGIN_0_SIZE_0_FIELD = ucast (buffer_offset b) AND 0x7f"
    by (simp_all add: v_def field32_read_bit_write field32_read_write_other field32_read_write_same field_ok_def field_bits_def)
  moreover have "(ucast (buffer_id b) :: u32) AND 0x1f = ucast (buffer_id b)"
    using id take_bit_eq_mask [of 5 "ucast (buffer_id b) :: u32"]
    by (simp add: word_unat_eq_iff unsigned_take_bit_eq mask_eq_exp_minus_1 take_bit_nat_eq_self flip: take_bit_eq_mask)
  moreover have "(ucast (buffer_offset b) :: u32) AND 0x7f = ucast (buffer_offset b)"
    using off take_bit_eq_mask [of 7 "ucast (buffer_offset b) :: u32"]
    by (simp add: word_unat_eq_iff unsigned_take_bit_eq mask_eq_exp_minus_1 take_bit_nat_eq_self flip: take_bit_eq_mask)
  moreover have bit31: "bit v 31" by (simp add: v_def bit_bit32_write)
  moreover have "bitfield_field32_read v \<lparr>field_mask = 1, field_index = 31\<rparr> \<noteq> 0"
    using bit31 bit_field32_read [of v "\<lparr>field_mask = 1, field_index = 31\<rparr>" 0] by auto
  then have "fst (run_state (dif_usbdev_get_tx_status (Some dev) endpoint (Some s)) w') =
      (kDifUsbdevOK, Some dev, Some kDifUsbdevTxStatusPending)"
    using ep endpoint_hw_info [OF assms(2)] by (simp add: dif_usbdev_get_tx_status_def io_simps Let_def w'(2))
  ultimately show ?thesis
    using r w'(2) by (auto simp: dif_usbdev_send_def)
qed

lemma dif_usbdev_send_correct_witness:
  "fst (run_state (dif_usbdev_send (Some usbdev0) 11
     (Some \<lparr>buffer_id = 3, buffer_offset = 64, remaining_bytes = 0, buffer_type = kDifUsbdevBufferTypeWrite\<rparr>)) (plain_world (\<lambda>_. 0))) =
   (kDifUsbdevOK, Some \<lparr>buffer_id = 3, buffer_offset = 64, remaining_bytes = 0, buffer_type = kDifUsbdevBufferTypeStale\<rparr>)"
proof -
  let ?b = "\<lparr>buffer_id = 3, buffer_offset = 64, remaining_bytes = 0, buffer_type = kDifUsbdevBufferTypeWrite\<rparr>"
  obtain r b' w' where run: "run_state (dif_usbdev_send (Some usbdev0) 11 (Some ?b)) (plain_world (\<lambda>_. 0)) = ((r, b'), w')"
    by (metis prod.collapse)
  have h: "(11 :: u8) < 12" "buffer_ok ?b" "buffer_type ?b = kDifUsbdevBufferTypeWrite" by (simp_all add: buffer_ok_def)
  from dif_usbdev_send_correct [OF plain_plain_world h run] show ?thesis unfolding run by simp
qed

section \<open>Interrupts\<close>

abbreviation usb_irq_bit :: "dif_usbdev_irq \<Rightarrow> nat option" where
  "usb_irq_bit irq \<equiv> (if is_valid_irq irq then Some (usbdev_irq_code irq) else None)"

lemma usbdev_irq_index: "is_valid_irq i \<Longrightarrow> usbdev_irq_code i < 16 \<and> unat (kIrqEnumToBitIndex i) = usbdev_irq_code i"
  by (auto simp: is_valid_irq_def less_eq_dif_usbdev_irq_def kIrqEnumToBitIndex_def unsigned_of_nat take_bit_nat_eq_self)

text \<open>The driver has no operation that reads one enable bit: the snapshot of \<open>irq_disable_all\<close> shows it.\<close>

interpretation usb_irqs: irq_block usb_irq_bit "usb_addr dev USBDEV_INTR_ENABLE_REG_OFFSET"
    "\<lambda>i b w. snd (run_state (dif_usbdev_irq_enable (Some dev) i
       (if b then kDifUsbdevToggleEnable else kDifUsbdevToggleDisable)) w)"
    "\<lambda>i w. bit (the (snd (fst (run_state (dif_usbdev_irq_disable_all (Some dev) (Some 0)) w)))) (usbdev_irq_code i)"
    "\<lambda>w. case run_state (dif_usbdev_irq_disable_all (Some dev) (Some 0)) w of ((_, s), w') \<Rightarrow> (the s, w')"
    "\<lambda>s w. snd (run_state (dif_usbdev_irq_restore (Some dev) s) w)"
  for dev
  by unfold_locales
    (auto simp: dif_usbdev_irq_enable_def dif_usbdev_irq_disable_all_def dif_usbdev_irq_restore_def is_valid_toggle_def
      io_simps kIrqEnumToBitIndex_def dest: usbdev_irq_code_inject usbdev_irq_index split: if_splits)

text \<open>
  The interrupt-enable operations of the USB driver implement the set of enabled interrupts, for each of the 16 valid interrupts:
  enabling inserts, disabling removes, disabling all empties the set and restoring the snapshot brings it back. A value outside the
  enumeration is refused without a bus access.
\<close>

lemma dif_usbdev_irq_enable_set:
  assumes "plain init w" "usb_irq_bit i = Some n"
    and E: "E = enabled_irqs usb_irq_bit (usb_addr dev USBDEV_INTR_ENABLE_REG_OFFSET)"
    and "run_state (dif_usbdev_irq_disable_all (Some dev) (Some 0)) w = ((r, Some snapshot), w0)"
  shows "E (snd (run_state (dif_usbdev_irq_enable (Some dev) i kDifUsbdevToggleEnable) w)) = insert i (E w)
    \<and> E (snd (run_state (dif_usbdev_irq_enable (Some dev) i kDifUsbdevToggleDisable) w)) = E w - {i}
    \<and> E w0 = {} \<and> E (snd (run_state (dif_usbdev_irq_restore (Some dev) snapshot) w0)) = E w
    \<and> run_state (dif_usbdev_irq_enable (Some dev) (dif_usbdev_irq_other k) st) w = (kDifUsbdevBadArg, w)"
proof -
  have w0: "plain init w0" using usb_irqs.disable_law [OF assms(1), of dev] assms(4) by simp
  have "run_state (dif_usbdev_irq_enable (Some dev) (dif_usbdev_irq_other k) st) w = (kDifUsbdevBadArg, w)"
    by (simp add: dif_usbdev_irq_enable_def is_valid_irq_def less_eq_dif_usbdev_irq_def)
  then show ?thesis
    using usb_irqs.set_en_enabled [OF assms(1,2), of dev True] usb_irqs.set_en_enabled [OF assms(1,2), of dev False]
      usb_irqs.disable_enabled [OF assms(1), of dev] usb_irqs.restore_enabled [OF assms(1) w0, of dev] assms(4)
    by (simp add: E)
qed

lemma dif_usbdev_irq_enable_set_witness:
  "enabled_irqs usb_irq_bit 4
     (snd (run_state (dif_usbdev_irq_enable (Some usbdev0) kDifUsbdevIrqConnected kDifUsbdevToggleEnable) (plain_world (\<lambda>_. 0))))
   = {kDifUsbdevIrqConnected}"
proof -
  let ?w = "plain_world (\<lambda>_. 0)"
  obtain w0 where run: "run_state (dif_usbdev_irq_disable_all (Some usbdev0) (Some 0)) ?w = ((kDifUsbdevOK, Some 0), w0)"
    by (simp add: dif_usbdev_irq_disable_all_def io_simps)
  have "usb_irq_bit kDifUsbdevIrqConnected = Some 15" by (simp add: is_valid_irq_def less_eq_dif_usbdev_irq_def)
  from dif_usbdev_irq_enable_set [OF plain_plain_world this refl run]
  have "enabled_irqs usb_irq_bit (usb_addr usbdev0 USBDEV_INTR_ENABLE_REG_OFFSET)
     (snd (run_state (dif_usbdev_irq_enable (Some usbdev0) kDifUsbdevIrqConnected kDifUsbdevToggleEnable) ?w)) =
     insert kDifUsbdevIrqConnected (enabled_irqs usb_irq_bit (usb_addr usbdev0 USBDEV_INTR_ENABLE_REG_OFFSET) ?w)" by blast
  then show ?thesis by (simp add: mmio_addr32_def) (simp add: enabled_irqs_def)
qed

end
