(* ===== verification/Ring.thy ===== *)
theory Ring
  imports Prelude
begin

text \<open>
  Circular storage: the sequence of \<open>n\<close> elements from index \<open>r\<close> on in a ring of \<open>L\<close>
  cells, and what overwriting a run of cells does to it.
\<close>

definition ring_slice :: "(nat \<Rightarrow> 'a) \<Rightarrow> nat \<Rightarrow> nat \<Rightarrow> nat \<Rightarrow> 'a list" where
  "ring_slice m L r n = map (\<lambda>i. m ((r + i) mod L)) [0..<n]"

lemma length_ring_slice [simp]: "length (ring_slice m L r n) = n"
  by (simp add: ring_slice_def)

lemma nth_ring_slice [simp]: "i < n \<Longrightarrow> ring_slice m L r n ! i = m ((r + i) mod L)"
  by (simp add: ring_slice_def)

lemma ring_slice_0 [simp]: "ring_slice m L r 0 = []"
  by (simp add: ring_slice_def)

lemma ring_slice_mod [simp]: "ring_slice m L (r mod L) n = ring_slice m L r n"
  by (simp add: ring_slice_def mod_add_left_eq)

lemma ring_slice_add: "ring_slice m L r (a + b) = ring_slice m L r a @ ring_slice m L (r + a) b"
  by (rule nth_equalityI) (auto simp: nth_append)

lemma take_ring_slice: "k \<le> n \<Longrightarrow> take k (ring_slice m L r n) = ring_slice m L r k"
  using ring_slice_add [of m L r k "n - k"] by simp

lemma drop_ring_slice: "k \<le> n \<Longrightarrow> drop k (ring_slice m L r n) = ring_slice m L (r + k) (n - k)"
  using ring_slice_add [of m L r k "n - k"] by simp

lemma ring_slice_linear: "r + n \<le> L \<Longrightarrow> ring_slice m L r n = map m [r..<r + n]"
  by (rule nth_equalityI) auto

lemma ring_slice_cong:
  "(\<And>i. i < n \<Longrightarrow> m ((r + i) mod L) = m' ((r + i) mod L)) \<Longrightarrow> ring_slice m L r n = ring_slice m' L r n"
  by (simp add: ring_slice_def)

lemma mod_add_less: "(x :: nat) < L \<Longrightarrow> y \<le> L \<Longrightarrow> (x + y) mod L = (if x + y < L then x + y else x + y - L)"
  by (simp add: mod_if)

lemma ring_index_inj:
  assumes "0 < L" "i < L" "j < L" "(r + i) mod L = (r + j) mod (L :: nat)"
  shows "i = j"
proof -
  have "r mod L < L" using assms(1) by simp
  moreover have "(r mod L + i) mod L = (r mod L + j) mod L" using assms(4) by (simp add: mod_add_left_eq)
  ultimately show ?thesis using assms(2,3) by (auto simp: mod_add_less split: if_splits)
qed

text \<open>\<open>m'\<close> is \<open>m\<close> with the cells from \<open>r\<close> on overwritten by \<open>xs\<close>.\<close>

definition ring_written :: "(nat \<Rightarrow> 'a) \<Rightarrow> (nat \<Rightarrow> 'a) \<Rightarrow> nat \<Rightarrow> nat \<Rightarrow> 'a list \<Rightarrow> bool" where
  "ring_written m m' L r xs \<longleftrightarrow> ring_slice m' L r (length xs) = xs
     \<and> (\<forall>i. length xs \<le> i \<and> i < L \<longrightarrow> m' ((r + i) mod L) = m ((r + i) mod L))"

lemma ring_written_Nil: "(\<And>i. i < L \<Longrightarrow> m' i = m i) \<Longrightarrow> 0 < L \<Longrightarrow> ring_written m m' L r []"
  by (simp add: ring_written_def)

text \<open>Appending after a run keeps the run and extends it.\<close>

lemma ring_written_append:
  assumes "0 < L" "n + length xs \<le> L" "ring_written m m' L (r + n) xs"
  shows "ring_slice m' L r (n + length xs) = ring_slice m L r n @ xs"
proof -
  have "m' ((r + i) mod L) = m ((r + i) mod L)" if "i < n" for i
  proof -
    have "(r + n + (i + L - n)) mod L = (r + i + L) mod L" using that assms(2) by (simp add: ac_simps)
    also have "\<dots> = (r + i) mod L" by simp
    finally have idx: "(r + n + (i + L - n)) mod L = (r + i) mod L" .
    have "length xs \<le> i + L - n" "i + L - n < L" using that assms(1,2) by linarith+
    then show ?thesis using assms(3) idx unfolding ring_written_def by metis
  qed
  then have "ring_slice m' L r n = ring_slice m L r n" by (rule ring_slice_cong)
  moreover have "ring_slice m' L (r + n) (length xs) = xs" using assms(3) by (simp add: ring_written_def)
  ultimately show ?thesis by (simp add: ring_slice_add)
qed

text \<open>Two runs written one after the other.\<close>

lemma ring_written_trans:
  assumes "0 < L" "length xs + length ys \<le> L"
    and "ring_written m m1 L r xs" "ring_written m1 m2 L (r + length xs) ys"
  shows "ring_written m m2 L r (xs @ ys)"
proof -
  have slice: "ring_slice m2 L r (length xs + length ys) = xs @ ys"
    using ring_written_append [OF assms(1,2,4)] assms(3) by (simp add: ring_written_def)
  have "m2 ((r + i) mod L) = m ((r + i) mod L)" if "length xs + length ys \<le> i" "i < L" for i
  proof -
    have "m2 ((r + length xs + (i - length xs)) mod L) = m1 ((r + length xs + (i - length xs)) mod L)"
      using that assms(4) unfolding ring_written_def by (metis diff_le_mono diff_add_inverse less_imp_diff_less)
    then have "m2 ((r + i) mod L) = m1 ((r + i) mod L)" using that by simp
    then show ?thesis using that assms(3) unfolding ring_written_def by (metis add_leD1)
  qed
  with slice show ?thesis by (simp add: ring_written_def)
qed

end
