(* ===== verification/DifSpiDevice.thy ===== *)
theory DifSpiDevice
  imports IrqBlock MmioCopy Ring
begin

text \<open>
  The SPI device driver (\<open>sw/device/lib/dif/dif_spi_device.c\<close>): configuration, interrupts and
  the two ring-buffer FIFOs in the device's SRAM. Register offsets and fields are those of
  \<open>hw/ip/spi_device/data/spi_device.hjson\<close>; the SRAM window has 4096 bytes.
\<close>

section \<open>Registers\<close>

abbreviation SPI_DEVICE_INTR_STATE_REG_OFFSET :: u32 where "SPI_DEVICE_INTR_STATE_REG_OFFSET \<equiv> 0x0"
abbreviation SPI_DEVICE_INTR_ENABLE_REG_OFFSET :: u32 where "SPI_DEVICE_INTR_ENABLE_REG_OFFSET \<equiv> 0x4"
abbreviation SPI_DEVICE_INTR_TEST_REG_OFFSET :: u32 where "SPI_DEVICE_INTR_TEST_REG_OFFSET \<equiv> 0x8"
abbreviation SPI_DEVICE_CONTROL_REG_OFFSET :: u32 where "SPI_DEVICE_CONTROL_REG_OFFSET \<equiv> 0xc"
abbreviation SPI_DEVICE_CFG_REG_OFFSET :: u32 where "SPI_DEVICE_CFG_REG_OFFSET \<equiv> 0x10"
abbreviation SPI_DEVICE_FIFO_LEVEL_REG_OFFSET :: u32 where "SPI_DEVICE_FIFO_LEVEL_REG_OFFSET \<equiv> 0x14"
abbreviation SPI_DEVICE_STATUS_REG_OFFSET :: u32 where "SPI_DEVICE_STATUS_REG_OFFSET \<equiv> 0x1c"
abbreviation SPI_DEVICE_RXF_PTR_REG_OFFSET :: u32 where "SPI_DEVICE_RXF_PTR_REG_OFFSET \<equiv> 0x20"
abbreviation SPI_DEVICE_TXF_PTR_REG_OFFSET :: u32 where "SPI_DEVICE_TXF_PTR_REG_OFFSET \<equiv> 0x24"
abbreviation SPI_DEVICE_RXF_ADDR_REG_OFFSET :: u32 where "SPI_DEVICE_RXF_ADDR_REG_OFFSET \<equiv> 0x28"
abbreviation SPI_DEVICE_TXF_ADDR_REG_OFFSET :: u32 where "SPI_DEVICE_TXF_ADDR_REG_OFFSET \<equiv> 0x2c"
abbreviation SPI_DEVICE_BUFFER_REG_OFFSET :: u32 where "SPI_DEVICE_BUFFER_REG_OFFSET \<equiv> 0x1000"
abbreviation SPI_DEVICE_CONTROL_ABORT_BIT :: u32 where "SPI_DEVICE_CONTROL_ABORT_BIT \<equiv> 0"
abbreviation SPI_DEVICE_STATUS_ABORT_DONE_BIT :: u32 where "SPI_DEVICE_STATUS_ABORT_DONE_BIT \<equiv> 4"
abbreviation SPI_DEVICE_CFG_CPOL_BIT :: u32 where "SPI_DEVICE_CFG_CPOL_BIT \<equiv> 0"
abbreviation SPI_DEVICE_CFG_CPHA_BIT :: u32 where "SPI_DEVICE_CFG_CPHA_BIT \<equiv> 1"
abbreviation SPI_DEVICE_CFG_TX_ORDER_BIT :: u32 where "SPI_DEVICE_CFG_TX_ORDER_BIT \<equiv> 2"
abbreviation SPI_DEVICE_CFG_RX_ORDER_BIT :: u32 where "SPI_DEVICE_CFG_RX_ORDER_BIT \<equiv> 3"
abbreviation SPI_DEVICE_CFG_TIMER_V_FIELD :: bitfield_field32 where
  "SPI_DEVICE_CFG_TIMER_V_FIELD \<equiv> \<lparr>field_mask = 0xff, field_index = 8\<rparr>"
abbreviation SPI_DEVICE_FIFO_LEVEL_RXLVL_FIELD :: bitfield_field32 where
  "SPI_DEVICE_FIFO_LEVEL_RXLVL_FIELD \<equiv> \<lparr>field_mask = 0xffff, field_index = 0\<rparr>"
abbreviation SPI_DEVICE_FIFO_LEVEL_TXLVL_FIELD :: bitfield_field32 where
  "SPI_DEVICE_FIFO_LEVEL_TXLVL_FIELD \<equiv> \<lparr>field_mask = 0xffff, field_index = 16\<rparr>"
abbreviation SPI_DEVICE_RXF_ADDR_BASE_FIELD :: bitfield_field32 where
  "SPI_DEVICE_RXF_ADDR_BASE_FIELD \<equiv> \<lparr>field_mask = 0xffff, field_index = 0\<rparr>"
abbreviation SPI_DEVICE_RXF_ADDR_LIMIT_FIELD :: bitfield_field32 where
  "SPI_DEVICE_RXF_ADDR_LIMIT_FIELD \<equiv> \<lparr>field_mask = 0xffff, field_index = 16\<rparr>"
abbreviation SPI_DEVICE_TXF_ADDR_BASE_FIELD :: bitfield_field32 where
  "SPI_DEVICE_TXF_ADDR_BASE_FIELD \<equiv> \<lparr>field_mask = 0xffff, field_index = 0\<rparr>"
abbreviation SPI_DEVICE_TXF_ADDR_LIMIT_FIELD :: bitfield_field32 where
  "SPI_DEVICE_TXF_ADDR_LIMIT_FIELD \<equiv> \<lparr>field_mask = 0xffff, field_index = 16\<rparr>"
abbreviation kDifSpiDeviceBufferLen :: u16 where "kDifSpiDeviceBufferLen \<equiv> 4096"

section \<open>Types\<close>

datatype dif_spi_device_edge =
  kDifSpiDeviceEdgePositive | kDifSpiDeviceEdgeNegative | dif_spi_device_edge_other nat

datatype dif_spi_device_bit_order =
  kDifSpiDeviceBitOrderMsbToLsb | kDifSpiDeviceBitOrderLsbToMsb | dif_spi_device_bit_order_other nat

datatype dif_spi_device_toggle =
  kDifSpiDeviceToggleEnabled | kDifSpiDeviceToggleDisabled | dif_spi_device_toggle_other nat

record dif_spi_device_params =
  spi_base_addr :: mmio_region

record dif_spi_device_config =
  clock_polarity :: dif_spi_device_edge
  data_phase :: dif_spi_device_edge
  tx_order :: dif_spi_device_bit_order
  rx_order :: dif_spi_device_bit_order
  rx_fifo_timeout :: u8
  cfg_rx_fifo_len :: u16
  cfg_tx_fifo_len :: u16

record dif_spi_device =
  spi_params :: dif_spi_device_params
  rx_fifo_len :: u16
  tx_fifo_len :: u16

datatype dif_spi_device_result = kDifSpiDeviceOk | kDifSpiDeviceError | kDifSpiDeviceBadArg

datatype dif_spi_device_irq =
  kDifSpiDeviceIrqRxFull | kDifSpiDeviceIrqRxAboveLevel | kDifSpiDeviceIrqTxBelowLevel
| kDifSpiDeviceIrqRxError | kDifSpiDeviceIrqRxOverflow | kDifSpiDeviceIrqTxUnderflow
| dif_spi_device_irq_other nat

abbreviation spi_base :: "dif_spi_device \<Rightarrow> mmio_region" where
  "spi_base spi \<equiv> spi_base_addr (spi_params spi)"

section \<open>Configuration\<close>

definition dif_spi_device_init ::
  "dif_spi_device_params \<Rightarrow> dif_spi_device ptr \<Rightarrow> dif_spi_device_result \<times> dif_spi_device ptr" where
  "dif_spi_device_init params spi =
     (case spi of NULL \<Rightarrow> (kDifSpiDeviceBadArg, NULL)
      | Some _ \<Rightarrow> (kDifSpiDeviceOk, store spi \<lparr>spi_params = params, rx_fifo_len = 0, tx_fifo_len = 0\<rparr>))"

definition build_control_word :: "dif_spi_device_config \<Rightarrow> u32" where
  "build_control_word config =
     (let val = 0;
          val = bitfield_bit32_write val SPI_DEVICE_CFG_CPOL_BIT (clock_polarity config = kDifSpiDeviceEdgeNegative);
          val = bitfield_bit32_write val SPI_DEVICE_CFG_CPHA_BIT (data_phase config = kDifSpiDeviceEdgePositive);
          val = bitfield_bit32_write val SPI_DEVICE_CFG_TX_ORDER_BIT (tx_order config = kDifSpiDeviceBitOrderLsbToMsb);
          val = bitfield_bit32_write val SPI_DEVICE_CFG_RX_ORDER_BIT (rx_order config = kDifSpiDeviceBitOrderLsbToMsb);
          val = bitfield_field32_write val SPI_DEVICE_CFG_TIMER_V_FIELD (ucast (rx_fifo_timeout config))
      in val)"

definition dif_spi_device_configure ::
  "dif_spi_device ptr \<Rightarrow> dif_spi_device_config \<Rightarrow> (dif_spi_device_result \<times> dif_spi_device ptr) io" where
  "dif_spi_device_configure spi config =
     (case spi of NULL \<Rightarrow> ret (kDifSpiDeviceBadArg, NULL)
      | Some s \<Rightarrow>
        (let device_config = build_control_word config;
             rx_fifo_start = (0 :: u16);
             rx_fifo_end = cfg_rx_fifo_len config - 1;
             tx_fifo_start = rx_fifo_end + 1;
             tx_fifo_end = tx_fifo_start + cfg_tx_fifo_len config - 1
         in if tx_fifo_end \<ge> kDifSpiDeviceBufferLen then ret (kDifSpiDeviceBadArg, spi)
         else do {
           let rx_fifo_bounds = 0;
           let rx_fifo_bounds = bitfield_field32_write rx_fifo_bounds SPI_DEVICE_RXF_ADDR_BASE_FIELD (ucast rx_fifo_start);
           let rx_fifo_bounds = bitfield_field32_write rx_fifo_bounds SPI_DEVICE_RXF_ADDR_LIMIT_FIELD (ucast rx_fifo_end);
           let tx_fifo_bounds = 0;
           let tx_fifo_bounds = bitfield_field32_write tx_fifo_bounds SPI_DEVICE_TXF_ADDR_BASE_FIELD (ucast tx_fifo_start);
           let tx_fifo_bounds = bitfield_field32_write tx_fifo_bounds SPI_DEVICE_TXF_ADDR_LIMIT_FIELD (ucast tx_fifo_end);
           let s = s\<lparr>rx_fifo_len := cfg_rx_fifo_len config, tx_fifo_len := cfg_tx_fifo_len config\<rparr>;
           _ \<leftarrow> mmio_region_write32 (spi_base s) SPI_DEVICE_CFG_REG_OFFSET device_config;
           _ \<leftarrow> mmio_region_write32 (spi_base s) SPI_DEVICE_RXF_ADDR_REG_OFFSET rx_fifo_bounds;
           _ \<leftarrow> mmio_region_write32 (spi_base s) SPI_DEVICE_TXF_ADDR_REG_OFFSET tx_fifo_bounds;
           ret (kDifSpiDeviceOk, Some s)
         }))"

text \<open>\<open>None\<close>: the device never reports that the abort is done.\<close>

definition dif_spi_device_abort ::
  "dif_spi_device ptr \<Rightarrow> world \<Rightarrow> (dif_spi_device_result \<times> world) option" where
  "dif_spi_device_abort spi w =
     (case spi of NULL \<Rightarrow> Some (kDifSpiDeviceBadArg, w)
      | Some spi \<Rightarrow> do {
          let (_, w1) = run_state (do {
            reg \<leftarrow> mmio_region_read32 (spi_base spi) SPI_DEVICE_CONTROL_REG_OFFSET;
            let reg = bitfield_bit32_write reg SPI_DEVICE_CONTROL_ABORT_BIT True;
            mmio_region_write32 (spi_base spi) SPI_DEVICE_CONTROL_REG_OFFSET reg
          }) w;
          w2 \<leftarrow> spin_while (do {
            reg \<leftarrow> mmio_region_read32 (spi_base spi) SPI_DEVICE_STATUS_REG_OFFSET;
            ret (\<not> bitfield_bit32_read reg SPI_DEVICE_STATUS_ABORT_DONE_BIT)
          }) w1;
          Some (kDifSpiDeviceOk, w2)
        })"

section \<open>Interrupts\<close>

fun irq_index :: "dif_spi_device_irq \<Rightarrow> u32 option" where
  "irq_index kDifSpiDeviceIrqRxFull = Some 0"
| "irq_index kDifSpiDeviceIrqRxAboveLevel = Some 1"
| "irq_index kDifSpiDeviceIrqTxBelowLevel = Some 2"
| "irq_index kDifSpiDeviceIrqRxError = Some 3"
| "irq_index kDifSpiDeviceIrqRxOverflow = Some 4"
| "irq_index kDifSpiDeviceIrqTxUnderflow = Some 5"
| "irq_index (dif_spi_device_irq_other _) = None"

definition dif_spi_device_irq_is_pending ::
  "dif_spi_device ptr \<Rightarrow> dif_spi_device_irq \<Rightarrow> bool ptr \<Rightarrow> (dif_spi_device_result \<times> bool ptr) io" where
  "dif_spi_device_irq_is_pending spi irq is_pending =
     (case (spi, is_pending) of
        (Some spi, Some _) \<Rightarrow>
          (case irq_index irq of None \<Rightarrow> ret (kDifSpiDeviceBadArg, is_pending)
           | Some index \<Rightarrow> do {
               reg \<leftarrow> mmio_region_read32 (spi_base spi) SPI_DEVICE_INTR_STATE_REG_OFFSET;
               ret (kDifSpiDeviceOk, store is_pending (bitfield_bit32_read reg index))
             })
      | _ \<Rightarrow> ret (kDifSpiDeviceBadArg, is_pending))"

definition dif_spi_device_irq_acknowledge ::
  "dif_spi_device ptr \<Rightarrow> dif_spi_device_irq \<Rightarrow> dif_spi_device_result io" where
  "dif_spi_device_irq_acknowledge spi irq =
     (case spi of NULL \<Rightarrow> ret kDifSpiDeviceBadArg
      | Some spi \<Rightarrow>
        (case irq_index irq of None \<Rightarrow> ret kDifSpiDeviceBadArg
         | Some index \<Rightarrow> do {
             let reg = bitfield_bit32_write 0 index True;
             _ \<leftarrow> mmio_region_write32 (spi_base spi) SPI_DEVICE_INTR_STATE_REG_OFFSET reg;
             ret kDifSpiDeviceOk
           }))"

definition dif_spi_device_irq_get_enabled ::
  "dif_spi_device ptr \<Rightarrow> dif_spi_device_irq \<Rightarrow> dif_spi_device_toggle ptr
     \<Rightarrow> (dif_spi_device_result \<times> dif_spi_device_toggle ptr) io" where
  "dif_spi_device_irq_get_enabled spi irq st =
     (case (spi, st) of
        (Some spi, Some _) \<Rightarrow>
          (case irq_index irq of None \<Rightarrow> ret (kDifSpiDeviceBadArg, st)
           | Some index \<Rightarrow> do {
               reg \<leftarrow> mmio_region_read32 (spi_base spi) SPI_DEVICE_INTR_ENABLE_REG_OFFSET;
               ret (kDifSpiDeviceOk, store st
                 (if bitfield_bit32_read reg index then kDifSpiDeviceToggleEnabled else kDifSpiDeviceToggleDisabled))
             })
      | _ \<Rightarrow> ret (kDifSpiDeviceBadArg, st))"

fun spi_toggle_flag :: "dif_spi_device_toggle \<Rightarrow> bool option" where
  "spi_toggle_flag kDifSpiDeviceToggleEnabled = Some True"
| "spi_toggle_flag kDifSpiDeviceToggleDisabled = Some False"
| "spi_toggle_flag (dif_spi_device_toggle_other _) = None"

definition dif_spi_device_irq_set_enabled ::
  "dif_spi_device ptr \<Rightarrow> dif_spi_device_irq \<Rightarrow> dif_spi_device_toggle \<Rightarrow> dif_spi_device_result io" where
  "dif_spi_device_irq_set_enabled spi irq st =
     (case spi of NULL \<Rightarrow> ret kDifSpiDeviceBadArg
      | Some spi \<Rightarrow>
        (case irq_index irq of None \<Rightarrow> ret kDifSpiDeviceBadArg
         | Some index \<Rightarrow>
           (case spi_toggle_flag st of None \<Rightarrow> ret kDifSpiDeviceBadArg
            | Some flag \<Rightarrow> do {
                reg \<leftarrow> mmio_region_read32 (spi_base spi) SPI_DEVICE_INTR_ENABLE_REG_OFFSET;
                let reg = bitfield_bit32_write reg index flag;
                _ \<leftarrow> mmio_region_write32 (spi_base spi) SPI_DEVICE_INTR_ENABLE_REG_OFFSET reg;
                ret kDifSpiDeviceOk
              })))"

definition dif_spi_device_irq_force ::
  "dif_spi_device ptr \<Rightarrow> dif_spi_device_irq \<Rightarrow> dif_spi_device_result io" where
  "dif_spi_device_irq_force spi irq =
     (case spi of NULL \<Rightarrow> ret kDifSpiDeviceBadArg
      | Some spi \<Rightarrow>
        (case irq_index irq of None \<Rightarrow> ret kDifSpiDeviceBadArg
         | Some index \<Rightarrow> do {
             let reg = bitfield_bit32_write 0 index True;
             _ \<leftarrow> mmio_region_write32 (spi_base spi) SPI_DEVICE_INTR_TEST_REG_OFFSET reg;
             ret kDifSpiDeviceOk
           }))"

definition dif_spi_device_irq_disable_all ::
  "dif_spi_device ptr \<Rightarrow> u32 ptr \<Rightarrow> (dif_spi_device_result \<times> u32 ptr) io" where
  "dif_spi_device_irq_disable_all spi snapshot =
     (case spi of NULL \<Rightarrow> ret (kDifSpiDeviceBadArg, snapshot)
      | Some spi \<Rightarrow> do {
          snapshot' \<leftarrow> (if snapshot \<noteq> NULL then do {
              v \<leftarrow> mmio_region_read32 (spi_base spi) SPI_DEVICE_INTR_ENABLE_REG_OFFSET;
              ret (store snapshot v)
            } else ret snapshot);
          _ \<leftarrow> mmio_region_write32 (spi_base spi) SPI_DEVICE_INTR_ENABLE_REG_OFFSET 0;
          ret (kDifSpiDeviceOk, snapshot')
        })"

definition dif_spi_device_irq_restore_all :: "dif_spi_device ptr \<Rightarrow> u32 ptr \<Rightarrow> dif_spi_device_result io" where
  "dif_spi_device_irq_restore_all spi snapshot =
     (case (spi, snapshot) of
        (Some spi, Some snapshot) \<Rightarrow> do {
          _ \<leftarrow> mmio_region_write32 (spi_base spi) SPI_DEVICE_INTR_ENABLE_REG_OFFSET snapshot;
          ret kDifSpiDeviceOk
        }
      | _ \<Rightarrow> ret kDifSpiDeviceBadArg)"

definition dif_spi_device_set_irq_levels :: "dif_spi_device ptr \<Rightarrow> u16 \<Rightarrow> u16 \<Rightarrow> dif_spi_device_result io" where
  "dif_spi_device_set_irq_levels spi rx_level tx_level =
     (case spi of NULL \<Rightarrow> ret kDifSpiDeviceBadArg
      | Some spi \<Rightarrow> do {
          let compressed_limit = 0;
          let compressed_limit = bitfield_field32_write compressed_limit SPI_DEVICE_FIFO_LEVEL_RXLVL_FIELD (ucast rx_level);
          let compressed_limit = bitfield_field32_write compressed_limit SPI_DEVICE_FIFO_LEVEL_TXLVL_FIELD (ucast tx_level);
          _ \<leftarrow> mmio_region_write32 (spi_base spi) SPI_DEVICE_FIFO_LEVEL_REG_OFFSET compressed_limit;
          ret kDifSpiDeviceOk
        })"

section \<open>FIFO pointers\<close>

record fifo_ptr_params =
  ptr_reg_offset :: u32
  write_offset :: u32
  read_offset :: u32
  write_mask :: u32
  read_mask :: u32

definition kTxFifoParams :: fifo_ptr_params where
  "kTxFifoParams = \<lparr>ptr_reg_offset = SPI_DEVICE_TXF_PTR_REG_OFFSET, write_offset = 16, read_offset = 0,
     write_mask = 0xffff, read_mask = 0xffff\<rparr>"

definition kRxFifoParams :: fifo_ptr_params where
  "kRxFifoParams = \<lparr>ptr_reg_offset = SPI_DEVICE_RXF_PTR_REG_OFFSET, write_offset = 16, read_offset = 0,
     write_mask = 0xffff, read_mask = 0xffff\<rparr>"

record fifo_ptr =
  ptr_offset :: u16
  phase :: bool

abbreviation kFifoPhaseMask :: u16 where "kFifoPhaseMask \<equiv> 0x1000"
abbreviation kFifoOffsetMask :: u16 where "kFifoOffsetMask \<equiv> 0xfff"

definition fifo_ptr_increment :: "fifo_ptr \<Rightarrow> u16 \<Rightarrow> u16 \<Rightarrow> fifo_ptr" where
  "fifo_ptr_increment ptr increment fifo_len =
     (let inc_with_overflow = (ucast (ptr_offset ptr) + ucast increment :: u32);
          (inc_with_overflow, ptr) =
            (if inc_with_overflow \<ge> ucast fifo_len
             then (inc_with_overflow - ucast fifo_len, ptr\<lparr>phase := \<not> phase ptr\<rparr>)
             else (inc_with_overflow, ptr))
      in ptr\<lparr>ptr_offset := ucast (inc_with_overflow AND ucast kFifoOffsetMask)\<rparr>)"

record fifo_ptrs =
  write_ptr :: fifo_ptr
  read_ptr :: fifo_ptr

definition decompress_ptrs :: "dif_spi_device \<Rightarrow> fifo_ptr_params \<Rightarrow> fifo_ptrs io" where
  "decompress_ptrs spi params = do {
     ptr \<leftarrow> mmio_region_read32 (spi_base spi) (ptr_reg_offset params);
     let write_val = (ucast (drop_bit (unat (write_offset params)) ptr AND write_mask params) :: u16);
     let read_val = (ucast (drop_bit (unat (read_offset params)) ptr AND read_mask params) :: u16);
     ret \<lparr>
       write_ptr = \<lparr>ptr_offset = write_val AND kFifoOffsetMask, phase = (write_val AND kFifoPhaseMask \<noteq> 0)\<rparr>,
       read_ptr = \<lparr>ptr_offset = read_val AND kFifoOffsetMask, phase = (read_val AND kFifoPhaseMask \<noteq> 0)\<rparr>\<rparr>
   }"

definition compress_ptrs :: "dif_spi_device \<Rightarrow> fifo_ptr_params \<Rightarrow> fifo_ptrs \<Rightarrow> unit io" where
  "compress_ptrs spi params ptrs = do {
     let write_val = ptr_offset (write_ptr ptrs);
     let write_val = (if phase (write_ptr ptrs) then write_val OR kFifoPhaseMask else write_val);
     let read_val = ptr_offset (read_ptr ptrs);
     let read_val = (if phase (read_ptr ptrs) then read_val OR kFifoPhaseMask else read_val);
     let ptr = 0;
     let ptr = bitfield_field32_write ptr \<lparr>field_mask = write_mask params, field_index = write_offset params\<rparr> (ucast write_val);
     let ptr = bitfield_field32_write ptr \<lparr>field_mask = read_mask params, field_index = read_offset params\<rparr> (ucast read_val);
     mmio_region_write32 (spi_base spi) (ptr_reg_offset params) ptr
   }"

definition fifo_bytes_in_use :: "fifo_ptrs \<Rightarrow> u16 \<Rightarrow> u16" where
  "fifo_bytes_in_use ptrs fifo_len =
     (if phase (write_ptr ptrs) = phase (read_ptr ptrs)
      then ptr_offset (write_ptr ptrs) - ptr_offset (read_ptr ptrs)
      else fifo_len - (ptr_offset (read_ptr ptrs) - ptr_offset (write_ptr ptrs)))"

definition dif_spi_device_rx_pending :: "dif_spi_device ptr \<Rightarrow> nat ptr \<Rightarrow> (dif_spi_device_result \<times> nat ptr) io" where
  "dif_spi_device_rx_pending spi bytes_pending =
     (case (spi, bytes_pending) of
        (Some spi, Some _) \<Rightarrow> do {
          ptrs \<leftarrow> decompress_ptrs spi kRxFifoParams;
          ret (kDifSpiDeviceOk, store bytes_pending (unat (fifo_bytes_in_use ptrs (rx_fifo_len spi))))
        }
      | _ \<Rightarrow> ret (kDifSpiDeviceBadArg, bytes_pending))"

definition dif_spi_device_tx_pending :: "dif_spi_device ptr \<Rightarrow> nat ptr \<Rightarrow> (dif_spi_device_result \<times> nat ptr) io" where
  "dif_spi_device_tx_pending spi bytes_pending =
     (case (spi, bytes_pending) of
        (Some spi, Some _) \<Rightarrow> do {
          ptrs \<leftarrow> decompress_ptrs spi kTxFifoParams;
          ret (kDifSpiDeviceOk, store bytes_pending (unat (fifo_bytes_in_use ptrs (tx_fifo_len spi))))
        }
      | _ \<Rightarrow> ret (kDifSpiDeviceBadArg, bytes_pending))"

section \<open>Copying through the ring buffer\<close>

text \<open>
  The chunk loop of \<open>spi_memcpy\<close>. It does not end when \<open>fifo_len\<close> and the pointer's offset
  are both zero (a device that was not configured), so its value is optional.
\<close>

partial_function (option) spi_copy_loop ::
  "dif_spi_device \<Rightarrow> u16 \<Rightarrow> u16 \<Rightarrow> bool \<Rightarrow> fifo_ptr \<Rightarrow> u16 \<Rightarrow> u8 list \<Rightarrow> world \<Rightarrow> (fifo_ptr \<times> u8 list \<times> world) option" where
  "spi_copy_loop spi fifo_base fifo_len is_recv ptr bytes_left byte_buf w =
     (if bytes_left > 0 then
        (let mmio_offset = SPI_DEVICE_BUFFER_REG_OFFSET + ucast fifo_base + ucast (ptr_offset ptr);
             bytes_until_wrap = (ucast fifo_len - ucast (ptr_offset ptr) :: u32);
             bytes_to_copy = (if ucast bytes_left > bytes_until_wrap then ucast bytes_until_wrap else bytes_left);
             (byte_buf, w) =
               (if is_recv
                then run_state (mmio_region_memcpy_from_mmio32 (spi_base spi) mmio_offset byte_buf (unat bytes_to_copy)) w
                else (byte_buf,
                  snd (run_state (mmio_region_memcpy_to_mmio32 (spi_base spi) mmio_offset byte_buf (unat bytes_to_copy)) w)));
             ptr = fifo_ptr_increment ptr bytes_to_copy fifo_len
         in do {
           (ptr, rest, w) \<leftarrow> spi_copy_loop spi fifo_base fifo_len is_recv ptr (bytes_left - bytes_to_copy)
             (drop (unat bytes_to_copy) byte_buf) w;
           Some (ptr, take (unat bytes_to_copy) byte_buf @ rest, w)
         })
      else Some (ptr, byte_buf, w))"

definition spi_memcpy ::
  "dif_spi_device \<Rightarrow> fifo_ptrs \<Rightarrow> u16 \<Rightarrow> u16 \<Rightarrow> u8 list \<Rightarrow> nat \<Rightarrow> bool \<Rightarrow> world
     \<Rightarrow> (nat \<times> fifo_ptrs \<times> u8 list \<times> world) option" where
  "spi_memcpy spi fifo fifo_base fifo_len byte_buf buf_len is_recv w =
     (let bytes_left = fifo_bytes_in_use fifo fifo_len;
          bytes_left = (if \<not> is_recv then fifo_len - bytes_left else bytes_left);
          bytes_left = (if unat bytes_left > buf_len then of_nat buf_len else bytes_left)
      in if bytes_left = 0 then Some (0, fifo, byte_buf, w)
         else
           (let total_bytes = bytes_left;
                ptr = (if is_recv then read_ptr fifo else write_ptr fifo)
            in case spi_copy_loop spi fifo_base fifo_len is_recv ptr bytes_left byte_buf w of
                 None \<Rightarrow> None
               | Some (ptr, byte_buf, w) \<Rightarrow>
                   Some (unat total_bytes, if is_recv then fifo\<lparr>read_ptr := ptr\<rparr> else fifo\<lparr>write_ptr := ptr\<rparr>, byte_buf, w)))"

definition dif_spi_device_recv ::
  "dif_spi_device ptr \<Rightarrow> u8 list ptr \<Rightarrow> nat \<Rightarrow> nat ptr \<Rightarrow> world
     \<Rightarrow> (dif_spi_device_result \<times> u8 list ptr \<times> nat ptr \<times> world) option" where
  "dif_spi_device_recv spi buf buf_len bytes_received w =
     (case (spi, buf) of
        (Some spi, Some b) \<Rightarrow>
          (let fifo_base = 0; fifo_len = rx_fifo_len spi;
               (fifo, w) = run_state (decompress_ptrs spi kRxFifoParams) w
           in case spi_memcpy spi fifo fifo_base fifo_len b buf_len True w of
                None \<Rightarrow> None
              | Some (bytes, fifo, b, w) \<Rightarrow>
                  (let w = (if bytes > 0 then snd (run_state (compress_ptrs spi kRxFifoParams fifo) w) else w)
                   in Some (kDifSpiDeviceOk, Some b, store bytes_received bytes, w)))
      | _ \<Rightarrow> Some (kDifSpiDeviceBadArg, buf, bytes_received, w))"

definition dif_spi_device_send ::
  "dif_spi_device ptr \<Rightarrow> u8 list ptr \<Rightarrow> nat \<Rightarrow> nat ptr \<Rightarrow> world
     \<Rightarrow> (dif_spi_device_result \<times> nat ptr \<times> world) option" where
  "dif_spi_device_send spi buf buf_len bytes_sent w =
     (case (spi, buf) of
        (Some spi, Some b) \<Rightarrow>
          (let fifo_base = rx_fifo_len spi; fifo_len = tx_fifo_len spi;
               (fifo, w) = run_state (decompress_ptrs spi kTxFifoParams) w
           in case spi_memcpy spi fifo fifo_base fifo_len b buf_len False w of
                None \<Rightarrow> None
              | Some (bytes, fifo, b, w) \<Rightarrow>
                  (let w = (if bytes > 0 then snd (run_state (compress_ptrs spi kTxFifoParams fifo) w) else w)
                   in Some (kDifSpiDeviceOk, store bytes_sent bytes, w)))
      | _ \<Rightarrow> Some (kDifSpiDeviceBadArg, bytes_sent, w))"

section \<open>Advancing a pointer\<close>

definition fifo_advance :: "fifo_ptr \<Rightarrow> nat \<Rightarrow> nat \<Rightarrow> fifo_ptr" where
  "fifo_advance p k L = \<lparr>ptr_offset = of_nat ((unat (ptr_offset p) + k) mod L),
     phase = (if unat (ptr_offset p) + k < L then phase p else \<not> phase p)\<rparr>"

lemma unat_of_nat_u16: "n < 65536 \<Longrightarrow> unat (of_nat n :: u16) = n"
  by (simp add: unsigned_of_nat take_bit_nat_eq_self)

lemma and_fff: "n < 4096 \<Longrightarrow> (of_nat n :: u32) AND 0xfff = of_nat n"
proof -
  assume "n < 4096"
  have "(of_nat n :: u32) AND 0xfff = take_bit 12 (of_nat n)" by (simp add: take_bit_eq_mask mask_eq_exp_minus_1)
  also have "\<dots> = of_nat n"
    using \<open>n < 4096\<close> by (simp add: word_unat_eq_iff unsigned_take_bit_eq unsigned_of_nat take_bit_nat_eq_self)
  finally show ?thesis .
qed

lemma fifo_ptr_increment_advance:
  assumes "unat (ptr_offset p) < unat L" "unat k \<le> unat L" "unat L \<le> 4096"
  shows "fifo_ptr_increment p k L = fifo_advance p (unat k) (unat L)"
proof -
  define s where "s = unat (ptr_offset p) + unat k"
  have s: "s < 8192" using assms by (simp add: s_def)
  have sum: "ucast (ptr_offset p) + ucast k = (of_nat s :: u32)" by (simp add: s_def)
  have u: "unat (of_nat s :: u32) = s" using s by (simp add: unsigned_of_nat take_bit_nat_eq_self)
  have cmp: "(ucast L :: u32) \<le> of_nat s \<longleftrightarrow> unat L \<le> s" by (simp add: word_le_nat_alt u del: of_nat_add)
  have md: "s mod unat L = (if s < unat L then s else s - unat L)"
    unfolding s_def using assms by (intro mod_add_less) auto
  have fin: "(ucast ((of_nat n :: u32) AND 0xfff) :: u16) = of_nat n" if "n < 4096" for n
    unfolding and_fff [OF that] using that
    by (simp add: word_unat_eq_iff unsigned_ucast_eq unsigned_of_nat take_bit_nat_eq_self)
  show ?thesis
  proof (cases "unat L \<le> s")
    case True
    have "of_nat s - ucast L = (of_nat (s - unat L) :: u32)"
      using True by (simp add: of_nat_diff)
    moreover have "s - unat L < 4096" using assms unfolding s_def by linarith
    ultimately show ?thesis
      using True md fin [of "s - unat L"]
      by (simp add: fifo_ptr_increment_def fifo_advance_def Let_def sum cmp flip: s_def)
  next
    case False
    then have "s < 4096" using assms(3) by linarith
    then show ?thesis
      using False md fin [of s] by (simp add: fifo_ptr_increment_def fifo_advance_def Let_def sum cmp flip: s_def)
  qed
qed

lemma fifo_advance_offset:
  assumes "0 < L" "L \<le> 4096"
  shows "unat (ptr_offset (fifo_advance p k L)) = (unat (ptr_offset p) + k) mod L"
proof -
  have "(unat (ptr_offset p) + k) mod L < L" using assms(1) by simp
  then have "(unat (ptr_offset p) + k) mod L < 65536" using assms(2) by linarith
  then show ?thesis by (simp only: fifo_advance_def fifo_ptr.select_convs unat_of_nat_u16)
qed

lemma fifo_advance_phase:
  "phase (fifo_advance p k L) = (if unat (ptr_offset p) + k < L then phase p else \<not> phase p)"
  by (simp add: fifo_advance_def)

lemma fifo_advance_add:
  assumes "0 < L" "L \<le> 4096" "unat (ptr_offset p) < L" "j + k \<le> L"
  shows "fifo_advance (fifo_advance p j L) k L = fifo_advance p (j + k) L"
proof (rule fifo_ptr.equality)
  let ?o = "unat (ptr_offset p)"
  have m: "(?o + j) mod L = (if ?o + j < L then ?o + j else ?o + j - L)"
    using assms by (intro mod_add_less) auto
  show "ptr_offset (fifo_advance (fifo_advance p j L) k L) = ptr_offset (fifo_advance p (j + k) L)"
    by (rule word_unat_eq_iff [THEN iffD2])
       (simp only: fifo_advance_offset [OF assms(1,2)] mod_add_left_eq add.assoc)
  show "phase (fifo_advance (fifo_advance p j L) k L) = phase (fifo_advance p (j + k) L)"
    using assms(3,4) unfolding fifo_advance_phase fifo_advance_offset [OF assms(1,2)] m by auto
qed simp

section \<open>The chunk loop\<close>

definition spi_fifo_ok :: "dif_spi_device \<Rightarrow> u16 \<Rightarrow> u16 \<Rightarrow> bool" where
  "spi_fifo_ok spi base L \<longleftrightarrow> 4 dvd unat (mmio_base (spi_base spi))
     \<and> unat (mmio_base (spi_base spi)) + 8192 \<le> 4294967296 \<and> unat base + unat L \<le> 4096 \<and> 0 < unat L"

text \<open>The bytes of one FIFO's part of the SRAM, by their index in it.\<close>

definition spi_sram_addr :: "dif_spi_device \<Rightarrow> u16 \<Rightarrow> nat" where
  "spi_sram_addr spi base = unat (mmio_base (spi_base spi)) + 4096 + unat base"

definition spi_sram :: "dif_spi_device \<Rightarrow> u16 \<Rightarrow> world \<Rightarrow> nat \<Rightarrow> u8" where
  "spi_sram spi base w i = mem_byte (cur32 w) (spi_sram_addr spi base + i)"

definition chunk_len :: "u16 \<Rightarrow> u16 \<Rightarrow> u16 \<Rightarrow> u16" where
  "chunk_len bytes_left L off =
     (if (ucast bytes_left :: u32) > ucast L - ucast off then ucast (ucast L - ucast off :: u32) else bytes_left)"

lemma unat_chunk_len:
  assumes "unat off < unat L"
  shows "unat (chunk_len n L off) = min (unat n) (unat L - unat off)"
proof -
  have d: "unat (ucast L - ucast off :: u32) = unat L - unat off"
    using assms by (simp add: unat_sub word_le_nat_alt)
  have l: "unat L - unat off < 65536" using unat_u16_bound [of L] by linarith
  show ?thesis
    using l by (simp add: chunk_len_def word_less_nat_alt d unsigned_ucast_eq take_bit_nat_eq_self)
qed

lemma unat_sram_offset:
  assumes "spi_fifo_ok spi base L" "unat off < unat L"
  shows "unat (0x1000 + ucast base + ucast (off :: u16) :: u32) = 4096 + unat base + unat off"
  using assms by (simp add: spi_fifo_ok_def unat_word_ariths)

lemma mem_bytes_sram:
  "unat off + n \<le> unat L \<Longrightarrow>
     mem_bytes (cur32 w) (spi_sram_addr spi base + unat off) n = ring_slice (spi_sram spi base w) (unat L) (unat off) n"
  by (rule nth_equalityI) (auto simp: mem_bytes_def spi_sram_def add.assoc)

lemma fifo_advance_0: "unat (ptr_offset p) < L \<Longrightarrow> L \<le> 4096 \<Longrightarrow> fifo_advance p 0 L = p"
  by (simp add: fifo_advance_def)

lemma spi_recv_loop:
  assumes "spi_fifo_ok spi base L" "plain init w" "unat (ptr_offset p) < unat L"
    and "unat bl \<le> unat L"
  shows "\<exists>w'. spi_copy_loop spi base L True p bl buf w =
      Some (fifo_advance p (unat bl) (unat L),
        ring_slice (spi_sram spi base w) (unat L) (unat (ptr_offset p)) (unat bl) @ drop (unat bl) buf, w')
    \<and> plain init w' \<and> cur32 w' = cur32 w"
  using assms(2-)
proof (induction "unat bl" arbitrary: bl p buf w rule: less_induct)
  case less
  have L: "0 < unat L" "unat L \<le> 4096" using assms(1) by (auto simp: spi_fifo_ok_def)
  show ?case
  proof (cases "bl = 0")
    case True
    then show ?thesis using less.prems L by (subst spi_copy_loop.simps) (simp add: fifo_advance_0)
  next
    case False
    let ?o = "ptr_offset p"
    define c where "c = chunk_len bl L ?o"
    have n: "0 < unat bl" using False by (simp add: unat_gt_0)
    have c: "unat c = min (unat bl) (unat L - unat ?o)" unfolding c_def using less.prems(2) by (rule unat_chunk_len)
    then have cs: "0 < unat c" "unat c \<le> unat bl" "unat ?o + unat c \<le> unat L" using n less.prems(2) by auto
    define moff :: u32 where "moff = 0x1000 + ucast base + ucast ?o"
    have addr: "unat (mmio_base (spi_base spi)) + unat moff = spi_sram_addr spi base + unat ?o"
      using unat_sram_offset [OF assms(1) less.prems(2)] by (simp add: spi_sram_addr_def moff_def)
    have "unat (mmio_base (spi_base spi)) + unat moff + unat c \<le> 4294967296"
      using assms(1) cs addr by (simp add: spi_fifo_ok_def spi_sram_addr_def)
    then obtain w1 where w1: "run_state (mmio_region_memcpy32 (spi_base spi) moff buf (unat c) True) w =
        (ring_slice (spi_sram spi base w) (unat L) (unat ?o) (unat c) @ drop (unat c) buf, w1)"
        "plain init w1" "cur32 w1 = cur32 w"
      using memcpy32_from_mmio [OF less.prems(1), of "spi_base spi" moff "unat c" buf] assms(1)
        mem_bytes_sram [OF cs(3), of w spi base] by (auto simp: addr spi_fifo_ok_def)
    define p1 where "p1 = fifo_advance p (unat c) (unat L)"
    have p1: "fifo_ptr_increment p c L = p1"
      unfolding p1_def using less.prems(2) cs L by (intro fifo_ptr_increment_advance) auto
    have o1: "unat (ptr_offset p1) = (unat ?o + unat c) mod unat L"
      unfolding p1_def by (rule fifo_advance_offset [OF L])
    have d: "unat (bl - c) = unat bl - unat c" using cs(2) by (simp add: unat_sub word_le_nat_alt)
    have le: "unat (bl - c) \<le> unat L" using d less.prems(3) by linarith
    obtain w2 where w2: "spi_copy_loop spi base L True p1 (bl - c) (drop (unat c) buf) w1 =
        Some (fifo_advance p1 (unat bl - unat c) (unat L),
          ring_slice (spi_sram spi base w1) (unat L) (unat (ptr_offset p1)) (unat bl - unat c)
            @ drop (unat bl - unat c) (drop (unat c) buf), w2)" "plain init w2" "cur32 w2 = cur32 w1"
      using less.hyps [of "bl - c" w1 p1 "drop (unat c) buf"] w1(2) o1 L d cs le by auto
    have adv: "fifo_advance p1 (unat bl - unat c) (unat L) = fifo_advance p (unat bl) (unat L)"
      using fifo_advance_add [OF L less.prems(2), of "unat c" "unat bl - unat c"] cs less.prems(3) by (simp add: p1_def)
    have ring: "ring_slice (spi_sram spi base w) (unat L) (unat ?o) (unat c)
        @ ring_slice (spi_sram spi base w1) (unat L) (unat (ptr_offset p1)) (unat bl - unat c)
        = ring_slice (spi_sram spi base w) (unat L) (unat ?o) (unat bl)"
      using ring_slice_add [of "spi_sram spi base w" "unat L" "unat ?o" "unat c" "unat bl - unat c"] cs(2) w1(3)
      by (simp add: o1 spi_sram_def [abs_def])
    show ?thesis
      using False w1(1) w2 w1(3) ring cs(2) unfolding chunk_len_def [symmetric]
      by (subst spi_copy_loop.simps)
         (simp add: Let_def moff_def [symmetric] chunk_len_def [symmetric] c_def [symmetric] word_greater_zero_iff
           mmio_region_memcpy_from_mmio32_def p1 adv append_assoc [symmetric] del: append_assoc)
  qed
qed

text \<open>One chunk of \<open>send\<close> overwrites a run of cells and leaves the rest of the address space alone.\<close>

definition outside_unchanged :: "nat \<Rightarrow> nat \<Rightarrow> world \<Rightarrow> world \<Rightarrow> bool" where
  "outside_unchanged a n w w' \<longleftrightarrow>
     (\<forall>b < 4294967296. b < a \<or> a + n \<le> b \<longrightarrow> mem_byte (cur32 w') b = mem_byte (cur32 w) b)"

lemma outside_unchanged_trans:
  "outside_unchanged a n w w1 \<Longrightarrow> outside_unchanged a n w1 w2 \<Longrightarrow> outside_unchanged a n w w2"
  by (auto simp: outside_unchanged_def)

lemma upd_bytes_ring_written:
  assumes "same_bytes (mem_byte (cur32 w')) (upd_bytes (mem_byte (cur32 w)) (spi_sram_addr spi base + r) xs)"
    and "r + length xs \<le> L" "r < L" "spi_sram_addr spi base + L \<le> 4294967296"
  shows "ring_written (spi_sram spi base w) (spi_sram spi base w') L r xs"
    and "outside_unchanged (spi_sram_addr spi base) L w w'"
proof -
  have m: "spi_sram spi base w' i = (if r \<le> i \<and> i < r + length xs then xs ! (i - r) else spi_sram spi base w i)"
    if "i < L" for i
    using assms(1,4) that by (auto simp: same_bytes_def spi_sram_def upd_bytes_def)
  have "ring_slice (spi_sram spi base w') L r (length xs) = xs"
    using assms(2) by (intro nth_equalityI) (auto simp: m)
  moreover have "spi_sram spi base w' ((r + i) mod L) = spi_sram spi base w ((r + i) mod L)"
    if "length xs \<le> i" "i < L" for i
  proof -
    have "\<not> (r \<le> (r + i) mod L \<and> (r + i) mod L < r + length xs)"
      using that assms(3) by (auto simp: mod_add_less split: if_splits)
    then show ?thesis using assms(3) by (auto simp: m)
  qed
  ultimately show "ring_written (spi_sram spi base w) (spi_sram spi base w') L r xs" by (simp add: ring_written_def)
  show "outside_unchanged (spi_sram_addr spi base) L w w'"
    using assms(1,2) by (auto simp: outside_unchanged_def same_bytes_def upd_bytes_def)
qed

lemma ring_written_mod: "ring_written m m' L (r mod L) xs = ring_written m m' L r xs"
  by (simp add: ring_written_def mod_add_left_eq)

lemma sram_bound: "spi_fifo_ok spi base L \<Longrightarrow> spi_sram_addr spi base + unat L \<le> 4294967296"
  by (simp add: spi_fifo_ok_def spi_sram_addr_def)

lemma spi_send_loop:
  assumes "spi_fifo_ok spi base L" "plain init w" "unat (ptr_offset p) < unat L"
    and "unat bl \<le> unat L" "unat bl \<le> length buf"
  shows "\<exists>w'. spi_copy_loop spi base L False p bl buf w = Some (fifo_advance p (unat bl) (unat L), buf, w')
    \<and> plain init w' \<and> outside_unchanged (spi_sram_addr spi base) (unat L) w w'
    \<and> ring_written (spi_sram spi base w) (spi_sram spi base w') (unat L) (unat (ptr_offset p)) (take (unat bl) buf)"
  using assms(2-)
proof (induction "unat bl" arbitrary: bl p buf w rule: less_induct)
  case less
  have L: "0 < unat L" "unat L \<le> 4096" using assms(1) by (auto simp: spi_fifo_ok_def)
  show ?case
  proof (cases "bl = 0")
    case True
    then show ?thesis
      using less.prems L by (subst spi_copy_loop.simps) (simp add: fifo_advance_0 ring_written_Nil outside_unchanged_def)
  next
    case False
    let ?o = "ptr_offset p"
    define c where "c = chunk_len bl L ?o"
    have n: "0 < unat bl" using False by (simp add: unat_gt_0)
    have c: "unat c = min (unat bl) (unat L - unat ?o)" unfolding c_def using less.prems(2) by (rule unat_chunk_len)
    then have cs: "0 < unat c" "unat c \<le> unat bl" "unat ?o + unat c \<le> unat L" using n less.prems(2) by auto
    define moff :: u32 where "moff = 0x1000 + ucast base + ucast ?o"
    have addr: "unat (mmio_base (spi_base spi)) + unat moff = spi_sram_addr spi base + unat ?o"
      using unat_sram_offset [OF assms(1) less.prems(2)] by (simp add: spi_sram_addr_def moff_def)
    have fit: "unat (mmio_base (spi_base spi)) + unat moff + unat c \<le> 4294967296"
      using assms(1) cs addr by (simp add: spi_fifo_ok_def spi_sram_addr_def)
    define w1 where "w1 = snd (run_state (mmio_region_memcpy32 (spi_base spi) moff buf (unat c) False) w)"
    have lb: "unat c \<le> length buf" using cs less.prems(4) by linarith
    have w1: "plain init w1"
      "same_bytes (mem_byte (cur32 w1))
         (upd_bytes (mem_byte (cur32 w)) (spi_sram_addr spi base + unat ?o) (take (unat c) buf))"
      using memcpy32_to_mmio [OF less.prems(1) _ fit lb] assms(1) unfolding addr
      by (auto simp: w1_def spi_fifo_ok_def)
    have lt: "length (take (unat c) buf) = unat c" using lb by simp
    note wr = upd_bytes_ring_written [OF w1(2) _ less.prems(2) sram_bound [OF assms(1)], unfolded lt, OF cs(3)]
    define p1 where "p1 = fifo_advance p (unat c) (unat L)"
    have p1: "fifo_ptr_increment p c L = p1"
      unfolding p1_def using less.prems(2) cs L by (intro fifo_ptr_increment_advance) auto
    have o1: "unat (ptr_offset p1) = (unat ?o + unat c) mod unat L"
      unfolding p1_def by (rule fifo_advance_offset [OF L])
    have d: "unat (bl - c) = unat bl - unat c" using cs(2) by (simp add: unat_sub word_le_nat_alt)
    have le: "unat (bl - c) \<le> unat L" "unat (bl - c) \<le> length (drop (unat c) buf)"
      using d less.prems(3,4) by simp_all
    obtain w2 where w2: "spi_copy_loop spi base L False p1 (bl - c) (drop (unat c) buf) w1 =
        Some (fifo_advance p1 (unat bl - unat c) (unat L), drop (unat c) buf, w2)" "plain init w2"
        "outside_unchanged (spi_sram_addr spi base) (unat L) w1 w2"
        "ring_written (spi_sram spi base w1) (spi_sram spi base w2) (unat L) (unat ?o + unat c)
           (take (unat bl - unat c) (drop (unat c) buf))"
      using less.hyps [OF _ w1(1) _ le, of p1] o1 L d cs by (auto simp: ring_written_mod)
    have adv: "fifo_advance p1 (unat bl - unat c) (unat L) = fifo_advance p (unat bl) (unat L)"
      using fifo_advance_add [OF L less.prems(2), of "unat c" "unat bl - unat c"] cs less.prems(3) by (simp add: p1_def)
    have tk: "take (unat c) buf @ take (unat bl - unat c) (drop (unat c) buf) = take (unat bl) buf"
      using cs(2) by (metis le_add_diff_inverse take_add)
    have len: "length (take (unat c) buf) + length (take (unat bl - unat c) (drop (unat c) buf)) \<le> unat L"
      using cs(2) less.prems(3) by simp
    have "ring_written (spi_sram spi base w) (spi_sram spi base w2) (unat L) (unat ?o) (take (unat bl) buf)"
      using ring_written_trans [OF L(1) len wr(1)] w2(4) unfolding lt tk by blast
    moreover have "outside_unchanged (spi_sram_addr spi base) (unat L) w w2"
      using outside_unchanged_trans [OF wr(2) w2(3)] .
    moreover have "spi_copy_loop spi base L False p bl buf w = Some (fifo_advance p (unat bl) (unat L), buf, w2)"
      using False w2(1)
      by (subst spi_copy_loop.simps)
         (simp add: Let_def moff_def [symmetric] chunk_len_def [symmetric] c_def [symmetric] word_greater_zero_iff
           mmio_region_memcpy_to_mmio32_def case_prod_unfold w1_def [symmetric] p1 adv)
    ultimately show ?thesis using w2(2) by blast
  qed
qed

section \<open>Pointer registers\<close>

definition ptr_half :: "fifo_ptr \<Rightarrow> u16" where
  "ptr_half p = (if phase p then ptr_offset p OR kFifoPhaseMask else ptr_offset p)"

definition half_ptr :: "u16 \<Rightarrow> fifo_ptr" where
  "half_ptr h = \<lparr>ptr_offset = h AND kFifoOffsetMask, phase = (h AND kFifoPhaseMask \<noteq> 0)\<rparr>"

abbreviation half_field :: "u32 \<Rightarrow> bitfield_field32" where
  "half_field i \<equiv> \<lparr>field_mask = 0xffff, field_index = i\<rparr>"

definition ptrs_of_word :: "u32 \<Rightarrow> fifo_ptrs" where
  "ptrs_of_word v = \<lparr>write_ptr = half_ptr (ucast (bitfield_field32_read v (half_field 16))),
     read_ptr = half_ptr (ucast (bitfield_field32_read v (half_field 0)))\<rparr>"

definition word_of_ptrs :: "fifo_ptrs \<Rightarrow> u32" where
  "word_of_ptrs ptrs = bitfield_field32_write (bitfield_field32_write 0 (half_field 16) (ucast (ptr_half (write_ptr ptrs))))
     (half_field 0) (ucast (ptr_half (read_ptr ptrs)))"

lemma and_phase_mask: "(h :: u16) AND 0x1000 \<noteq> 0 \<longleftrightarrow> bit h 12"
  using and_exp_eq_0_iff_not_bit [of h 12] by simp

lemma half_ptr_half:
  assumes "unat (ptr_offset p) < 4096"
  shows "half_ptr (ptr_half p) = p"
proof -
  have m: "(0xfff :: u16) = mask 12" by (simp add: mask_eq_exp_minus_1)
  have "take_bit 12 (ptr_offset p) = ptr_offset p"
    using assms by (simp add: word_unat_eq_iff unsigned_take_bit_eq take_bit_nat_eq_self)
  then have b: "n < 12" if "bit (ptr_offset p) n" for n
    using that by (metis bit_take_bit_iff)
  have ph: "bit (0x1000 :: int) n \<longleftrightarrow> n = 12" for n
    using bit_exp_iff [of 12 n, where 'a = int] by simp

  show ?thesis
    unfolding half_ptr_def and_phase_mask ptr_half_def m
    by (rule fifo_ptr.equality) (auto intro!: bit_word_eqI simp: bit_simps ph dest: b)
qed

lemma ptrs_of_word_of_ptrs:
  assumes "unat (ptr_offset (write_ptr ptrs)) < 4096" "unat (ptr_offset (read_ptr ptrs)) < 4096"
  shows "ptrs_of_word (word_of_ptrs ptrs) = ptrs"
proof -
  have m: "(0xffff :: u32) = mask 16" by (simp add: mask_eq_exp_minus_1)
  have u: "(ucast (ucast h AND (0xffff :: u32)) :: u16) = h" for h :: u16
    unfolding m by (rule bit_word_eqI) (simp add: bit_simps)
  show ?thesis
    unfolding ptrs_of_word_def word_of_ptrs_def
    by (simp add: field32_read_write_same field32_read_write_other field_ok_def field_bits_def u half_ptr_half assms)
qed

lemma decompress_run:
  "params = kRxFifoParams \<or> params = kTxFifoParams \<Longrightarrow>
   decompress_ptrs spi params = do { v \<leftarrow> mmio_region_read32 (spi_base spi) (ptr_reg_offset params); ret (ptrs_of_word v) }"
  by (auto simp: decompress_ptrs_def kRxFifoParams_def kTxFifoParams_def ptrs_of_word_def half_ptr_def
    bitfield_field32_read_def Let_def)

lemma compress_run:
  "params = kRxFifoParams \<or> params = kTxFifoParams \<Longrightarrow>
   compress_ptrs spi params ptrs = mmio_region_write32 (spi_base spi) (ptr_reg_offset params) (word_of_ptrs ptrs)"
  by (auto simp: compress_ptrs_def kRxFifoParams_def kTxFifoParams_def word_of_ptrs_def ptr_half_def Let_def)

section \<open>The FIFOs as byte queues\<close>

definition fifo_count :: "fifo_ptrs \<Rightarrow> nat \<Rightarrow> nat" where
  "fifo_count ptrs L =
     (if phase (write_ptr ptrs) = phase (read_ptr ptrs)
      then unat (ptr_offset (write_ptr ptrs)) - unat (ptr_offset (read_ptr ptrs))
      else L - (unat (ptr_offset (read_ptr ptrs)) - unat (ptr_offset (write_ptr ptrs))))"

definition fifo_ptrs_ok :: "fifo_ptrs \<Rightarrow> nat \<Rightarrow> bool" where
  "fifo_ptrs_ok ptrs L \<longleftrightarrow>
     unat (ptr_offset (write_ptr ptrs)) < L \<and> unat (ptr_offset (read_ptr ptrs)) < L
     \<and> (if phase (write_ptr ptrs) = phase (read_ptr ptrs)
        then unat (ptr_offset (read_ptr ptrs)) \<le> unat (ptr_offset (write_ptr ptrs))
        else unat (ptr_offset (write_ptr ptrs)) \<le> unat (ptr_offset (read_ptr ptrs)))"

lemma fifo_bytes_in_use_count:
  assumes "fifo_ptrs_ok ptrs (unat L)"
  shows "unat (fifo_bytes_in_use ptrs L) = fifo_count ptrs (unat L)"
  using assms unfolding fifo_bytes_in_use_def fifo_count_def fifo_ptrs_ok_def
  by (auto simp: unat_sub word_le_nat_alt split: if_splits)

lemma fifo_count_le: "fifo_ptrs_ok ptrs L \<Longrightarrow> fifo_count ptrs L \<le> L"
  by (auto simp: fifo_count_def fifo_ptrs_ok_def split: if_splits)

lemma fifo_write_offset:
  assumes "fifo_ptrs_ok ptrs L"
  shows "unat (ptr_offset (write_ptr ptrs)) = (unat (ptr_offset (read_ptr ptrs)) + fifo_count ptrs L) mod L"
  using assms by (auto simp: fifo_count_def fifo_ptrs_ok_def mod_add_less split: if_splits)

lemma fifo_pop_ok:
  assumes "fifo_ptrs_ok ptrs L" "L \<le> 4096" "n \<le> fifo_count ptrs L"
  shows "fifo_ptrs_ok (ptrs\<lparr>read_ptr := fifo_advance (read_ptr ptrs) n L\<rparr>) L
    \<and> fifo_count (ptrs\<lparr>read_ptr := fifo_advance (read_ptr ptrs) n L\<rparr>) L = fifo_count ptrs L - n"
proof -
  have L: "0 < L" using assms(1) by (auto simp: fifo_ptrs_ok_def)
  have "n \<le> L" using assms(3) fifo_count_le [OF assms(1)] by linarith
  then have off: "unat (ptr_offset (fifo_advance (read_ptr ptrs) n L)) =
      (if unat (ptr_offset (read_ptr ptrs)) + n < L then unat (ptr_offset (read_ptr ptrs)) + n
       else unat (ptr_offset (read_ptr ptrs)) + n - L)"
    using assms(1) unfolding fifo_advance_offset [OF L assms(2)] fifo_ptrs_ok_def by (intro mod_add_less) auto
  show ?thesis
    using assms(1,3) unfolding fifo_count_def fifo_ptrs_ok_def
    by (simp add: off fifo_advance_phase split: if_splits) linarith+
qed

lemma fifo_push_ok:
  assumes "fifo_ptrs_ok ptrs L" "L \<le> 4096" "n \<le> L - fifo_count ptrs L"
  shows "fifo_ptrs_ok (ptrs\<lparr>write_ptr := fifo_advance (write_ptr ptrs) n L\<rparr>) L
    \<and> fifo_count (ptrs\<lparr>write_ptr := fifo_advance (write_ptr ptrs) n L\<rparr>) L = fifo_count ptrs L + n"
proof -
  have L: "0 < L" using assms(1) by (auto simp: fifo_ptrs_ok_def)
  have "n \<le> L" using assms(3) by linarith
  then have off: "unat (ptr_offset (fifo_advance (write_ptr ptrs) n L)) =
      (if unat (ptr_offset (write_ptr ptrs)) + n < L then unat (ptr_offset (write_ptr ptrs)) + n
       else unat (ptr_offset (write_ptr ptrs)) + n - L)"
    using assms(1) unfolding fifo_advance_offset [OF L assms(2)] fifo_ptrs_ok_def by (intro mod_add_less) auto
  show ?thesis
    using assms(1,3) unfolding fifo_count_def fifo_ptrs_ok_def
    by (simp add: off fifo_advance_phase split: if_splits) linarith+
qed

definition spi_ptrs :: "dif_spi_device \<Rightarrow> fifo_ptr_params \<Rightarrow> world \<Rightarrow> fifo_ptrs" where
  "spi_ptrs spi params w = ptrs_of_word (cur32 w (mmio_addr32 (spi_base spi) (ptr_reg_offset params)))"

definition spi_fifo_wf :: "dif_spi_device \<Rightarrow> fifo_ptr_params \<Rightarrow> u16 \<Rightarrow> u16 \<Rightarrow> world \<Rightarrow> bool" where
  "spi_fifo_wf spi params base L w \<longleftrightarrow> spi_fifo_ok spi base L \<and> fifo_ptrs_ok (spi_ptrs spi params w) (unat L)"

definition spi_contents :: "dif_spi_device \<Rightarrow> fifo_ptr_params \<Rightarrow> u16 \<Rightarrow> u16 \<Rightarrow> world \<Rightarrow> u8 list" where
  "spi_contents spi params base L w =
     ring_slice (spi_sram spi base w) (unat L) (unat (ptr_offset (read_ptr (spi_ptrs spi params w))))
       (fifo_count (spi_ptrs spi params w) (unat L))"

abbreviation spi_rx_wf :: "dif_spi_device \<Rightarrow> world \<Rightarrow> bool" where
  "spi_rx_wf spi \<equiv> spi_fifo_wf spi kRxFifoParams 0 (rx_fifo_len spi)"

abbreviation spi_tx_wf :: "dif_spi_device \<Rightarrow> world \<Rightarrow> bool" where
  "spi_tx_wf spi \<equiv> spi_fifo_wf spi kTxFifoParams (rx_fifo_len spi) (tx_fifo_len spi)"

abbreviation spi_rx_contents :: "dif_spi_device \<Rightarrow> world \<Rightarrow> u8 list" where
  "spi_rx_contents spi \<equiv> spi_contents spi kRxFifoParams 0 (rx_fifo_len spi)"

abbreviation spi_tx_contents :: "dif_spi_device \<Rightarrow> world \<Rightarrow> u8 list" where
  "spi_tx_contents spi \<equiv> spi_contents spi kTxFifoParams (rx_fifo_len spi) (tx_fifo_len spi)"

text \<open>The pointer registers lie below the SRAM window.\<close>

lemma unat_spi_reg:
  assumes "spi_fifo_ok spi base L" "unat r < 4096"
  shows "unat (mmio_addr32 (spi_base spi) r) = unat (mmio_base (spi_base spi)) + 4 * (unat r div 4)"
proof -
  have "4 * (unat r div 4) < 4096" using assms(2) by simp
  then show ?thesis
    using assms(1) by (simp add: mmio_addr32_def word_div_4_mult unat_word_ariths unsigned_of_nat take_bit_nat_eq_self
      spi_fifo_ok_def del: of_nat_mult)
qed

lemma sram_reg_write:
  assumes "spi_fifo_ok spi base L" "unat r < 4096" "i < unat L" "plain init w"
  shows "spi_sram spi base (log (Wr32 (mmio_addr32 (spi_base spi) r) v) w) i = spi_sram spi base w i"
proof -
  let ?n = "spi_sram_addr spi base + i"
  have n: "?n < 4294967296" "unat (mmio_base (spi_base spi)) + 4096 \<le> ?n"
    using assms(1,3) by (auto simp: spi_fifo_ok_def spi_sram_addr_def)
  obtain q where q: "unat (mmio_base (spi_base spi)) = 4 * q" using assms(1) by (auto simp: spi_fifo_ok_def)
  have "unat (of_nat (4 * (?n div 4)) :: u32) = 4 * (?n div 4)" using n(1) by (intro unat_of_nat_u32) linarith
  moreover have "unat (mmio_addr32 (spi_base spi) r) < 4 * (?n div 4)"
  proof -
    have "(4 * q + 4096) div 4 \<le> ?n div 4" using n(2) unfolding q by (rule div_le_mono)
    moreover have "unat r div 4 < 1024" using assms(2) by simp
    ultimately show ?thesis using unat_spi_reg [OF assms(1,2)] unfolding q by simp
  qed
  ultimately have "(of_nat (4 * (?n div 4)) :: u32) \<noteq> mmio_addr32 (spi_base spi) r" by (metis less_irrefl)
  then show ?thesis using assms(4) by (simp add: spi_sram_def mem_byte_def)
qed

lemma spi_contents_cong:
  assumes "\<And>i. i < unat L \<Longrightarrow> spi_sram spi base w' i = spi_sram spi base w i" "0 < unat L"
    and "spi_ptrs spi params w' = spi_ptrs spi params w"
  shows "spi_contents spi params base L w' = spi_contents spi params base L w"
  unfolding spi_contents_def assms(3) by (rule ring_slice_cong) (use assms(1,2) in auto)

lemma spi_params_reg:
  "params = kRxFifoParams \<or> params = kTxFifoParams \<Longrightarrow> unat (ptr_reg_offset params) < 4096"
  by (auto simp: kRxFifoParams_def kTxFifoParams_def)

text \<open>Writing pointers back changes the pointers and nothing of the SRAM.\<close>

lemma compress_effect:
  assumes "params = kRxFifoParams \<or> params = kTxFifoParams" "plain init w"
    and "fifo_ptrs_ok ptrs (unat L)" "spi_fifo_ok spi base L"
    and "w' = snd (run_state (compress_ptrs spi params ptrs) w)"
  shows "plain init w'" "spi_ptrs spi params w' = ptrs"
    and "\<And>base L i. spi_fifo_ok spi base L \<Longrightarrow> i < unat L \<Longrightarrow> spi_sram spi base w' i = spi_sram spi base w i"
    and "\<And>a. a \<noteq> mmio_addr32 (spi_base spi) (ptr_reg_offset params) \<Longrightarrow> cur32 w' a = cur32 w a"
proof -
  have w': "w' = log (Wr32 (mmio_addr32 (spi_base spi) (ptr_reg_offset params)) (word_of_ptrs ptrs)) w"
    unfolding assms(5) compress_run [OF assms(1)] by (simp add: io_simps)
  show "plain init w'" using assms(2) by (simp add: w')
  have "unat (ptr_offset (write_ptr ptrs)) < 4096" "unat (ptr_offset (read_ptr ptrs)) < 4096"
    using assms(3,4) by (auto simp: fifo_ptrs_ok_def spi_fifo_ok_def)
  then show "spi_ptrs spi params w' = ptrs"
    using assms(2) by (simp add: w' spi_ptrs_def ptrs_of_word_of_ptrs)
  show "spi_sram spi base w' i = spi_sram spi base w i" if "spi_fifo_ok spi base L" "i < unat L" for base L i
    unfolding w' by (rule sram_reg_write [OF that(1) spi_params_reg [OF assms(1)] that(2) assms(2)])
  show "cur32 w' a = cur32 w a" if "a \<noteq> mmio_addr32 (spi_base spi) (ptr_reg_offset params)" for a
    using assms(2) that by (simp add: w')
qed

lemma decompress_effect:
  assumes "params = kRxFifoParams \<or> params = kTxFifoParams" "plain init w"
  shows "\<exists>w1. run_state (decompress_ptrs spi params) w = (spi_ptrs spi params w, w1) \<and> plain init w1 \<and> cur32 w1 = cur32 w"
  unfolding decompress_run [OF assms(1)] using assms(2) by (simp add: io_simps spi_ptrs_def)

lemma spi_sram_cong: "cur32 w' = cur32 w \<Longrightarrow> spi_sram spi base w' = spi_sram spi base w"
  by (simp add: spi_sram_def [abs_def])

lemma spi_ptrs_cong: "cur32 w' = cur32 w \<Longrightarrow> spi_ptrs spi params w' = spi_ptrs spi params w"
  by (simp add: spi_ptrs_def)

lemma spi_fifo_wf_cong:
  "spi_ptrs spi params w' = spi_ptrs spi params w \<Longrightarrow> spi_fifo_wf spi params base L w' = spi_fifo_wf spi params base L w"
  by (simp add: spi_fifo_wf_def)

lemma spi_wf_bounds: "spi_fifo_wf spi params base L w \<Longrightarrow> 0 < unat L \<and> unat L \<le> 4096"
  by (auto simp: spi_fifo_wf_def spi_fifo_ok_def)

text \<open>The size of a transfer.\<close>

lemma transfer_len:
  assumes "unat x = m" "m \<le> 4096"
  shows "unat (if unat (x :: u16) > buf_len then of_nat buf_len else x) = min m buf_len"
proof (cases "unat x > buf_len")
  case True
  then have "buf_len < 65536" using unat_u16_bound [of x] by linarith
  then show ?thesis using True assms by (simp add: unat_of_nat_u16)
qed (use assms in simp)

lemma spi_memcpy_recv:
  assumes "spi_fifo_ok spi base L" "fifo_ptrs_ok ptrs (unat L)" "plain init w"
    and n: "n = min (fifo_count ptrs (unat L)) buf_len"
  shows "\<exists>w'. spi_memcpy spi ptrs base L buf buf_len True w =
      Some (n, ptrs\<lparr>read_ptr := fifo_advance (read_ptr ptrs) n (unat L)\<rparr>,
        ring_slice (spi_sram spi base w) (unat L) (unat (ptr_offset (read_ptr ptrs))) n @ drop n buf, w')
    \<and> plain init w' \<and> cur32 w' = cur32 w"
proof -
  let ?x = "fifo_bytes_in_use ptrs L"
  define bl where "bl = (if unat ?x > buf_len then of_nat buf_len else ?x)"
  have L: "unat L \<le> 4096" using assms(1) by (simp add: spi_fifo_ok_def)
  have c: "unat ?x = fifo_count ptrs (unat L)" "fifo_count ptrs (unat L) \<le> unat L"
    using fifo_bytes_in_use_count [OF assms(2)] fifo_count_le [OF assms(2)] by auto
  have bl: "unat bl = n" unfolding bl_def n using c L by (intro transfer_len) auto
  have r: "unat (ptr_offset (read_ptr ptrs)) < unat L" using assms(2) by (simp add: fifo_ptrs_ok_def)
  have le: "unat bl \<le> unat L" using bl n c(2) by simp
  show ?thesis
  proof (cases "bl = 0")
    case True
    then have "n = 0" using bl by simp
    then show ?thesis
      using True assms(3) L r by (simp add: spi_memcpy_def bl_def [symmetric] fifo_advance_0)
  next
    case False
    then show ?thesis
      using spi_recv_loop [OF assms(1,3) r le, of buf] bl by (auto simp: spi_memcpy_def bl_def [symmetric])
  qed
qed

lemma spi_memcpy_send:
  assumes "spi_fifo_ok spi base L" "fifo_ptrs_ok ptrs (unat L)" "plain init w"
    and n: "n = min (unat L - fifo_count ptrs (unat L)) buf_len" "n \<le> length buf"
  shows "\<exists>w'. spi_memcpy spi ptrs base L buf buf_len False w =
      Some (n, ptrs\<lparr>write_ptr := fifo_advance (write_ptr ptrs) n (unat L)\<rparr>, buf, w')
    \<and> plain init w' \<and> outside_unchanged (spi_sram_addr spi base) (unat L) w w'
    \<and> ring_written (spi_sram spi base w) (spi_sram spi base w') (unat L)
        (unat (ptr_offset (write_ptr ptrs))) (take n buf)"
proof -
  let ?x = "L - fifo_bytes_in_use ptrs L"
  define bl where "bl = (if unat ?x > buf_len then of_nat buf_len else ?x)"
  have L: "0 < unat L" "unat L \<le> 4096" using assms(1) by (simp_all add: spi_fifo_ok_def)
  have c: "unat (fifo_bytes_in_use ptrs L) = fifo_count ptrs (unat L)" "fifo_count ptrs (unat L) \<le> unat L"
    using fifo_bytes_in_use_count [OF assms(2)] fifo_count_le [OF assms(2)] by auto
  have x: "unat ?x = unat L - fifo_count ptrs (unat L)" using c by (simp add: unat_sub word_le_nat_alt)
  have bl: "unat bl = n" unfolding bl_def n using x L by (intro transfer_len) auto
  have r: "unat (ptr_offset (write_ptr ptrs)) < unat L" using assms(2) by (simp add: fifo_ptrs_ok_def)
  have le: "unat bl \<le> unat L" "unat bl \<le> length buf" using bl n by simp_all
  show ?thesis
  proof (cases "bl = 0")
    case True
    then have "n = 0" using bl by simp
    then show ?thesis
      using True assms(3) L r
      by (simp add: spi_memcpy_def bl_def [symmetric] fifo_advance_0 outside_unchanged_def ring_written_Nil)
  next
    case False
    then show ?thesis
      using spi_send_loop [OF assms(1,3) r le] bl by (auto simp: spi_memcpy_def bl_def [symmetric])
  qed
qed

text \<open>A word outside an unchanged range of bytes is unchanged.\<close>

lemma outside_word:
  assumes "outside_unchanged a n w w'" "4 dvd unat r" "unat r + 4 \<le> a \<or> a + n \<le> unat r"
  shows "cur32 w' r = cur32 w r"
proof -
  obtain q where q: "unat r = 4 * q" using assms(2) by blast
  have r: "of_nat (4 * q) = r" unfolding q [symmetric] by simp
  have lt: "4 * q < 4294967296" using q unat_u32_bound [of r] by linarith
  have "byte_of (cur32 w' r) i = byte_of (cur32 w r) i" if "i < 4" for i
  proof -
    have "4 * q + i < 4294967296" using lt that by presburger
    moreover have "4 * q + i < a \<or> a + n \<le> 4 * q + i" using assms(3) q that by linarith
    ultimately have "mem_byte (cur32 w') (4 * q + i) = mem_byte (cur32 w) (4 * q + i)"
      using assms(1) unfolding outside_unchanged_def by blast
    then show ?thesis using that by (simp add: mem_byte_def r [simplified])
  qed
  then have "word_bytes (cur32 w' r) = word_bytes (cur32 w r)" by (intro nth_equalityI) auto
  then show ?thesis by (simp add: word_bytes_inject)
qed

lemma outside_sram:
  assumes "outside_unchanged (spi_sram_addr spi base) (unat L) w w'" "spi_fifo_ok spi base L"
  shows "unat r < 4096 \<Longrightarrow> cur32 w' (mmio_addr32 (spi_base spi) r) = cur32 w (mmio_addr32 (spi_base spi) r)"
    and "spi_fifo_ok spi base' L' \<Longrightarrow> unat base' + unat L' \<le> unat base \<Longrightarrow> i < unat L' \<Longrightarrow>
      spi_sram spi base' w' i = spi_sram spi base' w i"
proof -
  have al: "4 dvd unat (mmio_base (spi_base spi))" using assms(2) by (simp add: spi_fifo_ok_def)
  show "cur32 w' (mmio_addr32 (spi_base spi) r) = cur32 w (mmio_addr32 (spi_base spi) r)" if "unat r < 4096"
  proof (rule outside_word [OF assms(1)])
    have "4 * (unat r div 4) + 4 \<le> 4096" using that by simp
    then show "unat (mmio_addr32 (spi_base spi) r) + 4 \<le> spi_sram_addr spi base \<or>
        spi_sram_addr spi base + unat L \<le> unat (mmio_addr32 (spi_base spi) r)"
      by (simp add: unat_spi_reg [OF assms(2) that] spi_sram_addr_def)
    show "4 dvd unat (mmio_addr32 (spi_base spi) r)" using al by (simp add: unat_spi_reg [OF assms(2) that])
  qed
  show "spi_sram spi base' w' i = spi_sram spi base' w i"
    if "spi_fifo_ok spi base' L'" "unat base' + unat L' \<le> unat base" "i < unat L'"
    using assms that unfolding outside_unchanged_def spi_sram_def spi_sram_addr_def spi_fifo_ok_def by simp
qed

section \<open>Properties\<close>

text \<open>
  C1. \<open>dif_spi_device_recv\<close> implements the front of a queue: with well-formed pointers in the RX pointer register
  it stores the first \<open>min count buf_len\<close> bytes of the RX FIFO's contents in the caller's buffer (across the
  wrap of the ring and at any alignment), reports that number, and leaves exactly the remaining contents; the
  loop over the chunks ends.
\<close>

theorem dif_spi_device_recv_correct:
  assumes "plain init w" "spi_rx_wf spi w"
    and "C = spi_rx_contents spi w" "n = min (length C) buf_len"
  shows "\<exists>w'. dif_spi_device_recv (Some spi) (Some buf) buf_len received w =
      Some (kDifSpiDeviceOk, Some (take n C @ drop n buf), store received n, w')
    \<and> plain init w' \<and> spi_rx_wf spi w' \<and> spi_rx_contents spi w' = drop n C"
proof -
  let ?L = "rx_fifo_len spi" and ?p = "spi_ptrs spi kRxFifoParams w"
  have ok: "spi_fifo_ok spi 0 ?L" "fifo_ptrs_ok ?p (unat ?L)" using assms(2) by (auto simp: spi_fifo_wf_def)
  have L: "0 < unat ?L" "unat ?L \<le> 4096" using spi_wf_bounds [OF assms(2)] by auto
  have n: "n = min (fifo_count ?p (unat ?L)) buf_len" using assms(3,4) by (simp add: spi_contents_def)
  obtain w1 where w1: "run_state (decompress_ptrs spi kRxFifoParams) w = (?p, w1)" "plain init w1" "cur32 w1 = cur32 w"
    using decompress_effect [OF disjI1 [OF refl] assms(1)] by blast
  define q where "q = ?p\<lparr>read_ptr := fifo_advance (read_ptr ?p) n (unat ?L)\<rparr>"
  have q: "fifo_ptrs_ok q (unat ?L)" "fifo_count q (unat ?L) = fifo_count ?p (unat ?L) - n"
    using fifo_pop_ok [OF ok(2) L(2), of n] n by (auto simp: q_def)
  obtain w2 where w2: "spi_memcpy spi ?p 0 ?L buf buf_len True w1 = Some (n, q, take n C @ drop n buf, w2)"
      "plain init w2" "cur32 w2 = cur32 w"
    using spi_memcpy_recv [OF ok w1(2) n, of buf] w1(3) n assms(3)
    by (auto simp: q_def spi_contents_def take_ring_slice spi_sram_cong [OF w1(3)])
  define w3 where "w3 = (if n > 0 then snd (run_state (compress_ptrs spi kRxFifoParams q) w2) else w2)"
  have run: "dif_spi_device_recv (Some spi) (Some buf) buf_len received w =
      Some (kDifSpiDeviceOk, Some (take n C @ drop n buf), store received n, w3)"
    using w1(1) w2(1) by (simp add: dif_spi_device_recv_def w3_def Let_def)
  note ce = compress_effect [OF disjI1 [OF refl] w2(2) q(1) ok(1) refl]
  have q0: "q = ?p" if "n = 0" using that ok(2) L unfolding q_def fifo_ptrs_ok_def by (simp add: fifo_advance_0)
  have p3: "spi_ptrs spi kRxFifoParams w3 = q"
  proof (cases "n = 0")
    case True
    then show ?thesis using spi_ptrs_cong [OF w2(3)] q0 by (simp only: w3_def less_irrefl if_False)
  next
    case False
    then show ?thesis using ce(2) by (simp only: w3_def neq0_conv if_True)
  qed
  have s3: "spi_sram spi 0 w3 i = spi_sram spi 0 w i" if "i < unat ?L" for i
    using ce(3) [OF ok(1) that] spi_sram_cong [OF w2(3)] by (auto simp: w3_def)
  have "spi_rx_contents spi w3 = ring_slice (spi_sram spi 0 w) (unat ?L) (unat (ptr_offset (read_ptr q))) (fifo_count q (unat ?L))"
    unfolding spi_contents_def p3 using L(1) by (intro ring_slice_cong s3) simp
  also have "\<dots> = drop n C"
    unfolding assms(3) spi_contents_def using n q(2)
    by (simp add: drop_ring_slice q_def fifo_advance_offset [OF L])
  finally have "spi_rx_contents spi w3 = drop n C" .
  moreover have "plain init w3" using ce(1) w2(2) by (simp add: w3_def)
  moreover have "spi_rx_wf spi w3" using ok(1) q(1) by (simp add: spi_fifo_wf_def p3)
  ultimately show ?thesis using run by blast
qed

text \<open>An unconfigured buffer of four bytes at the front of the SRAM, holding two bytes across the wrap.\<close>

abbreviation spi0 :: dif_spi_device where
  "spi0 \<equiv> \<lparr>spi_params = \<lparr>spi_base_addr = \<lparr>mmio_base = 0x40000000\<rparr>\<rparr>, rx_fifo_len = 4, tx_fifo_len = 4\<rparr>"

abbreviation spi_regs0 :: "u32 \<Rightarrow> u32" where
  "spi_regs0 \<equiv> (\<lambda>a. if a = 0x40000020 \<or> a = 0x40000024 then 0x10010003 else if a = 0x40001000 then 0x44332211 else 0)"

lemma spi0_wf: "spi_rx_wf spi0 (plain_world spi_regs0)" "spi_tx_wf spi0 (plain_world spi_regs0)"
  by (simp_all add: spi_fifo_wf_def spi_fifo_ok_def spi_ptrs_def mmio_addr32_def kRxFifoParams_def kTxFifoParams_def
    ptrs_of_word_def half_ptr_def bitfield_field32_read_def fifo_ptrs_ok_def)

lemma spi0_rx_contents: "spi_rx_contents spi0 (plain_world spi_regs0) = [0x44, 0x11]"
proof -
  have p: "spi_ptrs spi0 kRxFifoParams (plain_world spi_regs0) =
      \<lparr>write_ptr = \<lparr>ptr_offset = 1, phase = True\<rparr>, read_ptr = \<lparr>ptr_offset = 3, phase = False\<rparr>\<rparr>"
    by (simp add: spi_ptrs_def mmio_addr32_def kRxFifoParams_def ptrs_of_word_def half_ptr_def bitfield_field32_read_def)
  have s: "spi_sram spi0 0 (plain_world spi_regs0) 3 = 0x44" "spi_sram spi0 0 (plain_world spi_regs0) 0 = 0x11"
    by (simp_all add: spi_sram_def spi_sram_addr_def mem_byte_def byte_of_def)
  have r: "ring_slice m L i 2 = [m (i mod L), m (Suc i mod L)]" for m :: "nat \<Rightarrow> u8" and L i
    by (simp add: ring_slice_def numeral_2_eq_2)
  show ?thesis unfolding spi_contents_def p by (simp add: fifo_count_def r s)
qed

theorem dif_spi_device_recv_correct_witness:
  "\<exists>w'. dif_spi_device_recv (Some spi0) (Some [0, 0, 0]) 3 (Some 0) (plain_world spi_regs0) =
      Some (kDifSpiDeviceOk, Some [0x44, 0x11, 0], Some 2, w') \<and> spi_rx_contents spi0 w' = []"
  using dif_spi_device_recv_correct [OF plain_plain_world spi0_wf(1) refl refl, of "[0, 0, 0]" 3 "Some 0"]
  unfolding spi0_rx_contents by auto

text \<open>
  C2. \<open>dif_spi_device_send\<close> implements the back of a queue: it appends the first \<open>min free buf_len\<close> bytes of the
  caller's buffer to the contents of the TX FIFO, reports that number, and leaves the contents and the pointers of
  the RX FIFO (which shares the SRAM) as they were.
\<close>

theorem dif_spi_device_send_correct:
  assumes "plain init w" "spi_tx_wf spi w"
    and "C = spi_tx_contents spi w" "n = min (unat (tx_fifo_len spi) - length C) buf_len" "n \<le> length buf"
  shows "\<exists>w'. dif_spi_device_send (Some spi) (Some buf) buf_len sent w = Some (kDifSpiDeviceOk, store sent n, w')
    \<and> plain init w' \<and> spi_tx_wf spi w' \<and> spi_tx_contents spi w' = C @ take n buf
    \<and> (spi_rx_wf spi w \<longrightarrow> spi_rx_wf spi w' \<and> spi_rx_contents spi w' = spi_rx_contents spi w)"
proof -
  let ?L = "tx_fifo_len spi" and ?B = "rx_fifo_len spi" and ?p = "spi_ptrs spi kTxFifoParams w"
  have ok: "spi_fifo_ok spi ?B ?L" "fifo_ptrs_ok ?p (unat ?L)" using assms(2) by (auto simp: spi_fifo_wf_def)
  have L: "0 < unat ?L" "unat ?L \<le> 4096" using spi_wf_bounds [OF assms(2)] by auto
  have n: "n = min (unat ?L - fifo_count ?p (unat ?L)) buf_len" using assms(3,4) by (simp add: spi_contents_def)
  obtain w1 where w1: "run_state (decompress_ptrs spi kTxFifoParams) w = (?p, w1)" "plain init w1" "cur32 w1 = cur32 w"
    using decompress_effect [OF disjI2 [OF refl] assms(1)] by blast
  define q where "q = ?p\<lparr>write_ptr := fifo_advance (write_ptr ?p) n (unat ?L)\<rparr>"
  have q: "fifo_ptrs_ok q (unat ?L)" "fifo_count q (unat ?L) = fifo_count ?p (unat ?L) + n" "read_ptr q = read_ptr ?p"
    using fifo_push_ok [OF ok(2) L(2), of n] n by (auto simp: q_def)
  obtain w2 where w2: "spi_memcpy spi ?p ?B ?L buf buf_len False w1 = Some (n, q, buf, w2)" "plain init w2"
      "outside_unchanged (spi_sram_addr spi ?B) (unat ?L) w1 w2"
      "ring_written (spi_sram spi ?B w) (spi_sram spi ?B w2) (unat ?L) (unat (ptr_offset (write_ptr ?p))) (take n buf)"
    using spi_memcpy_send [OF ok w1(2) n assms(5)] unfolding q_def spi_sram_cong [OF w1(3)] by blast
  define w3 where "w3 = (if n > 0 then snd (run_state (compress_ptrs spi kTxFifoParams q) w2) else w2)"
  have run: "dif_spi_device_send (Some spi) (Some buf) buf_len sent w = Some (kDifSpiDeviceOk, store sent n, w3)"
    using w1(1) w2(1) by (simp add: dif_spi_device_send_def w3_def Let_def)
  note ce = compress_effect [OF disjI2 [OF refl] w2(2) q(1) ok(1) refl]
  note out = outside_sram [OF w2(3) ok(1)]
  have reg2: "spi_ptrs spi params w2 = spi_ptrs spi params w" if "params = kRxFifoParams \<or> params = kTxFifoParams" for params
    using out(1) [OF spi_params_reg [OF that]] w1(3) by (simp add: spi_ptrs_def)
  have q0: "q = ?p" if "n = 0" using that ok(2) L unfolding q_def fifo_ptrs_ok_def by (simp add: fifo_advance_0)
  have p3: "spi_ptrs spi kTxFifoParams w3 = q"
  proof (cases "n = 0")
    case True
    then show ?thesis using reg2 q0 by (simp only: w3_def less_irrefl if_False simp_thms)
  next
    case False
    then show ?thesis using ce(2) by (simp only: w3_def neq0_conv if_True)
  qed
  have s3: "spi_sram spi ?B w3 i = spi_sram spi ?B w2 i" if "i < unat ?L" for i
    using ce(3) [OF ok(1) that] by (simp add: w3_def)
  have tk: "length (take n buf) = n" using assms(5) by simp
  have "spi_tx_contents spi w3 =
      ring_slice (spi_sram spi ?B w2) (unat ?L) (unat (ptr_offset (read_ptr ?p))) (fifo_count ?p (unat ?L) + n)"
    unfolding spi_contents_def p3 q(2,3) using L(1) by (intro ring_slice_cong s3) simp
  also have "\<dots> = C @ take n buf"
    using ring_written_append [OF L(1), of "fifo_count ?p (unat ?L)" "take n buf" "spi_sram spi ?B w"
        "spi_sram spi ?B w2" "unat (ptr_offset (read_ptr ?p))"] w2(4) n fifo_count_le [OF ok(2)]
    unfolding tk fifo_write_offset [OF ok(2)] ring_written_mod assms(3) spi_contents_def by simp
  finally have tx: "spi_tx_contents spi w3 = C @ take n buf" .
  have rx: "spi_rx_wf spi w3 \<and> spi_rx_contents spi w3 = spi_rx_contents spi w" if "spi_rx_wf spi w"
  proof -
    have okr: "spi_fifo_ok spi 0 ?B" using that by (simp add: spi_fifo_wf_def)
    have ne: "mmio_addr32 (spi_base spi) (ptr_reg_offset kRxFifoParams) \<noteq> mmio_addr32 (spi_base spi) (ptr_reg_offset kTxFifoParams)"
      by (simp add: kRxFifoParams_def kTxFifoParams_def mmio_addr32_def)
    have ptrs: "spi_ptrs spi kRxFifoParams w3 = spi_ptrs spi kRxFifoParams w"
      using reg2 [of kRxFifoParams] ce(4) [OF ne] by (simp add: w3_def spi_ptrs_def)
    have "spi_sram spi 0 w3 i = spi_sram spi 0 w i" if "i < unat ?B" for i
      using ce(3) [OF okr that] out(2) [OF okr _ that] spi_sram_cong [OF w1(3)] by (simp add: w3_def)
    then show ?thesis
      using that spi_contents_cong [OF _ _ ptrs, of ?B 0] spi_fifo_wf_cong [OF ptrs] spi_wf_bounds [OF that] by simp
  qed
  have "plain init w3" "spi_tx_wf spi w3" using ce(1) w2(2) ok(1) q(1) by (simp_all add: w3_def spi_fifo_wf_def p3 [unfolded w3_def])
  then show ?thesis using run tx rx by blast
qed

theorem dif_spi_device_send_correct_witness:
  "\<exists>w'. dif_spi_device_send (Some spi0) (Some [7, 8, 9]) 3 (Some 0) (plain_world spi_regs0) =
      Some (kDifSpiDeviceOk, Some 2, w') \<and> spi_rx_contents spi0 w' = [0x44, 0x11]"
proof -
  let ?w = "plain_world spi_regs0"
  have "spi_ptrs spi0 kTxFifoParams ?w =
      \<lparr>write_ptr = \<lparr>ptr_offset = 1, phase = True\<rparr>, read_ptr = \<lparr>ptr_offset = 3, phase = False\<rparr>\<rparr>"
    by (simp add: spi_ptrs_def mmio_addr32_def kTxFifoParams_def ptrs_of_word_def half_ptr_def bitfield_field32_read_def)
  then have len: "length (spi_tx_contents spi0 ?w) = 2" by (simp add: spi_contents_def fifo_count_def)
  have "2 = min (unat (tx_fifo_len spi0) - length (spi_tx_contents spi0 ?w)) 3" "2 \<le> length [7, 8, 9 :: u8]"
    unfolding len by simp_all
  from dif_spi_device_send_correct [OF plain_plain_world spi0_wf(2) refl this, of "Some 0"] spi0_wf(1)
  show ?thesis unfolding spi0_rx_contents by auto
qed

lemma spi_tx_end: "unat (rx - 1 + 1 + tx - 1 :: u16) = (unat rx + unat tx + 65535) mod 65536"
proof -
  have "(65535 :: u16) = - 1" by simp
  then have "rx - 1 + 1 + tx - 1 = (of_nat (unat rx + unat tx + 65535) :: u16)"
    unfolding of_nat_add of_nat_numeral by simp
  then show ?thesis by (simp only: unsigned_of_nat take_bit_eq_mod) simp
qed

lemma pred_mod: "0 < n \<Longrightarrow> n \<le> 4096 \<Longrightarrow> (n + 65535) mod 65536 = n - (1 :: nat)"
  by (cases n) simp_all

lemma and_half: "(ucast (h :: u16) :: u32) AND 0xffff = ucast h"
proof -
  have m: "(0xffff :: u32) = mask 16" by (simp add: mask_eq_exp_minus_1)
  show ?thesis unfolding m by (rule bit_word_eqI) (auto simp: bit_simps dest: bit_imp_le_length)
qed

text \<open>
  \<open>dif_spi_device_configure\<close> accepts the two lengths exactly when \<open>rx + tx - 1\<close>, computed in 16 bits, is below
  the SRAM size, and otherwise touches neither the bus nor the handle. For two positive lengths that fit the SRAM it
  records them, and the bounds registers give the RX FIFO the bytes \<open>0 .. rx - 1\<close> and the TX FIFO the bytes
  \<open>rx .. rx + tx - 1\<close>: the two parts satisfy the layout condition under which \<open>recv\<close> and \<open>send\<close> are proved.
\<close>

lemma dif_spi_device_configure_layout:
  assumes "plain init w" "rx = unat (cfg_rx_fifo_len config)" "tx = unat (cfg_tx_fifo_len config)"
    and "run_state (dif_spi_device_configure (Some spi) config) w = ((r, spi'), w')"
  shows "(r = kDifSpiDeviceOk \<longleftrightarrow> (rx + tx + 65535) mod 65536 < 4096)
    \<and> (r \<noteq> kDifSpiDeviceOk \<longrightarrow> r = kDifSpiDeviceBadArg \<and> spi' = Some spi \<and> w' = w)
    \<and> (0 < rx \<and> 0 < tx \<and> rx + tx \<le> 4096 \<longrightarrow>
        r = kDifSpiDeviceOk \<and> unat (rx_fifo_len (the spi')) = rx \<and> unat (tx_fifo_len (the spi')) = tx
        \<and> unat (bitfield_field32_read (cur32 w' (mmio_addr32 (spi_base spi) SPI_DEVICE_RXF_ADDR_REG_OFFSET)) SPI_DEVICE_RXF_ADDR_BASE_FIELD) = 0
        \<and> unat (bitfield_field32_read (cur32 w' (mmio_addr32 (spi_base spi) SPI_DEVICE_RXF_ADDR_REG_OFFSET)) SPI_DEVICE_RXF_ADDR_LIMIT_FIELD) = rx - 1
        \<and> unat (bitfield_field32_read (cur32 w' (mmio_addr32 (spi_base spi) SPI_DEVICE_TXF_ADDR_REG_OFFSET)) SPI_DEVICE_TXF_ADDR_BASE_FIELD) = rx
        \<and> unat (bitfield_field32_read (cur32 w' (mmio_addr32 (spi_base spi) SPI_DEVICE_TXF_ADDR_REG_OFFSET)) SPI_DEVICE_TXF_ADDR_LIMIT_FIELD) = rx + tx - 1
        \<and> (4 dvd unat (mmio_base (spi_base spi)) \<and> unat (mmio_base (spi_base spi)) + 8192 \<le> 4294967296 \<longrightarrow>
            spi_fifo_ok (the spi') 0 (rx_fifo_len (the spi')) \<and> spi_fifo_ok (the spi') (rx_fifo_len (the spi')) (tx_fifo_len (the spi'))))"
proof -
  define tx_end where "tx_end = cfg_rx_fifo_len config - 1 + 1 + cfg_tx_fifo_len config - 1"
  have acc: "tx_end \<ge> 4096 \<longleftrightarrow> \<not> (rx + tx + 65535) mod 65536 < 4096"
    unfolding word_le_nat_alt tx_end_def assms(2,3) spi_tx_end by (simp add: not_less)
  show ?thesis
  proof (cases "tx_end \<ge> 4096")
    case True
    then have "r = kDifSpiDeviceBadArg \<and> spi' = Some spi \<and> w' = w"
      using assms(4) unfolding dif_spi_device_configure_def Let_def option.case tx_end_def by simp
    moreover have "\<not> (0 < rx \<and> 0 < tx \<and> rx + tx \<le> 4096)"
      using acc True pred_mod [of "rx + tx"] by auto
    ultimately show ?thesis using acc True by simp
  next
    case False
    define rxb where "rxb = bitfield_field32_write (bitfield_field32_write 0 SPI_DEVICE_RXF_ADDR_BASE_FIELD 0)
      SPI_DEVICE_RXF_ADDR_LIMIT_FIELD (ucast (cfg_rx_fifo_len config - 1))"
    define txb where "txb = bitfield_field32_write (bitfield_field32_write 0 SPI_DEVICE_TXF_ADDR_BASE_FIELD
      (ucast (cfg_rx_fifo_len config))) SPI_DEVICE_TXF_ADDR_LIMIT_FIELD (ucast tx_end)"
    have res: "r = kDifSpiDeviceOk"
        "spi' = Some (spi\<lparr>rx_fifo_len := cfg_rx_fifo_len config, tx_fifo_len := cfg_tx_fifo_len config\<rparr>)"
      and w': "cur32 w' (mmio_addr32 (spi_base spi) SPI_DEVICE_RXF_ADDR_REG_OFFSET) = rxb"
        "cur32 w' (mmio_addr32 (spi_base spi) SPI_DEVICE_TXF_ADDR_REG_OFFSET) = txb"
      using assms(1,4) False unfolding dif_spi_device_configure_def Let_def option.case tx_end_def rxb_def txb_def
      by (auto simp: io_simps mmio_addr32_def)
    have fields: "bitfield_field32_read rxb SPI_DEVICE_RXF_ADDR_BASE_FIELD = 0"
        "bitfield_field32_read rxb SPI_DEVICE_RXF_ADDR_LIMIT_FIELD = ucast (cfg_rx_fifo_len config - 1)"
        "bitfield_field32_read txb SPI_DEVICE_TXF_ADDR_BASE_FIELD = ucast (cfg_rx_fifo_len config)"
        "bitfield_field32_read txb SPI_DEVICE_TXF_ADDR_LIMIT_FIELD = ucast tx_end"
      unfolding rxb_def txb_def
      by (simp_all add: field32_read_write_same field32_read_write_other field_ok_def field_bits_def and_half)
    have lim: "unat (cfg_rx_fifo_len config - 1) = rx - 1" if "0 < rx"
      using that assms(2) by (simp add: unat_minus_one unat_gt_0 flip: word_unat_eq_iff)
    have lim2: "unat tx_end = rx + tx - 1" if "0 < rx" "0 < tx" "rx + tx \<le> 4096"
      using that pred_mod [of "rx + tx"] unfolding tx_end_def spi_tx_end assms(2,3) by simp
    show ?thesis
      using acc False res w' fields lim lim2 assms(2,3) by (simp add: spi_fifo_ok_def)
  qed
qed

abbreviation spi_config :: "u16 \<Rightarrow> u16 \<Rightarrow> dif_spi_device_config" where
  "spi_config rx tx \<equiv> \<lparr>clock_polarity = kDifSpiDeviceEdgePositive, data_phase = kDifSpiDeviceEdgeNegative,
     tx_order = kDifSpiDeviceBitOrderMsbToLsb, rx_order = kDifSpiDeviceBitOrderMsbToLsb, rx_fifo_timeout = 63,
     cfg_rx_fifo_len = rx, cfg_tx_fifo_len = tx\<rparr>"

lemma dif_spi_device_configure_layout_witness:
  "\<exists>w' spi'. run_state (dif_spi_device_configure (Some spi0) (spi_config 2048 1024)) (plain_world (\<lambda>_. 0)) =
     ((kDifSpiDeviceOk, Some spi'), w') \<and> spi_fifo_ok spi' 2048 1024"
proof -
  obtain r spi' w' where run: "run_state (dif_spi_device_configure (Some spi0) (spi_config 2048 1024)) (plain_world (\<lambda>_. 0)) =
      ((r, spi'), w')" by (metis prod.collapse)
  have c: "2048 = unat (cfg_rx_fifo_len (spi_config 2048 1024))" "1024 = unat (cfg_tx_fifo_len (spi_config 2048 1024))"
    by simp_all
  from dif_spi_device_configure_layout [OF plain_plain_world c run]
  have "r = kDifSpiDeviceOk" by simp
  moreover from this run have "spi' = Some (spi0\<lparr>rx_fifo_len := 2048, tx_fifo_len := 1024\<rparr>)"
    by (simp add: dif_spi_device_configure_def Let_def io_simps split: if_splits)
  ultimately show ?thesis using run by (simp add: spi_fifo_ok_def)
qed

text \<open>
  The bound check of \<open>dif_spi_device_configure\<close> wraps: an RX FIFO of 0xF000 bytes and a TX FIFO of 0x1800 bytes,
  together more than thirteen times the SRAM, are accepted, and the RX limit written lies outside the SRAM.
\<close>

lemma dif_spi_device_configure_wraps:
  "\<exists>w'. run_state (dif_spi_device_configure (Some spi0) (spi_config 0xF000 0x1800)) (plain_world (\<lambda>_. 0)) =
     ((kDifSpiDeviceOk, Some (spi0\<lparr>rx_fifo_len := 0xF000, tx_fifo_len := 0x1800\<rparr>)), w')
   \<and> cur32 w' (mmio_addr32 (spi_base spi0) SPI_DEVICE_RXF_ADDR_REG_OFFSET) = 0xEFFF0000"
  by (simp add: dif_spi_device_configure_def Let_def io_simps mmio_addr32_def
    bitfield_field32_write_def cur32_def plain_world_def)

text \<open>The chunk loop on a FIFO of length zero makes no progress.\<close>

lemma spi_copy_loop_empty:
  "spi_copy_loop spi base L is_recv p bl buf w = Some r \<Longrightarrow> \<not> (L = 0 \<and> ptr_offset p = 0 \<and> bl \<noteq> 0)"
proof (erule spi_copy_loop.raw_induct [rotated])
  fix f spi base L is_recv p bl buf w r
  assume ih: "\<And>spi base L is_recv p bl buf w y. f spi base L is_recv p bl buf w = Some (y :: fifo_ptr \<times> u8 list \<times> world) \<Longrightarrow>
      \<not> (L = 0 \<and> ptr_offset p = 0 \<and> bl \<noteq> (0 :: u16))"
    and body: "(if (0 :: u16) < bl
      then let mmio_offset = SPI_DEVICE_BUFFER_REG_OFFSET + ucast base + ucast (ptr_offset p);
               bytes_until_wrap = (ucast L - ucast (ptr_offset p) :: u32);
               bytes_to_copy = if bytes_until_wrap < ucast bl then ucast bytes_until_wrap else bl;
               (buf, w) = if is_recv
                 then run_state (mmio_region_memcpy_from_mmio32 (spi_base spi) mmio_offset buf (unat bytes_to_copy)) w
                 else (buf, snd (run_state (mmio_region_memcpy_to_mmio32 (spi_base spi) mmio_offset buf (unat bytes_to_copy)) w));
               ptr = fifo_ptr_increment p bytes_to_copy L
           in f spi base L is_recv ptr (bl - bytes_to_copy) (drop (unat bytes_to_copy) buf) w \<bind>
              (\<lambda>(ptr, rest, w). Some (ptr, take (unat bytes_to_copy) buf @ rest, w))
      else Some (p, buf, w)) = Some r"
  show "\<not> (L = 0 \<and> ptr_offset p = 0 \<and> bl \<noteq> 0)"
  proof
    assume a: "L = 0 \<and> ptr_offset p = 0 \<and> bl \<noteq> 0"
    have z: "mmio_region_memcpy32 b moff xs 0 d = ret xs" for b moff xs d by (simp add: mmio_region_memcpy32_def)
    have "(ucast bl :: u32) \<noteq> 0" using a by (metis unat_ucast_widen(2) unat_eq_zero unsigned_0)
    with a body obtain y where "f spi base L is_recv (fifo_ptr_increment p 0 L) bl buf w = Some y"
      by (auto simp: word_greater_zero_iff Let_def mmio_region_memcpy_from_mmio32_def mmio_region_memcpy_to_mmio32_def z
        split: if_splits option.splits prod.splits)
    then show False using ih a by (fastforce simp: fifo_ptr_increment_def Let_def)
  qed
qed

text \<open>
  C40. On a handle that was initialised but not configured (both lengths 0) \<open>dif_spi_device_recv\<close> never returns once
  the RX pointer register shows data in front of a read pointer at offset 0: the chunk loop copies zero bytes for ever.
\<close>

theorem dif_spi_device_recv_unconfigured_diverges:
  assumes "rx_fifo_len spi = 0" "0 < buf_len"
    and "spi_ptrs spi kRxFifoParams w = \<lparr>write_ptr = \<lparr>ptr_offset = k, phase = b\<rparr>, read_ptr = \<lparr>ptr_offset = 0, phase = b\<rparr>\<rparr>"
    and "0 < k" "buf_len < 65536"
  shows "dif_spi_device_recv (Some spi) (Some buf) buf_len received w = None"
proof -
  let ?p = "\<lparr>write_ptr = \<lparr>ptr_offset = k, phase = b\<rparr>, read_ptr = \<lparr>ptr_offset = 0, phase = b\<rparr>\<rparr>"
  obtain w1 where run: "run_state (decompress_ptrs spi kRxFifoParams) w = (?p, w1)"
    using assms(3) by (simp add: decompress_run io_simps spi_ptrs_def)
  define bl where "bl = (if unat k > buf_len then of_nat buf_len else k)"
  have "unat bl \<noteq> 0" using assms(2,4,5) by (simp add: bl_def unat_of_nat_u16 word_less_nat_alt)
  then have bl: "bl \<noteq> 0" by auto
  then have "spi_copy_loop spi 0 0 True \<lparr>ptr_offset = 0, phase = b\<rparr> bl buf w1 = None"
    using spi_copy_loop_empty by (metis fifo_ptr.select_convs(1) not_None_eq)
  then have "spi_memcpy spi ?p 0 0 buf buf_len True w1 = None"
    using bl by (simp add: spi_memcpy_def fifo_bytes_in_use_def bl_def [symmetric])
  then show ?thesis using run assms(1) by (simp add: dif_spi_device_recv_def Let_def)
qed

theorem dif_spi_device_recv_unconfigured_diverges_witness:
  "dif_spi_device_recv (Some (spi0\<lparr>rx_fifo_len := 0\<rparr>)) (Some [0]) 1 None (plain_world (\<lambda>a. 0x00040000)) = None"
proof -
  have "spi_ptrs (spi0\<lparr>rx_fifo_len := 0\<rparr>) kRxFifoParams (plain_world (\<lambda>a. 0x00040000)) =
      \<lparr>write_ptr = \<lparr>ptr_offset = 4, phase = False\<rparr>, read_ptr = \<lparr>ptr_offset = 0, phase = False\<rparr>\<rparr>"
    by (simp add: spi_ptrs_def kRxFifoParams_def ptrs_of_word_def half_ptr_def bitfield_field32_read_def)
  from dif_spi_device_recv_unconfigured_diverges [OF _ _ this, of 1 "[0]" None] show ?thesis by simp
qed

section \<open>The interrupt block\<close>

abbreviation spi_irq_bit :: "dif_spi_device_irq \<Rightarrow> nat option" where
  "spi_irq_bit irq \<equiv> map_option unat (irq_index irq)"

lemma irq_index_bit: "irq_index i = Some n \<Longrightarrow> unat n < 6"
  by (cases i) auto

lemma irq_index_inject: "irq_index i = Some m \<Longrightarrow> irq_index j = Some n \<Longrightarrow> unat m = unat n \<Longrightarrow> i = j"
  by (cases i; cases j) auto

interpretation spi_irqs: irq_block spi_irq_bit "mmio_addr32 (spi_base spi) SPI_DEVICE_INTR_ENABLE_REG_OFFSET"
    "\<lambda>i b w. snd (run_state (dif_spi_device_irq_set_enabled (Some spi) i
       (if b then kDifSpiDeviceToggleEnabled else kDifSpiDeviceToggleDisabled)) w)"
    "\<lambda>i w. snd (fst (run_state (dif_spi_device_irq_get_enabled (Some spi) i (Some kDifSpiDeviceToggleDisabled)) w))
       = Some kDifSpiDeviceToggleEnabled"
    "\<lambda>w. case run_state (dif_spi_device_irq_disable_all (Some spi) (Some 0)) w of ((_, s), w') \<Rightarrow> (the s, w')"
    "\<lambda>s w. snd (run_state (dif_spi_device_irq_restore_all (Some spi) (Some s)) w)"
  for spi
  by unfold_locales
    (auto simp: dif_spi_device_irq_set_enabled_def dif_spi_device_irq_get_enabled_def dif_spi_device_irq_disable_all_def
      dif_spi_device_irq_restore_all_def io_simps bit32_read_eq_bit dest: irq_index_inject irq_index_bit split: if_splits)

end
