(* ===== verification/DifI2c.thy ===== *)
theory DifI2c
  imports IrqBlock
begin

text \<open>
  The I2C host driver (\<open>sw/device/lib/dif/dif_i2c.c\<close>): computing and writing the bus timing,
  FIFO control, interrupts, pin overrides, and the format FIFO that drives a transfer.
  Register offsets and fields are those of \<open>hw/ip/i2c/data/i2c.hjson\<close>.
\<close>

section \<open>Registers\<close>

abbreviation I2C_INTR_STATE_REG_OFFSET :: u32 where "I2C_INTR_STATE_REG_OFFSET \<equiv> 0x0"
abbreviation I2C_INTR_ENABLE_REG_OFFSET :: u32 where "I2C_INTR_ENABLE_REG_OFFSET \<equiv> 0x4"
abbreviation I2C_INTR_TEST_REG_OFFSET :: u32 where "I2C_INTR_TEST_REG_OFFSET \<equiv> 0x8"
abbreviation I2C_CTRL_REG_OFFSET :: u32 where "I2C_CTRL_REG_OFFSET \<equiv> 0xc"
abbreviation I2C_RDATA_REG_OFFSET :: u32 where "I2C_RDATA_REG_OFFSET \<equiv> 0x14"
abbreviation I2C_FDATA_REG_OFFSET :: u32 where "I2C_FDATA_REG_OFFSET \<equiv> 0x18"
abbreviation I2C_FIFO_CTRL_REG_OFFSET :: u32 where "I2C_FIFO_CTRL_REG_OFFSET \<equiv> 0x1c"
abbreviation I2C_FIFO_STATUS_REG_OFFSET :: u32 where "I2C_FIFO_STATUS_REG_OFFSET \<equiv> 0x20"
abbreviation I2C_OVRD_REG_OFFSET :: u32 where "I2C_OVRD_REG_OFFSET \<equiv> 0x24"
abbreviation I2C_VAL_REG_OFFSET :: u32 where "I2C_VAL_REG_OFFSET \<equiv> 0x28"
abbreviation I2C_TIMING0_REG_OFFSET :: u32 where "I2C_TIMING0_REG_OFFSET \<equiv> 0x2c"
abbreviation I2C_TIMING1_REG_OFFSET :: u32 where "I2C_TIMING1_REG_OFFSET \<equiv> 0x30"
abbreviation I2C_TIMING2_REG_OFFSET :: u32 where "I2C_TIMING2_REG_OFFSET \<equiv> 0x34"
abbreviation I2C_TIMING3_REG_OFFSET :: u32 where "I2C_TIMING3_REG_OFFSET \<equiv> 0x38"
abbreviation I2C_TIMING4_REG_OFFSET :: u32 where "I2C_TIMING4_REG_OFFSET \<equiv> 0x3c"
abbreviation I2C_CTRL_ENABLEHOST_BIT :: u32 where "I2C_CTRL_ENABLEHOST_BIT \<equiv> 0"
abbreviation I2C_FDATA_START_BIT :: u32 where "I2C_FDATA_START_BIT \<equiv> 8"
abbreviation I2C_FDATA_STOP_BIT :: u32 where "I2C_FDATA_STOP_BIT \<equiv> 9"
abbreviation I2C_FDATA_READ_BIT :: u32 where "I2C_FDATA_READ_BIT \<equiv> 10"
abbreviation I2C_FDATA_RCONT_BIT :: u32 where "I2C_FDATA_RCONT_BIT \<equiv> 11"
abbreviation I2C_FDATA_NAKOK_BIT :: u32 where "I2C_FDATA_NAKOK_BIT \<equiv> 12"
abbreviation I2C_FIFO_CTRL_RXRST_BIT :: u32 where "I2C_FIFO_CTRL_RXRST_BIT \<equiv> 0"
abbreviation I2C_FIFO_CTRL_FMTRST_BIT :: u32 where "I2C_FIFO_CTRL_FMTRST_BIT \<equiv> 1"
abbreviation I2C_OVRD_TXOVRDEN_BIT :: u32 where "I2C_OVRD_TXOVRDEN_BIT \<equiv> 0"
abbreviation I2C_OVRD_SCLVAL_BIT :: u32 where "I2C_OVRD_SCLVAL_BIT \<equiv> 1"
abbreviation I2C_OVRD_SDAVAL_BIT :: u32 where "I2C_OVRD_SDAVAL_BIT \<equiv> 2"
abbreviation I2C_RDATA_RDATA_FIELD :: bitfield_field32 where
  "I2C_RDATA_RDATA_FIELD \<equiv> \<lparr>field_mask = 0xff, field_index = 0\<rparr>"
abbreviation I2C_FDATA_FBYTE_FIELD :: bitfield_field32 where
  "I2C_FDATA_FBYTE_FIELD \<equiv> \<lparr>field_mask = 0xff, field_index = 0\<rparr>"
abbreviation I2C_FIFO_CTRL_RXILVL_FIELD :: bitfield_field32 where
  "I2C_FIFO_CTRL_RXILVL_FIELD \<equiv> \<lparr>field_mask = 0x7, field_index = 2\<rparr>"
abbreviation I2C_FIFO_CTRL_FMTILVL_FIELD :: bitfield_field32 where
  "I2C_FIFO_CTRL_FMTILVL_FIELD \<equiv> \<lparr>field_mask = 0x3, field_index = 5\<rparr>"
abbreviation I2C_FIFO_STATUS_FMTLVL_FIELD :: bitfield_field32 where
  "I2C_FIFO_STATUS_FMTLVL_FIELD \<equiv> \<lparr>field_mask = 0x3f, field_index = 0\<rparr>"
abbreviation I2C_FIFO_STATUS_RXLVL_FIELD :: bitfield_field32 where
  "I2C_FIFO_STATUS_RXLVL_FIELD \<equiv> \<lparr>field_mask = 0x3f, field_index = 16\<rparr>"
abbreviation I2C_VAL_SCL_RX_FIELD :: bitfield_field32 where
  "I2C_VAL_SCL_RX_FIELD \<equiv> \<lparr>field_mask = 0xffff, field_index = 0\<rparr>"
abbreviation I2C_VAL_SDA_RX_FIELD :: bitfield_field32 where
  "I2C_VAL_SDA_RX_FIELD \<equiv> \<lparr>field_mask = 0xffff, field_index = 16\<rparr>"
abbreviation I2C_TIMING0_THIGH_FIELD :: bitfield_field32 where
  "I2C_TIMING0_THIGH_FIELD \<equiv> \<lparr>field_mask = 0xffff, field_index = 0\<rparr>"
abbreviation I2C_TIMING0_TLOW_FIELD :: bitfield_field32 where
  "I2C_TIMING0_TLOW_FIELD \<equiv> \<lparr>field_mask = 0xffff, field_index = 16\<rparr>"
abbreviation I2C_TIMING1_T_R_FIELD :: bitfield_field32 where
  "I2C_TIMING1_T_R_FIELD \<equiv> \<lparr>field_mask = 0xffff, field_index = 0\<rparr>"
abbreviation I2C_TIMING1_T_F_FIELD :: bitfield_field32 where
  "I2C_TIMING1_T_F_FIELD \<equiv> \<lparr>field_mask = 0xffff, field_index = 16\<rparr>"
abbreviation I2C_TIMING2_TSU_STA_FIELD :: bitfield_field32 where
  "I2C_TIMING2_TSU_STA_FIELD \<equiv> \<lparr>field_mask = 0xffff, field_index = 0\<rparr>"
abbreviation I2C_TIMING2_THD_STA_FIELD :: bitfield_field32 where
  "I2C_TIMING2_THD_STA_FIELD \<equiv> \<lparr>field_mask = 0xffff, field_index = 16\<rparr>"
abbreviation I2C_TIMING3_TSU_DAT_FIELD :: bitfield_field32 where
  "I2C_TIMING3_TSU_DAT_FIELD \<equiv> \<lparr>field_mask = 0xffff, field_index = 0\<rparr>"
abbreviation I2C_TIMING3_THD_DAT_FIELD :: bitfield_field32 where
  "I2C_TIMING3_THD_DAT_FIELD \<equiv> \<lparr>field_mask = 0xffff, field_index = 16\<rparr>"
abbreviation I2C_TIMING4_TSU_STO_FIELD :: bitfield_field32 where
  "I2C_TIMING4_TSU_STO_FIELD \<equiv> \<lparr>field_mask = 0xffff, field_index = 0\<rparr>"
abbreviation I2C_TIMING4_T_BUF_FIELD :: bitfield_field32 where
  "I2C_TIMING4_T_BUF_FIELD \<equiv> \<lparr>field_mask = 0xffff, field_index = 16\<rparr>"

section \<open>Types\<close>

datatype dif_i2c_toggle =
  kDifI2cToggleEnabled | kDifI2cToggleDisabled | dif_i2c_toggle_other nat

datatype dif_i2c_speed =
  kDifI2cSpeedStandard | kDifI2cSpeedFast | kDifI2cSpeedFastPlus | dif_i2c_speed_other nat

record dif_i2c_timing_config =
  lowest_target_device_speed :: dif_i2c_speed
  clock_period_nanos :: u32
  sda_rise_nanos :: u32
  sda_fall_nanos :: u32
  scl_period_nanos :: u32

record dif_i2c_params =
  i2c_base_addr :: mmio_region

record dif_i2c_config =
  scl_time_high_cycles :: u16
  scl_time_low_cycles :: u16
  rise_cycles :: u16
  fall_cycles :: u16
  start_signal_setup_cycles :: u16
  start_signal_hold_cycles :: u16
  data_signal_setup_cycles :: u16
  data_signal_hold_cycles :: u16
  stop_signal_setup_cycles :: u16
  stop_signal_hold_cycles :: u16

record dif_i2c =
  i2c_params :: dif_i2c_params

datatype dif_i2c_result = kDifI2cOk | kDifI2cError | kDifI2cBadArg

datatype dif_i2c_irq =
  kDifI2cIrqFmtWatermarkUnderflow | kDifI2cIrqRxWatermarkOverflow | kDifI2cIrqFmtFifoOverflow
| kDifI2cIrqRxFifoOverflow | kDifI2cIrqNak | kDifI2cIrqSclInterference | kDifI2cIrqSdaInterference
| kDifI2cIrqClockStretchTimeout | kDifI2cIrqSdaUnstable | dif_i2c_irq_other nat

datatype dif_i2c_level =
  kDifI2cLevel1Byte | kDifI2cLevel4Byte | kDifI2cLevel8Byte | kDifI2cLevel16Byte
| kDifI2cLevel30Byte | dif_i2c_level_other nat

record dif_i2c_fmt_flags =
  fmt_start :: bool
  fmt_stop :: bool
  fmt_read :: bool
  fmt_read_cont :: bool
  fmt_suppress_nak_irq :: bool

datatype dif_i2c_fmt =
  kDifI2cFmtStart | kDifI2cFmtTx | kDifI2cFmtTxStop | kDifI2cFmtRx | kDifI2cFmtRxContinue
| kDifI2cFmtRxStop | dif_i2c_fmt_other nat

abbreviation i2c_base :: "dif_i2c \<Rightarrow> mmio_region" where
  "i2c_base i2c \<equiv> i2c_base_addr (i2c_params i2c)"

section \<open>Timing\<close>

text \<open>
  The quotient is cut to the 16 bits of the return type. A clock period of 0 divides by zero in
  the source, which is undefined; the header forbids it and the results below assume it away.
\<close>

definition round_up_divide :: "u32 \<Rightarrow> u32 \<Rightarrow> u16" where
  "round_up_divide a b = (if a = 0 then 0 else ucast ((a - 1) div b + 1))"

abbreviation i2c_config_zero :: dif_i2c_config where
  "i2c_config_zero \<equiv> \<lparr>scl_time_high_cycles = 0, scl_time_low_cycles = 0, rise_cycles = 0, fall_cycles = 0,
     start_signal_setup_cycles = 0, start_signal_hold_cycles = 0, data_signal_setup_cycles = 0,
     data_signal_hold_cycles = 0, stop_signal_setup_cycles = 0, stop_signal_hold_cycles = 0\<rparr>"

fun default_timing_for_speed :: "dif_i2c_speed \<Rightarrow> u32 \<Rightarrow> dif_i2c_config" where
  "default_timing_for_speed kDifI2cSpeedStandard clk = i2c_config_zero\<lparr>
     scl_time_high_cycles := round_up_divide 4000 clk,
     scl_time_low_cycles := round_up_divide 4700 clk,
     start_signal_setup_cycles := round_up_divide 4700 clk,
     start_signal_hold_cycles := round_up_divide 4000 clk,
     data_signal_setup_cycles := round_up_divide 250 clk,
     data_signal_hold_cycles := 0,
     stop_signal_setup_cycles := round_up_divide 4000 clk,
     stop_signal_hold_cycles := round_up_divide 4700 clk\<rparr>"
| "default_timing_for_speed kDifI2cSpeedFast clk = i2c_config_zero\<lparr>
     scl_time_high_cycles := round_up_divide 600 clk,
     scl_time_low_cycles := round_up_divide 1300 clk,
     start_signal_setup_cycles := round_up_divide 600 clk,
     start_signal_hold_cycles := round_up_divide 600 clk,
     data_signal_setup_cycles := round_up_divide 100 clk,
     data_signal_hold_cycles := 0,
     stop_signal_setup_cycles := round_up_divide 600 clk,
     stop_signal_hold_cycles := round_up_divide 1300 clk\<rparr>"
| "default_timing_for_speed kDifI2cSpeedFastPlus clk = i2c_config_zero\<lparr>
     scl_time_high_cycles := round_up_divide 260 clk,
     scl_time_low_cycles := round_up_divide 500 clk,
     start_signal_setup_cycles := round_up_divide 260 clk,
     start_signal_hold_cycles := round_up_divide 260 clk,
     data_signal_setup_cycles := round_up_divide 50 clk,
     data_signal_hold_cycles := 0,
     stop_signal_setup_cycles := round_up_divide 260 clk,
     stop_signal_hold_cycles := round_up_divide 500 clk\<rparr>"
| "default_timing_for_speed (dif_i2c_speed_other _) clk = i2c_config_zero"

abbreviation kNanosPerKBaud :: u32 where "kNanosPerKBaud \<equiv> 1000000"

fun lowest_speed_khz :: "dif_i2c_speed \<Rightarrow> u32 option" where
  "lowest_speed_khz kDifI2cSpeedStandard = Some 100"
| "lowest_speed_khz kDifI2cSpeedFast = Some 400"
| "lowest_speed_khz kDifI2cSpeedFastPlus = Some 1000"
| "lowest_speed_khz (dif_i2c_speed_other _) = None"

definition dif_i2c_compute_timing ::
  "dif_i2c_timing_config \<Rightarrow> dif_i2c_config ptr \<Rightarrow> dif_i2c_result \<times> dif_i2c_config ptr" where
  "dif_i2c_compute_timing timing_config config =
     (if config = NULL then (kDifI2cBadArg, config)
      else case lowest_speed_khz (lowest_target_device_speed timing_config) of
        None \<Rightarrow> (kDifI2cBadArg, config)
      | Some lowest_target_device_speed_khz \<Rightarrow>
        (let clk = clock_period_nanos timing_config;
             c = default_timing_for_speed (lowest_target_device_speed timing_config) clk;
             c = c\<lparr>rise_cycles := round_up_divide (sda_rise_nanos timing_config) clk\<rparr>;
             c = c\<lparr>fall_cycles := round_up_divide (sda_fall_nanos timing_config) clk\<rparr>;
             period = scl_period_nanos timing_config;
             slowest_scl_period_nanos = kNanosPerKBaud div lowest_target_device_speed_khz;
             period = (if period < slowest_scl_period_nanos then slowest_scl_period_nanos else period);
             scl_period_cycles = round_up_divide period clk;
             lengthened_high_cycles = scl_period_cycles - scl_time_low_cycles c - rise_cycles c - fall_cycles c;
             c = (if lengthened_high_cycles > scl_time_high_cycles c
                  then c\<lparr>scl_time_high_cycles := lengthened_high_cycles\<rparr> else c)
         in (kDifI2cOk, store config c)))"

definition dif_i2c_init :: "dif_i2c_params \<Rightarrow> dif_i2c ptr \<Rightarrow> dif_i2c_result \<times> dif_i2c ptr" where
  "dif_i2c_init params i2c =
     (case i2c of NULL \<Rightarrow> (kDifI2cBadArg, NULL)
      | Some s \<Rightarrow> (kDifI2cOk, store i2c (s\<lparr>i2c_params := params\<rparr>)))"

section \<open>Configuration\<close>

definition dif_i2c_configure :: "dif_i2c ptr \<Rightarrow> dif_i2c_config \<Rightarrow> dif_i2c_result io" where
  "dif_i2c_configure i2c config =
     (case i2c of NULL \<Rightarrow> ret kDifI2cBadArg
      | Some i2c \<Rightarrow> do {
          let timing0 = 0;
          let timing0 = bitfield_field32_write timing0 I2C_TIMING0_THIGH_FIELD (ucast (scl_time_high_cycles config));
          let timing0 = bitfield_field32_write timing0 I2C_TIMING0_TLOW_FIELD (ucast (scl_time_low_cycles config));
          _ \<leftarrow> mmio_region_write32 (i2c_base i2c) I2C_TIMING0_REG_OFFSET timing0;
          let timing1 = 0;
          let timing1 = bitfield_field32_write timing1 I2C_TIMING1_T_R_FIELD (ucast (rise_cycles config));
          let timing1 = bitfield_field32_write timing1 I2C_TIMING1_T_F_FIELD (ucast (fall_cycles config));
          _ \<leftarrow> mmio_region_write32 (i2c_base i2c) I2C_TIMING1_REG_OFFSET timing1;
          let timing2 = 0;
          let timing2 = bitfield_field32_write timing2 I2C_TIMING2_TSU_STA_FIELD (ucast (start_signal_setup_cycles config));
          let timing2 = bitfield_field32_write timing2 I2C_TIMING2_THD_STA_FIELD (ucast (start_signal_hold_cycles config));
          _ \<leftarrow> mmio_region_write32 (i2c_base i2c) I2C_TIMING2_REG_OFFSET timing2;
          let timing3 = 0;
          let timing3 = bitfield_field32_write timing3 I2C_TIMING3_TSU_DAT_FIELD (ucast (data_signal_setup_cycles config));
          let timing3 = bitfield_field32_write timing3 I2C_TIMING3_THD_DAT_FIELD (ucast (data_signal_hold_cycles config));
          _ \<leftarrow> mmio_region_write32 (i2c_base i2c) I2C_TIMING3_REG_OFFSET timing3;
          let timing4 = 0;
          let timing4 = bitfield_field32_write timing4 I2C_TIMING4_TSU_STO_FIELD (ucast (stop_signal_setup_cycles config));
          let timing4 = bitfield_field32_write timing4 I2C_TIMING4_T_BUF_FIELD (ucast (stop_signal_hold_cycles config));
          _ \<leftarrow> mmio_region_write32 (i2c_base i2c) I2C_TIMING4_REG_OFFSET timing4;
          ret kDifI2cOk
        })"

definition dif_i2c_reset_rx_fifo :: "dif_i2c ptr \<Rightarrow> dif_i2c_result io" where
  "dif_i2c_reset_rx_fifo i2c =
     (case i2c of NULL \<Rightarrow> ret kDifI2cBadArg
      | Some i2c \<Rightarrow> do {
          reg \<leftarrow> mmio_region_read32 (i2c_base i2c) I2C_FIFO_CTRL_REG_OFFSET;
          let reg = bitfield_bit32_write reg I2C_FIFO_CTRL_RXRST_BIT True;
          _ \<leftarrow> mmio_region_write32 (i2c_base i2c) I2C_FIFO_CTRL_REG_OFFSET reg;
          ret kDifI2cOk
        })"

definition dif_i2c_reset_fmt_fifo :: "dif_i2c ptr \<Rightarrow> dif_i2c_result io" where
  "dif_i2c_reset_fmt_fifo i2c =
     (case i2c of NULL \<Rightarrow> ret kDifI2cBadArg
      | Some i2c \<Rightarrow> do {
          reg \<leftarrow> mmio_region_read32 (i2c_base i2c) I2C_FIFO_CTRL_REG_OFFSET;
          let reg = bitfield_bit32_write reg I2C_FIFO_CTRL_FMTRST_BIT True;
          _ \<leftarrow> mmio_region_write32 (i2c_base i2c) I2C_FIFO_CTRL_REG_OFFSET reg;
          ret kDifI2cOk
        })"

fun i2c_rx_level_value :: "dif_i2c_level \<Rightarrow> u32 option" where
  "i2c_rx_level_value kDifI2cLevel1Byte = Some 0"
| "i2c_rx_level_value kDifI2cLevel4Byte = Some 1"
| "i2c_rx_level_value kDifI2cLevel8Byte = Some 2"
| "i2c_rx_level_value kDifI2cLevel16Byte = Some 3"
| "i2c_rx_level_value kDifI2cLevel30Byte = Some 4"
| "i2c_rx_level_value (dif_i2c_level_other _) = None"

fun i2c_fmt_level_value :: "dif_i2c_level \<Rightarrow> u32 option" where
  "i2c_fmt_level_value kDifI2cLevel1Byte = Some 0"
| "i2c_fmt_level_value kDifI2cLevel4Byte = Some 1"
| "i2c_fmt_level_value kDifI2cLevel8Byte = Some 2"
| "i2c_fmt_level_value kDifI2cLevel16Byte = Some 3"
| "i2c_fmt_level_value kDifI2cLevel30Byte = None"
| "i2c_fmt_level_value (dif_i2c_level_other _) = None"

definition dif_i2c_set_watermarks :: "dif_i2c ptr \<Rightarrow> dif_i2c_level \<Rightarrow> dif_i2c_level \<Rightarrow> dif_i2c_result io" where
  "dif_i2c_set_watermarks i2c rx_level fmt_level =
     (case i2c of NULL \<Rightarrow> ret kDifI2cBadArg
      | Some i2c \<Rightarrow>
        (case i2c_rx_level_value rx_level of None \<Rightarrow> ret kDifI2cBadArg
         | Some rx_level_value \<Rightarrow>
           (case i2c_fmt_level_value fmt_level of None \<Rightarrow> ret kDifI2cBadArg
            | Some fmt_level_value \<Rightarrow> do {
                ctrl_value \<leftarrow> mmio_region_read32 (i2c_base i2c) I2C_FIFO_CTRL_REG_OFFSET;
                let ctrl_value = bitfield_field32_write ctrl_value I2C_FIFO_CTRL_RXILVL_FIELD rx_level_value;
                let ctrl_value = bitfield_field32_write ctrl_value I2C_FIFO_CTRL_FMTILVL_FIELD fmt_level_value;
                _ \<leftarrow> mmio_region_write32 (i2c_base i2c) I2C_FIFO_CTRL_REG_OFFSET ctrl_value;
                ret kDifI2cOk
              })))"

section \<open>Interrupts\<close>

text \<open>\<open>dif_i2c_irq_get_enabled\<close> writes through \<open>state\<close> without a check; here a write to NULL has no effect.\<close>

fun i2c_irq_index :: "dif_i2c_irq \<Rightarrow> u32 option" where
  "i2c_irq_index kDifI2cIrqFmtWatermarkUnderflow = Some 0"
| "i2c_irq_index kDifI2cIrqRxWatermarkOverflow = Some 1"
| "i2c_irq_index kDifI2cIrqFmtFifoOverflow = Some 2"
| "i2c_irq_index kDifI2cIrqRxFifoOverflow = Some 3"
| "i2c_irq_index kDifI2cIrqNak = Some 4"
| "i2c_irq_index kDifI2cIrqSclInterference = Some 5"
| "i2c_irq_index kDifI2cIrqSdaInterference = Some 6"
| "i2c_irq_index kDifI2cIrqClockStretchTimeout = Some 7"
| "i2c_irq_index kDifI2cIrqSdaUnstable = Some 8"
| "i2c_irq_index (dif_i2c_irq_other _) = None"

definition dif_i2c_irq_is_pending ::
  "dif_i2c ptr \<Rightarrow> dif_i2c_irq \<Rightarrow> bool ptr \<Rightarrow> (dif_i2c_result \<times> bool ptr) io" where
  "dif_i2c_irq_is_pending i2c irq is_pending =
     (case (i2c, is_pending) of
        (Some i2c, Some _) \<Rightarrow>
          (case i2c_irq_index irq of None \<Rightarrow> ret (kDifI2cBadArg, is_pending)
           | Some index \<Rightarrow> do {
               reg \<leftarrow> mmio_region_read32 (i2c_base i2c) I2C_INTR_STATE_REG_OFFSET;
               ret (kDifI2cOk, store is_pending (bitfield_bit32_read reg index))
             })
      | _ \<Rightarrow> ret (kDifI2cBadArg, is_pending))"

definition dif_i2c_irq_acknowledge :: "dif_i2c ptr \<Rightarrow> dif_i2c_irq \<Rightarrow> dif_i2c_result io" where
  "dif_i2c_irq_acknowledge i2c irq =
     (case i2c of NULL \<Rightarrow> ret kDifI2cBadArg
      | Some i2c \<Rightarrow>
        (case i2c_irq_index irq of None \<Rightarrow> ret kDifI2cBadArg
         | Some index \<Rightarrow> do {
             let reg = bitfield_bit32_write 0 index True;
             _ \<leftarrow> mmio_region_write32 (i2c_base i2c) I2C_INTR_STATE_REG_OFFSET reg;
             ret kDifI2cOk
           }))"

definition dif_i2c_irq_get_enabled ::
  "dif_i2c ptr \<Rightarrow> dif_i2c_irq \<Rightarrow> dif_i2c_toggle ptr \<Rightarrow> (dif_i2c_result \<times> dif_i2c_toggle ptr) io" where
  "dif_i2c_irq_get_enabled i2c irq st =
     (case i2c of NULL \<Rightarrow> ret (kDifI2cBadArg, st)
      | Some i2c \<Rightarrow>
          (case i2c_irq_index irq of None \<Rightarrow> ret (kDifI2cBadArg, st)
           | Some index \<Rightarrow> do {
               reg \<leftarrow> mmio_region_read32 (i2c_base i2c) I2C_INTR_ENABLE_REG_OFFSET;
               let is_enabled = bitfield_bit32_read reg index;
               ret (kDifI2cOk, store st (if is_enabled then kDifI2cToggleEnabled else kDifI2cToggleDisabled))
             }))"

fun i2c_toggle_flag :: "dif_i2c_toggle \<Rightarrow> bool option" where
  "i2c_toggle_flag kDifI2cToggleEnabled = Some True"
| "i2c_toggle_flag kDifI2cToggleDisabled = Some False"
| "i2c_toggle_flag (dif_i2c_toggle_other _) = None"

definition dif_i2c_irq_set_enabled ::
  "dif_i2c ptr \<Rightarrow> dif_i2c_irq \<Rightarrow> dif_i2c_toggle \<Rightarrow> dif_i2c_result io" where
  "dif_i2c_irq_set_enabled i2c irq st =
     (case i2c of NULL \<Rightarrow> ret kDifI2cBadArg
      | Some i2c \<Rightarrow>
        (case i2c_irq_index irq of None \<Rightarrow> ret kDifI2cBadArg
         | Some index \<Rightarrow>
           (case i2c_toggle_flag st of None \<Rightarrow> ret kDifI2cBadArg
            | Some flag \<Rightarrow> do {
                reg \<leftarrow> mmio_region_read32 (i2c_base i2c) I2C_INTR_ENABLE_REG_OFFSET;
                let reg = bitfield_bit32_write reg index flag;
                _ \<leftarrow> mmio_region_write32 (i2c_base i2c) I2C_INTR_ENABLE_REG_OFFSET reg;
                ret kDifI2cOk
              })))"

definition dif_i2c_irq_force :: "dif_i2c ptr \<Rightarrow> dif_i2c_irq \<Rightarrow> dif_i2c_result io" where
  "dif_i2c_irq_force i2c irq =
     (case i2c of NULL \<Rightarrow> ret kDifI2cBadArg
      | Some i2c \<Rightarrow>
        (case i2c_irq_index irq of None \<Rightarrow> ret kDifI2cBadArg
         | Some index \<Rightarrow> do {
             let reg = bitfield_bit32_write 0 index True;
             _ \<leftarrow> mmio_region_write32 (i2c_base i2c) I2C_INTR_TEST_REG_OFFSET reg;
             ret kDifI2cOk
           }))"

definition dif_i2c_irq_disable_all :: "dif_i2c ptr \<Rightarrow> u32 ptr \<Rightarrow> (dif_i2c_result \<times> u32 ptr) io" where
  "dif_i2c_irq_disable_all i2c snapshot =
     (case i2c of NULL \<Rightarrow> ret (kDifI2cBadArg, snapshot)
      | Some i2c \<Rightarrow> do {
          snapshot' \<leftarrow> (if snapshot \<noteq> NULL then do {
              v \<leftarrow> mmio_region_read32 (i2c_base i2c) I2C_INTR_ENABLE_REG_OFFSET;
              ret (store snapshot v)
            } else ret snapshot);
          _ \<leftarrow> mmio_region_write32 (i2c_base i2c) I2C_INTR_ENABLE_REG_OFFSET 0;
          ret (kDifI2cOk, snapshot')
        })"

definition dif_i2c_irq_restore_all :: "dif_i2c ptr \<Rightarrow> u32 ptr \<Rightarrow> dif_i2c_result io" where
  "dif_i2c_irq_restore_all i2c snapshot =
     (case (i2c, snapshot) of
        (Some i2c, Some snapshot) \<Rightarrow> do {
          _ \<leftarrow> mmio_region_write32 (i2c_base i2c) I2C_INTR_ENABLE_REG_OFFSET snapshot;
          ret kDifI2cOk
        }
      | _ \<Rightarrow> ret kDifI2cBadArg)"

section \<open>Host mode and pin overrides\<close>

definition dif_i2c_host_set_enabled :: "dif_i2c ptr \<Rightarrow> dif_i2c_toggle \<Rightarrow> dif_i2c_result io" where
  "dif_i2c_host_set_enabled i2c st =
     (case i2c of NULL \<Rightarrow> ret kDifI2cBadArg
      | Some i2c \<Rightarrow>
        (case i2c_toggle_flag st of None \<Rightarrow> ret kDifI2cBadArg
         | Some flag \<Rightarrow> do {
             reg \<leftarrow> mmio_region_read32 (i2c_base i2c) I2C_CTRL_REG_OFFSET;
             let reg = bitfield_bit32_write reg I2C_CTRL_ENABLEHOST_BIT flag;
             _ \<leftarrow> mmio_region_write32 (i2c_base i2c) I2C_CTRL_REG_OFFSET reg;
             ret kDifI2cOk
           }))"

definition dif_i2c_override_set_enabled :: "dif_i2c ptr \<Rightarrow> dif_i2c_toggle \<Rightarrow> dif_i2c_result io" where
  "dif_i2c_override_set_enabled i2c st =
     (case i2c of NULL \<Rightarrow> ret kDifI2cBadArg
      | Some i2c \<Rightarrow>
        (case i2c_toggle_flag st of None \<Rightarrow> ret kDifI2cBadArg
         | Some flag \<Rightarrow> do {
             reg \<leftarrow> mmio_region_read32 (i2c_base i2c) I2C_OVRD_REG_OFFSET;
             let reg = bitfield_bit32_write reg I2C_OVRD_TXOVRDEN_BIT flag;
             _ \<leftarrow> mmio_region_write32 (i2c_base i2c) I2C_OVRD_REG_OFFSET reg;
             ret kDifI2cOk
           }))"

definition dif_i2c_override_drive_pins :: "dif_i2c ptr \<Rightarrow> bool \<Rightarrow> bool \<Rightarrow> dif_i2c_result io" where
  "dif_i2c_override_drive_pins i2c scl sda =
     (case i2c of NULL \<Rightarrow> ret kDifI2cBadArg
      | Some i2c \<Rightarrow> do {
          override_val \<leftarrow> mmio_region_read32 (i2c_base i2c) I2C_OVRD_REG_OFFSET;
          let override_val = bitfield_bit32_write override_val I2C_OVRD_SCLVAL_BIT scl;
          let override_val = bitfield_bit32_write override_val I2C_OVRD_SDAVAL_BIT sda;
          _ \<leftarrow> mmio_region_write32 (i2c_base i2c) I2C_OVRD_REG_OFFSET override_val;
          ret kDifI2cOk
        })"

definition dif_i2c_override_sample_pins ::
  "dif_i2c ptr \<Rightarrow> u16 ptr \<Rightarrow> u16 ptr \<Rightarrow> (dif_i2c_result \<times> u16 ptr \<times> u16 ptr) io" where
  "dif_i2c_override_sample_pins i2c scl_samples sda_samples =
     (case i2c of NULL \<Rightarrow> ret (kDifI2cBadArg, scl_samples, sda_samples)
      | Some i2c \<Rightarrow> do {
          samples \<leftarrow> mmio_region_read32 (i2c_base i2c) I2C_VAL_REG_OFFSET;
          ret (kDifI2cOk, store scl_samples (ucast (bitfield_field32_read samples I2C_VAL_SCL_RX_FIELD)),
            store sda_samples (ucast (bitfield_field32_read samples I2C_VAL_SDA_RX_FIELD)))
        })"

section \<open>FIFOs\<close>

definition dif_i2c_get_fifo_levels ::
  "dif_i2c ptr \<Rightarrow> u8 ptr \<Rightarrow> u8 ptr \<Rightarrow> (dif_i2c_result \<times> u8 ptr \<times> u8 ptr) io" where
  "dif_i2c_get_fifo_levels i2c fmt_fifo_level rx_fifo_level =
     (case i2c of NULL \<Rightarrow> ret (kDifI2cBadArg, fmt_fifo_level, rx_fifo_level)
      | Some i2c \<Rightarrow> do {
          values \<leftarrow> mmio_region_read32 (i2c_base i2c) I2C_FIFO_STATUS_REG_OFFSET;
          ret (kDifI2cOk, store fmt_fifo_level (ucast (bitfield_field32_read values I2C_FIFO_STATUS_FMTLVL_FIELD)),
            store rx_fifo_level (ucast (bitfield_field32_read values I2C_FIFO_STATUS_RXLVL_FIELD)))
        })"

definition dif_i2c_read_byte :: "dif_i2c ptr \<Rightarrow> u8 ptr \<Rightarrow> (dif_i2c_result \<times> u8 ptr) io" where
  "dif_i2c_read_byte i2c byte =
     (case i2c of NULL \<Rightarrow> ret (kDifI2cBadArg, byte)
      | Some i2c \<Rightarrow> do {
          values \<leftarrow> mmio_region_read32 (i2c_base i2c) I2C_RDATA_REG_OFFSET;
          ret (kDifI2cOk, store byte (ucast (bitfield_field32_read values I2C_RDATA_RDATA_FIELD)))
        })"

definition dif_i2c_write_byte_raw :: "dif_i2c ptr \<Rightarrow> u8 \<Rightarrow> dif_i2c_fmt_flags \<Rightarrow> dif_i2c_result io" where
  "dif_i2c_write_byte_raw i2c byte flags =
     (case i2c of NULL \<Rightarrow> ret kDifI2cBadArg
      | Some i2c \<Rightarrow>
        (let has_write_flags = fmt_start flags \<or> fmt_stop flags \<or> fmt_suppress_nak_irq flags;
             has_read_flags = fmt_read flags \<or> fmt_read_cont flags
         in if has_write_flags \<and> has_read_flags then ret kDifI2cBadArg
         else if fmt_read_cont flags \<and> \<not> fmt_read flags then ret kDifI2cBadArg
         else do {
           let fmt_byte = 0;
           let fmt_byte = bitfield_field32_write fmt_byte I2C_FDATA_FBYTE_FIELD (ucast byte);
           let fmt_byte = bitfield_bit32_write fmt_byte I2C_FDATA_START_BIT (fmt_start flags);
           let fmt_byte = bitfield_bit32_write fmt_byte I2C_FDATA_STOP_BIT (fmt_stop flags);
           let fmt_byte = bitfield_bit32_write fmt_byte I2C_FDATA_READ_BIT (fmt_read flags);
           let fmt_byte = bitfield_bit32_write fmt_byte I2C_FDATA_RCONT_BIT (fmt_read_cont flags);
           let fmt_byte = bitfield_bit32_write fmt_byte I2C_FDATA_NAKOK_BIT (fmt_suppress_nak_irq flags);
           _ \<leftarrow> mmio_region_write32 (i2c_base i2c) I2C_FDATA_REG_OFFSET fmt_byte;
           ret kDifI2cOk
         }))"

fun i2c_fmt_to_flags :: "dif_i2c_fmt \<Rightarrow> dif_i2c_fmt_flags \<Rightarrow> dif_i2c_fmt_flags option" where
  "i2c_fmt_to_flags kDifI2cFmtStart flags = Some (flags\<lparr>fmt_start := True\<rparr>)"
| "i2c_fmt_to_flags kDifI2cFmtTx flags = Some flags"
| "i2c_fmt_to_flags kDifI2cFmtTxStop flags = Some (flags\<lparr>fmt_stop := True\<rparr>)"
| "i2c_fmt_to_flags kDifI2cFmtRx flags = Some (flags\<lparr>fmt_read := True\<rparr>)"
| "i2c_fmt_to_flags kDifI2cFmtRxContinue flags = Some (flags\<lparr>fmt_read := True, fmt_read_cont := True\<rparr>)"
| "i2c_fmt_to_flags kDifI2cFmtRxStop flags = Some (flags\<lparr>fmt_read := True, fmt_stop := True\<rparr>)"
| "i2c_fmt_to_flags (dif_i2c_fmt_other _) flags = None"

definition dif_i2c_write_byte :: "dif_i2c ptr \<Rightarrow> u8 \<Rightarrow> dif_i2c_fmt \<Rightarrow> bool \<Rightarrow> dif_i2c_result io" where
  "dif_i2c_write_byte i2c byte code suppress =
     (case i2c of NULL \<Rightarrow> ret kDifI2cBadArg
      | Some _ \<Rightarrow>
        (if suppress \<and> code \<in> {kDifI2cFmtRx, kDifI2cFmtRxContinue, kDifI2cFmtRxStop} then ret kDifI2cBadArg
         else
           (let flags = \<lparr>fmt_start = False, fmt_stop = False, fmt_read = False, fmt_read_cont = False,
                  fmt_suppress_nak_irq = suppress\<rparr>
            in case i2c_fmt_to_flags code flags of None \<Rightarrow> ret kDifI2cBadArg
               | Some flags \<Rightarrow> dif_i2c_write_byte_raw i2c byte flags)))"

section \<open>Timing: correctness\<close>

text \<open>Number of clock cycles that cover a time: the quotient rounded up.\<close>

definition cycles_for :: "nat \<Rightarrow> nat \<Rightarrow> nat" where
  "cycles_for nanos clk = (nanos + clk - 1) div clk"

lemma cycles_for_covers: "0 < clk \<Longrightarrow> nanos \<le> cycles_for nanos clk * clk"
proof -
  assume "0 < clk"
  then have "(nanos + clk - 1) mod clk \<le> clk - 1"
    using mod_less_divisor [of clk "nanos + clk - 1"] by linarith
  moreover have "(nanos + clk - 1) div clk * clk + (nanos + clk - 1) mod clk = nanos + clk - 1"
    by (rule div_mult_mod_eq)
  ultimately show ?thesis unfolding cycles_for_def using \<open>0 < clk\<close> by linarith
qed

lemma cycles_for_least: "0 < clk \<Longrightarrow> nanos \<le> n * clk \<Longrightarrow> cycles_for nanos clk \<le> n"
proof -
  assume *: "0 < clk" "nanos \<le> n * clk"
  then have "nanos + clk - 1 < Suc n * clk" by simp
  then show ?thesis unfolding cycles_for_def using * by (metis less_Suc_eq_le less_mult_imp_div_less)
qed

lemma round_up_divide_unat:
  assumes "b \<noteq> 0"
  shows "unat (round_up_divide a b) = cycles_for (unat a) (unat b) mod 65536"
proof (cases "a = 0")
  case True
  then show ?thesis using assms by (simp add: round_up_divide_def cycles_for_def unat_gt_0)
next
  case False
  have b: "0 < unat b" using assms by (simp add: unat_gt_0)
  have a: "unat (a - 1) = unat a - 1" using False by (simp add: unat_minus_one)
  have "(unat a - 1) div unat b + 1 = (unat a - 1 + unat b) div unat b"
    using b div_add_self2 [of "unat b" "unat a - 1"] by simp
  also have "unat a - 1 + unat b = unat a + unat b - 1"
    using False by (simp add: unat_gt_0 Suc_leI)
  finally have q: "(unat a - 1) div unat b + 1 = cycles_for (unat a) (unat b)"
    by (simp add: cycles_for_def)
  have "cycles_for (unat a) (unat b) \<le> unat a"
    using b by (intro cycles_for_least) auto
  then have "unat ((a - 1) div b + 1) = cycles_for (unat a) (unat b)"
    using q a by (subst unat_add_lem [THEN iffD1]) (simp_all add: unat_div le_less_trans)
  then show ?thesis
    using False by (simp add: round_up_divide_def unsigned_ucast_eq take_bit_eq_mod)
qed
lemma cycles_for_mono: "m \<le> n \<Longrightarrow> cycles_for m clk \<le> cycles_for n clk"
  unfolding cycles_for_def by (intro div_le_mono) linarith

lemma round_up_divide_exact:
  "b \<noteq> 0 \<Longrightarrow> cycles_for (unat a) (unat b) \<le> 65535 \<Longrightarrow> unat (round_up_divide a b) = cycles_for (unat a) (unat b)"
  by (simp add: round_up_divide_unat)

text \<open>The minimum times of the I2C specification (Table 10), in nanoseconds, per speed.\<close>

record i2c_times =
  spec_period :: nat
  spec_thigh :: nat
  spec_tlow :: nat
  spec_tsu_sta :: nat
  spec_thd_sta :: nat
  spec_tsu_dat :: nat
  spec_tsu_sto :: nat
  spec_t_buf :: nat

fun i2c_spec_times :: "dif_i2c_speed \<Rightarrow> i2c_times option" where
  "i2c_spec_times kDifI2cSpeedStandard = Some \<lparr>spec_period = 10000, spec_thigh = 4000, spec_tlow = 4700,
     spec_tsu_sta = 4700, spec_thd_sta = 4000, spec_tsu_dat = 250, spec_tsu_sto = 4000, spec_t_buf = 4700\<rparr>"
| "i2c_spec_times kDifI2cSpeedFast = Some \<lparr>spec_period = 2500, spec_thigh = 600, spec_tlow = 1300,
     spec_tsu_sta = 600, spec_thd_sta = 600, spec_tsu_dat = 100, spec_tsu_sto = 600, spec_t_buf = 1300\<rparr>"
| "i2c_spec_times kDifI2cSpeedFastPlus = Some \<lparr>spec_period = 1000, spec_thigh = 260, spec_tlow = 500,
     spec_tsu_sta = 260, spec_thd_sta = 260, spec_tsu_dat = 50, spec_tsu_sto = 260, spec_t_buf = 500\<rparr>"
| "i2c_spec_times (dif_i2c_speed_other _) = None"

definition meets_spec_times :: "i2c_times \<Rightarrow> nat \<Rightarrow> dif_i2c_config \<Rightarrow> bool" where
  "meets_spec_times t clk c \<longleftrightarrow>
     spec_thigh t \<le> unat (scl_time_high_cycles c) * clk
     \<and> spec_tlow t \<le> unat (scl_time_low_cycles c) * clk
     \<and> spec_tsu_sta t \<le> unat (start_signal_setup_cycles c) * clk
     \<and> spec_thd_sta t \<le> unat (start_signal_hold_cycles c) * clk
     \<and> spec_tsu_dat t \<le> unat (data_signal_setup_cycles c) * clk
     \<and> spec_tsu_sto t \<le> unat (stop_signal_setup_cycles c) * clk
     \<and> spec_t_buf t \<le> unat (stop_signal_hold_cycles c) * clk"

text \<open>The period the host aims at: the requested one, but no shorter than the target's.\<close>

definition scl_target_nanos :: "i2c_times \<Rightarrow> dif_i2c_timing_config \<Rightarrow> nat" where
  "scl_target_nanos t tc = max (unat (scl_period_nanos tc)) (spec_period t)"

definition scl_cycles :: "dif_i2c_config \<Rightarrow> nat" where
  "scl_cycles c = unat (scl_time_high_cycles c) + unat (scl_time_low_cycles c)
     + unat (rise_cycles c) + unat (fall_cycles c)"

lemma spec_times_khz:
  "i2c_spec_times s = Some t \<Longrightarrow> \<exists>k. lowest_speed_khz s = Some k \<and> unat (kNanosPerKBaud div k) = spec_period t"
  by (cases s) (auto simp: unat_div)

lemma default_timing_cycles:
  assumes "i2c_spec_times s = Some t" "clk \<noteq> 0" "cycles_for (spec_period t) (unat clk) \<le> 65535"
  defines "d \<equiv> default_timing_for_speed s clk"
  shows "unat (scl_time_high_cycles d) = cycles_for (spec_thigh t) (unat clk)"
    and "unat (scl_time_low_cycles d) = cycles_for (spec_tlow t) (unat clk)"
    and "unat (start_signal_setup_cycles d) = cycles_for (spec_tsu_sta t) (unat clk)"
    and "unat (start_signal_hold_cycles d) = cycles_for (spec_thd_sta t) (unat clk)"
    and "unat (data_signal_setup_cycles d) = cycles_for (spec_tsu_dat t) (unat clk)"
    and "unat (stop_signal_setup_cycles d) = cycles_for (spec_tsu_sto t) (unat clk)"
    and "unat (stop_signal_hold_cycles d) = cycles_for (spec_t_buf t) (unat clk)"
proof -
  have exact: "unat (round_up_divide n clk) = cycles_for (unat n) (unat clk)" if "unat n \<le> spec_period t" for n
    using round_up_divide_exact [OF assms(2)] cycles_for_mono [OF that] assms(3) le_trans by blast
  show "unat (scl_time_high_cycles d) = cycles_for (spec_thigh t) (unat clk)"
    "unat (scl_time_low_cycles d) = cycles_for (spec_tlow t) (unat clk)"
    "unat (start_signal_setup_cycles d) = cycles_for (spec_tsu_sta t) (unat clk)"
    "unat (start_signal_hold_cycles d) = cycles_for (spec_thd_sta t) (unat clk)"
    "unat (data_signal_setup_cycles d) = cycles_for (spec_tsu_dat t) (unat clk)"
    "unat (stop_signal_setup_cycles d) = cycles_for (spec_tsu_sto t) (unat clk)"
    "unat (stop_signal_hold_cycles d) = cycles_for (spec_t_buf t) (unat clk)"
    using assms(1) exact by (cases s; auto simp: d_def)+
qed
lemma unat_sub3:
  fixes p a b c :: u16
  shows "unat (p - a - b - c) = nat ((int (unat p) - int (unat a) - int (unat b) - int (unat c)) mod 65536)"
  by (simp add: uint_word_ariths mod_simps flip: nat_uint_eq)

text \<open>What the computation returns when no cycle count exceeds its 16 bits.\<close>

lemma compute_timing_cycles:
  fixes tc t
  defines "clk \<equiv> unat (clock_period_nanos tc)"
  defines "P \<equiv> cycles_for (scl_target_nanos t tc) clk"
    and "R \<equiv> cycles_for (unat (sda_rise_nanos tc)) clk"
    and "F \<equiv> cycles_for (unat (sda_fall_nanos tc)) clk"
    and "H \<equiv> cycles_for (spec_thigh t) clk" and "L \<equiv> cycles_for (spec_tlow t) clk"
  assumes t: "i2c_spec_times (lowest_target_device_speed tc) = Some t" and clk: "clock_period_nanos tc \<noteq> 0"
    and fits: "P \<le> 65535" "R \<le> 65535" "F \<le> 65535"
  shows "\<exists>c. dif_i2c_compute_timing tc (Some c0) = (kDifI2cOk, Some c)
    \<and> unat (scl_time_low_cycles c) = L \<and> unat (rise_cycles c) = R \<and> unat (fall_cycles c) = F
    \<and> unat (scl_time_high_cycles c) = max H (nat ((int P - int L - int R - int F) mod 65536))
    \<and> meets_spec_times t clk c"
proof -
  obtain k where k: "lowest_speed_khz (lowest_target_device_speed tc) = Some k" "unat (kNanosPerKBaud div k) = spec_period t"
    using spec_times_khz [OF t] by blast
  define d where "d = default_timing_for_speed (lowest_target_device_speed tc) (clock_period_nanos tc)"
  define per where "per = (if scl_period_nanos tc < kNanosPerKBaud div k then kNanosPerKBaud div k else scl_period_nanos tc)"
  have per: "unat per = scl_target_nanos t tc"
    using k(2) by (auto simp: per_def scl_target_nanos_def word_less_nat_alt)
  have small: "cycles_for (spec_period t) clk \<le> 65535"
    using fits(1) cycles_for_mono [of "spec_period t" "scl_target_nanos t tc" clk]
    unfolding P_def scl_target_nanos_def by linarith
  note dd = default_timing_cycles [OF t clk small [unfolded clk_def], folded d_def clk_def]
  define p where "p = round_up_divide per (clock_period_nanos tc)"
  define r where "r = round_up_divide (sda_rise_nanos tc) (clock_period_nanos tc)"
  define f where "f = round_up_divide (sda_fall_nanos tc) (clock_period_nanos tc)"
  note ex = round_up_divide_exact [OF clk, folded clk_def]
  have words: "unat p = P" "unat r = R" "unat f = F"
    using ex [of per] ex [of "sda_rise_nanos tc"] ex [of "sda_fall_nanos tc"] fits
    by (simp_all add: p_def r_def f_def P_def R_def F_def per)
  define l where "l = p - scl_time_low_cycles d - r - f"
  define c where "c = d\<lparr>rise_cycles := r, fall_cycles := f,
    scl_time_high_cycles := (if scl_time_high_cycles d < l then l else scl_time_high_cycles d)\<rparr>"
  have run: "dif_i2c_compute_timing tc (Some c0) = (kDifI2cOk, Some c)"
    unfolding dif_i2c_compute_timing_def k option.case Let_def
      d_def [symmetric] per_def [symmetric] p_def [symmetric] r_def [symmetric] f_def [symmetric]
    by (auto simp: c_def l_def)
  have l: "unat l = nat ((int P - int L - int R - int F) mod 65536)"
    unfolding l_def unat_sub3 words dd(2) L_def ..
  have high: "unat (scl_time_high_cycles c) = max H (unat l)"
    using dd(1) by (auto simp: c_def H_def word_less_nat_alt)
  have pos: "0 < clk" using clk by (simp add: clk_def unat_gt_0)
  have "spec_thigh t \<le> unat (scl_time_high_cycles c) * clk"
    using cycles_for_covers [OF pos, of "spec_thigh t"] unfolding high H_def
    by (meson le_trans max.cobounded1 mult_le_mono1)
  then have "meets_spec_times t clk c"
    using cycles_for_covers [OF pos] by (simp add: meets_spec_times_def c_def dd)
  then show ?thesis using run dd(2) words high l by (auto simp: c_def L_def)
qed

definition i2c_timing0 :: "dif_i2c_speed \<Rightarrow> u32 \<Rightarrow> u32 \<Rightarrow> dif_i2c_timing_config" where
  "i2c_timing0 speed clk sda_rise = \<lparr>lowest_target_device_speed = speed, clock_period_nanos = clk,
     sda_rise_nanos = sda_rise, sda_fall_nanos = 110, scl_period_nanos = 0\<rparr>"


text \<open>
  When the low, rise and fall times exceed the SCL period by d cycles, the 16-bit subtraction in
  dif_i2c_compute_timing wraps and the SCL high time becomes 65536 - d cycles instead of its minimum.
\<close>

lemma dif_i2c_compute_timing_underflow:
  fixes tc t
  defines "clk \<equiv> unat (clock_period_nanos tc)"
  defines "P \<equiv> cycles_for (scl_target_nanos t tc) clk"
    and "R \<equiv> cycles_for (unat (sda_rise_nanos tc)) clk"
    and "F \<equiv> cycles_for (unat (sda_fall_nanos tc)) clk"
    and "L \<equiv> cycles_for (spec_tlow t) clk"
  assumes t: "i2c_spec_times (lowest_target_device_speed tc) = Some t" and clk: "clock_period_nanos tc \<noteq> 0"
    and P: "P \<le> 65535" and RF: "R \<le> 65535" "F \<le> 65535"
    and deficit: "P + d = L + R + F" "0 < d" "d + cycles_for (spec_thigh t) clk \<le> 65536"
  shows "\<exists>c. dif_i2c_compute_timing tc (Some c0) = (kDifI2cOk, Some c)
    \<and> unat (scl_time_high_cycles c) = 65536 - d"
proof -
  have "int P - int L - int R - int F = - int d" using deficit(1) by linarith
  moreover have "(- int d) mod 65536 = 65536 - int d"
    using mod_pos_pos_trivial [of "65536 - int d" 65536] deficit(2,3) by (simp add: mod_diff_left_eq)
  ultimately have "nat ((int P - int L - int R - int F) mod 65536) = 65536 - d" by simp
  then show ?thesis
    using compute_timing_cycles [OF t clk, of c0] P RF deficit(3)
    unfolding clk_def P_def R_def F_def L_def by (auto simp: max_def)
qed

text \<open>Fast mode with a 100 ns clock and a rise time of 1000 ns: the SCL line would stay high for 6.5 ms.\<close>

lemma dif_i2c_compute_timing_underflow_witness:
  "\<exists>c. dif_i2c_compute_timing (i2c_timing0 kDifI2cSpeedFast 100 1300) (Some i2c_config_zero) = (kDifI2cOk, Some c)
     \<and> unat (scl_time_high_cycles c) = 65533"
proof -
  let ?tc = "i2c_timing0 kDifI2cSpeedFast 100 1300"
  obtain t where t: "i2c_spec_times (lowest_target_device_speed ?tc) = Some t" "spec_period t = 2500"
      "spec_thigh t = 600" "spec_tlow t = 1300"
    by (simp add: i2c_timing0_def)
  have "scl_target_nanos t ?tc = 2500" by (simp add: scl_target_nanos_def t i2c_timing0_def)
  moreover have "clock_period_nanos ?tc = 100" "sda_rise_nanos ?tc = 1300" "sda_fall_nanos ?tc = 110"
    by (simp_all add: i2c_timing0_def)
  ultimately show ?thesis
    using dif_i2c_compute_timing_underflow [OF t(1), of 3 i2c_config_zero] t by (auto simp: cycles_for_def)
qed

section \<open>The configuration registers\<close>

text \<open>The configuration the five timing registers hold.\<close>

definition i2c_timing_of :: "dif_i2c \<Rightarrow> world \<Rightarrow> dif_i2c_config" where
  "i2c_timing_of i2c w =
     (let reg = (\<lambda>offset. cur32 w (mmio_addr32 (i2c_base i2c) offset));
          low = (\<lambda>r. ucast (bitfield_field32_read r \<lparr>field_mask = 0xffff, field_index = 0\<rparr>));
          high = (\<lambda>r. ucast (bitfield_field32_read r \<lparr>field_mask = 0xffff, field_index = 16\<rparr>))
      in \<lparr>scl_time_high_cycles = low (reg I2C_TIMING0_REG_OFFSET), scl_time_low_cycles = high (reg I2C_TIMING0_REG_OFFSET),
          rise_cycles = low (reg I2C_TIMING1_REG_OFFSET), fall_cycles = high (reg I2C_TIMING1_REG_OFFSET),
          start_signal_setup_cycles = low (reg I2C_TIMING2_REG_OFFSET),
          start_signal_hold_cycles = high (reg I2C_TIMING2_REG_OFFSET),
          data_signal_setup_cycles = low (reg I2C_TIMING3_REG_OFFSET),
          data_signal_hold_cycles = high (reg I2C_TIMING3_REG_OFFSET),
          stop_signal_setup_cycles = low (reg I2C_TIMING4_REG_OFFSET),
          stop_signal_hold_cycles = high (reg I2C_TIMING4_REG_OFFSET)\<rparr>)"

lemma timing_word_halves:
  fixes a b :: u16
  defines "r \<equiv> bitfield_field32_write (bitfield_field32_write 0 \<lparr>field_mask = 0xffff, field_index = 0\<rparr> (ucast a))
    \<lparr>field_mask = 0xffff, field_index = 16\<rparr> (ucast b)"
  shows "ucast (bitfield_field32_read r \<lparr>field_mask = 0xffff, field_index = 0\<rparr>) = a"
    and "ucast (bitfield_field32_read r \<lparr>field_mask = 0xffff, field_index = 16\<rparr>) = b"
proof -
  have m: "(0xffff :: u32) = mask 16" by (simp add: mask_eq_exp_minus_1)
  show "ucast (bitfield_field32_read r \<lparr>field_mask = 0xffff, field_index = 0\<rparr>) = a"
    by (rule bit_eqI) (auto simp: r_def bit_field32_read bit_field32_write bit_ucast_iff m bit_mask_iff possible_bit_word)
  show "ucast (bitfield_field32_read r \<lparr>field_mask = 0xffff, field_index = 16\<rparr>) = b"
    by (rule bit_eqI) (auto simp: r_def bit_field32_read bit_field32_write bit_ucast_iff m bit_mask_iff possible_bit_word)
qed
text \<open>
  On plain timing registers dif_i2c_configure stores exactly the given configuration: the five
  registers read back as config, field by field, and no other register changes.
\<close>

lemma dif_i2c_configure_correct:
  assumes "plain init w"
  shows "\<exists>w'. run_state (dif_i2c_configure (Some i2c) config) w = (kDifI2cOk, w') \<and> plain init w'
    \<and> i2c_timing_of i2c w' = config
    \<and> (\<forall>a. a \<notin> mmio_addr32 (i2c_base i2c) ` {I2C_TIMING0_REG_OFFSET, I2C_TIMING1_REG_OFFSET,
          I2C_TIMING2_REG_OFFSET, I2C_TIMING3_REG_OFFSET, I2C_TIMING4_REG_OFFSET} \<longrightarrow> cur32 w' a = cur32 w a)"
  using assms by (auto simp: dif_i2c_configure_def i2c_timing_of_def io_simps mmio_addr32_def Let_def timing_word_halves)

lemma dif_i2c_configure_correct_witness:
  "i2c_timing_of \<lparr>i2c_params = \<lparr>i2c_base_addr = \<lparr>mmio_base = 0x40080000\<rparr>\<rparr>\<rparr>
     (snd (run_state (dif_i2c_configure (Some \<lparr>i2c_params = \<lparr>i2c_base_addr = \<lparr>mmio_base = 0x40080000\<rparr>\<rparr>\<rparr>)
       (default_timing_for_speed kDifI2cSpeedFast 10)) (plain_world (\<lambda>_. 0)))) = default_timing_for_speed kDifI2cSpeedFast 10"
  using dif_i2c_configure_correct [OF plain_plain_world] by (metis snd_conv)

section \<open>The format FIFO\<close>

text \<open>What a format code asks of the bus; a code the driver refuses has none.\<close>

definition i2c_accepts :: "dif_i2c_fmt \<Rightarrow> bool \<Rightarrow> bool" where
  "i2c_accepts code suppress \<longleftrightarrow> code \<in> {kDifI2cFmtStart, kDifI2cFmtTx, kDifI2cFmtTxStop}
     \<or> code \<in> {kDifI2cFmtRx, kDifI2cFmtRxContinue} \<and> \<not> suppress"

definition fmt_word_ok :: "u8 \<Rightarrow> dif_i2c_fmt \<Rightarrow> bool \<Rightarrow> u32 \<Rightarrow> bool" where
  "fmt_word_ok byte code suppress v \<longleftrightarrow>
     ucast v = byte
     \<and> (bit v 8 \<longleftrightarrow> code = kDifI2cFmtStart)
     \<and> (bit v 9 \<longleftrightarrow> code = kDifI2cFmtTxStop)
     \<and> (bit v 10 \<longleftrightarrow> code \<in> {kDifI2cFmtRx, kDifI2cFmtRxContinue})
     \<and> (bit v 11 \<longleftrightarrow> code = kDifI2cFmtRxContinue)
     \<and> (bit v 12 \<longleftrightarrow> suppress)
     \<and> v < 0x2000"

definition fmt_word :: "u8 \<Rightarrow> dif_i2c_fmt_flags \<Rightarrow> u32" where
  "fmt_word byte flags =
     bitfield_bit32_write (bitfield_bit32_write (bitfield_bit32_write (bitfield_bit32_write (bitfield_bit32_write
       (bitfield_field32_write 0 I2C_FDATA_FBYTE_FIELD (ucast byte)) I2C_FDATA_START_BIT (fmt_start flags))
       I2C_FDATA_STOP_BIT (fmt_stop flags)) I2C_FDATA_READ_BIT (fmt_read flags))
       I2C_FDATA_RCONT_BIT (fmt_read_cont flags)) I2C_FDATA_NAKOK_BIT (fmt_suppress_nak_irq flags)"

lemma bit_fmt_word:
  "bit (fmt_word byte flags) n \<longleftrightarrow>
     (if n = 12 then fmt_suppress_nak_irq flags else if n = 11 then fmt_read_cont flags
      else if n = 10 then fmt_read flags else if n = 9 then fmt_stop flags
      else if n = 8 then fmt_start flags else bit byte n)"
proof -
  have m: "(0xff :: u32) = mask 8" by (simp add: mask_eq_exp_minus_1)
  show ?thesis
    by (auto simp: fmt_word_def bit_bit32_write bit_field32_write m bit_mask_iff bit_ucast_iff possible_bit_word
      dest: bit_word8_bound)
qed

lemma fmt_word_less: "fmt_word byte flags < 0x2000"
proof -
  have "take_bit 13 (fmt_word byte flags) = fmt_word byte flags"
    by (rule bit_eqI) (auto simp: bit_take_bit_iff bit_fmt_word dest: bit_word8_bound)
  then have "unat (fmt_word byte flags) < 2 ^ 13" by (metis take_bit_nat_less_exp unsigned_take_bit_eq)
  then show ?thesis by (simp add: word_less_nat_alt)
qed

lemma ucast_fmt_word: "ucast (fmt_word byte flags) = byte"
  by (rule word8_eq_iff [THEN iffD2]) (simp add: bit_ucast_iff bit_fmt_word)

text \<open>
  dif_i2c_write_byte pushes exactly one entry to the format FIFO for Start, Tx and TxStop, and for
  Rx and RxContinue unless NAK suppression is asked for; the entry holds the byte and precisely the
  flags of the code. Every other request is refused without touching the device, and so is every
  RxStop, which the header documents as supported.
\<close>

lemma dif_i2c_write_byte_correct:
  "if i2c_accepts code suppress
   then \<exists>v. run_state (dif_i2c_write_byte (Some i2c) byte code suppress) w
       = (kDifI2cOk, log (Wr32 (mmio_addr32 (i2c_base i2c) I2C_FDATA_REG_OFFSET) v) w)
     \<and> fmt_word_ok byte code suppress v
   else run_state (dif_i2c_write_byte (Some i2c) byte code suppress) w = (kDifI2cBadArg, w)"
proof (cases "i2c_accepts code suppress")
  case True
  then obtain flags where flags: "i2c_fmt_to_flags code \<lparr>fmt_start = False, fmt_stop = False, fmt_read = False,
      fmt_read_cont = False, fmt_suppress_nak_irq = suppress\<rparr> = Some flags"
    by (auto simp: i2c_accepts_def)
  have "run_state (dif_i2c_write_byte (Some i2c) byte code suppress) w
      = (kDifI2cOk, log (Wr32 (mmio_addr32 (i2c_base i2c) I2C_FDATA_REG_OFFSET) (fmt_word byte flags)) w)"
    using True flags by (auto simp: dif_i2c_write_byte_def dif_i2c_write_byte_raw_def i2c_accepts_def io_simps
      Let_def fmt_word_def)
  moreover have "fmt_word_ok byte code suppress (fmt_word byte flags)"
    using True flags unfolding fmt_word_ok_def ucast_fmt_word
    by (auto simp: bit_fmt_word i2c_accepts_def fmt_word_less)
  ultimately show ?thesis using True by auto
next
  case False
  then show ?thesis
    by (cases code) (auto simp: i2c_accepts_def dif_i2c_write_byte_def dif_i2c_write_byte_raw_def Let_def io_simps)
qed

section \<open>The interrupt block\<close>

lemma i2c_irq_index_bit: "i2c_irq_index i = Some n \<Longrightarrow> unat n < 9"
  by (cases i) auto

lemma i2c_irq_index_inject: "i2c_irq_index i = Some m \<Longrightarrow> i2c_irq_index j = Some n \<Longrightarrow> unat m = unat n \<Longrightarrow> i = j"
  by (cases i; cases j) auto

interpretation i2c_irqs: irq_block "\<lambda>irq. map_option unat (i2c_irq_index irq)"
    "mmio_addr32 (i2c_base i2c) I2C_INTR_ENABLE_REG_OFFSET"
    "\<lambda>i b w. snd (run_state (dif_i2c_irq_set_enabled (Some i2c) i
       (if b then kDifI2cToggleEnabled else kDifI2cToggleDisabled)) w)"
    "\<lambda>i w. snd (fst (run_state (dif_i2c_irq_get_enabled (Some i2c) i (Some kDifI2cToggleDisabled)) w))
       = Some kDifI2cToggleEnabled"
    "\<lambda>w. case run_state (dif_i2c_irq_disable_all (Some i2c) (Some 0)) w of ((_, s), w') \<Rightarrow> (the s, w')"
    "\<lambda>s w. snd (run_state (dif_i2c_irq_restore_all (Some i2c) (Some s)) w)"
  for i2c
  by unfold_locales
    (auto simp: dif_i2c_irq_set_enabled_def dif_i2c_irq_get_enabled_def dif_i2c_irq_disable_all_def
      dif_i2c_irq_restore_all_def io_simps bit32_read_eq_bit dest: i2c_irq_index_inject i2c_irq_index_bit split: if_splits)

end
