(* ===== verification/DifAlertHandler.thy ===== *)
theory DifAlertHandler
  imports IrqBlock
begin

text \<open>
  The alert handler driver (\<open>sw/device/lib/dif/dif_alert_handler.c\<close>): classification of alerts,
  the escalation protocol of the four classes, locking, interrupts and escalation state. Register
  offsets and fields are those of \<open>hw/ip/alert_handler/data/alert_handler.hjson\<close>. An array argument
  is its pointer with its length: the loops run over the first \<open>len\<close> elements.
\<close>

section \<open>Registers\<close>

abbreviation ALERT_HANDLER_INTR_STATE_REG_OFFSET :: u32 where "ALERT_HANDLER_INTR_STATE_REG_OFFSET \<equiv> 0x0"
abbreviation ALERT_HANDLER_INTR_ENABLE_REG_OFFSET :: u32 where "ALERT_HANDLER_INTR_ENABLE_REG_OFFSET \<equiv> 0x4"
abbreviation ALERT_HANDLER_INTR_TEST_REG_OFFSET :: u32 where "ALERT_HANDLER_INTR_TEST_REG_OFFSET \<equiv> 0x8"
abbreviation ALERT_HANDLER_REGWEN_REG_OFFSET :: u32 where "ALERT_HANDLER_REGWEN_REG_OFFSET \<equiv> 0xc"
abbreviation ALERT_HANDLER_PING_TIMEOUT_CYC_REG_OFFSET :: u32 where "ALERT_HANDLER_PING_TIMEOUT_CYC_REG_OFFSET \<equiv> 0x10"
abbreviation ALERT_HANDLER_ALERT_EN_REG_OFFSET :: u32 where "ALERT_HANDLER_ALERT_EN_REG_OFFSET \<equiv> 0x20"
abbreviation ALERT_HANDLER_ALERT_CLASS_REG_OFFSET :: u32 where "ALERT_HANDLER_ALERT_CLASS_REG_OFFSET \<equiv> 0x120"
abbreviation ALERT_HANDLER_ALERT_CAUSE_REG_OFFSET :: u32 where "ALERT_HANDLER_ALERT_CAUSE_REG_OFFSET \<equiv> 0x220"
abbreviation ALERT_HANDLER_LOC_ALERT_EN_REG_OFFSET :: u32 where "ALERT_HANDLER_LOC_ALERT_EN_REG_OFFSET \<equiv> 0x320"
abbreviation ALERT_HANDLER_LOC_ALERT_CLASS_REG_OFFSET :: u32 where "ALERT_HANDLER_LOC_ALERT_CLASS_REG_OFFSET \<equiv> 0x324"
abbreviation ALERT_HANDLER_LOC_ALERT_CAUSE_REG_OFFSET :: u32 where "ALERT_HANDLER_LOC_ALERT_CAUSE_REG_OFFSET \<equiv> 0x328"
abbreviation ALERT_HANDLER_CLASSA_CTRL_REG_OFFSET :: u32 where "ALERT_HANDLER_CLASSA_CTRL_REG_OFFSET \<equiv> 0x32c"
abbreviation ALERT_HANDLER_CLASSA_REGWEN_REG_OFFSET :: u32 where "ALERT_HANDLER_CLASSA_REGWEN_REG_OFFSET \<equiv> 0x330"
abbreviation ALERT_HANDLER_CLASSA_CLR_REG_OFFSET :: u32 where "ALERT_HANDLER_CLASSA_CLR_REG_OFFSET \<equiv> 0x334"
abbreviation ALERT_HANDLER_CLASSA_ACCUM_CNT_REG_OFFSET :: u32 where "ALERT_HANDLER_CLASSA_ACCUM_CNT_REG_OFFSET \<equiv> 0x338"
abbreviation ALERT_HANDLER_CLASSA_ACCUM_THRESH_REG_OFFSET :: u32 where "ALERT_HANDLER_CLASSA_ACCUM_THRESH_REG_OFFSET \<equiv> 0x33c"
abbreviation ALERT_HANDLER_CLASSA_TIMEOUT_CYC_REG_OFFSET :: u32 where "ALERT_HANDLER_CLASSA_TIMEOUT_CYC_REG_OFFSET \<equiv> 0x340"
abbreviation ALERT_HANDLER_CLASSA_PHASE0_CYC_REG_OFFSET :: u32 where "ALERT_HANDLER_CLASSA_PHASE0_CYC_REG_OFFSET \<equiv> 0x344"
abbreviation ALERT_HANDLER_CLASSA_PHASE1_CYC_REG_OFFSET :: u32 where "ALERT_HANDLER_CLASSA_PHASE1_CYC_REG_OFFSET \<equiv> 0x348"
abbreviation ALERT_HANDLER_CLASSA_PHASE2_CYC_REG_OFFSET :: u32 where "ALERT_HANDLER_CLASSA_PHASE2_CYC_REG_OFFSET \<equiv> 0x34c"
abbreviation ALERT_HANDLER_CLASSA_PHASE3_CYC_REG_OFFSET :: u32 where "ALERT_HANDLER_CLASSA_PHASE3_CYC_REG_OFFSET \<equiv> 0x350"
abbreviation ALERT_HANDLER_CLASSA_ESC_CNT_REG_OFFSET :: u32 where "ALERT_HANDLER_CLASSA_ESC_CNT_REG_OFFSET \<equiv> 0x354"
abbreviation ALERT_HANDLER_CLASSA_STATE_REG_OFFSET :: u32 where "ALERT_HANDLER_CLASSA_STATE_REG_OFFSET \<equiv> 0x358"
abbreviation ALERT_HANDLER_CLASSB_CTRL_REG_OFFSET :: u32 where "ALERT_HANDLER_CLASSB_CTRL_REG_OFFSET \<equiv> 0x35c"
abbreviation ALERT_HANDLER_CLASSB_REGWEN_REG_OFFSET :: u32 where "ALERT_HANDLER_CLASSB_REGWEN_REG_OFFSET \<equiv> 0x360"
abbreviation ALERT_HANDLER_CLASSB_CLR_REG_OFFSET :: u32 where "ALERT_HANDLER_CLASSB_CLR_REG_OFFSET \<equiv> 0x364"
abbreviation ALERT_HANDLER_CLASSB_ACCUM_CNT_REG_OFFSET :: u32 where "ALERT_HANDLER_CLASSB_ACCUM_CNT_REG_OFFSET \<equiv> 0x368"
abbreviation ALERT_HANDLER_CLASSB_ACCUM_THRESH_REG_OFFSET :: u32 where "ALERT_HANDLER_CLASSB_ACCUM_THRESH_REG_OFFSET \<equiv> 0x36c"
abbreviation ALERT_HANDLER_CLASSB_TIMEOUT_CYC_REG_OFFSET :: u32 where "ALERT_HANDLER_CLASSB_TIMEOUT_CYC_REG_OFFSET \<equiv> 0x370"
abbreviation ALERT_HANDLER_CLASSB_PHASE0_CYC_REG_OFFSET :: u32 where "ALERT_HANDLER_CLASSB_PHASE0_CYC_REG_OFFSET \<equiv> 0x374"
abbreviation ALERT_HANDLER_CLASSB_PHASE1_CYC_REG_OFFSET :: u32 where "ALERT_HANDLER_CLASSB_PHASE1_CYC_REG_OFFSET \<equiv> 0x378"
abbreviation ALERT_HANDLER_CLASSB_PHASE2_CYC_REG_OFFSET :: u32 where "ALERT_HANDLER_CLASSB_PHASE2_CYC_REG_OFFSET \<equiv> 0x37c"
abbreviation ALERT_HANDLER_CLASSB_PHASE3_CYC_REG_OFFSET :: u32 where "ALERT_HANDLER_CLASSB_PHASE3_CYC_REG_OFFSET \<equiv> 0x380"
abbreviation ALERT_HANDLER_CLASSB_ESC_CNT_REG_OFFSET :: u32 where "ALERT_HANDLER_CLASSB_ESC_CNT_REG_OFFSET \<equiv> 0x384"
abbreviation ALERT_HANDLER_CLASSB_STATE_REG_OFFSET :: u32 where "ALERT_HANDLER_CLASSB_STATE_REG_OFFSET \<equiv> 0x388"
abbreviation ALERT_HANDLER_CLASSC_CTRL_REG_OFFSET :: u32 where "ALERT_HANDLER_CLASSC_CTRL_REG_OFFSET \<equiv> 0x38c"
abbreviation ALERT_HANDLER_CLASSC_REGWEN_REG_OFFSET :: u32 where "ALERT_HANDLER_CLASSC_REGWEN_REG_OFFSET \<equiv> 0x390"
abbreviation ALERT_HANDLER_CLASSC_CLR_REG_OFFSET :: u32 where "ALERT_HANDLER_CLASSC_CLR_REG_OFFSET \<equiv> 0x394"
abbreviation ALERT_HANDLER_CLASSC_ACCUM_CNT_REG_OFFSET :: u32 where "ALERT_HANDLER_CLASSC_ACCUM_CNT_REG_OFFSET \<equiv> 0x398"
abbreviation ALERT_HANDLER_CLASSC_ACCUM_THRESH_REG_OFFSET :: u32 where "ALERT_HANDLER_CLASSC_ACCUM_THRESH_REG_OFFSET \<equiv> 0x39c"
abbreviation ALERT_HANDLER_CLASSC_TIMEOUT_CYC_REG_OFFSET :: u32 where "ALERT_HANDLER_CLASSC_TIMEOUT_CYC_REG_OFFSET \<equiv> 0x3a0"
abbreviation ALERT_HANDLER_CLASSC_PHASE0_CYC_REG_OFFSET :: u32 where "ALERT_HANDLER_CLASSC_PHASE0_CYC_REG_OFFSET \<equiv> 0x3a4"
abbreviation ALERT_HANDLER_CLASSC_PHASE1_CYC_REG_OFFSET :: u32 where "ALERT_HANDLER_CLASSC_PHASE1_CYC_REG_OFFSET \<equiv> 0x3a8"
abbreviation ALERT_HANDLER_CLASSC_PHASE2_CYC_REG_OFFSET :: u32 where "ALERT_HANDLER_CLASSC_PHASE2_CYC_REG_OFFSET \<equiv> 0x3ac"
abbreviation ALERT_HANDLER_CLASSC_PHASE3_CYC_REG_OFFSET :: u32 where "ALERT_HANDLER_CLASSC_PHASE3_CYC_REG_OFFSET \<equiv> 0x3b0"
abbreviation ALERT_HANDLER_CLASSC_ESC_CNT_REG_OFFSET :: u32 where "ALERT_HANDLER_CLASSC_ESC_CNT_REG_OFFSET \<equiv> 0x3b4"
abbreviation ALERT_HANDLER_CLASSC_STATE_REG_OFFSET :: u32 where "ALERT_HANDLER_CLASSC_STATE_REG_OFFSET \<equiv> 0x3b8"
abbreviation ALERT_HANDLER_CLASSD_CTRL_REG_OFFSET :: u32 where "ALERT_HANDLER_CLASSD_CTRL_REG_OFFSET \<equiv> 0x3bc"
abbreviation ALERT_HANDLER_CLASSD_REGWEN_REG_OFFSET :: u32 where "ALERT_HANDLER_CLASSD_REGWEN_REG_OFFSET \<equiv> 0x3c0"
abbreviation ALERT_HANDLER_CLASSD_CLR_REG_OFFSET :: u32 where "ALERT_HANDLER_CLASSD_CLR_REG_OFFSET \<equiv> 0x3c4"
abbreviation ALERT_HANDLER_CLASSD_ACCUM_CNT_REG_OFFSET :: u32 where "ALERT_HANDLER_CLASSD_ACCUM_CNT_REG_OFFSET \<equiv> 0x3c8"
abbreviation ALERT_HANDLER_CLASSD_ACCUM_THRESH_REG_OFFSET :: u32 where "ALERT_HANDLER_CLASSD_ACCUM_THRESH_REG_OFFSET \<equiv> 0x3cc"
abbreviation ALERT_HANDLER_CLASSD_TIMEOUT_CYC_REG_OFFSET :: u32 where "ALERT_HANDLER_CLASSD_TIMEOUT_CYC_REG_OFFSET \<equiv> 0x3d0"
abbreviation ALERT_HANDLER_CLASSD_PHASE0_CYC_REG_OFFSET :: u32 where "ALERT_HANDLER_CLASSD_PHASE0_CYC_REG_OFFSET \<equiv> 0x3d4"
abbreviation ALERT_HANDLER_CLASSD_PHASE1_CYC_REG_OFFSET :: u32 where "ALERT_HANDLER_CLASSD_PHASE1_CYC_REG_OFFSET \<equiv> 0x3d8"
abbreviation ALERT_HANDLER_CLASSD_PHASE2_CYC_REG_OFFSET :: u32 where "ALERT_HANDLER_CLASSD_PHASE2_CYC_REG_OFFSET \<equiv> 0x3dc"
abbreviation ALERT_HANDLER_CLASSD_PHASE3_CYC_REG_OFFSET :: u32 where "ALERT_HANDLER_CLASSD_PHASE3_CYC_REG_OFFSET \<equiv> 0x3e0"
abbreviation ALERT_HANDLER_CLASSD_ESC_CNT_REG_OFFSET :: u32 where "ALERT_HANDLER_CLASSD_ESC_CNT_REG_OFFSET \<equiv> 0x3e4"
abbreviation ALERT_HANDLER_CLASSD_STATE_REG_OFFSET :: u32 where "ALERT_HANDLER_CLASSD_STATE_REG_OFFSET \<equiv> 0x3e8"
abbreviation ALERT_HANDLER_REGWEN_REGWEN_BIT :: u32 where "ALERT_HANDLER_REGWEN_REGWEN_BIT \<equiv> 0"
abbreviation ALERT_HANDLER_CLASSA_REGWEN_CLASSA_REGWEN_BIT :: u32 where "ALERT_HANDLER_CLASSA_REGWEN_CLASSA_REGWEN_BIT \<equiv> 0"
abbreviation ALERT_HANDLER_CLASSA_CLR_CLASSA_CLR_BIT :: u32 where "ALERT_HANDLER_CLASSA_CLR_CLASSA_CLR_BIT \<equiv> 0"
abbreviation ALERT_HANDLER_CLASSA_CTRL_EN_BIT :: u32 where "ALERT_HANDLER_CLASSA_CTRL_EN_BIT \<equiv> 0"
abbreviation ALERT_HANDLER_CLASSA_CTRL_LOCK_BIT :: u32 where "ALERT_HANDLER_CLASSA_CTRL_LOCK_BIT \<equiv> 1"
abbreviation ALERT_HANDLER_CLASSA_CTRL_EN_E0_BIT :: u32 where "ALERT_HANDLER_CLASSA_CTRL_EN_E0_BIT \<equiv> 2"
abbreviation ALERT_HANDLER_CLASSA_CTRL_EN_E1_BIT :: u32 where "ALERT_HANDLER_CLASSA_CTRL_EN_E1_BIT \<equiv> 3"
abbreviation ALERT_HANDLER_CLASSA_CTRL_EN_E2_BIT :: u32 where "ALERT_HANDLER_CLASSA_CTRL_EN_E2_BIT \<equiv> 4"
abbreviation ALERT_HANDLER_CLASSA_CTRL_EN_E3_BIT :: u32 where "ALERT_HANDLER_CLASSA_CTRL_EN_E3_BIT \<equiv> 5"
abbreviation ALERT_HANDLER_LOC_ALERT_EN_EN_LA_0_BIT :: u32 where "ALERT_HANDLER_LOC_ALERT_EN_EN_LA_0_BIT \<equiv> 0"
abbreviation ALERT_HANDLER_LOC_ALERT_EN_EN_LA_1_BIT :: u32 where "ALERT_HANDLER_LOC_ALERT_EN_EN_LA_1_BIT \<equiv> 1"
abbreviation ALERT_HANDLER_LOC_ALERT_EN_EN_LA_2_BIT :: u32 where "ALERT_HANDLER_LOC_ALERT_EN_EN_LA_2_BIT \<equiv> 2"
abbreviation ALERT_HANDLER_LOC_ALERT_EN_EN_LA_3_BIT :: u32 where "ALERT_HANDLER_LOC_ALERT_EN_EN_LA_3_BIT \<equiv> 3"
abbreviation ALERT_HANDLER_LOC_ALERT_CAUSE_LA_0_BIT :: u32 where "ALERT_HANDLER_LOC_ALERT_CAUSE_LA_0_BIT \<equiv> 0"
abbreviation ALERT_HANDLER_LOC_ALERT_CAUSE_LA_1_BIT :: u32 where "ALERT_HANDLER_LOC_ALERT_CAUSE_LA_1_BIT \<equiv> 1"
abbreviation ALERT_HANDLER_LOC_ALERT_CAUSE_LA_2_BIT :: u32 where "ALERT_HANDLER_LOC_ALERT_CAUSE_LA_2_BIT \<equiv> 2"
abbreviation ALERT_HANDLER_LOC_ALERT_CAUSE_LA_3_BIT :: u32 where "ALERT_HANDLER_LOC_ALERT_CAUSE_LA_3_BIT \<equiv> 3"
abbreviation ALERT_HANDLER_PING_TIMEOUT_CYC_PING_TIMEOUT_CYC_FIELD :: bitfield_field32 where
  "ALERT_HANDLER_PING_TIMEOUT_CYC_PING_TIMEOUT_CYC_FIELD \<equiv> \<lparr>field_mask = 0xffffff, field_index = 0\<rparr>"
abbreviation ALERT_HANDLER_CLASSA_CTRL_MAP_E0_FIELD :: bitfield_field32 where
  "ALERT_HANDLER_CLASSA_CTRL_MAP_E0_FIELD \<equiv> \<lparr>field_mask = 0x3, field_index = 6\<rparr>"
abbreviation ALERT_HANDLER_CLASSA_CTRL_MAP_E1_FIELD :: bitfield_field32 where
  "ALERT_HANDLER_CLASSA_CTRL_MAP_E1_FIELD \<equiv> \<lparr>field_mask = 0x3, field_index = 8\<rparr>"
abbreviation ALERT_HANDLER_CLASSA_CTRL_MAP_E2_FIELD :: bitfield_field32 where
  "ALERT_HANDLER_CLASSA_CTRL_MAP_E2_FIELD \<equiv> \<lparr>field_mask = 0x3, field_index = 10\<rparr>"
abbreviation ALERT_HANDLER_CLASSA_CTRL_MAP_E3_FIELD :: bitfield_field32 where
  "ALERT_HANDLER_CLASSA_CTRL_MAP_E3_FIELD \<equiv> \<lparr>field_mask = 0x3, field_index = 12\<rparr>"
abbreviation ALERT_HANDLER_LOC_ALERT_CLASS_CLASS_LA_0_FIELD :: bitfield_field32 where
  "ALERT_HANDLER_LOC_ALERT_CLASS_CLASS_LA_0_FIELD \<equiv> \<lparr>field_mask = 0x3, field_index = 0\<rparr>"
abbreviation ALERT_HANDLER_LOC_ALERT_CLASS_CLASS_LA_1_FIELD :: bitfield_field32 where
  "ALERT_HANDLER_LOC_ALERT_CLASS_CLASS_LA_1_FIELD \<equiv> \<lparr>field_mask = 0x3, field_index = 2\<rparr>"
abbreviation ALERT_HANDLER_LOC_ALERT_CLASS_CLASS_LA_2_FIELD :: bitfield_field32 where
  "ALERT_HANDLER_LOC_ALERT_CLASS_CLASS_LA_2_FIELD \<equiv> \<lparr>field_mask = 0x3, field_index = 4\<rparr>"
abbreviation ALERT_HANDLER_LOC_ALERT_CLASS_CLASS_LA_3_FIELD :: bitfield_field32 where
  "ALERT_HANDLER_LOC_ALERT_CLASS_CLASS_LA_3_FIELD \<equiv> \<lparr>field_mask = 0x3, field_index = 6\<rparr>"
abbreviation ALERT_HANDLER_CLASSA_ACCUM_CNT_CLASSA_ACCUM_CNT_FIELD :: bitfield_field32 where
  "ALERT_HANDLER_CLASSA_ACCUM_CNT_CLASSA_ACCUM_CNT_FIELD \<equiv> \<lparr>field_mask = 0xffff, field_index = 0\<rparr>"
abbreviation ALERT_HANDLER_CLASSB_ACCUM_CNT_CLASSB_ACCUM_CNT_FIELD :: bitfield_field32 where
  "ALERT_HANDLER_CLASSB_ACCUM_CNT_CLASSB_ACCUM_CNT_FIELD \<equiv> \<lparr>field_mask = 0xffff, field_index = 0\<rparr>"
abbreviation ALERT_HANDLER_CLASSC_ACCUM_CNT_CLASSC_ACCUM_CNT_FIELD :: bitfield_field32 where
  "ALERT_HANDLER_CLASSC_ACCUM_CNT_CLASSC_ACCUM_CNT_FIELD \<equiv> \<lparr>field_mask = 0xffff, field_index = 0\<rparr>"
abbreviation ALERT_HANDLER_CLASSD_ACCUM_CNT_CLASSD_ACCUM_CNT_FIELD :: bitfield_field32 where
  "ALERT_HANDLER_CLASSD_ACCUM_CNT_CLASSD_ACCUM_CNT_FIELD \<equiv> \<lparr>field_mask = 0xffff, field_index = 0\<rparr>"
abbreviation ALERT_HANDLER_CLASSA_STATE_CLASSA_STATE_FIELD :: bitfield_field32 where
  "ALERT_HANDLER_CLASSA_STATE_CLASSA_STATE_FIELD \<equiv> \<lparr>field_mask = 0x7, field_index = 0\<rparr>"
abbreviation ALERT_HANDLER_CLASSB_STATE_CLASSB_STATE_FIELD :: bitfield_field32 where
  "ALERT_HANDLER_CLASSB_STATE_CLASSB_STATE_FIELD \<equiv> \<lparr>field_mask = 0x7, field_index = 0\<rparr>"
abbreviation ALERT_HANDLER_CLASSC_STATE_CLASSC_STATE_FIELD :: bitfield_field32 where
  "ALERT_HANDLER_CLASSC_STATE_CLASSC_STATE_FIELD \<equiv> \<lparr>field_mask = 0x7, field_index = 0\<rparr>"
abbreviation ALERT_HANDLER_CLASSD_STATE_CLASSD_STATE_FIELD :: bitfield_field32 where
  "ALERT_HANDLER_CLASSD_STATE_CLASSD_STATE_FIELD \<equiv> \<lparr>field_mask = 0x7, field_index = 0\<rparr>"
abbreviation ALERT_HANDLER_ALERT_CLASS_CLASS_A_0_MASK :: u32 where "ALERT_HANDLER_ALERT_CLASS_CLASS_A_0_MASK \<equiv> 0x3"
abbreviation ALERT_HANDLER_PING_TIMEOUT_CYC_PING_TIMEOUT_CYC_MASK :: u32 where
  "ALERT_HANDLER_PING_TIMEOUT_CYC_PING_TIMEOUT_CYC_MASK \<equiv> 0xffffff"
abbreviation ALERT_HANDLER_PARAM_N_ESC_SEV :: u32 where "ALERT_HANDLER_PARAM_N_ESC_SEV \<equiv> 4"

section \<open>Types\<close>

datatype dif_alert_handler_toggle =
  kDifAlertHandlerToggleEnabled | kDifAlertHandlerToggleDisabled
| dif_alert_handler_toggle_other nat

record dif_alert_handler_params =
  alert_base_addr :: mmio_region
  alert_count :: u32
  escalation_signal_count :: u32

record dif_alert_handler =
  alert_params :: dif_alert_handler_params

datatype dif_alert_handler_result =
  kDifAlertHandlerOk | kDifAlertHandlerError | kDifAlertHandlerBadArg

datatype dif_alert_handler_config_result =
  kDifAlertHandlerConfigOk | kDifAlertHandlerConfigError | kDifAlertHandlerConfigBadArg
| kDifAlertHandlerConfigLocked

datatype dif_alert_handler_class =
  kDifAlertHandlerClassA | kDifAlertHandlerClassB | kDifAlertHandlerClassC | kDifAlertHandlerClassD
| dif_alert_handler_class_other nat

datatype dif_alert_handler_local_alert =
  kDifAlertHandlerLocalAlertAlertPingFail | kDifAlertHandlerLocalAlertEscalationPingFail
| kDifAlertHandlerLocalAlertAlertIntegrityFail | kDifAlertHandlerLocalAlertEscalationIntegrityFail
| dif_alert_handler_local_alert_other nat

datatype dif_alert_handler_class_state =
  kDifAlertHandlerClassStateIdle | kDifAlertHandlerClassStateTimeout
| kDifAlertHandlerClassStatePhase0 | kDifAlertHandlerClassStatePhase1
| kDifAlertHandlerClassStatePhase2 | kDifAlertHandlerClassStatePhase3
| kDifAlertHandlerClassStateTerminal | dif_alert_handler_class_state_other nat

record dif_alert_handler_class_phase_signal =
  signal_phase :: dif_alert_handler_class_state
  signal :: u32

record dif_alert_handler_class_phase_duration =
  duration_phase :: dif_alert_handler_class_state
  cycles :: u32

record dif_alert_handler_class_config =
  alert_class :: dif_alert_handler_class
  alerts :: "u32 list ptr"
  alerts_len :: nat
  local_alerts :: "dif_alert_handler_local_alert list ptr"
  local_alerts_len :: nat
  use_escalation_protocol :: dif_alert_handler_toggle
  automatic_locking :: dif_alert_handler_toggle
  accumulator_threshold :: u16
  irq_deadline_cycles :: u32
  phase_signals :: "dif_alert_handler_class_phase_signal list ptr"
  phase_signals_len :: nat
  phase_durations :: "dif_alert_handler_class_phase_duration list ptr"
  phase_durations_len :: nat

record dif_alert_handler_config =
  ping_timeout :: u32
  classes :: "dif_alert_handler_class_config list ptr"
  classes_len :: nat

abbreviation alert_base :: "dif_alert_handler \<Rightarrow> mmio_region" where
  "alert_base handler \<equiv> alert_base_addr (alert_params handler)"

text \<open>The elements a counting loop over an array argument visits.\<close>

definition array_elems :: "'a list ptr \<Rightarrow> nat \<Rightarrow> 'a list" where
  "array_elems p len = (case p of NULL \<Rightarrow> [] | Some xs \<Rightarrow> take len xs)"

section \<open>Initialisation\<close>

definition dif_alert_handler_init ::
  "dif_alert_handler_params \<Rightarrow> dif_alert_handler ptr \<Rightarrow> dif_alert_handler_result \<times> dif_alert_handler ptr" where
  "dif_alert_handler_init params handler =
     (case handler of NULL \<Rightarrow> (kDifAlertHandlerBadArg, NULL)
      | Some h \<Rightarrow>
        if alert_count params > 16 then (kDifAlertHandlerBadArg, handler)
        else if escalation_signal_count params \<noteq> ALERT_HANDLER_PARAM_N_ESC_SEV then (kDifAlertHandlerBadArg, handler)
        else (kDifAlertHandlerOk, store handler (h\<lparr>alert_params := params\<rparr>)))"

section \<open>Classification\<close>

fun class_value :: "dif_alert_handler_class \<Rightarrow> u32 option" where
  "class_value kDifAlertHandlerClassA = Some 0"
| "class_value kDifAlertHandlerClassB = Some 1"
| "class_value kDifAlertHandlerClassC = Some 2"
| "class_value kDifAlertHandlerClassD = Some 3"
| "class_value (dif_alert_handler_class_other _) = None"

fun local_alert_bit :: "dif_alert_handler_local_alert \<Rightarrow> u32 option" where
  "local_alert_bit kDifAlertHandlerLocalAlertAlertPingFail = Some 0"
| "local_alert_bit kDifAlertHandlerLocalAlertEscalationPingFail = Some 1"
| "local_alert_bit kDifAlertHandlerLocalAlertAlertIntegrityFail = Some 2"
| "local_alert_bit kDifAlertHandlerLocalAlertEscalationIntegrityFail = Some 3"
| "local_alert_bit (dif_alert_handler_local_alert_other _) = None"

fun local_alert_field :: "dif_alert_handler_local_alert \<Rightarrow> bitfield_field32 option" where
  "local_alert_field kDifAlertHandlerLocalAlertAlertPingFail = Some ALERT_HANDLER_LOC_ALERT_CLASS_CLASS_LA_0_FIELD"
| "local_alert_field kDifAlertHandlerLocalAlertEscalationPingFail = Some ALERT_HANDLER_LOC_ALERT_CLASS_CLASS_LA_1_FIELD"
| "local_alert_field kDifAlertHandlerLocalAlertAlertIntegrityFail = Some ALERT_HANDLER_LOC_ALERT_CLASS_CLASS_LA_2_FIELD"
| "local_alert_field kDifAlertHandlerLocalAlertEscalationIntegrityFail = Some ALERT_HANDLER_LOC_ALERT_CLASS_CLASS_LA_3_FIELD"
| "local_alert_field (dif_alert_handler_local_alert_other _) = None"

text \<open>\<open>None\<close>: the loop returns false; the two registers are written only after it.\<close>

fun classify_alerts_loop ::
  "dif_alert_handler \<Rightarrow> dif_alert_handler_class \<Rightarrow> u32 list \<Rightarrow> u32 \<Rightarrow> u32 \<Rightarrow> (u32 \<times> u32) option" where
  "classify_alerts_loop handler cls [] enable_reg alerts_reg = Some (enable_reg, alerts_reg)"
| "classify_alerts_loop handler cls (alert # rest) enable_reg alerts_reg =
     (if alert \<ge> alert_count (alert_params handler) then None
      else
        (let enable_reg = bitfield_bit32_write enable_reg alert True
         in case class_value cls of None \<Rightarrow> None
            | Some classification \<Rightarrow>
                (let field_width = of_nat (bitfield_popcount32 ALERT_HANDLER_ALERT_CLASS_CLASS_A_0_MASK);
                     field_offset = field_width * alert;
                     alerts_reg = bitfield_field32_write alerts_reg
                       \<lparr>field_mask = ALERT_HANDLER_ALERT_CLASS_CLASS_A_0_MASK, field_index = field_offset\<rparr> classification
                 in classify_alerts_loop handler cls rest enable_reg alerts_reg)))"

definition classify_alerts :: "dif_alert_handler \<Rightarrow> dif_alert_handler_class_config \<Rightarrow> bool io" where
  "classify_alerts handler cls =
     (if alerts cls = NULL \<and> alerts_len cls \<noteq> 0 then ret False
      else do {
        enable_reg \<leftarrow> mmio_region_read32 (alert_base handler) ALERT_HANDLER_ALERT_EN_REG_OFFSET;
        alerts_reg \<leftarrow> mmio_region_read32 (alert_base handler) ALERT_HANDLER_ALERT_CLASS_REG_OFFSET;
        case classify_alerts_loop handler (alert_class cls) (array_elems (alerts cls) (alerts_len cls))
            enable_reg alerts_reg of
          None \<Rightarrow> ret False
        | Some (enable_reg, alerts_reg) \<Rightarrow> do {
            _ \<leftarrow> mmio_region_write32 (alert_base handler) ALERT_HANDLER_ALERT_EN_REG_OFFSET enable_reg;
            _ \<leftarrow> mmio_region_write32 (alert_base handler) ALERT_HANDLER_ALERT_CLASS_REG_OFFSET alerts_reg;
            ret True
          }
      })"

fun classify_local_alerts_loop ::
  "dif_alert_handler_class \<Rightarrow> dif_alert_handler_local_alert list \<Rightarrow> u32 \<Rightarrow> u32 \<Rightarrow> (u32 \<times> u32) option" where
  "classify_local_alerts_loop cls [] enable_reg alerts_reg = Some (enable_reg, alerts_reg)"
| "classify_local_alerts_loop cls (alert # rest) enable_reg alerts_reg =
     (case (class_value cls, local_alert_bit alert, local_alert_field alert) of
        (Some classification, Some enable_bit, Some field) \<Rightarrow>
          (let enable_reg = bitfield_bit32_write enable_reg enable_bit True;
               alerts_reg = bitfield_field32_write alerts_reg field classification
           in classify_local_alerts_loop cls rest enable_reg alerts_reg)
      | _ \<Rightarrow> None)"

definition classify_local_alerts :: "dif_alert_handler \<Rightarrow> dif_alert_handler_class_config \<Rightarrow> bool io" where
  "classify_local_alerts handler cls =
     (if local_alerts cls = NULL \<and> local_alerts_len cls \<noteq> 0 then ret False
      else do {
        enable_reg \<leftarrow> mmio_region_read32 (alert_base handler) ALERT_HANDLER_LOC_ALERT_EN_REG_OFFSET;
        alerts_reg \<leftarrow> mmio_region_read32 (alert_base handler) ALERT_HANDLER_LOC_ALERT_CLASS_REG_OFFSET;
        case classify_local_alerts_loop (alert_class cls) (array_elems (local_alerts cls) (local_alerts_len cls))
            enable_reg alerts_reg of
          None \<Rightarrow> ret False
        | Some (enable_reg, alerts_reg) \<Rightarrow> do {
            _ \<leftarrow> mmio_region_write32 (alert_base handler) ALERT_HANDLER_LOC_ALERT_EN_REG_OFFSET enable_reg;
            _ \<leftarrow> mmio_region_write32 (alert_base handler) ALERT_HANDLER_LOC_ALERT_CLASS_REG_OFFSET alerts_reg;
            ret True
          }
      })"

section \<open>The escalation protocol of a class\<close>

fun alert_toggle_to_bool :: "dif_alert_handler_toggle \<Rightarrow> bool option" where
  "alert_toggle_to_bool kDifAlertHandlerToggleEnabled = Some True"
| "alert_toggle_to_bool kDifAlertHandlerToggleDisabled = Some False"
| "alert_toggle_to_bool (dif_alert_handler_toggle_other _) = None"

fun phase_ctrl :: "dif_alert_handler_class_state \<Rightarrow> (u32 \<times> bitfield_field32) option" where
  "phase_ctrl kDifAlertHandlerClassStatePhase0 = Some (ALERT_HANDLER_CLASSA_CTRL_EN_E0_BIT, ALERT_HANDLER_CLASSA_CTRL_MAP_E0_FIELD)"
| "phase_ctrl kDifAlertHandlerClassStatePhase1 = Some (ALERT_HANDLER_CLASSA_CTRL_EN_E1_BIT, ALERT_HANDLER_CLASSA_CTRL_MAP_E1_FIELD)"
| "phase_ctrl kDifAlertHandlerClassStatePhase2 = Some (ALERT_HANDLER_CLASSA_CTRL_EN_E2_BIT, ALERT_HANDLER_CLASSA_CTRL_MAP_E2_FIELD)"
| "phase_ctrl kDifAlertHandlerClassStatePhase3 = Some (ALERT_HANDLER_CLASSA_CTRL_EN_E3_BIT, ALERT_HANDLER_CLASSA_CTRL_MAP_E3_FIELD)"
| "phase_ctrl _ = None"

fun class_ctrl_reg :: "dif_alert_handler_class \<Rightarrow> u32 option" where
  "class_ctrl_reg kDifAlertHandlerClassA = Some ALERT_HANDLER_CLASSA_CTRL_REG_OFFSET"
| "class_ctrl_reg kDifAlertHandlerClassB = Some ALERT_HANDLER_CLASSB_CTRL_REG_OFFSET"
| "class_ctrl_reg kDifAlertHandlerClassC = Some ALERT_HANDLER_CLASSC_CTRL_REG_OFFSET"
| "class_ctrl_reg kDifAlertHandlerClassD = Some ALERT_HANDLER_CLASSD_CTRL_REG_OFFSET"
| "class_ctrl_reg (dif_alert_handler_class_other _) = None"

fun class_accum_thresh_reg :: "dif_alert_handler_class \<Rightarrow> u32 option" where
  "class_accum_thresh_reg kDifAlertHandlerClassA = Some ALERT_HANDLER_CLASSA_ACCUM_THRESH_REG_OFFSET"
| "class_accum_thresh_reg kDifAlertHandlerClassB = Some ALERT_HANDLER_CLASSB_ACCUM_THRESH_REG_OFFSET"
| "class_accum_thresh_reg kDifAlertHandlerClassC = Some ALERT_HANDLER_CLASSC_ACCUM_THRESH_REG_OFFSET"
| "class_accum_thresh_reg kDifAlertHandlerClassD = Some ALERT_HANDLER_CLASSD_ACCUM_THRESH_REG_OFFSET"
| "class_accum_thresh_reg (dif_alert_handler_class_other _) = None"

fun class_timeout_reg :: "dif_alert_handler_class \<Rightarrow> u32 option" where
  "class_timeout_reg kDifAlertHandlerClassA = Some ALERT_HANDLER_CLASSA_TIMEOUT_CYC_REG_OFFSET"
| "class_timeout_reg kDifAlertHandlerClassB = Some ALERT_HANDLER_CLASSB_TIMEOUT_CYC_REG_OFFSET"
| "class_timeout_reg kDifAlertHandlerClassC = Some ALERT_HANDLER_CLASSC_TIMEOUT_CYC_REG_OFFSET"
| "class_timeout_reg kDifAlertHandlerClassD = Some ALERT_HANDLER_CLASSD_TIMEOUT_CYC_REG_OFFSET"
| "class_timeout_reg (dif_alert_handler_class_other _) = None"

fun phase_signals_loop ::
  "dif_alert_handler \<Rightarrow> dif_alert_handler_class_phase_signal list \<Rightarrow> u32 \<Rightarrow> u32 option" where
  "phase_signals_loop handler [] ctrl_reg = Some ctrl_reg"
| "phase_signals_loop handler (ps # rest) ctrl_reg =
     (if signal ps \<ge> escalation_signal_count (alert_params handler) then None
      else case phase_ctrl (signal_phase ps) of None \<Rightarrow> None
      | Some (enable_bit, map_field) \<Rightarrow>
          (let ctrl_reg = bitfield_bit32_write ctrl_reg enable_bit True;
               ctrl_reg = bitfield_field32_write ctrl_reg map_field (signal ps)
           in phase_signals_loop handler rest ctrl_reg))"

definition configure_class :: "dif_alert_handler \<Rightarrow> dif_alert_handler_class_config \<Rightarrow> bool io" where
  "configure_class handler cls =
     (case class_ctrl_reg (alert_class cls) of None \<Rightarrow> ret False
      | Some reg_offset \<Rightarrow>
        let ctrl_reg = 0 in
        (case alert_toggle_to_bool (use_escalation_protocol cls) of None \<Rightarrow> ret False
         | Some use_escalation \<Rightarrow>
           let ctrl_reg = bitfield_bit32_write ctrl_reg ALERT_HANDLER_CLASSA_CTRL_EN_BIT use_escalation in
           (case alert_toggle_to_bool (automatic_locking cls) of None \<Rightarrow> ret False
            | Some auto_lock \<Rightarrow>
              let ctrl_reg = bitfield_bit32_write ctrl_reg ALERT_HANDLER_CLASSA_CTRL_LOCK_BIT auto_lock in
              if phase_signals cls = NULL \<and> phase_signals_len cls \<noteq> 0 then ret False
              else
                (case phase_signals_loop handler (array_elems (phase_signals cls) (phase_signals_len cls)) ctrl_reg of
                   None \<Rightarrow> ret False
                 | Some ctrl_reg \<Rightarrow> do {
                     _ \<leftarrow> mmio_region_write32 (alert_base handler) reg_offset ctrl_reg;
                     case class_accum_thresh_reg (alert_class cls) of None \<Rightarrow> ret False
                     | Some acc_offset \<Rightarrow> do {
                         _ \<leftarrow> mmio_region_write32 (alert_base handler) acc_offset (ucast (accumulator_threshold cls));
                         case class_timeout_reg (alert_class cls) of None \<Rightarrow> ret False
                         | Some deadline_offset \<Rightarrow> do {
                             _ \<leftarrow> mmio_region_write32 (alert_base handler) deadline_offset (irq_deadline_cycles cls);
                             ret True
                           }
                       }
                   }))))"

text \<open>The table \<open>kRegOffsets\<close>: a row for each class, a column for each phase.\<close>

definition kRegOffsets :: "u32 list list" where
  "kRegOffsets =
    [[ALERT_HANDLER_CLASSA_PHASE0_CYC_REG_OFFSET, ALERT_HANDLER_CLASSA_PHASE1_CYC_REG_OFFSET, ALERT_HANDLER_CLASSA_PHASE2_CYC_REG_OFFSET, ALERT_HANDLER_CLASSA_PHASE3_CYC_REG_OFFSET],
     [ALERT_HANDLER_CLASSB_PHASE0_CYC_REG_OFFSET, ALERT_HANDLER_CLASSB_PHASE1_CYC_REG_OFFSET, ALERT_HANDLER_CLASSB_PHASE2_CYC_REG_OFFSET, ALERT_HANDLER_CLASSB_PHASE3_CYC_REG_OFFSET],
     [ALERT_HANDLER_CLASSC_PHASE0_CYC_REG_OFFSET, ALERT_HANDLER_CLASSC_PHASE1_CYC_REG_OFFSET, ALERT_HANDLER_CLASSC_PHASE2_CYC_REG_OFFSET, ALERT_HANDLER_CLASSC_PHASE3_CYC_REG_OFFSET],
     [ALERT_HANDLER_CLASSD_PHASE0_CYC_REG_OFFSET, ALERT_HANDLER_CLASSD_PHASE1_CYC_REG_OFFSET, ALERT_HANDLER_CLASSD_PHASE2_CYC_REG_OFFSET, ALERT_HANDLER_CLASSD_PHASE3_CYC_REG_OFFSET]]"

fun class_index :: "dif_alert_handler_class \<Rightarrow> nat" where
  "class_index kDifAlertHandlerClassA = 0"
| "class_index kDifAlertHandlerClassB = 1"
| "class_index kDifAlertHandlerClassC = 2"
| "class_index kDifAlertHandlerClassD = 3"
| "class_index (dif_alert_handler_class_other n) = 4 + n"

fun class_state_index :: "dif_alert_handler_class_state \<Rightarrow> nat" where
  "class_state_index kDifAlertHandlerClassStateIdle = 0"
| "class_state_index kDifAlertHandlerClassStateTimeout = 1"
| "class_state_index kDifAlertHandlerClassStatePhase0 = 2"
| "class_state_index kDifAlertHandlerClassStatePhase1 = 3"
| "class_state_index kDifAlertHandlerClassStatePhase2 = 4"
| "class_state_index kDifAlertHandlerClassStatePhase3 = 5"
| "class_state_index kDifAlertHandlerClassStateTerminal = 6"
| "class_state_index (dif_alert_handler_class_state_other n) = 7 + n"

fun phase_durations_loop ::
  "dif_alert_handler \<Rightarrow> dif_alert_handler_class \<Rightarrow> dif_alert_handler_class_phase_duration list \<Rightarrow> bool io" where
  "phase_durations_loop handler cls [] = ret True"
| "phase_durations_loop handler cls (pd # rest) =
     (if class_index cls \<ge> 4 then ret False
      else
        (let phase = class_state_index (duration_phase pd)
         in if phase < class_state_index kDifAlertHandlerClassStatePhase0
               \<or> phase > class_state_index kDifAlertHandlerClassStatePhase3 then ret False
         else do {
           let reg_offset = kRegOffsets ! class_index cls ! (phase - class_state_index kDifAlertHandlerClassStatePhase0);
           _ \<leftarrow> mmio_region_write32 (alert_base handler) reg_offset (cycles pd);
           phase_durations_loop handler cls rest
         }))"

definition configure_phase_durations :: "dif_alert_handler \<Rightarrow> dif_alert_handler_class_config \<Rightarrow> bool io" where
  "configure_phase_durations handler cls =
     (if phase_durations cls = NULL \<and> phase_durations_len cls \<noteq> 0 then ret False
      else phase_durations_loop handler (alert_class cls) (array_elems (phase_durations cls) (phase_durations_len cls)))"

section \<open>Configuration and locking\<close>

definition dif_alert_handler_lock :: "dif_alert_handler ptr \<Rightarrow> dif_alert_handler_result io" where
  "dif_alert_handler_lock handler =
     (case handler of NULL \<Rightarrow> ret kDifAlertHandlerBadArg
      | Some handler \<Rightarrow> do {
          let reg = bitfield_bit32_write 0 ALERT_HANDLER_REGWEN_REGWEN_BIT True;
          _ \<leftarrow> mmio_region_write32 (alert_base handler) ALERT_HANDLER_REGWEN_REG_OFFSET reg;
          ret kDifAlertHandlerOk
        })"

definition dif_alert_handler_is_locked ::
  "dif_alert_handler ptr \<Rightarrow> bool ptr \<Rightarrow> (dif_alert_handler_result \<times> bool ptr) io" where
  "dif_alert_handler_is_locked handler is_locked =
     (case (handler, is_locked) of
        (Some handler, Some _) \<Rightarrow> do {
          reg \<leftarrow> mmio_region_read32 (alert_base handler) ALERT_HANDLER_REGWEN_REG_OFFSET;
          ret (kDifAlertHandlerOk, store is_locked (\<not> bitfield_bit32_read reg ALERT_HANDLER_REGWEN_REGWEN_BIT))
        }
      | _ \<Rightarrow> ret (kDifAlertHandlerBadArg, is_locked))"

fun to_config_result :: "dif_alert_handler_result \<Rightarrow> dif_alert_handler_config_result" where
  "to_config_result kDifAlertHandlerOk = kDifAlertHandlerConfigOk"
| "to_config_result kDifAlertHandlerError = kDifAlertHandlerConfigError"
| "to_config_result kDifAlertHandlerBadArg = kDifAlertHandlerConfigBadArg"

fun configure_classes :: "dif_alert_handler \<Rightarrow> dif_alert_handler_class_config list \<Rightarrow> bool io" where
  "configure_classes handler [] = ret True"
| "configure_classes handler (cls # rest) = do {
     ok \<leftarrow> classify_alerts handler cls;
     if \<not> ok then ret False
     else do {
       ok \<leftarrow> classify_local_alerts handler cls;
       if \<not> ok then ret False
       else do {
         ok \<leftarrow> configure_class handler cls;
         if \<not> ok then ret False
         else do {
           ok \<leftarrow> configure_phase_durations handler cls;
           if \<not> ok then ret False else configure_classes handler rest
         }
       }
     }
   }"

definition dif_alert_handler_configure ::
  "dif_alert_handler ptr \<Rightarrow> dif_alert_handler_config \<Rightarrow> dif_alert_handler_config_result io" where
  "dif_alert_handler_configure handler config =
     (case handler of NULL \<Rightarrow> ret kDifAlertHandlerConfigBadArg
      | Some h \<Rightarrow>
        if ping_timeout config > ALERT_HANDLER_PING_TIMEOUT_CYC_PING_TIMEOUT_CYC_MASK
        then ret kDifAlertHandlerConfigBadArg
        else if classes config = NULL \<and> classes_len config \<noteq> 0 then ret kDifAlertHandlerConfigBadArg
        else do {
          (result, is_locked) \<leftarrow> dif_alert_handler_is_locked handler (Some False);
          if result \<noteq> kDifAlertHandlerOk then ret (to_config_result result)
          else if the is_locked then ret kDifAlertHandlerConfigLocked
          else do {
            ok \<leftarrow> configure_classes h (array_elems (classes config) (classes_len config));
            if \<not> ok then ret kDifAlertHandlerConfigError
            else do {
              let ping_timeout_reg = bitfield_field32_write 0
                ALERT_HANDLER_PING_TIMEOUT_CYC_PING_TIMEOUT_CYC_FIELD (ping_timeout config);
              _ \<leftarrow> mmio_region_write32 (alert_base h) ALERT_HANDLER_PING_TIMEOUT_CYC_REG_OFFSET ping_timeout_reg;
              ret kDifAlertHandlerConfigOk
            }
          }
        })"

section \<open>Interrupts\<close>

fun alert_irq_index :: "dif_alert_handler_class \<Rightarrow> u32 option" where
  "alert_irq_index kDifAlertHandlerClassA = Some 0"
| "alert_irq_index kDifAlertHandlerClassB = Some 1"
| "alert_irq_index kDifAlertHandlerClassC = Some 2"
| "alert_irq_index kDifAlertHandlerClassD = Some 3"
| "alert_irq_index (dif_alert_handler_class_other _) = None"

definition dif_alert_handler_irq_is_pending ::
  "dif_alert_handler ptr \<Rightarrow> dif_alert_handler_class \<Rightarrow> bool ptr \<Rightarrow> (dif_alert_handler_result \<times> bool ptr) io" where
  "dif_alert_handler_irq_is_pending handler irq is_pending =
     (case (handler, is_pending) of
        (Some handler, Some _) \<Rightarrow>
          (case alert_irq_index irq of None \<Rightarrow> ret (kDifAlertHandlerBadArg, is_pending)
           | Some index \<Rightarrow> do {
               reg \<leftarrow> mmio_region_read32 (alert_base handler) ALERT_HANDLER_INTR_STATE_REG_OFFSET;
               ret (kDifAlertHandlerOk, store is_pending (bitfield_bit32_read reg index))
             })
      | _ \<Rightarrow> ret (kDifAlertHandlerBadArg, is_pending))"

definition dif_alert_handler_irq_acknowledge ::
  "dif_alert_handler ptr \<Rightarrow> dif_alert_handler_class \<Rightarrow> dif_alert_handler_result io" where
  "dif_alert_handler_irq_acknowledge handler irq =
     (case handler of NULL \<Rightarrow> ret kDifAlertHandlerBadArg
      | Some handler \<Rightarrow>
        (case alert_irq_index irq of None \<Rightarrow> ret kDifAlertHandlerBadArg
         | Some index \<Rightarrow> do {
             reg \<leftarrow> mmio_region_read32 (alert_base handler) ALERT_HANDLER_INTR_STATE_REG_OFFSET;
             let reg = bitfield_bit32_write reg index True;
             _ \<leftarrow> mmio_region_write32 (alert_base handler) ALERT_HANDLER_INTR_STATE_REG_OFFSET reg;
             ret kDifAlertHandlerOk
           }))"

definition dif_alert_handler_irq_get_enabled ::
  "dif_alert_handler ptr \<Rightarrow> dif_alert_handler_class \<Rightarrow> dif_alert_handler_toggle ptr \<Rightarrow> (dif_alert_handler_result \<times> dif_alert_handler_toggle ptr) io" where
  "dif_alert_handler_irq_get_enabled handler irq st =
     (case (handler, st) of
        (Some handler, Some _) \<Rightarrow>
          (case alert_irq_index irq of None \<Rightarrow> ret (kDifAlertHandlerBadArg, st)
           | Some index \<Rightarrow> do {
               reg \<leftarrow> mmio_region_read32 (alert_base handler) ALERT_HANDLER_INTR_ENABLE_REG_OFFSET;
               let is_enabled = bitfield_bit32_read reg index;
               ret (kDifAlertHandlerOk, store st (if is_enabled then kDifAlertHandlerToggleEnabled else kDifAlertHandlerToggleDisabled))
             })
      | _ \<Rightarrow> ret (kDifAlertHandlerBadArg, st))"

definition dif_alert_handler_irq_set_enabled ::
  "dif_alert_handler ptr \<Rightarrow> dif_alert_handler_class \<Rightarrow> dif_alert_handler_toggle \<Rightarrow> dif_alert_handler_result io" where
  "dif_alert_handler_irq_set_enabled handler irq st =
     (case handler of NULL \<Rightarrow> ret kDifAlertHandlerBadArg
      | Some handler \<Rightarrow>
        (case alert_irq_index irq of None \<Rightarrow> ret kDifAlertHandlerBadArg
         | Some index \<Rightarrow>
           (case alert_toggle_to_bool st of None \<Rightarrow> ret kDifAlertHandlerBadArg
            | Some flag \<Rightarrow> do {
                reg \<leftarrow> mmio_region_read32 (alert_base handler) ALERT_HANDLER_INTR_ENABLE_REG_OFFSET;
                let reg = bitfield_bit32_write reg index flag;
                _ \<leftarrow> mmio_region_write32 (alert_base handler) ALERT_HANDLER_INTR_ENABLE_REG_OFFSET reg;
                ret kDifAlertHandlerOk
              })))"

definition dif_alert_handler_irq_force :: "dif_alert_handler ptr \<Rightarrow> dif_alert_handler_class \<Rightarrow> dif_alert_handler_result io" where
  "dif_alert_handler_irq_force handler irq =
     (case handler of NULL \<Rightarrow> ret kDifAlertHandlerBadArg
      | Some handler \<Rightarrow>
        (case alert_irq_index irq of None \<Rightarrow> ret kDifAlertHandlerBadArg
         | Some index \<Rightarrow> do {
             let reg = bitfield_bit32_write 0 index True;
             _ \<leftarrow> mmio_region_write32 (alert_base handler) ALERT_HANDLER_INTR_TEST_REG_OFFSET reg;
             ret kDifAlertHandlerOk
           }))"

definition dif_alert_handler_irq_disable_all :: "dif_alert_handler ptr \<Rightarrow> u32 ptr \<Rightarrow> (dif_alert_handler_result \<times> u32 ptr) io" where
  "dif_alert_handler_irq_disable_all handler snapshot =
     (case handler of NULL \<Rightarrow> ret (kDifAlertHandlerBadArg, snapshot)
      | Some handler \<Rightarrow> do {
          snapshot' \<leftarrow> (if snapshot \<noteq> NULL then do {
              v \<leftarrow> mmio_region_read32 (alert_base handler) ALERT_HANDLER_INTR_ENABLE_REG_OFFSET;
              ret (store snapshot v)
            } else ret snapshot);
          _ \<leftarrow> mmio_region_write32 (alert_base handler) ALERT_HANDLER_INTR_ENABLE_REG_OFFSET 0;
          ret (kDifAlertHandlerOk, snapshot')
        })"

definition dif_alert_handler_irq_restore_all :: "dif_alert_handler ptr \<Rightarrow> u32 ptr \<Rightarrow> dif_alert_handler_result io" where
  "dif_alert_handler_irq_restore_all handler snapshot =
     (case (handler, snapshot) of
        (Some handler, Some snapshot) \<Rightarrow> do {
          _ \<leftarrow> mmio_region_write32 (alert_base handler) ALERT_HANDLER_INTR_ENABLE_REG_OFFSET snapshot;
          ret kDifAlertHandlerOk
        }
      | _ \<Rightarrow> ret kDifAlertHandlerBadArg)"

section \<open>Alert causes\<close>

definition dif_alert_handler_alert_is_cause ::
  "dif_alert_handler ptr \<Rightarrow> u32 \<Rightarrow> bool ptr \<Rightarrow> (dif_alert_handler_result \<times> bool ptr) io" where
  "dif_alert_handler_alert_is_cause handler alert is_cause =
     (case (handler, is_cause) of
        (Some handler, Some _) \<Rightarrow>
          if alert \<ge> alert_count (alert_params handler) then ret (kDifAlertHandlerBadArg, is_cause)
          else do {
            reg \<leftarrow> mmio_region_read32 (alert_base handler) ALERT_HANDLER_ALERT_CAUSE_REG_OFFSET;
            ret (kDifAlertHandlerOk, store is_cause (bitfield_bit32_read reg alert))
          }
      | _ \<Rightarrow> ret (kDifAlertHandlerBadArg, is_cause))"

definition dif_alert_handler_alert_acknowledge ::
  "dif_alert_handler ptr \<Rightarrow> u32 \<Rightarrow> dif_alert_handler_result io" where
  "dif_alert_handler_alert_acknowledge handler alert =
     (case handler of NULL \<Rightarrow> ret kDifAlertHandlerBadArg
      | Some handler \<Rightarrow>
        if alert \<ge> alert_count (alert_params handler) then ret kDifAlertHandlerBadArg
        else do {
          let reg = bitfield_bit32_write 0 alert True;
          _ \<leftarrow> mmio_region_write32 (alert_base handler) ALERT_HANDLER_ALERT_CAUSE_REG_OFFSET reg;
          ret kDifAlertHandlerOk
        })"

fun loc_alert_index :: "dif_alert_handler_local_alert \<Rightarrow> u32 option" where
  "loc_alert_index kDifAlertHandlerLocalAlertAlertPingFail = Some ALERT_HANDLER_LOC_ALERT_CAUSE_LA_0_BIT"
| "loc_alert_index kDifAlertHandlerLocalAlertEscalationPingFail = Some ALERT_HANDLER_LOC_ALERT_CAUSE_LA_1_BIT"
| "loc_alert_index kDifAlertHandlerLocalAlertAlertIntegrityFail = Some ALERT_HANDLER_LOC_ALERT_CAUSE_LA_2_BIT"
| "loc_alert_index kDifAlertHandlerLocalAlertEscalationIntegrityFail = Some ALERT_HANDLER_LOC_ALERT_CAUSE_LA_3_BIT"
| "loc_alert_index (dif_alert_handler_local_alert_other _) = None"

definition dif_alert_handler_local_alert_is_cause ::
  "dif_alert_handler ptr \<Rightarrow> dif_alert_handler_local_alert \<Rightarrow> bool ptr \<Rightarrow> (dif_alert_handler_result \<times> bool ptr) io" where
  "dif_alert_handler_local_alert_is_cause handler alert is_cause =
     (case (handler, is_cause) of
        (Some handler, Some _) \<Rightarrow>
          (case loc_alert_index alert of None \<Rightarrow> ret (kDifAlertHandlerBadArg, is_cause)
           | Some index \<Rightarrow> do {
            reg \<leftarrow> mmio_region_read32 (alert_base handler) ALERT_HANDLER_LOC_ALERT_CAUSE_REG_OFFSET;
            ret (kDifAlertHandlerOk, store is_cause (bitfield_bit32_read reg index))
          })
      | _ \<Rightarrow> ret (kDifAlertHandlerBadArg, is_cause))"

definition dif_alert_handler_local_alert_acknowledge ::
  "dif_alert_handler ptr \<Rightarrow> dif_alert_handler_local_alert \<Rightarrow> dif_alert_handler_result io" where
  "dif_alert_handler_local_alert_acknowledge handler alert =
     (case handler of NULL \<Rightarrow> ret kDifAlertHandlerBadArg
      | Some handler \<Rightarrow>
        (case loc_alert_index alert of None \<Rightarrow> ret kDifAlertHandlerBadArg
         | Some index \<Rightarrow> do {
          let reg = bitfield_bit32_write 0 index True;
          _ \<leftarrow> mmio_region_write32 (alert_base handler) ALERT_HANDLER_LOC_ALERT_CAUSE_REG_OFFSET reg;
          ret kDifAlertHandlerOk
        }))"

section \<open>Escalation\<close>

fun get_clear_enable_reg_offset :: "dif_alert_handler_class \<Rightarrow> u32 option" where
  "get_clear_enable_reg_offset kDifAlertHandlerClassA = Some ALERT_HANDLER_CLASSA_REGWEN_REG_OFFSET"
| "get_clear_enable_reg_offset kDifAlertHandlerClassB = Some ALERT_HANDLER_CLASSB_REGWEN_REG_OFFSET"
| "get_clear_enable_reg_offset kDifAlertHandlerClassC = Some ALERT_HANDLER_CLASSC_REGWEN_REG_OFFSET"
| "get_clear_enable_reg_offset kDifAlertHandlerClassD = Some ALERT_HANDLER_CLASSD_REGWEN_REG_OFFSET"
| "get_clear_enable_reg_offset (dif_alert_handler_class_other _) = None"

fun class_clr_reg :: "dif_alert_handler_class \<Rightarrow> u32 option" where
  "class_clr_reg kDifAlertHandlerClassA = Some ALERT_HANDLER_CLASSA_CLR_REG_OFFSET"
| "class_clr_reg kDifAlertHandlerClassB = Some ALERT_HANDLER_CLASSB_CLR_REG_OFFSET"
| "class_clr_reg kDifAlertHandlerClassC = Some ALERT_HANDLER_CLASSC_CLR_REG_OFFSET"
| "class_clr_reg kDifAlertHandlerClassD = Some ALERT_HANDLER_CLASSD_CLR_REG_OFFSET"
| "class_clr_reg (dif_alert_handler_class_other _) = None"

definition dif_alert_handler_escalation_can_clear ::
  "dif_alert_handler ptr \<Rightarrow> dif_alert_handler_class \<Rightarrow> bool ptr \<Rightarrow> (dif_alert_handler_result \<times> bool ptr) io" where
  "dif_alert_handler_escalation_can_clear handler cls can_clear =
     (case (handler, can_clear) of
        (Some handler, Some _) \<Rightarrow>
          (case get_clear_enable_reg_offset cls of None \<Rightarrow> ret (kDifAlertHandlerBadArg, can_clear)
           | Some reg_offset \<Rightarrow> do {
               reg \<leftarrow> mmio_region_read32 (alert_base handler) reg_offset;
               ret (kDifAlertHandlerOk, store can_clear
                 (bitfield_bit32_read reg ALERT_HANDLER_CLASSA_REGWEN_CLASSA_REGWEN_BIT))
             })
      | _ \<Rightarrow> ret (kDifAlertHandlerBadArg, can_clear))"

definition dif_alert_handler_escalation_disable_clearing :: "dif_alert_handler ptr \<Rightarrow> dif_alert_handler_class \<Rightarrow> dif_alert_handler_result io" where
  "dif_alert_handler_escalation_disable_clearing handler cls =
     (case handler of NULL \<Rightarrow> ret kDifAlertHandlerBadArg
      | Some handler \<Rightarrow>
        (case get_clear_enable_reg_offset cls of None \<Rightarrow> ret kDifAlertHandlerBadArg
         | Some reg_offset \<Rightarrow> do {
             let reg = bitfield_bit32_write 0 ALERT_HANDLER_CLASSA_REGWEN_CLASSA_REGWEN_BIT True;
             _ \<leftarrow> mmio_region_write32 (alert_base handler) reg_offset reg;
             ret kDifAlertHandlerOk
           }))"

definition dif_alert_handler_escalation_clear :: "dif_alert_handler ptr \<Rightarrow> dif_alert_handler_class \<Rightarrow> dif_alert_handler_result io" where
  "dif_alert_handler_escalation_clear handler cls =
     (case handler of NULL \<Rightarrow> ret kDifAlertHandlerBadArg
      | Some handler \<Rightarrow>
        (case class_clr_reg cls of None \<Rightarrow> ret kDifAlertHandlerBadArg
         | Some reg_offset \<Rightarrow> do {
             let reg = bitfield_bit32_write 0 ALERT_HANDLER_CLASSA_CLR_CLASSA_CLR_BIT True;
             _ \<leftarrow> mmio_region_write32 (alert_base handler) reg_offset reg;
             ret kDifAlertHandlerOk
           }))"

fun class_accum_cnt_reg :: "dif_alert_handler_class \<Rightarrow> (u32 \<times> bitfield_field32) option" where
  "class_accum_cnt_reg kDifAlertHandlerClassA = Some (ALERT_HANDLER_CLASSA_ACCUM_CNT_REG_OFFSET,
     ALERT_HANDLER_CLASSA_ACCUM_CNT_CLASSA_ACCUM_CNT_FIELD)"
| "class_accum_cnt_reg kDifAlertHandlerClassB = Some (ALERT_HANDLER_CLASSB_ACCUM_CNT_REG_OFFSET,
     ALERT_HANDLER_CLASSB_ACCUM_CNT_CLASSB_ACCUM_CNT_FIELD)"
| "class_accum_cnt_reg kDifAlertHandlerClassC = Some (ALERT_HANDLER_CLASSC_ACCUM_CNT_REG_OFFSET,
     ALERT_HANDLER_CLASSC_ACCUM_CNT_CLASSC_ACCUM_CNT_FIELD)"
| "class_accum_cnt_reg kDifAlertHandlerClassD = Some (ALERT_HANDLER_CLASSD_ACCUM_CNT_REG_OFFSET,
     ALERT_HANDLER_CLASSD_ACCUM_CNT_CLASSD_ACCUM_CNT_FIELD)"
| "class_accum_cnt_reg (dif_alert_handler_class_other _) = None"

definition dif_alert_handler_get_accumulator ::
  "dif_alert_handler ptr \<Rightarrow> dif_alert_handler_class \<Rightarrow> u16 ptr \<Rightarrow> (dif_alert_handler_result \<times> u16 ptr) io" where
  "dif_alert_handler_get_accumulator handler cls alert_cnt =
     (case (handler, alert_cnt) of
        (Some handler, Some _) \<Rightarrow>
          (case class_accum_cnt_reg cls of None \<Rightarrow> ret (kDifAlertHandlerBadArg, alert_cnt)
           | Some (reg_offset, field) \<Rightarrow> do {
               reg \<leftarrow> mmio_region_read32 (alert_base handler) reg_offset;
               ret (kDifAlertHandlerOk, store alert_cnt (ucast (bitfield_field32_read reg field)))
             })
      | _ \<Rightarrow> ret (kDifAlertHandlerBadArg, alert_cnt))"

fun class_esc_cnt_reg :: "dif_alert_handler_class \<Rightarrow> u32 option" where
  "class_esc_cnt_reg kDifAlertHandlerClassA = Some ALERT_HANDLER_CLASSA_ESC_CNT_REG_OFFSET"
| "class_esc_cnt_reg kDifAlertHandlerClassB = Some ALERT_HANDLER_CLASSB_ESC_CNT_REG_OFFSET"
| "class_esc_cnt_reg kDifAlertHandlerClassC = Some ALERT_HANDLER_CLASSC_ESC_CNT_REG_OFFSET"
| "class_esc_cnt_reg kDifAlertHandlerClassD = Some ALERT_HANDLER_CLASSD_ESC_CNT_REG_OFFSET"
| "class_esc_cnt_reg (dif_alert_handler_class_other _) = None"

definition dif_alert_handler_get_escalation_counter ::
  "dif_alert_handler ptr \<Rightarrow> dif_alert_handler_class \<Rightarrow> u32 ptr \<Rightarrow> (dif_alert_handler_result \<times> u32 ptr) io" where
  "dif_alert_handler_get_escalation_counter handler cls cycle_cnt =
     (case (handler, cycle_cnt) of
        (Some handler, Some _) \<Rightarrow>
          (case class_esc_cnt_reg cls of None \<Rightarrow> ret (kDifAlertHandlerBadArg, cycle_cnt)
           | Some reg_offset \<Rightarrow> do {
               reg \<leftarrow> mmio_region_read32 (alert_base handler) reg_offset;
               ret (kDifAlertHandlerOk, store cycle_cnt reg)
             })
      | _ \<Rightarrow> ret (kDifAlertHandlerBadArg, cycle_cnt))"

fun class_state_reg :: "dif_alert_handler_class \<Rightarrow> (u32 \<times> bitfield_field32) option" where
  "class_state_reg kDifAlertHandlerClassA = Some (ALERT_HANDLER_CLASSA_STATE_REG_OFFSET,
     ALERT_HANDLER_CLASSA_STATE_CLASSA_STATE_FIELD)"
| "class_state_reg kDifAlertHandlerClassB = Some (ALERT_HANDLER_CLASSB_STATE_REG_OFFSET,
     ALERT_HANDLER_CLASSB_STATE_CLASSB_STATE_FIELD)"
| "class_state_reg kDifAlertHandlerClassC = Some (ALERT_HANDLER_CLASSC_STATE_REG_OFFSET,
     ALERT_HANDLER_CLASSC_STATE_CLASSC_STATE_FIELD)"
| "class_state_reg kDifAlertHandlerClassD = Some (ALERT_HANDLER_CLASSD_STATE_REG_OFFSET,
     ALERT_HANDLER_CLASSD_STATE_CLASSD_STATE_FIELD)"
| "class_state_reg (dif_alert_handler_class_other _) = None"

text \<open>The switch over the hardware's state encoding.\<close>

definition class_state_of :: "u32 \<Rightarrow> dif_alert_handler_class_state option" where
  "class_state_of v =
     (if v = 0 then Some kDifAlertHandlerClassStateIdle
      else if v = 1 then Some kDifAlertHandlerClassStateTimeout
      else if v = 4 then Some kDifAlertHandlerClassStatePhase0
      else if v = 5 then Some kDifAlertHandlerClassStatePhase1
      else if v = 6 then Some kDifAlertHandlerClassStatePhase2
      else if v = 7 then Some kDifAlertHandlerClassStatePhase3
      else if v = 3 then Some kDifAlertHandlerClassStateTerminal
      else None)"

definition dif_alert_handler_get_class_state ::
  "dif_alert_handler ptr \<Rightarrow> dif_alert_handler_class \<Rightarrow> dif_alert_handler_class_state ptr \<Rightarrow> (dif_alert_handler_result \<times> dif_alert_handler_class_state ptr) io" where
  "dif_alert_handler_get_class_state handler cls st =
     (case (handler, st) of
        (Some handler, Some _) \<Rightarrow>
          (case class_state_reg cls of None \<Rightarrow> ret (kDifAlertHandlerBadArg, st)
           | Some (reg_offset, field) \<Rightarrow> do {
               reg \<leftarrow> mmio_region_read32 (alert_base handler) reg_offset;
               case class_state_of (bitfield_field32_read reg field) of
                 None \<Rightarrow> ret (kDifAlertHandlerError, st)
               | Some s \<Rightarrow> ret (kDifAlertHandlerOk, store st s)
             })
      | _ \<Rightarrow> ret (kDifAlertHandlerBadArg, st))"

section \<open>What the classification registers say\<close>

definition alert_enabled :: "dif_alert_handler \<Rightarrow> world \<Rightarrow> u32 \<Rightarrow> bool" where
  "alert_enabled h w alert = bit (cur32 w (mmio_addr32 (alert_base h) ALERT_HANDLER_ALERT_EN_REG_OFFSET)) (unat alert)"

definition class_field :: "u32 \<Rightarrow> bitfield_field32" where
  "class_field alert = \<lparr>field_mask = 0x3, field_index = 2 * alert\<rparr>"

definition alert_class_of :: "dif_alert_handler \<Rightarrow> world \<Rightarrow> u32 \<Rightarrow> u32" where
  "alert_class_of h w alert = bitfield_field32_read
     (cur32 w (mmio_addr32 (alert_base h) ALERT_HANDLER_ALERT_CLASS_REG_OFFSET)) (class_field alert)"

lemma unat_double: "alert < 16 \<Longrightarrow> unat (2 * alert :: u32) = 2 * unat alert"
  by (subst unat_mult_lem [THEN iffD1]) (simp_all add: word_less_nat_alt)

lemma bit_3: "bit (3 :: u32) k \<longleftrightarrow> k < 2"
  using bit_mask_iff [where ?'a = u32, of 2 k] by (auto simp: mask_eq_exp_minus_1 possible_bit_word)

lemma bit_class_field_write:
  assumes "alert < 16"
  shows "bit (bitfield_field32_write r (class_field alert) v) n \<longleftrightarrow>
    (if n = 2 * unat alert \<or> n = Suc (2 * unat alert) then bit v (n - 2 * unat alert) else bit r n)"
proof -
  have "unat alert < 16" using assms by (simp add: word_less_nat_alt)
  moreover have "2 * unat alert \<le> n \<and> n - 2 * unat alert < 2 \<longleftrightarrow> n = 2 * unat alert \<or> n = Suc (2 * unat alert)"
    by arith
  ultimately show ?thesis
    unfolding bit_field32_write class_field_def bitfield_field32.select_convs bit_3 unat_double [OF assms] by auto
qed

lemma class_field_read_write:
  assumes "a < 16" "b < 16" "v < 4"
  shows "bitfield_field32_read (bitfield_field32_write r (class_field a) v) (class_field b)
    = (if a = b then v else bitfield_field32_read r (class_field b))"
proof -
  have hi: "bit v n \<Longrightarrow> n < 2" for n
  proof -
    have "v AND mask 2 = v" using assms(3) by (intro less_mask_eq) simp
    then show "bit v n \<Longrightarrow> n < 2" by (metis bit_and_iff bit_mask_iff)
  qed
  have read: "bit (bitfield_field32_read r (class_field b)) n \<longleftrightarrow> bit r (2 * unat b + n) \<and> n < 2" for r n
    unfolding bit_field32_read class_field_def bitfield_field32.select_convs bit_3 unat_double [OF assms(2)] ..
  show ?thesis
  proof (cases "a = b")
    case True
    then show ?thesis
      by (intro bit_eqI) (auto simp: read bit_class_field_write assms(2) less_2_cases_iff dest: hi)
  next
    case False
    then have ne: "unat a \<noteq> unat b" by (simp add: word_unat_eq_iff)
    have "2 * unat b + n \<noteq> 2 * unat a \<and> 2 * unat b + n \<noteq> Suc (2 * unat a)" if "n < 2" for n
      using that ne by arith
    then show ?thesis
      using False by (intro bit_eqI) (auto simp only: read bit_class_field_write [OF assms(1)] if_False simp_thms)
  qed
qed

lemma class_value_bound: "class_value cls = Some v \<Longrightarrow> v < 4"
  by (cases cls) auto

lemma class_field_of_loop:
  "\<lparr>field_mask = ALERT_HANDLER_ALERT_CLASS_CLASS_A_0_MASK,
     field_index = of_nat (bitfield_popcount32 ALERT_HANDLER_ALERT_CLASS_CLASS_A_0_MASK) * alert\<rparr> = class_field alert"
proof -
  have "bitfield_popcount32 3 = 2" by code_simp
  then show ?thesis by (simp add: class_field_def)
qed

text \<open>The loop over a list of alerts: enables each, classifies each, touches no other alert.\<close>

lemma classify_loop:
  assumes "classify_alerts_loop h cls as e c = Some (e', c')" "alert_count (alert_params h) \<le> 16"
  shows "(\<forall>x \<in> set as. x < alert_count (alert_params h)) \<and> (as \<noteq> [] \<longrightarrow> class_value cls \<noteq> None)
    \<and> (\<forall>a < 16. bit e' (unat a) \<longleftrightarrow> a \<in> set as \<or> bit e (unat a))
    \<and> (\<forall>a < 16. bitfield_field32_read c' (class_field a) =
         (if a \<in> set as then the (class_value cls) else bitfield_field32_read c (class_field a)))"
  using assms(1)
proof (induction as arbitrary: e c)
  case Nil
  then show ?case by simp
next
  case (Cons x as)
  from Cons.prems obtain v where x: "x < alert_count (alert_params h)" and v: "class_value cls = Some v"
    and rest: "classify_alerts_loop h cls as (bitfield_bit32_write e x True)
      (bitfield_field32_write c (class_field x) v) = Some (e', c')"
    by (auto simp: class_field_of_loop Let_def not_le split: if_splits option.splits)
  have x16: "x < 16" using x assms(2) by simp
  then have "unat x < 32" by (simp add: word_less_nat_alt)
  then show ?case
    using Cons.IH [OF rest] x v class_field_read_write [OF x16 _ class_value_bound [OF v]]
    by (auto simp: bit_bit32_write word_unat_eq_iff)
qed

lemma classify_loop_total:
  assumes "\<forall>x \<in> set as. x < alert_count (alert_params h)" "as \<noteq> [] \<longrightarrow> class_value cls \<noteq> None"
  shows "classify_alerts_loop h cls as e c \<noteq> None"
  using assms by (induction as arbitrary: e c) (auto simp: Let_def split: option.splits)
section \<open>What the configuration does to the registers\<close>

abbreviation en_addr :: "dif_alert_handler \<Rightarrow> u32" where
  "en_addr h \<equiv> mmio_addr32 (alert_base h) ALERT_HANDLER_ALERT_EN_REG_OFFSET"

abbreviation class_addr :: "dif_alert_handler \<Rightarrow> u32" where
  "class_addr h \<equiv> mmio_addr32 (alert_base h) ALERT_HANDLER_ALERT_CLASS_REG_OFFSET"

text \<open>The steps other than the classification leave its registers alone.\<close>

definition keeps_classification :: "(u32 \<Rightarrow> u32) \<Rightarrow> dif_alert_handler \<Rightarrow> world \<Rightarrow> world \<Rightarrow> bool" where
  "keeps_classification init h w w' \<longleftrightarrow> plain init w' \<and> cur32 w' (en_addr h) = cur32 w (en_addr h)
     \<and> cur32 w' (class_addr h) = cur32 w (class_addr h)"

lemma keeps_classification_refl: "plain init w \<Longrightarrow> keeps_classification init h w w"
  by (simp add: keeps_classification_def)

lemma keeps_classification_trans:
  "keeps_classification init h w w1 \<Longrightarrow> keeps_classification init h w1 w2 \<Longrightarrow> keeps_classification init h w w2"
  by (simp add: keeps_classification_def)

lemma keeps_classification_view:
  "keeps_classification init h w w' \<Longrightarrow> alert_enabled h w' a = alert_enabled h w a \<and> alert_class_of h w' a = alert_class_of h w a"
  by (simp add: keeps_classification_def alert_enabled_def alert_class_of_def)

lemma keeps_classification_access:
  "keeps_classification init h w w1 \<Longrightarrow> keeps_classification init h w (log (Rd32 a v) w1)"
  "keeps_classification init h w w1 \<Longrightarrow> a \<noteq> en_addr h \<Longrightarrow> a \<noteq> class_addr h
     \<Longrightarrow> keeps_classification init h w (log (Wr32 a v) w1)"
  by (auto simp: keeps_classification_def)

lemma keeps_local:
  "plain init w \<Longrightarrow> keeps_classification init h w (snd (run_state (classify_local_alerts h cls) w))"
  by (auto simp: classify_local_alerts_def keeps_classification_def io_simps mmio_addr32_def Let_def split: option.split)

lemma keeps_class:
  "plain init w \<Longrightarrow> keeps_classification init h w (snd (run_state (configure_class h cls) w))"
  by (cases "alert_class cls")
    (auto simp: configure_class_def keeps_classification_def io_simps mmio_addr32_def Let_def split: option.split)

lemma phase_reg_addr:
  assumes "i < 4" "p < 4"
  shows "mmio_addr32 b (kRegOffsets ! i ! p) \<noteq> mmio_addr32 b ALERT_HANDLER_ALERT_EN_REG_OFFSET"
    and "mmio_addr32 b (kRegOffsets ! i ! p) \<noteq> mmio_addr32 b ALERT_HANDLER_ALERT_CLASS_REG_OFFSET"
  using less_4_cases [OF assms(1)] less_4_cases [OF assms(2)]
  by (auto simp: kRegOffsets_def mmio_addr32_def)

lemma keeps_phases:
  "plain init w \<Longrightarrow> keeps_classification init h w (snd (run_state (phase_durations_loop h cls pds) w))"
proof (induction pds arbitrary: w)
  case Nil
  then show ?case by (simp add: keeps_classification_refl)
next
  case (Cons pd pds)
  let ?i = "class_index cls" and ?p = "class_state_index (duration_phase pd) - 2"
  show ?case
  proof (cases "?i < 4 \<and> 2 \<le> class_state_index (duration_phase pd) \<and> class_state_index (duration_phase pd) \<le> 5")
    case True
    let ?w = "log (Wr32 (mmio_addr32 (alert_base h) (kRegOffsets ! ?i ! ?p)) (cycles pd)) w"
    have "?p < 4" using True by linarith
    then have "keeps_classification init h w ?w"
      using True Cons.prems phase_reg_addr [of ?i ?p]
      by (intro keeps_classification_access(2) keeps_classification_refl) auto
    moreover have "keeps_classification init h ?w (snd (run_state (phase_durations_loop h cls pds) ?w))"
      using Cons.prems by (intro Cons.IH) simp
    ultimately show ?thesis
      using True by (auto simp: io_simps Let_def intro: keeps_classification_trans)
  next
    case False
    then show ?thesis using Cons.prems by (auto simp: Let_def intro: keeps_classification_refl)
  qed
qed

lemma keeps_durations:
  "plain init w \<Longrightarrow> keeps_classification init h w (snd (run_state (configure_phase_durations h cls) w))"
  by (simp add: configure_phase_durations_def keeps_phases keeps_classification_refl)

section \<open>Classification by a configuration\<close>

text \<open>The alerts a class configuration lists.\<close>

abbreviation listed :: "dif_alert_handler_class_config \<Rightarrow> u32 list" where
  "listed cls \<equiv> array_elems (alerts cls) (alerts_len cls)"

lemma classify_alerts_result:
  assumes "plain init w" "run_state (classify_alerts h cls) w = (True, w')" "alert_count (alert_params h) \<le> 16"
  shows "plain init w' \<and> (\<forall>x \<in> set (listed cls). x < alert_count (alert_params h))
    \<and> (listed cls \<noteq> [] \<longrightarrow> class_value (alert_class cls) \<noteq> None)
    \<and> (\<forall>a < 16. alert_enabled h w' a \<longleftrightarrow> a \<in> set (listed cls) \<or> alert_enabled h w a)
    \<and> (\<forall>a < 16. alert_class_of h w' a =
         (if a \<in> set (listed cls) then the (class_value (alert_class cls)) else alert_class_of h w a))"
proof -
  let ?e = "cur32 w (en_addr h)" and ?c = "cur32 w (class_addr h)"
  obtain e' c' where loop: "classify_alerts_loop h (alert_class cls) (listed cls) ?e ?c = Some (e', c')"
    using assms(1,2) by (auto simp: classify_alerts_def io_simps split: if_splits option.splits)
  then have "plain init w'" "cur32 w' (en_addr h) = e'" "cur32 w' (class_addr h) = c'"
    using assms(1,2) by (auto simp: classify_alerts_def io_simps mmio_addr32_def split: if_splits)
  with classify_loop [OF loop assms(3)] show ?thesis
    by (simp add: alert_enabled_def alert_class_of_def)
qed

text \<open>The last class configuration that lists an alert decides its class.\<close>

definition final_class :: "dif_alert_handler_class_config list \<Rightarrow> u32 \<Rightarrow> u32 \<Rightarrow> u32" where
  "final_class cfgs a old = fold (\<lambda>cls v. if a \<in> set (listed cls) then the (class_value (alert_class cls)) else v) cfgs old"

lemma configure_classes_result:
  assumes "plain init w" "run_state (configure_classes h cfgs) w = (True, w')" "alert_count (alert_params h) \<le> 16"
  shows "plain init w'
    \<and> (\<forall>a < 16. alert_enabled h w' a \<longleftrightarrow> (\<exists>cls \<in> set cfgs. a \<in> set (listed cls)) \<or> alert_enabled h w a)
    \<and> (\<forall>a < 16. alert_class_of h w' a = final_class cfgs a (alert_class_of h w a))"
  using assms(1,2)
proof (induction cfgs arbitrary: w)
  case Nil
  then show ?case by (simp add: final_class_def)
next
  case (Cons cls cfgs)
  obtain r1 w1 where r1: "run_state (classify_alerts h cls) w = (r1, w1)" by fastforce
  obtain r2 w2 where r2: "run_state (classify_local_alerts h cls) w1 = (r2, w2)" by fastforce
  obtain r3 w3 where r3: "run_state (configure_class h cls) w2 = (r3, w3)" by fastforce
  obtain r4 w4 where r4: "run_state (configure_phase_durations h cls) w3 = (r4, w4)" by fastforce
  have ok: "r1" "run_state (configure_classes h cfgs) w4 = (True, w')"
    using Cons.prems(2) r1 r2 r3 r4 by (auto split: if_splits)
  note c = classify_alerts_result [OF Cons.prems(1) _ assms(3), of cls w1]
  have p1: "plain init w1" using c r1 ok(1) by simp
  have k2: "keeps_classification init h w1 w2" using keeps_local [OF p1] r2 by (metis snd_conv)
  then have "plain init w2" by (simp add: keeps_classification_def)
  then have k3: "keeps_classification init h w2 w3" using keeps_class r3 by (metis snd_conv)
  then have "plain init w3" by (simp add: keeps_classification_def)
  then have k4: "keeps_classification init h w3 w4" using keeps_durations r4 by (metis snd_conv)
  have k: "keeps_classification init h w1 w4" using k2 k3 k4 by (metis keeps_classification_trans)
  have "plain init w4" using k by (simp add: keeps_classification_def)
  from Cons.IH [OF this ok(2)] c r1 ok(1) keeps_classification_view [OF k] show ?case
    by (auto simp: final_class_def)
qed
section \<open>Which configurations are accepted\<close>

definition array_ok :: "'a list ptr \<Rightarrow> nat \<Rightarrow> bool" where
  "array_ok p len \<longleftrightarrow> p \<noteq> NULL \<or> len = 0"

definition valid_class_config :: "dif_alert_handler \<Rightarrow> dif_alert_handler_class_config \<Rightarrow> bool" where
  "valid_class_config h cls \<longleftrightarrow>
     array_ok (alerts cls) (alerts_len cls) \<and> array_ok (local_alerts cls) (local_alerts_len cls)
     \<and> array_ok (phase_signals cls) (phase_signals_len cls) \<and> array_ok (phase_durations cls) (phase_durations_len cls)
     \<and> class_value (alert_class cls) \<noteq> None
     \<and> alert_toggle_to_bool (use_escalation_protocol cls) \<noteq> None \<and> alert_toggle_to_bool (automatic_locking cls) \<noteq> None
     \<and> (\<forall>x \<in> set (listed cls). x < alert_count (alert_params h))
     \<and> (\<forall>x \<in> set (array_elems (local_alerts cls) (local_alerts_len cls)). local_alert_bit x \<noteq> None)
     \<and> (\<forall>x \<in> set (array_elems (phase_signals cls) (phase_signals_len cls)).
          signal x < escalation_signal_count (alert_params h) \<and> phase_ctrl (signal_phase x) \<noteq> None)
     \<and> (\<forall>x \<in> set (array_elems (phase_durations cls) (phase_durations_len cls)). phase_ctrl (duration_phase x) \<noteq> None)"

lemma classify_loop_iff:
  "classify_alerts_loop h cls as e c \<noteq> None \<longleftrightarrow>
     (\<forall>x \<in> set as. x < alert_count (alert_params h)) \<and> (as \<noteq> [] \<longrightarrow> class_value cls \<noteq> None)"
  by (induction as arbitrary: e c) (auto simp: Let_def not_le split: option.splits)

lemma local_alert_field_iff: "local_alert_field a = None \<longleftrightarrow> local_alert_bit a = None"
  by (cases a) auto

lemma classify_local_loop_iff:
  "classify_local_alerts_loop cls as e c \<noteq> None \<longleftrightarrow>
     (\<forall>x \<in> set as. local_alert_bit x \<noteq> None) \<and> (as \<noteq> [] \<longrightarrow> class_value cls \<noteq> None)"
proof (induction as arbitrary: e c)
  case Nil
  then show ?case by simp
next
  case (Cons a as)
  then show ?case using local_alert_field_iff [of a]
    by (cases "local_alert_bit a"; cases "local_alert_field a"; cases "class_value cls") auto
qed

lemma phase_signals_loop_iff:
  "phase_signals_loop h ps r \<noteq> None \<longleftrightarrow>
     (\<forall>x \<in> set ps. signal x < escalation_signal_count (alert_params h) \<and> phase_ctrl (signal_phase x) \<noteq> None)"
  by (induction ps arbitrary: r) (auto simp: Let_def not_le split: option.split)

lemma phase_ctrl_index:
  "phase_ctrl p \<noteq> None \<longleftrightarrow> 2 \<le> class_state_index p \<and> class_state_index p \<le> 5"
  by (cases p) auto

lemma class_index_value: "class_index c < 4 \<longleftrightarrow> class_value c \<noteq> None"
  by (cases c) auto

lemma class_regs_iff:
  "class_ctrl_reg c = None \<longleftrightarrow> class_value c = None"
  "class_accum_thresh_reg c = None \<longleftrightarrow> class_value c = None"
  "class_timeout_reg c = None \<longleftrightarrow> class_value c = None"
  by (cases c; simp)+

lemma phase_durations_loop_iff:
  "fst (run_state (phase_durations_loop h cls pds) w) \<longleftrightarrow>
     (\<forall>x \<in> set pds. phase_ctrl (duration_phase x) \<noteq> None) \<and> (pds \<noteq> [] \<longrightarrow> class_value cls \<noteq> None)"
proof (induction pds arbitrary: w)
  case Nil
  then show ?case by simp
next
  case (Cons pd pds)
  show ?case
  proof (cases "class_value cls = None \<or> phase_ctrl (duration_phase pd) = None")
    case True
    then show ?thesis
      using class_index_value [of cls] phase_ctrl_index [of "duration_phase pd"] by (auto simp: Let_def)
  next
    case False
    then have "class_index cls < 4" "2 \<le> class_state_index (duration_phase pd)" "class_state_index (duration_phase pd) \<le> 5"
      using class_index_value [of cls] phase_ctrl_index [of "duration_phase pd"] by auto
    then show ?thesis using False Cons.IH by (simp add: io_simps Let_def case_prod_unfold)
  qed
qed

lemma classify_alerts_iff:
  "fst (run_state (classify_alerts h cls) w) \<longleftrightarrow> array_ok (alerts cls) (alerts_len cls)
     \<and> (\<forall>x \<in> set (listed cls). x < alert_count (alert_params h)) \<and> (listed cls \<noteq> [] \<longrightarrow> class_value (alert_class cls) \<noteq> None)"
proof -
  have "fst (run_state (classify_alerts h cls) w) \<longleftrightarrow> array_ok (alerts cls) (alerts_len cls)
      \<and> classify_alerts_loop h (alert_class cls) (listed cls) (cur32 w (en_addr h))
          (cur32 (log (Rd32 (en_addr h) (cur32 w (en_addr h))) w) (class_addr h)) \<noteq> None"
    by (auto simp: classify_alerts_def array_ok_def io_simps split: option.split)
  then show ?thesis unfolding classify_loop_iff .
qed

lemma classify_local_alerts_iff:
  "fst (run_state (classify_local_alerts h cls) w) \<longleftrightarrow> array_ok (local_alerts cls) (local_alerts_len cls)
     \<and> (\<forall>x \<in> set (array_elems (local_alerts cls) (local_alerts_len cls)). local_alert_bit x \<noteq> None)
     \<and> (array_elems (local_alerts cls) (local_alerts_len cls) \<noteq> [] \<longrightarrow> class_value (alert_class cls) \<noteq> None)"
proof -
  let ?en = "mmio_addr32 (alert_base h) ALERT_HANDLER_LOC_ALERT_EN_REG_OFFSET"
  have "fst (run_state (classify_local_alerts h cls) w) \<longleftrightarrow> array_ok (local_alerts cls) (local_alerts_len cls)
      \<and> classify_local_alerts_loop (alert_class cls) (array_elems (local_alerts cls) (local_alerts_len cls)) (cur32 w ?en)
          (cur32 (log (Rd32 ?en (cur32 w ?en)) w) (mmio_addr32 (alert_base h) ALERT_HANDLER_LOC_ALERT_CLASS_REG_OFFSET)) \<noteq> None"
    by (auto simp: classify_local_alerts_def array_ok_def io_simps split: option.split)
  then show ?thesis unfolding classify_local_loop_iff .
qed

lemma configure_class_iff:
  "fst (run_state (configure_class h cls) w) \<longleftrightarrow> class_value (alert_class cls) \<noteq> None
     \<and> alert_toggle_to_bool (use_escalation_protocol cls) \<noteq> None \<and> alert_toggle_to_bool (automatic_locking cls) \<noteq> None
     \<and> array_ok (phase_signals cls) (phase_signals_len cls)
     \<and> (\<forall>x \<in> set (array_elems (phase_signals cls) (phase_signals_len cls)).
          signal x < escalation_signal_count (alert_params h) \<and> phase_ctrl (signal_phase x) \<noteq> None)"
proof -
  let ?ctrl = "\<lambda>e l. bitfield_bit32_write (bitfield_bit32_write 0 ALERT_HANDLER_CLASSA_CTRL_EN_BIT e)
    ALERT_HANDLER_CLASSA_CTRL_LOCK_BIT l"
  have "fst (run_state (configure_class h cls) w) \<longleftrightarrow> class_value (alert_class cls) \<noteq> None
     \<and> alert_toggle_to_bool (use_escalation_protocol cls) \<noteq> None \<and> alert_toggle_to_bool (automatic_locking cls) \<noteq> None
     \<and> array_ok (phase_signals cls) (phase_signals_len cls)
     \<and> phase_signals_loop h (array_elems (phase_signals cls) (phase_signals_len cls))
         (?ctrl (the (alert_toggle_to_bool (use_escalation_protocol cls))) (the (alert_toggle_to_bool (automatic_locking cls)))) \<noteq> None"
    using class_regs_iff [of "alert_class cls"]
    by (auto simp: configure_class_def array_ok_def io_simps Let_def split: option.split)
  then show ?thesis unfolding phase_signals_loop_iff .
qed

lemma configure_phase_durations_iff:
  "fst (run_state (configure_phase_durations h cls) w) \<longleftrightarrow> array_ok (phase_durations cls) (phase_durations_len cls)
     \<and> (\<forall>x \<in> set (array_elems (phase_durations cls) (phase_durations_len cls)). phase_ctrl (duration_phase x) \<noteq> None)
     \<and> (array_elems (phase_durations cls) (phase_durations_len cls) \<noteq> [] \<longrightarrow> class_value (alert_class cls) \<noteq> None)"
  by (auto simp: configure_phase_durations_def array_ok_def phase_durations_loop_iff)

lemma configure_classes_iff:
  "fst (run_state (configure_classes h cfgs) w) \<longleftrightarrow> (\<forall>cls \<in> set cfgs. valid_class_config h cls)"
proof (induction cfgs arbitrary: w)
  case Nil
  then show ?case by simp
next
  case (Cons cls cfgs)
  obtain r1 w1 where r1: "run_state (classify_alerts h cls) w = (r1, w1)" by fastforce
  obtain r2 w2 where r2: "run_state (classify_local_alerts h cls) w1 = (r2, w2)" by fastforce
  obtain r3 w3 where r3: "run_state (configure_class h cls) w2 = (r3, w3)" by fastforce
  obtain r4 w4 where r4: "run_state (configure_phase_durations h cls) w3 = (r4, w4)" by fastforce
  have "valid_class_config h cls \<longleftrightarrow> r1 \<and> r2 \<and> r3 \<and> r4"
    unfolding valid_class_config_def classify_alerts_iff [of h cls w, unfolded r1 fst_conv]
      classify_local_alerts_iff [of h cls w1, unfolded r2 fst_conv] configure_class_iff [of h cls w2, unfolded r3 fst_conv]
      configure_phase_durations_iff [of h cls w3, unfolded r4 fst_conv]
    by blast
  then show ?case using Cons.IH [of w4] by (auto simp: r1 r2 r3 r4)
qed

text \<open>
  C18. dif_alert_handler_configure on plain registers: a locked handler refuses with only the lock
  register read; otherwise the call succeeds exactly when every class configuration is valid, and then
  every alert listed by some class is enabled and belongs to the last class that lists it, all other
  alerts are as before, and the ping timeout is stored.
\<close>

theorem dif_alert_handler_configure_correct:
  assumes "plain init w" "alert_count (alert_params h) \<le> 16" "ping_timeout config \<le> 0xffffff"
    and "array_ok (classes config) (classes_len config)"
  defines "cfgs \<equiv> array_elems (classes config) (classes_len config)"
    and "regwen \<equiv> mmio_addr32 (alert_base h) ALERT_HANDLER_REGWEN_REG_OFFSET"
  shows "if \<not> bit (cur32 w regwen) 0
    then run_state (dif_alert_handler_configure (Some h) config) w
      = (kDifAlertHandlerConfigLocked, log (Rd32 regwen (cur32 w regwen)) w)
    else \<exists>result w'. run_state (dif_alert_handler_configure (Some h) config) w = (result, w')
      \<and> result = (if \<forall>cls \<in> set cfgs. valid_class_config h cls then kDifAlertHandlerConfigOk else kDifAlertHandlerConfigError)
      \<and> (result = kDifAlertHandlerConfigOk \<longrightarrow>
           (\<forall>a < 16. alert_enabled h w' a \<longleftrightarrow> (\<exists>cls \<in> set cfgs. a \<in> set (listed cls)) \<or> alert_enabled h w a)
           \<and> (\<forall>a < 16. alert_class_of h w' a = final_class cfgs a (alert_class_of h w a))
           \<and> cur32 w' (mmio_addr32 (alert_base h) ALERT_HANDLER_PING_TIMEOUT_CYC_REG_OFFSET) = ping_timeout config)"
proof (cases "bit (cur32 w regwen) 0")
  case False
  then show ?thesis
    using assms(3,4) by (auto simp: dif_alert_handler_configure_def dif_alert_handler_is_locked_def array_ok_def
      io_simps bit32_read_eq_bit regwen_def)
next
  case True
  define w1 where "w1 = log (Rd32 regwen (cur32 w regwen)) w"
  have w1: "plain init w1" "cur32 w1 = cur32 w" using assms(1) by (auto simp: w1_def)
  obtain ok w2 where w2: "run_state (configure_classes h cfgs) w1 = (ok, w2)" by fastforce
  have ok: "ok \<longleftrightarrow> (\<forall>cls \<in> set cfgs. valid_class_config h cls)"
    using configure_classes_iff [of h cfgs w1] w2 by simp
  define ping where "ping = bitfield_field32_write 0 ALERT_HANDLER_PING_TIMEOUT_CYC_PING_TIMEOUT_CYC_FIELD (ping_timeout config)"
  have run: "run_state (dif_alert_handler_configure (Some h) config) w =
      (if ok then (kDifAlertHandlerConfigOk,
          log (Wr32 (mmio_addr32 (alert_base h) ALERT_HANDLER_PING_TIMEOUT_CYC_REG_OFFSET) ping) w2)
       else (kDifAlertHandlerConfigError, w2))"
    using True assms(3,4) w2 by (auto simp: dif_alert_handler_configure_def dif_alert_handler_is_locked_def array_ok_def
      io_simps bit32_read_eq_bit regwen_def w1_def cfgs_def ping_def)
  have ping: "ping = ping_timeout config"
  proof -
    have "ping_timeout config < 2 ^ 24" using assms(3) by (simp add: word_le_nat_alt word_less_nat_alt)
    then have "ping_timeout config AND mask 24 = ping_timeout config" by (rule less_mask_eq)
    then show ?thesis by (simp add: ping_def bitfield_field32_write_def mask_eq_exp_minus_1)
  qed
  note res = configure_classes_result [OF w1(1) _ assms(2), of cfgs w2]
  show ?thesis
  proof (cases ok)
    case True
    then have res: "plain init w2" "\<forall>a < 16. alert_enabled h w2 a \<longleftrightarrow> (\<exists>cls \<in> set cfgs. a \<in> set (listed cls)) \<or> alert_enabled h w a"
        "\<forall>a < 16. alert_class_of h w2 a = final_class cfgs a (alert_class_of h w a)"
      using res w2 w1(2) by (simp_all add: alert_enabled_def alert_class_of_def)
    let ?w = "log (Wr32 (mmio_addr32 (alert_base h) ALERT_HANDLER_PING_TIMEOUT_CYC_REG_OFFSET) ping) w2"
    have "keeps_classification init h w2 ?w"
      using res(1) by (auto simp: keeps_classification_def mmio_addr32_def)
    moreover have "cur32 ?w (mmio_addr32 (alert_base h) ALERT_HANDLER_PING_TIMEOUT_CYC_REG_OFFSET) = ping"
      using res(1) by auto
    ultimately show ?thesis
      using \<open>bit (cur32 w regwen) 0\<close> True ok run ping res(2,3) keeps_classification_view by auto
  next
    case False
    then show ?thesis using \<open>bit (cur32 w regwen) 0\<close> ok run by auto
  qed
qed
definition alert_handler0 :: dif_alert_handler where
  "alert_handler0 = \<lparr>alert_params = \<lparr>alert_base_addr = \<lparr>mmio_base = 0x40130000\<rparr>, alert_count = 8, escalation_signal_count = 4\<rparr>\<rparr>"

definition alert_config0 :: dif_alert_handler_config where
  "alert_config0 = \<lparr>ping_timeout = 0x800, classes = Some
     [\<lparr>alert_class = kDifAlertHandlerClassB, alerts = Some [1, 5], alerts_len = 2,
       local_alerts = Some [kDifAlertHandlerLocalAlertAlertPingFail], local_alerts_len = 1,
       use_escalation_protocol = kDifAlertHandlerToggleEnabled, automatic_locking = kDifAlertHandlerToggleDisabled,
       accumulator_threshold = 12, irq_deadline_cycles = 30000,
       phase_signals = Some [\<lparr>signal_phase = kDifAlertHandlerClassStatePhase0, signal = 3\<rparr>], phase_signals_len = 1,
       phase_durations = Some [\<lparr>duration_phase = kDifAlertHandlerClassStatePhase1, cycles = 20000\<rparr>], phase_durations_len = 1\<rparr>],
     classes_len = 1\<rparr>"

theorem dif_alert_handler_configure_correct_witness:
  "\<exists>w'. run_state (dif_alert_handler_configure (Some alert_handler0) alert_config0) (plain_world (\<lambda>_. 1))
       = (kDifAlertHandlerConfigOk, w')
     \<and> alert_enabled alert_handler0 w' 5 \<and> alert_class_of alert_handler0 w' 5 = 1 \<and> \<not> alert_enabled alert_handler0 w' 2"
proof -
  have valid: "\<forall>cls \<in> set (array_elems (classes alert_config0) (classes_len alert_config0)). valid_class_config alert_handler0 cls"
    by (simp add: array_elems_def alert_config0_def alert_handler0_def valid_class_config_def array_ok_def)
  have h: "plain (\<lambda>_. 1) (plain_world (\<lambda>_. 1))" "alert_count (alert_params alert_handler0) \<le> 16"
    "ping_timeout alert_config0 \<le> 0xffffff" "array_ok (classes alert_config0) (classes_len alert_config0)"
    by (simp_all add: alert_handler0_def alert_config0_def array_ok_def)
  obtain w' where w': "run_state (dif_alert_handler_configure (Some alert_handler0) alert_config0) (plain_world (\<lambda>_. 1))
       = (kDifAlertHandlerConfigOk, w')"
    and en: "\<forall>a < 16. alert_enabled alert_handler0 w' a \<longleftrightarrow>
         (\<exists>cls \<in> set (array_elems (classes alert_config0) (classes_len alert_config0)). a \<in> set (listed cls))
         \<or> alert_enabled alert_handler0 (plain_world (\<lambda>_. 1)) a"
    and cl: "\<forall>a < 16. alert_class_of alert_handler0 w' a = final_class (array_elems (classes alert_config0) (classes_len alert_config0)) a
         (alert_class_of alert_handler0 (plain_world (\<lambda>_. 1)) a)"
    using dif_alert_handler_configure_correct [OF h] valid by auto
  have "alert_enabled alert_handler0 w' 5" using en by (simp add: array_elems_def alert_config0_def)
  moreover have "\<not> alert_enabled alert_handler0 w' 2"
    using en [rule_format, of 2] by (simp add: array_elems_def alert_config0_def alert_enabled_def)
  moreover have "alert_class_of alert_handler0 w' 5 = 1"
    using cl by (simp add: array_elems_def alert_config0_def final_class_def)
  ultimately show ?thesis using w' by blast
qed

section \<open>Two operations against the registers' access types\<close>

text \<open>
  The register description gives REGWEN the access type rw0c, write zero to clear: the bit after a
  write is its value before, anded with the bit written. INTR_STATE is rw1c, write one to clear.
\<close>

definition rw0c_at :: "u32 \<Rightarrow> world \<Rightarrow> bool" where
  "rw0c_at a w \<longleftrightarrow> (\<forall>v. bit (cur32 (log (Wr32 a v) w) a) 0 \<longleftrightarrow> bit (cur32 w a) 0 \<and> bit v 0)"

definition rw1c_at :: "u32 \<Rightarrow> world \<Rightarrow> bool" where
  "rw1c_at a w \<longleftrightarrow> (\<forall>v. cur32 (log (Wr32 a v) w) a = cur32 w a AND NOT v)"

text \<open>
  C38. On a write-zero-to-clear REGWEN register dif_alert_handler_lock reports success but does not
  lock: the handler is locked afterwards exactly when it was locked before, since the code writes a one.
\<close>

theorem dif_alert_handler_lock_ineffective:
  assumes "rw0c_at (mmio_addr32 (alert_base h) ALERT_HANDLER_REGWEN_REG_OFFSET) w"
  shows "\<exists>w'. run_state (dif_alert_handler_lock (Some h)) w = (kDifAlertHandlerOk, w')
    \<and> fst (run_state (dif_alert_handler_is_locked (Some h) (Some False)) w')
      = fst (run_state (dif_alert_handler_is_locked (Some h) (Some False)) w)"
  using assms
  by (simp add: dif_alert_handler_lock_def dif_alert_handler_is_locked_def io_simps rw0c_at_def bit32_read_eq_bit
    bit_bit32_write Let_def)

fun rw0c_file :: "bus_event list \<Rightarrow> u32 \<Rightarrow> u32" where
  "rw0c_file [] a = 1"
| "rw0c_file (Wr32 b v # h) a = (if a = b then rw0c_file h a AND v else rw0c_file h a)"
| "rw0c_file (_ # h) a = rw0c_file h a"

theorem dif_alert_handler_lock_ineffective_witness:
  "\<exists>w'. run_state (dif_alert_handler_lock (Some alert_handler0)) \<lparr>dev32 = rw0c_file, dev8 = \<lambda>_ _. 0, trace = []\<rparr>
       = (kDifAlertHandlerOk, w')
     \<and> fst (run_state (dif_alert_handler_is_locked (Some alert_handler0) (Some False)) w') = (kDifAlertHandlerOk, Some False)"
proof -
  let ?w = "\<lparr>dev32 = rw0c_file, dev8 = \<lambda>_ _. 0, trace = []\<rparr>"
  have "rw0c_at (mmio_addr32 (alert_base alert_handler0) ALERT_HANDLER_REGWEN_REG_OFFSET) ?w"
    by (simp add: rw0c_at_def cur32_def bit_and_iff)
  from dif_alert_handler_lock_ineffective [OF this] show ?thesis
    by (simp add: dif_alert_handler_is_locked_def io_simps cur32_def bit32_read_eq_bit)
qed

text \<open>
  On a write-one-to-clear INTR_STATE register dif_alert_handler_irq_acknowledge of any class clears
  every pending interrupt, not only the one acknowledged: the code writes back the pending bits it read.
\<close>

lemma dif_alert_handler_irq_acknowledge_clears_all:
  assumes "alert_irq_index irq = Some n"
    and "rw1c_at (mmio_addr32 (alert_base h) ALERT_HANDLER_INTR_STATE_REG_OFFSET)
      (log (Rd32 (mmio_addr32 (alert_base h) ALERT_HANDLER_INTR_STATE_REG_OFFSET)
        (cur32 w (mmio_addr32 (alert_base h) ALERT_HANDLER_INTR_STATE_REG_OFFSET))) w)"
    and "cur32 (log (Rd32 (mmio_addr32 (alert_base h) ALERT_HANDLER_INTR_STATE_REG_OFFSET)
        (cur32 w (mmio_addr32 (alert_base h) ALERT_HANDLER_INTR_STATE_REG_OFFSET))) w)
          (mmio_addr32 (alert_base h) ALERT_HANDLER_INTR_STATE_REG_OFFSET)
      = cur32 w (mmio_addr32 (alert_base h) ALERT_HANDLER_INTR_STATE_REG_OFFSET)"
  shows "\<exists>w'. run_state (dif_alert_handler_irq_acknowledge (Some h) irq) w = (kDifAlertHandlerOk, w')
    \<and> (\<forall>other n'. alert_irq_index other = Some n' \<longrightarrow>
        fst (run_state (dif_alert_handler_irq_is_pending (Some h) other (Some True)) w') = (kDifAlertHandlerOk, Some False))"
proof -
  let ?a = "mmio_addr32 (alert_base h) ALERT_HANDLER_INTR_STATE_REG_OFFSET"
  let ?w1 = "log (Rd32 ?a (cur32 w ?a)) w"
  let ?v = "bitfield_bit32_write (cur32 w ?a) n True"
  have run: "run_state (dif_alert_handler_irq_acknowledge (Some h) irq) w = (kDifAlertHandlerOk, log (Wr32 ?a ?v) ?w1)"
    using assms(1) by (simp add: dif_alert_handler_irq_acknowledge_def io_simps Let_def)
  have "cur32 (log (Wr32 ?a ?v) ?w1) ?a = cur32 w ?a AND NOT ?v"
    using assms(2,3) unfolding rw1c_at_def by simp
  also have "\<dots> = 0"
    by (rule bit_eqI) (auto simp: bit_and_iff bit_not_iff bit_bit32_write)
  finally show ?thesis
    using run by (auto simp: dif_alert_handler_irq_is_pending_def io_simps bit32_read_eq_bit)
qed

fun rw1c_file :: "bus_event list \<Rightarrow> u32 \<Rightarrow> u32" where
  "rw1c_file [] a = 15"
| "rw1c_file (Wr32 b v # h) a = (if a = b then rw1c_file h a AND NOT v else rw1c_file h a)"
| "rw1c_file (_ # h) a = rw1c_file h a"

lemma dif_alert_handler_irq_acknowledge_clears_all_witness:
  "\<exists>w'. run_state (dif_alert_handler_irq_acknowledge (Some alert_handler0) kDifAlertHandlerClassA)
       \<lparr>dev32 = rw1c_file, dev8 = \<lambda>_ _. 0, trace = []\<rparr> = (kDifAlertHandlerOk, w')
     \<and> fst (run_state (dif_alert_handler_irq_is_pending (Some alert_handler0) kDifAlertHandlerClassD (Some True)) w')
       = (kDifAlertHandlerOk, Some False)"
proof -
  let ?w = "\<lparr>dev32 = rw1c_file, dev8 = \<lambda>_ _. 0, trace = []\<rparr>"
  have "alert_irq_index kDifAlertHandlerClassA = Some 0" by simp
  from dif_alert_handler_irq_acknowledge_clears_all [OF this, of alert_handler0 ?w] show ?thesis
    by (simp add: rw1c_at_def cur32_def) (metis alert_irq_index.simps(4))
qed

section \<open>The interrupt block\<close>

lemma alert_irq_index_bit: "alert_irq_index i = Some n \<Longrightarrow> unat n < 4"
  by (cases i) auto

lemma alert_irq_index_inject: "alert_irq_index i = Some m \<Longrightarrow> alert_irq_index j = Some n \<Longrightarrow> unat m = unat n \<Longrightarrow> i = j"
  by (cases i; cases j) auto

interpretation alert_irqs: irq_block "\<lambda>irq. map_option unat (alert_irq_index irq)"
    "mmio_addr32 (alert_base handler) ALERT_HANDLER_INTR_ENABLE_REG_OFFSET"
    "\<lambda>i b w. snd (run_state (dif_alert_handler_irq_set_enabled (Some handler) i
       (if b then kDifAlertHandlerToggleEnabled else kDifAlertHandlerToggleDisabled)) w)"
    "\<lambda>i w. snd (fst (run_state (dif_alert_handler_irq_get_enabled (Some handler) i (Some kDifAlertHandlerToggleDisabled)) w))
       = Some kDifAlertHandlerToggleEnabled"
    "\<lambda>w. case run_state (dif_alert_handler_irq_disable_all (Some handler) (Some 0)) w of ((_, s), w') \<Rightarrow> (the s, w')"
    "\<lambda>s w. snd (run_state (dif_alert_handler_irq_restore_all (Some handler) (Some s)) w)"
  for handler
  by unfold_locales
    (auto simp: dif_alert_handler_irq_set_enabled_def dif_alert_handler_irq_get_enabled_def dif_alert_handler_irq_disable_all_def
      dif_alert_handler_irq_restore_all_def io_simps bit32_read_eq_bit dest: alert_irq_index_inject alert_irq_index_bit split: if_splits)

end
