(* ===== verification/DifOtpCtrl.thy ===== *)
theory DifOtpCtrl
  imports IrqBlock MmioCopy "HOL-Library.Disjoint_Sets"
begin

text \<open>
  The one-time-programmable memory driver (\<open>sw/device/lib/dif/dif_otp_ctrl.c\<close>): background checks,
  locks, interrupts, status, the direct access interface (DAI) and the memory-mapped reads. Register
  offsets and fields are those of \<open>hw/ip/otp_ctrl/data/otp_ctrl.hjson\<close>. A buffer of words is given
  by its bytes, as the copy routines see it.
\<close>

section \<open>Registers\<close>

abbreviation OTP_CTRL_INTR_STATE_REG_OFFSET :: u32 where "OTP_CTRL_INTR_STATE_REG_OFFSET \<equiv> 0x0"
abbreviation OTP_CTRL_INTR_ENABLE_REG_OFFSET :: u32 where "OTP_CTRL_INTR_ENABLE_REG_OFFSET \<equiv> 0x4"
abbreviation OTP_CTRL_INTR_TEST_REG_OFFSET :: u32 where "OTP_CTRL_INTR_TEST_REG_OFFSET \<equiv> 0x8"
abbreviation OTP_CTRL_STATUS_REG_OFFSET :: u32 where "OTP_CTRL_STATUS_REG_OFFSET \<equiv> 0x10"
abbreviation OTP_CTRL_ERR_CODE_REG_OFFSET :: u32 where "OTP_CTRL_ERR_CODE_REG_OFFSET \<equiv> 0x14"
abbreviation OTP_CTRL_DIRECT_ACCESS_REGWEN_REG_OFFSET :: u32 where "OTP_CTRL_DIRECT_ACCESS_REGWEN_REG_OFFSET \<equiv> 0x18"
abbreviation OTP_CTRL_DIRECT_ACCESS_CMD_REG_OFFSET :: u32 where "OTP_CTRL_DIRECT_ACCESS_CMD_REG_OFFSET \<equiv> 0x1c"
abbreviation OTP_CTRL_DIRECT_ACCESS_ADDRESS_REG_OFFSET :: u32 where "OTP_CTRL_DIRECT_ACCESS_ADDRESS_REG_OFFSET \<equiv> 0x20"
abbreviation OTP_CTRL_DIRECT_ACCESS_WDATA_0_REG_OFFSET :: u32 where "OTP_CTRL_DIRECT_ACCESS_WDATA_0_REG_OFFSET \<equiv> 0x24"
abbreviation OTP_CTRL_DIRECT_ACCESS_WDATA_1_REG_OFFSET :: u32 where "OTP_CTRL_DIRECT_ACCESS_WDATA_1_REG_OFFSET \<equiv> 0x28"
abbreviation OTP_CTRL_DIRECT_ACCESS_RDATA_0_REG_OFFSET :: u32 where "OTP_CTRL_DIRECT_ACCESS_RDATA_0_REG_OFFSET \<equiv> 0x2c"
abbreviation OTP_CTRL_DIRECT_ACCESS_RDATA_1_REG_OFFSET :: u32 where "OTP_CTRL_DIRECT_ACCESS_RDATA_1_REG_OFFSET \<equiv> 0x30"
abbreviation OTP_CTRL_CHECK_TRIGGER_REG_OFFSET :: u32 where "OTP_CTRL_CHECK_TRIGGER_REG_OFFSET \<equiv> 0x38"
abbreviation OTP_CTRL_CHECK_REGWEN_REG_OFFSET :: u32 where "OTP_CTRL_CHECK_REGWEN_REG_OFFSET \<equiv> 0x3c"
abbreviation OTP_CTRL_CHECK_TIMEOUT_REG_OFFSET :: u32 where "OTP_CTRL_CHECK_TIMEOUT_REG_OFFSET \<equiv> 0x40"
abbreviation OTP_CTRL_INTEGRITY_CHECK_PERIOD_REG_OFFSET :: u32 where "OTP_CTRL_INTEGRITY_CHECK_PERIOD_REG_OFFSET \<equiv> 0x44"
abbreviation OTP_CTRL_CONSISTENCY_CHECK_PERIOD_REG_OFFSET :: u32 where "OTP_CTRL_CONSISTENCY_CHECK_PERIOD_REG_OFFSET \<equiv> 0x48"
abbreviation OTP_CTRL_CREATOR_SW_CFG_READ_LOCK_REG_OFFSET :: u32 where "OTP_CTRL_CREATOR_SW_CFG_READ_LOCK_REG_OFFSET \<equiv> 0x4c"
abbreviation OTP_CTRL_OWNER_SW_CFG_READ_LOCK_REG_OFFSET :: u32 where "OTP_CTRL_OWNER_SW_CFG_READ_LOCK_REG_OFFSET \<equiv> 0x50"
abbreviation OTP_CTRL_CREATOR_SW_CFG_DIGEST_0_REG_OFFSET :: u32 where "OTP_CTRL_CREATOR_SW_CFG_DIGEST_0_REG_OFFSET \<equiv> 0x54"
abbreviation OTP_CTRL_CREATOR_SW_CFG_DIGEST_1_REG_OFFSET :: u32 where "OTP_CTRL_CREATOR_SW_CFG_DIGEST_1_REG_OFFSET \<equiv> 0x58"
abbreviation OTP_CTRL_OWNER_SW_CFG_DIGEST_0_REG_OFFSET :: u32 where "OTP_CTRL_OWNER_SW_CFG_DIGEST_0_REG_OFFSET \<equiv> 0x5c"
abbreviation OTP_CTRL_OWNER_SW_CFG_DIGEST_1_REG_OFFSET :: u32 where "OTP_CTRL_OWNER_SW_CFG_DIGEST_1_REG_OFFSET \<equiv> 0x60"
abbreviation OTP_CTRL_HW_CFG_DIGEST_0_REG_OFFSET :: u32 where "OTP_CTRL_HW_CFG_DIGEST_0_REG_OFFSET \<equiv> 0x64"
abbreviation OTP_CTRL_HW_CFG_DIGEST_1_REG_OFFSET :: u32 where "OTP_CTRL_HW_CFG_DIGEST_1_REG_OFFSET \<equiv> 0x68"
abbreviation OTP_CTRL_SECRET0_DIGEST_0_REG_OFFSET :: u32 where "OTP_CTRL_SECRET0_DIGEST_0_REG_OFFSET \<equiv> 0x6c"
abbreviation OTP_CTRL_SECRET0_DIGEST_1_REG_OFFSET :: u32 where "OTP_CTRL_SECRET0_DIGEST_1_REG_OFFSET \<equiv> 0x70"
abbreviation OTP_CTRL_SECRET1_DIGEST_0_REG_OFFSET :: u32 where "OTP_CTRL_SECRET1_DIGEST_0_REG_OFFSET \<equiv> 0x74"
abbreviation OTP_CTRL_SECRET1_DIGEST_1_REG_OFFSET :: u32 where "OTP_CTRL_SECRET1_DIGEST_1_REG_OFFSET \<equiv> 0x78"
abbreviation OTP_CTRL_SECRET2_DIGEST_0_REG_OFFSET :: u32 where "OTP_CTRL_SECRET2_DIGEST_0_REG_OFFSET \<equiv> 0x7c"
abbreviation OTP_CTRL_SECRET2_DIGEST_1_REG_OFFSET :: u32 where "OTP_CTRL_SECRET2_DIGEST_1_REG_OFFSET \<equiv> 0x80"
abbreviation OTP_CTRL_SW_CFG_WINDOW_REG_OFFSET :: u32 where "OTP_CTRL_SW_CFG_WINDOW_REG_OFFSET \<equiv> 0x1000"
abbreviation OTP_CTRL_TEST_ACCESS_REG_OFFSET :: u32 where "OTP_CTRL_TEST_ACCESS_REG_OFFSET \<equiv> 0x2000"
abbreviation OTP_CTRL_DIRECT_ACCESS_REGWEN_DIRECT_ACCESS_REGWEN_BIT :: u32 where "OTP_CTRL_DIRECT_ACCESS_REGWEN_DIRECT_ACCESS_REGWEN_BIT \<equiv> 0"
abbreviation OTP_CTRL_DIRECT_ACCESS_CMD_RD_BIT :: u32 where "OTP_CTRL_DIRECT_ACCESS_CMD_RD_BIT \<equiv> 0"
abbreviation OTP_CTRL_DIRECT_ACCESS_CMD_WR_BIT :: u32 where "OTP_CTRL_DIRECT_ACCESS_CMD_WR_BIT \<equiv> 1"
abbreviation OTP_CTRL_DIRECT_ACCESS_CMD_DIGEST_BIT :: u32 where "OTP_CTRL_DIRECT_ACCESS_CMD_DIGEST_BIT \<equiv> 2"
abbreviation OTP_CTRL_CHECK_TRIGGER_INTEGRITY_BIT :: u32 where "OTP_CTRL_CHECK_TRIGGER_INTEGRITY_BIT \<equiv> 0"
abbreviation OTP_CTRL_CHECK_TRIGGER_CONSISTENCY_BIT :: u32 where "OTP_CTRL_CHECK_TRIGGER_CONSISTENCY_BIT \<equiv> 1"
abbreviation OTP_CTRL_CHECK_REGWEN_CHECK_REGWEN_BIT :: u32 where "OTP_CTRL_CHECK_REGWEN_CHECK_REGWEN_BIT \<equiv> 0"
abbreviation OTP_CTRL_CREATOR_SW_CFG_READ_LOCK_CREATOR_SW_CFG_READ_LOCK_BIT :: u32 where "OTP_CTRL_CREATOR_SW_CFG_READ_LOCK_CREATOR_SW_CFG_READ_LOCK_BIT \<equiv> 0"
abbreviation OTP_CTRL_OWNER_SW_CFG_READ_LOCK_OWNER_SW_CFG_READ_LOCK_BIT :: u32 where "OTP_CTRL_OWNER_SW_CFG_READ_LOCK_OWNER_SW_CFG_READ_LOCK_BIT \<equiv> 0"

section \<open>Types\<close>

datatype dif_otp_ctrl_toggle =
  kDifOtpCtrlToggleEnabled | kDifOtpCtrlToggleDisabled | dif_otp_ctrl_toggle_other nat

datatype dif_otp_ctrl_partition =
  kDifOtpCtrlPartitionCreatorSwCfg | kDifOtpCtrlPartitionOwnerSwCfg | kDifOtpCtrlPartitionHwCfg
| kDifOtpCtrlPartitionLifeCycle | kDifOtpCtrlPartitionSecret0 | kDifOtpCtrlPartitionSecret1
| kDifOtpCtrlPartitionSecret2 | dif_otp_ctrl_partition_other nat

record dif_otp_ctrl_params =
  otp_base_addr :: mmio_region

record dif_otp_ctrl_config =
  check_timeout :: u32
  integrity_period_mask :: u32
  consistency_period_mask :: u32

record dif_otp_ctrl =
  otp_params :: dif_otp_ctrl_params

datatype dif_otp_ctrl_result =
  kDifOtpCtrlOk | kDifOtpCtrlError | kDifOtpCtrlBadArg

datatype dif_otp_ctrl_lockable_result =
  kDifOtpCtrlLockableOk | kDifOtpCtrlLockableError | kDifOtpCtrlLockableBadArg
| kDifOtpCtrlLockableLocked

datatype dif_otp_ctrl_dai_result =
  kDifOtpCtrlDaiOk | kDifOtpCtrlDaiError | kDifOtpCtrlDaiBadArg | kDifOtpCtrlDaiBusy
| kDifOtpCtrlDaiBadPartition | kDifOtpCtrlDaiOutOfRange | kDifOtpCtrlDaiUnaligned

datatype dif_otp_ctrl_digest_result =
  kDifOtpCtrlDigestOk | kDifOtpCtrlDigestError | kDifOtpCtrlDigestBadArg | kDifOtpCtrlDigestMissing

datatype dif_otp_ctrl_irq =
  kDifOtpCtrlIrqDone | kDifOtpCtrlIrqError | dif_otp_ctrl_irq_other nat

datatype dif_otp_ctrl_error =
  kDifOtpCtrlErrorOk | kDifOtpCtrlErrorMacroUnspecified | kDifOtpCtrlErrorMacroRecoverableRead
| kDifOtpCtrlErrorMacroUnrecoverableRead | kDifOtpCtrlErrorMacroBlankCheckFailed
| kDifOtpCtrlErrorLockedAccess | kDifOtpCtrlErrorBackgroundCheckFailed | kDifOtpCtrlErrorFsmBadState

record dif_otp_ctrl_status =
  codes :: u32
  causes :: "dif_otp_ctrl_error list"

abbreviation otp_base :: "dif_otp_ctrl \<Rightarrow> mmio_region" where
  "otp_base otp \<equiv> otp_base_addr (otp_params otp)"

section \<open>Background checks and locks\<close>

definition dif_otp_ctrl_init ::
  "dif_otp_ctrl_params \<Rightarrow> dif_otp_ctrl ptr \<Rightarrow> dif_otp_ctrl_result \<times> dif_otp_ctrl ptr" where
  "dif_otp_ctrl_init params otp =
     (case otp of NULL \<Rightarrow> (kDifOtpCtrlBadArg, NULL)
      | Some s \<Rightarrow> (kDifOtpCtrlOk, store otp (s\<lparr>otp_params := params\<rparr>)))"

definition checks_are_locked :: "dif_otp_ctrl \<Rightarrow> bool io" where
  "checks_are_locked otp = do {
     locked \<leftarrow> mmio_region_read32 (otp_base otp) OTP_CTRL_CHECK_REGWEN_REG_OFFSET;
     ret (\<not> bitfield_bit32_read locked OTP_CTRL_CHECK_REGWEN_CHECK_REGWEN_BIT)
   }"

definition dif_otp_ctrl_configure ::
  "dif_otp_ctrl ptr \<Rightarrow> dif_otp_ctrl_config \<Rightarrow> dif_otp_ctrl_lockable_result io" where
  "dif_otp_ctrl_configure otp config =
     (case otp of NULL \<Rightarrow> ret kDifOtpCtrlLockableBadArg
      | Some otp \<Rightarrow> do {
          lock \<leftarrow> checks_are_locked otp;
          if lock then ret kDifOtpCtrlLockableLocked
          else do {
            _ \<leftarrow> mmio_region_write32 (otp_base otp) OTP_CTRL_CHECK_TIMEOUT_REG_OFFSET (check_timeout config);
            _ \<leftarrow> mmio_region_write32 (otp_base otp) OTP_CTRL_INTEGRITY_CHECK_PERIOD_REG_OFFSET
              (integrity_period_mask config);
            _ \<leftarrow> mmio_region_write32 (otp_base otp) OTP_CTRL_CONSISTENCY_CHECK_PERIOD_REG_OFFSET
              (consistency_period_mask config);
            ret kDifOtpCtrlLockableOk
          }
        })"

definition dif_otp_ctrl_check_integrity :: "dif_otp_ctrl ptr \<Rightarrow> dif_otp_ctrl_lockable_result io" where
  "dif_otp_ctrl_check_integrity otp =
     (case otp of NULL \<Rightarrow> ret kDifOtpCtrlLockableBadArg
      | Some otp \<Rightarrow> do {
          lock \<leftarrow> checks_are_locked otp;
          if lock then ret kDifOtpCtrlLockableLocked
          else do {
            let reg = bitfield_bit32_write 0 OTP_CTRL_CHECK_TRIGGER_INTEGRITY_BIT True;
            _ \<leftarrow> mmio_region_write32 (otp_base otp) OTP_CTRL_CHECK_TRIGGER_REG_OFFSET reg;
            ret kDifOtpCtrlLockableOk
          }
        })"

definition dif_otp_ctrl_check_consistency :: "dif_otp_ctrl ptr \<Rightarrow> dif_otp_ctrl_lockable_result io" where
  "dif_otp_ctrl_check_consistency otp =
     (case otp of NULL \<Rightarrow> ret kDifOtpCtrlLockableBadArg
      | Some otp \<Rightarrow> do {
          lock \<leftarrow> checks_are_locked otp;
          if lock then ret kDifOtpCtrlLockableLocked
          else do {
            let reg = bitfield_bit32_write 0 OTP_CTRL_CHECK_TRIGGER_CONSISTENCY_BIT True;
            _ \<leftarrow> mmio_region_write32 (otp_base otp) OTP_CTRL_CHECK_TRIGGER_REG_OFFSET reg;
            ret kDifOtpCtrlLockableOk
          }
        })"

definition dif_otp_ctrl_lock_config :: "dif_otp_ctrl ptr \<Rightarrow> dif_otp_ctrl_result io" where
  "dif_otp_ctrl_lock_config otp =
     (case otp of NULL \<Rightarrow> ret kDifOtpCtrlBadArg
      | Some otp \<Rightarrow> do {
          let reg = bitfield_bit32_write 0 OTP_CTRL_CHECK_REGWEN_CHECK_REGWEN_BIT True;
          _ \<leftarrow> mmio_region_write32 (otp_base otp) OTP_CTRL_CHECK_REGWEN_REG_OFFSET reg;
          ret kDifOtpCtrlOk
        })"

definition dif_otp_ctrl_config_is_locked ::
  "dif_otp_ctrl ptr \<Rightarrow> bool ptr \<Rightarrow> (dif_otp_ctrl_result \<times> bool ptr) io" where
  "dif_otp_ctrl_config_is_locked otp is_locked =
     (case (otp, is_locked) of
        (Some otp, Some _) \<Rightarrow> do {
          lock \<leftarrow> checks_are_locked otp;
          ret (kDifOtpCtrlOk, store is_locked lock)
        }
      | _ \<Rightarrow> ret (kDifOtpCtrlBadArg, is_locked))"

fun sw_read_lock_reg_offset :: "dif_otp_ctrl_partition \<Rightarrow> (u32 \<times> u32) option" where
  "sw_read_lock_reg_offset kDifOtpCtrlPartitionCreatorSwCfg = Some (OTP_CTRL_CREATOR_SW_CFG_READ_LOCK_REG_OFFSET,
     OTP_CTRL_CREATOR_SW_CFG_READ_LOCK_CREATOR_SW_CFG_READ_LOCK_BIT)"
| "sw_read_lock_reg_offset kDifOtpCtrlPartitionOwnerSwCfg = Some (OTP_CTRL_OWNER_SW_CFG_READ_LOCK_REG_OFFSET,
     OTP_CTRL_OWNER_SW_CFG_READ_LOCK_OWNER_SW_CFG_READ_LOCK_BIT)"
| "sw_read_lock_reg_offset _ = None"

definition dif_otp_ctrl_lock_reading :: "dif_otp_ctrl ptr \<Rightarrow> dif_otp_ctrl_partition \<Rightarrow> dif_otp_ctrl_result io" where
  "dif_otp_ctrl_lock_reading otp prt =
     (case otp of NULL \<Rightarrow> ret kDifOtpCtrlBadArg
      | Some otp \<Rightarrow>
        (case sw_read_lock_reg_offset prt of None \<Rightarrow> ret kDifOtpCtrlBadArg
         | Some (offset, index) \<Rightarrow> do {
             let reg = bitfield_bit32_write 0 index True;
             _ \<leftarrow> mmio_region_write32 (otp_base otp) offset reg;
             ret kDifOtpCtrlOk
           }))"

definition dif_otp_ctrl_reading_is_locked ::
  "dif_otp_ctrl ptr \<Rightarrow> dif_otp_ctrl_partition \<Rightarrow> bool ptr \<Rightarrow> (dif_otp_ctrl_result \<times> bool ptr) io" where
  "dif_otp_ctrl_reading_is_locked otp prt is_locked =
     (case (otp, is_locked) of
        (Some otp, Some _) \<Rightarrow>
          (case sw_read_lock_reg_offset prt of None \<Rightarrow> ret (kDifOtpCtrlBadArg, is_locked)
           | Some (offset, index) \<Rightarrow> do {
               reg \<leftarrow> mmio_region_read32 (otp_base otp) offset;
               ret (kDifOtpCtrlOk, store is_locked (\<not> bitfield_bit32_read reg index))
             })
      | _ \<Rightarrow> ret (kDifOtpCtrlBadArg, is_locked))"

section \<open>Interrupts\<close>

fun otp_irq_index :: "dif_otp_ctrl_irq \<Rightarrow> u32 option" where
  "otp_irq_index kDifOtpCtrlIrqDone = Some 0"
| "otp_irq_index kDifOtpCtrlIrqError = Some 1"
| "otp_irq_index (dif_otp_ctrl_irq_other _) = None"

definition dif_otp_ctrl_irq_is_pending ::
  "dif_otp_ctrl ptr \<Rightarrow> dif_otp_ctrl_irq \<Rightarrow> bool ptr \<Rightarrow> (dif_otp_ctrl_result \<times> bool ptr) io" where
  "dif_otp_ctrl_irq_is_pending otp irq is_pending =
     (case (otp, is_pending) of
        (Some otp, Some _) \<Rightarrow>
          (case otp_irq_index irq of None \<Rightarrow> ret (kDifOtpCtrlBadArg, is_pending)
           | Some index \<Rightarrow> do {
               reg \<leftarrow> mmio_region_read32 (otp_base otp) OTP_CTRL_INTR_STATE_REG_OFFSET;
               ret (kDifOtpCtrlOk, store is_pending (bitfield_bit32_read reg index))
             })
      | _ \<Rightarrow> ret (kDifOtpCtrlBadArg, is_pending))"

definition dif_otp_ctrl_irq_acknowledge :: "dif_otp_ctrl ptr \<Rightarrow> dif_otp_ctrl_irq \<Rightarrow> dif_otp_ctrl_result io" where
  "dif_otp_ctrl_irq_acknowledge otp irq =
     (case otp of NULL \<Rightarrow> ret kDifOtpCtrlBadArg
      | Some otp \<Rightarrow>
        (case otp_irq_index irq of None \<Rightarrow> ret kDifOtpCtrlBadArg
         | Some index \<Rightarrow> do {
             let reg = bitfield_bit32_write 0 index True;
             _ \<leftarrow> mmio_region_write32 (otp_base otp) OTP_CTRL_INTR_STATE_REG_OFFSET reg;
             ret kDifOtpCtrlOk
           }))"

definition dif_otp_ctrl_irq_get_enabled ::
  "dif_otp_ctrl ptr \<Rightarrow> dif_otp_ctrl_irq \<Rightarrow> dif_otp_ctrl_toggle ptr \<Rightarrow> (dif_otp_ctrl_result \<times> dif_otp_ctrl_toggle ptr) io" where
  "dif_otp_ctrl_irq_get_enabled otp irq st =
     (case (otp, st) of
        (Some otp, Some _) \<Rightarrow>
          (case otp_irq_index irq of None \<Rightarrow> ret (kDifOtpCtrlBadArg, st)
           | Some index \<Rightarrow> do {
               reg \<leftarrow> mmio_region_read32 (otp_base otp) OTP_CTRL_INTR_ENABLE_REG_OFFSET;
               let is_enabled = bitfield_bit32_read reg index;
               ret (kDifOtpCtrlOk, store st (if is_enabled then kDifOtpCtrlToggleEnabled else kDifOtpCtrlToggleDisabled))
             })
      | _ \<Rightarrow> ret (kDifOtpCtrlBadArg, st))"

fun otp_toggle_flag :: "dif_otp_ctrl_toggle \<Rightarrow> bool option" where
  "otp_toggle_flag kDifOtpCtrlToggleEnabled = Some True"
| "otp_toggle_flag kDifOtpCtrlToggleDisabled = Some False"
| "otp_toggle_flag (dif_otp_ctrl_toggle_other _) = None"

definition dif_otp_ctrl_irq_set_enabled ::
  "dif_otp_ctrl ptr \<Rightarrow> dif_otp_ctrl_irq \<Rightarrow> dif_otp_ctrl_toggle \<Rightarrow> dif_otp_ctrl_result io" where
  "dif_otp_ctrl_irq_set_enabled otp irq st =
     (case otp of NULL \<Rightarrow> ret kDifOtpCtrlBadArg
      | Some otp \<Rightarrow>
        (case otp_irq_index irq of None \<Rightarrow> ret kDifOtpCtrlBadArg
         | Some index \<Rightarrow>
           (case otp_toggle_flag st of None \<Rightarrow> ret kDifOtpCtrlBadArg
            | Some flag \<Rightarrow> do {
                reg \<leftarrow> mmio_region_read32 (otp_base otp) OTP_CTRL_INTR_ENABLE_REG_OFFSET;
                let reg = bitfield_bit32_write reg index flag;
                _ \<leftarrow> mmio_region_write32 (otp_base otp) OTP_CTRL_INTR_ENABLE_REG_OFFSET reg;
                ret kDifOtpCtrlOk
              })))"

definition dif_otp_ctrl_irq_force :: "dif_otp_ctrl ptr \<Rightarrow> dif_otp_ctrl_irq \<Rightarrow> dif_otp_ctrl_result io" where
  "dif_otp_ctrl_irq_force otp irq =
     (case otp of NULL \<Rightarrow> ret kDifOtpCtrlBadArg
      | Some otp \<Rightarrow>
        (case otp_irq_index irq of None \<Rightarrow> ret kDifOtpCtrlBadArg
         | Some index \<Rightarrow> do {
             let reg = bitfield_bit32_write 0 index True;
             _ \<leftarrow> mmio_region_write32 (otp_base otp) OTP_CTRL_INTR_TEST_REG_OFFSET reg;
             ret kDifOtpCtrlOk
           }))"

definition dif_otp_ctrl_irq_disable_all :: "dif_otp_ctrl ptr \<Rightarrow> u32 ptr \<Rightarrow> (dif_otp_ctrl_result \<times> u32 ptr) io" where
  "dif_otp_ctrl_irq_disable_all otp snapshot =
     (case otp of NULL \<Rightarrow> ret (kDifOtpCtrlBadArg, snapshot)
      | Some otp \<Rightarrow> do {
          snapshot' \<leftarrow> (if snapshot \<noteq> NULL then do {
              v \<leftarrow> mmio_region_read32 (otp_base otp) OTP_CTRL_INTR_ENABLE_REG_OFFSET;
              ret (store snapshot v)
            } else ret snapshot);
          _ \<leftarrow> mmio_region_write32 (otp_base otp) OTP_CTRL_INTR_ENABLE_REG_OFFSET 0;
          ret (kDifOtpCtrlOk, snapshot')
        })"

definition dif_otp_ctrl_irq_restore_all :: "dif_otp_ctrl ptr \<Rightarrow> u32 ptr \<Rightarrow> dif_otp_ctrl_result io" where
  "dif_otp_ctrl_irq_restore_all otp snapshot =
     (case (otp, snapshot) of
        (Some otp, Some snapshot) \<Rightarrow> do {
          _ \<leftarrow> mmio_region_write32 (otp_base otp) OTP_CTRL_INTR_ENABLE_REG_OFFSET snapshot;
          ret kDifOtpCtrlOk
        }
      | _ \<Rightarrow> ret kDifOtpCtrlBadArg)"

section \<open>Status\<close>

text \<open>The table \<open>kIndices\<close>: the status bit of each status code, in the order of the enumeration.\<close>

definition kIndices :: "u32 list" where
  "kIndices = [0, 1, 2, 6, 3, 4, 5, 7, 8, 9, 10, 11, 12, 13, 14]"

abbreviation kDifOtpCtrlStatusCodeHasCauseLast :: nat where "kDifOtpCtrlStatusCodeHasCauseLast \<equiv> 8"

text \<open>The error-code entry of each status code: life cycle (3) has entry 6, the secrets (4 to 6) entries 3 to 5.\<close>

definition err_code_entry :: "nat \<Rightarrow> u32 option" where
  "err_code_entry i =
     (if i = 0 then Some 0 else if i = 1 then Some 1 else if i = 2 then Some 2
      else if i = 4 then Some 3 else if i = 5 then Some 4 else if i = 6 then Some 5
      else if i = 3 then Some 6 else if i = 7 then Some 7 else if i = 8 then Some 8 else None)"

definition err_code_field :: "u32 \<Rightarrow> bitfield_field32" where
  "err_code_field entry = \<lparr>field_mask = 0x7, field_index = 3 * entry\<rparr>"

definition otp_error_of :: "u32 \<Rightarrow> dif_otp_ctrl_error option" where
  "otp_error_of v =
     (if v = 0 then Some kDifOtpCtrlErrorOk
      else if v = 1 then Some kDifOtpCtrlErrorMacroUnspecified
      else if v = 2 then Some kDifOtpCtrlErrorMacroRecoverableRead
      else if v = 3 then Some kDifOtpCtrlErrorMacroUnrecoverableRead
      else if v = 4 then Some kDifOtpCtrlErrorMacroBlankCheckFailed
      else if v = 5 then Some kDifOtpCtrlErrorLockedAccess
      else if v = 6 then Some kDifOtpCtrlErrorBackgroundCheckFailed
      else if v = 7 then Some kDifOtpCtrlErrorFsmBadState
      else None)"

fun otp_status_loop :: "nat list \<Rightarrow> u32 \<Rightarrow> u32 \<Rightarrow> dif_otp_ctrl_status \<Rightarrow> dif_otp_ctrl_result \<times> dif_otp_ctrl_status" where
  "otp_status_loop [] status_code error_codes status = (kDifOtpCtrlOk, status)"
| "otp_status_loop (i # rest) status_code error_codes status =
     (if \<not> bitfield_bit32_read status_code (kIndices ! i) then
        otp_status_loop rest status_code error_codes
          (if i \<le> kDifOtpCtrlStatusCodeHasCauseLast
           then status\<lparr>causes := (causes status)[i := kDifOtpCtrlErrorOk]\<rparr> else status)
      else
        (let status = status\<lparr>codes := bitfield_bit32_write (codes status) (of_nat i) True\<rparr>
         in case err_code_entry i of None \<Rightarrow> otp_status_loop rest status_code error_codes status
            | Some entry \<Rightarrow>
              (case otp_error_of (bitfield_field32_read error_codes (err_code_field entry)) of
                 None \<Rightarrow> (kDifOtpCtrlError, status)
               | Some err \<Rightarrow> otp_status_loop rest status_code error_codes
                   (status\<lparr>causes := (causes status)[i := err]\<rparr>))))"

definition dif_otp_ctrl_get_status ::
  "dif_otp_ctrl ptr \<Rightarrow> dif_otp_ctrl_status ptr \<Rightarrow> (dif_otp_ctrl_result \<times> dif_otp_ctrl_status ptr) io" where
  "dif_otp_ctrl_get_status otp status =
     (case (otp, status) of
        (Some otp, Some st) \<Rightarrow> do {
          let st = st\<lparr>codes := 0\<rparr>;
          status_code \<leftarrow> mmio_region_read32 (otp_base otp) OTP_CTRL_STATUS_REG_OFFSET;
          error_codes \<leftarrow> mmio_region_read32 (otp_base otp) OTP_CTRL_ERR_CODE_REG_OFFSET;
          let (result, st) = otp_status_loop [0..<15] status_code error_codes st;
          ret (result, store status st)
        }
      | _ \<Rightarrow> ret (kDifOtpCtrlBadArg, status))"

section \<open>Partitions\<close>

record partition_info =
  start_addr :: u32
  part_len :: u32
  align_mask :: u32
  is_software :: bool

fun partition_index :: "dif_otp_ctrl_partition \<Rightarrow> nat" where
  "partition_index kDifOtpCtrlPartitionCreatorSwCfg = 0"
| "partition_index kDifOtpCtrlPartitionOwnerSwCfg = 1"
| "partition_index kDifOtpCtrlPartitionHwCfg = 2"
| "partition_index kDifOtpCtrlPartitionLifeCycle = 3"
| "partition_index kDifOtpCtrlPartitionSecret0 = 4"
| "partition_index kDifOtpCtrlPartitionSecret1 = 5"
| "partition_index kDifOtpCtrlPartitionSecret2 = 6"
| "partition_index (dif_otp_ctrl_partition_other n) = 7 + n"

definition kPartitions :: "partition_info list" where
  "kPartitions =
    [\<lparr>start_addr = 0x0, part_len = 0x300, align_mask = 0x3, is_software = True\<rparr>,
     \<lparr>start_addr = 0x300, part_len = 0x300, align_mask = 0x3, is_software = True\<rparr>,
     \<lparr>start_addr = 0x600, part_len = 0xb0, align_mask = 0x3, is_software = False\<rparr>,
     \<lparr>start_addr = 0x7a8, part_len = 0x58, align_mask = 0x3, is_software = False\<rparr>,
     \<lparr>start_addr = 0x6b0, part_len = 0x28, align_mask = 0x7, is_software = False\<rparr>,
     \<lparr>start_addr = 0x6d8, part_len = 0x58, align_mask = 0x7, is_software = False\<rparr>,
     \<lparr>start_addr = 0x730, part_len = 0x58, align_mask = 0x7, is_software = False\<rparr>]"

abbreviation part :: "dif_otp_ctrl_partition \<Rightarrow> partition_info" where
  "part prt \<equiv> kPartitions ! partition_index prt"

definition dai_idle :: "dif_otp_ctrl \<Rightarrow> bool io" where
  "dai_idle otp = do {
     busy \<leftarrow> mmio_region_read32 (otp_base otp) OTP_CTRL_DIRECT_ACCESS_REGWEN_REG_OFFSET;
     ret (bitfield_bit32_read busy OTP_CTRL_DIRECT_ACCESS_REGWEN_DIRECT_ACCESS_REGWEN_BIT)
   }"

section \<open>The direct access interface\<close>

definition dif_otp_ctrl_dai_read_start ::
  "dif_otp_ctrl ptr \<Rightarrow> dif_otp_ctrl_partition \<Rightarrow> u32 \<Rightarrow> dif_otp_ctrl_dai_result io" where
  "dif_otp_ctrl_dai_read_start otp prt address =
     (case otp of NULL \<Rightarrow> ret kDifOtpCtrlDaiBadArg
      | Some otp \<Rightarrow>
        if partition_index prt \<ge> 7 then ret kDifOtpCtrlDaiBadArg
        else if address AND align_mask (part prt) \<noteq> 0 then ret kDifOtpCtrlDaiUnaligned
        else if address \<ge> part_len (part prt) then ret kDifOtpCtrlDaiOutOfRange
        else do {
          idle \<leftarrow> dai_idle otp;
          if \<not> idle then ret kDifOtpCtrlDaiBusy
          else do {
            let address = address + start_addr (part prt);
            _ \<leftarrow> mmio_region_write32 (otp_base otp) OTP_CTRL_DIRECT_ACCESS_ADDRESS_REG_OFFSET address;
            let cmd = bitfield_bit32_write 0 OTP_CTRL_DIRECT_ACCESS_CMD_RD_BIT True;
            _ \<leftarrow> mmio_region_write32 (otp_base otp) OTP_CTRL_DIRECT_ACCESS_CMD_REG_OFFSET cmd;
            ret kDifOtpCtrlDaiOk
          }
        })"

definition dif_otp_ctrl_dai_read32_end ::
  "dif_otp_ctrl ptr \<Rightarrow> u32 ptr \<Rightarrow> (dif_otp_ctrl_dai_result \<times> u32 ptr) io" where
  "dif_otp_ctrl_dai_read32_end otp val =
     (case (otp, val) of
        (Some otp, Some _) \<Rightarrow> do {
          idle \<leftarrow> dai_idle otp;
          if \<not> idle then ret (kDifOtpCtrlDaiBusy, val)
          else do {
            v \<leftarrow> mmio_region_read32 (otp_base otp) OTP_CTRL_DIRECT_ACCESS_RDATA_0_REG_OFFSET;
            ret (kDifOtpCtrlDaiOk, store val v)
          }
        }
      | _ \<Rightarrow> ret (kDifOtpCtrlDaiBadArg, val))"

definition dif_otp_ctrl_dai_read64_end ::
  "dif_otp_ctrl ptr \<Rightarrow> u64 ptr \<Rightarrow> (dif_otp_ctrl_dai_result \<times> u64 ptr) io" where
  "dif_otp_ctrl_dai_read64_end otp val =
     (case (otp, val) of
        (Some otp, Some _) \<Rightarrow> do {
          idle \<leftarrow> dai_idle otp;
          if \<not> idle then ret (kDifOtpCtrlDaiBusy, val)
          else do {
            v1 \<leftarrow> mmio_region_read32 (otp_base otp) OTP_CTRL_DIRECT_ACCESS_RDATA_1_REG_OFFSET;
            let v = push_bit 32 (ucast v1 :: u64);
            v0 \<leftarrow> mmio_region_read32 (otp_base otp) OTP_CTRL_DIRECT_ACCESS_RDATA_0_REG_OFFSET;
            ret (kDifOtpCtrlDaiOk, store val (v OR ucast v0))
          }
        }
      | _ \<Rightarrow> ret (kDifOtpCtrlDaiBadArg, val))"

definition dif_otp_ctrl_dai_program32 ::
  "dif_otp_ctrl ptr \<Rightarrow> dif_otp_ctrl_partition \<Rightarrow> u32 \<Rightarrow> u32 \<Rightarrow> dif_otp_ctrl_dai_result io" where
  "dif_otp_ctrl_dai_program32 otp prt address val =
     (case otp of NULL \<Rightarrow> ret kDifOtpCtrlDaiBadArg
      | Some otp \<Rightarrow>
        if partition_index prt \<ge> 7 then ret kDifOtpCtrlDaiBadArg
        else if align_mask (part prt) \<noteq> 0x3 \<or> prt = kDifOtpCtrlPartitionLifeCycle
        then ret kDifOtpCtrlDaiBadPartition
        else if address AND align_mask (part prt) \<noteq> 0 then ret kDifOtpCtrlDaiUnaligned
        else if address \<ge> part_len (part prt) - 8 then ret kDifOtpCtrlDaiOutOfRange
        else do {
          idle \<leftarrow> dai_idle otp;
          if \<not> idle then ret kDifOtpCtrlDaiBusy
          else do {
            let address = address + start_addr (part prt);
            _ \<leftarrow> mmio_region_write32 (otp_base otp) OTP_CTRL_DIRECT_ACCESS_ADDRESS_REG_OFFSET address;
            _ \<leftarrow> mmio_region_write32 (otp_base otp) OTP_CTRL_DIRECT_ACCESS_WDATA_0_REG_OFFSET val;
            let cmd = bitfield_bit32_write 0 OTP_CTRL_DIRECT_ACCESS_CMD_WR_BIT True;
            _ \<leftarrow> mmio_region_write32 (otp_base otp) OTP_CTRL_DIRECT_ACCESS_CMD_REG_OFFSET cmd;
            ret kDifOtpCtrlDaiOk
          }
        })"

definition dif_otp_ctrl_dai_program64 ::
  "dif_otp_ctrl ptr \<Rightarrow> dif_otp_ctrl_partition \<Rightarrow> u32 \<Rightarrow> u64 \<Rightarrow> dif_otp_ctrl_dai_result io" where
  "dif_otp_ctrl_dai_program64 otp prt address val =
     (case otp of NULL \<Rightarrow> ret kDifOtpCtrlDaiBadArg
      | Some otp \<Rightarrow>
        if partition_index prt \<ge> 7 then ret kDifOtpCtrlDaiBadArg
        else if align_mask (part prt) \<noteq> 0x7 then ret kDifOtpCtrlDaiBadPartition
        else if address AND align_mask (part prt) \<noteq> 0 then ret kDifOtpCtrlDaiUnaligned
        else if address \<ge> part_len (part prt) - 8 then ret kDifOtpCtrlDaiOutOfRange
        else do {
          idle \<leftarrow> dai_idle otp;
          if \<not> idle then ret kDifOtpCtrlDaiBusy
          else do {
            let address = address + start_addr (part prt);
            _ \<leftarrow> mmio_region_write32 (otp_base otp) OTP_CTRL_DIRECT_ACCESS_ADDRESS_REG_OFFSET address;
            _ \<leftarrow> mmio_region_write32 (otp_base otp) OTP_CTRL_DIRECT_ACCESS_WDATA_0_REG_OFFSET (ucast (val AND 0xffffffff));
            _ \<leftarrow> mmio_region_write32 (otp_base otp) OTP_CTRL_DIRECT_ACCESS_WDATA_1_REG_OFFSET (ucast (drop_bit 32 val));
            let cmd = bitfield_bit32_write 0 OTP_CTRL_DIRECT_ACCESS_CMD_WR_BIT True;
            _ \<leftarrow> mmio_region_write32 (otp_base otp) OTP_CTRL_DIRECT_ACCESS_CMD_REG_OFFSET cmd;
            ret kDifOtpCtrlDaiOk
          }
        })"

definition dif_otp_ctrl_dai_digest ::
  "dif_otp_ctrl ptr \<Rightarrow> dif_otp_ctrl_partition \<Rightarrow> u64 \<Rightarrow> dif_otp_ctrl_dai_result io" where
  "dif_otp_ctrl_dai_digest otp prt digest =
     (case otp of NULL \<Rightarrow> ret kDifOtpCtrlDaiBadArg
      | Some otp \<Rightarrow>
        if partition_index prt \<ge> 7 then ret kDifOtpCtrlDaiBadArg
        else if prt = kDifOtpCtrlPartitionLifeCycle then ret kDifOtpCtrlDaiBadPartition
        else
          (let is_sw = is_software (part prt)
           in if is_sw = (digest = 0) then ret kDifOtpCtrlDaiBadArg
           else do {
             idle \<leftarrow> dai_idle otp;
             if \<not> idle then ret kDifOtpCtrlDaiBusy
             else do {
               let address = start_addr (part prt);
               let address = (if is_sw then address + (part_len (part prt) - 8) else address);
               _ \<leftarrow> mmio_region_write32 (otp_base otp) OTP_CTRL_DIRECT_ACCESS_ADDRESS_REG_OFFSET address;
               _ \<leftarrow> do_if (digest \<noteq> 0) (do {
                 _ \<leftarrow> mmio_region_write32 (otp_base otp) OTP_CTRL_DIRECT_ACCESS_WDATA_0_REG_OFFSET (ucast (digest AND 0xffffffff));
                 mmio_region_write32 (otp_base otp) OTP_CTRL_DIRECT_ACCESS_WDATA_1_REG_OFFSET (ucast (drop_bit 32 digest))
               });
               let cmd_bit = (if is_sw then OTP_CTRL_DIRECT_ACCESS_CMD_WR_BIT else OTP_CTRL_DIRECT_ACCESS_CMD_DIGEST_BIT);
               let cmd = bitfield_bit32_write 0 cmd_bit True;
               _ \<leftarrow> mmio_region_write32 (otp_base otp) OTP_CTRL_DIRECT_ACCESS_CMD_REG_OFFSET cmd;
               ret kDifOtpCtrlDaiOk
             }
           }))"

fun otp_digest_regs :: "dif_otp_ctrl_partition \<Rightarrow> (u32 \<times> u32) option" where
  "otp_digest_regs kDifOtpCtrlPartitionCreatorSwCfg = Some (OTP_CTRL_CREATOR_SW_CFG_DIGEST_0_REG_OFFSET, OTP_CTRL_CREATOR_SW_CFG_DIGEST_1_REG_OFFSET)"
| "otp_digest_regs kDifOtpCtrlPartitionOwnerSwCfg = Some (OTP_CTRL_OWNER_SW_CFG_DIGEST_0_REG_OFFSET, OTP_CTRL_OWNER_SW_CFG_DIGEST_1_REG_OFFSET)"
| "otp_digest_regs kDifOtpCtrlPartitionHwCfg = Some (OTP_CTRL_HW_CFG_DIGEST_0_REG_OFFSET, OTP_CTRL_HW_CFG_DIGEST_1_REG_OFFSET)"
| "otp_digest_regs kDifOtpCtrlPartitionSecret0 = Some (OTP_CTRL_SECRET0_DIGEST_0_REG_OFFSET, OTP_CTRL_SECRET0_DIGEST_1_REG_OFFSET)"
| "otp_digest_regs kDifOtpCtrlPartitionSecret1 = Some (OTP_CTRL_SECRET1_DIGEST_0_REG_OFFSET, OTP_CTRL_SECRET1_DIGEST_1_REG_OFFSET)"
| "otp_digest_regs kDifOtpCtrlPartitionSecret2 = Some (OTP_CTRL_SECRET2_DIGEST_0_REG_OFFSET, OTP_CTRL_SECRET2_DIGEST_1_REG_OFFSET)"
| "otp_digest_regs _ = None"

definition dif_otp_ctrl_get_digest ::
  "dif_otp_ctrl ptr \<Rightarrow> dif_otp_ctrl_partition \<Rightarrow> u64 ptr \<Rightarrow> (dif_otp_ctrl_digest_result \<times> u64 ptr) io" where
  "dif_otp_ctrl_get_digest otp prt digest =
     (case (otp, digest) of
        (Some otp, Some _) \<Rightarrow>
          if prt = kDifOtpCtrlPartitionLifeCycle then ret (kDifOtpCtrlDigestBadArg, digest)
          else
            (case otp_digest_regs prt of None \<Rightarrow> ret (kDifOtpCtrlDigestBadArg, digest)
             | Some (reg0, reg1) \<Rightarrow> do {
                 v1 \<leftarrow> mmio_region_read32 (otp_base otp) reg1;
                 let v = push_bit 32 (ucast v1 :: u64);
                 v0 \<leftarrow> mmio_region_read32 (otp_base otp) reg0;
                 let v = v OR ucast v0;
                 if v = 0 then ret (kDifOtpCtrlDigestMissing, digest)
                 else ret (kDifOtpCtrlDigestOk, store digest v)
               })
      | _ \<Rightarrow> ret (kDifOtpCtrlDigestBadArg, digest))"

section \<open>Memory-mapped access\<close>

text \<open>\<open>len\<close> counts words; \<open>buf\<close> holds their bytes.\<close>

definition dif_otp_ctrl_read_blocking ::
  "dif_otp_ctrl ptr \<Rightarrow> dif_otp_ctrl_partition \<Rightarrow> u32 \<Rightarrow> u8 list ptr \<Rightarrow> u32 \<Rightarrow> (dif_otp_ctrl_dai_result \<times> u8 list ptr) io" where
  "dif_otp_ctrl_read_blocking otp prt address buf len =
     (case (otp, buf) of
        (Some otp, Some b) \<Rightarrow>
          if partition_index prt \<ge> 7 then ret (kDifOtpCtrlDaiBadArg, buf)
          else if \<not> is_software (part prt) then ret (kDifOtpCtrlDaiBadPartition, buf)
          else if address AND align_mask (part prt) \<noteq> 0 then ret (kDifOtpCtrlDaiUnaligned, buf)
          else if address + len \<ge> part_len (part prt) then ret (kDifOtpCtrlDaiOutOfRange, buf)
          else do {
            let reg_offset = OTP_CTRL_SW_CFG_WINDOW_REG_OFFSET + start_addr (part prt) + address;
            b \<leftarrow> mmio_region_memcpy_from_mmio32 (otp_base otp) reg_offset b (unat (len * 4));
            ret (kDifOtpCtrlDaiOk, store buf b)
          }
      | _ \<Rightarrow> ret (kDifOtpCtrlDaiBadArg, buf))"

definition dif_otp_ctrl_read_test ::
  "dif_otp_ctrl ptr \<Rightarrow> u32 \<Rightarrow> u8 list ptr \<Rightarrow> u32 \<Rightarrow> (dif_otp_ctrl_result \<times> u8 list ptr) io" where
  "dif_otp_ctrl_read_test otp address buf len =
     (case (otp, buf) of
        (Some otp, Some b) \<Rightarrow> do {
          let reg_offset = OTP_CTRL_TEST_ACCESS_REG_OFFSET + address;
          b \<leftarrow> mmio_region_memcpy_from_mmio32 (otp_base otp) reg_offset b (unat (len * 4));
          ret (kDifOtpCtrlOk, store buf b)
        }
      | _ \<Rightarrow> ret (kDifOtpCtrlBadArg, buf))"

definition dif_otp_ctrl_write_test ::
  "dif_otp_ctrl ptr \<Rightarrow> u32 \<Rightarrow> u8 list ptr \<Rightarrow> u32 \<Rightarrow> dif_otp_ctrl_result io" where
  "dif_otp_ctrl_write_test otp address buf len =
     (case (otp, buf) of
        (Some otp, Some b) \<Rightarrow> do {
          let reg_offset = OTP_CTRL_TEST_ACCESS_REG_OFFSET + address;
          _ \<leftarrow> mmio_region_memcpy_to_mmio32 (otp_base otp) reg_offset b (unat (len * 4));
          ret kDifOtpCtrlOk
        }
      | _ \<Rightarrow> ret kDifOtpCtrlBadArg)"

section \<open>Requests to the direct access interface\<close>

text \<open>
  What the partition table promises: the byte range of a partition that software may program (its digest
  excluded), and the width of an access to it. The life cycle partition has none.
\<close>

fun otp_content :: "dif_otp_ctrl_partition \<Rightarrow> (nat \<times> nat \<times> nat) option" where
  "otp_content kDifOtpCtrlPartitionCreatorSwCfg = Some (4, 0x0, 0x2f8)"
| "otp_content kDifOtpCtrlPartitionOwnerSwCfg = Some (4, 0x300, 0x5f8)"
| "otp_content kDifOtpCtrlPartitionHwCfg = Some (4, 0x600, 0x6a8)"
| "otp_content kDifOtpCtrlPartitionSecret0 = Some (8, 0x6b0, 0x6d0)"
| "otp_content kDifOtpCtrlPartitionSecret1 = Some (8, 0x6d8, 0x728)"
| "otp_content kDifOtpCtrlPartitionSecret2 = Some (8, 0x730, 0x780)"
| "otp_content _ = None"

text \<open>A programming request is sound when all its bytes lie in the content of the partition, aligned.\<close>

definition otp_request_ok :: "nat \<Rightarrow> dif_otp_ctrl_partition \<Rightarrow> u32 \<Rightarrow> bool" where
  "otp_request_ok width prt a =
     (case otp_content prt of None \<Rightarrow> False
      | Some (n, lo, hi) \<Rightarrow> n = width \<and> width dvd unat a \<and> lo + unat a + width \<le> hi)"

definition otp_start :: "dif_otp_ctrl_partition \<Rightarrow> nat" where
  "otp_start prt = (case otp_content prt of None \<Rightarrow> 0 | Some (_, lo, _) \<Rightarrow> lo)"

text \<open>The world after the driver has seen the interface idle and issued the given register writes.\<close>

abbreviation dai_regwen :: "dif_otp_ctrl \<Rightarrow> u32" where
  "dai_regwen otp \<equiv> mmio_addr32 (otp_base otp) OTP_CTRL_DIRECT_ACCESS_REGWEN_REG_OFFSET"

fun otp_writes :: "dif_otp_ctrl \<Rightarrow> (u32 \<times> u32) list \<Rightarrow> world \<Rightarrow> world" where
  "otp_writes otp [] w = w"
| "otp_writes otp ((reg, v) # rest) w = otp_writes otp rest (log (Wr32 (mmio_addr32 (otp_base otp) reg) v) w)"

definition dai_answer :: "bool \<Rightarrow> dif_otp_ctrl \<Rightarrow> (u32 \<times> u32) list \<Rightarrow> dif_otp_ctrl_dai_result io \<Rightarrow> world \<Rightarrow> bool" where
  "dai_answer ok otp ws m w =
     (let v = cur32 w (dai_regwen otp); w1 = log (Rd32 (dai_regwen otp) v) w
      in if \<not> ok then fst (run_state m w) \<notin> {kDifOtpCtrlDaiOk, kDifOtpCtrlDaiBusy} \<and> snd (run_state m w) = w
         else run_state m w = (if bit v 0 then (kDifOtpCtrlDaiOk, otp_writes otp ws w1) else (kDifOtpCtrlDaiBusy, w1)))"

lemma run_dai_idle [io_simps]:
  "run_state (dai_idle otp) w =
     (bit (cur32 w (dai_regwen otp)) 0, log (Rd32 (dai_regwen otp) (cur32 w (dai_regwen otp))) w)"
  by (simp add: dai_idle_def io_simps bit32_read_eq_bit)

lemma and_mask_dvd:
  "(a :: u32) AND 3 = 0 \<longleftrightarrow> 4 dvd unat a" "a AND 7 = 0 \<longleftrightarrow> 8 dvd unat a"
proof -
  have "a AND mask n = 0 \<longleftrightarrow> 2 ^ n dvd unat a" for n
  proof -
    have "unat (a AND mask n) = take_bit n (unat a)"
      by (simp only: take_bit_eq_mask [symmetric] unsigned_take_bit_eq)
    then have "a AND mask n = 0 \<longleftrightarrow> take_bit n (unat a) = 0" by (metis unsigned_0 unsigned_eq_0_iff)
    then show ?thesis by (simp add: take_bit_eq_mod mod_eq_0_iff_dvd)
  qed
  from this [of 2] this [of 3] show "a AND 3 = 0 \<longleftrightarrow> 4 dvd unat a" "a AND 7 = 0 \<longleftrightarrow> 8 dvd unat a"
    by (simp_all add: mask_eq_exp_minus_1)
qed

text \<open>An aligned address before the end leaves room for a whole access.\<close>

lemma aligned_below:
  fixes d e n :: nat
  assumes "d dvd n" "d dvd e" "0 < d"
  shows "e \<le> n \<longleftrightarrow> \<not> n + d \<le> e"
proof -
  from assms obtain k j where "n = d * k" "e = d * j" by (elim dvdE)
  moreover have "d * j \<le> d * k \<longleftrightarrow> \<not> d * Suc k \<le> d * j"
    using assms(3) by (simp only: mult_le_cancel1 not_less_eq_eq) auto
  ultimately show ?thesis by (simp add: add.commute)
qed

lemma otp_bounds:
  "4 dvd unat (a :: u32) \<Longrightarrow> 0x2f8 \<le> a \<longleftrightarrow> \<not> unat a + 4 \<le> 0x2f8"
  "4 dvd unat a \<Longrightarrow> 0xa8 \<le> a \<longleftrightarrow> \<not> unat a + 4 \<le> 0xa8"
  "8 dvd unat a \<Longrightarrow> 0x20 \<le> a \<longleftrightarrow> \<not> unat a + 8 \<le> 0x20"
  "8 dvd unat a \<Longrightarrow> 0x50 \<le> a \<longleftrightarrow> \<not> unat a + 8 \<le> 0x50"
  using aligned_below [of 4 "unat a" "0x2f8"] aligned_below [of 4 "unat a" "0xa8"]
    aligned_below [of 8 "unat a" "0x20"] aligned_below [of 8 "unat a" "0x50"]
  by (simp_all add: word_le_nat_alt)

lemma otp_align_masks: "(7 :: u32) \<noteq> 3" "(3 :: u32) \<noteq> 7"
  by (simp_all add: word_unat_eq_iff)

lemma ucast_low_word: "ucast (v AND 0xffffffff :: u64) = (ucast v :: u32)"
proof -
  have "v AND 0xffffffff = take_bit 32 v" by (simp add: take_bit_eq_mask mask_eq_exp_minus_1)
  then show ?thesis by (auto intro!: bit_eqI simp: bit_simps dest: bit_imp_le_length)
qed

lemmas dai_request_defs = dai_answer_def otp_request_ok_def otp_start_def kPartitions_def

lemma dai_program32:
  "dai_answer (otp_request_ok 4 prt a) otp
     [(OTP_CTRL_DIRECT_ACCESS_ADDRESS_REG_OFFSET, of_nat (otp_start prt) + a),
      (OTP_CTRL_DIRECT_ACCESS_WDATA_0_REG_OFFSET, v), (OTP_CTRL_DIRECT_ACCESS_CMD_REG_OFFSET, 2)]
     (dif_otp_ctrl_dai_program32 (Some otp) prt a v) w"
  by (cases prt)
    (auto simp: dai_request_defs dif_otp_ctrl_dai_program32_def otp_align_masks io_simps Let_def and_mask_dvd otp_bounds
      bit32_write_0 add.commute ucast_low_word simp del: word_eq_numeral_iff_iszero)

lemma dai_program64:
  "dai_answer (otp_request_ok 8 prt a) otp
     [(OTP_CTRL_DIRECT_ACCESS_ADDRESS_REG_OFFSET, of_nat (otp_start prt) + a),
      (OTP_CTRL_DIRECT_ACCESS_WDATA_0_REG_OFFSET, ucast v), (OTP_CTRL_DIRECT_ACCESS_WDATA_1_REG_OFFSET, ucast (drop_bit 32 v)),
      (OTP_CTRL_DIRECT_ACCESS_CMD_REG_OFFSET, 2)]
     (dif_otp_ctrl_dai_program64 (Some otp) prt a v) w"
  by (cases prt)
    (auto simp: dai_request_defs dif_otp_ctrl_dai_program64_def otp_align_masks io_simps Let_def and_mask_dvd otp_bounds
      bit32_write_0 add.commute ucast_low_word simp del: word_eq_numeral_iff_iszero)

text \<open>A digest request: software partitions carry their digest, the hardware computes the others'.\<close>

definition otp_digest_ok :: "dif_otp_ctrl_partition \<Rightarrow> u64 \<Rightarrow> bool" where
  "otp_digest_ok prt d \<longleftrightarrow> otp_content prt \<noteq> None
     \<and> (prt \<in> {kDifOtpCtrlPartitionCreatorSwCfg, kDifOtpCtrlPartitionOwnerSwCfg} \<longleftrightarrow> d \<noteq> 0)"

definition otp_digest_writes :: "dif_otp_ctrl_partition \<Rightarrow> u64 \<Rightarrow> (u32 \<times> u32) list" where
  "otp_digest_writes prt d =
     (case otp_content prt of None \<Rightarrow> []
      | Some (_, lo, hi) \<Rightarrow>
        if d = 0 then [(OTP_CTRL_DIRECT_ACCESS_ADDRESS_REG_OFFSET, of_nat lo), (OTP_CTRL_DIRECT_ACCESS_CMD_REG_OFFSET, 4)]
        else [(OTP_CTRL_DIRECT_ACCESS_ADDRESS_REG_OFFSET, of_nat hi),
          (OTP_CTRL_DIRECT_ACCESS_WDATA_0_REG_OFFSET, ucast d),
          (OTP_CTRL_DIRECT_ACCESS_WDATA_1_REG_OFFSET, ucast (drop_bit 32 d)), (OTP_CTRL_DIRECT_ACCESS_CMD_REG_OFFSET, 2)])"

lemma dai_digest:
  "dai_answer (otp_digest_ok prt d) otp (otp_digest_writes prt d) (dif_otp_ctrl_dai_digest (Some otp) prt d) w"
  by (cases prt)
    (auto simp: dai_answer_def otp_digest_ok_def otp_digest_writes_def kPartitions_def dif_otp_ctrl_dai_digest_def
      io_simps Let_def bit32_write_0 ucast_low_word simp del: word_eq_numeral_iff_iszero)

text \<open>The content ranges are apart, so a sound request touches one partition only.\<close>

lemma otp_content_disjoint:
  "otp_content p = Some (n, lo, hi) \<Longrightarrow> otp_content q = Some (m, lo', hi') \<Longrightarrow> p \<noteq> q \<Longrightarrow> hi + 8 \<le> lo' \<or> hi' + 8 \<le> lo"
  by (cases p; cases q) auto


section \<open>Memory-mapped reads\<close>

text \<open>The words of a partition's window, as the device shows them.\<close>

definition otp_window :: "dif_otp_ctrl \<Rightarrow> nat" where
  "otp_window otp = unat (mmio_base (otp_base otp)) + 0x1000"

lemma read_blocking_run:
  assumes "plain init w" "4 dvd unat (mmio_base (otp_base otp))"
    and "is_software (part prt)" "partition_index prt < 7"
    and "4 dvd unat a" "unat a + unat len < 0x300"
    and "otp_window otp + 0x2000 \<le> 4294967296"
  shows "\<exists>w'. run_state (dif_otp_ctrl_read_blocking (Some otp) prt a (Some buf) len) w
      = ((kDifOtpCtrlDaiOk, Some (mem_bytes (cur32 w) (otp_window otp + otp_start prt + unat a) (4 * unat len)
          @ drop (4 * unat len) buf)), w')"
proof -
  have prt: "prt = kDifOtpCtrlPartitionCreatorSwCfg \<or> prt = kDifOtpCtrlPartitionOwnerSwCfg"
    using assms(3,4) by (cases prt) (simp_all add: kPartitions_def)
  have sum: "unat (a + len) = unat a + unat len" using assms(6) by (simp add: unat_word_ariths)
  have len: "unat (len * 4) = 4 * unat len" using assms(6) by (simp add: unat_word_ariths)
  have off: "unat (0x1000 + start_addr (part prt) + a) = 0x1000 + otp_start prt + unat a"
    using prt assms(6) by (auto simp: unat_word_ariths kPartitions_def otp_start_def)
  have "part_len (part prt) = 0x300" using prt by (auto simp: kPartitions_def)
  then have fits: "\<not> a + len \<ge> part_len (part prt)"
    using sum assms(6) by (simp only: word_le_nat_alt) simp
  have al: "a AND align_mask (part prt) = 0" using prt assms(5) by (auto simp: kPartitions_def and_mask_dvd)
  have bound: "unat (mmio_base (otp_base otp)) + unat (0x1000 + start_addr (part prt) + a) + 4 * unat len \<le> 4294967296"
    using off prt assms(6,7) by (auto simp: otp_window_def otp_start_def)
  obtain w' where "run_state (mmio_region_memcpy32 (otp_base otp) (0x1000 + start_addr (part prt) + a) buf (4 * unat len) True) w
      = (mem_bytes (cur32 w) (unat (mmio_base (otp_base otp)) + unat (0x1000 + start_addr (part prt) + a)) (4 * unat len)
          @ drop (4 * unat len) buf, w')"
    using memcpy32_from_mmio [OF assms(1,2) bound, of buf] by blast
  then show ?thesis
    using assms(3,4) al fits len off
    by (simp add: dif_otp_ctrl_read_blocking_def mmio_region_memcpy_from_mmio32_def Let_def otp_window_def ac_simps)
qed

text \<open>
  C39. The bound check of dif_otp_ctrl_read_blocking adds a number of words to a byte address: every
  aligned request with \<open>address + len\<close> below the 0x300 bytes of a software partition is accepted, and
  copies the \<open>4 * len\<close> bytes from the address on. So requests are accepted that leave the partition,
  for example eight bytes from 0x2fc of the creator partition on, the last four of them the owner partition's.
\<close>

theorem dif_otp_ctrl_read_blocking_overreads:
  assumes "plain init w" "4 dvd unat (mmio_base (otp_base otp))" "otp_window otp + 0x2000 \<le> 4294967296"
    and "prt \<in> {kDifOtpCtrlPartitionCreatorSwCfg, kDifOtpCtrlPartitionOwnerSwCfg}"
    and "4 dvd unat a" "unat a + unat len < 0x300"
  shows "fst (run_state (dif_otp_ctrl_read_blocking (Some otp) prt a (Some buf) len) w)
    = (kDifOtpCtrlDaiOk, Some (mem_bytes (cur32 w) (otp_window otp + otp_start prt + unat a) (4 * unat len)
        @ drop (4 * unat len) buf))"
proof -
  have "is_software (part prt)" "partition_index prt < 7" using assms(4) by (auto simp: kPartitions_def)
  from read_blocking_run [OF assms(1,2) this assms(5,6,3), of buf] show ?thesis by auto
qed

definition otp0 :: dif_otp_ctrl where
  "otp0 = \<lparr>otp_params = \<lparr>otp_base_addr = \<lparr>mmio_base = 0x40130000\<rparr>\<rparr>\<rparr>"

theorem dif_otp_ctrl_read_blocking_overreads_witness:
  "fst (run_state (dif_otp_ctrl_read_blocking (Some otp0) kDifOtpCtrlPartitionCreatorSwCfg 0x2fc (Some (replicate 8 0)) 2)
     (plain_world (\<lambda>a. if a = 0x40131300 then 0x11223344 else 0)))
   = (kDifOtpCtrlDaiOk, Some [0, 0, 0, 0, 0x44, 0x33, 0x22, 0x11])"
proof -
  have "fst (run_state (dif_otp_ctrl_read_blocking (Some otp0) kDifOtpCtrlPartitionCreatorSwCfg 0x2fc (Some (replicate 8 0)) 2)
     (plain_world (\<lambda>a. if a = 0x40131300 then 0x11223344 else 0)))
   = (kDifOtpCtrlDaiOk, Some (mem_bytes (cur32 (plain_world (\<lambda>a. if a = 0x40131300 then 0x11223344 else 0)))
       (otp_window otp0 + otp_start kDifOtpCtrlPartitionCreatorSwCfg + unat (0x2fc :: u32)) (4 * unat (2 :: u32))
        @ drop (4 * unat (2 :: u32)) (replicate 8 0)))"
    by (rule dif_otp_ctrl_read_blocking_overreads [of "\<lambda>a. if a = 0x40131300 then 0x11223344 else 0"])
      (simp_all add: otp0_def otp_window_def)
  then show ?thesis
    by (simp add: otp0_def otp_window_def otp_start_def mem_bytes_def mem_byte_def byte_of_def upt_rec)
qed


section \<open>The interrupt block\<close>

lemma otp_irq_index_bit: "otp_irq_index i = Some n \<Longrightarrow> unat n < 2"
  by (cases i) auto

lemma otp_irq_index_inject: "otp_irq_index i = Some m \<Longrightarrow> otp_irq_index j = Some n \<Longrightarrow> unat m = unat n \<Longrightarrow> i = j"
  by (cases i; cases j) auto

interpretation otp_irqs: irq_block "\<lambda>irq. map_option unat (otp_irq_index irq)"
    "mmio_addr32 (otp_base otp) OTP_CTRL_INTR_ENABLE_REG_OFFSET"
    "\<lambda>i b w. snd (run_state (dif_otp_ctrl_irq_set_enabled (Some otp) i
       (if b then kDifOtpCtrlToggleEnabled else kDifOtpCtrlToggleDisabled)) w)"
    "\<lambda>i w. snd (fst (run_state (dif_otp_ctrl_irq_get_enabled (Some otp) i (Some kDifOtpCtrlToggleDisabled)) w))
       = Some kDifOtpCtrlToggleEnabled"
    "\<lambda>w. case run_state (dif_otp_ctrl_irq_disable_all (Some otp) (Some 0)) w of ((_, s), w') \<Rightarrow> (the s, w')"
    "\<lambda>s w. snd (run_state (dif_otp_ctrl_irq_restore_all (Some otp) (Some s)) w)"
  for otp
  by unfold_locales
    (auto simp: dif_otp_ctrl_irq_set_enabled_def dif_otp_ctrl_irq_get_enabled_def dif_otp_ctrl_irq_disable_all_def
      dif_otp_ctrl_irq_restore_all_def io_simps bit32_read_eq_bit dest: otp_irq_index_inject otp_irq_index_bit split: if_splits)



end
