(* ===== verification/BusFrame.thy ===== *)
theory BusFrame
  imports Mmio
begin

text \<open>
  Which part of the address space a piece of code touches. An execution is \<open>within\<close> a set of addresses
  when it only adds bus events on them; what one component wrote is then not disturbed by another whose
  registers lie elsewhere. One rule per primitive of \<open>Mmio\<close>, collected as \<open>within_intros\<close>.
\<close>

named_theorems within_intros "executions that stay within a set of addresses"

fun event_addr :: "bus_event \<Rightarrow> u32" where
  "event_addr (Rd32 a _) = a"
| "event_addr (Wr32 a _) = a"
| "event_addr (Rd8 a _) = a"
| "event_addr (Wr8 a _) = a"

definition within :: "u32 set \<Rightarrow> world \<Rightarrow> world \<Rightarrow> bool" where
  "within A w w' \<longleftrightarrow> dev32 w' = dev32 w \<and> dev8 w' = dev8 w
     \<and> (\<exists>t. trace w' = t @ trace w \<and> (\<forall>e \<in> set t. event_addr e \<in> A))"

lemma within_refl [within_intros]: "within A w w"
  by (simp add: within_def)

lemma within_trans: "within A w w' \<Longrightarrow> within A w' w'' \<Longrightarrow> within A w w''"
  unfolding within_def by (metis (no_types, opaque_lifting) UnE append_assoc set_append)

lemma within_mono: "within A w w' \<Longrightarrow> A \<subseteq> B \<Longrightarrow> within B w w'"
  unfolding within_def by blast

lemma within_dev: "within A w w' \<Longrightarrow> dev32 w' = dev32 w \<and> dev8 w' = dev8 w"
  by (simp add: within_def)

lemma within_log:
  "within A w w' \<Longrightarrow> event_addr e \<in> A \<Longrightarrow> within A w (log e w')"
  unfolding within_def by (elim conjE exE, rename_tac t) (rule conjI, simp, rule conjI, simp, rule_tac x = "e # t" in exI, simp)

text \<open>Operations of the state monad: every run from any world.\<close>

definition stays :: "u32 set \<Rightarrow> 'a io \<Rightarrow> bool" where
  "stays A m \<longleftrightarrow> (\<forall>w. within A w (snd (run_state m w)))"

lemma staysD: "stays A m \<Longrightarrow> run_state m w = (x, w') \<Longrightarrow> within A w w'"
  unfolding stays_def by (metis snd_conv)

lemma stays_ret [within_intros]: "stays A (ret x)"
  by (simp add: stays_def within_refl)

lemma stays_bind [within_intros]: "stays A m \<Longrightarrow> (\<And>x. stays A (f x)) \<Longrightarrow> stays A (State_Monad.bind m f)"
  by (auto simp: stays_def case_prod_unfold intro: within_trans)

lemma stays_if [within_intros]: "(b \<Longrightarrow> stays A m) \<Longrightarrow> (\<not> b \<Longrightarrow> stays A n) \<Longrightarrow> stays A (if b then m else n)"
  by simp

lemma stays_do_if [within_intros]: "(b \<Longrightarrow> stays A m) \<Longrightarrow> stays A (do_if b m)"
  by (simp add: do_if_def stays_ret)

lemma stays_for_each [within_intros]: "(\<And>i. i \<in> set is \<Longrightarrow> stays A (f i)) \<Longrightarrow> stays A (for_each is f)"
  by (induction "is") (auto intro!: within_intros)

lemma stays_bus [within_intros]:
  "a \<in> A \<Longrightarrow> stays A (bus_read32 a)"
  "a \<in> A \<Longrightarrow> stays A (bus_write32 a v)"
  "a \<in> A \<Longrightarrow> stays A (bus_read8 a)"
  "a \<in> A \<Longrightarrow> stays A (bus_write8 a b)"
  by (auto simp: stays_def io_simps bus_read8_def bus_write8_def Let_def intro!: within_log within_refl)

lemma stays_mmio [within_intros]:
  "mmio_addr32 b off \<in> A \<Longrightarrow> stays A (mmio_region_read32 b off)"
  "mmio_addr32 b off \<in> A \<Longrightarrow> stays A (mmio_region_write32 b off v)"
  by (simp_all add: mmio_region_read32_def mmio_region_write32_def within_intros)

lemma within_spin [within_intros]:
  assumes "spin_while cond w = Some w'" "stays A cond"
  shows "within A w w'"
  by (rule spin_while_invariant [OF assms(1)])
    (use assms(2) in \<open>auto simp: stays_def intro: within_refl within_trans\<close>)

text \<open>The block copy touches the words of its window only.\<close>

definition addr_range :: "nat \<Rightarrow> nat \<Rightarrow> u32 set" where
  "addr_range lo hi = {a. lo \<le> unat a \<and> unat a < hi}"

lemma in_addr_range: "a \<in> addr_range lo hi \<longleftrightarrow> lo \<le> unat a \<and> unat a < hi"
  by (simp add: addr_range_def)

lemma addr_range_disjoint: "hi \<le> lo' \<Longrightarrow> addr_range lo hi \<inter> addr_range lo' hi' = {}"
  by (auto simp: addr_range_def)

text \<open>What an execution within \<open>A\<close> leaves alone: the writes at the addresses outside \<open>A\<close>.\<close>

definition writes_in :: "u32 set \<Rightarrow> bus_event list \<Rightarrow> (u32 \<times> u32) list" where
  "writes_in B h = filter (\<lambda>p. fst p \<in> B) (bus_writes h)"

lemma bus_writes_append: "bus_writes (h @ h') = bus_writes h' @ bus_writes h"
proof (induction h)
  case (Cons e h)
  then show ?case by (cases e) simp_all
qed simp

lemma bus_writes_addr: "p \<in> set (bus_writes h) \<Longrightarrow> \<exists>e \<in> set h. event_addr e = fst p"
proof (induction h)
  case (Cons e h)
  then show ?case by (cases e) auto
qed simp

lemma within_writes_in:
  assumes "within A w w'" "A \<inter> B = {}"
  shows "writes_in B (trace w') = writes_in B (trace w)"
proof -
  obtain t where t: "trace w' = t @ trace w" "\<forall>e \<in> set t. event_addr e \<in> A"
    using assms(1) by (auto simp: within_def)
  have "fst p \<notin> B" if "p \<in> set (bus_writes t)" for p
    using bus_writes_addr [OF that] t(2) assms(2) by auto
  then show ?thesis by (simp add: writes_in_def t(1) bus_writes_append)
qed

text \<open>A window of at most \<open>hi - lo\<close> bytes behind a base address.\<close>

lemma mmio_addr32_range:
  assumes "unat (mmio_base b) + unat off < 4294967296"
  shows "unat (mmio_base b) \<le> unat (mmio_addr32 b off) \<and> unat (mmio_addr32 b off) \<le> unat (mmio_base b) + unat off"
proof -
  have le: "4 * (unat off div 4) \<le> unat off" by simp
  have u: "unat (off div 4) = unat off div 4" by (simp add: unat_div_distrib)
  have "unat off < 4294967296" by simp
  with le have lt: "4 * (unat off div 4) < 4294967296" by linarith
  then have m: "unat (4 * (off div 4)) = 4 * (unat off div 4)" by (simp add: unat_word_ariths u)
  have "unat (mmio_addr32 b off) = unat (mmio_base b) + 4 * (unat off div 4)"
    using assms le by (simp add: mmio_addr32_def unat_word_ariths m [simplified] mod_less)
  with le show ?thesis by simp
qed

lemma mmio_addr32_in_range:
  assumes "unat (mmio_base b) + unat off < 4294967296" "lo \<le> unat (mmio_base b)" "unat (mmio_base b) + unat off < hi"
  shows "mmio_addr32 b off \<in> addr_range lo hi"
  using mmio_addr32_range [OF assms(1)] assms(2,3) by (simp add: in_addr_range)

lemma stays_memcpy32_words:
  assumes "unat (mmio_base b) + unat off + len < 4294967296" "lo \<le> unat (mmio_base b)"
    "unat (mmio_base b) + unat off + len \<le> hi"
  shows "stays (addr_range lo hi) (mmio_memcpy32_words b off buf len from_mmio)"
  using assms
proof (induction b off buf len from_mmio rule: mmio_memcpy32_words.induct)
  case (1 b off buf len from_mmio)
  show ?case
  proof (cases "len = 0")
    case True
    then show ?thesis by (simp add: mmio_memcpy32_words.simps within_intros)
  next
    case False
    define n where "n = (if 4 > len then len else 4)"
    have n: "0 < n" "n \<le> len" "n \<le> 4" using False by (auto simp: n_def)
    have adr: "mmio_addr32 b off \<in> addr_range lo hi"
      using "1.prems" n by (intro mmio_addr32_in_range) linarith+
    have "unat (of_nat n :: u32) = n" using n by (intro unat_of_nat_u32) linarith
    then have off: "unat (off + of_nat n) = unat off + n" using "1.prems"(1) n
      by (subst unat_plus_simple [THEN iffD1]) (auto simp: word_le_nat_alt unat_word_ariths)
    have rest: "stays (addr_range lo hi) (mmio_memcpy32_words b (off + of_nat n) (drop n buf) (len - n) from_mmio)"
      using "1.IH"(1) [OF _ n_def] "1.IH"(2) [OF _ n_def] off "1.prems" n False
      by (cases from_mmio) auto
    show ?thesis
      unfolding mmio_memcpy32_words.simps [of b off buf len from_mmio] Let_def n_def [symmetric]
      by (intro within_intros adr rest)
  qed
qed

lemma unat_sub_mod4: "unat (off - off mod 4 :: u32) = unat off - unat off mod 4"
  by (subst unat_sub) (simp_all add: word_le_nat_alt unat_mod_distrib)

lemma stays_memcpy32:
  assumes "unat (mmio_base b) + unat off + len < 4294967296" "lo \<le> unat (mmio_base b)"
    "unat (mmio_base b) + unat off + len \<le> hi"
  shows "stays (addr_range lo hi) (mmio_region_memcpy32 b off buf len from_mmio)"
proof (cases "len = 0")
  case True
  then show ?thesis by (simp add: mmio_region_memcpy32_def within_intros)
next
  case False
  define m where "m = unat (misalignment32_of off)"
  define n where "n = (if 4 - m > len then len else 4 - m)"
  have m: "m = unat off mod 4" "m < 4" by (simp_all add: m_def misalignment32_of_def unat_mod_distrib)
  then have n: "0 < n" "n \<le> len" "n \<le> 4" using False by (auto simp: n_def)
  have "unat (of_nat n :: u32) = n" using n by (intro unat_of_nat_u32) linarith
  then have off: "unat (off + of_nat n) = unat off + n" using assms(1) n
    by (subst unat_plus_simple [THEN iffD1]) (auto simp: word_le_nat_alt unat_word_ariths)
  have "of_nat m = off mod 4" by (simp add: m_def misalignment32_of_def)
  then have "unat (off - of_nat m) \<le> unat off" using unat_sub_mod4 [of off] by simp
  then have adr: "mmio_addr32 b (off - of_nat m) \<in> addr_range lo hi"
    using assms n by (intro mmio_addr32_in_range) linarith+
  have rest: "stays (addr_range lo hi) (mmio_memcpy32_words b (off + of_nat n) (drop n buf) (len - n) from_mmio)"
    using assms n off by (intro stays_memcpy32_words) simp_all
  have all: "stays (addr_range lo hi) (mmio_memcpy32_words b off buf len from_mmio)"
    using assms by (intro stays_memcpy32_words)
  show ?thesis
    unfolding mmio_region_memcpy32_def Let_def m_def [symmetric] n_def [symmetric]
    by (intro within_intros adr rest all)
qed

lemma stays_memcpy_mmio [within_intros]:
  assumes "unat (mmio_base b) + unat off + len < 4294967296" "lo \<le> unat (mmio_base b)"
    "unat (mmio_base b) + unat off + len \<le> hi"
  shows "stays (addr_range lo hi) (mmio_region_memcpy_from_mmio32 b off buf len)"
    "stays (addr_range lo hi) (mmio_region_memcpy_to_mmio32 b off buf len)"
  unfolding mmio_region_memcpy_from_mmio32_def mmio_region_memcpy_to_mmio32_def
  by (intro within_intros stays_memcpy32 assms)+

end
