(* ===== verification/Hmac.thy ===== *)
theory Hmac
  imports BusFrame
begin

text \<open>
  The HMAC library of the boot ROM (\<open>sw/device/lib/hmac.c\<close>) and the SHA-256 interface over it
  (\<open>sw/device/lib/hw_sha256.c\<close>). What the device has been told is read off the bus trace; the hash
  function itself is hardware and a parameter of the correctness statement.
\<close>

lemma run_bus_write8 [io_simps]:
  "run_state (bus_write8 a v) w = ((), w\<lparr>trace := Wr8 a v # trace w\<rparr>)"
  by (simp add: bus_write8_def)

section \<open>Operations\<close>

abbreviation HMAC0_BASE_ADDR :: u32 where "HMAC0_BASE_ADDR \<equiv> 0x41110000"
abbreviation HMAC_INTR_STATE_REG_OFFSET :: u32 where "HMAC_INTR_STATE_REG_OFFSET \<equiv> 0x0"
abbreviation HMAC_CFG_REG_OFFSET :: u32 where "HMAC_CFG_REG_OFFSET \<equiv> 0xc"
abbreviation HMAC_CMD_REG_OFFSET :: u32 where "HMAC_CMD_REG_OFFSET \<equiv> 0x10"
abbreviation HMAC_STATUS_REG_OFFSET :: u32 where "HMAC_STATUS_REG_OFFSET \<equiv> 0x14"
abbreviation HMAC_KEY_0_REG_OFFSET :: u32 where "HMAC_KEY_0_REG_OFFSET \<equiv> 0x20"
abbreviation HMAC_DIGEST_0_REG_OFFSET :: u32 where "HMAC_DIGEST_0_REG_OFFSET \<equiv> 0x40"
abbreviation HMAC_MSG_FIFO_REG_OFFSET :: u32 where "HMAC_MSG_FIFO_REG_OFFSET \<equiv> 0x800"

abbreviation hmac_reg :: "u32 \<Rightarrow> u32" where
  "hmac_reg offset \<equiv> HMAC0_BASE_ADDR + offset"

datatype hmac_ops = HMAC_OP_HMAC | HMAC_OP_SHA256

fun hmac_op_bit :: "hmac_ops \<Rightarrow> nat" where
  "hmac_op_bit HMAC_OP_HMAC = 0"
| "hmac_op_bit HMAC_OP_SHA256 = 1"

record hmac_cfg =
  hmac_mode :: hmac_ops
  input_endian_swap :: u32
  digest_endian_swap :: u32
  hmac_keys :: "u32 list"

definition hmac_init :: "hmac_cfg \<Rightarrow> unit io" where
  "hmac_init cfg = do {
     _ \<leftarrow> bus_write32 (hmac_reg HMAC_CFG_REG_OFFSET)
       (push_bit 2 (input_endian_swap cfg) OR push_bit (hmac_op_bit (hmac_mode cfg)) 1
          OR push_bit 3 (digest_endian_swap cfg));
     _ \<leftarrow> for_each [0..<8] (\<lambda>i. bus_write32 (hmac_reg (HMAC_KEY_0_REG_OFFSET + of_nat i * 4)) (hmac_keys cfg ! i));
     bus_write32 (hmac_reg HMAC_CMD_REG_OFFSET) (push_bit 0 1)
   }"

definition hmac_fifo_depth :: "int io" where
  "hmac_fifo_depth = do {
     v \<leftarrow> bus_read32 (hmac_reg HMAC_STATUS_REG_OFFSET);
     ret (uint (drop_bit 4 v AND 0x1f))
   }"

definition fifo_avail :: "int io" where
  "fifo_avail = do { depth \<leftarrow> hmac_fifo_depth; ret (16 - depth) }"

text \<open>
  The loop over whole words. The message is the list of its bytes from the pointer on; the rest of it is
  returned.
\<close>

abbreviation word_of_message :: "u8 list \<Rightarrow> nat \<Rightarrow> u32" where
  "word_of_message data i \<equiv> bytes_word (take 4 (drop (4 * i) data))"

abbreviation write_message_words :: "u8 list \<Rightarrow> nat \<Rightarrow> unit io" where
  "write_message_words data n \<equiv>
     for_each [0..<n] (\<lambda>i. bus_write32 (hmac_reg HMAC_MSG_FIFO_REG_OFFSET) (word_of_message data i))"

function hmac_update_words :: "nat \<Rightarrow> u8 list \<Rightarrow> world \<Rightarrow> (u8 list \<times> world) option" where
  "hmac_update_words words_remaining data w =
     (if words_remaining > 0 then
        (if words_remaining > 8 then do {
           w \<leftarrow> spin_while (do { avail \<leftarrow> fifo_avail; ret (avail \<le> 8) }) w;
           hmac_update_words (words_remaining - 8) (drop 32 data) (snd (run_state (write_message_words data 8) w))
         } else
           hmac_update_words (words_remaining - 1) (drop 4 data) (snd (run_state (write_message_words data 1) w)))
      else Some (data, w))"
  by pat_completeness auto
termination by (relation "measure (\<lambda>(n, data, w). n)") auto

declare hmac_update_words.simps [simp del]

definition hmac_update :: "u8 list \<Rightarrow> nat \<Rightarrow> world \<Rightarrow> world option" where
  "hmac_update data size_in_bytes w = do {
     let bytes_left_over = size_in_bytes mod 4;
     (data, w) \<leftarrow> hmac_update_words (size_in_bytes div 4) data w;
     Some (snd (run_state (for_each [0..<bytes_left_over]
       (\<lambda>i. bus_write8 (hmac_reg HMAC_MSG_FIFO_REG_OFFSET) (data ! i))) w))
   }"

text \<open>The loop that reads consecutive registers into a buffer.\<close>

fun read_words :: "u32 \<Rightarrow> nat \<Rightarrow> u32 list io" where
  "read_words a 0 = ret []"
| "read_words a (Suc n) = do {
     v \<leftarrow> bus_read32 a;
     vs \<leftarrow> read_words (a + 4) n;
     ret (v # vs)
   }"

definition hmac_done :: "world \<Rightarrow> (u32 list \<times> world) option" where
  "hmac_done w = do {
     let (_, w) = run_state (bus_write32 (hmac_reg HMAC_CMD_REG_OFFSET) (push_bit 1 1)) w;
     w \<leftarrow> spin_while (do {
         v \<leftarrow> bus_read32 (hmac_reg HMAC_INTR_STATE_REG_OFFSET);
         ret (drop_bit 0 v AND 0x1 = 0)
       }) w;
     Some (run_state (do {
         _ \<leftarrow> bus_write32 (hmac_reg HMAC_INTR_STATE_REG_OFFSET) (push_bit 0 1);
         read_words (hmac_reg HMAC_DIGEST_0_REG_OFFSET) 8
       }) w)
   }"

definition sha256_init :: "unit io" where
  "sha256_init = hmac_init \<lparr>hmac_mode = HMAC_OP_SHA256, input_endian_swap = 1, digest_endian_swap = 1,
     hmac_keys = replicate 8 0\<rparr>"

definition hw_SHA256_hash :: "u8 list \<Rightarrow> nat \<Rightarrow> world \<Rightarrow> (u8 list \<times> world) option" where
  "hw_SHA256_hash data len w = do {
     let (_, w) = run_state sha256_init w;
     w \<leftarrow> hmac_update data len w;
     (digest, w) \<leftarrow> hmac_done w;
     Some (concat (map word_bytes digest), w)
   }"

section \<open>The device\<close>

text \<open>
  How far the device is in a hash operation, read off the accesses to it: a configuration write makes it
  idle, HASH_START begins a message, HASH_PROCESS closes it, the done flag announces the digest, and the
  write of a one acknowledges it. An access out of this order leaves it in no defined phase.
\<close>

datatype hmac_phase = Hmac_idle | Hmac_absorbing | Hmac_processing | Hmac_finished | Hmac_acked | Hmac_undefined

fun hmac_phase_of :: "u32 \<Rightarrow> bus_event list \<Rightarrow> hmac_phase" where
  "hmac_phase_of b [] = Hmac_idle"
| "hmac_phase_of b (Wr32 a v # h) =
     (if a = b + HMAC_CFG_REG_OFFSET then
        (if hmac_phase_of b h = Hmac_idle \<or> hmac_phase_of b h = Hmac_acked then Hmac_idle else Hmac_undefined)
      else if a = b + HMAC_CMD_REG_OFFSET then
        (if v = 1 \<and> hmac_phase_of b h = Hmac_idle then Hmac_absorbing
         else if v = 2 \<and> hmac_phase_of b h = Hmac_absorbing then Hmac_processing else Hmac_undefined)
      else if a = b + HMAC_INTR_STATE_REG_OFFSET \<and> bit v 0 \<and> hmac_phase_of b h = Hmac_finished then Hmac_acked
      else hmac_phase_of b h)"
| "hmac_phase_of b (Rd32 a v # h) =
     (if a = b + HMAC_INTR_STATE_REG_OFFSET \<and> bit v 0 \<and> hmac_phase_of b h = Hmac_processing then Hmac_finished
      else hmac_phase_of b h)"
| "hmac_phase_of b (_ # h) = hmac_phase_of b h"

text \<open>The message since the last HASH_START.\<close>

fun hmac_message :: "u32 \<Rightarrow> bus_event list \<Rightarrow> u8 list" where
  "hmac_message b [] = []"
| "hmac_message b (Wr32 a v # h) =
     (if a = b + HMAC_CMD_REG_OFFSET \<and> v = 1 then []
      else hmac_message b h @ (if a = b + HMAC_MSG_FIFO_REG_OFFSET then word_bytes v else []))"
| "hmac_message b (Wr8 a v # h) = hmac_message b h @ (if a = b + HMAC_MSG_FIFO_REG_OFFSET then [v] else [])"
| "hmac_message b (_ # h) = hmac_message b h"

text \<open>
  What the hardware promises: once it has announced a digest, and until it is configured or started again,
  the digest registers hold the hash of the message. The hash function \<open>sha\<close> is a parameter.
\<close>

definition sha_device :: "(u8 list \<Rightarrow> u8 list) \<Rightarrow> world \<Rightarrow> bool" where
  "sha_device sha w \<longleftrightarrow> (\<forall>m. length (sha m) = 32) \<and>
     (\<forall>h. hmac_phase_of HMAC0_BASE_ADDR h \<in> {Hmac_finished, Hmac_acked} \<longrightarrow>
       (\<forall>i<8. dev32 w h (hmac_reg HMAC_DIGEST_0_REG_OFFSET + 4 * of_nat i) = word_of_message (sha (hmac_message HMAC0_BASE_ADDR h)) i))"

text \<open>What it promises on time: the FIFO drains and a closed message is processed in the end.\<close>

definition hmac_responds :: "world \<Rightarrow> bool" where
  "hmac_responds w \<longleftrightarrow> (\<forall>w1. dev32 w1 = dev32 w \<longrightarrow>
     spin_while (do { avail \<leftarrow> fifo_avail; ret (avail \<le> 8) }) w1 \<noteq> None \<and>
     (hmac_phase_of HMAC0_BASE_ADDR (trace w1) = Hmac_processing \<longrightarrow> spin_while (do {
         v \<leftarrow> bus_read32 (hmac_reg HMAC_INTR_STATE_REG_OFFSET);
         ret (drop_bit 0 v AND 0x1 = 0)
       }) w1 \<noteq> None))"

section \<open>The hash\<close>

lemma hmac_init_starts:
  assumes "hmac_phase_of HMAC0_BASE_ADDR (trace w) \<in> {Hmac_idle, Hmac_acked}"
  shows "hmac_phase_of HMAC0_BASE_ADDR (trace (snd (run_state sha256_init w))) = Hmac_absorbing
    \<and> hmac_message HMAC0_BASE_ADDR (trace (snd (run_state sha256_init w))) = [] \<and> dev32 (snd (run_state sha256_init w)) = dev32 w"
proof -
  have "[0..<8] = [0, 1, 2, 3, 4, 5, 6, 7 :: nat]" by (simp add: upt_rec)
  with assms show ?thesis by (auto simp: sha256_init_def hmac_init_def io_simps)
qed

text \<open>During an update the phase stays and the message grows by what is pushed.\<close>

definition absorbs :: "u8 list \<Rightarrow> world \<Rightarrow> world \<Rightarrow> bool" where
  "absorbs m w w' \<longleftrightarrow> dev32 w' = dev32 w \<and> hmac_phase_of HMAC0_BASE_ADDR (trace w') = hmac_phase_of HMAC0_BASE_ADDR (trace w)
     \<and> hmac_message HMAC0_BASE_ADDR (trace w') = hmac_message HMAC0_BASE_ADDR (trace w) @ m"

lemma absorbs_trans: "absorbs m w w' \<Longrightarrow> absorbs m' w' w'' \<Longrightarrow> absorbs (m @ m') w w''"
  by (simp add: absorbs_def)

lemma write_words_absorbs:
  "absorbs (concat (map (\<lambda>i. word_bytes (f i)) is)) w
     (snd (run_state (for_each is (\<lambda>i. bus_write32 (hmac_reg HMAC_MSG_FIFO_REG_OFFSET) (f i))) w))"
  by (induction "is" arbitrary: w) (simp_all add: io_simps absorbs_def)

lemma write_bytes_absorbs:
  "absorbs (map f is) w (snd (run_state (for_each is (\<lambda>i. bus_write8 (hmac_reg HMAC_MSG_FIFO_REG_OFFSET) (f i))) w))"
  by (induction "is" arbitrary: w) (simp_all add: io_simps absorbs_def)

lemma fifo_avail_absorbs:
  "spin_while (do { avail \<leftarrow> fifo_avail; ret (avail \<le> 8) }) w = Some w' \<Longrightarrow> absorbs [] w w'"
  by (erule spin_while_invariant) (simp_all add: io_simps fifo_avail_def hmac_fifo_depth_def absorbs_def)

text \<open>The incremental interface; the context's method table and its type are those of the vendored library.\<close>

definition hw_SHA256_init :: "unit io" where
  "hw_SHA256_init = sha256_init"

definition hw_SHA256_update :: "u8 list \<Rightarrow> nat \<Rightarrow> world \<Rightarrow> world option" where
  "hw_SHA256_update data len w = hmac_update data len w"

definition hw_SHA256_final :: "world \<Rightarrow> (u8 list \<times> world) option" where
  "hw_SHA256_final w = do {
     (digest, w) \<leftarrow> hmac_done w;
     Some (concat (map word_bytes digest), w)
   }"

lemma message_words_bytes:
  "4 * n \<le> length data \<Longrightarrow> concat (map (\<lambda>i. word_bytes (word_of_message data i)) [0..<n]) = take (4 * n) data"
proof (induction n)
  case (Suc n)
  then have "word_bytes (word_of_message data n) = take 4 (drop (4 * n) data)" by simp
  with Suc show ?case by (simp add: take_add [symmetric] add.commute)
qed simp

lemma hmac_update_words_absorbs:
  assumes "hmac_update_words n data w = Some (rest, w')" "4 * n \<le> length data"
  shows "rest = drop (4 * n) data \<and> absorbs (take (4 * n) data) w w'"
  using assms
proof (induction n data w rule: hmac_update_words.induct)
  case (1 n data w)
  show ?case
  proof (cases "n > 0"; cases "n > 8")
    assume "n > 0" "n > 8"
    with 1(3) obtain w1 where w1: "spin_while (do { avail \<leftarrow> fifo_avail; ret (avail \<le> 8) }) w = Some w1"
      "hmac_update_words (n - 8) (drop 32 data) (snd (run_state (write_message_words data 8) w1)) = Some (rest, w')"
      by (subst (asm) hmac_update_words.simps) (auto split: Option.bind_splits)
    have n: "4 * (n - 8) + 32 = 4 * n" using \<open>n > 8\<close> by linarith
    have split: "take (4 * n) data = [] @ take (4 * 8) data @ take (4 * (n - 8)) (drop 32 data)"
      using n take_add [of "4 * 8" "4 * (n - 8)" data] by (simp add: add.commute)
    have "rest = drop (4 * (n - 8)) (drop 32 data) \<and> absorbs (take (4 * (n - 8)) (drop 32 data))
        (snd (run_state (write_message_words data 8) w1)) w'"
      using 1(1) [OF \<open>n > 0\<close> \<open>n > 8\<close> w1] 1(4) n by simp
    moreover have "absorbs (take (4 * 8) data) w1 (snd (run_state (write_message_words data 8) w1))"
      using write_words_absorbs [of "word_of_message data" "[0..<8]" w1] message_words_bytes [of 8 data] 1(4) \<open>n > 8\<close>
      by (simp del: upt_Suc)
    ultimately show ?thesis
      using absorbs_trans [OF fifo_avail_absorbs [OF w1(1)] absorbs_trans] n unfolding split by simp
  next
    assume "n > 0" "\<not> n > 8"
    with 1(3) have run: "hmac_update_words (n - 1) (drop 4 data) (snd (run_state (write_message_words data 1) w)) = Some (rest, w')"
      by (subst (asm) hmac_update_words.simps) simp
    have n: "4 * (n - 1) + 4 = 4 * n" using \<open>n > 0\<close> by linarith
    have split: "take (4 * n) data = take 4 data @ take (4 * (n - 1)) (drop 4 data)"
      using n take_add [of 4 "4 * (n - 1)" data] by (simp add: add.commute)
    have "rest = drop (4 * (n - 1)) (drop 4 data) \<and> absorbs (take (4 * (n - 1)) (drop 4 data))
        (snd (run_state (write_message_words data 1) w)) w'"
      using 1(2) [OF \<open>n > 0\<close> \<open>\<not> n > 8\<close> run] 1(4) n by simp
    moreover have "absorbs (take 4 data) w (snd (run_state (write_message_words data 1) w))"
      using write_words_absorbs [of "word_of_message data" "[0..<1]" w] message_words_bytes [of 1 data] 1(4) \<open>n > 0\<close>
      by simp
    ultimately show ?thesis using absorbs_trans n unfolding split by auto
  next
    assume "\<not> n > 0"
    with 1(3) show ?thesis by (subst (asm) hmac_update_words.simps) (simp add: absorbs_def)
  next
    assume "\<not> n > 0"
    with 1(3) show ?thesis by (subst (asm) hmac_update_words.simps) (simp add: absorbs_def)
  qed
qed

lemma map_nth_prefix: "n \<le> length xs \<Longrightarrow> map ((!) xs) [0..<n] = take n xs"
  by (rule nth_equalityI) simp_all

lemma hmac_update_absorbs:
  assumes "hmac_update data len w = Some w'" "len \<le> length data"
  shows "absorbs (take len data) w w'"
proof -
  from assms(1) obtain rest w1 where words: "hmac_update_words (len div 4) data w = Some (rest, w1)"
    and w': "w' = snd (run_state (for_each [0..<len mod 4]
       (\<lambda>i. bus_write8 (hmac_reg HMAC_MSG_FIFO_REG_OFFSET) (rest ! i))) w1)"
    by (auto simp: hmac_update_def split: Option.bind_splits)
  have le: "4 * (len div 4) + len mod 4 = len" by simp
  with assms(2) have le2: "4 * (len div 4) \<le> length data" by linarith
  from hmac_update_words_absorbs [OF words le2]
  have rest: "rest = drop (4 * (len div 4)) data" "absorbs (take (4 * (len div 4)) data) w w1" by auto
  have "len mod 4 \<le> length rest" using le assms(2) unfolding rest(1) length_drop by linarith
  then have "absorbs (take (len mod 4) rest) w1 w'"
    using write_bytes_absorbs [of "(!) rest" "[0..<len mod 4]" w1] by (simp add: w' map_nth_prefix)
  from absorbs_trans [OF rest(2) this] show ?thesis
    using le take_add [of "4 * (len div 4)" "len mod 4" data] by (simp add: rest(1))
qed

text \<open>A polling loop that keeps \<open>P\<close> as long as it goes on leaves with the read that ends it.\<close>

lemma spin_while_exit:
  assumes "spin_while cond w = Some w'" "P w"
    and "\<And>w. P w \<Longrightarrow> fst (run_state cond w) \<Longrightarrow> P (snd (run_state cond w))"
  shows "\<exists>w0. P w0 \<and> \<not> fst (run_state cond w0) \<and> w' = snd (run_state cond w0)"
proof -
  obtain n where n: "\<forall>k < n. fst (run_state cond (polls cond k w))" "\<not> fst (run_state cond (polls cond n w))"
    "w' = polls cond (Suc n) w" using spin_while_SomeD [OF assms(1)] by blast
  have "P (polls cond k w)" if "k \<le> n" for k
    using that by (induction k) (use n(1) assms(2,3) in \<open>auto simp: polls_def\<close>)
  with n show ?thesis by (intro exI [of _ "polls cond n w"]) (simp add: polls_def)
qed

lemma and_1_eq_0: "(v :: u32) AND 1 = 0 \<longleftrightarrow> \<not> bit v 0"
  by (simp add: and_one_eq bit_0 even_iff_mod_2_eq_zero)

text \<open>Closing the message: the wait ends with the done flag seen, and the digest is read after the acknowledgement.\<close>

lemma read_words_digest:
  assumes "dev32 w = dev" "hmac_phase_of HMAC0_BASE_ADDR (trace w) = Hmac_acked"
    and "\<And>h. hmac_phase_of HMAC0_BASE_ADDR h = Hmac_acked \<Longrightarrow> hmac_message HMAC0_BASE_ADDR h = hmac_message HMAC0_BASE_ADDR (trace w)
       \<Longrightarrow> \<forall>i<n. dev h (a + 4 * of_nat i) = v i"
  shows "fst (run_state (read_words a n) w) = map v [0..<n]
    \<and> dev32 (snd (run_state (read_words a n) w)) = dev
    \<and> hmac_phase_of HMAC0_BASE_ADDR (trace (snd (run_state (read_words a n) w))) = Hmac_acked"
  using assms
proof (induction n arbitrary: a w v)
  case 0
  then show ?case by simp
next
  case (Suc n)
  let ?w1 = "log (Rd32 a (cur32 w a)) w"
  have 0: "cur32 w a = v 0" using Suc.prems(1,2) Suc.prems(3) [of "trace w"] by (auto simp: cur32_def)
  have "\<forall>i<n. dev h (a + 4 + 4 * of_nat i) = v (Suc i)"
    if "hmac_phase_of HMAC0_BASE_ADDR h = Hmac_acked" "hmac_message HMAC0_BASE_ADDR h = hmac_message HMAC0_BASE_ADDR (trace ?w1)" for h
  proof (intro allI impI)
    fix i assume "i < n"
    then show "dev h (a + 4 + 4 * of_nat i) = v (Suc i)"
      using Suc.prems(3) [OF that(1)] that(2) by (auto simp: algebra_simps dest!: spec [of _ "Suc i"])
  qed
  then have "fst (run_state (read_words (a + 4) n) ?w1) = map (\<lambda>i. v (Suc i)) [0..<n]
    \<and> dev32 (snd (run_state (read_words (a + 4) n) ?w1)) = dev
    \<and> hmac_phase_of HMAC0_BASE_ADDR (trace (snd (run_state (read_words (a + 4) n) ?w1))) = Hmac_acked"
    using Suc.prems(1,2) by (intro Suc.IH) simp_all
  moreover have "map v [0..<Suc n] = v 0 # map (\<lambda>i. v (Suc i)) [0..<n]"
    by (simp add: map_upt_Suc del: upt_Suc)
  ultimately show ?case using 0 by (simp add: io_simps case_prod_unfold del: upt_Suc)
qed

lemma hmac_done_digest:
  assumes "hmac_done w = Some (d, w')" "sha_device sha w"
    and "hmac_phase_of HMAC0_BASE_ADDR (trace w) = Hmac_absorbing"
  shows "concat (map word_bytes d) = sha (hmac_message HMAC0_BASE_ADDR (trace w))
    \<and> hmac_phase_of HMAC0_BASE_ADDR (trace w') = Hmac_acked \<and> dev32 w' = dev32 w"
proof -
  let ?w1 = "log (Wr32 (hmac_reg HMAC_CMD_REG_OFFSET) 2) w"
  let ?poll = "do { v \<leftarrow> bus_read32 (hmac_reg HMAC_INTR_STATE_REG_OFFSET); ret (drop_bit 0 v AND 0x1 = 0) } :: bool io"
  let ?ack = "\<lambda>w. log (Wr32 (hmac_reg HMAC_INTR_STATE_REG_OFFSET) 1) w"
  let ?m = "hmac_message HMAC0_BASE_ADDR (trace w)"
  let ?P = "\<lambda>x. dev32 x = dev32 w \<and> hmac_phase_of HMAC0_BASE_ADDR (trace x) = Hmac_processing
      \<and> hmac_message HMAC0_BASE_ADDR (trace x) = ?m"
  from assms(1) obtain w2 where spin: "spin_while ?poll ?w1 = Some w2"
    and fin: "(d, w') = run_state (read_words (hmac_reg HMAC_DIGEST_0_REG_OFFSET) 8) (?ack w2)"
    by (auto simp: hmac_done_def io_simps split: Option.bind_splits)
  have "?P ?w1" using assms(3) by simp
  moreover have "?P (snd (run_state ?poll x))" if "?P x" "fst (run_state ?poll x)" for x
    using that by (auto simp: io_simps and_1_eq_0)
  ultimately obtain w0 where w0: "?P w0" "\<not> fst (run_state ?poll w0)" "w2 = snd (run_state ?poll w0)"
    using spin_while_exit [OF spin, of ?P] by blast
  then have w2: "dev32 w2 = dev32 w" "hmac_phase_of HMAC0_BASE_ADDR (trace w2) = Hmac_finished"
    "hmac_message HMAC0_BASE_ADDR (trace w2) = ?m"
    by (auto simp: io_simps and_1_eq_0)
  have digest: "\<forall>i<8. dev32 w h (hmac_reg HMAC_DIGEST_0_REG_OFFSET + 4 * of_nat i) = word_of_message (sha ?m) i"
    if "hmac_phase_of HMAC0_BASE_ADDR h = Hmac_acked" "hmac_message HMAC0_BASE_ADDR h = hmac_message HMAC0_BASE_ADDR (trace (?ack w2))" for h
    using assms(2) that w2(3) unfolding sha_device_def by simp
  have res: "d = map (word_of_message (sha ?m)) [0..<8] \<and> dev32 w' = dev32 w \<and> hmac_phase_of HMAC0_BASE_ADDR (trace w') = Hmac_acked"
    using read_words_digest [of "?ack w2" "dev32 w" 8 "hmac_reg HMAC_DIGEST_0_REG_OFFSET", OF _ _ digest] w2 fin [symmetric] by simp
  have "length (sha ?m) = 32" using assms(2) by (simp add: sha_device_def)
  then have "concat (map word_bytes d) = sha ?m"
    using message_words_bytes [of 8 "sha ?m"] res by (simp add: comp_def del: upt_Suc)
  with res show ?thesis by simp
qed

text \<open>Two updates, however the message is split, hash the whole of it.\<close>

lemma hw_SHA256_incremental:
  assumes "sha_device sha w" "hmac_phase_of HMAC0_BASE_ADDR (trace w) \<in> {Hmac_idle, Hmac_acked}"
    and run: "hw_SHA256_update m1 (length m1) (snd (run_state hw_SHA256_init w)) = Some w1"
      "hw_SHA256_update m2 (length m2) w1 = Some w2" "hw_SHA256_final w2 = Some (d, w')"
  shows "d = sha (m1 @ m2)"
proof -
  note start = hmac_init_starts [OF assms(2)]
  have "absorbs m1 (snd (run_state sha256_init w)) w1" "absorbs m2 w1 w2"
    using hmac_update_absorbs run(1,2) unfolding hw_SHA256_update_def hw_SHA256_init_def by fastforce+
  with start have w2: "dev32 w2 = dev32 w" "hmac_phase_of HMAC0_BASE_ADDR (trace w2) = Hmac_absorbing"
    "hmac_message HMAC0_BASE_ADDR (trace w2) = m1 @ m2" by (auto simp: absorbs_def)
  then have "sha_device sha w2" using assms(1) by (simp add: sha_device_def)
  with hmac_done_digest [OF _ _ w2(2)] run(3) w2(3) show ?thesis
    by (fastforce simp: hw_SHA256_final_def bind_eq_Some_conv)
qed

lemma hmac_update_words_returns:
  assumes "hmac_responds w"
  shows "hmac_update_words n data w \<noteq> None"
  using assms
proof (induction n data w rule: hmac_update_words.induct)
  case (1 n data w)
  have dev: "hmac_responds (snd (run_state (write_message_words data k) w1))" if "dev32 w1 = dev32 w" for w1 k
    using 1(3) write_words_absorbs [of "word_of_message data" "[0..<k]" w1] that by (simp add: hmac_responds_def absorbs_def)
  show ?case
  proof (cases "n > 8")
    case True
    then have "n > 0" by simp
    from 1(3) obtain w1 where w1: "spin_while (do { avail \<leftarrow> fifo_avail; ret (avail \<le> 8) }) w = Some w1"
      unfolding hmac_responds_def by blast
    then show ?thesis using 1(1) [OF \<open>n > 0\<close> True w1 dev] fifo_avail_absorbs [OF w1] True
      by (subst hmac_update_words.simps) (simp add: absorbs_def)
  next
    case False
    then show ?thesis using 1(2) [OF _ False dev]
      by (subst hmac_update_words.simps) simp
  qed
qed

lemma hw_SHA256_hash_returns:
  assumes "hmac_responds w" "hmac_phase_of HMAC0_BASE_ADDR (trace w) \<in> {Hmac_idle, Hmac_acked}" "len \<le> length data"
  shows "hw_SHA256_hash data len w \<noteq> None"
proof -
  let ?w1 = "snd (run_state sha256_init w)"
  note start = hmac_init_starts [OF assms(2)]
  then have r1: "hmac_responds ?w1" using assms(1) by (simp add: hmac_responds_def)
  obtain rest w2 where "hmac_update_words (len div 4) data ?w1 = Some (rest, w2)"
    using hmac_update_words_returns [OF r1] by fastforce
  then obtain w3 where w3: "hmac_update data len ?w1 = Some w3" by (simp add: hmac_update_def)
  let ?w4 = "log (Wr32 (hmac_reg HMAC_CMD_REG_OFFSET) 2) w3"
  have "dev32 w3 = dev32 w" "hmac_phase_of HMAC0_BASE_ADDR (trace w3) = Hmac_absorbing"
    using hmac_update_absorbs [OF w3 assms(3)] start by (auto simp: absorbs_def)
  then have "dev32 ?w4 = dev32 w" "hmac_phase_of HMAC0_BASE_ADDR (trace ?w4) = Hmac_processing" by simp_all
  with assms(1) obtain w5 where "spin_while (do { v \<leftarrow> bus_read32 (hmac_reg HMAC_INTR_STATE_REG_OFFSET);
      ret (drop_bit 0 v AND 0x1 = 0) }) ?w4 = Some w5" unfolding hmac_responds_def by blast
  then have "hmac_done w3 \<noteq> None" by (simp add: hmac_done_def io_simps)
  with w3 show ?thesis by (auto simp: hw_SHA256_hash_def case_prod_unfold)
qed

lemma hw_SHA256_hash_digest:
  assumes "sha_device sha w" "hmac_phase_of HMAC0_BASE_ADDR (trace w) \<in> {Hmac_idle, Hmac_acked}"
    "len \<le> length data" "hw_SHA256_hash data len w = Some (d, w')"
  shows "d = sha (take len data) \<and> hmac_phase_of HMAC0_BASE_ADDR (trace w') = Hmac_acked \<and> dev32 w' = dev32 w"
proof -
  let ?w1 = "snd (run_state sha256_init w)"
  from assms(4) obtain w2 ws where upd: "hmac_update data len ?w1 = Some w2" and fin: "hmac_done w2 = Some (ws, w')"
    and d: "d = concat (map word_bytes ws)"
    by (auto simp: hw_SHA256_hash_def case_prod_unfold split: Option.bind_splits)
  note start = hmac_init_starts [OF assms(2)]
  from hmac_update_absorbs [OF upd assms(3)] start have w2: "dev32 w2 = dev32 w"
    "hmac_phase_of HMAC0_BASE_ADDR (trace w2) = Hmac_absorbing" "hmac_message HMAC0_BASE_ADDR (trace w2) = take len data"
    by (auto simp: absorbs_def)
  from w2(1) assms(1) have "sha_device sha w2" by (simp add: sha_device_def)
  from hmac_done_digest [OF fin this w2(2)] w2 show ?thesis by (simp add: d)
qed


text \<open>A device with a (weak) hash of its own.\<close>

definition sum_hash :: "u8 list \<Rightarrow> u8 list" where
  "sum_hash m = replicate 32 (sum_list m)"

definition sum_hash_world :: world where
  "sum_hash_world = \<lparr>dev32 = (\<lambda>h a. if a = hmac_reg HMAC_INTR_STATE_REG_OFFSET then 1
       else if a = hmac_reg HMAC_STATUS_REG_OFFSET then 0
       else bytes_word (replicate 4 (sum_list (hmac_message HMAC0_BASE_ADDR h)))),
     dev8 = (\<lambda>_ _. 0), trace = []\<rparr>"

lemma sum_hash_device: "sha_device sum_hash sum_hash_world"
  unfolding sha_device_def
proof (intro conjI allI impI)
  fix h :: "bus_event list" and i :: nat
  assume "i < 8"
  then consider "i = 0" | "i = 1" | "i = 2" | "i = 3" | "i = 4" | "i = 5" | "i = 6" | "i = 7" by linarith
  then show "dev32 sum_hash_world h (hmac_reg HMAC_DIGEST_0_REG_OFFSET + 4 * of_nat i) =
      word_of_message (sum_hash (hmac_message HMAC0_BASE_ADDR h)) i"
    by cases (simp_all add: sum_hash_world_def sum_hash_def)
qed (simp add: sum_hash_def)

lemma sum_hash_responds: "hmac_responds sum_hash_world"
  unfolding hmac_responds_def
proof (intro allI impI conjI)
  fix w1 :: world
  assume dev: "dev32 w1 = dev32 sum_hash_world"
  show "spin_while (do { avail \<leftarrow> fifo_avail; ret (avail \<le> 8) }) w1 \<noteq> None"
    using dev by (subst spin_while.simps) (simp add: fifo_avail_def hmac_fifo_depth_def io_simps cur32_def sum_hash_world_def)
  show "spin_while (do { v \<leftarrow> bus_read32 (hmac_reg HMAC_INTR_STATE_REG_OFFSET);
      ret (drop_bit 0 v AND 0x1 = 0) }) w1 \<noteq> None"
    using dev by (subst spin_while.simps) (simp add: io_simps cur32_def sum_hash_world_def)
qed


end
