(* ===== verification/DifHmac.thy ===== *)
theory DifHmac
  imports IrqBlock MmioCopy Hmac
begin

text \<open>
  The HMAC driver (\<open>sw/device/lib/dif/dif_hmac.c\<close>). Register offsets and fields are those of
  \<open>hw/ip/hmac/data/hmac.hjson\<close>; the state of a hash operation is read off the bus trace as in \<open>Hmac\<close>.
\<close>

section \<open>Types\<close>

abbreviation HMAC_INTR_ENABLE_REG_OFFSET :: u32 where "HMAC_INTR_ENABLE_REG_OFFSET \<equiv> 0x4"
abbreviation HMAC_INTR_TEST_REG_OFFSET :: u32 where "HMAC_INTR_TEST_REG_OFFSET \<equiv> 0x8"
abbreviation HMAC_WIPE_SECRET_REG_OFFSET :: u32 where "HMAC_WIPE_SECRET_REG_OFFSET \<equiv> 0x1c"
abbreviation HMAC_MSG_LENGTH_LOWER_REG_OFFSET :: u32 where "HMAC_MSG_LENGTH_LOWER_REG_OFFSET \<equiv> 0x60"
abbreviation HMAC_MSG_LENGTH_UPPER_REG_OFFSET :: u32 where "HMAC_MSG_LENGTH_UPPER_REG_OFFSET \<equiv> 0x64"
abbreviation HMAC_CFG_HMAC_EN_BIT :: u32 where "HMAC_CFG_HMAC_EN_BIT \<equiv> 0"
abbreviation HMAC_CFG_SHA_EN_BIT :: u32 where "HMAC_CFG_SHA_EN_BIT \<equiv> 1"
abbreviation HMAC_CFG_ENDIAN_SWAP_BIT :: u32 where "HMAC_CFG_ENDIAN_SWAP_BIT \<equiv> 2"
abbreviation HMAC_CFG_DIGEST_SWAP_BIT :: u32 where "HMAC_CFG_DIGEST_SWAP_BIT \<equiv> 3"
abbreviation HMAC_CMD_HASH_START_BIT :: u32 where "HMAC_CMD_HASH_START_BIT \<equiv> 0"
abbreviation HMAC_CMD_HASH_PROCESS_BIT :: u32 where "HMAC_CMD_HASH_PROCESS_BIT \<equiv> 1"
abbreviation HMAC_INTR_STATE_HMAC_DONE_BIT :: u32 where "HMAC_INTR_STATE_HMAC_DONE_BIT \<equiv> 0"
abbreviation HMAC_STATUS_FIFO_DEPTH_FIELD :: bitfield_field32 where
  "HMAC_STATUS_FIFO_DEPTH_FIELD \<equiv> \<lparr>field_mask = 0x1f, field_index = 4\<rparr>"
abbreviation HMAC_MSG_FIFO_SIZE_WORDS :: u32 where "HMAC_MSG_FIFO_SIZE_WORDS \<equiv> 512"
abbreviation HMAC_PARAM_NUMWORDS :: nat where "HMAC_PARAM_NUMWORDS \<equiv> 8"

datatype dif_hmac_interrupt =
  kDifHmacInterruptHmacDone | kDifHmacInterruptFifoEmpty | kDifHmacInterruptHmacErr | dif_hmac_interrupt_other nat

datatype dif_hmac_enable = kDifHmacEnable | kDifHmacDisable | dif_hmac_enable_other nat

datatype dif_hmac_endianness = kDifHmacEndiannessBig | kDifHmacEndiannessLittle | dif_hmac_endianness_other nat

datatype dif_hmac_result = kDifHmacOk | kDifHmacError | kDifHmacBadArg

datatype dif_hmac_fifo_result = kDifHmacFifoOk | kDifHmacFifoError | kDifHmacFifoBadArg | kDifHmacFifoFull

datatype dif_hmac_digest_result =
  kDifHmacDigestOk | kDifHmacDigestError | kDifHmacDigestBadArg | kDifHmacDigestProcessing

record dif_hmac_config =
  hmac_cfg_base_addr :: mmio_region
  message_endianness :: dif_hmac_endianness
  digest_endianness :: dif_hmac_endianness

record dif_hmac =
  hmac_base_addr :: mmio_region

section \<open>Helpers\<close>

definition get_status :: "dif_hmac \<Rightarrow> u32 io" where
  "get_status hmac = mmio_region_read32 (hmac_base_addr hmac) HMAC_STATUS_REG_OFFSET"

definition get_fifo_entry_count :: "dif_hmac \<Rightarrow> u32 io" where
  "get_fifo_entry_count hmac = do {
     status \<leftarrow> get_status hmac;
     ret (bitfield_field32_read status HMAC_STATUS_FIFO_DEPTH_FIELD)
   }"

definition get_fifo_available_space :: "dif_hmac \<Rightarrow> u32 io" where
  "get_fifo_available_space hmac = do {
     count \<leftarrow> get_fifo_entry_count hmac;
     ret (HMAC_MSG_FIFO_SIZE_WORDS - count)
   }"

fun irq_bit_offset_get :: "dif_hmac_interrupt \<Rightarrow> u32 option" where
  "irq_bit_offset_get kDifHmacInterruptHmacDone = Some 0"
| "irq_bit_offset_get kDifHmacInterruptFifoEmpty = Some 1"
| "irq_bit_offset_get kDifHmacInterruptHmacErr = Some 2"
| "irq_bit_offset_get (dif_hmac_interrupt_other _) = None"

section \<open>Initialisation\<close>

text \<open>The flag that an endianness sets in the configuration; a value beyond the enumerators is an error.\<close>

fun hmac_swap_flag :: "dif_hmac_endianness \<Rightarrow> u32 \<Rightarrow> u32 option" where
  "hmac_swap_flag kDifHmacEndiannessBig n = Some (push_bit (unat n) 1)"
| "hmac_swap_flag kDifHmacEndiannessLittle n = Some 0"
| "hmac_swap_flag (dif_hmac_endianness_other _) n = None"

definition dif_hmac_init :: "dif_hmac_config ptr \<Rightarrow> dif_hmac ptr \<Rightarrow> (dif_hmac_result \<times> dif_hmac ptr) io" where
  "dif_hmac_init config hmac =
     (case (config, hmac) of
        (Some config, Some hmac) \<Rightarrow> do {
          let hmac = hmac\<lparr>hmac_base_addr := hmac_cfg_base_addr config\<rparr>;
          _ \<leftarrow> mmio_region_write32 (hmac_cfg_base_addr config) HMAC_CFG_REG_OFFSET 0;
          _ \<leftarrow> mmio_region_write32 (hmac_cfg_base_addr config) HMAC_INTR_STATE_REG_OFFSET
            (push_bit 0 1 OR push_bit 1 1 OR push_bit 2 1);
          (case hmac_swap_flag (message_endianness config) HMAC_CFG_ENDIAN_SWAP_BIT of
             None \<Rightarrow> ret (kDifHmacError, Some hmac)
           | Some m \<Rightarrow>
             (case hmac_swap_flag (digest_endianness config) HMAC_CFG_DIGEST_SWAP_BIT of
                None \<Rightarrow> ret (kDifHmacError, Some hmac)
              | Some d \<Rightarrow> do {
                  _ \<leftarrow> mmio_region_write32 (hmac_cfg_base_addr config) HMAC_CFG_REG_OFFSET (0 OR m OR d);
                  ret (kDifHmacOk, Some hmac)
                }))
        }
      | _ \<Rightarrow> ret (kDifHmacBadArg, hmac))"

section \<open>Interrupts\<close>

definition dif_hmac_irq_state_get ::
  "dif_hmac ptr \<Rightarrow> dif_hmac_interrupt \<Rightarrow> dif_hmac_enable ptr \<Rightarrow> (dif_hmac_result \<times> dif_hmac_enable ptr) io" where
  "dif_hmac_irq_state_get hmac irq_type st =
     (case (hmac, st) of
        (Some hmac, Some _) \<Rightarrow>
          (case irq_bit_offset_get irq_type of None \<Rightarrow> ret (kDifHmacError, st)
           | Some offset \<Rightarrow> do {
               enabled \<leftarrow> mmio_region_get_bit32 (hmac_base_addr hmac) HMAC_INTR_STATE_REG_OFFSET offset;
               ret (kDifHmacOk, store st (if enabled then kDifHmacEnable else kDifHmacDisable))
             })
      | _ \<Rightarrow> ret (kDifHmacBadArg, st))"

definition dif_hmac_irq_state_clear :: "dif_hmac ptr \<Rightarrow> dif_hmac_interrupt \<Rightarrow> dif_hmac_result io" where
  "dif_hmac_irq_state_clear hmac irq_type =
     (case hmac of NULL \<Rightarrow> ret kDifHmacBadArg
      | Some hmac \<Rightarrow>
        (case irq_bit_offset_get irq_type of None \<Rightarrow> ret kDifHmacError
         | Some offset \<Rightarrow> do {
             _ \<leftarrow> mmio_region_write_only_set_bit32 (hmac_base_addr hmac) HMAC_INTR_STATE_REG_OFFSET offset;
             ret kDifHmacOk
           }))"

definition dif_hmac_irqs_disable :: "dif_hmac ptr \<Rightarrow> u32 ptr \<Rightarrow> (dif_hmac_result \<times> u32 ptr) io" where
  "dif_hmac_irqs_disable hmac st =
     (case hmac of NULL \<Rightarrow> ret (kDifHmacBadArg, st)
      | Some hmac \<Rightarrow> do {
          st \<leftarrow> (if st \<noteq> NULL then do {
              v \<leftarrow> mmio_region_read32 (hmac_base_addr hmac) HMAC_INTR_ENABLE_REG_OFFSET;
              ret (store st v)
            } else ret st);
          _ \<leftarrow> mmio_region_write32 (hmac_base_addr hmac) HMAC_INTR_ENABLE_REG_OFFSET 0;
          ret (kDifHmacOk, st)
        })"

definition dif_hmac_irqs_restore :: "dif_hmac ptr \<Rightarrow> u32 \<Rightarrow> dif_hmac_result io" where
  "dif_hmac_irqs_restore hmac st =
     (case hmac of NULL \<Rightarrow> ret kDifHmacBadArg
      | Some hmac \<Rightarrow> do {
          _ \<leftarrow> mmio_region_write32 (hmac_base_addr hmac) HMAC_INTR_ENABLE_REG_OFFSET st;
          ret kDifHmacOk
        })"

definition dif_hmac_irq_control :: "dif_hmac ptr \<Rightarrow> dif_hmac_interrupt \<Rightarrow> dif_hmac_enable \<Rightarrow> dif_hmac_result io" where
  "dif_hmac_irq_control hmac irq_type enable =
     (case hmac of NULL \<Rightarrow> ret kDifHmacBadArg
      | Some hmac \<Rightarrow>
        (case irq_bit_offset_get irq_type of None \<Rightarrow> ret kDifHmacError
         | Some offset \<Rightarrow> do {
             _ \<leftarrow> (if enable = kDifHmacEnable
                then mmio_region_nonatomic_set_bit32 (hmac_base_addr hmac) HMAC_INTR_ENABLE_REG_OFFSET offset
                else mmio_region_nonatomic_clear_bit32 (hmac_base_addr hmac) HMAC_INTR_ENABLE_REG_OFFSET offset);
             ret kDifHmacOk
           }))"

definition dif_hmac_irq_force :: "dif_hmac ptr \<Rightarrow> dif_hmac_interrupt \<Rightarrow> dif_hmac_result io" where
  "dif_hmac_irq_force hmac irq_type =
     (case hmac of NULL \<Rightarrow> ret kDifHmacBadArg
      | Some hmac \<Rightarrow>
        (case irq_bit_offset_get irq_type of None \<Rightarrow> ret kDifHmacError
         | Some offset \<Rightarrow> do {
             _ \<leftarrow> mmio_region_nonatomic_set_bit32 (hmac_base_addr hmac) HMAC_INTR_TEST_REG_OFFSET offset;
             ret kDifHmacOk
           }))"

section \<open>Hashing\<close>

definition dif_hmac_mode_hmac_start :: "dif_hmac ptr \<Rightarrow> u8 list ptr \<Rightarrow> dif_hmac_result io" where
  "dif_hmac_mode_hmac_start hmac key =
     (case (hmac, key) of
        (Some hmac, Some key) \<Rightarrow> do {
          _ \<leftarrow> mmio_region_nonatomic_clear_bit32 (hmac_base_addr hmac) HMAC_CFG_REG_OFFSET HMAC_CFG_SHA_EN_BIT;
          _ \<leftarrow> mmio_region_memcpy_to_mmio32 (hmac_base_addr hmac) HMAC_KEY_0_REG_OFFSET key (HMAC_PARAM_NUMWORDS * 4);
          _ \<leftarrow> mmio_region_nonatomic_set_mask32 (hmac_base_addr hmac) HMAC_CFG_REG_OFFSET
            (push_bit (unat HMAC_CFG_SHA_EN_BIT) 1 OR push_bit (unat HMAC_CFG_HMAC_EN_BIT) 1) 0;
          _ \<leftarrow> mmio_region_nonatomic_set_bit32 (hmac_base_addr hmac) HMAC_CMD_REG_OFFSET HMAC_CMD_HASH_START_BIT;
          ret kDifHmacOk
        }
      | _ \<Rightarrow> ret kDifHmacBadArg)"

definition dif_hmac_mode_sha256_start :: "dif_hmac ptr \<Rightarrow> dif_hmac_result io" where
  "dif_hmac_mode_sha256_start hmac =
     (case hmac of NULL \<Rightarrow> ret kDifHmacBadArg
      | Some hmac \<Rightarrow> do {
          _ \<leftarrow> mmio_region_nonatomic_clear_bit32 (hmac_base_addr hmac) HMAC_CFG_REG_OFFSET HMAC_CFG_SHA_EN_BIT;
          _ \<leftarrow> mmio_region_nonatomic_clear_bit32 (hmac_base_addr hmac) HMAC_CFG_REG_OFFSET HMAC_CFG_HMAC_EN_BIT;
          _ \<leftarrow> mmio_region_nonatomic_set_bit32 (hmac_base_addr hmac) HMAC_CFG_REG_OFFSET HMAC_CFG_SHA_EN_BIT;
          _ \<leftarrow> mmio_region_nonatomic_set_bit32 (hmac_base_addr hmac) HMAC_CMD_REG_OFFSET HMAC_CMD_HASH_START_BIT;
          ret kDifHmacOk
        })"

text \<open>
  The data are given by their address, on whose alignment the width of the writes depends, and their bytes;
  the result is the number of bytes that remain.
\<close>

function hmac_push_loop :: "dif_hmac \<Rightarrow> u32 \<Rightarrow> u8 list \<Rightarrow> nat \<Rightarrow> nat io" where
  "hmac_push_loop hmac data_sent data bytes_remaining =
     (if bytes_remaining > 0 then do {
        space \<leftarrow> get_fifo_available_space hmac;
        if space > 0 then
          (let word_aligned = (data_sent mod 4 = 0) in
           if bytes_remaining < 4 \<or> \<not> word_aligned then do {
             _ \<leftarrow> mmio_region_write8 (hmac_base_addr hmac) HMAC_MSG_FIFO_REG_OFFSET (data ! 0);
             hmac_push_loop hmac (data_sent + 1) (drop 1 data) (bytes_remaining - 1)
           } else do {
             _ \<leftarrow> mmio_region_write32 (hmac_base_addr hmac) HMAC_MSG_FIFO_REG_OFFSET (bytes_word (take 4 data));
             hmac_push_loop hmac (data_sent + 4) (drop 4 data) (bytes_remaining - 4)
           })
        else ret bytes_remaining
      } else ret bytes_remaining)"
  by pat_completeness auto
termination by (relation "measure (\<lambda>(hmac, a, data, n). n)") auto

declare hmac_push_loop.simps [simp del]

definition dif_hmac_fifo_push ::
  "dif_hmac ptr \<Rightarrow> (u32 \<times> u8 list) ptr \<Rightarrow> nat \<Rightarrow> nat ptr \<Rightarrow> (dif_hmac_fifo_result \<times> nat ptr) io" where
  "dif_hmac_fifo_push hmac data len bytes_sent =
     (case (hmac, data) of
        (Some hmac, Some (addr, bytes)) \<Rightarrow> do {
          bytes_remaining \<leftarrow> hmac_push_loop hmac addr bytes len;
          let bytes_sent = store bytes_sent (len - bytes_remaining);
          ret (if bytes_remaining > 0 then kDifHmacFifoFull else kDifHmacFifoOk, bytes_sent)
        }
      | _ \<Rightarrow> ret (kDifHmacFifoBadArg, bytes_sent))"

definition dif_hmac_fifo_count_entries :: "dif_hmac ptr \<Rightarrow> u32 ptr \<Rightarrow> (dif_hmac_result \<times> u32 ptr) io" where
  "dif_hmac_fifo_count_entries hmac num_entries =
     (case (hmac, num_entries) of
        (Some hmac, Some _) \<Rightarrow> do {
          n \<leftarrow> get_fifo_entry_count hmac;
          ret (kDifHmacOk, store num_entries n)
        }
      | _ \<Rightarrow> ret (kDifHmacBadArg, num_entries))"

definition dif_hmac_get_message_length :: "dif_hmac ptr \<Rightarrow> u64 ptr \<Rightarrow> (dif_hmac_result \<times> u64 ptr) io" where
  "dif_hmac_get_message_length hmac msg_len =
     (case (hmac, msg_len) of
        (Some hmac, Some _) \<Rightarrow> do {
          msg_lower \<leftarrow> mmio_region_read32 (hmac_base_addr hmac) HMAC_MSG_LENGTH_LOWER_REG_OFFSET;
          msg_upper \<leftarrow> mmio_region_read32 (hmac_base_addr hmac) HMAC_MSG_LENGTH_UPPER_REG_OFFSET;
          ret (kDifHmacOk, store msg_len (push_bit 32 (ucast msg_upper) OR ucast msg_lower))
        }
      | _ \<Rightarrow> ret (kDifHmacBadArg, msg_len))"

definition dif_hmac_process :: "dif_hmac ptr \<Rightarrow> dif_hmac_result io" where
  "dif_hmac_process hmac =
     (case hmac of NULL \<Rightarrow> ret kDifHmacBadArg
      | Some hmac \<Rightarrow> do {
          _ \<leftarrow> mmio_region_nonatomic_set_bit32 (hmac_base_addr hmac) HMAC_CMD_REG_OFFSET HMAC_CMD_HASH_PROCESS_BIT;
          ret kDifHmacOk
        })"

definition dif_hmac_digest_read :: "dif_hmac ptr \<Rightarrow> u8 list ptr \<Rightarrow> (dif_hmac_digest_result \<times> u8 list ptr) io" where
  "dif_hmac_digest_read hmac digest =
     (case (hmac, digest) of
        (Some hmac, Some d) \<Rightarrow> do {
          done \<leftarrow> mmio_region_get_bit32 (hmac_base_addr hmac) HMAC_INTR_STATE_REG_OFFSET HMAC_INTR_STATE_HMAC_DONE_BIT;
          if done then do {
            _ \<leftarrow> mmio_region_nonatomic_set_bit32 (hmac_base_addr hmac) HMAC_INTR_STATE_REG_OFFSET
              HMAC_INTR_STATE_HMAC_DONE_BIT;
            d \<leftarrow> mmio_region_memcpy_from_mmio32 (hmac_base_addr hmac) HMAC_DIGEST_0_REG_OFFSET d (HMAC_PARAM_NUMWORDS * 4);
            ret (kDifHmacDigestOk, store digest d)
          } else ret (kDifHmacDigestProcessing, digest)
        }
      | _ \<Rightarrow> ret (kDifHmacDigestBadArg, digest))"

definition dif_hmac_wipe_secret :: "dif_hmac ptr \<Rightarrow> u32 \<Rightarrow> dif_hmac_result io" where
  "dif_hmac_wipe_secret hmac entropy =
     (case hmac of NULL \<Rightarrow> ret kDifHmacBadArg
      | Some hmac \<Rightarrow> do {
          _ \<leftarrow> mmio_region_write32 (hmac_base_addr hmac) HMAC_WIPE_SECRET_REG_OFFSET entropy;
          ret kDifHmacOk
        })"

section \<open>The interrupt block\<close>

lemma hmac_irq_bit: "irq_bit_offset_get i = Some n \<Longrightarrow> unat n < 3"
  by (cases i) auto

lemma hmac_irq_inject: "irq_bit_offset_get i = Some m \<Longrightarrow> irq_bit_offset_get j = Some n \<Longrightarrow> unat m = unat n \<Longrightarrow> i = j"
  by (cases i; cases j) auto


interpretation hmac_irqs: irq_block "\<lambda>irq. map_option unat (irq_bit_offset_get irq)"
    "mmio_addr32 (hmac_base_addr hmac) HMAC_INTR_ENABLE_REG_OFFSET"
    "\<lambda>i b w. snd (run_state (dif_hmac_irq_control (Some hmac) i (if b then kDifHmacEnable else kDifHmacDisable)) w)"
    "\<lambda>i w. bit (the (snd (fst (run_state (dif_hmac_irqs_disable (Some hmac) (Some 0)) w))))
       (unat (the (irq_bit_offset_get i)))"
    "\<lambda>w. case run_state (dif_hmac_irqs_disable (Some hmac) (Some 0)) w of ((_, s), w') \<Rightarrow> (the s, w')"
    "\<lambda>s w. snd (run_state (dif_hmac_irqs_restore (Some hmac) s) w)"
  for hmac
  by unfold_locales
    (auto simp: dif_hmac_irq_control_def dif_hmac_irqs_disable_def dif_hmac_irqs_restore_def io_simps
      dest: hmac_irq_inject hmac_irq_bit)

section \<open>Pushing a message\<close>

text \<open>The depth field has five bits, so the space computed from the size of the window never runs out.\<close>

lemma fifo_space_positive:
  "0 < HMAC_MSG_FIFO_SIZE_WORDS - bitfield_field32_read status HMAC_STATUS_FIFO_DEPTH_FIELD"
proof -
  have "bitfield_field32_read status HMAC_STATUS_FIFO_DEPTH_FIELD \<le> 0x1f"
    by (simp add: bitfield_field32_read_def word_and_le1)
  then have "bitfield_field32_read status HMAC_STATUS_FIFO_DEPTH_FIELD \<noteq> 512" by auto
  then show ?thesis by (simp add: word_greater_zero_iff)
qed

lemma run_get_space:
  "run_state (get_fifo_available_space hmac) w =
    (HMAC_MSG_FIFO_SIZE_WORDS - bitfield_field32_read (cur32 w (mmio_addr32 (hmac_base_addr hmac) HMAC_STATUS_REG_OFFSET)) HMAC_STATUS_FIFO_DEPTH_FIELD,
     w\<lparr>trace := Rd32 (mmio_addr32 (hmac_base_addr hmac) HMAC_STATUS_REG_OFFSET)
        (cur32 w (mmio_addr32 (hmac_base_addr hmac) HMAC_STATUS_REG_OFFSET)) # trace w\<rparr>)"
  by (simp add: get_fifo_available_space_def get_fifo_entry_count_def get_status_def io_simps)

lemma hmac_offsets:
  "mmio_addr32 b HMAC_MSG_FIFO_REG_OFFSET = mmio_base b + HMAC_MSG_FIFO_REG_OFFSET"
  "mmio_addr32 b HMAC_STATUS_REG_OFFSET = mmio_base b + HMAC_STATUS_REG_OFFSET"
  by (rule mmio_addr32_aligned [where k = "0x200"], simp) (rule mmio_addr32_aligned [where k = 5], simp)

lemma hmac_push_loop_sends:
  "n \<le> length data \<Longrightarrow> \<exists>w'. run_state (hmac_push_loop hmac a data n) w = (0, w')
    \<and> hmac_message (mmio_base (hmac_base_addr hmac)) (trace w')
      = hmac_message (mmio_base (hmac_base_addr hmac)) (trace w) @ take n data
    \<and> hmac_phase_of (mmio_base (hmac_base_addr hmac)) (trace w') = hmac_phase_of (mmio_base (hmac_base_addr hmac)) (trace w)"
proof (induction hmac a data n arbitrary: w rule: hmac_push_loop.induct)
  case (1 hmac a data n)
  let ?b = "mmio_base (hmac_base_addr hmac)"
  let ?v = "cur32 w (mmio_addr32 (hmac_base_addr hmac) HMAC_STATUS_REG_OFFSET)"
  let ?w1 = "w\<lparr>trace := Rd32 (mmio_addr32 (hmac_base_addr hmac) HMAC_STATUS_REG_OFFSET) ?v # trace w\<rparr>"
  note space = fifo_space_positive [of ?v]
  consider "n = 0" | "n > 0" "n < 4 \<or> a mod 4 \<noteq> 0" | "n > 0" "\<not> (n < 4 \<or> a mod 4 \<noteq> 0)"
    by (cases "n = 0"; cases "n < 4 \<or> a mod 4 \<noteq> 0") simp_all
  then show ?case
  proof cases
    case 1
    then show ?thesis by (subst hmac_push_loop.simps) simp
  next
    case 2
    let ?w2 = "?w1\<lparr>trace := Wr8 (?b + HMAC_MSG_FIFO_REG_OFFSET) (data ! 0) # trace ?w1\<rparr>"
    have "take n data = data ! 0 # take (n - 1) (drop 1 data)"
      using 2(1) "1.prems" by (cases data; cases n) simp_all
    moreover have "run_state (hmac_push_loop hmac a data n) w = run_state (hmac_push_loop hmac (a + 1) (drop 1 data) (n - 1)) ?w2"
      using 2 space
      by (subst hmac_push_loop.simps) (simp add: run_get_space mmio_region_write8_def run_bus_write8 Let_def)
    ultimately show ?thesis
      using "1.IH"(1) [OF 2(1) space refl _, of "?w2"] 2(2) "1.prems" by (auto simp: hmac_offsets)
  next
    case 3
    let ?w2 = "?w1\<lparr>trace := Wr32 (?b + HMAC_MSG_FIFO_REG_OFFSET) (bytes_word (take 4 data)) # trace ?w1\<rparr>"
    have "length (take 4 data) = 4" using 3 "1.prems" by simp
    moreover have "take n data = take 4 data @ take (n - 4) (drop 4 data)"
      using 3 by (simp add: take_add [symmetric])
    moreover have "run_state (hmac_push_loop hmac a data n) w = run_state (hmac_push_loop hmac (a + 4) (drop 4 data) (n - 4)) ?w2"
      using 3 space
      by (subst hmac_push_loop.simps) (simp add: run_get_space io_simps hmac_offsets Let_def)
    ultimately show ?thesis
      using "1.IH"(2) [OF 3(1) space refl _, of "?w2"] 3(2) "1.prems" by (auto simp: hmac_offsets)
  qed
qed

text \<open>
  C36. \<open>dif_hmac_fifo_push\<close> pushes the whole message, in order, whatever the device says of its FIFO: it never
  returns \<open>kDifHmacFifoFull\<close>, the retryable error its header documents, because the space is
  computed from the 512 words of the register window and not from the depth of the FIFO.
\<close>

theorem dif_hmac_fifo_push_never_full:
  assumes "len \<le> length bytes"
  shows "\<exists>w'. run_state (dif_hmac_fifo_push (Some hmac) (Some (addr, bytes)) len (Some 0)) w = ((kDifHmacFifoOk, Some len), w')
    \<and> hmac_message (mmio_base (hmac_base_addr hmac)) (trace w')
      = hmac_message (mmio_base (hmac_base_addr hmac)) (trace w) @ take len bytes"
  using hmac_push_loop_sends [OF assms, of hmac addr w] by (auto simp: dif_hmac_fifo_push_def)

text \<open>A device whose FIFO is full and stays so (31 entries), and a message of six bytes at an odd address.\<close>

theorem dif_hmac_fifo_push_never_full_witness:
  "\<exists>w'. run_state (dif_hmac_fifo_push (Some \<lparr>hmac_base_addr = \<lparr>mmio_base = 0x41110000\<rparr>\<rparr>)
      (Some (0x1001, [1, 2, 3, 4, 5, 6])) 6 (Some 0)) \<lparr>dev32 = \<lambda>_ _. 0x1f0, dev8 = \<lambda>_ _. 0, trace = []\<rparr>
      = ((kDifHmacFifoOk, Some 6), w')
    \<and> hmac_message 0x41110000 (trace w') = [1, 2, 3, 4, 5, 6]"
  using dif_hmac_fifo_push_never_full [of 6 "[1, 2, 3, 4, 5, 6]" "\<lparr>hmac_base_addr = \<lparr>mmio_base = 0x41110000\<rparr>\<rparr>" "0x1001"
      "\<lparr>dev32 = \<lambda>_ _. 0x1f0, dev8 = \<lambda>_ _. 0, trace = []\<rparr>"] by simp


end
