(* ===== verification/SwitchBank.thy ===== *)
theory SwitchBank
  imports Mmio
begin

text \<open>
  The contract of a register of switches, one bit each, that a driver sets one at a time: clock gates,
  clock hints and peripheral resets are interpretations, each in the theory of its driver.
\<close>

unbundle bit_operations_syntax

text \<open>Settings of an operation one after the other, whatever it answers.\<close>

definition switch_all :: "(u32 \<Rightarrow> bool \<Rightarrow> ('s, 'r) state) \<Rightarrow> (u32 \<times> bool) list \<Rightarrow> ('s, unit) state" where
  "switch_all switch ops = for_each ops (\<lambda>(i, b). do { _ \<leftarrow> switch i b; ret () })"

locale switch_bank =
  fixes inv :: "'s \<Rightarrow> bool"
    and view :: "'s \<Rightarrow> nat \<Rightarrow> bool"
    and valid :: "u32 \<Rightarrow> bool"
    and switch :: "u32 \<Rightarrow> bool \<Rightarrow> ('s, 'r) state"
    and ok :: 'r
  assumes switch_valid: "inv s \<Longrightarrow> valid i \<Longrightarrow>
      \<exists>s'. run_state (switch i b) s = (ok, s') \<and> inv s' \<and> (\<forall>j<32. view s' j = (if j = unat i then b else view s j))"
    and switch_invalid: "inv s \<Longrightarrow> \<not> valid i \<Longrightarrow> 
      \<exists>r s'. run_state (switch i b) s = (r, s') \<and> r \<noteq> ok \<and> inv s' \<and> (\<forall>j<32. view s' j = view s j)"
begin

lemma switch_view:
  assumes "inv s"
  shows "\<exists>r s'. run_state (switch i b) s = (r, s') \<and> inv s' \<and> (r = ok \<longleftrightarrow> valid i)
    \<and> (\<forall>j<32. view s' j = (if valid i \<and> j = unat i then b else view s j))"
  using switch_valid [OF assms, of i b] switch_invalid [OF assms, of i b] assms by (cases "valid i") fastforce+

text \<open>After any sequence of settings each switch is as it was last set, those out of range left alone.\<close>

lemma switch_all_view:
  "inv s \<Longrightarrow> \<exists>s'. run_state (switch_all switch ops) s = ((), s') \<and> inv s'
    \<and> (\<forall>j<32. view s' j = fold (\<lambda>(i, b) v. if valid i \<and> j = unat i then b else v) ops (view s j))"
proof (induction ops arbitrary: s)
  case Nil then show ?case by (simp add: switch_all_def)
next
  case (Cons op ops)
  obtain i b where op: "op = (i, b)" by (cases op)
  obtain r s1 where s1: "run_state (switch i b) s = (r, s1)" "inv s1"
    "\<And>j. j < 32 \<Longrightarrow> view s1 j = (if valid i \<and> j = unat i then b else view s j)"
    using switch_view [OF Cons.prems, of i b] by blast
  show ?case using Cons.IH [OF s1(2)] s1 by (auto simp: switch_all_def op)
qed

end

end
