(* ===== verification/DifClkmgr.thy ===== *)
theory DifClkmgr
  imports SwitchBank
begin

text \<open>
  The clock manager driver (\<open>sw/device/lib/dif/dif_clkmgr.c\<close>): clock gates and clock hints, one bit each.
  Register offsets are those of \<open>hw/top_earlgrey/ip/clkmgr\<close>. Both registers are interpretations
  of \<open>switch_bank\<close>.
\<close>

unbundle bit_operations_syntax

section \<open>Types\<close>

abbreviation CLKMGR_CLK_ENABLES_REG_OFFSET :: u32 where "CLKMGR_CLK_ENABLES_REG_OFFSET \<equiv> 0x4"
abbreviation CLKMGR_CLK_HINTS_REG_OFFSET :: u32 where "CLKMGR_CLK_HINTS_REG_OFFSET \<equiv> 0x8"
abbreviation CLKMGR_CLK_HINTS_STATUS_REG_OFFSET :: u32 where "CLKMGR_CLK_HINTS_STATUS_REG_OFFSET \<equiv> 0xc"
abbreviation CLKMGR_PARAM_REG_WIDTH :: u32 where "CLKMGR_PARAM_REG_WIDTH \<equiv> 32"

type_synonym dif_clkmgr_gateable_clock = u32
type_synonym dif_clkmgr_hintable_clock = u32

datatype dif_clkmgr_toggle = kDifClkmgrToggleEnabled | kDifClkmgrToggleDisabled | dif_clkmgr_toggle_other nat

record dif_clkmgr_params =
  clkmgr_base_addr :: mmio_region
  last_gateable_clock :: dif_clkmgr_gateable_clock
  last_hintable_clock :: dif_clkmgr_hintable_clock

record dif_clkmgr =
  clkmgr_params :: dif_clkmgr_params

datatype dif_clkmgr_result = kDifClkmgrOk | kDifClkmgrError | kDifClkmgrBadArg

section \<open>Operations\<close>

definition clkmgr_valid_gateable_clock :: "dif_clkmgr_params \<Rightarrow> dif_clkmgr_gateable_clock \<Rightarrow> bool" where
  "clkmgr_valid_gateable_clock p clock \<longleftrightarrow>
     clock \<le> last_gateable_clock p \<and> last_gateable_clock p < CLKMGR_PARAM_REG_WIDTH"

definition clkmgr_valid_hintable_clock :: "dif_clkmgr_params \<Rightarrow> dif_clkmgr_hintable_clock \<Rightarrow> bool" where
  "clkmgr_valid_hintable_clock p clock \<longleftrightarrow>
     clock \<le> last_hintable_clock p \<and> last_hintable_clock p < CLKMGR_PARAM_REG_WIDTH"

definition dif_clkmgr_init :: "dif_clkmgr_params \<Rightarrow> dif_clkmgr ptr \<Rightarrow> dif_clkmgr_result \<times> dif_clkmgr ptr" where
  "dif_clkmgr_init p handle =
     (case handle of NULL \<Rightarrow> (kDifClkmgrBadArg, handle)
      | Some h \<Rightarrow>
        if last_gateable_clock p \<ge> CLKMGR_PARAM_REG_WIDTH \<or> last_hintable_clock p \<ge> CLKMGR_PARAM_REG_WIDTH
        then (kDifClkmgrBadArg, handle)
        else (kDifClkmgrOk, Some (h\<lparr>clkmgr_params := p\<rparr>)))"

definition dif_clkmgr_gateable_clock_get_enabled ::
  "dif_clkmgr ptr \<Rightarrow> dif_clkmgr_gateable_clock \<Rightarrow> bool ptr \<Rightarrow> (dif_clkmgr_result \<times> bool ptr) io" where
  "dif_clkmgr_gateable_clock_get_enabled handle clock is_enabled =
     (case (handle, is_enabled) of
        (Some h, Some _) \<Rightarrow>
          if \<not> clkmgr_valid_gateable_clock (clkmgr_params h) clock then ret (kDifClkmgrBadArg, is_enabled)
          else do {
            clk_enables_val \<leftarrow> mmio_region_read32 (clkmgr_base_addr (clkmgr_params h)) CLKMGR_CLK_ENABLES_REG_OFFSET;
            ret (kDifClkmgrOk, store is_enabled (bitfield_bit32_read clk_enables_val clock))
          }
      | _ \<Rightarrow> ret (kDifClkmgrBadArg, is_enabled))"

text \<open>The switch over the new state; a value beyond the enumerators is refused.\<close>

fun clkmgr_toggle_bit :: "dif_clkmgr_toggle \<Rightarrow> bool option" where
  "clkmgr_toggle_bit kDifClkmgrToggleEnabled = Some True"
| "clkmgr_toggle_bit kDifClkmgrToggleDisabled = Some False"
| "clkmgr_toggle_bit (dif_clkmgr_toggle_other _) = None"

definition dif_clkmgr_gateable_clock_set_enabled ::
  "dif_clkmgr ptr \<Rightarrow> dif_clkmgr_gateable_clock \<Rightarrow> dif_clkmgr_toggle \<Rightarrow> dif_clkmgr_result io" where
  "dif_clkmgr_gateable_clock_set_enabled handle clock new_state =
     (case handle of NULL \<Rightarrow> ret kDifClkmgrBadArg
      | Some h \<Rightarrow>
        if \<not> clkmgr_valid_gateable_clock (clkmgr_params h) clock then ret kDifClkmgrBadArg
        else
          (case clkmgr_toggle_bit new_state of None \<Rightarrow> ret kDifClkmgrBadArg
           | Some new_clk_enables_bit \<Rightarrow> do {
               v \<leftarrow> mmio_region_read32 (clkmgr_base_addr (clkmgr_params h)) CLKMGR_CLK_ENABLES_REG_OFFSET;
               let v = bitfield_bit32_write v clock new_clk_enables_bit;
               _ \<leftarrow> mmio_region_write32 (clkmgr_base_addr (clkmgr_params h)) CLKMGR_CLK_ENABLES_REG_OFFSET v;
               ret kDifClkmgrOk
             }))"

definition dif_clkmgr_hintable_clock_get_enabled ::
  "dif_clkmgr ptr \<Rightarrow> dif_clkmgr_hintable_clock \<Rightarrow> bool ptr \<Rightarrow> (dif_clkmgr_result \<times> bool ptr) io" where
  "dif_clkmgr_hintable_clock_get_enabled handle clock is_enabled =
     (case (handle, is_enabled) of
        (Some h, Some _) \<Rightarrow>
          if \<not> clkmgr_valid_hintable_clock (clkmgr_params h) clock then ret (kDifClkmgrBadArg, is_enabled)
          else do {
            clk_hints_val \<leftarrow> mmio_region_read32 (clkmgr_base_addr (clkmgr_params h)) CLKMGR_CLK_HINTS_STATUS_REG_OFFSET;
            ret (kDifClkmgrOk, store is_enabled (bitfield_bit32_read clk_hints_val clock))
          }
      | _ \<Rightarrow> ret (kDifClkmgrBadArg, is_enabled))"

definition dif_clkmgr_hintable_clock_set_hint ::
  "dif_clkmgr ptr \<Rightarrow> dif_clkmgr_hintable_clock \<Rightarrow> dif_clkmgr_toggle \<Rightarrow> dif_clkmgr_result io" where
  "dif_clkmgr_hintable_clock_set_hint handle clock new_state =
     (case handle of NULL \<Rightarrow> ret kDifClkmgrBadArg
      | Some h \<Rightarrow>
        if \<not> clkmgr_valid_hintable_clock (clkmgr_params h) clock then ret kDifClkmgrBadArg
        else
          (case clkmgr_toggle_bit new_state of None \<Rightarrow> ret kDifClkmgrBadArg
           | Some new_clk_hints_bit \<Rightarrow> do {
               v \<leftarrow> mmio_region_read32 (clkmgr_base_addr (clkmgr_params h)) CLKMGR_CLK_HINTS_REG_OFFSET;
               let v = bitfield_bit32_write v clock new_clk_hints_bit;
               _ \<leftarrow> mmio_region_write32 (clkmgr_base_addr (clkmgr_params h)) CLKMGR_CLK_HINTS_REG_OFFSET v;
               ret kDifClkmgrOk
             }))"

definition dif_clkmgr_hintable_clock_get_hint ::
  "dif_clkmgr ptr \<Rightarrow> dif_clkmgr_hintable_clock \<Rightarrow> bool ptr \<Rightarrow> (dif_clkmgr_result \<times> bool ptr) io" where
  "dif_clkmgr_hintable_clock_get_hint handle clock hinted_is_enabled =
     (case (handle, hinted_is_enabled) of
        (Some h, Some _) \<Rightarrow>
          if \<not> clkmgr_valid_hintable_clock (clkmgr_params h) clock then ret (kDifClkmgrBadArg, hinted_is_enabled)
          else do {
            clk_hints_val \<leftarrow> mmio_region_read32 (clkmgr_base_addr (clkmgr_params h)) CLKMGR_CLK_HINTS_REG_OFFSET;
            ret (kDifClkmgrOk, store hinted_is_enabled (bitfield_bit32_read clk_hints_val clock))
          }
      | _ \<Rightarrow> ret (kDifClkmgrBadArg, hinted_is_enabled))"

section \<open>Both registers are banks of switches\<close>

definition toggle_of :: "bool \<Rightarrow> dif_clkmgr_toggle" where
  "toggle_of b = (if b then kDifClkmgrToggleEnabled else kDifClkmgrToggleDisabled)"

lemma toggle_bit_of [simp]: "clkmgr_toggle_bit (toggle_of b) = Some b"
  by (simp add: toggle_of_def)

definition clkmgr_bit :: "dif_clkmgr \<Rightarrow> u32 \<Rightarrow> world \<Rightarrow> nat \<Rightarrow> bool" where
  "clkmgr_bit h off w j = bit (cur32 w (mmio_addr32 (clkmgr_base_addr (clkmgr_params h)) off)) j"

interpretation clock_gates: switch_bank "plain init" "clkmgr_bit h CLKMGR_CLK_ENABLES_REG_OFFSET"
    "clkmgr_valid_gateable_clock (clkmgr_params h)"
    "\<lambda>i b. dif_clkmgr_gateable_clock_set_enabled (Some h) i (toggle_of b)" kDifClkmgrOk
  by unfold_locales
    (simp_all add: dif_clkmgr_gateable_clock_set_enabled_def io_simps clkmgr_bit_def bit_bit32_write)

interpretation clock_hints: switch_bank "plain init" "clkmgr_bit h CLKMGR_CLK_HINTS_REG_OFFSET"
    "clkmgr_valid_hintable_clock (clkmgr_params h)"
    "\<lambda>i b. dif_clkmgr_hintable_clock_set_hint (Some h) i (toggle_of b)" kDifClkmgrOk
  by unfold_locales
    (simp_all add: dif_clkmgr_hintable_clock_set_hint_def io_simps clkmgr_bit_def bit_bit32_write)

text \<open>What reading back a gate returns after any sequence of settings.\<close>

lemma clock_gate_readback:
  assumes "plain init w" "clkmgr_valid_gateable_clock (clkmgr_params h) c"
  shows "\<exists>w'. run_state (switch_all (\<lambda>i b. dif_clkmgr_gateable_clock_set_enabled (Some h) i (toggle_of b)) ops) w = ((), w')
    \<and> fst (run_state (dif_clkmgr_gateable_clock_get_enabled (Some h) c (Some u)) w')
      = (kDifClkmgrOk, Some (fold (\<lambda>(i, b) v. if clkmgr_valid_gateable_clock (clkmgr_params h) i \<and> unat c = unat i then b else v)
          ops (clkmgr_bit h CLKMGR_CLK_ENABLES_REG_OFFSET w (unat c))))"
proof -
  have "unat c < 32"
    using assms(2) by (auto simp: clkmgr_valid_gateable_clock_def word_le_nat_alt word_less_nat_alt)
  then show ?thesis
    using clock_gates.switch_all_view [OF assms(1), of h ops] assms(2)
    by (auto simp: dif_clkmgr_gateable_clock_get_enabled_def io_simps clkmgr_bit_def bit32_read_eq_bit)
qed

end
