(* ===== verification/DifRstmgr.thy ===== *)
theory DifRstmgr
  imports SwitchBank
begin

text \<open>
  The reset manager driver (\<open>sw/device/lib/dif/dif_rstmgr.c\<close>): software resets of the peripherals (a
  \<open>switch_bank\<close>) with their locks, the causes of the last reset, and the alert crash dump, read
  segment by segment through an index register. Register offsets are those of
  \<open>hw/top_earlgrey/ip/rstmgr\<close>.
\<close>

unbundle bit_operations_syntax

section \<open>Types\<close>

abbreviation RSTMGR_RESET_INFO_REG_OFFSET :: u32 where "RSTMGR_RESET_INFO_REG_OFFSET \<equiv> 0x0"
abbreviation RSTMGR_ALERT_INFO_CTRL_REG_OFFSET :: u32 where "RSTMGR_ALERT_INFO_CTRL_REG_OFFSET \<equiv> 0x4"
abbreviation RSTMGR_ALERT_INFO_ATTR_REG_OFFSET :: u32 where "RSTMGR_ALERT_INFO_ATTR_REG_OFFSET \<equiv> 0x8"
abbreviation RSTMGR_ALERT_INFO_REG_OFFSET :: u32 where "RSTMGR_ALERT_INFO_REG_OFFSET \<equiv> 0xc"
abbreviation RSTMGR_SW_RST_REGEN_REG_OFFSET :: u32 where "RSTMGR_SW_RST_REGEN_REG_OFFSET \<equiv> 0x1c"
abbreviation RSTMGR_SW_RST_CTRL_N_REG_OFFSET :: u32 where "RSTMGR_SW_RST_CTRL_N_REG_OFFSET \<equiv> 0x20"
abbreviation RSTMGR_PARAM_NUMSWRESETS :: u32 where "RSTMGR_PARAM_NUMSWRESETS \<equiv> 7"
abbreviation RSTMGR_ALERT_INFO_CTRL_EN_BIT :: u32 where "RSTMGR_ALERT_INFO_CTRL_EN_BIT \<equiv> 0"
abbreviation RSTMGR_ALERT_INFO_CTRL_INDEX_FIELD :: bitfield_field32 where
  "RSTMGR_ALERT_INFO_CTRL_INDEX_FIELD \<equiv> \<lparr>field_mask = 0xf, field_index = 4\<rparr>"

definition DIF_RSTMGR_ALERT_INFO_MAX_SIZE :: u32 where "DIF_RSTMGR_ALERT_INFO_MAX_SIZE = 0xf"

datatype dif_rstmgr_toggle = kDifRstmgrToggleEnabled | kDifRstmgrToggleDisabled | dif_rstmgr_toggle_other nat

datatype dif_rstmgr_software_reset_t =
  kDifRstmgrSoftwareReset | kDifRstmgrSoftwareResetHold | kDifRstmgrSoftwareResetRelease
  | dif_rstmgr_software_reset_other nat

type_synonym dif_rstmgr_peripheral = u32

text \<open>The reset causes as bits of the register.\<close>

definition kDifRstmgrResetInfoPor :: u32 where "kDifRstmgrResetInfoPor = 0x1"
definition kDifRstmgrResetInfoLowPowerExit :: u32 where "kDifRstmgrResetInfoLowPowerExit = push_bit 1 0x1"
definition kDifRstmgrResetInfoNdm :: u32 where "kDifRstmgrResetInfoNdm = push_bit 2 0x1"
definition kDifRstmgrResetInfoHwReq :: u32 where "kDifRstmgrResetInfoHwReq = push_bit 3 0x3"

datatype dif_rstmgr_result = kDifRstmgrOk | kDifRstmgrError | kDifRstmgrBadArg

datatype dif_rstmgr_software_reset_result =
  kDifRstmgrSoftwareResetOk | kDifRstmgrSoftwareResetError | kDifRstmgrSoftwareResetBadArg | kDifRstmgrSoftwareResetLocked

record dif_rstmgr_params =
  rstmgr_base_addr :: mmio_region

record dif_rstmgr =
  rstmgr_params :: dif_rstmgr_params

abbreviation rstmgr_base :: "dif_rstmgr \<Rightarrow> mmio_region" where
  "rstmgr_base h \<equiv> rstmgr_base_addr (rstmgr_params h)"

section \<open>Helpers\<close>

definition rstmgr_software_reset_is_locked :: "mmio_region \<Rightarrow> dif_rstmgr_peripheral \<Rightarrow> bool io" where
  "rstmgr_software_reset_is_locked base_addr peripheral = do {
     bitfield \<leftarrow> mmio_region_read32 base_addr RSTMGR_SW_RST_REGEN_REG_OFFSET;
     ret (\<not> bitfield_bit32_read bitfield peripheral)
   }"

definition rstmgr_software_reset_hold :: "mmio_region \<Rightarrow> dif_rstmgr_peripheral \<Rightarrow> bool \<Rightarrow> unit io" where
  "rstmgr_software_reset_hold base_addr peripheral hold = do {
     bitfield \<leftarrow> mmio_region_read32 base_addr RSTMGR_SW_RST_CTRL_N_REG_OFFSET;
     let bitfield = bitfield_bit32_write bitfield peripheral (if hold then False else True);
     mmio_region_write32 base_addr RSTMGR_SW_RST_CTRL_N_REG_OFFSET bitfield
   }"

definition rstmgr_reset_info_clear :: "mmio_region \<Rightarrow> unit io" where
  "rstmgr_reset_info_clear base_addr = mmio_region_write32 base_addr RSTMGR_RESET_INFO_REG_OFFSET 0xffffffff"

section \<open>Operations\<close>

definition dif_rstmgr_init :: "dif_rstmgr_params \<Rightarrow> dif_rstmgr ptr \<Rightarrow> dif_rstmgr_result \<times> dif_rstmgr ptr" where
  "dif_rstmgr_init p handle =
     (case handle of NULL \<Rightarrow> (kDifRstmgrBadArg, handle)
      | Some h \<Rightarrow> (kDifRstmgrOk, Some (h\<lparr>rstmgr_params := p\<rparr>)))"

definition dif_rstmgr_reset :: "dif_rstmgr ptr \<Rightarrow> dif_rstmgr_result io" where
  "dif_rstmgr_reset handle =
     (case handle of NULL \<Rightarrow> ret kDifRstmgrBadArg
      | Some h \<Rightarrow> do {
          _ \<leftarrow> rstmgr_reset_info_clear (rstmgr_base h);
          _ \<leftarrow> mmio_region_write32 (rstmgr_base h) RSTMGR_SW_RST_CTRL_N_REG_OFFSET 0xffffffff;
          ret kDifRstmgrOk
        })"

definition dif_rstmgr_reset_lock :: "dif_rstmgr ptr \<Rightarrow> dif_rstmgr_peripheral \<Rightarrow> dif_rstmgr_result io" where
  "dif_rstmgr_reset_lock handle peripheral =
     (case handle of NULL \<Rightarrow> ret kDifRstmgrBadArg
      | Some h \<Rightarrow>
        if peripheral \<ge> RSTMGR_PARAM_NUMSWRESETS then ret kDifRstmgrBadArg
        else do {
          let bitfield = bitfield_bit32_write 0xffffffff peripheral False;
          _ \<leftarrow> mmio_region_write32 (rstmgr_base h) RSTMGR_SW_RST_REGEN_REG_OFFSET bitfield;
          ret kDifRstmgrOk
        })"

definition dif_rstmgr_reset_is_locked ::
  "dif_rstmgr ptr \<Rightarrow> dif_rstmgr_peripheral \<Rightarrow> bool ptr \<Rightarrow> (dif_rstmgr_result \<times> bool ptr) io" where
  "dif_rstmgr_reset_is_locked handle peripheral is_locked =
     (case (handle, is_locked) of
        (Some h, Some _) \<Rightarrow>
          if peripheral \<ge> RSTMGR_PARAM_NUMSWRESETS then ret (kDifRstmgrBadArg, is_locked)
          else do {
            locked \<leftarrow> rstmgr_software_reset_is_locked (rstmgr_base h) peripheral;
            ret (kDifRstmgrOk, store is_locked locked)
          }
      | _ \<Rightarrow> ret (kDifRstmgrBadArg, is_locked))"

definition dif_rstmgr_reset_info_get :: "dif_rstmgr ptr \<Rightarrow> u32 ptr \<Rightarrow> (dif_rstmgr_result \<times> u32 ptr) io" where
  "dif_rstmgr_reset_info_get handle info =
     (case (handle, info) of
        (Some h, Some _) \<Rightarrow> do {
          v \<leftarrow> mmio_region_read32 (rstmgr_base h) RSTMGR_RESET_INFO_REG_OFFSET;
          ret (kDifRstmgrOk, store info v)
        }
      | _ \<Rightarrow> ret (kDifRstmgrBadArg, info))"

definition dif_rstmgr_reset_info_clear :: "dif_rstmgr ptr \<Rightarrow> dif_rstmgr_result io" where
  "dif_rstmgr_reset_info_clear handle =
     (case handle of NULL \<Rightarrow> ret kDifRstmgrBadArg
      | Some h \<Rightarrow> do {
          _ \<leftarrow> rstmgr_reset_info_clear (rstmgr_base h);
          ret kDifRstmgrOk
        })"

definition dif_rstmgr_alert_info_set_enabled :: "dif_rstmgr ptr \<Rightarrow> dif_rstmgr_toggle \<Rightarrow> dif_rstmgr_result io" where
  "dif_rstmgr_alert_info_set_enabled handle st =
     (case handle of NULL \<Rightarrow> ret kDifRstmgrBadArg
      | Some h \<Rightarrow> do {
          let enabled = (if st = kDifRstmgrToggleEnabled then 0x1 else 0x0);
          _ \<leftarrow> mmio_region_write32 (rstmgr_base h) RSTMGR_ALERT_INFO_CTRL_REG_OFFSET enabled;
          ret kDifRstmgrOk
        })"

definition dif_rstmgr_alert_info_get_enabled ::
  "dif_rstmgr ptr \<Rightarrow> dif_rstmgr_toggle ptr \<Rightarrow> (dif_rstmgr_result \<times> dif_rstmgr_toggle ptr) io" where
  "dif_rstmgr_alert_info_get_enabled handle st =
     (case (handle, st) of
        (Some h, Some _) \<Rightarrow> do {
          reg \<leftarrow> mmio_region_read32 (rstmgr_base h) RSTMGR_ALERT_INFO_CTRL_REG_OFFSET;
          let enabled = bitfield_bit32_read reg RSTMGR_ALERT_INFO_CTRL_EN_BIT;
          ret (kDifRstmgrOk, store st (if enabled then kDifRstmgrToggleEnabled else kDifRstmgrToggleDisabled))
        }
      | _ \<Rightarrow> ret (kDifRstmgrBadArg, st))"

text \<open>\<open>for (int i = 0; i < dump_size_actual; ++i)\<close>, \<open>n\<close> turns of it from \<open>i\<close>; \<open>dump\<close> is the caller's array.\<close>

primrec alert_dump_loop :: "nat \<Rightarrow> dif_rstmgr \<Rightarrow> nat \<Rightarrow> u32 \<Rightarrow> u32 list \<Rightarrow> u32 list io" where
  "alert_dump_loop 0 h i control_reg dump = ret dump"
| "alert_dump_loop (Suc n) h i control_reg dump = do {
     let control_reg = bitfield_field32_write control_reg RSTMGR_ALERT_INFO_CTRL_INDEX_FIELD (of_nat i);
     _ \<leftarrow> mmio_region_write32 (rstmgr_base h) RSTMGR_ALERT_INFO_CTRL_REG_OFFSET control_reg;
     v \<leftarrow> mmio_region_read32 (rstmgr_base h) RSTMGR_ALERT_INFO_REG_OFFSET;
     alert_dump_loop n h (i + 1) control_reg (dump[i := v])
   }"

definition dif_rstmgr_alert_info_dump_read ::
  "dif_rstmgr ptr \<Rightarrow> u32 list ptr \<Rightarrow> u32 \<Rightarrow> u32 ptr \<Rightarrow> (dif_rstmgr_result \<times> u32 list ptr \<times> u32 ptr) io" where
  "dif_rstmgr_alert_info_dump_read handle dump dump_size segments_read =
     (case (handle, dump, segments_read) of
        (Some h, Some d, Some _) \<Rightarrow> do {
          dump_size_actual \<leftarrow> mmio_region_read32 (rstmgr_base h) RSTMGR_ALERT_INFO_ATTR_REG_OFFSET;
          if dump_size < dump_size_actual then ret (kDifRstmgrError, dump, segments_read)
          else do {
            control_reg \<leftarrow> mmio_region_read32 (rstmgr_base h) RSTMGR_ALERT_INFO_CTRL_REG_OFFSET;
            d \<leftarrow> alert_dump_loop (unat dump_size_actual) h 0 control_reg d;
            ret (kDifRstmgrOk, Some d, store segments_read dump_size_actual)
          }
        }
      | _ \<Rightarrow> ret (kDifRstmgrBadArg, dump, segments_read))"

definition dif_rstmgr_software_reset ::
  "dif_rstmgr ptr \<Rightarrow> dif_rstmgr_peripheral \<Rightarrow> dif_rstmgr_software_reset_t \<Rightarrow> dif_rstmgr_software_reset_result io" where
  "dif_rstmgr_software_reset handle peripheral reset =
     (case handle of NULL \<Rightarrow> ret kDifRstmgrSoftwareResetBadArg
      | Some h \<Rightarrow>
        if peripheral \<ge> RSTMGR_PARAM_NUMSWRESETS then ret kDifRstmgrSoftwareResetBadArg
        else do {
          locked \<leftarrow> rstmgr_software_reset_is_locked (rstmgr_base h) peripheral;
          if locked then ret kDifRstmgrSoftwareResetLocked
          else
            (case reset of
               kDifRstmgrSoftwareReset \<Rightarrow> do {
                 _ \<leftarrow> rstmgr_software_reset_hold (rstmgr_base h) peripheral True;
                 _ \<leftarrow> rstmgr_software_reset_hold (rstmgr_base h) peripheral False;
                 ret kDifRstmgrSoftwareResetOk
               }
             | kDifRstmgrSoftwareResetHold \<Rightarrow> do {
                 _ \<leftarrow> rstmgr_software_reset_hold (rstmgr_base h) peripheral True;
                 ret kDifRstmgrSoftwareResetOk
               }
             | kDifRstmgrSoftwareResetRelease \<Rightarrow> do {
                 _ \<leftarrow> rstmgr_software_reset_hold (rstmgr_base h) peripheral False;
                 ret kDifRstmgrSoftwareResetOk
               }
             | dif_rstmgr_software_reset_other _ \<Rightarrow> ret kDifRstmgrSoftwareResetError)
        })"

definition dif_rstmgr_software_reset_is_held ::
  "dif_rstmgr ptr \<Rightarrow> dif_rstmgr_peripheral \<Rightarrow> bool ptr \<Rightarrow> (dif_rstmgr_result \<times> bool ptr) io" where
  "dif_rstmgr_software_reset_is_held handle peripheral asserted =
     (case (handle, asserted) of
        (Some h, Some _) \<Rightarrow>
          if peripheral \<ge> RSTMGR_PARAM_NUMSWRESETS then ret (kDifRstmgrBadArg, asserted)
          else do {
            bitfield \<leftarrow> mmio_region_read32 (rstmgr_base h) RSTMGR_SW_RST_CTRL_N_REG_OFFSET;
            ret (kDifRstmgrOk, store asserted (\<not> bitfield_bit32_read bitfield peripheral))
          }
      | _ \<Rightarrow> ret (kDifRstmgrBadArg, asserted))"

section \<open>Resets are a bank of switches\<close>

text \<open>A peripheral is out of reset when its bit is set; one whose software reset is locked is not touched.\<close>

definition released :: "dif_rstmgr \<Rightarrow> world \<Rightarrow> nat \<Rightarrow> bool" where
  "released h w j = bit (cur32 w (mmio_addr32 (rstmgr_base h) RSTMGR_SW_RST_CTRL_N_REG_OFFSET)) j"

definition locks_are :: "(u32 \<Rightarrow> u32) \<Rightarrow> dif_rstmgr \<Rightarrow> u32 \<Rightarrow> world \<Rightarrow> bool" where
  "locks_are init h regen w \<longleftrightarrow> plain init w \<and> cur32 w (mmio_addr32 (rstmgr_base h) RSTMGR_SW_RST_REGEN_REG_OFFSET) = regen"

definition reset_request :: "bool \<Rightarrow> dif_rstmgr_software_reset_t" where
  "reset_request b = (if b then kDifRstmgrSoftwareResetRelease else kDifRstmgrSoftwareResetHold)"

lemma rstmgr_offsets:
  "mmio_addr32 b RSTMGR_SW_RST_REGEN_REG_OFFSET \<noteq> mmio_addr32 b RSTMGR_SW_RST_CTRL_N_REG_OFFSET"
  by (simp add: mmio_addr32_def)

lemma reset_request_run:
  assumes "locks_are init h regen w" "i < RSTMGR_PARAM_NUMSWRESETS"
  shows "\<exists>w'. run_state (dif_rstmgr_software_reset (Some h) i (reset_request b)) w
      = (if bit regen (unat i) then kDifRstmgrSoftwareResetOk else kDifRstmgrSoftwareResetLocked, w')
    \<and> locks_are init h regen w' \<and> (\<forall>j<32. released h w' j = (if bit regen (unat i) \<and> j = unat i then b else released h w j))"
  using assms rstmgr_offsets [of "rstmgr_base h"]
  by (cases b)
    (auto simp: dif_rstmgr_software_reset_def rstmgr_software_reset_is_locked_def rstmgr_software_reset_hold_def
      locks_are_def released_def reset_request_def io_simps bit32_read_eq_bit bit_bit32_write)

interpretation resets: switch_bank "locks_are init h regen" "released h"
    "\<lambda>i. i < RSTMGR_PARAM_NUMSWRESETS \<and> bit regen (unat i)"
    "\<lambda>i b. dif_rstmgr_software_reset (Some h) i (reset_request b)" kDifRstmgrSoftwareResetOk
proof
  fix w i b
  assume w: "locks_are init h regen w"
  show "\<exists>w'. run_state (dif_rstmgr_software_reset (Some h) i (reset_request b)) w = (kDifRstmgrSoftwareResetOk, w')
      \<and> locks_are init h regen w' \<and> (\<forall>j<32. released h w' j = (if j = unat i then b else released h w j))"
    if "i < RSTMGR_PARAM_NUMSWRESETS \<and> bit regen (unat i)"
    using reset_request_run [OF w, of i b] that by fastforce
  show "\<exists>r w'. run_state (dif_rstmgr_software_reset (Some h) i (reset_request b)) w = (r, w')
      \<and> r \<noteq> kDifRstmgrSoftwareResetOk \<and> locks_are init h regen w' \<and> (\<forall>j<32. released h w' j = released h w j)"
    if "\<not> (i < RSTMGR_PARAM_NUMSWRESETS \<and> bit regen (unat i))"
  proof (cases "i < RSTMGR_PARAM_NUMSWRESETS")
    case True
    then show ?thesis using reset_request_run [OF w, of i b] that by fastforce
  next
    case False
    then show ?thesis using w by (simp add: dif_rstmgr_software_reset_def not_less)
  qed
qed

section \<open>The crash dump\<close>

text \<open>
  The hardware's side of the dump, as documented: \<open>ALERT_INFO\<close> shows the segment whose index was last
  written to \<open>ALERT_INFO_CTRL\<close>.
\<close>

definition shows_segments :: "dif_rstmgr \<Rightarrow> (nat \<Rightarrow> u32) \<Rightarrow> world \<Rightarrow> bool" where
  "shows_segments h seg w \<longleftrightarrow> (\<forall>v es. dev32 w (Wr32 (mmio_addr32 (rstmgr_base h) RSTMGR_ALERT_INFO_CTRL_REG_OFFSET) v # es)
      (mmio_addr32 (rstmgr_base h) RSTMGR_ALERT_INFO_REG_OFFSET)
      = seg (unat (bitfield_field32_read v RSTMGR_ALERT_INFO_CTRL_INDEX_FIELD)))"

lemma index_read_write:
  "i < 16 \<Longrightarrow> unat (bitfield_field32_read (bitfield_field32_write r RSTMGR_ALERT_INFO_CTRL_INDEX_FIELD (of_nat i))
      RSTMGR_ALERT_INFO_CTRL_INDEX_FIELD) = i"
proof -
  assume i: "i < 16"
  have "(of_nat i :: u32) AND 0xf = of_nat i"
    using i by (auto simp: less_Suc_eq numeral_eq_Suc)
  moreover have "field_ok RSTMGR_ALERT_INFO_CTRL_INDEX_FIELD" by (simp add: field_ok_def)
  ultimately show ?thesis using i by (simp add: field32_read_write_same unat_of_nat_u32)
qed

lemma alert_dump_loop_run:
  assumes "shows_segments h seg w" "i + n \<le> length d" "i + n \<le> 16"
  shows "\<exists>w'. run_state (alert_dump_loop n h i r d) w = (take i d @ map seg [i..<i + n] @ drop (i + n) d, w')"
  using assms
proof (induction n arbitrary: i r d w)
  case 0 then show ?case by simp
next
  case (Suc n)
  let ?ctrl = "mmio_addr32 (rstmgr_base h) RSTMGR_ALERT_INFO_CTRL_REG_OFFSET"
  let ?info = "mmio_addr32 (rstmgr_base h) RSTMGR_ALERT_INFO_REG_OFFSET"
  let ?r = "bitfield_field32_write r RSTMGR_ALERT_INFO_CTRL_INDEX_FIELD (of_nat i)"
  let ?w = "log (Rd32 ?info (seg i)) (log (Wr32 ?ctrl ?r) w)"
  have "cur32 (log (Wr32 ?ctrl ?r) w) ?info = seg i"
    using Suc.prems index_read_write [of i r] by (simp add: cur32_def shows_segments_def)
  then have step: "run_state (alert_dump_loop (Suc n) h i r d) w = run_state (alert_dump_loop n h (i + 1) ?r (d[i := seg i])) ?w"
    by (simp add: io_simps Let_def)
  have "shows_segments h seg ?w" using Suc.prems(1) by (simp add: shows_segments_def)
  then obtain w' where "run_state (alert_dump_loop n h (i + 1) ?r (d[i := seg i])) ?w
      = (take (i + 1) (d[i := seg i]) @ map seg [i + 1..<i + 1 + n] @ drop (i + 1 + n) (d[i := seg i]), w')"
    using Suc.IH [of ?w "i + 1" "d[i := seg i]" ?r] Suc.prems by auto
  moreover have "take (i + 1) (d[i := seg i]) @ map seg [i + 1..<i + 1 + n] @ drop (i + 1 + n) (d[i := seg i])
      = take i d @ map seg [i..<i + Suc n] @ drop (i + Suc n) d"
    using Suc.prems(2) by (simp add: take_Suc_conv_app_nth upt_conv_Cons del: upt_Suc)
  ultimately show ?case unfolding step by auto
qed

text \<open>A dump that fits the caller's array arrives whole and in order; one that does not is refused.\<close>

lemma dif_rstmgr_alert_info_dump_read_correct:
  assumes "shows_segments h seg w" "cur32 w (mmio_addr32 (rstmgr_base h) RSTMGR_ALERT_INFO_ATTR_REG_OFFSET) = of_nat n"
    and "n \<le> 15" "length d = unat dsize"
  shows "\<exists>w'. run_state (dif_rstmgr_alert_info_dump_read (Some h) (Some d) dsize (Some u)) w
    = (if unat dsize < n then (kDifRstmgrError, Some d, Some u)
       else (kDifRstmgrOk, Some (map seg [0..<n] @ drop n d), Some (of_nat n)), w')"
proof -
  have n: "unat (of_nat n :: u32) = n" using assms(3) by (simp add: unat_of_nat_u32)
  let ?attr = "mmio_addr32 (rstmgr_base h) RSTMGR_ALERT_INFO_ATTR_REG_OFFSET"
  let ?ctrl = "mmio_addr32 (rstmgr_base h) RSTMGR_ALERT_INFO_CTRL_REG_OFFSET"
  let ?w1 = "log (Rd32 ?attr (of_nat n)) w"
  let ?w2 = "log (Rd32 ?ctrl (cur32 ?w1 ?ctrl)) ?w1"
  have "shows_segments h seg ?w2" using assms(1) by (simp add: shows_segments_def)
  from alert_dump_loop_run [OF this, of 0 n d "cur32 ?w1 ?ctrl"]
  show ?thesis using assms n
    by (cases "unat dsize < n")
      (auto simp: dif_rstmgr_alert_info_dump_read_def io_simps word_less_nat_alt)
qed

end
