(* ===== verification/DifPwrmgr.thy ===== *)
theory DifPwrmgr
  imports IrqBlock
begin

text \<open>
  The power manager driver (\<open>sw/device/lib/dif/dif_pwrmgr.c\<close>): low power and clock configuration, wakeup
  and reset requests, recorded wakeup reasons, interrupts. The configuration registers take effect
  when the slow clock domain has been synchronised, which the driver polls for: the three functions that do so
  return an option, \<open>None\<close> when the hardware never finishes. Register offsets are those of
  \<open>hw/top_earlgrey/ip/pwrmgr\<close>.
\<close>

unbundle bit_operations_syntax

section \<open>Types\<close>

abbreviation PWRMGR_INTR_STATE_REG_OFFSET :: u32 where "PWRMGR_INTR_STATE_REG_OFFSET \<equiv> 0x0"
abbreviation PWRMGR_INTR_ENABLE_REG_OFFSET :: u32 where "PWRMGR_INTR_ENABLE_REG_OFFSET \<equiv> 0x4"
abbreviation PWRMGR_INTR_TEST_REG_OFFSET :: u32 where "PWRMGR_INTR_TEST_REG_OFFSET \<equiv> 0x8"
abbreviation PWRMGR_CTRL_CFG_REGWEN_REG_OFFSET :: u32 where "PWRMGR_CTRL_CFG_REGWEN_REG_OFFSET \<equiv> 0xc"
abbreviation PWRMGR_CONTROL_REG_OFFSET :: u32 where "PWRMGR_CONTROL_REG_OFFSET \<equiv> 0x10"
abbreviation PWRMGR_CFG_CDC_SYNC_REG_OFFSET :: u32 where "PWRMGR_CFG_CDC_SYNC_REG_OFFSET \<equiv> 0x14"
abbreviation PWRMGR_WAKEUP_EN_REGWEN_REG_OFFSET :: u32 where "PWRMGR_WAKEUP_EN_REGWEN_REG_OFFSET \<equiv> 0x18"
abbreviation PWRMGR_WAKEUP_EN_REG_OFFSET :: u32 where "PWRMGR_WAKEUP_EN_REG_OFFSET \<equiv> 0x1c"
abbreviation PWRMGR_WAKE_STATUS_REG_OFFSET :: u32 where "PWRMGR_WAKE_STATUS_REG_OFFSET \<equiv> 0x20"
abbreviation PWRMGR_RESET_EN_REGWEN_REG_OFFSET :: u32 where "PWRMGR_RESET_EN_REGWEN_REG_OFFSET \<equiv> 0x24"
abbreviation PWRMGR_RESET_EN_REG_OFFSET :: u32 where "PWRMGR_RESET_EN_REG_OFFSET \<equiv> 0x28"
abbreviation PWRMGR_RESET_STATUS_REG_OFFSET :: u32 where "PWRMGR_RESET_STATUS_REG_OFFSET \<equiv> 0x2c"
abbreviation PWRMGR_WAKE_INFO_CAPTURE_DIS_REG_OFFSET :: u32 where "PWRMGR_WAKE_INFO_CAPTURE_DIS_REG_OFFSET \<equiv> 0x34"
abbreviation PWRMGR_WAKE_INFO_REG_OFFSET :: u32 where "PWRMGR_WAKE_INFO_REG_OFFSET \<equiv> 0x38"
abbreviation PWRMGR_CTRL_CFG_REGWEN_EN_BIT :: u32 where "PWRMGR_CTRL_CFG_REGWEN_EN_BIT \<equiv> 0"
abbreviation PWRMGR_CONTROL_LOW_POWER_HINT_BIT :: u32 where "PWRMGR_CONTROL_LOW_POWER_HINT_BIT \<equiv> 0"
abbreviation PWRMGR_CONTROL_CORE_CLK_EN_BIT :: u32 where "PWRMGR_CONTROL_CORE_CLK_EN_BIT \<equiv> 4"
abbreviation PWRMGR_CFG_CDC_SYNC_SYNC_BIT :: u32 where "PWRMGR_CFG_CDC_SYNC_SYNC_BIT \<equiv> 0"
abbreviation PWRMGR_WAKEUP_EN_REGWEN_EN_BIT :: u32 where "PWRMGR_WAKEUP_EN_REGWEN_EN_BIT \<equiv> 0"
abbreviation PWRMGR_RESET_EN_REGWEN_EN_BIT :: u32 where "PWRMGR_RESET_EN_REGWEN_EN_BIT \<equiv> 0"
abbreviation PWRMGR_WAKE_INFO_CAPTURE_DIS_VAL_BIT :: u32 where "PWRMGR_WAKE_INFO_CAPTURE_DIS_VAL_BIT \<equiv> 0"
abbreviation PWRMGR_WAKE_INFO_FALL_THROUGH_BIT :: u32 where "PWRMGR_WAKE_INFO_FALL_THROUGH_BIT \<equiv> 3"
abbreviation PWRMGR_WAKE_INFO_ABORT_BIT :: u32 where "PWRMGR_WAKE_INFO_ABORT_BIT \<equiv> 4"

datatype dif_pwrmgr_toggle = kDifPwrmgrToggleEnabled | kDifPwrmgrToggleDisabled | dif_pwrmgr_toggle_other nat

datatype dif_pwrmgr_req_type = kDifPwrmgrReqTypeWakeup | kDifPwrmgrReqTypeReset | dif_pwrmgr_req_type_other nat

text \<open>The options of a domain configuration, the sources of requests and the types of wakeup are flags.\<close>

definition kDifPwrmgrDomainOptionCoreClockInLowPower :: u32 where "kDifPwrmgrDomainOptionCoreClockInLowPower = push_bit 0 1"
definition kDifPwrmgrDomainOptionIoClockInLowPower :: u32 where "kDifPwrmgrDomainOptionIoClockInLowPower = push_bit 1 1"
definition kDifPwrmgrDomainOptionUsbClockInLowPower :: u32 where "kDifPwrmgrDomainOptionUsbClockInLowPower = push_bit 2 1"
definition kDifPwrmgrDomainOptionUsbClockInActivePower :: u32 where "kDifPwrmgrDomainOptionUsbClockInActivePower = push_bit 3 1"
definition kDifPwrmgrDomainOptionMainPowerInLowPower :: u32 where "kDifPwrmgrDomainOptionMainPowerInLowPower = push_bit 4 1"

definition kDifPwrmgrWakeupRequestSourceOne :: u32 where "kDifPwrmgrWakeupRequestSourceOne = push_bit 0 1"
definition kDifPwrmgrWakeupRequestSourceTwo :: u32 where "kDifPwrmgrWakeupRequestSourceTwo = push_bit 1 1"
definition kDifPwrmgrResetRequestSourceOne :: u32 where "kDifPwrmgrResetRequestSourceOne = push_bit 0 1"

definition kDifPwrmgrWakeupTypeRequest :: u8 where "kDifPwrmgrWakeupTypeRequest = push_bit 0 1"
definition kDifPwrmgrWakeupTypeFallThrough :: u8 where "kDifPwrmgrWakeupTypeFallThrough = push_bit 1 1"
definition kDifPwrmgrWakeupTypeAbort :: u8 where "kDifPwrmgrWakeupTypeAbort = push_bit 2 1"

record dif_pwrmgr_wakeup_reason =
  wakeup_types :: u8
  wakeup_request_sources :: u32

datatype dif_pwrmgr_result = kDifPwrmgrOk | kDifPwrmgrError | kDifPwrmgrBadArg

datatype dif_pwrmgr_config_result =
  kDifPwrmgrConfigOk | kDifPwrmgrConfigError | kDifPwrmgrConfigBadArg | kDifPwrMgrConfigLocked

datatype dif_pwrmgr_irq = kDifPwrmgrIrqWakeup | dif_pwrmgr_irq_other nat

record dif_pwrmgr_params =
  pwrmgr_base_addr :: mmio_region

record dif_pwrmgr =
  pwrmgr_params :: dif_pwrmgr_params

abbreviation pwrmgr_base :: "dif_pwrmgr \<Rightarrow> mmio_region" where
  "pwrmgr_base p \<equiv> pwrmgr_base_addr (pwrmgr_params p)"

section \<open>Tables\<close>

definition kDomainConfigBitfield :: bitfield_field32 where
  "kDomainConfigBitfield = \<lparr>field_mask =
     kDifPwrmgrDomainOptionCoreClockInLowPower OR kDifPwrmgrDomainOptionIoClockInLowPower
     OR kDifPwrmgrDomainOptionUsbClockInLowPower OR kDifPwrmgrDomainOptionUsbClockInActivePower
     OR kDifPwrmgrDomainOptionMainPowerInLowPower, field_index = PWRMGR_CONTROL_CORE_CLK_EN_BIT\<rparr>"

record request_reg_info =
  write_enable_reg_offset :: u32
  write_enable_bit_index :: u32
  sources_enable_reg_offset :: u32
  cur_req_sources_reg_offset :: u32
  req_bitfield :: bitfield_field32

definition request_reg_infos :: "request_reg_info list" where
  "request_reg_infos =
    [\<lparr>write_enable_reg_offset = PWRMGR_WAKEUP_EN_REGWEN_REG_OFFSET,
      write_enable_bit_index = PWRMGR_WAKEUP_EN_REGWEN_EN_BIT,
      sources_enable_reg_offset = PWRMGR_WAKEUP_EN_REG_OFFSET,
      cur_req_sources_reg_offset = PWRMGR_WAKE_STATUS_REG_OFFSET,
      req_bitfield = \<lparr>field_mask = kDifPwrmgrWakeupRequestSourceOne, field_index = 0\<rparr>\<rparr>,
     \<lparr>write_enable_reg_offset = PWRMGR_RESET_EN_REGWEN_REG_OFFSET,
      write_enable_bit_index = PWRMGR_RESET_EN_REGWEN_EN_BIT,
      sources_enable_reg_offset = PWRMGR_RESET_EN_REG_OFFSET,
      cur_req_sources_reg_offset = PWRMGR_RESET_STATUS_REG_OFFSET,
      req_bitfield = \<lparr>field_mask = kDifPwrmgrResetRequestSourceOne, field_index = 0\<rparr>\<rparr>]"

fun req_type_index :: "dif_pwrmgr_req_type \<Rightarrow> nat" where
  "req_type_index kDifPwrmgrReqTypeWakeup = 0"
| "req_type_index kDifPwrmgrReqTypeReset = 1"
| "req_type_index (dif_pwrmgr_req_type_other n) = 2 + n"

definition reg_info_of :: "dif_pwrmgr_req_type \<Rightarrow> request_reg_info" where
  "reg_info_of req_type = request_reg_infos ! req_type_index req_type"

section \<open>Helpers\<close>

fun pwrmgr_toggle_to_bool :: "dif_pwrmgr_toggle \<Rightarrow> bool option" where
  "pwrmgr_toggle_to_bool kDifPwrmgrToggleEnabled = Some True"
| "pwrmgr_toggle_to_bool kDifPwrmgrToggleDisabled = Some False"
| "pwrmgr_toggle_to_bool (dif_pwrmgr_toggle_other _) = None"

definition pwrmgr_bool_to_toggle :: "bool \<Rightarrow> dif_pwrmgr_toggle" where
  "pwrmgr_bool_to_toggle val = (if val then kDifPwrmgrToggleEnabled else kDifPwrmgrToggleDisabled)"

definition is_valid_req_type :: "dif_pwrmgr_req_type \<Rightarrow> bool" where
  "is_valid_req_type val \<longleftrightarrow> val = kDifPwrmgrReqTypeWakeup \<or> val = kDifPwrmgrReqTypeReset"

definition pwrmgr_is_valid_irq :: "dif_pwrmgr_irq \<Rightarrow> bool" where
  "pwrmgr_is_valid_irq val \<longleftrightarrow> val = kDifPwrmgrIrqWakeup"

fun pwrmgr_irq_bit :: "dif_pwrmgr_irq \<Rightarrow> u32" where
  "pwrmgr_irq_bit kDifPwrmgrIrqWakeup = 0"
| "pwrmgr_irq_bit (dif_pwrmgr_irq_other n) = of_nat (n + 1)"

definition is_valid_for_bitfield :: "u32 \<Rightarrow> bitfield_field32 \<Rightarrow> bool" where
  "is_valid_for_bitfield val f \<longleftrightarrow> val AND field_mask f = val"

definition control_register_is_locked :: "dif_pwrmgr \<Rightarrow> bool io" where
  "control_register_is_locked pwrmgr = do {
     v \<leftarrow> mmio_region_read32 (pwrmgr_base pwrmgr) PWRMGR_CTRL_CFG_REGWEN_REG_OFFSET;
     ret (\<not> bitfield_bit32_read v PWRMGR_CTRL_CFG_REGWEN_EN_BIT)
   }"

text \<open>Starts the synchronisation and waits for it: the condition polled, and the function.\<close>

definition cdc_sync_busy :: "dif_pwrmgr \<Rightarrow> bool io" where
  "cdc_sync_busy pwrmgr = do {
     v \<leftarrow> mmio_region_read32 (pwrmgr_base pwrmgr) PWRMGR_CFG_CDC_SYNC_REG_OFFSET;
     ret (bitfield_bit32_read v PWRMGR_CFG_CDC_SYNC_SYNC_BIT)
   }"

definition sync_slow_clock_domain_polled :: "dif_pwrmgr \<Rightarrow> world \<Rightarrow> world option" where
  "sync_slow_clock_domain_polled pwrmgr w =
     spin_while (cdc_sync_busy pwrmgr)
       (snd (run_state (mmio_region_write32 (pwrmgr_base pwrmgr) PWRMGR_CFG_CDC_SYNC_REG_OFFSET
          (bitfield_bit32_write 0 PWRMGR_CFG_CDC_SYNC_SYNC_BIT True)) w))"

definition request_sources_is_locked :: "dif_pwrmgr \<Rightarrow> dif_pwrmgr_req_type \<Rightarrow> bool io" where
  "request_sources_is_locked pwrmgr req_type = do {
     reg_val \<leftarrow> mmio_region_read32 (pwrmgr_base pwrmgr) (write_enable_reg_offset (reg_info_of req_type));
     ret (\<not> bitfield_bit32_read reg_val (write_enable_bit_index (reg_info_of req_type)))
   }"

section \<open>Configuration\<close>

definition dif_pwrmgr_init :: "dif_pwrmgr_params \<Rightarrow> dif_pwrmgr ptr \<Rightarrow> dif_pwrmgr_result \<times> dif_pwrmgr ptr" where
  "dif_pwrmgr_init params pwrmgr =
     (case pwrmgr of NULL \<Rightarrow> (kDifPwrmgrBadArg, pwrmgr)
      | Some _ \<Rightarrow> (kDifPwrmgrOk, Some \<lparr>pwrmgr_params = params\<rparr>))"

text \<open>
  What the three configuration functions share: nothing when the registers are locked, else an update and
  the synchronisation.
\<close>

definition config_unless_locked ::
  "dif_pwrmgr \<Rightarrow> bool io \<Rightarrow> unit io \<Rightarrow> world \<Rightarrow> (dif_pwrmgr_config_result \<times> world) option" where
  "config_unless_locked pwrmgr locked update w =
     (case run_state locked w of (l, w1) \<Rightarrow>
        if l then Some (kDifPwrMgrConfigLocked, w1)
        else map_option (\<lambda>w2. (kDifPwrmgrConfigOk, w2))
               (sync_slow_clock_domain_polled pwrmgr (snd (run_state update w1))))"

definition dif_pwrmgr_low_power_set_enabled ::
  "dif_pwrmgr ptr \<Rightarrow> dif_pwrmgr_toggle \<Rightarrow> world \<Rightarrow> (dif_pwrmgr_config_result \<times> world) option" where
  "dif_pwrmgr_low_power_set_enabled pwrmgr new_state w =
     (case pwrmgr of NULL \<Rightarrow> Some (kDifPwrmgrConfigBadArg, w)
      | Some p \<Rightarrow>
        (case pwrmgr_toggle_to_bool new_state of None \<Rightarrow> Some (kDifPwrmgrConfigBadArg, w)
         | Some enable \<Rightarrow>
           config_unless_locked p (control_register_is_locked p)
             (do {
                reg_val \<leftarrow> mmio_region_read32 (pwrmgr_base p) PWRMGR_CONTROL_REG_OFFSET;
                let reg_val = bitfield_bit32_write reg_val PWRMGR_CONTROL_LOW_POWER_HINT_BIT enable;
                mmio_region_write32 (pwrmgr_base p) PWRMGR_CONTROL_REG_OFFSET reg_val
              }) w))"

definition dif_pwrmgr_low_power_get_enabled ::
  "dif_pwrmgr ptr \<Rightarrow> dif_pwrmgr_toggle ptr \<Rightarrow> (dif_pwrmgr_result \<times> dif_pwrmgr_toggle ptr) io" where
  "dif_pwrmgr_low_power_get_enabled pwrmgr cur_state =
     (case (pwrmgr, cur_state) of
        (Some p, Some _) \<Rightarrow> do {
          reg_val \<leftarrow> mmio_region_read32 (pwrmgr_base p) PWRMGR_CONTROL_REG_OFFSET;
          ret (kDifPwrmgrOk, store cur_state (pwrmgr_bool_to_toggle (bitfield_bit32_read reg_val PWRMGR_CONTROL_LOW_POWER_HINT_BIT)))
        }
      | _ \<Rightarrow> ret (kDifPwrmgrBadArg, cur_state))"

definition dif_pwrmgr_set_domain_config ::
  "dif_pwrmgr ptr \<Rightarrow> u8 \<Rightarrow> world \<Rightarrow> (dif_pwrmgr_config_result \<times> world) option" where
  "dif_pwrmgr_set_domain_config pwrmgr config w =
     (case pwrmgr of NULL \<Rightarrow> Some (kDifPwrmgrConfigBadArg, w)
      | Some p \<Rightarrow>
        if \<not> is_valid_for_bitfield (ucast config) kDomainConfigBitfield then Some (kDifPwrmgrConfigBadArg, w)
        else
          config_unless_locked p (control_register_is_locked p)
            (do {
               reg_val \<leftarrow> mmio_region_read32 (pwrmgr_base p) PWRMGR_CONTROL_REG_OFFSET;
               let reg_val = bitfield_field32_write reg_val kDomainConfigBitfield (ucast config);
               mmio_region_write32 (pwrmgr_base p) PWRMGR_CONTROL_REG_OFFSET reg_val
             }) w)"

definition dif_pwrmgr_get_domain_config :: "dif_pwrmgr ptr \<Rightarrow> u8 ptr \<Rightarrow> (dif_pwrmgr_result \<times> u8 ptr) io" where
  "dif_pwrmgr_get_domain_config pwrmgr config =
     (case (pwrmgr, config) of
        (Some p, Some _) \<Rightarrow> do {
          reg_val \<leftarrow> mmio_region_read32 (pwrmgr_base p) PWRMGR_CONTROL_REG_OFFSET;
          ret (kDifPwrmgrOk, store config (ucast (bitfield_field32_read reg_val kDomainConfigBitfield)))
        }
      | _ \<Rightarrow> ret (kDifPwrmgrBadArg, config))"

section \<open>Wakeup and reset requests\<close>

definition dif_pwrmgr_set_request_sources ::
  "dif_pwrmgr ptr \<Rightarrow> dif_pwrmgr_req_type \<Rightarrow> u32 \<Rightarrow> world \<Rightarrow> (dif_pwrmgr_config_result \<times> world) option" where
  "dif_pwrmgr_set_request_sources pwrmgr req_type sources w =
     (case pwrmgr of NULL \<Rightarrow> Some (kDifPwrmgrConfigBadArg, w)
      | Some p \<Rightarrow>
        if \<not> is_valid_req_type req_type then Some (kDifPwrmgrConfigBadArg, w)
        else if \<not> is_valid_for_bitfield sources (req_bitfield (reg_info_of req_type)) then Some (kDifPwrmgrConfigBadArg, w)
        else
          config_unless_locked p (request_sources_is_locked p req_type)
            (do {
               let reg_val = bitfield_field32_write 0 (req_bitfield (reg_info_of req_type)) sources;
               mmio_region_write32 (pwrmgr_base p) (sources_enable_reg_offset (reg_info_of req_type)) reg_val
             }) w)"

definition dif_pwrmgr_get_request_sources ::
  "dif_pwrmgr ptr \<Rightarrow> dif_pwrmgr_req_type \<Rightarrow> u32 ptr \<Rightarrow> (dif_pwrmgr_result \<times> u32 ptr) io" where
  "dif_pwrmgr_get_request_sources pwrmgr req_type sources =
     (case (pwrmgr, sources) of
        (Some p, Some _) \<Rightarrow>
          if \<not> is_valid_req_type req_type then ret (kDifPwrmgrBadArg, sources)
          else do {
            reg_val \<leftarrow> mmio_region_read32 (pwrmgr_base p) (sources_enable_reg_offset (reg_info_of req_type));
            ret (kDifPwrmgrOk, store sources (bitfield_field32_read reg_val (req_bitfield (reg_info_of req_type))))
          }
      | _ \<Rightarrow> ret (kDifPwrmgrBadArg, sources))"

definition dif_pwrmgr_get_current_request_sources ::
  "dif_pwrmgr ptr \<Rightarrow> dif_pwrmgr_req_type \<Rightarrow> u32 ptr \<Rightarrow> (dif_pwrmgr_result \<times> u32 ptr) io" where
  "dif_pwrmgr_get_current_request_sources pwrmgr req_type sources =
     (case (pwrmgr, sources) of
        (Some p, Some _) \<Rightarrow>
          if \<not> is_valid_req_type req_type then ret (kDifPwrmgrBadArg, sources)
          else do {
            reg_val \<leftarrow> mmio_region_read32 (pwrmgr_base p) (cur_req_sources_reg_offset (reg_info_of req_type));
            ret (kDifPwrmgrOk, store sources (bitfield_field32_read reg_val (req_bitfield (reg_info_of req_type))))
          }
      | _ \<Rightarrow> ret (kDifPwrmgrBadArg, sources))"

definition dif_pwrmgr_request_sources_lock :: "dif_pwrmgr ptr \<Rightarrow> dif_pwrmgr_req_type \<Rightarrow> dif_pwrmgr_result io" where
  "dif_pwrmgr_request_sources_lock pwrmgr req_type =
     (case pwrmgr of NULL \<Rightarrow> ret kDifPwrmgrBadArg
      | Some p \<Rightarrow>
        if \<not> is_valid_req_type req_type then ret kDifPwrmgrBadArg
        else do {
          _ \<leftarrow> mmio_region_write32 (pwrmgr_base p) (write_enable_reg_offset (reg_info_of req_type)) 0;
          ret kDifPwrmgrOk
        })"

definition dif_pwrmgr_request_sources_is_locked ::
  "dif_pwrmgr ptr \<Rightarrow> dif_pwrmgr_req_type \<Rightarrow> bool ptr \<Rightarrow> (dif_pwrmgr_result \<times> bool ptr) io" where
  "dif_pwrmgr_request_sources_is_locked pwrmgr req_type is_locked =
     (case (pwrmgr, is_locked) of
        (Some p, Some _) \<Rightarrow>
          if \<not> is_valid_req_type req_type then ret (kDifPwrmgrBadArg, is_locked)
          else do {
            l \<leftarrow> request_sources_is_locked p req_type;
            ret (kDifPwrmgrOk, store is_locked l)
          }
      | _ \<Rightarrow> ret (kDifPwrmgrBadArg, is_locked))"

definition dif_pwrmgr_wakeup_request_recording_set_enabled ::
  "dif_pwrmgr ptr \<Rightarrow> dif_pwrmgr_toggle \<Rightarrow> dif_pwrmgr_result io" where
  "dif_pwrmgr_wakeup_request_recording_set_enabled pwrmgr new_state =
     (case pwrmgr of NULL \<Rightarrow> ret kDifPwrmgrBadArg
      | Some p \<Rightarrow>
        (case pwrmgr_toggle_to_bool new_state of None \<Rightarrow> ret kDifPwrmgrBadArg
         | Some enable \<Rightarrow> do {
             let reg_val = bitfield_bit32_write 0 PWRMGR_WAKE_INFO_CAPTURE_DIS_VAL_BIT (\<not> enable);
             _ \<leftarrow> mmio_region_write32 (pwrmgr_base p) PWRMGR_WAKE_INFO_CAPTURE_DIS_REG_OFFSET reg_val;
             ret kDifPwrmgrOk
           }))"

definition dif_pwrmgr_wakeup_request_recording_get_enabled ::
  "dif_pwrmgr ptr \<Rightarrow> dif_pwrmgr_toggle ptr \<Rightarrow> (dif_pwrmgr_result \<times> dif_pwrmgr_toggle ptr) io" where
  "dif_pwrmgr_wakeup_request_recording_get_enabled pwrmgr cur_state =
     (case (pwrmgr, cur_state) of
        (Some p, Some _) \<Rightarrow> do {
          reg_val \<leftarrow> mmio_region_read32 (pwrmgr_base p) PWRMGR_WAKE_INFO_CAPTURE_DIS_REG_OFFSET;
          ret (kDifPwrmgrOk, store cur_state
            (pwrmgr_bool_to_toggle (\<not> bitfield_bit32_read reg_val PWRMGR_WAKE_INFO_CAPTURE_DIS_VAL_BIT)))
        }
      | _ \<Rightarrow> ret (kDifPwrmgrBadArg, cur_state))"

text \<open>The reason as a function of the register's value.\<close>

definition wakeup_reason_of :: "u32 \<Rightarrow> dif_pwrmgr_wakeup_reason" where
  "wakeup_reason_of reg_val =
     (let types = 0;
          types = (if bitfield_bit32_read reg_val PWRMGR_WAKE_INFO_FALL_THROUGH_BIT
                   then types OR kDifPwrmgrWakeupTypeFallThrough else types);
          types = (if bitfield_bit32_read reg_val PWRMGR_WAKE_INFO_ABORT_BIT
                   then types OR kDifPwrmgrWakeupTypeAbort else types);
          request_sources = bitfield_field32_read reg_val (req_bitfield (reg_info_of kDifPwrmgrReqTypeWakeup));
          types = (if request_sources \<noteq> 0 then types OR kDifPwrmgrWakeupTypeRequest else types)
      in \<lparr>wakeup_types = types, wakeup_request_sources = request_sources\<rparr>)"

definition dif_pwrmgr_wakeup_reason_get ::
  "dif_pwrmgr ptr \<Rightarrow> dif_pwrmgr_wakeup_reason ptr \<Rightarrow> (dif_pwrmgr_result \<times> dif_pwrmgr_wakeup_reason ptr) io" where
  "dif_pwrmgr_wakeup_reason_get pwrmgr reason =
     (case (pwrmgr, reason) of
        (Some p, Some _) \<Rightarrow> do {
          reg_val \<leftarrow> mmio_region_read32 (pwrmgr_base p) PWRMGR_WAKE_INFO_REG_OFFSET;
          ret (kDifPwrmgrOk, store reason (wakeup_reason_of reg_val))
        }
      | _ \<Rightarrow> ret (kDifPwrmgrBadArg, reason))"

definition dif_pwrmgr_wakeup_reason_clear :: "dif_pwrmgr ptr \<Rightarrow> dif_pwrmgr_result io" where
  "dif_pwrmgr_wakeup_reason_clear pwrmgr =
     (case pwrmgr of NULL \<Rightarrow> ret kDifPwrmgrBadArg
      | Some p \<Rightarrow> do {
          _ \<leftarrow> mmio_region_write32 (pwrmgr_base p) PWRMGR_WAKE_INFO_REG_OFFSET 0xffffffff;
          ret kDifPwrmgrOk
        })"

section \<open>Interrupts\<close>

definition dif_pwrmgr_irq_is_pending ::
  "dif_pwrmgr ptr \<Rightarrow> dif_pwrmgr_irq \<Rightarrow> bool ptr \<Rightarrow> (dif_pwrmgr_result \<times> bool ptr) io" where
  "dif_pwrmgr_irq_is_pending pwrmgr irq is_pending =
     (case (pwrmgr, is_pending) of
        (Some p, Some _) \<Rightarrow>
          if \<not> pwrmgr_is_valid_irq irq then ret (kDifPwrmgrBadArg, is_pending)
          else do {
            reg_val \<leftarrow> mmio_region_read32 (pwrmgr_base p) PWRMGR_INTR_STATE_REG_OFFSET;
            ret (kDifPwrmgrOk, store is_pending (bitfield_bit32_read reg_val (pwrmgr_irq_bit irq)))
          }
      | _ \<Rightarrow> ret (kDifPwrmgrBadArg, is_pending))"

definition dif_pwrmgr_irq_acknowledge :: "dif_pwrmgr ptr \<Rightarrow> dif_pwrmgr_irq \<Rightarrow> dif_pwrmgr_result io" where
  "dif_pwrmgr_irq_acknowledge pwrmgr irq =
     (case pwrmgr of NULL \<Rightarrow> ret kDifPwrmgrBadArg
      | Some p \<Rightarrow>
        if \<not> pwrmgr_is_valid_irq irq then ret kDifPwrmgrBadArg
        else do {
          let reg_val = bitfield_bit32_write 0 (pwrmgr_irq_bit irq) True;
          _ \<leftarrow> mmio_region_write32 (pwrmgr_base p) PWRMGR_INTR_STATE_REG_OFFSET reg_val;
          ret kDifPwrmgrOk
        })"

definition dif_pwrmgr_irq_get_enabled ::
  "dif_pwrmgr ptr \<Rightarrow> dif_pwrmgr_irq \<Rightarrow> dif_pwrmgr_toggle ptr \<Rightarrow> (dif_pwrmgr_result \<times> dif_pwrmgr_toggle ptr) io" where
  "dif_pwrmgr_irq_get_enabled pwrmgr irq st =
     (case (pwrmgr, st) of
        (Some p, Some _) \<Rightarrow>
          if \<not> pwrmgr_is_valid_irq irq then ret (kDifPwrmgrBadArg, st)
          else do {
            reg_val \<leftarrow> mmio_region_read32 (pwrmgr_base p) PWRMGR_INTR_ENABLE_REG_OFFSET;
            ret (kDifPwrmgrOk, store st (pwrmgr_bool_to_toggle (bitfield_bit32_read reg_val (pwrmgr_irq_bit irq))))
          }
      | _ \<Rightarrow> ret (kDifPwrmgrBadArg, st))"

definition dif_pwrmgr_irq_set_enabled ::
  "dif_pwrmgr ptr \<Rightarrow> dif_pwrmgr_irq \<Rightarrow> dif_pwrmgr_toggle \<Rightarrow> dif_pwrmgr_result io" where
  "dif_pwrmgr_irq_set_enabled pwrmgr irq st =
     (case pwrmgr of NULL \<Rightarrow> ret kDifPwrmgrBadArg
      | Some p \<Rightarrow>
        if \<not> pwrmgr_is_valid_irq irq then ret kDifPwrmgrBadArg
        else
          (case pwrmgr_toggle_to_bool st of None \<Rightarrow> ret kDifPwrmgrBadArg
           | Some enable \<Rightarrow> do {
               reg_val \<leftarrow> mmio_region_read32 (pwrmgr_base p) PWRMGR_INTR_ENABLE_REG_OFFSET;
               let reg_val = bitfield_bit32_write reg_val (pwrmgr_irq_bit irq) enable;
               _ \<leftarrow> mmio_region_write32 (pwrmgr_base p) PWRMGR_INTR_ENABLE_REG_OFFSET reg_val;
               ret kDifPwrmgrOk
             }))"

definition dif_pwrmgr_irq_force :: "dif_pwrmgr ptr \<Rightarrow> dif_pwrmgr_irq \<Rightarrow> dif_pwrmgr_result io" where
  "dif_pwrmgr_irq_force pwrmgr irq =
     (case pwrmgr of NULL \<Rightarrow> ret kDifPwrmgrBadArg
      | Some p \<Rightarrow>
        if \<not> pwrmgr_is_valid_irq irq then ret kDifPwrmgrBadArg
        else do {
          let reg_val = bitfield_bit32_write 0 (pwrmgr_irq_bit irq) True;
          _ \<leftarrow> mmio_region_write32 (pwrmgr_base p) PWRMGR_INTR_TEST_REG_OFFSET reg_val;
          ret kDifPwrmgrOk
        })"

definition dif_pwrmgr_irq_disable_all :: "dif_pwrmgr ptr \<Rightarrow> u32 ptr \<Rightarrow> (dif_pwrmgr_result \<times> u32 ptr) io" where
  "dif_pwrmgr_irq_disable_all pwrmgr snapshot =
     (case pwrmgr of NULL \<Rightarrow> ret (kDifPwrmgrBadArg, snapshot)
      | Some p \<Rightarrow> do {
          snapshot \<leftarrow> (if snapshot \<noteq> NULL then do {
              v \<leftarrow> mmio_region_read32 (pwrmgr_base p) PWRMGR_INTR_ENABLE_REG_OFFSET;
              ret (store snapshot v)
            } else ret snapshot);
          _ \<leftarrow> mmio_region_write32 (pwrmgr_base p) PWRMGR_INTR_ENABLE_REG_OFFSET 0;
          ret (kDifPwrmgrOk, snapshot)
        })"

definition dif_pwrmgr_irq_restore_all :: "dif_pwrmgr ptr \<Rightarrow> u32 ptr \<Rightarrow> dif_pwrmgr_result io" where
  "dif_pwrmgr_irq_restore_all pwrmgr snapshot =
     (case (pwrmgr, snapshot) of
        (Some p, Some s) \<Rightarrow> do {
          _ \<leftarrow> mmio_region_write32 (pwrmgr_base p) PWRMGR_INTR_ENABLE_REG_OFFSET s;
          ret kDifPwrmgrOk
        }
      | _ \<Rightarrow> ret kDifPwrmgrBadArg)"

interpretation pwrmgr_irqs: irq_block "\<lambda>irq. if pwrmgr_is_valid_irq irq then Some 0 else None"
    "mmio_addr32 (pwrmgr_base p) PWRMGR_INTR_ENABLE_REG_OFFSET"
    "\<lambda>i b w. snd (run_state (dif_pwrmgr_irq_set_enabled (Some p) i (pwrmgr_bool_to_toggle b)) w)"
    "\<lambda>i w. snd (fst (run_state (dif_pwrmgr_irq_get_enabled (Some p) i (Some kDifPwrmgrToggleDisabled)) w)) = Some kDifPwrmgrToggleEnabled"
    "\<lambda>w. case run_state (dif_pwrmgr_irq_disable_all (Some p) (Some 0)) w of ((_, s), w') \<Rightarrow> (the s, w')"
    "\<lambda>s w. snd (run_state (dif_pwrmgr_irq_restore_all (Some p) (Some s)) w)"
  for p
  by unfold_locales
    (auto simp: dif_pwrmgr_irq_set_enabled_def dif_pwrmgr_irq_get_enabled_def dif_pwrmgr_irq_disable_all_def
      dif_pwrmgr_irq_restore_all_def pwrmgr_bool_to_toggle_def pwrmgr_is_valid_irq_def io_simps bit32_read_eq_bit split: if_splits)

section \<open>Locking and synchronisation\<close>

lemma bit_read_1: "bitfield_bit32_write 0 PWRMGR_CFG_CDC_SYNC_SYNC_BIT True = 1"
  by (simp add: bit32_write_0)

lemma sync_run:
  "sync_slow_clock_domain_polled p w =
     spin_while (cdc_sync_busy p) (log (Wr32 (mmio_addr32 (pwrmgr_base p) PWRMGR_CFG_CDC_SYNC_REG_OFFSET) 1) w)"
  by (simp add: sync_slow_clock_domain_polled_def io_simps bit_read_1)

lemma busy_writes: "bus_writes (trace (snd (run_state (cdc_sync_busy p) w))) = bus_writes (trace w)"
  by (simp add: cdc_sync_busy_def io_simps)

lemma sync_writes:
  assumes "sync_slow_clock_domain_polled p w = Some w'"
  shows "bus_writes (trace w')
    = bus_writes (trace w) @ [(mmio_addr32 (pwrmgr_base p) PWRMGR_CFG_CDC_SYNC_REG_OFFSET, 1)]"
  by (rule spin_while_invariant [OF assms [unfolded sync_run]]) (simp_all add: busy_writes)

text \<open>The world in which the synchronisation of a domain configuration is polled.\<close>

definition domain_config_pending :: "dif_pwrmgr \<Rightarrow> u8 \<Rightarrow> world \<Rightarrow> world" where
  "domain_config_pending p config w =
     (let regwen = mmio_addr32 (pwrmgr_base p) PWRMGR_CTRL_CFG_REGWEN_REG_OFFSET;
          w = log (Rd32 regwen (cur32 w regwen)) w;
          w = modify32 (mmio_addr32 (pwrmgr_base p) PWRMGR_CONTROL_REG_OFFSET)
                (\<lambda>r. bitfield_field32_write r kDomainConfigBitfield (ucast config)) w
      in log (Wr32 (mmio_addr32 (pwrmgr_base p) PWRMGR_CFG_CDC_SYNC_REG_OFFSET) 1) w)"

text \<open>
  C30. A domain configuration is written only while the control register is unlocked, and it is
  written before the synchronisation is started; the call returns exactly when the synchronisation bit
  is read as clear at some poll. When the register is locked, it returns at once and writes nothing.
\<close>

theorem dif_pwrmgr_set_domain_config_correct:
  assumes "is_valid_for_bitfield (ucast config) kDomainConfigBitfield"
  shows "if \<not> bit (cur32 w (mmio_addr32 (pwrmgr_base p) PWRMGR_CTRL_CFG_REGWEN_REG_OFFSET)) 0
    then \<exists>w'. dif_pwrmgr_set_domain_config (Some p) config w = Some (kDifPwrMgrConfigLocked, w')
      \<and> bus_writes (trace w') = bus_writes (trace w)
    else ((\<exists>r. dif_pwrmgr_set_domain_config (Some p) config w = Some r)
        \<longleftrightarrow> (\<exists>n. \<not> fst (run_state (cdc_sync_busy p) (polls (cdc_sync_busy p) n (domain_config_pending p config w)))))
      \<and> (\<forall>r w'. dif_pwrmgr_set_domain_config (Some p) config w = Some (r, w') \<longrightarrow> r = kDifPwrmgrConfigOk
        \<and> (\<exists>v. bus_writes (trace w') = bus_writes (trace w)
            @ [(mmio_addr32 (pwrmgr_base p) PWRMGR_CONTROL_REG_OFFSET, v),
               (mmio_addr32 (pwrmgr_base p) PWRMGR_CFG_CDC_SYNC_REG_OFFSET, 1)]
            \<and> bitfield_field32_read v kDomainConfigBitfield = ucast config))"
proof (cases "bit (cur32 w (mmio_addr32 (pwrmgr_base p) PWRMGR_CTRL_CFG_REGWEN_REG_OFFSET)) 0")
  case False
  then show ?thesis using assms
    by (simp add: dif_pwrmgr_set_domain_config_def config_unless_locked_def control_register_is_locked_def io_simps
        bit32_read_eq_bit)
next
  case True
  let ?sync = "mmio_addr32 (pwrmgr_base p) PWRMGR_CFG_CDC_SYNC_REG_OFFSET"
  have run: "dif_pwrmgr_set_domain_config (Some p) config w
      = map_option (\<lambda>w2. (kDifPwrmgrConfigOk, w2)) (spin_while (cdc_sync_busy p) (domain_config_pending p config w))"
    using assms True
    by (simp add: dif_pwrmgr_set_domain_config_def config_unless_locked_def control_register_is_locked_def io_simps
        bit32_read_eq_bit sync_run domain_config_pending_def modify32_def Let_def)
  have field: "field_ok kDomainConfigBitfield"
    by (simp add: field_ok_def kDomainConfigBitfield_def kDifPwrmgrDomainOptionCoreClockInLowPower_def
        kDifPwrmgrDomainOptionIoClockInLowPower_def kDifPwrmgrDomainOptionUsbClockInLowPower_def
        kDifPwrmgrDomainOptionUsbClockInActivePower_def kDifPwrmgrDomainOptionMainPowerInLowPower_def)
  obtain v where v: "bus_writes (trace (domain_config_pending p config w))
      = bus_writes (trace w) @ [(mmio_addr32 (pwrmgr_base p) PWRMGR_CONTROL_REG_OFFSET, v), (?sync, 1)]"
    "bitfield_field32_read v kDomainConfigBitfield = ucast config"
    using assms field32_read_write_same [OF field]
    by (auto simp: domain_config_pending_def modify32_def Let_def is_valid_for_bitfield_def)
  have "bus_writes (trace w') = bus_writes (trace (domain_config_pending p config w))"
    if "spin_while (cdc_sync_busy p) (domain_config_pending p config w) = Some w'" for w'
    by (rule spin_while_invariant [OF that]) (simp_all add: busy_writes)
  then show ?thesis using True v run spin_while_returns_iff [of "cdc_sync_busy p" "domain_config_pending p config w"]
    by auto
qed

text \<open>Registers that read as all ones but for the synchronisation, which is finished at the first poll.\<close>

definition synced_world :: world where
  "synced_world = \<lparr>dev32 = \<lambda>_ a. if a = 0x40400014 then 0 else 0xffffffff, dev8 = \<lambda>_ _. 0, trace = []\<rparr>"

theorem dif_pwrmgr_set_domain_config_correct_witness:
  "\<exists>r w' v. dif_pwrmgr_set_domain_config (Some \<lparr>pwrmgr_params = \<lparr>pwrmgr_base_addr = \<lparr>mmio_base = 0x40400000\<rparr>\<rparr>\<rparr>) 0x13 synced_world
      = Some (r, w') \<and> r = kDifPwrmgrConfigOk
    \<and> bus_writes (trace w') = [(0x40400010, v), (0x40400014, 1)] \<and> bitfield_field32_read v kDomainConfigBitfield = 0x13"
proof -
  let ?p = "\<lparr>pwrmgr_params = \<lparr>pwrmgr_base_addr = \<lparr>mmio_base = 0x40400000\<rparr>\<rparr>\<rparr>"
  have valid: "is_valid_for_bitfield (ucast (0x13 :: u8)) kDomainConfigBitfield"
    by (simp add: is_valid_for_bitfield_def kDomainConfigBitfield_def kDifPwrmgrDomainOptionCoreClockInLowPower_def
        kDifPwrmgrDomainOptionIoClockInLowPower_def kDifPwrmgrDomainOptionUsbClockInLowPower_def
        kDifPwrmgrDomainOptionUsbClockInActivePower_def kDifPwrmgrDomainOptionMainPowerInLowPower_def)
  have "bit (0xffffffff :: u32) 0" by simp
  then have unlocked: "bit (cur32 synced_world (mmio_addr32 (pwrmgr_base ?p) PWRMGR_CTRL_CFG_REGWEN_REG_OFFSET)) 0"
    by (simp add: cur32_def synced_world_def mmio_addr32_def)
  have "\<not> fst (run_state (cdc_sync_busy ?p) (polls (cdc_sync_busy ?p) 0 (domain_config_pending ?p 0x13 synced_world)))"
    by (simp add: cdc_sync_busy_def io_simps bit32_read_eq_bit domain_config_pending_def modify32_def cur32_def
        synced_world_def mmio_addr32_def Let_def)
  then have some: "\<exists>n. \<not> fst (run_state (cdc_sync_busy ?p)
      (polls (cdc_sync_busy ?p) n (domain_config_pending ?p 0x13 synced_world)))" ..
  have addresses: "mmio_addr32 (pwrmgr_base ?p) PWRMGR_CONTROL_REG_OFFSET = 0x40400010"
    "mmio_addr32 (pwrmgr_base ?p) PWRMGR_CFG_CDC_SYNC_REG_OFFSET = 0x40400014"
    by (simp_all add: mmio_addr32_def)
  have empty: "bus_writes (trace synced_world) = []" by (simp add: synced_world_def)
  note run = dif_pwrmgr_set_domain_config_correct [OF valid, of synced_world ?p, unfolded eqTrueI [OF unlocked] not_True_eq_False if_False
      addresses empty append_Nil]
  obtain r where r: "dif_pwrmgr_set_domain_config (Some ?p) 0x13 synced_world = Some r"
    using conjunct1 [OF run] some by blast
  obtain r' w' where "r = (r', w')" by (cases r)
  then have step: "dif_pwrmgr_set_domain_config (Some ?p) 0x13 synced_world = Some (r', w')" using r by simp
  have "r' = kDifPwrmgrConfigOk \<and> (\<exists>v. bus_writes (trace w') = [(0x40400010, v), (0x40400014, 1)]
      \<and> bitfield_field32_read v kDomainConfigBitfield = ucast (0x13 :: u8))"
    using conjunct2 [OF run] step by blast
  then obtain v where v: "r' = kDifPwrmgrConfigOk" "bus_writes (trace w') = [(0x40400010, v), (0x40400014, 1)]"
    "bitfield_field32_read v kDomainConfigBitfield = ucast (0x13 :: u8)" by blast
  have "ucast (0x13 :: u8) = (0x13 :: u32)" by simp
  then show ?thesis using step v by metis
qed

section \<open>The second wakeup source\<close>

lemma wakeup_mask: "req_bitfield (reg_info_of kDifPwrmgrReqTypeWakeup) = \<lparr>field_mask = 1, field_index = 0\<rparr>"
  by (simp add: reg_info_of_def request_reg_infos_def kDifPwrmgrWakeupRequestSourceOne_def)

lemma source_two_bit: "bit (push_bit 1 1 :: u32) 1"
  by (simp only: bit_push_bit_iff) simp

text \<open>
  The second wakeup source, which the header declares, does not exist
  for the driver: a set of sources with it is refused as a bad argument, and a wakeup that it caused is
  reported with no source and of no type.
\<close>

lemma dif_pwrmgr_second_wakeup_source_missing:
  "dif_pwrmgr_set_request_sources (Some p) kDifPwrmgrReqTypeWakeup (s OR kDifPwrmgrWakeupRequestSourceTwo) w
      = Some (kDifPwrmgrConfigBadArg, w)
    \<and> wakeup_reason_of kDifPwrmgrWakeupRequestSourceTwo = \<lparr>wakeup_types = 0, wakeup_request_sources = 0\<rparr>
    \<and> \<not> bit (wakeup_request_sources (wakeup_reason_of r)) 1"
proof (intro conjI)
  have "bit (s OR kDifPwrmgrWakeupRequestSourceTwo) 1"
    unfolding kDifPwrmgrWakeupRequestSourceTwo_def by (simp only: bit_or_iff source_two_bit disj_not1 simp_thms)
  moreover have "\<not> bit ((s OR kDifPwrmgrWakeupRequestSourceTwo) AND 1) 1" by (simp add: bit_and_iff bit_1_iff)
  ultimately have "(s OR kDifPwrmgrWakeupRequestSourceTwo) AND 1 \<noteq> s OR kDifPwrmgrWakeupRequestSourceTwo" by metis
  then show "dif_pwrmgr_set_request_sources (Some p) kDifPwrmgrReqTypeWakeup (s OR kDifPwrmgrWakeupRequestSourceTwo) w
      = Some (kDifPwrmgrConfigBadArg, w)"
    by (simp add: dif_pwrmgr_set_request_sources_def is_valid_req_type_def is_valid_for_bitfield_def wakeup_mask)
  show "wakeup_reason_of kDifPwrmgrWakeupRequestSourceTwo = \<lparr>wakeup_types = 0, wakeup_request_sources = 0\<rparr>"
    by (simp add: wakeup_reason_of_def wakeup_mask kDifPwrmgrWakeupRequestSourceTwo_def bitfield_field32_read_def
        bit32_read_eq_bit bit_iff_odd_drop_bit)
  show "\<not> bit (wakeup_request_sources (wakeup_reason_of r)) 1"
    by (simp add: wakeup_reason_of_def wakeup_mask bit_field32_read bit_1_iff Let_def)
qed

end
