(* ===== verification/DifOtbn.thy ===== *)
theory DifOtbn
  imports IrqBlock CMemory BusFrame
begin

text \<open>
  The driver of the big number accelerator (\<open>sw/device/lib/dif/dif_otbn.c\<close>): interrupts, start and
  status, and the block transfers to and from its instruction and data memories. Register and memory
  offsets are those of \<open>hw/ip/otbn/rtl/otbn_reg_pkg.sv\<close>. The buffer of a transfer is the list of its
  bytes, \<open>NULL\<close> or given; a transfer into a buffer returns its new content. A write to one of
  the memories is the list of the words it puts on the bus, whatever the accelerator answers; where
  the memory is storage these words are its content from then on.
\<close>

unbundle bit_operations_syntax

section \<open>Types\<close>

abbreviation OTBN_INTR_STATE_REG_OFFSET :: u32 where "OTBN_INTR_STATE_REG_OFFSET \<equiv> 0x0"
abbreviation OTBN_INTR_ENABLE_REG_OFFSET :: u32 where "OTBN_INTR_ENABLE_REG_OFFSET \<equiv> 0x4"
abbreviation OTBN_INTR_TEST_REG_OFFSET :: u32 where "OTBN_INTR_TEST_REG_OFFSET \<equiv> 0x8"
abbreviation OTBN_CMD_REG_OFFSET :: u32 where "OTBN_CMD_REG_OFFSET \<equiv> 0x10"
abbreviation OTBN_STATUS_REG_OFFSET :: u32 where "OTBN_STATUS_REG_OFFSET \<equiv> 0x14"
abbreviation OTBN_ERR_BITS_REG_OFFSET :: u32 where "OTBN_ERR_BITS_REG_OFFSET \<equiv> 0x18"
abbreviation OTBN_START_ADDR_REG_OFFSET :: u32 where "OTBN_START_ADDR_REG_OFFSET \<equiv> 0x1c"
abbreviation OTBN_IMEM_REG_OFFSET :: u32 where "OTBN_IMEM_REG_OFFSET \<equiv> 0x4000"
abbreviation OTBN_IMEM_SIZE_BYTES :: u32 where "OTBN_IMEM_SIZE_BYTES \<equiv> 0x1000"
abbreviation OTBN_DMEM_REG_OFFSET :: u32 where "OTBN_DMEM_REG_OFFSET \<equiv> 0x8000"
abbreviation OTBN_DMEM_SIZE_BYTES :: u32 where "OTBN_DMEM_SIZE_BYTES \<equiv> 0x1000"
abbreviation OTBN_INTR_COMMON_DONE_BIT :: u8 where "OTBN_INTR_COMMON_DONE_BIT \<equiv> 0"
abbreviation OTBN_CMD_START_BIT :: u32 where "OTBN_CMD_START_BIT \<equiv> 0"
abbreviation OTBN_STATUS_BUSY_BIT :: u32 where "OTBN_STATUS_BUSY_BIT \<equiv> 0"

record dif_otbn_config = otbn_config_base_addr :: mmio_region

record dif_otbn = otbn_base_addr :: mmio_region

datatype dif_otbn_result = kDifOtbnOk | kDifOtbnError | kDifOtbnBadArg

text \<open>A set of error bits, as the register shows them.\<close>

type_synonym dif_otbn_err_bits = u32

definition kDifOtbnErrBitsNoError :: dif_otbn_err_bits where "kDifOtbnErrBitsNoError = 0"

datatype dif_otbn_interrupt = kDifOtbnInterruptDone | dif_otbn_interrupt_other nat

datatype dif_otbn_enable = kDifOtbnEnable | kDifOtbnDisable | dif_otbn_enable_other nat

section \<open>Helpers\<close>

fun irq_bit_index_get :: "dif_otbn_interrupt \<Rightarrow> u8 option" where
  "irq_bit_index_get kDifOtbnInterruptDone = Some OTBN_INTR_COMMON_DONE_BIT"
| "irq_bit_index_get (dif_otbn_interrupt_other _) = None"

definition check_offset_len :: "u32 \<Rightarrow> u32 \<Rightarrow> u32 \<Rightarrow> bool" where
  "check_offset_len offset_bytes len_bytes mem_size \<longleftrightarrow>
     len_bytes mod 4 = 0 \<and> offset_bytes mod 4 = 0 \<and>
     offset_bytes + len_bytes \<ge> len_bytes \<and> offset_bytes + len_bytes \<le> mem_size"

section \<open>Set-up and interrupts\<close>

definition dif_otbn_reset :: "dif_otbn ptr \<Rightarrow> dif_otbn_result io" where
  "dif_otbn_reset otbn =
     (case otbn of NULL \<Rightarrow> ret kDifOtbnBadArg
      | Some dev \<Rightarrow> do {
          _ \<leftarrow> mmio_region_write32 (otbn_base_addr dev) OTBN_INTR_ENABLE_REG_OFFSET 0;
          _ \<leftarrow> mmio_region_write32 (otbn_base_addr dev) OTBN_INTR_STATE_REG_OFFSET 0xffffffff;
          ret kDifOtbnOk
        })"

definition dif_otbn_init :: "dif_otbn_config ptr \<Rightarrow> dif_otbn ptr \<Rightarrow> (dif_otbn_result \<times> dif_otbn ptr) io" where
  "dif_otbn_init config otbn =
     (case (config, otbn) of
        (Some c, Some dev) \<Rightarrow> do {
          let otbn = Some (dev\<lparr>otbn_base_addr := otbn_config_base_addr c\<rparr>);
          _ \<leftarrow> dif_otbn_reset otbn;
          ret (kDifOtbnOk, otbn)
        }
      | _ \<Rightarrow> ret (kDifOtbnBadArg, otbn))"

definition dif_otbn_irq_state_get ::
  "dif_otbn ptr \<Rightarrow> dif_otbn_interrupt \<Rightarrow> dif_otbn_enable ptr \<Rightarrow> (dif_otbn_result \<times> dif_otbn_enable ptr) io" where
  "dif_otbn_irq_state_get otbn irq_type st =
     (case (otbn, st) of
        (Some dev, Some _) \<Rightarrow>
          (case irq_bit_index_get irq_type of None \<Rightarrow> ret (kDifOtbnError, st)
           | Some bit_index \<Rightarrow> do {
               reg \<leftarrow> mmio_region_read32 (otbn_base_addr dev) OTBN_INTR_STATE_REG_OFFSET;
               let enabled = bitfield_bit32_read reg (ucast bit_index);
               ret (kDifOtbnOk, store st (if enabled then kDifOtbnEnable else kDifOtbnDisable))
             })
      | _ \<Rightarrow> ret (kDifOtbnBadArg, st))"

definition dif_otbn_irq_state_clear :: "dif_otbn ptr \<Rightarrow> dif_otbn_interrupt \<Rightarrow> dif_otbn_result io" where
  "dif_otbn_irq_state_clear otbn irq_type =
     (case otbn of NULL \<Rightarrow> ret kDifOtbnBadArg
      | Some dev \<Rightarrow>
          (case irq_bit_index_get irq_type of None \<Rightarrow> ret kDifOtbnError
           | Some bit_index \<Rightarrow> do {
               let register_value = bitfield_bit32_write 0 (ucast bit_index) True;
               _ \<leftarrow> mmio_region_write32 (otbn_base_addr dev) OTBN_INTR_STATE_REG_OFFSET register_value;
               ret kDifOtbnOk
             }))"

definition dif_otbn_irqs_disable :: "dif_otbn ptr \<Rightarrow> u32 ptr \<Rightarrow> (dif_otbn_result \<times> u32 ptr) io" where
  "dif_otbn_irqs_disable otbn st =
     (case otbn of NULL \<Rightarrow> ret (kDifOtbnBadArg, st)
      | Some dev \<Rightarrow> do {
          st \<leftarrow> (if st \<noteq> NULL then do {
              v \<leftarrow> mmio_region_read32 (otbn_base_addr dev) OTBN_INTR_ENABLE_REG_OFFSET;
              ret (store st v)
            } else ret st);
          _ \<leftarrow> mmio_region_write32 (otbn_base_addr dev) OTBN_INTR_ENABLE_REG_OFFSET 0;
          ret (kDifOtbnOk, st)
        })"

definition dif_otbn_irqs_restore :: "dif_otbn ptr \<Rightarrow> u32 \<Rightarrow> dif_otbn_result io" where
  "dif_otbn_irqs_restore otbn st =
     (case otbn of NULL \<Rightarrow> ret kDifOtbnBadArg
      | Some dev \<Rightarrow> do {
          _ \<leftarrow> mmio_region_write32 (otbn_base_addr dev) OTBN_INTR_ENABLE_REG_OFFSET st;
          ret kDifOtbnOk
        })"

definition dif_otbn_irq_control ::
  "dif_otbn ptr \<Rightarrow> dif_otbn_interrupt \<Rightarrow> dif_otbn_enable \<Rightarrow> dif_otbn_result io" where
  "dif_otbn_irq_control otbn irq_type enable =
     (case otbn of NULL \<Rightarrow> ret kDifOtbnBadArg
      | Some dev \<Rightarrow>
          (case irq_bit_index_get irq_type of None \<Rightarrow> ret kDifOtbnError
           | Some bit_index \<Rightarrow> do {
               register_value \<leftarrow> mmio_region_read32 (otbn_base_addr dev) OTBN_INTR_ENABLE_REG_OFFSET;
               let register_value = bitfield_bit32_write register_value (ucast bit_index) (enable = kDifOtbnEnable);
               _ \<leftarrow> mmio_region_write32 (otbn_base_addr dev) OTBN_INTR_ENABLE_REG_OFFSET register_value;
               ret kDifOtbnOk
             }))"

definition dif_otbn_irq_force :: "dif_otbn ptr \<Rightarrow> dif_otbn_interrupt \<Rightarrow> dif_otbn_result io" where
  "dif_otbn_irq_force otbn irq_type =
     (case otbn of NULL \<Rightarrow> ret kDifOtbnBadArg
      | Some dev \<Rightarrow>
          (case irq_bit_index_get irq_type of None \<Rightarrow> ret kDifOtbnError
           | Some bit_index \<Rightarrow> do {
               register_value \<leftarrow> mmio_region_read32 (otbn_base_addr dev) OTBN_INTR_TEST_REG_OFFSET;
               let register_value = bitfield_bit32_write register_value (ucast bit_index) True;
               _ \<leftarrow> mmio_region_write32 (otbn_base_addr dev) OTBN_INTR_TEST_REG_OFFSET register_value;
               ret kDifOtbnOk
             }))"

lemma irq_bit_done: "irq_bit_index_get i = Some z \<Longrightarrow> i = kDifOtbnInterruptDone \<and> z = 0"
  by (cases i) simp_all

interpretation otbn_irqs: irq_block "\<lambda>irq. map_option unat (irq_bit_index_get irq)"
    "mmio_addr32 (otbn_base_addr dev) OTBN_INTR_ENABLE_REG_OFFSET"
    "\<lambda>i b w. snd (run_state (dif_otbn_irq_control (Some dev) i (if b then kDifOtbnEnable else kDifOtbnDisable)) w)"
    "\<lambda>i w. bit (cur32 w (mmio_addr32 (otbn_base_addr dev) OTBN_INTR_ENABLE_REG_OFFSET)) 0"
    "\<lambda>w. case run_state (dif_otbn_irqs_disable (Some dev) (Some 0)) w of ((_, s), w') \<Rightarrow> (the s, w')"
    "\<lambda>s w. snd (run_state (dif_otbn_irqs_restore (Some dev) s) w)"
  for dev
  by unfold_locales
    (auto dest!: irq_bit_done simp: dif_otbn_irq_control_def dif_otbn_irqs_disable_def dif_otbn_irqs_restore_def io_simps)

section \<open>Running\<close>

definition dif_otbn_start :: "dif_otbn ptr \<Rightarrow> u32 \<Rightarrow> dif_otbn_result io" where
  "dif_otbn_start otbn start_addr =
     (case otbn of NULL \<Rightarrow> ret kDifOtbnBadArg
      | Some dev \<Rightarrow>
        if start_addr mod 4 \<noteq> 0 \<or> start_addr \<ge> OTBN_IMEM_SIZE_BYTES then ret kDifOtbnBadArg
        else do {
          _ \<leftarrow> mmio_region_write32 (otbn_base_addr dev) OTBN_START_ADDR_REG_OFFSET start_addr;
          let cmd_reg_val = bitfield_bit32_write 0 OTBN_CMD_START_BIT True;
          _ \<leftarrow> mmio_region_write32 (otbn_base_addr dev) OTBN_CMD_REG_OFFSET cmd_reg_val;
          ret kDifOtbnOk
        })"

definition dif_otbn_is_busy :: "dif_otbn ptr \<Rightarrow> bool ptr \<Rightarrow> (dif_otbn_result \<times> bool ptr) io" where
  "dif_otbn_is_busy otbn busy =
     (case (otbn, busy) of
        (Some dev, Some _) \<Rightarrow> do {
          status \<leftarrow> mmio_region_read32 (otbn_base_addr dev) OTBN_STATUS_REG_OFFSET;
          ret (kDifOtbnOk, store busy (bitfield_bit32_read status OTBN_STATUS_BUSY_BIT))
        }
      | _ \<Rightarrow> ret (kDifOtbnBadArg, busy))"

definition dif_otbn_get_err_bits ::
  "dif_otbn ptr \<Rightarrow> dif_otbn_err_bits ptr \<Rightarrow> (dif_otbn_result \<times> dif_otbn_err_bits ptr) io" where
  "dif_otbn_get_err_bits otbn err_bits =
     (case (otbn, err_bits) of
        (Some dev, Some _) \<Rightarrow> do {
          err_bits_raw \<leftarrow> mmio_region_read32 (otbn_base_addr dev) OTBN_ERR_BITS_REG_OFFSET;
          ret (kDifOtbnOk, store err_bits err_bits_raw)
        }
      | _ \<Rightarrow> ret (kDifOtbnBadArg, err_bits))"

section \<open>The memories\<close>

definition dif_otbn_imem_write :: "dif_otbn ptr \<Rightarrow> u32 \<Rightarrow> u8 list ptr \<Rightarrow> u32 \<Rightarrow> dif_otbn_result io" where
  "dif_otbn_imem_write otbn offset_bytes src len_bytes =
     (case (otbn, src) of
        (Some dev, Some bytes) \<Rightarrow>
          if \<not> check_offset_len offset_bytes len_bytes OTBN_IMEM_SIZE_BYTES then ret kDifOtbnBadArg
          else do {
            _ \<leftarrow> mmio_region_memcpy_to_mmio32 (otbn_base_addr dev) (OTBN_IMEM_REG_OFFSET + offset_bytes)
                   bytes (unat len_bytes);
            ret kDifOtbnOk
          }
      | _ \<Rightarrow> ret kDifOtbnBadArg)"

definition dif_otbn_imem_read ::
  "dif_otbn ptr \<Rightarrow> u32 \<Rightarrow> u8 list ptr \<Rightarrow> u32 \<Rightarrow> (dif_otbn_result \<times> u8 list ptr) io" where
  "dif_otbn_imem_read otbn offset_bytes dest len_bytes =
     (case (otbn, dest) of
        (Some dev, Some bytes) \<Rightarrow>
          if \<not> check_offset_len offset_bytes len_bytes OTBN_IMEM_SIZE_BYTES then ret (kDifOtbnBadArg, dest)
          else do {
            bytes \<leftarrow> mmio_region_memcpy_from_mmio32 (otbn_base_addr dev) (OTBN_IMEM_REG_OFFSET + offset_bytes)
                   bytes (unat len_bytes);
            ret (kDifOtbnOk, Some bytes)
          }
      | _ \<Rightarrow> ret (kDifOtbnBadArg, dest))"

definition dif_otbn_dmem_write :: "dif_otbn ptr \<Rightarrow> u32 \<Rightarrow> u8 list ptr \<Rightarrow> u32 \<Rightarrow> dif_otbn_result io" where
  "dif_otbn_dmem_write otbn offset_bytes src len_bytes =
     (case (otbn, src) of
        (Some dev, Some bytes) \<Rightarrow>
          if \<not> check_offset_len offset_bytes len_bytes OTBN_DMEM_SIZE_BYTES then ret kDifOtbnBadArg
          else do {
            _ \<leftarrow> mmio_region_memcpy_to_mmio32 (otbn_base_addr dev) (OTBN_DMEM_REG_OFFSET + offset_bytes)
                   bytes (unat len_bytes);
            ret kDifOtbnOk
          }
      | _ \<Rightarrow> ret kDifOtbnBadArg)"

text \<open>The bound of the source here is the size of the instruction memory.\<close>

definition dif_otbn_dmem_read ::
  "dif_otbn ptr \<Rightarrow> u32 \<Rightarrow> u8 list ptr \<Rightarrow> u32 \<Rightarrow> (dif_otbn_result \<times> u8 list ptr) io" where
  "dif_otbn_dmem_read otbn offset_bytes dest len_bytes =
     (case (otbn, dest) of
        (Some dev, Some bytes) \<Rightarrow>
          if \<not> check_offset_len offset_bytes len_bytes OTBN_IMEM_SIZE_BYTES then ret (kDifOtbnBadArg, dest)
          else do {
            bytes \<leftarrow> mmio_region_memcpy_from_mmio32 (otbn_base_addr dev) (OTBN_DMEM_REG_OFFSET + offset_bytes)
                   bytes (unat len_bytes);
            ret (kDifOtbnOk, Some bytes)
          }
      | _ \<Rightarrow> ret (kDifOtbnBadArg, dest))"

definition dif_otbn_get_dmem_size_bytes :: "dif_otbn ptr \<Rightarrow> u32" where
  "dif_otbn_get_dmem_size_bytes otbn = OTBN_DMEM_SIZE_BYTES"

definition dif_otbn_get_imem_size_bytes :: "dif_otbn ptr \<Rightarrow> u32" where
  "dif_otbn_get_imem_size_bytes otbn = OTBN_IMEM_SIZE_BYTES"

section \<open>What a write puts on the bus\<close>

text \<open>The world after words have been written to consecutive words of a memory.\<close>

fun put_words :: "(nat \<Rightarrow> u32) \<Rightarrow> nat \<Rightarrow> u32 list \<Rightarrow> world \<Rightarrow> world" where
  "put_words adr i [] w = w"
| "put_words adr i (v # vs) w = put_words adr (Suc i) vs (log (Wr32 (adr i) v) w)"

text \<open>A set of addresses is storage when a load from it returns the last word stored, or its first content.\<close>

definition stores :: "u32 set \<Rightarrow> (u32 \<Rightarrow> u32) \<Rightarrow> world \<Rightarrow> bool" where
  "stores A init w \<longleftrightarrow> (\<forall>h. \<forall>a \<in> A. dev32 w h a = reg_file init h a)"

lemma put_words_keeps [simp]:
  "dev32 (put_words adr i vs w) = dev32 w" "dev8 (put_words adr i vs w) = dev8 w"
  by (induction vs arbitrary: i w) simp_all

lemma stores_put_words [simp]: "stores A init (put_words adr i vs w) = stores A init w"
  by (simp add: stores_def)

lemma stores_cur32: "stores A init w \<Longrightarrow> a \<in> A \<Longrightarrow> cur32 w a = reg_file init (trace w) a"
  by (simp add: stores_def cur32_def)

lemma put_words_writes:
  "bus_writes (trace (put_words adr i vs w)) =
     bus_writes (trace w) @ map (\<lambda>k. (adr (i + k), vs ! k)) [0..<length vs]"
proof (induction vs arbitrary: i w)
  case Nil
  then show ?case by simp
next
  case (Cons v vs)
  have "map (\<lambda>k. (adr (i + k), (v # vs) ! k)) [0..<length (v # vs)]
      = (adr i, v) # map (\<lambda>k. (adr (Suc i + k), vs ! k)) [0..<length vs]"
    by (simp add: upt_conv_Cons map_Suc_upt [symmetric] del: upt_Suc)
  then show ?case by (simp add: Cons)
qed

lemma put_words_reg_file:
  assumes "\<And>j. i \<le> j \<Longrightarrow> j < i + length vs \<Longrightarrow> adr j = a \<longleftrightarrow> j = k"
  shows "reg_file init (trace (put_words adr i vs w)) a =
    (if i \<le> k \<and> k < i + length vs then vs ! (k - i) else reg_file init (trace w) a)"
  using assms
proof (induction vs arbitrary: i w)
  case Nil
  show ?case by (cases "i \<le> k") simp_all
next
  case (Cons v vs)
  have here: "a = adr i \<longleftrightarrow> i = k" using Cons.prems [of i] by auto
  have tail: "adr j = a \<longleftrightarrow> j = k" if "Suc i \<le> j" "j < Suc i + length vs" for j
    using Cons.prems [of j] that by simp
  note rest = Cons.IH [OF tail, where w = "log (Wr32 (adr i) v) w"]
  show ?case
  proof (cases "k \<le> i")
    case True
    then show ?thesis using here by (simp add: rest)
  next
    case False
    then have "k - i = Suc (k - Suc i)" by simp
    then show ?thesis using here False by (simp add: rest)
  qed
qed

lemma put_words_within:
  "(\<And>j. i \<le> j \<Longrightarrow> j < i + length vs \<Longrightarrow> adr j \<in> A) \<Longrightarrow> within A w (put_words adr i vs w)"
proof (induction vs arbitrary: i w)
  case Nil
  then show ?case by (simp add: within_refl)
next
  case (Cons v vs)
  have "within A w (log (Wr32 (adr i) v) w)" using Cons.prems by (intro within_log within_refl) simp
  then show ?case using Cons.IH [of "Suc i"] Cons.prems by (auto intro: within_trans)
qed

text \<open>Elsewhere the content of a storage is not touched.\<close>

lemma stores_within:
  assumes "stores A init w" "within B w w'" "a \<in> A" "a \<notin> B"
  shows "stores A init w' \<and> cur32 w' a = cur32 w a"
proof -
  obtain t where t: "trace w' = t @ trace w" "\<forall>e \<in> set t. event_addr e \<in> B" "dev32 w' = dev32 w"
    using assms(2) by (auto simp: within_def)
  have "reg_file init (t @ h) a = reg_file init h a" for h
    using t(2)
  proof (induction t)
    case (Cons e t)
    then show ?case using assms(4) by (cases e) auto
  qed simp
  then show ?thesis using assms(1,3) t by (simp add: stores_def cur32_def)
qed

text \<open>A word-aligned block copy is the sequence of its words.\<close>

lemma words_on_bus:
  assumes "4 * n \<le> length buf"
  shows "run_state (mmio_memcpy32_words b off buf (4 * n) False) w =
    (buf, put_words (\<lambda>i. mmio_addr32 b (off + 4 * of_nat i)) 0 (words_of_bytes buf n) w)"
  using assms
proof (induction n arbitrary: off buf w)
  case 0
  then show ?case by (simp add: mmio_memcpy32_words.simps words_of_bytes_def)
next
  case (Suc n)
  have shift: "put_words (\<lambda>i. mmio_addr32 b (off + 4 + 4 * of_nat i)) k vs w
      = put_words (\<lambda>i. mmio_addr32 b (off + 4 * of_nat i)) (Suc k) vs w" for k vs w
    by (induction vs arbitrary: k w) (simp_all add: algebra_simps)
  have "bytes_word (take 4 buf @ drop 4 (word_bytes 0)) = bytes_word (take 4 buf)" by simp
  then show ?case
    using Suc.IH [of "drop 4 buf" "off + 4" "log (Wr32 (mmio_addr32 b off) (bytes_word (take 4 buf))) w"] Suc.prems
    by (subst mmio_memcpy32_words.simps) (simp add: io_simps words_of_bytes_Suc shift)
qed

lemma copy_on_bus:
  assumes "off mod 4 = 0" "4 * n \<le> length buf"
  shows "run_state (mmio_region_memcpy_to_mmio32 b off buf (4 * n)) w =
    ((), put_words (\<lambda>i. mmio_addr32 b (off + 4 * of_nat i)) 0 (words_of_bytes buf n) w)"
proof (cases n)
  case 0
  then show ?thesis by (simp add: mmio_region_memcpy_to_mmio32_def mmio_region_memcpy32_def words_of_bytes_def)
next
  case (Suc m)
  then show ?thesis
    using words_on_bus [OF assms(2), of b off w] assms(1)
    by (simp add: mmio_region_memcpy_to_mmio32_def mmio_region_memcpy32_def misalignment32_of_def)
qed

section \<open>The two memories as storage\<close>

text \<open>
  The overflow check makes the bound of the source exact: a block is accepted if and only if it is made
  of aligned words and lies in the memory.
\<close>

lemma check_offset_len_iff:
  "check_offset_len off len msize \<longleftrightarrow> 4 dvd unat off \<and> 4 dvd unat len \<and> unat off + unat len \<le> unat msize"
proof -
  have four: "x mod 4 = 0 \<longleftrightarrow> 4 dvd unat x" for x :: u32
    by (simp add: word_unat_eq_iff unat_mod_distrib dvd_eq_mod_eq_0)
  have "off + len \<ge> len \<and> off + len \<le> msize \<longleftrightarrow> unat off + unat len \<le> unat msize"
  proof (cases "unat off + unat len < 4294967296")
    case True
    then show ?thesis by (simp add: word_le_nat_alt unat_word_ariths mod_less)
  next
    case False
    define s where "s = unat off + unat len - 4294967296"
    have "s < 4294967296" using unat_u32_bound [of off] unat_u32_bound [of len] unfolding s_def by linarith
    moreover have "unat off + unat len = s + 4294967296" using False by (simp add: s_def)
    ultimately have "unat (off + len) = unat off + unat len - 4294967296"
      by (simp add: unat_word_ariths)
    then show ?thesis using False unat_u32_bound [of off] unat_u32_bound [of len] unat_u32_bound [of msize]
      unfolding word_le_nat_alt by linarith
  qed
  then show ?thesis by (auto simp: check_offset_len_def four)
qed

text \<open>
  What a client relies on: an operation that writes blocks of words at the word addresses \<open>adr\<close> of
  a memory of \<open>words\<close> words, refuses what does not fit, and does nothing else on the bus.
\<close>

locale block_memory =
  fixes wr :: "u32 \<Rightarrow> u8 list ptr \<Rightarrow> u32 \<Rightarrow> dif_otbn_result io"
    and adr :: "nat \<Rightarrow> u32"
    and words :: nat
  assumes wr_law: "length bytes = unat len \<Longrightarrow> run_state (wr off (Some bytes) len) w =
      (if 4 dvd unat off \<and> 4 dvd unat len \<and> unat off + unat len \<le> 4 * words
       then (kDifOtbnOk, put_words adr (unat off div 4) (words_of_bytes bytes (unat len div 4)) w)
       else (kDifOtbnBadArg, w))"
    and wr_null: "run_state (wr off NULL len) w = (kDifOtbnBadArg, w)"
    and adr_inj: "i < words \<Longrightarrow> j < words \<Longrightarrow> adr i = adr j \<Longrightarrow> i = j"
begin

lemma wr_stays: "length bytes = unat len \<Longrightarrow> within (adr ` {..<words}) w (snd (run_state (wr off (Some bytes) len) w))"
  by (auto simp: wr_law within_refl intro!: put_words_within)

lemma put_content:
  assumes "stores (adr ` {..<words}) init w" "i < words" "k + length vs \<le> words"
  shows "cur32 (put_words adr k vs w) (adr i) =
    (if k \<le> i \<and> i < k + length vs then vs ! (i - k) else cur32 w (adr i))"
proof -
  have "adr j = adr i \<longleftrightarrow> j = i" if "j < k + length vs" for j
    using adr_inj [of j i] that assms(2,3) by auto
  then have "reg_file init (trace (put_words adr k vs w)) (adr i) =
      (if k \<le> i \<and> i < k + length vs then vs ! (i - k) else reg_file init (trace w) (adr i))"
    by (intro put_words_reg_file)
  then show ?thesis
    using assms stores_cur32 [of "adr ` {..<words}" init w "adr i"]
      stores_cur32 [of "adr ` {..<words}" init "put_words adr k vs w" "adr i"] by auto
qed

lemma wr_content:
  assumes "stores (adr ` {..<words}) init w" "length bytes = unat len" "i < words"
    "4 dvd unat off" "4 dvd unat len" "unat off + unat len \<le> 4 * words"
  shows "cur32 (snd (run_state (wr off (Some bytes) len) w)) (adr i) =
    (if unat off div 4 \<le> i \<and> i < unat off div 4 + unat len div 4
     then bytes_word (take 4 (drop (4 * (i - unat off div 4)) bytes)) else cur32 w (adr i))"
  using put_content [OF assms(1,3), of "unat off div 4" "words_of_bytes bytes (unat len div 4)"] assms
  by (auto simp: wr_law)

end

text \<open>The bus addresses of the words of the two memories.\<close>

definition imem_addr :: "dif_otbn \<Rightarrow> nat \<Rightarrow> u32" where
  "imem_addr dev i = mmio_addr32 (otbn_base_addr dev) (OTBN_IMEM_REG_OFFSET + 4 * of_nat i)"

definition dmem_addr :: "dif_otbn \<Rightarrow> nat \<Rightarrow> u32" where
  "dmem_addr dev i = mmio_addr32 (otbn_base_addr dev) (OTBN_DMEM_REG_OFFSET + 4 * of_nat i)"

lemma otbn_addr_reg:
  "imem_addr dev i = reg_addr (otbn_base_addr dev) (0x1000 + i)"
  "dmem_addr dev i = reg_addr (otbn_base_addr dev) (0x2000 + i)"
  unfolding imem_addr_def dmem_addr_def by (rule mmio_addr32_reg_addr; simp)+

lemma put_words_shift: "put_words (\<lambda>i. f (k + i)) j vs w = put_words f (k + j) vs w"
  by (induction vs arbitrary: j w) simp_all

lemma mod_add4:
  assumes "reg mod 4 = 0" "off mod 4 = 0"
  shows "(reg + off :: u32) mod 4 = 0"
proof -
  have four: "x mod 4 = 0 \<longleftrightarrow> unat x mod 4 = 0" for x :: u32
    by (simp add: word_unat_eq_iff unat_mod_distrib)
  have "unat (reg + off) mod 4 = (unat reg + unat off) mod 4"
    by (simp add: unat_word_ariths mod_mod_cancel)
  then show ?thesis using assms unfolding four by (simp add: mod_add_eq [symmetric])
qed

lemma block_on_bus:
  assumes "4 dvd unat off" "4 dvd unat len" "length bytes = unat len" "reg mod 4 = 0"
  shows "run_state (mmio_region_memcpy_to_mmio32 b (reg + off) bytes (unat len)) w =
    ((), put_words (\<lambda>i. mmio_addr32 b (reg + 4 * of_nat i)) (unat off div 4) (words_of_bytes bytes (unat len div 4)) w)"
proof -
  obtain n where n: "unat len = 4 * n" using assms(2) by auto
  obtain k where k: "unat off = 4 * k" using assms(1) by auto
  have off: "off = 4 * of_nat k"
    using arg_cong [OF k, of "of_nat :: nat \<Rightarrow> u32"] by simp
  have "off mod 4 = 0" using assms(1) by (simp add: word_unat_eq_iff unat_mod_distrib dvd_eq_mod_eq_0)
  with assms(4) have al: "(reg + off) mod 4 = 0" using mod_add4 [of reg off] by simp
  have "(\<lambda>i. mmio_addr32 b (reg + off + 4 * of_nat i)) = (\<lambda>i. mmio_addr32 b (reg + 4 * of_nat (k + i)))"
    by (simp add: off algebra_simps)
  then show ?thesis
    using copy_on_bus [OF al, of n bytes b w] assms(3) put_words_shift [of "\<lambda>i. mmio_addr32 b (reg + 4 * of_nat i)" k 0]
    by (simp add: n k)
qed

interpretation otbn_imem: block_memory "dif_otbn_imem_write (Some dev)" "imem_addr dev" 1024 for dev
proof
  show "run_state (dif_otbn_imem_write (Some dev) off (Some bytes) len) w =
      (if 4 dvd unat off \<and> 4 dvd unat len \<and> unat off + unat len \<le> 4 * 1024
       then (kDifOtbnOk, put_words (imem_addr dev) (unat off div 4) (words_of_bytes bytes (unat len div 4)) w)
       else (kDifOtbnBadArg, w))" if "length bytes = unat len" for bytes len off w
    using block_on_bus [OF _ _ that, of off OTBN_IMEM_REG_OFFSET "otbn_base_addr dev" w]
    by (auto simp: dif_otbn_imem_write_def check_offset_len_iff imem_addr_def [abs_def])
  show "imem_addr dev i = imem_addr dev j \<Longrightarrow> i = j" if "i < 1024" "j < 1024" for i j
    using that reg_addr_inject [of "0x1000 + i" "0x1000 + j"] by (simp add: otbn_addr_reg)
qed (simp add: dif_otbn_imem_write_def)

interpretation otbn_dmem: block_memory "dif_otbn_dmem_write (Some dev)" "dmem_addr dev" 1024 for dev
proof
  show "run_state (dif_otbn_dmem_write (Some dev) off (Some bytes) len) w =
      (if 4 dvd unat off \<and> 4 dvd unat len \<and> unat off + unat len \<le> 4 * 1024
       then (kDifOtbnOk, put_words (dmem_addr dev) (unat off div 4) (words_of_bytes bytes (unat len div 4)) w)
       else (kDifOtbnBadArg, w))" if "length bytes = unat len" for bytes len off w
    using block_on_bus [OF _ _ that, of off OTBN_DMEM_REG_OFFSET "otbn_base_addr dev" w]
    by (auto simp: dif_otbn_dmem_write_def check_offset_len_iff dmem_addr_def [abs_def])
  show "dmem_addr dev i = dmem_addr dev j \<Longrightarrow> i = j" if "i < 1024" "j < 1024" for i j
    using that reg_addr_inject [of "0x2000 + i" "0x2000 + j"] by (simp add: otbn_addr_reg)
qed (simp add: dif_otbn_dmem_write_def)

text \<open>The words of the two memories, and the registers, are at different addresses.\<close>

lemma imem_dmem_disjoint: "i < 1024 \<Longrightarrow> j < 1024 \<Longrightarrow> imem_addr dev i \<noteq> dmem_addr dev j"
  using reg_addr_inject [of "0x1000 + i" "0x2000 + j"] by (simp add: otbn_addr_reg)

lemma imem_reg_disjoint: "i < 1024 \<Longrightarrow> k < 0x1000 \<Longrightarrow> imem_addr dev i \<noteq> reg_addr (otbn_base_addr dev) k"
  using reg_addr_inject [of "0x1000 + i" k] by (simp add: otbn_addr_reg)

section \<open>Reading stays in the memory\<close>

lemma read_words_stay:
  assumes "\<And>i. i < n \<Longrightarrow> mmio_addr32 b (off + 4 * of_nat i) \<in> A"
  shows "stays A (mmio_memcpy32_words b off buf (4 * n) True)"
  using assms
proof (induction n arbitrary: off buf)
  case 0
  then show ?case by (simp add: mmio_memcpy32_words.simps within_intros)
next
  case (Suc n)
  have "mmio_addr32 b off \<in> A" using Suc.prems [of 0] by simp
  moreover have "stays A (mmio_memcpy32_words b (off + 4) (drop 4 buf) (4 * n) True)"
  proof (rule Suc.IH)
    show "mmio_addr32 b (off + 4 + 4 * of_nat i) \<in> A" if "i < n" for i
      using Suc.prems [of "Suc i"] that by (simp add: algebra_simps)
  qed
  ultimately show ?case
    by (subst mmio_memcpy32_words.simps) (simp add: within_intros)
qed

lemma dmem_read_stays:
  "stays (dmem_addr dev ` {..<1024}) (dif_otbn_dmem_read (Some dev) off (Some bytes) len)"
proof (cases "check_offset_len off len OTBN_IMEM_SIZE_BYTES")
  case False
  then show ?thesis by (simp add: dif_otbn_dmem_read_def within_intros)
next
  case True
  then have c: "4 dvd unat off" "4 dvd unat len" "unat off + unat len \<le> 4096"
    by (simp_all add: check_offset_len_iff)
  obtain n where n: "unat len = 4 * n" using c(2) by auto
  obtain k where k: "unat off = 4 * k" using c(1) by auto
  have off: "off = 4 * of_nat k"
    using arg_cong [OF k, of "of_nat :: nat \<Rightarrow> u32"] by simp
  have "stays (dmem_addr dev ` {..<1024})
      (mmio_memcpy32_words (otbn_base_addr dev) (OTBN_DMEM_REG_OFFSET + off) bytes (4 * n) True)"
  proof (rule read_words_stay)
    show "mmio_addr32 (otbn_base_addr dev) (OTBN_DMEM_REG_OFFSET + off + 4 * of_nat i) \<in> dmem_addr dev ` {..<1024}"
      if "i < n" for i
    proof
      show "mmio_addr32 (otbn_base_addr dev) (OTBN_DMEM_REG_OFFSET + off + 4 * of_nat i) = dmem_addr dev (k + i)"
        by (simp add: dmem_addr_def off algebra_simps)
    qed (use c n k that in auto)
  qed
  moreover have "(OTBN_DMEM_REG_OFFSET + off) mod 4 = 0"
    by (rule mod_add4) (use c(1) in \<open>simp_all add: word_unat_eq_iff unat_mod_distrib dvd_eq_mod_eq_0\<close>)
  ultimately have "stays (dmem_addr dev ` {..<1024})
      (mmio_region_memcpy_from_mmio32 (otbn_base_addr dev) (OTBN_DMEM_REG_OFFSET + off) bytes (unat len))"
    by (simp add: mmio_region_memcpy_from_mmio32_def mmio_region_memcpy32_def misalignment32_of_def n within_intros)
  then show ?thesis using True by (simp add: dif_otbn_dmem_read_def within_intros)
qed

end
