(* ===== verification/Otbn.thy ===== *)
theory Otbn
  imports DifOtbn
begin

text \<open>
  Running applications on the big number accelerator (\<open>sw/device/lib/runtime/otbn.c\<close>) over its driver.
  An application is the program's image of the two memories, given by pointers into main memory, which is
  a parameter of the operations that read or write it; the pointer 0 is \<open>NULL\<close>. Waiting for the
  accelerator may not end and returns an option. The context of \<open>otbn_load_app\<close> is not checked
  for \<open>NULL\<close> in the source and is a record here.
\<close>

section \<open>Types\<close>

record otbn_app =
  imem_start :: u32
  imem_end :: u32
  dmem_start :: u32
  dmem_end :: u32

datatype otbn_result = kOtbnOk | kOtbnError | kOtbnBadArg | kOtbnExecutionFailed

record otbn =
  otbn_dif :: dif_otbn
  otbn_the_app :: otbn_app
  app_is_loaded :: bool

text \<open>The buffer behind a pointer, and the main memory after a buffer has been stored.\<close>

definition buf_at :: "mem \<Rightarrow> u32 \<Rightarrow> u32 \<Rightarrow> u8 list ptr" where
  "buf_at m p len = (if p = 0 then NULL else Some (region m p (unat len)))"

definition store_buf :: "mem \<Rightarrow> u32 \<Rightarrow> u8 list \<Rightarrow> mem" where
  "store_buf m p bytes = fold (\<lambda>i m. m(p + of_nat i := bytes ! i)) [0..<length bytes] m"

section \<open>Address translation\<close>

definition func_ptr_to_otbn_imem_addr :: "otbn \<Rightarrow> u32 \<Rightarrow> u32 ptr \<Rightarrow> otbn_result \<times> u32 ptr" where
  "func_ptr_to_otbn_imem_addr ctx ptr_addr imem_addr_otbn =
     (let app_imem_start_addr = imem_start (otbn_the_app ctx);
          app_imem_end_addr = imem_end (otbn_the_app ctx)
      in if imem_addr_otbn = NULL \<or> ptr_addr = 0 \<or> ptr_addr < app_imem_start_addr \<or> ptr_addr > app_imem_end_addr
         then (kOtbnBadArg, imem_addr_otbn)
         else (kOtbnOk, store imem_addr_otbn (ptr_addr - app_imem_start_addr)))"

definition data_ptr_to_otbn_dmem_addr :: "otbn \<Rightarrow> u32 \<Rightarrow> u32 ptr \<Rightarrow> otbn_result \<times> u32 ptr" where
  "data_ptr_to_otbn_dmem_addr ctx ptr_addr dmem_addr_otbn =
     (let app_dmem_start_addr = dmem_start (otbn_the_app ctx);
          app_dmem_end_addr = dmem_end (otbn_the_app ctx)
      in if dmem_addr_otbn = NULL \<or> ptr_addr = 0 \<or> ptr_addr < app_dmem_start_addr \<or> ptr_addr > app_dmem_end_addr
         then (kOtbnBadArg, dmem_addr_otbn)
         else (kOtbnOk, store dmem_addr_otbn (ptr_addr - app_dmem_start_addr)))"

section \<open>Operations\<close>

text \<open>The waiting loop: an early return with an error, or the end of the loop.\<close>

partial_function (option) otbn_busy_loop :: "otbn \<Rightarrow> bool \<Rightarrow> world \<Rightarrow> (otbn_result option \<times> world) option" where
  "otbn_busy_loop ctx busy w =
     (if busy then
        (case run_state (dif_otbn_is_busy (Some (otbn_dif ctx)) (Some busy)) w of ((r, b), w') \<Rightarrow>
           if r \<noteq> kDifOtbnOk then Some (Some kOtbnError, w')
           else otbn_busy_loop ctx (the b) w')
      else Some (None, w))"

definition otbn_busy_wait_for_done :: "otbn \<Rightarrow> world \<Rightarrow> (otbn_result \<times> world) option" where
  "otbn_busy_wait_for_done ctx w =
     (case otbn_busy_loop ctx True w of
        None \<Rightarrow> None
      | Some (Some r, w) \<Rightarrow> Some (r, w)
      | Some (None, w) \<Rightarrow>
          (case run_state (dif_otbn_get_err_bits (Some (otbn_dif ctx)) (Some 0)) w of ((r, err_bits), w) \<Rightarrow>
             Some (if r \<noteq> kDifOtbnOk then kOtbnError
                   else if the err_bits \<noteq> kDifOtbnErrBitsNoError then kOtbnExecutionFailed
                   else kOtbnOk, w)))"

definition otbn_init :: "otbn ptr \<Rightarrow> dif_otbn_config \<Rightarrow> (otbn_result \<times> otbn ptr) io" where
  "otbn_init ctx dif_config =
     (case ctx of NULL \<Rightarrow> ret (kOtbnBadArg, ctx)
      | Some c \<Rightarrow> do {
          let c = c\<lparr>app_is_loaded := False\<rparr>;
          (r, dif) \<leftarrow> dif_otbn_init (Some dif_config) (Some (otbn_dif c));
          let c = c\<lparr>otbn_dif := the dif\<rparr>;
          ret (if r \<noteq> kDifOtbnOk then kOtbnError else kOtbnOk, Some c)
        })"

definition otbn_load_app :: "mem \<Rightarrow> otbn \<Rightarrow> otbn_app \<Rightarrow> (otbn_result \<times> otbn) io" where
  "otbn_load_app m ctx app =
     (if imem_end app \<le> imem_start app \<or> dmem_end app < dmem_start app then ret (kOtbnBadArg, ctx)
      else
        let imem_size = imem_end app - imem_start app;
            dmem_size = dmem_end app - dmem_start app
        in if imem_size mod 4 \<noteq> 0 \<or> dmem_size mod 4 \<noteq> 0 then ret (kOtbnBadArg, ctx)
           else do {
             let ctx = ctx\<lparr>app_is_loaded := False, otbn_the_app := app\<rparr>;
             r \<leftarrow> dif_otbn_imem_write (Some (otbn_dif ctx)) 0 (buf_at m (imem_start app) imem_size) imem_size;
             if r \<noteq> kDifOtbnOk then ret (kOtbnError, ctx)
             else do {
               r \<leftarrow> (if dmem_size > 0
                 then dif_otbn_dmem_write (Some (otbn_dif ctx)) 0 (buf_at m (dmem_start app) dmem_size) dmem_size
                 else ret kDifOtbnOk);
               if r \<noteq> kDifOtbnOk then ret (kOtbnError, ctx)
               else ret (kOtbnOk, ctx\<lparr>app_is_loaded := True\<rparr>)
             }
           })"

definition otbn_call_function :: "otbn ptr \<Rightarrow> u32 \<Rightarrow> otbn_result io" where
  "otbn_call_function ctx func =
     (case ctx of NULL \<Rightarrow> ret kOtbnBadArg
      | Some c \<Rightarrow>
        if \<not> app_is_loaded c then ret kOtbnBadArg
        else
          (case func_ptr_to_otbn_imem_addr c func (Some 0) of (result, func_imem_addr) \<Rightarrow>
             if result \<noteq> kOtbnOk then ret result
             else do {
               r \<leftarrow> dif_otbn_start (Some (otbn_dif c)) (the func_imem_addr);
               ret (if r \<noteq> kDifOtbnOk then kOtbnError else kOtbnOk)
             }))"

definition otbn_copy_data_to_otbn :: "mem \<Rightarrow> otbn ptr \<Rightarrow> u32 \<Rightarrow> u32 \<Rightarrow> u32 \<Rightarrow> otbn_result io" where
  "otbn_copy_data_to_otbn m ctx len_bytes src dest =
     (case ctx of NULL \<Rightarrow> ret kOtbnBadArg
      | Some c \<Rightarrow>
        if dest = 0 then ret kOtbnBadArg
        else
          (case data_ptr_to_otbn_dmem_addr c dest (Some 0) of (result, dest_dmem_addr) \<Rightarrow>
             if result \<noteq> kOtbnOk then ret result
             else do {
               r \<leftarrow> dif_otbn_dmem_write (Some (otbn_dif c)) (the dest_dmem_addr) (buf_at m src len_bytes) len_bytes;
               ret (if r \<noteq> kDifOtbnOk then kOtbnError else kOtbnOk)
             }))"

definition otbn_copy_data_from_otbn :: "mem \<Rightarrow> otbn ptr \<Rightarrow> u32 \<Rightarrow> u32 \<Rightarrow> u32 \<Rightarrow> (otbn_result \<times> mem) io" where
  "otbn_copy_data_from_otbn m ctx len_bytes src dest =
     (case ctx of NULL \<Rightarrow> ret (kOtbnBadArg, m)
      | Some c \<Rightarrow>
        if dest = 0 then ret (kOtbnBadArg, m)
        else
          (case data_ptr_to_otbn_dmem_addr c src (Some 0) of (result, src_dmem_addr) \<Rightarrow>
             if result \<noteq> kOtbnOk then ret (result, m)
             else do {
               (r, bytes) \<leftarrow> dif_otbn_dmem_read (Some (otbn_dif c)) (the src_dmem_addr) (buf_at m dest len_bytes) len_bytes;
               ret (if r \<noteq> kDifOtbnOk then (kOtbnError, m) else (kOtbnOk, store_buf m dest (the bytes)))
             }))"

text \<open>The result variable of the source is a \<open>bool\<close>, which holds \<open>kOtbnError\<close> as 1.\<close>

fun otbn_zero_loop :: "otbn \<Rightarrow> nat list \<Rightarrow> bool \<Rightarrow> bool io" where
  "otbn_zero_loop ctx [] retval = ret retval"
| "otbn_zero_loop ctx (i # is) retval = do {
     r \<leftarrow> dif_otbn_dmem_write (Some (otbn_dif ctx)) (of_nat i * 4) (Some (word_bytes 0)) 4;
     otbn_zero_loop ctx is (if r \<noteq> kDifOtbnOk then True else retval)
   }"

definition otbn_zero_data_memory :: "otbn ptr \<Rightarrow> otbn_result io" where
  "otbn_zero_data_memory ctx =
     (case ctx of NULL \<Rightarrow> ret kOtbnBadArg
      | Some c \<Rightarrow> do {
          let dmem_size_words = unat (dif_otbn_get_dmem_size_bytes (Some (otbn_dif c)) div 4);
          retval \<leftarrow> otbn_zero_loop c [0..<dmem_size_words] False;
          ret (if retval then kOtbnError else kOtbnOk)
        })"

section \<open>Loading\<close>

text \<open>The images of an application, in bytes and in words.\<close>

definition imem_size :: "otbn_app \<Rightarrow> nat" where
  "imem_size app = unat (imem_end app - imem_start app)"

definition dmem_size :: "otbn_app \<Rightarrow> nat" where
  "dmem_size app = unat (dmem_end app - dmem_start app)"

definition app_image :: "mem \<Rightarrow> u32 \<Rightarrow> nat \<Rightarrow> u32 list" where
  "app_image m p n = words_of_bytes (region m p n) (n div 4)"

lemma nth_app_image: "4 * i + 4 \<le> n \<Longrightarrow> app_image m p n ! i = bytes_word (region m (p + 4 * of_nat i) 4)"
proof -
  assume n: "4 * i + 4 \<le> n"
  have "take 4 (drop (4 * i) (region m p n)) = region m (p + 4 * of_nat i) 4"
    using n by (intro nth_equalityI) (simp_all add: algebra_simps)
  then show ?thesis using n by (simp add: app_image_def)
qed

lemma length_app_image [simp]: "length (app_image m p n) = n div 4"
  by (simp add: app_image_def)

lemma word_mod_4: "(x :: u32) mod 4 = 0 \<longleftrightarrow> 4 dvd unat x"
  by (simp add: word_unat_eq_iff unat_mod_distrib dvd_eq_mod_eq_0)

text \<open>Writing an image, and every outcome of loading an application, with the words put on the bus.\<close>

lemma imem_image_written:
  "run_state (dif_otbn_imem_write (Some dev) 0 (buf_at m p n) n) w =
     (if p \<noteq> 0 \<and> 4 dvd unat n \<and> unat n \<le> 4096
      then (kDifOtbnOk, put_words (imem_addr dev) 0 (app_image m p (unat n)) w) else (kDifOtbnBadArg, w))"
  by (cases "p = 0") (simp_all add: buf_at_def otbn_imem.wr_null otbn_imem.wr_law app_image_def)

lemma dmem_image_written:
  "run_state (dif_otbn_dmem_write (Some dev) 0 (buf_at m p n) n) w =
     (if p \<noteq> 0 \<and> 4 dvd unat n \<and> unat n \<le> 4096
      then (kDifOtbnOk, put_words (dmem_addr dev) 0 (app_image m p (unat n)) w) else (kDifOtbnBadArg, w))"
  by (cases "p = 0") (simp_all add: buf_at_def otbn_dmem.wr_null otbn_dmem.wr_law app_image_def)

lemma run_load_app:
  "run_state (otbn_load_app m ctx app) w =
     (let failed = ctx\<lparr>app_is_loaded := False, otbn_the_app := app\<rparr>;
          loaded = ctx\<lparr>app_is_loaded := True, otbn_the_app := app\<rparr>;
          w1 = put_words (imem_addr (otbn_dif ctx)) 0 (app_image m (imem_start app) (imem_size app)) w
      in if imem_end app \<le> imem_start app \<or> dmem_end app < dmem_start app
            \<or> \<not> 4 dvd imem_size app \<or> \<not> 4 dvd dmem_size app then ((kOtbnBadArg, ctx), w)
         else if imem_start app = 0 \<or> 4096 < imem_size app then ((kOtbnError, failed), w)
         else if dmem_size app = 0 then ((kOtbnOk, loaded), w1)
         else if dmem_start app = 0 \<or> 4096 < dmem_size app then ((kOtbnError, failed), w1)
         else ((kOtbnOk, loaded),
           put_words (dmem_addr (otbn_dif ctx)) 0 (app_image m (dmem_start app) (dmem_size app)) w1))"
proof -
  have pos: "(0 < x) = (unat x \<noteq> 0)" for x :: u32 by (simp add: word_less_nat_alt word_unat_eq_iff)
  show ?thesis
    unfolding otbn_load_app_def Let_def word_mod_4 pos imem_size_def dmem_size_def
    by (auto simp: imem_image_written dmem_image_written not_less)
qed

lemmas load_app_cases = run_load_app [unfolded Let_def]

text \<open>What the words of an image become in a memory, and that the other memory keeps its content.\<close>

lemma image_in_imem:
  assumes "stores (imem_addr dev ` {..<1024}) init w" "i < 1024" "4 dvd n" "n \<le> 4096"
  shows "cur32 (put_words (imem_addr dev) 0 (app_image m p n) w) (imem_addr dev i) =
    (if 4 * i < n then bytes_word (region m (p + 4 * of_nat i) 4) else cur32 w (imem_addr dev i))"
  using otbn_imem.put_content [OF assms(1,2), of 0 "app_image m p n"] assms(3,4) by (auto simp: nth_app_image)

lemma image_in_dmem:
  assumes "stores (dmem_addr dev ` {..<1024}) init w" "i < 1024" "4 dvd n" "n \<le> 4096"
  shows "cur32 (put_words (dmem_addr dev) 0 (app_image m p n) w) (dmem_addr dev i) =
    (if 4 * i < n then bytes_word (region m (p + 4 * of_nat i) 4) else cur32 w (dmem_addr dev i))"
  using otbn_dmem.put_content [OF assms(1,2), of 0 "app_image m p n"] assms(3,4) by (auto simp: nth_app_image)

lemma image_within:
  assumes "n \<le> 4096"
  shows "within (imem_addr dev ` {..<1024}) w (put_words (imem_addr dev) 0 (app_image m p n) w)"
    "within (dmem_addr dev ` {..<1024}) w (put_words (dmem_addr dev) 0 (app_image m p n) w)"
  using assms by (auto intro!: put_words_within)

lemma imem_dmem_ranges:
  "i < 1024 \<Longrightarrow> dmem_addr dev i \<notin> imem_addr dev ` {..<1024}"
  "i < 1024 \<Longrightarrow> imem_addr dev i \<notin> dmem_addr dev ` {..<1024}"
  by (metis imageE lessThan_iff imem_dmem_disjoint)+

lemma dmem_unaffected:
  assumes "stores (dmem_addr dev ` {..<1024}) init w" "within (imem_addr dev ` {..<1024}) w w'" "i < 1024"
  shows "stores (dmem_addr dev ` {..<1024}) init w' \<and> cur32 w' (dmem_addr dev i) = cur32 w (dmem_addr dev i)"
  by (rule stores_within [OF assms(1,2)]) (use assms(3) imem_dmem_ranges in auto)

lemma imem_unaffected:
  assumes "stores (imem_addr dev ` {..<1024}) init w" "within (dmem_addr dev ` {..<1024}) w w'" "i < 1024"
  shows "stores (imem_addr dev ` {..<1024}) init w' \<and> cur32 w' (imem_addr dev i) = cur32 w (imem_addr dev i)"
  by (rule stores_within [OF assms(1,2)]) (use assms(3) imem_dmem_ranges in auto)

text \<open>
  C15. A successful load leaves both images of the application in the accelerator's memories, word by
  word, and nothing else: where the two memories are storage, their words are those of the images, and
  the words behind the images are unchanged. A load that fails leaves no application loaded, and one that is refused
  leaves everything as it was.
\<close>

theorem otbn_load_app_correct:
  assumes "stores (imem_addr (otbn_dif ctx) ` {..<1024}) init w" "stores (dmem_addr (otbn_dif ctx) ` {..<1024}) init w"
    and "run_state (otbn_load_app m ctx app) w = ((r, ctx'), w')"
  shows "(r = kOtbnBadArg \<and> ctx' = ctx \<and> w' = w) \<or> (r = kOtbnError \<and> \<not> app_is_loaded ctx')
    \<or> (r = kOtbnOk \<and> app_is_loaded ctx' \<and> otbn_the_app ctx' = app \<and> otbn_dif ctx' = otbn_dif ctx
        \<and> (\<forall>i < 1024. cur32 w' (imem_addr (otbn_dif ctx) i) =
            (if 4 * i < imem_size app then bytes_word (region m (imem_start app + 4 * of_nat i) 4)
             else cur32 w (imem_addr (otbn_dif ctx) i)))
        \<and> (\<forall>i < 1024. cur32 w' (dmem_addr (otbn_dif ctx) i) =
            (if 4 * i < dmem_size app then bytes_word (region m (dmem_start app + 4 * of_nat i) 4)
             else cur32 w (dmem_addr (otbn_dif ctx) i))))"
proof -
  let ?dev = "otbn_dif ctx"
  define w1 where "w1 = put_words (imem_addr ?dev) 0 (app_image m (imem_start app) (imem_size app)) w"
  define w2 where "w2 = (if dmem_size app = 0 then w1
    else put_words (dmem_addr ?dev) 0 (app_image m (dmem_start app) (dmem_size app)) w1)"
  show ?thesis
  proof (cases "r = kOtbnOk")
    case False
    then show ?thesis using assms(3) by (auto simp: load_app_cases split: if_splits)
  next
    case True
    then have ok: "4 dvd imem_size app" "4 dvd dmem_size app" "imem_size app \<le> 4096" "dmem_size app \<le> 4096"
      "ctx' = ctx\<lparr>app_is_loaded := True, otbn_the_app := app\<rparr>" "w' = w2"
      using assms(3) by (auto simp: load_app_cases w1_def w2_def split: if_splits)
    have s1: "stores (dmem_addr ?dev ` {..<1024}) init w1" "stores (imem_addr ?dev ` {..<1024}) init w1"
      using assms(1,2) by (simp_all add: w1_def)
    have w2: "within (dmem_addr ?dev ` {..<1024}) w1 w2"
      using image_within(2) [OF ok(4)] by (simp add: w2_def within_refl)
    have "cur32 w2 (imem_addr ?dev i) =
        (if 4 * i < imem_size app then bytes_word (region m (imem_start app + 4 * of_nat i) 4)
         else cur32 w (imem_addr ?dev i))" if "i < 1024" for i
      using imem_unaffected [OF s1(2) w2 that] image_in_imem [OF assms(1) that ok(1,3)] by (simp add: w1_def)
    moreover have "cur32 w2 (dmem_addr ?dev i) =
        (if 4 * i < dmem_size app then bytes_word (region m (dmem_start app + 4 * of_nat i) 4)
         else cur32 w (dmem_addr ?dev i))" if "i < 1024" for i
      using dmem_unaffected [OF assms(2) image_within(1) [OF ok(3)] that] image_in_dmem [OF s1(1) that ok(2,4)]
      by (simp add: w1_def w2_def)
    ultimately show ?thesis using True ok by simp
  qed
qed

text \<open>An application of two instructions and no data, loaded on plain memories.\<close>

definition demo_app :: otbn_app where
  "demo_app = \<lparr>imem_start = 0x20000000, imem_end = 0x20000008, dmem_start = 0x20000008, dmem_end = 0x20000008\<rparr>"

definition demo_otbn :: otbn where
  "demo_otbn = \<lparr>otbn_dif = \<lparr>otbn_base_addr = \<lparr>mmio_base = 0x50000000\<rparr>\<rparr>, otbn_the_app = demo_app, app_is_loaded = False\<rparr>"

lemma demo_load:
  "run_state (otbn_load_app (\<lambda>a. ucast a) demo_otbn demo_app) (plain_world (\<lambda>_. 0)) =
     ((kOtbnOk, demo_otbn\<lparr>app_is_loaded := True\<rparr>),
      put_words (imem_addr (otbn_dif demo_otbn)) 0 (app_image (\<lambda>a. ucast a) 0x20000000 8) (plain_world (\<lambda>_. 0)))"
  by (simp add: load_app_cases demo_app_def demo_otbn_def imem_size_def dmem_size_def)

lemma stores_plain: "plain init w \<Longrightarrow> stores A init w"
  by (simp add: plain_def stores_def)

theorem otbn_load_app_correct_witness:
  "\<exists>w'. run_state (otbn_load_app (\<lambda>a. ucast a) demo_otbn demo_app) (plain_world (\<lambda>_. 0))
      = ((kOtbnOk, demo_otbn\<lparr>app_is_loaded := True\<rparr>), w')
    \<and> cur32 w' (imem_addr (otbn_dif demo_otbn) 1) = 0x07060504"
proof -
  have "\<forall>i < 1024. cur32 (put_words (imem_addr (otbn_dif demo_otbn)) 0 (app_image (\<lambda>a. ucast a) 0x20000000 8) (plain_world (\<lambda>_. 0)))
      (imem_addr (otbn_dif demo_otbn) i) =
        (if 4 * i < imem_size demo_app then bytes_word (region (\<lambda>a. ucast a) (imem_start demo_app + 4 * of_nat i) 4)
         else cur32 (plain_world (\<lambda>_. 0)) (imem_addr (otbn_dif demo_otbn) i))"
    using otbn_load_app_correct [OF stores_plain [OF plain_plain_world] stores_plain [OF plain_plain_world] demo_load]
    by simp
  from this [rule_format, of 1]
  have "cur32 (put_words (imem_addr (otbn_dif demo_otbn)) 0 (app_image (\<lambda>a. ucast a) 0x20000000 8) (plain_world (\<lambda>_. 0)))
      (imem_addr (otbn_dif demo_otbn) 1) = 0x07060504"
    by (simp add: demo_app_def imem_size_def region_def upt_conv_Cons bytes_word_def)
  then show ?thesis unfolding demo_load by simp
qed

section \<open>Sessions\<close>

text \<open>
  A session is a sequence of calls in any order with any arguments, over whatever the accelerator does
  besides keeping its instruction memory. The program that makes the calls may
  change its main memory, but the image that is loaded is constant data of the program.
\<close>

definition image_kept :: "otbn \<Rightarrow> mem \<Rightarrow> mem \<Rightarrow> bool" where
  "image_kept ctx m m' \<longleftrightarrow>
     (let app = otbn_the_app ctx in
      app_image m' (imem_start app) (imem_size app) = app_image m (imem_start app) (imem_size app))"

inductive otbn_step :: "mem \<times> otbn \<times> world \<Rightarrow> mem \<times> otbn \<times> world \<Rightarrow> bool" where
  load: "run_state (otbn_load_app m ctx app) w = ((r, ctx'), w') \<Longrightarrow> otbn_step (m, ctx, w) (m, ctx', w')"
| call: "run_state (otbn_call_function (Some ctx) func) w = (r, w') \<Longrightarrow> otbn_step (m, ctx, w) (m, ctx, w')"
| wait: "otbn_busy_wait_for_done ctx w = Some (r, w') \<Longrightarrow> otbn_step (m, ctx, w) (m, ctx, w')"
| to_otbn: "run_state (otbn_copy_data_to_otbn m (Some ctx) len src dest) w = (r, w') \<Longrightarrow> otbn_step (m, ctx, w) (m, ctx, w')"
| from_otbn: "run_state (otbn_copy_data_from_otbn m (Some ctx) len src dest) w = ((r, m'), w') \<Longrightarrow>
    image_kept ctx m m' \<Longrightarrow> otbn_step (m, ctx, w) (m', ctx, w')"
| zero: "run_state (otbn_zero_data_memory (Some ctx)) w = (r, w') \<Longrightarrow> otbn_step (m, ctx, w) (m, ctx, w')"
| caller: "image_kept ctx m m' \<Longrightarrow> otbn_step (m, ctx, w) (m', ctx, w)"

text \<open>Everything but a load stays outside the instruction memory.\<close>

definition outside_imem :: "dif_otbn \<Rightarrow> u32 set" where
  "outside_imem dev = - imem_addr dev ` {..<1024}"

lemma reg_addr_outside: "k < 0x1000 \<Longrightarrow> reg_addr (otbn_base_addr dev) k \<in> outside_imem dev"
  unfolding outside_imem_def by (metis ComplI imageE lessThan_iff imem_reg_disjoint)

lemma reg_outside_imem [within_intros]:
  "mmio_addr32 (otbn_base_addr dev) OTBN_CMD_REG_OFFSET \<in> outside_imem dev"
  "mmio_addr32 (otbn_base_addr dev) OTBN_STATUS_REG_OFFSET \<in> outside_imem dev"
  "mmio_addr32 (otbn_base_addr dev) OTBN_ERR_BITS_REG_OFFSET \<in> outside_imem dev"
  "mmio_addr32 (otbn_base_addr dev) OTBN_START_ADDR_REG_OFFSET \<in> outside_imem dev"
  using mmio_addr32_reg_addr [of OTBN_CMD_REG_OFFSET 4] mmio_addr32_reg_addr [of OTBN_STATUS_REG_OFFSET 5]
    mmio_addr32_reg_addr [of OTBN_ERR_BITS_REG_OFFSET 6] mmio_addr32_reg_addr [of OTBN_START_ADDR_REG_OFFSET 7]
  by (simp_all add: reg_addr_outside)

lemma dmem_outside_imem: "dmem_addr dev ` {..<1024} \<subseteq> outside_imem dev"
  using imem_dmem_ranges by (auto simp: outside_imem_def)

lemma dmem_write_outside [within_intros]:
  "(\<And>bytes. src = Some bytes \<Longrightarrow> length bytes = unat len) \<Longrightarrow> stays (outside_imem dev) (dif_otbn_dmem_write (Some dev) off src len)"
  unfolding stays_def
  by (cases src) (auto simp: otbn_dmem.wr_null within_refl intro: within_mono [OF otbn_dmem.wr_stays dmem_outside_imem])

lemma dmem_read_outside [within_intros]:
  "stays (outside_imem dev) (dif_otbn_dmem_read (Some dev) off dest len)"
proof (cases dest)
  case None
  then show ?thesis by (simp add: dif_otbn_dmem_read_def within_intros)
next
  case (Some bytes)
  then show ?thesis using dmem_read_stays [of dev off bytes len] within_mono [OF _ dmem_outside_imem]
    by (auto simp: stays_def)
qed

lemma buf_at_length: "buf_at m p len = Some bytes \<Longrightarrow> length bytes = unat len"
  by (auto simp: buf_at_def split: if_splits)

lemma poll_outside [within_intros]: "stays (outside_imem dev) (dif_otbn_is_busy (Some dev) busy)"
  by (cases busy) (simp_all add: dif_otbn_is_busy_def within_intros)

lemma busy_loop_outside:
  "otbn_busy_loop ctx busy w = Some s \<Longrightarrow> within (outside_imem (otbn_dif ctx)) w (snd s)"
proof (erule otbn_busy_loop.raw_induct [rotated])
  fix loop ctx busy w s
  assume IH: "\<And>ctx busy w s. loop ctx busy w = Some s \<Longrightarrow> within (outside_imem (otbn_dif ctx)) w (snd s)"
    and run: "(if busy then
        (case run_state (dif_otbn_is_busy (Some (otbn_dif ctx)) (Some busy)) w of ((r, b), w') \<Rightarrow>
           if r \<noteq> kDifOtbnOk then Some (Some kOtbnError, w') else loop ctx (the b) w')
      else Some (None, w)) = Some s"
  show "within (outside_imem (otbn_dif ctx)) w (snd s)"
  proof (cases busy)
    case False
    then show ?thesis using run by (auto simp: within_refl)
  next
    case True
    obtain r b w1 where poll: "run_state (dif_otbn_is_busy (Some (otbn_dif ctx)) (Some busy)) w = ((r, b), w1)"
      by (metis prod.collapse)
    have "within (outside_imem (otbn_dif ctx)) w w1" by (rule staysD [OF poll_outside poll])
    then show ?thesis using run True poll IH [of ctx "the b" w1 s] by (auto split: if_splits intro: within_trans)
  qed
qed

lemma wait_outside:
  assumes "otbn_busy_wait_for_done ctx w = Some (r, w')"
  shows "within (outside_imem (otbn_dif ctx)) w w'"
proof -
  obtain x w1 where loop: "otbn_busy_loop ctx True w = Some (x, w1)"
    using assms by (auto simp: otbn_busy_wait_for_done_def split: option.splits)
  have "within (outside_imem (otbn_dif ctx)) w w1" using busy_loop_outside [OF loop] by simp
  moreover have "within (outside_imem (otbn_dif ctx)) w1 w'"
    using assms loop
    by (auto simp: otbn_busy_wait_for_done_def dif_otbn_get_err_bits_def io_simps within_refl
        split: option.splits intro!: within_log within_refl reg_outside_imem)
  ultimately show ?thesis by (rule within_trans)
qed

lemma call_outside: "stays (outside_imem (otbn_dif ctx)) (otbn_call_function (Some ctx) func)"
  by (auto simp: otbn_call_function_def dif_otbn_start_def Let_def split: prod.splits intro!: within_intros)

lemma copy_to_outside: "stays (outside_imem (otbn_dif ctx)) (otbn_copy_data_to_otbn m (Some ctx) len src dest)"
  by (auto simp: otbn_copy_data_to_otbn_def split: prod.splits intro!: within_intros dest: buf_at_length)

lemma copy_from_outside: "stays (outside_imem (otbn_dif ctx)) (otbn_copy_data_from_otbn m (Some ctx) len src dest)"
  by (auto simp: otbn_copy_data_from_otbn_def split: prod.splits intro!: within_intros)

lemma zero_loop_outside: "stays (outside_imem (otbn_dif ctx)) (otbn_zero_loop ctx is retval)"
  by (induction "is" arbitrary: retval) (auto intro!: within_intros)

lemma zero_outside: "stays (outside_imem (otbn_dif ctx)) (otbn_zero_data_memory (Some ctx))"
  by (auto simp: otbn_zero_data_memory_def Let_def intro!: within_intros zero_loop_outside)

text \<open>The invariant: the words of the image that is loaded are in the instruction memory.\<close>

definition code_installed :: "(u32 \<Rightarrow> u32) \<Rightarrow> dif_otbn \<Rightarrow> mem \<times> otbn \<times> world \<Rightarrow> bool" where
  "code_installed init dev s \<longleftrightarrow>
     (case s of (m, ctx, w) \<Rightarrow>
        otbn_dif ctx = dev \<and> stores (imem_addr dev ` {..<1024}) init w
        \<and> (app_is_loaded ctx \<longrightarrow>
            (let app = otbn_the_app ctx in imem_size app \<le> 4096 \<and> 4 dvd imem_size app
              \<and> (\<forall>i < imem_size app div 4.
                   cur32 w (imem_addr dev i) = app_image m (imem_start app) (imem_size app) ! i))))"

lemma code_installed_outside:
  assumes "code_installed init dev (m, ctx, w)" "within (outside_imem dev) w w'"
  shows "code_installed init dev (m, ctx, w')"
proof -
  have keep: "stores (imem_addr dev ` {..<1024}) init w' \<and> cur32 w' (imem_addr dev i) = cur32 w (imem_addr dev i)"
    if "i < 1024" for i
    by (rule stores_within [OF _ assms(2)]) (use assms(1) that in \<open>auto simp: code_installed_def outside_imem_def\<close>)
  then have "stores (imem_addr dev ` {..<1024}) init w'" using keep [of 0] by simp
  then show ?thesis using assms(1) keep by (auto simp: code_installed_def Let_def)
qed

lemma code_installed_within:
  "code_installed init dev (m, ctx, w) \<Longrightarrow> within (outside_imem (otbn_dif ctx)) w w' \<Longrightarrow> code_installed init dev (m, ctx, w')"
  by (rule code_installed_outside) (simp_all add: code_installed_def)

lemmas code_installed_stays = code_installed_within [OF _ staysD]

lemma code_installed_mem:
  "code_installed init dev (m, ctx, w) \<Longrightarrow> image_kept ctx m m' \<Longrightarrow> code_installed init dev (m', ctx, w)"
  by (simp add: code_installed_def image_kept_def Let_def)

lemma code_installed_load:
  assumes "code_installed init dev (m, ctx, w)" "run_state (otbn_load_app m ctx app) w = ((r, ctx'), w')"
  shows "code_installed init dev (m, ctx', w')"
proof -
  have dev: "otbn_dif ctx = dev" and st: "stores (imem_addr dev ` {..<1024}) init w"
    using assms(1) by (simp_all add: code_installed_def)
  define w1 where "w1 = put_words (imem_addr dev) 0 (app_image m (imem_start app) (imem_size app)) w"
  have loaded: "code_installed init dev (m, ctx\<lparr>app_is_loaded := b, otbn_the_app := app\<rparr>, w1)"
    if "4 dvd imem_size app" "imem_size app \<le> 4096" for b
    using that dev st otbn_imem.put_content [OF st, of _ 0 "app_image m (imem_start app) (imem_size app)"]
    by (auto simp: code_installed_def w1_def Let_def)
  have "within (outside_imem dev) w1 (put_words (dmem_addr dev) 0 (app_image m (dmem_start app) (dmem_size app)) w1)"
    if "dmem_size app \<le> 4096"
    by (rule within_mono [OF image_within(2) [OF that] dmem_outside_imem])
  note with_data = code_installed_outside [OF loaded this]
  show ?thesis
    using assms loaded with_data dev
    by (auto simp: load_app_cases w1_def [symmetric] not_less split: if_splits) (auto simp: code_installed_def)
qed

lemma code_installed_step: "otbn_step s s' \<Longrightarrow> code_installed init dev s \<Longrightarrow> code_installed init dev s'"
proof (induction rule: otbn_step.induct)
  case (load m ctx app w r ctx' w')
  then show ?case by (blast intro: code_installed_load)
next
  case (call ctx func w r w' m)
  then show ?case by (blast intro: code_installed_stays call_outside)
next
  case (wait ctx w r w' m)
  then show ?case by (blast intro: code_installed_within wait_outside)
next
  case (to_otbn m ctx len src dest w r w')
  then show ?case by (blast intro: code_installed_stays copy_to_outside)
next
  case (from_otbn m ctx len src dest w r m' w')
  then show ?case by (blast intro: code_installed_mem code_installed_stays copy_from_outside)
next
  case (zero ctx w r w' m)
  then show ?case by (blast intro: code_installed_stays zero_outside)
next
  case (caller ctx m m' w)
  then show ?case by (blast intro: code_installed_mem)
qed

lemma code_installed_steps: "otbn_step\<^sup>*\<^sup>* s s' \<Longrightarrow> code_installed init dev s \<Longrightarrow> code_installed init dev s'"
  by (induction rule: rtranclp_induct) (auto intro: code_installed_step)



section \<open>Calls and waiting\<close>

text \<open>
  The pointer behind the code is let through: a call of it starts the accelerator at the address after the last
  instruction, as long as the code does not fill the memory.
\<close>

lemma otbn_call_past_the_end:
  assumes "app_is_loaded ctx" "app = otbn_the_app ctx" "imem_start app < imem_end app"
    "4 dvd imem_size app" "imem_size app < 4096"
  shows "run_state (otbn_call_function (Some ctx) (imem_end app)) w =
    (kOtbnOk, log (Wr32 (mmio_addr32 (otbn_base_addr (otbn_dif ctx)) OTBN_CMD_REG_OFFSET) 1)
      (log (Wr32 (mmio_addr32 (otbn_base_addr (otbn_dif ctx)) OTBN_START_ADDR_REG_OFFSET) (of_nat (imem_size app))) w))"
proof -
  have "imem_end app \<noteq> 0" using assms(3) by auto
  moreover have "(imem_end app - imem_start app) mod 4 = 0" "imem_end app - imem_start app < 0x1000"
    using assms(4,5) by (simp_all add: word_mod_4 imem_size_def word_less_nat_alt)
  moreover have "bitfield_bit32_write 0 OTBN_CMD_START_BIT True = 1" by (simp add: bit32_write_0)
  moreover have "imem_start app \<le> imem_end app" using assms(3) by simp
  ultimately show ?thesis using assms(1-3)
    by (simp add: otbn_call_function_def func_ptr_to_otbn_imem_addr_def dif_otbn_start_def Let_def io_simps
        imem_size_def not_le [symmetric])
qed

text \<open>Waiting returns exactly when the accelerator is found idle at some poll; its answer is that of the error bits.\<close>

definition busy_poll :: "otbn \<Rightarrow> bool io" where
  "busy_poll ctx = do {
     status \<leftarrow> mmio_region_read32 (otbn_base_addr (otbn_dif ctx)) OTBN_STATUS_REG_OFFSET;
     ret (bit status 0)
   }"

lemma run_is_busy:
  "run_state (dif_otbn_is_busy (Some (otbn_dif ctx)) (Some b)) w =
     (case run_state (busy_poll ctx) w of (busy, w') \<Rightarrow> ((kDifOtbnOk, Some busy), w'))"
  by (simp add: dif_otbn_is_busy_def busy_poll_def io_simps bit32_read_eq_bit)

lemma busy_loop_step:
  "otbn_busy_loop ctx True w =
     (case run_state (busy_poll ctx) w of (busy, w') \<Rightarrow> if busy then otbn_busy_loop ctx True w' else Some (None, w'))"
  by (subst otbn_busy_loop.simps) (simp add: run_is_busy case_prod_unfold otbn_busy_loop.simps [of ctx False])

lemma busy_loop_SomeD:
  "otbn_busy_loop ctx busy w = Some s \<Longrightarrow> fst s = None \<and> (if busy
     then \<exists>n. \<not> fst (run_state (busy_poll ctx) (polls (busy_poll ctx) n w)) \<and> snd s = polls (busy_poll ctx) (Suc n) w
     else snd s = w)"
proof (erule otbn_busy_loop.raw_induct [rotated])
  fix loop ctx busy w s
  assume IH: "\<And>ctx busy w s. loop ctx busy w = Some s \<Longrightarrow> fst s = None \<and> (if busy
     then \<exists>n. \<not> fst (run_state (busy_poll ctx) (polls (busy_poll ctx) n w)) \<and> snd s = polls (busy_poll ctx) (Suc n) w
     else snd s = w)"
    and run: "(if busy then
        (case run_state (dif_otbn_is_busy (Some (otbn_dif ctx)) (Some busy)) w of ((r, b), w') \<Rightarrow>
           if r \<noteq> kDifOtbnOk then Some (Some kOtbnError, w') else loop ctx (the b) w')
      else Some (None, w)) = Some s"
  obtain b w1 where poll: "run_state (busy_poll ctx) w = (b, w1)" by fastforce
  show "fst s = None \<and> (if busy
     then \<exists>n. \<not> fst (run_state (busy_poll ctx) (polls (busy_poll ctx) n w)) \<and> snd s = polls (busy_poll ctx) (Suc n) w
     else snd s = w)"
  proof (cases busy)
    case False
    then show ?thesis using run by auto
  next
    case True
    then have next_poll: "loop ctx b w1 = Some s" using run poll by (simp add: run_is_busy)
    show ?thesis
    proof (cases b)
      case False
      then have "fst s = None \<and> \<not> fst (run_state (busy_poll ctx) (polls (busy_poll ctx) 0 w))
          \<and> snd s = polls (busy_poll ctx) (Suc 0) w"
        using IH [OF next_poll] poll by simp
      then show ?thesis using True by metis
    next
      case more: True
      obtain n where "fst s = None \<and> \<not> fst (run_state (busy_poll ctx) (polls (busy_poll ctx) n w1))
          \<and> snd s = polls (busy_poll ctx) (Suc n) w1"
        using IH [OF next_poll] more by auto
      then have "fst s = None \<and> \<not> fst (run_state (busy_poll ctx) (polls (busy_poll ctx) (Suc n) w))
          \<and> snd s = polls (busy_poll ctx) (Suc (Suc n)) w"
        using poll by simp
      then show ?thesis using True by metis
    qed
  qed
qed

lemma busy_loop_returns:
  "\<not> fst (run_state (busy_poll ctx) (polls (busy_poll ctx) n w)) \<Longrightarrow> \<exists>w'. otbn_busy_loop ctx True w = Some (None, w')"
proof (induction n arbitrary: w)
  case 0
  then show ?case by (auto simp: busy_loop_step case_prod_unfold)
next
  case (Suc n)
  then show ?case by (cases "fst (run_state (busy_poll ctx) w)") (auto simp: busy_loop_step [of _ w] case_prod_unfold)
qed

lemma otbn_busy_wait_returns:
  "(\<exists>r. otbn_busy_wait_for_done ctx w = Some r)
     \<longleftrightarrow> (\<exists>n. \<not> fst (run_state (busy_poll ctx) (polls (busy_poll ctx) n w)))"
proof -
  have "(\<exists>r. otbn_busy_wait_for_done ctx w = Some r) \<longleftrightarrow> (\<exists>s. otbn_busy_loop ctx True w = Some s)"
    by (auto simp: otbn_busy_wait_for_done_def case_prod_unfold split: option.splits)
  then show ?thesis using busy_loop_SomeD [of ctx True w] busy_loop_returns [of ctx _ w] by auto
qed

lemma otbn_busy_wait_result:
  assumes "otbn_busy_wait_for_done ctx w = Some (r, w')"
  shows "\<exists>n. let wn = polls (busy_poll ctx) (Suc n) w;
      err = cur32 wn (mmio_addr32 (otbn_base_addr (otbn_dif ctx)) OTBN_ERR_BITS_REG_OFFSET)
    in \<not> fst (run_state (busy_poll ctx) (polls (busy_poll ctx) n w))
      \<and> r = (if err = 0 then kOtbnOk else kOtbnExecutionFailed)"
proof -
  obtain x w1 where loop: "otbn_busy_loop ctx True w = Some (x, w1)"
    using assms by (auto simp: otbn_busy_wait_for_done_def split: option.splits)
  then obtain n where n: "x = None" "\<not> fst (run_state (busy_poll ctx) (polls (busy_poll ctx) n w))"
    "w1 = polls (busy_poll ctx) (Suc n) w" using busy_loop_SomeD [OF loop] by auto
  then have "r = (if cur32 w1 (mmio_addr32 (otbn_base_addr (otbn_dif ctx)) OTBN_ERR_BITS_REG_OFFSET) = 0
      then kOtbnOk else kOtbnExecutionFailed)"
    using assms loop
    by (auto simp: otbn_busy_wait_for_done_def dif_otbn_get_err_bits_def io_simps kDifOtbnErrBitsNoError_def)
  with n show ?thesis unfolding Let_def by blast
qed

text \<open>Clearing the data memory succeeds, and every word of it reads as zero where it is storage.\<close>

lemma words_of_zero: "words_of_bytes (word_bytes 0) 1 = [0]"
  by (simp add: words_of_bytes_def)

lemma run_zero_loop:
  assumes "\<And>i. i \<in> set is \<Longrightarrow> i < 1024"
  shows "run_state (otbn_zero_loop ctx is b) w =
    (b, fold (\<lambda>i. log (Wr32 (dmem_addr (otbn_dif ctx) i) 0)) is w)"
  using assms
proof (induction "is" arbitrary: w)
  case (Cons i "is")
  have "i < 1024" using Cons.prems by simp
  have off: "unat (of_nat i * 4 :: u32) = i * 4"
    using unat_of_nat_u32 [of "i * 4"] \<open>i < 1024\<close> by simp
  have "run_state (dif_otbn_dmem_write (Some (otbn_dif ctx)) (of_nat i * 4) (Some (word_bytes 0)) 4) w =
      (kDifOtbnOk, log (Wr32 (dmem_addr (otbn_dif ctx) i) 0) w)"
    using \<open>i < 1024\<close> off by (subst otbn_dmem.wr_law) (simp_all add: words_of_zero [simplified])
  then show ?case using Cons by simp
qed simp

lemma fold_log_reg_file:
  "a \<in> adr ` set js \<or> reg_file init (trace w) a = v
     \<Longrightarrow> reg_file init (trace (fold (\<lambda>i. log (Wr32 (adr i) v)) js w)) a = v"
proof (induction js arbitrary: w)
  case (Cons j js)
  have "a \<in> adr ` set js \<or> reg_file init (trace (log (Wr32 (adr j) v) w)) a = v"
    using Cons.prems by auto
  from Cons.IH [OF this] show ?case by simp
qed simp

lemma fold_log_content:
  assumes "stores A init w" "adr ` set is \<subseteq> A" "adr i \<in> adr ` set is"
  shows "cur32 (fold (\<lambda>i. log (Wr32 (adr i) v)) is w) (adr i) = v"
proof -
  have dev: "dev32 (fold (\<lambda>i. log (Wr32 (adr i) v)) js u) = dev32 u" for js u
    by (induction js arbitrary: u) simp_all
  then have st: "stores A init (fold (\<lambda>i. log (Wr32 (adr i) v)) is w)" using assms(1) by (simp add: stores_def)
  have "adr i \<in> A" using assms(2,3) by blast
  then show ?thesis using stores_cur32 [OF st] fold_log_reg_file [of "adr i" adr "is" init w v] assms(3) by simp
qed

lemma otbn_zero_data_memory_correct:
  assumes "stores (dmem_addr (otbn_dif ctx) ` {..<1024}) init w"
  shows "\<exists>w'. run_state (otbn_zero_data_memory (Some ctx)) w = (kOtbnOk, w')
    \<and> (\<forall>i < 1024. cur32 w' (dmem_addr (otbn_dif ctx) i) = 0)"
proof -
  define n :: nat where "n = 1024"
  let ?w = "fold (\<lambda>i. log (Wr32 (dmem_addr (otbn_dif ctx) i) 0)) [0..<n] w"
  have size: "unat (dif_otbn_get_dmem_size_bytes (Some (otbn_dif ctx)) div 4) = n"
    by (simp add: dif_otbn_get_dmem_size_bytes_def n_def)
  have "run_state (otbn_zero_loop ctx [0..<n] False) w = (False, ?w)"
    by (rule run_zero_loop) (simp add: n_def del: upt_rec_numeral)
  then have "run_state (otbn_zero_data_memory (Some ctx)) w = (kOtbnOk, ?w)"
    by (simp add: otbn_zero_data_memory_def Let_def size)
  moreover have "cur32 ?w (dmem_addr (otbn_dif ctx) i) = 0" if "i < 1024" for i
    using fold_log_content [OF assms, of "dmem_addr (otbn_dif ctx)" "[0..<n]" i 0] that
    by (auto simp: n_def [symmetric] lessThan_atLeast0)
  ultimately show ?thesis by blast
qed

end
