(* ===== verification/DifLcCtrl.thy ===== *)
theory DifLcCtrl
  imports Mmio
begin

text \<open>
  The driver of the lifecycle controller (\<open>sw/device/lib/dif/dif_lc_ctrl.c\<close>): the state of the device, the
  attempts counter, the status, and the transitions guarded by a mutex that is shared with the debug port.
  Register offsets and values are those of \<open>hw/ip/lc_ctrl\<close>. The last section states what the driver makes of the
  mutex: the hardware grants it for the value \<open>0xA5\<close>, the driver asks for it with 1.
\<close>

unbundle bit_operations_syntax

section \<open>Types\<close>

abbreviation LC_CTRL_ALERT_TEST_REG_OFFSET :: u32 where "LC_CTRL_ALERT_TEST_REG_OFFSET \<equiv> 0x0"
abbreviation LC_CTRL_STATUS_REG_OFFSET :: u32 where "LC_CTRL_STATUS_REG_OFFSET \<equiv> 0x4"
abbreviation LC_CTRL_CLAIM_TRANSITION_IF_REG_OFFSET :: u32 where "LC_CTRL_CLAIM_TRANSITION_IF_REG_OFFSET \<equiv> 0x8"
abbreviation LC_CTRL_TRANSITION_REGWEN_REG_OFFSET :: u32 where "LC_CTRL_TRANSITION_REGWEN_REG_OFFSET \<equiv> 0xc"
abbreviation LC_CTRL_TRANSITION_CMD_REG_OFFSET :: u32 where "LC_CTRL_TRANSITION_CMD_REG_OFFSET \<equiv> 0x10"
abbreviation LC_CTRL_TRANSITION_TOKEN_0_REG_OFFSET :: u32 where "LC_CTRL_TRANSITION_TOKEN_0_REG_OFFSET \<equiv> 0x14"
abbreviation LC_CTRL_TRANSITION_TARGET_REG_OFFSET :: u32 where "LC_CTRL_TRANSITION_TARGET_REG_OFFSET \<equiv> 0x24"
abbreviation LC_CTRL_LC_STATE_REG_OFFSET :: u32 where "LC_CTRL_LC_STATE_REG_OFFSET \<equiv> 0x28"
abbreviation LC_CTRL_LC_TRANSITION_CNT_REG_OFFSET :: u32 where "LC_CTRL_LC_TRANSITION_CNT_REG_OFFSET \<equiv> 0x2c"
abbreviation LC_CTRL_LC_ID_STATE_REG_OFFSET :: u32 where "LC_CTRL_LC_ID_STATE_REG_OFFSET \<equiv> 0x30"

abbreviation LC_CTRL_LC_STATE_STATE_FIELD :: bitfield_field32 where
  "LC_CTRL_LC_STATE_STATE_FIELD \<equiv> \<lparr>field_mask = 0xf, field_index = 0\<rparr>"
abbreviation LC_CTRL_LC_TRANSITION_CNT_CNT_MASK :: u8 where "LC_CTRL_LC_TRANSITION_CNT_CNT_MASK \<equiv> 0x1f"
abbreviation LC_CTRL_LC_TRANSITION_CNT_CNT_FIELD :: bitfield_field32 where
  "LC_CTRL_LC_TRANSITION_CNT_CNT_FIELD \<equiv> \<lparr>field_mask = 0x1f, field_index = 0\<rparr>"
abbreviation LC_CTRL_LC_ID_STATE_STATE_FIELD :: bitfield_field32 where
  "LC_CTRL_LC_ID_STATE_STATE_FIELD \<equiv> \<lparr>field_mask = 0x3, field_index = 0\<rparr>"
abbreviation LC_CTRL_STATUS_READY_BIT :: u32 where "LC_CTRL_STATUS_READY_BIT \<equiv> 0"
abbreviation LC_CTRL_STATUS_TRANSITION_SUCCESSFUL_BIT :: u32 where "LC_CTRL_STATUS_TRANSITION_SUCCESSFUL_BIT \<equiv> 1"
abbreviation LC_CTRL_STATUS_TRANSITION_COUNT_ERROR_BIT :: u32 where "LC_CTRL_STATUS_TRANSITION_COUNT_ERROR_BIT \<equiv> 2"
abbreviation LC_CTRL_STATUS_TRANSITION_ERROR_BIT :: u32 where "LC_CTRL_STATUS_TRANSITION_ERROR_BIT \<equiv> 3"
abbreviation LC_CTRL_STATUS_TOKEN_ERROR_BIT :: u32 where "LC_CTRL_STATUS_TOKEN_ERROR_BIT \<equiv> 4"
abbreviation LC_CTRL_STATUS_OTP_ERROR_BIT :: u32 where "LC_CTRL_STATUS_OTP_ERROR_BIT \<equiv> 6"
abbreviation LC_CTRL_STATUS_STATE_ERROR_BIT :: u32 where "LC_CTRL_STATUS_STATE_ERROR_BIT \<equiv> 7"
abbreviation LC_CTRL_ALERT_TEST_FATAL_PROG_ERROR_BIT :: u32 where "LC_CTRL_ALERT_TEST_FATAL_PROG_ERROR_BIT \<equiv> 0"
abbreviation LC_CTRL_ALERT_TEST_FATAL_STATE_ERROR_BIT :: u32 where "LC_CTRL_ALERT_TEST_FATAL_STATE_ERROR_BIT \<equiv> 1"

datatype dif_lc_ctrl_status_code =
  kDifLcCtrlStatusCodeReady | kDifLcCtrlStatusCodeSuccess | kDifLcCtrlStatusCodeTooManyTransitions
  | kDifLcCtrlStatusCodeInvalidTransition | kDifLcCtrlStatusCodeBadToken | kDifLcCtrlStatusCodeOtpError
  | kDifLcCtrlStatusCodeCorrupt

fun status_code_index :: "dif_lc_ctrl_status_code \<Rightarrow> u32" where
  "status_code_index kDifLcCtrlStatusCodeReady = 0"
| "status_code_index kDifLcCtrlStatusCodeSuccess = 1"
| "status_code_index kDifLcCtrlStatusCodeTooManyTransitions = 2"
| "status_code_index kDifLcCtrlStatusCodeInvalidTransition = 3"
| "status_code_index kDifLcCtrlStatusCodeBadToken = 4"
| "status_code_index kDifLcCtrlStatusCodeOtpError = 5"
| "status_code_index kDifLcCtrlStatusCodeCorrupt = 6"

type_synonym dif_lc_ctrl_status = u32

datatype dif_lc_ctrl_state =
  kDifLcCtrlStateRaw | kDifLcCtrlStateTestUnlocked0 | kDifLcCtrlStateTestLocked0 | kDifLcCtrlStateTestUnlocked1
  | kDifLcCtrlStateTestLocked1 | kDifLcCtrlStateTestUnlocked2 | kDifLcCtrlStateTestLocked2
  | kDifLcCtrlStateTestUnlocked3 | kDifLcCtrlStateDev | kDifLcCtrlStateProd | kDifLcCtrlStateProdEnd
  | kDifLcCtrlStateRma | kDifLcCtrlStateScrap | kDifLcCtrlStatePostTransition | kDifLcCtrlStateEscalate
  | kDifLcCtrlStateInvalid | dif_lc_ctrl_state_other nat

datatype dif_lc_ctrl_id_state = kDifLcCtrlIdStateBlank | kDifLcCtrlIdStatePersonalized | kDifLcCtrlIdStateInvalid

record dif_lc_ctrl_token = token_data :: "u8 list"

record dif_lc_ctrl_params = lc_base_addr :: mmio_region

record dif_lc_ctrl = lc_params :: dif_lc_ctrl_params

abbreviation lc_base :: "dif_lc_ctrl \<Rightarrow> mmio_region" where
  "lc_base lc \<equiv> lc_base_addr (lc_params lc)"

datatype dif_lc_ctrl_result = kDifLcCtrlOk | kDifLcCtrlError | kDifLcCtrlBadArg

datatype dif_lc_ctrl_attempts_result =
  kDifLcCtrlAttemptsOk | kDifLcCtrlAttemptsError | kDifLcCtrlAttemptsBadArg | kDifLcCtrlAttemptsTooMany

datatype dif_lc_ctrl_mutex_result =
  kDifLcCtrlMutexOk | kDifLcCtrlMutexError | kDifLcCtrlMutexBadArg | kDifLcCtrlMutexAlreadyTaken

datatype dif_lc_ctrl_alert = kDifLcCtrlAlertOtp | kDifLcCtrlAlertCorrupt | dif_lc_ctrl_alert_other nat

section \<open>State and status\<close>

definition dif_lc_ctrl_init :: "dif_lc_ctrl_params \<Rightarrow> dif_lc_ctrl ptr \<Rightarrow> dif_lc_ctrl_result \<times> dif_lc_ctrl ptr" where
  "dif_lc_ctrl_init params lc =
     (case lc of NULL \<Rightarrow> (kDifLcCtrlBadArg, lc)
      | Some h \<Rightarrow> (kDifLcCtrlOk, Some (h\<lparr>lc_params := params\<rparr>)))"

definition lc_state_of :: "u32 \<Rightarrow> dif_lc_ctrl_state option" where
  "lc_state_of v =
     (if v = 0 then Some kDifLcCtrlStateRaw
      else if v = 1 then Some kDifLcCtrlStateTestUnlocked0
      else if v = 2 then Some kDifLcCtrlStateTestLocked0
      else if v = 3 then Some kDifLcCtrlStateTestUnlocked1
      else if v = 4 then Some kDifLcCtrlStateTestLocked1
      else if v = 5 then Some kDifLcCtrlStateTestUnlocked2
      else if v = 6 then Some kDifLcCtrlStateTestLocked2
      else if v = 7 then Some kDifLcCtrlStateTestUnlocked3
      else if v = 8 then Some kDifLcCtrlStateDev
      else if v = 9 then Some kDifLcCtrlStateProd
      else if v = 10 then Some kDifLcCtrlStateProdEnd
      else if v = 11 then Some kDifLcCtrlStateRma
      else if v = 12 then Some kDifLcCtrlStateScrap
      else if v = 13 then Some kDifLcCtrlStatePostTransition
      else if v = 14 then Some kDifLcCtrlStateEscalate
      else if v = 15 then Some kDifLcCtrlStateInvalid
      else None)"

definition dif_lc_ctrl_get_state ::
  "dif_lc_ctrl ptr \<Rightarrow> dif_lc_ctrl_state ptr \<Rightarrow> (dif_lc_ctrl_result \<times> dif_lc_ctrl_state ptr) io" where
  "dif_lc_ctrl_get_state lc st =
     (case (lc, st) of
        (Some h, Some _) \<Rightarrow> do {
          reg \<leftarrow> mmio_region_read32 (lc_base h) LC_CTRL_LC_STATE_REG_OFFSET;
          case lc_state_of (bitfield_field32_read reg LC_CTRL_LC_STATE_STATE_FIELD) of
            None \<Rightarrow> ret (kDifLcCtrlError, st)
          | Some s \<Rightarrow> ret (kDifLcCtrlOk, store st s)
        }
      | _ \<Rightarrow> ret (kDifLcCtrlBadArg, st))"

definition dif_lc_ctrl_get_attempts ::
  "dif_lc_ctrl ptr \<Rightarrow> u8 ptr \<Rightarrow> (dif_lc_ctrl_attempts_result \<times> u8 ptr) io" where
  "dif_lc_ctrl_get_attempts lc count =
     (case (lc, count) of
        (Some h, Some _) \<Rightarrow> do {
          reg \<leftarrow> mmio_region_read32 (lc_base h) LC_CTRL_LC_TRANSITION_CNT_REG_OFFSET;
          let v = ucast (bitfield_field32_read reg LC_CTRL_LC_TRANSITION_CNT_CNT_FIELD);
          if v = LC_CTRL_LC_TRANSITION_CNT_CNT_MASK then ret (kDifLcCtrlAttemptsTooMany, count)
          else ret (kDifLcCtrlAttemptsOk, store count v)
        }
      | _ \<Rightarrow> ret (kDifLcCtrlAttemptsBadArg, count))"

text \<open>The status word of the driver from the status register: one bit after the other.\<close>

definition lc_status_bits :: "(u32 \<times> dif_lc_ctrl_status_code) list" where
  "lc_status_bits =
     [(LC_CTRL_STATUS_READY_BIT, kDifLcCtrlStatusCodeReady),
      (LC_CTRL_STATUS_TRANSITION_SUCCESSFUL_BIT, kDifLcCtrlStatusCodeSuccess),
      (LC_CTRL_STATUS_TRANSITION_COUNT_ERROR_BIT, kDifLcCtrlStatusCodeTooManyTransitions),
      (LC_CTRL_STATUS_TRANSITION_ERROR_BIT, kDifLcCtrlStatusCodeInvalidTransition),
      (LC_CTRL_STATUS_TOKEN_ERROR_BIT, kDifLcCtrlStatusCodeBadToken),
      (LC_CTRL_STATUS_OTP_ERROR_BIT, kDifLcCtrlStatusCodeOtpError),
      (LC_CTRL_STATUS_STATE_ERROR_BIT, kDifLcCtrlStatusCodeCorrupt)]"

definition lc_status_word :: "u32 \<Rightarrow> dif_lc_ctrl_status" where
  "lc_status_word reg =
     fold (\<lambda>(b, code) status_word.
        if bitfield_bit32_read reg b then bitfield_bit32_write status_word (status_code_index code) True
        else status_word) lc_status_bits 0"

definition dif_lc_ctrl_get_status ::
  "dif_lc_ctrl ptr \<Rightarrow> dif_lc_ctrl_status ptr \<Rightarrow> (dif_lc_ctrl_result \<times> dif_lc_ctrl_status ptr) io" where
  "dif_lc_ctrl_get_status lc status =
     (case (lc, status) of
        (Some h, Some _) \<Rightarrow> do {
          reg \<leftarrow> mmio_region_read32 (lc_base h) LC_CTRL_STATUS_REG_OFFSET;
          ret (kDifLcCtrlOk, store status (lc_status_word reg))
        }
      | _ \<Rightarrow> ret (kDifLcCtrlBadArg, status))"

definition lc_id_state_of :: "u32 \<Rightarrow> dif_lc_ctrl_id_state option" where
  "lc_id_state_of v =
     (if v = 0 then Some kDifLcCtrlIdStateBlank
      else if v = 1 then Some kDifLcCtrlIdStatePersonalized
      else if v = 2 then Some kDifLcCtrlIdStateInvalid
      else None)"

definition dif_lc_ctrl_get_id_state ::
  "dif_lc_ctrl ptr \<Rightarrow> dif_lc_ctrl_id_state ptr \<Rightarrow> (dif_lc_ctrl_result \<times> dif_lc_ctrl_id_state ptr) io" where
  "dif_lc_ctrl_get_id_state lc st =
     (case (lc, st) of
        (Some h, Some _) \<Rightarrow> do {
          reg \<leftarrow> mmio_region_read32 (lc_base h) LC_CTRL_LC_ID_STATE_REG_OFFSET;
          case lc_id_state_of (bitfield_field32_read reg LC_CTRL_LC_ID_STATE_STATE_FIELD) of
            None \<Rightarrow> ret (kDifLcCtrlError, st)
          | Some s \<Rightarrow> ret (kDifLcCtrlOk, store st s)
        }
      | _ \<Rightarrow> ret (kDifLcCtrlBadArg, st))"

fun lc_alert_idx :: "dif_lc_ctrl_alert \<Rightarrow> u32 option" where
  "lc_alert_idx kDifLcCtrlAlertOtp = Some LC_CTRL_ALERT_TEST_FATAL_PROG_ERROR_BIT"
| "lc_alert_idx kDifLcCtrlAlertCorrupt = Some LC_CTRL_ALERT_TEST_FATAL_STATE_ERROR_BIT"
| "lc_alert_idx (dif_lc_ctrl_alert_other _) = None"

definition dif_lc_ctrl_alert_force :: "dif_lc_ctrl ptr \<Rightarrow> dif_lc_ctrl_alert \<Rightarrow> dif_lc_ctrl_result io" where
  "dif_lc_ctrl_alert_force lc alert =
     (case lc of NULL \<Rightarrow> ret kDifLcCtrlBadArg
      | Some h \<Rightarrow>
        (case lc_alert_idx alert of None \<Rightarrow> ret kDifLcCtrlBadArg
         | Some idx \<Rightarrow> do {
             _ \<leftarrow> mmio_region_write32 (lc_base h) LC_CTRL_ALERT_TEST_REG_OFFSET (bitfield_bit32_write 0 idx True);
             ret kDifLcCtrlOk
           }))"

section \<open>The mutex and the transitions\<close>

definition dif_lc_ctrl_mutex_try_acquire :: "dif_lc_ctrl ptr \<Rightarrow> dif_lc_ctrl_mutex_result io" where
  "dif_lc_ctrl_mutex_try_acquire lc =
     (case lc of NULL \<Rightarrow> ret kDifLcCtrlMutexBadArg
      | Some h \<Rightarrow> do {
          _ \<leftarrow> mmio_region_write32 (lc_base h) LC_CTRL_CLAIM_TRANSITION_IF_REG_OFFSET 1;
          reg \<leftarrow> mmio_region_read32 (lc_base h) LC_CTRL_CLAIM_TRANSITION_IF_REG_OFFSET;
          ret (if reg = 0 then kDifLcCtrlMutexAlreadyTaken else kDifLcCtrlMutexOk)
        })"

definition dif_lc_ctrl_mutex_release :: "dif_lc_ctrl ptr \<Rightarrow> dif_lc_ctrl_mutex_result io" where
  "dif_lc_ctrl_mutex_release lc =
     (case lc of NULL \<Rightarrow> ret kDifLcCtrlMutexBadArg
      | Some h \<Rightarrow> do {
          reg \<leftarrow> mmio_region_read32 (lc_base h) LC_CTRL_CLAIM_TRANSITION_IF_REG_OFFSET;
          if reg = 0 then ret kDifLcCtrlMutexError
          else do {
            _ \<leftarrow> mmio_region_write32 (lc_base h) LC_CTRL_CLAIM_TRANSITION_IF_REG_OFFSET 0;
            ret kDifLcCtrlMutexOk
          }
        })"

fun lc_target :: "dif_lc_ctrl_state \<Rightarrow> u32 option" where
  "lc_target kDifLcCtrlStateRaw = Some 0"
| "lc_target kDifLcCtrlStateTestUnlocked0 = Some 1"
| "lc_target kDifLcCtrlStateTestLocked0 = Some 2"
| "lc_target kDifLcCtrlStateTestUnlocked1 = Some 3"
| "lc_target kDifLcCtrlStateTestLocked1 = Some 4"
| "lc_target kDifLcCtrlStateTestUnlocked2 = Some 5"
| "lc_target kDifLcCtrlStateTestLocked2 = Some 6"
| "lc_target kDifLcCtrlStateTestUnlocked3 = Some 7"
| "lc_target kDifLcCtrlStateDev = Some 8"
| "lc_target kDifLcCtrlStateProd = Some 9"
| "lc_target kDifLcCtrlStateProdEnd = Some 10"
| "lc_target kDifLcCtrlStateRma = Some 11"
| "lc_target kDifLcCtrlStateScrap = Some 12"
| "lc_target _ = None"

definition lc_write_token :: "dif_lc_ctrl \<Rightarrow> dif_lc_ctrl_token ptr \<Rightarrow> unit io" where
  "lc_write_token lc token =
     (case token of NULL \<Rightarrow> ret ()
      | Some t \<Rightarrow>
        for_each [0, 4, 8, 12] (\<lambda>i.
          mmio_region_write32 (lc_base lc) (LC_CTRL_TRANSITION_TOKEN_0_REG_OFFSET + of_nat i)
            (bytes_word (take 4 (drop i (token_data t))))))"

definition dif_lc_ctrl_transition ::
  "dif_lc_ctrl ptr \<Rightarrow> dif_lc_ctrl_state \<Rightarrow> dif_lc_ctrl_token ptr \<Rightarrow> dif_lc_ctrl_mutex_result io" where
  "dif_lc_ctrl_transition lc st token =
     (case lc of NULL \<Rightarrow> ret kDifLcCtrlMutexBadArg
      | Some h \<Rightarrow>
        (case lc_target st of None \<Rightarrow> ret kDifLcCtrlMutexBadArg
         | Some target \<Rightarrow> do {
             busy \<leftarrow> mmio_region_read32 (lc_base h) LC_CTRL_TRANSITION_REGWEN_REG_OFFSET;
             if busy = 0 then ret kDifLcCtrlMutexAlreadyTaken
             else do {
               _ \<leftarrow> mmio_region_write32 (lc_base h) LC_CTRL_TRANSITION_TARGET_REG_OFFSET target;
               _ \<leftarrow> lc_write_token h token;
               _ \<leftarrow> mmio_region_write32 (lc_base h) LC_CTRL_TRANSITION_CMD_REG_OFFSET 1;
               ret kDifLcCtrlMutexOk
             }
           }))"

section \<open>Transitions\<close>

text \<open>The state that a finished transition shows is the one that was asked for.\<close>

lemma lc_target_state: "lc_target st = Some v \<Longrightarrow> lc_state_of (v AND 0xf) = Some st"
  by (cases st) (auto simp: lc_state_of_def)

text \<open>An enabled interface gets the target, the words of the token, and then the command.\<close>

lemma dif_lc_ctrl_transition_writes:
  assumes "lc_target st = Some v" "cur32 w (mmio_addr32 (lc_base lc) LC_CTRL_TRANSITION_REGWEN_REG_OFFSET) \<noteq> 0"
  shows "\<exists>w'. run_state (dif_lc_ctrl_transition (Some lc) st token) w = (kDifLcCtrlMutexOk, w')
    \<and> bus_writes (trace w') = bus_writes (trace w)
      @ [(mmio_addr32 (lc_base lc) LC_CTRL_TRANSITION_TARGET_REG_OFFSET, v)]
      @ (case token of NULL \<Rightarrow> [] | Some t \<Rightarrow>
          map (\<lambda>i. (mmio_addr32 (lc_base lc) (LC_CTRL_TRANSITION_TOKEN_0_REG_OFFSET + of_nat i),
            bytes_word (take 4 (drop i (token_data t))))) [0, 4, 8, 12])
      @ [(mmio_addr32 (lc_base lc) LC_CTRL_TRANSITION_CMD_REG_OFFSET, 1)]"
  using assms by (cases token) (simp_all add: dif_lc_ctrl_transition_def lc_write_token_def io_simps)

section \<open>The mutex is never held\<close>

text \<open>
  The hardware (\<open>lc_ctrl.sv\<close>) enables the transition interface only while the mutex register holds
  \<open>0xA5\<close>, and the register holds a value only if that was the last one written to it.
\<close>

definition enabled_by_a5 :: "dif_lc_ctrl \<Rightarrow> world \<Rightarrow> bool" where
  "enabled_by_a5 lc w \<longleftrightarrow>
     (\<forall>h. dev32 w h (mmio_addr32 (lc_base lc) LC_CTRL_TRANSITION_REGWEN_REG_OFFSET) \<noteq> 0 \<longrightarrow>
        reg_file (\<lambda>_. 0) h (mmio_addr32 (lc_base lc) LC_CTRL_CLAIM_TRANSITION_IF_REG_OFFSET) AND 0xff = 0xa5)"

text \<open>A session: any calls of the driver, in any order.\<close>

inductive lc_call :: "dif_lc_ctrl \<Rightarrow> world \<Rightarrow> world \<Rightarrow> bool" for lc where
  get_state: "run_state (dif_lc_ctrl_get_state (Some lc) st) w = (r, w') \<Longrightarrow> lc_call lc w w'"
| get_attempts: "run_state (dif_lc_ctrl_get_attempts (Some lc) count) w = (r, w') \<Longrightarrow> lc_call lc w w'"
| get_status: "run_state (dif_lc_ctrl_get_status (Some lc) status) w = (r, w') \<Longrightarrow> lc_call lc w w'"
| get_id_state: "run_state (dif_lc_ctrl_get_id_state (Some lc) id_st) w = (r, w') \<Longrightarrow> lc_call lc w w'"
| alert_force: "run_state (dif_lc_ctrl_alert_force (Some lc) alert) w = (r, w') \<Longrightarrow> lc_call lc w w'"
| try_acquire: "run_state (dif_lc_ctrl_mutex_try_acquire (Some lc)) w = (r, w') \<Longrightarrow> lc_call lc w w'"
| release: "run_state (dif_lc_ctrl_mutex_release (Some lc)) w = (r, w') \<Longrightarrow> lc_call lc w w'"
| transition: "run_state (dif_lc_ctrl_transition (Some lc) st token) w = (r, w') \<Longrightarrow> lc_call lc w w'"

definition not_claimed :: "dif_lc_ctrl \<Rightarrow> world \<Rightarrow> bool" where
  "not_claimed lc w \<longleftrightarrow> enabled_by_a5 lc w
     \<and> reg_file (\<lambda>_. 0) (trace w) (mmio_addr32 (lc_base lc) LC_CTRL_CLAIM_TRANSITION_IF_REG_OFFSET) AND 0xff \<noteq> 0xa5"

lemma not_claimed_transition:
  assumes "not_claimed lc w" "run_state (dif_lc_ctrl_transition (Some lc) st token) w = (r, w')"
  shows "r \<noteq> kDifLcCtrlMutexOk \<and> bus_writes (trace w') = bus_writes (trace w) \<and> not_claimed lc w'"
proof -
  have "cur32 w (mmio_addr32 (lc_base lc) LC_CTRL_TRANSITION_REGWEN_REG_OFFSET) = 0"
    using assms(1) by (auto simp: not_claimed_def enabled_by_a5_def cur32_def)
  then show ?thesis
    using assms by (auto simp: dif_lc_ctrl_transition_def io_simps not_claimed_def enabled_by_a5_def split: option.splits)
qed

lemma lc_regs_distinct:
  "mmio_addr32 (lc_base lc) LC_CTRL_ALERT_TEST_REG_OFFSET \<noteq> mmio_addr32 (lc_base lc) LC_CTRL_CLAIM_TRANSITION_IF_REG_OFFSET"
  by (simp add: mmio_addr32_def)

lemma not_claimed_call: "lc_call lc w w' \<Longrightarrow> not_claimed lc w \<Longrightarrow> not_claimed lc w'"
proof (induction rule: lc_call.induct)
  case (transition st token w r w')
  then show ?case using not_claimed_transition by blast
next
  case (release w r w')
  then show ?case
    by (auto simp: dif_lc_ctrl_mutex_release_def io_simps not_claimed_def enabled_by_a5_def split: if_splits)
next
  case (alert_force alert w r w')
  then show ?case
    using lc_regs_distinct [of lc]
    by (auto simp: dif_lc_ctrl_alert_force_def io_simps not_claimed_def enabled_by_a5_def split: option.splits)
qed (auto simp: dif_lc_ctrl_get_state_def dif_lc_ctrl_get_attempts_def dif_lc_ctrl_get_status_def
    dif_lc_ctrl_get_id_state_def dif_lc_ctrl_mutex_try_acquire_def io_simps not_claimed_def enabled_by_a5_def Let_def
    split: option.splits if_splits)

text \<open>
  C31. The driver never performs a transition: where the interface is enabled by \<open>0xA5\<close> in the mutex register, as the
  hardware documents, and that value has not been written before, then after any calls of the driver
  \<open>dif_lc_ctrl_transition\<close> does not return success, and writes nothing. The acquisition reports success all the
  same when the register reads back the 1 that the driver wrote.
\<close>

theorem dif_lc_ctrl_transition_never_succeeds:
  assumes "enabled_by_a5 lc w"
    and "reg_file (\<lambda>_. 0) (trace w) (mmio_addr32 (lc_base lc) LC_CTRL_CLAIM_TRANSITION_IF_REG_OFFSET) AND 0xff \<noteq> 0xa5"
    and "(lc_call lc)\<^sup>*\<^sup>* w w1"
  shows "fst (run_state (dif_lc_ctrl_transition (Some lc) st token) w1) \<noteq> kDifLcCtrlMutexOk
    \<and> bus_writes (trace (snd (run_state (dif_lc_ctrl_transition (Some lc) st token) w1))) = bus_writes (trace w1)
    \<and> (cur32 (log (Wr32 (mmio_addr32 (lc_base lc) LC_CTRL_CLAIM_TRANSITION_IF_REG_OFFSET) 1) w1)
          (mmio_addr32 (lc_base lc) LC_CTRL_CLAIM_TRANSITION_IF_REG_OFFSET) = 1
        \<longrightarrow> fst (run_state (dif_lc_ctrl_mutex_try_acquire (Some lc)) w1) = kDifLcCtrlMutexOk)"
proof -
  have "not_claimed lc w" using assms(1,2) by (simp add: not_claimed_def)
  with assms(3) have w1: "not_claimed lc w1" by (induction rule: rtranclp_induct) (auto intro: not_claimed_call)
  obtain r w2 where run: "run_state (dif_lc_ctrl_transition (Some lc) st token) w1 = (r, w2)" by fastforce
  show ?thesis
    using not_claimed_transition [OF w1 run] run by (simp add: dif_lc_ctrl_mutex_try_acquire_def io_simps)
qed

text \<open>A controller whose registers are storage, but for the enable register.\<close>

definition demo_lc :: dif_lc_ctrl where
  "demo_lc = \<lparr>lc_params = \<lparr>lc_base_addr = \<lparr>mmio_base = 0x40140000\<rparr>\<rparr>\<rparr>"

definition demo_lc_world :: world where
  "demo_lc_world = \<lparr>dev32 = \<lambda>h a.
      if a = 0x4014000c then (if reg_file (\<lambda>_. 0) h 0x40140008 AND 0xff = 0xa5 then 1 else 0) else reg_file (\<lambda>_. 0) h a,
    dev8 = \<lambda>_ _. 0, trace = []\<rparr>"

theorem dif_lc_ctrl_transition_never_succeeds_witness:
  "\<exists>w1. run_state (dif_lc_ctrl_mutex_try_acquire (Some demo_lc)) demo_lc_world = (kDifLcCtrlMutexOk, w1)
    \<and> fst (run_state (dif_lc_ctrl_transition (Some demo_lc) kDifLcCtrlStateDev NULL) w1) \<noteq> kDifLcCtrlMutexOk"
proof -
  obtain q w1 where run: "run_state (dif_lc_ctrl_mutex_try_acquire (Some demo_lc)) demo_lc_world = (q, w1)" by fastforce
  have addr: "mmio_addr32 (lc_base demo_lc) LC_CTRL_CLAIM_TRANSITION_IF_REG_OFFSET = 0x40140008"
    "mmio_addr32 (lc_base demo_lc) LC_CTRL_TRANSITION_REGWEN_REG_OFFSET = 0x4014000c"
    by (simp_all add: demo_lc_def mmio_addr32_def)
  have dev: "enabled_by_a5 demo_lc demo_lc_world" by (simp add: enabled_by_a5_def addr demo_lc_world_def)
  have free: "reg_file (\<lambda>_. 0) (trace demo_lc_world) (mmio_addr32 (lc_base demo_lc) LC_CTRL_CLAIM_TRANSITION_IF_REG_OFFSET)
      AND 0xff \<noteq> 0xa5"
    by (simp add: demo_lc_world_def)
  have "(lc_call demo_lc)\<^sup>*\<^sup>* demo_lc_world w1" using lc_call.try_acquire [OF run] by blast
  moreover have "q = kDifLcCtrlMutexOk"
    using run by (auto simp: dif_lc_ctrl_mutex_try_acquire_def io_simps addr cur32_def demo_lc_world_def)
  ultimately show ?thesis
    using run dif_lc_ctrl_transition_never_succeeds [OF dev free, of w1 kDifLcCtrlStateDev NULL] by blast
qed

end
