(* ===== verification/Print.thy ===== *)
theory Print
  imports DifUart "HOL-Library.Extended_Nat"
begin

text \<open>
  Formatted output (\<open>sw/device/lib/runtime/print.c\<close>). A sink is a state transformer on whatever it
  writes to, that returns how many bytes it took; \<open>None\<close> stands for a call without a result (a sink that
  never returns, or an argument list that does not fit the format, which C leaves undefined). A C string
  is the list of its characters, and its end is the terminating NUL.
\<close>

section \<open>Sinks\<close>

type_synonym 's sink_fun = "string \<Rightarrow> 's \<Rightarrow> (u32 \<times> 's) option"

record 's buffer_sink =
  sink_fn :: "'s sink_fun ptr"

abbreviation NUL :: char where
  "NUL \<equiv> CHR 0x00"

definition kDigitsLow :: string where "kDigitsLow = ''0123456789abcdef''"
definition kDigitsHigh :: string where "kDigitsHigh = ''0123456789ABCDEF''"
definition kErrorNul :: string where "kErrorNul = ''%<unexpected nul>''"
definition kUnknownSpec :: string where "kUnknownSpec = ''%<unknown spec>''"
definition kErrorTooWide :: string where "kErrorTooWide = ''%<bad width>''"

definition base_dev_null :: "'s sink_fun" where
  "base_dev_null buf s = Some (of_nat (length buf), s)"

definition base_set_stdout :: "'s buffer_sink \<Rightarrow> 's buffer_sink" where
  "base_set_stdout out = (if sink_fn out = NULL then out\<lparr>sink_fn := Some base_dev_null\<rparr> else out)"

fun base_dev_uart_from :: "dif_uart ptr \<Rightarrow> nat \<Rightarrow> world sink_fun" where
  "base_dev_uart_from uart i [] w = Some (of_nat i, w)"
| "base_dev_uart_from uart i (c # buf) w = do {
     (result, w') \<leftarrow> dif_uart_byte_send_polled uart (of_char c) w;
     if result \<noteq> kDifUartOk then Some (of_nat i, w') else base_dev_uart_from uart (Suc i) buf w'
   }"

definition base_dev_uart :: "dif_uart ptr \<Rightarrow> world sink_fun" where
  "base_dev_uart uart = base_dev_uart_from uart 0"

definition base_uart_stdout :: "dif_uart ptr \<Rightarrow> world buffer_sink" where
  "base_uart_stdout uart = base_set_stdout \<lparr>sink_fn = Some (base_dev_uart uart)\<rparr>"

text \<open>The caller's buffer is \<open>captured\<close>; the pointer of the captures has advanced by \<open>buf_pos\<close> into it.\<close>

record snprintf_captures =
  captured :: string
  buf_pos :: nat
  bytes_left :: u32

definition snprintf_sink :: "snprintf_captures sink_fun" where
  "snprintf_sink buf c =
     (if bytes_left c = 0 then Some (0, c)
      else
        (let len = (if length buf > unat (bytes_left c) then unat (bytes_left c) else length buf)
         in if buf_pos c + len > length (captured c) then None
         else Some (of_nat len,
           c\<lparr>captured := take (buf_pos c) (captured c) @ take len buf @ drop (buf_pos c + len) (captured c),
             buf_pos := buf_pos c + len, bytes_left := bytes_left c - of_nat len\<rparr>)))"

text \<open>Calling a null function pointer is undefined.\<close>

definition call_sink :: "'s buffer_sink \<Rightarrow> 's sink_fun" where
  "call_sink out buf s = (case sink_fn out of NULL \<Rightarrow> None | Some f \<Rightarrow> f buf s)"

section \<open>Reading the format\<close>

definition c_char :: "string \<Rightarrow> char" where
  "c_char s = (case s of [] \<Rightarrow> NUL | c # _ \<Rightarrow> c)"

fun text_len :: "string \<Rightarrow> nat" where
  "text_len [] = 0"
| "text_len (c # format) = (if c = NUL \<or> c = CHR ''%'' then 0 else Suc (text_len format))"

definition consume_until_percent ::
  "'s buffer_sink \<Rightarrow> string \<Rightarrow> u32 \<Rightarrow> 's \<Rightarrow> (bool \<times> string \<times> u32 \<times> 's) option" where
  "consume_until_percent out format bytes_written s =
     (let len = text_len format; rest = drop len format in do {
        (bytes_written, s) \<leftarrow>
          (if len > 0 then do {
             (n, s) \<leftarrow> call_sink out (take len format) s;
             Some (bytes_written + n, s)
           } else Some (bytes_written, s));
        Some (c_char rest \<noteq> NUL, rest, bytes_written, s)
      })"

record format_specifier =
  spec_type :: char
  spec_width :: u32

fun consume_width :: "string \<Rightarrow> u32 \<Rightarrow> bool \<Rightarrow> u32 \<times> bool \<times> string" where
  "consume_width [] width has_width = (width, has_width, [])"
| "consume_width (c # format) width has_width =
     (if of_char c < (48 :: nat) \<or> of_char c > (57 :: nat) then (width, has_width, c # format)
      else consume_width format (width * 10 + (of_char c - 48)) True)"

definition consume_format_specifier ::
  "'s buffer_sink \<Rightarrow> string \<Rightarrow> u32 \<Rightarrow> 's \<Rightarrow> (format_specifier option \<times> string \<times> u32 \<times> 's) option" where
  "consume_format_specifier out format bytes_written s =
     (let (width, has_width, rest) = consume_width (drop 1 format) 0 False in
      if c_char rest = NUL then do {
        (n, s) \<leftarrow> call_sink out kErrorNul s;
        Some (None, drop 1 format, bytes_written + n, s)
      }
      else if width = 0 \<and> has_width \<or> width > 32 then do {
        (n, s) \<leftarrow> call_sink out kErrorTooWide s;
        Some (None, drop 1 format, bytes_written + n, s)
      }
      else Some (Some \<lparr>spec_type = c_char rest, spec_width = width\<rparr>, drop 1 rest, bytes_written, s))"

section \<open>Writing an argument\<close>

text \<open>
  The digits are stored from the end of a buffer of 32 characters; a store outside it, or a base of 0,
  is undefined.
\<close>

function digits_loop :: "u32 \<Rightarrow> u32 \<Rightarrow> string \<Rightarrow> string \<Rightarrow> nat \<Rightarrow> (string \<times> nat) option" where
  "digits_loop val base glyphs buffer len =
     (if val > 0 then
        if base = 0 \<or> len \<ge> 32 then None
        else digits_loop (val div base) base glyphs
          (buffer[32 - 1 - len := glyphs ! unat (val mod base)]) (Suc len)
      else Some (buffer, len))"
  by pat_completeness auto
termination
  by (relation "measure (\<lambda>(v, b, g, buf, len). 32 - len)") auto

declare digits_loop.simps [simp del]

function pad_loop :: "nat \<Rightarrow> string \<Rightarrow> nat \<Rightarrow> (string \<times> nat) option" where
  "pad_loop width buffer len =
     (if len < width then
        if len \<ge> 32 then None else pad_loop width (buffer[32 - len - 1 := CHR ''0'']) (Suc len)
      else Some (buffer, len))"
  by pat_completeness auto
termination
  by (relation "measure (\<lambda>(w, buf, len). 32 - len)") auto

declare pad_loop.simps [simp del]

definition digits_text :: "u32 \<Rightarrow> u32 \<Rightarrow> u32 \<Rightarrow> string \<Rightarrow> string option" where
  "digits_text val width base glyphs = do {
     (buffer, len) \<leftarrow> digits_loop val base glyphs (replicate 32 NUL) 0;
     let width = (if width = 0 then 1 else width);
     let width = (if width > 32 then 32 else width);
     (buffer, len) \<leftarrow> pad_loop (unat width) buffer len;
     Some (take len (drop (32 - len) buffer))
   }"

definition write_digits :: "'s buffer_sink \<Rightarrow> u32 \<Rightarrow> u32 \<Rightarrow> u32 \<Rightarrow> string \<Rightarrow> 's \<Rightarrow> (u32 \<times> 's) option" where
  "write_digits out val width base glyphs s = do {
     text \<leftarrow> digits_text val width base glyphs;
     call_sink out text s
   }"

text \<open>An argument is a word (an integer or a pointer) or a pointer to characters, with what it points to.\<close>

datatype va_arg = VaWord u32 | VaChars string

text \<open>The length of the string at a pointer; past the end of the object is undefined.\<close>

fun c_strlen :: "string \<Rightarrow> nat option" where
  "c_strlen [] = None"
| "c_strlen (c # s) = (if c = NUL then Some 0 else map_option Suc (c_strlen s))"

definition process_number ::
  "'s buffer_sink \<Rightarrow> u32 \<Rightarrow> u32 \<Rightarrow> string \<Rightarrow> u32 \<Rightarrow> va_arg list \<Rightarrow> 's \<Rightarrow> (u32 \<times> va_arg list \<times> 's) option" where
  "process_number out width base glyphs bytes_written args s =
     (case args of
        VaWord v # args \<Rightarrow> do {
          (n, s) \<leftarrow> write_digits out v width base glyphs s;
          Some (bytes_written + n, args, s)
        }
      | _ \<Rightarrow> None)"

definition process_specifier ::
  "'s buffer_sink \<Rightarrow> format_specifier \<Rightarrow> u32 \<Rightarrow> va_arg list \<Rightarrow> 's \<Rightarrow> (u32 \<times> va_arg list \<times> 's) option" where
  "process_specifier out spec bytes_written args s =
     (let type = spec_type spec in
      if type = CHR ''%'' then do {
        (n, s) \<leftarrow> call_sink out ''%'' s;
        Some (bytes_written + n, args, s)
      }
      else if type = CHR ''c'' then
        (case args of VaWord v # args \<Rightarrow> do {
           (n, s) \<leftarrow> call_sink out [char_of (unat v)] s;
           Some (bytes_written + n, args, s)
         } | _ \<Rightarrow> None)
      else if type = CHR ''s'' then
        (case args of VaChars v # args \<Rightarrow> do {
           len \<leftarrow> c_strlen v;
           (n, s) \<leftarrow> call_sink out (take len v) s;
           Some (bytes_written + n, args, s)
         } | _ \<Rightarrow> None)
      else if type = CHR ''z'' then
        (case args of VaWord len # VaChars v # args \<Rightarrow>
           if unat len > length v then None
           else do {
             (n, s) \<leftarrow> call_sink out (take (unat len) v) s;
             Some (bytes_written + n, args, s)
           }
         | _ \<Rightarrow> None)
      else if type = CHR ''d'' \<or> type = CHR ''i'' then
        (case args of VaWord v # args \<Rightarrow> do {
           (bytes_written, v, s) \<leftarrow>
             (if sint v < 0 then do {
                (n, s) \<leftarrow> call_sink out ''-'' s;
                Some (bytes_written + n, - v, s)
              } else Some (bytes_written, v, s));
           (n, s) \<leftarrow> write_digits out v (spec_width spec) 10 kDigitsLow s;
           Some (bytes_written + n, args, s)
         } | _ \<Rightarrow> None)
      else if type = CHR ''o'' then process_number out (spec_width spec) 8 kDigitsLow bytes_written args s
      else if type = CHR ''p'' then do {
        (n, s) \<leftarrow> call_sink out ''0x'' s;
        process_number out (4 * 2) 16 kDigitsLow (bytes_written + n) args s
      }
      else if type = CHR ''h'' \<or> type = CHR ''x'' then
        process_number out (spec_width spec) 16 kDigitsLow bytes_written args s
      else if type = CHR ''H'' \<or> type = CHR ''X'' then
        process_number out (spec_width spec) 16 kDigitsHigh bytes_written args s
      else if type = CHR ''u'' then process_number out (spec_width spec) 10 kDigitsLow bytes_written args s
      else if type = CHR ''b'' then process_number out (spec_width spec) 2 kDigitsLow bytes_written args s
      else do {
        (n, s) \<leftarrow> call_sink out kUnknownSpec s;
        Some (bytes_written + n, args, s)
      })"

section \<open>The formatter\<close>

lemma length_consume_width: "length (snd (snd (consume_width format w h))) \<le> length format"
  by (induction format w h rule: consume_width.induct) (auto simp: Let_def)

lemma consume_until_percent_length:
  "consume_until_percent out format n s = Some (found, rest, n', s') \<Longrightarrow> length rest \<le> length format"
  by (auto simp: consume_until_percent_def Let_def bind_eq_Some_conv split: if_splits)

lemma consume_until_percent_found:
  "consume_until_percent out format n s = Some (True, rest, n', s') \<Longrightarrow> rest \<noteq> []"
  by (auto simp: consume_until_percent_def Let_def bind_eq_Some_conv c_char_def split: if_splits)

lemma consume_format_specifier_length:
  assumes "consume_format_specifier out format n s = Some (Some spec, rest, n', s')" "format \<noteq> []"
  shows "length rest < length format"
  using assms length_consume_width [of "drop 1 format" 0 False]
  by (cases format)
    (auto simp: consume_format_specifier_def Let_def bind_eq_Some_conv case_prod_unfold split: if_splits)

lemma vfprintf_step_shorter:
  "consume_until_percent out format n s = Some (True, format1, n1, s1) \<Longrightarrow>
   consume_format_specifier out format1 n1 s1 = Some (Some spec, format2, n2, s2) \<Longrightarrow> length format2 < length format"
  using consume_until_percent_length [of out format n s True format1 n1 s1]
    consume_until_percent_found [of out format n s format1 n1 s1]
    consume_format_specifier_length [of out format1 n1 s1 spec format2 n2 s2]
  by simp

function vfprintf_loop ::
  "'s buffer_sink \<Rightarrow> string \<Rightarrow> u32 \<Rightarrow> va_arg list \<Rightarrow> 's \<Rightarrow> (u32 \<times> 's) option" where
  "vfprintf_loop out format bytes_written args s =
     (if c_char format = NUL then Some (bytes_written, s)
      else
        (case consume_until_percent out format bytes_written s of
           None \<Rightarrow> None
         | Some (found, format1, bytes_written1, s1) \<Rightarrow>
           if \<not> found then Some (bytes_written1, s1)
           else
             (case consume_format_specifier out format1 bytes_written1 s1 of
                None \<Rightarrow> None
              | Some (None, _, bytes_written2, s2) \<Rightarrow> Some (bytes_written2, s2)
              | Some (Some spec, format2, bytes_written2, s2) \<Rightarrow>
                (case process_specifier out spec bytes_written2 args s2 of
                   None \<Rightarrow> None
                 | Some (bytes_written3, args3, s3) \<Rightarrow> vfprintf_loop out format2 bytes_written3 args3 s3))))"
  by pat_completeness auto
termination
  by (relation "measure (\<lambda>(out, format, n, args, s). length format)")
    (auto dest: sym intro: vfprintf_step_shorter)

declare vfprintf_loop.simps [simp del]

definition base_vfprintf :: "'s buffer_sink \<Rightarrow> string \<Rightarrow> va_arg list \<Rightarrow> 's \<Rightarrow> (u32 \<times> 's) option" where
  "base_vfprintf out format args s =
     (let out = (if sink_fn out = NULL then out\<lparr>sink_fn := Some base_dev_null\<rparr> else out)
      in vfprintf_loop out format 0 args s)"

definition base_fprintf :: "'s buffer_sink \<Rightarrow> string \<Rightarrow> va_arg list \<Rightarrow> 's \<Rightarrow> (u32 \<times> 's) option" where
  "base_fprintf out format args s = base_vfprintf out format args s"

text \<open>The output functions for the current standard output take it as an argument.\<close>

definition base_vprintf :: "'s buffer_sink \<Rightarrow> string \<Rightarrow> va_arg list \<Rightarrow> 's \<Rightarrow> (u32 \<times> 's) option" where
  "base_vprintf base_stdout format args s = base_vfprintf base_stdout format args s"

definition base_printf :: "'s buffer_sink \<Rightarrow> string \<Rightarrow> va_arg list \<Rightarrow> 's \<Rightarrow> (u32 \<times> 's) option" where
  "base_printf base_stdout format args s = base_vprintf base_stdout format args s"

definition base_snprintf :: "string \<Rightarrow> u32 \<Rightarrow> string \<Rightarrow> va_arg list \<Rightarrow> (u32 \<times> string) option" where
  "base_snprintf buf len format args =
     (case base_vfprintf \<lparr>sink_fn = Some snprintf_sink\<rparr> format args
         \<lparr>captured = buf, buf_pos = 0, bytes_left = len\<rparr> of
        None \<Rightarrow> None
      | Some (n, data) \<Rightarrow> Some (n, captured data))"


section \<open>Digits\<close>

text \<open>The reference: the digits of a number in a base, most significant first, none for 0.\<close>

fun digits :: "nat \<Rightarrow> string \<Rightarrow> nat \<Rightarrow> string" where
  "digits b glyphs n = (if n = 0 \<or> b < 2 then [] else digits b glyphs (n div b) @ [glyphs ! (n mod b)])"

declare digits.simps [simp del]

definition pad_zeros :: "nat \<Rightarrow> string \<Rightarrow> string" where
  "pad_zeros w s = replicate (w - length s) (CHR ''0'') @ s"

lemma digits_0 [simp]: "digits b glyphs 0 = []"
  by (simp add: digits.simps)

lemma digits_step: "0 < n \<Longrightarrow> 2 \<le> b \<Longrightarrow> digits b glyphs n = digits b glyphs (n div b) @ [glyphs ! (n mod b)]"
  by (subst digits.simps) simp

lemma length_digits: "2 \<le> b \<Longrightarrow> n < 2 ^ k \<Longrightarrow> length (digits b glyphs n) \<le> k"
proof (induction k arbitrary: n)
  case (Suc k)
  have "n div b \<le> n div 2" using Suc.prems(1) by (simp add: div_le_mono2)
  also have "\<dots> < 2 ^ k" using Suc.prems(2) by auto
  finally have "length (digits b glyphs (n div b)) \<le> k" using Suc.IH Suc.prems(1) by simp
  then show ?case using Suc.prems(1) by (cases "n = 0") (simp_all add: digits_step)
qed simp

text \<open>The tail of the buffer that holds the characters stored so far.\<close>

definition tail_is :: "string \<Rightarrow> nat \<Rightarrow> string \<Rightarrow> bool" where
  "tail_is buffer len s \<longleftrightarrow> length buffer = 32 \<and> len \<le> 32 \<and> length s = len \<and> drop (32 - len) buffer = s"

lemma tail_is_push: "tail_is buffer len s \<Longrightarrow> len < 32 \<Longrightarrow> tail_is (buffer[31 - len := c]) (Suc len) (c # s)"
proof -
  assume t: "tail_is buffer len s" and l: "len < 32"
  have "drop (31 - len) (buffer[31 - len := c]) = c # drop (Suc (31 - len)) buffer"
    using t l by (simp add: tail_is_def Cons_nth_drop_Suc [symmetric])
  then show ?thesis using t l by (simp add: tail_is_def Suc_diff_le numeral_eq_Suc)
qed

lemma digits_loop_correct:
  assumes "2 \<le> unat base" "tail_is buffer len s" "len + length (digits (unat base) glyphs (unat v)) \<le> 32"
  shows "\<exists>buffer'. digits_loop v base glyphs buffer len = Some (buffer', len + length (digits (unat base) glyphs (unat v)))
    \<and> tail_is buffer' (len + length (digits (unat base) glyphs (unat v))) (digits (unat base) glyphs (unat v) @ s)"
  using assms
proof (induction "unat v" arbitrary: v buffer len s rule: less_induct)
  case less
  show ?case
  proof (cases "v = 0")
    case True
    then show ?thesis using less.prems by (simp add: digits_loop.simps)
  next
    case False
    then have pos: "0 < unat v" by (simp add: unat_gt_0)
    have dv: "unat (v div base) = unat v div unat base" by (simp add: unat_div_distrib)
    have ds: "digits (unat base) glyphs (unat v) =
        digits (unat base) glyphs (unat (v div base)) @ [glyphs ! unat (v mod base)]"
      using digits_step [OF pos less.prems(1)] by (simp add: dv unat_mod_distrib)
    have b: "base \<noteq> 0" "len < 32" using less.prems ds by auto
    have "unat (v div base) < unat v" using pos less.prems(1) by (simp add: dv)
    from less.hyps [OF this less.prems(1) tail_is_push [OF less.prems(2) b(2)], of "glyphs ! unat (v mod base)"]
    show ?thesis
      using less.prems(3) b False by (subst digits_loop.simps) (simp add: ds word_greater_zero_iff)
  qed
qed

lemma pad_loop_correct:
  assumes "tail_is buffer len s" "w \<le> 32"
  shows "\<exists>buffer'. pad_loop w buffer len = Some (buffer', max w len) \<and> tail_is buffer' (max w len) (pad_zeros w s)"
  using assms
proof (induction "w - len" arbitrary: buffer len s)
  case 0
  then have "length s = len" by (simp add: tail_is_def)
  then show ?case using 0 by (simp add: pad_loop.simps pad_zeros_def max_def)
next
  case (Suc k)
  then have l: "len < w" "len < 32" "length s = len" by (auto simp: tail_is_def)
  have "w - len = Suc (w - Suc len)" using l by simp
  then have "pad_zeros w (CHR ''0'' # s) = pad_zeros w s"
    using l by (simp add: pad_zeros_def replicate_app_Cons_same)
  moreover have "max w (Suc len) = max w len" using l by simp
  ultimately show ?case
    using Suc.hyps(1) [OF _ tail_is_push [OF Suc.prems(1) l(2)] Suc.prems(2), of "CHR ''0''"] Suc.hyps(2) l
    by (subst pad_loop.simps) simp
qed

lemma digits_text_correct:
  assumes "2 \<le> unat base"
  shows "digits_text val width base glyphs =
    Some (pad_zeros (max 1 (min 32 (unat width))) (digits (unat base) glyphs (unat val)))"
proof -
  let ?d = "digits (unat base) glyphs (unat val)"
  have t0: "tail_is (replicate 32 NUL) 0 []" by (simp add: tail_is_def)
  have l: "length ?d \<le> 32" using assms by (intro length_digits) simp_all
  from digits_loop_correct [OF assms t0, of glyphs val] l
  obtain b1 where b1: "digits_loop val base glyphs (replicate 32 NUL) 0 = Some (b1, length ?d)"
    "tail_is b1 (length ?d) ?d" by auto
  define w where "w = (let width = if width = 0 then 1 else width in if width > 32 then 32 else width)"
  have w: "unat w = max 1 (min 32 (unat width))"
    by (auto simp: w_def Let_def word_less_nat_alt unat_gt_0 not_less Suc_le_eq)
  from pad_loop_correct [OF b1(2), of "unat w"] w
  obtain b2 where b2: "pad_loop (unat w) b1 (length ?d) = Some (b2, max (unat w) (length ?d))"
    "tail_is b2 (max (unat w) (length ?d)) (pad_zeros (unat w) ?d)" by auto
  have "take (max (unat w) (length ?d)) (drop (32 - max (unat w) (length ?d)) b2) = pad_zeros (unat w) ?d"
    using b2(2) by (auto simp: tail_is_def)
  moreover have run: "digits_text val width base glyphs = pad_loop (unat w) b1 (length ?d) \<bind>
      (\<lambda>(buffer, len). Some (take len (drop (32 - len) buffer)))"
    unfolding w_def by (simp add: digits_text_def b1(1) Let_def)
  ultimately show ?thesis using run b2(1) unfolding w by simp
qed


section \<open>What a sink takes\<close>

text \<open>
  The contract of a sink: it takes as much of the text as it has room for, keeps it in order after what
  it has taken before, and returns how much it took.
\<close>

definition clip :: "enat \<Rightarrow> string \<Rightarrow> string" where
  "clip r s = (case r of enat n \<Rightarrow> take n s | \<infinity> \<Rightarrow> s)"

lemma clip_simps [simp]: "clip r [] = []" "clip \<infinity> s = s" "clip (enat n) s = take n s"
  by (simp_all add: clip_def split: enat.splits)

lemma clip_append: "clip r (s @ t) = clip r s @ clip (r - enat (length s)) t"
  by (cases r) (simp_all add: clip_def)

lemma enat_minus_minus: "r - enat m - enat n = r - enat (m + n)"
  by (cases r) simp_all

locale byte_sink =
  fixes sink :: "'s sink_fun"
    and taken :: "'s \<Rightarrow> string"
    and room :: "'s \<Rightarrow> enat"
    and inv :: "'s \<Rightarrow> bool"
  assumes takes: "inv s \<Longrightarrow> \<exists>s'. sink str s = Some (of_nat (length (clip (room s) str)), s') \<and> inv s'
    \<and> taken s' = taken s @ clip (room s) str \<and> room s' = room s - enat (length str)"
begin

text \<open>A computation emits a text when it hands exactly this text to the sink, and adds its count.\<close>

definition emits :: "string \<Rightarrow> 's \<Rightarrow> u32 \<Rightarrow> u32 \<times> 's \<Rightarrow> bool" where
  "emits str s n r \<longleftrightarrow> fst r = n + of_nat (length (clip (room s) str)) \<and> inv (snd r)
    \<and> taken (snd r) = taken s @ clip (room s) str \<and> room (snd r) = room s - enat (length str)"

lemma emits_Nil: "inv s \<Longrightarrow> emits [] s n (n, s)"
  by (cases "room s") (simp_all add: emits_def)

lemma emits_trans: "emits t s n (n1, s1) \<Longrightarrow> emits t' s1 n1 r \<Longrightarrow> emits (t @ t') s n r"
  by (simp add: emits_def clip_append enat_minus_minus)

lemma emits_inv: "emits t s n (n1, s1) \<Longrightarrow> inv s1"
  by (simp add: emits_def)

lemma call_emits:
  "inv s \<Longrightarrow> \<exists>k s'. call_sink \<lparr>sink_fn = Some sink\<rparr> str s = Some (k, s') \<and> (\<forall>n. emits str s n (n + k, s'))"
  using takes [of s str] by (auto simp: call_sink_def emits_def)

end


section \<open>What a format means\<close>

text \<open>
  A format is a sequence of pieces, each with its argument. \<open>Num\<close> has the specifier's letter, the width
  (0 for none) and the word; \<open>Str\<close> has what follows the string's NUL in memory, \<open>Sized\<close> what follows the
  part to be printed.
\<close>

datatype fmt_item =
    Text string
  | Percent
  | Chr u32
  | Str string string
  | Sized string string
  | Num char u32 u32
  | Pointer u32

definition num_base :: "char \<Rightarrow> (nat \<times> string) option" where
  "num_base c =
     (if c \<in> {CHR ''d'', CHR ''i'', CHR ''u''} then Some (10, kDigitsLow)
      else if c = CHR ''o'' then Some (8, kDigitsLow)
      else if c = CHR ''b'' then Some (2, kDigitsLow)
      else if c \<in> {CHR ''x'', CHR ''h''} then Some (16, kDigitsLow)
      else if c \<in> {CHR ''X'', CHR ''H''} then Some (16, kDigitsHigh)
      else None)"

fun item_ok :: "fmt_item \<Rightarrow> bool" where
  "item_ok (Text t) \<longleftrightarrow> NUL \<notin> set t \<and> CHR ''%'' \<notin> set t"
| "item_ok (Str s _) \<longleftrightarrow> NUL \<notin> set s"
| "item_ok (Sized s _) \<longleftrightarrow> length s < 4294967296"
| "item_ok (Num c w _) \<longleftrightarrow> num_base c \<noteq> None \<and> w \<le> 32"
| "item_ok _ \<longleftrightarrow> True"

fun unparse :: "fmt_item \<Rightarrow> string" where
  "unparse (Text t) = t"
| "unparse Percent = ''%%''"
| "unparse (Chr _) = ''%c''"
| "unparse (Str _ _) = ''%s''"
| "unparse (Sized _ _) = ''%z''"
| "unparse (Num c w _) = CHR ''%'' # digits 10 kDigitsLow (unat w) @ [c]"
| "unparse (Pointer _) = ''%p''"

fun item_args :: "fmt_item \<Rightarrow> va_arg list" where
  "item_args (Chr v) = [VaWord v]"
| "item_args (Str s rest) = [VaChars (s @ NUL # rest)]"
| "item_args (Sized s rest) = [VaWord (of_nat (length s)), VaChars (s @ rest)]"
| "item_args (Num _ _ v) = [VaWord v]"
| "item_args (Pointer v) = [VaWord v]"
| "item_args _ = []"

text \<open>The numerals are those of the integer the argument stands for.\<close>

definition numeral_of :: "nat \<Rightarrow> string \<Rightarrow> nat \<Rightarrow> nat \<Rightarrow> string" where
  "numeral_of b glyphs w n = pad_zeros (max 1 w) (digits b glyphs n)"

fun render :: "fmt_item \<Rightarrow> string" where
  "render (Text t) = t"
| "render Percent = ''%''"
| "render (Chr v) = [char_of (unat v)]"
| "render (Str s _) = s"
| "render (Sized s _) = s"
| "render (Num c w v) =
     (case num_base c of None \<Rightarrow> ''''
      | Some (b, glyphs) \<Rightarrow>
        if c \<in> {CHR ''d'', CHR ''i''} \<and> sint v < 0 then ''-'' @ numeral_of b glyphs (unat w) (nat (- sint v))
        else numeral_of b glyphs (unat w) (unat v))"
| "render (Pointer v) = ''0x'' @ numeral_of 16 kDigitsLow 8 (unat v)"

abbreviation format_of :: "fmt_item list \<Rightarrow> string" where
  "format_of items \<equiv> concat (map unparse items)"

abbreviation args_of :: "fmt_item list \<Rightarrow> va_arg list" where
  "args_of items \<equiv> concat (map item_args items)"

abbreviation render_all :: "fmt_item list \<Rightarrow> string" where
  "render_all items \<equiv> concat (map render items)"

lemma text_len_append:
  "NUL \<notin> set t \<Longrightarrow> CHR ''%'' \<notin> set t \<Longrightarrow> text_len (t @ rest) = length t + text_len rest"
  by (induction t) auto

lemma c_strlen_append: "NUL \<notin> set s \<Longrightarrow> c_strlen (s @ NUL # rest) = Some (length s)"
  by (induction s) auto

lemma c_char_simps [simp]: "c_char [] = NUL" "c_char (c # s) = c"
  by (simp_all add: c_char_def)

lemma unat_minus_neg: "sint (v :: u32) < 0 \<Longrightarrow> unat (- v) = nat (- sint v)"
proof -
  assume n: "sint v < 0"
  have r: "- (2 ^ 31) \<le> sint v" using sint_ge [of v] by simp
  have "- v = word_of_int (- sint v)" by simp
  then have "uint (- v) = (- sint v) mod 2 ^ 32" by (simp only: uint_word_of_int) simp
  also have "\<dots> = - sint v" using n r by (intro mod_pos_pos_trivial) auto
  finally show ?thesis by (metis nat_uint_eq)
qed

lemma consume_width_digit:
  "d < 10 \<Longrightarrow> consume_width ((kDigitsLow ! d) # rest) w h = consume_width rest (w * 10 + of_nat d) True"
proof -
  assume "d < 10"
  then have "d \<in> {0, 1, 2, 3, 4, 5, 6, 7, 8, 9}" by auto
  then show ?thesis by (auto simp: kDigitsLow_def)
qed

lemma consume_width_digits:
  "consume_width (digits 10 kDigitsLow n @ rest) 0 False = consume_width rest (of_nat n) (0 < n)"
proof (induction n arbitrary: rest rule: less_induct)
  case (less n)
  show ?case
  proof (cases "n = 0")
    case False
    then have "n div 10 < n" by simp
    have "consume_width (digits 10 kDigitsLow n @ rest) 0 False =
        consume_width ((kDigitsLow ! (n mod 10)) # rest) (of_nat (n div 10)) (0 < n div 10)"
      using False less.IH [OF \<open>n div 10 < n\<close>] by (simp add: digits_step)
    also have "\<dots> = consume_width rest (of_nat (n div 10) * 10 + of_nat (n mod 10)) True"
      by (rule consume_width_digit) simp
    also have "of_nat (n div 10) * 10 + of_nat (n mod 10) = (of_nat (n div 10 * 10 + n mod 10) :: u32)"
      by (simp only: of_nat_add of_nat_mult) simp
    finally show ?thesis using False by (simp add: div_mult_mod_eq)
  qed simp
qed


section \<open>The formatter meets its meaning\<close>

text \<open>The specifier a piece that is not plain text is parsed to.\<close>

fun item_spec :: "fmt_item \<Rightarrow> format_specifier" where
  "item_spec (Num c w _) = \<lparr>spec_type = c, spec_width = w\<rparr>"
| "item_spec Percent = \<lparr>spec_type = CHR ''%'', spec_width = 0\<rparr>"
| "item_spec (Chr _) = \<lparr>spec_type = CHR ''c'', spec_width = 0\<rparr>"
| "item_spec (Str _ _) = \<lparr>spec_type = CHR ''s'', spec_width = 0\<rparr>"
| "item_spec (Sized _ _) = \<lparr>spec_type = CHR ''z'', spec_width = 0\<rparr>"
| "item_spec _ = \<lparr>spec_type = CHR ''p'', spec_width = 0\<rparr>"

fun is_text :: "fmt_item \<Rightarrow> bool" where
  "is_text (Text _) = True"
| "is_text _ = False"

lemma num_base_char:
  "num_base c \<noteq> None \<Longrightarrow> c \<in> set ''diuobxhXH''"
  by (auto simp: num_base_def split: if_splits)

lemma parse_item:
  assumes "item_ok i" "\<not> is_text i"
  shows "consume_format_specifier out (unparse i @ rest) n s = Some (Some (item_spec i), rest, n, s)"
proof (cases i)
  case (Num c w v)
  then have c: "c \<in> set ''diuobxhXH''" and w: "w \<le> 32" using assms num_base_char by auto
  have "consume_width (digits 10 kDigitsLow (unat w) @ c # rest) 0 False = (w, 0 < unat w, c # rest)"
    using c by (subst consume_width_digits) auto
  then show ?thesis
    using c w by (auto simp: Num consume_format_specifier_def Let_def)
qed (use assms in \<open>simp_all add: consume_format_specifier_def Let_def\<close>)

lemma unparse_start: "item_ok i \<Longrightarrow> \<not> is_text i \<Longrightarrow> \<exists>u. unparse i = CHR ''%'' # u"
  by (cases i) auto

context byte_sink
begin

abbreviation the_sink :: "'s buffer_sink" where
  "the_sink \<equiv> \<lparr>sink_fn = Some sink\<rparr>"

lemma write_digits_emits:
  assumes "2 \<le> unat base" "inv s"
  shows "\<exists>k s'. write_digits the_sink v width base glyphs s = Some (k, s')
    \<and> (\<forall>n. emits (numeral_of (unat base) glyphs (min 32 (unat width)) (unat v)) s n (n + k, s'))"
  using call_emits [OF assms(2)] digits_text_correct [OF assms(1)]
  by (simp add: write_digits_def numeral_of_def)

lemma process_number_emits:
  assumes "2 \<le> unat base" "inv s" "unat width \<le> 32"
  shows "\<exists>n' s'. process_number the_sink width base glyphs n (VaWord v # args) s = Some (n', args, s')
    \<and> emits (numeral_of (unat base) glyphs (unat width) (unat v)) s n (n', s')"
  using write_digits_emits [OF assms(1,2), of v width glyphs] assms(3)
  by (auto simp: process_number_def)

lemma process_item:
  assumes "item_ok i" "\<not> is_text i" "inv s"
  shows "\<exists>n' s'. process_specifier the_sink (item_spec i) n (item_args i @ args) s = Some (n', args, s')
    \<and> emits (render i) s n (n', s')"
proof -
  obtain k0 s0 where s0: "call_sink the_sink (render i) s = Some (k0, s0)" "\<And>n. emits (render i) s n (n + k0, s0)"
    using call_emits [OF assms(3)] by blast
  show ?thesis
  proof (cases i)
    case (Num c w v)
    then obtain b glyphs where b: "num_base c = Some (b, glyphs)" and w: "unat w \<le> 32"
      using assms by (auto simp: word_le_nat_alt)
    show ?thesis
    proof (cases "c \<in> {CHR ''d'', CHR ''i''}")
      case True
      then have b10: "b = 10" "glyphs = kDigitsLow" using b by (auto simp: num_base_def)
      show ?thesis
      proof (cases "sint v < 0")
        case neg: True
        obtain k s1 where s1: "call_sink the_sink ''-'' s = Some (k, s1)" "\<And>n. emits ''-'' s n (n + k, s1)"
          using call_emits [OF assms(3)] by blast
        from write_digits_emits [of 10 s1 "- v" w kDigitsLow] emits_inv [OF s1(2)]
        obtain k2 s2 where s2: "write_digits the_sink (- v) w 10 kDigitsLow s1 = Some (k2, s2)"
          "\<And>n. emits (numeral_of 10 kDigitsLow (unat w) (unat (- v))) s1 n (n + k2, s2)"
          using w by auto
        have "emits (render i) s n (n + k + k2, s2)"
          using emits_trans [OF s1(2) s2(2)] True neg b b10 by (simp add: Num unat_minus_neg)
        then show ?thesis
          using True neg s1(1) s2(1) by (auto simp: Num process_specifier_def Let_def)
      next
        case False
        from write_digits_emits [of 10 s v w kDigitsLow] assms(3) w
        show ?thesis using True False b b10 by (auto simp: Num process_specifier_def Let_def)
      qed
    next
      case False
      then show ?thesis
        using b w assms(3) num_base_char [of c]
          process_number_emits [of "of_nat b" s w glyphs n v args]
        by (auto simp: Num process_specifier_def Let_def num_base_def split: if_splits)
    qed
  next
    case (Pointer v)
    obtain k s1 where s1: "call_sink the_sink ''0x'' s = Some (k, s1)" "\<And>n. emits ''0x'' s n (n + k, s1)"
      using call_emits [OF assms(3)] by blast
    from process_number_emits [of 16 s1 "4 * 2" kDigitsLow "n + k" v args] emits_inv [OF s1(2)]
    obtain n2 s2 where "process_number the_sink (4 * 2) 16 kDigitsLow (n + k) (VaWord v # args) s1 = Some (n2, args, s2)"
      "emits (numeral_of 16 kDigitsLow 8 (unat v)) s1 (n + k) (n2, s2)" by auto
    then show ?thesis
      using s1(1) emits_trans [OF s1(2), of _ n] by (auto simp: Pointer process_specifier_def Let_def)
  qed (use assms s0 in \<open>simp_all add: process_specifier_def Let_def c_strlen_append unat_of_nat_u32\<close>)
qed

end


context byte_sink
begin

text \<open>Plain text, then the pieces: the text in front of the first specifier is one call of the sink.\<close>

lemma text_emits:
  assumes "NUL \<notin> set t" "CHR ''%'' \<notin> set t" "text_len rest = 0" "inv s"
  shows "\<exists>n1 s1. consume_until_percent the_sink (t @ rest) n s = Some (c_char rest \<noteq> NUL, rest, n1, s1)
    \<and> emits t s n (n1, s1)"
proof -
  have len: "text_len (t @ rest) = length t" using assms(1-3) by (simp add: text_len_append)
  obtain k s1 where "call_sink the_sink t s = Some (k, s1)" "\<And>n. emits t s n (n + k, s1)"
    using call_emits [OF assms(4)] by blast
  then show ?thesis
    using len assms(4) emits_Nil by (cases "t = []") (auto simp: consume_until_percent_def Let_def)
qed

lemma vfprintf_items:
  assumes "\<forall>i \<in> set items. item_ok i" "NUL \<notin> set t" "CHR ''%'' \<notin> set t" "inv s"
  shows "\<exists>r. vfprintf_loop the_sink (t @ format_of items) n (args_of items @ args) s = Some r
    \<and> emits (t @ render_all items) s n r"
  using assms
proof (induction items arbitrary: t s n)
  case Nil
  show ?case
  proof (cases "t = []")
    case True
    then show ?thesis using Nil.prems emits_Nil by (simp add: vfprintf_loop.simps)
  next
    case False
    moreover have "c_char t \<noteq> NUL" using False Nil.prems by (cases t) auto
    ultimately show ?thesis
      using text_emits [of t "[]" s n] Nil.prems by (auto simp: vfprintf_loop.simps)
  qed
next
  case (Cons i items)
  show ?case
  proof (cases "is_text i")
    case True
    then obtain u where "i = Text u" by (cases i) auto
    then show ?thesis using Cons.IH [of "t @ u" s n] Cons.prems by auto
  next
    case False
    let ?rest = "unparse i @ format_of items"
    from unparse_start [of i] False Cons.prems obtain u where u: "unparse i = CHR ''%'' # u" by auto
    from text_emits [of t ?rest s n] u Cons.prems
    obtain n1 s1 where s1: "consume_until_percent the_sink (t @ ?rest) n s = Some (True, ?rest, n1, s1)"
      "emits t s n (n1, s1)" by auto
    have parse: "consume_format_specifier the_sink ?rest n1 s1 = Some (Some (item_spec i), format_of items, n1, s1)"
      using False Cons.prems by (intro parse_item) auto
    from process_item [of i s1 n1 "args_of items @ args"] emits_inv [OF s1(2)] False Cons.prems
    obtain n2 s2 where s2: "process_specifier the_sink (item_spec i) n1 (args_of (i # items) @ args) s1
        = Some (n2, args_of items @ args, s2)" "emits (render i) s1 n1 (n2, s2)" by auto
    from Cons.IH [of "[]" s2 n2] emits_inv [OF s2(2)] Cons.prems
    obtain r where r: "vfprintf_loop the_sink (format_of items) n2 (args_of items @ args) s2 = Some r"
      "emits (render_all items) s2 n2 r" by auto
    have "c_char (t @ ?rest) \<noteq> NUL" using u Cons.prems(2) by (cases t) auto
    then have "vfprintf_loop the_sink (t @ format_of (i # items)) n (args_of (i # items) @ args) s = Some r"
      using s1(1) parse s2(1) r(1) by (subst vfprintf_loop.simps) simp
    moreover have "emits (t @ render_all (i # items)) s n r"
      using emits_trans [OF s1(2)] emits_trans [OF s2(2)] r(2) by (metis concat.simps(2) list.simps(9) prod.collapse)
    ultimately show ?thesis by blast
  qed
qed

lemma vfprintf_correct:
  assumes "\<forall>i \<in> set items. item_ok i" "inv s"
  shows "\<exists>s'. base_vfprintf the_sink (format_of items) (args_of items @ args) s
      = Some (of_nat (length (clip (room s) (render_all items))), s')
    \<and> inv s' \<and> taken s' = taken s @ clip (room s) (render_all items)"
  using vfprintf_items [of items "[]" s 0 args] assms by (auto simp: base_vfprintf_def emits_def)

end

section \<open>The buffer of snprintf\<close>

interpretation snprintf: byte_sink snprintf_sink
    "\<lambda>c. take (buf_pos c) (captured c)" "\<lambda>c. enat (unat (bytes_left c))"
    "\<lambda>c. buf_pos c + unat (bytes_left c) \<le> length (captured c) \<and> length (captured c) = length buf0
       \<and> drop (buf_pos c) (captured c) = drop (buf_pos c) buf0"
  for buf0
proof
  fix c :: snprintf_captures and str :: string
  assume inv: "buf_pos c + unat (bytes_left c) \<le> length (captured c) \<and> length (captured c) = length buf0
    \<and> drop (buf_pos c) (captured c) = drop (buf_pos c) buf0"
  define len where "len = (if length str > unat (bytes_left c) then unat (bytes_left c) else length str)"
  have len: "len \<le> unat (bytes_left c)" "len = min (length str) (unat (bytes_left c))" by (auto simp: len_def)
  have "unat (of_nat len :: u32) = len" using len(1) unat_u32_bound [of "bytes_left c"]
    by (intro unat_of_nat_u32) (rule le_less_trans)
  then have u: "unat (bytes_left c - of_nat len) = unat (bytes_left c) - len"
    using len(1) by (simp add: unat_sub_if')
  have clip: "clip (enat (unat (bytes_left c))) str = take len str" by (simp add: len(2) min_def)
  show "\<exists>c'. snprintf_sink str c = Some (of_nat (length (clip (enat (unat (bytes_left c))) str)), c')
      \<and> (buf_pos c' + unat (bytes_left c') \<le> length (captured c') \<and> length (captured c') = length buf0
        \<and> drop (buf_pos c') (captured c') = drop (buf_pos c') buf0)
      \<and> take (buf_pos c') (captured c') = take (buf_pos c) (captured c) @ clip (enat (unat (bytes_left c))) str
      \<and> enat (unat (bytes_left c')) = enat (unat (bytes_left c)) - enat (length str)"
  proof (cases "bytes_left c = 0")
    case True
    then show ?thesis using inv by (simp add: snprintf_sink_def)
  next
    case False
    then have "snprintf_sink str c = Some (of_nat len,
        c\<lparr>captured := take (buf_pos c) (captured c) @ take len str @ drop (buf_pos c + len) (captured c),
          buf_pos := buf_pos c + len, bytes_left := bytes_left c - of_nat len\<rparr>)"
      using inv len(1) by (simp add: snprintf_sink_def len_def [symmetric] Let_def)
    moreover have "drop (buf_pos c + len) (captured c) = drop (buf_pos c + len) buf0"
      using inv by (metis add.commute drop_drop)
    ultimately show ?thesis
      using inv len u by (auto simp: clip min_def split: if_splits)
  qed
qed

section \<open>The UART as standard output\<close>

text \<open>A transmitter that always has room and is always idle again by the next look.\<close>

definition uart_ready :: "dif_uart \<Rightarrow> world \<Rightarrow> bool" where
  "uart_ready u w \<longleftrightarrow> (\<forall>h. let v = dev32 w h (uart_addr u UART_STATUS_REG_OFFSET) in \<not> bit v 0 \<and> bit v 3)"

definition uart_sent :: "dif_uart \<Rightarrow> world \<Rightarrow> string" where
  "uart_sent u w = map (\<lambda>v. char_of (unat v)) (writes_to (uart_addr u UART_WDATA_REG_OFFSET) (trace w))"

lemma uart_send_char:
  assumes "uart_ready u w"
  shows "\<exists>w'. dif_uart_byte_send_polled (Some u) (of_char c) w = Some (kDifUartOk, w') \<and> uart_ready u w'
    \<and> uart_sent u w' = uart_sent u w @ [c]"
proof -
  have v: "\<not> bit (dev32 w h (uart_addr u 0x10)) 0" "bit (dev32 w h (uart_addr u 0x10)) 3" for h
    using assms by (simp_all add: uart_ready_def Let_def)
  have "\<exists>w'. dif_uart_byte_send_polled (Some u) (of_char c) w = Some (kDifUartOk, w')
    \<and> writes_to (uart_addr u UART_WDATA_REG_OFFSET) (trace w') =
        writes_to (uart_addr u UART_WDATA_REG_OFFSET) (trace w) @ [ucast (of_char c :: u8)]
    \<and> (\<forall>a. a \<noteq> uart_addr u UART_WDATA_REG_OFFSET \<longrightarrow> writes_to a (trace w') = writes_to a (trace w))
    \<and> dev32 w' = dev32 w"
  proof (rule byte_send_polled_run)
    show "\<exists>n. \<not> fst (run_state (uart_tx_full u) (polls (uart_tx_full u) n w))"
      using v by (intro exI [of _ 0]) (simp add: io_simps cur32_def)
    show "tx_not_full_stable u w" using v by (simp add: tx_not_full_stable_def Let_def)
    show "\<exists>n. fst (run_state (uart_tx_idle u) (polls (uart_tx_idle u) n w1))" if "dev32 w1 = dev32 w" for w1
      using v that by (intro exI [of _ 0]) (simp add: io_simps cur32_def)
  qed
  moreover have "char_of (unat (ucast (of_char c :: u8) :: u32)) = c"
  proof -
    have "unat (of_char c :: u8) = take_bit 8 (of_char c)"
      using unsigned_of_nat [of "of_char c :: nat", where ?'b = 8 and ?'a = nat] by (simp add: of_nat_of_char)
    then show ?thesis by (simp add: char_of_take_bit_eq)
  qed
  ultimately show ?thesis using assms by (auto simp: uart_sent_def uart_ready_def)
qed

lemma uart_send_chars:
  assumes "uart_ready u w"
  shows "\<exists>w'. base_dev_uart_from (Some u) i buf w = Some (of_nat (i + length buf), w') \<and> uart_ready u w'
    \<and> uart_sent u w' = uart_sent u w @ buf"
  using assms
proof (induction buf arbitrary: i w)
  case (Cons c buf)
  from uart_send_char [OF Cons.prems, of c] obtain w1 where
    w1: "dif_uart_byte_send_polled (Some u) (of_char c) w = Some (kDifUartOk, w1)" "uart_ready u w1"
      "uart_sent u w1 = uart_sent u w @ [c]" by blast
  from Cons.IH [OF w1(2), of "Suc i"] show ?case using w1(1,3) by (auto simp: add.commute)
qed simp

interpretation uart_out: byte_sink "base_dev_uart (Some u)" "uart_sent u" "\<lambda>_. \<infinity>" "uart_ready u"
  for u
proof
  fix w :: world and str :: string
  assume "uart_ready u w"
  from uart_send_chars [OF this, of 0 str]
  show "\<exists>w'. base_dev_uart (Some u) str w = Some (of_nat (length (clip \<infinity> str)), w') \<and> uart_ready u w'
      \<and> uart_sent u w' = uart_sent u w @ clip \<infinity> str \<and> (\<infinity> :: enat) = \<infinity> - enat (length str)"
    by (auto simp: base_dev_uart_def)
qed


section \<open>Properties\<close>

text \<open>
  C20. Printing into a buffer. For every format built from pieces (text, the specifiers with a width of at
  most 32 or none) and matching arguments, base_snprintf writes the rendered text, cut off at the given
  length, to the front of the buffer, leaves every other byte of it alone, and returns how many bytes it
  wrote. In particular it never writes past the length, and it never appends a NUL.
\<close>

theorem base_snprintf_correct:
  assumes "\<forall>i \<in> set items. item_ok i" "unat len \<le> length buf"
  shows "base_snprintf buf len (format_of items) (args_of items @ args) =
    (let out = take (unat len) (render_all items) in Some (of_nat (length out), out @ drop (length out) buf))"
proof -
  let ?c = "\<lparr>captured = buf, buf_pos = 0, bytes_left = len\<rparr>"
  from snprintf.vfprintf_correct [of items ?c buf args] assms
  obtain c where c: "base_vfprintf \<lparr>sink_fn = Some snprintf_sink\<rparr> (format_of items) (args_of items @ args) ?c
      = Some (of_nat (length (take (unat len) (render_all items))), c)"
    "buf_pos c \<le> length (captured c)" "drop (buf_pos c) (captured c) = drop (buf_pos c) buf"
    "take (buf_pos c) (captured c) = take (unat len) (render_all items)" by auto
  have "captured c = take (unat len) (render_all items) @ drop (length (take (unat len) (render_all items))) buf"
    using c(2-4) by (metis append_take_drop_id length_take min_absorb2)
  then show ?thesis by (simp add: base_snprintf_def c(1) Let_def)
qed

theorem base_snprintf_correct_witness:
  "base_snprintf ''..........'' 9 ''a=%4x %d!'' [VaWord 0xbeef, VaWord (- 7)] = Some (9, ''a=beef -7.'')"
proof -
  let ?items = "[Text ''a='', Num (CHR ''x'') 4 0xbeef, Text '' '', Num (CHR ''d'') 0 (- 7), Text ''!'']"
  have d: "digits 16 kDigitsLow 0xbeef = ''beef''" "digits 10 kDigitsLow 7 = ''7''" "digits 10 kDigitsLow 4 = ''4''"
    by (simp_all add: digits_step kDigitsLow_def)
  have "base_snprintf ''..........'' 9 (format_of ?items) (args_of ?items @ [])
      = (let out = take (unat (9 :: u32)) (render_all ?items)
         in Some (of_nat (length out), out @ drop (length out) ''..........''))"
    by (rule base_snprintf_correct) (simp_all add: num_base_def word_le_nat_alt)
  then show ?thesis
    by (simp add: d num_base_def numeral_of_def pad_zeros_def Let_def)
qed

text \<open>
  C21. Printing to the UART: after base_uart_stdout on a device whose transmitter is always ready,
  base_printf returns, sends exactly the rendered text, in order, and returns its length.
\<close>

theorem base_printf_uart_correct:
  assumes "\<forall>i \<in> set items. item_ok i" "uart_ready u w"
  shows "\<exists>w'. base_printf (base_uart_stdout (Some u)) (format_of items) (args_of items @ args) w
      = Some (of_nat (length (render_all items)), w')
    \<and> uart_sent u w' = uart_sent u w @ render_all items"
proof -
  have "base_uart_stdout (Some u) = \<lparr>sink_fn = Some (base_dev_uart (Some u))\<rparr>"
    by (simp add: base_uart_stdout_def base_set_stdout_def)
  then show ?thesis
    using uart_out.vfprintf_correct [OF assms, of args] by (auto simp: base_printf_def base_vprintf_def)
qed

theorem base_printf_uart_correct_witness:
  "\<exists>w'. base_printf (base_uart_stdout (Some uart0)) ''%u%%'' [VaWord 42] idle_uart = Some (3, w')
     \<and> uart_sent uart0 w' = ''42%''"
proof -
  have d: "digits 10 kDigitsLow 42 = ''42''" by (simp add: digits_step kDigitsLow_def)
  have "\<exists>w'. base_printf (base_uart_stdout (Some uart0)) (format_of [Num (CHR ''u'') 0 42, Percent])
        (args_of [Num (CHR ''u'') 0 42, Percent] @ []) idle_uart
      = Some (of_nat (length (render_all [Num (CHR ''u'') 0 42, Percent])), w')
    \<and> uart_sent uart0 w' = uart_sent uart0 idle_uart @ render_all [Num (CHR ''u'') 0 42, Percent]"
  proof (rule base_printf_uart_correct)
    have "bit (8 :: u32) 3" by code_simp
    then show "uart_ready uart0 idle_uart" by (simp add: uart_ready_def idle_uart_def)
  qed (simp add: num_base_def)
  then show ?thesis by (simp add: d num_base_def numeral_of_def pad_zeros_def uart_sent_def idle_uart_def)
qed

text \<open>Reading a numeral back: the place of each character among the glyphs is its digit.\<close>

definition glyph_value :: "string \<Rightarrow> char \<Rightarrow> nat" where
  "glyph_value glyphs c = length (takeWhile (\<lambda>g. g \<noteq> c) glyphs)"

definition read_numeral :: "nat \<Rightarrow> string \<Rightarrow> string \<Rightarrow> nat" where
  "read_numeral b glyphs s = foldl (\<lambda>n c. n * b + glyph_value glyphs c) 0 s"

lemma glyph_value_nth: "distinct glyphs \<Longrightarrow> d < length glyphs \<Longrightarrow> glyph_value glyphs (glyphs ! d) = d"
proof -
  assume g: "distinct glyphs" "d < length glyphs"
  have "takeWhile (\<lambda>g. g \<noteq> glyphs ! d) glyphs = take d glyphs"
    using g by (intro takeWhile_eq_take_P_nth) (auto simp: nth_eq_iff_index_eq)
  then show ?thesis using g by (simp add: glyph_value_def)
qed

lemma read_digits:
  assumes "distinct glyphs" "b \<le> length glyphs" "2 \<le> b"
  shows "read_numeral b glyphs (digits b glyphs n) = n"
proof (induction n rule: less_induct)
  case (less n)
  then show ?case
  proof (cases "n = 0")
    case False
    have m: "n mod b < length glyphs" using assms by (meson less_le_trans mod_less_divisor zero_less_numeral)
    have "n div b < n" using False assms(3) by simp
    then show ?thesis
      using False assms less glyph_value_nth [OF assms(1) m] by (simp add: digits_step read_numeral_def)
  qed (simp add: read_numeral_def)
qed

lemma num_base_cases:
  "num_base c = Some (b, glyphs) \<Longrightarrow> (glyphs = kDigitsLow \<or> glyphs = kDigitsHigh) \<and> (b = 2 \<or> b = 8 \<or> b = 10 \<or> b = 16)"
  by (auto simp: num_base_def split: if_splits)

lemma kDigits_facts:
  "distinct kDigitsLow" "distinct kDigitsHigh" "length kDigitsLow = 16" "length kDigitsHigh = 16"
  "glyph_value kDigitsLow (CHR ''0'') = 0" "glyph_value kDigitsHigh (CHR ''0'') = 0"
  by (simp_all add: kDigitsLow_def kDigitsHigh_def glyph_value_def)

lemma foldl_zeros: "glyph_value glyphs c = 0 \<Longrightarrow> foldl (\<lambda>n c. n * b + glyph_value glyphs c) 0 (replicate k c @ s) = foldl (\<lambda>n c. n * b + glyph_value glyphs c) 0 s"
  by (induction k) auto

text \<open>
  C22. The digits written for a word, in any of the bases of the specifiers and with any width, read back
  as the word; there are at least as many as the width asks for (one if it asks for none), at most 32,
  and no store leaves the digit buffer.
\<close>

theorem digits_text_roundtrip:
  assumes "num_base c = Some (b, glyphs)"
  shows "\<exists>s. digits_text val width (of_nat b) glyphs = Some s \<and> read_numeral b glyphs s = unat val
    \<and> max 1 (min 32 (unat width)) \<le> length s \<and> length s \<le> 32
    \<and> (length s > max 1 (min 32 (unat width)) \<longrightarrow> length s = length (digits b glyphs (unat val)))"
proof -
  have g: "distinct glyphs" "b \<le> length glyphs" "2 \<le> b" "b \<le> 16" "glyph_value glyphs (CHR ''0'') = 0"
    using num_base_cases [OF assms] by (elim disjE conjE; simp add: kDigits_facts)+
  have b: "unat (of_nat b :: u32) = b" by (rule unat_of_nat_u32) (use g(4) in linarith)
  have "length (digits b glyphs (unat val)) \<le> 32" using g(3) by (intro length_digits) simp_all
  moreover have "read_numeral b glyphs (pad_zeros w (digits b glyphs n)) = n" for w n
    using read_digits [OF g(1-3), of n] foldl_zeros [OF g(5)] by (simp add: pad_zeros_def read_numeral_def)
  moreover have "length (pad_zeros w s) = max w (length s)" for w s by (simp add: pad_zeros_def)
  ultimately show ?thesis
    using digits_text_correct [of "of_nat b" val width glyphs] b g(3) by (simp add: max_def)
qed

theorem digits_text_roundtrip_witness:
  "\<exists>s. digits_text 0xcafe 6 16 kDigitsLow = Some s \<and> read_numeral 16 kDigitsLow s = 0xcafe \<and> length s = 6"
proof -
  have d: "digits 16 kDigitsLow 0xcafe = ''cafe''" by (simp add: digits_step kDigitsLow_def)
  have "num_base (CHR ''x'') = Some (16, kDigitsLow)" by (simp add: num_base_def)
  from digits_text_roundtrip [OF this, of "0xcafe" 6] show ?thesis by (auto simp: d)
qed

text \<open>
  The width of a specifier is accumulated modulo \<open>2 ^ 32\<close> before it is checked: the parser accepts a
  numeral exactly when its residue is between 1 and 32, so a width such as 4294967297 passes as 1. A
  numeral with any other residue makes it print the bad-width message and stop.
\<close>

lemma consume_format_specifier_width:
  assumes "0 < n"
  shows "consume_format_specifier out (CHR ''%'' # digits 10 kDigitsLow n @ CHR ''u'' # rest) k s =
    (if n mod 2 ^ 32 \<in> {1..32}
     then Some (Some \<lparr>spec_type = CHR ''u'', spec_width = of_nat n\<rparr>, rest, k, s)
     else map_option (\<lambda>(m, s'). (None, digits 10 kDigitsLow n @ CHR ''u'' # rest, k + m, s'))
       (call_sink out kErrorTooWide s))"
proof -
  have n: "unat (of_nat n :: u32) = n mod 2 ^ 32" by (simp add: unat_of_nat take_bit_eq_mod)
  have "(of_nat n :: u32) = 0 \<or> (of_nat n :: u32) > 32 \<longleftrightarrow> n mod 2 ^ 32 \<notin> {1..32}"
    by (simp add: word_less_nat_alt n word_unat_eq_iff not_le Suc_le_eq)
  moreover have "consume_width (digits 10 kDigitsLow n @ CHR ''u'' # rest) 0 False = (of_nat n, True, CHR ''u'' # rest)"
    using assms by (subst consume_width_digits) simp
  ultimately show ?thesis
    by (cases "call_sink out kErrorTooWide s") (auto simp: consume_format_specifier_def Let_def)
qed

lemma consume_format_specifier_width_witness:
  "consume_format_specifier \<lparr>sink_fn = Some base_dev_null\<rparr> ''%4294967297u'' 0 () =
    Some (Some \<lparr>spec_type = CHR ''u'', spec_width = 1\<rparr>, '''', 0, ())"
proof -
  have "digits 10 kDigitsLow 4294967297 = ''4294967297''" by (simp add: digits_step kDigitsLow_def)
  then show ?thesis
    using consume_format_specifier_width [of 4294967297 "\<lparr>sink_fn = Some base_dev_null\<rparr>" "[]" 0 "()"] by simp
qed


end
