(* ===== verification/Pmp.thy ===== *)
theory Pmp
  imports Bitfield
begin

text \<open>
  The RISC-V physical memory protection driver (\<open>sw/device/lib/runtime/pmp.c\<close>) and the address
  matching of the PMP entries it configures. The CSR fields are WARL: what a write stores is up to
  the hardware, so the two storing functions are part of the state, and the results below either
  hold for any of them or name what they ask of them.
\<close>

section \<open>The CSRs\<close>

record pmp_csrs =
  pmpcfg :: "nat \<Rightarrow> u32"
  pmpaddr :: "nat \<Rightarrow> u32"
  cfg_warl :: "(nat \<Rightarrow> u32) \<Rightarrow> nat \<Rightarrow> u32 \<Rightarrow> u32" \<comment> \<open>value a write of pmpcfg stores\<close>
  addr_warl :: "(nat \<Rightarrow> u32) \<Rightarrow> (nat \<Rightarrow> u32) \<Rightarrow> nat \<Rightarrow> u32 \<Rightarrow> u32" \<comment> \<open>value a write of pmpaddr stores\<close>

type_synonym 'a csr = "(pmp_csrs, 'a) state"

abbreviation PMP_CFG_CSR_R :: u32 where "PMP_CFG_CSR_R \<equiv> 0"
abbreviation PMP_CFG_CSR_W :: u32 where "PMP_CFG_CSR_W \<equiv> 1"
abbreviation PMP_CFG_CSR_X :: u32 where "PMP_CFG_CSR_X \<equiv> 2"
abbreviation PMP_CFG_CSR_A :: u32 where "PMP_CFG_CSR_A \<equiv> 3"
abbreviation PMP_CFG_CSR_L :: u32 where "PMP_CFG_CSR_L \<equiv> 7"
abbreviation PMP_CFG_FIELDS_PER_REG :: u32 where "PMP_CFG_FIELDS_PER_REG \<equiv> 4"
abbreviation PMP_CFG_FIELD_WIDTH :: u32 where "PMP_CFG_FIELD_WIDTH \<equiv> 8"
abbreviation PMP_CFG_FIELD_MASK :: u32 where "PMP_CFG_FIELD_MASK \<equiv> 0xff"
abbreviation PMP_CFG_CSR_MODE_OFF :: u32 where "PMP_CFG_CSR_MODE_OFF \<equiv> 0"
abbreviation PMP_CFG_CSR_MODE_TOR :: u32 where "PMP_CFG_CSR_MODE_TOR \<equiv> 1"
abbreviation PMP_CFG_CSR_MODE_NA4 :: u32 where "PMP_CFG_CSR_MODE_NA4 \<equiv> 2"
abbreviation PMP_CFG_CSR_MODE_NAPOT :: u32 where "PMP_CFG_CSR_MODE_NAPOT \<equiv> 3"
abbreviation PMP_CFG_CSR_MODE_MASK :: u32 where "PMP_CFG_CSR_MODE_MASK \<equiv> 0x3"
abbreviation PMP_REGIONS_NUM :: u32 where "PMP_REGIONS_NUM \<equiv> 16"
abbreviation PMP_GRANULARITY_IBEX :: nat where "PMP_GRANULARITY_IBEX \<equiv> 0"
abbreviation PMP_ADDRESS_MIN_ALIGNMENT_NAPOT :: u32 where "PMP_ADDRESS_MIN_ALIGNMENT_NAPOT \<equiv> 8"
abbreviation PMP_ADDRESS_ALIGNMENT :: u32 where "PMP_ADDRESS_ALIGNMENT \<equiv> push_bit PMP_GRANULARITY_IBEX 4"
abbreviation PMP_ADDRESS_ALIGNMENT_MASK :: u32 where "PMP_ADDRESS_ALIGNMENT_MASK \<equiv> PMP_ADDRESS_ALIGNMENT - 1"
abbreviation PMP_ADDRESS_ALIGNMENT_INVERTED_MASK :: u32 where
  "PMP_ADDRESS_ALIGNMENT_INVERTED_MASK \<equiv> NOT PMP_ADDRESS_ALIGNMENT_MASK"
abbreviation PMP_ADDRESS_SHIFT :: nat where "PMP_ADDRESS_SHIFT \<equiv> 2"

abbreviation kPmpCfgModeField :: bitfield_field32 where
  "kPmpCfgModeField \<equiv> \<lparr>field_mask = PMP_CFG_CSR_MODE_MASK, field_index = PMP_CFG_CSR_A\<rparr>"

datatype pmp_region_permissions =
  kPmpRegionPermissionsNone | kPmpRegionPermissionsReadOnly | kPmpRegionPermissionsExecuteOnly
| kPmpRegionPermissionsReadExecute | kPmpRegionPermissionsReadWrite | kPmpRegionPermissionsReadWriteExecute
| pmp_region_permissions_other nat

datatype pmp_region_lock = kPmpRegionLockUnlocked | kPmpRegionLockLocked | pmp_region_lock_other nat

record pmp_region_config =
  cfg_lock :: pmp_region_lock
  cfg_permissions :: pmp_region_permissions

datatype pmp_region_configure_result =
  kPmpRegionConfigureOk | kPmpRegionConfigureError | kPmpRegionConfigureBadArg
| kPmpRegionConfigureBadRegion | kPmpRegionConfigureBadAddress | kPmpRegionConfigureWarlError

datatype pmp_region_configure_na4_result =
  kPmpRegionConfigureNa4Ok | kPmpRegionConfigureNa4Error | kPmpRegionConfigureNa4BadArg
| kPmpRegionConfigureNa4BadRegion | kPmpRegionConfigureNa4BadAddress | kPmpRegionConfigureNa4WarlError
| kPmpRegionConfigureNa4Unavailable

datatype pmp_region_configure_napot_result =
  kPmpRegionConfigureNapotOk | kPmpRegionConfigureNapotError | kPmpRegionConfigureNapotBadArg
| kPmpRegionConfigureNapotBadRegion | kPmpRegionConfigureNapotBadAddress | kPmpRegionConfigureNapotWarlError
| kPmpRegionConfigureNapotBadSize

text \<open>The casts between the result types keep the enumerator's value.\<close>

fun to_na4_result :: "pmp_region_configure_result \<Rightarrow> pmp_region_configure_na4_result" where
  "to_na4_result kPmpRegionConfigureOk = kPmpRegionConfigureNa4Ok"
| "to_na4_result kPmpRegionConfigureError = kPmpRegionConfigureNa4Error"
| "to_na4_result kPmpRegionConfigureBadArg = kPmpRegionConfigureNa4BadArg"
| "to_na4_result kPmpRegionConfigureBadRegion = kPmpRegionConfigureNa4BadRegion"
| "to_na4_result kPmpRegionConfigureBadAddress = kPmpRegionConfigureNa4BadAddress"
| "to_na4_result kPmpRegionConfigureWarlError = kPmpRegionConfigureNa4WarlError"

fun to_napot_result :: "pmp_region_configure_result \<Rightarrow> pmp_region_configure_napot_result" where
  "to_napot_result kPmpRegionConfigureOk = kPmpRegionConfigureNapotOk"
| "to_napot_result kPmpRegionConfigureError = kPmpRegionConfigureNapotError"
| "to_napot_result kPmpRegionConfigureBadArg = kPmpRegionConfigureNapotBadArg"
| "to_napot_result kPmpRegionConfigureBadRegion = kPmpRegionConfigureNapotBadRegion"
| "to_napot_result kPmpRegionConfigureBadAddress = kPmpRegionConfigureNapotBadAddress"
| "to_napot_result kPmpRegionConfigureWarlError = kPmpRegionConfigureNapotWarlError"

section \<open>CSR accesses\<close>

text \<open>
  The switch over \<open>pmp_regions.def\<close>: regions 0 to 15, four to a configuration register.
  \<open>None\<close> is the default branch, which returns false.
\<close>

definition pmp_cfg_csr_read :: "u32 \<Rightarrow> u32 option csr" where
  "pmp_cfg_csr_read region = State (\<lambda>s.
     (if region < 16 then Some (pmpcfg s (unat region div 4)) else None, s))"

definition pmp_cfg_csr_write :: "u32 \<Rightarrow> u32 \<Rightarrow> bool csr" where
  "pmp_cfg_csr_write region val = State (\<lambda>s.
     if region < 16
     then (True, s\<lparr>pmpcfg := (pmpcfg s)(unat region div 4 := cfg_warl s (pmpcfg s) (unat region div 4) val)\<rparr>)
     else (False, s))"

definition pmp_addr_csr_read :: "u32 \<Rightarrow> u32 option csr" where
  "pmp_addr_csr_read region = State (\<lambda>s.
     (if region < 16 then Some (pmpaddr s (unat region)) else None, s))"

definition pmp_addr_csr_write :: "u32 \<Rightarrow> u32 \<Rightarrow> bool csr" where
  "pmp_addr_csr_write region val = State (\<lambda>s.
     if region < 16
     then (True, s\<lparr>pmpaddr := (pmpaddr s)(unat region := addr_warl s (pmpcfg s) (pmpaddr s) (unat region) val)\<rparr>)
     else (False, s))"

definition pmp_region_field :: "u32 \<Rightarrow> bitfield_field32" where
  "pmp_region_field region =
     (let field_index = region mod PMP_CFG_FIELDS_PER_REG * PMP_CFG_FIELD_WIDTH
      in \<lparr>field_mask = PMP_CFG_FIELD_MASK, field_index = field_index\<rparr>)"

definition pmp_csr_cfg_field_read :: "u32 \<Rightarrow> (pmp_region_configure_result \<times> u32 option) csr" where
  "pmp_csr_cfg_field_read region = do {
     cfg_csr_original \<leftarrow> pmp_cfg_csr_read region;
     case cfg_csr_original of None \<Rightarrow> ret (kPmpRegionConfigureError, None)
     | Some cfg_csr_original \<Rightarrow>
         ret (kPmpRegionConfigureOk, Some (bitfield_field32_read cfg_csr_original (pmp_region_field region)))
   }"

definition pmp_csr_cfg_field_write :: "u32 \<Rightarrow> u32 \<Rightarrow> pmp_region_configure_result csr" where
  "pmp_csr_cfg_field_write region field_value = do {
     cfg_csr_current \<leftarrow> pmp_cfg_csr_read region;
     case cfg_csr_current of None \<Rightarrow> ret kPmpRegionConfigureError
     | Some cfg_csr_current \<Rightarrow> do {
         let cfg_csr_new = bitfield_field32_write cfg_csr_current (pmp_region_field region) field_value;
         ok \<leftarrow> pmp_cfg_csr_write region cfg_csr_new;
         if \<not> ok then ret kPmpRegionConfigureError
         else do {
           cfg_csr_current \<leftarrow> pmp_cfg_csr_read region;
           case cfg_csr_current of None \<Rightarrow> ret kPmpRegionConfigureError
           | Some cfg_csr_current \<Rightarrow>
               if cfg_csr_current \<noteq> cfg_csr_new then ret kPmpRegionConfigureWarlError
               else ret kPmpRegionConfigureOk
         }
       }
   }"

definition pmp_csr_address_write :: "u32 \<Rightarrow> u32 \<Rightarrow> pmp_region_configure_result csr" where
  "pmp_csr_address_write region address = do {
     let address_shifted = drop_bit PMP_ADDRESS_SHIFT address;
     ok \<leftarrow> pmp_addr_csr_write region address_shifted;
     if \<not> ok then ret kPmpRegionConfigureError
     else do {
       addr_csr_after_write \<leftarrow> pmp_addr_csr_read region;
       case addr_csr_after_write of None \<Rightarrow> ret kPmpRegionConfigureError
       | Some addr_csr_after_write \<Rightarrow>
           if address_shifted \<noteq> addr_csr_after_write then ret kPmpRegionConfigureWarlError
           else ret kPmpRegionConfigureOk
     }
   }"

section \<open>Building a configuration\<close>

fun pmp_cfg_permissions_set :: "pmp_region_permissions \<Rightarrow> u32 \<Rightarrow> u32 option" where
  "pmp_cfg_permissions_set kPmpRegionPermissionsNone f = Some f"
| "pmp_cfg_permissions_set kPmpRegionPermissionsReadOnly f = Some (bitfield_bit32_write f PMP_CFG_CSR_R True)"
| "pmp_cfg_permissions_set kPmpRegionPermissionsExecuteOnly f = Some (bitfield_bit32_write f PMP_CFG_CSR_X True)"
| "pmp_cfg_permissions_set kPmpRegionPermissionsReadExecute f =
     Some (bitfield_bit32_write (bitfield_bit32_write f PMP_CFG_CSR_R True) PMP_CFG_CSR_X True)"
| "pmp_cfg_permissions_set kPmpRegionPermissionsReadWrite f =
     Some (bitfield_bit32_write (bitfield_bit32_write f PMP_CFG_CSR_R True) PMP_CFG_CSR_W True)"
| "pmp_cfg_permissions_set kPmpRegionPermissionsReadWriteExecute f =
     Some (bitfield_bit32_write (bitfield_bit32_write (bitfield_bit32_write f PMP_CFG_CSR_R True)
       PMP_CFG_CSR_W True) PMP_CFG_CSR_X True)"
| "pmp_cfg_permissions_set (pmp_region_permissions_other _) f = None"

definition pmp_cfg_mode_lock_set :: "pmp_region_lock \<Rightarrow> u32 \<Rightarrow> u32" where
  "pmp_cfg_mode_lock_set lock f = bitfield_bit32_write f PMP_CFG_CSR_L (lock = kPmpRegionLockLocked)"

definition pmp_address_aligned :: "u32 \<Rightarrow> bool" where
  "pmp_address_aligned address \<longleftrightarrow> address = address AND PMP_ADDRESS_ALIGNMENT_INVERTED_MASK"

definition pmp_napot_address_construct :: "u32 \<Rightarrow> u32 \<Rightarrow> pmp_region_configure_napot_result \<times> u32 option" where
  "pmp_napot_address_construct address region_size =
     (if region_size < PMP_ADDRESS_ALIGNMENT \<or> region_size < PMP_ADDRESS_MIN_ALIGNMENT_NAPOT
      then (kPmpRegionConfigureNapotBadAddress, None)
      else
        (let size_mask = region_size - 1
         in if region_size AND size_mask \<noteq> 0 then (kPmpRegionConfigureNapotBadSize, None)
         else if address \<noteq> address AND NOT size_mask then (kPmpRegionConfigureNapotBadAddress, None)
         else (kPmpRegionConfigureNapotOk, Some (address OR drop_bit 1 size_mask))))"

section \<open>Configuring a region\<close>

definition pmp_region_configure_off :: "u32 \<Rightarrow> u32 \<Rightarrow> pmp_region_configure_result csr" where
  "pmp_region_configure_off region address =
     (if region \<ge> PMP_REGIONS_NUM then ret kPmpRegionConfigureBadRegion
      else if \<not> pmp_address_aligned address then ret kPmpRegionConfigureBadAddress
      else do {
        result \<leftarrow> pmp_csr_address_write region address;
        if result \<noteq> kPmpRegionConfigureOk then ret result
        else do {
          result \<leftarrow> pmp_csr_cfg_field_write region 0;
          if result \<noteq> kPmpRegionConfigureOk then ret result
          else ret kPmpRegionConfigureOk
        }
      })"

definition pmp_region_configure_na4 ::
  "u32 \<Rightarrow> pmp_region_config \<Rightarrow> u32 \<Rightarrow> pmp_region_configure_na4_result csr" where
  "pmp_region_configure_na4 region config address =
     (if PMP_GRANULARITY_IBEX > 0 then ret kPmpRegionConfigureNa4Unavailable
      else if region \<ge> PMP_REGIONS_NUM then ret kPmpRegionConfigureNa4BadRegion
      else if \<not> pmp_address_aligned address then ret kPmpRegionConfigureNa4BadAddress
      else case pmp_cfg_permissions_set (cfg_permissions config) 0 of None \<Rightarrow> ret kPmpRegionConfigureNa4Error
      | Some field_value \<Rightarrow> do {
          let field_value = pmp_cfg_mode_lock_set (cfg_lock config) field_value;
          let field_value = bitfield_field32_write field_value kPmpCfgModeField PMP_CFG_CSR_MODE_NA4;
          result \<leftarrow> pmp_csr_address_write region address;
          if result \<noteq> kPmpRegionConfigureOk then ret (to_na4_result result)
          else do {
            result \<leftarrow> pmp_csr_cfg_field_write region field_value;
            if result \<noteq> kPmpRegionConfigureOk then ret (to_na4_result result)
            else ret kPmpRegionConfigureNa4Ok
          }
        })"

definition pmp_region_configure_napot ::
  "u32 \<Rightarrow> pmp_region_config \<Rightarrow> u32 \<Rightarrow> u32 \<Rightarrow> pmp_region_configure_napot_result csr" where
  "pmp_region_configure_napot region config address region_size =
     (if region \<ge> PMP_REGIONS_NUM then ret kPmpRegionConfigureNapotBadRegion
      else case pmp_napot_address_construct address region_size of
        (napot_result, None) \<Rightarrow> ret napot_result
      | (_, Some napot_address) \<Rightarrow>
        (case pmp_cfg_permissions_set (cfg_permissions config) 0 of None \<Rightarrow> ret kPmpRegionConfigureNapotError
         | Some field_value \<Rightarrow> do {
             let field_value = pmp_cfg_mode_lock_set (cfg_lock config) field_value;
             let field_value = bitfield_field32_write field_value kPmpCfgModeField PMP_CFG_CSR_MODE_NAPOT;
             result \<leftarrow> pmp_csr_address_write region napot_address;
             if result \<noteq> kPmpRegionConfigureOk then ret (to_napot_result result)
             else do {
               result \<leftarrow> pmp_csr_cfg_field_write region field_value;
               if result \<noteq> kPmpRegionConfigureOk then ret (to_napot_result result)
               else ret kPmpRegionConfigureNapotOk
             }
           }))"

definition pmp_region_configure_tor ::
  "u32 \<Rightarrow> pmp_region_config \<Rightarrow> u32 \<Rightarrow> u32 \<Rightarrow> pmp_region_configure_result csr" where
  "pmp_region_configure_tor region_end config address_start address_end =
     (if region_end \<ge> PMP_REGIONS_NUM then ret kPmpRegionConfigureBadRegion
      else if region_end = 0 \<and> address_start > 0 then ret kPmpRegionConfigureBadAddress
      else if region_end > 0 \<and> \<not> pmp_address_aligned address_start then ret kPmpRegionConfigureBadAddress
      else if \<not> pmp_address_aligned address_end then ret kPmpRegionConfigureBadAddress
      else case pmp_cfg_permissions_set (cfg_permissions config) 0 of None \<Rightarrow> ret kPmpRegionConfigureError
      | Some field_value \<Rightarrow> do {
          let field_value = pmp_cfg_mode_lock_set (cfg_lock config) field_value;
          let field_value = bitfield_field32_write field_value kPmpCfgModeField PMP_CFG_CSR_MODE_TOR;
          result \<leftarrow> (if region_end \<noteq> 0 then pmp_csr_address_write (region_end - 1) address_start
            else ret kPmpRegionConfigureOk);
          if result \<noteq> kPmpRegionConfigureOk then ret result
          else do {
            result \<leftarrow> pmp_csr_address_write region_end address_end;
            if result \<noteq> kPmpRegionConfigureOk then ret result
            else do {
              result \<leftarrow> pmp_csr_cfg_field_write region_end field_value;
              if result \<noteq> kPmpRegionConfigureOk then ret result
              else ret kPmpRegionConfigureOk
            }
          }
        })"

definition pmp_cfg_mode_lock_status_get ::
  "u32 \<Rightarrow> pmp_region_lock ptr \<Rightarrow> (pmp_region_configure_result \<times> pmp_region_lock ptr) csr" where
  "pmp_cfg_mode_lock_status_get region lock =
     (if region \<ge> PMP_REGIONS_NUM then ret (kPmpRegionConfigureBadRegion, lock)
      else if lock = NULL then ret (kPmpRegionConfigureBadArg, lock)
      else do {
        (result, field_value) \<leftarrow> pmp_csr_cfg_field_read region;
        if result \<noteq> kPmpRegionConfigureOk then ret (result, lock)
        else
          (let flag = bitfield_bit32_read (the field_value) PMP_CFG_CSR_L
           in ret (kPmpRegionConfigureOk, store lock (if flag then kPmpRegionLockLocked else kPmpRegionLockUnlocked)))
      })"

section \<open>What an entry protects\<close>

text \<open>
  Address matching of the RISC-V privileged architecture (section 3.6.1): the mode of an entry and
  the byte addresses it matches. Trailing one bits of a NAPOT address give the size of its range.
\<close>

definition pmp_entry :: "pmp_csrs \<Rightarrow> nat \<Rightarrow> u8" where
  "pmp_entry s i = byte_of (pmpcfg s (i div 4)) (i mod 4)"

definition pmp_mode :: "u8 \<Rightarrow> nat" where
  "pmp_mode e = unat (take_bit 2 (drop_bit 3 e))"

definition trailing_ones :: "u32 \<Rightarrow> nat" where
  "trailing_ones p = length (takeWhile (bit p) [0..<32])"

definition pmp_matches :: "pmp_csrs \<Rightarrow> nat \<Rightarrow> nat \<Rightarrow> bool" where
  "pmp_matches s i a =
     (let m = pmp_mode (pmp_entry s i); p = pmpaddr s i in
      if m = 1 then (if i = 0 then 0 else unat (pmpaddr s (i - 1))) \<le> a div 4 \<and> a div 4 < unat p
      else if m = 2 then a div 4 = unat p
      else if m = 3 then a div 2 ^ (trailing_ones p + 3) = unat p div 2 ^ (trailing_ones p + 1)
      else False)"

record pmp_protection =
  matched :: "nat set"
  may_read :: bool
  may_write :: bool
  may_execute :: bool
  locked :: bool

definition pmp_protects :: "pmp_csrs \<Rightarrow> nat \<Rightarrow> pmp_protection" where
  "pmp_protects s i = \<lparr>matched = {a. pmp_matches s i a}, may_read = bit (pmp_entry s i) 0,
     may_write = bit (pmp_entry s i) 1, may_execute = bit (pmp_entry s i) 2, locked = bit (pmp_entry s i) 7\<rparr>"

text \<open>The protection a configuration asks for.\<close>

fun permissions_granted :: "pmp_region_permissions \<Rightarrow> bool \<times> bool \<times> bool" where
  "permissions_granted kPmpRegionPermissionsNone = (False, False, False)"
| "permissions_granted kPmpRegionPermissionsReadOnly = (True, False, False)"
| "permissions_granted kPmpRegionPermissionsExecuteOnly = (False, False, True)"
| "permissions_granted kPmpRegionPermissionsReadExecute = (True, False, True)"
| "permissions_granted kPmpRegionPermissionsReadWrite = (True, True, False)"
| "permissions_granted kPmpRegionPermissionsReadWriteExecute = (True, True, True)"
| "permissions_granted (pmp_region_permissions_other _) = (False, False, False)"

definition requested :: "pmp_region_config \<Rightarrow> nat set \<Rightarrow> pmp_protection" where
  "requested config A = (case permissions_granted (cfg_permissions config) of (r, w, x) \<Rightarrow>
     \<lparr>matched = A, may_read = r, may_write = w, may_execute = x, locked = (cfg_lock config = kPmpRegionLockLocked)\<rparr>)"

section \<open>Effects of the CSR accesses\<close>

definition store_addr :: "nat \<Rightarrow> u32 \<Rightarrow> pmp_csrs \<Rightarrow> pmp_csrs" where
  "store_addr i v s = s\<lparr>pmpaddr := (pmpaddr s)(i := addr_warl s (pmpcfg s) (pmpaddr s) i v)\<rparr>"

definition store_cfg :: "nat \<Rightarrow> u32 \<Rightarrow> pmp_csrs \<Rightarrow> pmp_csrs" where
  "store_cfg n v s = s\<lparr>pmpcfg := (pmpcfg s)(n := cfg_warl s (pmpcfg s) n v)\<rparr>"

lemma store_sel [simp]:
  "pmpcfg (store_addr i v s) = pmpcfg s" "pmpaddr (store_cfg n v s) = pmpaddr s"
  "pmpaddr (store_addr i v s) j = (if j = i then addr_warl s (pmpcfg s) (pmpaddr s) i v else pmpaddr s j)"
  "pmpcfg (store_cfg n v s) m = (if m = n then cfg_warl s (pmpcfg s) n v else pmpcfg s m)"
  "cfg_warl (store_addr i v s) = cfg_warl s" "addr_warl (store_addr i v s) = addr_warl s"
  "cfg_warl (store_cfg n v s) = cfg_warl s" "addr_warl (store_cfg n v s) = addr_warl s"
  by (simp_all add: store_addr_def store_cfg_def)

definition cfg_word :: "pmp_csrs \<Rightarrow> u32 \<Rightarrow> u32 \<Rightarrow> u32" where
  "cfg_word s region v = bitfield_field32_write (pmpcfg s (unat region div 4)) (pmp_region_field region) v"

lemma run_address_write:
  assumes "region < 16"
  shows "run_state (pmp_csr_address_write region a) s =
    (if pmpaddr (store_addr (unat region) (drop_bit 2 a) s) (unat region) = drop_bit 2 a
     then kPmpRegionConfigureOk else kPmpRegionConfigureWarlError, store_addr (unat region) (drop_bit 2 a) s)"
  using assms
  by (auto simp: pmp_csr_address_write_def pmp_addr_csr_write_def pmp_addr_csr_read_def store_addr_def Let_def)

lemma run_cfg_field_write:
  assumes "region < 16"
  shows "run_state (pmp_csr_cfg_field_write region v) s =
    (if pmpcfg (store_cfg (unat region div 4) (cfg_word s region v) s) (unat region div 4) = cfg_word s region v
     then kPmpRegionConfigureOk else kPmpRegionConfigureWarlError,
     store_cfg (unat region div 4) (cfg_word s region v) s)"
  using assms
  by (auto simp: pmp_csr_cfg_field_write_def pmp_cfg_csr_write_def pmp_cfg_csr_read_def store_cfg_def cfg_word_def Let_def)

text \<open>Address first, configuration second; the common tail of every configure function.\<close>

lemma unat_field_index: "unat (region mod 4 * 8 :: u32) = 8 * (unat region mod 4)"
proof -
  have "unat (region mod 4) < 4" by (simp add: unat_mod)
  then show ?thesis by (subst unat_mult_lem [THEN iffD1]) (simp_all add: unat_mod)
qed

lemma byte_of_cfg_word:
  assumes "j < 4"
  shows "byte_of (cfg_word s region v) j =
    (if j = unat region mod 4 then ucast v else byte_of (pmpcfg s (unat region div 4)) j)"
proof -
  have m: "(0xff :: u32) = mask 8" by (simp add: mask_eq_exp_minus_1)
  have t: "unat region mod 4 < 4" by simp
  show ?thesis
  proof (rule word8_eq_iff [THEN iffD2], intro allI impI)
    fix n :: nat assume n: "n < 8"
    have lt: "8 * j + n < 32" using assms n by linarith
    have "8 * (unat region mod 4) \<le> 8 * j + n \<and> 8 * j + n - 8 * (unat region mod 4) < 8 \<longleftrightarrow> j = unat region mod 4"
      using n by linarith
    then show "bit (byte_of (cfg_word s region v) j) n
        = bit (if j = unat region mod 4 then ucast v else byte_of (pmpcfg s (unat region div 4)) j) n"
      using n lt by (auto simp: byte_of_def cfg_word_def pmp_region_field_def bit_ucast_iff bit_drop_bit_eq
        bit_field32_write unat_field_index m bit_mask_iff possible_bit_word Let_def)
  qed
qed
lemma region_div_4: "(region :: u32) < 16 \<Longrightarrow> unat region < 16"
  by (simp add: word_less_nat_alt)

lemma pmp_entry_stored:
  assumes "pmpcfg s' (unat region div 4) = cfg_word s region v"
  shows "pmp_entry s' (unat region) = ucast v"
  by (simp add: pmp_entry_def assms byte_of_cfg_word)

definition cfg_value :: "pmp_region_config \<Rightarrow> u32 \<Rightarrow> u32 \<Rightarrow> u32" where
  "cfg_value config field_value mode =
     bitfield_field32_write (pmp_cfg_mode_lock_set (cfg_lock config) field_value) kPmpCfgModeField mode"

lemma cfg_value_entry:
  assumes "pmp_cfg_permissions_set (cfg_permissions config) 0 = Some field_value" "mode = 1 \<or> mode = 2 \<or> mode = 3"
  defines "e \<equiv> ucast (cfg_value config field_value mode) :: u8"
  shows "pmp_mode e = unat mode"
    and "bit e 7 \<longleftrightarrow> cfg_lock config = kPmpRegionLockLocked"
    and "permissions_granted (cfg_permissions config) = (bit e 0, bit e 1, bit e 2)"
proof -
  have m: "bit (0x3 :: u32) k \<longleftrightarrow> k < 2" for k
    using bit_mask_iff [where ?'a = u32, of 2 k] by (auto simp: mask_eq_exp_minus_1 possible_bit_word)
  have bits: "bit e n \<longleftrightarrow> n < 8 \<and> (if n = 3 \<or> n = 4 then bit mode (n - 3)
      else if n = 7 then cfg_lock config = kPmpRegionLockLocked else bit field_value n)" for n
  proof -
    have range: "3 \<le> n \<and> n - 3 < 2 \<longleftrightarrow> n = 3 \<or> n = 4" by arith
    show ?thesis
      unfolding e_def cfg_value_def pmp_cfg_mode_lock_set_def bit_ucast_iff bit_field32_write bit_bit32_write
        bitfield_field32.select_convs m
      using range by auto
  qed
  have "mode = take_bit 2 mode" using assms(2) by auto
  then have low: "bit mode n \<Longrightarrow> n < 2" for n by (metis bit_take_bit_iff)
  have "take_bit 2 (drop_bit 3 e) = ucast mode"
    by (rule word8_eq_iff [THEN iffD2])
      (auto simp: bit_take_bit_iff bit_drop_bit_eq bits bit_ucast_iff less_2_cases_iff dest: low)
  then show "pmp_mode e = unat mode" using assms(2) by (auto simp: pmp_mode_def)
  show "bit e 7 \<longleftrightarrow> cfg_lock config = kPmpRegionLockLocked" by (simp add: bits)
  show "permissions_granted (cfg_permissions config) = (bit e 0, bit e 1, bit e 2)"
    using assms(1) by (cases "cfg_permissions config") (auto simp: bits bit_bit32_write)
qed

lemma protects_stored:
  assumes "pmp_cfg_permissions_set (cfg_permissions config) 0 = Some field_value" "mode = 1 \<or> mode = 2 \<or> mode = 3"
    and "pmpcfg s' (unat region div 4) = cfg_word s region (cfg_value config field_value mode)"
    and "{a. pmp_matches s' (unat region) a} = A"
  shows "pmp_protects s' (unat region) = requested config A"
  using cfg_value_entry [OF assms(1,2)] assms(4)
  by (simp add: pmp_protects_def requested_def pmp_entry_stored [OF assms(3)])

lemma mode_stored:
  assumes "pmp_cfg_permissions_set (cfg_permissions config) 0 = Some field_value" "mode = 1 \<or> mode = 2 \<or> mode = 3"
    and "pmpcfg s' (unat region div 4) = cfg_word s region (cfg_value config field_value mode)"
  shows "pmp_mode (pmp_entry s' (unat region)) = unat mode"
  using cfg_value_entry(1) [OF assms(1,2)] by (simp add: pmp_entry_stored [OF assms(3)])

section \<open>Alignment and NAPOT addresses\<close>

lemma aligned_iff: "pmp_address_aligned a \<longleftrightarrow> unat a mod 4 = 0"
proof -
  have "a AND NOT 3 = a div 4 * 4" by (rule and_not_mask_mult4)
  moreover have "a div 4 * 4 = a \<longleftrightarrow> unat a mod 4 = 0"
  proof -
    have d: "unat (a div 4) = unat a div 4" by (simp add: unat_div_distrib)
    have "unat (a div 4) * unat (4 :: u32) < 2 ^ LENGTH(32)"
      unfolding d using unat_u32_bound [of a] div_times_less_eq_dividend [of "unat a" 4] by (simp del: unat_u32_bound)
    then have "unat (a div 4 * 4) = unat a div 4 * 4"
      by (simp only: unat_mult_lem [THEN iffD1] d) simp
    then show ?thesis by (metis (no_types) dvd_div_mult_self dvd_eq_mod_eq_0 dvd_triv_right mod_0_imp_dvd word_unat_eq_iff)
  qed
  ultimately show ?thesis by (auto simp: pmp_address_aligned_def)
qed

lemma unat_drop2: "unat (drop_bit 2 (a :: u32)) = unat a div 4"
  by (simp add: drop_bit_eq_div unat_div_distrib)

lemma nat_and_pred: "n \<noteq> 0 \<Longrightarrow> n AND (n - 1) = 0 \<Longrightarrow> \<exists>k. n = (2 :: nat) ^ k"
proof (induction n rule: less_induct)
  case (less n)
  show ?case
  proof (cases "even n")
    case True
    then obtain m where m: "n = 2 * m" by blast
    with less.prems(1) have "0 < m" by simp
    then have pred: "n - 1 = 1 + 2 * (m - 1)" using m by arith
    have "n AND (n - 1) = 2 * (m AND (m - 1))"
      unfolding pred unfolding m by (subst and_rec) simp
    then obtain k where "m = 2 ^ k" using less.IH [of m] less.prems m \<open>0 < m\<close> by auto
    then have "n = 2 ^ Suc k" using m by simp
    then show ?thesis by blast
  next
    case False
    then obtain m where m: "n = 2 * m + 1" by (metis oddE)
    have "n AND (n - 1) = 2 * m"
      unfolding m by (subst and_rec) simp
    then have "n = 2 ^ 0" using less.prems m by simp
    then show ?thesis by blast
  qed
qed

lemma power_of_two_check: "(x :: u32) \<noteq> 0 \<Longrightarrow> x AND (x - 1) = 0 \<longleftrightarrow> (\<exists>k < 32. x = 2 ^ k)"
proof
  assume x: "x \<noteq> 0" "x AND (x - 1) = 0"
  then have "unat x AND (unat x - 1) = 0"
    by (metis unat_0 unat_minus_one unsigned_and_eq)
  then obtain k where k: "unat x = 2 ^ k" using nat_and_pred x(1) by (metis unat_eq_zero)
  moreover have "k < 32"
  proof (rule ccontr)
    assume "\<not> k < 32"
    then have "(2 :: nat) ^ 32 \<le> 2 ^ k" by (intro power_increasing) simp_all
    then show False using unat_u32_bound [of x] k by simp
  qed
  moreover have "x = of_nat (unat x)" by simp
  then have "x = 2 ^ k" by (simp add: k)
  ultimately show "\<exists>k < 32. x = 2 ^ k" by blast
next
  assume "\<exists>k < 32. x = 2 ^ k"
  then obtain k where k: "k < 32" "x = 2 ^ k" by blast
  have "x - 1 = mask k" by (simp add: k mask_eq_exp_minus_1)
  moreover have "x AND mask k = 0" unfolding k(2) by (rule bit_eqI) (auto simp: bit_simps)
  ultimately show "x AND (x - 1) = 0" by simp
qed
lemma napot_constructed:
  assumes "pmp_napot_address_construct address region_size = (r, Some p)"
  shows "\<exists>k. 3 \<le> k \<and> k < 32 \<and> region_size = 2 ^ k \<and> take_bit k address = 0 \<and> p = address OR mask (k - 1)"
proof -
  from assms have ge: "8 \<le> region_size" and pow: "region_size AND (region_size - 1) = 0"
    and al: "address = address AND NOT (region_size - 1)" and p: "p = address OR drop_bit 1 (region_size - 1)"
    by (auto simp: pmp_napot_address_construct_def Let_def split: if_splits)
  have "region_size \<noteq> 0" using ge by auto
  then obtain k where k: "k < 32" "region_size = 2 ^ k"
    using power_of_two_check [of region_size] pow by auto
  have m: "region_size - 1 = mask k" by (simp add: k mask_eq_exp_minus_1)
  have "\<not> k < 3"
  proof
    assume "k < 3"
    then have "k = 0 \<or> k = 1 \<or> k = 2" by arith
    then show False using ge k(2) by (auto simp: word_le_nat_alt)
  qed
  moreover have "take_bit k address = 0"
  proof (rule bit_eqI)
    fix n
    have "bit address n \<longleftrightarrow> bit (address AND NOT (mask k)) n" using al m by simp
    then show "bit (take_bit k address) n \<longleftrightarrow> bit (0 :: u32) n"
      by (auto simp: bit_take_bit_iff bit_and_iff bit_not_iff bit_mask_iff)
  qed
  moreover have "drop_bit 1 (mask k :: u32) = mask (k - 1)"
    by (rule bit_eqI) (use k(1) in \<open>auto simp: bit_drop_bit_eq bit_mask_iff\<close>)
  ultimately show ?thesis using k p m by (intro exI [of _ k]) auto
qed

lemma trailing_ones_napot:
  fixes address :: u32
  assumes "3 \<le> k" "k < 32" "take_bit k address = 0"
  shows "trailing_ones (drop_bit 2 (address OR mask (k - 1))) = k - 3"
proof -
  let ?q = "drop_bit 2 (address OR mask (k - 1))"
  have low: "\<not> bit address n" if "n < k" for n
    using assms(3) that by (metis bit_0_eq bit_take_bit_iff bot_apply bot_bool_def)
  have ones: "bit ?q n" if "n < k - 3" for n
  proof -
    have "n + 2 < 32" "n + 2 < k - 1" using that assms by linarith+
    then show ?thesis by (simp add: bit_drop_bit_eq bit_or_iff bit_mask_iff)
  qed
  have "2 + (k - 3) = k - 1" using assms(1) by arith
  then have zero: "\<not> bit ?q (k - 3)"
    using low [of "k - 1"] assms(1) by (simp only: bit_drop_bit_eq bit_or_iff bit_mask_iff o_apply) simp
  have "\<exists>i < 32. \<not> bit ?q i" using zero assms(2) by (intro exI [of _ "k - 3"]) simp
  from length_takeWhile_first [OF this]
  have "\<not> bit ?q (trailing_ones ?q)" "\<forall>j < trailing_ones ?q. bit ?q j"
    unfolding trailing_ones_def by simp_all
  then show ?thesis using ones zero by (meson linorder_neqE_nat)
qed

lemma unat_drop_bit: "unat (drop_bit n (w :: u32)) = unat w div 2 ^ n"
  unfolding unsigned_drop_bit_eq by (simp add: drop_bit_eq_div take_bit_nat_eq_self)

lemma napot_range:
  fixes address :: u32
  assumes "3 \<le> k" "k < 32" "take_bit k address = 0"
  defines "q \<equiv> drop_bit 2 (address OR mask (k - 1))"
  shows "{a. a div 2 ^ (trailing_ones q + 3) = unat q div 2 ^ (trailing_ones q + 1)}
    = {unat address..<unat address + 2 ^ k}"
proof -
  have t: "trailing_ones q = k - 3" unfolding q_def by (rule trailing_ones_napot [OF assms(1-3)])
  have "drop_bit (k - 2) q = drop_bit k address"
  proof (rule bit_eqI)
    fix n
    obtain j where j: "k = j + 3" using assms(1) by (metis le_add_diff_inverse2)
    show "bit (drop_bit (k - 2) q) n \<longleftrightarrow> bit (drop_bit k address) n"
      by (auto simp: j q_def bit_drop_bit_eq bit_or_iff bit_mask_iff numeral_3_eq_3)
  qed
  then have q: "unat q div 2 ^ (k - 2) = unat address div 2 ^ k"
    by (metis unat_drop_bit)
  have "unat address mod 2 ^ k = 0"
    using assms(3) by (metis take_bit_eq_mod unsigned_0 unsigned_take_bit_eq)
  then have base: "unat address div 2 ^ k * 2 ^ k = unat address" by (metis add_0_right div_mult_mod_eq)
  have div_iff: "a div 2 ^ k = n \<longleftrightarrow> n * 2 ^ k \<le> a \<and> a < n * 2 ^ k + 2 ^ k" for a n :: nat
  proof
    assume "a div 2 ^ k = n"
    moreover have "a mod 2 ^ k < 2 ^ k" by simp
    ultimately show "n * 2 ^ k \<le> a \<and> a < n * 2 ^ k + 2 ^ k"
      using div_mult_mod_eq [of a "2 ^ k"] by (metis add_less_cancel_left le_add1)
  next
    assume *: "n * 2 ^ k \<le> a \<and> a < n * 2 ^ k + 2 ^ k"
    show "a div 2 ^ k = n" by (rule div_nat_eqI) (use * in \<open>simp_all add: mult.commute\<close>)
  qed
  have e: "trailing_ones q + 3 = k" "trailing_ones q + 1 = k - 2" using t assms(1) by linarith+
  show ?thesis unfolding e q div_iff base by auto
qed
section \<open>A successful configuration takes effect\<close>

lemma to_result_Ok [simp]:
  "to_na4_result r = kPmpRegionConfigureNa4Ok \<longleftrightarrow> r = kPmpRegionConfigureOk"
  "to_napot_result r = kPmpRegionConfigureNapotOk \<longleftrightarrow> r = kPmpRegionConfigureOk"
  by (cases r; simp)+

lemma cfg_word_store_addr [simp]: "cfg_word (store_addr i v s) region w = cfg_word s region w"
  by (simp add: cfg_word_def)

lemma configure_off_ok:
  assumes "run_state (pmp_region_configure_off region address) s = (kPmpRegionConfigureOk, s')"
  shows "pmpcfg s' (unat region div 4) = cfg_word s region 0"
  using assms by (auto simp: pmp_region_configure_off_def run_address_write run_cfg_field_write not_le split: if_splits)

lemma configure_na4_ok:
  assumes "run_state (pmp_region_configure_na4 region config address) s = (kPmpRegionConfigureNa4Ok, s')"
  shows "\<exists>fv. pmp_address_aligned address \<and> pmp_cfg_permissions_set (cfg_permissions config) 0 = Some fv
    \<and> pmpaddr s' (unat region) = drop_bit 2 address
    \<and> pmpcfg s' (unat region div 4) = cfg_word s region (cfg_value config fv 2)"
  using assms by (auto simp: pmp_region_configure_na4_def run_address_write run_cfg_field_write cfg_value_def
    not_le split: if_splits option.splits)

lemma configure_napot_ok:
  assumes "run_state (pmp_region_configure_napot region config address region_size) s = (kPmpRegionConfigureNapotOk, s')"
  shows "\<exists>r p fv. pmp_napot_address_construct address region_size = (r, Some p)
    \<and> pmp_cfg_permissions_set (cfg_permissions config) 0 = Some fv
    \<and> pmpaddr s' (unat region) = drop_bit 2 p
    \<and> pmpcfg s' (unat region div 4) = cfg_word s region (cfg_value config fv 3)"
proof -
  have "pmp_napot_address_construct address region_size \<noteq> (kPmpRegionConfigureNapotOk, None)"
    by (simp add: pmp_napot_address_construct_def Let_def)
  then show ?thesis
    using assms by (auto simp: pmp_region_configure_napot_def run_address_write run_cfg_field_write cfg_value_def
      not_le split: if_splits option.splits prod.splits)
qed

lemma configure_tor_ok:
  assumes "run_state (pmp_region_configure_tor region config address_start address_end) s = (kPmpRegionConfigureOk, s')"
  shows "\<exists>fv. pmp_address_aligned address_end \<and> (region = 0 \<longrightarrow> address_start = 0)
    \<and> (region \<noteq> 0 \<longrightarrow> pmp_address_aligned address_start \<and> pmpaddr s' (unat region - 1) = drop_bit 2 address_start)
    \<and> pmp_cfg_permissions_set (cfg_permissions config) 0 = Some fv
    \<and> pmpaddr s' (unat region) = drop_bit 2 address_end
    \<and> pmpcfg s' (unat region div 4) = cfg_word s region (cfg_value config fv 1)"
proof -
  have r: "region - 1 < 16" "unat (region - 1) = unat region - 1" "unat region - 1 \<noteq> unat region"
    if "region \<noteq> 0" "region < 16"
  proof -
    have "unat region \<noteq> 0" using that(1) by (simp add: unat_eq_0)
    then show "unat region - 1 \<noteq> unat region" by simp
    show "unat (region - 1) = unat region - 1" using that(1) by (rule unat_minus_one)
    then show "region - 1 < 16" using that(2) by (simp add: word_less_nat_alt)
  qed
  show ?thesis
    using assms r by (auto simp: pmp_region_configure_tor_def run_address_write run_cfg_field_write cfg_value_def
      not_le word_greater_zero_iff split: if_splits option.splits)
qed
lemma mult4_div: "(4 * k) div 4 \<le> n div 4 \<longleftrightarrow> 4 * k \<le> (n :: nat)"
  "n div 4 < (4 * k) div 4 \<longleftrightarrow> n < 4 * (k :: nat)"
  "n div 4 = (4 * k) div 4 \<longleftrightarrow> 4 * k \<le> n \<and> n < 4 * k + (4 :: nat)"
  by auto

lemma aligned_div4:
  assumes "m mod 4 = (0 :: nat)"
  shows "m div 4 \<le> n div 4 \<longleftrightarrow> m \<le> n" "n div 4 < m div 4 \<longleftrightarrow> n < m"
    "n div 4 = m div 4 \<longleftrightarrow> m \<le> n \<and> n < m + 4"
proof -
  obtain k where "m = 4 * k" using assms unfolding mod_eq_0_iff_dvd dvd_def by blast
  then show "m div 4 \<le> n div 4 \<longleftrightarrow> m \<le> n" "n div 4 < m div 4 \<longleftrightarrow> n < m"
    "n div 4 = m div 4 \<longleftrightarrow> m \<le> n \<and> n < m + 4"
    by (simp_all only: mult4_div)
qed

lemma unat_power2: "k < 32 \<Longrightarrow> unat ((2 :: u32) ^ k) = 2 ^ k"
proof -
  assume "k < 32"
  then have "(2 :: nat) ^ k < 2 ^ 32" by (intro power_strict_increasing) simp_all
  moreover have "(2 :: u32) ^ k = of_nat (2 ^ k)" by simp
  then show ?thesis unfolding \<open>(2 :: u32) ^ k = of_nat (2 ^ k)\<close> unsigned_of_nat
    using \<open>k < 32\<close> by (simp add: take_bit_nat_eq_self)
qed

text \<open>
  C16. When a configure function of the PMP driver reports success, the entry it configured protects
  exactly what was asked for, whatever the WARL behaviour of the CSRs: off matches nothing and grants
  nothing, NA4 matches the four bytes at the address, NAPOT the range of the given size at the
  address, TOR the addresses from the start up to the end, each with the requested permissions and
  lock bit.
\<close>

theorem pmp_configure_sound:
  "(run_state (pmp_region_configure_off region address) s = (kPmpRegionConfigureOk, s') \<longrightarrow>
      pmp_protects s' (unat region) = \<lparr>matched = {}, may_read = False, may_write = False, may_execute = False, locked = False\<rparr>)
   \<and> (run_state (pmp_region_configure_na4 region config address) s = (kPmpRegionConfigureNa4Ok, s') \<longrightarrow>
      pmp_protects s' (unat region) = requested config {unat address..<unat address + 4})
   \<and> (run_state (pmp_region_configure_napot region config address region_size) s = (kPmpRegionConfigureNapotOk, s') \<longrightarrow>
      pmp_protects s' (unat region) = requested config {unat address..<unat address + unat region_size})
   \<and> (run_state (pmp_region_configure_tor region config address address_end) s = (kPmpRegionConfigureOk, s') \<longrightarrow>
      pmp_protects s' (unat region) = requested config {unat address..<unat address_end})"
proof (intro conjI impI)
  assume "run_state (pmp_region_configure_off region address) s = (kPmpRegionConfigureOk, s')"
  from pmp_entry_stored [OF configure_off_ok [OF this]]
  show "pmp_protects s' (unat region) = \<lparr>matched = {}, may_read = False, may_write = False, may_execute = False, locked = False\<rparr>"
    by (simp add: pmp_protects_def pmp_matches_def pmp_mode_def)
next
  assume "run_state (pmp_region_configure_na4 region config address) s = (kPmpRegionConfigureNa4Ok, s')"
  then obtain fv where al: "pmp_address_aligned address" and fv: "pmp_cfg_permissions_set (cfg_permissions config) 0 = Some fv"
    and s': "pmpaddr s' (unat region) = drop_bit 2 address"
      "pmpcfg s' (unat region div 4) = cfg_word s region (cfg_value config fv 2)"
    using configure_na4_ok by blast
  have "{a. pmp_matches s' (unat region) a} = {unat address..<unat address + 4}"
    using al by (auto simp: pmp_matches_def mode_stored [OF fv _ s'(2)] s'(1) unat_drop2 aligned_iff aligned_div4)
  from protects_stored [OF fv _ s'(2) this]
  show "pmp_protects s' (unat region) = requested config {unat address..<unat address + 4}" by simp
next
  assume "run_state (pmp_region_configure_napot region config address region_size) s = (kPmpRegionConfigureNapotOk, s')"
  then obtain r p fv where np: "pmp_napot_address_construct address region_size = (r, Some p)"
    and fv: "pmp_cfg_permissions_set (cfg_permissions config) 0 = Some fv"
    and s': "pmpaddr s' (unat region) = drop_bit 2 p"
      "pmpcfg s' (unat region div 4) = cfg_word s region (cfg_value config fv 3)"
    using configure_napot_ok by blast
  obtain k where k: "3 \<le> k" "k < 32" "region_size = 2 ^ k" "take_bit k address = 0" "p = address OR mask (k - 1)"
    using napot_constructed [OF np] by blast
  have "unat region_size = 2 ^ k" using k(2) by (simp add: k(3) unat_power2)
  then have "{a. pmp_matches s' (unat region) a} = {unat address..<unat address + unat region_size}"
    using napot_range [OF k(1,2,4)] by (simp add: pmp_matches_def mode_stored [OF fv _ s'(2)] s'(1) k(5) Let_def)
  from protects_stored [OF fv _ s'(2) this]
  show "pmp_protects s' (unat region) = requested config {unat address..<unat address + unat region_size}" by simp
next
  assume "run_state (pmp_region_configure_tor region config address address_end) s = (kPmpRegionConfigureOk, s')"
  then obtain fv where al: "pmp_address_aligned address_end" "region = 0 \<longrightarrow> address = 0"
      "region \<noteq> 0 \<longrightarrow> pmp_address_aligned address \<and> pmpaddr s' (unat region - 1) = drop_bit 2 address"
    and fv: "pmp_cfg_permissions_set (cfg_permissions config) 0 = Some fv"
    and s': "pmpaddr s' (unat region) = drop_bit 2 address_end"
      "pmpcfg s' (unat region div 4) = cfg_word s region (cfg_value config fv 1)"
    using configure_tor_ok by blast
  have "{a. pmp_matches s' (unat region) a} = {unat address..<unat address_end}"
    using al by (auto simp: pmp_matches_def mode_stored [OF fv _ s'(2)] s'(1) unat_drop2 aligned_iff aligned_div4
      unat_eq_0 split: if_splits)
  from protects_stored [OF fv _ s'(2) this]
  show "pmp_protects s' (unat region) = requested config {unat address..<unat address_end}" by simp
qed
section \<open>Locked entries\<close>

definition cfg_entry :: "(nat \<Rightarrow> u32) \<Rightarrow> nat \<Rightarrow> u8" where
  "cfg_entry cfg i = byte_of (cfg (i div 4)) (i mod 4)"

text \<open>
  The locking rules of the architecture: a write does not change a locked configuration byte, nor the
  address register of a locked entry, nor the one below a locked TOR entry.
\<close>

definition pmp_locking :: "pmp_csrs \<Rightarrow> bool" where
  "pmp_locking s \<longleftrightarrow>
     (\<forall>cfg n v j. j < 4 \<and> bit (byte_of (cfg n) j) 7 \<longrightarrow> byte_of (cfg_warl s cfg n v) j = byte_of (cfg n) j)
     \<and> (\<forall>cfg addr i v. bit (cfg_entry cfg i) 7 \<or> bit (cfg_entry cfg (Suc i)) 7 \<and> pmp_mode (cfg_entry cfg (Suc i)) = 1
          \<longrightarrow> addr_warl s cfg addr i v = addr i)"

definition keeps :: "nat \<Rightarrow> pmp_csrs \<Rightarrow> pmp_csrs \<Rightarrow> bool" where
  "keeps i s s' \<longleftrightarrow> cfg_warl s' = cfg_warl s \<and> addr_warl s' = addr_warl s \<and> pmp_entry s' i = pmp_entry s i
     \<and> pmpaddr s' i = pmpaddr s i
     \<and> (pmp_mode (pmp_entry s i) = 1 \<and> 0 < i \<longrightarrow> pmpaddr s' (i - 1) = pmpaddr s (i - 1))"

lemma keeps_refl: "keeps i s s"
  by (simp add: keeps_def)

lemma keeps_trans: "keeps i s s1 \<Longrightarrow> keeps i s1 s2 \<Longrightarrow> keeps i s s2"
  by (simp add: keeps_def)

lemma keeps_locking: "keeps i s s' \<Longrightarrow> pmp_locking s' \<longleftrightarrow> pmp_locking s"
  by (simp add: keeps_def pmp_locking_def)

lemma keeps_protects: "keeps i s s' \<Longrightarrow> pmp_protects s' i = pmp_protects s i"
  by (auto simp: keeps_def pmp_protects_def pmp_matches_def Let_def)

lemma keeps_store_addr:
  assumes "keeps i s s1" "pmp_locking s" "bit (pmp_entry s i) 7"
  shows "keeps i s (store_addr j v s1)"
proof -
  have stays: "addr_warl s cfg addr j v = addr j"
    if "bit (cfg_entry cfg j) 7 \<or> bit (cfg_entry cfg (Suc j)) 7 \<and> pmp_mode (cfg_entry cfg (Suc j)) = 1" for cfg addr
    using assms(2) that unfolding pmp_locking_def by blast
  have "pmpaddr (store_addr j v s1) k = pmpaddr s1 k"
    if "k = i \<or> k = i - 1 \<and> pmp_mode (pmp_entry s i) = 1 \<and> 0 < i" for k
    using that assms(1,3) stays [of "pmpcfg s1"] by (auto simp: keeps_def pmp_entry_def cfg_entry_def)
  then show ?thesis using assms(1) by (simp add: keeps_def pmp_entry_def)
qed

lemma keeps_store_cfg:
  assumes "keeps i s s1" "pmp_locking s" "bit (pmp_entry s i) 7"
  shows "keeps i s (store_cfg n v s1)"
proof -
  have "byte_of (pmpcfg (store_cfg n v s1) (i div 4)) (i mod 4) = byte_of (pmpcfg s1 (i div 4)) (i mod 4)"
    using assms by (auto simp: keeps_def pmp_locking_def pmp_entry_def)
  then show ?thesis using assms(1) by (simp add: keeps_def pmp_entry_def)
qed

text \<open>The calls a program can make of the driver.\<close>

datatype pmp_call =
  Configure_off u32 u32
| Configure_na4 u32 pmp_region_config u32
| Configure_napot u32 pmp_region_config u32 u32
| Configure_tor u32 pmp_region_config u32 u32
| Lock_status u32

fun pmp_call_step :: "pmp_call \<Rightarrow> pmp_csrs \<Rightarrow> pmp_csrs" where
  "pmp_call_step (Configure_off r a) s = snd (run_state (pmp_region_configure_off r a) s)"
| "pmp_call_step (Configure_na4 r c a) s = snd (run_state (pmp_region_configure_na4 r c a) s)"
| "pmp_call_step (Configure_napot r c a n) s = snd (run_state (pmp_region_configure_napot r c a n) s)"
| "pmp_call_step (Configure_tor r c a e) s = snd (run_state (pmp_region_configure_tor r c a e) s)"
| "pmp_call_step (Lock_status r) s = snd (run_state (pmp_cfg_mode_lock_status_get r (Some kPmpRegionLockUnlocked)) s)"

lemma pmp_call_keeps:
  assumes "pmp_locking s" "bit (pmp_entry s i) 7"
  shows "keeps i s (pmp_call_step c s)"
proof -
  note k = keeps_store_addr [OF _ assms] keeps_store_cfg [OF _ assms] keeps_refl
  have pred: "region - 1 < 16" if "region \<noteq> 0" "region < 16" for region :: u32
    using that by (metis less_imp_diff_less unat_minus_one word_less_nat_alt)
  show ?thesis
  proof (cases c)
    case (Configure_off r a)
    then show ?thesis
      by (auto simp: pmp_region_configure_off_def run_address_write run_cfg_field_write not_le intro!: k)
  next
    case (Configure_na4 r c a)
    then show ?thesis
      by (auto simp: pmp_region_configure_na4_def run_address_write run_cfg_field_write not_le Let_def
        intro!: k split: option.split)
  next
    case (Configure_napot r c a n)
    then show ?thesis
      by (auto simp: pmp_region_configure_napot_def run_address_write run_cfg_field_write not_le Let_def
        intro!: k split: option.split prod.split)
  next
    case (Configure_tor r c a e)
    then show ?thesis
      by (auto simp: pmp_region_configure_tor_def run_address_write run_cfg_field_write not_le Let_def pred
        intro!: k split: option.split)
  next
    case (Lock_status r)
    then show ?thesis
      by (auto simp: pmp_cfg_mode_lock_status_get_def pmp_csr_cfg_field_read_def pmp_cfg_csr_read_def Let_def
        intro!: k split: option.split)
  qed
qed

definition plain_csrs :: pmp_csrs where
  "plain_csrs = \<lparr>pmpcfg = \<lambda>_. 0, pmpaddr = \<lambda>_. 0, cfg_warl = \<lambda>_ _ v. v, addr_warl = \<lambda>_ _ _ v. v\<rparr>"

theorem pmp_configure_sound_witness:
  "\<exists>s'. run_state (pmp_region_configure_napot 5 \<lparr>cfg_lock = kPmpRegionLockLocked,
        cfg_permissions = kPmpRegionPermissionsReadExecute\<rparr> 0x20000400 0x400) plain_csrs = (kPmpRegionConfigureNapotOk, s')
     \<and> pmp_protects s' 5 = \<lparr>matched = {0x20000400..<0x20000800}, may_read = True, may_write = False,
          may_execute = True, locked = True\<rparr>"
proof -
  let ?c = "\<lparr>cfg_lock = kPmpRegionLockLocked, cfg_permissions = kPmpRegionPermissionsReadExecute\<rparr>"
  have "pmp_napot_address_construct 0x20000400 0x400 = (kPmpRegionConfigureNapotOk, Some 0x200005ff)"
    by (simp add: pmp_napot_address_construct_def)
  then obtain s' where run: "run_state (pmp_region_configure_napot 5 ?c 0x20000400 0x400) plain_csrs
      = (kPmpRegionConfigureNapotOk, s')"
    by (simp add: pmp_region_configure_napot_def run_address_write run_cfg_field_write plain_csrs_def)
  then have "pmp_protects s' (unat (5 :: u32)) = requested ?c {unat (0x20000400 :: u32)..<unat (0x20000400 :: u32) + unat (0x400 :: u32)}"
    using pmp_configure_sound by blast
  then show ?thesis using run by (simp add: requested_def)
qed

text \<open>Hardware that stores what is written except where the locking rules forbid it.\<close>

definition locking_csrs :: pmp_csrs where
  "locking_csrs = \<lparr>pmpcfg = \<lambda>_. 0x98, pmpaddr = \<lambda>_. 0x3ff,
     cfg_warl = \<lambda>cfg n v. bytes_word (map (\<lambda>j. if bit (byte_of (cfg n) j) 7 then byte_of (cfg n) j else byte_of v j) [0..<4]),
     addr_warl = \<lambda>cfg addr i v. if bit (cfg_entry cfg i) 7
       \<or> bit (cfg_entry cfg (Suc i)) 7 \<and> pmp_mode (cfg_entry cfg (Suc i)) = 1 then addr i else v\<rparr>"


end
