(* ===== verification/TcpServer.thy ===== *)
theory TcpServer
  imports Ring
begin

text \<open>
  The byte buffers between the simulator and the socket thread of the DPI modules
  (\<open>hw/dv/dpi/common/tcp_server/tcp_server.c\<close>). First the operations on their own, then the two
  threads: every load and store of the other thread's variable is a step, and the steps of the writer
  and the reader interleave in any order. The sockets behind the buffers are not modelled.
\<close>

section \<open>The buffer\<close>

record tcp_buf =
  tb_rptr :: u32
  tb_wptr :: u32
  tb_buf :: "u8 list"

abbreviation BUFSIZE_BYTE :: nat where
  "BUFSIZE_BYTE \<equiv> 256"

definition tcp_buffer_is_full :: "tcp_buf \<Rightarrow> bool" where
  "tcp_buffer_is_full b =
     (if tb_wptr b \<ge> tb_rptr b then tb_wptr b - tb_rptr b = of_nat (BUFSIZE_BYTE - 1)
      else tb_rptr b - tb_wptr b = 1)"

definition tcp_buffer_is_empty :: "tcp_buf \<Rightarrow> bool" where
  "tcp_buffer_is_empty b \<longleftrightarrow> tb_wptr b = tb_rptr b"

text \<open>The loop waits for the other thread to make room; alone, it waits forever on a full buffer.\<close>

partial_function (option) tcp_buffer_put_byte :: "tcp_buf \<Rightarrow> u8 \<Rightarrow> tcp_buf option" where
  "tcp_buffer_put_byte b dat =
     (if tcp_buffer_is_full b then tcp_buffer_put_byte b dat
      else Some (b\<lparr>tb_buf := (tb_buf b)[unat (tb_wptr b) := dat],
        tb_wptr := (tb_wptr b + 1) mod of_nat BUFSIZE_BYTE\<rparr>))"

definition tcp_buffer_get_byte :: "tcp_buf \<Rightarrow> u8 \<Rightarrow> bool \<times> u8 \<times> tcp_buf" where
  "tcp_buffer_get_byte b dat =
     (if tcp_buffer_is_empty b then (False, dat, b)
      else (True, tb_buf b ! unat (tb_rptr b), b\<lparr>tb_rptr := (tb_rptr b + 1) mod of_nat BUFSIZE_BYTE\<rparr>))"

text \<open>The storage of a new buffer is what \<open>malloc\<close> returned.\<close>

definition tcp_buffer_new :: "u8 list \<Rightarrow> tcp_buf" where
  "tcp_buffer_new storage = \<lparr>tb_rptr = 0, tb_wptr = 0, tb_buf = storage\<rparr>"

record tcp_server_ctx =
  buf_in :: tcp_buf
  buf_out :: tcp_buf

definition tcp_server_read :: "tcp_server_ctx \<Rightarrow> u8 \<Rightarrow> bool \<times> u8 \<times> tcp_server_ctx" where
  "tcp_server_read ctx dat =
     (let (ok, dat, b) = tcp_buffer_get_byte (buf_in ctx) dat in (ok, dat, ctx\<lparr>buf_in := b\<rparr>))"

definition tcp_server_write :: "tcp_server_ctx \<Rightarrow> u8 \<Rightarrow> tcp_server_ctx option" where
  "tcp_server_write ctx dat = map_option (\<lambda>b. ctx\<lparr>buf_out := b\<rparr>) (tcp_buffer_put_byte (buf_out ctx) dat)"

section \<open>A bounded queue\<close>

locale bounded_queue =
  fixes enq :: "'q \<Rightarrow> 'a \<Rightarrow> 'q option"
    and deq :: "'q \<Rightarrow> ('a \<times> 'q) option"
    and items :: "'q \<Rightarrow> 'a list"
    and ok :: "'q \<Rightarrow> bool"
    and capacity :: nat
  assumes enq: "ok q \<Longrightarrow> length (items q) < capacity \<Longrightarrow> \<exists>q'. enq q x = Some q' \<and> ok q' \<and> items q' = items q @ [x]"
    and enq_full: "ok q \<Longrightarrow> length (items q) = capacity \<Longrightarrow> enq q x = None"
    and deq: "ok q \<Longrightarrow> items q = x # xs \<Longrightarrow> \<exists>q'. deq q = Some (x, q') \<and> ok q' \<and> items q' = xs"
    and deq_empty: "ok q \<Longrightarrow> items q = [] \<Longrightarrow> deq q = None"
begin

fun enq_all :: "'q \<Rightarrow> 'a list \<Rightarrow> 'q option" where
  "enq_all q [] = Some q"
| "enq_all q (x # xs) = (case enq q x of None \<Rightarrow> None | Some q' \<Rightarrow> enq_all q' xs)"

lemma enq_all:
  "ok q \<Longrightarrow> length (items q) + length xs \<le> capacity \<Longrightarrow> \<exists>q'. enq_all q xs = Some q' \<and> ok q' \<and> items q' = items q @ xs"
proof (induction xs arbitrary: q)
  case (Cons x xs)
  then obtain q' where q': "enq q x = Some q'" "ok q'" "items q' = items q @ [x]" using enq [of q x] by auto
  then show ?case using Cons.IH [OF q'(2)] Cons.prems by auto
qed simp

lemma enq_then_deq: "ok q \<Longrightarrow> items q = [] \<Longrightarrow> 0 < capacity \<Longrightarrow> \<exists>q' q''. enq q x = Some q' \<and> deq q' = Some (x, q'') \<and> items q'' = []"
  using enq [of q x] deq by force

end

definition tcp_ok :: "tcp_buf \<Rightarrow> bool" where
  "tcp_ok b \<longleftrightarrow> length (tb_buf b) = BUFSIZE_BYTE \<and> tb_rptr b < 256 \<and> tb_wptr b < 256"

definition tcp_count :: "tcp_buf \<Rightarrow> nat" where
  "tcp_count b = (256 + unat (tb_wptr b) - unat (tb_rptr b)) mod 256"

definition tcp_items :: "tcp_buf \<Rightarrow> u8 list" where
  "tcp_items b = ring_slice (\<lambda>i. tb_buf b ! i) BUFSIZE_BYTE (unat (tb_rptr b)) (tcp_count b)"

lemma word_lt_256: "(x :: u32) < 256 \<longleftrightarrow> unat x < 256"
  by (simp add: word_less_nat_alt)

lemma unat_inc_mod: "(x :: u32) < 256 \<Longrightarrow> unat ((x + 1) mod 256) = (unat x + 1) mod 256"
  by (simp add: unat_mod_distrib unat_word_ariths word_lt_256)

lemma tcp_full_iff: "tcp_ok b \<Longrightarrow> tcp_buffer_is_full b \<longleftrightarrow> tcp_count b = 255"
proof -
  assume ok: "tcp_ok b"
  define r w where "r = unat (tb_rptr b)" and "w = unat (tb_wptr b)"
  have b: "r < 256" "w < 256" using ok by (auto simp: tcp_ok_def r_def w_def word_lt_256)
  have "tcp_buffer_is_full b \<longleftrightarrow> (if r \<le> w then w - r = 255 else r - w = 1)"
    by (simp add: tcp_buffer_is_full_def word_le_nat_alt word_unat_eq_iff unat_sub_if' r_def w_def)
  also have "\<dots> \<longleftrightarrow> (256 + w - r) mod 256 = 255"
    using b by (cases "r \<le> w") (auto simp: mod_if)
  finally show ?thesis by (simp add: tcp_count_def r_def w_def)
qed

lemma tcp_empty_iff: "tcp_ok b \<Longrightarrow> tcp_buffer_is_empty b \<longleftrightarrow> tcp_count b = 0"
proof -
  assume ok: "tcp_ok b"
  define r w where "r = unat (tb_rptr b)" and "w = unat (tb_wptr b)"
  have "r < 256" "w < 256" using ok by (auto simp: tcp_ok_def r_def w_def word_lt_256)
  then have "w = r \<longleftrightarrow> (256 + w - r) mod 256 = 0" by (cases "r \<le> w") (auto simp: mod_if)
  then show ?thesis by (simp add: tcp_buffer_is_empty_def tcp_count_def word_unat_eq_iff r_def w_def)
qed

lemma ring_position:
  assumes "r < 256" "w < 256"
  shows "(r + (256 + w - r) mod 256) mod 256 = (w :: nat)"
  using assms by (cases "r \<le> w") (auto simp: mod_if)

lemma tcp_wptr_position: "tcp_ok b \<Longrightarrow> (unat (tb_rptr b) + tcp_count b) mod 256 = unat (tb_wptr b)"
  unfolding tcp_count_def by (rule ring_position) (simp_all add: tcp_ok_def word_lt_256)

lemma tcp_count_less: "tcp_count b < 256"
  by (simp add: tcp_count_def)

lemma length_tcp_items [simp]: "length (tcp_items b) = tcp_count b"
  by (simp add: tcp_items_def)

lemma tcp_put:
  assumes "tcp_ok b" "tcp_count b < 255"
  shows "\<exists>b'. tcp_buffer_put_byte b x = Some b' \<and> tcp_ok b' \<and> tcp_items b' = tcp_items b @ [x]"
proof -
  let ?b = "b\<lparr>tb_buf := (tb_buf b)[unat (tb_wptr b) := x], tb_wptr := (tb_wptr b + 1) mod 256\<rparr>"
  define r w where "r = unat (tb_rptr b)" and "w = unat (tb_wptr b)"
  have b: "r < 256" "w < 256" "length (tb_buf b) = 256" using assms(1) by (auto simp: tcp_ok_def r_def w_def word_lt_256)
  have w': "unat ((tb_wptr b + 1) mod 256) = (w + 1) mod 256"
    using assms(1) by (simp add: unat_inc_mod tcp_ok_def w_def)
  have cnt: "tcp_count b = (256 + w - r) mod 256" by (simp add: tcp_count_def r_def w_def)
  have "(256 + (w + 1) mod 256 - r) mod 256 = (256 + w - r) mod 256 + 1"
    using b(1,2) assms(2) unfolding cnt by (cases "r \<le> w") (auto simp: mod_if split: if_splits)
  then have cnt': "tcp_count ?b = tcp_count b + 1" by (simp add: tcp_count_def w' r_def w_def)
  have pos: "(r + tcp_count b) mod 256 = w" using tcp_wptr_position [OF assms(1)] by (simp add: r_def w_def)
  have "ring_slice (\<lambda>i. (tb_buf b)[w := x] ! i) 256 r (tcp_count b) = ring_slice (\<lambda>i. tb_buf b ! i) 256 r (tcp_count b)"
  proof (rule ring_slice_cong)
    fix i assume "i < tcp_count b"
    then have "(r + i) mod 256 \<noteq> w"
      using ring_index_inj [of 256 i "tcp_count b" r] assms(2) pos by auto
    then show "(tb_buf b)[w := x] ! ((r + i) mod 256) = tb_buf b ! ((r + i) mod 256)" by simp
  qed
  then have "tcp_items ?b = tcp_items b @ [x]"
    using b pos ring_slice_add [of "\<lambda>i. (tb_buf b)[w := x] ! i" 256 r "tcp_count b" 1]
    unfolding tcp_items_def cnt' by (simp add: r_def [symmetric] w_def [symmetric] ring_slice_def [of _ _ _ "Suc 0"])
  moreover have "tcp_ok ?b" using assms(1) w' by (simp add: tcp_ok_def word_lt_256)
  moreover have "tcp_buffer_put_byte b x = Some ?b"
    using tcp_full_iff [OF assms(1)] assms(2) by (subst tcp_buffer_put_byte.simps) simp
  ultimately show ?thesis by blast
qed

lemma tcp_get:
  assumes "tcp_ok b" "tcp_items b = x # xs"
  shows "\<exists>b'. tcp_buffer_get_byte b d = (True, x, b') \<and> tcp_ok b' \<and> tcp_items b' = xs"
proof -
  let ?b = "b\<lparr>tb_rptr := (tb_rptr b + 1) mod 256\<rparr>"
  define r w where "r = unat (tb_rptr b)" and "w = unat (tb_wptr b)"
  have b: "r < 256" "w < 256" using assms(1) by (auto simp: tcp_ok_def r_def w_def word_lt_256)
  have r': "unat ((tb_rptr b + 1) mod 256) = (r + 1) mod 256"
    using assms(1) by (simp add: unat_inc_mod tcp_ok_def r_def)
  have n: "tcp_count b = Suc (length xs)" using arg_cong [OF assms(2), of length] by simp
  have cnt: "tcp_count b = (256 + w - r) mod 256" by (simp add: tcp_count_def r_def w_def)
  have "(256 + w - (r + 1) mod 256) mod 256 + 1 = (256 + w - r) mod 256"
    using b n unfolding cnt by (cases "r \<le> w") (auto simp: mod_if split: if_splits)
  then have cnt': "tcp_count ?b = length xs" using n by (simp add: tcp_count_def r' r_def w_def)
  have "tcp_items b = ring_slice (\<lambda>i. tb_buf b ! i) 256 r (1 + length xs)" by (simp add: tcp_items_def n r_def)
  also have "\<dots> = (tb_buf b ! r) # ring_slice (\<lambda>i. tb_buf b ! i) 256 (r + 1) (length xs)"
    using b(1) by (simp only: ring_slice_add) (simp add: ring_slice_def)
  finally have "x = tb_buf b ! r" "xs = ring_slice (\<lambda>i. tb_buf b ! i) 256 (r + 1) (length xs)"
    using assms(2) by simp_all
  then have "tcp_items ?b = xs" by (simp add: tcp_items_def cnt' r' del: ring_slice_mod) (metis ring_slice_mod Suc_eq_plus1)
  moreover have "tcp_ok ?b" using assms(1) r' by (simp add: tcp_ok_def word_lt_256)
  moreover have "tcp_buffer_get_byte b d = (True, x, ?b)"
    using tcp_empty_iff [OF assms(1)] n \<open>x = _\<close> by (simp add: tcp_buffer_get_byte_def r_def)
  ultimately show ?thesis by blast
qed

lemma tcp_put_full: "tcp_ok b \<Longrightarrow> tcp_count b = 255 \<Longrightarrow> tcp_buffer_put_byte b x = None"
proof -
  assume "tcp_ok b" "tcp_count b = 255"
  then have full: "tcp_buffer_is_full b" using tcp_full_iff by simp
  have "\<not> tcp_buffer_is_full c" if "tcp_buffer_put_byte c y = Some z" for c y z
    using that by (erule_tac tcp_buffer_put_byte.raw_induct [rotated, where P = "\<lambda>b _ _. \<not> tcp_buffer_is_full b"])
      (auto split: if_splits)
  with full show ?thesis by (cases "tcp_buffer_put_byte b x") auto
qed

interpretation tcp_queue: bounded_queue tcp_buffer_put_byte
    "\<lambda>b. case tcp_buffer_get_byte b 0 of (found, dat, b') \<Rightarrow> if found then Some (dat, b') else None"
    tcp_items tcp_ok "BUFSIZE_BYTE - 1"
proof
  fix b :: tcp_buf and x :: u8 and xs :: "u8 list"
  assume ok: "tcp_ok b"
  show "length (tcp_items b) < BUFSIZE_BYTE - 1 \<Longrightarrow>
      \<exists>b'. tcp_buffer_put_byte b x = Some b' \<and> tcp_ok b' \<and> tcp_items b' = tcp_items b @ [x]"
    using tcp_put [OF ok] by simp
  show "length (tcp_items b) = BUFSIZE_BYTE - 1 \<Longrightarrow> tcp_buffer_put_byte b x = None"
    using tcp_put_full [OF ok] by simp
  show "tcp_items b = x # xs \<Longrightarrow>
      \<exists>b'. (case tcp_buffer_get_byte b 0 of (found, dat, b') \<Rightarrow> if found then Some (dat, b') else None) = Some (x, b')
        \<and> tcp_ok b' \<and> tcp_items b' = xs"
    using tcp_get [OF ok, of x xs 0] by auto
  show "tcp_items b = [] \<Longrightarrow>
      (case tcp_buffer_get_byte b 0 of (found, dat, b') \<Rightarrow> if found then Some (dat, b') else None) = None"
    using tcp_empty_iff [OF ok] by (auto simp: tcp_buffer_get_byte_def simp flip: length_tcp_items)
qed


section \<open>Two threads\<close>

text \<open>
  The position of the writing thread in \<open>tcp_buffer_put_byte\<close> and of the reading thread in
  \<open>tcp_buffer_get_byte\<close>, with the values they hold. \<open>tcp_buffer_is_full\<close> reads the reader's index
  twice: once to compare, once to subtract. The source increments an index and wraps it in two
  assignments. Whether the value in between is seen by the other thread depends on the compiler, since the
  fields are neither volatile nor atomic; the flag \<open>split\<close> says that it is.
\<close>

datatype put_pc = PutStart | PutCompare u8 | PutSubtract u8 bool | PutStore u8 | PutAdvance | PutWrap

datatype get_pc = GetStart | GetLoad | GetAdvance u8 | GetWrap u8

record tcp_conf =
  shared :: tcp_buf
  putter :: put_pc
  getter :: get_pc
  sent :: "u8 list"
  received :: "u8 list"

inductive tcp_step :: "bool \<Rightarrow> tcp_conf \<Rightarrow> tcp_conf \<Rightarrow> bool" for split where
  put_call: "putter s = PutStart \<Longrightarrow> tcp_step split s (s\<lparr>putter := PutCompare d, sent := sent s @ [d]\<rparr>)"
| put_compare: "putter s = PutCompare d \<Longrightarrow>
    tcp_step split s (s\<lparr>putter := PutSubtract d (tb_wptr (shared s) \<ge> tb_rptr (shared s))\<rparr>)"
| put_subtract: "putter s = PutSubtract d ge \<Longrightarrow>
    full = (if ge then tb_wptr (shared s) - tb_rptr (shared s) = 255 else tb_rptr (shared s) - tb_wptr (shared s) = 1) \<Longrightarrow>
    tcp_step split s (s\<lparr>putter := (if full then PutCompare d else PutStore d)\<rparr>)"
| put_store: "putter s = PutStore d \<Longrightarrow>
    tcp_step split s (s\<lparr>putter := PutAdvance,
      shared := shared s\<lparr>tb_buf := (tb_buf (shared s))[unat (tb_wptr (shared s)) := d]\<rparr>\<rparr>)"
| put_advance: "putter s = PutAdvance \<Longrightarrow> \<not> split \<Longrightarrow>
    tcp_step split s (s\<lparr>putter := PutStart, shared := shared s\<lparr>tb_wptr := (tb_wptr (shared s) + 1) mod 256\<rparr>\<rparr>)"
| put_increment: "putter s = PutAdvance \<Longrightarrow> split \<Longrightarrow>
    tcp_step split s (s\<lparr>putter := PutWrap, shared := shared s\<lparr>tb_wptr := tb_wptr (shared s) + 1\<rparr>\<rparr>)"
| put_wrap: "putter s = PutWrap \<Longrightarrow>
    tcp_step split s (s\<lparr>putter := PutStart, shared := shared s\<lparr>tb_wptr := tb_wptr (shared s) mod 256\<rparr>\<rparr>)"
| get_empty: "getter s = GetStart \<Longrightarrow> tcp_buffer_is_empty (shared s) \<Longrightarrow> tcp_step split s s"
| get_call: "getter s = GetStart \<Longrightarrow> \<not> tcp_buffer_is_empty (shared s) \<Longrightarrow> tcp_step split s (s\<lparr>getter := GetLoad\<rparr>)"
| get_load: "getter s = GetLoad \<Longrightarrow>
    tcp_step split s (s\<lparr>getter := GetAdvance (tb_buf (shared s) ! unat (tb_rptr (shared s)))\<rparr>)"
| get_advance: "getter s = GetAdvance d \<Longrightarrow> \<not> split \<Longrightarrow>
    tcp_step split s (s\<lparr>getter := GetStart, received := received s @ [d],
      shared := shared s\<lparr>tb_rptr := (tb_rptr (shared s) + 1) mod 256\<rparr>\<rparr>)"
| get_increment: "getter s = GetAdvance d \<Longrightarrow> split \<Longrightarrow>
    tcp_step split s (s\<lparr>getter := GetWrap d, shared := shared s\<lparr>tb_rptr := tb_rptr (shared s) + 1\<rparr>\<rparr>)"
| get_wrap: "getter s = GetWrap d \<Longrightarrow>
    tcp_step split s (s\<lparr>getter := GetStart, received := received s @ [d],
      shared := shared s\<lparr>tb_rptr := tb_rptr (shared s) mod 256\<rparr>\<rparr>)"

inductive_cases tcp_step_cases: "tcp_step split s t"

definition tcp_init :: "u8 list \<Rightarrow> tcp_conf" where
  "tcp_init storage = \<lparr>shared = tcp_buffer_new storage, putter = PutStart, getter = GetStart, sent = [], received = []\<rparr>"

abbreviation tcp_steps :: "bool \<Rightarrow> tcp_conf \<Rightarrow> tcp_conf \<Rightarrow> bool" where
  "tcp_steps split \<equiv> (tcp_step split)\<^sup>*\<^sup>*"

text \<open>
  The invariant, in terms of how many bytes have been published (\<open>p\<close>) and taken out (\<open>c\<close>): the indices
  are these counts modulo the size, and the cells between them hold the bytes sent in between. A writer
  that has compared the indices while the buffer is full holds the outcome of the present comparison.
\<close>

fun putter_ok :: "put_pc \<Rightarrow> u32 \<Rightarrow> u32 \<Rightarrow> u8 list \<Rightarrow> u8 list \<Rightarrow> nat \<Rightarrow> nat \<Rightarrow> bool" where
  "putter_ok PutStart r w cells snt c p \<longleftrightarrow> length snt = p"
| "putter_ok (PutCompare d) r w cells snt c p \<longleftrightarrow> length snt = Suc p \<and> snt ! p = d"
| "putter_ok (PutSubtract d ge) r w cells snt c p \<longleftrightarrow>
     length snt = Suc p \<and> snt ! p = d \<and> (p = c + 255 \<longrightarrow> ge = (w \<ge> r))"
| "putter_ok (PutStore d) r w cells snt c p \<longleftrightarrow> length snt = Suc p \<and> snt ! p = d \<and> p < c + 255"
| "putter_ok PutAdvance r w cells snt c p \<longleftrightarrow> length snt = Suc p \<and> p < c + 255 \<and> cells ! (p mod 256) = snt ! p"
| "putter_ok PutWrap r w cells snt c p \<longleftrightarrow> False"

fun getter_ok :: "get_pc \<Rightarrow> u8 list \<Rightarrow> nat \<Rightarrow> nat \<Rightarrow> bool" where
  "getter_ok GetStart snt c p \<longleftrightarrow> True"
| "getter_ok GetLoad snt c p \<longleftrightarrow> c < p"
| "getter_ok (GetAdvance d) snt c p \<longleftrightarrow> c < p \<and> d = snt ! c"
| "getter_ok (GetWrap d) snt c p \<longleftrightarrow> False"

definition fifo_inv :: "tcp_conf \<Rightarrow> nat \<Rightarrow> nat \<Rightarrow> bool" where
  "fifo_inv s c p \<longleftrightarrow>
     (let b = shared s in
      length (tb_buf b) = 256 \<and> unat (tb_wptr b) = p mod 256 \<and> unat (tb_rptr b) = c mod 256
      \<and> c \<le> p \<and> p \<le> c + 255 \<and> p \<le> length (sent s)
      \<and> putter_ok (putter s) (tb_rptr b) (tb_wptr b) (tb_buf b) (sent s) c p
      \<and> getter_ok (getter s) (sent s) c p
      \<and> received s = take c (sent s)
      \<and> (\<forall>i. c \<le> i \<and> i < p \<longrightarrow> tb_buf b ! (i mod 256) = sent s ! i))"

lemma fifo_init: "length storage = 256 \<Longrightarrow> fifo_inv (tcp_init storage) 0 0"
  by (simp add: fifo_inv_def tcp_init_def tcp_buffer_new_def)

lemma full_test:
  assumes "unat (w :: u32) = p mod 256" "unat (r :: u32) = c mod 256" "p = c + 255"
  shows "if w \<ge> r then w - r = 255 else r - w = 1"
proof -
  have "(c + 255) mod 256 = (if c mod 256 = 0 then 255 else c mod 256 - 1)"
    by (simp add: mod_add_left_eq [of c 256 255, symmetric] mod_if [of "c mod 256 + 255"] split: if_splits)
  then show ?thesis
    using assms by (auto simp: word_le_nat_alt word_unat_eq_iff unat_sub_if' split: if_splits)
qed


text \<open>One lemma per thread: a step of the writer, or of the reader, keeps the invariant for suitable counts.\<close>

lemma cells_apart: "c \<le> i \<Longrightarrow> i < p \<Longrightarrow> p < c + 256 \<Longrightarrow> i mod 256 \<noteq> p mod (256 :: nat)"
  using ring_index_inj [of 256 "i - c" "p - c" c] by fastforce

lemma fifo_step:
  assumes "tcp_step False s t" "fifo_inv s c p"
  shows "\<exists>c' p'. fifo_inv t c' p' \<and> c \<le> c' \<and> p \<le> p'"
  using assms(1)
proof (cases rule: tcp_step.cases)
  case (put_call d)
  have "fifo_inv t c p" using assms(2)
    by (cases "getter s") (auto simp: fifo_inv_def put_call Let_def nth_append)
  then show ?thesis by blast
next
  case (put_compare d)
  have "fifo_inv t c p" using assms(2) by (auto simp: fifo_inv_def put_compare Let_def)
  then show ?thesis by blast
next
  case (put_subtract d ge full)
  have "fifo_inv t c p"
  proof (cases full)
    case True
    then show ?thesis using assms(2) by (auto simp: fifo_inv_def put_subtract(1,2) Let_def)
  next
    case False
    have "p \<noteq> c + 255"
    proof
      assume "p = c + 255"
      with full_test [of "tb_wptr (shared s)" p "tb_rptr (shared s)" c] False assms(2) show False
        by (auto simp: fifo_inv_def Let_def put_subtract(2,3) split: if_splits)
    qed
    then show ?thesis using False assms(2) by (auto simp: fifo_inv_def put_subtract(1,2) Let_def)
  qed
  then show ?thesis by blast
next
  case (put_store d)
  have apart: "p mod 256 \<noteq> i mod 256" if "c \<le> i" "i < p" for i
    using assms(2) that cells_apart [of c i p] by (fastforce simp: fifo_inv_def Let_def)
  have "fifo_inv t c p"
    using assms(2) by (auto simp: fifo_inv_def put_store Let_def apart)
  then show ?thesis by blast
next
  case put_advance
  have "unat (tb_wptr (shared s)) = p mod 256" using assms(2) by (simp add: fifo_inv_def Let_def)
  then have next_index: "unat ((tb_wptr (shared s) + 1) mod 256) = Suc p mod 256"
    by (subst unat_inc_mod) (simp_all add: word_lt_256 mod_Suc_eq)
  have cells: "\<forall>i. c \<le> i \<and> i < Suc p \<longrightarrow> tb_buf (shared s) ! (i mod 256) = sent s ! i"
    using assms(2) put_advance(2) by (simp add: fifo_inv_def Let_def less_Suc_eq) blast
  have "getter_ok (getter s) (sent s) c (Suc p)"
    using assms(2) by (cases "getter s") (simp_all add: fifo_inv_def Let_def)
  then have "fifo_inv t c (Suc p)"
    using assms(2) cells next_index by (simp add: fifo_inv_def put_advance(1,2) Let_def)
  then show ?thesis by (blast intro: le_SucI)
next
  case put_wrap
  then show ?thesis using assms(2) by (simp add: fifo_inv_def Let_def)
next
  case get_call
  have "c < p" using assms(2) get_call(3) by (auto simp: fifo_inv_def Let_def tcp_buffer_is_empty_def word_unat_eq_iff le_less)
  then have "fifo_inv t c p" using assms(2) by (auto simp: fifo_inv_def get_call(1) Let_def)
  then show ?thesis by blast
next
  case get_load
  have "fifo_inv t c p" using assms(2) by (auto simp: fifo_inv_def get_load Let_def)
  then show ?thesis by blast
next
  case (get_advance d)
  have "unat (tb_rptr (shared s)) = c mod 256" using assms(2) by (simp add: fifo_inv_def Let_def)
  then have next_index: "unat ((tb_rptr (shared s) + 1) mod 256) = Suc c mod 256"
    by (subst unat_inc_mod) (simp_all add: word_lt_256 mod_Suc_eq)
  have c: "c < p" "d = sent s ! c" "p \<le> length (sent s)" "received s = take c (sent s)"
    using assms(2) get_advance(2) by (simp_all add: fifo_inv_def Let_def)
  then have rec: "received s @ [d] = take (Suc c) (sent s)" by (simp add: take_Suc_conv_app_nth)
  have "putter_ok (putter s) ((tb_rptr (shared s) + 1) mod 256) (tb_wptr (shared s)) (tb_buf (shared s)) (sent s) (Suc c) p"
    using assms(2) c by (cases "putter s") (simp_all add: fifo_inv_def Let_def)
  then have "fifo_inv t (Suc c) p"
    using assms(2) c rec next_index by (simp add: fifo_inv_def get_advance(1,2) Let_def)
  then show ?thesis by (blast intro: le_SucI)
next
  case (get_wrap d)
  then show ?thesis using assms(2) by (simp add: fifo_inv_def Let_def)
qed (use assms(2) in \<open>auto\<close>)

lemma fifo_reachable:
  assumes "length storage = 256" "tcp_steps False (tcp_init storage) s"
  shows "\<exists>c p. fifo_inv s c p"
  using assms(2)
proof (induction rule: rtranclp_induct)
  case base
  then show ?case using fifo_init [OF assms(1)] by blast
next
  case (step s t)
  then show ?case using fifo_step by blast
qed


text \<open>
  C25. When the wrapped index is stored at once, every interleaving of the two threads keeps the buffer a
  queue: in every reachable state the bytes received are the first of the bytes sent, in order, at most
  256 bytes are on the way, and when the reader finds the buffer empty while no write is in progress,
  every byte sent has been received.
\<close>

theorem tcp_buffer_fifo:
  assumes "length storage = 256" "tcp_steps False (tcp_init storage) s"
  shows "received s = take (length (received s)) (sent s) \<and> length (sent s) \<le> length (received s) + 256
    \<and> (getter s = GetStart \<longrightarrow> putter s = PutStart \<longrightarrow> tcp_buffer_is_empty (shared s) \<longrightarrow> received s = sent s)"
proof -
  from fifo_reachable [OF assms] obtain c p where inv: "fifo_inv s c p" by blast
  then have "length (received s) = c" "length (sent s) \<le> Suc p"
    by (cases "putter s"; auto simp: fifo_inv_def Let_def)+
  moreover have "p = c" if "tcp_buffer_is_empty (shared s)"
  proof -
    have "p mod 256 = c mod 256" using that inv by (auto simp: fifo_inv_def Let_def tcp_buffer_is_empty_def)
    then show ?thesis
      using inv ring_index_inj [of 256 "p - c" 0 c] by (auto simp: fifo_inv_def Let_def)
  qed
  ultimately show ?thesis using inv by (auto simp: fifo_inv_def Let_def)
qed

lemma tcp_run_one_byte:
  "\<exists>s. tcp_steps split (tcp_init storage) s \<and> sent s = [d] \<and> putter s = PutCompare d"
  by (intro exI conjI) (rule r_into_rtranclp, rule tcp_step.put_call, simp_all add: tcp_init_def)

theorem tcp_buffer_fifo_witness:
  "\<exists>s. tcp_steps False (tcp_init (replicate 256 0)) s \<and> sent s = [7] \<and> received s = take (length (received s)) [7]"
proof -
  obtain s where "tcp_steps False (tcp_init (replicate 256 0)) s" "sent s = [7]"
    using tcp_run_one_byte by blast
  then show ?thesis using tcp_buffer_fifo [of "replicate 256 0" s] by auto
qed

section \<open>The race\<close>

lemma of_nat_u32_eq: "m \<le> 256 \<Longrightarrow> n \<le> 256 \<Longrightarrow> (of_nat m :: u32) = of_nat n \<longleftrightarrow> m = n"
  by (simp add: word_unat_eq_iff unat_of_nat_u32)

text \<open>Whole calls of the writer and of the reader, run without interruption.\<close>

definition tcp_at :: "tcp_conf \<Rightarrow> nat \<Rightarrow> nat \<Rightarrow> nat \<Rightarrow> nat \<Rightarrow> bool" where
  "tcp_at s w r n m \<longleftrightarrow> putter s = PutStart \<and> tb_wptr (shared s) = of_nat w \<and> tb_rptr (shared s) = of_nat r
     \<and> length (sent s) = n \<and> length (received s) = m"

lemma put_free:
  assumes "putter s = PutSubtract d ge"
    and "\<not> (if ge then tb_wptr (shared s) - tb_rptr (shared s) = 255 else tb_rptr (shared s) - tb_wptr (shared s) = 1)"
  shows "tcp_step split s (s\<lparr>putter := PutStore d\<rparr>)"
  using tcp_step.put_subtract [OF assms(1), of False split] assms(2) by simp

lemma put_call_steps:
  assumes "tcp_at s w r n m" "w < 256" "r \<le> 256" "\<not> (if r \<le> w then w - r = 255 else r - w = 1)"
  shows "\<exists>t. tcp_steps True s t \<and> tcp_at t ((w + 1) mod 256) r (Suc n) m \<and> getter t = getter s"
proof -
  let ?s1 = "s\<lparr>putter := PutCompare 0, sent := sent s @ [0]\<rparr>"
  let ?s2 = "?s1\<lparr>putter := PutSubtract 0 (tb_wptr (shared s) \<ge> tb_rptr (shared s))\<rparr>"
  let ?s3 = "?s2\<lparr>putter := PutStore 0\<rparr>"
  let ?s4 = "?s3\<lparr>putter := PutAdvance, shared := shared s\<lparr>tb_buf := (tb_buf (shared s))[unat (tb_wptr (shared s)) := 0]\<rparr>\<rparr>"
  let ?s5 = "?s4\<lparr>putter := PutWrap, shared := shared ?s4\<lparr>tb_wptr := tb_wptr (shared ?s4) + 1\<rparr>\<rparr>"
  let ?s6 = "?s5\<lparr>putter := PutStart, shared := shared ?s5\<lparr>tb_wptr := tb_wptr (shared ?s5) mod 256\<rparr>\<rparr>"
  have u: "unat (of_nat w :: u32) = w" "unat (of_nat r :: u32) = r" using assms(2,3) by (auto intro!: unat_of_nat_u32)
  have s: "tb_wptr (shared s) = of_nat w" "tb_rptr (shared s) = of_nat r" "putter s = PutStart"
    using assms(1) by (auto simp: tcp_at_def)
  have nf: "\<not> (if tb_wptr (shared s) \<ge> tb_rptr (shared s) then tb_wptr (shared s) - tb_rptr (shared s) = 255
      else tb_rptr (shared s) - tb_wptr (shared s) = 1)"
    using assms(4) by (auto simp: s word_le_nat_alt word_unat_eq_iff unat_sub_if' u split: if_splits)
  have "tcp_step True s ?s1" using s by (rule_tac tcp_step.put_call)
  moreover have "tcp_step True ?s1 ?s2" using tcp_step.put_compare [of ?s1 0 True] by simp
  moreover have "tcp_step True ?s2 ?s3" by (rule put_free) (use nf in auto)
  moreover have "tcp_step True ?s3 ?s4" using tcp_step.put_store [of ?s3 0 True] by simp
  moreover have "tcp_step True ?s4 ?s5" using tcp_step.put_increment [of ?s4 True] by simp
  moreover have "tcp_step True ?s5 ?s6" using tcp_step.put_wrap [of ?s5 True] by simp
  ultimately have "tcp_steps True s ?s6" by (meson rtranclp.rtrancl_refl rtranclp.rtrancl_into_rtrancl)
  moreover have "(of_nat w + 1 :: u32) mod 256 = of_nat ((w + 1) mod 256)"
    using assms(2) by (simp add: word_unat_eq_iff unat_mod_distrib unat_word_ariths u unat_of_nat_u32)
  then have "tcp_at ?s6 ((w + 1) mod 256) r (Suc n) m" using assms(1) s by (simp add: tcp_at_def)
  ultimately show ?thesis by (intro exI [of _ ?s6]) simp
qed


lemma get_half_steps:
  assumes "tcp_at s w r n m" "w < 256" "r < 256" "w \<noteq> r" "getter s = GetStart"
  shows "\<exists>t d. tcp_steps True s t \<and> tcp_at t w (r + 1) n m \<and> getter t = GetWrap d"
proof -
  let ?d = "tb_buf (shared s) ! unat (tb_rptr (shared s))"
  let ?s1 = "s\<lparr>getter := GetLoad\<rparr>"
  let ?s2 = "?s1\<lparr>getter := GetAdvance ?d\<rparr>"
  let ?s3 = "?s2\<lparr>getter := GetWrap ?d, shared := shared s\<lparr>tb_rptr := tb_rptr (shared s) + 1\<rparr>\<rparr>"
  have "\<not> tcp_buffer_is_empty (shared s)"
    using assms(1-4) by (simp add: tcp_buffer_is_empty_def tcp_at_def of_nat_u32_eq)
  then have "tcp_step True s ?s1" using assms(5) by (rule_tac tcp_step.get_call)
  moreover have "tcp_step True ?s1 ?s2" using tcp_step.get_load [of ?s1 True] by simp
  moreover have "tcp_step True ?s2 ?s3" using tcp_step.get_increment [of ?s2 ?d True] by simp
  ultimately have "tcp_steps True s ?s3" by (meson rtranclp.rtrancl_refl rtranclp.rtrancl_into_rtrancl)
  moreover have "tcp_at ?s3 w (r + 1) n m" using assms(1) by (simp add: tcp_at_def add.commute)
  ultimately show ?thesis by (intro exI [of _ ?s3] exI [of _ ?d]) simp
qed

lemma get_wrap_step:
  assumes "tcp_at s w r n m" "r \<le> 256" "getter s = GetWrap d"
  shows "\<exists>t. tcp_step True s t \<and> tcp_at t w (r mod 256) n (Suc m) \<and> getter t = GetStart"
proof -
  let ?t = "s\<lparr>getter := GetStart, received := received s @ [d], shared := shared s\<lparr>tb_rptr := tb_rptr (shared s) mod 256\<rparr>\<rparr>"
  have "(of_nat r :: u32) mod 256 = of_nat (r mod 256)"
    using assms(2) by (simp add: word_unat_eq_iff unat_mod_distrib unat_of_nat_u32)
  then have "tcp_at ?t w (r mod 256) n (Suc m)" using assms(1) by (simp add: tcp_at_def)
  moreover have "tcp_step True s ?t" by (rule tcp_step.get_wrap [OF assms(3)])
  ultimately show ?thesis by (intro exI [of _ ?t]) simp
qed

lemma get_call_steps:
  assumes "tcp_at s w r n m" "w < 256" "r < 256" "w \<noteq> r" "getter s = GetStart"
  shows "\<exists>t. tcp_steps True s t \<and> tcp_at t w ((r + 1) mod 256) n (Suc m) \<and> getter t = GetStart"
proof -
  from get_half_steps [OF assms] obtain t d where t: "tcp_steps True s t" "tcp_at t w (r + 1) n m" "getter t = GetWrap d"
    by blast
  from get_wrap_step [OF t(2) _ t(3)] assms(3) obtain v where
    "tcp_step True t v" "tcp_at v w ((r + 1) mod 256) n (Suc m)" "getter v = GetStart" by auto
  then show ?thesis using t(1) by (meson rtranclp.rtrancl_into_rtrancl)
qed

text \<open>From an empty buffer at index 0, the indices can be brought to any position, then the buffer filled.\<close>

lemma reach_lockstep:
  assumes "k < 256"
  shows "\<exists>s. tcp_steps True (tcp_init storage) s \<and> tcp_at s k k k k \<and> getter s = GetStart"
  using assms
proof (induction k)
  case 0
  have "tcp_at (tcp_init storage) 0 0 0 0" "getter (tcp_init storage) = GetStart"
    by (simp_all add: tcp_at_def tcp_init_def tcp_buffer_new_def)
  then show ?case by blast
next
  case (Suc k)
  then obtain s where s: "tcp_steps True (tcp_init storage) s" "tcp_at s k k k k" "getter s = GetStart" by auto
  from put_call_steps [OF s(2)] Suc.prems s(3) obtain t where
    t: "tcp_steps True s t" "tcp_at t (Suc k) k (Suc k) k" "getter t = GetStart" by auto
  from get_call_steps [OF t(2)] Suc.prems t(3) obtain v where
    "tcp_steps True t v" "tcp_at v (Suc k) (Suc k) (Suc k) (Suc k)" "getter v = GetStart" by auto
  then show ?case using s(1) t(1) by (meson rtranclp_trans)
qed

lemma reach_fill:
  assumes "k \<le> 255"
  shows "\<exists>s. tcp_steps True (tcp_init storage) s \<and> tcp_at s ((255 + k) mod 256) 255 (255 + k) 255 \<and> getter s = GetStart"
  using assms
proof (induction k)
  case 0
  then show ?case using reach_lockstep [of 255] by simp
next
  case (Suc k)
  then obtain s where s: "tcp_steps True (tcp_init storage) s" "tcp_at s ((255 + k) mod 256) 255 (255 + k) 255"
    "getter s = GetStart" by auto
  have nf: "\<not> (if 255 \<le> (255 + k) mod 256 then (255 + k) mod 256 - 255 = 255 else 255 - (255 + k) mod 256 = 1)"
    using Suc.prems by (cases "k = 0") (auto simp: mod_if)
  from put_call_steps [OF s(2) _ _ nf] s(3) obtain t where
    "tcp_steps True s t" "tcp_at t (Suc ((255 + k) mod 256) mod 256) 255 (Suc (255 + k)) 255" "getter t = GetStart" by auto
  then show ?case using s(1) by (auto simp: mod_Suc_eq intro: rtranclp_trans)
qed


text \<open>
  The fatal window: the writer compares the indices while the reader's is incremented but not yet
  wrapped, and subtracts after it has been wrapped.
\<close>

lemma race_steps:
  assumes "tcp_at s 255 256 n m" "getter s = GetWrap d"
  shows "\<exists>t. tcp_steps True s t \<and> tcp_at t 0 0 (Suc n) (Suc m) \<and> getter t = GetStart"
proof -
  let ?s1 = "s\<lparr>putter := PutCompare 0, sent := sent s @ [0]\<rparr>"
  let ?s2 = "?s1\<lparr>putter := PutSubtract 0 False\<rparr>"
  let ?s3 = "?s2\<lparr>getter := GetStart, received := received s @ [d], shared := shared s\<lparr>tb_rptr := tb_rptr (shared s) mod 256\<rparr>\<rparr>"
  let ?s4 = "?s3\<lparr>putter := PutStore 0\<rparr>"
  let ?s5 = "?s4\<lparr>putter := PutAdvance, shared := shared ?s4\<lparr>tb_buf := (tb_buf (shared ?s4))[unat (tb_wptr (shared ?s4)) := 0]\<rparr>\<rparr>"
  let ?s6 = "?s5\<lparr>putter := PutWrap, shared := shared ?s5\<lparr>tb_wptr := tb_wptr (shared ?s5) + 1\<rparr>\<rparr>"
  let ?s7 = "?s6\<lparr>putter := PutStart, shared := shared ?s6\<lparr>tb_wptr := tb_wptr (shared ?s6) mod 256\<rparr>\<rparr>"
  have s: "tb_wptr (shared s) = 255" "tb_rptr (shared s) = 256" "putter s = PutStart"
    using assms(1) by (simp_all add: tcp_at_def)
  have "tcp_step True s ?s1" using s by (rule_tac tcp_step.put_call)
  moreover have "\<not> (tb_wptr (shared s) \<ge> tb_rptr (shared s))" by (simp add: s)
  then have "tcp_step True ?s1 ?s2" using tcp_step.put_compare [of ?s1 0 True] by simp
  moreover have "tcp_step True ?s2 ?s3" using tcp_step.get_wrap [of ?s2 d True] assms(2) by simp
  moreover have "tcp_step True ?s3 ?s4" using put_free [of ?s3 0 False True] by (simp add: s)
  moreover have "tcp_step True ?s4 ?s5" using tcp_step.put_store [of ?s4 0 True] by simp
  moreover have "tcp_step True ?s5 ?s6" using tcp_step.put_increment [of ?s5 True] by simp
  moreover have "tcp_step True ?s6 ?s7" using tcp_step.put_wrap [of ?s6 True] by simp
  ultimately have "tcp_steps True s ?s7" by (meson rtranclp.rtrancl_refl rtranclp.rtrancl_into_rtrancl)
  moreover have "tcp_at ?s7 0 0 (Suc n) (Suc m)" using assms(1) by (simp add: tcp_at_def)
  ultimately show ?thesis by (intro exI [of _ ?s7]) simp
qed



end
