(* ===== verification/UsbCrc.thy ===== *)
theory UsbCrc
  imports Prelude
begin

text \<open>
  The CRC routines of the USB model (\<open>hw/dv/dpi/usbdpi/usb_crc.c\<close>): the token CRC5 with the most and with
  the least significant bit first, and the data CRC16. \<open>int\<close> counts are integers; \<open>while (n--)\<close> with a
  positive count runs \<open>n\<close> times.
\<close>

unbundle bit_operations_syntax

section \<open>The routines\<close>

abbreviation INT_SIZE :: nat where
  "INT_SIZE \<equiv> 32"

definition poly5_msb :: u32 where
  "poly5_msb = push_bit (INT_SIZE - 5) 0x05"

definition crc5_msb_step :: "u32 \<Rightarrow> u32 \<Rightarrow> u32" where
  "crc5_msb_step crc5 udata =
     (if (udata XOR crc5) AND push_bit (INT_SIZE - 1) 1 \<noteq> 0 then push_bit 1 crc5 XOR poly5_msb
      else push_bit 1 crc5)"

fun crc5_msb_loop :: "nat \<Rightarrow> u32 \<Rightarrow> u32 \<Rightarrow> u32" where
  "crc5_msb_loop 0 crc5 udata = crc5"
| "crc5_msb_loop (Suc n) crc5 udata = crc5_msb_loop n (crc5_msb_step crc5 udata) (push_bit 1 udata)"

definition CRC5_MSBfirst :: "u32 \<Rightarrow> int \<Rightarrow> u32" where
  "CRC5_MSBfirst dwInput iBitcnt =
     (if iBitcnt < 1 \<or> iBitcnt > int INT_SIZE then 0xffffffff
      else
        (let crc5 = push_bit (INT_SIZE - 5) 0x1f;
             udata = push_bit (INT_SIZE - nat iBitcnt) dwInput;
             crc5 = crc5_msb_loop (nat iBitcnt) crc5 udata;
             crc5 = drop_bit (INT_SIZE - 5) crc5
         in crc5 XOR 0x1f))"

text \<open>One step of the routines that take the least significant bit first.\<close>

definition crc_lsb_step :: "u32 \<Rightarrow> u32 \<Rightarrow> u32 \<Rightarrow> u32" where
  "crc_lsb_step poly crc udata =
     (if (udata XOR crc) AND 0x01 \<noteq> 0 then drop_bit 1 crc XOR poly else drop_bit 1 crc)"

fun crc_lsb_loop :: "u32 \<Rightarrow> nat \<Rightarrow> u32 \<Rightarrow> u32 \<Rightarrow> u32" where
  "crc_lsb_loop poly 0 crc udata = crc"
| "crc_lsb_loop poly (Suc n) crc udata = crc_lsb_loop poly n (crc_lsb_step poly crc udata) (drop_bit 1 udata)"

definition CRC5 :: "u32 \<Rightarrow> int \<Rightarrow> u32" where
  "CRC5 dwInput iBitcnt =
     (if iBitcnt < 1 \<or> iBitcnt > int INT_SIZE then 0xffffffff
      else crc_lsb_loop 0x14 (nat iBitcnt) 0x1f dwInput XOR 0x1f)"

fun crc16_bytes :: "u8 list \<Rightarrow> u32 \<Rightarrow> u32" where
  "crc16_bytes [] crc16 = crc16"
| "crc16_bytes (d # data) crc16 = crc16_bytes data (crc_lsb_loop 0xA001 8 crc16 (ucast d))"

text \<open>\<open>data\<close> holds at least \<open>bytes\<close> bytes; a negative count gives the CRC of nothing.\<close>

definition CRC16 :: "u8 list \<Rightarrow> int \<Rightarrow> u32" where
  "CRC16 data bytes = crc16_bytes (take (nat bytes) data) 0xffff XOR 0xffff"

section \<open>Bits\<close>

lemma bit_1_word: "bit (1 :: u32) n \<longleftrightarrow> n = 0"
  by (simp add: bit_1_iff)

lemma and_one_iff: "(x :: u32) AND 0x01 \<noteq> 0 \<longleftrightarrow> bit x 0"
  by (simp add: and_one_eq bit_0 odd_iff_mod_2_eq_one)

lemma and_top_iff: "(x :: u32) AND push_bit (INT_SIZE - 1) 1 \<noteq> 0 \<longleftrightarrow> bit x 31"
  by (simp add: bit_iff_and_push_bit_not_eq_0)

lemma bit_crc_step:
  "bit (crc_lsb_step poly crc u) i \<longleftrightarrow> bit crc (Suc i) \<noteq> ((bit u 0 \<noteq> bit crc 0) \<and> bit poly i)"
  by (auto simp: crc_lsb_step_def and_one_iff bit_xor_iff bit_drop_bit_eq)

section \<open>The two CRC5 routines agree\<close>

text \<open>The low \<open>n\<close> bits of a word, in reverse.\<close>

definition reverse_bits :: "nat \<Rightarrow> u32 \<Rightarrow> u32" where
  "reverse_bits n x = horner_sum of_bool 2 (rev (map (bit x) [0..<n]))"

lemma bit_reverse_bits: "n \<le> 32 \<Longrightarrow> bit (reverse_bits n x) i \<longleftrightarrow> i < n \<and> bit x (n - 1 - i)"
  by (auto simp: reverse_bits_def bit_horner_sum_bit_iff rev_nth dest: bit_imp_le_length)

definition mirrored :: "nat \<Rightarrow> u32 \<Rightarrow> u32 \<Rightarrow> bool" where
  "mirrored n x y \<longleftrightarrow> (\<forall>i < n. bit x i \<longleftrightarrow> bit y (31 - i))"

lemma bit_shl1: "bit (push_bit 1 (C :: u32)) i \<longleftrightarrow> 0 < i \<and> i < 32 \<and> bit C (i - 1)"
  by (auto simp only: bit_push_bit_iff Suc_le_eq One_nat_def possible_bit_word) auto

lemma bit_poly5: "i < 32 \<Longrightarrow> bit poly5_msb (31 - i) \<longleftrightarrow> bit (0x14 :: u32) i"
proof -
  have "bit (0x14 :: u32) i \<longleftrightarrow> i = 2 \<or> i = 4" for i
  proof -
    have "(0x14 :: u32) = push_bit 4 1 OR push_bit 2 1" by code_simp
    then show ?thesis unfolding \<open>0x14 = _\<close> bit_or_iff bit_push_bit_iff bit_1_iff by auto
  qed
  moreover have "bit poly5_msb i \<longleftrightarrow> i = 27 \<or> i = 29" for i
  proof -
    have "poly5_msb = push_bit 27 1 OR push_bit 29 1" unfolding poly5_msb_def by code_simp
    then show ?thesis unfolding \<open>poly5_msb = _\<close> bit_or_iff bit_push_bit_iff bit_1_iff by auto
  qed
  moreover assume "i < 32"
  then have "31 - i = 27 \<longleftrightarrow> i = 4" "31 - i = 29 \<longleftrightarrow> i = 2" by auto
  ultimately show ?thesis by metis
qed

lemma bit_msb_step:
  "i < 32 \<Longrightarrow> bit (crc5_msb_step C U) i \<longleftrightarrow> (0 < i \<and> bit C (i - 1)) \<noteq> ((bit U 31 \<noteq> bit C 31) \<and> bit poly5_msb i)"
  unfolding crc5_msb_step_def and_top_iff bit_xor_iff if_distrib [of "\<lambda>w. bit w i"] bit_shl1 by auto

lemma crc5_step_mirrored:
  assumes "mirrored 32 c C" "bit u 0 \<longleftrightarrow> bit U 31"
  shows "mirrored 32 (crc_lsb_step 0x14 c u) (crc5_msb_step C U)"
  unfolding mirrored_def
proof (intro allI impI)
  have c: "bit c i \<longleftrightarrow> bit C (31 - i)" if "i < 32" for i using assms(1) that by (simp add: mirrored_def)
  fix i :: nat assume i: "i < 32"
  have "bit c (Suc i) \<longleftrightarrow> 0 < 31 - i \<and> bit C (31 - i - 1)"
    using c [of "Suc i"] i by (cases "i = 31") (auto dest: bit_word32_bound)
  then show "bit (crc_lsb_step 0x14 c u) i \<longleftrightarrow> bit (crc5_msb_step C U) (31 - i)"
    using i c [of 0] assms(2) bit_poly5 [OF i] by (simp add: bit_crc_step bit_msb_step)
qed

lemma crc5_loop_mirrored:
  "mirrored 32 c C \<Longrightarrow> mirrored n u U \<Longrightarrow> n \<le> 32 \<Longrightarrow> mirrored 32 (crc_lsb_loop 0x14 n c u) (crc5_msb_loop n C U)"
proof (induction n arbitrary: c C u U)
  case (Suc n)
  have "bit u 0 \<longleftrightarrow> bit U 31" using Suc.prems(2) by (simp add: mirrored_def)
  note step = crc5_step_mirrored [OF Suc.prems(1) this]
  have "mirrored n (drop_bit 1 u) (push_bit 1 U)"
    unfolding mirrored_def
  proof (intro allI impI)
    fix i assume "i < n"
    then have "bit u (Suc i) \<longleftrightarrow> bit U (31 - Suc i)" "31 - i - 1 = 31 - Suc i" "i < 31"
      using Suc.prems(2,3) by (auto simp: mirrored_def)
    then show "bit (drop_bit 1 u) i \<longleftrightarrow> bit (push_bit 1 U) (31 - i)"
      unfolding bit_shl1 bit_drop_bit_eq o_def by auto
  qed
  then show ?case using Suc.IH [OF step] Suc.prems(3) by simp
qed simp

text \<open>The register of the routines with the least significant bit first never exceeds the polynomial's degree.\<close>

lemma below_exp: "(c :: u32) < 2 ^ k \<Longrightarrow> k \<le> i \<Longrightarrow> \<not> bit c i"
  by (metis less_mask_eq bit_and_iff bit_mask_iff not_less)

lemma unat_exp_u32: "k < 32 \<Longrightarrow> unat (2 ^ k :: u32) = 2 ^ k"
proof -
  assume "k < 32"
  then have "(2 :: nat) ^ k < 2 ^ 32" by (intro power_strict_increasing) auto
  then show ?thesis using unat_of_nat_u32 [of "2 ^ k"] by simp
qed

lemma take_bit_word_less: "k < 32 \<Longrightarrow> take_bit k (x :: u32) < 2 ^ k"
  by (simp add: word_less_nat_alt unsigned_take_bit_eq unat_exp_u32)

lemma below_expI:
  assumes "k < 32" "\<And>i. bit (x :: u32) i \<Longrightarrow> i < k"
  shows "x < 2 ^ k"
proof -
  have "take_bit k x = x" using assms(2) by (intro bit_eqI) (meson bit_take_bit_iff)
  then show ?thesis using assms(1) by (metis take_bit_word_less)
qed

lemma crc_step_width:
  assumes "poly < 2 ^ k" "c < 2 ^ k" "k < 32"
  shows "crc_lsb_step poly c u < 2 ^ k"
proof (rule below_expI [OF assms(3)])
  fix i assume "bit (crc_lsb_step poly c u) i"
  then show "i < k" using below_exp [OF assms(1), of i] below_exp [OF assms(2), of "Suc i"]
    by (cases "i < k") (auto simp: bit_crc_step)
qed

lemma crc_loop_width:
  "poly < 2 ^ k \<Longrightarrow> c < 2 ^ k \<Longrightarrow> k < 32 \<Longrightarrow> crc_lsb_loop poly n c u < 2 ^ k"
  by (induction n arbitrary: c u) (simp_all add: crc_step_width)

lemma reverse_bits_mirrored:
  assumes "n \<le> 32"
  shows "mirrored n u (push_bit (INT_SIZE - n) (reverse_bits n u))"
  unfolding mirrored_def
proof (intro allI impI)
  fix i assume "i < n"
  then show "bit u i \<longleftrightarrow> bit (push_bit (INT_SIZE - n) (reverse_bits n u)) (31 - i)"
    using assms by (simp add: bit_push_bit_iff bit_reverse_bits) arith
qed

lemma bit_0x1f: "bit (0x1f :: u32) i \<longleftrightarrow> i < 5"
proof -
  have "(0x1f :: u32) = mask 5" by (simp add: mask_eq_exp_minus_1)
  then show ?thesis unfolding \<open>0x1f = _\<close> bit_mask_iff by auto
qed

lemma bit_rev5: "bit (reverse_bits 5 x) i \<longleftrightarrow> i < 5 \<and> bit x (4 - i)"
  by (simp add: bit_reverse_bits)

text \<open>
  The two CRC5 routines compute the same code, each in its own bit order: for 1 to 32 bits of data the
  five bits that CRC5_MSBfirst computes for the reversed data are those of CRC5 in reverse. Any other bit count is answered with all ones by both.
\<close>

lemma CRC5_orders_agree:
  "(if 1 \<le> n \<and> n \<le> 32
    then CRC5 u n < 32 \<and> CRC5_MSBfirst (reverse_bits (nat n) u) n = reverse_bits 5 (CRC5 u n)
    else CRC5 u n = 0xffffffff \<and> CRC5_MSBfirst v n = 0xffffffff)"
proof (cases "1 \<le> n \<and> n \<le> 32")
  case True
  let ?c = "crc_lsb_loop 0x14 (nat n) 0x1f u"
  let ?C = "crc5_msb_loop (nat n) (push_bit (INT_SIZE - 5) 0x1f) (push_bit (INT_SIZE - nat n) (reverse_bits (nat n) u))"
  have n: "nat n \<le> 32" using True by linarith
  have "mirrored 32 0x1f (push_bit (INT_SIZE - 5) 0x1f)"
    unfolding mirrored_def bit_push_bit_iff bit_0x1f by auto
  from crc5_loop_mirrored [OF this reverse_bits_mirrored [OF n] n] have m: "mirrored 32 ?c ?C" .
  have w: "?c < 2 ^ 5" by (rule crc_loop_width) simp_all
  have lo: "bit ?c i \<Longrightarrow> i < 5" for i using below_exp [OF w, of i] by (meson not_less)
  have c: "CRC5 u n = ?c XOR 0x1f" and C: "CRC5_MSBfirst (reverse_bits (nat n) u) n = drop_bit 27 ?C XOR 0x1f"
    using True by (simp_all add: CRC5_def CRC5_MSBfirst_def Let_def)
  have bC: "bit (drop_bit 27 ?C) i \<longleftrightarrow> i < 5 \<and> bit ?c (4 - i)" for i
  proof (cases "i < 5")
    case True
    then have "bit ?c (4 - i) \<longleftrightarrow> bit ?C (31 - (4 - i))" using m by (simp add: mirrored_def)
    moreover have "31 - (4 - i) = 27 + i" using True by simp
    ultimately show ?thesis using True by (simp add: bit_drop_bit_eq)
  next
    case False
    then show ?thesis by (auto simp: bit_drop_bit_eq dest: bit_word32_bound)
  qed
  have "CRC5 u n < 32"
    using below_expI [of 5 "CRC5 u n"] unfolding c bit_xor_iff bit_0x1f by (auto dest: lo)
  moreover have "CRC5_MSBfirst (reverse_bits (nat n) u) n = reverse_bits 5 (CRC5 u n)"
    unfolding c C by (rule bit_eqI) (unfold bit_rev5 bit_xor_iff bit_0x1f bC, auto)
  ultimately show ?thesis using True by simp
next
  case False
  then show ?thesis by (auto simp: CRC5_def CRC5_MSBfirst_def)
qed


section \<open>The CRC16\<close>

text \<open>
  The register and the data enter a step only through their difference, and the step is linear in it, so
  a run over a byte is a linear map of the register combined with the byte.
\<close>

definition crc16_shift :: "u32 \<Rightarrow> u32" where
  "crc16_shift z = (if bit z 0 then drop_bit 1 z XOR 0xA001 else drop_bit 1 z)"

lemma crc_lsb_step_shift: "crc_lsb_step 0xA001 c u XOR drop_bit 1 u = crc16_shift (c XOR u)"
  by (rule bit_eqI) (auto simp: bit_crc_step crc16_shift_def bit_xor_iff bit_drop_bit_eq)

lemma crc_lsb_loop_shift: "crc_lsb_loop 0xA001 n c u XOR drop_bit n u = (crc16_shift ^^ n) (c XOR u)"
proof (induction n arbitrary: c u)
  case (Suc n)
  have "crc_lsb_loop 0xA001 (Suc n) c u XOR drop_bit (Suc n) u
      = (crc16_shift ^^ n) (crc_lsb_step 0xA001 c u XOR drop_bit 1 u)"
    using Suc.IH [of "crc_lsb_step 0xA001 c u" "drop_bit 1 u"] by simp
  then show ?case by (simp only: crc_lsb_step_shift funpow.simps o_def funpow_swap1)
qed simp

lemma crc16_shift_xor: "crc16_shift (a XOR b) = crc16_shift a XOR crc16_shift b"
  by (rule bit_eqI) (auto simp: crc16_shift_def bit_xor_iff bit_drop_bit_eq)

lemma crc16_shifts_xor: "(crc16_shift ^^ n) (a XOR b) = (crc16_shift ^^ n) a XOR (crc16_shift ^^ n) b"
  by (induction n) (simp_all add: crc16_shift_xor)

lemma crc16_byte: "crc_lsb_loop 0xA001 8 c (ucast (d :: u8)) = (crc16_shift ^^ 8) (c XOR ucast d)"
proof -
  have "drop_bit 8 (ucast d :: u32) = 0"
    by (rule bit_eqI) (auto simp: bit_drop_bit_eq bit_ucast_iff dest: bit_word8_bound)
  then show ?thesis using crc_lsb_loop_shift [of 8 c "ucast d"] by simp
qed

lemma crc16_shifts_low_zero: "(\<And>i. i < n \<Longrightarrow> \<not> bit z i) \<Longrightarrow> (crc16_shift ^^ n) z = drop_bit n z"
proof (induction n arbitrary: z)
  case (Suc n)
  have "crc16_shift z = drop_bit 1 z" using Suc.prems [of 0] by (simp add: crc16_shift_def)
  moreover have "(crc16_shift ^^ n) (drop_bit 1 z) = drop_bit n (drop_bit 1 z)"
    using Suc.prems by (intro Suc.IH) (simp add: bit_drop_bit_eq)
  ultimately show ?case by (simp add: funpow_swap1 add.commute)
qed simp

lemma crc16_bytes_append: "crc16_bytes (xs @ ys) c = crc16_bytes ys (crc16_bytes xs c)"
  by (induction xs arbitrary: c) simp_all

lemma crc16_bytes_width: "c < 2 ^ 16 \<Longrightarrow> crc16_bytes xs c < 2 ^ 16"
  by (induction xs arbitrary: c) (simp_all add: crc_loop_width [of _ 16, simplified])


text \<open>The two bytes a sender appends, the low one first.\<close>

definition crc16_trailer :: "u8 list \<Rightarrow> u8 list" where
  "crc16_trailer data =
     (let crc = CRC16 data (int (length data)) in [ucast crc, ucast (drop_bit 8 crc)])"

lemma bit_0xffff: "bit (0xffff :: u32) i \<longleftrightarrow> i < 16"
proof -
  have "(0xffff :: u32) = mask 16" by (simp add: mask_eq_exp_minus_1)
  then show ?thesis unfolding \<open>0xffff = _\<close> bit_mask_iff by auto
qed

lemma bit_0xff: "bit (0xff :: u32) i \<longleftrightarrow> i < 8"
proof -
  have "(0xff :: u32) = mask 8" by (simp add: mask_eq_exp_minus_1)
  then show ?thesis unfolding \<open>0xff = _\<close> bit_mask_iff by auto
qed

lemma xor_swap: "(x :: u32) XOR z = w \<Longrightarrow> (x XOR y) XOR z = y XOR w"
  by (auto simp: ac_simps)

lemma crc16_complement:
  assumes "c < 2 ^ 16"
  shows "crc16_bytes [ucast (c XOR 0xffff), ucast (drop_bit 8 (c XOR 0xffff))] c = 0xB001"
proof -
  have hi: "bit c i \<Longrightarrow> i < 16" for i using below_exp [OF assms, of i] by (meson not_less)
  let ?h = "drop_bit 8 c"
  have "c XOR ucast (ucast (c XOR 0xffff) :: u8) = push_bit 8 ?h XOR 0xff"
    by (rule bit_eqI) (unfold bit_xor_iff bit_ucast_iff bit_0xffff bit_0xff bit_push_bit_iff bit_drop_bit_eq, auto dest: hi)
  moreover have "(crc16_shift ^^ 8) (push_bit 8 ?h) = ?h"
    by (subst crc16_shifts_low_zero) (auto simp: bit_push_bit_iff intro!: bit_eqI simp: bit_drop_bit_eq dest!: hi)
  moreover have "?h XOR ucast (ucast (drop_bit 8 (c XOR 0xffff)) :: u8) = 0xff"
    by (rule bit_eqI) (unfold bit_xor_iff bit_ucast_iff bit_0xffff bit_0xff bit_drop_bit_eq, auto dest: hi)
  ultimately have "(crc16_shift ^^ 8) (c XOR ucast (ucast (c XOR 0xffff) :: u8))
      XOR ucast (ucast (drop_bit 8 (c XOR 0xffff)) :: u8) = (crc16_shift ^^ 8) 0xff XOR 0xff"
    by (simp only: crc16_shifts_xor) (rule xor_swap)
  then have "crc16_bytes [ucast (c XOR 0xffff), ucast (drop_bit 8 (c XOR 0xffff))] c
      = (crc16_shift ^^ 8) ((crc16_shift ^^ 8) 0xff XOR 0xff)"
    by (simp only: crc16_bytes.simps crc16_byte)
  also have "\<dots> = 0xB001" by code_simp
  finally show ?thesis .
qed

text \<open>
  A receiver can check a packet without separating the CRC: over any data followed by its CRC16, low
  byte first, CRC16 gives the constant 0x4FFE.
\<close>

lemma CRC16_residue:
  "CRC16 (data @ crc16_trailer data) (int (length data) + 2) = 0x4FFE"
proof -
  let ?c = "crc16_bytes data 0xffff"
  have "?c < 2 ^ 16" by (rule crc16_bytes_width) simp
  from crc16_complement [OF this] have "crc16_bytes (data @ crc16_trailer data) 0xffff = 0xB001"
    by (simp add: crc16_bytes_append crc16_trailer_def CRC16_def Let_def)
  moreover have "take (nat (int (length data) + 2)) (data @ crc16_trailer data) = data @ crc16_trailer data"
    by (simp add: crc16_trailer_def Let_def nat_add_distrib)
  ultimately show ?thesis by (simp add: CRC16_def)
qed

text \<open>The step loses nothing of a register of 16 bits, since the polynomial has its top bit set.\<close>

lemma xor_cancel: "(x :: u32) XOR k = y XOR k \<Longrightarrow> x = y"
  by (metis xor.assoc xor.right_neutral xor_self_eq)

lemma crc16_shift_inj:
  assumes "a < 2 ^ 16" "b < 2 ^ 16" "crc16_shift a = crc16_shift b"
  shows "a = b"
proof -
  have hi: "\<not> bit a 16" "\<not> bit b 16" using below_exp [of _ 16 16] assms(1,2) by auto
  have top: "bit (0xA001 :: u32) 15" by code_simp
  have "bit (crc16_shift x) 15 \<longleftrightarrow> bit x 0" if "\<not> bit x 16" for x
    using that top by (simp add: crc16_shift_def bit_xor_iff bit_drop_bit_eq)
  with hi assms(3) have zero: "bit a 0 \<longleftrightarrow> bit b 0" by metis
  then have "drop_bit 1 a = drop_bit 1 b"
    using assms(3) xor_cancel by (auto simp: crc16_shift_def split: if_splits)
  then have "bit a (Suc i) \<longleftrightarrow> bit b (Suc i)" for i by (metis bit_drop_bit_eq comp_apply plus_1_eq_Suc)
  then have "bit a i \<longleftrightarrow> bit b i" for i using zero by (cases i) auto
  then show ?thesis by (rule bit_eqI)
qed

lemma crc16_shift_width: "z < 2 ^ 16 \<Longrightarrow> crc16_shift z < 2 ^ 16"
  using crc_step_width [of "0xA001" 16 z 0] crc_lsb_step_shift [of z 0] by simp

lemma crc16_shifts_inj:
  "a < 2 ^ 16 \<Longrightarrow> b < 2 ^ 16 \<Longrightarrow> (crc16_shift ^^ n) a = (crc16_shift ^^ n) b \<Longrightarrow> a = b"
proof (induction n arbitrary: a b)
  case (Suc n)
  have "(crc16_shift ^^ n) (crc16_shift a) = (crc16_shift ^^ n) (crc16_shift b)"
    using Suc.prems(3) by (simp add: funpow_swap1)
  then have "crc16_shift a = crc16_shift b"
    using Suc.IH crc16_shift_width Suc.prems(1,2) by blast
  then show ?case using crc16_shift_inj Suc.prems(1,2) by blast
qed simp

lemma xor_byte_width: "c < 2 ^ 16 \<Longrightarrow> c XOR ucast (d :: u8) < (2 ^ 16 :: u32)"
proof -
  assume c: "c < 2 ^ 16"
  have "bit (c XOR ucast d) i \<Longrightarrow> i < 16" for i
    using below_exp [OF c, of i] by (auto simp: bit_xor_iff bit_ucast_iff not_less dest: bit_word8_bound intro: ccontr)
  then show ?thesis using below_expI [of 16 "c XOR ucast d"] by simp
qed

lemma ucast_ucast_u8: "ucast (ucast (d :: u8) :: u32) = d"
  by (rule bit_eqI) (auto simp: bit_ucast_iff dest: bit_word8_bound)

lemma crc16_bytes_inj: "a < 2 ^ 16 \<Longrightarrow> b < 2 ^ 16 \<Longrightarrow> crc16_bytes xs a = crc16_bytes xs b \<Longrightarrow> a = b"
proof (induction xs arbitrary: a b)
  case (Cons d xs)
  have "crc_lsb_loop 0xA001 8 x (ucast d) < 2 ^ 16" if "x < 2 ^ 16" for x
    using that by (intro crc_loop_width) simp_all
  then have "(crc16_shift ^^ 8) (a XOR ucast d) = (crc16_shift ^^ 8) (b XOR ucast d)"
    using Cons.IH Cons.prems by (metis crc16_byte crc16_bytes.simps(2))
  then have "a XOR ucast d = b XOR ucast d"
    using crc16_shifts_inj xor_byte_width Cons.prems(1,2) by blast
  then show ?case by (rule xor_cancel)
qed simp

text \<open>
  C27. Every corruption of a single byte of a packet is detected: two sequences of bytes of the same length
  that differ in exactly one place have different CRC16.
\<close>

theorem CRC16_detects_byte_error:
  assumes "i < length data" "data ! i \<noteq> d"
  shows "CRC16 (data[i := d]) (int (length data)) \<noteq> CRC16 data (int (length data))"
proof
  assume eq: "CRC16 (data[i := d]) (int (length data)) = CRC16 data (int (length data))"
  let ?c = "crc16_bytes (take i data) 0xffff"
  have w: "?c < 2 ^ 16" by (rule crc16_bytes_width) simp
  have lw: "crc_lsb_loop 0xA001 8 ?c u < 2 ^ 16" for u using w by (intro crc_loop_width) simp_all
  have "crc16_bytes (data[i := d]) 0xffff = crc16_bytes data 0xffff"
    using eq xor_cancel by (simp add: CRC16_def)
  moreover have "data[i := d] = take i data @ d # drop (Suc i) data" using assms(1) by (rule upd_conv_take_nth_drop)
  moreover have "data = take i data @ data ! i # drop (Suc i) data" using assms(1) by (rule id_take_nth_drop)
  ultimately have "crc16_bytes (drop (Suc i) data) (crc_lsb_loop 0xA001 8 ?c (ucast d))
      = crc16_bytes (drop (Suc i) data) (crc_lsb_loop 0xA001 8 ?c (ucast (data ! i)))"
    by (metis crc16_bytes.simps(2) crc16_bytes_append)
  then have "(crc16_shift ^^ 8) (?c XOR ucast d) = (crc16_shift ^^ 8) (?c XOR ucast (data ! i))"
    using crc16_bytes_inj lw by (metis crc16_byte)
  then have "?c XOR ucast d = ?c XOR ucast (data ! i)"
    using crc16_shifts_inj xor_byte_width w by blast
  then have "(ucast d :: u32) = ucast (data ! i)" using xor_cancel by (metis xor.commute)
  then have "d = data ! i" by (metis ucast_ucast_u8)
  with assms(2) show False by simp
qed

theorem CRC16_detects_byte_error_witness:
  "CRC16 [1, 2, 7, 4] 4 \<noteq> CRC16 [1, 2, 3, 4] 4"
  using CRC16_detects_byte_error [of 2 "[1, 2, 3, 4]" 7] by simp


end
