(* ===== verification/DifAes.thy ===== *)
theory DifAes
  imports BusFrame
begin

text \<open>
  The driver of the AES accelerator (\<open>sw/device/lib/dif/dif_aes.c\<close>). Register offsets and fields are those
  of \<open>hw/ip/aes/rtl/aes_reg_pkg.sv\<close>. Clearing the internal state waits for the unit to be idle and may
  not return: \<open>dif_aes_reset\<close> and \<open>dif_aes_end\<close> return an option. The fixed-size arrays of the source
  are lists of words.
\<close>

unbundle bit_operations_syntax

section \<open>Types\<close>

abbreviation AES_ALERT_TEST_REG_OFFSET :: u32 where "AES_ALERT_TEST_REG_OFFSET \<equiv> 0x0"
abbreviation AES_KEY_SHARE0_0_REG_OFFSET :: u32 where "AES_KEY_SHARE0_0_REG_OFFSET \<equiv> 0x4"
abbreviation AES_KEY_SHARE1_0_REG_OFFSET :: u32 where "AES_KEY_SHARE1_0_REG_OFFSET \<equiv> 0x24"
abbreviation AES_IV_0_REG_OFFSET :: u32 where "AES_IV_0_REG_OFFSET \<equiv> 0x44"
abbreviation AES_DATA_IN_0_REG_OFFSET :: u32 where "AES_DATA_IN_0_REG_OFFSET \<equiv> 0x54"
abbreviation AES_DATA_OUT_0_REG_OFFSET :: u32 where "AES_DATA_OUT_0_REG_OFFSET \<equiv> 0x64"
abbreviation AES_CTRL_SHADOWED_REG_OFFSET :: u32 where "AES_CTRL_SHADOWED_REG_OFFSET \<equiv> 0x74"
abbreviation AES_TRIGGER_REG_OFFSET :: u32 where "AES_TRIGGER_REG_OFFSET \<equiv> 0x78"
abbreviation AES_STATUS_REG_OFFSET :: u32 where "AES_STATUS_REG_OFFSET \<equiv> 0x7c"

abbreviation AES_KEY_SHARE0_MULTIREG_COUNT :: nat where "AES_KEY_SHARE0_MULTIREG_COUNT \<equiv> 8"
abbreviation AES_KEY_SHARE1_MULTIREG_COUNT :: nat where "AES_KEY_SHARE1_MULTIREG_COUNT \<equiv> 8"
abbreviation AES_IV_MULTIREG_COUNT :: nat where "AES_IV_MULTIREG_COUNT \<equiv> 4"
abbreviation AES_DATA_IN_MULTIREG_COUNT :: nat where "AES_DATA_IN_MULTIREG_COUNT \<equiv> 4"
abbreviation AES_DATA_OUT_MULTIREG_COUNT :: nat where "AES_DATA_OUT_MULTIREG_COUNT \<equiv> 4"

abbreviation AES_CTRL_SHADOWED_OPERATION_BIT :: u32 where "AES_CTRL_SHADOWED_OPERATION_BIT \<equiv> 0"
abbreviation AES_CTRL_SHADOWED_MODE_FIELD :: bitfield_field32 where
  "AES_CTRL_SHADOWED_MODE_FIELD \<equiv> \<lparr>field_mask = 0x3f, field_index = 1\<rparr>"
abbreviation AES_CTRL_SHADOWED_MODE_VALUE_AES_NONE :: u32 where "AES_CTRL_SHADOWED_MODE_VALUE_AES_NONE \<equiv> 0x20"
abbreviation AES_CTRL_SHADOWED_KEY_LEN_FIELD :: bitfield_field32 where
  "AES_CTRL_SHADOWED_KEY_LEN_FIELD \<equiv> \<lparr>field_mask = 0x7, field_index = 7\<rparr>"
abbreviation AES_CTRL_SHADOWED_MANUAL_OPERATION_BIT :: u32 where "AES_CTRL_SHADOWED_MANUAL_OPERATION_BIT \<equiv> 10"
abbreviation AES_CTRL_SHADOWED_FORCE_ZERO_MASKS_BIT :: u32 where "AES_CTRL_SHADOWED_FORCE_ZERO_MASKS_BIT \<equiv> 11"
abbreviation AES_TRIGGER_START_BIT :: u32 where "AES_TRIGGER_START_BIT \<equiv> 0"
abbreviation AES_TRIGGER_KEY_IV_DATA_IN_CLEAR_BIT :: u32 where "AES_TRIGGER_KEY_IV_DATA_IN_CLEAR_BIT \<equiv> 1"
abbreviation AES_TRIGGER_DATA_OUT_CLEAR_BIT :: u32 where "AES_TRIGGER_DATA_OUT_CLEAR_BIT \<equiv> 2"
abbreviation AES_TRIGGER_PRNG_RESEED_BIT :: u32 where "AES_TRIGGER_PRNG_RESEED_BIT \<equiv> 3"
abbreviation AES_STATUS_IDLE_BIT :: u32 where "AES_STATUS_IDLE_BIT \<equiv> 0"
abbreviation AES_STATUS_STALL_BIT :: u32 where "AES_STATUS_STALL_BIT \<equiv> 1"
abbreviation AES_STATUS_OUTPUT_LOST_BIT :: u32 where "AES_STATUS_OUTPUT_LOST_BIT \<equiv> 2"
abbreviation AES_STATUS_OUTPUT_VALID_BIT :: u32 where "AES_STATUS_OUTPUT_VALID_BIT \<equiv> 3"
abbreviation AES_STATUS_INPUT_READY_BIT :: u32 where "AES_STATUS_INPUT_READY_BIT \<equiv> 4"
abbreviation AES_STATUS_ALERT_RECOV_CTRL_UPDATE_ERR_BIT :: u32 where "AES_STATUS_ALERT_RECOV_CTRL_UPDATE_ERR_BIT \<equiv> 5"
abbreviation AES_STATUS_ALERT_FATAL_FAULT_BIT :: u32 where "AES_STATUS_ALERT_FATAL_FAULT_BIT \<equiv> 6"
abbreviation AES_ALERT_TEST_RECOV_CTRL_UPDATE_ERR_BIT :: u32 where "AES_ALERT_TEST_RECOV_CTRL_UPDATE_ERR_BIT \<equiv> 0"
abbreviation AES_ALERT_TEST_FATAL_FAULT_BIT :: u32 where "AES_ALERT_TEST_FATAL_FAULT_BIT \<equiv> 1"

datatype aes_mode_field_val =
  kAesModeFieldValEcb | kAesModeFieldValCbc | kAesModeFieldValCfb | kAesModeFieldValOfb
  | kAesModeFieldValCtr | kAesModeFieldValNone

fun aes_mode_code :: "aes_mode_field_val \<Rightarrow> u32" where
  "aes_mode_code kAesModeFieldValEcb = 0x01"
| "aes_mode_code kAesModeFieldValCbc = 0x02"
| "aes_mode_code kAesModeFieldValCfb = 0x04"
| "aes_mode_code kAesModeFieldValOfb = 0x08"
| "aes_mode_code kAesModeFieldValCtr = 0x10"
| "aes_mode_code kAesModeFieldValNone = 0x20"

datatype aes_key_field_val = kAesKeyFieldValInvalid | kAesKeyFieldVal128 | kAesKeyFieldVal192 | kAesKeyFieldVal256

fun aes_key_code :: "aes_key_field_val \<Rightarrow> u32" where
  "aes_key_code kAesKeyFieldValInvalid = 0x00"
| "aes_key_code kAesKeyFieldVal128 = 0x01"
| "aes_key_code kAesKeyFieldVal192 = 0x02"
| "aes_key_code kAesKeyFieldVal256 = 0x04"

record dif_aes_key_share =
  share0 :: "u32 list"
  share1 :: "u32 list"

record dif_aes_iv = aes_iv :: "u32 list"

record dif_aes_data = aes_data :: "u32 list"

datatype dif_aes_key_length = kDifAesKey128 | kDifAesKey192 | kDifAesKey256 | dif_aes_key_length_other nat

datatype dif_aes_mode = kDifAesModeEncrypt | kDifAesModeDecrypt | dif_aes_mode_other nat

datatype dif_aes_operation = kDifAesOperationAuto | kDifAesOperationManual | dif_aes_operation_other nat

datatype dif_aes_masking = kDifAesMaskingInternalPrng | kDifAesMaskingForceZero | dif_aes_masking_other nat

record dif_aes_transaction =
  aes_key_len :: dif_aes_key_length
  aes_mode :: dif_aes_mode
  aes_operation :: dif_aes_operation
  aes_masking :: dif_aes_masking

datatype dif_aes_alert = kDifAlertFatalFault | kDifAlertRecovCtrlUpdateErr | dif_aes_alert_other nat

record dif_aes_params = aes_base_addr :: mmio_region

record dif_aes = aes_params :: dif_aes_params

abbreviation aes_base :: "dif_aes \<Rightarrow> mmio_region" where
  "aes_base aes \<equiv> aes_base_addr (aes_params aes)"

datatype dif_aes_result = kDifAesOk | kDifAesError | kDifAesBadArg

datatype dif_aes_reset_result = kDifAesResetOk | kDifAesResetError | kDifAesResetBadArg | kDifAesResetBusy

datatype dif_aes_start_result = kDifAesStartOk | kDifAesStartError | kDifAesStartBadArg | kDifAesStartBusy

datatype dif_aes_end_result = kDifAesEndOk | kDifAesEndError | kDifAesEndBadArg | kDifAesEndBusy

datatype dif_aes_load_data_result =
  kDifAesLoadDataOk | kDifAesLoadDataError | kDifAesLoadDataBadArg | kDifAesLoadDataBusy

datatype dif_aes_read_output_result =
  kDifAesReadOutputOk | kDifAesReadOutputError | kDifAesReadOutputBadArg | kDifAesReadOutputInvalid

datatype dif_aes_trigger =
  kDifAesTriggerStart | kDifAesTriggerKeyIvDataInClear | kDifAesTriggerDataOutClear | kDifAesTriggerPrngReseed
  | dif_aes_trigger_other nat

datatype dif_aes_status =
  kDifAesStatusIdle | kDifAesStatusStall | kDifAesStatusOutputLost | kDifAesStatusOutputValid
  | kDifAesStatusInputReady | kDifAesStatusAlertFatalFault | kDifAesStatusAlertRecovCtrlUpdateErr
  | dif_aes_status_other nat

section \<open>Helpers\<close>

definition aes_idle :: "dif_aes \<Rightarrow> bool io" where
  "aes_idle aes = mmio_region_get_bit32 (aes_base aes) AES_STATUS_REG_OFFSET AES_STATUS_IDLE_BIT"

definition aes_stalled :: "dif_aes \<Rightarrow> bool io" where
  "aes_stalled aes = mmio_region_get_bit32 (aes_base aes) AES_STATUS_REG_OFFSET AES_STATUS_STALL_BIT"

definition aes_output_lost :: "dif_aes \<Rightarrow> bool io" where
  "aes_output_lost aes = mmio_region_get_bit32 (aes_base aes) AES_STATUS_REG_OFFSET AES_STATUS_OUTPUT_LOST_BIT"

definition aes_output_valid :: "dif_aes \<Rightarrow> bool io" where
  "aes_output_valid aes = mmio_region_get_bit32 (aes_base aes) AES_STATUS_REG_OFFSET AES_STATUS_OUTPUT_VALID_BIT"

definition aes_input_ready :: "dif_aes \<Rightarrow> bool io" where
  "aes_input_ready aes = mmio_region_get_bit32 (aes_base aes) AES_STATUS_REG_OFFSET AES_STATUS_INPUT_READY_BIT"

definition aes_alert_fatal :: "dif_aes \<Rightarrow> bool io" where
  "aes_alert_fatal aes = mmio_region_get_bit32 (aes_base aes) AES_STATUS_REG_OFFSET AES_STATUS_ALERT_FATAL_FAULT_BIT"

definition aes_alert_recoverable :: "dif_aes \<Rightarrow> bool io" where
  "aes_alert_recoverable aes = mmio_region_get_bit32 (aes_base aes) AES_STATUS_REG_OFFSET AES_STATUS_ALERT_RECOV_CTRL_UPDATE_ERR_BIT"

definition aes_shadowed_write :: "mmio_region \<Rightarrow> u32 \<Rightarrow> u32 \<Rightarrow> unit io" where
  "aes_shadowed_write base offset v = do {
     _ \<leftarrow> mmio_region_write32 base offset v;
     mmio_region_write32 base offset v
   }"

text \<open>What is written between the two waiting loops, and the function with them.\<close>

definition aes_clear_writes :: "dif_aes \<Rightarrow> unit io" where
  "aes_clear_writes aes = do {
     let ctrl_reg = bitfield_bit32_write 0 AES_CTRL_SHADOWED_MANUAL_OPERATION_BIT True;
     _ \<leftarrow> aes_shadowed_write (aes_base aes) AES_CTRL_SHADOWED_REG_OFFSET ctrl_reg;
     let trigger_reg = bitfield_bit32_write 0 AES_TRIGGER_KEY_IV_DATA_IN_CLEAR_BIT True;
     let trigger_reg = bitfield_bit32_write trigger_reg AES_TRIGGER_DATA_OUT_CLEAR_BIT True;
     mmio_region_write32 (aes_base aes) AES_TRIGGER_REG_OFFSET trigger_reg
   }"

definition aes_not_idle :: "dif_aes \<Rightarrow> bool io" where
  "aes_not_idle aes = do { i \<leftarrow> aes_idle aes; ret (\<not> i) }"

definition aes_clear_internal_state :: "dif_aes \<Rightarrow> world \<Rightarrow> world option" where
  "aes_clear_internal_state aes w =
     (case spin_while (aes_not_idle aes) w of None \<Rightarrow> None
      | Some w \<Rightarrow> spin_while (aes_not_idle aes) (snd (run_state (aes_clear_writes aes) w)))"

fun key_to_field :: "dif_aes_key_length \<Rightarrow> aes_key_field_val" where
  "key_to_field kDifAesKey128 = kAesKeyFieldVal128"
| "key_to_field kDifAesKey192 = kAesKeyFieldVal192"
| "key_to_field kDifAesKey256 = kAesKeyFieldVal256"
| "key_to_field (dif_aes_key_length_other _) = kAesKeyFieldValInvalid"

text \<open>The control word of a transaction, and the function that writes it.\<close>

definition aes_ctrl_word :: "dif_aes_transaction \<Rightarrow> aes_key_field_val \<Rightarrow> aes_mode_field_val \<Rightarrow> u32" where
  "aes_ctrl_word transaction key_len_val cipher_mode_val =
     (let reg = bitfield_field32_write 0 AES_CTRL_SHADOWED_KEY_LEN_FIELD (aes_key_code key_len_val);
          reg = bitfield_field32_write reg AES_CTRL_SHADOWED_MODE_FIELD (aes_mode_code cipher_mode_val);
          reg = bitfield_bit32_write reg AES_CTRL_SHADOWED_OPERATION_BIT (aes_mode transaction = kDifAesModeDecrypt);
          reg = bitfield_bit32_write reg AES_CTRL_SHADOWED_MANUAL_OPERATION_BIT
            (aes_operation transaction = kDifAesOperationManual)
      in bitfield_bit32_write reg AES_CTRL_SHADOWED_FORCE_ZERO_MASKS_BIT
            (aes_masking transaction = kDifAesMaskingForceZero))"

definition aes_configure :: "dif_aes \<Rightarrow> dif_aes_transaction \<Rightarrow> aes_mode_field_val \<Rightarrow> dif_aes_start_result io" where
  "aes_configure aes transaction cipher_mode_val =
     (let key_len_val = key_to_field (aes_key_len transaction) in
      if key_len_val = kAesKeyFieldValInvalid then ret kDifAesStartError
      else do {
        _ \<leftarrow> aes_shadowed_write (aes_base aes) AES_CTRL_SHADOWED_REG_OFFSET
               (aes_ctrl_word transaction key_len_val cipher_mode_val);
        ret kDifAesStartOk
      })"

definition aes_set_multireg :: "dif_aes \<Rightarrow> u32 list \<Rightarrow> nat \<Rightarrow> u32 \<Rightarrow> unit io" where
  "aes_set_multireg aes data regs_num reg0_offset =
     for_each [0..<regs_num] (\<lambda>i. mmio_region_write32 (aes_base aes) (reg0_offset + of_nat i * 4) (data ! i))"

section \<open>Operations\<close>

definition dif_aes_init :: "dif_aes_params \<Rightarrow> dif_aes ptr \<Rightarrow> dif_aes_result \<times> dif_aes ptr" where
  "dif_aes_init params aes =
     (case aes of NULL \<Rightarrow> (kDifAesBadArg, aes)
      | Some h \<Rightarrow> (kDifAesOk, Some (h\<lparr>aes_params := params\<rparr>)))"

definition dif_aes_reset :: "dif_aes ptr \<Rightarrow> world \<Rightarrow> (dif_aes_reset_result \<times> world) option" where
  "dif_aes_reset aes w =
     (case aes of NULL \<Rightarrow> Some (kDifAesResetBadArg, w)
      | Some h \<Rightarrow>
        (case aes_clear_internal_state h w of None \<Rightarrow> None
         | Some w \<Rightarrow>
           (let reg = bitfield_bit32_write 0 AES_CTRL_SHADOWED_MANUAL_OPERATION_BIT True;
                reg = bitfield_field32_write reg AES_CTRL_SHADOWED_MODE_FIELD AES_CTRL_SHADOWED_MODE_VALUE_AES_NONE;
                reg = bitfield_field32_write reg AES_CTRL_SHADOWED_KEY_LEN_FIELD 0xffffffff
            in Some (kDifAesResetOk,
                 snd (run_state (aes_shadowed_write (aes_base h) AES_CTRL_SHADOWED_REG_OFFSET reg) w)))))"

definition dif_aes_start_ecb :: "dif_aes ptr \<Rightarrow> dif_aes_transaction ptr \<Rightarrow> dif_aes_key_share \<Rightarrow> dif_aes_start_result io" where
  "dif_aes_start_ecb aes transaction key =
     (case (aes, transaction) of
        (Some h, Some tr) \<Rightarrow> do {
          idle \<leftarrow> aes_idle h;
          if \<not> idle then ret kDifAesStartBusy
          else do {
            result \<leftarrow> aes_configure h tr kAesModeFieldValEcb;
            if result \<noteq> kDifAesStartOk then ret result
            else do {
              _ \<leftarrow> aes_set_multireg h (share0 key) AES_KEY_SHARE0_MULTIREG_COUNT AES_KEY_SHARE0_0_REG_OFFSET;
              _ \<leftarrow> aes_set_multireg h (share1 key) AES_KEY_SHARE1_MULTIREG_COUNT AES_KEY_SHARE1_0_REG_OFFSET;
              ret kDifAesStartOk
            }
          }
        }
      | _ \<Rightarrow> ret kDifAesStartBadArg)"

definition dif_aes_start_cbc :: "dif_aes ptr \<Rightarrow> dif_aes_transaction ptr \<Rightarrow> dif_aes_key_share \<Rightarrow> dif_aes_iv \<Rightarrow> dif_aes_start_result io" where
  "dif_aes_start_cbc aes transaction key iv =
     (case (aes, transaction) of
        (Some h, Some tr) \<Rightarrow> do {
          idle \<leftarrow> aes_idle h;
          if \<not> idle then ret kDifAesStartBusy
          else do {
            result \<leftarrow> aes_configure h tr kAesModeFieldValCbc;
            if result \<noteq> kDifAesStartOk then ret result
            else do {
              _ \<leftarrow> aes_set_multireg h (share0 key) AES_KEY_SHARE0_MULTIREG_COUNT AES_KEY_SHARE0_0_REG_OFFSET;
              _ \<leftarrow> aes_set_multireg h (share1 key) AES_KEY_SHARE1_MULTIREG_COUNT AES_KEY_SHARE1_0_REG_OFFSET;
              _ \<leftarrow> aes_set_multireg h (aes_iv iv) AES_IV_MULTIREG_COUNT AES_IV_0_REG_OFFSET;
              ret kDifAesStartOk
            }
          }
        }
      | _ \<Rightarrow> ret kDifAesStartBadArg)"

definition dif_aes_start_ctr :: "dif_aes ptr \<Rightarrow> dif_aes_transaction ptr \<Rightarrow> dif_aes_key_share \<Rightarrow> dif_aes_iv \<Rightarrow> dif_aes_start_result io" where
  "dif_aes_start_ctr aes transaction key iv =
     (case (aes, transaction) of
        (Some h, Some tr) \<Rightarrow> do {
          idle \<leftarrow> aes_idle h;
          if \<not> idle then ret kDifAesStartBusy
          else do {
            result \<leftarrow> aes_configure h tr kAesModeFieldValCtr;
            if result \<noteq> kDifAesStartOk then ret result
            else do {
              _ \<leftarrow> aes_set_multireg h (share0 key) AES_KEY_SHARE0_MULTIREG_COUNT AES_KEY_SHARE0_0_REG_OFFSET;
              _ \<leftarrow> aes_set_multireg h (share1 key) AES_KEY_SHARE1_MULTIREG_COUNT AES_KEY_SHARE1_0_REG_OFFSET;
              _ \<leftarrow> aes_set_multireg h (aes_iv iv) AES_IV_MULTIREG_COUNT AES_IV_0_REG_OFFSET;
              ret kDifAesStartOk
            }
          }
        }
      | _ \<Rightarrow> ret kDifAesStartBadArg)"

definition dif_aes_end :: "dif_aes ptr \<Rightarrow> world \<Rightarrow> (dif_aes_end_result \<times> world) option" where
  "dif_aes_end aes w =
     (case aes of NULL \<Rightarrow> Some (kDifAesEndBadArg, w)
      | Some h \<Rightarrow>
        (case run_state (aes_idle h) w of (idle, w) \<Rightarrow>
           if \<not> idle then Some (kDifAesEndBusy, w)
           else map_option (\<lambda>w. (kDifAesEndOk, w)) (aes_clear_internal_state h w)))"

definition dif_aes_load_data :: "dif_aes ptr \<Rightarrow> dif_aes_data \<Rightarrow> dif_aes_load_data_result io" where
  "dif_aes_load_data aes data =
     (case aes of NULL \<Rightarrow> ret kDifAesLoadDataBadArg
      | Some h \<Rightarrow> do {
          ready \<leftarrow> aes_input_ready h;
          if \<not> ready then ret kDifAesLoadDataBusy
          else do {
            _ \<leftarrow> aes_set_multireg h (aes_data data) AES_DATA_IN_MULTIREG_COUNT AES_DATA_IN_0_REG_OFFSET;
            ret kDifAesLoadDataOk
          }
        })"

text \<open>The loop over the output registers, from index \<open>i\<close> on.\<close>

fun aes_read_loop :: "dif_aes \<Rightarrow> nat list \<Rightarrow> u32 list \<Rightarrow> u32 list io" where
  "aes_read_loop aes [] data = ret data"
| "aes_read_loop aes (i # is) data = do {
     v \<leftarrow> mmio_region_read32 (aes_base aes) (AES_DATA_OUT_0_REG_OFFSET + of_nat i * 4);
     aes_read_loop aes is (data[i := v])
   }"

definition dif_aes_read_output ::
  "dif_aes ptr \<Rightarrow> dif_aes_data ptr \<Rightarrow> (dif_aes_read_output_result \<times> dif_aes_data ptr) io" where
  "dif_aes_read_output aes data =
     (case (aes, data) of
        (Some h, Some d) \<Rightarrow> do {
          valid \<leftarrow> aes_output_valid h;
          if \<not> valid then ret (kDifAesReadOutputInvalid, data)
          else do {
            words \<leftarrow> aes_read_loop h [0..<AES_DATA_OUT_MULTIREG_COUNT] (aes_data d);
            ret (kDifAesReadOutputOk, Some (d\<lparr>aes_data := words\<rparr>))
          }
        }
      | _ \<Rightarrow> ret (kDifAesReadOutputBadArg, data))"

fun aes_trigger_bit :: "dif_aes_trigger \<Rightarrow> u32 option" where
  "aes_trigger_bit kDifAesTriggerStart = Some AES_TRIGGER_START_BIT"
| "aes_trigger_bit kDifAesTriggerKeyIvDataInClear = Some AES_TRIGGER_KEY_IV_DATA_IN_CLEAR_BIT"
| "aes_trigger_bit kDifAesTriggerDataOutClear = Some AES_TRIGGER_DATA_OUT_CLEAR_BIT"
| "aes_trigger_bit kDifAesTriggerPrngReseed = Some AES_TRIGGER_PRNG_RESEED_BIT"
| "aes_trigger_bit (dif_aes_trigger_other _) = None"

definition dif_aes_trigger_set :: "dif_aes ptr \<Rightarrow> dif_aes_trigger \<Rightarrow> dif_aes_result io" where
  "dif_aes_trigger_set aes trigger =
     (case aes of NULL \<Rightarrow> ret kDifAesBadArg
      | Some h \<Rightarrow>
        (case aes_trigger_bit trigger of None \<Rightarrow> ret kDifAesError
         | Some b \<Rightarrow> do {
             _ \<leftarrow> mmio_region_write32 (aes_base h) AES_TRIGGER_REG_OFFSET (bitfield_bit32_write 0 b True);
             ret kDifAesOk
           }))"

definition dif_aes_get_status :: "dif_aes ptr \<Rightarrow> dif_aes_status \<Rightarrow> bool ptr \<Rightarrow> (dif_aes_result \<times> bool ptr) io" where
  "dif_aes_get_status aes flag out =
     (case (aes, out) of
        (Some h, Some _) \<Rightarrow>
          (case flag of
             kDifAesStatusIdle \<Rightarrow> do { b \<leftarrow> aes_idle h; ret (kDifAesOk, store out b) }
           | kDifAesStatusStall \<Rightarrow> do { b \<leftarrow> aes_stalled h; ret (kDifAesOk, store out b) }
           | kDifAesStatusOutputLost \<Rightarrow> do { b \<leftarrow> aes_output_lost h; ret (kDifAesOk, store out b) }
           | kDifAesStatusOutputValid \<Rightarrow> do { b \<leftarrow> aes_output_valid h; ret (kDifAesOk, store out b) }
           | kDifAesStatusInputReady \<Rightarrow> do { b \<leftarrow> aes_input_ready h; ret (kDifAesOk, store out b) }
           | kDifAesStatusAlertFatalFault \<Rightarrow> do { b \<leftarrow> aes_alert_fatal h; ret (kDifAesOk, store out b) }
           | kDifAesStatusAlertRecovCtrlUpdateErr \<Rightarrow> do { b \<leftarrow> aes_alert_recoverable h; ret (kDifAesOk, store out b) }
           | dif_aes_status_other _ \<Rightarrow> ret (kDifAesError, out))
      | _ \<Rightarrow> ret (kDifAesBadArg, out))"

fun aes_alert_bit :: "dif_aes_alert \<Rightarrow> u32 option" where
  "aes_alert_bit kDifAlertFatalFault = Some AES_ALERT_TEST_FATAL_FAULT_BIT"
| "aes_alert_bit kDifAlertRecovCtrlUpdateErr = Some AES_ALERT_TEST_RECOV_CTRL_UPDATE_ERR_BIT"
| "aes_alert_bit (dif_aes_alert_other _) = None"

definition dif_aes_alert_force :: "dif_aes ptr \<Rightarrow> dif_aes_alert \<Rightarrow> dif_aes_result io" where
  "dif_aes_alert_force aes alert =
     (case aes of NULL \<Rightarrow> ret kDifAesBadArg
      | Some h \<Rightarrow>
        (case aes_alert_bit alert of None \<Rightarrow> ret kDifAesError
         | Some index \<Rightarrow> do {
             _ \<leftarrow> mmio_region_write32 (aes_base h) AES_ALERT_TEST_REG_OFFSET (bitfield_bit32_write 0 index True);
             ret kDifAesOk
           }))"

end
