(* ===== verification/AesModel.thy ===== *)
theory AesModel
  imports Prelude "HOL-Library.Signed_Division"
begin

text \<open>
  The AES reference model (\<open>hw/ip/aes/model/aes.c\<close>) with which the hardware is compared: block
  encryption, and decryption as the equivalent inverse cipher with an on-the-fly key schedule.
  A block is a list of 16 bytes, a key a list of \<open>key_len\<close> bytes; an array that a function updates
  in place is an argument and a result. \<open>malloc\<close> of the two block functions may fail (their
  argument \<open>alloc\<close>); the one inside the key expansion is taken to succeed, since the code goes
  on with a null pointer otherwise.
\<close>

unbundle bit_operations_syntax

section \<open>Tables\<close>

definition sbox :: "u8 list" where
  "sbox =
    [99, 124, 119, 123, 242, 107, 111, 197, 48, 1, 103, 43, 254, 215, 171, 118,
     202, 130, 201, 125, 250, 89, 71, 240, 173, 212, 162, 175, 156, 164, 114, 192,
     183, 253, 147, 38, 54, 63, 247, 204, 52, 165, 229, 241, 113, 216, 49, 21,
     4, 199, 35, 195, 24, 150, 5, 154, 7, 18, 128, 226, 235, 39, 178, 117,
     9, 131, 44, 26, 27, 110, 90, 160, 82, 59, 214, 179, 41, 227, 47, 132,
     83, 209, 0, 237, 32, 252, 177, 91, 106, 203, 190, 57, 74, 76, 88, 207,
     208, 239, 170, 251, 67, 77, 51, 133, 69, 249, 2, 127, 80, 60, 159, 168,
     81, 163, 64, 143, 146, 157, 56, 245, 188, 182, 218, 33, 16, 255, 243, 210,
     205, 12, 19, 236, 95, 151, 68, 23, 196, 167, 126, 61, 100, 93, 25, 115,
     96, 129, 79, 220, 34, 42, 144, 136, 70, 238, 184, 20, 222, 94, 11, 219,
     224, 50, 58, 10, 73, 6, 36, 92, 194, 211, 172, 98, 145, 149, 228, 121,
     231, 200, 55, 109, 141, 213, 78, 169, 108, 86, 244, 234, 101, 122, 174, 8,
     186, 120, 37, 46, 28, 166, 180, 198, 232, 221, 116, 31, 75, 189, 139, 138,
     112, 62, 181, 102, 72, 3, 246, 14, 97, 53, 87, 185, 134, 193, 29, 158,
     225, 248, 152, 17, 105, 217, 142, 148, 155, 30, 135, 233, 206, 85, 40, 223,
     140, 161, 137, 13, 191, 230, 66, 104, 65, 153, 45, 15, 176, 84, 187, 22]"

definition inv_sbox :: "u8 list" where
  "inv_sbox =
    [82, 9, 106, 213, 48, 54, 165, 56, 191, 64, 163, 158, 129, 243, 215, 251,
     124, 227, 57, 130, 155, 47, 255, 135, 52, 142, 67, 68, 196, 222, 233, 203,
     84, 123, 148, 50, 166, 194, 35, 61, 238, 76, 149, 11, 66, 250, 195, 78,
     8, 46, 161, 102, 40, 217, 36, 178, 118, 91, 162, 73, 109, 139, 209, 37,
     114, 248, 246, 100, 134, 104, 152, 22, 212, 164, 92, 204, 93, 101, 182, 146,
     108, 112, 72, 80, 253, 237, 185, 218, 94, 21, 70, 87, 167, 141, 157, 132,
     144, 216, 171, 0, 140, 188, 211, 10, 247, 228, 88, 5, 184, 179, 69, 6,
     208, 44, 30, 143, 202, 63, 15, 2, 193, 175, 189, 3, 1, 19, 138, 107,
     58, 145, 17, 65, 79, 103, 220, 234, 151, 242, 207, 206, 240, 180, 230, 115,
     150, 172, 116, 34, 231, 173, 53, 133, 226, 249, 55, 232, 28, 117, 223, 110,
     71, 241, 26, 113, 29, 41, 197, 137, 111, 183, 98, 14, 170, 24, 190, 27,
     252, 86, 62, 75, 198, 210, 121, 32, 154, 219, 192, 254, 120, 205, 90, 244,
     31, 221, 168, 51, 136, 7, 199, 49, 177, 18, 16, 89, 39, 128, 236, 95,
     96, 81, 127, 169, 25, 181, 74, 13, 45, 229, 122, 159, 147, 201, 156, 239,
     160, 224, 59, 77, 174, 42, 245, 176, 200, 235, 187, 60, 131, 83, 153, 97,
     23, 43, 4, 126, 186, 119, 214, 38, 225, 105, 20, 99, 85, 33, 12, 125]"

section \<open>Multiplication in the field\<close>

definition aes_mul2 :: "u8 \<Rightarrow> u8" where
  "aes_mul2 inp =
     (let out = 0;
          out = out OR push_bit 0 (drop_bit 7 inp AND 1);
          out = out OR push_bit 1 ((drop_bit 0 inp AND 1) XOR (drop_bit 7 inp AND 1));
          out = out OR push_bit 2 (drop_bit 1 inp AND 1);
          out = out OR push_bit 3 ((drop_bit 2 inp AND 1) XOR (drop_bit 7 inp AND 1));
          out = out OR push_bit 4 ((drop_bit 3 inp AND 1) XOR (drop_bit 7 inp AND 1));
          out = out OR push_bit 5 (drop_bit 4 inp AND 1);
          out = out OR push_bit 6 (drop_bit 5 inp AND 1);
          out = out OR push_bit 7 (drop_bit 6 inp AND 1)
      in out)"

definition aes_mul4 :: "u8 \<Rightarrow> u8" where
  "aes_mul4 inp =
     (let out = 0;
          out = out OR push_bit 0 (drop_bit 6 inp AND 1);
          out = out OR push_bit 1 ((drop_bit 7 inp AND 1) XOR (drop_bit 6 inp AND 1));
          out = out OR push_bit 2 ((drop_bit 0 inp AND 1) XOR (drop_bit 7 inp AND 1));
          out = out OR push_bit 3 ((drop_bit 1 inp AND 1) XOR (drop_bit 6 inp AND 1));
          out = out OR push_bit 4 ((drop_bit 2 inp AND 1) XOR (drop_bit 7 inp AND 1) XOR (drop_bit 6 inp AND 1));
          out = out OR push_bit 5 ((drop_bit 3 inp AND 1) XOR (drop_bit 7 inp AND 1));
          out = out OR push_bit 6 (drop_bit 4 inp AND 1);
          out = out OR push_bit 7 (drop_bit 5 inp AND 1)
      in out)"

section \<open>Round operations\<close>

definition aes_add_round_key :: "u8 list \<Rightarrow> u8 list \<Rightarrow> u8 list" where
  "aes_add_round_key state round_key = map (\<lambda>i. state ! i XOR round_key ! i) [0..<16]"

definition aes_sub_bytes :: "u8 list \<Rightarrow> u8 list" where
  "aes_sub_bytes state = map (\<lambda>i. sbox ! unat (state ! i)) [0..<16]"

definition aes_inv_sub_bytes :: "u8 list \<Rightarrow> u8 list" where
  "aes_inv_sub_bytes state = map (\<lambda>i. inv_sbox ! unat (state ! i)) [0..<16]"

definition aes_shift_rows :: "u8 list \<Rightarrow> u8 list" where
  "aes_shift_rows state =
     (let temp = state;
          state = state[1 := temp ! 5, 5 := temp ! 9, 9 := temp ! 13, 13 := temp ! 1];
          state = state[2 := temp ! 10, 6 := temp ! 14, 10 := temp ! 2, 14 := temp ! 6];
          state = state[3 := temp ! 15, 7 := temp ! 3, 11 := temp ! 7, 15 := temp ! 11]
      in state)"

definition aes_inv_shift_rows :: "u8 list \<Rightarrow> u8 list" where
  "aes_inv_shift_rows state =
     (let temp = state;
          state = state[1 := temp ! 13, 5 := temp ! 1, 9 := temp ! 5, 13 := temp ! 9];
          state = state[2 := temp ! 10, 6 := temp ! 14, 10 := temp ! 2, 14 := temp ! 6];
          state = state[3 := temp ! 7, 7 := temp ! 11, 11 := temp ! 15, 15 := temp ! 3]
      in state)"

text \<open>One pass of the column loop: \<open>temp\<close> is the copy of the state made before the loop.\<close>

definition mix_column :: "u8 list \<Rightarrow> nat \<Rightarrow> u8 list \<Rightarrow> u8 list" where
  "mix_column temp j state =
     (let x3 = temp ! (0 + j * 4) XOR temp ! (1 + j * 4);
          x2 = temp ! (1 + j * 4) XOR temp ! (2 + j * 4);
          x1 = temp ! (2 + j * 4) XOR temp ! (3 + j * 4);
          x0 = temp ! (3 + j * 4) XOR temp ! (0 + j * 4)
      in state[0 + j * 4 := aes_mul2 x3 XOR x1 XOR temp ! (1 + j * 4),
               1 + j * 4 := aes_mul2 x2 XOR x1 XOR temp ! (0 + j * 4),
               2 + j * 4 := aes_mul2 x1 XOR x3 XOR temp ! (3 + j * 4),
               3 + j * 4 := aes_mul2 x0 XOR x3 XOR temp ! (2 + j * 4)])"

definition aes_mix_columns :: "u8 list \<Rightarrow> u8 list" where
  "aes_mix_columns state = (let temp = state in fold (mix_column temp) [0..<4] state)"

definition inv_mix_column :: "u8 list \<Rightarrow> nat \<Rightarrow> u8 list \<Rightarrow> u8 list" where
  "inv_mix_column temp j state =
     (let state = mix_column temp j state;
          y0 = aes_mul4 (temp ! (1 + j * 4) XOR temp ! (3 + j * 4));
          y1 = aes_mul4 (temp ! (0 + j * 4) XOR temp ! (2 + j * 4));
          y2 = aes_mul2 (y1 XOR y0);
          z0 = y2 XOR y0;
          z1 = y2 XOR y1
      in state[0 + j * 4 := state ! (0 + j * 4) XOR z1,
               1 + j * 4 := state ! (1 + j * 4) XOR z0,
               2 + j * 4 := state ! (2 + j * 4) XOR z1,
               3 + j * 4 := state ! (3 + j * 4) XOR z0])"

definition aes_inv_mix_columns :: "u8 list \<Rightarrow> u8 list" where
  "aes_inv_mix_columns state = (let temp = state in fold (inv_mix_column temp) [0..<4] state)"

section \<open>Round constants\<close>

definition aes_rcon_next :: "u8 \<Rightarrow> u8" where
  "aes_rcon_next rcon = (if rcon \<noteq> 0 then aes_mul2 rcon else 0x1)"

definition aes_rcon_prev :: "u8 \<Rightarrow> nat \<Rightarrow> u8" where
  "aes_rcon_prev rcon key_len =
     (if rcon \<noteq> 0 then
        (let rcon_tmp = rcon;
             rcon = 0;
             rcon = rcon OR push_bit 0 ((drop_bit 1 rcon_tmp AND 1) XOR (drop_bit 0 rcon_tmp AND 1));
             rcon = rcon OR push_bit 1 (drop_bit 2 rcon_tmp AND 1);
             rcon = rcon OR push_bit 2 ((drop_bit 3 rcon_tmp AND 1) XOR (drop_bit 0 rcon_tmp AND 1));
             rcon = rcon OR push_bit 3 ((drop_bit 4 rcon_tmp AND 1) XOR (drop_bit 0 rcon_tmp AND 1));
             rcon = rcon OR push_bit 4 (drop_bit 5 rcon_tmp AND 1);
             rcon = rcon OR push_bit 5 (drop_bit 6 rcon_tmp AND 1);
             rcon = rcon OR push_bit 6 (drop_bit 7 rcon_tmp AND 1);
             rcon = rcon OR push_bit 7 (drop_bit 0 rcon_tmp AND 1)
         in rcon)
      else if key_len = 16 then 0x36
      else if key_len = 24 then 0x80
      else 0x40)"

section \<open>Words of a key\<close>

text \<open>
  The code updates the key four bytes at a time. \<open>word_at k i\<close> are the bytes \<open>i .. i + 3\<close>,
  \<open>put_word k i v\<close> the four assignments to them.
\<close>

definition word_at :: "u8 list \<Rightarrow> nat \<Rightarrow> u8 list" where
  "word_at k i = [k ! i, k ! (i + 1), k ! (i + 2), k ! (i + 3)]"

definition put_word :: "u8 list \<Rightarrow> nat \<Rightarrow> u8 list \<Rightarrow> u8 list" where
  "put_word k i v = k[i := v ! 0, i + 1 := v ! 1, i + 2 := v ! 2, i + 3 := v ! 3]"

definition xor_word :: "u8 list \<Rightarrow> u8 list \<Rightarrow> u8 list" where
  "xor_word a b = [a ! 0 XOR b ! 0, a ! 1 XOR b ! 1, a ! 2 XOR b ! 2, a ! 3 XOR b ! 3]"

definition sub_word :: "u8 list \<Rightarrow> u8 list" where
  "sub_word temp = map (\<lambda>i. sbox ! unat (temp ! i)) [0..<4]"

definition rot_word :: "u8 list \<Rightarrow> u8 list" where
  "rot_word v = [v ! 1, v ! 2, v ! 3, v ! 0]"

definition rcon_word :: "u8 \<Rightarrow> u8 list" where
  "rcon_word rcon = [rcon, 0, 0, 0]"

section \<open>Key expansion\<close>

definition aes_key_expand_128 :: "u8 list \<Rightarrow> u8 \<Rightarrow> u8 list \<times> u8" where
  "aes_key_expand_128 key rcon =
     (let old_key = key;
          temp = sub_word (rot_word (word_at old_key 12));
          rcon = aes_rcon_next rcon;
          key = put_word key 0 (xor_word temp (xor_word (word_at old_key 0) (rcon_word rcon)));
          key = fold (\<lambda>i key. put_word key (4 * i) (xor_word (word_at key (4 * (i - 1))) (word_at old_key (4 * i)))) [1..<4] key
      in (key, rcon))"

definition aes_key_expand_192 :: "u8 list \<Rightarrow> u8 \<Rightarrow> nat \<Rightarrow> u8 list \<times> u8" where
  "aes_key_expand_192 key rcon rnd =
     (let old_key = key;
          (shift, tk) = (if rnd = 0 then (8, 16) else (16, 8));
          key = fold (\<lambda>i key. key[i := old_key ! (shift + i)]) [0..<tk] key
      in if rnd = 0 then
           (let temp = sub_word (rot_word (word_at old_key 20));
                rcon = aes_rcon_next rcon;
                key = put_word key 16 (xor_word (word_at old_key 0) (xor_word (temp) (rcon_word rcon)));
                key = put_word key 20 (xor_word (word_at old_key 4) (word_at key 16))
            in (key, rcon))
         else if rnd = 1 \<or> rnd = 4 \<or> rnd = 7 \<or> rnd = 10 then
           (let key = put_word key 8 (xor_word (word_at old_key 0) (word_at key 4));
                key = put_word key 12 (xor_word (word_at old_key 4) (word_at key 8));
                key = put_word key 16 (xor_word (word_at old_key 8) (word_at key 12));
                key = put_word key 20 (xor_word (word_at old_key 12) (word_at key 16))
            in (key, rcon))
         else if rnd = 2 \<or> rnd = 5 \<or> rnd = 8 \<or> rnd = 11 then
           (let temp = sub_word (rot_word (word_at old_key 20));
                rcon = aes_rcon_next rcon;
                key = put_word key 8 (xor_word (word_at old_key 0) (xor_word (temp) (rcon_word rcon)));
                key = put_word key 12 (xor_word (word_at old_key 4) (word_at key 8));
                key = put_word key 16 (xor_word (word_at old_key 8) (word_at key 12));
                key = put_word key 20 (xor_word (word_at old_key 12) (word_at key 16))
            in (key, rcon))
         else
           (let key = put_word key 8 (xor_word (word_at old_key 0) (word_at key 4));
                key = put_word key 12 (xor_word (word_at old_key 4) (word_at key 8));
                temp = sub_word (rot_word (word_at key 12));
                rcon = aes_rcon_next rcon;
                key = put_word key 16 (xor_word (word_at old_key 8) (xor_word (temp) (rcon_word rcon)));
                key = put_word key 20 (xor_word (word_at old_key 12) (word_at key 16))
            in (key, rcon)))"

definition aes_key_expand_256 :: "u8 list \<Rightarrow> u8 \<Rightarrow> nat \<Rightarrow> u8 list \<times> u8" where
  "aes_key_expand_256 key rcon rnd =
     (let old_key = key;
          (shift, tk) = (if rnd = 0 then (0, 32) else (16, 16));
          key = fold (\<lambda>i key. key[i := old_key ! (shift + i)]) [0..<tk] key
      in if rnd = 0 then (key, rcon)
         else if rnd mod 2 \<noteq> 0 then
           (let temp = sub_word (rot_word (word_at old_key 28));
                rcon = aes_rcon_next rcon;
                key = put_word key 16 (xor_word (word_at old_key 0) (xor_word (temp) (rcon_word rcon)));
                key = put_word key 20 (xor_word (word_at old_key 4) (word_at key 16));
                key = put_word key 24 (xor_word (word_at old_key 8) (word_at key 20));
                key = put_word key 28 (xor_word (word_at old_key 12) (word_at key 24))
            in (key, rcon))
         else
           (let temp = sub_word (word_at old_key 28);
                key = put_word key 16 (xor_word (word_at old_key 0) (temp));
                key = put_word key 20 (xor_word (word_at old_key 4) (word_at key 16));
                key = put_word key 24 (xor_word (word_at old_key 8) (word_at key 20));
                key = put_word key 28 (xor_word (word_at old_key 12) (word_at key 24))
            in (key, rcon)))"

text \<open>The result is the round key, the full key and the round constant.\<close>

definition aes_key_expand :: "u8 list \<Rightarrow> nat \<Rightarrow> u8 \<Rightarrow> nat \<Rightarrow> u8 list \<times> u8 list \<times> u8" where
  "aes_key_expand key key_len rcon rnd =
     (let (key, rcon) =
            (if key_len = 16 then aes_key_expand_128 key rcon
             else if key_len = 24 then aes_key_expand_192 key rcon rnd
             else aes_key_expand_256 key rcon rnd);
          round_key = map (\<lambda>i. key ! (key_len - 16 + i)) [0..<16]
      in (round_key, key, rcon))"

section \<open>Inverse key expansion\<close>

definition aes_inv_key_expand_128 :: "u8 list \<Rightarrow> u8 \<Rightarrow> u8 list \<times> u8" where
  "aes_inv_key_expand_128 key rcon =
     (let old_key = key;
          key = fold (\<lambda>i key. put_word key (4 * i) (xor_word (word_at old_key (4 * (i - 1))) (word_at old_key (4 * i)))) [3, 2, 1] key;
          rcon = aes_rcon_prev rcon 16;
          temp = sub_word (rot_word (word_at key 12));
          key = put_word key 0 (xor_word temp (xor_word (word_at old_key 0) (rcon_word rcon)))
      in (key, rcon))"

definition aes_inv_key_expand_192 :: "u8 list \<Rightarrow> u8 \<Rightarrow> nat \<Rightarrow> u8 list \<times> u8" where
  "aes_inv_key_expand_192 key rcon rnd =
     (let old_key = key;
          (shift, tk) = (if rnd = 0 then (8, 16) else (16, 8));
          key = fold (\<lambda>i key. key[i := old_key ! (i - shift)]) (rev [shift..<tk + shift]) key
      in if rnd = 0 then
           (let key = put_word key 4 (xor_word (word_at old_key 20) (word_at old_key 16));
                key = put_word key 0 (xor_word (word_at old_key 16) (word_at old_key 12))
            in (key, rcon))
         else if rnd = 1 \<or> rnd = 4 \<or> rnd = 7 \<or> rnd = 10 then
           (let key = put_word key 12 (xor_word (word_at old_key 20) (word_at old_key 16));
                temp = sub_word (rot_word (word_at old_key 12));
                rcon = aes_rcon_prev rcon 24;
                key = put_word key 8 (xor_word (word_at old_key 16) (xor_word (temp) (rcon_word rcon)));
                key = put_word key 4 (xor_word (word_at old_key 12) (word_at old_key 8));
                key = put_word key 0 (xor_word (word_at old_key 8) (word_at old_key 4))
            in (key, rcon))
         else if rnd = 2 \<or> rnd = 5 \<or> rnd = 8 \<or> rnd = 11 then
           (let key = put_word key 12 (xor_word (word_at old_key 20) (word_at old_key 16));
                key = put_word key 8 (xor_word (word_at old_key 16) (word_at old_key 12));
                key = put_word key 4 (xor_word (word_at old_key 12) (word_at old_key 8));
                temp = sub_word (rot_word (word_at old_key 4));
                rcon = aes_rcon_prev rcon 24;
                key = put_word key 0 (xor_word (word_at old_key 8) (xor_word (temp) (rcon_word rcon)))
            in (key, rcon))
         else
           (let key = put_word key 12 (xor_word (word_at old_key 20) (word_at old_key 16));
                key = put_word key 8 (xor_word (word_at old_key 16) (word_at old_key 12));
                key = put_word key 4 (xor_word (word_at old_key 12) (word_at old_key 8));
                key = put_word key 0 (xor_word (word_at old_key 8) (word_at old_key 4))
            in (key, rcon)))"

definition aes_inv_key_expand_256 :: "u8 list \<Rightarrow> u8 \<Rightarrow> nat \<Rightarrow> u8 list \<times> u8" where
  "aes_inv_key_expand_256 key rcon rnd =
     (let old_key = key;
          (shift, tk) = (if rnd = 0 then (0, 32) else (16, 16));
          key = fold (\<lambda>i key. key[i := old_key ! (i - shift)]) (rev [shift..<tk + shift]) key
      in if rnd = 0 then (key, rcon)
         else if rnd mod 2 \<noteq> 0 then
           (let key = put_word key 12 (xor_word (word_at old_key 28) (word_at old_key 24));
                key = put_word key 8 (xor_word (word_at old_key 24) (word_at old_key 20));
                key = put_word key 4 (xor_word (word_at old_key 20) (word_at old_key 16));
                temp = sub_word (rot_word (word_at old_key 12));
                rcon = aes_rcon_prev rcon 32;
                key = put_word key 0 (xor_word (word_at old_key 16) (xor_word (temp) (rcon_word rcon)))
            in (key, rcon))
         else
           (let key = put_word key 12 (xor_word (word_at old_key 28) (word_at old_key 24));
                key = put_word key 8 (xor_word (word_at old_key 24) (word_at old_key 20));
                key = put_word key 4 (xor_word (word_at old_key 20) (word_at old_key 16));
                temp = sub_word (word_at old_key 12);
                key = put_word key 0 (xor_word (word_at old_key 16) (temp))
            in (key, rcon)))"

definition aes_inv_key_expand :: "u8 list \<Rightarrow> nat \<Rightarrow> u8 \<Rightarrow> nat \<Rightarrow> u8 list \<times> u8 list \<times> u8" where
  "aes_inv_key_expand key key_len rcon rnd =
     (let (key, rcon) =
            (if key_len = 16 then aes_inv_key_expand_128 key rcon
             else if key_len = 24 then aes_inv_key_expand_192 key rcon rnd
             else aes_inv_key_expand_256 key rcon rnd);
          round_key = map (\<lambda>i. key ! i) [0..<16]
      in (round_key, key, rcon))"

section \<open>Blocks\<close>

abbreviation EINVAL :: int where "EINVAL \<equiv> 22"
abbreviation ENOMEM :: int where "ENOMEM \<equiv> 12"

definition aes_get_num_rounds :: "int \<Rightarrow> int" where
  "aes_get_num_rounds key_len =
     (let num_k = key_len sdiv 4
      in if num_k = 4 then 10
         else if num_k = 6 then 12
         else if num_k = 8 then 14
         else - EINVAL)"

text \<open>One pass of the round loop; the loop variables are the state, the round key, the full key and \<open>rcon\<close>.\<close>

definition aes_encrypt_round ::
  "nat \<Rightarrow> nat \<Rightarrow> nat \<Rightarrow> u8 list \<times> u8 list \<times> u8 list \<times> u8 \<Rightarrow> u8 list \<times> u8 list \<times> u8 list \<times> u8" where
  "aes_encrypt_round key_len num_rounds j = (\<lambda>(state, round_key, full_key, rcon).
     (let state = aes_sub_bytes state;
          state = aes_shift_rows state;
          state = (if j < num_rounds - 1 then aes_mix_columns state else state);
          (round_key, full_key, rcon) = aes_key_expand full_key key_len rcon j;
          state = aes_add_round_key state round_key
      in (state, round_key, full_key, rcon)))"

definition aes_encrypt_block :: "bool \<Rightarrow> u8 list \<Rightarrow> u8 list \<Rightarrow> int \<Rightarrow> u8 list \<Rightarrow> int \<times> u8 list" where
  "aes_encrypt_block alloc plain_text key key_len cipher_text =
     (let num_rounds = aes_get_num_rounds key_len
      in if num_rounds < 0 then (- EINVAL, cipher_text)
         else if \<not> alloc then (- ENOMEM, cipher_text)
         else
           (let state = map (\<lambda>i. plain_text ! i) [0..<16];
                full_key = map (\<lambda>i. key ! i) [0..<nat key_len];
                round_key = map (\<lambda>i. full_key ! i) [0..<16];
                rcon = 0;
                state = aes_add_round_key state round_key;
                (state, _, _, _) = fold (aes_encrypt_round (nat key_len) (nat num_rounds)) [0..<nat num_rounds]
                  (state, round_key, full_key, rcon)
            in (0, map (\<lambda>i. state ! i) [0..<16])))"

definition aes_decrypt_round ::
  "nat \<Rightarrow> nat \<Rightarrow> nat \<Rightarrow> u8 list \<times> u8 list \<times> u8 list \<times> u8 \<Rightarrow> u8 list \<times> u8 list \<times> u8 list \<times> u8" where
  "aes_decrypt_round key_len num_rounds j = (\<lambda>(state, round_key, full_key, rcon).
     (let state = aes_inv_sub_bytes state;
          state = aes_inv_shift_rows state;
          state = (if j < num_rounds - 1 then aes_inv_mix_columns state else state);
          (round_key, full_key, rcon) = aes_inv_key_expand full_key key_len rcon j;
          round_key = (if j < num_rounds - 1 then aes_inv_mix_columns round_key else round_key);
          state = aes_add_round_key state round_key
      in (state, round_key, full_key, rcon)))"

definition aes_decrypt_block :: "bool \<Rightarrow> u8 list \<Rightarrow> u8 list \<Rightarrow> int \<Rightarrow> u8 list \<Rightarrow> int \<times> u8 list" where
  "aes_decrypt_block alloc cipher_text key key_len plain_text =
     (let num_rounds = aes_get_num_rounds key_len
      in if num_rounds < 0 then (- EINVAL, plain_text)
         else if \<not> alloc then (- ENOMEM, plain_text)
         else
           (let state = map (\<lambda>i. cipher_text ! i) [0..<16];
                full_key = map (\<lambda>i. key ! i) [0..<nat key_len];
                round_key = map (\<lambda>i. full_key ! i) [0..<16];
                rcon = 0;
                (round_key, full_key, rcon) =
                  fold (\<lambda>j (_, full_key, rcon). aes_key_expand full_key (nat key_len) rcon j) [0..<nat num_rounds]
                    (round_key, full_key, rcon);
                rcon = 0;
                state = aes_add_round_key state round_key;
                (state, _, _, _) = fold (aes_decrypt_round (nat key_len) (nat num_rounds)) [0..<nat num_rounds]
                  (state, round_key, full_key, rcon)
            in (0, map (\<lambda>i. state ! i) [0..<16])))"

section \<open>The round operations are invertible\<close>

lemma less_8_cases: "n < 8 \<Longrightarrow> n = 0 \<or> n = 1 \<or> n = 2 \<or> n = 3 \<or> n = 4 \<or> n = 5 \<or> n = 6 \<or> n = (7 :: nat)"
  by arith

lemma bit_aes_mul2:
  "bit (aes_mul2 x) n \<longleftrightarrow>
     (if n = 0 then bit x 7 else if n = 1 \<or> n = 3 \<or> n = 4 then bit x (n - 1) \<noteq> bit x 7 else n < 8 \<and> bit x (n - 1))"
proof (cases "n < 8")
  case True
  then show ?thesis
    unfolding aes_mul2_def Let_def bit_or_iff bit_xor_iff bit_push_bit_iff bit_and_iff bit_drop_bit_eq bit_1_iff o_apply
    by (drule_tac less_8_cases) (elim disjE; simp add: possible_bit_word)
next
  case False
  then show ?thesis using bit_word8_bound [of "aes_mul2 x" n] by auto
qed

lemma bit_aes_mul4: "aes_mul4 x = aes_mul2 (aes_mul2 x)"
proof (rule bit_word_eqI)
  fix n
  assume "n < LENGTH(8)"
  then have "n < 8" by simp
  then show "bit (aes_mul4 x) n \<longleftrightarrow> bit (aes_mul2 (aes_mul2 x)) n"
    unfolding aes_mul4_def Let_def bit_or_iff bit_xor_iff bit_push_bit_iff bit_and_iff bit_drop_bit_eq bit_1_iff o_apply
    by (drule_tac less_8_cases) (elim disjE; auto simp: possible_bit_word bit_aes_mul2)
qed

lemma aes_mul2_xor [simp]: "aes_mul2 (x XOR y) = aes_mul2 x XOR aes_mul2 y"
  by (rule bit_word_eqI) (auto simp: bit_aes_mul2 bit_simps)

lemma sbox_table: "map (\<lambda>y. inv_sbox ! unat y) sbox = map of_nat [0..<256]"
  by code_simp

lemma inv_sbox_sbox: "inv_sbox ! unat (sbox ! unat x) = x"
proof -
  have x: "unat x < 256" by simp
  have "length sbox = 256" by (simp add: sbox_def)
  then have "inv_sbox ! unat (sbox ! unat x) = map (\<lambda>y. inv_sbox ! unat y) sbox ! unat x" using x by simp
  also have "\<dots> = x" unfolding sbox_table using x by simp
  finally show ?thesis .
qed

lemma block_cases:
  assumes "length s = 16"
  obtains a0 a1 a2 a3 a4 a5 a6 a7 a8 a9 a10 a11 a12 a13 a14 a15 where
    "s = [a0, a1, a2, a3, a4, a5, a6, a7, a8, a9, a10, a11, a12, a13, a14, a15 :: u8]"
  using assms by (auto simp: numeral_eq_Suc length_Suc_conv)

lemma upt_16: "[0..<16] = [0, 1, 2, 3, 4, 5, 6, 7, 8, 9, 10, 11, 12, 13, 14, 15 :: nat]"
  by code_simp

lemma upt_4: "[0..<4] = [0, 1, 2, 3 :: nat]"
  by code_simp

lemma length_aes_ops [simp]:
  "length (aes_add_round_key s k) = 16" "length (aes_sub_bytes s) = 16" "length (aes_inv_sub_bytes s) = 16"
  "length (aes_shift_rows s) = length s" "length (aes_inv_shift_rows s) = length s"
  "length (aes_mix_columns s) = length s" "length (aes_inv_mix_columns s) = length s"
  by (simp_all add: aes_add_round_key_def aes_sub_bytes_def aes_inv_sub_bytes_def aes_shift_rows_def
    aes_inv_shift_rows_def aes_mix_columns_def aes_inv_mix_columns_def upt_4 mix_column_def inv_mix_column_def Let_def)

lemma add_round_key_cancel: "length s = 16 \<Longrightarrow> aes_add_round_key (aes_add_round_key s k) k = s"
  by (rule nth_equalityI) (simp_all add: aes_add_round_key_def xor.assoc)

lemma sub_bytes_inverse: "length s = 16 \<Longrightarrow> aes_inv_sub_bytes (aes_sub_bytes s) = s"
  by (rule nth_equalityI) (simp_all add: aes_sub_bytes_def aes_inv_sub_bytes_def inv_sbox_sbox)

lemma shift_rows_inverse: "length s = 16 \<Longrightarrow> aes_inv_shift_rows (aes_shift_rows s) = s"
  by (erule block_cases) (simp add: aes_shift_rows_def aes_inv_shift_rows_def Let_def)

lemma shift_rows_sub_bytes:
  "length s = 16 \<Longrightarrow> aes_inv_shift_rows (aes_inv_sub_bytes s) = aes_inv_sub_bytes (aes_inv_shift_rows s)"
  by (erule block_cases) (simp add: aes_inv_shift_rows_def aes_inv_sub_bytes_def Let_def upt_16)

lemma aes_mul2_0 [simp]: "aes_mul2 0 = 0"
  by (rule bit_word_eqI) (simp add: bit_aes_mul2)

lemma inv_mix_columns_add:
  assumes "length s = 16" "length k = 16"
  shows "aes_inv_mix_columns (aes_add_round_key s k) = aes_add_round_key (aes_inv_mix_columns s) (aes_inv_mix_columns k)"
  using assms(1)
proof (rule block_cases)
  fix a0 a1 a2 a3 a4 a5 a6 a7 a8 a9 a10 a11 a12 a13 a14 a15
  assume s: "s = [a0, a1, a2, a3, a4, a5, a6, a7, a8, a9, a10, a11, a12, a13, a14, a15]"
  show ?thesis
    using assms(2) unfolding s
    by (rule block_cases)
      (simp add: aes_inv_mix_columns_def inv_mix_column_def mix_column_def Let_def upt_4 upt_16 aes_add_round_key_def
        bit_aes_mul4 ac_simps)
qed

lemma mix_columns_inverse: "length s = 16 \<Longrightarrow> aes_inv_mix_columns (aes_mix_columns s) = s"
  by (erule block_cases)
    (simp add: aes_mix_columns_def aes_inv_mix_columns_def inv_mix_column_def mix_column_def Let_def upt_4
      bit_aes_mul4 ac_simps)

section \<open>Keys as lists of words\<close>

definition of_words :: "u8 list list \<Rightarrow> u8 list" where
  "of_words ws = concat ws"

abbreviation all_words :: "u8 list list \<Rightarrow> bool" where
  "all_words ws \<equiv> list_all (\<lambda>w. length w = 4) ws"

lemma length_of_words: "all_words ws \<Longrightarrow> length (of_words ws) = 4 * length ws"
  unfolding of_words_def by (induction ws) auto

lemma take_drop_of_words:
  "all_words ws \<Longrightarrow> take (4 * n) (of_words ws) = of_words (take n ws) \<and> drop (4 * n) (of_words ws) = of_words (drop n ws)"
  unfolding of_words_def
proof (induction ws arbitrary: n)
  case (Cons w ws)
  then show ?case by (cases n) simp_all
qed simp

lemma of_words_append: "of_words (xs @ ys) = of_words xs @ of_words ys"
  by (simp add: of_words_def)

lemma of_words_nth:
  assumes "all_words ws" "i < length ws" "j < 4"
  shows "of_words ws ! (4 * i + j) = ws ! i ! j"
proof -
  have "drop i ws = ws ! i # drop (Suc i) ws" using assms(2) by (simp add: Cons_nth_drop_Suc)
  then have "drop (4 * i) (of_words ws) = ws ! i @ of_words (drop (Suc i) ws)"
    using take_drop_of_words [OF assms(1), of i] by (simp add: of_words_def)
  moreover have "length (ws ! i) = 4" using assms(1,2) by (simp add: list_all_length)
  ultimately show ?thesis
    using assms(3) length_of_words [OF assms(1)] assms(2) by (metis nth_append nth_drop less_imp_le mult_le_mono2)
qed

lemma list_4: "length v = 4 \<Longrightarrow> [v ! 0, v ! 1, v ! 2, v ! 3] = v"
  by (auto simp: numeral_eq_Suc length_Suc_conv)

lemma word_at_of_words:
  assumes "all_words ws" "n mod 4 = 0" "n div 4 < length ws"
  shows "word_at (of_words ws) n = ws ! (n div 4)"
proof -
  define i where "i = n div 4"
  have n: "n = 4 * i" using assms(2) by (simp add: i_def mod_0_imp_dvd)
  have "length (ws ! i) = 4" using assms(1,3) by (simp add: list_all_length i_def)
  then show ?thesis
    using of_words_nth [OF assms(1), of i 0] of_words_nth [OF assms(1), of i 1] of_words_nth [OF assms(1), of i 2]
      of_words_nth [OF assms(1), of i 3] assms(3) list_4
    unfolding word_at_def i_def [symmetric] n by simp
qed

lemma put_word_append:
  assumes "length v = 4" "length w = 4"
  shows "put_word (xs @ w @ ys) (length xs) v = xs @ v @ ys"
proof -
  obtain a b c d where "w = [a, b, c, d]" using assms(2) by (auto simp: numeral_eq_Suc length_Suc_conv)
  moreover obtain a b c d where "v = [a, b, c, d]" using assms(1) by (auto simp: numeral_eq_Suc length_Suc_conv)
  ultimately show ?thesis by (simp add: put_word_def list_update_append)
qed

lemma put_word_of_words:
  assumes "all_words ws" "n mod 4 = 0" "n div 4 < length ws" "length v = 4"
  shows "put_word (of_words ws) n v = of_words (ws[n div 4 := v])"
proof -
  define i where "i = n div 4"
  have n: "n = 4 * i" using assms(2) by (simp add: i_def mod_0_imp_dvd)
  have i: "i < length ws" using assms(3) by (simp add: i_def)
  have ws: "ws = take i ws @ ws ! i # drop (Suc i) ws" using i by (simp add: id_take_nth_drop)
  have "all_words (take i ws)" using assms(1) by (auto simp: list_all_iff dest: in_set_takeD)
  then have l: "length (of_words (take i ws)) = 4 * i" using length_of_words i by simp
  have w: "length (ws ! i) = 4" using assms(1) i by (simp add: list_all_length)
  have "of_words ws = of_words (take i ws) @ ws ! i @ of_words (drop (Suc i) ws)"
    by (subst ws) (simp add: of_words_def)
  then have "put_word (of_words ws) n v = of_words (take i ws) @ v @ of_words (drop (Suc i) ws)"
    using put_word_append [OF assms(4) w, of "of_words (take i ws)"] l n by simp
  also have "\<dots> = of_words (ws[i := v])" using i by (simp add: of_words_def upd_conv_take_nth_drop)
  finally show ?thesis by (simp add: i_def)
qed

text \<open>The loops that shift the key by whole words.\<close>

lemma fold_copy:
  assumes "s + t \<le> length old" "t \<le> length key"
  shows "fold (\<lambda>i key. key[i := old ! (s + i)]) [0..<t] key = take t (drop s old) @ drop t key"
  using assms
proof (induction t)
  case (Suc t)
  then have "drop t key = key ! t # drop (Suc t) key" by (simp add: Cons_nth_drop_Suc)
  then show ?case using Suc by (simp add: take_Suc_conv_app_nth list_update_append)
qed simp

lemma fold_copy_back:
  assumes "t \<le> length old" "t + s \<le> length key"
  shows "fold (\<lambda>i key. key[i := old ! (i - s)]) (rev [s..<t + s]) key = take s key @ take t old @ drop (t + s) key"
  using assms
proof (induction t arbitrary: key)
  case (Suc t)
  let ?k = "key[t + s := old ! t]"
  have "fold (\<lambda>i key. key[i := old ! (i - s)]) (rev [s..<Suc t + s]) key =
      take s ?k @ take t old @ drop (t + s) ?k"
    using Suc.IH [of ?k] Suc.prems by simp
  moreover have "drop (t + s) ?k = old ! t # drop (Suc (t + s)) key"
    using Suc.prems by (simp add: drop_update_cancel Cons_nth_drop_Suc [symmetric])
  ultimately show ?case using Suc.prems by (simp add: take_Suc_conv_app_nth)
qed simp

lemma copy_words:
  assumes "all_words ws" "s + t \<le> length ws"
  shows "fold (\<lambda>i key. key[i := of_words ws ! (4 * s + i)]) [0..<4 * t] (of_words ws) =
    of_words (take t (drop s ws) @ drop t ws)"
proof -
  have "all_words (drop s ws)" using assms(1) by (auto simp: list_all_iff dest: in_set_dropD)
  then show ?thesis
    using assms length_of_words [OF assms(1)] take_drop_of_words [of "drop s ws" t] take_drop_of_words [OF assms(1)]
    by (subst fold_copy) (simp_all add: of_words_append)
qed

lemma copy_words_back:
  assumes "all_words ws" "t + s \<le> length ws"
  shows "fold (\<lambda>i key. key[i := of_words ws ! (i - 4 * s)]) (rev [4 * s..<4 * t + 4 * s]) (of_words ws) =
    of_words (take s ws @ take t ws @ drop (t + s) ws)"
  using assms length_of_words [OF assms(1)] take_drop_of_words [OF assms(1), of s] take_drop_of_words [OF assms(1), of t]
    take_drop_of_words [OF assms(1), of "t + s"]
  by (subst fold_copy_back) (simp_all add: of_words_append)

lemma length_words [simp]:
  "length (xor_word a b) = 4" "length (sub_word v) = 4" "length (rot_word v) = 4" "length (rcon_word r) = 4"
  by (simp_all add: xor_word_def sub_word_def rot_word_def rcon_word_def)

lemma xor_word_assoc: "xor_word (xor_word a b) c = xor_word a (xor_word b c)"
  by (simp add: xor_word_def xor.assoc)

lemma xor_word_commute: "xor_word a b = xor_word b a"
  by (simp add: xor_word_def xor.commute)

lemma xor_word_left_commute: "xor_word b (xor_word a c) = xor_word a (xor_word b c)"
  by (simp add: xor_word_def xor.left_commute)

lemma xor_word_cancel: "length b = 4 \<Longrightarrow> xor_word a (xor_word a b) = b"
  using list_4 [of b] by (simp add: xor_word_def flip: xor.assoc)

lemma xor_word_self: "length b = 4 \<Longrightarrow> xor_word b (xor_word a a) = b"
  using list_4 [of b] by (simp add: xor_word_def)

lemmas xor_words = xor_word_assoc xor_word_commute xor_word_left_commute xor_word_cancel xor_word_self

lemma copy_word_runs:
  assumes "all_words ws"
  shows "6 \<le> length ws \<Longrightarrow> fold (\<lambda>i key. key[i := of_words ws ! (8 + i)]) [0..<16] (of_words ws) =
      of_words (take 4 (drop 2 ws) @ drop 4 ws)"
    and "6 \<le> length ws \<Longrightarrow> fold (\<lambda>i key. key[i := of_words ws ! (16 + i)]) [0..<8] (of_words ws) =
      of_words (take 2 (drop 4 ws) @ drop 2 ws)"
    and "8 \<le> length ws \<Longrightarrow> fold (\<lambda>i key. key[i := of_words ws ! (16 + i)]) [0..<16] (of_words ws) =
      of_words (take 4 (drop 4 ws) @ drop 4 ws)"
    and "6 \<le> length ws \<Longrightarrow> fold (\<lambda>i key. key[i := of_words ws ! (i - 8)]) (rev [8..<24]) (of_words ws) =
      of_words (take 2 ws @ take 4 ws @ drop 6 ws)"
    and "6 \<le> length ws \<Longrightarrow> fold (\<lambda>i key. key[i := of_words ws ! (i - 16)]) (rev [16..<24]) (of_words ws) =
      of_words (take 4 ws @ take 2 ws @ drop 6 ws)"
    and "8 \<le> length ws \<Longrightarrow> fold (\<lambda>i key. key[i := of_words ws ! (i - 16)]) (rev [16..<32]) (of_words ws) =
      of_words (take 4 ws @ take 4 ws @ drop 8 ws)"
  using copy_words [OF assms, of 2 4] copy_words [OF assms, of 4 2] copy_words [OF assms, of 4 4]
    copy_words_back [OF assms, of 4 2] copy_words_back [OF assms, of 2 4] copy_words_back [OF assms, of 4 4]
  by (simp_all del: upt_rec_numeral)

lemma upt_words: "[Suc 0..<4] = [1, 2, 3 :: nat]"
  by code_simp

lemma key_words:
  assumes "length k = 4 * n"
  shows "\<exists>ws. k = of_words ws \<and> length ws = n \<and> all_words ws"
  using assms
proof (induction n arbitrary: k)
  case 0
  then show ?case by (intro exI [of _ "[]"]) (simp add: of_words_def)
next
  case (Suc n)
  then have "length (drop 4 k) = 4 * n" by simp
  from Suc.IH [OF this] obtain ws where "drop 4 k = of_words ws" "length ws = n" "all_words ws" by blast
  moreover have "take 4 k @ drop 4 k = k" by simp
  ultimately show ?case using Suc.prems by (intro exI [of _ "take 4 k # ws"]) (simp add: of_words_def)
qed

lemma key_16_words:
  assumes "length k = 16"
  obtains w0 w1 w2 w3 where "k = of_words [w0, w1, w2, w3]"
    "length w0 = 4" "length w1 = 4" "length w2 = 4" "length w3 = 4"
proof -
  obtain ws where ws: "k = of_words ws" "length ws = 4" "all_words ws" using key_words [of k 4] assms by auto
  from ws(2) obtain w0 w1 w2 w3 where "ws = [w0, w1, w2, w3]" by (auto simp: numeral_eq_Suc length_Suc_conv)
  with ws show thesis by (intro that) auto
qed

lemma key_24_words:
  assumes "length k = 24"
  obtains w0 w1 w2 w3 w4 w5 where "k = of_words [w0, w1, w2, w3, w4, w5]"
    "length w0 = 4" "length w1 = 4" "length w2 = 4" "length w3 = 4" "length w4 = 4" "length w5 = 4"
proof -
  obtain ws where ws: "k = of_words ws" "length ws = 6" "all_words ws" using key_words [of k 6] assms by auto
  from ws(2) obtain w0 w1 w2 w3 w4 w5 where "ws = [w0, w1, w2, w3, w4, w5]" by (auto simp: numeral_eq_Suc length_Suc_conv)
  with ws show thesis by (intro that) auto
qed

lemma key_32_words:
  assumes "length k = 32"
  obtains w0 w1 w2 w3 w4 w5 w6 w7 where "k = of_words [w0, w1, w2, w3, w4, w5, w6, w7]"
    "length w0 = 4" "length w1 = 4" "length w2 = 4" "length w3 = 4" "length w4 = 4" "length w5 = 4" "length w6 = 4" "length w7 = 4"
proof -
  obtain ws where ws: "k = of_words ws" "length ws = 8" "all_words ws" using key_words [of k 8] assms by auto
  from ws(2) obtain w0 w1 w2 w3 w4 w5 w6 w7 where "ws = [w0, w1, w2, w3, w4, w5, w6, w7]" by (auto simp: numeral_eq_Suc length_Suc_conv)
  with ws show thesis by (intro that) auto
qed

text \<open>What one step makes of the words.\<close>

lemma expand_256_words:
  assumes "length w0 = 4" "length w1 = 4" "length w2 = 4" "length w3 = 4"
      "length w4 = 4" "length w5 = 4" "length w6 = 4" "length w7 = 4" and "rnd \<noteq> 0"
    and "t = (if rnd mod 2 \<noteq> 0 then xor_word (sub_word (rot_word w7)) (rcon_word (aes_rcon_next r)) else sub_word w7)"
    and "w8 = xor_word w0 t" "w9 = xor_word w1 w8" "w10 = xor_word w2 w9" "w11 = xor_word w3 w10"
  shows "aes_key_expand_256 (of_words [w0, w1, w2, w3, w4, w5, w6, w7]) r rnd =
    (of_words [w4, w5, w6, w7, w8, w9, w10, w11], if rnd mod 2 \<noteq> 0 then aes_rcon_next r else r)"
proof (cases "rnd mod 2 \<noteq> 0")
  case True
  show ?thesis
    unfolding aes_key_expand_256_def Let_def if_P [OF True] if_not_P [OF assms(9)] assms(10-14) prod.case
    by (simp add: copy_word_runs word_at_of_words put_word_of_words assms(1-8))
next
  case False
  show ?thesis
    unfolding aes_key_expand_256_def Let_def if_not_P [OF False] if_not_P [OF assms(9)] assms(10-14) prod.case
    by (simp add: copy_word_runs word_at_of_words put_word_of_words assms(1-8))
qed

lemma expand_128_words:
  assumes "length w0 = 4" "length w1 = 4" "length w2 = 4" "length w3 = 4"
    and "w4 = xor_word w0 (xor_word (sub_word (rot_word w3)) (rcon_word (aes_rcon_next r)))"
      "w5 = xor_word w1 w4" "w6 = xor_word w2 w5" "w7 = xor_word w3 w6"
  shows "aes_key_expand_128 (of_words [w0, w1, w2, w3]) r = (of_words [w4, w5, w6, w7], aes_rcon_next r)"
  unfolding assms(5-8)
  by (simp add: aes_key_expand_128_def Let_def upt_words word_at_of_words put_word_of_words assms(1-4) xor_words)

lemma expand_192_words:
  assumes "length w0 = 4" "length w1 = 4" "length w2 = 4" "length w3 = 4" "length w4 = 4" "length w5 = 4"
  shows "w6 = xor_word w0 (xor_word (sub_word (rot_word w5)) (rcon_word (aes_rcon_next r))) \<Longrightarrow> w7 = xor_word w1 w6 \<Longrightarrow>
      aes_key_expand_192 (of_words [w0, w1, w2, w3, w4, w5]) r 0 = (of_words [w2, w3, w4, w5, w6, w7], aes_rcon_next r)"
    and "rnd \<in> {1, 4, 7, 10} \<Longrightarrow> w6 = xor_word w0 w5 \<Longrightarrow> w7 = xor_word w1 w6 \<Longrightarrow>
      w8 = xor_word w2 w7 \<Longrightarrow> w9 = xor_word w3 w8 \<Longrightarrow>
      aes_key_expand_192 (of_words [w0, w1, w2, w3, w4, w5]) r rnd = (of_words [w4, w5, w6, w7, w8, w9], r)"
    and "rnd \<in> {2, 5, 8, 11} \<Longrightarrow> w6 = xor_word w0 (xor_word (sub_word (rot_word w5)) (rcon_word (aes_rcon_next r))) \<Longrightarrow>
      w7 = xor_word w1 w6 \<Longrightarrow> w8 = xor_word w2 w7 \<Longrightarrow> w9 = xor_word w3 w8 \<Longrightarrow>
      aes_key_expand_192 (of_words [w0, w1, w2, w3, w4, w5]) r rnd = (of_words [w4, w5, w6, w7, w8, w9], aes_rcon_next r)"
    and "rnd \<in> {3, 6, 9} \<Longrightarrow> w6 = xor_word w0 w5 \<Longrightarrow> w7 = xor_word w1 w6 \<Longrightarrow>
      w8 = xor_word w2 (xor_word (sub_word (rot_word w7)) (rcon_word (aes_rcon_next r))) \<Longrightarrow> w9 = xor_word w3 w8 \<Longrightarrow>
      aes_key_expand_192 (of_words [w0, w1, w2, w3, w4, w5]) r rnd = (of_words [w4, w5, w6, w7, w8, w9], aes_rcon_next r)"
  unfolding aes_key_expand_192_def Let_def
  by (auto simp: copy_word_runs word_at_of_words put_word_of_words assms)

text \<open>One step back gives the words before.\<close>

lemma inv_expand_128_words:
  assumes "length u0 = 4" "length u1 = 4" "length u2 = 4" "length u3 = 4"
    and "v3 = xor_word u2 u3" "v2 = xor_word u1 u2" "v1 = xor_word u0 u1"
      "v0 = xor_word u0 (xor_word (sub_word (rot_word v3)) (rcon_word (aes_rcon_prev r 16)))"
  shows "aes_inv_key_expand_128 (of_words [u0, u1, u2, u3]) r = (of_words [v0, v1, v2, v3], aes_rcon_prev r 16)"
  unfolding assms(5-8)
  by (simp add: aes_inv_key_expand_128_def Let_def word_at_of_words put_word_of_words assms(1-4) xor_words)

lemma inv_expand_192_words:
  assumes "length u0 = 4" "length u1 = 4" "length u2 = 4" "length u3 = 4" "length u4 = 4" "length u5 = 4"
  shows "aes_inv_key_expand_192 (of_words [u0, u1, u2, u3, u4, u5]) r 0 =
      (of_words [xor_word u4 u3, xor_word u5 u4, u0, u1, u2, u3], r)"
    and "rnd \<in> {1, 4, 7, 10} \<Longrightarrow> aes_inv_key_expand_192 (of_words [u0, u1, u2, u3, u4, u5]) r rnd =
      (of_words [xor_word u2 u1, xor_word u3 u2,
         xor_word u4 (xor_word (sub_word (rot_word u3)) (rcon_word (aes_rcon_prev r 24))), xor_word u5 u4, u0, u1],
       aes_rcon_prev r 24)"
    and "rnd \<in> {2, 5, 8, 11} \<Longrightarrow> aes_inv_key_expand_192 (of_words [u0, u1, u2, u3, u4, u5]) r rnd =
      (of_words [xor_word u2 (xor_word (sub_word (rot_word u1)) (rcon_word (aes_rcon_prev r 24))),
         xor_word u3 u2, xor_word u4 u3, xor_word u5 u4, u0, u1], aes_rcon_prev r 24)"
    and "rnd \<in> {3, 6, 9} \<Longrightarrow> aes_inv_key_expand_192 (of_words [u0, u1, u2, u3, u4, u5]) r rnd =
      (of_words [xor_word u2 u1, xor_word u3 u2, xor_word u4 u3, xor_word u5 u4, u0, u1], r)"
  unfolding aes_inv_key_expand_192_def Let_def
  by (auto simp: copy_word_runs word_at_of_words put_word_of_words assms simp del: upt_rec_numeral)

lemma inv_expand_256_words:
  assumes "length u0 = 4" "length u1 = 4" "length u2 = 4" "length u3 = 4"
      "length u4 = 4" "length u5 = 4" "length u6 = 4" "length u7 = 4" and "rnd \<noteq> 0"
    and "t = (if rnd mod 2 \<noteq> 0 then xor_word (sub_word (rot_word u3)) (rcon_word (aes_rcon_prev r 32)) else sub_word u3)"
  shows "aes_inv_key_expand_256 (of_words [u0, u1, u2, u3, u4, u5, u6, u7]) r rnd =
    (of_words [xor_word u4 t, xor_word u5 u4, xor_word u6 u5, xor_word u7 u6, u0, u1, u2, u3],
     if rnd mod 2 \<noteq> 0 then aes_rcon_prev r 32 else r)"
proof (cases "rnd mod 2 \<noteq> 0")
  case True
  show ?thesis
    unfolding aes_inv_key_expand_256_def Let_def if_P [OF True] if_not_P [OF assms(9)] assms(10) prod.case
    by (simp add: copy_word_runs word_at_of_words put_word_of_words assms(1-8) del: upt_rec_numeral)
next
  case False
  show ?thesis
    unfolding aes_inv_key_expand_256_def Let_def if_not_P [OF False] if_not_P [OF assms(9)] assms(10) prod.case
    by (simp add: copy_word_runs word_at_of_words put_word_of_words assms(1-8) del: upt_rec_numeral)
qed

end
