(* ===== verification/InverseCipher.thy ===== *)
theory InverseCipher
  imports Main
begin

text \<open>
  The equivalent inverse cipher, as a contract. A round substitutes, mixes (all but the last) and adds a
  round key; the inverse cipher runs the inverse operations in the same order, with the
  inversely mixed round keys. The laws below are all it needs to undo the cipher.
\<close>

locale inverse_cipher =
  fixes blk :: "'a \<Rightarrow> bool"
    and sub isub mix imix :: "'a \<Rightarrow> 'a"
    and add :: "'a \<Rightarrow> 'a \<Rightarrow> 'a"
  assumes sub_blk: "blk x \<Longrightarrow> blk (sub x)"
    and mix_blk: "blk x \<Longrightarrow> blk (mix x)"
    and add_blk: "blk x \<Longrightarrow> blk k \<Longrightarrow> blk (add x k)"
    and isub_sub: "blk x \<Longrightarrow> isub (sub x) = x"
    and imix_mix: "blk x \<Longrightarrow> imix (mix x) = x"
    and imix_add: "blk x \<Longrightarrow> blk k \<Longrightarrow> imix (add x k) = add (imix x) (imix k)"
    and add_add: "blk x \<Longrightarrow> blk k \<Longrightarrow> add (add x k) k = x"
    and imix_blk: "blk x \<Longrightarrow> blk (imix x)"
begin

lemma rounds_undone:
  assumes "0 < n" "blk p" and rk: "\<And>j. j \<le> n \<Longrightarrow> blk (rk j)"
    and s0: "s 0 = add p (rk 0)"
    and s: "\<And>j. j < n \<Longrightarrow> s (Suc j) = add (if j < n - 1 then mix (sub (s j)) else sub (s j)) (rk (Suc j))"
    and t0: "t 0 = add (s n) (rk n)"
    and t: "\<And>i. i < n \<Longrightarrow> t (Suc i) = add (if i < n - 1 then imix (isub (t i)) else isub (t i))
        (if i < n - 1 then imix (rk (n - Suc i)) else rk (n - Suc i))"
  shows "t n = p"
proof -
  have sb: "blk (s j)" if "j \<le> n" for j
    using that by (induction j) (auto simp: s0 s assms(2) rk add_blk sub_blk mix_blk)
  have undo: "t i = sub (s (n - Suc i))" if "i < n" for i
    using that
  proof (induction i)
    case 0
    then have "s n = add (sub (s (n - 1))) (rk n)" using s [of "n - 1"] by simp
    then show ?case using 0 sb [of "n - 1"] rk [of n] by (simp add: t0 add_add sub_blk)
  next
    case (Suc i)
    define j where "j = n - Suc (Suc i)"
    have j: "n - Suc i = Suc j" "j < n - 1" "i < n - 1" using Suc.prems by (simp_all add: j_def)
    have "isub (t i) = s (Suc j)" using Suc j sb [of "Suc j"] by (simp add: isub_sub)
    moreover have "s (Suc j) = add (mix (sub (s j))) (rk (Suc j))" using s [of j] j(2) by simp
    ultimately show ?case
      using t [of i] Suc.prems j sb [of j] rk [of "Suc j"]
      by (simp add: imix_add imix_mix imix_blk sub_blk mix_blk add_add j_def [symmetric])
  qed
  obtain m where n: "n = Suc m" using assms(1) by (cases n) auto
  have "t n = add (isub (t m)) (rk 0)" using t [of m] by (simp add: n)
  also have "isub (t m) = s 0" using undo [of m] sb [of 0] by (simp add: n isub_sub)
  finally show ?thesis using s0 assms(2) rk [of 0] by (simp add: add_add)
qed

end

end
