(* ===== verification/AesCipher.thy ===== *)
theory AesCipher
  imports AesModel InverseCipher
begin

text \<open>
  The AES model against FIPS-197: its on-the-fly key expansion, forward and backward, walks over the
  key schedule of the standard, and decryption undoes encryption for all three key lengths.
\<close>

section \<open>The key schedule of the standard\<close>

primrec rcon_seq :: "nat \<Rightarrow> u8" where
  "rcon_seq 0 = 0"
| "rcon_seq (Suc m) = aes_rcon_next (rcon_seq m)"

function ks_word :: "u8 list \<Rightarrow> nat \<Rightarrow> nat \<Rightarrow> u8 list" where
  "ks_word key nk i =
     (if i < nk \<or> nk = 0 then word_at key (4 * i)
      else xor_word (ks_word key nk (i - nk))
        (let temp = ks_word key nk (i - 1)
         in if i mod nk = 0 then xor_word (sub_word (rot_word temp)) (rcon_word (rcon_seq (i div nk)))
            else if nk > 6 \<and> i mod nk = 4 then sub_word temp
            else temp))"
  by pat_completeness auto
termination by (relation "measure (\<lambda>(_, _, i). i)") auto

declare ks_word.simps [simp del]

text \<open>The words \<open>a, \<dots>, a + n - 1\<close> of the schedule as bytes.\<close>

definition ks_window :: "u8 list \<Rightarrow> nat \<Rightarrow> nat \<Rightarrow> nat \<Rightarrow> u8 list" where
  "ks_window key nk a n = of_words (map (\<lambda>i. ks_word key nk (a + i)) [0..<n])"

definition ks_round_key :: "u8 list \<Rightarrow> nat \<Rightarrow> nat \<Rightarrow> u8 list" where
  "ks_round_key key nk j = ks_window key nk (4 * j) 4"

lemma length_word_at [simp]: "length (word_at k i) = 4"
  by (simp add: word_at_def)

lemma length_ks_word [simp]: "length (ks_word key nk i) = 4"
  by (subst ks_word.simps) simp

lemma length_ks_window [simp]: "length (ks_window key nk a n) = 4 * n"
  unfolding ks_window_def by (subst length_of_words) (simp_all add: list_all_iff)

lemma ks_window_simps:
  "ks_window key nk a 4 = of_words [ks_word key nk a, ks_word key nk (a + 1), ks_word key nk (a + 2), ks_word key nk (a + 3)]"
  "ks_window key nk a 6 = of_words [ks_word key nk a, ks_word key nk (a + 1), ks_word key nk (a + 2), ks_word key nk (a + 3),
     ks_word key nk (a + 4), ks_word key nk (a + 5)]"
  "ks_window key nk a 8 = of_words [ks_word key nk a, ks_word key nk (a + 1), ks_word key nk (a + 2), ks_word key nk (a + 3),
     ks_word key nk (a + 4), ks_word key nk (a + 5), ks_word key nk (a + 6), ks_word key nk (a + 7)]"
  by (simp_all add: ks_window_def numeral_eq_Suc)

text \<open>The recurrences that one step of the expansion uses.\<close>

lemma ks_rec:
  assumes "0 < nk"
  shows "a mod nk = 0 \<Longrightarrow> ks_word key nk (a + nk) = xor_word (ks_word key nk a)
      (xor_word (sub_word (rot_word (ks_word key nk (a + nk - 1)))) (rcon_word (rcon_seq (Suc (a div nk)))))"
    and "a mod nk \<noteq> 0 \<Longrightarrow> \<not> (nk > 6 \<and> a mod nk = 4) \<Longrightarrow>
      ks_word key nk (a + nk) = xor_word (ks_word key nk a) (ks_word key nk (a + nk - 1))"
    and "nk > 6 \<Longrightarrow> a mod nk = 4 \<Longrightarrow>
      ks_word key nk (a + nk) = xor_word (ks_word key nk a) (sub_word (ks_word key nk (a + nk - 1)))"
proof -
  have n: "\<not> (a + nk < nk \<or> nk = 0)" "a + nk - nk = a" "(a + nk) mod nk = a mod nk" "(a + nk) div nk = Suc (a div nk)"
    using assms by (simp_all add: div_add_self2)
  note eq = ks_word.simps [of key nk "a + nk", unfolded n Let_def, unfolded if_not_P [OF n(1)]]
  show "a mod nk = 0 \<Longrightarrow> ks_word key nk (a + nk) = xor_word (ks_word key nk a)
      (xor_word (sub_word (rot_word (ks_word key nk (a + nk - 1)))) (rcon_word (rcon_seq (Suc (a div nk)))))"
    unfolding eq by (simp only: if_True simp_thms)
  show "a mod nk \<noteq> 0 \<Longrightarrow> \<not> (nk > 6 \<and> a mod nk = 4) \<Longrightarrow>
      ks_word key nk (a + nk) = xor_word (ks_word key nk a) (ks_word key nk (a + nk - 1))"
    unfolding eq by (simp only: if_False)
  show "nk > 6 \<Longrightarrow> a mod nk = 4 \<Longrightarrow>
      ks_word key nk (a + nk) = xor_word (ks_word key nk a) (sub_word (ks_word key nk (a + nk - 1)))"
    unfolding eq by (simp only: if_True if_False simp_thms) simp
qed

lemma ks_at:
  assumes "n = a + nk" "Suc p = n" "0 < nk"
  shows "a mod nk = 0 \<Longrightarrow> m = Suc (a div nk) \<Longrightarrow>
      ks_word key nk n = xor_word (ks_word key nk a) (xor_word (sub_word (rot_word (ks_word key nk p))) (rcon_word (rcon_seq m)))"
    and "a mod nk \<noteq> 0 \<Longrightarrow> \<not> (nk > 6 \<and> a mod nk = 4) \<Longrightarrow>
      ks_word key nk n = xor_word (ks_word key nk a) (ks_word key nk p)"
    and "nk > 6 \<Longrightarrow> a mod nk = 4 \<Longrightarrow> ks_word key nk n = xor_word (ks_word key nk a) (sub_word (ks_word key nk p))"
proof -
  have p: "p = a + nk - 1" using assms(1,2) by simp
  show "ks_word key nk n = xor_word (ks_word key nk a) (xor_word (sub_word (rot_word (ks_word key nk p))) (rcon_word (rcon_seq m)))"
    if "a mod nk = 0" "m = Suc (a div nk)"
    unfolding p assms(1) that(2) by (rule ks_rec(1) [OF assms(3) that(1)])
  show "ks_word key nk n = xor_word (ks_word key nk a) (ks_word key nk p)"
    if "a mod nk \<noteq> 0" "\<not> (nk > 6 \<and> a mod nk = 4)"
    unfolding p assms(1) by (rule ks_rec(2) [OF assms(3) that])
  show "ks_word key nk n = xor_word (ks_word key nk a) (sub_word (ks_word key nk p))" if "nk > 6" "a mod nk = 4"
    unfolding p assms(1) by (rule ks_rec(3) [OF assms(3) that])
qed

lemma xor_word_solve: "c = xor_word a b \<Longrightarrow> length a = 4 \<Longrightarrow> a = xor_word c b"
  by (simp add: xor_words)

text \<open>The recurrences read backwards.\<close>

lemma ks_back:
  assumes "n = a + nk" "Suc p = n" "0 < nk"
  shows "a mod nk = 0 \<Longrightarrow> m = Suc (a div nk) \<Longrightarrow>
      ks_word key nk a = xor_word (ks_word key nk n) (xor_word (sub_word (rot_word (ks_word key nk p))) (rcon_word (rcon_seq m)))"
    and "a mod nk \<noteq> 0 \<Longrightarrow> \<not> (nk > 6 \<and> a mod nk = 4) \<Longrightarrow>
      ks_word key nk a = xor_word (ks_word key nk n) (ks_word key nk p)"
    and "nk > 6 \<Longrightarrow> a mod nk = 4 \<Longrightarrow> ks_word key nk a = xor_word (ks_word key nk n) (sub_word (ks_word key nk p))"
proof -
  note solve = xor_word_solve [OF _ length_ks_word]
  show "ks_word key nk a = xor_word (ks_word key nk n) (xor_word (sub_word (rot_word (ks_word key nk p))) (rcon_word (rcon_seq m)))"
    if "a mod nk = 0" "m = Suc (a div nk)"
    by (rule solve, rule ks_at(1) [OF assms that])
  show "ks_word key nk a = xor_word (ks_word key nk n) (ks_word key nk p)"
    if "a mod nk \<noteq> 0" "\<not> (nk > 6 \<and> a mod nk = 4)"
    by (rule solve, rule ks_at(2) [OF assms that])
  show "ks_word key nk a = xor_word (ks_word key nk n) (sub_word (ks_word key nk p))" if "nk > 6" "a mod nk = 4"
    by (rule solve, rule ks_at(3) [OF assms that])
qed

section \<open>The expansion follows the schedule\<close>

lemma expand_128_step:
  "aes_key_expand_128 (ks_window key 4 (4 * j) 4) (rcon_seq j) = (ks_window key 4 (4 * j + 4) 4, rcon_seq (Suc j))"
  unfolding ks_window_simps rcon_seq.simps
proof (rule expand_128_words; (rule length_ks_word)?)
  show "ks_word key 4 (4 * j + 4) = xor_word (ks_word key 4 (4 * j))
      (xor_word (sub_word (rot_word (ks_word key 4 (4 * j + 3)))) (rcon_word (aes_rcon_next (rcon_seq j))))"
    unfolding rcon_seq.simps(2) [symmetric] by (rule ks_at(1)) simp_all
  show "ks_word key 4 (4 * j + 4 + 1) = xor_word (ks_word key 4 (4 * j + 1)) (ks_word key 4 (4 * j + 4))"
    by (rule ks_at(2)) (simp; presburger?)+
  show "ks_word key 4 (4 * j + 4 + 2) = xor_word (ks_word key 4 (4 * j + 2)) (ks_word key 4 (4 * j + 4 + 1))"
    by (rule ks_at(2)) (simp; presburger?)+
  show "ks_word key 4 (4 * j + 4 + 3) = xor_word (ks_word key 4 (4 * j + 3)) (ks_word key 4 (4 * j + 4 + 2))"
    by (rule ks_at(2)) (simp; presburger?)+
qed

lemma expand_192_first: "aes_key_expand_192 (ks_window key 6 0 6) 0 0 = (ks_window key 6 2 6, rcon_seq 1)"
proof -
  have e: "ks_word key 6 6 = xor_word (ks_word key 6 0)
      (xor_word (sub_word (rot_word (ks_word key 6 5))) (rcon_word (aes_rcon_next 0)))"
    using ks_at(1) [of 6 0 6 5 1 key] by simp
  have e1: "ks_word key 6 7 = xor_word (ks_word key 6 1) (ks_word key 6 6)"
    using ks_at(2) [of 7 1 6 6 key] by simp
  show ?thesis
    using expand_192_words(1) [OF length_ks_word length_ks_word length_ks_word length_ks_word length_ks_word length_ks_word e e1]
    by (simp add: ks_window_simps flip: numeral_2_eq_2)
qed

lemma expand_192_step:
  assumes "i < 11"
  shows "aes_key_expand_192 (ks_window key 6 (4 * i + 2) 6) (rcon_seq ((4 * i + 7) div 6)) (Suc i) =
    (ks_window key 6 (4 * i + 6) 6, rcon_seq ((4 * i + 11) div 6))"
proof -
  let ?W = "ks_word key 6"
  note l = length_ks_word
  have win: "ks_window key 6 (4 * i + 2) 6 = of_words [?W (4 * i + 2), ?W (4 * i + 3), ?W (4 * i + 4), ?W (4 * i + 5), ?W (4 * i + 6), ?W (4 * i + 7)]"
    "ks_window key 6 (4 * i + 6) 6 = of_words [?W (4 * i + 6), ?W (4 * i + 7), ?W (4 * i + 8), ?W (4 * i + 9), ?W (4 * i + 10), ?W (4 * i + 11)]"
    by (simp_all only: ks_window_simps add.assoc arith_simps numeral_plus_one)
  have "i = 3 * (i div 3) \<or> i = 3 * (i div 3) + 1 \<or> i = 3 * (i div 3) + 2" by arith
  then obtain t where "i = 3 * t \<or> i = 3 * t + 1 \<or> i = 3 * t + 2" by blast
  then consider "i = 3 * t" | "i = 3 * t + 1" | "i = 3 * t + 2" by blast
  then show ?thesis
  proof cases
    case 1
    then have m: "(4 * i + 11) div 6 = (4 * i + 7) div 6" by presburger
    have r: "Suc i \<in> {1, 4, 7, 10}" using 1 assms by (auto; presburger)
    have a8: "?W (4 * i + 8) = xor_word (?W (4 * i + 2)) (?W (4 * i + 7))" by (rule ks_at(2); use 1 in presburger)
    have a9: "?W (4 * i + 9) = xor_word (?W (4 * i + 3)) (?W (4 * i + 8))" by (rule ks_at(2); use 1 in presburger)
    have a10: "?W (4 * i + 10) = xor_word (?W (4 * i + 4)) (?W (4 * i + 9))" by (rule ks_at(2); use 1 in presburger)
    have a11: "?W (4 * i + 11) = xor_word (?W (4 * i + 5)) (?W (4 * i + 10))" by (rule ks_at(2); use 1 in presburger)
    show ?thesis unfolding win m by (rule expand_192_words(2) [OF l l l l l l r a8 a9 a10 a11])
  next
    case 2
    then have m: "(4 * i + 11) div 6 = Suc ((4 * i + 7) div 6)" by presburger
    have r: "Suc i \<in> {2, 5, 8, 11}" using 2 assms by (auto; presburger)
    have a8: "?W (4 * i + 8) = xor_word (?W (4 * i + 2))
        (xor_word (sub_word (rot_word (?W (4 * i + 7)))) (rcon_word (rcon_seq (Suc ((4 * i + 7) div 6)))))"
      by (rule ks_at(1); use 2 in presburger)
    have a9: "?W (4 * i + 9) = xor_word (?W (4 * i + 3)) (?W (4 * i + 8))" by (rule ks_at(2); use 2 in presburger)
    have a10: "?W (4 * i + 10) = xor_word (?W (4 * i + 4)) (?W (4 * i + 9))" by (rule ks_at(2); use 2 in presburger)
    have a11: "?W (4 * i + 11) = xor_word (?W (4 * i + 5)) (?W (4 * i + 10))" by (rule ks_at(2); use 2 in presburger)
    show ?thesis unfolding win m rcon_seq.simps(2) by (rule expand_192_words(3) [OF l l l l l l r a8 [unfolded rcon_seq.simps(2)] a9 a10 a11])
  next
    case 3
    then have m: "(4 * i + 11) div 6 = Suc ((4 * i + 7) div 6)" by presburger
    have r: "Suc i \<in> {3, 6, 9}" using 3 assms by (auto; presburger)
    have a8: "?W (4 * i + 8) = xor_word (?W (4 * i + 2)) (?W (4 * i + 7))" by (rule ks_at(2); use 3 in presburger)
    have a9: "?W (4 * i + 9) = xor_word (?W (4 * i + 3)) (?W (4 * i + 8))" by (rule ks_at(2); use 3 in presburger)
    have a10: "?W (4 * i + 10) = xor_word (?W (4 * i + 4))
        (xor_word (sub_word (rot_word (?W (4 * i + 9)))) (rcon_word (rcon_seq (Suc ((4 * i + 7) div 6)))))"
      by (rule ks_at(1); use 3 in presburger)
    have a11: "?W (4 * i + 11) = xor_word (?W (4 * i + 5)) (?W (4 * i + 10))" by (rule ks_at(2); use 3 in presburger)
    show ?thesis unfolding win m rcon_seq.simps(2) by (rule expand_192_words(4) [OF l l l l l l r a8 a9 a10 [unfolded rcon_seq.simps(2)] a11])
  qed
qed

lemma expand_256_step:
  "aes_key_expand_256 (ks_window key 8 (4 * i) 8) (rcon_seq ((4 * i + 7) div 8)) (Suc i) =
    (ks_window key 8 (4 * i + 4) 8, rcon_seq ((4 * i + 11) div 8))"
proof -
  let ?W = "ks_word key 8"
  note l = length_ks_word
  have a1: "?W (4 * i + 9) = xor_word (?W (4 * i + 1)) (?W (4 * i + 8))" by (rule ks_at(2); presburger)
  have a2: "?W (4 * i + 10) = xor_word (?W (4 * i + 2)) (?W (4 * i + 9))" by (rule ks_at(2); presburger)
  have a3: "?W (4 * i + 11) = xor_word (?W (4 * i + 3)) (?W (4 * i + 10))" by (rule ks_at(2); presburger)
  have rot: "?W (4 * i + 8) = xor_word (?W (4 * i))
      (xor_word (sub_word (rot_word (?W (4 * i + 7)))) (rcon_word (rcon_seq (Suc ((4 * i + 7) div 8)))))" if "i = 2 * t" for t
    by (rule ks_at(1); use that in presburger)
  have sub: "?W (4 * i + 8) = xor_word (?W (4 * i)) (sub_word (?W (4 * i + 7)))" if "i = 2 * t + 1" for t
    by (rule ks_at(3); use that in presburger)
  have win: "ks_window key 8 (4 * i) 8 = of_words [?W (4 * i), ?W (4 * i + 1), ?W (4 * i + 2), ?W (4 * i + 3),
      ?W (4 * i + 4), ?W (4 * i + 5), ?W (4 * i + 6), ?W (4 * i + 7)]"
    "ks_window key 8 (4 * i + 4) 8 = of_words [?W (4 * i + 4), ?W (4 * i + 5), ?W (4 * i + 6), ?W (4 * i + 7),
      ?W (4 * i + 8), ?W (4 * i + 9), ?W (4 * i + 10), ?W (4 * i + 11)]"
    by (simp_all only: ks_window_simps add.assoc arith_simps numeral_plus_one)
  have "i = 2 * (i div 2) \<or> i = 2 * (i div 2) + 1" by arith
  then obtain t where "i = 2 * t \<or> i = 2 * t + 1" by blast
  then consider "i = 2 * t" | "i = 2 * t + 1" by blast
  then show ?thesis
  proof cases
    case 1
    then have m: "Suc i mod 2 = 1" "(4 * i + 11) div 8 = Suc ((4 * i + 7) div 8)" by presburger+
    have "aes_key_expand_256 (ks_window key 8 (4 * i) 8) (rcon_seq ((4 * i + 7) div 8)) (Suc i) =
        (ks_window key 8 (4 * i + 4) 8, if Suc i mod 2 \<noteq> 0 then aes_rcon_next (rcon_seq ((4 * i + 7) div 8)) else rcon_seq ((4 * i + 7) div 8))"
      unfolding win
      by (rule expand_256_words [OF l l l l l l l l _ refl _ a1 a2 a3]) (simp_all add: rot [OF 1] m(1) del: rcon_seq.simps(1))
    then show ?thesis by (simp add: m)
  next
    case 2
    then have m: "Suc i mod 2 = 0" "(4 * i + 11) div 8 = (4 * i + 7) div 8" by presburger+
    have "aes_key_expand_256 (ks_window key 8 (4 * i) 8) (rcon_seq ((4 * i + 7) div 8)) (Suc i) =
        (ks_window key 8 (4 * i + 4) 8, if Suc i mod 2 \<noteq> 0 then aes_rcon_next (rcon_seq ((4 * i + 7) div 8)) else rcon_seq ((4 * i + 7) div 8))"
      unfolding win
      by (rule expand_256_words [OF l l l l l l l l _ refl _ a1 a2 a3]) (simp_all add: sub [OF 2] m(1))
    then show ?thesis by (simp add: m)
  qed
qed

section \<open>The inverse expansion walks the schedule backwards\<close>

lemma inv_expand_128_step:
  assumes q: "aes_rcon_prev q 16 = rcon_seq (Suc j)"
  shows "aes_inv_key_expand_128 (ks_window key 4 (4 * j + 4) 4) q = (ks_window key 4 (4 * j) 4, rcon_seq (Suc j))"
proof -
  let ?W = "ks_word key 4"
  note l = length_ks_word
  have b3: "?W (4 * j + 3) = xor_word (?W (4 * j + 6)) (?W (4 * j + 7))" by (subst xor_word_commute, rule ks_back(2); presburger)
  have b2: "?W (4 * j + 2) = xor_word (?W (4 * j + 5)) (?W (4 * j + 6))" by (subst xor_word_commute, rule ks_back(2); presburger)
  have b1: "?W (4 * j + 1) = xor_word (?W (4 * j + 4)) (?W (4 * j + 5))" by (subst xor_word_commute, rule ks_back(2); presburger)
  have b0: "?W (4 * j) = xor_word (?W (4 * j + 4)) (xor_word (sub_word (rot_word (?W (4 * j + 3)))) (rcon_word (rcon_seq (Suc j))))"
    by (rule ks_back(1); presburger)
  have win: "ks_window key 4 (4 * j) 4 = of_words [?W (4 * j), ?W (4 * j + 1), ?W (4 * j + 2), ?W (4 * j + 3)]"
    "ks_window key 4 (4 * j + 4) 4 = of_words [?W (4 * j + 4), ?W (4 * j + 5), ?W (4 * j + 6), ?W (4 * j + 7)]"
    by (simp_all only: ks_window_simps add.assoc arith_simps numeral_plus_one)
  show ?thesis
    unfolding win q [symmetric]
    by (rule inv_expand_128_words [OF l l l l b3 b2 b1]) (simp only: q b0)
qed

lemma inv_expand_192_first:
  "aes_inv_key_expand_192 (ks_window key 6 46 6) q 0 = (ks_window key 6 44 6, q)"
proof -
  let ?W = "ks_word key 6"
  note l = length_ks_word
  have b0: "?W 44 = xor_word (?W 50) (?W 49)" by (rule ks_back(2)) simp_all
  have b1: "?W 45 = xor_word (?W 51) (?W 50)" by (rule ks_back(2)) simp_all
  have win: "ks_window key 6 44 6 = of_words [?W 44, ?W 45, ?W 46, ?W 47, ?W 48, ?W 49]"
    "ks_window key 6 46 6 = of_words [?W 46, ?W 47, ?W 48, ?W 49, ?W 50, ?W 51]"
    by (simp_all only: ks_window_simps arith_simps numeral_plus_one)
  show ?thesis unfolding win b0 b1 by (rule inv_expand_192_words(1) [OF l l l l l l])
qed

lemma inv_expand_192_step:
  assumes "j < 11" and q: "j mod 3 \<noteq> 2 \<Longrightarrow> aes_rcon_prev q 24 = rcon_seq (Suc ((4 * j + 2) div 6))"
  shows "aes_inv_key_expand_192 (ks_window key 6 (4 * j + 4) 6) q (11 - j) =
    (ks_window key 6 (4 * j) 6, if j mod 3 \<noteq> 2 then rcon_seq (Suc ((4 * j + 2) div 6)) else q)"
proof -
  let ?W = "ks_word key 6"
  note l = length_ks_word
  have win: "ks_window key 6 (4 * j) 6 = of_words [?W (4 * j), ?W (4 * j + 1), ?W (4 * j + 2), ?W (4 * j + 3), ?W (4 * j + 4), ?W (4 * j + 5)]"
    "ks_window key 6 (4 * j + 4) 6 = of_words [?W (4 * j + 4), ?W (4 * j + 5), ?W (4 * j + 6), ?W (4 * j + 7), ?W (4 * j + 8), ?W (4 * j + 9)]"
    by (simp_all only: ks_window_simps add.assoc arith_simps numeral_plus_one)
  have "j = 3 * (j div 3) \<or> j = 3 * (j div 3) + 1 \<or> j = 3 * (j div 3) + 2" by arith
  then obtain t where "j = 3 * t \<or> j = 3 * t + 1 \<or> j = 3 * t + 2" by blast
  then consider "j = 3 * t" | "j = 3 * t + 1" | "j = 3 * t + 2" by blast
  then show ?thesis
  proof cases
    case 1
    have r: "11 - j \<in> {2, 5, 8, 11}" using 1 assms(1) by (auto; presburger)
    have b0: "?W (4 * j) = xor_word (?W (4 * j + 6)) (xor_word (sub_word (rot_word (?W (4 * j + 5)))) (rcon_word (rcon_seq (Suc ((4 * j + 2) div 6)))))"
      by (rule ks_back(1); use 1 in presburger)
    have b1: "?W (4 * j + 1) = xor_word (?W (4 * j + 7)) (?W (4 * j + 6))" by (rule ks_back(2); use 1 in presburger)
    have b2: "?W (4 * j + 2) = xor_word (?W (4 * j + 8)) (?W (4 * j + 7))" by (rule ks_back(2); use 1 in presburger)
    have b3: "?W (4 * j + 3) = xor_word (?W (4 * j + 9)) (?W (4 * j + 8))" by (rule ks_back(2); use 1 in presburger)
    have m: "j mod 3 \<noteq> 2" using 1 by presburger
    show ?thesis unfolding win if_P [OF m] b0 b1 b2 b3 unfolding q [OF m, symmetric] by (rule inv_expand_192_words(3) [OF l l l l l l r])
  next
    case 2
    have r: "11 - j \<in> {1, 4, 7, 10}" using 2 assms(1) by (auto; presburger)
    have b0: "?W (4 * j) = xor_word (?W (4 * j + 6)) (?W (4 * j + 5))" by (rule ks_back(2); use 2 in presburger)
    have b1: "?W (4 * j + 1) = xor_word (?W (4 * j + 7)) (?W (4 * j + 6))" by (rule ks_back(2); use 2 in presburger)
    have b2: "?W (4 * j + 2) = xor_word (?W (4 * j + 8)) (xor_word (sub_word (rot_word (?W (4 * j + 7)))) (rcon_word (rcon_seq (Suc ((4 * j + 2) div 6)))))"
      by (rule ks_back(1); use 2 in presburger)
    have b3: "?W (4 * j + 3) = xor_word (?W (4 * j + 9)) (?W (4 * j + 8))" by (rule ks_back(2); use 2 in presburger)
    have m: "j mod 3 \<noteq> 2" using 2 by presburger
    show ?thesis unfolding win if_P [OF m] b0 b1 b2 b3 unfolding q [OF m, symmetric] by (rule inv_expand_192_words(2) [OF l l l l l l r])
  next
    case 3
    have r: "11 - j \<in> {3, 6, 9}" using 3 assms(1) by (auto; presburger)
    have b0: "?W (4 * j) = xor_word (?W (4 * j + 6)) (?W (4 * j + 5))" by (rule ks_back(2); use 3 in presburger)
    have b1: "?W (4 * j + 1) = xor_word (?W (4 * j + 7)) (?W (4 * j + 6))" by (rule ks_back(2); use 3 in presburger)
    have b2: "?W (4 * j + 2) = xor_word (?W (4 * j + 8)) (?W (4 * j + 7))" by (rule ks_back(2); use 3 in presburger)
    have b3: "?W (4 * j + 3) = xor_word (?W (4 * j + 9)) (?W (4 * j + 8))" by (rule ks_back(2); use 3 in presburger)
    have m: "\<not> j mod 3 \<noteq> 2" using 3 by presburger
    show ?thesis unfolding win if_not_P [OF m] b0 b1 b2 b3 by (rule inv_expand_192_words(4) [OF l l l l l l r])
  qed
qed

lemma inv_expand_256_step:
  assumes "j < 13" and q: "j mod 2 = 0 \<Longrightarrow> aes_rcon_prev q 32 = rcon_seq (Suc (j div 2))"
  shows "aes_inv_key_expand_256 (ks_window key 8 (4 * j + 4) 8) q (13 - j) =
    (ks_window key 8 (4 * j) 8, if j mod 2 = 0 then rcon_seq (Suc (j div 2)) else q)"
proof -
  let ?W = "ks_word key 8"
  note l = length_ks_word
  have b1: "?W (4 * j + 1) = xor_word (?W (4 * j + 9)) (?W (4 * j + 8))" by (rule ks_back(2); presburger)
  have b2: "?W (4 * j + 2) = xor_word (?W (4 * j + 10)) (?W (4 * j + 9))" by (rule ks_back(2); presburger)
  have b3: "?W (4 * j + 3) = xor_word (?W (4 * j + 11)) (?W (4 * j + 10))" by (rule ks_back(2); presburger)
  have win: "ks_window key 8 (4 * j) 8 = of_words [?W (4 * j), ?W (4 * j + 1), ?W (4 * j + 2), ?W (4 * j + 3),
      ?W (4 * j + 4), ?W (4 * j + 5), ?W (4 * j + 6), ?W (4 * j + 7)]"
    "ks_window key 8 (4 * j + 4) 8 = of_words [?W (4 * j + 4), ?W (4 * j + 5), ?W (4 * j + 6), ?W (4 * j + 7),
      ?W (4 * j + 8), ?W (4 * j + 9), ?W (4 * j + 10), ?W (4 * j + 11)]"
    by (simp_all only: ks_window_simps add.assoc arith_simps numeral_plus_one)
  have nz: "13 - j \<noteq> 0" using assms(1) by simp
  note inv = inv_expand_256_words [OF l l l l l l l l nz refl]
  have "j = 2 * (j div 2) \<or> j = 2 * (j div 2) + 1" by arith
  then obtain t where "j = 2 * t \<or> j = 2 * t + 1" by blast
  then consider "j = 2 * t" | "j = 2 * t + 1" by blast
  then show ?thesis
  proof cases
    case 1
    have m: "j mod 2 = 0" "(13 - j) mod 2 \<noteq> 0" using 1 assms(1) by presburger+
    have b0: "?W (4 * j) = xor_word (?W (4 * j + 8)) (xor_word (sub_word (rot_word (?W (4 * j + 7)))) (rcon_word (rcon_seq (Suc (j div 2)))))"
      by (rule ks_back(1); use 1 in presburger)
    show ?thesis
      unfolding win if_P [OF m(1)] b0 b1 b2 b3 unfolding inv if_P [OF m(2)] q [OF m(1)] by (rule refl)
  next
    case 2
    have m: "\<not> j mod 2 = 0" "\<not> (13 - j) mod 2 \<noteq> 0" using 2 assms(1) by presburger+
    have b0: "?W (4 * j) = xor_word (?W (4 * j + 8)) (sub_word (?W (4 * j + 7)))"
      by (rule ks_back(3); use 2 in presburger)
    show ?thesis
      unfolding win if_not_P [OF m(1)] b0 b1 b2 b3 unfolding inv if_not_P [OF m(2)] by (rule refl)
  qed
qed

section \<open>Round constants backwards\<close>

lemma rcon_prev_mul2:
  assumes "aes_mul2 x \<noteq> 0"
  shows "aes_rcon_prev (aes_mul2 x) l = x"
proof (rule bit_word_eqI)
  fix n
  assume "n < LENGTH(8)"
  then have "n < 8" by simp
  then show "bit (aes_rcon_prev (aes_mul2 x) l) n \<longleftrightarrow> bit x n"
    unfolding aes_rcon_prev_def if_P [OF assms] Let_def bit_or_iff bit_xor_iff bit_push_bit_iff bit_and_iff
      bit_drop_bit_eq bit_1_iff o_apply
    by (drule_tac less_8_cases) (elim disjE; auto simp: possible_bit_word bit_aes_mul2)
qed

lemma mul2_eq_0 [simp]: "aes_mul2 x = 0 \<longleftrightarrow> x = 0"
proof
  assume z: "aes_mul2 x = 0"
  have b: "\<not> bit (aes_mul2 x) n" for n by (simp add: z)
  have "\<not> bit x n" if "n < 8" for n
    using that b [of 0] b [of "Suc n"] by (cases "n = 7") (auto simp: bit_aes_mul2 split: if_splits)
  then show "x = 0" by (simp add: word8_eq_iff)
qed simp

lemma rcon_seq_nonzero: "0 < m \<Longrightarrow> rcon_seq m \<noteq> 0"
  by (induction m) (auto simp: aes_rcon_next_def)

abbreviation aes_nr :: "nat \<Rightarrow> nat" where
  "aes_nr nk \<equiv> nk + 6"

text \<open>The last round constant of the schedule, and the loop variable of the backward walk.\<close>

definition rcon_top :: "nat \<Rightarrow> nat" where
  "rcon_top nk = (4 * aes_nr nk + 3) div nk"

definition rcon_back :: "nat \<Rightarrow> nat \<Rightarrow> u8" where
  "rcon_back nk m = (if m > rcon_top nk then 0 else rcon_seq m)"

lemma rcon_back_le: "m \<le> rcon_top nk \<Longrightarrow> rcon_back nk m = rcon_seq m"
  by (simp add: rcon_back_def)

lemma rcon_tops: "rcon_top 4 = 10" "rcon_top 6 = 8" "rcon_top 8 = 7"
  by (simp_all add: rcon_top_def)

lemma rcon_seq_tops: "rcon_seq 10 = 0x36" "rcon_seq 8 = 0x80" "rcon_seq 7 = 0x40"
  by code_simp+

lemma rcon_prev_back:
  assumes "nk = 4 \<or> nk = 6 \<or> nk = 8" "0 < m" "m \<le> rcon_top nk"
  shows "aes_rcon_prev (rcon_back nk (Suc m)) (4 * nk) = rcon_seq m"
proof (cases "m = rcon_top nk")
  case True
  then have "rcon_back nk (Suc m) = 0" by (simp add: rcon_back_def)
  then show ?thesis
    using assms(1) rcon_seq_tops unfolding True by (auto simp: aes_rcon_prev_def rcon_tops simp del: rcon_seq.simps)
next
  case False
  then have "rcon_back nk (Suc m) = aes_mul2 (rcon_seq m)"
    using assms(3) rcon_seq_nonzero [OF assms(2)] by (simp add: rcon_back_def aes_rcon_next_def)
  then show ?thesis using rcon_prev_mul2 rcon_seq_nonzero [OF assms(2)] by simp
qed

section \<open>One round of key expansion, for every key length\<close>

lemma window_bytes:
  assumes "b + 4 \<le> n"
  shows "map (\<lambda>i. ks_window key nk a n ! (4 * b + i)) [0..<16] = ks_window key nk (a + b) 4"
proof (rule nth_equalityI)
  fix i
  assume "i < length (map (\<lambda>i. ks_window key nk a n ! (4 * b + i)) [0..<16])"
  then have i: "i < 16" by simp
  let ?ws = "\<lambda>a n. map (\<lambda>i. ks_word key nk (a + i)) [0..<n]"
  have w: "all_words (?ws a n)" for a n by (simp add: list_all_iff)
  have "4 * b + i = 4 * (b + i div 4) + i mod 4" "i = 4 * (i div 4) + i mod 4" "i div 4 < 4" "i mod 4 < 4"
    using i by simp_all
  then have "ks_window key nk a n ! (4 * b + i) = ks_word key nk (a + (b + i div 4)) ! (i mod 4)"
    "ks_window key nk (a + b) 4 ! i = ks_word key nk (a + b + i div 4) ! (i mod 4)"
    using of_words_nth [OF w [of a n], of "b + i div 4" "i mod 4"] of_words_nth [OF w [of "a + b" 4], of "i div 4" "i mod 4"] assms
    unfolding ks_window_def by (simp_all add: add.commute)
  then show "map (\<lambda>i. ks_window key nk a n ! (4 * b + i)) [0..<16] ! i = ks_window key nk (a + b) 4 ! i"
    using i by (simp add: add.assoc)
qed simp

definition expand_any :: "nat \<Rightarrow> u8 list \<Rightarrow> u8 \<Rightarrow> nat \<Rightarrow> u8 list \<times> u8" where
  "expand_any nk key rcon rnd =
     (if nk = 4 then aes_key_expand_128 key rcon
      else if nk = 6 then aes_key_expand_192 key rcon rnd
      else aes_key_expand_256 key rcon rnd)"

lemma expand_any_step:
  assumes "nk = 4 \<or> nk = 6 \<or> nk = 8" and "j < aes_nr nk"
  shows "expand_any nk (ks_window key nk (4 * j + 4 - nk) nk) (rcon_seq ((4 * j + 3) div nk)) j =
    (ks_window key nk (4 * Suc j + 4 - nk) nk, rcon_seq ((4 * Suc j + 3) div nk))"
  using assms(1)
proof (elim disjE)
  assume nk: "nk = 4"
  have "(4 * j + 3) div 4 = j" "(4 * Suc j + 3) div 4 = Suc j" by presburger+
  then show ?thesis using expand_128_step [of key j] unfolding expand_any_def nk by (simp add: add.commute del: rcon_seq.simps)
next
  assume nk: "nk = 6"
  show ?thesis
  proof (cases j)
    case 0
    then show ?thesis using expand_192_first [of key] unfolding expand_any_def nk by (simp del: rcon_seq.simps(2))
  next
    case (Suc i)
    have "4 * Suc i + 4 - 6 = 4 * i + 2" "4 * Suc (Suc i) + 4 - 6 = 4 * i + 6"
      "4 * Suc i + 3 = 4 * i + 7" "4 * Suc (Suc i) + 3 = 4 * i + 11" by simp_all
    then show ?thesis
      using expand_192_step [of i key] assms(2) unfolding expand_any_def nk Suc by (simp add: add.commute del: rcon_seq.simps)
  qed
next
  assume nk: "nk = 8"
  show ?thesis
  proof (cases j)
    case 0
    have "aes_key_expand_256 (ks_window key 8 0 8) 0 0 = (ks_window key 8 0 8, 0)"
      using fold_copy [of 0 32 "ks_window key 8 0 8" "ks_window key 8 0 8"] by (simp add: aes_key_expand_256_def Let_def)
    then show ?thesis unfolding expand_any_def nk 0 by simp
  next
    case (Suc i)
    have "4 * Suc i + 4 - 8 = 4 * i" "4 * Suc (Suc i) + 4 - 8 = 4 * i + 4"
      "4 * Suc i + 3 = 4 * i + 7" "4 * Suc (Suc i) + 3 = 4 * i + 11" by simp_all
    then show ?thesis
      using expand_256_step [of key i] unfolding expand_any_def nk Suc by (simp add: add.commute del: rcon_seq.simps)
  qed
qed

lemma key_expand_step:
  assumes nk: "nk = 4 \<or> nk = 6 \<or> nk = 8" and "j < aes_nr nk"
  shows "aes_key_expand (ks_window key nk (4 * j + 4 - nk) nk) (4 * nk) (rcon_seq ((4 * j + 3) div nk)) j =
    (ks_round_key key nk (Suc j), ks_window key nk (4 * Suc j + 4 - nk) nk, rcon_seq ((4 * Suc j + 3) div nk))"
proof -
  have e: "aes_key_expand k (4 * nk) r j =
      (case expand_any nk k r j of (k, r) \<Rightarrow> (map (\<lambda>i. k ! (4 * nk - 16 + i)) [0..<16], k, r))" for k r
    using nk by (auto simp: aes_key_expand_def expand_any_def Let_def)
  have "map (\<lambda>i. ks_window key nk (4 * Suc j + 4 - nk) nk ! (4 * nk - 16 + i)) [0..<16] = ks_round_key key nk (Suc j)"
    if "4 * Suc j + 4 - nk + (nk - 4) = 4 * Suc j"
    using window_bytes [of "nk - 4" nk key nk "4 * Suc j + 4 - nk"] nk that
    by (simp add: ks_round_key_def diff_mult_distrib2)
  moreover have "4 * Suc j + 4 - nk + (nk - 4) = 4 * Suc j" using nk by auto
  ultimately show ?thesis unfolding e expand_any_step [OF assms] prod.case by (simp only:)
qed

definition inv_expand_any :: "nat \<Rightarrow> u8 list \<Rightarrow> u8 \<Rightarrow> nat \<Rightarrow> u8 list \<times> u8" where
  "inv_expand_any nk key rcon rnd =
     (if nk = 4 then aes_inv_key_expand_128 key rcon
      else if nk = 6 then aes_inv_key_expand_192 key rcon rnd
      else aes_inv_key_expand_256 key rcon rnd)"

text \<open>Where the window starts before step \<open>i\<close> of the backward walk, and the constant used last.\<close>

definition back_start :: "nat \<Rightarrow> nat \<Rightarrow> nat" where
  "back_start nk i = (if i = 0 then 4 * aes_nr nk + 4 - nk else 4 * (aes_nr nk - i))"

definition back_rcon :: "nat \<Rightarrow> nat \<Rightarrow> u8" where
  "back_rcon nk i = rcon_back nk ((back_start nk i + 2 * nk - 1) div nk)"

lemma inv_expand_any_step:
  assumes "nk = 4 \<or> nk = 6 \<or> nk = 8" and "i < aes_nr nk"
  shows "inv_expand_any nk (ks_window key nk (back_start nk i) nk) (back_rcon nk i) i =
    (ks_window key nk (back_start nk (Suc i)) nk, back_rcon nk (Suc i))"
  using assms(1)
proof (elim disjE)
  assume nk: "nk = 4"
  define j where "j = 9 - i"
  have j: "i = 9 - j" "j < 10" using assms(2) by (simp_all add: j_def nk)
  have s: "back_start 4 i = 4 * j + 4" "back_start 4 (Suc i) = 4 * j" using j by (auto simp: back_start_def)
  have m: "(4 * j + 4 + 2 * 4 - 1) div 4 = Suc (Suc j)" "(4 * j + 2 * 4 - 1) div 4 = Suc j" by presburger+
  have "aes_rcon_prev (rcon_back 4 (Suc (Suc j))) 16 = rcon_seq (Suc j)"
    using rcon_prev_back [of 4 "Suc j"] j(2) by (simp add: rcon_tops del: rcon_seq.simps)
  from inv_expand_128_step [OF this, of key] show ?thesis
    unfolding nk s inv_expand_any_def back_rcon_def m using j(2)
    by (simp add: rcon_back_le rcon_tops del: rcon_seq.simps)
next
  assume nk: "nk = 6"
  show ?thesis
  proof (cases "i = 0")
    case True
    have s: "back_start 6 0 = 46" "back_start 6 (Suc 0) = 44" by (simp_all add: back_start_def)
    show ?thesis
      unfolding nk True s inv_expand_any_def back_rcon_def
      by (simp add: inv_expand_192_first rcon_back_def rcon_tops)
  next
    case False
    define j where "j = 11 - i"
    have j: "i = 11 - j" "j < 11" using assms(2) False by (simp_all add: j_def nk)
    have s: "back_start 6 i = 4 * j + 4" "back_start 6 (Suc i) = 4 * j" using j False by (auto simp: back_start_def)
    let ?m = "Suc ((4 * j + 2) div 6)"
    have "j = 3 * (j div 3) \<or> j = 3 * (j div 3) + 1 \<or> j = 3 * (j div 3) + 2" by arith
    then obtain t where div3: "j = 3 * t \<or> j = 3 * t + 1 \<or> j = 3 * t + 2" by blast
    have q: "aes_rcon_prev (back_rcon 6 i) 24 = rcon_seq ?m" "back_rcon 6 (Suc i) = rcon_seq ?m" if "j mod 3 \<noteq> 2"
    proof -
      have m: "(4 * j + 4 + 2 * 6 - 1) div 6 = Suc ?m" "(4 * j + 2 * 6 - 1) div 6 = ?m" "?m \<le> 8"
      proof -
        have t: "j = 3 * t \<or> j = 3 * t + 1" using div3 that by presburger
        show "(4 * j + 4 + 2 * 6 - 1) div 6 = Suc ?m" using t by (elim disjE; presburger)
        show "(4 * j + 2 * 6 - 1) div 6 = ?m" using t by (elim disjE; presburger)
        show "?m \<le> 8" using j(2) by presburger
      qed
      show "aes_rcon_prev (back_rcon 6 i) 24 = rcon_seq ?m" "back_rcon 6 (Suc i) = rcon_seq ?m"
        unfolding back_rcon_def s m using rcon_prev_back [of 6 ?m] m(3)
        by (simp_all add: rcon_tops rcon_back_le del: rcon_seq.simps)
    qed
    have q': "back_rcon 6 (Suc i) = back_rcon 6 i" if "j mod 3 = 2"
    proof -
      have "j = 3 * t + 2" using div3 that by presburger
      then have "(4 * j + 2 * 6 - 1) div 6 = (4 * j + 4 + 2 * 6 - 1) div 6" by presburger
      then show ?thesis unfolding back_rcon_def s by (rule arg_cong)
    qed
    show ?thesis
      using inv_expand_192_step [OF j(2) q(1), of key] q(2) q' j(1)
      unfolding nk s inv_expand_any_def by (auto simp del: rcon_seq.simps)
  qed
next
  assume nk: "nk = 8"
  show ?thesis
  proof (cases "i = 0")
    case True
    have s: "back_start 8 0 = 52" "back_start 8 (Suc 0) = 52" by (simp_all add: back_start_def)
    have "aes_inv_key_expand_256 (ks_window key 8 52 8) 0 0 = (ks_window key 8 52 8, 0)"
      using fold_copy_back [of 32 "ks_window key 8 52 8" 0 "ks_window key 8 52 8"]
      by (simp add: aes_inv_key_expand_256_def Let_def)
    then show ?thesis
      unfolding nk True s inv_expand_any_def back_rcon_def by (simp add: rcon_back_def rcon_tops)
  next
    case False
    define j where "j = 13 - i"
    have j: "i = 13 - j" "j < 13" using assms(2) False by (simp_all add: j_def nk)
    have s: "back_start 8 i = 4 * j + 4" "back_start 8 (Suc i) = 4 * j" using j False by (auto simp: back_start_def)
    let ?m = "Suc (j div 2)"
    have "j = 2 * (j div 2) \<or> j = 2 * (j div 2) + 1" by arith
    then obtain t where div2: "j = 2 * t \<or> j = 2 * t + 1" by blast
    have q: "aes_rcon_prev (back_rcon 8 i) 32 = rcon_seq ?m" "back_rcon 8 (Suc i) = rcon_seq ?m" if "j mod 2 = 0"
    proof -
      have m: "(4 * j + 4 + 2 * 8 - 1) div 8 = Suc ?m" "(4 * j + 2 * 8 - 1) div 8 = ?m" "?m \<le> 7"
      proof -
        have t: "j = 2 * t" using div2 that by presburger
        show "(4 * j + 4 + 2 * 8 - 1) div 8 = Suc ?m" using t by presburger
        show "(4 * j + 2 * 8 - 1) div 8 = ?m" using t by presburger
        show "?m \<le> 7" using j(2) by presburger
      qed
      show "aes_rcon_prev (back_rcon 8 i) 32 = rcon_seq ?m" "back_rcon 8 (Suc i) = rcon_seq ?m"
        unfolding back_rcon_def s m using rcon_prev_back [of 8 ?m] m(3)
        by (simp_all add: rcon_tops rcon_back_le del: rcon_seq.simps)
    qed
    have q': "back_rcon 8 (Suc i) = back_rcon 8 i" if "j mod 2 \<noteq> 0"
    proof -
      have "j = 2 * t + 1" using div2 that by presburger
      then have "(4 * j + 2 * 8 - 1) div 8 = (4 * j + 4 + 2 * 8 - 1) div 8" by presburger
      then show ?thesis unfolding back_rcon_def s by (rule arg_cong)
    qed
    show ?thesis
      using inv_expand_256_step [OF j(2) q(1), of key] q(2) q' j(1)
      unfolding nk s inv_expand_any_def by (auto simp del: rcon_seq.simps)
  qed
qed

lemma window_first: "4 \<le> n \<Longrightarrow> map (\<lambda>i. ks_window key nk a n ! i) [0..<16] = ks_window key nk a 4"
  using window_bytes [of 0 n key nk a] by simp

lemma inv_key_expand_step:
  assumes nk: "nk = 4 \<or> nk = 6 \<or> nk = 8" and "i < aes_nr nk"
  shows "aes_inv_key_expand (ks_window key nk (back_start nk i) nk) (4 * nk) (back_rcon nk i) i =
    (ks_round_key key nk (aes_nr nk - Suc i), ks_window key nk (back_start nk (Suc i)) nk, back_rcon nk (Suc i))"
proof -
  have e: "aes_inv_key_expand k (4 * nk) r i =
      (case inv_expand_any nk k r i of (k, r) \<Rightarrow> (map (\<lambda>i. k ! i) [0..<16], k, r))" for k r
    using nk by (auto simp: aes_inv_key_expand_def inv_expand_any_def Let_def)
  have "map (\<lambda>b. ks_window key nk (back_start nk (Suc i)) nk ! b) [0..<16] = ks_round_key key nk (aes_nr nk - Suc i)"
    using nk by (subst window_first) (auto simp: ks_round_key_def back_start_def)
  then show ?thesis unfolding e inv_expand_any_step [OF assms] prod.case by (simp only:)
qed

section \<open>The ciphers of the standard\<close>

primrec cipher_state :: "u8 list \<Rightarrow> nat \<Rightarrow> u8 list \<Rightarrow> nat \<Rightarrow> u8 list" where
  "cipher_state key nk block 0 = aes_add_round_key block (ks_round_key key nk 0)"
| "cipher_state key nk block (Suc j) =
     (let s = aes_shift_rows (aes_sub_bytes (cipher_state key nk block j))
      in aes_add_round_key (if j < aes_nr nk - 1 then aes_mix_columns s else s) (ks_round_key key nk (Suc j)))"

primrec inv_cipher_state :: "u8 list \<Rightarrow> nat \<Rightarrow> u8 list \<Rightarrow> nat \<Rightarrow> u8 list" where
  "inv_cipher_state key nk block 0 = aes_add_round_key block (ks_round_key key nk (aes_nr nk))"
| "inv_cipher_state key nk block (Suc i) =
     (let s = aes_inv_shift_rows (aes_inv_sub_bytes (inv_cipher_state key nk block i));
          k = ks_round_key key nk (aes_nr nk - Suc i)
      in if i < aes_nr nk - 1 then aes_add_round_key (aes_inv_mix_columns s) (aes_inv_mix_columns k)
         else aes_add_round_key s k)"

lemma length_round_key [simp]: "length (ks_round_key key nk j) = 16"
  by (simp add: ks_round_key_def)

lemma length_cipher_state [simp]: "length (cipher_state key nk block j) = 16" "length (inv_cipher_state key nk block j) = 16"
  by (cases j; simp add: Let_def)+

interpretation aes: inverse_cipher "\<lambda>s. length s = 16" "\<lambda>s. aes_shift_rows (aes_sub_bytes s)"
    "\<lambda>s. aes_inv_shift_rows (aes_inv_sub_bytes s)" aes_mix_columns aes_inv_mix_columns aes_add_round_key
  by unfold_locales
    (simp_all add: shift_rows_sub_bytes shift_rows_inverse sub_bytes_inverse mix_columns_inverse inv_mix_columns_add
      add_round_key_cancel)

lemma inv_cipher_cipher:
  assumes "length block = 16"
  shows "inv_cipher_state key nk (cipher_state key nk block (aes_nr nk)) (aes_nr nk) = block"
  by (rule aes.rounds_undone [where rk = "ks_round_key key nk" and s = "cipher_state key nk block"
        and t = "inv_cipher_state key nk (cipher_state key nk block (aes_nr nk))"])
    (simp_all add: assms Let_def)

section \<open>The block functions\<close>

lemma get_num_rounds: "nk = 4 \<or> nk = 6 \<or> nk = 8 \<Longrightarrow> aes_get_num_rounds (int (4 * nk)) = int (aes_nr nk)"
  by (auto simp: aes_get_num_rounds_def Let_def)

lemma window_0:
  assumes "length key = 4 * nk"
  shows "map (\<lambda>i. key ! i) [0..<4 * nk] = ks_window key nk 0 nk"
proof -
  obtain ws where ws: "key = of_words ws" "length ws = nk" "all_words ws" using key_words [OF assms] by blast
  have "ks_word key nk i = ws ! i" if "i < nk" for i
    using that ws by (subst ks_word.simps) (simp add: word_at_of_words)
  then have "ks_window key nk 0 nk = of_words (map ((!) ws) [0..<nk])"
    unfolding ks_window_def by (intro arg_cong [of _ _ of_words] map_cong) auto
  also have "map ((!) ws) [0..<nk] = ws" using ws(2) map_nth [of ws] by simp
  finally show ?thesis using ws(1) assms map_nth [of key] by simp
qed

lemma first_round_key:
  assumes "4 \<le> nk"
  shows "map (\<lambda>i. ks_window key nk 0 nk ! i) [0..<16] = ks_round_key key nk 0"
  using window_bytes [of 0 nk key nk 0] assms by (simp add: ks_round_key_def)

lemma encrypt_rounds:
  assumes nk: "nk = 4 \<or> nk = 6 \<or> nk = 8" and "j \<le> aes_nr nk"
  shows "fold (aes_encrypt_round (4 * nk) (aes_nr nk)) [0..<j]
      (aes_add_round_key block (ks_round_key key nk 0), ks_round_key key nk 0, ks_window key nk 0 nk, 0) =
    (cipher_state key nk block j, ks_round_key key nk j, ks_window key nk (4 * j + 4 - nk) nk, rcon_seq ((4 * j + 3) div nk))"
  using assms(2)
proof (induction j)
  case 0
  then show ?case using nk by auto
next
  case (Suc j)
  then show ?case
    using key_expand_step [OF nk, of j key] by (simp add: aes_encrypt_round_def Let_def del: mult_Suc_right rcon_seq.simps)
qed

lemma expand_rounds:
  assumes nk: "nk = 4 \<or> nk = 6 \<or> nk = 8" and "j \<le> aes_nr nk"
  shows "fold (\<lambda>j (_, full_key, rcon). aes_key_expand full_key (4 * nk) rcon j) [0..<j]
      (ks_round_key key nk 0, ks_window key nk 0 nk, 0) =
    (ks_round_key key nk j, ks_window key nk (4 * j + 4 - nk) nk, rcon_seq ((4 * j + 3) div nk))"
  using assms(2)
proof (induction j)
  case 0
  then show ?case using nk by auto
next
  case (Suc j)
  then show ?case using key_expand_step [OF nk, of j key] by (simp del: mult_Suc_right rcon_seq.simps)
qed

lemma decrypt_rounds:
  assumes nk: "nk = 4 \<or> nk = 6 \<or> nk = 8" and "i \<le> aes_nr nk"
  shows "\<exists>rk. fold (aes_decrypt_round (4 * nk) (aes_nr nk)) [0..<i]
      (aes_add_round_key block (ks_round_key key nk (aes_nr nk)), rk0, ks_window key nk (back_start nk 0) nk, back_rcon nk 0) =
    (inv_cipher_state key nk block i, rk, ks_window key nk (back_start nk i) nk, back_rcon nk i)"
  using assms(2)
proof (induction i)
  case 0
  then show ?case by simp
next
  case (Suc i)
  then show ?case
    using inv_key_expand_step [OF nk, of i key] by (auto simp: aes_decrypt_round_def Let_def)
qed

lemma back_rcon_0: "nk = 4 \<or> nk = 6 \<or> nk = 8 \<Longrightarrow> back_rcon nk 0 = 0"
  by (auto simp: back_rcon_def rcon_back_def back_start_def rcon_tops)

lemma map_nth_16: "length s = 16 \<Longrightarrow> map (\<lambda>i. s ! i) [0..<16] = s"
  using map_nth [of s] by simp

lemma encrypt_block_cipher:
  assumes nk: "nk = 4 \<or> nk = 6 \<or> nk = 8" and "length key = 4 * nk" "length block = 16"
  shows "aes_encrypt_block True block key (int (4 * nk)) out = (0, cipher_state key nk block (aes_nr nk))"
proof -
  have "4 \<le> nk" using nk by auto
  note first = first_round_key [OF this, of key]
  have ok: "\<not> int (aes_nr nk) < 0" "\<not> \<not> True" by simp_all
  show ?thesis
    unfolding aes_encrypt_block_def get_num_rounds [OF nk] Let_def nat_int window_0 [OF assms(2)] map_nth_16 [OF assms(3)]
      first if_not_P [OF ok(1)] if_not_P [OF ok(2)] encrypt_rounds [OF nk order_refl] prod.case
      map_nth_16 [OF length_cipher_state(1)]
    by (rule refl)
qed

lemma decrypt_block_inv_cipher:
  assumes nk: "nk = 4 \<or> nk = 6 \<or> nk = 8" and "length key = 4 * nk" "length block = 16"
  shows "aes_decrypt_block True block key (int (4 * nk)) out = (0, inv_cipher_state key nk block (aes_nr nk))"
proof -
  have "4 \<le> nk" using nk by auto
  note first = first_round_key [OF this, of key]
  have ok: "\<not> int (aes_nr nk) < 0" "\<not> \<not> True" by simp_all
  have start: "4 * aes_nr nk + 4 - nk = back_start nk 0" by (simp add: back_start_def)
  obtain rk where d: "fold (aes_decrypt_round (4 * nk) (aes_nr nk)) [0..<aes_nr nk]
      (aes_add_round_key block (ks_round_key key nk (aes_nr nk)), ks_round_key key nk (aes_nr nk), ks_window key nk (back_start nk 0) nk, 0) =
    (inv_cipher_state key nk block (aes_nr nk), rk, ks_window key nk (back_start nk (aes_nr nk)) nk, back_rcon nk (aes_nr nk))"
    using decrypt_rounds [OF nk order_refl, of block key "ks_round_key key nk (aes_nr nk)"] back_rcon_0 [OF nk] by auto
  show ?thesis
    unfolding aes_decrypt_block_def get_num_rounds [OF nk] Let_def nat_int window_0 [OF assms(2)] map_nth_16 [OF assms(3)]
      first if_not_P [OF ok(1)] if_not_P [OF ok(2)] expand_rounds [OF nk order_refl] prod.case start d
      map_nth_16 [OF length_cipher_state(2)]
    by (rule refl)
qed

lemma block_roundtrip:
  assumes "length key \<in> {16, 24, 32}" "length block = 16"
    and "aes_encrypt_block True block key (int (length key)) out = (r, cipher)"
  shows "r = 0 \<and> length cipher = 16 \<and> aes_decrypt_block True cipher key (int (length key)) out' = (0, block)"
proof -
  obtain nk where nk: "nk = 4 \<or> nk = 6 \<or> nk = 8" and k: "length key = 4 * nk"
    using assms(1) that [of 4] that [of 6] that [of 8] by auto
  have "r = 0" "cipher = cipher_state key nk block (aes_nr nk)"
    using assms(3) encrypt_block_cipher [OF nk k assms(2)] unfolding k by simp_all
  then show ?thesis
    using decrypt_block_inv_cipher [OF nk k, of cipher] inv_cipher_cipher [OF assms(2)] unfolding k by simp
qed

section \<open>Properties\<close>

text \<open>
  C4. Decryption undoes encryption: for a block of 16 bytes and a key of 16, 24 or 32 bytes both functions of the
  model return 0, and \<open>aes_decrypt_block\<close> (the equivalent inverse cipher with its own backward key expansion)
  applied to the output of \<open>aes_encrypt_block\<close> is the block.
\<close>

theorem aes_block_roundtrip:
  assumes "length key \<in> {16, 24, 32}" "length block = 16"
    and "aes_encrypt_block True block key (int (length key)) out = (r, cipher)"
  shows "r = 0 \<and> length cipher = 16 \<and> aes_decrypt_block True cipher key (int (length key)) out' = (0, block)"
  using block_roundtrip [OF assms] .

theorem aes_block_roundtrip_witness:
  "\<exists>cipher. aes_encrypt_block True (replicate 16 7) (replicate 24 0x2b) 24 [] = (0, cipher)
    \<and> aes_decrypt_block True cipher (replicate 24 0x2b) 24 [] = (0, replicate 16 7)"
proof -
  obtain r cipher where run: "aes_encrypt_block True (replicate 16 7) (replicate 24 0x2b) 24 [] = (r, cipher)"
    by (metis prod.collapse)
  then have run': "aes_encrypt_block True (replicate 16 7) (replicate 24 0x2b) (int (length (replicate 24 (0x2b :: u8)))) [] = (r, cipher)"
    by simp
  from aes_block_roundtrip [OF _ _ run', of "[]"] run show ?thesis by simp
qed



end
