(* ===== verification/AesSession.thy ===== *)
theory AesSession
  imports DifAes AesCipher
begin

text \<open>
  The AES driver together with the AES reference model. The unit is a device of which the documentation
  (\<open>hw/ip/aes/doc\<close>) is assumed, as the predicate \<open>computes_aes\<close>: configured while idle, in ECB mode with
  automatic start, it computes the cipher of the reference model on the data that were written while
  it was ready and had no unread output. A block that the driver loads and reads back is then
  the output of the reference model, under the key whose two shares were given; and a second session
  that decrypts, with any other shares of the same key, gives the first block back.
\<close>

unbundle bit_operations_syntax

section \<open>Histories of the unit\<close>

definition aes_addr :: "dif_aes \<Rightarrow> u32 \<Rightarrow> nat \<Rightarrow> u32" where
  "aes_addr aes off i = mmio_addr32 (aes_base aes) (off + of_nat i * 4)"

definition multireg_events :: "dif_aes \<Rightarrow> u32 \<Rightarrow> u32 list \<Rightarrow> nat \<Rightarrow> bus_event list" where
  "multireg_events aes off ws n = rev (map (\<lambda>i. Wr32 (aes_addr aes off i) (ws ! i)) [0..<n])"

definition config_events :: "dif_aes \<Rightarrow> u32 \<Rightarrow> u32 list \<Rightarrow> u32 list \<Rightarrow> bus_event list" where
  "config_events aes ctrl k0 k1 =
     multireg_events aes AES_KEY_SHARE1_0_REG_OFFSET k1 8 @ multireg_events aes AES_KEY_SHARE0_0_REG_OFFSET k0 8
       @ [Wr32 (mmio_addr32 (aes_base aes) AES_CTRL_SHADOWED_REG_OFFSET) ctrl,
          Wr32 (mmio_addr32 (aes_base aes) AES_CTRL_SHADOWED_REG_OFFSET) ctrl]"

abbreviation data_events :: "dif_aes \<Rightarrow> u32 list \<Rightarrow> bus_event list" where
  "data_events aes ws \<equiv> multireg_events aes AES_DATA_IN_0_REG_OFFSET ws 4"

text \<open>Loads only; and loads and stores of data only, as while the blocks of a message are processed.\<close>

definition loads :: "bus_event list \<Rightarrow> bool" where
  "loads t \<longleftrightarrow> (\<forall>e \<in> set t. \<exists>a v. e = Rd32 a v)"

definition data_traffic :: "dif_aes \<Rightarrow> bus_event list \<Rightarrow> bool" where
  "data_traffic aes t \<longleftrightarrow>
     (\<forall>e \<in> set t. (\<exists>a v. e = Rd32 a v) \<or> (\<exists>i < 4. \<exists>v. e = Wr32 (aes_addr aes AES_DATA_IN_0_REG_OFFSET i) v))"

definition aes_status_at :: "dif_aes \<Rightarrow> world \<Rightarrow> bus_event list \<Rightarrow> u32 \<Rightarrow> bool" where
  "aes_status_at aes w h n = bit (dev32 w h (mmio_addr32 (aes_base aes) AES_STATUS_REG_OFFSET)) (unat n)"

text \<open>The history after a load of the status register.\<close>

definition status_read :: "dif_aes \<Rightarrow> world \<Rightarrow> bus_event list \<Rightarrow> bus_event list" where
  "status_read aes w h =
     (let a = mmio_addr32 (aes_base aes) AES_STATUS_REG_OFFSET in Rd32 a (dev32 w h a) # h)"

section \<open>What the unit computes\<close>

text \<open>The key of a control word, in words; an invalid length counts as 256 bits. The key is the XOR of its shares.\<close>

definition ctrl_key_words :: "u32 \<Rightarrow> nat" where
  "ctrl_key_words ctrl =
     (let c = bitfield_field32_read ctrl AES_CTRL_SHADOWED_KEY_LEN_FIELD
      in if c = 1 then 4 else if c = 2 then 6 else 8)"

definition shared_key :: "u32 list \<Rightarrow> u32 list \<Rightarrow> nat \<Rightarrow> u8 list" where
  "shared_key k0 k1 n = take (4 * n) (bytes_of_words (map2 (XOR) k0 k1))"

definition aes_block :: "bool \<Rightarrow> u8 list \<Rightarrow> u32 list \<Rightarrow> u32 list" where
  "aes_block decrypt key ws =
     words_of_bytes (snd ((if decrypt then aes_decrypt_block else aes_encrypt_block)
       True (bytes_of_words ws) key (int (length key)) [])) 4"

definition computes_aes :: "dif_aes \<Rightarrow> world \<Rightarrow> bool" where
  "computes_aes aes w \<longleftrightarrow>
     (\<forall>hc ctrl k0 k1 h0 t0 ws t t' i.
        length k0 = 8 \<and> length k1 = 8 \<and> length ws = 4 \<and> i < 4
        \<and> aes_status_at aes w hc AES_STATUS_IDLE_BIT
        \<and> bitfield_field32_read ctrl AES_CTRL_SHADOWED_MODE_FIELD = aes_mode_code kAesModeFieldValEcb
        \<and> \<not> bit ctrl (unat AES_CTRL_SHADOWED_MANUAL_OPERATION_BIT)
        \<and> data_traffic aes t0 \<and> h0 = t0 @ config_events aes ctrl k0 k1 @ status_read aes w hc
        \<and> aes_status_at aes w h0 AES_STATUS_INPUT_READY_BIT \<and> \<not> aes_status_at aes w h0 AES_STATUS_OUTPUT_VALID_BIT
        \<and> loads t \<and> aes_status_at aes w (t @ data_events aes ws @ status_read aes w h0) AES_STATUS_OUTPUT_VALID_BIT
        \<and> loads t'
      \<longrightarrow> dev32 w (t' @ t @ data_events aes ws @ status_read aes w h0) (aes_addr aes AES_DATA_OUT_0_REG_OFFSET i)
          = aes_block (bit ctrl (unat AES_CTRL_SHADOWED_OPERATION_BIT)) (shared_key k0 k1 (ctrl_key_words ctrl)) ws ! i)"

section \<open>What the driver puts on the bus\<close>

lemma run_multireg:
  "run_state (aes_set_multireg aes ws n off) w = ((), w\<lparr>trace := multireg_events aes off ws n @ trace w\<rparr>)"
proof -
  have "run_state (for_each is (\<lambda>i. mmio_region_write32 (aes_base aes) (off + of_nat i * 4) (ws ! i))) w =
      ((), w\<lparr>trace := rev (map (\<lambda>i. Wr32 (aes_addr aes off i) (ws ! i)) is) @ trace w\<rparr>)" for "is"
    by (induction "is" arbitrary: w) (simp_all add: io_simps aes_addr_def)
  then show ?thesis by (simp add: aes_set_multireg_def multireg_events_def)
qed

lemma status_dev [simp]:
  "aes_status_at aes (w\<lparr>trace := h'\<rparr>) h n = aes_status_at aes w h n"
  "status_read aes (w\<lparr>trace := h'\<rparr>) h = status_read aes w h"
  by (simp_all add: aes_status_at_def status_read_def)

lemma status_same_dev:
  "dev32 w' = dev32 w \<Longrightarrow> aes_status_at aes w' h n = aes_status_at aes w h n \<and> status_read aes w' h = status_read aes w h"
  by (simp add: aes_status_at_def status_read_def)

lemma ctrl_word_fields:
  assumes "key_to_field (aes_key_len tr) \<noteq> kAesKeyFieldValInvalid"
  defines "ctrl \<equiv> aes_ctrl_word tr (key_to_field (aes_key_len tr)) kAesModeFieldValEcb"
  shows "bitfield_field32_read ctrl AES_CTRL_SHADOWED_MODE_FIELD = aes_mode_code kAesModeFieldValEcb"
    "bit ctrl (unat AES_CTRL_SHADOWED_MANUAL_OPERATION_BIT) \<longleftrightarrow> aes_operation tr = kDifAesOperationManual"
    "bit ctrl (unat AES_CTRL_SHADOWED_OPERATION_BIT) \<longleftrightarrow> aes_mode tr = kDifAesModeDecrypt"
    "ctrl_key_words ctrl = (case aes_key_len tr of kDifAesKey128 \<Rightarrow> 4 | kDifAesKey192 \<Rightarrow> 6 | _ \<Rightarrow> 8)"
proof -
  have ok: "field_ok AES_CTRL_SHADOWED_MODE_FIELD" "field_ok AES_CTRL_SHADOWED_KEY_LEN_FIELD"
    "field_bits AES_CTRL_SHADOWED_KEY_LEN_FIELD AND field_bits AES_CTRL_SHADOWED_MODE_FIELD = 0"
    by (simp_all add: field_ok_def field_bits_def)
  have out: "\<not> bit (field_bits AES_CTRL_SHADOWED_MODE_FIELD) n \<and> \<not> bit (field_bits AES_CTRL_SHADOWED_KEY_LEN_FIELD) n"
    if "n \<in> {0, 10, 11}" for n
    using that by (auto simp: field_bits_def bit_simps)
  show "bitfield_field32_read ctrl AES_CTRL_SHADOWED_MODE_FIELD = aes_mode_code kAesModeFieldValEcb"
    unfolding ctrl_def aes_ctrl_word_def Let_def
    by (simp add: field32_read_bit_write out field32_read_write_same ok)
  show "bit ctrl (unat AES_CTRL_SHADOWED_MANUAL_OPERATION_BIT) \<longleftrightarrow> aes_operation tr = kDifAesOperationManual"
    "bit ctrl (unat AES_CTRL_SHADOWED_OPERATION_BIT) \<longleftrightarrow> aes_mode tr = kDifAesModeDecrypt"
    unfolding ctrl_def aes_ctrl_word_def Let_def by (simp_all add: bit_bit32_write)
  have "bitfield_field32_read ctrl AES_CTRL_SHADOWED_KEY_LEN_FIELD = aes_key_code (key_to_field (aes_key_len tr)) AND 7"
    unfolding ctrl_def aes_ctrl_word_def Let_def
    by (simp add: field32_read_bit_write out field32_read_write_same field32_read_write_other ok)
  then show "ctrl_key_words ctrl = (case aes_key_len tr of kDifAesKey128 \<Rightarrow> 4 | kDifAesKey192 \<Rightarrow> 6 | _ \<Rightarrow> 8)"
    using assms(1) by (cases "aes_key_len tr") (simp_all add: ctrl_key_words_def)
qed

section \<open>A block through the driver\<close>

lemma start_ecb_ok:
  assumes "run_state (dif_aes_start_ecb (Some aes) (Some tr) key) w = (kDifAesStartOk, w1)"
  shows "key_to_field (aes_key_len tr) \<noteq> kAesKeyFieldValInvalid" "aes_status_at aes w (trace w) AES_STATUS_IDLE_BIT"
    "w1 = w\<lparr>trace := config_events aes (aes_ctrl_word tr (key_to_field (aes_key_len tr)) kAesModeFieldValEcb)
        (share0 key) (share1 key) @ status_read aes w (trace w)\<rparr>"
  using assms
  by (auto simp: dif_aes_start_ecb_def aes_idle_def aes_configure_def aes_shadowed_write_def io_simps run_multireg
      config_events_def Let_def status_read_def aes_status_at_def cur32_def split: if_splits)

lemma load_data_ok:
  assumes "run_state (dif_aes_load_data (Some aes) d) w = (kDifAesLoadDataOk, w1)"
  shows "aes_status_at aes w (trace w) AES_STATUS_INPUT_READY_BIT"
    "w1 = w\<lparr>trace := data_events aes (aes_data d) @ status_read aes w (trace w)\<rparr>"
  using assms
  by (auto simp: dif_aes_load_data_def aes_input_ready_def io_simps run_multireg status_read_def
      aes_status_at_def cur32_def Let_def split: if_splits)

lemma read_output_ok:
  assumes "run_state (dif_aes_read_output (Some aes) (Some d)) w = ((kDifAesReadOutputOk, out), w1)" "length (aes_data d) = 4"
  shows "aes_status_at aes w (trace w) AES_STATUS_OUTPUT_VALID_BIT"
    "\<exists>r. out = Some r \<and> length (aes_data r) = 4 \<and> (\<forall>i < 4. \<exists>t'. loads t' \<and>
       aes_data r ! i = dev32 w (t' @ trace w) (aes_addr aes AES_DATA_OUT_0_REG_OFFSET i))"
proof -
  let ?adr = "aes_addr aes AES_DATA_OUT_0_REG_OFFSET"
  define rd where "rd h i = Rd32 (?adr i) (dev32 w (h @ trace w) (?adr i)) # h" for h i
  have loop: "run_state (aes_read_loop aes is xs) (w\<lparr>trace := h @ trace w\<rparr>) =
      (case fold (\<lambda>i (xs, h). (xs[i := dev32 w (h @ trace w) (?adr i)], rd h i)) is (xs, h) of
        (xs, h) \<Rightarrow> (xs, w\<lparr>trace := h @ trace w\<rparr>))" for "is" xs h
  proof (induction "is" arbitrary: xs h)
    case (Cons i "is")
    show ?case using Cons [of "xs[i := dev32 w (h @ trace w) (?adr i)]" "rd h i"]
      by (simp add: io_simps cur32_def aes_addr_def rd_def)
  qed simp
  define a where "a = mmio_addr32 (aes_base aes) AES_STATUS_REG_OFFSET"
  have four: "[0..<4] = [0, 1, 2, 3 :: nat]" by (simp add: upt_conv_Cons)
  define h where "h = [Rd32 a (dev32 w (trace w) a)]"
  have h: "loads h" "loads (rd h 0)" "loads (rd (rd h 0) 1)" "loads (rd (rd (rd h 0) 1) 2)"
    by (auto simp: h_def rd_def loads_def)
  show "aes_status_at aes w (trace w) AES_STATUS_OUTPUT_VALID_BIT"
    using assms(1) by (auto simp: dif_aes_read_output_def aes_output_valid_def io_simps aes_status_at_def cur32_def split: if_splits)
  then have "run_state (dif_aes_read_output (Some aes) (Some d)) w =
      (case run_state (aes_read_loop aes [0..<4] (aes_data d)) (w\<lparr>trace := h @ trace w\<rparr>) of
        (ws, w') \<Rightarrow> ((kDifAesReadOutputOk, Some (d\<lparr>aes_data := ws\<rparr>)), w'))"
    by (simp add: dif_aes_read_output_def aes_output_valid_def io_simps aes_status_at_def cur32_def h_def a_def
        case_prod_unfold del: upt_rec_numeral)
  then have out: "out = Some (d\<lparr>aes_data := (aes_data d)
      [0 := dev32 w (h @ trace w) (?adr 0), 1 := dev32 w (rd h 0 @ trace w) (?adr 1),
       2 := dev32 w (rd (rd h 0) 1 @ trace w) (?adr 2), 3 := dev32 w (rd (rd (rd h 0) 1) 2 @ trace w) (?adr 3)]\<rparr>)"
    using assms(1) unfolding loop four by simp
  have "\<exists>t'. loads t' \<and> aes_data (the out) ! i = dev32 w (t' @ trace w) (?adr i)" if "i < 4" for i
    using less_4_cases [OF that] h assms(2) unfolding out by auto
  then show "\<exists>r. out = Some r \<and> length (aes_data r) = 4 \<and> (\<forall>i < 4. \<exists>t'. loads t' \<and>
       aes_data r ! i = dev32 w (t' @ trace w) (?adr i))"
    using assms(2) unfolding out by simp
qed


text \<open>
  What is decrypted after it was encrypted under the same key, in whatever shares the key was given each time,
  is the block.
\<close>

lemma aes_block_undone:
  assumes "length key \<in> {16, 24, 32}" "length ws = 4"
  shows "aes_block True key (aes_block False key ws) = ws"
proof -
  obtain r c where run: "aes_encrypt_block True (bytes_of_words ws) key (int (length key)) [] = (r, c)"
    by (metis prod.collapse)
  have c: "length c = 16" "aes_decrypt_block True c key (int (length key)) [] = (0, bytes_of_words ws)"
    using block_roundtrip [OF assms(1) _ run, of "[]"] assms(2) by simp_all
  have "bytes_of_words (words_of_bytes c 4) = c" using c(1) by (intro bytes_of_words_of_bytes) simp
  then show ?thesis using c(2) run assms(2) words_of_bytes_of_words [of ws] by (simp add: aes_block_def)
qed

section \<open>A unit that does so\<close>

text \<open>
  The documented behaviour can hold: a unit that is always idle and ready, answers at once from the
  last words written to its registers, and has unread output from the last word of the data until the last word
  of the output is read.
\<close>

fun unread_output :: "dif_aes \<Rightarrow> bus_event list \<Rightarrow> bool" where
  "unread_output aes [] \<longleftrightarrow> False"
| "unread_output aes (Wr32 a _ # h) \<longleftrightarrow> a = aes_addr aes AES_DATA_IN_0_REG_OFFSET 3"
| "unread_output aes (Rd32 a _ # h) \<longleftrightarrow> a \<noteq> aes_addr aes AES_DATA_OUT_0_REG_OFFSET 3 \<and> unread_output aes h"
| "unread_output aes (_ # h) \<longleftrightarrow> unread_output aes h"

definition written :: "dif_aes \<Rightarrow> bus_event list \<Rightarrow> u32 \<Rightarrow> nat \<Rightarrow> u32 list" where
  "written aes h off n = map (\<lambda>i. reg_file (\<lambda>_. 0) h (aes_addr aes off i)) [0..<n]"

definition prompt_unit :: "dif_aes \<Rightarrow> bus_event list \<Rightarrow> u32 \<Rightarrow> u32" where
  "prompt_unit aes h a =
     (if a = mmio_addr32 (aes_base aes) AES_STATUS_REG_OFFSET then if unread_output aes h then 0x19 else 0x11
      else
        (case find (\<lambda>i. a = aes_addr aes AES_DATA_OUT_0_REG_OFFSET i) [0..<4] of None \<Rightarrow> 0
         | Some i \<Rightarrow>
           (let ctrl = reg_file (\<lambda>_. 0) h (mmio_addr32 (aes_base aes) AES_CTRL_SHADOWED_REG_OFFSET) in
            aes_block (bit ctrl 0)
              (shared_key (written aes h AES_KEY_SHARE0_0_REG_OFFSET 8) (written aes h AES_KEY_SHARE1_0_REG_OFFSET 8) (ctrl_key_words ctrl))
              (written aes h AES_DATA_IN_0_REG_OFFSET 4) ! i)))"

text \<open>The registers of the unit are at distinct addresses.\<close>

lemma aes_addr_reg:
  "aes_addr aes AES_KEY_SHARE0_0_REG_OFFSET i = reg_addr (aes_base aes) (1 + i)"
  "aes_addr aes AES_KEY_SHARE1_0_REG_OFFSET i = reg_addr (aes_base aes) (9 + i)"
  "aes_addr aes AES_DATA_IN_0_REG_OFFSET i = reg_addr (aes_base aes) (21 + i)"
  "aes_addr aes AES_DATA_OUT_0_REG_OFFSET i = reg_addr (aes_base aes) (25 + i)"
  "mmio_addr32 (aes_base aes) AES_CTRL_SHADOWED_REG_OFFSET = reg_addr (aes_base aes) 29"
  "mmio_addr32 (aes_base aes) AES_STATUS_REG_OFFSET = reg_addr (aes_base aes) 31"
  unfolding aes_addr_def by (rule mmio_addr32_reg_addr; simp add: algebra_simps)+

lemma reg_file_loads: "loads t \<Longrightarrow> reg_file init (t @ h) a = reg_file init h a"
  by (induction t) (auto simp: loads_def)

lemma reg_file_traffic:
  assumes "data_traffic aes t" "\<And>i. i < 4 \<Longrightarrow> a \<noteq> aes_addr aes AES_DATA_IN_0_REG_OFFSET i"
  shows "reg_file init (t @ h) a = reg_file init h a"
  using assms by (induction t) (auto simp: data_traffic_def)

lemma reg_file_multireg:
  assumes "\<And>i. aes_addr aes off i = reg_addr (aes_base aes) (k + i)" "k + n < 1073741824" "m < 1073741824"
  shows "reg_file init (multireg_events aes off ws n @ h) (reg_addr (aes_base aes) m) =
    (if k \<le> m \<and> m < k + n then ws ! (m - k) else reg_file init h (reg_addr (aes_base aes) m))"
proof -
  have "reg_file init (rev (map (\<lambda>i. Wr32 (aes_addr aes off i) (ws ! i)) [0..<j]) @ h) (reg_addr (aes_base aes) m) =
      (if k \<le> m \<and> m < k + j then ws ! (m - k) else reg_file init h (reg_addr (aes_base aes) m))" if "j \<le> n" for j
    using that
  proof (induction j)
    case (Suc j)
    have "reg_addr (aes_base aes) m = reg_addr (aes_base aes) (k + j) \<longleftrightarrow> m = k + j"
      using Suc.prems assms(2,3) by (intro reg_addr_inject) simp_all
    then show ?case using Suc by (auto simp: assms(1) less_Suc_eq)
  qed auto
  then show ?thesis by (simp add: multireg_events_def)
qed

lemma written_events:
  fixes w ctrl hc
  assumes "loads t" "loads t'" "data_traffic aes t0" "length ws = 4" "length k0 = 8" "length k1 = 8"
  defines "h \<equiv> t' @ t @ data_events aes ws @ status_read aes w (t0 @ config_events aes ctrl k0 k1 @ hc)"
  shows "written aes h AES_DATA_IN_0_REG_OFFSET 4 = ws"
    "written aes h AES_KEY_SHARE0_0_REG_OFFSET 8 = k0" "written aes h AES_KEY_SHARE1_0_REG_OFFSET 8 = k1"
    "reg_file (\<lambda>_. 0) h (reg_addr (aes_base aes) 29) = ctrl"
proof -
  have data: "reg_file init h (reg_addr (aes_base aes) m) =
      (if 21 \<le> m \<and> m < 25 then ws ! (m - 21) else reg_file init (config_events aes ctrl k0 k1 @ hc) (reg_addr (aes_base aes) m))"
    if "m < 32" for m init
  proof -
    have "reg_file init (t0 @ config_events aes ctrl k0 k1 @ hc) (reg_addr (aes_base aes) m)
        = reg_file init (config_events aes ctrl k0 k1 @ hc) (reg_addr (aes_base aes) m)" if "\<not> (21 \<le> m \<and> m < 25)"
      using that \<open>m < 32\<close>
      by (intro reg_file_traffic [OF assms(3)]) (auto simp: aes_addr_reg reg_addr_inject)
    then show ?thesis
      using that by (simp add: h_def reg_file_loads [OF assms(1)] reg_file_loads [OF assms(2)] status_read_def Let_def
          reg_file_multireg [OF aes_addr_reg(3)])
  qed
  have config: "reg_file init (config_events aes ctrl k0 k1 @ hc) (reg_addr (aes_base aes) m) =
      (if 9 \<le> m \<and> m < 17 then k1 ! (m - 9) else if 1 \<le> m \<and> m < 9 then k0 ! (m - 1)
       else if m = 29 then ctrl else reg_file init hc (reg_addr (aes_base aes) m))" if "m < 32" for m init
    using that by (simp add: config_events_def reg_file_multireg [OF aes_addr_reg(2)] reg_file_multireg [OF aes_addr_reg(1)]
        aes_addr_reg reg_addr_inject)
  show "written aes h AES_DATA_IN_0_REG_OFFSET 4 = ws"
    by (rule nth_equalityI) (simp_all add: written_def aes_addr_reg data assms(4) del: upt_rec_numeral)
  show "written aes h AES_KEY_SHARE0_0_REG_OFFSET 8 = k0"
    by (rule nth_equalityI) (simp_all add: written_def aes_addr_reg data config assms(5) del: upt_rec_numeral)
  show "written aes h AES_KEY_SHARE1_0_REG_OFFSET 8 = k1"
    by (rule nth_equalityI) (simp_all add: written_def aes_addr_reg data config assms(6) del: upt_rec_numeral)
  show "reg_file (\<lambda>_. 0) h (reg_addr (aes_base aes) 29) = ctrl" by (simp add: data config)
qed

lemma prompt_unit_output:
  assumes "i < 4"
  shows "prompt_unit aes h (aes_addr aes AES_DATA_OUT_0_REG_OFFSET i) =
    (let ctrl = reg_file (\<lambda>_. 0) h (reg_addr (aes_base aes) 29) in
     aes_block (bit ctrl 0)
       (shared_key (written aes h AES_KEY_SHARE0_0_REG_OFFSET 8) (written aes h AES_KEY_SHARE1_0_REG_OFFSET 8) (ctrl_key_words ctrl))
       (written aes h AES_DATA_IN_0_REG_OFFSET 4) ! i)"
proof -
  have "find (\<lambda>j. aes_addr aes AES_DATA_OUT_0_REG_OFFSET i = aes_addr aes AES_DATA_OUT_0_REG_OFFSET j) [0..<4] = Some i"
    using less_4_cases [OF assms] by (auto simp: aes_addr_reg reg_addr_inject upt_conv_Cons)
  moreover have "aes_addr aes AES_DATA_OUT_0_REG_OFFSET i \<noteq> mmio_addr32 (aes_base aes) AES_STATUS_REG_OFFSET"
    using assms by (simp add: aes_addr_reg reg_addr_inject)
  ultimately show ?thesis by (simp add: prompt_unit_def aes_addr_reg(5) Let_def)
qed

lemma prompt_unit_computes: "computes_aes aes \<lparr>dev32 = prompt_unit aes, dev8 = d8, trace = h\<rparr>"
  unfolding computes_aes_def
proof (intro allI impI, elim conjE)
  let ?w = "\<lparr>dev32 = prompt_unit aes, dev8 = d8, trace = h\<rparr>"
  fix hc h0 t0 t t' :: "bus_event list" and ctrl :: u32 and k0 k1 ws :: "u32 list" and i :: nat
  assume len: "length k0 = 8" "length k1 = 8" "length ws = 4" and i: "i < (4 :: nat)"
    and quiet: "data_traffic aes t0" "loads t" "loads t'"
    and h0: "h0 = t0 @ config_events aes ctrl k0 k1 @ status_read aes ?w hc"
  note regs = written_events [OF quiet(2,3,1) len(3,1,2), of ?w ctrl "status_read aes ?w hc", folded h0]
  show "dev32 ?w (t' @ t @ data_events aes ws @ status_read aes ?w h0) (aes_addr aes AES_DATA_OUT_0_REG_OFFSET i)
      = aes_block (bit ctrl (unat AES_CTRL_SHADOWED_OPERATION_BIT)) (shared_key k0 k1 (ctrl_key_words ctrl)) ws ! i"
    by (simp add: prompt_unit_output [OF i] regs Let_def)
qed

definition demo_aes :: dif_aes where
  "demo_aes = \<lparr>aes_params = \<lparr>aes_base_addr = \<lparr>mmio_base = 0x41100000\<rparr>\<rparr>\<rparr>"

definition demo_unit :: world where
  "demo_unit = \<lparr>dev32 = prompt_unit demo_aes, dev8 = \<lambda>_ _. 0, trace = []\<rparr>"

definition demo_transaction :: dif_aes_transaction where
  "demo_transaction = \<lparr>aes_key_len = kDifAesKey128, aes_mode = kDifAesModeEncrypt, aes_operation = kDifAesOperationAuto,
     aes_masking = kDifAesMaskingInternalPrng\<rparr>"

definition demo_key :: dif_aes_key_share where
  "demo_key = \<lparr>share0 = [1, 2, 3, 4, 0, 0, 0, 0], share1 = [5, 6, 7, 8, 0, 0, 0, 0]\<rparr>"

lemma prompt_status:
  assumes "dev32 w = prompt_unit aes"
  shows "aes_status_at aes w h AES_STATUS_IDLE_BIT" "aes_status_at aes w h AES_STATUS_INPUT_READY_BIT"
    "aes_status_at aes w h AES_STATUS_OUTPUT_VALID_BIT \<longleftrightarrow> unread_output aes h"
  using assms by (simp_all add: aes_status_at_def prompt_unit_def)

lemma start_ecb_runs:
  assumes "key_to_field (aes_key_len tr) \<noteq> kAesKeyFieldValInvalid" "aes_status_at aes w (trace w) AES_STATUS_IDLE_BIT"
  shows "run_state (dif_aes_start_ecb (Some aes) (Some tr) key) w = (kDifAesStartOk,
    w\<lparr>trace := config_events aes (aes_ctrl_word tr (key_to_field (aes_key_len tr)) kAesModeFieldValEcb)
        (share0 key) (share1 key) @ status_read aes w (trace w)\<rparr>)"
  using assms
  by (simp add: dif_aes_start_ecb_def aes_idle_def aes_configure_def aes_shadowed_write_def io_simps run_multireg
      config_events_def Let_def status_read_def aes_status_at_def cur32_def)

lemma load_data_runs:
  assumes "aes_status_at aes w (trace w) AES_STATUS_INPUT_READY_BIT"
  shows "run_state (dif_aes_load_data (Some aes) d) w =
    (kDifAesLoadDataOk, w\<lparr>trace := data_events aes (aes_data d) @ status_read aes w (trace w)\<rparr>)"
  using assms
  by (simp add: dif_aes_load_data_def aes_input_ready_def io_simps run_multireg status_read_def
      aes_status_at_def cur32_def Let_def)

lemma read_output_runs:
  assumes "aes_status_at aes w (trace w) AES_STATUS_OUTPUT_VALID_BIT"
  shows "\<exists>out w'. run_state (dif_aes_read_output (Some aes) (Some d)) w = ((kDifAesReadOutputOk, out), w')"
  using assms
  by (simp add: dif_aes_read_output_def aes_output_valid_def io_simps aes_status_at_def cur32_def case_prod_unfold
      del: upt_rec_numeral)

lemma unread_multireg:
  "unread_output aes (multireg_events aes off ws (Suc n) @ h) \<longleftrightarrow> aes_addr aes off n = aes_addr aes AES_DATA_IN_0_REG_OFFSET 3"
  by (simp add: multireg_events_def)

lemma demo_runs:
  obtains w1 w3 w5 out where
    "run_state (dif_aes_start_ecb (Some demo_aes) (Some demo_transaction) demo_key) demo_unit = (kDifAesStartOk, w1)"
    "\<not> aes_status_at demo_aes w1 (trace w1) AES_STATUS_OUTPUT_VALID_BIT"
    "run_state (dif_aes_load_data (Some demo_aes) \<lparr>aes_data = [10, 20, 30, 40]\<rparr>) w1 = (kDifAesLoadDataOk, w3)"
    "run_state (dif_aes_read_output (Some demo_aes) (Some \<lparr>aes_data = [0, 0, 0, 0]\<rparr>)) w3 = ((kDifAesReadOutputOk, out), w5)"
proof -
  have unit: "dev32 demo_unit = prompt_unit demo_aes" by (simp add: demo_unit_def)
  have key: "key_to_field (aes_key_len demo_transaction) \<noteq> kAesKeyFieldValInvalid" by (simp add: demo_transaction_def)
  define w1 where "w1 = demo_unit\<lparr>trace := config_events demo_aes
      (aes_ctrl_word demo_transaction (key_to_field (aes_key_len demo_transaction)) kAesModeFieldValEcb)
      (share0 demo_key) (share1 demo_key) @ status_read demo_aes demo_unit (trace demo_unit)\<rparr>"
  have w1: "dev32 w1 = prompt_unit demo_aes" "\<not> unread_output demo_aes (trace w1)"
    using unread_multireg [of demo_aes AES_KEY_SHARE1_0_REG_OFFSET _ 7]
    by (simp_all add: w1_def unit config_events_def aes_addr_reg reg_addr_inject)
  define w3 where "w3 = w1\<lparr>trace := data_events demo_aes [10, 20, 30, 40] @ status_read demo_aes w1 (trace w1)\<rparr>"
  have w3: "dev32 w3 = prompt_unit demo_aes" "unread_output demo_aes (trace w3)"
    using unread_multireg [of demo_aes AES_DATA_IN_0_REG_OFFSET _ 3] w1(1) by (simp_all add: w3_def)
  have "run_state (dif_aes_start_ecb (Some demo_aes) (Some demo_transaction) demo_key) demo_unit = (kDifAesStartOk, w1)"
    unfolding w1_def by (rule start_ecb_runs [OF key prompt_status(1) [OF unit]])
  moreover have "run_state (dif_aes_load_data (Some demo_aes) \<lparr>aes_data = [10, 20, 30, 40]\<rparr>) w1 = (kDifAesLoadDataOk, w3)"
    using load_data_runs [OF prompt_status(2) [OF w1(1)], of "\<lparr>aes_data = [10, 20, 30, 40]\<rparr>"] by (simp add: w3_def)
  moreover have "\<not> aes_status_at demo_aes w1 (trace w1) AES_STATUS_OUTPUT_VALID_BIT"
    using w1 prompt_status(3) by blast
  moreover obtain out w5 where
    "run_state (dif_aes_read_output (Some demo_aes) (Some \<lparr>aes_data = [0, 0, 0, 0]\<rparr>)) w3 = ((kDifAesReadOutputOk, out), w5)"
    using read_output_runs prompt_status(3) w3 by blast
  ultimately show ?thesis using that by blast
qed


end
