(* ===== verification/FlashCtrl.thy ===== *)
theory FlashCtrl
  imports BusFrame
begin

text \<open>
  The flash controller library of the boot ROM (\<open>sw/device/lib/flash_ctrl.c\<close>). \<open>REG32(a)\<close> is a volatile
  access to the absolute address \<open>a\<close>; the wait loops may not end, so the operations that wait return an
  option. Register offsets and parameters are those of \<open>hw/top_earlgrey/ip/flash_ctrl\<close>.
\<close>

section \<open>Registers\<close>

abbreviation FLASH_MEM_BASE_ADDR :: u32 where "FLASH_MEM_BASE_ADDR \<equiv> 0x20000000"
abbreviation FLASH_CTRL0_BASE_ADDR :: u32 where "FLASH_CTRL0_BASE_ADDR \<equiv> 0x41000000"
abbreviation FLASH_CTRL_CONTROL_REG_OFFSET :: u32 where "FLASH_CTRL_CONTROL_REG_OFFSET \<equiv> 0x14"
abbreviation FLASH_CTRL_ADDR_REG_OFFSET :: u32 where "FLASH_CTRL_ADDR_REG_OFFSET \<equiv> 0x18"
abbreviation FLASH_CTRL_MP_REGION_CFG_0_REG_OFFSET :: u32 where "FLASH_CTRL_MP_REGION_CFG_0_REG_OFFSET \<equiv> 0x44"
abbreviation FLASH_CTRL_DEFAULT_REGION_REG_OFFSET :: u32 where "FLASH_CTRL_DEFAULT_REGION_REG_OFFSET \<equiv> 0x64"
abbreviation FLASH_CTRL_BANK0_INFO0_PAGE_CFG_0_REG_OFFSET :: u32 where "FLASH_CTRL_BANK0_INFO0_PAGE_CFG_0_REG_OFFSET \<equiv> 0x90"
abbreviation FLASH_CTRL_BANK1_INFO0_PAGE_CFG_0_REG_OFFSET :: u32 where "FLASH_CTRL_BANK1_INFO0_PAGE_CFG_0_REG_OFFSET \<equiv> 0xf8"
abbreviation FLASH_CTRL_MP_BANK_CFG_REG_OFFSET :: u32 where "FLASH_CTRL_MP_BANK_CFG_REG_OFFSET \<equiv> 0x13c"
abbreviation FLASH_CTRL_OP_STATUS_REG_OFFSET :: u32 where "FLASH_CTRL_OP_STATUS_REG_OFFSET \<equiv> 0x140"
abbreviation FLASH_CTRL_STATUS_REG_OFFSET :: u32 where "FLASH_CTRL_STATUS_REG_OFFSET \<equiv> 0x144"
abbreviation FLASH_CTRL_ERR_CODE_REG_OFFSET :: u32 where "FLASH_CTRL_ERR_CODE_REG_OFFSET \<equiv> 0x148"
abbreviation FLASH_CTRL_SCRATCH_REG_OFFSET :: u32 where "FLASH_CTRL_SCRATCH_REG_OFFSET \<equiv> 0x160"
abbreviation FLASH_CTRL_PROG_FIFO_REG_OFFSET :: u32 where "FLASH_CTRL_PROG_FIFO_REG_OFFSET \<equiv> 0x16c"
abbreviation FLASH_CTRL_RD_FIFO_REG_OFFSET :: u32 where "FLASH_CTRL_RD_FIFO_REG_OFFSET \<equiv> 0x170"

abbreviation PROGRAM_RESOLUTION_WORDS :: u32 where "PROGRAM_RESOLUTION_WORDS \<equiv> 16"

definition flash_get_banks :: u32 where "flash_get_banks = 2"
definition flash_get_pages_per_bank :: u32 where "flash_get_pages_per_bank = 256"
definition flash_get_words_per_page :: u32 where "flash_get_words_per_page = 256"
definition flash_get_bank_size :: u32 where "flash_get_bank_size = 524288"
definition flash_get_page_size :: u32 where "flash_get_page_size = 2048"
definition flash_get_word_size :: u32 where "flash_get_word_size = 8"

text \<open>The enumerators are the only values of \<open>bank_index_t\<close> that the code compares with.\<close>

datatype bank_index = FLASH_BANK_0 | FLASH_BANK_1

datatype part_type = kDataPartition | kInfoPartition | part_type_other u32

fun part_code :: "part_type \<Rightarrow> u32" where
  "part_code kDataPartition = 0"
| "part_code kInfoPartition = 1"
| "part_code (part_type_other n) = n"

abbreviation FLASH_READ :: u32 where "FLASH_READ \<equiv> 0"
abbreviation FLASH_PROG :: u32 where "FLASH_PROG \<equiv> 1"
abbreviation FLASH_ERASE :: u32 where "FLASH_ERASE \<equiv> 2"
abbreviation FLASH_PAGE_ERASE_CODE :: u32 where "FLASH_PAGE_ERASE_CODE \<equiv> 0"
abbreviation FLASH_BANK_ERASE_CODE :: u32 where "FLASH_BANK_ERASE_CODE \<equiv> 1"

section \<open>Operations\<close>

abbreviation flash_reg :: "u32 \<Rightarrow> u32" where
  "flash_reg offset \<equiv> FLASH_CTRL0_BASE_ADDR + offset"

definition wait_done_and_ack :: "world \<Rightarrow> world option" where
  "wait_done_and_ack w = do {
     w \<leftarrow> spin_while (do {
         v \<leftarrow> bus_read32 (flash_reg FLASH_CTRL_OP_STATUS_REG_OFFSET);
         ret (v AND push_bit 0 1 = 0)
       }) w;
     Some (snd (run_state (bus_write32 (flash_reg FLASH_CTRL_OP_STATUS_REG_OFFSET) 0) w))
   }"

definition flash_init_block :: "world \<Rightarrow> world option" where
  "flash_init_block w =
     spin_while (do {
       v \<leftarrow> bus_read32 (flash_reg FLASH_CTRL_STATUS_REG_OFFSET);
       ret (v AND push_bit 4 1 > 0)
     }) w"

definition get_clr_err :: "u32 io" where
  "get_clr_err = do {
     err_status \<leftarrow> bus_read32 (flash_reg FLASH_CTRL_ERR_CODE_REG_OFFSET);
     _ \<leftarrow> bus_write32 (flash_reg FLASH_CTRL_ERR_CODE_REG_OFFSET) 0;
     ret err_status
   }"

text \<open>Eight words of flash memory, anded into the mask.\<close>

fun flash_and_words :: "nat \<Rightarrow> u32 \<Rightarrow> u32 \<Rightarrow> u32 io" where
  "flash_and_words 0 p msk = ret msk"
| "flash_and_words (Suc n) p msk = do {
     v \<leftarrow> bus_read32 p;
     flash_and_words n (p + 4) (msk AND v)
   }"

function flash_check_loop :: "u32 \<Rightarrow> u32 \<Rightarrow> u32 io" where
  "flash_check_loop p msk =
     (if p < FLASH_MEM_BASE_ADDR + flash_get_bank_size then do {
        msk \<leftarrow> flash_and_words 8 p msk;
        if msk \<noteq> - 1 then ret 0 else flash_check_loop (p + 32) msk
      } else ret 1)"
  by pat_completeness auto
termination
proof (relation "measure (\<lambda>(p, msk). 0x20080000 - unat p)", goal_cases)
  case 1
  then show ?case by simp
next
  case (2 p msk)
  then have "unat p < 0x20080000" by (simp add: flash_get_bank_size_def word_less_nat_alt)
  moreover from this have "unat (p + 32) = unat p + 32" by (simp add: unat_word_ariths)
  ultimately show ?case by simp
qed

declare flash_check_loop.simps [simp del]

definition flash_check_empty :: "u32 io" where
  "flash_check_empty = flash_check_loop FLASH_MEM_BASE_ADDR (- 1)"

definition bank_bit :: "bank_index \<Rightarrow> nat" where
  "bank_bit b = (case b of FLASH_BANK_0 \<Rightarrow> 0 | FLASH_BANK_1 \<Rightarrow> 1)"

definition flash_cfg_bank_erase :: "bank_index \<Rightarrow> bool \<Rightarrow> unit io" where
  "flash_cfg_bank_erase bank erase_en = do {
     v \<leftarrow> bus_read32 (flash_reg FLASH_CTRL_MP_BANK_CFG_REG_OFFSET);
     bus_write32 (flash_reg FLASH_CTRL_MP_BANK_CFG_REG_OFFSET)
       (if erase_en then v OR push_bit (bank_bit bank) 1 else v AND NOT (push_bit (bank_bit bank) 1))
   }"

definition flash_bank_erase :: "bank_index \<Rightarrow> world \<Rightarrow> (u32 \<times> world) option" where
  "flash_bank_erase idx w = do {
     let (_, w) = run_state (do {
       _ \<leftarrow> flash_cfg_bank_erase idx True;
       _ \<leftarrow> bus_write32 (flash_reg FLASH_CTRL_ADDR_REG_OFFSET)
         (if idx = FLASH_BANK_0 then FLASH_MEM_BASE_ADDR else FLASH_MEM_BASE_ADDR + flash_get_bank_size);
       bus_write32 (flash_reg FLASH_CTRL_CONTROL_REG_OFFSET)
         (push_bit 4 FLASH_ERASE OR push_bit 7 FLASH_BANK_ERASE_CODE OR push_bit 0 0x1)
     }) w;
     w \<leftarrow> wait_done_and_ack w;
     Some (run_state (do {
       _ \<leftarrow> flash_cfg_bank_erase idx False;
       get_clr_err
     }) w)
   }"

definition flash_page_erase :: "u32 \<Rightarrow> part_type \<Rightarrow> world \<Rightarrow> (u32 \<times> world) option" where
  "flash_page_erase addr part w = do {
     let (_, w) = run_state (do {
       _ \<leftarrow> bus_write32 (flash_reg FLASH_CTRL_ADDR_REG_OFFSET) addr;
       bus_write32 (flash_reg FLASH_CTRL_CONTROL_REG_OFFSET)
         (push_bit 4 FLASH_ERASE OR push_bit 7 FLASH_PAGE_ERASE_CODE OR push_bit 8 (part_code part) OR push_bit 0 0x1)
     }) w;
     w \<leftarrow> wait_done_and_ack w;
     Some (run_state get_clr_err w)
   }"

text \<open>The words a call writes are the first \<open>size\<close> of \<open>data\<close>.\<close>

definition flash_write_internal :: "u32 \<Rightarrow> part_type \<Rightarrow> u32 list \<Rightarrow> u32 \<Rightarrow> world \<Rightarrow> (u32 \<times> world) option" where
  "flash_write_internal addr part data size_words w = do {
     let (_, w) = run_state (do {
       _ \<leftarrow> bus_write32 (flash_reg FLASH_CTRL_ADDR_REG_OFFSET) addr;
       _ \<leftarrow> bus_write32 (flash_reg FLASH_CTRL_CONTROL_REG_OFFSET)
         (push_bit 4 FLASH_PROG OR push_bit 8 (part_code part) OR push_bit 16 (size_words - 1) OR push_bit 0 0x1);
       for_each [0..<unat size_words] (\<lambda>i. bus_write32 (flash_reg FLASH_CTRL_PROG_FIFO_REG_OFFSET) (data ! i))
     }) w;
     w \<leftarrow> wait_done_and_ack w;
     Some (run_state get_clr_err w)
   }"


text \<open>
  The loop of \<open>flash_write\<close>; \<open>data\<close> starts at the words that remain. That it ends is a fact about the
  values it is called with, so it is a partial function.
\<close>

partial_function (option) flash_write_loop ::
  "u32 \<Rightarrow> part_type \<Rightarrow> u32 list \<Rightarrow> u32 \<Rightarrow> u32 \<Rightarrow> u32 \<Rightarrow> u32 \<Rightarrow> u32 \<Rightarrow> world \<Rightarrow> (u32 \<times> world) option" where
  "flash_write_loop addr part data size_words max_words words_remaining current_word err w =
     (if words_remaining > 0 then
        (let words_to_program = (if words_remaining < max_words then words_remaining else max_words) in do {
           (e, w) \<leftarrow> flash_write_internal (addr + current_word * 4) part data words_to_program w;
           let current_word = current_word + words_to_program;
           flash_write_loop addr part (drop (unat words_to_program) data) size_words
             PROGRAM_RESOLUTION_WORDS (size_words - current_word) current_word (err OR e) w
         })
      else Some (err, w))"

definition flash_write :: "u32 \<Rightarrow> part_type \<Rightarrow> u32 list \<Rightarrow> u32 \<Rightarrow> world \<Rightarrow> (u32 \<times> world) option" where
  "flash_write addr part data size_words w =
     (let window_offset = (addr div 4) mod PROGRAM_RESOLUTION_WORDS;
          max_words = PROGRAM_RESOLUTION_WORDS - window_offset
      in flash_write_loop addr part data size_words max_words size_words 0 0 w)"

text \<open>The words read so far are the argument \<open>data\<close>.\<close>

partial_function (option) flash_read_loop :: "u32 \<Rightarrow> u32 \<Rightarrow> u32 list \<Rightarrow> world \<Rightarrow> (u32 list \<times> world) option" where
  "flash_read_loop i size_words data w =
     (if i < size_words then
        (let (status, w) = run_state (bus_read32 (flash_reg FLASH_CTRL_STATUS_REG_OFFSET)) w in
         if drop_bit 1 status AND 0x1 = 0 then
           (let (v, w) = run_state (bus_read32 (flash_reg FLASH_CTRL_RD_FIFO_REG_OFFSET)) w
            in flash_read_loop (i + 1) size_words (data @ [v]) w)
         else flash_read_loop i size_words data w)
      else Some (data, w))"

definition flash_read :: "u32 \<Rightarrow> part_type \<Rightarrow> u32 \<Rightarrow> world \<Rightarrow> ((u32 \<times> u32 list) \<times> world) option" where
  "flash_read addr part size_words w = do {
     let (_, w) = run_state (do {
       _ \<leftarrow> bus_write32 (flash_reg FLASH_CTRL_ADDR_REG_OFFSET) addr;
       bus_write32 (flash_reg FLASH_CTRL_CONTROL_REG_OFFSET)
         (push_bit 4 FLASH_READ OR push_bit 8 (part_code part) OR push_bit 16 (size_words - 1) OR push_bit 0 0x1)
     }) w;
     (data, w) \<leftarrow> flash_read_loop 0 size_words [] w;
     w \<leftarrow> wait_done_and_ack w;
     (let (e, w) = run_state get_clr_err w in Some ((e, data), w))
   }"

definition flash_default_region_access :: "bool \<Rightarrow> bool \<Rightarrow> bool \<Rightarrow> unit io" where
  "flash_default_region_access rd_en prog_en erase_en =
     bus_write32 (flash_reg FLASH_CTRL_DEFAULT_REGION_REG_OFFSET)
       (push_bit 0 (of_bool rd_en) OR push_bit 1 (of_bool prog_en) OR push_bit 2 (of_bool erase_en))"

record mp_region =
  mp_num :: u32
  mp_base :: u32
  mp_size :: u32
  mp_part :: part_type
  mp_rd_en :: u32
  mp_prog_en :: u32
  mp_erase_en :: u32
  mp_scramble_en :: u32

definition flash_cfg_region :: "mp_region \<Rightarrow> unit io" where
  "flash_cfg_region cfg =
     (if mp_part cfg = kDataPartition then
        bus_write32 (flash_reg FLASH_CTRL_MP_REGION_CFG_0_REG_OFFSET + mp_num cfg * 4)
          (push_bit 8 (mp_base cfg) OR push_bit 17 (mp_size cfg) OR push_bit 1 (mp_rd_en cfg)
             OR push_bit 2 (mp_prog_en cfg) OR push_bit 3 (mp_erase_en cfg)
             OR push_bit 4 (mp_scramble_en cfg) OR push_bit 0 0x1)
      else if mp_part cfg = kInfoPartition then
        (let reg_value = push_bit 1 (mp_rd_en cfg) OR push_bit 2 (mp_prog_en cfg)
               OR push_bit 3 (mp_erase_en cfg) OR push_bit 4 (mp_scramble_en cfg) OR push_bit 0 0x1;
             bank_sel = mp_base cfg div flash_get_pages_per_bank in
         if bank_sel = 0 then
           bus_write32 (flash_reg FLASH_CTRL_BANK0_INFO0_PAGE_CFG_0_REG_OFFSET + mp_num cfg * 4) reg_value
         else
           bus_write32 (flash_reg FLASH_CTRL_BANK1_INFO0_PAGE_CFG_0_REG_OFFSET + mp_num cfg * 4) reg_value)
      else ret ())"

definition flash_write_scratch_reg :: "u32 \<Rightarrow> unit io" where
  "flash_write_scratch_reg v = bus_write32 (flash_reg FLASH_CTRL_SCRATCH_REG_OFFSET) v"

definition flash_read_scratch_reg :: "u32 io" where
  "flash_read_scratch_reg = bus_read32 (flash_reg FLASH_CTRL_SCRATCH_REG_OFFSET)"


section \<open>What the operations write\<close>

lemma run_for_each_writes:
  "snd (run_state (for_each is (\<lambda>i. bus_write32 a (f i))) w) =
     w\<lparr>trace := map (\<lambda>i. Wr32 a (f i)) (rev is) @ trace w\<rparr>"
  by (induction "is" arbitrary: w) (simp_all add: io_simps)

lemma bus_writes_map_Wr32:
  "bus_writes (map (\<lambda>i. Wr32 a (f i)) is @ h) = bus_writes h @ map (\<lambda>i. (a, f i)) (rev is)"
  by (induction "is") simp_all

text \<open>An operation that returns has the same device and has added the given writes.\<close>

definition adds_writes :: "world \<Rightarrow> (u32 \<times> u32) list \<Rightarrow> world \<Rightarrow> bool" where
  "adds_writes w ws w' \<longleftrightarrow> dev32 w' = dev32 w \<and> dev8 w' = dev8 w \<and> bus_writes (trace w') = bus_writes (trace w) @ ws"

lemma adds_writes_trans:
  "adds_writes w ws w' \<Longrightarrow> adds_writes w' ws' w'' \<Longrightarrow> adds_writes w (ws @ ws') w''"
  by (simp add: adds_writes_def)

lemma spin_read_adds:
  assumes "spin_while (do { v \<leftarrow> bus_read32 a; ret (f v) }) w = Some w'"
  shows "adds_writes w [] w'"
  using assms by (rule spin_while_invariant) (simp_all add: adds_writes_def io_simps)

lemma wait_done_and_ack_adds:
  assumes "wait_done_and_ack w = Some w'"
  shows "adds_writes w [(flash_reg FLASH_CTRL_OP_STATUS_REG_OFFSET, 0)] w'"
  using assms spin_read_adds
  by (fastforce simp: wait_done_and_ack_def adds_writes_def io_simps split: Option.bind_splits)

lemma run_get_clr_err [io_simps]:
  "run_state get_clr_err w =
     (cur32 w (flash_reg FLASH_CTRL_ERR_CODE_REG_OFFSET),
      log (Wr32 (flash_reg FLASH_CTRL_ERR_CODE_REG_OFFSET) 0)
        (log (Rd32 (flash_reg FLASH_CTRL_ERR_CODE_REG_OFFSET) (cur32 w (flash_reg FLASH_CTRL_ERR_CODE_REG_OFFSET))) w))"
  by (simp add: get_clr_err_def io_simps)

text \<open>The writes of one program command: the words \<open>ws\<close> to the address \<open>a\<close>.\<close>

definition program_command :: "part_type \<Rightarrow> u32 \<times> u32 list \<Rightarrow> (u32 \<times> u32) list" where
  "program_command part c =
     [(flash_reg FLASH_CTRL_ADDR_REG_OFFSET, fst c),
      (flash_reg FLASH_CTRL_CONTROL_REG_OFFSET,
         push_bit 4 FLASH_PROG OR push_bit 8 (part_code part) OR push_bit 16 (of_nat (length (snd c)) - 1) OR push_bit 0 0x1)]
     @ map (Pair (flash_reg FLASH_CTRL_PROG_FIFO_REG_OFFSET)) (snd c)
     @ [(flash_reg FLASH_CTRL_OP_STATUS_REG_OFFSET, 0), (flash_reg FLASH_CTRL_ERR_CODE_REG_OFFSET, 0)]"

lemma map_nth_take: "n \<le> length xs \<Longrightarrow> map (\<lambda>i. f (xs ! i)) [0..<n] = map f (take n xs)"
  by (rule nth_equalityI) simp_all

lemma flash_write_internal_adds:
  assumes run: "flash_write_internal addr part data n w = Some (e, w')" and len: "unat n \<le> length data"
  shows "adds_writes w (program_command part (addr, take (unat n) data)) w'"
proof -
  let ?ctrl = "push_bit 4 FLASH_PROG OR push_bit 8 (part_code part) OR push_bit 16 (n - 1) OR push_bit 0 0x1"
  let ?w1 = "w\<lparr>trace := map (\<lambda>i. Wr32 (flash_reg FLASH_CTRL_PROG_FIFO_REG_OFFSET) (data ! i)) (rev [0..<unat n])
      @ Wr32 (flash_reg FLASH_CTRL_CONTROL_REG_OFFSET) ?ctrl # Wr32 (flash_reg FLASH_CTRL_ADDR_REG_OFFSET) addr # trace w\<rparr>"
  have n: "(of_nat (length (take (unat n) data)) :: u32) = n" using len by simp
  have 1: "adds_writes w ([(flash_reg FLASH_CTRL_ADDR_REG_OFFSET, addr), (flash_reg FLASH_CTRL_CONTROL_REG_OFFSET, ?ctrl)]
      @ map (Pair (flash_reg FLASH_CTRL_PROG_FIFO_REG_OFFSET)) (take (unat n) data)) ?w1"
    using map_nth_take [OF len, of "Pair (flash_reg FLASH_CTRL_PROG_FIFO_REG_OFFSET)"]
    by (simp add: adds_writes_def bus_writes_map_Wr32)
  from run obtain w2 where w2: "wait_done_and_ack ?w1 = Some w2" and "w' = snd (run_state get_clr_err w2)"
    by (auto simp: flash_write_internal_def run_for_each_writes io_simps case_prod_unfold split: Option.bind_splits)
  then have 2: "adds_writes w2 [(flash_reg FLASH_CTRL_ERR_CODE_REG_OFFSET, 0)] w'"
    by (simp add: adds_writes_def io_simps)
  show ?thesis
    using adds_writes_trans [OF adds_writes_trans [OF 1 wait_done_and_ack_adds [OF w2]] 2]
    by (simp add: program_command_def n min_absorb2 len)
qed

section \<open>Programming\<close>

text \<open>The word offset of an address in its program window.\<close>

definition window_offset_of :: "u32 \<Rightarrow> nat" where
  "window_offset_of a = unat a div 4 mod 16"

text \<open>A program command stays within one window of 16 words; commands that follow each other.\<close>

definition in_window :: "u32 \<times> u32 list \<Rightarrow> bool" where
  "in_window c \<longleftrightarrow> snd c \<noteq> [] \<and> window_offset_of (fst c) + length (snd c) \<le> 16"

fun contiguous :: "u32 \<Rightarrow> (u32 \<times> u32 list) list \<Rightarrow> bool" where
  "contiguous a [] = True"
| "contiguous a (c # cs) = (fst c = a \<and> contiguous (a + of_nat (length (snd c)) * 4) cs)"

text \<open>How the words are split: up to the end of the window, then window by window.\<close>

function program_chunks :: "u32 \<Rightarrow> u32 list \<Rightarrow> (u32 \<times> u32 list) list" where
  "program_chunks a ws =
     (if ws = [] then []
      else
        (let n = 16 - window_offset_of a
         in (a, take n ws) # program_chunks (a + of_nat n * 4) (drop n ws)))"
  by pat_completeness auto
termination
proof (relation "measure (\<lambda>(a, ws). length ws)", goal_cases)
  case (2 a ws n)
  then have "0 < n" "0 < length ws" by (simp_all add: window_offset_of_def)
  then show ?case by simp
qed simp

declare program_chunks.simps [simp del]

lemma program_chunks_Nil [simp]: "program_chunks a [] = []"
  by (simp add: program_chunks.simps)

lemma window_offset_less: "window_offset_of a < 16"
  by (simp add: window_offset_of_def)

lemma div_4_mod_16: "m div 4 mod 16 = m mod 64 div (4 :: nat)"
  using mod_mult2_eq [of m 4 16] by simp

lemma window_offset_add: "window_offset_of (a + n * 4) = (window_offset_of a + unat n) mod 16"
proof -
  have "unat (a + n * 4) = (unat a + unat n * 4) mod 4294967296"
    by (simp add: unat_word_ariths mod_simps)
  then have "unat (a + n * 4) mod 64 = (unat a + unat n * 4) mod 64"
    by (simp add: mod_mod_cancel)
  then have "unat (a + n * 4) div 4 mod 16 = (unat a + unat n * 4) div 4 mod 16"
    by (simp only: div_4_mod_16)
  then show ?thesis by (simp add: window_offset_of_def mod_simps add.commute)
qed

lemma program_chunks_sound:
  "concat (map snd (program_chunks a ws)) = ws \<and> contiguous a (program_chunks a ws)
   \<and> (\<forall>c \<in> set (program_chunks a ws). in_window c)"
proof (induction a ws rule: program_chunks.induct)
  case (1 a ws)
  show ?case
  proof (cases "ws = []")
    case False
    define n where "n = 16 - window_offset_of a"
    have "0 < n" "window_offset_of a + n = 16" using window_offset_less [of a] by (auto simp: n_def)
    moreover from this have "in_window (a, take n ws)" using False by (auto simp: in_window_def)
    moreover have "contiguous (a + of_nat (min (length ws) n) * 4) (program_chunks (a + of_nat n * 4) (drop n ws))"
      using 1 [OF False n_def] by (cases "n \<le> length ws") (auto simp: min_def)
    ultimately show ?thesis using 1 [OF False n_def] False
      by (subst (1 2 3) program_chunks.simps) (simp add: Let_def n_def [symmetric])
  qed simp
qed

text \<open>Where the commands of the loop come from: each iteration adds one and goes on behind it.\<close>

lemma flash_write_loop_commands:
  assumes "flash_write_loop addr part data size_words max_words words_remaining current_word err w = Some (e, w')"
    and "words_remaining = size_words - current_word" "unat words_remaining \<le> length data"
    and "unat max_words = 16 - window_offset_of (addr + current_word * 4)"
  shows "adds_writes w (concat (map (program_command part)
    (program_chunks (addr + current_word * 4) (take (unat words_remaining) data)))) w'"
  using assms
proof (induction "unat words_remaining" arbitrary: data max_words words_remaining current_word err w rule: less_induct)
  case less
  show ?case
  proof (cases "words_remaining > 0")
    case False
    with less.prems(1) have "w' = w" by (subst (asm) flash_write_loop.simps) simp
    moreover have "words_remaining = 0" using False by (simp add: word_gt_0)
    ultimately show ?thesis by (simp add: adds_writes_def)
  next
    case True
    define n where "n = (if words_remaining < max_words then words_remaining else max_words)"
    let ?a = "addr + current_word * 4" and ?ws = "take (unat words_remaining) data"
    have off: "window_offset_of ?a < 16" by (rule window_offset_less)
    with less.prems(4) have max_pos: "0 < unat max_words" by linarith
    with True have n: "n \<le> words_remaining" "n \<le> max_words" "0 < unat n"
      by (auto simp: n_def word_less_nat_alt word_le_nat_alt)
    then have len: "unat n \<le> length data" using less.prems(3) by (simp add: word_le_nat_alt)
    from less.prems(1) True obtain e1 w1 where
      int: "flash_write_internal ?a part data n w = Some (e1, w1)" and
      rest: "flash_write_loop addr part (drop (unat n) data) size_words PROGRAM_RESOLUTION_WORDS
        (size_words - (current_word + n)) (current_word + n) (err OR e1) w1 = Some (e, w')"
      by (subst (asm) flash_write_loop.simps) (auto simp: n_def [symmetric] Let_def split: Option.bind_splits)
    have "?ws \<noteq> []" using n less.prems(3) by (auto simp: word_le_nat_alt)
    then have chunks: "program_chunks ?a ?ws = (?a, take (unat max_words) ?ws) #
        program_chunks (?a + of_nat (unat max_words) * 4) (drop (unat max_words) ?ws)"
      using less.prems(4) by (subst program_chunks.simps) (simp add: Let_def)
    have first: "take (unat max_words) ?ws = take (unat n) data"
      by (auto simp: n_def min_def word_less_nat_alt)
    have rem: "size_words - (current_word + n) = words_remaining - n" using less.prems(2) by simp
    have urem: "unat (words_remaining - n) = unat words_remaining - unat n"
      using n(1) by (simp add: unat_sub)
    have cmd: "adds_writes w (program_command part (?a, take (unat n) data)) w1"
      by (rule flash_write_internal_adds [OF int len])
    show ?thesis
    proof (cases "words_remaining = n")
      case True
      with rest rem have "w' = w1" by (subst (asm) flash_write_loop.simps) simp
      moreover have "drop (unat max_words) ?ws = []" using True n(2) by (simp add: word_le_nat_alt)
      ultimately show ?thesis using cmd unfolding chunks first by simp
    next
      case False
      then have n_max: "n = max_words" by (auto simp: n_def)
      have off': "window_offset_of (addr + (current_word + n) * 4) = 0"
        using window_offset_add [of ?a n] off less.prems(4) by (simp add: algebra_simps n_max)
      have "adds_writes w1 (concat (map (program_command part) (program_chunks (addr + (current_word + n) * 4)
          (take (unat (words_remaining - n)) (drop (unat n) data))))) w'"
        using less.hyps [OF _ rest [unfolded rem]] n less.prems(2,3) urem off' by (simp add: word_le_nat_alt)
      moreover have "addr + (current_word + n) * 4 = ?a + of_nat (unat max_words) * 4"
        by (simp add: n_max algebra_simps)
      moreover have "take (unat (words_remaining - n)) (drop (unat n) data) = drop (unat max_words) ?ws"
        using urem by (simp add: n_max drop_take)
      ultimately show ?thesis using adds_writes_trans [OF cmd] unfolding chunks first
        by (simp add: add.assoc)
    qed
  qed
qed

lemma max_words_initial:
  "unat (PROGRAM_RESOLUTION_WORDS - addr div 4 mod PROGRAM_RESOLUTION_WORDS) = 16 - window_offset_of addr"
  by (simp add: window_offset_of_def unat_sub unat_div_distrib unat_mod_distrib word_le_nat_alt)

lemma flash_write_adds:
  assumes "flash_write addr part data n w = Some (e, w')" "unat n \<le> length data"
  shows "adds_writes w (concat (map (program_command part) (program_chunks addr (take (unat n) data)))) w'"
  using flash_write_loop_commands [OF assms(1) [unfolded flash_write_def Let_def] _ assms(2)] max_words_initial [of addr]
  by simp

section \<open>Return\<close>

text \<open>The controller reports every operation done in the end, whatever happened before.\<close>

definition flash_completes :: "world \<Rightarrow> bool" where
  "flash_completes w \<longleftrightarrow> (\<forall>w1. dev32 w1 = dev32 w \<longrightarrow> wait_done_and_ack w1 \<noteq> None)"

lemma flash_write_internal_returns:
  assumes "flash_completes w"
  shows "\<exists>e w'. flash_write_internal addr part data n w = Some (e, w')"
proof -
  let ?w1 = "snd (run_state (do {
       _ \<leftarrow> bus_write32 (flash_reg FLASH_CTRL_ADDR_REG_OFFSET) addr;
       _ \<leftarrow> bus_write32 (flash_reg FLASH_CTRL_CONTROL_REG_OFFSET)
         (push_bit 4 FLASH_PROG OR push_bit 8 (part_code part) OR push_bit 16 (n - 1) OR push_bit 0 0x1);
       for_each [0..<unat n] (\<lambda>i. bus_write32 (flash_reg FLASH_CTRL_PROG_FIFO_REG_OFFSET) (data ! i))
     }) w)"
  have "dev32 ?w1 = dev32 w" by (simp add: io_simps run_for_each_writes)
  with assms obtain w2 where "wait_done_and_ack ?w1 = Some w2" by (auto simp: flash_completes_def)
  then show ?thesis by (simp add: flash_write_internal_def case_prod_unfold Let_def)
qed

lemma flash_write_loop_returns:
  assumes "flash_completes w"
    and "words_remaining = size_words - current_word" "unat words_remaining \<le> length data" "0 < max_words"
  shows "flash_write_loop addr part data size_words max_words words_remaining current_word err w \<noteq> None"
  using assms
proof (induction "unat words_remaining" arbitrary: data max_words words_remaining current_word err w rule: less_induct)
  case less
  show ?case
  proof (cases "words_remaining > 0")
    case False
    then show ?thesis by (subst flash_write_loop.simps) simp
  next
    case True
    define n where "n = (if words_remaining < max_words then words_remaining else max_words)"
    have n: "n \<le> words_remaining" "0 < unat n" using True less.prems(4)
      by (auto simp: n_def word_less_nat_alt word_le_nat_alt)
    obtain e1 w1 where int: "flash_write_internal (addr + current_word * 4) part data n w = Some (e1, w1)"
      using flash_write_internal_returns [OF less.prems(1)] by blast
    have len: "unat n \<le> length data" using n(1) less.prems(3) by (simp add: word_le_nat_alt)
    have rem: "size_words - (current_word + n) = words_remaining - n" using less.prems(2) by simp
    have urem: "unat (words_remaining - n) = unat words_remaining - unat n" using n(1) by (simp add: unat_sub)
    have "flash_completes w1" using flash_write_internal_adds [OF int len] less.prems(1)
      by (simp add: flash_completes_def adds_writes_def)
    then have "flash_write_loop addr part (drop (unat n) data) size_words PROGRAM_RESOLUTION_WORDS
        (words_remaining - n) (current_word + n) (err OR e1) w1 \<noteq> None"
      using less.prems(3) n urem by (intro less.hyps) (simp_all add: rem word_le_nat_alt)
    then show ?thesis using True int by (subst flash_write_loop.simps) (simp add: n_def [symmetric] Let_def rem)
  qed
qed

lemma flash_write_returns:
  assumes "flash_completes w" "unat n \<le> length data"
  shows "flash_write addr part data n w \<noteq> None"
proof -
  have "0 < PROGRAM_RESOLUTION_WORDS - addr div 4 mod PROGRAM_RESOLUTION_WORDS"
    using max_words_initial [of addr] window_offset_less [of addr] by (simp add: word_less_nat_alt)
  with assms show ?thesis unfolding flash_write_def Let_def by (intro flash_write_loop_returns) simp_all
qed

text \<open>
  C23. What \<open>flash_write\<close> does to the controller when it returns: it issues program commands whose words
  are, in order, the \<open>size\<close> words of the data; the first command is at \<open>addr\<close>, each further one directly
  behind the one before; each command has at least one word and stays within one 64-byte program window
  (the hardware's limit), whatever the alignment of \<open>addr\<close>; and nothing else is written. It does return
  when the controller reports each operation done in the end.
\<close>

theorem flash_write_programs_data:
  assumes "unat n \<le> length data"
  shows "(\<forall>e w'. flash_write addr part data n w = Some (e, w') \<longrightarrow>
      (\<exists>cs. concat (map snd cs) = take (unat n) data \<and> contiguous addr cs \<and> (\<forall>c \<in> set cs. in_window c)
        \<and> bus_writes (trace w') = bus_writes (trace w) @ concat (map (program_command part) cs)))
    \<and> (flash_completes w \<longrightarrow> flash_write addr part data n w \<noteq> None)"
proof (intro conjI allI impI)
  fix e w'
  assume run: "flash_write addr part data n w = Some (e, w')"
  show "\<exists>cs. concat (map snd cs) = take (unat n) data \<and> contiguous addr cs \<and> (\<forall>c \<in> set cs. in_window c)
        \<and> bus_writes (trace w') = bus_writes (trace w) @ concat (map (program_command part) cs)"
    using flash_write_adds [OF run assms] program_chunks_sound [of addr "take (unat n) data"]
    unfolding adds_writes_def by blast
qed (rule flash_write_returns [OF _ assms])

definition flash_ready_world :: world where
  "flash_ready_world = \<lparr>dev32 = (\<lambda>_ _. 1), dev8 = (\<lambda>_ _. 0), trace = []\<rparr>"

lemma flash_ready_completes: "flash_completes flash_ready_world"
  unfolding flash_completes_def wait_done_and_ack_def
  by (subst spin_while.simps) (simp add: flash_ready_world_def io_simps cur32_def)

theorem flash_write_programs_data_witness:
  "flash_write 0x2000003c kDataPartition [1, 2, 3] 3 flash_ready_world \<noteq> None"
  using flash_write_programs_data [of 3 "[1, 2, 3]" "0x2000003c" kDataPartition flash_ready_world]
    flash_ready_completes by simp

section \<open>The empty check\<close>

definition flash_word_addr :: "nat \<Rightarrow> u32" where
  "flash_word_addr i = FLASH_MEM_BASE_ADDR + 4 * of_nat i"

lemma run_flash_and_words:
  assumes "plain init w"
  shows "plain init (snd (run_state (flash_and_words n p msk) w))
    \<and> cur32 (snd (run_state (flash_and_words n p msk) w)) = cur32 w
    \<and> (fst (run_state (flash_and_words n p msk) w) = - 1 \<longleftrightarrow> msk = - 1 \<and> (\<forall>i<n. cur32 w (p + 4 * of_nat i) = - 1))"
  using assms
proof (induction n arbitrary: p msk w)
  case 0
  then show ?case by simp
next
  case (Suc n)
  have and_ones: "a AND b = - 1 \<longleftrightarrow> a = - 1 \<and> b = - 1" for a b :: u32
    by (auto simp: word32_eq_iff bit_simps)
  have all: "(\<forall>i<Suc n. cur32 w (p + 4 * of_nat i) = - 1) \<longleftrightarrow>
      cur32 w p = - 1 \<and> (\<forall>i<n. cur32 w (p + 4 + 4 * of_nat i) = - 1)"
    by (subst All_less_Suc2) (simp add: algebra_simps)
  have "plain init (log (Rd32 p (cur32 w p)) w)" using Suc.prems by simp
  from Suc.IH [OF this, of "p + 4" "msk AND cur32 w p"] show ?case
    using Suc.prems unfolding all by (simp add: io_simps and_ones conj_assoc)
qed


text \<open>The loop from the word \<open>8 * k\<close> on, with all ones before it.\<close>

lemma flash_check_loop_correct:
  assumes "plain init w" "k \<le> 16384"
  shows "fst (run_state (flash_check_loop (FLASH_MEM_BASE_ADDR + 32 * of_nat k) (- 1)) w) =
    (if \<forall>i. 8 * k \<le> i \<and> i < 131072 \<longrightarrow> cur32 w (flash_word_addr i) = - 1 then 1 else 0)"
  using assms
proof (induction "16384 - k" arbitrary: k w)
  case 0
  then have "k = 16384" by simp
  then show ?case by (subst flash_check_loop.simps) (auto simp: flash_get_bank_size_def)
next
  case (Suc d)
  let ?p = "FLASH_MEM_BASE_ADDR + 32 * of_nat k :: u32"
  let ?r = "run_state (flash_and_words 8 ?p (- 1)) w"
  have k: "k < 16384" using Suc.hyps(2) by simp
  have "unat ?p = 0x20000000 + 32 * k" using k
    by (simp add: unat_word_ariths unat_of_nat_u32)
  then have in_bank: "?p < FLASH_MEM_BASE_ADDR + flash_get_bank_size" using k
    by (simp add: word_less_nat_alt flash_get_bank_size_def)
  have p: "?p + 4 * of_nat j = flash_word_addr (8 * k + j)" for j by (simp add: flash_word_addr_def)
  have group: "(\<forall>j<8. cur32 w (?p + 4 * of_nat j) = - 1) \<longleftrightarrow>
      (\<forall>i. 8 * k \<le> i \<and> i < 8 * Suc k \<longrightarrow> cur32 w (flash_word_addr i) = - 1)"
  proof -
    have "\<exists>j<8. i = 8 * k + j" if "8 * k \<le> i" "i < 8 * Suc k" for i
      using that by (intro exI [of _ "i - 8 * k"]) auto
    then show ?thesis unfolding p by fastforce
  qed
  have "8 * k \<le> i \<and> i < 131072 \<longleftrightarrow> (8 * k \<le> i \<and> i < 8 * Suc k) \<or> (8 * Suc k \<le> i \<and> i < 131072)" for i
    using k by auto
  then have split: "(\<forall>i. 8 * k \<le> i \<and> i < 131072 \<longrightarrow> P i) \<longleftrightarrow>
      (\<forall>i. 8 * k \<le> i \<and> i < 8 * Suc k \<longrightarrow> P i) \<and> (\<forall>i. 8 * Suc k \<le> i \<and> i < 131072 \<longrightarrow> P i)" for P
    by blast
  have next_p: "?p + 32 = FLASH_MEM_BASE_ADDR + 32 * of_nat (Suc k)" by simp
  note words = run_flash_and_words [OF Suc.prems(1), of 8 ?p "- 1"]
  show ?case
  proof (cases "fst ?r = - 1")
    case False
    then show ?thesis using words in_bank
      by (subst flash_check_loop.simps) (simp add: case_prod_unfold group split)
  next
    case True
    have "fst (run_state (flash_check_loop (FLASH_MEM_BASE_ADDR + 32 * of_nat (Suc k)) (- 1)) (snd ?r)) =
      (if \<forall>i. 8 * Suc k \<le> i \<and> i < 131072 \<longrightarrow> cur32 w (flash_word_addr i) = - 1 then 1 else 0)"
      using Suc.hyps(1) [of "Suc k" "snd ?r"] Suc.hyps(2) words k by simp
    then show ?thesis using words in_bank True
      by (subst flash_check_loop.simps) (simp add: case_prod_unfold group split next_p [symmetric] del: of_nat_Suc)
  qed
qed

text \<open>
  What \<open>flash_check_empty\<close> decides on a memory that does not change while it is read: it returns 1 exactly
  when the 131072 words of bank 0 are all ones. Bank 1 is not looked at.
\<close>

lemma flash_check_empty_correct:
  assumes "plain init w"
  shows "fst (run_state flash_check_empty w) =
    (if \<forall>i<131072. cur32 w (flash_word_addr i) = - 1 then 1 else 0)"
  using flash_check_loop_correct [OF assms, of 0] by (simp add: flash_check_empty_def)

section \<open>Reading\<close>

text \<open>The words handed to the caller are those taken from the read FIFO, in order, \<open>size\<close> of them.\<close>

lemma flash_read_loop_words:
  "flash_read_loop i n data w = Some r \<Longrightarrow>
     \<exists>vs. fst r = data @ vs \<and> length vs = unat n - unat i \<and> dev32 (snd r) = dev32 w \<and>
       reads_from (flash_reg FLASH_CTRL_RD_FIFO_REG_OFFSET) (trace (snd r)) =
         reads_from (flash_reg FLASH_CTRL_RD_FIFO_REG_OFFSET) (trace w) @ vs"
proof (erule flash_read_loop.raw_induct [rotated])
  fix loop and i n :: u32 and data w r
  let ?Q = "\<lambda>i n data w r. \<exists>vs. fst r = data @ vs \<and> length vs = unat n - unat i \<and> dev32 (snd r) = dev32 w \<and>
       reads_from (flash_reg FLASH_CTRL_RD_FIFO_REG_OFFSET) (trace (snd r)) =
         reads_from (flash_reg FLASH_CTRL_RD_FIFO_REG_OFFSET) (trace w) @ vs"
  assume IH: "\<And>i n data w r. loop i n data w = Some r \<Longrightarrow> ?Q i n data w r"
    and eq: "(if i < n then
        (let (status, w) = run_state (bus_read32 (flash_reg FLASH_CTRL_STATUS_REG_OFFSET)) w in
         if drop_bit 1 status AND 0x1 = 0 then
           (let (v, w) = run_state (bus_read32 (flash_reg FLASH_CTRL_RD_FIFO_REG_OFFSET)) w
            in loop (i + 1) n (data @ [v]) w)
         else loop i n data w)
      else Some (data, w)) = Some r"
  let ?w1 = "snd (run_state (bus_read32 (flash_reg FLASH_CTRL_STATUS_REG_OFFSET)) w)"
  let ?r2 = "run_state (bus_read32 (flash_reg FLASH_CTRL_RD_FIFO_REG_OFFSET)) ?w1"
  have body: "(case m of (x, y) \<Rightarrow> f x y) = f (fst m) (snd m)" for m :: "u32 \<times> world" and f :: "u32 \<Rightarrow> world \<Rightarrow> (u32 list \<times> world) option"
    by (rule case_prod_beta)
  from eq consider "\<not> i < n" "r = (data, w)" | "i < n" "loop (i + 1) n (data @ [fst ?r2]) (snd ?r2) = Some r"
    | "loop i n data ?w1 = Some r"
    unfolding body Let_def by (metis option.inject)
  then show "?Q i n data w r"
  proof cases
    case 1
    then show ?thesis by (simp add: word_less_nat_alt)
  next
    case 2
    have lt: "unat i < unat n" using 2(1) by (simp add: word_less_nat_alt)
    then have "Suc (unat i) < 4294967296" using unat_u32_bound [of n] by linarith
    then have "unat (i + 1) = unat i + 1" by (simp add: unat_word_ariths)
    with lt IH [OF 2(2)] show ?thesis by (auto simp: io_simps)
  next
    case 3
    from IH [OF this] show ?thesis by (simp add: io_simps)
  qed
qed

lemma wait_done_and_ack_reads:
  assumes "wait_done_and_ack w = Some w'" "a \<noteq> flash_reg FLASH_CTRL_OP_STATUS_REG_OFFSET"
  shows "reads_from a (trace w') = reads_from a (trace w)"
proof -
  from assms(1) obtain w1 where w1: "spin_while (do {
         v \<leftarrow> bus_read32 (flash_reg FLASH_CTRL_OP_STATUS_REG_OFFSET);
         ret (v AND push_bit 0 1 = 0)
       }) w = Some w1" and w': "w' = log (Wr32 (flash_reg FLASH_CTRL_OP_STATUS_REG_OFFSET) 0) w1"
    by (auto simp: wait_done_and_ack_def io_simps split: Option.bind_splits)
  from w1 have "reads_from a (trace w1) = reads_from a (trace w)"
    by (rule spin_while_invariant) (use assms(2) in \<open>simp_all add: io_simps\<close>)
  then show ?thesis by (simp add: w')
qed

lemma flash_read_words:
  assumes "flash_read addr part n w = Some ((e, data), w')"
  shows "length data = unat n \<and>
    reads_from (flash_reg FLASH_CTRL_RD_FIFO_REG_OFFSET) (trace w') =
      reads_from (flash_reg FLASH_CTRL_RD_FIFO_REG_OFFSET) (trace w) @ data"
proof -
  let ?w1 = "snd (run_state (do {
       _ \<leftarrow> bus_write32 (flash_reg FLASH_CTRL_ADDR_REG_OFFSET) addr;
       bus_write32 (flash_reg FLASH_CTRL_CONTROL_REG_OFFSET)
         (push_bit 4 FLASH_READ OR push_bit 8 (part_code part) OR push_bit 16 (n - 1) OR push_bit 0 0x1)
     }) w)"
  have 1: "reads_from (flash_reg FLASH_CTRL_RD_FIFO_REG_OFFSET) (trace ?w1) =
      reads_from (flash_reg FLASH_CTRL_RD_FIFO_REG_OFFSET) (trace w)" by (simp add: io_simps)
  from assms obtain w2 w3 where loop: "flash_read_loop 0 n [] ?w1 = Some (data, w2)"
    and 3: "wait_done_and_ack w2 = Some w3" "w' = snd (run_state get_clr_err w3)"
    unfolding flash_read_def by (force simp: case_prod_unfold Let_def split: Option.bind_splits)
  from 3 have "reads_from (flash_reg FLASH_CTRL_RD_FIFO_REG_OFFSET) (trace w') =
      reads_from (flash_reg FLASH_CTRL_RD_FIFO_REG_OFFSET) (trace w2)"
    using wait_done_and_ack_reads [of w2] by (auto simp: io_simps)
  with flash_read_loop_words [OF loop] 1 show ?thesis by auto
qed


end
