(* ===== verification/BootAreas.thy ===== *)
theory BootAreas
  imports Hmac FlashCtrl DifSpiDevice
begin

text \<open>
  Which bus addresses the hash library, the SPI driver's transfers and the flash library touch, and that a
  transfer keeps the length of its buffer: what the boot ROM's use of the three together rests on.
\<close>

section \<open>Address areas\<close>

definition flash_area :: "u32 set" where
  "flash_area = addr_range 0x41000000 0x41001000 \<union> addr_range 0x20000000 0x20080000"

definition hmac_area :: "u32 set" where
  "hmac_area = addr_range 0x41110000 0x41111000"

definition spi_area :: "u32 set" where
  "spi_area = addr_range 0x40050000 0x40090000"

lemma areas_disjoint:
  "hmac_area \<inter> flash_area = {}" "spi_area \<inter> flash_area = {}" "spi_area \<inter> hmac_area = {}"
  "flash_area \<inter> hmac_area = {}"
  by (auto simp: flash_area_def hmac_area_def spi_area_def in_addr_range)

section \<open>HMAC\<close>

lemma stays_read_words: "(\<And>i. i < n \<Longrightarrow> a + 4 * of_nat i \<in> A) \<Longrightarrow> stays A (read_words a n)"
proof (induction n arbitrary: a)
  case (Suc n)
  have "stays A (read_words (a + 4) n)"
    using Suc.prems [of "Suc i" for i] by (intro Suc.IH) (simp add: algebra_simps)
  with Suc.prems [of 0] show ?case by (auto intro!: within_intros)
qed (simp add: within_intros)

lemma unat_hmac_reg: "k < 4096 \<Longrightarrow> hmac_reg (of_nat k) \<in> hmac_area"
  by (simp add: hmac_area_def in_addr_range unat_word_ariths unat_of_nat_u32)

lemma hmac_update_words_within:
  "hmac_update_words n data w = Some (rest, w') \<Longrightarrow> within hmac_area w w'"
proof (induction n data w rule: hmac_update_words.induct)
  case (1 n data w)
  have words: "stays hmac_area (write_message_words data k)" for k
    by (intro within_intros) (simp add: hmac_area_def in_addr_range)
  have poll: "stays hmac_area (do { avail \<leftarrow> fifo_avail; ret (avail \<le> 8) })"
    unfolding fifo_avail_def hmac_fifo_depth_def by (intro within_intros) (simp add: hmac_area_def in_addr_range)
  show ?case
  proof (cases "n > 8")
    case True
    then have "n > 0" by simp
    from 1(3) True obtain w1 where w1: "spin_while (do { avail \<leftarrow> fifo_avail; ret (avail \<le> 8) }) w = Some w1"
      "hmac_update_words (n - 8) (drop 32 data) (snd (run_state (write_message_words data 8) w1)) = Some (rest, w')"
      by (subst (asm) hmac_update_words.simps) (auto split: Option.bind_splits)
    show ?thesis
      using within_trans [OF within_spin [OF w1(1) poll]] within_trans words [of 8, unfolded stays_def]
        1(1) [OF \<open>n > 0\<close> True w1] by blast
  next
    case False
    show ?thesis
    proof (cases "n > 0")
      case True
      from 1(3) True False have "hmac_update_words (n - 1) (drop 4 data) (snd (run_state (write_message_words data 1) w)) = Some (rest, w')"
        by (subst (asm) hmac_update_words.simps) simp
      from 1(2) [OF True False this] show ?thesis
        using within_trans words [of 1, unfolded stays_def] by blast
    next
      case False
      with 1(3) show ?thesis by (subst (asm) hmac_update_words.simps) (simp add: within_refl)
    qed
  qed
qed

lemma hmac_update_within:
  assumes "hmac_update data len w = Some w'"
  shows "within hmac_area w w'"
proof -
  from assms obtain rest w1 where w1: "hmac_update_words (len div 4) data w = Some (rest, w1)"
    and w': "w' = snd (run_state (for_each [0..<len mod 4]
       (\<lambda>i. bus_write8 (hmac_reg HMAC_MSG_FIFO_REG_OFFSET) (rest ! i))) w1)"
    by (auto simp: hmac_update_def split: Option.bind_splits)
  have "stays hmac_area (for_each [0..<len mod 4] (\<lambda>i. bus_write8 (hmac_reg HMAC_MSG_FIFO_REG_OFFSET) (rest ! i)))"
    by (intro within_intros) (simp add: hmac_area_def in_addr_range)
  with hmac_update_words_within [OF w1] show ?thesis unfolding w' stays_def by (blast intro: within_trans)
qed

lemma sha256_init_stays: "stays hmac_area sha256_init"
proof -
  have "hmac_reg (HMAC_KEY_0_REG_OFFSET + of_nat i * 4) \<in> hmac_area" if "i < 8" for i
    using unat_hmac_reg [of "0x20 + i * 4"] that by simp
  then show ?thesis unfolding sha256_init_def hmac_init_def
    by (intro within_intros) (simp_all add: hmac_area_def in_addr_range)
qed

lemma hmac_done_within:
  assumes "hmac_done w = Some (d, w')"
  shows "within hmac_area w w'"
proof -
  let ?w1 = "log (Wr32 (hmac_reg HMAC_CMD_REG_OFFSET) 2) w"
  let ?poll = "do { v \<leftarrow> bus_read32 (hmac_reg HMAC_INTR_STATE_REG_OFFSET); ret (drop_bit 0 v AND 0x1 = 0) } :: bool io"
  let ?read = "do { _ \<leftarrow> bus_write32 (hmac_reg HMAC_INTR_STATE_REG_OFFSET) (push_bit 0 1);
         read_words (hmac_reg HMAC_DIGEST_0_REG_OFFSET) 8 }"
  from assms obtain w2 where spin: "spin_while ?poll ?w1 = Some w2" and fin: "(d, w') = run_state ?read w2"
    by (auto simp: hmac_done_def io_simps split: Option.bind_splits)
  have 1: "within hmac_area w ?w1" by (intro within_log within_refl) (simp add: hmac_area_def in_addr_range)
  have "hmac_reg HMAC_DIGEST_0_REG_OFFSET + 4 * of_nat i \<in> hmac_area" if "i < 8" for i
    using unat_hmac_reg [of "0x40 + 4 * i"] that by simp
  then have 3: "stays hmac_area ?read"
    by (intro within_intros stays_read_words) (simp_all add: hmac_area_def in_addr_range)
  have "stays hmac_area ?poll" by (intro within_intros) (simp add: hmac_area_def in_addr_range)
  from within_trans [OF within_trans [OF 1 within_spin [OF spin this]] staysD [OF 3 fin [symmetric]]] show ?thesis .
qed

lemma hw_SHA256_hash_within:
  assumes "hw_SHA256_hash data len w = Some (d, w')"
  shows "within hmac_area w w'"
proof -
  from assms obtain w2 ws where "hmac_update data len (snd (run_state sha256_init w)) = Some w2" "hmac_done w2 = Some (ws, w')"
    by (auto simp: hw_SHA256_hash_def case_prod_unfold split: Option.bind_splits)
  with sha256_init_stays show ?thesis unfolding stays_def
    by (blast intro: within_trans hmac_update_within hmac_done_within)
qed

section \<open>SPI\<close>

abbreviation TOP_EARLGREY_SPI_DEVICE_BASE_ADDR :: u32 where "TOP_EARLGREY_SPI_DEVICE_BASE_ADDR \<equiv> 0x40050000"

text \<open>All sums of the copy loop are of a 13-bit offset and 16-bit values.\<close>

definition at_spi :: "dif_spi_device \<Rightarrow> bool" where
  "at_spi spi \<longleftrightarrow> spi_base spi = mmio_region_from_addr TOP_EARLGREY_SPI_DEVICE_BASE_ADDR"

lemma spi_reg_area: "at_spi spi \<Longrightarrow> unat off < 65536 \<Longrightarrow> mmio_addr32 (spi_base spi) off \<in> spi_area"
  unfolding spi_area_def
  by (intro mmio_addr32_in_range) (simp_all add: at_spi_def mmio_region_from_addr_def)

lemma spi_ptrs_stay:
  assumes "at_spi spi" "params = kRxFifoParams \<or> params = kTxFifoParams"
  shows "stays spi_area (decompress_ptrs spi params)" "stays spi_area (compress_ptrs spi params ptrs)"
  using assms unfolding decompress_ptrs_def compress_ptrs_def Let_def
  by (auto simp: kRxFifoParams_def kTxFifoParams_def intro!: within_intros spi_reg_area)

lemma spi_sram_stays:
  fixes base off :: u16
  assumes "at_spi spi" "n < 65536"
  shows "stays spi_area (mmio_region_memcpy_from_mmio32 (spi_base spi) (SPI_DEVICE_BUFFER_REG_OFFSET + ucast base + ucast off) buf n)"
    "stays spi_area (mmio_region_memcpy_to_mmio32 (spi_base spi) (SPI_DEVICE_BUFFER_REG_OFFSET + ucast base + ucast off) buf n)"
proof -
  have b: "unat base < 65536" "unat off < 65536" by simp_all
  then have "4096 + unat base < 4294967296" "4096 + unat base + unat off < 4294967296" by linarith+
  then have u: "unat (SPI_DEVICE_BUFFER_REG_OFFSET + ucast base + ucast off :: u32) = 4096 + unat base + unat off"
    by (simp add: unat_word_ariths)
  have a: "unat (mmio_base (spi_base spi)) = 0x40050000"
    using assms(1) by (simp add: at_spi_def mmio_region_from_addr_def)
  have bounds: "unat (mmio_base (spi_base spi)) + unat (SPI_DEVICE_BUFFER_REG_OFFSET + ucast base + ucast off :: u32) + n < 4294967296"
    "0x40050000 \<le> unat (mmio_base (spi_base spi))"
    "unat (mmio_base (spi_base spi)) + unat (SPI_DEVICE_BUFFER_REG_OFFSET + ucast base + ucast off :: u32) + n \<le> 0x40090000"
    using b assms(2) unfolding a u by linarith+
  show "stays spi_area (mmio_region_memcpy_from_mmio32 (spi_base spi) (SPI_DEVICE_BUFFER_REG_OFFSET + ucast base + ucast off) buf n)"
    "stays spi_area (mmio_region_memcpy_to_mmio32 (spi_base spi) (SPI_DEVICE_BUFFER_REG_OFFSET + ucast base + ucast off) buf n)"
    unfolding spi_area_def by (rule stays_memcpy_mmio [OF bounds])+
qed

lemma spi_copy_loop_within:
  assumes "at_spi spi"
  shows "spi_copy_loop spi base len is_recv p bl buf w = Some (p', buf', w') \<Longrightarrow> within spi_area w w'"
proof -
  have "at_spi spi \<longrightarrow> within spi_area w (snd (snd r))"
    if "spi_copy_loop spi base len is_recv p bl buf w = Some r" for r
  proof (rule spi_copy_loop.raw_induct [rotated, OF that, where P = "\<lambda>spi base len is_recv p bl buf w r.
      at_spi spi \<longrightarrow> within spi_area w (snd (snd r))"])
    fix f spi and base len :: u16 and is_recv p and bl :: u16 and buf w r
    assume IH: "\<And>spi base len is_recv p bl buf w r. f spi base len is_recv p bl buf w = Some r \<Longrightarrow>
        at_spi spi \<longrightarrow> within spi_area w (snd (snd (r :: fifo_ptr \<times> u8 list \<times> world)))"
      and eq: "(if bl > 0 then
        (let mmio_offset = SPI_DEVICE_BUFFER_REG_OFFSET + ucast base + ucast (ptr_offset p);
             bytes_until_wrap = (ucast len - ucast (ptr_offset p) :: u32);
             bytes_to_copy = (if ucast bl > bytes_until_wrap then ucast bytes_until_wrap else bl);
             (byte_buf, w) =
               (if is_recv
                then run_state (mmio_region_memcpy_from_mmio32 (spi_base spi) mmio_offset buf (unat bytes_to_copy)) w
                else (buf,
                  snd (run_state (mmio_region_memcpy_to_mmio32 (spi_base spi) mmio_offset buf (unat bytes_to_copy)) w)));
             p = fifo_ptr_increment p bytes_to_copy len
         in do {
           (p, rest, w) \<leftarrow> f spi base len is_recv p (bl - bytes_to_copy) (drop (unat bytes_to_copy) byte_buf) w;
           Some (p, take (unat bytes_to_copy) byte_buf @ rest, w)
         })
      else Some (p, buf, w)) = Some r"
    show "at_spi spi \<longrightarrow> within spi_area w (snd (snd r))"
    proof
      assume spi: "at_spi spi"
      show "within spi_area w (snd (snd r))"
      proof (cases "bl > 0")
        case False
        with eq show ?thesis by (auto simp: within_refl)
      next
        case True
        define n where "n = (if ucast bl > (ucast len - ucast (ptr_offset p) :: u32)
            then ucast (ucast len - ucast (ptr_offset p) :: u32) else bl)"
        let ?off = "SPI_DEVICE_BUFFER_REG_OFFSET + ucast base + ucast (ptr_offset p) :: u32"
        define c where "c = (if is_recv then run_state (mmio_region_memcpy_from_mmio32 (spi_base spi) ?off buf (unat n)) w
          else (buf, snd (run_state (mmio_region_memcpy_to_mmio32 (spi_base spi) ?off buf (unat n)) w)))"
        have "within spi_area w (snd c)"
          using spi_sram_stays [OF spi, of "unat n"] by (auto simp: stays_def c_def)
        moreover
        have "Option.bind (f spi base len is_recv (fifo_ptr_increment p n len) (bl - n) (drop (unat n) (fst c)) (snd c))
            (\<lambda>q. Some (fst q, take (unat n) (fst c) @ fst (snd q), snd (snd q))) = Some r"
          using eq unfolding Let_def n_def [symmetric] case_prod_unfold if_P [OF True] c_def .
        then obtain q where q:
          "f spi base len is_recv (fifo_ptr_increment p n len) (bl - n) (drop (unat n) (fst c)) (snd c) = Some q"
          "r = (fst q, take (unat n) (fst c) @ fst (snd q), snd (snd q))"
          unfolding bind_eq_Some_conv by (elim exE conjE) (simp only: option.inject)
        moreover have "within spi_area (snd c) (snd (snd q))" using IH [OF q(1)] spi by simp
        ultimately show ?thesis unfolding q(2) snd_conv by (blast intro: within_trans)
      qed
    qed
  qed
  with assms show "spi_copy_loop spi base len is_recv p bl buf w = Some (p', buf', w') \<Longrightarrow> within spi_area w w'" by fastforce
qed

lemma spi_memcpy_within:
  assumes "at_spi spi" "spi_memcpy spi fifo base len buf n is_recv w = Some (k, fifo', buf', w')"
  shows "within spi_area w w'"
  using assms(2) spi_copy_loop_within [OF assms(1)]
  by (auto simp: spi_memcpy_def Let_def within_refl split: if_splits option.splits)

lemma dif_spi_device_recv_within:
  assumes "at_spi spi" "dif_spi_device_recv (Some spi) (Some b) n p w = Some (res, b', p', w')"
  shows "within spi_area w w' \<and> res = kDifSpiDeviceOk \<and> b' \<noteq> None"
proof -
  let ?d = "run_state (decompress_ptrs spi kRxFifoParams) w"
  from assms(2) obtain k fifo b1 w1 where m: "spi_memcpy spi (fst ?d) 0 (rx_fifo_len spi) b n True (snd ?d) = Some (k, fifo, b1, w1)"
    and r: "res = kDifSpiDeviceOk" "b' = Some b1"
      "w' = (if k > 0 then snd (run_state (compress_ptrs spi kRxFifoParams fifo) w1) else w1)"
    by (auto simp: dif_spi_device_recv_def Let_def case_prod_beta split: option.splits)
  have "within spi_area w (snd ?d)" "within spi_area w1 w'"
    using spi_ptrs_stay [OF assms(1)] r(3) by (auto simp: stays_def within_refl)
  then show ?thesis using spi_memcpy_within [OF assms(1) m] r by (blast intro: within_trans)
qed

lemma rx_pending_within:
  assumes "at_spi spi"
  shows "\<exists>n w'. run_state (dif_spi_device_rx_pending (Some spi) (Some 0)) w = ((kDifSpiDeviceOk, Some n), w') \<and> within spi_area w w'"
  using spi_ptrs_stay(1) [OF assms, of kRxFifoParams]
  by (auto simp: dif_spi_device_rx_pending_def stays_def case_prod_beta)

section \<open>Flash\<close>

lemma flash_reg_area: "k < 4096 \<Longrightarrow> flash_reg (of_nat k) \<in> flash_area"
  by (simp add: flash_area_def in_addr_range unat_word_ariths unat_of_nat_u32)

lemmas flash_reg_areas =
  flash_reg_area [of "0x14", simplified] flash_reg_area [of "0x18", simplified] flash_reg_area [of "0x64", simplified]
  flash_reg_area [of "0x13c", simplified] flash_reg_area [of "0x140", simplified] flash_reg_area [of "0x144", simplified]
  flash_reg_area [of "0x148", simplified] flash_reg_area [of "0x16c", simplified]

lemma wait_done_and_ack_within:
  assumes "wait_done_and_ack w = Some w'"
  shows "within flash_area w w'"
proof -
  let ?poll = "do { v \<leftarrow> bus_read32 (flash_reg FLASH_CTRL_OP_STATUS_REG_OFFSET); ret (v AND push_bit 0 1 = 0) } :: bool io"
  have poll: "stays flash_area ?poll" and ack: "stays flash_area (bus_write32 (flash_reg FLASH_CTRL_OP_STATUS_REG_OFFSET) 0)"
    using flash_reg_areas by (auto intro!: within_intros simp del: bind_assoc)
  from assms obtain w1 where "spin_while ?poll w = Some w1"
    "w' = snd (run_state (bus_write32 (flash_reg FLASH_CTRL_OP_STATUS_REG_OFFSET) 0) w1)"
    by (auto simp: wait_done_and_ack_def bind_eq_Some_conv)
  with within_spin [OF _ poll] ack show ?thesis unfolding stays_def by (blast intro: within_trans)
qed

lemma get_clr_err_stays: "stays flash_area get_clr_err"
  unfolding get_clr_err_def using flash_reg_areas by (intro within_intros) simp_all

lemma flash_cfg_bank_erase_stays: "stays flash_area (flash_cfg_bank_erase b en)"
  unfolding flash_cfg_bank_erase_def using flash_reg_areas by (intro within_intros) simp_all

lemma flash_default_region_access_stays: "stays flash_area (flash_default_region_access a b c)"
  unfolding flash_default_region_access_def using flash_reg_areas by (intro within_intros) simp_all

text \<open>An operation of the shape: start a command, wait for it, finish.\<close>

lemma start_wait_finish:
  assumes "do { let (_, w) = run_state m w; w \<leftarrow> wait_done_and_ack w; Some (run_state n w) } = Some (x, w')"
    "stays flash_area m" "stays flash_area n"
  shows "within flash_area w w'"
proof -
  from assms(1) obtain w1 where "wait_done_and_ack (snd (run_state m w)) = Some w1" "run_state n w1 = (x, w')"
    by (auto simp: case_prod_beta bind_eq_Some_conv)
  then show ?thesis using assms(2) staysD [OF assms(3)] unfolding stays_def
    by (blast intro: within_trans wait_done_and_ack_within)
qed

lemma flash_bank_erase_within: "flash_bank_erase b w = Some (e, w') \<Longrightarrow> within flash_area w w'"
  unfolding flash_bank_erase_def by (erule start_wait_finish)
    (intro within_intros flash_cfg_bank_erase_stays get_clr_err_stays; use flash_reg_areas in simp)+

lemma flash_write_internal_within: "flash_write_internal a part data n w = Some (e, w') \<Longrightarrow> within flash_area w w'"
  unfolding flash_write_internal_def by (erule start_wait_finish)
    (intro within_intros get_clr_err_stays; use flash_reg_areas in simp)+

lemma flash_write_loop_within:
  "flash_write_loop addr part data n m r c err w = Some x \<Longrightarrow> within flash_area w (snd x)"
proof (erule flash_write_loop.raw_induct [rotated])
  fix f and addr :: u32 and part data and n m r c err :: u32 and w x
  assume IH: "\<And>addr part data n m r c err w x. f addr part data n m r c err w = Some x \<Longrightarrow> within flash_area w (snd (x :: u32 \<times> world))"
    and eq: "(if r > 0 then
        (let k = (if r < m then r else m) in do {
           (e, w) \<leftarrow> flash_write_internal (addr + c * 4) part data k w;
           let c = c + k;
           f addr part (drop (unat k) data) n PROGRAM_RESOLUTION_WORDS (n - c) c (err OR e) w
         })
      else Some (err, w)) = Some x"
  show "within flash_area w (snd x)"
  proof (cases "r > 0")
    case False
    with eq show ?thesis by (auto simp: within_refl)
  next
    case True
    with eq obtain e w1 where w1: "flash_write_internal (addr + c * 4) part data (if r < m then r else m) w = Some (e, w1)"
      and rest: "f addr part (drop (unat (if r < m then r else m)) data) n PROGRAM_RESOLUTION_WORDS
        (n - (c + (if r < m then r else m))) (c + (if r < m then r else m)) (err OR e) w1 = Some x"
      by (auto simp: Let_def bind_eq_Some_conv)
    from within_trans [OF flash_write_internal_within [OF w1] IH [OF rest]] show ?thesis .
  qed
qed

lemma flash_write_within: "flash_write addr part data n w = Some (e, w') \<Longrightarrow> within flash_area w w'"
  unfolding flash_write_def Let_def using flash_write_loop_within by fastforce

lemma flash_and_words_stays: "(\<And>i. i < n \<Longrightarrow> p + 4 * of_nat i \<in> A) \<Longrightarrow> stays A (flash_and_words n p msk)"
proof (induction n arbitrary: p msk)
  case (Suc n)
  have "stays A (flash_and_words n (p + 4) m)" for m
    using Suc.prems [of "Suc i" for i] by (intro Suc.IH) (simp add: algebra_simps)
  with Suc.prems [of 0] show ?case by (auto intro!: within_intros)
qed (simp add: within_intros)

definition flash_memory :: "u32 set" where
  "flash_memory = addr_range 0x20000000 0x20080000"

lemma flash_check_loop_stays:
  "\<exists>k \<le> 16384. p = FLASH_MEM_BASE_ADDR + 32 * of_nat k \<Longrightarrow> stays flash_memory (flash_check_loop p msk)"
proof (induction p msk rule: flash_check_loop.induct)
  case (1 p msk)
  then obtain k where k: "k \<le> 16384" "p = FLASH_MEM_BASE_ADDR + 32 * of_nat k" by blast
  show ?case
  proof (cases "p < FLASH_MEM_BASE_ADDR + flash_get_bank_size")
    case False
    then show ?thesis by (subst flash_check_loop.simps) (simp add: within_intros)
  next
    case True
    have up: "unat p = 0x20000000 + 32 * k" using k by (simp add: unat_word_ariths unat_of_nat_u32)
    with True have lt: "k < 16384" by (simp add: word_less_nat_alt flash_get_bank_size_def)
    have words: "stays flash_memory (flash_and_words 8 p msk)"
    proof (rule flash_and_words_stays)
      fix i :: nat assume "i < 8"
      then have "unat (p + 4 * of_nat i) = 0x20000000 + 32 * k + 4 * i"
        using lt up by (simp add: unat_word_ariths unat_of_nat_u32)
      then show "p + 4 * of_nat i \<in> flash_memory" using lt \<open>i < 8\<close> by (simp add: flash_memory_def in_addr_range)
    qed
    have "\<exists>k \<le> 16384. p + 32 = FLASH_MEM_BASE_ADDR + 32 * of_nat k"
      using lt k(2) by (intro exI [of _ "Suc k"]) simp
    with 1(1) [OF True] have "\<not> m \<noteq> - 1 \<Longrightarrow> stays flash_memory (flash_check_loop (p + 32) m)" for m by blast
    then show ?thesis unfolding flash_check_loop.simps [of p msk] by (intro within_intros words)
  qed
qed

lemma flash_check_empty_stays: "stays flash_memory flash_check_empty"
  unfolding flash_check_empty_def by (rule flash_check_loop_stays) (auto intro!: exI [of _ 0])

lemma flash_check_empty_within: "within flash_area w (snd (run_state flash_check_empty w))"
proof -
  have "flash_memory \<subseteq> flash_area" by (auto simp: flash_memory_def flash_area_def)
  with flash_check_empty_stays show ?thesis unfolding stays_def by (blast intro: within_mono)
qed


section \<open>The length of the received frame\<close>

lemma length_words_from_mmio:
  "len \<le> length buf \<Longrightarrow> length (fst (run_state (mmio_memcpy32_words b off buf len True) w)) = length buf"
proof (induction b off buf len True arbitrary: w rule: mmio_memcpy32_words.induct)
  case (1 b off buf len)
  show ?case
  proof (cases "len = 0")
    case True
    then show ?thesis by (simp add: mmio_memcpy32_words.simps)
  next
    case False
    define n where "n = (if 4 > len then len else 4)"
    have n: "n \<le> len" "n \<le> 4" "n \<le> length buf" using 1(3) by (auto simp: n_def)
    have "length (fst (run_state (mmio_memcpy32_words b (off + of_nat n) (drop n buf) (len - n) True) w')) = length buf - n" for w'
      using 1(1) [OF _ n_def TrueI, of w'] False 1(3) n by simp
    then show ?thesis using False n
      unfolding mmio_memcpy32_words.simps [of b off buf len True] Let_def n_def [symmetric]
      by (simp add: case_prod_beta io_simps)
  qed
qed

lemma length_memcpy_from_mmio:
  assumes "len \<le> length buf"
  shows "length (fst (run_state (mmio_region_memcpy_from_mmio32 b off buf len) w)) = length buf"
proof (cases "len = 0")
  case True
  then show ?thesis by (simp add: mmio_region_memcpy_from_mmio32_def mmio_region_memcpy32_def)
next
  case False
  define m where "m = unat (misalignment32_of off)"
  define n where "n = (if 4 - m > len then len else 4 - m)"
  have m: "m < 4" by (simp add: m_def misalignment32_of_def unat_mod_distrib)
  then have n: "n \<le> len" "m + n \<le> 4" "n \<le> length buf" using assms by (auto simp: n_def)
  then have "length (fst (run_state (mmio_memcpy32_words b (off + of_nat n) (drop n buf) (len - n) True) w')) = length buf - n" for w'
    using assms length_words_from_mmio [of "len - n" "drop n buf" b "off + of_nat n" w'] by simp
  then show ?thesis using False n length_words_from_mmio [OF assms, of b off w]
    unfolding mmio_region_memcpy_from_mmio32_def mmio_region_memcpy32_def Let_def m_def [symmetric] n_def [symmetric]
    by (simp add: case_prod_beta io_simps)
qed

lemma spi_copy_loop_length:
  "spi_copy_loop spi base len is_recv p bl buf w = Some r \<Longrightarrow> unat bl \<le> length buf \<longrightarrow> length (fst (snd r)) = length buf"
proof (erule spi_copy_loop.raw_induct [rotated])
  fix f spi and base len :: u16 and is_recv p and bl :: u16 and buf w r
  assume IH: "\<And>spi base len is_recv p bl buf w r. f spi base len is_recv p bl buf w = Some r \<Longrightarrow>
      unat bl \<le> length buf \<longrightarrow> length (fst (snd (r :: fifo_ptr \<times> u8 list \<times> world))) = length buf"
    and eq: "(if bl > 0 then
      (let mmio_offset = SPI_DEVICE_BUFFER_REG_OFFSET + ucast base + ucast (ptr_offset p);
           bytes_until_wrap = (ucast len - ucast (ptr_offset p) :: u32);
           bytes_to_copy = (if ucast bl > bytes_until_wrap then ucast bytes_until_wrap else bl);
           (byte_buf, w) =
             (if is_recv
              then run_state (mmio_region_memcpy_from_mmio32 (spi_base spi) mmio_offset buf (unat bytes_to_copy)) w
              else (buf,
                snd (run_state (mmio_region_memcpy_to_mmio32 (spi_base spi) mmio_offset buf (unat bytes_to_copy)) w)));
           p = fifo_ptr_increment p bytes_to_copy len
       in do {
         (p, rest, w) \<leftarrow> f spi base len is_recv p (bl - bytes_to_copy) (drop (unat bytes_to_copy) byte_buf) w;
         Some (p, take (unat bytes_to_copy) byte_buf @ rest, w)
       })
    else Some (p, buf, w)) = Some r"
  show "unat bl \<le> length buf \<longrightarrow> length (fst (snd r)) = length buf"
  proof
    assume le: "unat bl \<le> length buf"
    show "length (fst (snd r)) = length buf"
    proof (cases "bl > 0")
      case False
      with eq show ?thesis by auto
    next
      case True
      define n where "n = (if ucast bl > (ucast len - ucast (ptr_offset p) :: u32)
          then ucast (ucast len - ucast (ptr_offset p) :: u32) else bl)"
      let ?off = "SPI_DEVICE_BUFFER_REG_OFFSET + ucast base + ucast (ptr_offset p) :: u32"
      define c where "c = (if is_recv then run_state (mmio_region_memcpy_from_mmio32 (spi_base spi) ?off buf (unat n)) w
        else (buf, snd (run_state (mmio_region_memcpy_to_mmio32 (spi_base spi) ?off buf (unat n)) w)))"
      have "n \<le> bl"
      proof (cases "ucast bl > (ucast len - ucast (ptr_offset p) :: u32)")
        case True
        then have lt: "unat (ucast len - ucast (ptr_offset p) :: u32) < unat bl" by (simp add: word_less_nat_alt)
        also have "unat bl < 65536" by simp
        finally have "unat (ucast (ucast len - ucast (ptr_offset p) :: u32) :: u16) = unat (ucast len - ucast (ptr_offset p) :: u32)"
          by (simp add: unsigned_ucast_eq take_bit_nat_eq_self)
        with lt True show ?thesis by (simp add: n_def word_le_nat_alt)
      qed (simp add: n_def)
      then have n: "unat n \<le> unat bl" "unat (bl - n) = unat bl - unat n" by (simp_all add: word_le_nat_alt unat_sub)
      have len_c: "length (fst c) = length buf" using le n length_memcpy_from_mmio [of "unat n" buf] by (simp add: c_def)
      have "Option.bind (f spi base len is_recv (fifo_ptr_increment p n len) (bl - n) (drop (unat n) (fst c)) (snd c))
          (\<lambda>q. Some (fst q, take (unat n) (fst c) @ fst (snd q), snd (snd q))) = Some r"
        using eq unfolding Let_def n_def [symmetric] case_prod_unfold if_P [OF True] c_def .
      then obtain q where q:
        "f spi base len is_recv (fifo_ptr_increment p n len) (bl - n) (drop (unat n) (fst c)) (snd c) = Some q"
        "r = (fst q, take (unat n) (fst c) @ fst (snd q), snd (snd q))"
        unfolding bind_eq_Some_conv by (elim exE conjE) (simp only: option.inject)
      show ?thesis using IH [OF q(1)] le n len_c by (simp add: q(2))
    qed
  qed
qed

lemma spi_memcpy_length:
  assumes "spi_memcpy spi fifo base len buf n is_recv w = Some (k, fifo', buf', w')" "n \<le> length buf" "n < 65536"
  shows "length buf' = length buf"
proof -
  define l where "l = (if \<not> is_recv then len - fifo_bytes_in_use fifo len else fifo_bytes_in_use fifo len)"
  define bl where "bl = (if unat l > n then of_nat n else l)"
  have bl: "unat bl \<le> length buf" using assms(2,3) by (auto simp: bl_def unat_of_nat_u16)
  note run = assms(1) [unfolded spi_memcpy_def Let_def, folded l_def, folded bl_def]
  show ?thesis
  proof (cases "bl = 0")
    case True
    with run show ?thesis by simp
  next
    case False
    with run obtain p where "spi_copy_loop spi base len is_recv (if is_recv then read_ptr fifo else write_ptr fifo) bl buf w
        = Some (p, buf', w')"
      by (auto split: option.splits)
    from spi_copy_loop_length [OF this] bl show ?thesis by simp
  qed
qed

lemma dif_spi_device_recv_length:
  assumes "dif_spi_device_recv (Some spi) (Some b) n p w = Some (res, Some b', p', w')" "n \<le> length b" "n < 65536"
  shows "length b' = length b"
  using assms(1) spi_memcpy_length [OF _ assms(2,3)]
  by (fastforce simp: dif_spi_device_recv_def Let_def case_prod_beta split: option.splits)

end
