(* ===== verification/Bootstrap.thy ===== *)
theory Bootstrap
  imports BootAreas DifGpio
begin

text \<open>
  The bootstrap of the boot ROM (\<open>sw/device/boot_rom/bootstrap.c\<close>): it receives frames over SPI, checks
  their number and hash, and programs them into flash. A failed \<open>CHECK\<close> ends in \<open>abort\<close>, which does not
  return: the value \<open>None\<close>, as for a wait that never ends. Log messages are left out. The device the ROM was
  built for is a parameter, as is what the uninitialised frame buffer contains in each turn of the loop.
\<close>

section \<open>Frames\<close>

text \<open>
  A frame as it lies in memory: 32 bytes of hash, the frame number, the flash offset and 502 data words,
  2048 bytes in all (\<open>spiflash_frame.h\<close>).
\<close>

type_synonym spiflash_frame = "u8 list"

abbreviation SPIFLASH_RAW_BUFFER_SIZE :: nat where "SPIFLASH_RAW_BUFFER_SIZE \<equiv> 2048"
abbreviation SHA256_DIGEST_SIZE :: nat where "SHA256_DIGEST_SIZE \<equiv> 32"
abbreviation SPIFLASH_FRAME_DATA_WORDS :: u32 where "SPIFLASH_FRAME_DATA_WORDS \<equiv> 502"

definition header_hash :: "spiflash_frame \<Rightarrow> u8 list" where
  "header_hash f = take SHA256_DIGEST_SIZE f"

definition header_frame_num :: "spiflash_frame \<Rightarrow> u32" where
  "header_frame_num f = bytes_word (take 4 (drop 32 f))"

definition header_flash_offset :: "spiflash_frame \<Rightarrow> u32" where
  "header_flash_offset f = bytes_word (take 4 (drop 36 f))"

definition spiflash_frame_data :: "spiflash_frame \<Rightarrow> u32 list" where
  "spiflash_frame_data f = map (word_of_message (drop 40 f)) [0..<unat SPIFLASH_FRAME_DATA_WORDS]"

definition SPIFLASH_FRAME_NUM :: "u32 \<Rightarrow> u32" where
  "SPIFLASH_FRAME_NUM k = k AND 0xffffff"

definition SPIFLASH_FRAME_IS_EOF :: "u32 \<Rightarrow> bool" where
  "SPIFLASH_FRAME_IS_EOF k \<longleftrightarrow> k AND 0x80000000 \<noteq> 0"

section \<open>The program\<close>

abbreviation E_BS_ERASE :: u32 where "E_BS_ERASE \<equiv> 10"
abbreviation E_BS_NOTEMPTY :: u32 where "E_BS_NOTEMPTY \<equiv> 11"
abbreviation E_BS_WRITE :: u32 where "E_BS_WRITE \<equiv> 12"
abbreviation GPIO_BOOTSTRAP_BIT_MASK :: u32 where "GPIO_BOOTSTRAP_BIT_MASK \<equiv> 0x00020000"
abbreviation TOP_EARLGREY_GPIO_BASE_ADDR :: u32 where "TOP_EARLGREY_GPIO_BASE_ADDR \<equiv> 0x40040000"

datatype device_type = kDeviceSimDV | kDeviceSimVerilator | kDeviceFpgaNexysVideo

definition bootstrap_requested :: "device_type \<Rightarrow> world \<Rightarrow> (bool \<times> world) option" where
  "bootstrap_requested kDeviceType w =
     (if kDeviceType = kDeviceSimVerilator then
        (let flash_region = mmio_region_from_addr FLASH_MEM_BASE_ADDR;
             (v, w) = run_state (mmio_region_read32 flash_region 0x0) w
         in Some (v = 0 \<or> v = - 1, w))
      else
        (let gpio_params = \<lparr>gpio_base_addr = mmio_region_from_addr TOP_EARLGREY_GPIO_BASE_ADDR\<rparr>;
             (res, gpio) = dif_gpio_init gpio_params (Some \<lparr>gpio_params = gpio_params\<rparr>)
         in if res \<noteq> kDifGpioOk then None
            else
              (let ((res, gpio_in), w) = run_state (dif_gpio_read_all gpio (Some 0)) w
               in if res \<noteq> kDifGpioOk then None
                  else Some (the gpio_in AND GPIO_BOOTSTRAP_BIT_MASK \<noteq> 0, w))))"

definition erase_flash :: "world \<Rightarrow> (u32 \<times> world) option" where
  "erase_flash w = do {
     (err, w) \<leftarrow> flash_bank_erase FLASH_BANK_0 w;
     if err \<noteq> 0 then Some (E_BS_ERASE, w)
     else do {
       (err, w) \<leftarrow> flash_bank_erase FLASH_BANK_1 w;
       if err \<noteq> 0 then Some (E_BS_ERASE, w)
       else
         (let (is_empty, w) = run_state flash_check_empty w
          in if is_empty = 0 then Some (E_BS_NOTEMPTY, w) else Some (0, w))
     }
   }"

text \<open>\<open>memcmp\<close> of the two hashes is equality of their bytes.\<close>

definition check_frame_hash :: "spiflash_frame \<Rightarrow> world \<Rightarrow> (bool \<times> world) option" where
  "check_frame_hash frame w = do {
     (hash, w) \<leftarrow> hw_SHA256_hash (drop SHA256_DIGEST_SIZE frame) (SPIFLASH_RAW_BUFFER_SIZE - SHA256_DIGEST_SIZE) w;
     Some (hash = header_hash frame, w)
   }"

text \<open>\<open>CHECK(dif_spi_device_send(spi, ack, sizeof(ack), NULL) == kDifSpiDeviceOk)\<close>.\<close>

definition send_ack :: "dif_spi_device \<Rightarrow> u8 list \<Rightarrow> world \<Rightarrow> world option" where
  "send_ack spi ack w = do {
     (res, _, w) \<leftarrow> dif_spi_device_send (Some spi) (Some ack) SHA256_DIGEST_SIZE NULL w;
     if res \<noteq> kDifSpiDeviceOk then None else Some w
   }"

text \<open>One turn of the loop goes on with the next ack and expected number, or returns a code.\<close>

datatype bootstrap_step = Goes_on "u8 list" u32 world | Returns u32 world

text \<open>The end of the turn for an accepted frame: \<open>flash_write\<close>, the frame count and the EOF test.\<close>

definition bootstrap_program :: "u8 list \<Rightarrow> u32 \<Rightarrow> spiflash_frame \<Rightarrow> world \<Rightarrow> bootstrap_step option" where
  "bootstrap_program ack expected_frame_num frame w = do {
     (err, w) \<leftarrow> flash_write (header_flash_offset frame) kDataPartition (spiflash_frame_data frame)
       SPIFLASH_FRAME_DATA_WORDS w;
     if err \<noteq> 0 then Some (Returns E_BS_WRITE w)
     else if SPIFLASH_FRAME_IS_EOF (header_frame_num frame) then Some (Returns 0 w)
     else Some (Goes_on ack (expected_frame_num + 1) w)
   }"

text \<open>What follows the acknowledgement of a verified frame: the first one has the flash erased.\<close>

definition bootstrap_commit :: "u8 list \<Rightarrow> u32 \<Rightarrow> spiflash_frame \<Rightarrow> world \<Rightarrow> bootstrap_step option" where
  "bootstrap_commit ack expected_frame_num frame w =
     (if expected_frame_num = 0 then do {
        let (_, w) = run_state (flash_default_region_access True True True) w;
        (flash_error, w) \<leftarrow> erase_flash w;
        if flash_error \<noteq> 0 then Some (Returns flash_error w)
        else bootstrap_program ack expected_frame_num frame w
      } else bootstrap_program ack expected_frame_num frame w)"

text \<open>The turn for the expected frame.\<close>

definition bootstrap_accept ::
  "dif_spi_device \<Rightarrow> u8 list \<Rightarrow> u32 \<Rightarrow> spiflash_frame \<Rightarrow> world \<Rightarrow> bootstrap_step option" where
  "bootstrap_accept spi ack expected_frame_num frame w = do {
     (ok, w) \<leftarrow> check_frame_hash frame w;
     if \<not> ok then do {
       w \<leftarrow> send_ack spi ack w;
       Some (Goes_on ack expected_frame_num w)
     } else do {
       (ack, w) \<leftarrow> hw_SHA256_hash frame SPIFLASH_RAW_BUFFER_SIZE w;
       w \<leftarrow> send_ack spi ack w;
       bootstrap_commit ack expected_frame_num frame w
     }
   }"

definition bootstrap_turn ::
  "dif_spi_device \<Rightarrow> (world \<Rightarrow> spiflash_frame) \<Rightarrow> u8 list \<Rightarrow> u32 \<Rightarrow> world \<Rightarrow> bootstrap_step option" where
  "bootstrap_turn spi buffer ack expected_frame_num w =
     (let ((res, bytes_available), w) = run_state (dif_spi_device_rx_pending (Some spi) (Some 0)) w
      in if res \<noteq> kDifSpiDeviceOk then None
      else if the bytes_available \<ge> SPIFLASH_RAW_BUFFER_SIZE then do {
        (res, frame, _, w) \<leftarrow> dif_spi_device_recv (Some spi) (Some (buffer w)) SPIFLASH_RAW_BUFFER_SIZE NULL w;
        if res \<noteq> kDifSpiDeviceOk then None
        else
          (let frame = the frame;
               frame_num = SPIFLASH_FRAME_NUM (header_frame_num frame)
           in if frame_num = expected_frame_num then bootstrap_accept spi ack expected_frame_num frame w
              else do {
                w \<leftarrow> send_ack spi ack w;
                Some (Goes_on ack expected_frame_num w)
              })
      } else Some (Goes_on ack expected_frame_num w))"

partial_function (option) bootstrap_loop ::
  "dif_spi_device \<Rightarrow> (world \<Rightarrow> spiflash_frame) \<Rightarrow> u8 list \<Rightarrow> u32 \<Rightarrow> world \<Rightarrow> (u32 \<times> world) option" where
  "bootstrap_loop spi buffer ack expected_frame_num w =
     (case bootstrap_turn spi buffer ack expected_frame_num w of
        None \<Rightarrow> None
      | Some (Goes_on ack expected_frame_num w) \<Rightarrow> bootstrap_loop spi buffer ack expected_frame_num w
      | Some (Returns code w) \<Rightarrow> Some (code, w))"

definition bootstrap_flash :: "dif_spi_device \<Rightarrow> (world \<Rightarrow> spiflash_frame) \<Rightarrow> world \<Rightarrow> (u32 \<times> world) option" where
  "bootstrap_flash spi buffer w = bootstrap_loop spi buffer (replicate SHA256_DIGEST_SIZE 0) 0 w"

definition bootstrap_spi_config :: dif_spi_device_config where
  "bootstrap_spi_config = \<lparr>clock_polarity = kDifSpiDeviceEdgePositive, data_phase = kDifSpiDeviceEdgeNegative,
     tx_order = kDifSpiDeviceBitOrderMsbToLsb, rx_order = kDifSpiDeviceBitOrderMsbToLsb,
     rx_fifo_timeout = 63, cfg_rx_fifo_len = kDifSpiDeviceBufferLen div 2,
     cfg_tx_fifo_len = kDifSpiDeviceBufferLen div 2\<rparr>"

definition bootstrap :: "device_type \<Rightarrow> (world \<Rightarrow> spiflash_frame) \<Rightarrow> world \<Rightarrow> (u32 \<times> world) option" where
  "bootstrap kDeviceType buffer w = do {
     (requested, w) \<leftarrow> bootstrap_requested kDeviceType w;
     if \<not> requested then Some (0, w)
     else do {
       w \<leftarrow> flash_init_block w;
       let params = \<lparr>spi_base_addr = mmio_region_from_addr TOP_EARLGREY_SPI_DEVICE_BASE_ADDR\<rparr>;
       let (res, spi) = dif_spi_device_init params (Some \<lparr>spi_params = params, rx_fifo_len = 0, tx_fifo_len = 0\<rparr>);
       if res \<noteq> kDifSpiDeviceOk then None
       else do {
         let ((res, spi), w) = run_state (dif_spi_device_configure spi bootstrap_spi_config) w;
         if res \<noteq> kDifSpiDeviceOk then None
         else do {
           (err, w) \<leftarrow> bootstrap_flash (the spi) buffer w;
           (err, w) \<leftarrow> (if err \<noteq> 0 then do { (e, w) \<leftarrow> erase_flash w; Some (err OR e, w) } else Some (err, w));
           Some (err, snd (run_state (flash_default_region_access False False False) w))
         }
       }
     }
   }"

section \<open>Where acknowledgements and erasure go\<close>

lemma send_ack_within:
  assumes "at_spi spi" "send_ack spi ack w = Some w'"
  shows "within spi_area w w'"
proof -
  let ?d = "run_state (decompress_ptrs spi kTxFifoParams) w"
  from assms(2) obtain k fifo b1 w1 where
    m: "spi_memcpy spi (fst ?d) (rx_fifo_len spi) (tx_fifo_len spi) ack 32 False (snd ?d) = Some (k, fifo, b1, w1)"
    and r: "w' = (if k > 0 then snd (run_state (compress_ptrs spi kTxFifoParams fifo) w1) else w1)"
    by (auto simp: send_ack_def dif_spi_device_send_def Let_def case_prod_beta bind_eq_Some_conv split: option.splits)
  have "within spi_area w (snd ?d)" "within spi_area w1 w'"
    using spi_ptrs_stay [OF assms(1)] r by (auto simp: stays_def within_refl)
  then show ?thesis using spi_memcpy_within [OF assms(1) m] by (blast intro: within_trans)
qed

lemma erase_flash_within:
  assumes "erase_flash w = Some (e, w')"
  shows "within flash_area w w'"
  using assms flash_check_empty_within unfolding erase_flash_def
  by (auto simp: bind_eq_Some_conv case_prod_beta Let_def split: if_splits
    dest!: flash_bank_erase_within intro: within_trans)

section \<open>What is sent to the flash controller\<close>

text \<open>
  The writes that say what the flash controller does: access rights, command addresses, commands and program
  data. (Acknowledgements, error codes and the bank-erase permission are the others.)
\<close>

definition command_regs :: "u32 set" where
  "command_regs = {flash_reg FLASH_CTRL_DEFAULT_REGION_REG_OFFSET, flash_reg FLASH_CTRL_ADDR_REG_OFFSET,
     flash_reg FLASH_CTRL_CONTROL_REG_OFFSET, flash_reg FLASH_CTRL_PROG_FIFO_REG_OFFSET}"

definition flash_commands :: "world \<Rightarrow> (u32 \<times> u32) list" where
  "flash_commands w = writes_in command_regs (trace w)"

definition set_access :: "u32 \<Rightarrow> (u32 \<times> u32) list" where
  "set_access v = [(flash_reg FLASH_CTRL_DEFAULT_REGION_REG_OFFSET, v)]"

definition erase_bank_writes :: "bank_index \<Rightarrow> (u32 \<times> u32) list" where
  "erase_bank_writes b =
     [(flash_reg FLASH_CTRL_ADDR_REG_OFFSET, if b = FLASH_BANK_0 then 0x20000000 else 0x20080000),
      (flash_reg FLASH_CTRL_CONTROL_REG_OFFSET, 0xa1)]"

definition chunk_writes :: "u32 \<times> u32 list \<Rightarrow> (u32 \<times> u32) list" where
  "chunk_writes c =
     [(flash_reg FLASH_CTRL_ADDR_REG_OFFSET, fst c),
      (flash_reg FLASH_CTRL_CONTROL_REG_OFFSET, push_bit 16 (of_nat (length (snd c)) - 1) OR 0x11)]
     @ map (Pair (flash_reg FLASH_CTRL_PROG_FIFO_REG_OFFSET)) (snd c)"

text \<open>The commands that program one frame: its data words, from its flash offset on.\<close>

definition frame_writes :: "spiflash_frame \<Rightarrow> (u32 \<times> u32) list" where
  "frame_writes f = concat (map chunk_writes (program_chunks (header_flash_offset f) (spiflash_frame_data f)))"

lemma writes_in_Cons [simp]:
  "writes_in B (Wr32 a v # h) = writes_in B h @ (if a \<in> B then [(a, v)] else [])"
  "writes_in B (Rd32 a v # h) = writes_in B h"
  by (simp_all add: writes_in_def)

lemma adds_writes_in: "adds_writes w ws w' \<Longrightarrow> writes_in B (trace w') = writes_in B (trace w) @ filter (\<lambda>p. fst p \<in> B) ws"
  by (simp add: adds_writes_def writes_in_def)

lemma commands_outside: "within A w w' \<Longrightarrow> A \<inter> flash_area = {} \<Longrightarrow> flash_commands w' = flash_commands w"
  unfolding flash_commands_def using flash_reg_areas
  by (intro within_writes_in) (auto simp: command_regs_def)

lemma wait_commands: "wait_done_and_ack w = Some w' \<Longrightarrow> flash_commands w' = flash_commands w"
  using adds_writes_in [OF wait_done_and_ack_adds, of w w' command_regs]
  by (simp add: flash_commands_def command_regs_def)

lemma flash_bank_erase_commands:
  assumes "flash_bank_erase b w = Some (e, w')"
  shows "flash_commands w' = flash_commands w @ erase_bank_writes b"
proof -
  have "push_bit 4 FLASH_ERASE OR push_bit 7 FLASH_BANK_ERASE_CODE OR push_bit 0 0x1 = (0xa1 :: u32)" by simp
  with assms show ?thesis
    by (auto simp: flash_bank_erase_def flash_cfg_bank_erase_def io_simps bind_eq_Some_conv case_prod_beta
        flash_commands_def command_regs_def erase_bank_writes_def flash_get_bank_size_def
        dest!: wait_commands)
qed

lemma flash_check_empty_commands: "flash_commands (snd (run_state flash_check_empty w)) = flash_commands w"
  unfolding flash_commands_def
  by (rule within_writes_in [where A = flash_memory])
    (use flash_check_empty_stays in \<open>auto simp: stays_def flash_memory_def command_regs_def in_addr_range\<close>)

lemma erase_flash_commands:
  assumes "erase_flash w = Some (e, w')"
  shows "(e = 0 \<and> flash_commands w' = flash_commands w @ erase_bank_writes FLASH_BANK_0 @ erase_bank_writes FLASH_BANK_1)
    \<or> (e \<in> {E_BS_ERASE, E_BS_NOTEMPTY} \<and> (\<exists>es \<in> {[], erase_bank_writes FLASH_BANK_1}.
         flash_commands w' = flash_commands w @ erase_bank_writes FLASH_BANK_0 @ es))"
  using assms flash_check_empty_commands unfolding erase_flash_def
  by (auto simp: bind_eq_Some_conv case_prod_beta Let_def split: if_splits dest!: flash_bank_erase_commands)

lemma spiflash_frame_data_len: "length (spiflash_frame_data f) = 502"
  by (simp add: spiflash_frame_data_def)

lemma filter_program_command:
  "filter (\<lambda>p. fst p \<in> command_regs) (program_command kDataPartition c) = chunk_writes c"
proof -
  have "push_bit 4 FLASH_PROG OR push_bit 8 (part_code kDataPartition) OR (x OR push_bit 0 0x1) = x OR (0x11 :: u32)" for x
    by (simp add: or.left_commute)
  then show ?thesis
    by (simp add: program_command_def chunk_writes_def command_regs_def comp_def)
qed

lemma flash_write_frame_commands:
  assumes "flash_write (header_flash_offset f) kDataPartition (spiflash_frame_data f) SPIFLASH_FRAME_DATA_WORDS w = Some (e, w')"
  shows "flash_commands w' = flash_commands w @ frame_writes f"
  using adds_writes_in [OF flash_write_adds [OF assms], of command_regs]
  by (simp add: flash_commands_def frame_writes_def spiflash_frame_data_len filter_concat filter_program_command comp_def)

section \<open>Only verified frames are programmed\<close>

text \<open>A frame with the given number whose hash field is the hash of what follows it.\<close>

definition frame_verified :: "(u8 list \<Rightarrow> u8 list) \<Rightarrow> u32 \<Rightarrow> spiflash_frame \<Rightarrow> bool" where
  "frame_verified sha n f \<longleftrightarrow> length f = 2048 \<and> SPIFLASH_FRAME_NUM (header_frame_num f) = n
     \<and> header_hash f = sha (drop 32 f)"

abbreviation frame_is_last :: "spiflash_frame \<Rightarrow> bool" where
  "frame_is_last f \<equiv> SPIFLASH_FRAME_IS_EOF (header_frame_num f)"

definition prepare_writes :: "(u32 \<times> u32) list" where
  "prepare_writes = set_access 7 @ erase_bank_writes FLASH_BANK_0 @ erase_bank_writes FLASH_BANK_1"

text \<open>
  What may happen from the expected frame number \<open>n\<close> on: frames that follow each other are programmed, the
  first of all after the access rights are set and both banks erased. The upload ends with the last frame,
  with a program error, or (before any frame is programmed) with a failed erase.
\<close>

inductive upload :: "(u8 list \<Rightarrow> u8 list) \<Rightarrow> u32 \<Rightarrow> (u32 \<times> u32) list \<Rightarrow> u32 \<Rightarrow> bool" for sha where
  upload_last: "frame_verified sha n f \<Longrightarrow> frame_is_last f \<Longrightarrow>
     upload sha n ((if n = 0 then prepare_writes else []) @ frame_writes f) 0"
| upload_error: "frame_verified sha n f \<Longrightarrow>
     upload sha n ((if n = 0 then prepare_writes else []) @ frame_writes f) E_BS_WRITE"
| upload_erase: "frame_verified sha 0 f \<Longrightarrow> code \<in> {E_BS_ERASE, E_BS_NOTEMPTY} \<Longrightarrow>
     es \<in> {[], erase_bank_writes FLASH_BANK_1} \<Longrightarrow>
     upload sha 0 (set_access 7 @ erase_bank_writes FLASH_BANK_0 @ es) code"
| upload_next: "frame_verified sha n f \<Longrightarrow> \<not> frame_is_last f \<Longrightarrow> upload sha (n + 1) ws code \<Longrightarrow>
     upload sha n ((if n = 0 then prepare_writes else []) @ frame_writes f @ ws) code"

text \<open>The situation in which a turn of the loop starts.\<close>

definition bootstrap_ready :: "(u8 list \<Rightarrow> u8 list) \<Rightarrow> dif_spi_device \<Rightarrow> (world \<Rightarrow> spiflash_frame) \<Rightarrow> world \<Rightarrow> bool" where
  "bootstrap_ready sha spi buffer w \<longleftrightarrow> at_spi spi \<and> (\<forall>w. length (buffer w) = 2048) \<and> sha_device sha w
     \<and> hmac_phase_of HMAC0_BASE_ADDR (trace w) \<in> {Hmac_idle, Hmac_acked}"

lemma hmac_phase_outside: "\<forall>e \<in> set t. event_addr e \<notin> hmac_area \<Longrightarrow>
  hmac_phase_of HMAC0_BASE_ADDR (t @ h) = hmac_phase_of HMAC0_BASE_ADDR h"
proof (induction t)
  case (Cons e t)
  have "a \<notin> hmac_area \<Longrightarrow> a \<noteq> hmac_reg HMAC_CFG_REG_OFFSET \<and> a \<noteq> hmac_reg HMAC_CMD_REG_OFFSET
      \<and> a \<noteq> hmac_reg HMAC_INTR_STATE_REG_OFFSET" for a
    by (auto simp: hmac_area_def in_addr_range)
  with Cons show ?case by (cases e) auto
qed simp

lemma ready_outside:
  assumes "bootstrap_ready sha spi buffer w" "within A w w'" "A \<inter> hmac_area = {}"
  shows "bootstrap_ready sha spi buffer w'"
proof -
  obtain t where t: "trace w' = t @ trace w" "\<forall>e \<in> set t. event_addr e \<in> A" "dev32 w' = dev32 w"
    using assms(2) by (auto simp: within_def)
  then have "\<forall>e \<in> set t. event_addr e \<notin> hmac_area" using assms(3) by blast
  with assms(1) t show ?thesis by (simp add: bootstrap_ready_def sha_device_def hmac_phase_outside)
qed

lemmas ready_spi = ready_outside [OF _ _ areas_disjoint(3)] and ready_flash = ready_outside [OF _ _ areas_disjoint(4)]
lemmas commands_spi = commands_outside [OF _ areas_disjoint(2)] and commands_hmac = commands_outside [OF _ areas_disjoint(1)]

lemma ready_hash:
  assumes "bootstrap_ready sha spi buffer w" "hw_SHA256_hash data len w = Some (d, w')" "len \<le> length data"
  shows "bootstrap_ready sha spi buffer w' \<and> d = sha (take len data) \<and> flash_commands w' = flash_commands w"
proof -
  have sha: "sha_device sha w" and phase: "hmac_phase_of HMAC0_BASE_ADDR (trace w) \<in> {Hmac_idle, Hmac_acked}"
    using assms(1) by (simp_all add: bootstrap_ready_def)
  from hw_SHA256_hash_digest [OF sha phase assms(3,2)] have d: "d = sha (take len data)"
    "hmac_phase_of HMAC0_BASE_ADDR (trace w') = Hmac_acked" "dev32 w' = dev32 w" by auto
  moreover from sha d(3) have "sha_device sha w'" by (simp add: sha_device_def)
  ultimately show ?thesis using assms(1) commands_hmac [OF hw_SHA256_hash_within [OF assms(2)]]
    by (simp add: bootstrap_ready_def)
qed

lemma bootstrap_program_outcome:
  assumes "bootstrap_program ack n f w = Some s" "bootstrap_ready sha spi buffer w"
  shows "case s of
      Goes_on _ n' w' \<Rightarrow> n' = n + 1 \<and> \<not> frame_is_last f \<and> bootstrap_ready sha spi buffer w'
        \<and> flash_commands w' = flash_commands w @ frame_writes f
    | Returns code w' \<Rightarrow> (code = 0 \<and> frame_is_last f \<or> code = E_BS_WRITE)
        \<and> flash_commands w' = flash_commands w @ frame_writes f"
proof -
  from assms(1) obtain e w1 where "flash_write (header_flash_offset f) kDataPartition (spiflash_frame_data f)
      SPIFLASH_FRAME_DATA_WORDS w = Some (e, w1)"
    and s: "s = (if e \<noteq> 0 then Returns E_BS_WRITE w1 else if frame_is_last f then Returns 0 w1 else Goes_on ack (n + 1) w1)"
    by (auto simp: bootstrap_program_def bind_eq_Some_conv split: if_splits)
  then have "flash_commands w1 = flash_commands w @ frame_writes f" "bootstrap_ready sha spi buffer w1"
    using flash_write_frame_commands ready_flash [OF assms(2) flash_write_within] by blast+
  then show ?thesis by (simp add: s)
qed

lemma set_access_writes:
  "run_state (flash_default_region_access a b c) w = ((), log (Wr32 (flash_reg FLASH_CTRL_DEFAULT_REGION_REG_OFFSET)
     (push_bit 0 (of_bool a) OR push_bit 1 (of_bool b) OR push_bit 2 (of_bool c))) w)"
  by (simp add: flash_default_region_access_def io_simps)

text \<open>What a turn may do to the flash controller.\<close>

definition turn_outcome ::
  "(u8 list \<Rightarrow> u8 list) \<Rightarrow> dif_spi_device \<Rightarrow> (world \<Rightarrow> spiflash_frame) \<Rightarrow> u32 \<Rightarrow> world \<Rightarrow> bootstrap_step \<Rightarrow> bool" where
  "turn_outcome sha spi buffer n w s = (case s of
      Goes_on _ n' w' \<Rightarrow> bootstrap_ready sha spi buffer w' \<and>
        (n' = n \<and> flash_commands w' = flash_commands w \<or>
         n' = n + 1 \<and> (\<exists>f. frame_verified sha n f \<and> \<not> frame_is_last f \<and>
           flash_commands w' = flash_commands w @ (if n = 0 then prepare_writes else []) @ frame_writes f))
    | Returns code w' \<Rightarrow> \<exists>ws. upload sha n ws code \<and> flash_commands w' = flash_commands w @ ws)"

lemma outcome_same:
  "bootstrap_ready sha spi buffer w' \<Longrightarrow> flash_commands w' = flash_commands w \<Longrightarrow>
     turn_outcome sha spi buffer n w (Goes_on ack n w')"
  by (simp add: turn_outcome_def)

lemma outcome_program:
  assumes "bootstrap_program ack n f w1 = Some s" "bootstrap_ready sha spi buffer w1" "frame_verified sha n f"
    "flash_commands w1 = flash_commands w @ (if n = 0 then prepare_writes else [])"
  shows "turn_outcome sha spi buffer n w s"
  using bootstrap_program_outcome [OF assms(1,2)] assms(3,4) upload_last [OF assms(3)] upload_error [OF assms(3)]
  by (auto simp: turn_outcome_def split: bootstrap_step.splits)

lemma bootstrap_accept_outcome:
  assumes run: "bootstrap_accept spi ack n f w = Some s" and ready: "bootstrap_ready sha spi buffer w"
    and f: "length f = 2048" "SPIFLASH_FRAME_NUM (header_frame_num f) = n"
  shows "turn_outcome sha spi buffer n w s"
proof -
  have spi: "at_spi spi" using ready by (simp add: bootstrap_ready_def)
  from run obtain ok w1 where check: "check_frame_hash f w = Some (ok, w1)"
    and rest: "(if \<not> ok then do { w \<leftarrow> send_ack spi ack w1; Some (Goes_on ack n w) }
      else do {
        (ack, w) \<leftarrow> hw_SHA256_hash f SPIFLASH_RAW_BUFFER_SIZE w1;
        w \<leftarrow> send_ack spi ack w;
        bootstrap_commit ack n f w
      }) = Some s"
    unfolding bootstrap_accept_def bind_eq_Some_conv by auto
  from check obtain d where hash: "hw_SHA256_hash (drop SHA256_DIGEST_SIZE f) (SPIFLASH_RAW_BUFFER_SIZE - SHA256_DIGEST_SIZE) w = Some (d, w1)"
    and ok: "ok \<longleftrightarrow> d = header_hash f"
    unfolding check_frame_hash_def bind_eq_Some_conv by auto
  have w1: "bootstrap_ready sha spi buffer w1" "d = sha (drop 32 f)" "flash_commands w1 = flash_commands w"
    using ready_hash [OF ready hash] f(1) by simp_all
  show ?thesis
  proof (cases ok)
    case False
    with rest obtain w2 where w2: "send_ack spi ack w1 = Some w2" "s = Goes_on ack n w2"
      by (auto simp: bind_eq_Some_conv)
    from send_ack_within [OF spi w2(1)] w1 show ?thesis
      by (simp add: w2(2) outcome_same ready_spi commands_spi)
  next
    case True
    then have ver: "frame_verified sha n f" using ok w1(2) f by (simp add: frame_verified_def)
    from rest True obtain ack' w2 w3 where h2: "hw_SHA256_hash f SPIFLASH_RAW_BUFFER_SIZE w1 = Some (ack', w2)"
      and s3: "send_ack spi ack' w2 = Some w3"
      and rest3: "bootstrap_commit ack' n f w3 = Some s"
      by (auto simp: bind_eq_Some_conv)
    have w2: "bootstrap_ready sha spi buffer w2" "flash_commands w2 = flash_commands w1"
      using ready_hash [OF w1(1) h2] f(1) by simp_all
    have w3: "bootstrap_ready sha spi buffer w3" "flash_commands w3 = flash_commands w"
      using ready_spi [OF w2(1) send_ack_within [OF spi s3]] commands_spi [OF send_ack_within [OF spi s3]] w2 w1 by simp_all
    show ?thesis
    proof (cases "n = 0")
      case False
      with rest3 w3 show ?thesis by (intro outcome_program [OF _ w3(1) ver]) (simp_all add: bootstrap_commit_def)
    next
      case True
      let ?w4 = "snd (run_state (flash_default_region_access True True True) w3)"
      have w4: "bootstrap_ready sha spi buffer ?w4" "flash_commands ?w4 = flash_commands w @ set_access 7"
        using ready_flash [OF w3(1) spec [OF flash_default_region_access_stays [of True True True, unfolded stays_def]]] w3(2)
        by (simp_all add: set_access_writes flash_commands_def command_regs_def set_access_def)
      from rest3 True obtain e w5 where er: "erase_flash ?w4 = Some (e, w5)"
        and rest5: "(if e \<noteq> 0 then Some (Returns e w5) else bootstrap_program ack' n f w5) = Some s"
        unfolding bootstrap_commit_def by (auto simp: bind_eq_Some_conv split: prod.splits)
      have w5: "bootstrap_ready sha spi buffer w5" by (rule ready_flash [OF w4(1) erase_flash_within [OF er]])
      from erase_flash_commands [OF er] show ?thesis
      proof (elim disjE conjE bexE)
        assume "e = 0" "flash_commands w5 = flash_commands ?w4 @ erase_bank_writes FLASH_BANK_0 @ erase_bank_writes FLASH_BANK_1"
        with rest5 w4(2) True show ?thesis
          by (intro outcome_program [OF _ w5 ver]) (simp_all add: prepare_writes_def)
      next
        fix es assume e: "e \<in> {E_BS_ERASE, E_BS_NOTEMPTY}" "es \<in> {[], erase_bank_writes FLASH_BANK_1}"
          "flash_commands w5 = flash_commands ?w4 @ erase_bank_writes FLASH_BANK_0 @ es"
        then have "s = Returns e w5" using rest5 by auto
        with e w4(2) upload_erase [OF ver [unfolded True] e(1,2)] True show ?thesis
          by (auto simp: turn_outcome_def)
      qed
    qed
  qed
qed


lemma bootstrap_turn_outcome:
  assumes run: "bootstrap_turn spi buffer ack n w = Some s" and ready: "bootstrap_ready sha spi buffer w"
  shows "turn_outcome sha spi buffer n w s"
proof -
  have spi: "at_spi spi" and buf: "\<And>w. length (buffer w) = 2048" using ready by (auto simp: bootstrap_ready_def)
  obtain k w1 where pend: "run_state (dif_spi_device_rx_pending (Some spi) (Some 0)) w = ((kDifSpiDeviceOk, Some k), w1)"
    and in1: "within spi_area w w1" using rx_pending_within [OF spi] by blast
  have w1: "bootstrap_ready sha spi buffer w1" "flash_commands w1 = flash_commands w"
    using ready_spi [OF ready in1] commands_spi [OF in1] by simp_all
  show ?thesis
  proof (cases "k \<ge> 2048")
    case False
    with run pend have "s = Goes_on ack n w1" by (simp add: bootstrap_turn_def)
    then show ?thesis using w1 by (simp add: outcome_same)
  next
    case True
    with run pend obtain res b' p' w2 where
      recv: "dif_spi_device_recv (Some spi) (Some (buffer w1)) 2048 NULL w1 = Some (res, b', p', w2)"
      and rest: "(if res \<noteq> kDifSpiDeviceOk then None
        else (let frame = the b'; frame_num = SPIFLASH_FRAME_NUM (header_frame_num frame)
           in if frame_num = n then bootstrap_accept spi ack n frame w2
              else do { w \<leftarrow> send_ack spi ack w2; Some (Goes_on ack n w) })) = Some s"
      by (auto simp: bootstrap_turn_def bind_eq_Some_conv)
    from dif_spi_device_recv_within [OF spi recv] obtain f where f: "b' = Some f" "res = kDifSpiDeviceOk" "within spi_area w1 w2"
      by blast
    then have len: "length f = 2048" using dif_spi_device_recv_length [OF recv [unfolded f(1)]] buf by simp
    have w2: "bootstrap_ready sha spi buffer w2" "flash_commands w2 = flash_commands w"
      using ready_spi [OF w1(1) f(3)] commands_spi [OF f(3)] w1(2) by simp_all
    show ?thesis
    proof (cases "SPIFLASH_FRAME_NUM (header_frame_num f) = n")
      case True
      with rest f have "bootstrap_accept spi ack n f w2 = Some s" by simp
      from bootstrap_accept_outcome [OF this w2(1) len True] show ?thesis
        unfolding turn_outcome_def w2(2) .
    next
      case False
      with rest f obtain w3 where w3: "send_ack spi ack w2 = Some w3" "s = Goes_on ack n w3"
        by (auto simp: bind_eq_Some_conv)
      note in3 = send_ack_within [OF spi w3(1)]
      show ?thesis unfolding w3(2)
        using outcome_same [OF ready_spi [OF w2(1) in3]] commands_spi [OF in3] w2(2) by simp
    qed
  qed
qed

lemma bootstrap_loop_upload:
  "bootstrap_loop spi buffer ack n w = Some r \<Longrightarrow> bootstrap_ready sha spi buffer w \<longrightarrow>
     (\<exists>ws. upload sha n ws (fst r) \<and> flash_commands (snd r) = flash_commands w @ ws)"
proof (erule bootstrap_loop.raw_induct [rotated])
  fix f spi buffer ack n w r
  assume IH: "\<And>spi buffer ack n w r. f spi buffer ack n w = Some r \<Longrightarrow> bootstrap_ready sha spi buffer w \<longrightarrow>
      (\<exists>ws. upload sha n ws (fst r) \<and> flash_commands (snd r) = flash_commands w @ ws)"
    and eq: "(case bootstrap_turn spi buffer ack n w of
        None \<Rightarrow> None
      | Some (Goes_on ack n w) \<Rightarrow> f spi buffer ack n w
      | Some (Returns code w) \<Rightarrow> Some (code, w)) = Some r"
  show "bootstrap_ready sha spi buffer w \<longrightarrow>
      (\<exists>ws. upload sha n ws (fst r) \<and> flash_commands (snd r) = flash_commands w @ ws)"
  proof
    assume ready: "bootstrap_ready sha spi buffer w"
    from eq obtain s where s: "bootstrap_turn spi buffer ack n w = Some s" by (auto split: option.splits)
    note outcome = bootstrap_turn_outcome [OF s ready, unfolded turn_outcome_def]
    show "\<exists>ws. upload sha n ws (fst r) \<and> flash_commands (snd r) = flash_commands w @ ws"
    proof (cases s)
      case (Returns code w')
      with eq s outcome show ?thesis by auto
    next
      case (Goes_on ack' n' w')
      with eq s have "f spi buffer ack' n' w' = Some r" by simp
      moreover from outcome Goes_on have "bootstrap_ready sha spi buffer w'" by simp
      ultimately obtain ws where ws: "upload sha n' ws (fst r)" "flash_commands (snd r) = flash_commands w' @ ws"
        using IH by blast
      from outcome Goes_on consider "n' = n" "flash_commands w' = flash_commands w"
        | fr where "n' = n + 1" "frame_verified sha n fr" "\<not> frame_is_last fr"
          "flash_commands w' = flash_commands w @ (if n = 0 then prepare_writes else []) @ frame_writes fr"
        by (auto split: if_splits)
      then show ?thesis
      proof cases
        case 1
        with ws show ?thesis by auto
      next
        case 2
        with ws have "upload sha n ((if n = 0 then prepare_writes else []) @ frame_writes fr @ ws) (fst r)"
          by (intro upload_next) simp_all
        with 2 ws(2) show ?thesis by (metis append_assoc)
      qed
    qed
  qed
qed

section \<open>The bootstrap as a whole\<close>

lemma outside_command_regs: "A \<inter> command_regs = {} \<Longrightarrow> within A w w' \<Longrightarrow> flash_commands w' = flash_commands w"
  unfolding flash_commands_def by (rule within_writes_in)

lemma bootstrap_requested_within:
  assumes "bootstrap_requested dev w = Some (b, w')"
  shows "within (addr_range 0x20000000 0x20000004 \<union> addr_range 0x40040000 0x40041000) w w'"
proof (cases "dev = kDeviceSimVerilator")
  case True
  have "stays (addr_range 0x20000000 0x20000004 \<union> addr_range 0x40040000 0x40041000)
      (mmio_region_read32 (mmio_region_from_addr FLASH_MEM_BASE_ADDR) 0)"
    by (intro within_intros) (simp add: mmio_addr32_def mmio_region_from_addr_def in_addr_range)
  then show ?thesis using assms True unfolding bootstrap_requested_def
    by (auto simp: Let_def split: prod.splits dest: staysD)
next
  case False
  have "stays (addr_range 0x20000000 0x20000004 \<union> addr_range 0x40040000 0x40041000)
      (mmio_region_read32 (mmio_region_from_addr TOP_EARLGREY_GPIO_BASE_ADDR) GPIO_DATA_IN_REG_OFFSET)"
    by (intro within_intros) (simp add: mmio_addr32_def mmio_region_from_addr_def in_addr_range)
  then show ?thesis using assms False unfolding bootstrap_requested_def
    by (auto simp: dif_gpio_init_def dif_gpio_read_all_def Let_def split: prod.splits dest: staysD)
qed

lemma flash_init_block_within:
  assumes "flash_init_block w = Some w'"
  shows "within (addr_range 0x41000144 0x41000148) w w'"
  using assms unfolding flash_init_block_def
  by (rule within_spin) (intro within_intros, simp add: in_addr_range)

lemma bootstrap_configure:
  assumes "spi_params spi = \<lparr>spi_base_addr = mmio_region_from_addr TOP_EARLGREY_SPI_DEVICE_BASE_ADDR\<rparr>"
  shows "\<exists>spi' w'. run_state (dif_spi_device_configure (Some spi) bootstrap_spi_config) w = ((kDifSpiDeviceOk, Some spi'), w')
    \<and> at_spi spi' \<and> within spi_area w w'"
proof -
  have spi: "at_spi (spi\<lparr>rx_fifo_len := a, tx_fifo_len := b\<rparr>)" for a b
    using assms by (simp add: at_spi_def)
  then have regs: "mmio_addr32 (spi_base spi) off \<in> spi_area" if "unat off < 65536" for off
    using spi_reg_area [of "spi\<lparr>rx_fifo_len := 0, tx_fifo_len := 0\<rparr>" off] that by simp
  then have "stays spi_area (dif_spi_device_configure (Some spi) bootstrap_spi_config)"
    unfolding dif_spi_device_configure_def Let_def option.case
    by (intro within_intros) simp_all
  then show ?thesis using spi unfolding stays_def
    by (auto simp: dif_spi_device_configure_def bootstrap_spi_config_def Let_def io_simps dest: spec [of _ w])
qed


section \<open>A complete run\<close>

text \<open>
  A device on which a bootstrap succeeds: the SPI receive FIFO is full of a frame of equal words, the HMAC
  engine has a (weak) hash, the flash is empty and never reports an error.
\<close>

definition prefix_hash :: "u8 list \<Rightarrow> u8 list" where
  "prefix_hash m = concat (replicate 8 (take 4 (m @ [0, 0, 0, 0])))"

definition boot_dev :: "bus_event list \<Rightarrow> u32 \<Rightarrow> u32" where
  "boot_dev h a =
     (if a \<in> addr_range 0x41110040 0x41110060 then bytes_word (take 4 (hmac_message HMAC0_BASE_ADDR h @ [0, 0, 0, 0]))
      else if a = hmac_reg HMAC_INTR_STATE_REG_OFFSET then 1
      else if a \<in> addr_range 0x40051000 0x40052000 then 0x80000000
      else if a = 0x4004000c then GPIO_BOOTSTRAP_BIT_MASK
      else if a = 0x40050020 then 0x10000000
      else if a = flash_reg FLASH_CTRL_OP_STATUS_REG_OFFSET then 1
      else if a \<in> addr_range 0x20000000 0x20080000 then - 1
      else 0)"

definition boot_world :: world where
  "boot_world = \<lparr>dev32 = boot_dev, dev8 = (\<lambda>_ _. 0), trace = []\<rparr>"

lemma length_concat_replicate: "length (concat (replicate n c)) = n * length c"
  by (induction n) simp_all

lemma nth_concat_replicate: "length c = 4 \<Longrightarrow> i < n \<Longrightarrow> take 4 (drop (4 * i) (concat (replicate n c))) = c"
proof (induction i arbitrary: n)
  case 0
  then show ?case by (cases n) simp_all
next
  case (Suc i)
  then obtain k where "n = Suc k" by (cases n) auto
  with Suc show ?case by simp
qed

lemma prefix_hash_words: "i < 8 \<Longrightarrow> word_of_message (prefix_hash m) i = bytes_word (take 4 (m @ [0, 0, 0, 0]))"
  unfolding prefix_hash_def by (subst nth_concat_replicate) simp_all

lemma length_prefix_hash: "length (prefix_hash m) = 32"
  unfolding prefix_hash_def length_concat_replicate by simp

lemma boot_digest:
  assumes "i < 8"
  shows "boot_dev h (hmac_reg HMAC_DIGEST_0_REG_OFFSET + 4 * of_nat i) = word_of_message (prefix_hash (hmac_message HMAC0_BASE_ADDR h)) i"
proof -
  have "unat (hmac_reg HMAC_DIGEST_0_REG_OFFSET + 4 * of_nat i :: u32) = 0x41110040 + 4 * i"
    using assms by (simp add: unat_word_ariths unat_of_nat_u32)
  then show ?thesis using assms by (simp add: boot_dev_def in_addr_range prefix_hash_words)
qed

lemma boot_sha: "dev32 w = boot_dev \<Longrightarrow> sha_device prefix_hash w"
  by (simp add: sha_device_def length_prefix_hash boot_digest [simplified])

lemma boot_hmac_responds: "dev32 w = boot_dev \<Longrightarrow> hmac_responds w"
  unfolding hmac_responds_def
proof (intro allI impI conjI)
  fix w1 :: world
  assume "dev32 w = boot_dev" "dev32 w1 = dev32 w"
  then have dev: "dev32 w1 = boot_dev" by simp
  show "spin_while (do { avail \<leftarrow> fifo_avail; ret (avail \<le> 8) }) w1 \<noteq> None"
    using dev by (subst spin_while.simps) (simp add: fifo_avail_def hmac_fifo_depth_def io_simps cur32_def boot_dev_def in_addr_range)
  show "spin_while (do { v \<leftarrow> bus_read32 (hmac_reg HMAC_INTR_STATE_REG_OFFSET);
      ret (drop_bit 0 v AND 0x1 = 0) }) w1 \<noteq> None"
    using dev by (subst spin_while.simps) (simp add: io_simps cur32_def boot_dev_def in_addr_range)
qed

lemma boot_hash:
  assumes "dev32 w = boot_dev" "hmac_phase_of HMAC0_BASE_ADDR (trace w) \<in> {Hmac_idle, Hmac_acked}" "len \<le> length data"
  shows "\<exists>w'. hw_SHA256_hash data len w = Some (prefix_hash (take len data), w') \<and> dev32 w' = boot_dev
    \<and> hmac_phase_of HMAC0_BASE_ADDR (trace w') = Hmac_acked"
proof -
  from hw_SHA256_hash_returns [OF boot_hmac_responds [OF assms(1)] assms(2,3)] obtain d w' where
    run: "hw_SHA256_hash data len w = Some (d, w')" by auto
  from hw_SHA256_hash_digest [OF boot_sha [OF assms(1)] assms(2,3) run] run assms(1) show ?thesis by auto
qed

subsection \<open>Flash\<close>

lemma boot_wait:
  assumes "dev32 w = boot_dev"
  shows "\<exists>w'. wait_done_and_ack w = Some w' \<and> dev32 w' = boot_dev"
  unfolding wait_done_and_ack_def using assms
  by (subst spin_while.simps) (simp add: io_simps cur32_def boot_dev_def in_addr_range)

lemma boot_completes: "dev32 w = boot_dev \<Longrightarrow> flash_completes w"
  unfolding flash_completes_def using boot_wait by fastforce

lemma boot_start_wait_finish:
  assumes "dev32 w = boot_dev" "stays flash_area m"
    "\<And>w. dev32 w = boot_dev \<Longrightarrow> fst (run_state n w) = 0 \<and> dev32 (snd (run_state n w)) = boot_dev"
  shows "\<exists>w'. do { let (_, w) = run_state m w; w \<leftarrow> wait_done_and_ack w; Some (run_state n w) } = Some (0 :: u32, w')
    \<and> dev32 w' = boot_dev"
proof -
  have "dev32 (snd (run_state m w)) = boot_dev" using assms(1,2) within_dev unfolding stays_def by metis
  then obtain w1 where "wait_done_and_ack (snd (run_state m w)) = Some w1" "dev32 w1 = boot_dev" using boot_wait by blast
  with assms(3) [of w1] show ?thesis by (simp add: case_prod_beta) (metis prod.collapse)
qed

lemma boot_clr_err:
  assumes "dev32 w = boot_dev"
  shows "fst (run_state get_clr_err w) = 0" "dev32 (snd (run_state get_clr_err w)) = boot_dev"
  using assms by (simp_all add: io_simps cur32_def boot_dev_def in_addr_range)

lemma boot_bank_erase:
  assumes "dev32 w = boot_dev"
  shows "\<exists>w'. flash_bank_erase b w = Some (0, w') \<and> dev32 w' = boot_dev"
proof -
  have "fst (run_state (do { _ \<leftarrow> flash_cfg_bank_erase b False; get_clr_err }) w1) = 0 \<and>
      dev32 (snd (run_state (do { _ \<leftarrow> flash_cfg_bank_erase b False; get_clr_err }) w1)) = boot_dev"
    if "dev32 w1 = boot_dev" for w1
    using that boot_clr_err by (simp add: flash_cfg_bank_erase_def io_simps cur32_def boot_dev_def in_addr_range)
  then show ?thesis unfolding flash_bank_erase_def
    by (intro boot_start_wait_finish [OF assms] within_intros flash_cfg_bank_erase_stays)
      (use flash_reg_areas in simp_all)
qed

lemma boot_write_internal:
  assumes "dev32 w = boot_dev"
  shows "\<exists>w'. flash_write_internal a part data n w = Some (0, w') \<and> dev32 w' = boot_dev"
  unfolding flash_write_internal_def
  by (intro boot_start_wait_finish [OF assms] within_intros conjI boot_clr_err)
    (use flash_reg_areas in simp_all)

lemma boot_write_loop_err:
  "flash_write_loop addr part data n m r c err w = Some x \<Longrightarrow> dev32 w = boot_dev \<longrightarrow> fst x = err"
proof (erule flash_write_loop.raw_induct [rotated])
  fix f and addr :: u32 and part data and n m r c err :: u32 and w x
  assume IH: "\<And>addr part data n m r c err w x. f addr part data n m r c err w = Some x \<Longrightarrow>
      dev32 w = boot_dev \<longrightarrow> fst (x :: u32 \<times> world) = err"
    and eq: "(if r > 0 then
        (let k = (if r < m then r else m) in do {
           (e, w) \<leftarrow> flash_write_internal (addr + c * 4) part data k w;
           let c = c + k;
           f addr part (drop (unat k) data) n PROGRAM_RESOLUTION_WORDS (n - c) c (err OR e) w
         })
      else Some (err, w)) = Some x"
  show "dev32 w = boot_dev \<longrightarrow> fst x = err"
  proof
    assume dev: "dev32 w = boot_dev"
    show "fst x = err"
    proof (cases "r > 0")
      case False
      with eq show ?thesis by auto
    next
      case True
      obtain w1 where w1: "flash_write_internal (addr + c * 4) part data (if r < m then r else m) w = Some (0, w1)" "dev32 w1 = boot_dev"
        using boot_write_internal [OF dev] by blast
      with eq True have "f addr part (drop (unat (if r < m then r else m)) data) n PROGRAM_RESOLUTION_WORDS
        (n - (c + (if r < m then r else m))) (c + (if r < m then r else m)) err w1 = Some x"
        unfolding Let_def by simp
      from IH [OF this] w1(2) show ?thesis by simp
    qed
  qed
qed

lemma boot_flash_write:
  assumes "dev32 w = boot_dev" "unat n \<le> length data"
  shows "\<exists>w'. flash_write a part data n w = Some (0, w') \<and> dev32 w' = boot_dev"
proof -
  have "flash_write a part data n w \<noteq> None"
    using flash_write_returns [OF boot_completes [OF assms(1)] assms(2)] .
  then obtain e w' where run: "flash_write a part data n w = Some (e, w')" by auto
  then have "e = 0" using boot_write_loop_err assms(1) unfolding flash_write_def Let_def by fastforce
  moreover have "dev32 w' = boot_dev" using within_dev [OF flash_write_within [OF run]] assms(1) by simp
  ultimately show ?thesis using run by blast
qed

lemma boot_and_words:
  assumes "dev32 w = boot_dev" "\<And>i. i < n \<Longrightarrow> p + 4 * of_nat i \<in> flash_memory"
  shows "fst (run_state (flash_and_words n p (- 1)) w) = - 1 \<and> dev32 (snd (run_state (flash_and_words n p (- 1)) w)) = boot_dev"
  using assms
proof (induction n arbitrary: p w)
  case 0
  then show ?case by simp
next
  case (Suc n)
  have p: "p \<in> flash_memory" using Suc.prems(2) [of 0] by simp
  then have "cur32 w p = - 1" using Suc.prems(1)
    by (auto simp: cur32_def boot_dev_def flash_memory_def in_addr_range)
  moreover have "p + 4 + 4 * of_nat i \<in> flash_memory" if "i < n" for i
    using Suc.prems(2) [of "Suc i"] that by (simp add: algebra_simps)
  ultimately show ?case using Suc.IH [of "log (Rd32 p (- 1)) w" "p + 4"] Suc.prems(1)
    by (simp add: io_simps)
qed

lemma boot_check_loop:
  assumes "dev32 w = boot_dev" "k \<le> 16384"
  shows "fst (run_state (flash_check_loop (FLASH_MEM_BASE_ADDR + 32 * of_nat k) (- 1)) w) = 1"
  using assms
proof (induction "16384 - k" arbitrary: k w)
  case 0
  then show ?case by (subst flash_check_loop.simps) (simp add: flash_get_bank_size_def)
next
  case (Suc d)
  let ?p = "FLASH_MEM_BASE_ADDR + 32 * of_nat k :: u32"
  have lt: "k < 16384" using Suc.hyps(2) by simp
  then have up: "unat ?p = 0x20000000 + 32 * k" by (simp add: unat_word_ariths unat_of_nat_u32)
  then have in_bank: "?p < FLASH_MEM_BASE_ADDR + flash_get_bank_size" using lt
    by (simp add: word_less_nat_alt flash_get_bank_size_def)
  have "?p + 4 * of_nat i \<in> flash_memory" if "i < 8" for i
  proof -
    have "unat (?p + 4 * of_nat i) = 0x20000000 + 32 * k + 4 * i"
      using lt up that by (simp add: unat_word_ariths unat_of_nat_u32)
    then show ?thesis using lt that by (simp add: flash_memory_def in_addr_range)
  qed
  from boot_and_words [OF Suc.prems(1) this] have
    "fst (run_state (flash_and_words 8 ?p (- 1)) w) = - 1" "dev32 (snd (run_state (flash_and_words 8 ?p (- 1)) w)) = boot_dev"
    by auto
  note words = this
  have eq: "FLASH_MEM_BASE_ADDR + 32 * of_nat (Suc k) = ?p + 32" by simp
  have "fst (run_state (flash_check_loop (?p + 32) (- 1)) (snd (run_state (flash_and_words 8 ?p (- 1)) w))) = 1"
    using Suc.hyps(1) [of "Suc k", OF _ words(2)] Suc.hyps(2) lt unfolding eq by simp
  with words(1) in_bank show ?case by (subst flash_check_loop.simps) (simp add: case_prod_beta)
qed

lemma boot_erase:
  assumes "dev32 w = boot_dev"
  shows "\<exists>w'. erase_flash w = Some (0, w') \<and> dev32 w' = boot_dev"
proof -
  obtain w1 where w1: "flash_bank_erase FLASH_BANK_0 w = Some (0, w1)" "dev32 w1 = boot_dev" using boot_bank_erase [OF assms] by blast
  obtain w2 where w2: "flash_bank_erase FLASH_BANK_1 w1 = Some (0, w2)" "dev32 w2 = boot_dev" using boot_bank_erase [OF w1(2)] by blast
  have "fst (run_state flash_check_empty w2) = 1" using boot_check_loop [OF w2(2), of 0] by (simp add: flash_check_empty_def)
  moreover have "dev32 (snd (run_state flash_check_empty w2)) = boot_dev"
    using within_dev [OF flash_check_empty_within [of w2]] w2(2) by simp
  ultimately show ?thesis using w1 w2 by (simp add: erase_flash_def case_prod_beta)
qed

subsection \<open>SPI\<close>

definition boot_frame :: spiflash_frame where
  "boot_frame = concat (replicate 512 (word_bytes 0x80000000))"

lemma length_boot_frame: "length boot_frame = 2048"
  unfolding boot_frame_def length_concat_replicate by simp

lemma boot_frame_word: "i < 512 \<Longrightarrow> take 4 (drop (4 * i) boot_frame) = word_bytes 0x80000000"
  unfolding boot_frame_def by (rule nth_concat_replicate) simp_all

lemma boot_words:
  assumes "dev32 w = boot_dev" "mmio_base b = TOP_EARLGREY_SPI_DEVICE_BASE_ADDR" "k + n \<le> 1024" "length buf = 4 * n"
  shows "fst (run_state (mmio_memcpy32_words b (0x1000 + 4 * of_nat k) buf (4 * n) True) w) = concat (replicate n (word_bytes 0x80000000))"
  using assms
proof (induction n arbitrary: k buf w)
  case 0
  then show ?case by (simp add: mmio_memcpy32_words.simps)
next
  case (Suc n)
  let ?off = "0x1000 + 4 * of_nat k :: u32"
  have adr: "mmio_addr32 b ?off = 0x40051000 + 4 * of_nat k"
    using mmio_addr32_aligned [of ?off "0x400 + of_nat k" b] Suc.prems(2) by simp
  have "unat (0x40051000 + 4 * of_nat k :: u32) = 0x40051000 + 4 * k"
    using Suc.prems(3) by (simp add: unat_word_ariths unat_of_nat_u32)
  then have v: "cur32 w (mmio_addr32 b ?off) = 0x80000000" using Suc.prems(1,3)
    unfolding adr by (auto simp: cur32_def boot_dev_def in_addr_range)
  let ?w1 = "log (Rd32 (mmio_addr32 b ?off) 0x80000000) w"
  have "fst (run_state (mmio_memcpy32_words b (0x1000 + 4 * of_nat (Suc k)) (drop 4 buf) (4 * n) True) ?w1) =
      concat (replicate n (word_bytes 0x80000000))"
    using Suc.prems by (intro Suc.IH) simp_all
  moreover have "0x1000 + 4 * of_nat (Suc k) = ?off + of_nat 4" by simp
  moreover have "4 * Suc n - 4 = 4 * n" by simp
  ultimately show ?case unfolding mmio_memcpy32_words.simps [of b ?off buf "4 * Suc n" True] Let_def
    by (simp add: case_prod_beta io_simps v del: of_nat_Suc mult_Suc_right)
qed

lemma boot_ptrs:
  assumes "dev32 w = boot_dev" "at_spi spi"
  shows "\<exists>w'. run_state (decompress_ptrs spi kRxFifoParams) w =
      (\<lparr>write_ptr = \<lparr>ptr_offset = 0, phase = True\<rparr>, read_ptr = \<lparr>ptr_offset = 0, phase = False\<rparr>\<rparr>, w') \<and> dev32 w' = boot_dev"
    "\<exists>w'. run_state (decompress_ptrs spi kTxFifoParams) w =
      (\<lparr>write_ptr = \<lparr>ptr_offset = 0, phase = False\<rparr>, read_ptr = \<lparr>ptr_offset = 0, phase = False\<rparr>\<rparr>, w') \<and> dev32 w' = boot_dev"
proof -
  have adr: "mmio_addr32 (spi_base spi) 0x20 = 0x40050020" "mmio_addr32 (spi_base spi) 0x24 = 0x40050024"
    using assms(2) by (simp_all add: at_spi_def mmio_region_from_addr_def mmio_addr32_def)
  have val: "cur32 w 0x40050020 = 0x10000000" "cur32 w 0x40050024 = 0"
    using assms(1) by (simp_all add: cur32_def boot_dev_def in_addr_range)
  have bits: "(ucast (drop_bit 16 (0x10000000 :: u32) AND 0xffff) :: u16) = 0x1000"
    "(ucast ((0x10000000 :: u32) AND 0xffff) :: u16) = 0" by code_simp+
  show "\<exists>w'. run_state (decompress_ptrs spi kRxFifoParams) w =
      (\<lparr>write_ptr = \<lparr>ptr_offset = 0, phase = True\<rparr>, read_ptr = \<lparr>ptr_offset = 0, phase = False\<rparr>\<rparr>, w') \<and> dev32 w' = boot_dev"
    "\<exists>w'. run_state (decompress_ptrs spi kTxFifoParams) w =
      (\<lparr>write_ptr = \<lparr>ptr_offset = 0, phase = False\<rparr>, read_ptr = \<lparr>ptr_offset = 0, phase = False\<rparr>\<rparr>, w') \<and> dev32 w' = boot_dev"
    using assms(1) by (simp_all add: decompress_ptrs_def kRxFifoParams_def kTxFifoParams_def io_simps adr val bits)
qed

lemma spi_copy_loop_0: "spi_copy_loop spi base L is_recv p 0 buf w = Some (p, buf, w)"
  by (subst spi_copy_loop.simps) simp

text \<open>One chunk: the FIFO pointer is at its start and the transfer fits before the wrap.\<close>

lemma boot_copy_loop:
  assumes "0 < bl" "unat bl \<le> 2048"
  shows "spi_copy_loop spi base 2048 is_recv \<lparr>ptr_offset = 0, phase = ph\<rparr> bl buf w =
    (let off = SPI_DEVICE_BUFFER_REG_OFFSET + ucast base;
         (b, w) = (if is_recv then run_state (mmio_region_memcpy_from_mmio32 (spi_base spi) off buf (unat bl)) w
           else (buf, snd (run_state (mmio_region_memcpy_to_mmio32 (spi_base spi) off buf (unat bl)) w)))
     in Some (fifo_ptr_increment \<lparr>ptr_offset = 0, phase = ph\<rparr> bl 2048, take (unat bl) b @ drop (unat bl) b, w))"
proof -
  have "\<not> (ucast bl :: u32) > 2048" using assms(2) by (simp add: word_less_nat_alt)
  then show ?thesis using assms(1) unfolding spi_copy_loop.simps [of spi base 2048 is_recv _ bl buf w]
    by (simp add: Let_def case_prod_beta spi_copy_loop_0)
qed

lemma boot_recv:
  assumes "dev32 w = boot_dev" "at_spi spi" "rx_fifo_len spi = 2048" "length buf = 2048"
  shows "\<exists>w'. dif_spi_device_recv (Some spi) (Some buf) 2048 NULL w = Some (kDifSpiDeviceOk, Some boot_frame, NULL, w')"
proof -
  obtain w1 where w1: "run_state (decompress_ptrs spi kRxFifoParams) w =
      (\<lparr>write_ptr = \<lparr>ptr_offset = 0, phase = True\<rparr>, read_ptr = \<lparr>ptr_offset = 0, phase = False\<rparr>\<rparr>, w1)" "dev32 w1 = boot_dev"
    using boot_ptrs(1) [OF assms(1,2)] by blast
  let ?m = "run_state (mmio_region_memcpy_from_mmio32 (spi_base spi) SPI_DEVICE_BUFFER_REG_OFFSET buf 2048) w1"
  have "mmio_base (spi_base spi) = TOP_EARLGREY_SPI_DEVICE_BASE_ADDR"
    using assms(2) by (simp add: at_spi_def mmio_region_from_addr_def)
  from boot_words [OF w1(2) this, of 0 512 buf] have data: "fst ?m = boot_frame" using assms(4)
    by (simp add: mmio_region_memcpy_from_mmio32_def mmio_region_memcpy32_def misalignment32_of_def boot_frame_def)
  have len: "take 2048 boot_frame @ drop 2048 boot_frame = boot_frame" by simp
  show ?thesis
    by (simp add: dif_spi_device_recv_def spi_memcpy_def w1 assms(3) fifo_bytes_in_use_def boot_copy_loop Let_def
        case_prod_beta data len del: append_take_drop_id)
qed

lemma boot_send:
  assumes "dev32 w = boot_dev" "at_spi spi" "tx_fifo_len spi = 2048"
  shows "\<exists>w'. send_ack spi ack w = Some w'"
proof -
  obtain w1 where w1: "run_state (decompress_ptrs spi kTxFifoParams) w =
      (\<lparr>write_ptr = \<lparr>ptr_offset = 0, phase = False\<rparr>, read_ptr = \<lparr>ptr_offset = 0, phase = False\<rparr>\<rparr>, w1)" "dev32 w1 = boot_dev"
    using boot_ptrs(2) [OF assms(1,2)] by blast
  show ?thesis
    by (simp add: send_ack_def dif_spi_device_send_def spi_memcpy_def w1 assms(3) fifo_bytes_in_use_def boot_copy_loop
        Let_def case_prod_beta)
qed

subsection \<open>The run\<close>

lemma boot_frame_fields:
  "header_frame_num boot_frame = 0x80000000" "SPIFLASH_FRAME_NUM (header_frame_num boot_frame) = 0"
  "frame_is_last boot_frame" "header_hash boot_frame = prefix_hash (drop 32 boot_frame)"
proof -
  show num: "header_frame_num boot_frame = 0x80000000"
    using boot_frame_word [of 8] by (simp add: header_frame_num_def)
  show "SPIFLASH_FRAME_NUM (header_frame_num boot_frame) = 0" "frame_is_last boot_frame"
    by (simp_all add: num SPIFLASH_FRAME_NUM_def SPIFLASH_FRAME_IS_EOF_def)
  have four: "take 4 (drop 32 boot_frame) = word_bytes 0x80000000" using boot_frame_word [of 8] by simp
  have "boot_frame = concat (replicate 8 (word_bytes 0x80000000)) @ concat (replicate 504 (word_bytes 0x80000000))"
    unfolding boot_frame_def concat_append [symmetric] replicate_add [symmetric] by simp
  moreover have "length (concat (replicate 8 (word_bytes 0x80000000))) = 32"
    unfolding length_concat_replicate by simp
  ultimately have "header_hash boot_frame = concat (replicate 8 (word_bytes 0x80000000))"
    unfolding header_hash_def by (metis append_eq_conv_conj)
  also have "take 4 (drop 32 boot_frame @ [0, 0, 0, 0]) = word_bytes 0x80000000"
    using four length_boot_frame by simp
  then have "concat (replicate 8 (word_bytes 0x80000000)) = prefix_hash (drop 32 boot_frame)"
    by (simp add: prefix_hash_def)
  finally show "header_hash boot_frame = prefix_hash (drop 32 boot_frame)" .
qed

lemma boot_ready:
  assumes "dev32 w = boot_dev" "at_spi spi" "hmac_phase_of HMAC0_BASE_ADDR (trace w) \<in> {Hmac_idle, Hmac_acked}"
  shows "bootstrap_ready prefix_hash spi (\<lambda>_. replicate 2048 0) w"
  using assms boot_sha [OF assms(1)] by (simp add: bootstrap_ready_def)

lemma boot_program:
  assumes "dev32 w = boot_dev"
  shows "\<exists>w'. bootstrap_program ack 0 boot_frame w = Some (Returns 0 w')"
proof -
  obtain w' where "flash_write (header_flash_offset boot_frame) kDataPartition (spiflash_frame_data boot_frame)
      SPIFLASH_FRAME_DATA_WORDS w = Some (0, w')"
    using boot_flash_write [OF assms, of SPIFLASH_FRAME_DATA_WORDS "spiflash_frame_data boot_frame"]
    by (auto simp: spiflash_frame_data_len)
  then show ?thesis by (simp add: bootstrap_program_def boot_frame_fields(3))
qed

lemma boot_commit:
  assumes "dev32 w = boot_dev"
  shows "\<exists>w'. bootstrap_commit ack 0 boot_frame w = Some (Returns 0 w')"
proof -
  let ?w1 = "snd (run_state (flash_default_region_access True True True) w)"
  have "dev32 ?w1 = boot_dev" using assms by (simp add: set_access_writes)
  then obtain w2 where "erase_flash ?w1 = Some (0, w2)" "dev32 w2 = boot_dev" using boot_erase by blast
  then show ?thesis using boot_program by (auto simp: bootstrap_commit_def case_prod_beta)
qed

lemma boot_accept:
  assumes dev: "dev32 w = boot_dev" and phase: "hmac_phase_of HMAC0_BASE_ADDR (trace w) \<in> {Hmac_idle, Hmac_acked}"
    and spi: "at_spi spi" "tx_fifo_len spi = 2048"
  shows "\<exists>w'. bootstrap_accept spi ack 0 boot_frame w = Some (Returns 0 w')"
proof -
  obtain w1 where w1: "hw_SHA256_hash (drop 32 boot_frame) 2016 w = Some (prefix_hash (drop 32 boot_frame), w1)"
    "dev32 w1 = boot_dev" "hmac_phase_of HMAC0_BASE_ADDR (trace w1) = Hmac_acked"
    using boot_hash [OF dev phase, of 2016 "drop 32 boot_frame"] length_boot_frame by auto
  obtain ack' w2 where w2: "hw_SHA256_hash boot_frame 2048 w1 = Some (ack', w2)" "dev32 w2 = boot_dev"
    using boot_hash [OF w1(2), of 2048 boot_frame] w1(3) length_boot_frame by auto
  obtain w3 where w3: "send_ack spi ack' w2 = Some w3" using boot_send [OF w2(2) spi] by blast
  have "dev32 w3 = boot_dev" using within_dev [OF send_ack_within [OF spi(1) w3]] w2(2) by simp
  from boot_commit [OF this, of ack'] show ?thesis
    by (simp add: bootstrap_accept_def check_frame_hash_def w1(1) boot_frame_fields(4) w2(1) w3)
qed

lemma boot_turn:
  assumes dev: "dev32 w = boot_dev" and phase: "hmac_phase_of HMAC0_BASE_ADDR (trace w) \<in> {Hmac_idle, Hmac_acked}"
    and spi: "at_spi spi" "rx_fifo_len spi = 2048" "tx_fifo_len spi = 2048"
  shows "\<exists>w'. bootstrap_turn spi (\<lambda>_. replicate 2048 0) ack 0 w = Some (Returns 0 w')"
proof -
  let ?ready = "bootstrap_ready prefix_hash spi (\<lambda>_. replicate 2048 0)"
  obtain w1 where p: "run_state (decompress_ptrs spi kRxFifoParams) w =
      (\<lparr>write_ptr = \<lparr>ptr_offset = 0, phase = True\<rparr>, read_ptr = \<lparr>ptr_offset = 0, phase = False\<rparr>\<rparr>, w1)" "dev32 w1 = boot_dev"
    using boot_ptrs(1) [OF dev spi(1)] by blast
  have in1: "within spi_area w w1" using staysD [OF spi_ptrs_stay(1) [OF spi(1)] p(1)] by blast
  have pend: "run_state (dif_spi_device_rx_pending (Some spi) (Some 0)) w = ((kDifSpiDeviceOk, Some 2048), w1)"
    by (simp add: dif_spi_device_rx_pending_def p(1) fifo_bytes_in_use_def spi(2))
  obtain w2 where recv: "dif_spi_device_recv (Some spi) (Some (replicate 2048 0)) 2048 NULL w1
      = Some (kDifSpiDeviceOk, Some boot_frame, NULL, w2)"
    using boot_recv [OF p(2) spi(1,2), of "replicate 2048 0"] by auto
  have in2: "within spi_area w1 w2" using dif_spi_device_recv_within [OF spi(1) recv] by simp
  have "?ready w2" using ready_spi [OF ready_spi [OF boot_ready [OF dev spi(1) phase] in1] in2] .
  moreover have "dev32 w2 = boot_dev" using within_dev [OF in2] p(2) by simp
  ultimately obtain w3 where "bootstrap_accept spi ack 0 boot_frame w2 = Some (Returns 0 w3)"
    using boot_accept spi(1,3) unfolding bootstrap_ready_def by blast
  then show ?thesis by (simp add: bootstrap_turn_def pend recv boot_frame_fields(2))
qed

lemma boot_requested: "\<exists>w1. bootstrap_requested kDeviceFpgaNexysVideo boot_world = Some (True, w1)"
  by (simp add: bootstrap_requested_def dif_gpio_init_def dif_gpio_read_all_def io_simps mmio_addr32_def
        mmio_region_from_addr_def boot_world_def cur32_def boot_dev_def in_addr_range)

lemma boot_run: "\<exists>w'. bootstrap kDeviceFpgaNexysVideo (\<lambda>_. replicate 2048 0) boot_world = Some (0, w')"
proof -
  let ?params = "\<lparr>spi_base_addr = mmio_region_from_addr TOP_EARLGREY_SPI_DEVICE_BASE_ADDR\<rparr>"
  let ?spi = "\<lambda>n. \<lparr>spi_params = ?params, rx_fifo_len = n, tx_fifo_len = n\<rparr>"
  have spi: "at_spi (?spi n)" for n by (simp add: at_spi_def)
  have ready: "bootstrap_ready prefix_hash (?spi 2048) (\<lambda>_. replicate 2048 0) boot_world"
    by (rule boot_ready) (simp_all add: boot_world_def at_spi_def)
  obtain w1 where req: "bootstrap_requested kDeviceFpgaNexysVideo boot_world = Some (True, w1)" using boot_requested by blast
  note in1 = bootstrap_requested_within [OF req]
  then have "dev32 w1 = boot_dev" using within_dev by (auto simp: boot_world_def)
  then have "\<exists>w2. flash_init_block w1 = Some w2"
    unfolding flash_init_block_def
    by (subst spin_while.simps) (simp add: io_simps cur32_def boot_dev_def in_addr_range)
  then obtain w2 where init: "flash_init_block w1 = Some w2" by blast
  note in2 = flash_init_block_within [OF init]
  have "\<exists>w3. run_state (dif_spi_device_configure (Some (?spi 0)) bootstrap_spi_config) w2
      = ((kDifSpiDeviceOk, Some (?spi 2048)), w3)"
    by (simp add: dif_spi_device_configure_def bootstrap_spi_config_def Let_def io_simps)
  then obtain w3 where conf: "run_state (dif_spi_device_configure (Some (?spi 0)) bootstrap_spi_config) w2
      = ((kDifSpiDeviceOk, Some (?spi 2048)), w3)" by blast
  have in3: "within spi_area w2 w3" using bootstrap_configure [of "?spi 0" w2] conf by auto
  have disj: "(addr_range 0x20000000 0x20000004 \<union> addr_range 0x40040000 0x40041000) \<inter> hmac_area = {}"
    "addr_range 0x41000144 0x41000148 \<inter> hmac_area = {}" by (auto simp: hmac_area_def in_addr_range)
  from ready_spi [OF ready_outside [OF ready_outside [OF ready in1 disj(1)] in2 disj(2)] in3]
  have "bootstrap_ready prefix_hash (?spi 2048) (\<lambda>_. replicate 2048 0) w3" .
  moreover have "dev32 w3 = boot_dev"
    using within_dev [OF in1] within_dev [OF in2] within_dev [OF in3] by (simp add: boot_world_def)
  ultimately obtain w4 where "bootstrap_turn (?spi 2048) (\<lambda>_. replicate 2048 0) (replicate 32 0) 0 w3 = Some (Returns 0 w4)"
    using boot_turn [of w3 "?spi 2048"] spi unfolding bootstrap_ready_def by auto
  then have "bootstrap_flash (?spi 2048) (\<lambda>_. replicate 2048 0) w3 = Some (0, w4)"
    unfolding bootstrap_flash_def by (subst bootstrap_loop.simps) simp
  then show ?thesis by (simp add: bootstrap_def req init dif_spi_device_init_def conf)
qed


end
