(* ===== verification/UsbDev.thy ===== *)
theory UsbDev
  imports DifUsbdev
begin

text \<open>
  The USB device library (\<open>sw/device/lib/usbdev.c\<close>, \<open>usbdev.h\<close>): the stack of free packet buffers, the
  requests to the hardware, the endpoint table with its callbacks, and the polling loop that drives them.
  The registers are those of \<open>DifUsbdev\<close>, accessed at absolute addresses.
\<close>

section \<open>Context\<close>

abbreviation USBDEV_BASE_ADDR :: u32 where "USBDEV_BASE_ADDR \<equiv> 0x40110000"
abbreviation USBDEV_DATA_TOGGLE_CLEAR_REG_OFFSET :: u32 where "USBDEV_DATA_TOGGLE_CLEAR_REG_OFFSET \<equiv> 0x60"
abbreviation USBDEV_INTR_STATE_PKT_RECEIVED_BIT :: nat where "USBDEV_INTR_STATE_PKT_RECEIVED_BIT \<equiv> 0"
abbreviation USBDEV_INTR_STATE_PKT_SENT_BIT :: nat where "USBDEV_INTR_STATE_PKT_SENT_BIT \<equiv> 1"
abbreviation USBDEV_INTR_ENABLE_LINK_RESET_BIT :: nat where "USBDEV_INTR_ENABLE_LINK_RESET_BIT \<equiv> 4"
abbreviation NUM_BUFS :: nat where "NUM_BUFS \<equiv> 32"
abbreviation BUF_LENGTH :: nat where "BUF_LENGTH \<equiv> 64"
abbreviation NUM_ENDPOINTS :: nat where "NUM_ENDPOINTS \<equiv> 12"

text \<open>
  A buffer id is a C \<open>int\<close>, negative for an error. A function pointer is the name \<open>'f\<close> of a function or
  \<open>NULL\<close>; the code it stands for is found when it is called, in the table \<open>usb_code\<close> below. An endpoint
  context is an address, 0 for \<open>NULL\<close>; the objects at the addresses are the heap \<open>'h\<close>.
\<close>

type_synonym usbbufid_t = int

record 'f usbdev_ctx =
  can_wake :: int
  freebuf :: "u8 list"
  halted :: u32
  nfree :: int
  flushed :: int
  ep_ctx :: "nat list"
  tx_done_callback :: "'f ptr list"
  rx_callback :: "'f ptr list"
  flush_callback :: "'f ptr list"
  reset_callback :: "'f ptr list"

text \<open>Calling a function: on the address of its context, it may change the heap, the driver's context and
  the bus. A receive callback gets the buffer, the size and the setup flag as well.\<close>

record ('f, 'h) usb_code =
  call_ctx :: "'f \<Rightarrow> nat \<Rightarrow> 'h \<times> 'f usbdev_ctx \<Rightarrow> ('h \<times> 'f usbdev_ctx) io"
  call_rx :: "'f \<Rightarrow> nat \<Rightarrow> usbbufid_t \<Rightarrow> nat \<Rightarrow> bool \<Rightarrow> 'h \<times> 'f usbdev_ctx \<Rightarrow> ('h \<times> 'f usbdev_ctx) io"

definition REG32_read :: "u32 \<Rightarrow> u32 io" where
  "REG32_read off = bus_read32 (USBDEV_BASE_ADDR + off)"

definition REG32_write :: "u32 \<Rightarrow> u32 \<Rightarrow> unit io" where
  "REG32_write off v = bus_write32 (USBDEV_BASE_ADDR + off) v"

text \<open>\<open>1 << n\<close> on the target: the shift instruction of RV32 uses the low five bits of the amount.\<close>

definition shl1 :: "int \<Rightarrow> u32" where
  "shl1 n = push_bit (nat (n mod 32)) 1"

definition usb_EXTRACT :: "u32 \<Rightarrow> bitfield_field32 \<Rightarrow> u32" where
  "usb_EXTRACT n f = drop_bit (unat (field_index f)) n AND field_mask f"

section \<open>The free buffers\<close>

definition buf_init :: "'f usbdev_ctx \<Rightarrow> 'f usbdev_ctx" where
  "buf_init ctx = ctx\<lparr>freebuf := map of_nat [0..<NUM_BUFS], nfree := int NUM_BUFS\<rparr>"

definition usbdev_buf_allocate_byid :: "'f usbdev_ctx \<Rightarrow> usbbufid_t \<times> 'f usbdev_ctx" where
  "usbdev_buf_allocate_byid ctx =
     (if nfree ctx \<le> 0 then (-1, ctx)
      else
        (let ctx = ctx\<lparr>nfree := nfree ctx - 1\<rparr>
         in (uint (freebuf ctx ! nat (nfree ctx)), ctx)))"

definition usbdev_buf_free_byid :: "'f usbdev_ctx \<Rightarrow> usbbufid_t \<Rightarrow> int \<times> 'f usbdev_ctx" where
  "usbdev_buf_free_byid ctx buf =
     (if nfree ctx \<ge> int NUM_BUFS \<or> buf \<ge> int NUM_BUFS then (-1, ctx)
      else (0, ctx\<lparr>freebuf := (freebuf ctx)[nat (nfree ctx) := word_of_int buf], nfree := nfree ctx + 1\<rparr>))"

definition usbdev_buf_idtoaddr :: "usbbufid_t \<Rightarrow> u32" where
  "usbdev_buf_idtoaddr buf =
     USBDEV_BASE_ADDR + USBDEV_BUFFER_REG_OFFSET + word_of_int (buf * int BUF_LENGTH)"

text \<open>The source of a copy is the list of its bytes from the pointer on; whole words are read from it.\<close>

definition source_word :: "u8 list \<Rightarrow> nat \<Rightarrow> u32" where
  "source_word from_word i = bytes_word (take 4 (drop (4 * i) from_word))"

definition usbdev_buf_copyto_byid :: "usbbufid_t \<Rightarrow> u8 list \<Rightarrow> nat \<Rightarrow> unit io" where
  "usbdev_buf_copyto_byid buf from_word len_bytes =
     (let bp = usbdev_buf_idtoaddr buf;
          len_bytes = (if len_bytes > BUF_LENGTH then BUF_LENGTH else len_bytes);
          len_words = (len_bytes + 4 - 1) div 4
      in for_each [0..<len_words] (\<lambda>i. bus_write32 (bp + 4 * of_nat i) (source_word from_word i)))"

function fill_av_fifo :: "'f usbdev_ctx \<Rightarrow> 'f usbdev_ctx io" where
  "fill_av_fifo ctx = do {
     stat \<leftarrow> REG32_read USBDEV_USBSTAT_REG_OFFSET;
     if bit stat (unat USBDEV_USBSTAT_AV_FULL_BIT) then ret ctx
     else (case usbdev_buf_allocate_byid ctx of (buf, ctx') \<Rightarrow>
       if buf < 0 then ret ctx'
       else do {
         _ \<leftarrow> REG32_write USBDEV_AVBUFFER_REG_OFFSET (word_of_int buf);
         fill_av_fifo ctx'
       })
   }"
  by pat_completeness auto
termination
  by (relation "measure (\<lambda>ctx. nat (nfree ctx))")
    (auto simp: usbdev_buf_allocate_byid_def Let_def split: if_splits)

declare fill_av_fifo.simps [simp del]

definition usbdev_sendbuf_byid :: "usbbufid_t \<Rightarrow> nat \<Rightarrow> int \<Rightarrow> unit io" where
  "usbdev_sendbuf_byid buf sz endpoint =
     (let configin = USBDEV_CONFIGIN_0_REG_OFFSET + 4 * word_of_int endpoint in
      if endpoint \<ge> int NUM_ENDPOINTS \<or> buf \<ge> int NUM_BUFS then ret ()
      else
        (let sz = (if sz > BUF_LENGTH then BUF_LENGTH else sz) in
         REG32_write configin
           (push_bit 0 (word_of_int buf) OR push_bit 8 (of_nat sz)
             OR push_bit (unat USBDEV_CONFIGIN_0_RDY_0_BIT) 1)))"

section \<open>Status and control\<close>

definition usbdev_get_status :: "u32 io" where
  "usbdev_get_status = REG32_read USBDEV_USBSTAT_REG_OFFSET"

definition usbdev_get_link_state :: "u32 io" where
  "usbdev_get_link_state = do {
     stat \<leftarrow> REG32_read USBDEV_USBSTAT_REG_OFFSET;
     ret (usb_EXTRACT stat USBDEV_USBSTAT_LINK_STATE_FIELD)
   }"

definition usbdev_get_address :: "u32 io" where
  "usbdev_get_address = do {
     ctrl \<leftarrow> REG32_read USBDEV_USBCTRL_REG_OFFSET;
     ret (usb_EXTRACT ctrl USBDEV_USBCTRL_DEVICE_ADDRESS_FIELD)
   }"

definition usbdev_set_deviceid :: "u32 \<Rightarrow> unit io" where
  "usbdev_set_deviceid deviceid =
     REG32_write USBDEV_USBCTRL_REG_OFFSET
       (push_bit (unat USBDEV_USBCTRL_ENABLE_BIT) 1 OR push_bit 16 deviceid)"

definition usbdev_halt :: "'f usbdev_ctx \<Rightarrow> int \<Rightarrow> bool \<Rightarrow> 'f usbdev_ctx io" where
  "usbdev_halt ctx endpoint enable = do {
     let epbit = shl1 endpoint;
     stall \<leftarrow> REG32_read USBDEV_STALL_REG_OFFSET;
     let stall = (if enable then stall OR epbit else stall AND NOT epbit);
     _ \<leftarrow> REG32_write USBDEV_STALL_REG_OFFSET stall;
     ret (ctx\<lparr>halted := stall\<rparr>)
   }"

definition usbdev_halted :: "'f usbdev_ctx \<Rightarrow> int \<Rightarrow> bool" where
  "usbdev_halted ctx endpoint \<longleftrightarrow> drop_bit (nat (endpoint mod 32)) (halted ctx) AND 0x1 \<noteq> 0"

definition usbdev_set_iso :: "int \<Rightarrow> bool \<Rightarrow> unit io" where
  "usbdev_set_iso endpoint enable = do {
     iso \<leftarrow> REG32_read USBDEV_ISO_REG_OFFSET;
     if enable then REG32_write USBDEV_ISO_REG_OFFSET (iso OR shl1 endpoint)
     else REG32_write USBDEV_ISO_REG_OFFSET (iso AND NOT (shl1 endpoint))
   }"

definition usbdev_clear_data_toggle :: "int \<Rightarrow> unit io" where
  "usbdev_clear_data_toggle endpoint = REG32_write USBDEV_DATA_TOGGLE_CLEAR_REG_OFFSET (shl1 endpoint)"

definition usbdev_set_ep0_stall :: "bool \<Rightarrow> unit io" where
  "usbdev_set_ep0_stall stall = do {
     v \<leftarrow> REG32_read USBDEV_STALL_REG_OFFSET;
     if stall then REG32_write USBDEV_STALL_REG_OFFSET (v OR 1)
     else REG32_write USBDEV_STALL_REG_OFFSET (v AND NOT 1)
   }"

definition usbdev_rem_wake_en :: "'f usbdev_ctx \<Rightarrow> bool \<Rightarrow> 'f usbdev_ctx" where
  "usbdev_rem_wake_en ctx enable = ctx\<lparr>can_wake := (if enable then 1 else 0)\<rparr>"

definition usbdev_can_rem_wake :: "'f usbdev_ctx \<Rightarrow> int" where
  "usbdev_can_rem_wake ctx = can_wake ctx"

section \<open>Endpoints\<close>

definition usbdev_endpoint_setup ::
  "'f usbdev_ctx \<Rightarrow> nat \<Rightarrow> bool \<Rightarrow> nat \<Rightarrow> 'f ptr \<Rightarrow> 'f ptr \<Rightarrow> 'f ptr \<Rightarrow> 'f ptr \<Rightarrow> 'f usbdev_ctx io" where
  "usbdev_endpoint_setup ctx ep enableout ep_context tx_done rx flush reset = do {
     let ctx = ctx\<lparr>ep_ctx := (ep_ctx ctx)[ep := ep_context],
       tx_done_callback := (tx_done_callback ctx)[ep := tx_done],
       rx_callback := (rx_callback ctx)[ep := rx],
       flush_callback := (flush_callback ctx)[ep := flush],
       reset_callback := (reset_callback ctx)[ep := reset]\<rparr>;
     _ \<leftarrow> do_if enableout (do {
       rxen \<leftarrow> REG32_read USBDEV_RXENABLE_OUT_REG_OFFSET;
       REG32_write USBDEV_RXENABLE_OUT_REG_OFFSET (rxen OR shl1 (int ep + 0))
     });
     ret ctx
   }"

primrec usbdev_init_endpoints :: "nat list \<Rightarrow> 'f usbdev_ctx \<Rightarrow> 'f usbdev_ctx io" where
  "usbdev_init_endpoints [] ctx = ret ctx"
| "usbdev_init_endpoints (i # is) ctx = do {
     ctx \<leftarrow> usbdev_endpoint_setup ctx i False 0 NULL NULL NULL NULL;
     usbdev_init_endpoints is ctx
   }"

definition usbdev_init :: "'f usbdev_ctx \<Rightarrow> bool \<Rightarrow> bool \<Rightarrow> bool \<Rightarrow> 'f usbdev_ctx io" where
  "usbdev_init ctx pinflip diff_rx diff_tx = do {
     ctx \<leftarrow> usbdev_init_endpoints [0..<NUM_ENDPOINTS] ctx;
     let ctx = ctx\<lparr>halted := 0, can_wake := 0\<rparr>;
     let ctx = buf_init ctx;
     _ \<leftarrow> REG32_write USBDEV_INTR_ENABLE_REG_OFFSET 0;
     ctx \<leftarrow> fill_av_fifo ctx;
     _ \<leftarrow> REG32_write USBDEV_RXENABLE_SETUP_REG_OFFSET (push_bit 0 1);
     _ \<leftarrow> REG32_write USBDEV_RXENABLE_OUT_REG_OFFSET (push_bit 0 1);
     let phy_config = push_bit (unat USBDEV_PHY_CONFIG_PINFLIP_BIT) (of_bool pinflip)
       OR push_bit (unat USBDEV_PHY_CONFIG_RX_DIFFERENTIAL_MODE_BIT) (of_bool diff_rx)
       OR push_bit (unat USBDEV_PHY_CONFIG_TX_DIFFERENTIAL_MODE_BIT) (of_bool diff_tx)
       OR push_bit (unat USBDEV_PHY_CONFIG_EOP_SINGLE_BIT_BIT) 1;
     _ \<leftarrow> REG32_write USBDEV_PHY_CONFIG_REG_OFFSET phy_config;
     _ \<leftarrow> REG32_write USBDEV_USBCTRL_REG_OFFSET (push_bit (unat USBDEV_USBCTRL_ENABLE_BIT) 1);
     ret ctx
   }"

section \<open>Polling\<close>

text \<open>The callback of one endpoint, when it is set, on the context of that endpoint.\<close>

definition usb_callback ::
  "('f, 'h) usb_code \<Rightarrow> ('f usbdev_ctx \<Rightarrow> 'f ptr list) \<Rightarrow> nat \<Rightarrow> 'h \<times> 'f usbdev_ctx \<Rightarrow> ('h \<times> 'f usbdev_ctx) io" where
  "usb_callback code sel ep s =
     (case sel (snd s) ! ep of
        NULL \<Rightarrow> ret s
      | Some f \<Rightarrow> call_ctx code f (ep_ctx (snd s) ! ep) s)"

primrec usbdev_poll_callbacks ::
  "('f, 'h) usb_code \<Rightarrow> ('f usbdev_ctx \<Rightarrow> 'f ptr list) \<Rightarrow> nat list \<Rightarrow> 'h \<times> 'f usbdev_ctx
     \<Rightarrow> ('h \<times> 'f usbdev_ctx) io" where
  "usbdev_poll_callbacks code sel [] s = ret s"
| "usbdev_poll_callbacks code sel (ep # eps) s = do {
     s \<leftarrow> usb_callback code sel ep s;
     usbdev_poll_callbacks code sel eps s
   }"

primrec usbdev_poll_sent ::
  "('f, 'h) usb_code \<Rightarrow> u32 \<Rightarrow> nat list \<Rightarrow> 'h \<times> 'f usbdev_ctx \<Rightarrow> ('h \<times> 'f usbdev_ctx) io" where
  "usbdev_poll_sent code sentep [] s = ret s"
| "usbdev_poll_sent code sentep (ep # eps) s = do {
     s \<leftarrow> (if bit sentep ep then do {
         cfgin \<leftarrow> REG32_read (USBDEV_CONFIGIN_0_REG_OFFSET + 4 * of_nat ep);
         let ctx = snd (usbdev_buf_free_byid (snd s) (uint (usb_EXTRACT cfgin USBDEV_CONFIGIN_0_BUFFER_0_FIELD)));
         usb_callback code tx_done_callback ep (fst s, ctx)
       } else ret s);
     usbdev_poll_sent code sentep eps s
   }"

definition usbdev_poll_in :: "('f, 'h) usb_code \<Rightarrow> u32 \<Rightarrow> 'h \<times> 'f usbdev_ctx \<Rightarrow> ('h \<times> 'f usbdev_ctx) io" where
  "usbdev_poll_in code istate s =
     (if bit istate USBDEV_INTR_STATE_PKT_SENT_BIT then do {
        sentep \<leftarrow> REG32_read USBDEV_IN_SENT_REG_OFFSET;
        s \<leftarrow> usbdev_poll_sent code sentep [0..<NUM_ENDPOINTS] s;
        _ \<leftarrow> REG32_write USBDEV_IN_SENT_REG_OFFSET sentep;
        _ \<leftarrow> REG32_write USBDEV_INTR_STATE_REG_OFFSET (push_bit USBDEV_INTR_STATE_PKT_SENT_BIT 1);
        ret s
      } else ret s)"

text \<open>One received packet. The endpoint field has four bits; the arrays have twelve entries.\<close>

definition rx_endpoint :: "u32 \<Rightarrow> nat" where
  "rx_endpoint rxinfo = unat (usb_EXTRACT rxinfo USBDEV_RXFIFO_EP_FIELD)"

definition usbdev_poll_packet :: "('f, 'h) usb_code \<Rightarrow> u32 \<Rightarrow> 'h \<times> 'f usbdev_ctx \<Rightarrow> ('h \<times> 'f usbdev_ctx) io" where
  "usbdev_poll_packet code rxinfo s = do {
     let buf = uint (usb_EXTRACT rxinfo USBDEV_RXFIFO_BUFFER_FIELD);
     let sz = unat (usb_EXTRACT rxinfo USBDEV_RXFIFO_SIZE_FIELD);
     let endpoint = rx_endpoint rxinfo;
     let setup = bit rxinfo (unat USBDEV_RXFIFO_SETUP_BIT);
     s \<leftarrow> (case rx_callback (snd s) ! endpoint of
         NULL \<Rightarrow> ret s
       | Some f \<Rightarrow> call_rx code f (ep_ctx (snd s) ! endpoint) buf sz setup s);
     ret (fst s, snd (usbdev_buf_free_byid (snd s) buf))
   }"

text \<open>
  The loop over the receive FIFO ends when the device reports it empty. \<open>None\<close>: it never does, or it
  reports a packet on an endpoint beyond the arrays, which C leaves undefined.
\<close>

partial_function (option) usbdev_poll_rx ::
  "('f, 'h) usb_code \<Rightarrow> 'h \<times> 'f usbdev_ctx \<Rightarrow> world \<Rightarrow> (('h \<times> 'f usbdev_ctx) \<times> world) option" where
  "usbdev_poll_rx code s w =
     (case run_state (REG32_read USBDEV_USBSTAT_REG_OFFSET) w of (stat, w) \<Rightarrow>
        if bit stat (unat USBDEV_USBSTAT_RX_EMPTY_BIT) then Some (s, w)
        else
          (case run_state (REG32_read USBDEV_RXFIFO_REG_OFFSET) w of (rxinfo, w) \<Rightarrow>
             if rx_endpoint rxinfo \<ge> NUM_ENDPOINTS then None
             else
               (case run_state (usbdev_poll_packet code rxinfo s) w of (s, w) \<Rightarrow>
                  usbdev_poll_rx code s w)))"

definition usbdev_poll_out ::
  "('f, 'h) usb_code \<Rightarrow> u32 \<Rightarrow> 'h \<times> 'f usbdev_ctx \<Rightarrow> world \<Rightarrow> (('h \<times> 'f usbdev_ctx) \<times> world) option" where
  "usbdev_poll_out code istate s w =
     (if bit istate USBDEV_INTR_STATE_PKT_RECEIVED_BIT then
        map_option (\<lambda>(s, w). (s, snd (run_state
            (REG32_write USBDEV_INTR_STATE_REG_OFFSET (push_bit USBDEV_INTR_STATE_PKT_RECEIVED_BIT 1)) w)))
          (usbdev_poll_rx code s w)
      else Some (s, w))"

definition usbdev_poll_other :: "('f, 'h) usb_code \<Rightarrow> u32 \<Rightarrow> 'h \<times> 'f usbdev_ctx \<Rightarrow> ('h \<times> 'f usbdev_ctx) io" where
  "usbdev_poll_other code istate s =
     (let other = istate AND NOT (push_bit USBDEV_INTR_STATE_PKT_RECEIVED_BIT 1
            OR push_bit USBDEV_INTR_STATE_PKT_SENT_BIT 1)
      in if other \<noteq> 0 then do {
        _ \<leftarrow> REG32_write USBDEV_INTR_STATE_REG_OFFSET other;
        (if bit istate USBDEV_INTR_ENABLE_LINK_RESET_BIT then do {
           s \<leftarrow> usbdev_poll_callbacks code reset_callback [0..<NUM_ENDPOINTS] s;
           _ \<leftarrow> REG32_write USBDEV_INTR_STATE_REG_OFFSET (push_bit USBDEV_INTR_ENABLE_LINK_RESET_BIT 1);
           ret s
         } else ret s)
      } else ret s)"

definition usbdev_poll_flush :: "('f, 'h) usb_code \<Rightarrow> 'h \<times> 'f usbdev_ctx \<Rightarrow> ('h \<times> 'f usbdev_ctx) io" where
  "usbdev_poll_flush code s = do {
     stat \<leftarrow> REG32_read USBDEV_USBSTAT_REG_OFFSET;
     let usbframe = usb_EXTRACT stat USBDEV_USBSTAT_FRAME_FIELD;
     if usbframe AND 0xf = 1 then
       (if flushed (snd s) = 0 then do {
          s \<leftarrow> usbdev_poll_callbacks code flush_callback [0..<NUM_ENDPOINTS] s;
          ret (fst s, (snd s)\<lparr>flushed := 1\<rparr>)
        } else ret s)
     else ret (fst s, (snd s)\<lparr>flushed := 0\<rparr>)
   }"

definition usbdev_poll ::
  "('f, 'h) usb_code \<Rightarrow> 'h \<times> 'f usbdev_ctx \<Rightarrow> world \<Rightarrow> (('h \<times> 'f usbdev_ctx) \<times> world) option" where
  "usbdev_poll code s w =
     (case run_state (REG32_read USBDEV_INTR_STATE_REG_OFFSET) w of (istate, w) \<Rightarrow>
      case run_state (fill_av_fifo (snd s)) w of (ctx, w) \<Rightarrow>
      case run_state (usbdev_poll_in code istate (fst s, ctx)) w of (s, w) \<Rightarrow>
      case usbdev_poll_out code istate s w of None \<Rightarrow> None | Some (s, w) \<Rightarrow>
      case run_state (usbdev_poll_other code istate s) w of (s, w) \<Rightarrow>
      Some (run_state (usbdev_poll_flush code s) w))"

text \<open>What every packet keeps, the loop keeps.\<close>

lemma usbdev_poll_rx_invariant:
  fixes code :: "('f, 'h) usb_code"
  assumes "usbdev_poll_rx code s w = Some r" "P s"
    and step: "\<And>rxinfo s w. rx_endpoint rxinfo < NUM_ENDPOINTS \<Longrightarrow> P s \<Longrightarrow> P (fst (run_state (usbdev_poll_packet code rxinfo s) w))"
  shows "P (fst r)"
proof -
  have "code = code \<longrightarrow> P s \<longrightarrow> P (fst r)"
  proof (rule usbdev_poll_rx.raw_induct [rotated, OF assms(1), where P = "\<lambda>c s w r. c = code \<longrightarrow> P s \<longrightarrow> P (fst r)"])
    fix loop and c :: "('f, 'h) usb_code" and s and w :: world and r
    assume IH: "\<And>c s w r. loop c s w = Some r \<Longrightarrow> c = code \<longrightarrow> P s \<longrightarrow> P (fst r)"
      and eq: "(case run_state (REG32_read USBDEV_USBSTAT_REG_OFFSET) w of (stat, w) \<Rightarrow>
        if bit stat (unat USBDEV_USBSTAT_RX_EMPTY_BIT) then Some (s, w)
        else (case run_state (REG32_read USBDEV_RXFIFO_REG_OFFSET) w of (rxinfo, w) \<Rightarrow>
             if rx_endpoint rxinfo \<ge> NUM_ENDPOINTS then None
             else (case run_state (usbdev_poll_packet c rxinfo s) w of (s, w) \<Rightarrow> loop c s w))) = Some r"
    show "c = code \<longrightarrow> P s \<longrightarrow> P (fst r)"
    proof (intro impI)
      assume "c = code" "P s"
      let ?w1 = "snd (run_state (REG32_read USBDEV_USBSTAT_REG_OFFSET) w)"
      let ?rx = "run_state (REG32_read USBDEV_RXFIFO_REG_OFFSET) ?w1"
      let ?p = "run_state (usbdev_poll_packet c (fst ?rx) s) (snd ?rx)"
      have "r = (s, ?w1) \<or> rx_endpoint (fst ?rx) < NUM_ENDPOINTS \<and> loop c (fst ?p) (snd ?p) = Some r"
        using eq by (auto simp: case_prod_unfold split: if_splits)
      then show "P (fst r)"
      proof
        assume "r = (s, ?w1)"
        then show ?thesis using \<open>P s\<close> by simp
      next
        assume a: "rx_endpoint (fst ?rx) < NUM_ENDPOINTS \<and> loop c (fst ?p) (snd ?p) = Some r"
        then have "P (fst ?p)" using step \<open>c = code\<close> \<open>P s\<close> by blast
        then show ?thesis using IH a \<open>c = code\<close> by blast
      qed
    qed
  qed
  then show ?thesis using assms(2) by simp
qed

section \<open>The stack of free buffers as a pool\<close>

definition usb_pool_ok :: "'f usbdev_ctx \<Rightarrow> bool" where
  "usb_pool_ok ctx \<longleftrightarrow> 0 \<le> nfree ctx \<and> nfree ctx \<le> int NUM_BUFS \<and> length (freebuf ctx) = NUM_BUFS
     \<and> (\<forall>b \<in> set (freebuf ctx). b < 32)"

definition usb_free_ids :: "'f usbdev_ctx \<Rightarrow> usbbufid_t list" where
  "usb_free_ids ctx = map uint (rev (take (nat (nfree ctx)) (freebuf ctx)))"

lemma buf_init_ok: "usb_pool_ok (buf_init ctx) \<and> nfree (buf_init ctx) = 32"
proof -
  have "(of_nat i :: u8) < 32" if "i < 32" for i
    using that by (simp add: word_less_nat_alt unat_of_nat take_bit_nat_eq_self)
  then show ?thesis by (simp add: buf_init_def usb_pool_ok_def)
qed

lemma usb_pool_entry: "usb_pool_ok ctx \<Longrightarrow> i < 32 \<Longrightarrow> 0 \<le> uint (freebuf ctx ! i) \<and> uint (freebuf ctx ! i) < 32"
proof -
  assume "usb_pool_ok ctx" "i < 32"
  then have "freebuf ctx ! i < 32" by (simp add: usb_pool_ok_def)
  then have "uint (freebuf ctx ! i) < uint (32 :: u8)" by (simp only: word_less_def)
  then show ?thesis by simp
qed

lemma usb_allocate_ok:
  assumes "usb_pool_ok ctx" "nfree ctx > 0" "usbdev_buf_allocate_byid ctx = (buf, ctx')"
  shows "0 \<le> buf \<and> buf < 32 \<and> usb_pool_ok ctx' \<and> nfree ctx' = nfree ctx - 1 \<and> usb_free_ids ctx = buf # usb_free_ids ctx'
    \<and> ctx' = ctx\<lparr>nfree := nfree ctx - 1\<rparr>"
proof -
  obtain n where n: "nfree ctx = int (Suc n)" "n < 32"
    using assms(1,2) by (intro that [of "nat (nfree ctx) - 1"]) (auto simp: usb_pool_ok_def)
  have e: "buf = uint (freebuf ctx ! n)" "ctx' = ctx\<lparr>nfree := int n\<rparr>"
    using assms(3) n by (auto simp: usbdev_buf_allocate_byid_def Let_def)
  have "take (Suc n) (freebuf ctx) = take n (freebuf ctx) @ [freebuf ctx ! n]"
    using assms(1) n by (intro take_Suc_conv_app_nth) (simp add: usb_pool_ok_def)
  then show ?thesis
    using assms(1) n usb_pool_entry [OF assms(1) n(2)] e by (simp add: usb_free_ids_def usb_pool_ok_def nat_add_distrib)
qed

lemma usb_allocate_empty: "nfree ctx \<le> 0 \<Longrightarrow> usbdev_buf_allocate_byid ctx = (-1, ctx)"
  by (simp add: usbdev_buf_allocate_byid_def)

lemma usb_free_ok:
  assumes "usb_pool_ok ctx" "0 \<le> buf" "buf < 32"
  shows "usb_pool_ok (snd (usbdev_buf_free_byid ctx buf))
    \<and> (nfree ctx < 32 \<longrightarrow> fst (usbdev_buf_free_byid ctx buf) = 0
        \<and> usb_free_ids (snd (usbdev_buf_free_byid ctx buf)) = buf # usb_free_ids ctx)"
proof (cases "nfree ctx < 32")
  case True
  obtain n where n: "nfree ctx = int n" "n < 32"
    using assms(1) True by (intro that [of "nat (nfree ctx)"]) (auto simp: usb_pool_ok_def)
  obtain b where b: "buf = int b" "b < 32" using assms(2,3) by (auto intro: nonneg_int_cases)
  have u: "unat (of_nat b :: u8) = b" using b(2) by (simp add: unat_of_nat take_bit_nat_eq_self)
  then have w: "(of_nat b :: u8) < 32" "uint (of_nat b :: u8) = int b" using b(2) by (simp_all add: word_less_nat_alt uint_nat)
  have l: "length (freebuf ctx) = 32" using assms(1) by (simp add: usb_pool_ok_def)
  have "take (Suc n) ((freebuf ctx)[n := of_nat b]) = take n (freebuf ctx) @ [of_nat b]"
    using n(2) l by (simp add: take_Suc_conv_app_nth)
  then show ?thesis
    using assms(1) n b w by (auto simp: usbdev_buf_free_byid_def usb_free_ids_def usb_pool_ok_def nat_add_distrib
        dest!: set_update_subset_insert [THEN subsetD])
next
  case False
  then show ?thesis using assms(1) by (simp add: usbdev_buf_free_byid_def)
qed

interpretation usb_buf_stack: free_pool usb_pool_ok usb_free_ids "{0..<32}"
  "\<lambda>ctx i. (fst (usbdev_buf_free_byid ctx i) = 0, snd (usbdev_buf_free_byid ctx i))"
  "\<lambda>ctx. (fst (usbdev_buf_allocate_byid ctx) \<ge> 0, snd (usbdev_buf_allocate_byid ctx), Some (fst (usbdev_buf_allocate_byid ctx)))"
proof (unfold_locales, goal_cases)
  case 1
  show ?case by simp
next
  case (2 p)
  then show ?case using usb_pool_entry [OF 2] by (auto simp: usb_free_ids_def in_set_conv_nth usb_pool_ok_def)
next
  case (3 p i)
  then have "nfree p < 32" by (auto simp: usb_free_ids_def usb_pool_ok_def)
  then show ?case using usb_free_ok [of p i] 3 by auto
next
  case (4 p i r)
  have "nfree p = 0 \<Longrightarrow> usb_free_ids p = []" by (simp add: usb_free_ids_def)
  then have "nfree p > 0" using 4 by (force simp: usb_pool_ok_def)
  then show ?case using usb_allocate_ok [OF 4(1)] 4(2) by (cases "usbdev_buf_allocate_byid p") auto
qed

end
