(* ===== verification/UsbPackets.thy ===== *)
theory UsbPackets
  imports UsbDev
begin

text \<open>
  What the USB hardware sees of the library: the words written to the packet memory, and for each endpoint the
  packets queued by a write to its configuration register. The routines that fill and queue a
  buffer are characterised once here, for the control endpoint and the serial endpoints.
\<close>

section \<open>The packet memory\<close>

fun usb_mem :: "bus_event list \<Rightarrow> u32 \<Rightarrow> u32" where
  "usb_mem [] = (\<lambda>_. 0)"
| "usb_mem (Wr32 a v # h) = (usb_mem h)(a := v)"
| "usb_mem (_ # h) = usb_mem h"

definition buffer_bytes :: "(u32 \<Rightarrow> u32) \<Rightarrow> usbbufid_t \<Rightarrow> u8 list" where
  "buffer_bytes m buf = concat (map (\<lambda>i. word_bytes (m (usbdev_buf_idtoaddr buf + 4 * of_nat i))) [0..<16])"

definition usb_packet :: "(u32 \<Rightarrow> u32) \<Rightarrow> u32 \<Rightarrow> u8 list" where
  "usb_packet m v = take (unat (usb_EXTRACT v USBDEV_CONFIGIN_0_SIZE_0_FIELD))
     (buffer_bytes m (uint (usb_EXTRACT v USBDEV_CONFIGIN_0_BUFFER_0_FIELD)))"

definition configin_addr :: "int \<Rightarrow> u32" where
  "configin_addr ep = USBDEV_BASE_ADDR + (USBDEV_CONFIGIN_0_REG_OFFSET + 4 * word_of_int ep)"

fun usb_queued :: "int \<Rightarrow> bus_event list \<Rightarrow> u8 list list" where
  "usb_queued ep [] = []"
| "usb_queued ep (Wr32 a v # h) =
     usb_queued ep h @ (if a = configin_addr ep \<and> bit v 31 then [usb_packet (usb_mem h) v] else [])"
| "usb_queued ep (_ # h) = usb_queued ep h"

section \<open>Addresses\<close>

definition buf_ok :: "usbbufid_t \<Rightarrow> bool" where
  "buf_ok buf \<longleftrightarrow> 0 \<le> buf \<and> buf < int NUM_BUFS"

definition ep_ok :: "int \<Rightarrow> bool" where
  "ep_ok ep \<longleftrightarrow> 0 \<le> ep \<and> ep < int NUM_ENDPOINTS"

lemma configin_addr_unat:
  assumes "ep_ok ep"
  shows "unat (configin_addr ep) = 1074855980 + 4 * nat ep"
proof -
  obtain e where e: "ep = int e" "e < 12" using assms by (auto simp: ep_ok_def intro: nonneg_int_cases)
  have "configin_addr ep = of_nat (1074855980 + 4 * e)"
    by (simp add: configin_addr_def e(1))
  then show ?thesis using e by (simp only:) (subst unat_of_nat_u32, simp_all)
qed

lemma buf_addr_unat:
  assumes "buf_ok buf" "i < 16"
  shows "unat (usbdev_buf_idtoaddr buf + 4 * of_nat i) = 1074857984 + 64 * nat buf + 4 * i"
proof -
  obtain b where b: "buf = int b" "b < 32" using assms(1) by (auto simp: buf_ok_def intro: nonneg_int_cases)
  have "usbdev_buf_idtoaddr buf + 4 * of_nat i = of_nat (1074857984 + 64 * b + 4 * i)"
    by (simp add: usbdev_buf_idtoaddr_def b(1) mult.commute)
  then show ?thesis using b assms(2) by (simp only:) (subst unat_of_nat_u32, simp_all)
qed

lemma buf_addr_not_configin:
  assumes "buf_ok buf" "i < 16" "ep_ok ep"
  shows "usbdev_buf_idtoaddr buf + 4 * of_nat i \<noteq> configin_addr ep"
proof
  assume "usbdev_buf_idtoaddr buf + 4 * of_nat i = configin_addr ep"
  then have "1074857984 + 64 * nat buf + 4 * i = 1074855980 + 4 * nat ep"
    using buf_addr_unat [OF assms(1,2)] configin_addr_unat [OF assms(3)] by simp
  moreover have "nat ep < 12" using assms(3) by (auto simp: ep_ok_def)
  ultimately show False by linarith
qed

lemma word_index_inject [simp]:
  assumes "i < 16" "j < 16"
  shows "4 * of_nat i = (4 * of_nat j :: u32) \<longleftrightarrow> i = j"
  using of_nat_u32_inject [of "4 * i" "4 * j"] assms by simp

section \<open>The bytes of a buffer\<close>

lemma length_concat_words: "length (concat (map (\<lambda>i. word_bytes (f i)) is)) = 4 * length is"
  by (induction "is") simp_all

lemma take_concat_words:
  "k \<le> n \<Longrightarrow> take (4 * k) (concat (map (\<lambda>i. word_bytes (f i)) [0..<n])) = concat (map (\<lambda>i. word_bytes (f i)) [0..<k])"
proof -
  assume "k \<le> n"
  then have "[0..<n] = [0..<k] @ [k..<n]" using upt_add_eq_append [of 0 k "n - k"] by simp
  then show ?thesis by (simp add: length_concat_words)
qed

lemma length_buffer_bytes [simp]: "length (buffer_bytes m buf) = 64"
  by (simp add: buffer_bytes_def length_concat_words)

text \<open>The first \<open>k\<close> words of a buffer depend on the memory there only.\<close>

lemma buffer_words_cong:
  assumes "k \<le> 16" "\<And>i. i < k \<Longrightarrow> m (usbdev_buf_idtoaddr buf + 4 * of_nat i) = m' (usbdev_buf_idtoaddr buf + 4 * of_nat i)"
  shows "take (4 * k) (buffer_bytes m buf) = take (4 * k) (buffer_bytes m' buf)"
  using assms by (auto simp: buffer_bytes_def take_concat_words intro!: arg_cong [of _ _ concat] map_cong)

text \<open>Storing the next word extends what the buffer holds.\<close>

lemma buffer_words_Suc:
  assumes "buf_ok buf" "k < 16"
  shows "take (4 * Suc k) (buffer_bytes (m(usbdev_buf_idtoaddr buf + 4 * of_nat k := v)) buf)
    = take (4 * k) (buffer_bytes m buf) @ word_bytes v"
proof -
  let ?a = "\<lambda>i. usbdev_buf_idtoaddr buf + 4 * of_nat i :: u32"
  have "concat (map (\<lambda>i. word_bytes ((m(?a k := v)) (?a i))) [0..<k]) = concat (map (\<lambda>i. word_bytes (m (?a i))) [0..<k])"
    using assms(2) by (intro arg_cong [of _ _ concat] map_cong refl) simp
  moreover have "take (4 * Suc k) (buffer_bytes (m(?a k := v)) buf)
      = concat (map (\<lambda>i. word_bytes ((m(?a k := v)) (?a i))) [0..<Suc k])"
    unfolding buffer_bytes_def using assms(2) by (intro take_concat_words) simp
  moreover have "take (4 * k) (buffer_bytes m buf) = concat (map (\<lambda>i. word_bytes (m (?a i))) [0..<k])"
    unfolding buffer_bytes_def using assms(2) by (intro take_concat_words) simp
  ultimately show ?thesis by simp
qed

lemma source_words: "4 * k \<le> length data \<Longrightarrow> concat (map (\<lambda>i. word_bytes (source_word data i)) [0..<k]) = take (4 * k) data"
proof (induction k)
  case (Suc k)
  then have "word_bytes (source_word data k) = take 4 (drop (4 * k) data)"
    by (simp add: source_word_def)
  with Suc show ?case by (simp add: take_add [of "4 * k" 4, symmetric] add.commute)
qed simp

section \<open>Filling and queueing a buffer\<close>

lemma usb_copy_words:
  assumes "buf_ok buf" "n \<le> 16" "ep_ok ep" "4 * n \<le> length data"
    and "w' = snd (run_state (for_each [0..<n] (\<lambda>i. bus_write32 (usbdev_buf_idtoaddr buf + 4 * of_nat i) (source_word data i))) w)"
  shows "take (4 * n) (buffer_bytes (usb_mem (trace w')) buf) = take (4 * n) data
    \<and> usb_queued ep (trace w') = usb_queued ep (trace w)"
  unfolding assms(5) using assms(2,4)
proof (induction n)
  case (Suc n)
  let ?w = "snd (run_state (for_each [0..<n] (\<lambda>i. bus_write32 (usbdev_buf_idtoaddr buf + 4 * of_nat i) (source_word data i))) w)"
  let ?m = "usb_mem (trace ?w)"
  have IH: "take (4 * n) (buffer_bytes ?m buf) = take (4 * n) data" "usb_queued ep (trace ?w) = usb_queued ep (trace w)"
    using Suc by simp_all
  have w: "word_bytes (source_word data n) = take 4 (drop (4 * n) data)"
    using Suc.prems by (simp add: source_word_def)
  have "take (4 * Suc n) (buffer_bytes (?m(usbdev_buf_idtoaddr buf + 4 * of_nat n := source_word data n)) buf)
      = take (4 * n) data @ take 4 (drop (4 * n) data)"
    using buffer_words_Suc [OF assms(1), of n ?m] Suc.prems IH(1) w by simp
  also have "\<dots> = take (4 * Suc n) data" by (simp add: take_add [symmetric] add.commute)
  finally have m: "take (4 * Suc n) (buffer_bytes (?m(usbdev_buf_idtoaddr buf + 4 * of_nat n := source_word data n)) buf)
      = take (4 * Suc n) data" .
  have "trace (snd (run_state (for_each [0..<Suc n] (\<lambda>i. bus_write32 (usbdev_buf_idtoaddr buf + 4 * of_nat i) (source_word data i))) w))
      = Wr32 (usbdev_buf_idtoaddr buf + 4 * of_nat n) (source_word data n) # trace ?w"
    by (simp add: for_each_append io_simps case_prod_unfold)
  moreover have "usbdev_buf_idtoaddr buf + 4 * of_nat n \<noteq> configin_addr ep"
    using Suc.prems(1) by (intro buf_addr_not_configin assms(1,3)) simp
  ultimately show ?case
    using IH(2) m by (simp only: usb_mem.simps usb_queued.simps) simp
qed simp

text \<open>A copy fills the buffer with the given bytes and queues nothing.\<close>

lemma usb_copyto:
  assumes "buf_ok buf" "ep_ok ep" "len \<le> 64" "4 * ((len + 3) div 4) \<le> length data"
  shows "\<exists>w'. run_state (usbdev_buf_copyto_byid buf data len) w = ((), w')
    \<and> take len (buffer_bytes (usb_mem (trace w')) buf) = take len data
    \<and> usb_queued ep (trace w') = usb_queued ep (trace w)
    \<and> (\<forall>a. unat a < 1074857984 \<longrightarrow> writes_to a (trace w') = writes_to a (trace w))"
proof -
  let ?n = "(len + 3) div 4"
  have n: "?n \<le> 16" "len \<le> 4 * ?n" using assms(3) by auto
  let ?p = "\<lambda>n. for_each [0..<n] (\<lambda>i. bus_write32 (usbdev_buf_idtoaddr buf + 4 * of_nat i) (source_word data i))"
  have low: "writes_to a (trace (snd (run_state (?p k) w))) = writes_to a (trace w)"
    if "unat a < 1074857984" "k \<le> 16" for a k
    using that(2)
  proof (induction k)
    case (Suc k)
    then have "usbdev_buf_idtoaddr buf + 4 * of_nat k \<noteq> a"
      using buf_addr_unat [OF assms(1), of k] that(1) by auto
    then show ?case using Suc by (simp add: for_each_append io_simps case_prod_unfold)
  qed simp
  have c: "take (4 * ?n) (buffer_bytes (usb_mem (trace (snd (run_state (?p ?n) w)))) buf) = take (4 * ?n) data"
    "usb_queued ep (trace (snd (run_state (?p ?n) w))) = usb_queued ep (trace w)"
    using usb_copy_words [OF assms(1) n(1) assms(2,4) refl] by auto
  have "take len (buffer_bytes (usb_mem (trace (snd (run_state (?p ?n) w)))) buf) = take len data"
    using arg_cong [OF c(1), of "take len"] n(2) by (simp add: min_def)
  moreover have "run_state (usbdev_buf_copyto_byid buf data len) w = ((), snd (run_state (?p ?n) w))"
    using assms(3) by (simp add: usbdev_buf_copyto_byid_def Let_def prod_eq_iff add.commute)
  ultimately show ?thesis using c(2) low [OF _ n(1)] by blast
qed

text \<open>Queueing a buffer: one write, whose fields read back as given.\<close>

lemma configin_extract:
  assumes "take_bit 5 x = x" "take_bit 7 y = y" and T: "T = push_bit 31 (1 :: u32)"
  shows "drop_bit 8 (x OR push_bit 8 y OR T) AND mask 7 = y"
    "(x OR push_bit 8 y OR T) AND mask 5 = x"
    "bit (x OR push_bit 8 y OR T) 31"
proof -
  have x: "bit x n \<Longrightarrow> n < 5" and y: "bit y n \<Longrightarrow> n < 7" for n
    using assms(1,2) by (metis bit_take_bit_iff)+
  have top: "bit T n \<longleftrightarrow> n = 31" for n
    unfolding T by (subst bit_push_bit_iff) (auto simp: bit_1_iff)
  show "drop_bit 8 (x OR push_bit 8 y OR T) AND mask 7 = y"
  proof (rule bit_eqI)
    fix n
    show "bit (drop_bit 8 (x OR push_bit 8 y OR T) AND mask 7) n \<longleftrightarrow> bit y n"
      using x [of "8 + n"] y [of n] by (auto simp: bit_simps top)
  qed
  show "(x OR push_bit 8 y OR T) AND mask 5 = x"
  proof (rule bit_eqI)
    fix n
    show "bit ((x OR push_bit 8 y OR T) AND mask 5) n \<longleftrightarrow> bit x n"
      using x [of n] by (auto simp: bit_simps top)
  qed
  show "bit (x OR push_bit 8 y OR T) 31" by (simp add: bit_or_iff top)
qed

lemma configin_fields:
  assumes "buf_ok buf" "sz \<le> 64"
  defines "v \<equiv> push_bit 0 (word_of_int buf) OR push_bit 8 (of_nat sz) OR push_bit 31 1 :: u32"
  shows "bit v 31 \<and> unat (usb_EXTRACT v USBDEV_CONFIGIN_0_SIZE_0_FIELD) = sz
    \<and> uint (usb_EXTRACT v USBDEV_CONFIGIN_0_BUFFER_0_FIELD) = buf"
proof -
  obtain b where b: "buf = int b" "b < 32" using assms(1) by (auto simp: buf_ok_def intro: nonneg_int_cases)
  let ?b = "of_nat b :: u32" and ?s = "of_nat sz :: u32"
  have t: "take_bit 5 ?b = ?b" "take_bit 7 ?s = ?s"
    unfolding take_bit_of_nat using b(2) assms(2) by (simp_all add: take_bit_nat_eq_self)
  have v: "v = ?b OR push_bit 8 ?s OR push_bit 31 1" by (simp add: v_def b(1))
  have "usb_EXTRACT v USBDEV_CONFIGIN_0_SIZE_0_FIELD = drop_bit 8 v AND mask 7"
    "usb_EXTRACT v USBDEV_CONFIGIN_0_BUFFER_0_FIELD = v AND mask 5"
    by (simp_all add: usb_EXTRACT_def mask_eq_exp_minus_1)
  then show ?thesis
    unfolding v configin_extract [OF t refl]
    using b assms(2) configin_extract(3) [OF t refl] by (simp add: unat_of_nat_u32 uint_nat)
qed

lemma usb_sendbuf:
  assumes "buf_ok buf" "ep_ok ep" "sz \<le> 64"
  shows "\<exists>w'. run_state (usbdev_sendbuf_byid buf sz ep) w = ((), w')
    \<and> usb_queued ep (trace w') = usb_queued ep (trace w) @ [take sz (buffer_bytes (usb_mem (trace w)) buf)]
    \<and> (\<forall>a. a \<noteq> configin_addr ep \<longrightarrow> writes_to a (trace w') = writes_to a (trace w))"
proof -
  have "\<not> ep \<ge> int NUM_ENDPOINTS" "\<not> buf \<ge> int NUM_BUFS" using assms(1,2) by (auto simp: buf_ok_def ep_ok_def)
  then show ?thesis
    using assms(3) configin_fields [OF assms(1,3)]
    by (simp add: usbdev_sendbuf_byid_def Let_def REG32_write_def io_simps configin_addr_def usb_packet_def)
qed

end
