(* ===== verification/UsbControlEp.thy ===== *)
theory UsbControlEp
  imports UsbPackets
begin

text \<open>
  The default control endpoint (\<open>sw/device/lib/usb_controlep.c\<close>, \<open>usb_consts.h\<close>): standard requests, the
  stages of a control transfer and the assignment of the device address.
\<close>

section \<open>Types and constants\<close>

datatype ctstate = kCtIdle | kCtWaitIn | kCtStatOut | kCtAddrStatIn | kCtStatIn | kCtError

text \<open>
  The driver context that the endpoint's context points to is passed along with it. The configuration
  descriptor is given by the bytes from its pointer on.
\<close>

record usb_controlep_ctx =
  ctrl_ep :: int
  ctrlstate :: ctstate
  new_dev :: u32
  usb_config :: u8
  cfg_dscr :: "u8 list"
  cfg_dscr_len :: nat

abbreviation kUsbSetupReqGetStatus :: u32 where "kUsbSetupReqGetStatus \<equiv> 0"
abbreviation kUsbSetupReqClearFeature :: u32 where "kUsbSetupReqClearFeature \<equiv> 1"
abbreviation kUsbSetupReqSetFeature :: u32 where "kUsbSetupReqSetFeature \<equiv> 3"
abbreviation kUsbSetupReqSetAddress :: u32 where "kUsbSetupReqSetAddress \<equiv> 5"
abbreviation kUsbSetupReqGetDescriptor :: u32 where "kUsbSetupReqGetDescriptor \<equiv> 6"
abbreviation kUsbSetupReqGetConfiguration :: u32 where "kUsbSetupReqGetConfiguration \<equiv> 8"
abbreviation kUsbSetupReqSetConfiguration :: u32 where "kUsbSetupReqSetConfiguration \<equiv> 9"
abbreviation kUsbSetupReqGetInterface :: u32 where "kUsbSetupReqGetInterface \<equiv> 10"
abbreviation kUsbSetupReqSetInterface :: u32 where "kUsbSetupReqSetInterface \<equiv> 11"
abbreviation kUsbSetupReqSynchFrame :: u32 where "kUsbSetupReqSynchFrame \<equiv> 12"
abbreviation kUsbReqTypeRecipientMask :: u32 where "kUsbReqTypeRecipientMask \<equiv> 0x1f"
abbreviation kUsbReqTypeDevice :: u32 where "kUsbReqTypeDevice \<equiv> 0"
abbreviation kUsbReqTypeEndpoint :: u32 where "kUsbReqTypeEndpoint \<equiv> 2"
abbreviation kUsbFeatureEndpointHalt :: u32 where "kUsbFeatureEndpointHalt \<equiv> 0"
abbreviation kUsbFeatureDeviceRemoteWakeup :: u32 where "kUsbFeatureDeviceRemoteWakeup \<equiv> 1"
abbreviation kUsbStatusSelfPowered :: u32 where "kUsbStatusSelfPowered \<equiv> 1"
abbreviation kUsbStatusRemWake :: u32 where "kUsbStatusRemWake \<equiv> 2"
abbreviation kUsbStatusHalted :: u32 where "kUsbStatusHalted \<equiv> 1"

definition dev_dscr :: "u8 list" where
  "dev_dscr = [18, 1, 0x00, 0x02, 0x00, 0x00, 0x00, 64, 0xd1, 0x18, 0x3a, 0x50, 0, 0x1, 0, 0, 0, 1]"

section \<open>Standard requests\<close>

text \<open>The reply to a request with a data stage: the buffer of the request is filled and queued.\<close>

definition ctrl_reply :: "usb_controlep_ctx \<Rightarrow> usbbufid_t \<Rightarrow> u8 list \<Rightarrow> nat \<Rightarrow> u32 \<Rightarrow> unit io" where
  "ctrl_reply ctctx buf data len wLength = do {
     let len = (if unat wLength < len then unat wLength else len);
     _ \<leftarrow> usbdev_buf_copyto_byid buf data len;
     usbdev_sendbuf_byid buf len (ctrl_ep ctctx)
   }"

text \<open>
  \<open>beyond\<close> are the bytes that follow a byte array in memory: the copy reads whole words.
\<close>

definition setup_req ::
  "u8 list \<Rightarrow> usb_controlep_ctx \<Rightarrow> 'f usbdev_ctx \<Rightarrow> usbbufid_t \<Rightarrow> u32 \<Rightarrow> u32 \<Rightarrow> u32 \<Rightarrow> u32 \<Rightarrow> u32
     \<Rightarrow> (ctstate \<times> usb_controlep_ctx \<times> 'f usbdev_ctx) io" where
  "setup_req beyond ctctx ctx buf bmRequestType bRequest wValue wIndex wLength =
     (if bRequest = kUsbSetupReqGetDescriptor then
        if wValue AND 0xff00 = 0x100 then do {
          _ \<leftarrow> ctrl_reply ctctx buf (dev_dscr @ beyond) (length dev_dscr) wLength;
          ret (kCtWaitIn, ctctx, ctx)
        } else if wValue AND 0xff00 = 0x200 then do {
          _ \<leftarrow> ctrl_reply ctctx buf (cfg_dscr ctctx) (cfg_dscr_len ctctx) wLength;
          ret (kCtWaitIn, ctctx, ctx)
        } else ret (kCtError, ctctx, ctx)
      else if bRequest = kUsbSetupReqSetAddress then do {
        let ctctx = ctctx\<lparr>new_dev := wValue AND 0x7f\<rparr>;
        _ \<leftarrow> usbdev_sendbuf_byid buf 0 (ctrl_ep ctctx);
        ret (kCtAddrStatIn, ctctx, ctx)
      } else if bRequest = kUsbSetupReqSetConfiguration then do {
        let ctctx = ctctx\<lparr>usb_config := ucast wValue\<rparr>;
        _ \<leftarrow> usbdev_sendbuf_byid buf 0 (ctrl_ep ctctx);
        ret (kCtStatIn, ctctx, ctx)
      } else if bRequest = kUsbSetupReqGetConfiguration then do {
        _ \<leftarrow> ctrl_reply ctctx buf (usb_config ctctx # beyond) 1 wLength;
        ret (kCtWaitIn, ctctx, ctx)
      } else if bRequest = kUsbSetupReqSetFeature then do {
        ctx \<leftarrow> (if wValue = kUsbFeatureEndpointHalt then usbdev_halt ctx (uint wIndex) True
               else if wValue = kUsbFeatureDeviceRemoteWakeup then ret (usbdev_rem_wake_en ctx True)
               else ret ctx);
        _ \<leftarrow> usbdev_sendbuf_byid buf 0 (ctrl_ep ctctx);
        ret (kCtStatIn, ctctx, ctx)
      } else if bRequest = kUsbSetupReqClearFeature then do {
        ctx \<leftarrow> (if wValue = kUsbFeatureEndpointHalt then usbdev_halt ctx (uint wIndex) False
               else if wValue = kUsbFeatureDeviceRemoteWakeup then ret (usbdev_rem_wake_en ctx False)
               else ret ctx);
        _ \<leftarrow> usbdev_sendbuf_byid buf 0 (ctrl_ep ctctx);
        ret (kCtStatIn, ctctx, ctx)
      } else if bRequest = kUsbSetupReqGetStatus then do {
        let type' = bmRequestType AND kUsbReqTypeRecipientMask;
        let stat =
          (if type' = kUsbReqTypeDevice then
             (if usbdev_can_rem_wake ctx \<noteq> 0 then kUsbStatusRemWake else 0) OR kUsbStatusSelfPowered
           else if type' = kUsbReqTypeEndpoint then
             (if usbdev_halted ctx (uint wIndex) then kUsbStatusHalted else 0)
           else 0);
        _ \<leftarrow> ctrl_reply ctctx buf (word_bytes stat) 2 wLength;
        ret (kCtWaitIn, ctctx, ctx)
      } else if bRequest = kUsbSetupReqSetInterface then do {
        _ \<leftarrow> usbdev_sendbuf_byid buf 0 (ctrl_ep ctctx);
        ret (kCtStatIn, ctctx, ctx)
      } else if bRequest = kUsbSetupReqGetInterface then do {
        _ \<leftarrow> ctrl_reply ctctx buf (word_bytes 0) 1 wLength;
        ret (kCtWaitIn, ctctx, ctx)
      } else if bRequest = kUsbSetupReqSynchFrame then do {
        _ \<leftarrow> ctrl_reply ctctx buf (word_bytes 0) 2 wLength;
        ret (kCtWaitIn, ctctx, ctx)
      } else ret (kCtError, ctctx, ctx))"

section \<open>Callbacks\<close>

definition ctrl_tx_done ::
  "usb_controlep_ctx \<Rightarrow> 'f usbdev_ctx \<Rightarrow> (usb_controlep_ctx \<times> 'f usbdev_ctx) io" where
  "ctrl_tx_done ctctx ctx =
     (case ctrlstate ctctx of
        kCtAddrStatIn \<Rightarrow> do {
          _ \<leftarrow> usbdev_set_deviceid (new_dev ctctx);
          ret (ctctx\<lparr>ctrlstate := kCtIdle\<rparr>, ctx)
        }
      | kCtStatIn \<Rightarrow> ret (ctctx\<lparr>ctrlstate := kCtIdle\<rparr>, ctx)
      | kCtWaitIn \<Rightarrow> ret (ctctx\<lparr>ctrlstate := kCtStatOut\<rparr>, ctx)
      | _ \<Rightarrow> ret (ctctx, ctx))"

definition ctrl_rx_error ::
  "usb_controlep_ctx \<Rightarrow> 'f usbdev_ctx \<Rightarrow> usbbufid_t \<Rightarrow> (usb_controlep_ctx \<times> 'f usbdev_ctx) io" where
  "ctrl_rx_error ctctx ctx buf = do {
     _ \<leftarrow> usbdev_set_ep0_stall True;
     let ctx = snd (usbdev_buf_free_byid ctx buf);
     ret (ctctx\<lparr>ctrlstate := kCtIdle\<rparr>, ctx)
   }"

definition le16 :: "u8 \<Rightarrow> u8 \<Rightarrow> u32" where
  "le16 hi lo = push_bit 8 (ucast hi) OR ucast lo"

definition ctrl_rx ::
  "u8 list \<Rightarrow> usb_controlep_ctx \<Rightarrow> 'f usbdev_ctx \<Rightarrow> usbbufid_t \<Rightarrow> nat \<Rightarrow> bool
     \<Rightarrow> (usb_controlep_ctx \<times> 'f usbdev_ctx) io" where
  "ctrl_rx beyond ctctx ctx buf sz setup =
     (let bp = usbdev_buf_idtoaddr buf;
          sz = (if sz > BUF_LENGTH then BUF_LENGTH else sz)
      in case ctrlstate ctctx of
        kCtIdle \<Rightarrow>
          if setup \<and> sz = 8 then do {
            b0 \<leftarrow> bus_read8 bp;
            b1 \<leftarrow> bus_read8 (bp + 1);
            b3 \<leftarrow> bus_read8 (bp + 3);
            b2 \<leftarrow> bus_read8 (bp + 2);
            b5 \<leftarrow> bus_read8 (bp + 5);
            b4 \<leftarrow> bus_read8 (bp + 4);
            b7 \<leftarrow> bus_read8 (bp + 7);
            b6 \<leftarrow> bus_read8 (bp + 6);
            (state, ctctx, ctx) \<leftarrow> setup_req beyond ctctx ctx buf (ucast b0) (ucast b1)
              (le16 b3 b2) (le16 b5 b4) (le16 b7 b6);
            let ctctx = ctctx\<lparr>ctrlstate := state\<rparr>;
            if ctrlstate ctctx \<noteq> kCtError then ret (ctctx, ctx)
            else ctrl_rx_error ctctx ctx buf
          } else ctrl_rx_error ctctx ctx buf
      | kCtStatOut \<Rightarrow>
          if \<not> setup \<and> sz = 0 then ret (ctctx\<lparr>ctrlstate := kCtIdle\<rparr>, ctx)
          else ctrl_rx_error ctctx ctx buf
      | _ \<Rightarrow> ctrl_rx_error ctctx ctx buf)"

definition ctrl_reset :: "usb_controlep_ctx \<Rightarrow> usb_controlep_ctx" where
  "ctrl_reset ctctx = ctctx\<lparr>ctrlstate := kCtIdle\<rparr>"

text \<open>
  The initialisation is given the callbacks as the function names \<open>tx\<close>, \<open>rx\<close>, \<open>rs\<close>, and the address \<open>self\<close>
  of the context. It does not set the endpoint field of the context.
\<close>

definition usb_controlep_init ::
  "'f \<Rightarrow> 'f \<Rightarrow> 'f \<Rightarrow> nat \<Rightarrow> usb_controlep_ctx \<Rightarrow> 'f usbdev_ctx \<Rightarrow> nat \<Rightarrow> u8 list \<Rightarrow> nat
     \<Rightarrow> (usb_controlep_ctx \<times> 'f usbdev_ctx) io" where
  "usb_controlep_init tx rx rs self ctctx ctx ep dscr dscr_len = do {
     ctx \<leftarrow> usbdev_endpoint_setup ctx ep True self (Some tx) (Some rx) NULL (Some rs);
     ret (ctctx\<lparr>ctrlstate := kCtIdle, cfg_dscr := dscr, cfg_dscr_len := dscr_len\<rparr>, ctx)
   }"

section \<open>Specification of control transfers\<close>

text \<open>
  The stages of a control transfer as the host sees them: a request is answered by a data stage, or by an empty
  status packet; the address takes effect when that status packet has been acknowledged. A request
  that is not supported, and any packet that does not belong to the stage, ends the transfer.
\<close>

datatype ctl_stage = Ready | DataIn | StatusOut | AddressIn u32 | StatusIn

record ctl =
  ct_stage :: ctl_stage
  ct_config :: u8
  ct_wake :: bool
  ct_halts :: u32

datatype ctl_event = CtlRx usbbufid_t nat bool "u8 list" u32 | CtlTxDone | CtlReset

datatype ctl_output = Assign u32 | Send "u8 list"

definition ctl_status :: "u8 list \<Rightarrow> ctl \<Rightarrow> u8" where
  "ctl_status req s =
     (if req ! 0 AND 0x1f = 0 then (if ct_wake s then 3 else 1)
      else if req ! 0 AND 0x1f = 2 then of_bool (bit (ct_halts s) (unat (le16 (req ! 5) (req ! 4)) mod 32))
      else 0)"

definition ctl_data :: "u8 list \<Rightarrow> u8 list \<Rightarrow> ctl \<Rightarrow> u8 list option" where
  "ctl_data cfg req s =
     (if req ! 1 = 6 then (if req ! 3 = 1 then Some dev_dscr else if req ! 3 = 2 then Some cfg else None)
      else if req ! 1 = 8 then Some [ct_config s]
      else if req ! 1 = 0 then Some [ctl_status req s, 0]
      else if req ! 1 = 10 then Some [0]
      else if req ! 1 = 12 then Some [0, 0]
      else None)"

definition ctl_feature :: "bool \<Rightarrow> u8 list \<Rightarrow> u32 \<Rightarrow> ctl \<Rightarrow> ctl" where
  "ctl_feature enable req stall s =
     (let epbit = push_bit (unat (le16 (req ! 5) (req ! 4)) mod 32) 1 in
      if le16 (req ! 3) (req ! 2) = 0 then s\<lparr>ct_halts := (if enable then stall OR epbit else stall AND NOT epbit)\<rparr>
      else if le16 (req ! 3) (req ! 2) = 1 then s\<lparr>ct_wake := enable\<rparr>
      else s)"

definition ctl_no_data :: "u8 list \<Rightarrow> u32 \<Rightarrow> ctl \<Rightarrow> ctl option" where
  "ctl_no_data req stall s =
     (if req ! 1 = 5 then Some (s\<lparr>ct_stage := AddressIn (ucast (req ! 2 AND 0x7f))\<rparr>)
      else if req ! 1 = 9 then Some (s\<lparr>ct_stage := StatusIn, ct_config := req ! 2\<rparr>)
      else if req ! 1 = 3 then Some (ctl_feature True req stall s\<lparr>ct_stage := StatusIn\<rparr>)
      else if req ! 1 = 1 then Some (ctl_feature False req stall s\<lparr>ct_stage := StatusIn\<rparr>)
      else if req ! 1 = 11 then Some (s\<lparr>ct_stage := StatusIn\<rparr>)
      else None)"

definition ctl_setup :: "u8 list \<Rightarrow> u8 list \<Rightarrow> u32 \<Rightarrow> ctl \<Rightarrow> ctl \<times> ctl_output list" where
  "ctl_setup cfg req stall s =
     (case ctl_data cfg req s of
        Some d \<Rightarrow> (s\<lparr>ct_stage := DataIn\<rparr>, [Send (take (min 64 (unat (le16 (req ! 7) (req ! 6)))) d)])
      | None \<Rightarrow>
          (case ctl_no_data req stall s of Some s' \<Rightarrow> (s', [Send []]) | None \<Rightarrow> (s\<lparr>ct_stage := Ready\<rparr>, [])))"

fun ctl_step :: "u8 list \<Rightarrow> ctl_event \<Rightarrow> ctl \<Rightarrow> ctl \<times> ctl_output list" where
  "ctl_step cfg CtlReset s = (s\<lparr>ct_stage := Ready\<rparr>, [])"
| "ctl_step cfg CtlTxDone s =
     (case ct_stage s of
        AddressIn a \<Rightarrow> (s\<lparr>ct_stage := Ready\<rparr>, [Assign a])
      | StatusIn \<Rightarrow> (s\<lparr>ct_stage := Ready\<rparr>, [])
      | DataIn \<Rightarrow> (s\<lparr>ct_stage := StatusOut\<rparr>, [])
      | _ \<Rightarrow> (s, []))"
| "ctl_step cfg (CtlRx buf sz setup req stall) s =
     (if ct_stage s = Ready \<and> setup \<and> sz = 8 then ctl_setup cfg req stall s
      else (s\<lparr>ct_stage := Ready\<rparr>, []))"

primrec ctl_run :: "u8 list \<Rightarrow> ctl_event list \<Rightarrow> ctl \<Rightarrow> ctl \<times> ctl_output list" where
  "ctl_run cfg [] s = (s, [])"
| "ctl_run cfg (e # es) s =
     (case ctl_step cfg e s of (s', outs) \<Rightarrow> case ctl_run cfg es s' of (s'', outs') \<Rightarrow> (s'', outs @ outs'))"

text \<open>What the outputs are on the bus: addresses assigned and packets sent.\<close>

fun assigned :: "ctl_output list \<Rightarrow> u32 list" where
  "assigned [] = []"
| "assigned (Assign a # os) = (1 OR push_bit 16 a) # assigned os"
| "assigned (Send _ # os) = assigned os"

fun packets_sent :: "ctl_output list \<Rightarrow> u8 list list" where
  "packets_sent [] = []"
| "packets_sent (Assign _ # os) = packets_sent os"
| "packets_sent (Send p # os) = p # packets_sent os"

lemma outputs_append:
  "assigned (xs @ ys) = assigned xs @ assigned ys"
  "packets_sent (xs @ ys) = packets_sent xs @ packets_sent ys"
  by (induction xs rule: assigned.induct) simp_all

section \<open>The code against the specification\<close>

definition ctl_abs :: "usb_controlep_ctx \<Rightarrow> 'f usbdev_ctx \<Rightarrow> ctl" where
  "ctl_abs c ctx = \<lparr>ct_stage = (case ctrlstate c of kCtIdle \<Rightarrow> Ready | kCtWaitIn \<Rightarrow> DataIn | kCtStatOut \<Rightarrow> StatusOut
       | kCtAddrStatIn \<Rightarrow> AddressIn (new_dev c) | kCtStatIn \<Rightarrow> StatusIn | kCtError \<Rightarrow> Ready),
     ct_config = usb_config c, ct_wake = (can_wake ctx \<noteq> 0), ct_halts = halted ctx\<rparr>"

definition ctrl_ok :: "usb_controlep_ctx \<Rightarrow> bool" where
  "ctrl_ok c \<longleftrightarrow> ep_ok (ctrl_ep c) \<and> ctrlstate c \<noteq> kCtError
     \<and> 4 * ((cfg_dscr_len c + 3) div 4) \<le> length (cfg_dscr c)"

abbreviation usbctrl_addr :: u32 where "usbctrl_addr \<equiv> 0x4011000c"
abbreviation stall_addr :: u32 where "stall_addr \<equiv> 0x40110028"

text \<open>The trace \<open>h'\<close> extends \<open>h\<close> by the given outputs of endpoint \<open>ep\<close>.\<close>

definition emits_outputs :: "int \<Rightarrow> bus_event list \<Rightarrow> ctl_output list \<Rightarrow> bus_event list \<Rightarrow> bool" where
  "emits_outputs ep h outs h' \<longleftrightarrow> usb_queued ep h' = usb_queued ep h @ packets_sent outs
     \<and> writes_to usbctrl_addr h' = writes_to usbctrl_addr h @ assigned outs"

lemma emits_outputs_refl: "emits_outputs ep h [] h"
  by (simp add: emits_outputs_def)

lemma emits_outputs_trans: "emits_outputs ep h os h' \<Longrightarrow> emits_outputs ep h' os' h'' \<Longrightarrow> emits_outputs ep h (os @ os') h''"
  by (simp add: emits_outputs_def outputs_append)

lemma configin_not_usbctrl: "ep_ok ep \<Longrightarrow> configin_addr ep \<noteq> usbctrl_addr \<and> configin_addr ep \<noteq> stall_addr"
  using configin_addr_unat [of ep] by (auto simp: ep_ok_def)

lemma run_send_empty:
  assumes "buf_ok buf" "ep_ok ep"
  shows "\<exists>w'. run_state (usbdev_sendbuf_byid buf 0 ep) w = ((), w') \<and> emits_outputs ep (trace w) [Send []] (trace w')"
  using usb_sendbuf [OF assms, of 0 w] configin_not_usbctrl [OF assms(2)]
  by (auto simp: emits_outputs_def)

lemma copyto_cap: "usbdev_buf_copyto_byid buf data len = usbdev_buf_copyto_byid buf data (min 64 len)"
  by (simp add: usbdev_buf_copyto_byid_def min_def)

lemma sendbuf_cap: "usbdev_sendbuf_byid buf len ep = usbdev_sendbuf_byid buf (min 64 len) ep"
  by (simp add: usbdev_sendbuf_byid_def min_def)

lemma run_ctrl_reply:
  assumes "buf_ok buf" "ep_ok (ctrl_ep c)" "4 * ((len + 3) div 4) \<le> length data"
  shows "\<exists>w'. run_state (ctrl_reply c buf data len wLength) w = ((), w')
    \<and> emits_outputs (ctrl_ep c) (trace w) [Send (take (min 64 (unat wLength)) (take len data))] (trace w')"
proof -
  let ?n = "min 64 (if unat wLength < len then unat wLength else len)"
  have "(?n + 3) div 4 \<le> (len + 3) div 4" by (intro div_le_mono) auto
  then have room: "4 * ((?n + 3) div 4) \<le> length data" using assms(3) by linarith
  obtain w1 where w1: "run_state (usbdev_buf_copyto_byid buf data ?n) w = ((), w1)"
    "take ?n (buffer_bytes (usb_mem (trace w1)) buf) = take ?n data"
    "usb_queued (ctrl_ep c) (trace w1) = usb_queued (ctrl_ep c) (trace w)"
    "writes_to usbctrl_addr (trace w1) = writes_to usbctrl_addr (trace w)"
    using usb_copyto [OF assms(1,2) _ room, of w] by auto
  obtain w2 where w2: "run_state (usbdev_sendbuf_byid buf ?n (ctrl_ep c)) w1 = ((), w2)"
    "usb_queued (ctrl_ep c) (trace w2) = usb_queued (ctrl_ep c) (trace w1) @ [take ?n (buffer_bytes (usb_mem (trace w1)) buf)]"
    "writes_to usbctrl_addr (trace w2) = writes_to usbctrl_addr (trace w1)"
    using usb_sendbuf [OF assms(1,2), of ?n w1] configin_not_usbctrl [OF assms(2)] by auto
  have "?n = min (min 64 (unat wLength)) len" by auto
  then have "take ?n data = take (min 64 (unat wLength)) (take len data)" by (simp only: take_take)
  moreover have "run_state (ctrl_reply c buf data len wLength) w = ((), w2)"
    unfolding ctrl_reply_def Let_def copyto_cap [of buf data "if unat wLength < len then unat wLength else len"]
      sendbuf_cap [of buf "if unat wLength < len then unat wLength else len"]
    by (simp add: w1(1) w2(1))
  ultimately show ?thesis using w1 w2 by (simp add: emits_outputs_def)
qed


text \<open>Decoding a request.\<close>

lemma ucast_byte_inject [simp]: "(ucast (a :: u8) :: u32) = ucast b \<longleftrightarrow> a = b"
  by (metis unat_ucast_widen(3) word_unat_eq_iff)

lemma ucast_byte_eq:
  "(ucast (b :: u8) :: u32) = 0 \<longleftrightarrow> b = 0" "(ucast b :: u32) = 1 \<longleftrightarrow> b = 1" "(ucast b :: u32) = 2 \<longleftrightarrow> b = 2"
  "(ucast b :: u32) = 3 \<longleftrightarrow> b = 3"
  "(ucast b :: u32) = 5 \<longleftrightarrow> b = 5" "(ucast b :: u32) = 6 \<longleftrightarrow> b = 6" "(ucast b :: u32) = 8 \<longleftrightarrow> b = 8"
  "(ucast b :: u32) = 9 \<longleftrightarrow> b = 9" "(ucast b :: u32) = 10 \<longleftrightarrow> b = 10" "(ucast b :: u32) = 11 \<longleftrightarrow> b = 11"
  "(ucast b :: u32) = 12 \<longleftrightarrow> b = 12"
  using ucast_byte_inject [of b 0] ucast_byte_inject [of b 1] ucast_byte_inject [of b 2] ucast_byte_inject [of b 3]
    ucast_byte_inject [of b 5] ucast_byte_inject [of b 6] ucast_byte_inject [of b 8] ucast_byte_inject [of b 9]
    ucast_byte_inject [of b 10] ucast_byte_inject [of b 11] ucast_byte_inject [of b 12]
  by simp_all

lemma bit_ff00: "bit (0xff00 :: u32) n \<longleftrightarrow> 8 \<le> n \<and> n < 16"
proof -
  have "(0xff00 :: u32) = push_bit 8 (mask 8)" by (simp add: mask_eq_exp_minus_1)
  then show ?thesis by (auto simp only: bit_push_bit_iff bit_mask_iff) auto
qed

lemma le16_high: "le16 hi lo AND 0xff00 = push_bit 8 (ucast hi)"
proof -
  obtain m :: u32 where m: "m = 0xff00" by blast
  have bm: "bit m n \<longleftrightarrow> 8 \<le> n \<and> n < 16" for n unfolding m by (rule bit_ff00)
  have "le16 hi lo AND m = push_bit 8 (ucast hi)"
  proof (rule bit_eqI)
    fix n
    show "bit (le16 hi lo AND m) n \<longleftrightarrow> bit (push_bit 8 (ucast hi) :: u32) n"
      using bm [of n] bit_word8_bound [of lo n] bit_word8_bound [of hi "n - 8"]
      by (simp add: le16_def bit_simps) linarith
  qed
  then show ?thesis by (simp only: m)
qed

lemma push8_inject: "push_bit 8 (ucast (a :: u8) :: u32) = push_bit 8 (ucast b) \<longleftrightarrow> a = b"
proof
  assume "push_bit 8 (ucast a :: u32) = push_bit 8 (ucast b)"
  then have "drop_bit 8 (push_bit 8 (ucast a :: u32)) = drop_bit 8 (push_bit 8 (ucast b))" by (rule arg_cong)
  moreover have "drop_bit 8 (push_bit 8 (ucast c :: u32)) = ucast (c :: u8)" for c
    by (rule bit_eqI) (auto simp: bit_simps dest: bit_word8_bound)
  ultimately show "a = b" by simp
qed simp

lemma le16_type:
  "le16 hi lo AND 0xff00 = 0x100 \<longleftrightarrow> hi = 1"
  "le16 hi lo AND 0xff00 = 0x200 \<longleftrightarrow> hi = 2"
  using push8_inject [of hi 1] push8_inject [of hi 2] by (simp_all add: le16_high)

lemma le16_low:
  "(ucast (le16 hi lo) :: u8) = lo"
  "le16 hi lo AND 0x7f = ucast (lo AND 0x7f)"
proof -
  show "(ucast (le16 hi lo) :: u8) = lo"
    by (rule bit_eqI) (auto simp: le16_def bit_simps dest: bit_word8_bound)
  have m: "(0x7f :: u32) = mask 7" "(0x7f :: u8) = mask 7" by (simp_all add: mask_eq_exp_minus_1)
  show "le16 hi lo AND 0x7f = ucast (lo AND 0x7f)"
    unfolding m by (rule bit_eqI) (auto simp: le16_def bit_simps dest: bit_word8_bound)
qed

lemma recipient: "(ucast (b :: u8) :: u32) AND 0x1f = ucast (b AND 0x1f)"
proof -
  have m: "(0x1f :: u32) = mask 5" "(0x1f :: u8) = mask 5" by (simp_all add: mask_eq_exp_minus_1)
  show ?thesis unfolding m by (rule bit_eqI) (auto simp: bit_simps dest: bit_word8_bound)
qed

lemma halted_bit: "usbdev_halted ctx (uint x) \<longleftrightarrow> bit (halted ctx) (unat x mod 32)"
proof -
  have "nat (uint x mod 32) = unat x mod 32" by (simp add: nat_mod_distrib)
  then show ?thesis by (simp add: usbdev_halted_def bit_iff_odd_drop_bit and_one_eq odd_iff_mod_2_eq_one)
qed

lemma shl1_uint: "shl1 (uint x) = push_bit (unat x mod 32) 1"
proof -
  have "nat (uint x mod 32) = unat x mod 32" by (simp add: nat_mod_distrib)
  then show ?thesis by (simp add: shl1_def)
qed

lemma word_bytes_small: "word_bytes 0 = [0, 0, 0, 0]" "word_bytes 1 = [1, 0, 0, 0]" "word_bytes 3 = [3, 0, 0, 0]"
  by (simp_all add: word_bytes_def)


lemma run_usbdev_halt:
  assumes "\<forall>h. dev32 w h stall_addr = stall"
  shows "\<exists>w'. run_state (usbdev_halt ctx (uint wIndex) enable) w
      = (ctx\<lparr>halted := (if enable then stall OR push_bit (unat wIndex mod 32) 1 else stall AND NOT (push_bit (unat wIndex mod 32) 1))\<rparr>, w')
    \<and> (ep_ok ep \<longrightarrow> emits_outputs ep (trace w) [] (trace w'))"
  using assms configin_not_usbctrl [of ep]
  by (auto simp: usbdev_halt_def REG32_read_def REG32_write_def io_simps cur32_def Let_def shl1_uint emits_outputs_def)

text \<open>A request that is carried out: one packet, and the state that the specification gives.\<close>

definition accepts_as ::
  "usb_controlep_ctx \<Rightarrow> 'f usbdev_ctx \<Rightarrow> world \<Rightarrow> (ctstate \<times> usb_controlep_ctx \<times> 'f usbdev_ctx) io
     \<Rightarrow> ctl \<Rightarrow> ctl_output list \<Rightarrow> bool" where
  "accepts_as c ctx w m s outs \<longleftrightarrow>
     (\<exists>st c' ctx' w'. run_state m w = ((st, c', ctx'), w') \<and> st \<noteq> kCtError \<and> ctl_abs (c'\<lparr>ctrlstate := st\<rparr>) ctx' = s
        \<and> ctrl_ep c' = ctrl_ep c \<and> cfg_dscr c' = cfg_dscr c \<and> cfg_dscr_len c' = cfg_dscr_len c
        \<and> emits_outputs (ctrl_ep c) (trace w) outs (trace w'))"

lemma accepts_reply:
  assumes "buf_ok buf" "ctrl_ok c" "4 * ((len + 3) div 4) \<le> length data" "take len data = d"
  shows "accepts_as c ctx w (do { _ \<leftarrow> ctrl_reply c buf data len wLength; ret (kCtWaitIn, c, ctx) })
    (ctl_abs c ctx\<lparr>ct_stage := DataIn\<rparr>) [Send (take (min 64 (unat wLength)) d)]"
  using run_ctrl_reply [OF assms(1) _ assms(3), of c wLength w] assms(2,4)
  by (auto simp: accepts_as_def ctrl_ok_def ctl_abs_def)

lemma accepts_empty:
  assumes "buf_ok buf" "ctrl_ok c" "ctrl_ep c' = ctrl_ep c" "cfg_dscr c' = cfg_dscr c" "cfg_dscr_len c' = cfg_dscr_len c"
    "st \<noteq> kCtError" "ctl_abs (c'\<lparr>ctrlstate := st\<rparr>) ctx' = s"
  shows "accepts_as c ctx w (do { _ \<leftarrow> usbdev_sendbuf_byid buf 0 (ctrl_ep c'); ret (st, c', ctx') }) s [Send []]"
  using run_send_empty [OF assms(1), of "ctrl_ep c'" w] assms(2-7)
  by (auto simp: accepts_as_def ctrl_ok_def)

lemma accepts_after:
  assumes "run_state m w = (ctx1, w1)" "emits_outputs (ctrl_ep c) (trace w) [] (trace w1)"
    and "run_state n w1 = ((), w2)" "emits_outputs (ctrl_ep c) (trace w1) [Send []] (trace w2)"
    and "st \<noteq> kCtError" "ctl_abs (c\<lparr>ctrlstate := st\<rparr>) ctx1 = s"
  shows "accepts_as c ctx w (do { ctx \<leftarrow> m; _ \<leftarrow> n; ret (st, c, ctx) }) s [Send []]"
  using assms emits_outputs_trans [OF assms(2,4)] by (simp add: accepts_as_def)

lemma accepts_feature:
  assumes "buf_ok buf" "ctrl_ok c" "\<forall>h. dev32 w h stall_addr = stall"
  shows "accepts_as c ctx w (do {
      ctx \<leftarrow> (if le16 (req ! 3) (req ! 2) = 0 then usbdev_halt ctx (uint (le16 (req ! 5) (req ! 4))) enable
             else if le16 (req ! 3) (req ! 2) = 1 then ret (usbdev_rem_wake_en ctx enable) else ret ctx);
      _ \<leftarrow> usbdev_sendbuf_byid buf 0 (ctrl_ep c);
      ret (kCtStatIn, c, ctx) }) (ctl_feature enable req stall (ctl_abs c ctx)\<lparr>ct_stage := StatusIn\<rparr>) [Send []]"
    (is "accepts_as c ctx w (do { ctx \<leftarrow> ?m; _ \<leftarrow> ?n; ?r ctx }) ?s _")
proof -
  have ep: "ep_ok (ctrl_ep c)" using assms(2) by (simp add: ctrl_ok_def)
  have "\<exists>ctx1 w1. run_state ?m w = (ctx1, w1) \<and> emits_outputs (ctrl_ep c) (trace w) [] (trace w1)
    \<and> ctl_abs (c\<lparr>ctrlstate := kCtStatIn\<rparr>) ctx1 = ?s"
  proof (cases "le16 (req ! 3) (req ! 2) = 0")
    case True
    then show ?thesis
      using run_usbdev_halt [OF assms(3), of ctx "le16 (req ! 5) (req ! 4)" enable "ctrl_ep c"] ep
      by (cases enable) (auto simp: ctl_feature_def ctl_abs_def Let_def)
  next
    case False
    then show ?thesis
      by (simp add: ctl_feature_def ctl_abs_def usbdev_rem_wake_en_def emits_outputs_refl)
  qed
  then obtain ctx1 w1 where m: "run_state ?m w = (ctx1, w1)" "emits_outputs (ctrl_ep c) (trace w) [] (trace w1)"
    "ctl_abs (c\<lparr>ctrlstate := kCtStatIn\<rparr>) ctx1 = ?s" by blast
  obtain w2 where n: "run_state ?n w1 = ((), w2)" "emits_outputs (ctrl_ep c) (trace w1) [Send []] (trace w2)"
    using run_send_empty [OF assms(1) ep, of w1] by auto
  show ?thesis by (rule accepts_after [OF m(1,2) n _ m(3)]) simp
qed

text \<open>Every request, against the specification.\<close>

definition run_setup_req ::
  "u8 list \<Rightarrow> usb_controlep_ctx \<Rightarrow> 'f usbdev_ctx \<Rightarrow> usbbufid_t \<Rightarrow> u8 list \<Rightarrow> (ctstate \<times> usb_controlep_ctx \<times> 'f usbdev_ctx) io" where
  "run_setup_req beyond c ctx buf req = setup_req beyond c ctx buf (ucast (req ! 0)) (ucast (req ! 1))
     (le16 (req ! 3) (req ! 2)) (le16 (req ! 5) (req ! 4)) (le16 (req ! 7) (req ! 6))"

lemma status_word:
  "take 2 (word_bytes (if ucast (b :: u8) AND (0x1f :: u32) = 0 then (if usbdev_can_rem_wake ctx \<noteq> 0 then 2 else 0) OR 1
      else if ucast b AND (0x1f :: u32) = 2 then (if usbdev_halted ctx (uint (le16 (req ! 5) (req ! 4))) then 1 else 0)
      else 0))
    = [if b AND 0x1f = 0 then (if can_wake ctx \<noteq> 0 then 3 else 1)
       else if b AND 0x1f = 2 then of_bool (bit (halted ctx) (unat (le16 (req ! 5) (req ! 4)) mod 32)) else 0, 0]"
  by (simp add: recipient ucast_byte_eq word_bytes_small usbdev_can_rem_wake_def halted_bit)

lemma setup_req_correct:
  assumes "buf_ok buf" "ctrl_ok c" "3 \<le> length beyond" "\<forall>h. dev32 w h stall_addr = stall"
  shows "(case ctl_setup (take (cfg_dscr_len c) (cfg_dscr c)) req stall (ctl_abs c ctx) of (s, outs) \<Rightarrow>
    if outs = [] then run_setup_req beyond c ctx buf req = ret (kCtError, c, ctx) \<and> s = ctl_abs c ctx\<lparr>ct_stage := Ready\<rparr>
    else accepts_as c ctx w (run_setup_req beyond c ctx buf req) s outs)"
proof -
  let ?cfg = "take (cfg_dscr_len c) (cfg_dscr c)" and ?s = "ctl_abs c ctx"
  have ep: "ep_ok (ctrl_ep c)" and cfg: "4 * ((cfg_dscr_len c + 3) div 4) \<le> length (cfg_dscr c)"
    using assms(2) by (simp_all add: ctrl_ok_def)
  note defs = run_setup_req_def setup_req_def ucast_byte_eq le16_type ctl_setup_def ctl_data_def ctl_no_data_def
  consider "req ! 1 = 6" | "req ! 1 = 5" | "req ! 1 = 9" | "req ! 1 = 8" | "req ! 1 = 3" | "req ! 1 = 1" | "req ! 1 = 0"
    | "req ! 1 = 11" | "req ! 1 = 10" | "req ! 1 = 12"
    | "req ! 1 \<notin> {0, 1, 3, 5, 6, 8, 9, 10, 11, 12}" by blast
  then show ?thesis
  proof cases
    case 1
    have "accepts_as c ctx w (do { _ \<leftarrow> ctrl_reply c buf (dev_dscr @ beyond) (length dev_dscr) (le16 (req ! 7) (req ! 6)); ret (kCtWaitIn, c, ctx) })
        (?s\<lparr>ct_stage := DataIn\<rparr>) [Send (take (min 64 (unat (le16 (req ! 7) (req ! 6)))) dev_dscr)]"
      using assms(3) by (intro accepts_reply assms(1,2)) (simp_all add: dev_dscr_def)
    moreover have "accepts_as c ctx w (do { _ \<leftarrow> ctrl_reply c buf (cfg_dscr c) (cfg_dscr_len c) (le16 (req ! 7) (req ! 6)); ret (kCtWaitIn, c, ctx) })
        (?s\<lparr>ct_stage := DataIn\<rparr>) [Send (take (min 64 (unat (le16 (req ! 7) (req ! 6)))) ?cfg)]"
      by (intro accepts_reply assms(1,2) cfg) simp
    ultimately show ?thesis using 1 by (simp add: defs)
  next
    case 2
    have "ctl_abs (c\<lparr>new_dev := le16 (req ! 3) (req ! 2) AND 0x7f, ctrlstate := kCtAddrStatIn\<rparr>) ctx
        = ?s\<lparr>ct_stage := AddressIn (ucast (req ! 2 AND 0x7f))\<rparr>" by (simp add: ctl_abs_def le16_low)
    then show ?thesis
      using 2 accepts_empty [OF assms(1,2), of "c\<lparr>new_dev := le16 (req ! 3) (req ! 2) AND 0x7f\<rparr>" kCtAddrStatIn ctx] by (simp add: defs)
  next
    case 3
    have "ctl_abs (c\<lparr>usb_config := ucast (le16 (req ! 3) (req ! 2)), ctrlstate := kCtStatIn\<rparr>) ctx
        = ?s\<lparr>ct_stage := StatusIn, ct_config := req ! 2\<rparr>" by (simp add: ctl_abs_def le16_low)
    then show ?thesis
      using 3 accepts_empty [OF assms(1,2), of "c\<lparr>usb_config := ucast (le16 (req ! 3) (req ! 2))\<rparr>" kCtStatIn ctx] by (simp add: defs)
  next
    case 4
    have "accepts_as c ctx w (do { _ \<leftarrow> ctrl_reply c buf (usb_config c # beyond) 1 (le16 (req ! 7) (req ! 6)); ret (kCtWaitIn, c, ctx) })
        (?s\<lparr>ct_stage := DataIn\<rparr>) [Send (take (min 64 (unat (le16 (req ! 7) (req ! 6)))) [ct_config ?s])]"
      using assms(3) by (intro accepts_reply assms(1,2)) (simp_all add: ctl_abs_def)
    then show ?thesis using 4 by (simp add: defs)
  next
    case 5
    then show ?thesis using accepts_feature [OF assms(1,2,4), of ctx req True] by (simp add: defs)
  next
    case 6
    then show ?thesis using accepts_feature [OF assms(1,2,4), of ctx req False] by (simp add: defs)
  next
    case 7
    let ?stat = "if ucast (req ! 0) AND (0x1f :: u32) = 0 then (if usbdev_can_rem_wake ctx \<noteq> 0 then 2 else 0) OR 1
      else if ucast (req ! 0) AND (0x1f :: u32) = 2 then (if usbdev_halted ctx (uint (le16 (req ! 5) (req ! 4))) then 1 else 0)
      else (0 :: u32)"
    have "accepts_as c ctx w (do { _ \<leftarrow> ctrl_reply c buf (word_bytes ?stat) 2 (le16 (req ! 7) (req ! 6)); ret (kCtWaitIn, c, ctx) })
        (?s\<lparr>ct_stage := DataIn\<rparr>) [Send (take (min 64 (unat (le16 (req ! 7) (req ! 6)))) [ctl_status req ?s, 0])]"
    proof (intro accepts_reply assms(1,2))
      show "take 2 (word_bytes ?stat) = [ctl_status req ?s, 0]"
        unfolding status_word by (simp add: ctl_status_def ctl_abs_def)
    qed simp
    then show ?thesis using 7 by (simp add: defs Let_def)
  next
    case 8
    then show ?thesis
      using accepts_empty [OF assms(1,2) refl refl refl, of kCtStatIn ctx] by (simp add: defs ctl_abs_def)
  next
    case 9
    have "accepts_as c ctx w (do { _ \<leftarrow> ctrl_reply c buf (word_bytes 0) 1 (le16 (req ! 7) (req ! 6)); ret (kCtWaitIn, c, ctx) })
        (?s\<lparr>ct_stage := DataIn\<rparr>) [Send (take (min 64 (unat (le16 (req ! 7) (req ! 6)))) [0])]"
      by (intro accepts_reply assms(1,2)) (simp_all add: word_bytes_small)
    then show ?thesis using 9 by (simp add: defs)
  next
    case 10
    have "accepts_as c ctx w (do { _ \<leftarrow> ctrl_reply c buf (word_bytes 0) 2 (le16 (req ! 7) (req ! 6)); ret (kCtWaitIn, c, ctx) })
        (?s\<lparr>ct_stage := DataIn\<rparr>) [Send (take (min 64 (unat (le16 (req ! 7) (req ! 6)))) [0, 0])]"
      by (intro accepts_reply assms(1,2)) (simp_all add: word_bytes_small)
    then show ?thesis using 10 by (simp add: defs)
  next
    case 11
    then show ?thesis by (simp add: defs)
  qed
qed


section \<open>Runs of the control endpoint\<close>

text \<open>
  Between two events the rest of the system may do anything that leaves the endpoint alone: the state of the
  driver context that the endpoint reads, the packets of the endpoint and the address register stay.
\<close>

definition others :: "int \<Rightarrow> 'f usbdev_ctx \<times> world \<Rightarrow> 'f usbdev_ctx \<times> world \<Rightarrow> bool" where
  "others ep s s' \<longleftrightarrow> can_wake (fst s') = can_wake (fst s) \<and> halted (fst s') = halted (fst s)
     \<and> emits_outputs ep (trace (snd s)) [] (trace (snd s'))"

text \<open>A packet arrives in a buffer of the device; the answer of the stall register is part of the event.\<close>

definition packet_at :: "world \<Rightarrow> usbbufid_t \<Rightarrow> u8 list \<Rightarrow> u32 \<Rightarrow> bool" where
  "packet_at w buf req stall \<longleftrightarrow> buf_ok buf
     \<and> (\<forall>h. \<forall>i < 8. dev8 w h (usbdev_buf_idtoaddr buf + of_nat i) = req ! i)
     \<and> (\<forall>h. dev32 w h stall_addr = stall)"

inductive ctrl_step ::
  "u8 list \<Rightarrow> ctl_event \<Rightarrow> usb_controlep_ctx \<times> 'f usbdev_ctx \<times> world \<Rightarrow> usb_controlep_ctx \<times> 'f usbdev_ctx \<times> world \<Rightarrow> bool"
  for beyond where
  step_rx: "\<lbrakk>others (ctrl_ep c) (ctx, w) (ctx1, w1); packet_at w1 buf req stall;
     run_state (ctrl_rx beyond c ctx1 buf sz setup) w1 = ((c', ctx'), w')\<rbrakk>
     \<Longrightarrow> ctrl_step beyond (CtlRx buf sz setup req stall) (c, ctx, w) (c', ctx', w')"
| step_tx: "\<lbrakk>others (ctrl_ep c) (ctx, w) (ctx1, w1); run_state (ctrl_tx_done c ctx1) w1 = ((c', ctx'), w')\<rbrakk>
     \<Longrightarrow> ctrl_step beyond CtlTxDone (c, ctx, w) (c', ctx', w')"
| step_reset: "\<lbrakk>others (ctrl_ep c) (ctx, w) (ctx1, w1)\<rbrakk>
     \<Longrightarrow> ctrl_step beyond CtlReset (c, ctx, w) (ctrl_reset c, ctx1, w1)"

inductive_cases ctrl_step_rxE: "ctrl_step beyond (CtlRx buf sz setup req stall) s s'"
inductive_cases ctrl_step_txE: "ctrl_step beyond CtlTxDone s s'"
inductive_cases ctrl_step_resetE: "ctrl_step beyond CtlReset s s'"

inductive ctrl_run ::
  "u8 list \<Rightarrow> ctl_event list \<Rightarrow> usb_controlep_ctx \<times> 'f usbdev_ctx \<times> world \<Rightarrow> usb_controlep_ctx \<times> 'f usbdev_ctx \<times> world \<Rightarrow> bool"
  for beyond where
  run_nil: "ctrl_run beyond [] s s"
| run_step: "ctrl_step beyond e s s1 \<Longrightarrow> ctrl_run beyond es s1 s' \<Longrightarrow> ctrl_run beyond (e # es) s s'"

text \<open>One event against the specification.\<close>

definition ctrl_simulates ::
  "usb_controlep_ctx \<Rightarrow> world \<Rightarrow> usb_controlep_ctx \<times> 'f usbdev_ctx \<times> world \<Rightarrow> ctl \<times> ctl_output list \<Rightarrow> bool" where
  "ctrl_simulates c w s' so \<longleftrightarrow> (case s' of (c', ctx', w') \<Rightarrow> ctl_abs c' ctx' = fst so \<and> ctrl_ok c'
     \<and> ctrl_ep c' = ctrl_ep c \<and> cfg_dscr c' = cfg_dscr c \<and> cfg_dscr_len c' = cfg_dscr_len c
     \<and> emits_outputs (ctrl_ep c) (trace w) (snd so) (trace w'))"

lemma ctl_abs_others: "others ep (ctx, w) (ctx1, w1) \<Longrightarrow> ctl_abs c ctx1 = ctl_abs c ctx"
  by (simp add: ctl_abs_def others_def)

lemma ctrl_rx_error_correct:
  assumes "ctrl_ep c = ctrl_ep c0" "cfg_dscr c = cfg_dscr c0" "cfg_dscr_len c = cfg_dscr_len c0"
    "usb_config c = usb_config c0" "ctrl_ok c0" "run_state (ctrl_rx_error c ctx buf) w = (r, w')"
  shows "ctrl_simulates c0 w (fst r, snd r, w') (ctl_abs c0 ctx\<lparr>ct_stage := Ready\<rparr>, [])"
proof -
  have "emits_outputs (ctrl_ep c0) (trace w) [] (trace w')"
    using assms(5,6) configin_not_usbctrl [of "ctrl_ep c0"]
    by (auto simp: ctrl_rx_error_def usbdev_set_ep0_stall_def REG32_read_def REG32_write_def io_simps emits_outputs_def ctrl_ok_def)
  moreover have "fst r = c\<lparr>ctrlstate := kCtIdle\<rparr>" "can_wake (snd r) = can_wake ctx" "halted (snd r) = halted ctx"
    using assms(6) by (auto simp: ctrl_rx_error_def usbdev_set_ep0_stall_def REG32_read_def REG32_write_def io_simps
        usbdev_buf_free_byid_def)
  ultimately show ?thesis using assms(1-5) by (simp add: ctrl_simulates_def ctl_abs_def ctrl_ok_def)
qed

lemma ctrl_rx_other:
  assumes "\<not> (ctrlstate c = kCtIdle \<and> setup \<and> sz = 8)" "\<not> (ctrlstate c = kCtStatOut \<and> \<not> setup \<and> sz = 0)"
  shows "ctrl_rx beyond c ctx buf sz setup = ctrl_rx_error c ctx buf"
  using assms by (auto simp: ctrl_rx_def Let_def split: ctstate.splits)

lemma ctrl_rx_setup:
  assumes "ctrlstate c = kCtIdle" "packet_at w buf req stall"
  shows "\<exists>w1. dev32 w1 = dev32 w \<and> usb_queued ep (trace w1) = usb_queued ep (trace w)
    \<and> writes_to a (trace w1) = writes_to a (trace w)
    \<and> run_state (ctrl_rx beyond c ctx buf 8 True) w = run_state (do {
        (st, c, ctx) \<leftarrow> run_setup_req beyond c ctx buf req;
        if st \<noteq> kCtError then ret (c\<lparr>ctrlstate := st\<rparr>, ctx) else ctrl_rx_error (c\<lparr>ctrlstate := st\<rparr>) ctx buf }) w1"
proof -
  let ?bp = "usbdev_buf_idtoaddr buf"
  have P: "dev8 w h (?bp + of_nat i) = req ! i" if "i < 8" for h i
    using assms(2) that by (simp add: packet_at_def)
  have p: "dev8 w h ?bp = req ! 0" "dev8 w h (?bp + 1) = req ! 1" "dev8 w h (?bp + 2) = req ! 2"
    "dev8 w h (?bp + 3) = req ! 3" "dev8 w h (?bp + 4) = req ! 4" "dev8 w h (?bp + 5) = req ! 5"
    "dev8 w h (?bp + 6) = req ! 6" "dev8 w h (?bp + 7) = req ! 7" for h
    using P [of 0 h] P [of 1 h] P [of 2 h] P [of 3 h] P [of 4 h] P [of 5 h] P [of 6 h] P [of 7 h] by simp_all
  let ?w1 = "w\<lparr>trace := Rd8 (?bp + 6) (req ! 6) # Rd8 (?bp + 7) (req ! 7) # Rd8 (?bp + 4) (req ! 4) # Rd8 (?bp + 5) (req ! 5)
    # Rd8 (?bp + 2) (req ! 2) # Rd8 (?bp + 3) (req ! 3) # Rd8 (?bp + 1) (req ! 1) # Rd8 ?bp (req ! 0) # trace w\<rparr>"
  have "run_state (ctrl_rx beyond c ctx buf 8 True) w = run_state (do {
        (st, c, ctx) \<leftarrow> run_setup_req beyond c ctx buf req;
        if st \<noteq> kCtError then ret (c\<lparr>ctrlstate := st\<rparr>, ctx) else ctrl_rx_error (c\<lparr>ctrlstate := st\<rparr>) ctx buf }) ?w1"
    using assms(1) by (simp add: ctrl_rx_def Let_def bus_read8_def p run_setup_req_def)
  then show ?thesis by (intro exI [of _ ?w1]) simp
qed


lemma stage_ready: "ctrlstate c \<noteq> kCtError \<Longrightarrow> ct_stage (ctl_abs c ctx) = Ready \<longleftrightarrow> ctrlstate c = kCtIdle"
  by (simp add: ctl_abs_def split: ctstate.splits)

lemma ctrl_rx_correct:
  assumes ok: "ctrl_ok c" and beyond: "3 \<le> length beyond" and pkt: "packet_at w buf req stall"
    and run: "run_state (ctrl_rx beyond c ctx buf sz setup) w = (r, w')"
  shows "ctrl_simulates c w (fst r, snd r, w')
    (ctl_step (take (cfg_dscr_len c) (cfg_dscr c)) (CtlRx buf sz setup req stall) (ctl_abs c ctx))"
proof -
  let ?cfg = "take (cfg_dscr_len c) (cfg_dscr c)" and ?s = "ctl_abs c ctx"
  have st: "ct_stage ?s = Ready \<longleftrightarrow> ctrlstate c = kCtIdle"
    using ok by (intro stage_ready) (simp add: ctrl_ok_def)
  have buf: "buf_ok buf" using pkt by (simp add: packet_at_def)
  consider (request) "ctrlstate c = kCtIdle" "setup" "sz = 8"
    | (status) "ctrlstate c = kCtStatOut" "\<not> setup" "sz = 0"
    | (other) "\<not> (ctrlstate c = kCtIdle \<and> setup \<and> sz = 8)" "\<not> (ctrlstate c = kCtStatOut \<and> \<not> setup \<and> sz = 0)"
    by blast
  then show ?thesis
  proof cases
    case status
    then have "r = (c\<lparr>ctrlstate := kCtIdle\<rparr>, ctx)" "w' = w" using run by (simp_all add: ctrl_rx_def Let_def)
    then show ?thesis
      using status ok by (simp add: ctrl_simulates_def ctrl_ok_def ctl_abs_def emits_outputs_refl)
  next
    case other
    have "ctrl_simulates c w (fst r, snd r, w') (?s\<lparr>ct_stage := Ready\<rparr>, [])"
      using run ok unfolding ctrl_rx_other [OF other] by (intro ctrl_rx_error_correct) simp_all
    then show ?thesis using other(1) st by auto
  next
    case request
    obtain w1 where w1: "dev32 w1 = dev32 w" "usb_queued (ctrl_ep c) (trace w1) = usb_queued (ctrl_ep c) (trace w)"
      "writes_to usbctrl_addr (trace w1) = writes_to usbctrl_addr (trace w)"
      and r: "(r, w') = run_state (do {
        (st, c, ctx) \<leftarrow> run_setup_req beyond c ctx buf req;
        if st \<noteq> kCtError then ret (c\<lparr>ctrlstate := st\<rparr>, ctx) else ctrl_rx_error (c\<lparr>ctrlstate := st\<rparr>) ctx buf }) w1"
      using ctrl_rx_setup [OF request(1) pkt, of "ctrl_ep c" usbctrl_addr beyond ctx] run request(2,3) by auto
    have pre: "emits_outputs (ctrl_ep c) (trace w) [] (trace w1)" using w1 by (simp add: emits_outputs_def)
    have "\<forall>h. dev32 w1 h stall_addr = stall" using pkt w1(1) by (simp add: packet_at_def)
    note S = setup_req_correct [OF buf ok beyond this, of ctx req]
    obtain s outs where so: "ctl_setup ?cfg req stall ?s = (s, outs)" by fastforce
    have goal: "ctl_step ?cfg (CtlRx buf sz setup req stall) ?s = (s, outs)" using request st so by simp
    show ?thesis
    proof (cases "outs = []")
      case True
      then have e: "run_setup_req beyond c ctx buf req = ret (kCtError, c, ctx)" "s = ?s\<lparr>ct_stage := Ready\<rparr>"
        using S so by simp_all
      then have "ctrl_simulates c w1 (fst r, snd r, w') (s, [])"
        using r ok unfolding e(2) by (intro ctrl_rx_error_correct [where c = "c\<lparr>ctrlstate := kCtError\<rparr>"]) simp_all
      then show ?thesis
        using emits_outputs_trans [OF pre] True unfolding goal by (auto simp: ctrl_simulates_def)
    next
      case False
      then have "accepts_as c ctx w1 (run_setup_req beyond c ctx buf req) s outs" using S so by simp
      then obtain st c' ctx' w2 where a: "run_state (run_setup_req beyond c ctx buf req) w1 = ((st, c', ctx'), w2)"
        "st \<noteq> kCtError" "ctl_abs (c'\<lparr>ctrlstate := st\<rparr>) ctx' = s" "ctrl_ep c' = ctrl_ep c" "cfg_dscr c' = cfg_dscr c"
        "cfg_dscr_len c' = cfg_dscr_len c" "emits_outputs (ctrl_ep c) (trace w1) outs (trace w2)"
        by (auto simp: accepts_as_def)
      then have "r = (c'\<lparr>ctrlstate := st\<rparr>, ctx')" "w' = w2" using r by simp_all
      then show ?thesis
        using a ok emits_outputs_trans [OF pre a(7)] unfolding goal by (simp add: ctrl_simulates_def ctrl_ok_def)
    qed
  qed
qed

lemma ctrl_tx_done_correct:
  assumes "ctrl_ok c" "run_state (ctrl_tx_done c ctx) w = (r, w')"
  shows "ctrl_simulates c w (fst r, snd r, w') (ctl_step cfg CtlTxDone (ctl_abs c ctx))"
  using assms configin_not_usbctrl [of "ctrl_ep c"]
  by (cases "ctrlstate c")
    (auto simp: ctrl_tx_done_def ctrl_simulates_def ctrl_ok_def ctl_abs_def usbdev_set_deviceid_def REG32_write_def io_simps
      emits_outputs_def)

lemma ctrl_simulates_others:
  assumes "others (ctrl_ep c) (ctx, w) (ctx1, w1)" "ctrl_simulates c w1 s' (ctl_step cfg e (ctl_abs c ctx1))"
  shows "ctrl_simulates c w s' (ctl_step cfg e (ctl_abs c ctx))"
  using assms emits_outputs_trans [of "ctrl_ep c" "trace w" "[]" "trace w1"]
  by (auto simp: ctrl_simulates_def others_def ctl_abs_others [OF assms(1)] split: prod.splits)

lemma ctrl_step_correct:
  assumes "ctrl_step beyond e (c, ctx, w) s'" "ctrl_ok c" "3 \<le> length beyond"
  shows "ctrl_simulates c w s' (ctl_step (take (cfg_dscr_len c) (cfg_dscr c)) e (ctl_abs c ctx))"
proof (cases e)
  case (CtlRx buf sz su req stall)
  then obtain ctx1 w1 c' ctx' w' where s: "others (ctrl_ep c) (ctx, w) (ctx1, w1)" "packet_at w1 buf req stall"
    "run_state (ctrl_rx beyond c ctx1 buf sz su) w1 = ((c', ctx'), w')" "s' = (c', ctx', w')"
    using assms(1) by (auto elim: ctrl_step_rxE)
  then show ?thesis
    using ctrl_rx_correct [OF assms(2,3) s(2,3)] unfolding CtlRx by (intro ctrl_simulates_others [OF s(1)]) simp
next
  case CtlTxDone
  then obtain ctx1 w1 c' ctx' w' where s: "others (ctrl_ep c) (ctx, w) (ctx1, w1)"
    "run_state (ctrl_tx_done c ctx1) w1 = ((c', ctx'), w')" "s' = (c', ctx', w')"
    using assms(1) by (auto elim: ctrl_step_txE)
  then show ?thesis
    using ctrl_tx_done_correct [OF assms(2) s(2)] unfolding CtlTxDone by (intro ctrl_simulates_others [OF s(1)]) simp
next
  case CtlReset
  then obtain ctx1 w1 where s: "others (ctrl_ep c) (ctx, w) (ctx1, w1)" "s' = (ctrl_reset c, ctx1, w1)"
    using assms(1) by (auto elim: ctrl_step_resetE)
  then show ?thesis
    using assms(2) unfolding CtlReset
    by (intro ctrl_simulates_others [OF s(1)])
      (simp add: ctrl_simulates_def ctrl_reset_def ctl_abs_def ctrl_ok_def emits_outputs_refl)
qed

text \<open>
  C8. For every sequence of events on the control endpoint (packets received, packets sent, bus resets), with
  any activity of the other endpoints in between, the code goes through the stages of control transfers
  that the specification prescribes, answers each request with the packet the specification gives,
  and writes a device address exactly when the status stage of the request that assigned it
  has completed.
\<close>

theorem usb_control_refines_spec:
  assumes "ctrl_run beyond es (c, ctx, w) (c', ctx', w')" "ctrl_ok c" "3 \<le> length beyond"
  shows "case ctl_run (take (cfg_dscr_len c) (cfg_dscr c)) es (ctl_abs c ctx) of (s, outs) \<Rightarrow>
    ctl_abs c' ctx' = s \<and> ctrlstate c' \<noteq> kCtError
    \<and> usb_queued (ctrl_ep c) (trace w') = usb_queued (ctrl_ep c) (trace w) @ packets_sent outs
    \<and> writes_to usbctrl_addr (trace w') = writes_to usbctrl_addr (trace w) @ assigned outs"
proof -
  have "ctrl_simulates c w s' (ctl_run (take (cfg_dscr_len c) (cfg_dscr c)) es (ctl_abs c ctx))"
    if "ctrl_run beyond es s s'" "s = (c, ctx, w)" "ctrl_ok c" for s s' es c ctx w
    using that
  proof (induction arbitrary: c ctx w rule: ctrl_run.induct)
    case (run_nil s)
    then show ?case by (simp add: ctrl_simulates_def emits_outputs_refl)
  next
    case (run_step e s s1 es s')
    obtain c1 ctx1 w1 where s1: "s1 = (c1, ctx1, w1)" by (cases s1)
    let ?cfg = "take (cfg_dscr_len c) (cfg_dscr c)"
    have A: "ctrl_simulates c w s1 (ctl_step ?cfg e (ctl_abs c ctx))"
      using ctrl_step_correct run_step.hyps(1) run_step.prems assms(3) by simp
    then have c1: "ctrl_ok c1" "cfg_dscr c1 = cfg_dscr c" "cfg_dscr_len c1 = cfg_dscr_len c" "ctrl_ep c1 = ctrl_ep c"
      by (simp_all add: ctrl_simulates_def s1)
    have "ctrl_simulates c1 w1 s' (ctl_run ?cfg es (ctl_abs c1 ctx1))"
      using run_step.IH [OF s1 c1(1)] by (simp add: c1)
    then show ?case
      using A c1 by (auto simp: ctrl_simulates_def s1 case_prod_unfold intro: emits_outputs_trans)
  qed
  from this [OF assms(1) refl assms(2)] show ?thesis
    by (auto simp: ctrl_simulates_def emits_outputs_def ctrl_ok_def)
qed


lemma others_refl: "others ep s s"
  by (simp add: others_def emits_outputs_refl)

lemma ctrl_rx_possible:
  assumes "packet_at w buf req stall"
  shows "\<exists>c' ctx' w'. ctrl_step beyond (CtlRx buf sz setup req stall) (c, ctx, w) (c', ctx', w')"
proof -
  obtain c' ctx' w' where "run_state (ctrl_rx beyond c ctx buf sz setup) w = ((c', ctx'), w')" by (metis prod.collapse)
  then show ?thesis using step_rx [OF others_refl assms] by blast
qed

lemma ctrl_tx_possible: "\<exists>c' ctx' w'. ctrl_step beyond CtlTxDone (c, ctx, w) (c', ctx', w')"
proof -
  obtain c' ctx' w' where "run_state (ctrl_tx_done c ctx) w = ((c', ctx'), w')" by (metis prod.collapse)
  then show ?thesis using step_tx [OF others_refl] by blast
qed

text \<open>The address 0x25 is assigned: the request in buffer 0, and the acknowledgement of the status packet.\<close>

definition demo_ctrl :: usb_controlep_ctx where
  "demo_ctrl = \<lparr>ctrl_ep = 0, ctrlstate = kCtIdle, new_dev = 0, usb_config = 0, cfg_dscr = [], cfg_dscr_len = 0\<rparr>"

definition demo_usbdev :: "unit usbdev_ctx" where
  "demo_usbdev = buf_init \<lparr>can_wake = 0, freebuf = [], halted = 0, nfree = 0, flushed = 0, ep_ctx = [],
     tx_done_callback = [], rx_callback = [], flush_callback = [], reset_callback = []\<rparr>"

definition demo_request :: "u8 list" where
  "demo_request = [0, 5, 0x25, 0, 0, 0, 0, 0]"

definition request_world :: "usbbufid_t \<Rightarrow> u8 list \<Rightarrow> world" where
  "request_world buf req = \<lparr>dev32 = \<lambda>_ _. 0, dev8 = \<lambda>_ a. req ! unat (a - usbdev_buf_idtoaddr buf), trace = []\<rparr>"

lemma packet_at_request_world: "buf_ok buf \<Longrightarrow> packet_at (request_world buf req) buf req 0"
  unfolding packet_at_def request_world_def by (simp add: unat_of_nat_u32)

theorem usb_control_refines_spec_witness:
  "\<exists>c' ctx' w'. ctrl_run [0, 0, 0] [CtlRx 0 8 True demo_request 0, CtlTxDone] (demo_ctrl, demo_usbdev, request_world 0 demo_request) (c', ctx', w')
    \<and> ctrlstate c' = kCtIdle \<and> writes_to usbctrl_addr (trace w') = [0x250001]"
proof -
  have "packet_at (request_world 0 demo_request) 0 demo_request 0"
    by (intro packet_at_request_world) (simp add: buf_ok_def)
  then obtain c1 ctx1 w1 where s1: "ctrl_step [0, 0, 0] (CtlRx 0 8 True demo_request 0) (demo_ctrl, demo_usbdev, request_world 0 demo_request) (c1, ctx1, w1)"
    using ctrl_rx_possible by blast
  obtain c' ctx' w' where s2: "ctrl_step [0, 0, 0] CtlTxDone (c1, ctx1, w1) (c', ctx', w')"
    using ctrl_tx_possible by blast
  have r: "ctrl_run [0, 0, 0] [CtlRx 0 8 True demo_request 0, CtlTxDone] (demo_ctrl, demo_usbdev, request_world 0 demo_request) (c', ctx', w')"
    by (intro run_step [OF s1] run_step [OF s2] run_nil)
  have "ctrl_ok demo_ctrl" by (simp add: demo_ctrl_def ctrl_ok_def ep_ok_def)
  from usb_control_refines_spec [OF r this]
  have "ctl_abs c' ctx' = (ctl_abs demo_ctrl demo_usbdev)\<lparr>ct_stage := Ready\<rparr> \<and> ctrlstate c' \<noteq> kCtError
    \<and> writes_to usbctrl_addr (trace w') = [0x250001]"
    by (simp add: ctl_abs_def demo_ctrl_def demo_request_def ctl_setup_def ctl_data_def ctl_no_data_def request_world_def)
  then have "ctrlstate c' = kCtIdle" using stage_ready [of c' ctx'] by simp
  then show ?thesis using r \<open>ctl_abs c' ctx' = _ \<and> _\<close> by blast
qed


end
