(* ===== verification/UsbSerial.thy ===== *)
theory UsbSerial
  imports UsbPackets
begin

text \<open>
  Serial data over a USB endpoint (\<open>sw/device/lib/usb_simpleserial.c\<close>): bytes to send are gathered into
  a buffer word by word, and queued when sixteen are there or at the next flush.
\<close>

section \<open>Operations\<close>

abbreviation MAX_GATHER :: int where "MAX_GATHER \<equiv> 16"

text \<open>
  The union \<open>chold\<close> is given by its four bytes. \<open>got_byte\<close> is the name of a function of the application.
\<close>

record 'g usb_ss_ctx =
  ss_ep :: int
  cur_buf :: int
  cur_cpos :: int
  chold :: "u8 list"
  got_byte :: 'g

text \<open>The application's function is called for each byte of the packet, read as the loop goes on.\<close>

primrec ss_rx_loop :: "(u8 \<Rightarrow> 's \<Rightarrow> 's io) \<Rightarrow> u32 list \<Rightarrow> 's \<Rightarrow> 's io" where
  "ss_rx_loop call [] s = ret s"
| "ss_rx_loop call (bp # bps) s = do {
     c \<leftarrow> bus_read8 bp;
     s \<leftarrow> call c s;
     ss_rx_loop call bps s
   }"

definition ss_rx :: "(u8 \<Rightarrow> 's \<Rightarrow> 's io) \<Rightarrow> usbbufid_t \<Rightarrow> nat \<Rightarrow> bool \<Rightarrow> 's \<Rightarrow> 's io" where
  "ss_rx call buf sz setup s =
     (let bp = usbdev_buf_idtoaddr buf;
          sz = (if sz > BUF_LENGTH then BUF_LENGTH else sz)
      in ss_rx_loop call (map (\<lambda>i. bp + of_nat i) [0..<sz]) s)"

definition ss_flush :: "'g usb_ss_ctx \<Rightarrow> 'g usb_ss_ctx io" where
  "ss_flush ssctx =
     (if cur_buf ssctx = -1 \<or> cur_cpos ssctx \<le> 0 then ret ssctx
      else do {
        _ \<leftarrow> do_if (cur_cpos ssctx AND 0x3 \<noteq> 0)
          (bus_write32 (usbdev_buf_idtoaddr (cur_buf ssctx) + 4 * word_of_int (cur_cpos ssctx div 4))
            (bytes_word (chold ssctx)));
        _ \<leftarrow> usbdev_sendbuf_byid (cur_buf ssctx) (nat (cur_cpos ssctx)) (ss_ep ssctx);
        ret (ssctx\<lparr>cur_buf := -1\<rparr>)
      })"

definition usb_simpleserial_send_byte ::
  "'g usb_ss_ctx \<Rightarrow> 'f usbdev_ctx \<Rightarrow> u8 \<Rightarrow> ('g usb_ss_ctx \<times> 'f usbdev_ctx) io" where
  "usb_simpleserial_send_byte ssctx ctx c =
     (case (if cur_buf ssctx = -1 then
              (case usbdev_buf_allocate_byid ctx of (buf, ctx) \<Rightarrow> (ssctx\<lparr>cur_buf := buf, cur_cpos := 0\<rparr>, ctx))
            else (ssctx, ctx)) of (ssctx, ctx) \<Rightarrow>
      if cur_buf ssctx < 0 then ret (ssctx, ctx)
      else
        (let ssctx = ssctx\<lparr>chold := (chold ssctx)[nat (cur_cpos ssctx AND 0x3) := c],
               cur_cpos := cur_cpos ssctx + 1\<rparr>
         in if cur_cpos ssctx AND 0x3 = 0 then do {
           _ \<leftarrow> bus_write32 (usbdev_buf_idtoaddr (cur_buf ssctx) + 4 * word_of_int (cur_cpos ssctx div 4 - 1))
             (bytes_word (chold ssctx));
           if cur_cpos ssctx \<ge> MAX_GATHER then do {
             _ \<leftarrow> usbdev_sendbuf_byid (cur_buf ssctx) (nat (cur_cpos ssctx)) (ss_ep ssctx);
             ret (ssctx\<lparr>cur_buf := -1\<rparr>, ctx)
           } else ret (ssctx, ctx)
         } else ret (ssctx, ctx)))"

definition usb_simpleserial_init ::
  "'f \<Rightarrow> 'f \<Rightarrow> nat \<Rightarrow> 'g usb_ss_ctx \<Rightarrow> 'f usbdev_ctx \<Rightarrow> nat \<Rightarrow> 'g
     \<Rightarrow> ('g usb_ss_ctx \<times> 'f usbdev_ctx) io" where
  "usb_simpleserial_init rx fl self ssctx ctx ep got = do {
     ctx \<leftarrow> usbdev_endpoint_setup ctx ep True self NULL (Some rx) (Some fl) NULL;
     ret (ssctx\<lparr>ss_ep := int ep, got_byte := got, cur_buf := -1\<rparr>, ctx)
   }"

section \<open>Sending\<close>

text \<open>A string of the application (\<open>usb_send_str\<close> of \<open>examples/hello_usbdev\<close>), up to its terminator.\<close>

primrec usb_send_str ::
  "u8 list \<Rightarrow> 'g usb_ss_ctx \<Rightarrow> 'f usbdev_ctx \<Rightarrow> ('g usb_ss_ctx \<times> 'f usbdev_ctx) io" where
  "usb_send_str [] ssctx ctx = ret (ssctx, ctx)"
| "usb_send_str (c # string) ssctx ctx = do {
     (ssctx, ctx) \<leftarrow> usb_simpleserial_send_byte ssctx ctx c;
     usb_send_str string ssctx ctx
   }"

text \<open>The bytes that were accepted and are not queued yet: whole words in the packet memory, the rest in \<open>chold\<close>.\<close>

definition ss_ok :: "'g usb_ss_ctx \<Rightarrow> bool" where
  "ss_ok ss \<longleftrightarrow> ep_ok (ss_ep ss) \<and> length (chold ss) = 4
     \<and> (cur_buf ss = -1 \<or> buf_ok (cur_buf ss) \<and> 0 \<le> cur_cpos ss \<and> cur_cpos ss < MAX_GATHER)"

definition ss_pending :: "(u32 \<Rightarrow> u32) \<Rightarrow> 'g usb_ss_ctx \<Rightarrow> u8 list" where
  "ss_pending m ss =
     (if cur_buf ss = -1 then []
      else take (4 * (nat (cur_cpos ss) div 4)) (buffer_bytes m (cur_buf ss)) @ take (nat (cur_cpos ss) mod 4) (chold ss))"

lemma length_ss_pending:
  "ss_ok ss \<Longrightarrow> length (ss_pending m ss) = (if cur_buf ss = -1 then 0 else nat (cur_cpos ss))"
  by (auto simp: ss_pending_def ss_ok_def min_def)

lemma ss_pending_int:
  "cur_buf ss \<noteq> -1 \<Longrightarrow> cur_cpos ss = int n
     \<Longrightarrow> ss_pending m ss = take (4 * (n div 4)) (buffer_bytes m (cur_buf ss)) @ take (n mod 4) (chold ss)"
  by (simp add: ss_pending_def)

lemma and_3_int: "int n AND 3 = int (n mod 4)"
proof -
  have "int n AND 3 = int n AND mask 2" by (simp add: mask_eq_exp_minus_1)
  also have "\<dots> = int n mod 4" by (simp add: take_bit_eq_mask [symmetric] take_bit_eq_mod)
  finally show ?thesis by (simp add: zmod_int)
qed

lemma take_Suc_update: "r < length xs \<Longrightarrow> take (Suc r) (xs[r := c]) = take r xs @ [c]"
  by (simp add: take_Suc_conv_app_nth)

text \<open>The step on a buffer that is already allocated.\<close>

definition ss_append :: "'g usb_ss_ctx \<Rightarrow> u8 \<Rightarrow> 'g usb_ss_ctx io" where
  "ss_append ss c =
     (let ss = ss\<lparr>chold := (chold ss)[nat (cur_cpos ss AND 0x3) := c], cur_cpos := cur_cpos ss + 1\<rparr>
      in if cur_cpos ss AND 0x3 = 0 then do {
        _ \<leftarrow> bus_write32 (usbdev_buf_idtoaddr (cur_buf ss) + 4 * word_of_int (cur_cpos ss div 4 - 1))
          (bytes_word (chold ss));
        if cur_cpos ss \<ge> MAX_GATHER then do {
          _ \<leftarrow> usbdev_sendbuf_byid (cur_buf ss) (nat (cur_cpos ss)) (ss_ep ss);
          ret (ss\<lparr>cur_buf := -1\<rparr>)
        } else ret ss
      } else ret ss)"

lemma ss_append_correct:
  assumes "ss_ok ss" "buf_ok (cur_buf ss)"
    and run: "run_state (ss_append ss c) w = (ss', w')"
  defines "p \<equiv> ss_pending (usb_mem (trace w)) ss @ [c]"
  shows "ss_ok ss' \<and> ss_ep ss' = ss_ep ss
    \<and> (if length p = 16 then cur_buf ss' = -1 \<and> usb_queued (ss_ep ss) (trace w') = usb_queued (ss_ep ss) (trace w) @ [p]
       else cur_buf ss' \<noteq> -1 \<and> ss_pending (usb_mem (trace w')) ss' = p
         \<and> usb_queued (ss_ep ss) (trace w') = usb_queued (ss_ep ss) (trace w))"
proof -
  obtain n where n: "cur_cpos ss = int n" "n < 16"
    using assms(1,2) by (intro that [of "nat (cur_cpos ss)"]) (auto simp: ss_ok_def buf_ok_def)
  define k r where "k = n div 4" and "r = n mod 4"
  have kr: "n = 4 * k + r" "r < 4" "k < 4" using n(2) by (auto simp: k_def r_def)
  have b: "cur_buf ss \<noteq> -1" using assms(2) by (auto simp: buf_ok_def)
  have len: "length (chold ss) = 4" and ep: "ep_ok (ss_ep ss)" using assms(1) by (simp_all add: ss_ok_def)
  let ?m = "usb_mem (trace w)" and ?ch = "(chold ss)[r := c]"
  have and3: "cur_cpos ss AND 3 = int r" "(cur_cpos ss + 1) AND 3 = int (Suc n mod 4)"
    using and_3_int [of n] and_3_int [of "Suc n"] by (simp_all add: n(1) r_def add.commute)
  have p: "p = take (4 * k) (buffer_bytes ?m (cur_buf ss)) @ take (Suc r) ?ch"
    using b n(1) kr(2) len by (simp add: p_def ss_pending_def k_def r_def take_Suc_update)
  have lp: "length p = Suc n" using length_ss_pending [OF assms(1)] b n(1) by (simp add: p_def)
  show ?thesis
  proof (cases "r = 3")
    case False
    then have r: "Suc n div 4 = k" "Suc n mod 4 = Suc r" "Suc n < 16" using kr by presburger+
    have "ss' = ss\<lparr>chold := ?ch, cur_cpos := int (Suc n)\<rparr>" "w' = w"
      using run n(1) r(2) and3 by (simp_all add: ss_append_def Let_def add.commute)
    then show ?thesis
      using assms(1,2) b r lp p ss_pending_int [of "ss\<lparr>chold := ?ch, cur_cpos := int (Suc n)\<rparr>" "Suc n" ?m]
      by (simp add: ss_ok_def)
  next
    case True
    then have r: "Suc n div 4 = Suc k" "Suc n mod 4 = 0" "Suc n = 4 * Suc k" using kr by presburger+
    have "(1 + int n) div 4 - 1 = int k" using kr(1) True by simp
    let ?a = "usbdev_buf_idtoaddr (cur_buf ss) + 4 * of_nat k"
    let ?w = "w\<lparr>trace := Wr32 ?a (bytes_word ?ch) # trace w\<rparr>"
    let ?ss = "ss\<lparr>chold := ?ch, cur_cpos := int (Suc n)\<rparr>"
    have chunk: "take (4 * Suc k) (buffer_bytes (usb_mem (trace ?w)) (cur_buf ss)) = p"
      using buffer_words_Suc [OF assms(2), of k ?m "bytes_word ?ch"] kr(3) p True len by simp
    have quiet: "usb_queued (ss_ep ss) (trace ?w) = usb_queued (ss_ep ss) (trace w)"
      using buf_addr_not_configin [OF assms(2) _ ep, of k] kr(3) by simp
    have app: "run_state (ss_append ss c) w =
      (if Suc n \<ge> 16 then (case run_state (usbdev_sendbuf_byid (cur_buf ss) (Suc n) (ss_ep ss)) ?w of
           (_, w) \<Rightarrow> (?ss\<lparr>cur_buf := -1\<rparr>, w))
       else (?ss, ?w))"
      using n(1) r(2) True and3 \<open>(1 + int n) div 4 - 1 = int k\<close>
      by (simp add: ss_append_def Let_def io_simps nat_add_distrib add.commute)
    show ?thesis
    proof (cases "Suc n = 16")
      case False
      then have "ss' = ?ss" "w' = ?w" using run app n(2) by simp_all
      then show ?thesis
        using assms(1,2) b r lp chunk quiet n(2) False ss_pending_int [of ?ss "Suc n" "usb_mem (trace ?w)"]
        by (simp add: ss_ok_def)
    next
      case True
      then obtain w2 where w2: "run_state (usbdev_sendbuf_byid (cur_buf ss) 16 (ss_ep ss)) ?w = ((), w2)"
        "usb_queued (ss_ep ss) (trace w2) = usb_queued (ss_ep ss) (trace ?w) @ [take 16 (buffer_bytes (usb_mem (trace ?w)) (cur_buf ss))]"
        using usb_sendbuf [OF assms(2) ep, of 16 ?w] by auto
      have "ss' = ?ss\<lparr>cur_buf := -1\<rparr>" "w' = w2" using run app True w2(1) by simp_all
      moreover have "take 16 (buffer_bytes (usb_mem (trace ?w)) (cur_buf ss)) = p" using chunk r(3) True by simp
      ultimately show ?thesis using w2(2) quiet lp True assms(1) by (simp add: ss_ok_def)
    qed
  qed
qed


lemma send_byte_append:
  assumes "buf_ok (cur_buf ss)"
  shows "run_state (usb_simpleserial_send_byte ss ctx c) w
    = (case run_state (ss_append ss c) w of (ss', w') \<Rightarrow> ((ss', ctx), w'))"
  using assms
  by (simp add: usb_simpleserial_send_byte_def ss_append_def buf_ok_def Let_def case_prod_unfold)

lemma send_byte_allocate:
  assumes "cur_buf ss = -1" "usbdev_buf_allocate_byid ctx = (buf, ctx')" "0 \<le> buf"
  shows "run_state (usb_simpleserial_send_byte ss ctx c) w
    = (case run_state (ss_append (ss\<lparr>cur_buf := buf, cur_cpos := 0\<rparr>) c) w of (ss', w') \<Rightarrow> ((ss', ctx'), w'))"
  using assms by (simp add: usb_simpleserial_send_byte_def ss_append_def Let_def case_prod_unfold)

text \<open>The buffers that are still needed for \<open>l\<close> more bytes are there.\<close>

definition ss_room :: "(u32 \<Rightarrow> u32) \<Rightarrow> 'g usb_ss_ctx \<Rightarrow> 'f usbdev_ctx \<Rightarrow> nat \<Rightarrow> bool" where
  "ss_room m ss ctx l \<longleftrightarrow>
     (length (ss_pending m ss) + l + 15) div 16 \<le> nat (nfree ctx) + (if cur_buf ss = -1 then 0 else 1)"

lemma send_byte_correct:
  assumes "ss_ok ss" "usb_pool_ok ctx" "ss_room (usb_mem (trace w)) ss ctx (Suc l)"
    and run: "run_state (usb_simpleserial_send_byte ss ctx c) w = ((ss', ctx'), w')"
  shows "ss_ok ss' \<and> usb_pool_ok ctx' \<and> ss_ep ss' = ss_ep ss \<and> ss_room (usb_mem (trace w')) ss' ctx' l
    \<and> (\<exists>ps. usb_queued (ss_ep ss) (trace w') = usb_queued (ss_ep ss) (trace w) @ ps
        \<and> concat ps @ ss_pending (usb_mem (trace w')) ss' = ss_pending (usb_mem (trace w)) ss @ [c]
        \<and> (\<forall>p \<in> set ps. length p = 16))"
proof (cases "cur_buf ss = -1")
  case True
  then have "nfree ctx > 0" using assms(2,3) by (auto simp: ss_room_def ss_pending_def)
  moreover obtain buf ctx1 where al: "usbdev_buf_allocate_byid ctx = (buf, ctx1)" by fastforce
  ultimately have a: "0 \<le> buf" "buf < 32" "usb_pool_ok ctx1" "nfree ctx1 = nfree ctx - 1"
    using usb_allocate_ok [OF assms(2)] by auto
  let ?ss = "ss\<lparr>cur_buf := buf, cur_cpos := 0\<rparr>"
  have ok: "ss_ok ?ss" "buf_ok (cur_buf ?ss)" using assms(1) a(1,2) by (simp_all add: ss_ok_def buf_ok_def)
  have empty: "ss_pending m ?ss = []" for m by (simp add: ss_pending_def)
  obtain r: "run_state (ss_append ?ss c) w = (ss', w')" and c: "ctx' = ctx1"
    using run send_byte_allocate [OF True al a(1), of c w] by (auto split: prod.splits)
  note A = ss_append_correct [OF ok r, unfolded empty]
  have none: "ss_pending (usb_mem (trace w)) ss = []" using True by (simp add: ss_pending_def)
  then have "ss_room (usb_mem (trace w')) ss' ctx' l"
    using assms(3) A a(4) \<open>nfree ctx > 0\<close> True by (simp add: ss_room_def c)
  then show ?thesis using A a(3) c none by simp
next
  case False
  then have b: "buf_ok (cur_buf ss)" using assms(1) by (simp add: ss_ok_def)
  obtain r: "run_state (ss_append ss c) w = (ss', w')" and c: "ctx' = ctx"
    using run send_byte_append [OF b, of ctx c w] by (auto split: prod.splits)
  note A = ss_append_correct [OF assms(1) b r]
  let ?p = "ss_pending (usb_mem (trace w)) ss @ [c]"
  show ?thesis
  proof (cases "length ?p = 16")
    case True
    then have q: "usb_queued (ss_ep ss) (trace w') = usb_queued (ss_ep ss) (trace w) @ [?p]"
      "cur_buf ss' = -1" using A by simp_all
    then have none: "ss_pending (usb_mem (trace w')) ss' = []" by (simp add: ss_pending_def)
    have "length (ss_pending (usb_mem (trace w)) ss) = 15" using True by simp
    then have "ss_room (usb_mem (trace w')) ss' ctx' l"
      using assms(3) False q(2) none by (simp add: ss_room_def c)
    moreover note q none
    ultimately show ?thesis using A assms(2) c True by (metis append.right_neutral concat.simps singletonD list.set(1,2))
  next
    case False
    then have "ss_room (usb_mem (trace w')) ss' ctx' l"
      using assms(3) A \<open>cur_buf ss \<noteq> -1\<close> by (simp add: ss_room_def c)
    then show ?thesis using A assms(2) c False by simp
  qed
qed

lemma send_str_correct:
  assumes "ss_ok ss" "usb_pool_ok ctx" "ss_room (usb_mem (trace w)) ss ctx (length bs)"
    and "run_state (usb_send_str bs ss ctx) w = ((ss', ctx'), w')"
  shows "ss_ok ss' \<and> ss_ep ss' = ss_ep ss
    \<and> (\<exists>ps. usb_queued (ss_ep ss) (trace w') = usb_queued (ss_ep ss) (trace w) @ ps
        \<and> concat ps @ ss_pending (usb_mem (trace w')) ss' = ss_pending (usb_mem (trace w)) ss @ bs
        \<and> (\<forall>p \<in> set ps. length p = 16))"
  using assms
proof (induction bs arbitrary: ss ctx w)
  case Nil
  then show ?case by simp
next
  case (Cons c bs)
  obtain ss1 ctx1 w1 where s: "run_state (usb_simpleserial_send_byte ss ctx c) w = ((ss1, ctx1), w1)"
    by (metis prod.collapse)
  note B = send_byte_correct [OF Cons.prems(1,2) Cons.prems(3) [simplified] s]
  have "run_state (usb_send_str bs ss1 ctx1) w1 = ((ss', ctx'), w')" using Cons.prems(4) s by simp
  then have C: "ss_ok ss' \<and> ss_ep ss' = ss_ep ss1
    \<and> (\<exists>ps. usb_queued (ss_ep ss1) (trace w') = usb_queued (ss_ep ss1) (trace w1) @ ps
        \<and> concat ps @ ss_pending (usb_mem (trace w')) ss' = ss_pending (usb_mem (trace w1)) ss1 @ bs
        \<and> (\<forall>p \<in> set ps. length p = 16))"
    using B by (intro Cons.IH) simp_all
  obtain p1 where p1: "usb_queued (ss_ep ss) (trace w1) = usb_queued (ss_ep ss) (trace w) @ p1"
    "concat p1 @ ss_pending (usb_mem (trace w1)) ss1 = ss_pending (usb_mem (trace w)) ss @ [c]" "\<forall>p \<in> set p1. length p = 16"
    using B by blast
  obtain p2 where p2: "usb_queued (ss_ep ss) (trace w') = usb_queued (ss_ep ss) (trace w1) @ p2"
    "concat p2 @ ss_pending (usb_mem (trace w')) ss' = ss_pending (usb_mem (trace w1)) ss1 @ bs" "\<forall>p \<in> set p2. length p = 16"
    using B C by auto
  have "concat (p1 @ p2) @ ss_pending (usb_mem (trace w')) ss' = ss_pending (usb_mem (trace w)) ss @ c # bs"
    using p1(2) p2(2) by simp
  then show ?case using B C p1 p2 by (intro conjI exI [of _ "p1 @ p2"]) auto
qed

lemma ss_flush_correct:
  assumes "ss_ok ss" "run_state (ss_flush ss) w = (ss', w')"
  shows "usb_queued (ss_ep ss) (trace w') = usb_queued (ss_ep ss) (trace w)
      @ (if ss_pending (usb_mem (trace w)) ss = [] then [] else [ss_pending (usb_mem (trace w)) ss])"
proof (cases "cur_buf ss = -1 \<or> cur_cpos ss = 0")
  case True
  then have "w' = w" "ss_pending (usb_mem (trace w)) ss = []"
    using assms(2) by (auto simp: ss_flush_def ss_pending_def)
  then show ?thesis by simp
next
  case False
  then have b: "cur_buf ss \<noteq> -1" "buf_ok (cur_buf ss)" and ep: "ep_ok (ss_ep ss)" and len: "length (chold ss) = 4"
    using assms(1) by (auto simp: ss_ok_def)
  obtain n where n: "cur_cpos ss = int n" "n < 16" "0 < n"
    using assms(1) False by (intro that [of "nat (cur_cpos ss)"]) (auto simp: ss_ok_def)
  let ?k = "n div 4" and ?m = "usb_mem (trace w)"
  let ?a = "usbdev_buf_idtoaddr (cur_buf ss) + 4 * of_nat ?k"
  define w1 where "w1 = (if n mod 4 \<noteq> 0 then w\<lparr>trace := Wr32 ?a (bytes_word (chold ss)) # trace w\<rparr> else w)"
  have k: "?k < 16" "n = 4 * ?k + n mod 4" using n(2) by simp_all
  have and3: "cur_cpos ss AND 3 = int (n mod 4)" using and_3_int [of n] n(1) by simp
  have d: "cur_cpos ss div 4 = int ?k" by (simp add: n(1) zdiv_int)
  have P: "ss_pending ?m ss = take (4 * ?k) (buffer_bytes ?m (cur_buf ss)) @ take (n mod 4) (chold ss)"
    by (rule ss_pending_int [OF b(1) n(1)])
  have bytes: "take n (buffer_bytes (usb_mem (trace w1)) (cur_buf ss)) = ss_pending ?m ss"
  proof (cases "n mod 4 = 0")
    case True
    then show ?thesis using k(2) P by (simp add: w1_def)
  next
    case False
    have "take (4 * Suc ?k) (buffer_bytes (usb_mem (trace w1)) (cur_buf ss))
        = take (4 * ?k) (buffer_bytes ?m (cur_buf ss)) @ chold ss"
      using buffer_words_Suc [OF b(2) k(1), of ?m "bytes_word (chold ss)"] False len by (simp add: w1_def)
    moreover have "length (take (4 * ?k) (buffer_bytes ?m (cur_buf ss))) = 4 * ?k" using k(1) n(2) by simp
    moreover have "take n (take (4 * ?k) (buffer_bytes ?m (cur_buf ss))) = take (4 * ?k) (buffer_bytes ?m (cur_buf ss))" by simp
    moreover have "n - 4 * ?k = n mod 4" by (rule minus_mult_div_eq_mod)
    ultimately have "take n (take (4 * Suc ?k) (buffer_bytes (usb_mem (trace w1)) (cur_buf ss)))
        = take (4 * ?k) (buffer_bytes ?m (cur_buf ss)) @ take (n mod 4) (chold ss)"
      by (simp only: take_append)
    moreover have "n \<le> 4 * Suc ?k" using k(2) by simp
    ultimately show ?thesis using P by (simp add: min_absorb1)
  qed
  have quiet: "usb_queued (ss_ep ss) (trace w1) = usb_queued (ss_ep ss) (trace w)"
    using buf_addr_not_configin [OF b(2) k(1) ep] by (simp add: w1_def)
  obtain w2 where w2: "run_state (usbdev_sendbuf_byid (cur_buf ss) n (ss_ep ss)) w1 = ((), w2)"
    "usb_queued (ss_ep ss) (trace w2) = usb_queued (ss_ep ss) (trace w1) @ [take n (buffer_bytes (usb_mem (trace w1)) (cur_buf ss))]"
    using usb_sendbuf [OF b(2) ep, of n w1] n(2) by auto
  have "w' = w2"
    using assms(2) False n w2(1) and3 d by (auto simp: ss_flush_def w1_def io_simps split: if_splits)
  moreover have "ss_pending ?m ss \<noteq> []" using length_ss_pending [OF assms(1), of ?m] b n by auto
  ultimately show ?thesis using w2(2) quiet bytes by simp
qed




end
