(* ===== verification/UsbStack.thy ===== *)
theory UsbStack
  imports UsbControlEp UsbSerial
begin

text \<open>
  The USB library put together: the polling loop of \<open>usbdev.c\<close> with the callbacks of the control endpoint and of
  serial endpoints, as \<open>examples/hello_usbdev\<close> sets it up. What a client's callbacks must keep is the
  locale \<open>usb_client\<close>; the stack is its instance.
\<close>

section \<open>The callbacks\<close>

datatype usb_function = Fn_ctrl_tx_done | Fn_ctrl_rx | Fn_ctrl_reset | Fn_ss_rx | Fn_ss_flush

text \<open>The endpoint contexts at their addresses, and the data of the application.\<close>

record ('g, 'a) usb_heap =
  controls :: "nat \<Rightarrow> usb_controlep_ctx"
  serials :: "nat \<Rightarrow> 'g usb_ss_ctx"
  app_data :: 'a

text \<open>
  Calls through the table of function pointers. \<open>app\<close> is the application's \<open>got_byte\<close>, which acts on its own
  data and the bus. The callbacks without a packet are never set to a receive function, and the receive
  callback to no other, so the last branches are not reached.
\<close>

definition usb_stack ::
  "('g \<Rightarrow> u8 \<Rightarrow> 'a \<Rightarrow> 'a io) \<Rightarrow> u8 list \<Rightarrow> (usb_function, ('g, 'a) usb_heap) usb_code" where
  "usb_stack app beyond =
     \<lparr>call_ctx = (\<lambda>f p (h, ctx).
        case f of
          Fn_ctrl_tx_done \<Rightarrow> do {
            (c, ctx) \<leftarrow> ctrl_tx_done (controls h p) ctx;
            ret (h\<lparr>controls := (controls h)(p := c)\<rparr>, ctx)
          }
        | Fn_ctrl_reset \<Rightarrow> ret (h\<lparr>controls := (controls h)(p := ctrl_reset (controls h p))\<rparr>, ctx)
        | Fn_ss_flush \<Rightarrow> do {
            ss \<leftarrow> ss_flush (serials h p);
            ret (h\<lparr>serials := (serials h)(p := ss)\<rparr>, ctx)
          }
        | _ \<Rightarrow> ret (h, ctx)),
      call_rx = (\<lambda>f p buf sz setup (h, ctx).
        case f of
          Fn_ctrl_rx \<Rightarrow> do {
            (c, ctx) \<leftarrow> ctrl_rx beyond (controls h p) ctx buf sz setup;
            ret (h\<lparr>controls := (controls h)(p := c)\<rparr>, ctx)
          }
        | Fn_ss_rx \<Rightarrow> do {
            d \<leftarrow> ss_rx (app (got_byte (serials h p))) buf sz setup (app_data h);
            ret (h\<lparr>app_data := d\<rparr>, ctx)
          }
        | _ \<Rightarrow> ret (h, ctx))\<rparr>"

section \<open>What a client must keep\<close>

definition usb_ctx_ok :: "'f usbdev_ctx \<Rightarrow> bool" where
  "usb_ctx_ok ctx \<longleftrightarrow> usb_pool_ok ctx \<and> length (ep_ctx ctx) = NUM_ENDPOINTS \<and> length (tx_done_callback ctx) = NUM_ENDPOINTS
     \<and> length (rx_callback ctx) = NUM_ENDPOINTS \<and> length (flush_callback ctx) = NUM_ENDPOINTS
     \<and> length (reset_callback ctx) = NUM_ENDPOINTS"

lemma usb_ctx_ok_simps [simp]:
  "usb_ctx_ok (ctx\<lparr>halted := v\<rparr>) = usb_ctx_ok ctx"
  "usb_ctx_ok (ctx\<lparr>can_wake := k\<rparr>) = usb_ctx_ok ctx"
  "usb_ctx_ok (ctx\<lparr>flushed := k\<rparr>) = usb_ctx_ok ctx"
  by (simp_all add: usb_ctx_ok_def usb_pool_ok_def)

lemma usb_ctx_ok_free: "usb_ctx_ok ctx \<Longrightarrow> 0 \<le> buf \<Longrightarrow> buf < 32 \<Longrightarrow> usb_ctx_ok (snd (usbdev_buf_free_byid ctx buf))"
  using usb_free_ok [of ctx buf] by (auto simp: usb_ctx_ok_def usbdev_buf_free_byid_def)

lemma usb_ctx_ok_allocate: "usb_ctx_ok ctx \<Longrightarrow> usb_ctx_ok (snd (usbdev_buf_allocate_byid ctx))"
proof (cases "nfree ctx > 0")
  case True
  assume "usb_ctx_ok ctx"
  then show ?thesis
    using usb_allocate_ok [OF _ True, of "fst (usbdev_buf_allocate_byid ctx)" "snd (usbdev_buf_allocate_byid ctx)"]
    by (auto simp: usb_ctx_ok_def)
qed (simp add: usb_allocate_empty)

lemma extract_small: "uint (usb_EXTRACT v \<lparr>field_mask = 0x1f, field_index = i\<rparr>) < 32"
proof -
  have "usb_EXTRACT v \<lparr>field_mask = 0x1f, field_index = i\<rparr> \<le> 0x1f"
    by (simp add: usb_EXTRACT_def word_and_le1)
  then have "uint (usb_EXTRACT v \<lparr>field_mask = 0x1f, field_index = i\<rparr>) \<le> uint (0x1f :: u32)"
    by (simp only: word_le_def)
  then show ?thesis by simp
qed

lemma usb_ctx_ok_free_field:
  "usb_ctx_ok ctx \<Longrightarrow> usb_ctx_ok (snd (usbdev_buf_free_byid ctx (uint (usb_EXTRACT v \<lparr>field_mask = 0x1f, field_index = i\<rparr>))))"
  using extract_small by (intro usb_ctx_ok_free) simp_all

lemma fill_av_fifo_ok:
  "usb_ctx_ok ctx \<Longrightarrow> usb_ctx_ok (fst (run_state (fill_av_fifo ctx) w))"
proof (induction ctx arbitrary: w rule: fill_av_fifo.induct)
  case (1 ctx)
  obtain buf ctx' where a: "usbdev_buf_allocate_byid ctx = (buf, ctx')" by fastforce
  have ok: "usb_ctx_ok ctx'" using usb_ctx_ok_allocate [OF "1.prems"] a by simp
  have IH: "usb_ctx_ok (fst (run_state (fill_av_fifo ctx') w'))"
    if "\<not> bit stat (unat USBDEV_USBSTAT_AV_FULL_BIT)" "\<not> buf < 0" for stat :: u32 and w'
    using "1.IH" [OF that(1) a [symmetric] that(2) ok] .
  show ?case
    using IH ok "1.prems" by (subst fill_av_fifo.simps) (simp add: a REG32_read_def REG32_write_def io_simps)
qed

locale usb_client =
  fixes code :: "('f, 'h) usb_code"
    and heap_ok :: "'h \<Rightarrow> bool"
  assumes call_ctx_ok: "heap_ok (fst s) \<Longrightarrow> usb_ctx_ok (snd s)
      \<Longrightarrow> heap_ok (fst (fst (run_state (call_ctx code f p s) w))) \<and> usb_ctx_ok (snd (fst (run_state (call_ctx code f p s) w)))"
    and call_rx_ok: "heap_ok (fst s) \<Longrightarrow> usb_ctx_ok (snd s) \<Longrightarrow> 0 \<le> buf \<Longrightarrow> buf < 32
      \<Longrightarrow> heap_ok (fst (fst (run_state (call_rx code f p buf sz setup s) w)))
        \<and> usb_ctx_ok (snd (fst (run_state (call_rx code f p buf sz setup s) w)))"
begin

definition ok :: "'h \<times> 'f usbdev_ctx \<Rightarrow> bool" where
  "ok s \<longleftrightarrow> heap_ok (fst s) \<and> usb_ctx_ok (snd s)"

lemma ok_callback: "ok s \<Longrightarrow> ok (fst (run_state (usb_callback code sel ep s) w))"
  using call_ctx_ok [of s] by (auto simp: ok_def usb_callback_def split: option.splits)

lemma ok_callbacks: "ok s \<Longrightarrow> ok (fst (run_state (usbdev_poll_callbacks code sel eps s) w))"
proof (induction eps arbitrary: s w)
  case (Cons ep eps)
  then show ?case using ok_callback by (simp add: case_prod_unfold)
qed simp

lemma ok_sent: "ok s \<Longrightarrow> ok (fst (run_state (usbdev_poll_sent code sentep eps s) w))"
proof (induction eps arbitrary: s w)
  case (Cons ep eps)
  have "ok (fst s, snd (usbdev_buf_free_byid (snd s) (uint (usb_EXTRACT v USBDEV_CONFIGIN_0_BUFFER_0_FIELD))))" for v
    using Cons.prems by (simp add: ok_def usb_ctx_ok_free_field)
  then have "ok (fst (run_state (usb_callback code tx_done_callback ep
      (fst s, snd (usbdev_buf_free_byid (snd s) (uint (usb_EXTRACT v USBDEV_CONFIGIN_0_BUFFER_0_FIELD))))) w'))" for v w'
    by (rule ok_callback)
  then show ?case using Cons by (simp add: case_prod_unfold)
qed simp

lemma ok_packet: "ok s \<Longrightarrow> ok (fst (run_state (usbdev_poll_packet code rxinfo s) w))"
proof -
  assume s: "ok s"
  let ?buf = "uint (usb_EXTRACT rxinfo USBDEV_RXFIFO_BUFFER_FIELD)"
  have free: "ok (fst t, snd (usbdev_buf_free_byid (snd t) ?buf))" if "ok t" for t
    using that by (simp add: ok_def usb_ctx_ok_free_field)
  have "ok (fst (run_state (call_rx code f p ?buf sz su s) w))" for f p sz su
    using s call_rx_ok [of s ?buf] extract_small by (simp add: ok_def)
  then show ?thesis
    using free s by (auto simp: usbdev_poll_packet_def Let_def case_prod_unfold split: option.splits)
qed

lemma ok_rx: "usbdev_poll_rx code s w = Some (s', w') \<Longrightarrow> ok s \<Longrightarrow> ok s'"
  by (drule usbdev_poll_rx_invariant [where P = ok]) (simp_all add: ok_packet)

lemma ok_poll:
  assumes "usbdev_poll code s w = Some (s', w')" "ok s"
  shows "ok s'"
proof -
  obtain istate w1 where 1: "run_state (REG32_read USBDEV_INTR_STATE_REG_OFFSET) w = (istate, w1)" by fastforce
  obtain ctx w2 where 2: "run_state (fill_av_fifo (snd s)) w1 = (ctx, w2)" by fastforce
  obtain s3 w3 where 3: "run_state (usbdev_poll_in code istate (fst s, ctx)) w2 = (s3, w3)" by fastforce
  obtain s4 w4 where 4: "usbdev_poll_out code istate s3 w3 = Some (s4, w4)"
    using assms(1) by (auto simp: usbdev_poll_def 1 2 3 split: option.splits)
  obtain s5 w5 where 5: "run_state (usbdev_poll_other code istate s4) w4 = (s5, w5)" by fastforce
  have s': "s' = fst (run_state (usbdev_poll_flush code s5) w5)"
    using assms(1) by (simp add: usbdev_poll_def 1 2 3 4 5 prod_eq_iff)
  have "ok (fst s, ctx)" using assms(2) fill_av_fifo_ok [of "snd s" w1] by (simp add: ok_def 2)
  then have "ok s3"
    using 3 by (auto simp: usbdev_poll_in_def case_prod_unfold split: if_splits intro: ok_sent)
  then have "ok s4" using 4 by (auto simp: usbdev_poll_out_def split: if_splits intro: ok_rx)
  then have "ok s5"
    using 5 by (auto simp: usbdev_poll_other_def Let_def case_prod_unfold split: if_splits intro: ok_callbacks)
  moreover have "ok (fst t, (snd t)\<lparr>flushed := k\<rparr>)" if "ok t" for t k using that by (simp add: ok_def)
  ultimately show ?thesis
    by (simp add: s' usbdev_poll_flush_def Let_def case_prod_unfold ok_callbacks)
qed

end

section \<open>The stack as a client\<close>

definition serial_ok :: "'g usb_ss_ctx \<Rightarrow> bool" where
  "serial_ok ss \<longleftrightarrow> length (chold ss) = 4
     \<and> (cur_buf ss = -1 \<or> buf_ok (cur_buf ss) \<and> 0 \<le> cur_cpos ss \<and> cur_cpos ss < MAX_GATHER)"

definition usb_heap_ok :: "('g, 'a) usb_heap \<Rightarrow> bool" where
  "usb_heap_ok h \<longleftrightarrow> (\<forall>p. ctrlstate (controls h p) \<noteq> kCtError) \<and> (\<forall>p. serial_ok (serials h p))"

lemma setup_req_ctx_ok:
  assumes "usb_ctx_ok ctx"
  shows "usb_ctx_ok (snd (snd (fst (run_state (setup_req beyond c ctx buf t r v i l) w))))"
proof -
  have halt: "usb_ctx_ok (fst (run_state (usbdev_halt ctx e b) w))" for e b w
    using assms by (simp add: usbdev_halt_def REG32_read_def REG32_write_def io_simps Let_def)
  have feature: "usb_ctx_ok (fst (run_state (if p then usbdev_halt ctx e b else if q then ret (usbdev_rem_wake_en ctx b) else ret ctx) w))"
    for p q e b w using assms halt by (simp add: usbdev_rem_wake_en_def)
  show ?thesis
    using assms by (simp add: setup_req_def Let_def case_prod_unfold feature [simplified])
qed

lemma ctrl_rx_error_ok:
  assumes "usb_ctx_ok ctx" "0 \<le> buf" "buf < 32"
  shows "ctrlstate (fst (fst (run_state (ctrl_rx_error c ctx buf) w))) \<noteq> kCtError
    \<and> usb_ctx_ok (snd (fst (run_state (ctrl_rx_error c ctx buf) w)))"
  using usb_ctx_ok_free [OF assms] by (simp add: ctrl_rx_error_def Let_def case_prod_unfold)

lemma ctrl_rx_ok:
  assumes "usb_ctx_ok ctx" "0 \<le> buf" "buf < 32"
  shows "ctrlstate (fst (fst (run_state (ctrl_rx beyond c ctx buf sz su) w))) \<noteq> kCtError
    \<and> usb_ctx_ok (snd (fst (run_state (ctrl_rx beyond c ctx buf sz su) w)))"
  using assms(1)
  by (simp add: ctrl_rx_def Let_def case_prod_unfold ctrl_rx_error_ok [OF _ assms(2,3)] setup_req_ctx_ok split: ctstate.split)

lemma ctrl_tx_done_ok:
  "ctrlstate c \<noteq> kCtError \<Longrightarrow> ctrlstate (fst (fst (run_state (ctrl_tx_done c ctx) w))) \<noteq> kCtError
    \<and> snd (fst (run_state (ctrl_tx_done c ctx) w)) = ctx"
  by (simp add: ctrl_tx_done_def case_prod_unfold split: ctstate.split)

lemma ss_flush_ok: "serial_ok ss \<Longrightarrow> serial_ok (fst (run_state (ss_flush ss) w))"
  by (simp add: ss_flush_def serial_ok_def case_prod_unfold)

lemma usb_stack_ctx_ok:
  assumes "usb_heap_ok (fst s)" "usb_ctx_ok (snd s)"
  shows "usb_heap_ok (fst (fst (run_state (call_ctx (usb_stack app beyond) f p s) w)))
    \<and> usb_ctx_ok (snd (fst (run_state (call_ctx (usb_stack app beyond) f p s) w)))"
proof -
  obtain h ctx where s: "s = (h, ctx)" by fastforce
  show ?thesis
    using assms ctrl_tx_done_ok [of "controls h p" ctx w] ss_flush_ok [of "serials h p" w]
    by (cases f) (auto simp: s usb_stack_def usb_heap_ok_def case_prod_unfold ctrl_reset_def)
qed

lemma usb_stack_rx_ok:
  assumes "usb_heap_ok (fst s)" "usb_ctx_ok (snd s)" "0 \<le> buf" "buf < 32"
  shows "usb_heap_ok (fst (fst (run_state (call_rx (usb_stack app beyond) f p buf sz su s) w)))
    \<and> usb_ctx_ok (snd (fst (run_state (call_rx (usb_stack app beyond) f p buf sz su s) w)))"
proof -
  obtain h ctx where s: "s = (h, ctx)" by fastforce
  show ?thesis
    using assms ctrl_rx_ok [OF _ assms(3,4), of ctx beyond "controls h p" sz su w]
    by (cases f) (auto simp: s usb_stack_def usb_heap_ok_def case_prod_unfold)
qed

interpretation usb_stack: usb_client "usb_stack app beyond" usb_heap_ok for app beyond
  by unfold_locales (rule usb_stack_ctx_ok usb_stack_rx_ok; assumption)+


section \<open>The application's set-up\<close>

text \<open>The descriptor macros of \<open>usb_controlep.h\<close>, as the byte lists they expand to.\<close>

definition USB_CFG_DSCR_HEAD :: "nat \<Rightarrow> u8 \<Rightarrow> u8 list" where
  "USB_CFG_DSCR_HEAD total_len nint =
     [9, 2, of_nat (total_len mod 256), of_nat (total_len div 256), nint, 1, 0, 0xC0, 50]"

definition VEND_INTERFACE_DSCR :: "u8 \<Rightarrow> u8 \<Rightarrow> u8 \<Rightarrow> u8 \<Rightarrow> u8 list" where
  "VEND_INTERFACE_DSCR inum nep subclass protocol = [9, 4, inum, 0, nep, 0xff, subclass, protocol, 0]"

definition USB_BULK_EP_DSCR :: "u8 \<Rightarrow> u8 \<Rightarrow> nat \<Rightarrow> u8 \<Rightarrow> u8 list" where
  "USB_BULK_EP_DSCR in' ep maxsize interval =
     [7, 5, ep OR (push_bit 7 in' AND 0x80), 0x02, of_nat (maxsize mod 256), of_nat (maxsize div 256), interval]"

definition config_descriptors :: "u8 list" where
  "config_descriptors =
     USB_CFG_DSCR_HEAD (9 + 2 * (9 + 2 * 7)) 2
     @ VEND_INTERFACE_DSCR 0 2 0x50 1 @ USB_BULK_EP_DSCR 0 1 32 0
     @ USB_BULK_EP_DSCR 1 1 32 4 @ VEND_INTERFACE_DSCR 1 2 0x50 1
     @ USB_BULK_EP_DSCR 0 2 32 0 @ USB_BULK_EP_DSCR 1 2 32 4"

text \<open>The total length in the header is that of the array.\<close>

lemma config_descriptors_length:
  "length config_descriptors = unat (le16 (config_descriptors ! 3) (config_descriptors ! 2))"
  by (simp add: config_descriptors_def USB_CFG_DSCR_HEAD_def VEND_INTERFACE_DSCR_def USB_BULK_EP_DSCR_def le16_def)

text \<open>The static objects are zero at the start; the contexts lie at the addresses 1, 2 and 3.\<close>

definition usb_static :: "usb_function usbdev_ctx" where
  "usb_static = \<lparr>can_wake = 0, freebuf = replicate NUM_BUFS 0, halted = 0, nfree = 0, flushed = 0,
     ep_ctx = replicate NUM_ENDPOINTS 0, tx_done_callback = replicate NUM_ENDPOINTS NULL,
     rx_callback = replicate NUM_ENDPOINTS NULL, flush_callback = replicate NUM_ENDPOINTS NULL,
     reset_callback = replicate NUM_ENDPOINTS NULL\<rparr>"

definition usb_static_heap :: "'g \<Rightarrow> 'a \<Rightarrow> ('g, 'a) usb_heap" where
  "usb_static_heap g d =
     \<lparr>controls = \<lambda>_. \<lparr>ctrl_ep = 0, ctrlstate = kCtIdle, new_dev = 0, usb_config = 0, cfg_dscr = [], cfg_dscr_len = 0\<rparr>,
      serials = \<lambda>_. \<lparr>ss_ep = 0, cur_buf = 0, cur_cpos = 0, chold = [0, 0, 0, 0], got_byte = g\<rparr>, app_data = d\<rparr>"

definition usb_main_init ::
  "'g \<Rightarrow> 'g \<Rightarrow> u8 list \<Rightarrow> bool \<Rightarrow> bool \<Rightarrow> bool \<Rightarrow> ('g, 'a) usb_heap \<times> usb_function usbdev_ctx
     \<Rightarrow> (('g, 'a) usb_heap \<times> usb_function usbdev_ctx) io" where
  "usb_main_init callback0 callback1 beyond pinflip differential uphy s = do {
     let h = fst s;
     ctx \<leftarrow> usbdev_init (snd s) pinflip differential (differential \<and> \<not> uphy);
     (c, ctx) \<leftarrow> usb_controlep_init Fn_ctrl_tx_done Fn_ctrl_rx Fn_ctrl_reset 1 (controls h 1) ctx 0
       (config_descriptors @ beyond) (length config_descriptors);
     (s0, ctx) \<leftarrow> usb_simpleserial_init Fn_ss_rx Fn_ss_flush 2 (serials h 2) ctx 1 callback0;
     (s1, ctx) \<leftarrow> usb_simpleserial_init Fn_ss_rx Fn_ss_flush 3 (serials h 3) ctx 2 callback1;
     ret (h\<lparr>controls := (controls h)(1 := c), serials := (serials h)(2 := s0, 3 := s1)\<rparr>, ctx)
   }"

section \<open>Reachable states\<close>

text \<open>Between the calls the world may be any: the hardware and the rest of the program go on.\<close>

inductive usb_reachable ::
  "('g \<Rightarrow> u8 \<Rightarrow> 'a \<Rightarrow> 'a io) \<Rightarrow> u8 list \<Rightarrow> ('g, 'a) usb_heap \<times> usb_function usbdev_ctx \<Rightarrow> bool" for app beyond where
  reach_init: "run_state (usb_main_init g0 g1 beyond pinflip differential uphy (usb_static_heap g d, usb_static)) w = (s, w')
     \<Longrightarrow> usb_reachable app beyond s"
| reach_poll: "\<lbrakk>usb_reachable app beyond s; usbdev_poll (usb_stack app beyond) s w = Some (s', w')\<rbrakk>
     \<Longrightarrow> usb_reachable app beyond s'"
| reach_send: "\<lbrakk>usb_reachable app beyond (h, ctx);
     run_state (usb_simpleserial_send_byte (serials h p) ctx c) w = ((ss, ctx'), w')\<rbrakk>
     \<Longrightarrow> usb_reachable app beyond (h\<lparr>serials := (serials h)(p := ss)\<rparr>, ctx')"

lemma endpoint_setup_ok:
  "usb_ctx_ok ctx \<Longrightarrow> usb_ctx_ok (fst (run_state (usbdev_endpoint_setup ctx ep en p t r f rs) w))"
  by (simp add: usbdev_endpoint_setup_def Let_def case_prod_unfold usb_ctx_ok_def usb_pool_ok_def)

lemma init_endpoints_ok:
  "usb_ctx_ok ctx \<Longrightarrow> usb_ctx_ok (fst (run_state (usbdev_init_endpoints eps ctx) w))"
  by (induction eps arbitrary: ctx w) (simp_all add: case_prod_unfold endpoint_setup_ok)

lemma usb_ctx_ok_buf_init: "usb_ctx_ok ctx \<Longrightarrow> usb_ctx_ok (buf_init ctx)"
  using buf_init_ok [of ctx] by (simp add: usb_ctx_ok_def) (simp add: buf_init_def)

lemma usbdev_init_ok: "usb_ctx_ok ctx \<Longrightarrow> usb_ctx_ok (fst (run_state (usbdev_init ctx a b c) w))"
  by (simp add: usbdev_init_def Let_def case_prod_unfold init_endpoints_ok usb_ctx_ok_buf_init fill_av_fifo_ok)

lemma usb_main_init_ok:
  assumes "usb_heap_ok h" "usb_ctx_ok ctx"
  shows "usb_heap_ok (fst (fst (run_state (usb_main_init g0 g1 beyond a b c (h, ctx)) w)))
    \<and> usb_ctx_ok (snd (fst (run_state (usb_main_init g0 g1 beyond a b c (h, ctx)) w)))"
  using assms
  by (simp add: usb_main_init_def Let_def case_prod_unfold usb_controlep_init_def usb_simpleserial_init_def
      usbdev_init_ok endpoint_setup_ok usb_heap_ok_def serial_ok_def)

lemma send_byte_ok:
  fixes ss :: "'g usb_ss_ctx"
  assumes "serial_ok ss" "usb_ctx_ok ctx"
  shows "serial_ok (fst (fst (run_state (usb_simpleserial_send_byte ss ctx c) w)))
    \<and> usb_ctx_ok (snd (fst (run_state (usb_simpleserial_send_byte ss ctx c) w)))"
proof -
  have step: "serial_ok (fst (run_state (ss_append t c) w))" if t: "serial_ok t" "buf_ok (cur_buf t)" for t :: "'g usb_ss_ctx" and w
  proof -
    obtain n where n: "cur_cpos t = int n" "n < 16"
      using t by (intro that [of "nat (cur_cpos t)"]) (auto simp: serial_ok_def buf_ok_def)
    have "(cur_cpos t + 1) AND 3 = int (Suc n mod 4)" using and_3_int [of "Suc n"] by (simp add: n(1) add.commute)
    moreover have "Suc n mod 4 = 0" if "\<not> Suc n < 16"
    proof -
      have "n = 15" using that n(2) by simp
      then show ?thesis by simp
    qed
    ultimately show ?thesis
      using t n by (auto simp: ss_append_def Let_def serial_ok_def case_prod_unfold)
  qed
  show ?thesis
  proof (cases "cur_buf ss = -1")
    case False
    then have "buf_ok (cur_buf ss)" using assms(1) by (simp add: serial_ok_def)
    then show ?thesis using step [OF assms(1)] assms(2) by (simp add: send_byte_append case_prod_unfold)
  next
    case True
    obtain buf ctx' where a: "usbdev_buf_allocate_byid ctx = (buf, ctx')" by fastforce
    have ok: "usb_ctx_ok ctx'" using usb_ctx_ok_allocate [OF assms(2)] a by simp
    show ?thesis
    proof (cases "nfree ctx > 0")
      case False
      then have "buf = -1" "ctx' = ctx" using a usb_allocate_empty [of ctx] by simp_all
      then show ?thesis using True a assms by (simp add: usb_simpleserial_send_byte_def serial_ok_def)
    next
      case pos: True
      then have "0 \<le> buf" "buf < 32"
        using usb_allocate_ok [OF _ pos a] assms(2) by (simp_all add: usb_ctx_ok_def)
      then have "serial_ok (fst (run_state (ss_append (ss\<lparr>cur_buf := buf, cur_cpos := 0\<rparr>) c) w))"
        using assms(1) by (intro step) (simp_all add: serial_ok_def buf_ok_def)
      then show ?thesis
        using ok by (simp add: send_byte_allocate [OF True a \<open>0 \<le> buf\<close>] case_prod_unfold)
    qed
  qed
qed

text \<open>
  C10. In every state that the USB library can reach, from the set-up of the example by any sequence of polls,
  with any behaviour of the hardware, and of bytes sent by the application, the stack of free buffers is
  within its bounds and holds valid ids only, the endpoint tables have their twelve entries, no control
  endpoint is left in the error state, and no serial endpoint is beyond the sixteen bytes it gathers.
\<close>

theorem usb_reachable_wellformed:
  assumes "usb_reachable app beyond s"
  shows "usb_heap_ok (fst s) \<and> usb_ctx_ok (snd s)"
  using assms
proof induction
  case (reach_init g0 g1 pinflip differential uphy g d w s w')
  have "usb_heap_ok (usb_static_heap g d)" by (simp add: usb_heap_ok_def usb_static_heap_def serial_ok_def buf_ok_def)
  moreover have "usb_ctx_ok usb_static" by (simp add: usb_ctx_ok_def usb_pool_ok_def usb_static_def)
  ultimately show ?case
    using usb_main_init_ok [of "usb_static_heap g d" usb_static g0 g1 beyond pinflip differential uphy w] reach_init by simp
next
  case (reach_poll s w s' w')
  then show ?case
    using usb_stack.ok_poll [of app beyond s w s' w'] by (simp add: usb_stack.ok_def)
next
  case (reach_send h ctx p c w ss ctx' w')
  then show ?case
    using send_byte_ok [of "serials h p" ctx c w] by (auto simp: usb_heap_ok_def)
qed

lemma run_init_endpoints:
  "length (rx_callback ctx) = 12 \<Longrightarrow>
    \<exists>ctx'. run_state (usbdev_init_endpoints eps ctx) w = (ctx', w) \<and> length (rx_callback ctx') = 12"
  by (induction eps arbitrary: ctx) (simp_all add: usbdev_endpoint_setup_def Let_def)

lemma fill_av_fifo_full:
  assumes "bit (cur32 w (USBDEV_BASE_ADDR + USBDEV_USBSTAT_REG_OFFSET)) 23"
  shows "run_state (fill_av_fifo ctx) w = (ctx, snd (run_state (REG32_read USBDEV_USBSTAT_REG_OFFSET) w))"
  using assms by (subst fill_av_fifo.simps) (simp add: REG32_read_def io_simps)

text \<open>The state after the set-up, on a device that reports its buffer FIFO full.\<close>

theorem usb_reachable_wellformed_witness:
  "\<exists>s. usb_reachable (\<lambda>(g :: unit) b d. ret (d :: unit)) [0, 0, 0] s \<and> usb_heap_ok (fst s) \<and> usb_ctx_ok (snd s)
     \<and> rx_callback (snd s) ! 0 = Some Fn_ctrl_rx \<and> nfree (snd s) = 32"
proof -
  let ?w = "\<lparr>dev32 = \<lambda>_ _. -1, dev8 = \<lambda>_ _. 0, trace = []\<rparr>"
  let ?r = "run_state (usb_main_init () () [0, 0, 0] False False False (usb_static_heap () (), usb_static)) ?w"
  have r: "usb_reachable (\<lambda>(g :: unit) b d. ret (d :: unit)) [0, 0, 0] (fst ?r)"
    by (rule reach_init [where w' = "snd ?r"]) (rule prod.collapse [symmetric])
  have "rx_callback (snd (fst ?r)) ! 0 = Some Fn_ctrl_rx \<and> nfree (snd (fst ?r)) = 32"
  proof -
    obtain ctx where c: "run_state (usbdev_init_endpoints [0..<12] usb_static) ?w = (ctx, ?w)" "length (rx_callback ctx) = 12"
      using run_init_endpoints [of usb_static "[0..<12]" ?w] by (auto simp: usb_static_def)
    have full: "run_state (fill_av_fifo t) (w\<lparr>dev32 := \<lambda>_ _. -1\<rparr>)
        = (t, snd (run_state (REG32_read USBDEV_USBSTAT_REG_OFFSET) (w\<lparr>dev32 := \<lambda>_ _. -1\<rparr>)))"
      for t :: "usb_function usbdev_ctx" and w
      by (rule fill_av_fifo_full) (simp add: cur32_def)
    have "run_state (usbdev_init usb_static False False False) ?w
      = (buf_init (ctx\<lparr>halted := 0, can_wake := 0\<rparr>), snd (run_state (usbdev_init usb_static False False False) ?w))"
      using full [of _ "\<lparr>dev32 = \<lambda>_ _. -1, dev8 = \<lambda>_ _. 0, trace = [Wr32 (USBDEV_BASE_ADDR + USBDEV_INTR_ENABLE_REG_OFFSET) 0]\<rparr>"]
      by (simp add: usbdev_init_def c(1) Let_def REG32_write_def io_simps case_prod_unfold)
    then obtain w1 where i: "run_state (usbdev_init usb_static False False False) ?w = (buf_init (ctx\<lparr>halted := 0, can_wake := 0\<rparr>), w1)"
      by blast
    show ?thesis
      using c(2) by (simp add: usb_main_init_def i Let_def usb_controlep_init_def usb_simpleserial_init_def
          usbdev_endpoint_setup_def case_prod_unfold buf_init_def)
  qed
  then show ?thesis using usb_reachable_wellformed [OF r] r by blast
qed


section \<open>The buffer of an answered request\<close>

text \<open>The buffers that were queued on an endpoint, in order.\<close>

fun usb_queued_bufs :: "int \<Rightarrow> bus_event list \<Rightarrow> usbbufid_t list" where
  "usb_queued_bufs ep [] = []"
| "usb_queued_bufs ep (Wr32 a v # h) = usb_queued_bufs ep h
     @ (if a = configin_addr ep \<and> bit v 31 then [uint (usb_EXTRACT v USBDEV_CONFIGIN_0_BUFFER_0_FIELD)] else [])"
| "usb_queued_bufs ep (_ # h) = usb_queued_bufs ep h"

lemma length_queued: "length (usb_queued_bufs ep h) = length (usb_queued ep h)"
  by (induction h rule: usb_queued_bufs.induct) simp_all

text \<open>Code that queues no other buffer than \<open>buf\<close>.\<close>

definition queues_only :: "int \<Rightarrow> usbbufid_t \<Rightarrow> 'a io \<Rightarrow> bool" where
  "queues_only ep buf m \<longleftrightarrow>
     (\<forall>w. \<exists>k. usb_queued_bufs ep (trace (snd (run_state m w))) = usb_queued_bufs ep (trace w) @ replicate k buf)"

named_theorems queues_intros "code that queues no other buffer"

lemma queues_ret [queues_intros]: "queues_only ep buf (ret x)"
  unfolding queues_only_def by (intro allI exI [of _ 0]) simp

lemma queues_bind [queues_intros]:
  "queues_only ep buf m \<Longrightarrow> (\<And>x. queues_only ep buf (f x)) \<Longrightarrow> queues_only ep buf (State_Monad.bind m f)"
  unfolding queues_only_def
proof (intro allI)
  fix w
  assume m: "\<forall>w. \<exists>k. usb_queued_bufs ep (trace (snd (run_state m w))) = usb_queued_bufs ep (trace w) @ replicate k buf"
    and f: "\<And>x. \<forall>w. \<exists>k. usb_queued_bufs ep (trace (snd (run_state (f x) w))) = usb_queued_bufs ep (trace w) @ replicate k buf"
  let ?r = "run_state m w"
  obtain j k where "usb_queued_bufs ep (trace (snd ?r)) = usb_queued_bufs ep (trace w) @ replicate j buf"
    "usb_queued_bufs ep (trace (snd (run_state (f (fst ?r)) (snd ?r)))) = usb_queued_bufs ep (trace (snd ?r)) @ replicate k buf"
    using m f by blast
  then show "\<exists>k. usb_queued_bufs ep (trace (snd (run_state (State_Monad.bind m f) w))) = usb_queued_bufs ep (trace w) @ replicate k buf"
    by (intro exI [of _ "j + k"]) (simp add: case_prod_unfold replicate_add)
qed

lemma queues_if [queues_intros]:
  "queues_only ep buf m \<Longrightarrow> queues_only ep buf n \<Longrightarrow> queues_only ep buf (if b then m else n)"
  by simp

lemma queues_bus:
  "queues_only ep buf (bus_read32 a)" "queues_only ep buf (bus_read8 a)"
  "a \<noteq> configin_addr ep \<Longrightarrow> queues_only ep buf (bus_write32 a v)"
  unfolding queues_only_def by (simp_all add: io_simps bus_read8_def Let_def)

lemma queues_for_each [queues_intros]: "(\<And>i. i \<in> set is \<Longrightarrow> queues_only ep buf (f i)) \<Longrightarrow> queues_only ep buf (for_each is f)"
  by (induction "is") (simp_all add: queues_ret queues_bind)

lemma queues_copyto: "buf_ok b \<Longrightarrow> ep_ok ep \<Longrightarrow> queues_only ep buf (usbdev_buf_copyto_byid b data len)"
  unfolding usbdev_buf_copyto_byid_def Let_def
proof (intro queues_for_each queues_bus buf_addr_not_configin)
  fix i
  assume "i \<in> set [0..<((if len > BUF_LENGTH then BUF_LENGTH else len) + 4 - 1) div 4]"
  moreover have "((if len > BUF_LENGTH then BUF_LENGTH else len) + 4 - 1) div 4 \<le> 67 div 4" by (intro div_le_mono) simp
  ultimately show "i < 16" by simp
qed

lemma queues_sendbuf: "buf_ok buf \<Longrightarrow> queues_only ep buf (usbdev_sendbuf_byid buf sz ep)"
  unfolding queues_only_def
proof (intro allI)
  fix w
  assume buf: "buf_ok buf"
  obtain n where n: "n = min 64 sz" "n \<le> 64" by simp
  show "\<exists>k. usb_queued_bufs ep (trace (snd (run_state (usbdev_sendbuf_byid buf sz ep) w))) = usb_queued_bufs ep (trace w) @ replicate k buf"
  proof (cases "ep \<ge> int NUM_ENDPOINTS")
    case True
    then show ?thesis by (intro exI [of _ 0]) (simp add: usbdev_sendbuf_byid_def)
  next
    case False
    then have "\<not> (ep \<ge> int NUM_ENDPOINTS \<or> buf \<ge> int NUM_BUFS)" using buf by (simp add: buf_ok_def)
    then show ?thesis
      using n(2) configin_fields [OF buf n(2)] unfolding sendbuf_cap [of buf sz] n(1) [symmetric]
      by (intro exI [of _ 1]) (simp add: usbdev_sendbuf_byid_def Let_def REG32_write_def io_simps configin_addr_def)
  qed
qed

lemma queues_halt: "ep_ok ep \<Longrightarrow> queues_only ep buf (usbdev_halt ctx e b)"
  unfolding usbdev_halt_def REG32_read_def REG32_write_def Let_def
  using configin_not_usbctrl [of ep] by (intro queues_intros queues_bus) auto

lemma queues_setup_req:
  assumes "buf_ok buf" "ep_ok (ctrl_ep c)"
  shows "queues_only (ctrl_ep c) buf (setup_req beyond c ctx buf t r v i l)"
proof -
  have reply: "queues_only (ctrl_ep c) buf (ctrl_reply c buf data len wLength)" for data len wLength
    unfolding ctrl_reply_def Let_def by (intro queues_intros queues_copyto queues_sendbuf assms)
  have send: "queues_only (ctrl_ep c) buf (usbdev_sendbuf_byid buf 0 (ctrl_ep c'))" if "ctrl_ep c' = ctrl_ep c" for c'
    unfolding that by (rule queues_sendbuf [OF assms(1)])
  show ?thesis
    unfolding setup_req_def Let_def
    by (intro queues_intros reply send queues_halt assms(2)) simp_all
qed

lemma setup_req_pool:
  "nfree (snd (snd (fst (run_state (setup_req beyond c ctx buf t r v i l) w)))) = nfree ctx
   \<and> freebuf (snd (snd (fst (run_state (setup_req beyond c ctx buf t r v i l) w)))) = freebuf ctx"
  by (simp add: setup_req_def Let_def case_prod_unfold usbdev_halt_def usbdev_rem_wake_en_def REG32_read_def REG32_write_def io_simps)

lemma queues_ctrl_rx:
  assumes "buf_ok buf" "ep_ok (ctrl_ep c)"
  shows "queues_only (ctrl_ep c) buf (ctrl_rx beyond c ctx buf sz su)"
proof -
  have stall: "queues_only (ctrl_ep c) buf (usbdev_set_ep0_stall b)" for b
    unfolding usbdev_set_ep0_stall_def REG32_read_def REG32_write_def
    using configin_not_usbctrl [OF assms(2)] by (intro queues_intros queues_bus) auto
  have err: "queues_only (ctrl_ep c) buf (ctrl_rx_error c' ctx' buf)" for c' ctx'
    unfolding ctrl_rx_error_def Let_def by (intro queues_intros stall)
  show ?thesis
    unfolding ctrl_rx_def Let_def
    by (cases "ctrlstate c"; simp only: ctstate.case)
      (intro queues_intros queues_bus err queues_setup_req assms | simp only: split_beta)+
qed

text \<open>
  C12. The buffer of every request that the control endpoint answers is queued for transmission and, in the same
  iteration of the polling loop, given back to the free buffers: the next allocation hands it out
  while the hardware still has to send it.
\<close>

theorem usb_control_buffer_freed_while_queued:
  assumes "rx_callback ctx ! 0 = Some Fn_ctrl_rx" "c = controls h (ep_ctx ctx ! 0)"
    and "ctrl_ok c" "ctrl_ep c = 0" "ctrlstate c = kCtIdle"
    and "usb_pool_ok ctx" "nfree ctx < 32" "3 \<le> length beyond" "packet_at w buf req stall"
    and "rx_endpoint rxinfo = 0" "uint (usb_EXTRACT rxinfo USBDEV_RXFIFO_BUFFER_FIELD) = buf"
    and "unat (usb_EXTRACT rxinfo USBDEV_RXFIFO_SIZE_FIELD) = 8" "bit rxinfo 19"
    and "ctl_setup (take (cfg_dscr_len c) (cfg_dscr c)) req stall (ctl_abs c ctx) = (s, [Send pkt])"
  shows "case run_state (usbdev_poll_packet (usb_stack app beyond) rxinfo (h, ctx)) w of ((h', ctx'), w') \<Rightarrow>
    usb_queued 0 (trace w') = usb_queued 0 (trace w) @ [pkt]
    \<and> usb_queued_bufs 0 (trace w') = usb_queued_bufs 0 (trace w) @ [buf]
    \<and> fst (usbdev_buf_allocate_byid ctx') = buf"
proof -
  have buf: "buf_ok buf" using assms(9) by (simp add: packet_at_def)
  obtain w1 where w1: "dev32 w1 = dev32 w" "usb_queued 0 (trace w1) = usb_queued 0 (trace w)"
    and rx: "run_state (ctrl_rx beyond c ctx buf 8 True) w = run_state (do {
      (st, c, ctx) \<leftarrow> run_setup_req beyond c ctx buf req;
      if st \<noteq> kCtError then ret (c\<lparr>ctrlstate := st\<rparr>, ctx) else ctrl_rx_error (c\<lparr>ctrlstate := st\<rparr>) ctx buf }) w1"
    using ctrl_rx_setup [OF assms(5,9), of 0 usbctrl_addr beyond ctx] by auto
  have "\<forall>h. dev32 w1 h stall_addr = stall" using assms(9) w1(1) by (simp add: packet_at_def)
  from setup_req_correct [OF buf assms(3,8) this, of ctx req]
  have "accepts_as c ctx w1 (run_setup_req beyond c ctx buf req) s [Send pkt]" by (simp add: assms(14))
  then obtain st c' ctx1 w2 where a: "run_state (run_setup_req beyond c ctx buf req) w1 = ((st, c', ctx1), w2)" "st \<noteq> kCtError"
    "usb_queued 0 (trace w2) = usb_queued 0 (trace w) @ [pkt]"
    using assms(4) w1(2) by (auto simp: accepts_as_def emits_outputs_def)
  have run: "run_state (ctrl_rx beyond c ctx buf 8 True) w = ((c'\<lparr>ctrlstate := st\<rparr>, ctx1), w2)"
    using a(1,2) by (simp add: rx)
  have "queues_only 0 buf (ctrl_rx beyond c ctx buf 8 True)"
    using queues_ctrl_rx [OF buf, of c] assms(4) by (simp add: ep_ok_def)
  then obtain k where k: "usb_queued_bufs 0 (trace w2) = usb_queued_bufs 0 (trace w) @ replicate k buf"
    using run by (auto simp: queues_only_def dest!: spec [of _ w])
  have "k = 1" using length_queued [of 0 "trace w2"] length_queued [of 0 "trace w"] k a(3) by simp
  have "nfree ctx1 = nfree ctx \<and> freebuf ctx1 = freebuf ctx"
    using setup_req_pool [of beyond c ctx buf "ucast (req ! 0)" "ucast (req ! 1)" "le16 (req ! 3) (req ! 2)"
        "le16 (req ! 5) (req ! 4)" "le16 (req ! 7) (req ! 6)" w1] a(1) by (simp add: run_setup_req_def)
  then have pool: "usb_pool_ok ctx1" "length (usb_free_ids ctx1) < card {0..<32 :: int}"
    using assms(6,7) by (auto simp: usb_pool_ok_def usb_free_ids_def)
  have "fst (usbdev_buf_allocate_byid (snd (usbdev_buf_free_byid ctx1 buf))) = buf"
    using usb_buf_stack.add_rem [OF pool(1) _ pool(2), of buf] buf by (simp add: buf_ok_def)
  moreover have "run_state (usbdev_poll_packet (usb_stack app beyond) rxinfo (h, ctx)) w
    = ((h\<lparr>controls := (controls h)(ep_ctx ctx ! 0 := c'\<lparr>ctrlstate := st\<rparr>)\<rparr>, snd (usbdev_buf_free_byid ctx1 buf)), w2)"
    using run assms(1,2,10-13) by (simp add: usbdev_poll_packet_def Let_def usb_stack_def)
  ultimately show ?thesis using a(3) k \<open>k = 1\<close> by simp
qed


text \<open>The host asks for the device descriptor; the request is in buffer 31, the last one that was free.\<close>

definition stack_ctx :: "usb_function usbdev_ctx" where
  "stack_ctx = (buf_init usb_static)\<lparr>nfree := 31, rx_callback := (replicate NUM_ENDPOINTS NULL)[0 := Some Fn_ctrl_rx]\<rparr>"

definition get_descriptor :: "u8 list" where
  "get_descriptor = [0x80, 6, 0, 1, 0, 0, 18, 0]"

lemma stack_ctx_ok: "usb_pool_ok stack_ctx"
  using buf_init_ok [of usb_static] by (simp add: stack_ctx_def usb_pool_ok_def)

lemma get_descriptor_rxinfo:
  "rx_endpoint 0x8081f = 0" "uint (usb_EXTRACT 0x8081f USBDEV_RXFIFO_BUFFER_FIELD) = 31"
  "unat (usb_EXTRACT 0x8081f USBDEV_RXFIFO_SIZE_FIELD) = 8" "bit (0x8081f :: u32) 19"
  by (simp_all add: rx_endpoint_def usb_EXTRACT_def bit_iff_odd_drop_bit)

theorem usb_control_buffer_freed_while_queued_witness:
  "case run_state (usbdev_poll_packet (usb_stack (\<lambda>(g :: unit) b d. ret (d :: unit)) [0, 0, 0]) 0x8081f
      (usb_static_heap () (), stack_ctx)) (request_world 31 get_descriptor) of ((h', ctx'), w') \<Rightarrow>
    usb_queued 0 (trace w') = [dev_dscr] \<and> usb_queued_bufs 0 (trace w') = [31]
    \<and> fst (usbdev_buf_allocate_byid ctx') = 31"
proof -
  let ?c = "controls (usb_static_heap () ()) (ep_ctx stack_ctx ! 0)"
  have s: "ctl_setup (take (cfg_dscr_len ?c) (cfg_dscr ?c)) get_descriptor 0 (ctl_abs ?c stack_ctx)
      = (ctl_abs ?c stack_ctx\<lparr>ct_stage := DataIn\<rparr>, [Send dev_dscr])"
    by (simp add: ctl_setup_def ctl_data_def get_descriptor_def dev_dscr_def le16_def)
  have "packet_at (request_world 31 get_descriptor) 31 get_descriptor 0"
    by (intro packet_at_request_world) (simp add: buf_ok_def)
  from usb_control_buffer_freed_while_queued [OF _ refl _ _ _ stack_ctx_ok _ _ this get_descriptor_rxinfo s]
  show ?thesis
    by (simp add: stack_ctx_def usb_static_def usb_static_heap_def ctrl_ok_def ep_ok_def request_world_def)
qed


end
