(* ===== verification/UsbMonitor.thy ===== *)
theory UsbMonitor
  imports UsbCrc
begin

text \<open>
  \<open>hw/dv/dpi/usbdpi/monitor_usb.c\<close>, the bus monitor of the USB simulation: from the levels of the two lines,
  one sample per bit time, it recovers the packets (NRZI decoding, removal of stuffed bits, bytes) and
  reports them. The log file is the list of its entries, whose text formatting is left out; the
  counters that only grow are unbounded integers, shift registers are words.
\<close>

unbundle bit_operations_syntax

section \<open>Constants of usbdpi.h\<close>

definition D2P_DP :: u32 where "D2P_DP = 1024"
definition D2P_DP_EN :: u32 where "D2P_DP_EN = 512"
definition D2P_DN :: u32 where "D2P_DN = 256"
definition D2P_DN_EN :: u32 where "D2P_DN_EN = 128"
definition D2P_D :: u32 where "D2P_D = 64"
definition D2P_D_EN :: u32 where "D2P_D_EN = 32"
definition D2P_SE0 :: u32 where "D2P_SE0 = 16"
definition D2P_DPPU :: u32 where "D2P_DPPU = 4"
definition D2P_DNPU :: u32 where "D2P_DNPU = 2"
definition D2P_TXMODE_SE :: u32 where "D2P_TXMODE_SE = 1"
definition D2P_PU :: u32 where "D2P_PU = D2P_DPPU OR D2P_DNPU"

definition P2D_SENSE :: u32 where "P2D_SENSE = 1"
definition P2D_DN :: u32 where "P2D_DN = 2"
definition P2D_DP :: u32 where "P2D_DP = 4"
definition P2D_D :: u32 where "P2D_D = 8"

definition USB_PID_OUT :: u32 where "USB_PID_OUT = 0xE1"
definition USB_PID_IN :: u32 where "USB_PID_IN = 0x69"
definition USB_PID_SOF :: u32 where "USB_PID_SOF = 0xA5"
definition USB_PID_SETUP :: u32 where "USB_PID_SETUP = 0x2D"
definition USB_PID_DATA0 :: u32 where "USB_PID_DATA0 = 0xC3"
definition USB_PID_DATA1 :: u32 where "USB_PID_DATA1 = 0x4B"
definition USB_PID_ACK :: u32 where "USB_PID_ACK = 0xD2"
definition USB_PID_NAK :: u32 where "USB_PID_NAK = 0x5A"

lemmas usb_pid_defs = USB_PID_OUT_def USB_PID_IN_def USB_PID_SOF_def USB_PID_SETUP_def
  USB_PID_DATA0_def USB_PID_DATA1_def USB_PID_ACK_def USB_PID_NAK_def

text \<open>\<open>flags & MASK\<close> as a condition.\<close>

definition has :: "u32 \<Rightarrow> u32 \<Rightarrow> bool" where
  "has flags m \<longleftrightarrow> flags AND m \<noteq> 0"

section \<open>State of the monitor\<close>

definition decode_pid :: "string list" where
  "decode_pid = [''Rsvd'', ''OUT'', ''ACK'', ''DATA0'', ''PING'', ''SOF'', ''NYET'', ''DATA2'',
    ''SPLIT'', ''IN'', ''NAK'', ''DATA1'', ''PRE/ERR'', ''SETUP'', ''STALL'', ''MDATA'']"

definition pid_name :: "u32 \<Rightarrow> string" where
  "pid_name pid = decode_pid ! unat (pid AND 0xf)"

datatype mon_state = MS_IDLE | MS_GET_PID | MS_GET_BYTES
datatype mon_driver = M_NONE | M_HOST | M_DEVICE

definition line_SE0 :: u32 where "line_SE0 = 0"
definition line_DK :: u32 where "line_DK = 1"
definition line_DJ :: u32 where "line_DJ = 2"

definition MON_BYTES_SIZE :: nat where "MON_BYTES_SIZE = 1024"

text \<open>What \<open>pid_2data\<close> says of a packet of two bytes after its PID.\<close>

datatype pid_text =
    TokenText string u32 u32 u32 bool
  | SofText u32 u32 bool
  | DataText string u8 u8 bool
  | OtherText string u8 u8 bool

text \<open>The entries of the log, with the time in ticks and who drove the bus; a range is that of a packet.\<close>

datatype mon_entry =
    BusClash int
  | IdleResistor int u32
  | IdleSe0 int
  | SopSeen int mon_driver
  | PidSeen int mon_driver string u32
  | BadPid int mon_driver u32
  | StuffError int mon_driver u32
  | EopSeen int mon_driver
  | PacketTwo int int mon_driver pid_text
  | PacketOne int int mon_driver string u8
  | PacketPid int int mon_driver string
  | PacketData mon_driver "u8 list" u32 u32 bool
  | PacketText "u8 list"

record mon_ctx =
  m_state :: mon_state
  m_driver :: mon_driver
  m_pu :: u32
  m_line :: u32
  m_rawbits :: u32
  m_bits :: u32
  m_needbits :: int
  m_byte :: nat
  m_sopAt :: int
  m_lastpid :: u32
  m_bytes :: "u8 list"
  m_log :: "mon_entry list"

definition monitor_usb_init :: mon_ctx where
  "monitor_usb_init = \<lparr>m_state = MS_IDLE, m_driver = M_NONE, m_pu = 0, m_line = 0, m_rawbits = 0, m_bits = 0,
    m_needbits = 0, m_byte = 0, m_sopAt = 0, m_lastpid = 0, m_bytes = replicate (MON_BYTES_SIZE + 2) 0, m_log = []\<rparr>"

definition pid_2data :: "u32 \<Rightarrow> u8 \<Rightarrow> u8 \<Rightarrow> pid_text" where
  "pid_2data pid b0 b1 =
    (let d0 = ucast b0; d1 = ucast b1 :: u32;
         comp_crc = CRC5 (push_bit 8 (d1 AND 7) OR d0) 11;
         crcok = (comp_crc = drop_bit 3 d1)
     in if pid = USB_PID_IN \<or> pid = USB_PID_OUT \<or> pid = USB_PID_SETUP
        then TokenText (pid_name pid) (d0 AND 0x7f) (push_bit 1 (d1 AND 7) OR drop_bit 7 d0) (drop_bit 3 d1) crcok
        else if pid = USB_PID_SOF then SofText (push_bit 8 (d1 AND 7) OR d0) (drop_bit 3 d1) crcok
        else if pid = USB_PID_DATA0 \<or> pid = USB_PID_DATA1 then DataText (pid_name pid) b0 b1 (d0 OR d1 = 0)
        else OtherText (pid_name pid) b0 b1 crcok)"

section \<open>The lines\<close>

text \<open>\<open>dp\<close> and \<open>dn\<close> as the device or the host drives them.\<close>

definition device_drives :: "u32 \<Rightarrow> bool" where
  "device_drives d2p \<longleftrightarrow> has d2p D2P_DP_EN \<or> has d2p D2P_DN_EN \<or> has d2p D2P_D_EN"

definition device_levels :: "u32 \<Rightarrow> bool \<times> bool" where
  "device_levels d2p =
    (if has d2p D2P_TXMODE_SE
     then (has d2p D2P_DP_EN \<and> has d2p D2P_DP, has d2p D2P_DN_EN \<and> has d2p D2P_DN)
     else if has d2p D2P_SE0 \<or> \<not> has d2p D2P_D_EN then (False, False)
     else (has d2p D2P_D, \<not> has d2p D2P_D))"

definition host_levels :: "u32 \<Rightarrow> u32 \<Rightarrow> bool \<times> bool" where
  "host_levels d2p p2d =
    (if has d2p D2P_TXMODE_SE then (has p2d P2D_DP, has p2d P2D_DN)
     else if has p2d (P2D_DP OR P2D_DN) then (has p2d P2D_D, \<not> has p2d P2D_D)
     else (False, False))"

text \<open>If the pull-up is on D-, the lines are swapped; two bits of \<open>line\<close> per sample.\<close>

definition line_code :: "u32 \<Rightarrow> bool \<times> bool \<Rightarrow> u32" where
  "line_code d2p levels =
    (let (dp, dn) = levels; (dp, dn) = (if has d2p D2P_DNPU then (dn, dp) else (dp, dn))
     in push_bit 1 (of_bool dp) OR of_bool dn)"

section \<open>One sample\<close>

abbreviation mon_log :: "mon_entry list \<Rightarrow> mon_ctx \<Rightarrow> mon_ctx" where
  "mon_log es m \<equiv> m\<lparr>m_log := m_log m @ es\<rparr>"

text \<open>
  The report of a packet. The loop that prints the bytes also replaces those that would spoil the text,
  and the last two, the CRC, end it. With \<open>compact\<close> off and one byte the CRC is read before the
  array: the model reads zero there, the upper byte of the field \<open>lastpid\<close>.
\<close>

definition printable_byte :: "u8 \<Rightarrow> u8" where
  "printable_byte b = (let b = (if b = 0x0d \<or> b = 0x0a then 0x5f else b) in if b = 0 then 0x3f else b)"

definition mangled :: "nat \<Rightarrow> u8 list \<Rightarrow> u8 list" where
  "mangled n bs = map (\<lambda>i. if i < n then (if i + 2 \<ge> n then 0 else printable_byte (bs ! i)) else bs ! i) [0..<length bs]"

definition byte_at :: "u8 list \<Rightarrow> int \<Rightarrow> u32" where
  "byte_at bs i = (if i < 0 then 0 else ucast (bs ! nat i))"

definition packet_data :: "mon_driver \<Rightarrow> nat \<Rightarrow> u8 list \<Rightarrow> mon_entry list" where
  "packet_data drv n bs =
    (let comp_crc16 = CRC16 bs (int n - 2);
         pkt_crc16 = byte_at bs (int n - 2) OR push_bit 8 (byte_at bs (int n - 1));
         text = map printable_byte (take (n - 2) bs)
     in [PacketData drv (take n bs) pkt_crc16 comp_crc16 (n = MON_BYTES_SIZE)]
       @ (if (\<forall>b\<in>set text. 32 \<le> b \<and> b \<le> 127) \<and> n > 2 then [PacketText text] else []))"

definition packet_report :: "u32 \<Rightarrow> int \<Rightarrow> int \<Rightarrow> mon_driver \<Rightarrow> u32 \<Rightarrow> nat \<Rightarrow> u8 list \<Rightarrow> mon_entry list" where
  "packet_report loglevel sop tick drv pid n bs =
    (if has loglevel 1 \<and> n = 2 then [PacketTwo sop tick drv (pid_2data pid (bs ! 0) (bs ! 1))]
     else if has loglevel 1 \<and> n = 1 then [PacketOne sop tick drv (pid_name pid) (bs ! 0)]
     else (if has loglevel 1 then [PacketPid sop tick drv (pid_name pid)] else []) @ packet_data drv n bs)"

definition mon_eop :: "u32 \<Rightarrow> int \<Rightarrow> mon_ctx \<Rightarrow> mon_ctx" where
  "mon_eop loglevel tick m =
    (let log = has loglevel 2; compact = has loglevel 1;
         m = (if (log \<or> compact) \<and> m_state m = MS_GET_BYTES \<and> m_byte m > 0
              then (mon_log (packet_report loglevel (m_sopAt m) tick (m_driver m) (m_lastpid m) (m_byte m) (m_bytes m)) m)
                     \<lparr>m_bytes := if compact \<and> m_byte m \<le> 2 then m_bytes m else mangled (m_byte m) (m_bytes m)\<rparr>
              else if compact
              then mon_log [PacketPid (m_sopAt m) tick (m_driver m) (pid_name (m_lastpid m))] m
              else m);
         m = (if log then mon_log [EopSeen tick (m_driver m)] m else m)
     in m\<lparr>m_state := MS_IDLE\<rparr>)"

text \<open>Eight bits are complete.\<close>

definition mon_byte_done :: "u32 \<Rightarrow> int \<Rightarrow> mon_ctx \<Rightarrow> u32 \<Rightarrow> mon_ctx \<times> u32" where
  "mon_byte_done loglevel tick m lastpid =
    (case m_state m of
       MS_GET_PID \<Rightarrow>
        (let good = drop_bit 4 (m_bits m AND 0xf0) XOR (m_bits m AND 0x0f) \<noteq> 0;
             m1 = (if good then m\<lparr>m_lastpid := m_bits m\<rparr> else m);
             m2 = (if has loglevel 2
                   then mon_log [if good then PidSeen tick (m_driver m) (pid_name (m_bits m)) (m_bits m)
                                 else BadPid tick (m_driver m) (m_bits m)] m1
                   else m1)
         in (m2\<lparr>m_state := MS_GET_BYTES, m_needbits := 8, m_byte := 0\<rparr>, if good then m_bits m else lastpid))
     | MS_GET_BYTES \<Rightarrow>
        (m\<lparr>m_bytes := (m_bytes m)[m_byte m := ucast (m_bits m AND 0xff)], m_needbits := 8,
           m_byte := if m_byte m < MON_BYTES_SIZE then m_byte m + 1 else m_byte m\<rparr>, lastpid)
     | MS_IDLE \<Rightarrow> (m, lastpid))"

text \<open>A bit that has entered \<open>rawbits\<close>: a stuffed one is dropped.\<close>

definition mon_data_bit :: "u32 \<Rightarrow> int \<Rightarrow> bool \<Rightarrow> mon_ctx \<Rightarrow> u32 \<Rightarrow> mon_ctx \<times> u32" where
  "mon_data_bit loglevel tick newbit m lastpid =
    (if m_rawbits m AND 0x7e = 0x7e
     then (if newbit then mon_log [StuffError tick (m_driver m) (m_rawbits m)] m else m, lastpid)
     else
       let m = m\<lparr>m_bits := drop_bit 1 (m_bits m) OR push_bit 7 (of_bool newbit), m_needbits := m_needbits m - 1\<rparr>
       in if m_needbits m \<noteq> 0 then (m, lastpid) else mon_byte_done loglevel tick m lastpid)"

definition mon_bit :: "u32 \<Rightarrow> int \<Rightarrow> mon_ctx \<Rightarrow> u32 \<Rightarrow> mon_ctx \<times> u32" where
  "mon_bit loglevel tick m lastpid =
    (let newbit = (drop_bit 2 (m_line m AND 0xc) = m_line m AND 0x3)
     in mon_data_bit loglevel tick newbit (m\<lparr>m_rawbits := push_bit 1 (m_rawbits m) OR of_bool newbit\<rparr>) lastpid)"

definition mon_symbol :: "u32 \<Rightarrow> int \<Rightarrow> mon_ctx \<Rightarrow> u32 \<Rightarrow> mon_ctx \<times> u32" where
  "mon_symbol loglevel tick m lastpid =
    (if m_state m = MS_IDLE
     then (if m_line m AND 0xfff
              = push_bit 10 line_DK OR push_bit 8 line_DJ OR push_bit 6 line_DK OR push_bit 4 line_DJ
                OR push_bit 2 line_DK OR line_DK
           then (if has loglevel 2 then mon_log [SopSeen tick (m_driver m)] m else m)
                  \<lparr>m_sopAt := tick, m_state := MS_GET_PID, m_needbits := 8\<rparr>
           else m, lastpid)
     else if m_line m AND 0x3f = push_bit 4 line_SE0 OR push_bit 2 line_SE0 OR line_DJ
     then (mon_eop loglevel tick m, lastpid)
     else mon_bit loglevel tick m lastpid)"

definition mon_idle_line :: "u32 \<Rightarrow> int \<Rightarrow> u32 \<Rightarrow> mon_ctx \<Rightarrow> mon_ctx" where
  "mon_idle_line loglevel tick d2p m =
    (let m = (if m_driver m \<noteq> M_NONE \<or> m_pu m \<noteq> d2p AND D2P_PU
              then (if has loglevel 2
                    then mon_log [if has d2p D2P_PU then IdleResistor tick d2p else IdleSe0 tick] m
                    else m)\<lparr>m_driver := M_NONE, m_pu := d2p AND D2P_PU\<rparr>
              else m)
     in m\<lparr>m_line := 0\<rparr>)"

definition monitor_usb :: "mon_ctx \<Rightarrow> u32 \<Rightarrow> int \<Rightarrow> bool \<Rightarrow> u32 \<Rightarrow> u32 \<Rightarrow> u32 \<Rightarrow> mon_ctx \<times> u32" where
  "monitor_usb m loglevel tick hdrive p2d d2p lastpid =
    (if device_drives d2p
     then let m = (if hdrive then mon_log [BusClash tick] m else m);
              m = m\<lparr>m_driver := M_DEVICE, m_line := push_bit 2 (m_line m) OR line_code d2p (device_levels d2p)\<rparr>
          in mon_symbol loglevel tick m lastpid
     else if hdrive
     then mon_symbol loglevel tick
            (m\<lparr>m_driver := M_HOST, m_line := push_bit 2 (m_line m) OR line_code d2p (host_levels d2p p2d)\<rparr>) lastpid
     else (mon_idle_line loglevel tick d2p m, lastpid))"

end
