(* ===== verification/UsbHost.thy ===== *)
theory UsbHost
  imports UsbMonitor
begin

text \<open>
  \<open>hw/dv/dpi/usbdpi/usbdpi.c\<close>, the USB host of the simulation: it drives the two lines bit by bit (sync
  pattern, NRZI, bit stuffing, end of packet), starts a frame every 2048 bit times, and plays a fixed
  schedule of transfers, one state machine per frame. Counters are unbounded integers (their
  overflow is undefined in C), line values and shift registers are words. Messages on the standard
  output are left out; the lines that go to the monitor's log are entries.
\<close>

unbundle bit_operations_syntax

section \<open>State\<close>

definition FRAME_INTERVAL :: int where "FRAME_INTERVAL = 256 * 8"
definition SENSE_AT :: int where "SENSE_AT = 20 * 8"
definition LOG_BIT :: u32 where "LOG_BIT = 0x08"
definition INSERT_ERR_CRC :: bool where "INSERT_ERR_CRC = False"
definition INSERT_ERR_PID :: bool where "INSERT_ERR_PID = False"
definition INSERT_ERR_BITSTUFF :: bool where "INSERT_ERR_BITSTUFF = False"
definition UNIMPL_EP_ID :: u32 where "UNIMPL_EP_ID = 15"
definition USB_SYNC :: u32 where "USB_SYNC = 0x2a"
definition SEND_MAX :: nat where "SEND_MAX = 32"

datatype bus_state = ST_IDLE | ST_SEND | ST_GET | ST_SYNC | ST_EOP | ST_EOP0

datatype host_state =
    HS_STARTFRAME | HS_WAITACK | HS_SET_DATASTAGE | HS_DS_RXDATA | HS_DS_SENDACK | HS_DONEDADR | HS_REQDATA
  | HS_WAITDATA | HS_SENDACK | HS_WAIT_PKT | HS_ACKIFDATA | HS_SENDHI | HS_EMPTYDATA | HS_WAITACK2 | HS_NEXTFRAME

datatype dpi_entry =
    PullupChange int int u32
  | DeviceBits int int u32 "(bool \<times> bool) option"
  | HostBits int int u32 bus_state

record usbdpi_ctx =
  u_loglevel :: u32
  u_mon :: mon_ctx
  u_log :: "dpi_entry list"
  u_last_pu :: u32
  u_lastrxpid :: u32
  u_tick :: int
  u_tick_bits :: int
  u_recovery_time :: int
  u_frame :: int
  u_framepend :: int
  u_lastframe :: int
  u_inframe :: int
  u_state :: bus_state
  u_wait :: int
  u_driving :: u32
  u_linebits :: u32
  u_bit :: u32
  u_byte :: int
  u_bytes :: int
  u_datastart :: int
  u_hostSt :: host_state
  u_data :: "u8 list"
  u_baudrate_set_successfully :: bool

definition usbdpi_create :: "u32 \<Rightarrow> usbdpi_ctx" where
  "usbdpi_create loglevel = \<lparr>u_loglevel = loglevel, u_mon = monitor_usb_init, u_log = [], u_last_pu = 0, u_lastrxpid = 0,
    u_tick = 0, u_tick_bits = 0, u_recovery_time = 0, u_frame = 0, u_framepend = 0, u_lastframe = 0, u_inframe = 4,
    u_state = ST_IDLE, u_wait = 0, u_driving = 0, u_linebits = 0, u_bit = 0, u_byte = 0, u_bytes = 0, u_datastart = 0,
    u_hostSt = HS_NEXTFRAME, u_data = replicate SEND_MAX 0, u_baudrate_set_successfully = False\<rparr>"

section \<open>From the device\<close>

text \<open>The levels the host sees, pull-ups included; they only go to the log.\<close>

definition seen_levels :: "u32 \<Rightarrow> bool \<times> bool" where
  "seen_levels d2p =
    (if has d2p D2P_TXMODE_SE
     then if has d2p D2P_DNPU
          then (has d2p D2P_DN_EN \<and> has d2p D2P_DN \<or> \<not> has d2p D2P_DN_EN \<and> has d2p D2P_DNPU,
                has d2p D2P_DP_EN \<and> has d2p D2P_DP)
          else (has d2p D2P_DP_EN \<and> has d2p D2P_DP \<or> \<not> has d2p D2P_DP_EN \<and> has d2p D2P_DPPU,
                has d2p D2P_DN_EN \<and> has d2p D2P_DN)
     else if has d2p D2P_D_EN
     then if has d2p D2P_DNPU
          then (\<not> has d2p D2P_SE0 \<and> \<not> has d2p D2P_D, \<not> has d2p D2P_SE0 \<and> has d2p D2P_D)
          else (\<not> has d2p D2P_SE0 \<and> has d2p D2P_D, \<not> has d2p D2P_SE0 \<and> \<not> has d2p D2P_D)
     else (has d2p D2P_PU, False))"

definition usbdpi_device_to_host :: "u32 \<Rightarrow> usbdpi_ctx \<Rightarrow> usbdpi_ctx" where
  "usbdpi_device_to_host d2p c =
    (let c = (if has d2p (D2P_DP_EN OR D2P_DN_EN OR D2P_D_EN) then c\<lparr>u_state := ST_GET\<rparr>
              else if u_state c = ST_GET then c\<lparr>u_state := ST_IDLE\<rparr> else c);
         c = (if d2p AND D2P_PU \<noteq> u_last_pu c
              then c\<lparr>u_log := u_log c @ [PullupChange (u_frame c) (u_tick c) d2p], u_last_pu := d2p AND D2P_PU\<rparr>
              else c)
     in if has (u_loglevel c) LOG_BIT
        then c\<lparr>u_log := u_log c @ [DeviceBits (u_frame c) (u_tick c) d2p
                                   (if u_state c = ST_GET then Some (seen_levels d2p) else None)]\<rparr>
        else c)"

section \<open>Packets to send\<close>

primrec overwrite :: "nat \<Rightarrow> u8 list \<Rightarrow> u8 list \<Rightarrow> u8 list" where
  "overwrite i [] xs = xs"
| "overwrite i (b # bs) xs = overwrite (i + 1) bs (xs[i := b])"

definition put_data :: "nat \<Rightarrow> u8 list \<Rightarrow> usbdpi_ctx \<Rightarrow> usbdpi_ctx" where
  "put_data i bs c = c\<lparr>u_data := overwrite i bs (u_data c)\<rparr>"

text \<open>The five assignments that start a transmission: \<open>n\<close> bytes, a second packet from byte \<open>start\<close> on (or none).\<close>

definition start_packet :: "int \<Rightarrow> int \<Rightarrow> usbdpi_ctx \<Rightarrow> usbdpi_ctx" where
  "start_packet n start c = c\<lparr>u_state := ST_SYNC, u_bytes := n, u_datastart := start, u_byte := 0, u_bit := 1\<rparr>"

definition go_to :: "host_state \<Rightarrow> usbdpi_ctx \<Rightarrow> usbdpi_ctx" where
  "go_to hs c = c\<lparr>u_hostSt := hs\<rparr>"

definition wait_bits :: "int \<Rightarrow> usbdpi_ctx \<Rightarrow> usbdpi_ctx" where
  "wait_bits n c = c\<lparr>u_wait := u_tick_bits c + n\<rparr>"

text \<open>The third byte of a token: upper bits of the endpoint, CRC5 over the eleven bits of address and endpoint.\<close>

definition token_byte2 :: "u32 \<Rightarrow> u32 \<Rightarrow> u8" where
  "token_byte2 hi x = ucast (hi OR push_bit 3 (CRC5 x 11))"

definition add_crc16 :: "nat \<Rightarrow> nat \<Rightarrow> usbdpi_ctx \<Rightarrow> usbdpi_ctx" where
  "add_crc16 start pos c =
    (let crc = CRC16 (drop (start + 1) (u_data c)) (int pos - int start - 1)
     in put_data pos [ucast (crc AND 0xff), ucast (drop_bit 8 crc)] c)"

definition setDeviceAddress :: "usbdpi_ctx \<Rightarrow> usbdpi_ctx" where
  "setDeviceAddress c =
    (case u_hostSt c of
       HS_STARTFRAME \<Rightarrow>
        (let c = start_packet 14 3 c;
             c = put_data 0 [ucast USB_PID_SETUP, 0, token_byte2 0 0, ucast USB_PID_DATA0] c;
             c = (if INSERT_ERR_PID then put_data 3 [0xc4] c else c);
             c = put_data 4 [0, 5, 2, 0, 0xFF, 0, 0, 0] c;
             c = add_crc16 3 12 c;
             c = (if INSERT_ERR_CRC then put_data 13 [u_data c ! 13 XOR 1] c else c)
         in go_to HS_WAITACK c)
     | HS_WAITACK \<Rightarrow> go_to HS_SET_DATASTAGE (wait_bits 532 c)
     | HS_SET_DATASTAGE \<Rightarrow>
        (if u_tick_bits c = u_wait c
         then go_to HS_DS_RXDATA (put_data 0 [ucast USB_PID_IN, 0, token_byte2 0 0] (start_packet 3 (- 1) c))
         else c)
     | HS_DS_RXDATA \<Rightarrow> go_to HS_DS_SENDACK (wait_bits 24 c)
     | HS_DS_SENDACK \<Rightarrow>
        (if u_tick_bits c \<ge> u_wait c
         then go_to HS_NEXTFRAME (put_data 0 [ucast USB_PID_ACK] (start_packet 1 (- 1) c))
         else c)
     | _ \<Rightarrow> c)"

definition readDescriptor :: "usbdpi_ctx \<Rightarrow> usbdpi_ctx" where
  "readDescriptor c =
    (case u_hostSt c of
       HS_STARTFRAME \<Rightarrow>
        go_to HS_WAITACK (add_crc16 3 12 (put_data 0
          [ucast USB_PID_SETUP, 2, token_byte2 0 2, ucast USB_PID_DATA0, 0x80, 6, 0, 1, 0, 0, 0x12, 0]
          (start_packet 14 3 c)))
     | HS_WAITACK \<Rightarrow> go_to HS_REQDATA (wait_bits 532 c)
     | HS_REQDATA \<Rightarrow>
        (if u_tick_bits c = u_wait c
         then go_to HS_WAITDATA (put_data 0 [ucast USB_PID_IN, 2, token_byte2 0 2] (start_packet 3 (- 1) c))
         else c)
     | HS_WAITDATA \<Rightarrow> go_to HS_SENDACK (wait_bits 200 c)
     | HS_SENDACK \<Rightarrow>
        (if u_tick_bits c = u_wait c
         then go_to HS_NEXTFRAME (put_data 0 [ucast USB_PID_ACK] (start_packet 1 (- 1) c))
         else c)
     | _ \<Rightarrow> c)"

definition readBaud :: "usbdpi_ctx \<Rightarrow> usbdpi_ctx" where
  "readBaud c =
    (case u_hostSt c of
       HS_STARTFRAME \<Rightarrow>
        go_to HS_WAITACK (add_crc16 3 12 (put_data 0
          [ucast USB_PID_SETUP, 0x82, token_byte2 0 0x82, ucast USB_PID_DATA0, 0xc2, 2, 0, 0, 0, 0, 2, 0]
          (start_packet 14 3 c)))
     | HS_WAITACK \<Rightarrow> go_to HS_REQDATA (wait_bits 32 c)
     | HS_REQDATA \<Rightarrow>
        (if u_tick_bits c = u_wait c
         then go_to HS_WAITDATA (put_data 0 [ucast USB_PID_IN, 0x82, token_byte2 0 0x82] (start_packet 3 (- 1) c))
         else c)
     | HS_WAITDATA \<Rightarrow> go_to HS_SENDACK (wait_bits 200 c)
     | HS_SENDACK \<Rightarrow>
        (if u_tick_bits c = u_wait c
         then go_to HS_EMPTYDATA (put_data 0 [ucast USB_PID_ACK] (start_packet 1 (- 1) c))
         else c)
     | HS_EMPTYDATA \<Rightarrow>
        go_to HS_WAITACK2 (put_data 0
          [ucast USB_PID_OUT, 0x82, token_byte2 0 0x82, ucast USB_PID_DATA1, 0, 0] (start_packet 6 3 c))
     | HS_WAITACK2 \<Rightarrow> go_to HS_NEXTFRAME (wait_bits 32 c)
     | _ \<Rightarrow> c)"

definition setBaud :: "usbdpi_ctx \<Rightarrow> usbdpi_ctx" where
  "setBaud c =
    (case u_hostSt c of
       HS_STARTFRAME \<Rightarrow>
        go_to HS_WAITACK (add_crc16 3 12 (put_data 0
          [ucast USB_PID_SETUP, 0x82, token_byte2 0 0x82, ucast USB_PID_DATA0, 0x42, 3, 96, 0, 0, 0, 0, 0]
          (start_packet 14 3 c)))
     | HS_WAITACK \<Rightarrow> go_to HS_REQDATA (wait_bits 32 c)
     | HS_REQDATA \<Rightarrow>
        (if u_tick_bits c = u_wait c
         then go_to HS_WAITDATA (put_data 0 [ucast USB_PID_IN, 0x82, token_byte2 0 0x82] (start_packet 3 (- 1) c))
         else c)
     | HS_WAITDATA \<Rightarrow> go_to HS_SENDACK (wait_bits 40 c)
     | HS_SENDACK \<Rightarrow>
        (if u_tick_bits c \<ge> u_wait c
         then (go_to HS_NEXTFRAME (put_data 0 [ucast USB_PID_ACK] (start_packet 1 (- 1) c)))
                \<lparr>u_baudrate_set_successfully := True\<rparr>
         else c)
     | _ \<Rightarrow> c)"

definition testIso :: "usbdpi_ctx \<Rightarrow> usbdpi_ctx" where
  "testIso c =
    (case u_hostSt c of
       HS_STARTFRAME \<Rightarrow>
        go_to HS_WAITACK (add_crc16 3 12 (put_data 0
          [ucast USB_PID_OUT, 0x82, token_byte2 1 0x182, ucast USB_PID_DATA0, 0x42, 3, 96, 0, 0, 0, 0, 0]
          (start_packet 14 3 c)))
     | HS_WAITACK \<Rightarrow> go_to HS_REQDATA (wait_bits 32 c)
     | HS_REQDATA \<Rightarrow>
        (if u_tick_bits c = u_wait c
         then go_to HS_WAITDATA (put_data 0 [ucast USB_PID_IN, 0x82, token_byte2 1 0x182] (start_packet 3 (- 1) c))
         else c)
     | HS_WAITDATA \<Rightarrow> go_to HS_NEXTFRAME (wait_bits 40 c)
     | _ \<Rightarrow> c)"

definition pollRX :: "bool \<Rightarrow> bool \<Rightarrow> usbdpi_ctx \<Rightarrow> usbdpi_ctx" where
  "pollRX sendHi nakData c =
    (case u_hostSt c of
       HS_STARTFRAME \<Rightarrow>
        (go_to HS_WAIT_PKT (put_data 0 [ucast USB_PID_IN, 0x82, token_byte2 0 0x82] (start_packet 3 (- 1) c)))
          \<lparr>u_lastrxpid := 0\<rparr>
     | HS_WAIT_PKT \<Rightarrow>
        (if u_lastrxpid c \<noteq> 0 \<and> u_lastrxpid c \<noteq> USB_PID_IN then go_to HS_ACKIFDATA (wait_bits 32 c) else c)
     | HS_ACKIFDATA \<Rightarrow>
        (if u_tick_bits c \<ge> u_wait c
         then let c = (if u_lastrxpid c \<noteq> USB_PID_NAK
                       then put_data 0 [ucast (if nakData then USB_PID_NAK else USB_PID_ACK)] (start_packet 1 (- 1) c)
                       else c)
              in if sendHi then go_to HS_SENDHI c else (go_to HS_NEXTFRAME c)\<lparr>u_inframe := u_frame c\<rparr>
         else c)
     | HS_SENDHI \<Rightarrow>
        (let c = add_crc16 3 7 (put_data 0
              [ucast USB_PID_OUT, 0x82, token_byte2 0 0x82, ucast USB_PID_DATA0, 0x48, 0x69, 0x21]
              (start_packet 9 3 c))
         in go_to HS_NEXTFRAME (c\<lparr>u_inframe := u_frame c\<rparr>))
     | _ \<Rightarrow> c)"

definition unimpl_token :: "u32 \<Rightarrow> u8 list" where
  "unimpl_token pid = [ucast pid, ucast (push_bit 7 (UNIMPL_EP_ID AND 1) OR 2),
     token_byte2 (drop_bit 1 UNIMPL_EP_ID AND 7) (push_bit 7 UNIMPL_EP_ID OR 2)]"

definition testUnimplEp :: "u32 \<Rightarrow> usbdpi_ctx \<Rightarrow> usbdpi_ctx" where
  "testUnimplEp pid c =
    (case u_hostSt c of
       HS_STARTFRAME \<Rightarrow>
        (if pid = USB_PID_SETUP \<or> pid = USB_PID_OUT
         then go_to HS_WAITACK (add_crc16 3 12 (put_data 3 [ucast USB_PID_DATA0, 0, 5, 2, 0, 0xFF, 0, 0, 0]
                (put_data 0 (unimpl_token pid) (start_packet 14 3 c))))
         else if pid = USB_PID_IN then go_to HS_WAITACK (put_data 0 (unimpl_token pid) (start_packet 3 0 c))
         else go_to HS_NEXTFRAME c)
     | HS_WAITACK \<Rightarrow> go_to HS_NEXTFRAME (wait_bits 32 c)
     | _ \<Rightarrow> c)"

section \<open>The lines\<close>

definition set_driving :: "usbdpi_ctx \<Rightarrow> u32 \<Rightarrow> u32 \<Rightarrow> u32" where
  "set_driving c d2p newval =
    (if has d2p D2P_DNPU
     then if has d2p D2P_TXMODE_SE
          then (u_driving c AND P2D_SENSE) OR (if has newval P2D_DP then P2D_DN else 0)
                 OR (if has newval P2D_DN then P2D_DP else 0)
          else if has newval (P2D_DP OR P2D_DN)
          then (u_driving c AND P2D_SENSE) OR P2D_DP OR (if has newval P2D_DN then P2D_D else 0)
          else u_driving c AND P2D_SENSE
     else if has d2p D2P_TXMODE_SE then (u_driving c AND P2D_SENSE) OR newval
     else if has newval (P2D_DP OR P2D_DN)
     then (u_driving c AND P2D_SENSE) OR P2D_DN OR (if has newval P2D_DP then P2D_D else 0)
     else (u_driving c AND P2D_SENSE) OR P2D_D)"

definition inv_driving :: "usbdpi_ctx \<Rightarrow> u32 \<Rightarrow> u32" where
  "inv_driving c d2p = u_driving c XOR (if has d2p D2P_TXMODE_SE then P2D_DP OR P2D_DN else P2D_D)"

section \<open>One bit time\<close>

definition host_idle :: "usbdpi_ctx \<Rightarrow> usbdpi_ctx" where
  "host_idle c =
    (let f = u_frame c in
     if f = 1 then setDeviceAddress c
     else if f = 2 then readDescriptor c
     else if f = 10 then readBaud c
     else if f = 15 then setBaud c
     else if f = 17 \<or> f = 18 then testIso c
     else if f = 20 then testUnimplEp USB_PID_SETUP c
     else if f = 21 then testUnimplEp USB_PID_OUT c
     else if f = 22 then testUnimplEp USB_PID_IN c
     else if f > u_inframe c \<and> \<not> (23 \<le> f \<and> f < 33)
     then pollRX (f = 9 \<or> f = 14) (f = 16 \<or> f = 9) c
     else c)"

definition host_sync :: "u32 \<Rightarrow> usbdpi_ctx \<Rightarrow> usbdpi_ctx" where
  "host_sync d2p c =
    (let dat = (if has USB_SYNC (u_bit c) then P2D_DP else P2D_DN);
         c = c\<lparr>u_driving := set_driving c d2p dat, u_bit := push_bit 1 (u_bit c)\<rparr>
     in if u_bit c = 0x100 then c\<lparr>u_bit := 1, u_linebits := 0, u_state := ST_SEND\<rparr> else c)"

definition host_send :: "u32 \<Rightarrow> usbdpi_ctx \<Rightarrow> usbdpi_ctx" where
  "host_send d2p c =
    (if u_linebits c AND 0x3f = 0x3f \<and> \<not> INSERT_ERR_BITSTUFF
     then c\<lparr>u_driving := inv_driving c d2p, u_linebits := push_bit 1 (u_linebits c)\<rparr>
     else if u_byte c \<ge> u_bytes c
     then c\<lparr>u_state := ST_EOP, u_driving := set_driving c d2p 0, u_bit := 1\<rparr>
     else
       let nextbit = (ucast (u_data c ! nat (u_byte c)) AND u_bit c \<noteq> 0);
           c = (if nextbit then c else c\<lparr>u_driving := inv_driving c d2p\<rparr>);
           c = c\<lparr>u_linebits := push_bit 1 (u_linebits c) OR of_bool nextbit, u_bit := push_bit 1 (u_bit c)\<rparr>
       in if u_bit c = 0x100
          then let c = c\<lparr>u_bit := 1, u_byte := u_byte c + 1\<rparr>
               in if u_byte c = u_datastart c then c\<lparr>u_state := ST_EOP0\<rparr> else c
          else c)"

definition host_eop0 :: "u32 \<Rightarrow> usbdpi_ctx \<Rightarrow> usbdpi_ctx" where
  "host_eop0 d2p c = c\<lparr>u_driving := set_driving c d2p 0, u_state := ST_EOP\<rparr>"

definition host_eop :: "u32 \<Rightarrow> usbdpi_ctx \<Rightarrow> usbdpi_ctx" where
  "host_eop d2p c =
    (let c = (if u_bit c = 4 then c\<lparr>u_driving := set_driving c d2p P2D_DP\<rparr> else c);
         c = (if u_bit c = 8
              then let c = c\<lparr>u_driving := set_driving c d2p (if has d2p D2P_PU then P2D_DP else 0)\<rparr>
                   in if u_byte c = u_datastart c then c\<lparr>u_bit := 1, u_state := ST_SYNC\<rparr> else c\<lparr>u_state := ST_IDLE\<rparr>
              else c)
     in c\<lparr>u_bit := push_bit 1 (u_bit c)\<rparr>)"

text \<open>A frame is due: it starts with its SOF packet, unless the bus is in use.\<close>

definition host_frame :: "usbdpi_ctx \<Rightarrow> usbdpi_ctx" where
  "host_frame c =
    (if u_tick_bits c - u_lastframe c \<ge> FRAME_INTERVAL
     then if u_state c \<noteq> ST_IDLE then c\<lparr>u_framepend := 1\<rparr>
          else
            let c = c\<lparr>u_framepend := 0, u_frame := u_frame c + 1, u_lastframe := u_tick_bits c\<rparr>;
                f = word_of_int (u_frame c) :: u32;
                c = (if 20 \<le> u_frame c \<and> u_frame c < 30 then c\<lparr>u_state := ST_IDLE\<rparr>
                     else put_data 0 [ucast USB_PID_SOF, ucast (f AND 0xff),
                            ucast (drop_bit 8 (f AND 0x700) OR push_bit 3 (CRC5 (f AND 0x7ff) 11))]
                            (start_packet 3 (- 1) c))
            in if u_hostSt c = HS_NEXTFRAME then go_to HS_STARTFRAME c else c
     else c)"

definition host_drive :: "u32 \<Rightarrow> usbdpi_ctx \<Rightarrow> usbdpi_ctx" where
  "host_drive d2p c =
    (case u_state c of
       ST_IDLE \<Rightarrow> host_idle c
     | ST_SYNC \<Rightarrow> host_sync d2p c
     | ST_SEND \<Rightarrow> host_send d2p c
     | ST_EOP0 \<Rightarrow> host_eop0 d2p c
     | ST_EOP \<Rightarrow> host_eop d2p c
     | ST_GET \<Rightarrow> c)"

text \<open>The states in which the switch sets \<open>force_stat\<close>.\<close>

definition bit_log :: "u32 \<Rightarrow> bus_state \<Rightarrow> usbdpi_ctx \<Rightarrow> usbdpi_ctx" where
  "bit_log last_driving st c =
    (if has (u_loglevel c) LOG_BIT \<and> (st = ST_SYNC \<or> st = ST_SEND \<or> u_driving c \<noteq> last_driving)
     then c\<lparr>u_log := u_log c @ [HostBits (u_frame c) (u_tick c) (u_driving c) (u_state c)]\<rparr>
     else c)"

definition call_monitor :: "u32 \<Rightarrow> usbdpi_ctx \<Rightarrow> usbdpi_ctx" where
  "call_monitor d2p c =
    (let (m, pid) = monitor_usb (u_mon c) (u_loglevel c) (u_tick c) (u_state c \<noteq> ST_IDLE \<and> u_state c \<noteq> ST_GET)
                      (u_driving c) d2p (u_lastrxpid c)
     in c\<lparr>u_mon := m, u_lastrxpid := pid\<rparr>)"

text \<open>A bit takes four ticks of the 48 MHz clock; the value returned is \<open>driving\<close>.\<close>

definition usbdpi_host_to_device :: "u32 \<Rightarrow> usbdpi_ctx \<Rightarrow> usbdpi_ctx" where
  "usbdpi_host_to_device d2p c =
    (let last_driving = u_driving c;
         c = c\<lparr>u_tick := u_tick c + 1\<rparr>;
         c = c\<lparr>u_tick_bits := u_tick c div 4\<rparr>
     in if u_tick c mod 4 \<noteq> 0 then c
        else
          let c = call_monitor d2p c;
              c = (if u_tick_bits c = SENSE_AT then c\<lparr>u_driving := u_driving c OR P2D_SENSE\<rparr> else c)
          in if \<not> has d2p D2P_PU then c\<lparr>u_recovery_time := u_tick c + 4 * 48\<rparr>
             else if u_tick c < u_recovery_time c then c\<lparr>u_lastframe := u_tick_bits c\<rparr>
             else let c = host_frame c in bit_log last_driving (u_state c) (host_drive d2p c))"

end
