(* ===== verification/UsbWire.thy ===== *)
theory UsbWire
  imports UsbHost
begin

text \<open>
  The host of \<open>UsbHost\<close> and the monitor of \<open>UsbMonitor\<close> on the same wires: whatever the host sends, in
  either orientation and either mode of the transceiver, the monitor decodes to the same bytes. The
  proof runs both in lockstep, one bit time at a time, the monitor one symbol behind.
\<close>

unbundle bit_operations_syntax

section \<open>Symbols on the wire\<close>

definition wire :: "u32 \<Rightarrow> u32 \<Rightarrow> u32" where
  "wire d2p p2d = line_code d2p (host_levels d2p p2d)"

lemma has_bits:
  "has w P2D_SENSE \<longleftrightarrow> bit w 0" "has w P2D_DN \<longleftrightarrow> bit w 1" "has w P2D_DP \<longleftrightarrow> bit w 2" "has w P2D_D \<longleftrightarrow> bit w 3"
  "has w (P2D_DP OR P2D_DN) \<longleftrightarrow> bit w 2 \<or> bit w 1"
proof -
  have mask: "P2D_SENSE = push_bit 0 1" "P2D_DN = push_bit 1 1" "P2D_DP = push_bit 2 1" "P2D_D = push_bit 3 1"
    by (simp_all add: P2D_SENSE_def P2D_DN_def P2D_DP_def P2D_D_def)
  show one: "has w P2D_SENSE \<longleftrightarrow> bit w 0" "has w P2D_DN \<longleftrightarrow> bit w 1" "has w P2D_DP \<longleftrightarrow> bit w 2" "has w P2D_D \<longleftrightarrow> bit w 3"
    unfolding has_def mask bit_iff_and_push_bit_not_eq_0 by (rule refl)+
  have "w AND (P2D_DP OR P2D_DN) = (w AND P2D_DP) OR (w AND P2D_DN)" by (simp add: bit.conj_disj_distrib)
  then have "has w (P2D_DP OR P2D_DN) \<longleftrightarrow> has w P2D_DP \<or> has w P2D_DN" by (simp add: has_def or_eq_0_iff)
  then show "has w (P2D_DP OR P2D_DN) \<longleftrightarrow> bit w 2 \<or> bit w 1" by (simp add: one)
qed

lemma p2d_bits:
  "bit P2D_SENSE i \<longleftrightarrow> i = 0" "bit P2D_DN i \<longleftrightarrow> i = 1" "bit P2D_DP i \<longleftrightarrow> i = 2" "bit P2D_D i \<longleftrightarrow> i = 3"
proof -
  have mask: "P2D_SENSE = push_bit 0 1" "P2D_DN = push_bit 1 1" "P2D_DP = push_bit 2 1" "P2D_D = push_bit 3 1"
    by (simp_all add: P2D_SENSE_def P2D_DN_def P2D_DP_def P2D_D_def)
  show "bit P2D_SENSE i \<longleftrightarrow> i = 0" "bit P2D_DN i \<longleftrightarrow> i = 1" "bit P2D_DP i \<longleftrightarrow> i = 2" "bit P2D_D i \<longleftrightarrow> i = 3"
    unfolding mask bit_push_bit_iff bit_1_iff by auto
qed

lemma symbol_code:
  "push_bit 1 (of_bool a) OR of_bool b = (0 :: u32) \<longleftrightarrow> \<not> a \<and> \<not> b"
  "push_bit 1 (of_bool a) OR of_bool b = (1 :: u32) \<longleftrightarrow> \<not> a \<and> b"
  "push_bit 1 (of_bool a) OR of_bool b = (2 :: u32) \<longleftrightarrow> a \<and> \<not> b"
  by (cases a; cases b; simp)+

lemma wire_code:
  "wire d2p w = 1 \<longleftrightarrow> (let (dp, dn) = host_levels d2p w in if has d2p D2P_DNPU then dp \<and> \<not> dn else dn \<and> \<not> dp)"
  "wire d2p w = 2 \<longleftrightarrow> (let (dp, dn) = host_levels d2p w in if has d2p D2P_DNPU then dn \<and> \<not> dp else dp \<and> \<not> dn)"
  "wire d2p w = 0 \<longleftrightarrow> host_levels d2p w = (False, False)"
  unfolding wire_def line_code_def Let_def split_def if_distrib [of fst] if_distrib [of snd] fst_conv snd_conv symbol_code
  by (auto simp: prod_eq_iff)

lemmas wire_simps = wire_code host_levels_def has_bits p2d_bits bit_or_iff bit_and_iff bit_xor_iff

lemma wire_set_driving:
  "wire d2p (set_driving c d2p P2D_DP) = 2" "wire d2p (set_driving c d2p P2D_DN) = 1"
  "wire d2p (set_driving c d2p 0) = 0"
  by (simp_all add: set_driving_def wire_simps)

lemma wire_inv_driving:
  "wire d2p (u_driving c) = 1 \<Longrightarrow> wire d2p (inv_driving c d2p) = 2"
  "wire d2p (u_driving c) = 2 \<Longrightarrow> wire d2p (inv_driving c d2p) = 1"
  by (auto simp: inv_driving_def wire_simps split: if_splits)

lemma wire_sense: "wire d2p (x OR P2D_SENSE) = wire d2p x"
  by (simp add: wire_def line_code_def host_levels_def has_bits p2d_bits bit_or_iff)

lemma wire_range: "wire d2p w < 4"
proof -
  have "push_bit 1 (of_bool a) OR of_bool b < (4 :: u32)" for a b by (cases a; cases b; simp)
  then show ?thesis unfolding wire_def line_code_def Let_def split_def .
qed

section \<open>The monitor's view\<close>

lemma monitor_hosted:
  assumes "\<not> device_drives d2p"
  shows "monitor_usb m ll tick True p2d d2p pid
    = mon_symbol ll tick (m\<lparr>m_driver := M_HOST, m_line := push_bit 2 (m_line m) OR wire d2p p2d\<rparr>) pid"
  using assms by (simp add: monitor_usb_def wire_def)

text \<open>The last symbols seen.\<close>

lemma symbol_bits: "s < 4 \<Longrightarrow> bit s i \<Longrightarrow> i < 2" for s :: u32
  using below_exp [of s 2 i] by (cases "i < 2") (simp_all add: not_less)

lemma line_mask_step:
  fixes l s :: u32
  assumes "l AND mask (2 * k) = v" "s < 4"
  shows "(push_bit 2 l OR s) AND mask (2 * Suc k) = push_bit 2 v OR s"
proof (rule bit_eqI)
  fix i
  show "bit ((push_bit 2 l OR s) AND mask (2 * Suc k)) i \<longleftrightarrow> bit (push_bit 2 v OR s) i"
    unfolding assms(1) [symmetric] by (auto simp: bit_simps dest: symbol_bits [OF assms(2)])
qed

lemma last_symbol:
  fixes l s :: u32
  assumes "s < 4"
  shows "(push_bit 2 l OR s) AND 3 = s" "drop_bit 2 ((push_bit 2 l OR s) AND 0xc) = l AND 3"
    "(push_bit 2 l OR s) AND 0x3f = push_bit 2 (l AND 0xf) OR s"
proof -
  note s = symbol_bits [OF assms]
  have m: "(3 :: u32) = mask 2" "(0xc :: u32) = push_bit 2 (mask 2)" "(0x3f :: u32) = mask 6" "(0xf :: u32) = mask 4"
    by (simp_all add: mask_eq_exp_minus_1)
  show "(push_bit 2 l OR s) AND 3 = s" "drop_bit 2 ((push_bit 2 l OR s) AND 0xc) = l AND 3"
    "(push_bit 2 l OR s) AND 0x3f = push_bit 2 (l AND 0xf) OR s"
    unfolding m by (rule bit_eqI, use s in \<open>force simp: bit_simps less_diff_conv2\<close>)+
qed

text \<open>Within a packet a symbol that follows J or K does not end it.\<close>

lemma no_eop:
  fixes l s :: u32
  assumes "s < 4" "l AND 3 \<noteq> 0"
  shows "(push_bit 2 l OR s) AND 0x3f \<noteq> push_bit 4 line_SE0 OR push_bit 2 line_SE0 OR line_DJ"
proof
  assume "(push_bit 2 l OR s) AND 0x3f = push_bit 4 line_SE0 OR push_bit 2 line_SE0 OR line_DJ"
  then have "drop_bit 2 ((push_bit 2 l OR s) AND 0x3f) AND 3 = 0"
    by (simp add: line_SE0_def line_DJ_def)
  moreover have "drop_bit 2 ((push_bit 2 l OR s) AND 0x3f) AND 3 = l AND 3"
  proof -
    have m: "(3 :: u32) = mask 2" "(0x3f :: u32) = mask 6" by (simp_all add: mask_eq_exp_minus_1)
    show ?thesis unfolding m by (rule bit_eqI, use symbol_bits [OF assms(1)] in \<open>force simp: bit_simps\<close>)
  qed
  ultimately show False using assms(2) by simp
qed

text \<open>The runs of ones that the two sides count.\<close>

definition six_ones :: "u32 \<Rightarrow> bool" where
  "six_ones w \<longleftrightarrow> (\<forall>i<6. bit w i)"

lemma bit_push1: "bit (push_bit 1 w OR of_bool b) i \<longleftrightarrow> (if i = 0 then b else i < 32 \<and> bit w (i - 1))" for w :: u32
  unfolding bit_or_iff bit_push_bit_iff bit_of_bool_iff possible_bit_word by auto

lemma six_ones_mask: "w AND 0x3f = 0x3f \<longleftrightarrow> six_ones w"
proof -
  have m: "(0x3f :: u32) = mask 6" by (simp add: mask_eq_exp_minus_1)
  have lt: "i < 6 \<Longrightarrow> i < (32 :: nat)" for i by simp
  show ?thesis unfolding m six_ones_def bit_eq_iff [where 'a = "32 word"] bit_and_iff bit_mask_iff possible_bit_word
    by (simp, metis lt)
qed

lemma six_ones_stuffed: "(push_bit 1 w OR of_bool b) AND 0x7e = 0x7e \<longleftrightarrow> six_ones w"
proof -
  have m: "(0x7e :: u32) = push_bit 1 (mask 6)" by (simp add: mask_eq_exp_minus_1)
  have lt: "i < 7 \<Longrightarrow> i < (32 :: nat)" for i by simp
  have mid: "bit (push_bit 1 (mask 6) :: u32) i \<longleftrightarrow> 0 < i \<and> i < 7" for i
    unfolding bit_push_bit_iff bit_mask_iff possible_bit_word by auto
  have "(push_bit 1 w OR of_bool b) AND 0x7e = 0x7e \<longleftrightarrow> (\<forall>i. 0 < i \<and> i < 7 \<longrightarrow> bit w (i - 1))"
    unfolding m bit_eq_iff [where 'a = "32 word"] bit_and_iff bit_push1 mid possible_bit_word
    by (simp, metis lt)
  also have "\<dots> \<longleftrightarrow> six_ones w" unfolding six_ones_def
  proof (intro iffI allI impI)
    fix i :: nat assume "\<forall>i. 0 < i \<and> i < 7 \<longrightarrow> bit w (i - 1)" "i < 6"
    then show "bit w i" by (auto dest: spec [of _ "Suc i"])
  next
    fix i :: nat assume "\<forall>i<6. bit w i" "0 < i \<and> i < 7"
    then show "bit w (i - 1)" by (auto dest: spec [of _ "i - 1"])
  qed
  finally show ?thesis .
qed

text \<open>
  \<open>same_run b j lb raw\<close>: after \<open>j\<close> bits of the first byte \<open>b\<close>, or later, the host's \<open>linebits\<close> and the monitor's
  \<open>rawbits\<close> agree on whether six ones have gone by, though the monitor starts from old bits.
\<close>

definition same_run :: "u8 \<Rightarrow> nat \<Rightarrow> u32 \<Rightarrow> u32 \<Rightarrow> bool" where
  "same_run b j lb raw \<longleftrightarrow>
     (\<exists>z. \<not> bit raw z \<and> (\<forall>i\<le>z. bit lb i = bit raw i))
   \<or> j \<le> 3 \<and> (\<forall>i<j. bit b i) \<and> \<not> bit lb j \<and> \<not> bit raw (j + 2)"

lemma same_run_six:
  assumes "same_run b j lb raw" shows "six_ones lb \<longleftrightarrow> six_ones raw"
  using assms unfolding same_run_def
proof
  assume "\<exists>z. \<not> bit raw z \<and> (\<forall>i\<le>z. bit lb i = bit raw i)"
  then obtain z where z: "\<not> bit raw z" "\<And>i. i \<le> z \<Longrightarrow> bit lb i = bit raw i" by blast
  show ?thesis
  proof (cases "z < 6")
    case True then show ?thesis using z(1) z(2) [of z] by (auto simp: six_ones_def)
  next
    case False then show ?thesis using z(2) by (simp add: six_ones_def)
  qed
next
  assume "j \<le> 3 \<and> (\<forall>i<j. bit b i) \<and> \<not> bit lb j \<and> \<not> bit raw (j + 2)"
  then have "j < 6" "j + 2 < 6" "\<not> bit lb j" "\<not> bit raw (j + 2)" by auto
  then show ?thesis unfolding six_ones_def by blast
qed

lemma same_run_start: "\<not> bit raw 2 \<Longrightarrow> same_run b 0 0 raw"
  by (simp add: same_run_def numeral_2_eq_2)

lemma same_run_push:
  assumes "same_run b j lb raw" "\<not> (\<forall>i<4. bit b i)" "j < 8 \<longrightarrow> v = bit b j"
  shows "same_run b (Suc j) (push_bit 1 lb OR of_bool v) (push_bit 1 raw OR of_bool v)"
proof (cases "\<exists>z. \<not> bit raw z \<and> (\<forall>i\<le>z. bit lb i = bit raw i)")
  case True
  then obtain z where "\<not> bit raw z" "\<And>i. i \<le> z \<Longrightarrow> bit lb i = bit raw i" by blast
  then show ?thesis unfolding same_run_def bit_push1 by (intro disjI1 exI [of _ "Suc z"]) auto
next
  case False
  then have j: "j \<le> 3" "\<And>i. i < j \<Longrightarrow> bit b i" "\<not> bit lb j" "\<not> bit raw (j + 2)"
    using assms(1) by (auto simp: same_run_def)
  show ?thesis
  proof (cases v)
    case True
    then have b: "bit b j" using j(1) assms(3) by auto
    then have le: "\<forall>i < Suc j. bit b i" using j(2) less_Suc_eq by auto
    then have "j \<noteq> 3" using assms(2) by (auto simp: numeral_eq_Suc)
    then show ?thesis using j le unfolding same_run_def bit_push1 by (intro disjI2) auto
  next
    case False
    then show ?thesis unfolding same_run_def bit_push1 by (intro disjI1 exI [of _ 0]) auto
  qed
qed

text \<open>A stuffed bit is a zero, so that the two agree from then on.\<close>

lemma same_run_stuff: "same_run b j (push_bit 1 lb) (push_bit 1 raw)"
  unfolding same_run_def bit_push_bit_iff by (intro disjI1 exI [of _ 0]) simp

section \<open>The monitor inside a packet\<close>

text \<open>The upper bits of the monitor's shift register hold the first \<open>n\<close> bits of the byte \<open>b\<close>.\<close>

definition shifted_in :: "u8 \<Rightarrow> nat \<Rightarrow> u32 \<Rightarrow> bool" where
  "shifted_in b n w \<longleftrightarrow> (\<forall>i<n. bit w (8 - n + i) = bit b i) \<and> (\<forall>i\<ge>8. \<not> bit w i)"

lemma shifted_in_step:
  assumes "shifted_in b n w" "n < 8" "v = bit b n"
  shows "shifted_in b (Suc n) (drop_bit 1 w OR push_bit 7 (of_bool v))"
  unfolding shifted_in_def
proof (intro conjI allI impI)
  fix i assume i: "i < Suc n"
  have e: "1 + (8 - Suc n + i) = 8 - n + i" "i = n \<Longrightarrow> 8 - Suc n + i = 7" "i \<noteq> n \<Longrightarrow> 8 - Suc n + i < 7"
    using i assms(2) by simp_all
  show "bit (drop_bit 1 w OR push_bit 7 (of_bool v)) (8 - Suc n + i) = bit b i"
  proof (cases "i = n")
    case True
    have "\<not> bit w 8" using assms(1) by (simp add: shifted_in_def)
    then show ?thesis unfolding e(2) [OF True] using True assms(3)
      by (simp add: bit_or_iff bit_drop_bit_eq bit_push_bit_iff)
  next
    case False
    then have "bit w (8 - n + i) = bit b i" using assms(1) i by (simp add: shifted_in_def)
    then show ?thesis using e(3) [OF False]
      unfolding bit_or_iff bit_drop_bit_eq bit_push_bit_iff comp_def e(1) by simp
  qed
next
  fix i :: nat assume "8 \<le> i"
  then show "\<not> bit (drop_bit 1 w OR push_bit 7 (of_bool v)) i"
    using assms(1) by (auto simp: shifted_in_def bit_or_iff bit_drop_bit_eq bit_push_bit_iff bit_1_iff)
qed

lemma shifted_in_8: "shifted_in b 8 w \<Longrightarrow> w = ucast b"
proof (rule bit_eqI)
  fix i
  assume w: "shifted_in b 8 w"
  show "bit w i \<longleftrightarrow> bit (ucast b :: u32) i"
  proof (cases "i < 8")
    case True then show ?thesis using w by (simp add: shifted_in_def bit_ucast_iff)
  next
    case False
    then show ?thesis using w bit_imp_le_length [of b i] by (auto simp: shifted_in_def bit_ucast_iff)
  qed
qed

lemma shifted_in_0: "shifted_in b n w \<Longrightarrow> shifted_in b' 0 w"
  by (simp add: shifted_in_def)

text \<open>What the monitor tells a good PID by: its two halves differ.\<close>

definition pid_accepted :: "u8 \<Rightarrow> bool" where
  "pid_accepted b \<longleftrightarrow> drop_bit 4 (ucast b AND (0xf0 :: u32)) XOR (ucast b AND 0x0f) \<noteq> 0"

definition pid_entry :: "u32 \<Rightarrow> int \<Rightarrow> u8 \<Rightarrow> mon_entry list" where
  "pid_entry ll t b = (if has ll 2 then [PidSeen t M_HOST (pid_name (ucast b)) (ucast b)] else [])"

text \<open>
  The monitor has consumed \<open>j\<close> bits (stuffed ones not counted) of the packet \<open>p\<close>, whose start it logged
  before \<open>L\<close> ends.
\<close>

definition reading :: "u32 \<Rightarrow> mon_entry list \<Rightarrow> int \<Rightarrow> u8 list \<Rightarrow> nat \<Rightarrow> mon_ctx \<times> u32 \<Rightarrow> bool" where
  "reading ll L sop p j r \<longleftrightarrow> (case r of (m, pid) \<Rightarrow>
     m_driver m = M_HOST \<and> m_sopAt m = sop \<and> length (m_bytes m) = MON_BYTES_SIZE + 2
   \<and> m_state m = (if j < 8 then MS_GET_PID else MS_GET_BYTES) \<and> m_needbits m = 8 - int (j mod 8)
   \<and> shifted_in (p ! (j div 8)) (j mod 8) (m_bits m)
   \<and> (8 \<le> j \<longrightarrow> pid = ucast (p ! 0) \<and> m_lastpid m = ucast (p ! 0) \<and> m_byte m = j div 8 - 1
        \<and> take (j div 8 - 1) (m_bytes m) = take (j div 8 - 1) (tl p))
   \<and> (\<exists>t. m_log m = L @ (if j < 8 then [] else pid_entry ll t (p ! 0))))"

lemma mon_symbol_in_packet:
  assumes "m_state m \<noteq> MS_IDLE" "m_line m AND 3 \<noteq> 0" "s < 4"
  shows "mon_symbol ll t (m\<lparr>m_driver := M_HOST, m_line := push_bit 2 (m_line m) OR s\<rparr>) pid
    = mon_bit ll t (m\<lparr>m_driver := M_HOST, m_line := push_bit 2 (m_line m) OR s\<rparr>) pid"
  using assms no_eop [OF assms(3,2)] by (simp add: mon_symbol_def)

lemma newbit_iff:
  assumes "s < 4" "m_line m1 = push_bit 2 l OR s"
  shows "(drop_bit 2 (m_line m1 AND 0xc) = m_line m1 AND 3) \<longleftrightarrow> l AND 3 = s"
  unfolding assms(2) last_symbol [OF assms(1)] by (rule refl)

lemma mon_bit_stuffed:
  assumes "m_line m1 = push_bit 2 l OR s" "s < 4" "l AND 3 \<noteq> s" "six_ones (m_rawbits m1)"
  shows "mon_bit ll t m1 pid = (m1\<lparr>m_rawbits := push_bit 1 (m_rawbits m1) OR of_bool False\<rparr>, pid)"
proof -
  have nb: "(drop_bit 2 (m_line m1 AND 0xc) = m_line m1 AND 3) \<longleftrightarrow> False"
    using newbit_iff [OF assms(2,1)] assms(3) by blast
  define r where "r = push_bit 1 (m_rawbits m1) OR of_bool False"
  have "r AND 0x7e = 0x7e" unfolding r_def using six_ones_stuffed [of "m_rawbits m1" False] assms(4) by blast
  then show ?thesis unfolding mon_bit_def Let_def nb r_def [symmetric] by (simp add: mon_data_bit_def)
qed

lemma mon_bit_data:
  assumes "m_line m1 = push_bit 2 l OR s" "s < 4" "l AND 3 = s \<longleftrightarrow> v" "\<not> six_ones (m_rawbits m1)"
  shows "mon_bit ll t m1 pid =
    (let m2 = m1\<lparr>m_rawbits := push_bit 1 (m_rawbits m1) OR of_bool v,
                m_bits := drop_bit 1 (m_bits m1) OR push_bit 7 (of_bool v), m_needbits := m_needbits m1 - 1\<rparr>
     in if m_needbits m2 \<noteq> 0 then (m2, pid) else mon_byte_done ll t m2 pid)"
proof -
  have nb: "(drop_bit 2 (m_line m1 AND 0xc) = m_line m1 AND 3) \<longleftrightarrow> v"
    using newbit_iff [OF assms(2,1)] assms(3) by blast
  define r where "r = push_bit 1 (m_rawbits m1) OR of_bool v"
  have "r AND 0x7e \<noteq> 0x7e" unfolding r_def using six_ones_stuffed [of "m_rawbits m1" v] assms(4) by blast
  then show ?thesis unfolding mon_bit_def Let_def nb r_def [symmetric] by (simp add: mon_data_bit_def Let_def)
qed

lemma reading_stuffed:
  assumes "reading ll L sop p j (m, pid)" "six_ones (m_rawbits m)" "m_line m AND 3 \<noteq> 0" "s < 4" "m_line m AND 3 \<noteq> s"
  shows "\<exists>m'. mon_symbol ll t (m\<lparr>m_driver := M_HOST, m_line := push_bit 2 (m_line m) OR s\<rparr>) pid = (m', pid)
    \<and> reading ll L sop p j (m', pid) \<and> m_line m' AND 3 = s \<and> m_rawbits m' = push_bit 1 (m_rawbits m) OR of_bool False"
proof -
  let ?m1 = "m\<lparr>m_driver := M_HOST, m_line := push_bit 2 (m_line m) OR s\<rparr>"
  have "m_state m \<noteq> MS_IDLE" using assms(1) by (auto simp: reading_def)
  then have "mon_symbol ll t ?m1 pid = (?m1\<lparr>m_rawbits := push_bit 1 (m_rawbits m) OR of_bool False\<rparr>, pid)"
    using mon_symbol_in_packet [OF _ assms(3,4)] mon_bit_stuffed [of ?m1 "m_line m" s] assms(2,4,5) by simp
  then show ?thesis using assms(1,4) by (auto simp: reading_def last_symbol)
qed

lemma byte_boundary:
  fixes j :: nat
  shows "j mod 8 \<noteq> 7 \<Longrightarrow> Suc j div 8 = j div 8 \<and> Suc j mod 8 = Suc (j mod 8) \<and> (Suc j < 8 \<longleftrightarrow> j < 8) \<and> (8 \<le> Suc j \<longleftrightarrow> 8 \<le> j)"
    and "j mod 8 = 7 \<Longrightarrow> Suc j div 8 = Suc (j div 8) \<and> Suc j mod 8 = 0 \<and> 8 \<le> Suc j"
proof -
  have 7: "j = 7 \<Longrightarrow> j mod 8 = 7" by simp
  show "Suc j div 8 = j div 8 \<and> Suc j mod 8 = Suc (j mod 8) \<and> (Suc j < 8 \<longleftrightarrow> j < 8) \<and> (8 \<le> Suc j \<longleftrightarrow> 8 \<le> j)"
    if "j mod 8 \<noteq> 7"
    using that 7 by (cases "j = 7") (auto simp: mod_Suc div_Suc)
  show "Suc j div 8 = Suc (j div 8) \<and> Suc j mod 8 = 0 \<and> 8 \<le> Suc j" if "j mod 8 = 7"
    using that mod_less_eq_dividend [of j 8] by (simp add: mod_Suc div_Suc)
qed

lemma no_bit8: "8 \<le> i \<Longrightarrow> \<not> bit (b :: u8) i"
  by (auto dest: bit_imp_le_length)

text \<open>The eighth bit of a byte.\<close>

lemma reading_byte:
  assumes "reading ll L sop p j (m, pid)" "j mod 8 = 7" "j < 8 * length p" "length p \<le> 1000" "pid_accepted (p ! 0)"
    and "m' = m\<lparr>m_driver := M_HOST, m_line := l, m_rawbits := r, m_bits := ucast (p ! (j div 8)), m_needbits := 0\<rparr>"
  shows "reading ll L sop p (Suc j) (mon_byte_done ll t m' pid)
    \<and> m_line (fst (mon_byte_done ll t m' pid)) = l \<and> m_rawbits (fst (mon_byte_done ll t m' pid)) = r"
proof (cases "j < 8")
  case True
  then have "j = 7" using assms(2) by presburger
  then show ?thesis using assms(1,4,5)
    by (auto simp: reading_def assms(6) mon_byte_done_def Let_def pid_accepted_def pid_entry_def shifted_in_def bit_ucast_iff
        dest: no_bit8)
next
  case False
  have b: "Suc j div 8 = Suc (j div 8)" "Suc j mod 8 = 0" using byte_boundary(2) [OF assms(2)] by auto
  define n where "n = j div 8 - 1"
  have n: "j div 8 = Suc n" "Suc n < length p" "n < MON_BYTES_SIZE"
    using False assms(2-4) by (auto simp: n_def MON_BYTES_SIZE_def)
  have low: "ucast (ucast (p ! Suc n) AND (0xff :: u32)) = p ! Suc n"
  proof -
    have "(0xff :: u32) = mask 8" by (simp add: mask_eq_exp_minus_1)
    then show ?thesis by (auto simp: bit_eq_iff bit_simps dest: bit_imp_le_length)
  qed
  have st: "m_state m = MS_GET_BYTES" "m_byte m = n" "length (m_bytes m) = MON_BYTES_SIZE + 2"
    "take n (m_bytes m) = take n (tl p)"
    using assms(1) False n(1) by (auto simp: reading_def)
  have "take (Suc n) ((m_bytes m)[n := p ! Suc n]) = take (Suc n) (tl p)"
    using n st(3,4) by (simp add: take_Suc_conv_app_nth nth_tl)
  then show ?thesis using assms(1) False n b st
    by (auto simp: reading_def assms(6) mon_byte_done_def low shifted_in_def bit_ucast_iff dest: no_bit8)
qed

lemma reading_data:
  assumes "reading ll L sop p j (m, pid)" "\<not> six_ones (m_rawbits m)" "m_line m AND 3 \<noteq> 0" "s < 4"
    and "m_line m AND 3 = s \<longleftrightarrow> bit (p ! (j div 8)) (j mod 8)"
    and "j < 8 * length p" "length p \<le> 1000" "pid_accepted (p ! 0)"
  shows "\<exists>m' pid'. mon_symbol ll t (m\<lparr>m_driver := M_HOST, m_line := push_bit 2 (m_line m) OR s\<rparr>) pid = (m', pid')
    \<and> reading ll L sop p (Suc j) (m', pid') \<and> m_line m' AND 3 = s
    \<and> m_rawbits m' = push_bit 1 (m_rawbits m) OR of_bool (bit (p ! (j div 8)) (j mod 8))"
proof -
  let ?v = "bit (p ! (j div 8)) (j mod 8)"
  let ?m1 = "m\<lparr>m_driver := M_HOST, m_line := push_bit 2 (m_line m) OR s\<rparr>"
  define r where "r = push_bit 1 (m_rawbits m) OR of_bool ?v"
  let ?m2 = "?m1\<lparr>m_rawbits := r, m_bits := drop_bit 1 (m_bits m) OR push_bit 7 (of_bool ?v), m_needbits := m_needbits m - 1\<rparr>"
  have "m_state m \<noteq> MS_IDLE" using assms(1) by (auto simp: reading_def)
  then have eq: "mon_symbol ll t ?m1 pid = (if m_needbits m - 1 \<noteq> 0 then (?m2, pid) else mon_byte_done ll t ?m2 pid)"
    using mon_symbol_in_packet [OF _ assms(3,4)] mon_bit_data [of ?m1 "m_line m" s ?v] assms(2,4,5)
    by (simp add: Let_def r_def del: push_bit_of_1)
  have bits: "shifted_in (p ! (j div 8)) (Suc (j mod 8)) (m_bits ?m2)"
    using assms(1) shifted_in_step [of "p ! (j div 8)" "j mod 8"] by (simp add: reading_def)
  have need: "m_needbits m = 8 - int (j mod 8)" using assms(1) by (simp add: reading_def)
  show ?thesis
  proof (cases "j mod 8 = 7")
    case True
    then have "m_bits ?m2 = ucast (p ! (j div 8))" using shifted_in_8 bits by simp
    then have m2: "?m2 = m\<lparr>m_driver := M_HOST, m_line := push_bit 2 (m_line m) OR s, m_rawbits := r,
        m_bits := ucast (p ! (j div 8)), m_needbits := 0\<rparr>" using need True by simp
    show ?thesis unfolding r_def [symmetric] using eq need True reading_byte [OF assms(1) True assms(6-8) m2, of t] last_symbol(1) [OF assms(4)]
      by (cases "mon_byte_done ll t ?m2 pid") simp
  next
    case False
    then have "reading ll L sop p (Suc j) (?m2, pid)"
      using assms(1) bits byte_boundary(1) [OF False] by (simp add: reading_def)
    then show ?thesis unfolding r_def [symmetric] using eq need False last_symbol(1) [OF assms(4)] by simp
  qed
qed

section \<open>Bit times of the host\<close>

text \<open>Four ticks, the last of which changes the lines.\<close>

definition host_bit :: "u32 \<Rightarrow> usbdpi_ctx \<Rightarrow> usbdpi_ctx" where
  "host_bit d2p c = (usbdpi_host_to_device d2p ^^ 4) c"

text \<open>The device is attached and does not drive the lines.\<close>

definition quiet :: "u32 \<Rightarrow> bool" where
  "quiet d2p \<longleftrightarrow> \<not> device_drives d2p \<and> has d2p D2P_PU"

definition between_bits :: "usbdpi_ctx \<Rightarrow> bool" where
  "between_bits c \<longleftrightarrow> u_tick c mod 4 = 0 \<and> u_recovery_time c \<le> u_tick c"

text \<open>What a transmission leaves alone, and what the monitor makes of the symbol that is on the lines.\<close>

definition same_job :: "usbdpi_ctx \<Rightarrow> usbdpi_ctx \<Rightarrow> bool" where
  "same_job c0 c \<longleftrightarrow> between_bits c \<and> u_data c = u_data c0 \<and> u_bytes c = u_bytes c0 \<and> u_datastart c = u_datastart c0
     \<and> u_loglevel c = u_loglevel c0"

definition pending :: "u32 \<Rightarrow> usbdpi_ctx \<Rightarrow> mon_ctx \<times> u32" where
  "pending d2p c = mon_symbol (u_loglevel c) (u_tick c + 4)
     ((u_mon c)\<lparr>m_driver := M_HOST, m_line := push_bit 2 (m_line (u_mon c)) OR wire d2p (u_driving c)\<rparr>) (u_lastrxpid c)"

lemma between_ticks:
  assumes "u_tick c mod 4 = 0"
  shows "(usbdpi_host_to_device d2p ^^ 3) c = c\<lparr>u_tick := u_tick c + 3, u_tick_bits := (u_tick c + 3) div 4\<rparr>"
proof -
  have "(u_tick c + 1) mod 4 \<noteq> 0" "(u_tick c + 2) mod 4 \<noteq> 0" "(u_tick c + 3) mod 4 \<noteq> 0"
    using assms by presburger+
  then show ?thesis by (simp add: numeral_3_eq_3 usbdpi_host_to_device_def add.assoc)
qed

lemma bit_log_fields [simp]:
  "u_mon (bit_log d s c) = u_mon c" "u_lastrxpid (bit_log d s c) = u_lastrxpid c" "u_state (bit_log d s c) = u_state c"
  "u_driving (bit_log d s c) = u_driving c" "u_bit (bit_log d s c) = u_bit c" "u_byte (bit_log d s c) = u_byte c"
  "u_linebits (bit_log d s c) = u_linebits c" "u_tick (bit_log d s c) = u_tick c" "u_data (bit_log d s c) = u_data c"
  "u_bytes (bit_log d s c) = u_bytes c" "u_datastart (bit_log d s c) = u_datastart c"
  "u_loglevel (bit_log d s c) = u_loglevel c" "u_recovery_time (bit_log d s c) = u_recovery_time c"
  by (simp_all add: bit_log_def)

lemma host_bit_step:
  assumes "quiet d2p" "same_job c0 c" "u_state c \<noteq> ST_IDLE" "u_state c \<noteq> ST_GET"
  shows "\<exists>c1. host_bit d2p c = bit_log (u_driving c) (u_state c) (host_drive d2p c1) \<and> same_job c0 c1
    \<and> (u_mon c1, u_lastrxpid c1) = pending d2p c \<and> wire d2p (u_driving c1) = wire d2p (u_driving c)
    \<and> u_state c1 = u_state c \<and> u_bit c1 = u_bit c \<and> u_byte c1 = u_byte c \<and> u_linebits c1 = u_linebits c"
proof -
  have b: "u_tick c mod 4 = 0" "u_recovery_time c \<le> u_tick c" "(u_tick c + 4) mod 4 = 0"
    using assms(2) by (simp_all add: same_job_def between_bits_def)
  have q: "\<not> device_drives d2p" "has d2p D2P_PU" using assms(1) by (simp_all add: quiet_def)
  let ?tb = "(u_tick c + 4) div 4"
  define d where "d = (if ?tb = SENSE_AT then u_driving c OR P2D_SENSE else u_driving c)"
  define fp where "fp = (if ?tb - u_lastframe c \<ge> FRAME_INTERVAL then 1 else u_framepend c)"
  define c1 where "c1 = c\<lparr>u_tick := u_tick c + 4, u_tick_bits := ?tb, u_mon := fst (pending d2p c),
      u_lastrxpid := snd (pending d2p c), u_driving := d, u_framepend := fp\<rparr>"
  have four: "host_bit d2p c = usbdpi_host_to_device d2p ((usbdpi_host_to_device d2p ^^ 3) c)"
    by (simp add: host_bit_def numeral_eq_Suc)
  have "host_bit d2p c = bit_log (u_driving c) (u_state c) (host_drive d2p c1)"
    unfolding four between_ticks [OF b(1)] using assms(3,4) b q
    by (simp add: usbdpi_host_to_device_def call_monitor_def monitor_hosted host_frame_def pending_def c1_def d_def fp_def
        split_beta add.assoc)
  moreover have "wire d2p d = wire d2p (u_driving c)" by (simp add: d_def wire_sense)
  moreover have "same_job c0 c1" using assms(2) b by (simp add: same_job_def between_bits_def c1_def)
  ultimately show ?thesis by (intro exI [of _ c1]) (simp add: c1_def)
qed

end
