(* ===== verification/UsbLink.thy ===== *)
theory UsbLink
  imports UsbWire
begin

text \<open>
  The lockstep run of host and monitor through the phases of a packet: sync pattern, bits with stuffing,
  end of packet; then whole transmissions.
\<close>

unbundle bit_operations_syntax

definition reaches :: "u32 \<Rightarrow> usbdpi_ctx \<Rightarrow> (usbdpi_ctx \<Rightarrow> bool) \<Rightarrow> bool" where
  "reaches d2p c P \<longleftrightarrow> (\<exists>n. P ((host_bit d2p ^^ n) c))"

lemma reaches_now: "P c \<Longrightarrow> reaches d2p c P"
  unfolding reaches_def by (intro exI [of _ 0]) simp

lemma reaches_step: "reaches d2p (host_bit d2p c) P \<Longrightarrow> reaches d2p c P"
  unfolding reaches_def by (metis funpow_Suc_right comp_apply)

lemma reaches_trans: "reaches d2p c P \<Longrightarrow> (\<And>c'. P c' \<Longrightarrow> reaches d2p c' Q) \<Longrightarrow> reaches d2p c Q"
  unfolding reaches_def by (metis funpow_add comp_apply)

lemma same_job_bit_log [simp]: "same_job c0 (bit_log d st c) \<longleftrightarrow> same_job c0 c"
  by (simp add: same_job_def between_bits_def)

section \<open>Sync pattern\<close>

definition sync_symbol :: "nat \<Rightarrow> u32" where
  "sync_symbol i = (if i = 1 \<or> i = 3 \<or> i = 5 then 2 else 1)"

lemma below_8:
  "i < 8 \<Longrightarrow> i = 0 \<or> i = 1 \<or> i = 2 \<or> i = 3 \<or> i = 4 \<or> i = 5 \<or> i = 6 \<or> i = (7 :: nat)"
  by presburger

lemma sync_bits: "i < 8 \<Longrightarrow> has USB_SYNC (2 ^ i) \<longleftrightarrow> i = 1 \<or> i = 3 \<or> i = 5"
  by (drule below_8) (elim disjE; simp add: has_def USB_SYNC_def)

lemma power_wrap:
  "i < 8 \<Longrightarrow> push_bit 1 (2 ^ i :: u32) = 2 ^ Suc i" "i < 8 \<Longrightarrow> (2 ^ Suc i :: u32) = 0x100 \<longleftrightarrow> i = 7"
  by (drule below_8, elim disjE; simp)+

lemma host_sync_step:
  assumes "u_state c = ST_SYNC" "u_bit c = 2 ^ i" "i < 8"
  shows "wire d2p (u_driving (host_drive d2p c)) = sync_symbol i"
    "u_state (host_drive d2p c) = (if i = 7 then ST_SEND else ST_SYNC)"
    "u_bit (host_drive d2p c) = (if i = 7 then 1 else 2 ^ Suc i)"
    "u_byte (host_drive d2p c) = u_byte c" "i = 7 \<Longrightarrow> u_linebits (host_drive d2p c) = 0"
    "u_mon (host_drive d2p c) = u_mon c" "u_lastrxpid (host_drive d2p c) = u_lastrxpid c"
    "same_job c0 c \<Longrightarrow> same_job c0 (host_drive d2p c)"
  using assms sync_bits [OF assms(3)] power_wrap [OF assms(3)]
  by (simp_all add: host_drive_def host_sync_def wire_set_driving sync_symbol_def same_job_def between_bits_def
      Let_def del: power_Suc)

text \<open>A monitor between packets, with what it carries over from the last one.\<close>

definition idle_mon :: "mon_entry list \<Rightarrow> mon_ctx \<Rightarrow> bool" where
  "idle_mon L m \<longleftrightarrow> m_state m = MS_IDLE \<and> m_log m = L \<and> \<not> bit (m_rawbits m) 2 \<and> (\<forall>i\<ge>8. \<not> bit (m_bits m) i)
     \<and> length (m_bytes m) = MON_BYTES_SIZE + 2"

definition sync_at :: "u32 \<Rightarrow> usbdpi_ctx \<Rightarrow> mon_entry list \<Rightarrow> int \<Rightarrow> nat \<Rightarrow> nat \<Rightarrow> u32 \<Rightarrow> usbdpi_ctx \<Rightarrow> bool" where
  "sync_at d2p c0 L b0 i k v c \<longleftrightarrow> same_job c0 c \<and> u_state c = ST_SYNC \<and> u_bit c = 2 ^ i \<and> u_byte c = b0
     \<and> idle_mon L (fst (pending d2p c)) \<and> m_line (fst (pending d2p c)) AND mask (2 * k) = v"

lemma wire_lt4: "sync_symbol i < 4"
  by (simp add: sync_symbol_def)

lemma line_low:
  fixes l v :: u32
  assumes "l AND mask (2 * k) = v" "n \<le> 2 * k" shows "l AND mask n = v AND mask n"
  unfolding assms(1) [symmetric] using assms(2) by (auto intro!: bit_eqI simp: bit_simps)

lemma idle_no_sop:
  assumes "idle_mon L m" "m_line m AND mask (2 * k) = v" "2 \<le> k" "v AND 0xf \<noteq> 5"
  shows "mon_symbol ll t m pid = (m, pid)"
proof -
  have "(0xf :: u32) = mask 4" by (simp add: mask_eq_exp_minus_1)
  then have low: "m_line m AND 0xf \<noteq> 5" using line_low [OF assms(2), of 4] assms(3,4) by simp
  have "m_line m AND 0xfff \<noteq> 0x665"
  proof
    assume "m_line m AND 0xfff = 0x665"
    then have "(m_line m AND 0xfff) AND 0xf = 5" by simp
    then show False using low by (simp add: and.assoc)
  qed
  then show ?thesis using assms(1) by (simp add: mon_symbol_def idle_mon_def line_DK_def line_DJ_def)
qed

lemma sync_step:
  assumes "quiet d2p" "sync_at d2p c0 L b0 i k v c" "i < 7" "1 \<le> k" "v' = push_bit 2 v OR sync_symbol i" "v' AND 0xf \<noteq> 5"
  shows "sync_at d2p c0 L b0 (Suc i) (Suc k) v' (host_bit d2p c)"
proof -
  let ?c = "host_bit d2p c"
  have c: "same_job c0 c" "u_state c = ST_SYNC" "u_bit c = 2 ^ i" "u_byte c = b0" "idle_mon L (fst (pending d2p c))"
    "m_line (fst (pending d2p c)) AND mask (2 * k) = v" using assms(2) by (simp_all add: sync_at_def)
  obtain c1 where c1: "?c = bit_log (u_driving c) (u_state c) (host_drive d2p c1)" "same_job c0 c1"
    "(u_mon c1, u_lastrxpid c1) = pending d2p c" "u_state c1 = u_state c" "u_bit c1 = u_bit c" "u_byte c1 = u_byte c"
    using host_bit_step [OF assms(1) c(1)] c(2) by auto
  have i: "i < 8" "i \<noteq> 7" using assms(3) by auto
  note step = host_sync_step [OF c1(4)[unfolded c(2)] c1(5)[unfolded c(3)] i(1)]
  let ?m = "(fst (pending d2p c))\<lparr>m_driver := M_HOST,
      m_line := push_bit 2 (m_line (fst (pending d2p c))) OR sync_symbol i\<rparr>"
  have mon: "u_mon ?c = fst (pending d2p c)" "wire d2p (u_driving ?c) = sync_symbol i"
    using step(1,6) c1(1) arg_cong [OF c1(3), of fst] by simp_all
  have m: "idle_mon L ?m" "m_line ?m AND mask (2 * Suc k) = v'"
    using c(5) line_mask_step [OF c(6) wire_lt4] assms(5) by (simp_all add: idle_mon_def)
  have "pending d2p ?c = (?m, u_lastrxpid ?c)"
    unfolding pending_def [of d2p ?c] mon by (rule idle_no_sop [OF m _ assms(6)]) (use assms(4) in simp)
  then show ?thesis
    using m step(2,3,4,8) c1(1,2,6) c(4) i by (simp add: sync_at_def)
qed

section \<open>Bits\<close>

definition send_at :: "u32 \<Rightarrow> usbdpi_ctx \<Rightarrow> mon_entry list \<Rightarrow> int \<Rightarrow> u8 list \<Rightarrow> int \<Rightarrow> nat \<Rightarrow> bus_state \<Rightarrow> usbdpi_ctx \<Rightarrow> bool" where
  "send_at d2p c0 L sop p b0 j st c \<longleftrightarrow> same_job c0 c \<and> u_state c = st \<and> u_byte c = b0 + int (j div 8)
     \<and> u_bit c = 2 ^ (j mod 8) \<and> (wire d2p (u_driving c) = 1 \<or> wire d2p (u_driving c) = 2)
     \<and> reading (u_loglevel c0) L sop p j (pending d2p c) \<and> m_line (fst (pending d2p c)) AND 3 = wire d2p (u_driving c)
     \<and> same_run (p ! 0) j (u_linebits c) (m_rawbits (fst (pending d2p c)))"

definition sop_entry :: "u32 \<Rightarrow> int \<Rightarrow> mon_entry list" where
  "sop_entry ll t = (if has ll 2 then [SopSeen t M_HOST] else [])"

lemma sync_last:
  assumes "quiet d2p" "sync_at d2p c0 L b0 7 k v c" "5 \<le> k" "(push_bit 2 v OR 1) AND 0xfff = 0x665"
  shows "\<exists>t. send_at d2p c0 (L @ sop_entry (u_loglevel c0) t) t p b0 0 ST_SEND (host_bit d2p c)"
proof -
  let ?c = "host_bit d2p c"
  have c: "same_job c0 c" "u_state c = ST_SYNC" "u_bit c = 2 ^ 7" "u_byte c = b0" "idle_mon L (fst (pending d2p c))"
    "m_line (fst (pending d2p c)) AND mask (2 * k) = v" using assms(2) by (simp_all add: sync_at_def)
  obtain c1 where c1: "?c = bit_log (u_driving c) (u_state c) (host_drive d2p c1)" "same_job c0 c1"
    "(u_mon c1, u_lastrxpid c1) = pending d2p c" "u_state c1 = u_state c" "u_bit c1 = u_bit c" "u_byte c1 = u_byte c"
    using host_bit_step [OF assms(1) c(1)] c(2) by auto
  have i: "7 < (8 :: nat)" by simp
  note step = host_sync_step [OF c1(4)[unfolded c(2)] c1(5)[unfolded c(3)] i]
  have mon: "u_mon ?c = fst (pending d2p c)" "wire d2p (u_driving ?c) = 1"
    using step(1,6) c1(1) arg_cong [OF c1(3), of fst] by (simp_all add: sync_symbol_def)
  have job: "same_job c0 ?c" using step(8) [OF c1(2)] c1(1) by (simp add: same_job_def between_bits_def)
  let ?m = "(fst (pending d2p c))\<lparr>m_driver := M_HOST, m_line := push_bit 2 (m_line (fst (pending d2p c))) OR 1\<rparr>"
  have "m_line ?m AND mask (2 * Suc k) = push_bit 2 v OR 1" using line_mask_step [OF c(6), of 1] by simp
  from line_low [OF this, of 12] have "m_line ?m AND 0xfff = 0x665"
    using assms(3,4) by (simp add: mask_eq_exp_minus_1)
  then have "pending d2p ?c = ((if has (u_loglevel ?c) 2 then mon_log [SopSeen (u_tick ?c + 4) M_HOST] ?m else ?m)
      \<lparr>m_sopAt := u_tick ?c + 4, m_state := MS_GET_PID, m_needbits := 8\<rparr>, u_lastrxpid ?c)"
    unfolding pending_def [of d2p ?c] mon using c(5) by (simp add: mon_symbol_def idle_mon_def line_DK_def line_DJ_def)
  then have "send_at d2p c0 (L @ sop_entry (u_loglevel c0) (u_tick ?c + 4)) (u_tick ?c + 4) p b0 0 ST_SEND ?c"
    using job c(4,5) step c1(1,6) last_symbol(1) [of 1 "m_line (fst (pending d2p c))"] mon
    by (auto simp: send_at_def reading_def idle_mon_def shifted_in_def sop_entry_def same_job_def same_run_start)
  then show ?thesis by blast
qed

lemma bit_of_byte: "i < 8 \<Longrightarrow> ucast (b :: u8) AND (2 ^ i :: u32) \<noteq> 0 \<longleftrightarrow> bit b i"
  using bit_iff_and_push_bit_not_eq_0 [of "ucast b :: u32" i] by (simp add: push_bit_eq_mult bit_ucast_iff)

lemma host_stuff_step:
  assumes "u_state c = ST_SEND" "six_ones (u_linebits c)"
  shows "host_drive d2p c = c\<lparr>u_driving := inv_driving c d2p, u_linebits := push_bit 1 (u_linebits c) OR of_bool False\<rparr>"
  using assms by (simp add: host_drive_def host_send_def six_ones_mask INSERT_ERR_BITSTUFF_def)

lemma host_data_step:
  assumes "u_state c = ST_SEND" "\<not> six_ones (u_linebits c)" "u_byte c < u_bytes c" "u_bit c = 2 ^ i" "i < 8"
    and "v = bit (u_data c ! nat (u_byte c)) i"
  shows "host_drive d2p c =
    (let d = (if v then u_driving c else inv_driving c d2p); lb = push_bit 1 (u_linebits c) OR of_bool v
     in if i = 7
        then c\<lparr>u_driving := d, u_linebits := lb, u_bit := 1, u_byte := u_byte c + 1,
               u_state := if u_byte c + 1 = u_datastart c then ST_EOP0 else ST_SEND\<rparr>
        else c\<lparr>u_driving := d, u_linebits := lb, u_bit := 2 ^ Suc i\<rparr>)"
proof -
  have nb: "(ucast (u_data c ! nat (u_byte c)) AND u_bit c \<noteq> 0) = v"
    unfolding assms(4,6) by (rule bit_of_byte [OF assms(5)])
  show ?thesis
    using assms(1-3) power_wrap [OF assms(5)] unfolding host_drive_def host_send_def six_ones_mask nb Let_def
    by (simp add: assms(4) del: power_Suc push_bit_of_1)
qed

lemma send_facts:
  assumes "quiet d2p" "send_at d2p c0 L sop p b0 j st c" "st \<noteq> ST_IDLE" "st \<noteq> ST_GET"
  obtains c1 m pid where "host_bit d2p c = bit_log (u_driving c) st (host_drive d2p c1)" "same_job c0 c1"
    "u_mon c1 = m" "u_lastrxpid c1 = pid" "pending d2p c = (m, pid)" "wire d2p (u_driving c1) = wire d2p (u_driving c)"
    "u_state c1 = st" "u_bit c1 = 2 ^ (j mod 8)" "u_byte c1 = b0 + int (j div 8)" "u_linebits c1 = u_linebits c"
    "reading (u_loglevel c0) L sop p j (m, pid)" "m_line m AND 3 = wire d2p (u_driving c)"
    "same_run (p ! 0) j (u_linebits c) (m_rawbits m)" "wire d2p (u_driving c) = 1 \<or> wire d2p (u_driving c) = 2"
proof -
  have c: "same_job c0 c" "u_state c = st" using assms(2) by (simp_all add: send_at_def)
  obtain c1 where c1: "host_bit d2p c = bit_log (u_driving c) (u_state c) (host_drive d2p c1)" "same_job c0 c1"
    "(u_mon c1, u_lastrxpid c1) = pending d2p c" "wire d2p (u_driving c1) = wire d2p (u_driving c)"
    "u_state c1 = u_state c" "u_bit c1 = u_bit c" "u_byte c1 = u_byte c" "u_linebits c1 = u_linebits c"
    using host_bit_step [OF assms(1) c(1)] assms(3,4) c(2) by blast
  then show thesis
    using assms(2) by (intro that [of c1 "u_mon c1" "u_lastrxpid c1"]) (simp_all add: send_at_def c(2) flip: c1(3))
qed

lemma send_stuffed:
  assumes "quiet d2p" "send_at d2p c0 L sop p b0 j ST_SEND c" "six_ones (u_linebits c)"
  shows "send_at d2p c0 L sop p b0 j ST_SEND (host_bit d2p c)" "\<not> six_ones (u_linebits (host_bit d2p c))"
proof -
  obtain c1 m pid where c1: "host_bit d2p c = bit_log (u_driving c) ST_SEND (host_drive d2p c1)" "same_job c0 c1"
    "u_mon c1 = m" "u_lastrxpid c1 = pid" "pending d2p c = (m, pid)" "wire d2p (u_driving c1) = wire d2p (u_driving c)"
    "u_state c1 = ST_SEND" "u_bit c1 = 2 ^ (j mod 8)" "u_byte c1 = b0 + int (j div 8)" "u_linebits c1 = u_linebits c"
    "reading (u_loglevel c0) L sop p j (m, pid)" "m_line m AND 3 = wire d2p (u_driving c)"
    "same_run (p ! 0) j (u_linebits c) (m_rawbits m)" "wire d2p (u_driving c) = 1 \<or> wire d2p (u_driving c) = 2"
    using send_facts [OF assms(1,2)] by blast
  let ?c = "host_bit d2p c"
  have c: "?c = bit_log (u_driving c) ST_SEND
      (c1\<lparr>u_driving := inv_driving c1 d2p, u_linebits := push_bit 1 (u_linebits c) OR of_bool False\<rparr>)"
    unfolding c1(1) host_stuff_step [OF c1(7), unfolded c1(10), OF assms(3)] ..
  have w: "wire d2p (u_driving ?c) \<noteq> wire d2p (u_driving c)" "wire d2p (u_driving ?c) < 4"
    "wire d2p (u_driving ?c) = 1 \<or> wire d2p (u_driving ?c) = 2"
    using wire_inv_driving [of d2p c1] c1(6,14) wire_range by (auto simp: c)
  have six: "six_ones (m_rawbits m)" using same_run_six [OF c1(13)] assms(3) by blast
  have "m_line m AND 3 \<noteq> 0" "m_line m AND 3 \<noteq> wire d2p (u_driving ?c)" using c1(12,14) w(1) by auto
  from reading_stuffed [OF c1(11) six this(1) w(2) this(2), of "u_tick ?c + 4"]
  obtain m' where m': "pending d2p ?c = (m', pid)" "reading (u_loglevel c0) L sop p j (m', pid)"
    "m_line m' AND 3 = wire d2p (u_driving ?c)" "m_rawbits m' = push_bit 1 (m_rawbits m) OR of_bool False"
    using c1(2-4) unfolding pending_def by (auto simp: c same_job_def)
  have lb: "u_linebits ?c = push_bit 1 (u_linebits c) OR of_bool False" by (simp add: c)
  have "same_run (p ! 0) j (u_linebits ?c) (m_rawbits m')"
    unfolding m'(4) lb using same_run_stuff by simp
  then show "send_at d2p c0 L sop p b0 j ST_SEND ?c"
    using m' w(3) c1(2,7-9) by (simp add: send_at_def c same_job_def between_bits_def)
  show "\<not> six_ones (u_linebits ?c)" unfolding lb six_ones_def bit_push1 by (auto intro: exI [of _ 0])
qed

text \<open>A packet that the monitor follows: its first byte is a PID that it accepts and does not begin with four ones.\<close>

definition good_packet :: "u8 list \<Rightarrow> bool" where
  "good_packet p \<longleftrightarrow> p \<noteq> [] \<and> length p \<le> 1000 \<and> pid_accepted (p ! 0) \<and> \<not> (\<forall>i<4. bit (p ! 0) i)"

text \<open>The bytes of \<open>p\<close> are what the host has to send from \<open>b0\<close> on, and no second packet starts among them.\<close>

definition sends :: "usbdpi_ctx \<Rightarrow> int \<Rightarrow> u8 list \<Rightarrow> bool" where
  "sends c0 b0 p \<longleftrightarrow> 0 \<le> b0 \<and> b0 + int (length p) \<le> u_bytes c0
     \<and> (\<forall>k<length p. u_data c0 ! nat (b0 + int k) = p ! k)
     \<and> (\<forall>k<length p. 0 < k \<longrightarrow> b0 + int k \<noteq> u_datastart c0)"

definition after_bit :: "usbdpi_ctx \<Rightarrow> int \<Rightarrow> u8 list \<Rightarrow> nat \<Rightarrow> bus_state" where
  "after_bit c0 b0 p j = (if j = 8 * length p \<and> b0 + int (length p) = u_datastart c0 then ST_EOP0 else ST_SEND)"

lemma send_data:
  assumes "quiet d2p" "send_at d2p c0 L sop p b0 j ST_SEND c" "\<not> six_ones (u_linebits c)"
    and "sends c0 b0 p" "j < 8 * length p" "good_packet p"
  shows "send_at d2p c0 L sop p b0 (Suc j) (after_bit c0 b0 p (Suc j)) (host_bit d2p c)"
proof -
  obtain c1 m pid where c1: "host_bit d2p c = bit_log (u_driving c) ST_SEND (host_drive d2p c1)" "same_job c0 c1"
    "u_mon c1 = m" "u_lastrxpid c1 = pid" "pending d2p c = (m, pid)" "wire d2p (u_driving c1) = wire d2p (u_driving c)"
    "u_state c1 = ST_SEND" "u_bit c1 = 2 ^ (j mod 8)" "u_byte c1 = b0 + int (j div 8)" "u_linebits c1 = u_linebits c"
    "reading (u_loglevel c0) L sop p j (m, pid)" "m_line m AND 3 = wire d2p (u_driving c)"
    "same_run (p ! 0) j (u_linebits c) (m_rawbits m)" "wire d2p (u_driving c) = 1 \<or> wire d2p (u_driving c) = 2"
    using send_facts [OF assms(1,2)] by blast
  let ?c = "host_bit d2p c" and ?v = "bit (p ! (j div 8)) (j mod 8)"
  have j: "j div 8 < length p" using assms(5) by auto
  have byte: "u_byte c1 < u_bytes c1" "u_data c1 ! nat (u_byte c1) = p ! (j div 8)"
    using assms(4) j c1(2,9) by (auto simp: sends_def same_job_def)
  define d where "d = (if ?v then u_driving c1 else inv_driving c1 d2p)"
  define lb where "lb = push_bit 1 (u_linebits c) OR of_bool ?v"
  have ds: "u_datastart c1 = u_datastart c0" using c1(2) by (simp add: same_job_def)
  have next_st: "(if j mod 8 = 7 \<and> u_byte c1 + 1 = u_datastart c1 then ST_EOP0 else ST_SEND) = after_bit c0 b0 p (Suc j)"
  proof (cases "j mod 8 = 7")
    case True
    have "Suc j = 8 * Suc (j div 8)" using True by presburger
    moreover have "b0 + int (Suc (j div 8)) \<noteq> u_datastart c0 \<or> Suc (j div 8) = length p"
      using assms(4) j unfolding sends_def by (metis Suc_lessI zero_less_Suc)
    ultimately show ?thesis using True c1(9) by (auto simp: after_bit_def ds)
  next
    case False
    then have "Suc j \<noteq> 8 * length p" by presburger
    then show ?thesis using False by (simp add: after_bit_def)
  qed
  define h where "h = host_drive d2p c1"
  note heq = host_data_step [OF c1(7) _ byte(1) c1(8) _ refl, unfolded c1(10), OF assms(3)]
  have h: "u_driving h = d" "u_linebits h = lb" "u_mon h = m" "u_lastrxpid h = pid" "same_job c0 h"
    "u_state h = after_bit c0 b0 p (Suc j)" "u_bit h = 2 ^ (Suc j mod 8)" "u_byte h = b0 + int (Suc j div 8)"
    unfolding h_def heq [OF mod_less_divisor, of d2p, simplified] byte(2)
    using c1(2-4,9) next_st byte_boundary [of j]
    by (cases "j mod 8 = 7"; simp add: Let_def d_def lb_def same_job_def between_bits_def c1(7) del: push_bit_of_1 power_Suc)+
  have c: "?c = bit_log (u_driving c) ST_SEND h" by (simp add: c1(1) h_def)
  have w: "wire d2p (u_driving ?c) < 4" "wire d2p (u_driving ?c) = 1 \<or> wire d2p (u_driving ?c) = 2"
    "wire d2p (u_driving c) = wire d2p (u_driving ?c) \<longleftrightarrow> ?v"
    using wire_inv_driving [of d2p c1] c1(6,14) wire_range by (auto simp: c h(1) d_def)
  have six: "\<not> six_ones (m_rawbits m)" using same_run_six [OF c1(13)] assms(3) by blast
  have good: "length p \<le> 1000" "pid_accepted (p ! 0)" "\<not> (\<forall>i<4. bit (p ! 0) i)"
    using assms(6) by (simp_all add: good_packet_def)
  have "m_line m AND 3 \<noteq> 0" "m_line m AND 3 = wire d2p (u_driving ?c) \<longleftrightarrow> ?v" using c1(12,14) w(3) by auto
  from reading_data [OF c1(11) six this(1) w(1) this(2) assms(5) good(1,2), of "u_tick ?c + 4"]
  obtain m' pid' where m': "pending d2p ?c = (m', pid')" "reading (u_loglevel c0) L sop p (Suc j) (m', pid')"
    "m_line m' AND 3 = wire d2p (u_driving ?c)" "m_rawbits m' = push_bit 1 (m_rawbits m) OR of_bool ?v"
    using h(5) unfolding pending_def by (auto simp: c h(3,4) same_job_def)
  have lb: "u_linebits ?c = push_bit 1 (u_linebits c) OR of_bool ?v" by (simp add: c h(2) lb_def)
  have "same_run (p ! 0) (Suc j) (u_linebits ?c) (m_rawbits m')"
    unfolding m'(4) lb by (rule same_run_push [OF c1(13) good(3)]) simp
  then show ?thesis using m' w(2) h by (simp add: send_at_def c)
qed

lemma send_bits:
  assumes "quiet d2p" "sends c0 b0 p" "good_packet p" "j \<le> 8 * length p"
    and "send_at d2p c0 L sop p b0 0 ST_SEND c"
  shows "reaches d2p c (\<lambda>c'. send_at d2p c0 L sop p b0 j (after_bit c0 b0 p j) c')"
  using assms(4)
proof (induction j)
  case 0
  have "after_bit c0 b0 p 0 = ST_SEND" using assms(3) by (simp add: after_bit_def good_packet_def)
  then show ?case using assms(5) by (simp add: reaches_now)
next
  case (Suc j)
  have st: "after_bit c0 b0 p j = ST_SEND" using Suc.prems by (simp add: after_bit_def)
  have one: "reaches d2p c' (send_at d2p c0 L sop p b0 (Suc j) (after_bit c0 b0 p (Suc j)))"
    if "send_at d2p c0 L sop p b0 j ST_SEND c'" "\<not> six_ones (u_linebits c')" for c'
    using send_data [OF assms(1) that assms(2) _ assms(3)] Suc.prems by (auto intro: reaches_step reaches_now)
  show ?case
  proof (rule reaches_trans [OF Suc.IH])
    fix c' assume c': "send_at d2p c0 L sop p b0 j (after_bit c0 b0 p j) c'"
    then show "reaches d2p c' (\<lambda>c'. send_at d2p c0 L sop p b0 (Suc j) (after_bit c0 b0 p (Suc j)) c')"
      using one send_stuffed [OF assms(1)] unfolding st by (cases "six_ones (u_linebits c')") (blast intro: reaches_step)+
  qed (use Suc.prems in simp)
qed

section \<open>End of packet\<close>

text \<open>The monitor has the whole packet \<open>p\<close> and has seen \<open>n\<close> symbols SE0 after it.\<close>

definition ending :: "u32 \<Rightarrow> mon_entry list \<Rightarrow> int \<Rightarrow> u8 list \<Rightarrow> nat \<Rightarrow> mon_ctx \<times> u32 \<Rightarrow> bool" where
  "ending ll L sop p n r \<longleftrightarrow> (case r of (m, pid) \<Rightarrow>
     m_driver m = M_HOST \<and> m_sopAt m = sop \<and> length (m_bytes m) = MON_BYTES_SIZE + 2 \<and> m_state m = MS_GET_BYTES
   \<and> 8 - int n \<le> m_needbits m \<and> (\<forall>i\<ge>8. \<not> bit (m_bits m) i) \<and> pid = ucast (p ! 0) \<and> m_lastpid m = ucast (p ! 0)
   \<and> m_byte m = length p - 1 \<and> take (length p - 1) (m_bytes m) = tl p \<and> (\<exists>t. m_log m = L @ pid_entry ll t (p ! 0))
   \<and> (if n = 0 then m_line m AND 3 \<noteq> 0 else \<not> bit (m_rawbits m) (n - 1) \<and> m_line m AND mask (2 * n) = 0))"

lemma reading_ending:
  assumes "reading ll L sop p (8 * length p) r" "p \<noteq> []" "m_line (fst r) AND 3 \<noteq> 0"
  shows "ending ll L sop p 0 r"
  using assms by (cases r) (auto simp: reading_def ending_def shifted_in_def Suc_le_eq)

lemma ending_se0:
  assumes "ending ll L sop p n (m, pid)" "n < 3"
  shows "ending ll L sop p (Suc n)
    (mon_symbol ll t (m\<lparr>m_driver := M_HOST, m_line := push_bit 2 (m_line m) OR 0\<rparr>) pid)"
proof -
  let ?m1 = "m\<lparr>m_driver := M_HOST, m_line := push_bit 2 (m_line m) OR 0\<rparr>"
  have st: "m_state m = MS_GET_BYTES" using assms(1) by (simp add: ending_def)
  have "m_line ?m1 AND 0x3f \<noteq> push_bit 4 line_SE0 OR push_bit 2 line_SE0 OR line_DJ"
  proof
    assume "m_line ?m1 AND 0x3f = push_bit 4 line_SE0 OR push_bit 2 line_SE0 OR line_DJ"
    then have "(m_line ?m1 AND 0x3f) AND 3 = 2" by (simp add: line_SE0_def line_DJ_def)
    moreover have "(m_line ?m1 AND 0x3f) AND 3 = m_line ?m1 AND 3" by (simp add: and.assoc)
    moreover have "m_line ?m1 AND 3 = 0" using last_symbol(1) [of 0 "m_line m"] by simp
    ultimately show False by simp
  qed
  then have sym: "mon_symbol ll t ?m1 pid = mon_bit ll t ?m1 pid" using st by (simp add: mon_symbol_def)
  define v where "v \<longleftrightarrow> m_line m AND 3 = 0"
  have v: "v \<longleftrightarrow> n \<noteq> 0"
  proof (cases "n = 0")
    case False
    then have "m_line m AND mask (2 * n) = 0" using assms(1) by (simp add: ending_def)
    from line_low [OF this, of 2] show ?thesis using False by (simp add: v_def mask_eq_exp_minus_1)
  qed (use assms(1) in \<open>simp add: v_def ending_def\<close>)
  have line: "m_line ?m1 AND mask (2 * Suc n) = 0"
  proof (cases "n = 0")
    case True then show ?thesis using last_symbol(1) [of 0 "m_line m"] by (simp add: mask_eq_exp_minus_1)
  next
    case False
    then have "m_line m AND mask (2 * n) = 0" using assms(1) by (simp add: ending_def)
    from line_mask_step [OF this, of 0] show ?thesis by simp
  qed
  have raw: "\<not> bit (push_bit 1 (m_rawbits m) OR of_bool v) n"
    unfolding bit_push1 using v assms(1) by (auto simp: ending_def)
  show ?thesis
  proof (cases "six_ones (m_rawbits m)")
    case True
    then have "n = 0" using assms by (auto simp: ending_def six_ones_def split: if_splits)
    then have "\<not> v" using v by simp
    then have "mon_symbol ll t ?m1 pid = (?m1\<lparr>m_rawbits := push_bit 1 (m_rawbits m) OR of_bool False\<rparr>, pid)"
      unfolding sym using mon_bit_stuffed [of ?m1 "m_line m" 0] True by (simp add: v_def)
    then show ?thesis using assms(1) raw line \<open>\<not> v\<close> \<open>n = 0\<close> by (auto simp: ending_def)
  next
    case False
    have need: "m_needbits m - 1 \<noteq> 0" "8 - int (Suc n) \<le> m_needbits m - 1" using assms by (auto simp: ending_def)
    have "mon_symbol ll t ?m1 pid = (?m1\<lparr>m_rawbits := push_bit 1 (m_rawbits m) OR of_bool v,
        m_bits := drop_bit 1 (m_bits m) OR push_bit 7 (of_bool v), m_needbits := m_needbits m - 1\<rparr>, pid)"
      unfolding sym using mon_bit_data [of ?m1 "m_line m" 0 v] False need(1) by (simp add: v_def)
    moreover have "\<forall>i\<ge>8. \<not> bit (drop_bit 1 (m_bits m) OR push_bit 7 (of_bool v)) i"
      using assms(1) by (auto simp: ending_def bit_or_iff bit_drop_bit_eq bit_push_bit_iff bit_1_iff)
    ultimately show ?thesis using assms(1) raw line need(2) by (auto simp: ending_def)
  qed
qed

text \<open>Everything the monitor logs of a packet.\<close>

definition packet_log :: "u32 \<Rightarrow> int \<Rightarrow> int \<Rightarrow> int \<Rightarrow> u8 list \<Rightarrow> mon_entry list" where
  "packet_log ll t0 t1 t2 p =
     sop_entry ll t0 @ pid_entry ll t1 (p ! 0)
   @ (if (has ll 2 \<or> has ll 1) \<and> 1 < length p
      then packet_report ll t0 t2 M_HOST (ucast (p ! 0)) (length p - 1) (tl p)
      else if has ll 1 then [PacketPid t0 t2 M_HOST (pid_name (ucast (p ! 0)))] else [])
   @ (if has ll 2 then [EopSeen t2 M_HOST] else [])"

lemma packet_report_take:
  assumes "0 < n" "n \<le> length bs"
  shows "packet_report ll sop t drv pid n (take n bs) = packet_report ll sop t drv pid n bs"
proof -
  have "byte_at (take n bs) i = byte_at bs i" if "i < int n" for i using that by (auto simp: byte_at_def)
  moreover have "CRC16 (take n bs) (int n - 2) = CRC16 bs (int n - 2)"
  proof -
    have "nat (int n - 2) \<le> n" by simp
    then show ?thesis by (simp add: CRC16_def min_absorb1)
  qed
  moreover have "take (n - 2) (take n bs) = take (n - 2) bs" by simp
  ultimately show ?thesis using assms by (auto simp: packet_report_def packet_data_def Let_def)
qed

lemma mangled_length [simp]: "length (mangled n bs) = length bs"
  by (simp add: mangled_def)

lemma ending_eop:
  assumes "ending ll (L @ sop_entry ll sop) sop p 3 (m, pid)" "p \<noteq> []" "length p \<le> 1000"
  shows "\<exists>m' t1. mon_symbol ll t (m\<lparr>m_driver := M_HOST, m_line := push_bit 2 (m_line m) OR 2\<rparr>) pid = (m', pid)
    \<and> idle_mon (L @ packet_log ll sop t1 t p) m' \<and> m_line m' AND 3 = 2"
proof -
  let ?m1 = "m\<lparr>m_driver := M_HOST, m_line := push_bit 2 (m_line m) OR 2\<rparr>"
  obtain t1 where t1: "m_log m = L @ sop_entry ll sop @ pid_entry ll t1 (p ! 0)"
    using assms(1) by (auto simp: ending_def)
  have st: "m_state m = MS_GET_BYTES" "m_sopAt m = sop" "m_byte m = length p - 1" "m_lastpid m = ucast (p ! 0)"
    "take (length p - 1) (m_bytes m) = tl p" "length (m_bytes m) = MON_BYTES_SIZE + 2" "\<not> bit (m_rawbits m) 2"
    "\<forall>i\<ge>8. \<not> bit (m_bits m) i" "m_line m AND mask 6 = 0"
    using assms(1) by (auto simp: ending_def)
  have "m_line m AND 0xf = 0"
    using line_low [of "m_line m" 3 0 4] st(9) by (simp add: mask_eq_exp_minus_1)
  then have "m_line ?m1 AND 0x3f = push_bit 4 line_SE0 OR push_bit 2 line_SE0 OR line_DJ"
    using last_symbol(3) [of 2 "m_line m"] by (simp add: line_SE0_def line_DJ_def)
  then have sym: "mon_symbol ll t ?m1 pid = (mon_eop ll t ?m1, pid)" using st(1) by (simp add: mon_symbol_def)
  have report: "packet_report ll sop t M_HOST (ucast (p ! 0)) (length p - 1) (m_bytes m)
      = packet_report ll sop t M_HOST (ucast (p ! 0)) (length p - 1) (tl p)" if "1 < length p"
    using packet_report_take [of "length p - 1" "m_bytes m" ll sop t M_HOST "ucast (p ! 0)"] that assms(3) st(5,6)
    by (simp add: MON_BYTES_SIZE_def)
  have "idle_mon (L @ packet_log ll sop t1 t p) (mon_eop ll t ?m1)"
    using st t1 report by (cases "1 < length p") (simp_all add: idle_mon_def mon_eop_def packet_log_def Let_def)
  moreover have "m_line (mon_eop ll t ?m1) AND 3 = 2"
    using last_symbol(1) [of 2 "m_line m"] by (simp add: mon_eop_def Let_def)
  ultimately show ?thesis using sym by blast
qed

text \<open>The host drives SE0 for the \<open>n\<close>-th time.\<close>

definition eop_at :: "u32 \<Rightarrow> usbdpi_ctx \<Rightarrow> mon_entry list \<Rightarrow> int \<Rightarrow> u8 list \<Rightarrow> int \<Rightarrow> nat \<Rightarrow> usbdpi_ctx \<Rightarrow> bool" where
  "eop_at d2p c0 L sop p b1 n c \<longleftrightarrow> same_job c0 c \<and> u_state c = ST_EOP \<and> u_bit c = 2 ^ (n - 1) \<and> u_byte c = b1
     \<and> wire d2p (u_driving c) = 0 \<and> ending (u_loglevel c0) L sop p n (pending d2p c)"

lemma se0_after:
  assumes "same_job c0 c'" "wire d2p (u_driving c') = 0" "ending (u_loglevel c0) L sop p n (u_mon c', u_lastrxpid c')" "n < 3"
  shows "ending (u_loglevel c0) L sop p (Suc n) (pending d2p c')"
  using ending_se0 [OF assms(3,4)] assms(1,2) by (simp add: pending_def same_job_def)

lemma send_to_eop:
  assumes "quiet d2p" "send_at d2p c0 L sop p b0 (8 * length p) (after_bit c0 b0 p (8 * length p)) c" "p \<noteq> []"
    and "b0 + int (length p) = u_bytes c0 \<or> b0 + int (length p) = u_datastart c0"
  shows "reaches d2p c (eop_at d2p c0 L sop p (b0 + int (length p)) 1)"
proof -
  define st where "st = after_bit c0 b0 p (8 * length p)"
  have step: "eop_at d2p c0 L sop p (b0 + int (length p)) 1 (host_bit d2p c')"
    if "send_at d2p c0 L sop p b0 (8 * length p) st c'" "st = ST_SEND \<longrightarrow> \<not> six_ones (u_linebits c')" for c'
  proof -
    note hyp = that
    have ns: "st \<noteq> ST_IDLE" "st \<noteq> ST_GET" by (simp_all add: st_def after_bit_def)
    obtain c1 m pid where c1: "host_bit d2p c' = bit_log (u_driving c') st (host_drive d2p c1)" "same_job c0 c1"
      "u_mon c1 = m" "u_lastrxpid c1 = pid" "pending d2p c' = (m, pid)"
      "u_state c1 = st" "u_bit c1 = 1" "u_byte c1 = b0 + int (length p)" "u_linebits c1 = u_linebits c'"
      "reading (u_loglevel c0) L sop p (8 * length p) (m, pid)" "m_line m AND 3 = wire d2p (u_driving c')"
      "wire d2p (u_driving c') = 1 \<or> wire d2p (u_driving c') = 2"
      by (rule send_facts [OF assms(1) hyp(1) ns]) simp
    have "m_line (fst (m, pid)) AND 3 \<noteq> 0" using c1(11,12) by auto
    note e0 = reading_ending [OF c1(10) assms(3) this]
    have st: "st = (if b0 + int (length p) = u_datastart c0 then ST_EOP0 else ST_SEND)"
      by (simp add: st_def after_bit_def)
    have ge: "st = ST_SEND \<Longrightarrow> u_bytes c1 \<le> u_byte c1" using assms(4) c1(2,8) st by (auto simp: same_job_def)
    define h where "h = host_drive d2p c1"
    have h: "same_job c0 h" "u_state h = ST_EOP" "u_bit h = 1" "u_byte h = b0 + int (length p)"
      "wire d2p (u_driving h) = 0" "u_mon h = m" "u_lastrxpid h = pid"
      using c1(2-4,6-9) hyp(2) ge st unfolding h_def
      by (auto simp: host_drive_def host_send_def host_eop0_def six_ones_mask wire_set_driving same_job_def between_bits_def
          split: if_splits)
    show ?thesis using h se0_after [of c0 h d2p L sop p 0] e0
      by (simp add: eop_at_def c1(1) h_def [symmetric] pending_def)
  qed
  show ?thesis
  proof (cases "st = ST_SEND \<and> six_ones (u_linebits c)")
    case True
    then have "eop_at d2p c0 L sop p (b0 + int (length p)) 1 (host_bit d2p (host_bit d2p c))"
      using step send_stuffed [OF assms(1), of c0 L sop p b0 "8 * length p" c] assms(2) by (simp add: st_def [symmetric])
    then show ?thesis by (rule reaches_step [OF reaches_step [OF reaches_now]])
  next
    case False
    then have "eop_at d2p c0 L sop p (b0 + int (length p)) 1 (host_bit d2p c)"
      using step assms(2) by (auto simp: st_def [symmetric])
    then show ?thesis by (rule reaches_step [OF reaches_now])
  qed
qed

lemma host_eop_step:
  assumes "u_state c = ST_EOP" "u_bit c = 2 ^ n" "n < 3" "has d2p D2P_PU"
  shows "u_state (host_drive d2p c) = ST_EOP" "u_bit (host_drive d2p c) = 2 ^ Suc n" "u_byte (host_drive d2p c) = u_byte c"
    "u_driving (host_drive d2p c) = (if n = 2 then set_driving c d2p P2D_DP else u_driving c)"
    "u_mon (host_drive d2p c) = u_mon c" "u_lastrxpid (host_drive d2p c) = u_lastrxpid c"
    "same_job c0 c \<Longrightarrow> same_job c0 (host_drive d2p c)"
proof -
  have n: "n = 0 \<or> n = 1 \<or> n = 2" using assms(3) by auto
  show "u_state (host_drive d2p c) = ST_EOP" "u_bit (host_drive d2p c) = 2 ^ Suc n" "u_byte (host_drive d2p c) = u_byte c"
    "u_driving (host_drive d2p c) = (if n = 2 then set_driving c d2p P2D_DP else u_driving c)"
    "u_mon (host_drive d2p c) = u_mon c" "u_lastrxpid (host_drive d2p c) = u_lastrxpid c"
    "same_job c0 c \<Longrightarrow> same_job c0 (host_drive d2p c)"
    using assms n by (auto simp: host_drive_def host_eop_def Let_def same_job_def between_bits_def)
qed

text \<open>The packet is over for both; one more bit time and the host goes on, or is idle.\<close>

definition eop_done :: "u32 \<Rightarrow> usbdpi_ctx \<Rightarrow> mon_entry list \<Rightarrow> u8 list \<Rightarrow> int \<Rightarrow> usbdpi_ctx \<Rightarrow> bool" where
  "eop_done d2p c0 L p b1 c \<longleftrightarrow> same_job c0 c \<and> u_state c = ST_EOP \<and> u_bit c = 8 \<and> u_byte c = b1
     \<and> (\<exists>t0 t1 t2. idle_mon (L @ packet_log (u_loglevel c0) t0 t1 t2 p) (fst (pending d2p c)))
     \<and> snd (pending d2p c) = ucast (p ! 0) \<and> m_line (fst (pending d2p c)) AND 3 = 2"

lemma eop_steps:
  assumes "quiet d2p" "eop_at d2p c0 (L @ sop_entry (u_loglevel c0) sop) sop p b1 n c" "1 \<le> n" "n \<le> 3"
    and "p \<noteq> []" "length p \<le> 1000"
  shows "n < 3 \<Longrightarrow> eop_at d2p c0 (L @ sop_entry (u_loglevel c0) sop) sop p b1 (Suc n) (host_bit d2p c)"
    and "n = 3 \<Longrightarrow> eop_done d2p c0 L p b1 (host_bit d2p c)"
proof -
  have c: "same_job c0 c" "u_state c = ST_EOP" "u_bit c = 2 ^ (n - 1)" "u_byte c = b1" "wire d2p (u_driving c) = 0"
    "ending (u_loglevel c0) (L @ sop_entry (u_loglevel c0) sop) sop p n (pending d2p c)"
    using assms(2) by (simp_all add: eop_at_def)
  obtain c1 where c1: "host_bit d2p c = bit_log (u_driving c) (u_state c) (host_drive d2p c1)" "same_job c0 c1"
    "(u_mon c1, u_lastrxpid c1) = pending d2p c" "wire d2p (u_driving c1) = wire d2p (u_driving c)"
    "u_state c1 = u_state c" "u_bit c1 = u_bit c" "u_byte c1 = u_byte c"
    using host_bit_step [OF assms(1) c(1)] c(2) by auto
  have pu: "has d2p D2P_PU" using assms(1) by (simp add: quiet_def)
  have "n - 1 < 3" using assms(3,4) by simp
  note h = host_eop_step [OF c1(5)[unfolded c(2)] c1(6)[unfolded c(3)] this pu]
  define h where "h = host_drive d2p c1"
  have job: "same_job c0 (host_bit d2p c)" using h(7) [OF c1(2)] by (simp add: c1(1))
  have mon: "ending (u_loglevel c0) (L @ sop_entry (u_loglevel c0) sop) sop p n (u_mon (host_bit d2p c), u_lastrxpid (host_bit d2p c))"
    using c(6) c1(3) h(5,6) by (simp add: c1(1))
  show "eop_at d2p c0 (L @ sop_entry (u_loglevel c0) sop) sop p b1 (Suc n) (host_bit d2p c)" if "n < 3"
  proof -
    have "wire d2p (u_driving (host_bit d2p c)) = 0" using that assms(3) h(4) c1(4) c(5) by (auto simp: c1(1))
    then show ?thesis using se0_after [OF job _ mon that] job h(1-3) assms(3) c1(7) c(4)
      by (auto simp: eop_at_def c1(1) simp del: power_Suc)
  qed
  show "eop_done d2p c0 L p b1 (host_bit d2p c)" if "n = 3"
  proof -
    have w: "wire d2p (u_driving (host_bit d2p c)) = 2" using that h(4) by (simp add: c1(1) wire_set_driving)
    have "u_lastrxpid (host_bit d2p c) = ucast (p ! 0)" using mon by (simp add: ending_def)
    then show ?thesis using ending_eop [OF mon[unfolded that] assms(5,6), of "u_tick (host_bit d2p c) + 4"]
        job h(1-3) that c1(7) c(4) w
      by (auto simp: eop_done_def c1(1) pending_def same_job_def) blast
  qed
qed

lemma eop_reaches_done:
  assumes "quiet d2p" "eop_at d2p c0 (L @ sop_entry (u_loglevel c0) sop) sop p b1 1 c" "p \<noteq> []" "length p \<le> 1000"
  shows "reaches d2p c (eop_done d2p c0 L p b1)"
proof -
  note step = eop_steps [OF assms(1) _ _ _ assms(3,4), of c0 L sop b1]
  have "eop_at d2p c0 (L @ sop_entry (u_loglevel c0) sop) sop p b1 2 (host_bit d2p c)"
    using step(1) [OF assms(2)] by (simp add: numeral_2_eq_2)
  then have "eop_at d2p c0 (L @ sop_entry (u_loglevel c0) sop) sop p b1 3 (host_bit d2p (host_bit d2p c))"
    using step(1) by (simp add: numeral_3_eq_3 numeral_2_eq_2)
  then have "eop_done d2p c0 L p b1 (host_bit d2p (host_bit d2p (host_bit d2p c)))" using step(2) by simp
  then show ?thesis by (rule reaches_step [OF reaches_step [OF reaches_step [OF reaches_now]]])
qed

section \<open>Whole packets\<close>

lemma sync_from_first:
  assumes "quiet d2p" "sync_at d2p c0 L b0 1 k x c" "1 \<le> k" "x = 2 \<or> x = 1 \<or> x = 9 \<or> x = 13"
  shows "reaches d2p c (\<lambda>c'. \<exists>t. send_at d2p c0 (L @ sop_entry (u_loglevel c0) t) t p b0 0 ST_SEND c')"
proof -
  let ?n = "\<lambda>v s. push_bit 2 v OR (s :: u32)"
  define v2 where "v2 = ?n x 2"
  define v3 where "v3 = ?n v2 1"
  define v4 where "v4 = ?n v3 2"
  define v5 where "v5 = ?n v4 1"
  define v6 where "v6 = ?n v5 2"
  define v7 where "v7 = ?n v6 1"
  have v: "v2 AND 0xf \<noteq> 5" "v3 AND 0xf \<noteq> 5" "v4 AND 0xf \<noteq> 5" "v5 AND 0xf \<noteq> 5" "v6 AND 0xf \<noteq> 5" "v7 AND 0xf \<noteq> 5"
    "?n v7 1 AND 0xfff = 0x665"
    using assms(4) by (auto simp: v2_def v3_def v4_def v5_def v6_def v7_def)
  note step = sync_step [OF assms(1)]
  let ?h = "host_bit d2p"
  have 2: "sync_at d2p c0 L b0 2 (Suc k) v2 (?h c)"
    using step [OF assms(2) _ assms(3) _ v(1)] by (simp add: sync_symbol_def v2_def numeral_2_eq_2)
  have 3: "sync_at d2p c0 L b0 3 (Suc (Suc k)) v3 (?h (?h c))"
    using step [OF 2 _ _ _ v(2)] by (simp add: sync_symbol_def v3_def)
  have 4: "sync_at d2p c0 L b0 4 (Suc (Suc (Suc k))) v4 (?h (?h (?h c)))"
    using step [OF 3 _ _ _ v(3)] by (simp add: sync_symbol_def v4_def)
  have 5: "sync_at d2p c0 L b0 5 (Suc (Suc (Suc (Suc k)))) v5 (?h (?h (?h (?h c))))"
    using step [OF 4 _ _ _ v(4)] by (simp add: sync_symbol_def v5_def)
  have 6: "sync_at d2p c0 L b0 6 (Suc (Suc (Suc (Suc (Suc k))))) v6 (?h (?h (?h (?h (?h c)))))"
    using step [OF 5 _ _ _ v(5)] by (simp add: sync_symbol_def v6_def)
  have 7: "sync_at d2p c0 L b0 7 (Suc (Suc (Suc (Suc (Suc (Suc k)))))) v7 (?h (?h (?h (?h (?h (?h c))))))"
    using step [OF 6 _ _ _ v(6)] by (simp add: sync_symbol_def v7_def)
  have "\<exists>t. send_at d2p c0 (L @ sop_entry (u_loglevel c0) t) t p b0 0 ST_SEND (?h (?h (?h (?h (?h (?h (?h c)))))))"
    using sync_last [OF assms(1) 7 _ v(7)] by simp
  then show ?thesis
    by (rule reaches_step [OF reaches_step [OF reaches_step [OF reaches_step
      [OF reaches_step [OF reaches_step [OF reaches_step [OF reaches_now]]]]]]])
qed

text \<open>From the first sync symbol of a packet to the end of its last one.\<close>

lemma packet_reaches_done:
  assumes "quiet d2p" "sync_at d2p c0 L b0 1 k x c" "1 \<le> k" "x = 2 \<or> x = 1 \<or> x = 9 \<or> x = 13"
    and "sends c0 b0 p" "good_packet p" "b0 + int (length p) = u_bytes c0 \<or> b0 + int (length p) = u_datastart c0"
  shows "reaches d2p c (eop_done d2p c0 L p (b0 + int (length p)))"
proof (rule reaches_trans [OF sync_from_first [OF assms(1-4), of p]])
  have p: "p \<noteq> []" "length p \<le> 1000" using assms(6) by (simp_all add: good_packet_def)
  fix c1 assume "\<exists>t. send_at d2p c0 (L @ sop_entry (u_loglevel c0) t) t p b0 0 ST_SEND c1"
  then obtain t where t: "send_at d2p c0 (L @ sop_entry (u_loglevel c0) t) t p b0 0 ST_SEND c1" by blast
  show "reaches d2p c1 (eop_done d2p c0 L p (b0 + int (length p)))"
    by (rule reaches_trans [OF send_bits [OF assms(1,5,6) order.refl t]],
        rule reaches_trans [OF send_to_eop [OF assms(1) _ p(1) assms(7)]], assumption,
        rule eop_reaches_done [OF assms(1) _ p])
qed

lemma low_symbol_no_sop:
  assumes "idle_mon L m" "m_line m AND 3 \<noteq> 1"
  shows "mon_symbol ll t m pid = (m, pid)"
proof -
  have "m_line m AND 0xfff \<noteq> 0x665"
  proof
    assume "m_line m AND 0xfff = 0x665"
    then have "(m_line m AND 0xfff) AND 3 = 1" by simp
    then show False using assms(2) by (simp add: and.assoc)
  qed
  then show ?thesis using assms(1) by (simp add: mon_symbol_def idle_mon_def line_DK_def line_DJ_def)
qed

lemma sync_start:
  assumes "same_job c0 c" "u_state c = ST_SYNC" "u_bit c = 2 ^ i" "u_byte c = b0" "idle_mon L (u_mon c)"
    and "wire d2p (u_driving c) \<noteq> 1"
  shows "sync_at d2p c0 L b0 i 1 (wire d2p (u_driving c)) c"
proof -
  let ?m = "(u_mon c)\<lparr>m_driver := M_HOST, m_line := push_bit 2 (m_line (u_mon c)) OR wire d2p (u_driving c)\<rparr>"
  have m: "idle_mon L ?m" "m_line ?m AND 3 = wire d2p (u_driving c)"
    using assms(5) last_symbol(1) [OF wire_range] by (simp_all add: idle_mon_def)
  then have "pending d2p c = (?m, u_lastrxpid c)"
    unfolding pending_def using low_symbol_no_sop [OF m(1)] assms(6) by simp
  then show ?thesis using m assms(1-4) by (simp add: sync_at_def mask_eq_exp_minus_1)
qed

text \<open>
  The last bit time of a packet. If a second packet follows, the sync pattern of this one starts at its
  second symbol, because the bit counter is reset and then shifted.
\<close>

lemma host_eop_last:
  assumes "u_state c = ST_EOP" "u_bit c = 8" "has d2p D2P_PU"
  shows "u_state (host_drive d2p c) = (if u_byte c = u_datastart c then ST_SYNC else ST_IDLE)"
    "u_byte c = u_datastart c \<Longrightarrow> u_bit (host_drive d2p c) = 2" "u_byte (host_drive d2p c) = u_byte c"
    "wire d2p (u_driving (host_drive d2p c)) = 2"
    "u_mon (host_drive d2p c) = u_mon c" "u_lastrxpid (host_drive d2p c) = u_lastrxpid c"
    "same_job c0 c \<Longrightarrow> same_job c0 (host_drive d2p c)"
  using assms by (simp_all add: host_drive_def host_eop_def Let_def same_job_def between_bits_def wire_set_driving)

lemma eop_finish:
  assumes "quiet d2p" "eop_done d2p c0 L p b1 c"
  shows "b1 \<noteq> u_datastart c0 \<Longrightarrow> u_state (host_bit d2p c) = ST_IDLE \<and> u_lastrxpid (host_bit d2p c) = ucast (p ! 0)
      \<and> (\<exists>t0 t1 t2. idle_mon (L @ packet_log (u_loglevel c0) t0 t1 t2 p) (u_mon (host_bit d2p c)))"
    and "b1 = u_datastart c0 \<Longrightarrow>
      \<exists>t0 t1 t2. sync_at d2p c0 (L @ packet_log (u_loglevel c0) t0 t1 t2 p) b1 1 1 2 (host_bit d2p c)"
proof -
  obtain t0 t1 t2 where c: "same_job c0 c" "u_state c = ST_EOP" "u_bit c = 8" "u_byte c = b1"
    "idle_mon (L @ packet_log (u_loglevel c0) t0 t1 t2 p) (fst (pending d2p c))"
    "snd (pending d2p c) = ucast (p ! 0)"
    using assms(2) by (auto simp: eop_done_def)
  obtain c1 where c1: "host_bit d2p c = bit_log (u_driving c) (u_state c) (host_drive d2p c1)" "same_job c0 c1"
    "(u_mon c1, u_lastrxpid c1) = pending d2p c"
    "u_state c1 = u_state c" "u_bit c1 = u_bit c" "u_byte c1 = u_byte c"
    using host_bit_step [OF assms(1) c(1)] c(2) by auto
  have pu: "has d2p D2P_PU" using assms(1) by (simp add: quiet_def)
  note h = host_eop_last [OF c1(4)[unfolded c(2)] c1(5)[unfolded c(3)] pu]
  have mon: "u_mon (host_bit d2p c) = fst (pending d2p c)" "u_lastrxpid (host_bit d2p c) = snd (pending d2p c)"
    using h(5,6) by (simp_all add: c1(1) flip: c1(3))
  have job: "same_job c0 (host_bit d2p c)" using h(7) [OF c1(2)] by (simp add: c1(1))
  have ds: "u_datastart c1 = u_datastart c0" using c1(2) by (simp add: same_job_def)
  show "u_state (host_bit d2p c) = ST_IDLE \<and> u_lastrxpid (host_bit d2p c) = ucast (p ! 0)
      \<and> (\<exists>t0 t1 t2. idle_mon (L @ packet_log (u_loglevel c0) t0 t1 t2 p) (u_mon (host_bit d2p c)))"
    if "b1 \<noteq> u_datastart c0"
    using that c(4-6) h(1) c1(6) ds mon by (auto simp: c1(1))
  show "\<exists>t0 t1 t2. sync_at d2p c0 (L @ packet_log (u_loglevel c0) t0 t1 t2 p) b1 1 1 2 (host_bit d2p c)"
    if "b1 = u_datastart c0"
  proof -
    have w: "wire d2p (u_driving (host_bit d2p c)) = 2" using h(4) by (simp add: c1(1))
    have "idle_mon (L @ packet_log (u_loglevel c0) t0 t1 t2 p) (u_mon (host_bit d2p c))" using c(5) mon(1) by simp
    from sync_start [OF job _ _ _ this, of 1 b1 d2p] show ?thesis
      using that h(1-3) c1(6) c(4) ds w by (auto simp: c1(1))
  qed
qed

text \<open>The packets of a transmission: all the bytes, cut where the second packet starts.\<close>

definition packets_of :: "usbdpi_ctx \<Rightarrow> u8 list list" where
  "packets_of c =
    (let p = take (nat (u_bytes c)) (u_data c)
     in if 0 < u_datastart c \<and> u_datastart c < u_bytes c
        then [take (nat (u_datastart c)) p, drop (nat (u_datastart c)) p] else [p])"

text \<open>The log of a sequence of packets, each at times of its own.\<close>

fun logged :: "u32 \<Rightarrow> u8 list list \<Rightarrow> mon_entry list \<Rightarrow> bool" where
  "logged ll [] es \<longleftrightarrow> es = []"
| "logged ll (p # ps) es \<longleftrightarrow> (\<exists>t0 t1 t2 es'. es = packet_log ll t0 t1 t2 p @ es' \<and> logged ll ps es')"

definition sent_all :: "usbdpi_ctx \<Rightarrow> mon_entry list \<Rightarrow> u8 list list \<Rightarrow> usbdpi_ctx \<Rightarrow> bool" where
  "sent_all c0 L ps c \<longleftrightarrow> u_state c = ST_IDLE \<and> u_lastrxpid c = ucast (last ps ! 0)
     \<and> (\<exists>es. logged (u_loglevel c0) ps es \<and> idle_mon (L @ es) (u_mon c))"

lemma last_packet:
  assumes "quiet d2p" "sync_at d2p c0 L b0 1 k x c" "1 \<le> k" "x = 2 \<or> x = 1 \<or> x = 9 \<or> x = 13"
    and "sends c0 b0 p" "good_packet p" "b0 + int (length p) = u_bytes c0" "u_bytes c0 \<noteq> u_datastart c0"
  shows "reaches d2p c (sent_all c0 L [p])"
proof (rule reaches_trans [OF packet_reaches_done [OF assms(1-6)]])
  fix c1 assume "eop_done d2p c0 L p (b0 + int (length p)) c1"
  then have "sent_all c0 L [p] (host_bit d2p c1)"
    using eop_finish(1) [OF assms(1)] assms(7,8) by (fastforce simp: sent_all_def)
  then show "reaches d2p c1 (sent_all c0 L [p])" by (rule reaches_step [OF reaches_now])
qed (use assms(7) in simp)

lemma first_packet:
  assumes "quiet d2p" "sync_at d2p c0 L b0 1 k x c" "1 \<le> k" "x = 2 \<or> x = 1 \<or> x = 9 \<or> x = 13"
    and "sends c0 b0 p" "good_packet p" "b0 + int (length p) = u_datastart c0"
    and "sends c0 (u_datastart c0) q" "good_packet q" "u_datastart c0 + int (length q) = u_bytes c0"
  shows "reaches d2p c (sent_all c0 L [p, q])"
proof (rule reaches_trans [OF packet_reaches_done [OF assms(1-6)]])
  fix c1 assume "eop_done d2p c0 L p (b0 + int (length p)) c1"
  then obtain t0 t1 t2 where t:
    "sync_at d2p c0 (L @ packet_log (u_loglevel c0) t0 t1 t2 p) (u_datastart c0) 1 1 2 (host_bit d2p c1)"
    using eop_finish(2) [OF assms(1)] assms(7) by fastforce
  have "u_bytes c0 \<noteq> u_datastart c0" using assms(9,10) by (auto simp: good_packet_def)
  then have "reaches d2p (host_bit d2p c1) (sent_all c0 (L @ packet_log (u_loglevel c0) t0 t1 t2 p) [q])"
    using last_packet [OF assms(1) t _ _ assms(8-10)] by simp
  then show "reaches d2p c1 (sent_all c0 L [p, q])"
  proof (rule reaches_step [OF reaches_trans])
    fix c2 assume "sent_all c0 (L @ packet_log (u_loglevel c0) t0 t1 t2 p) [q] c2"
    then have "sent_all c0 L [p, q] c2" by (fastforce simp: sent_all_def)
    then show "reaches d2p c2 (sent_all c0 L [p, q])" by (rule reaches_now)
  qed
qed (use assms(7) in simp)

lemma sync_first:
  assumes "quiet d2p" "same_job c0 c" "u_state c = ST_SYNC" "u_bit c = 1" "u_byte c = b0" "idle_mon L (u_mon c)"
    and "wire d2p (u_driving c) \<noteq> line_DK"
  shows "\<exists>x. sync_at d2p c0 L b0 1 2 x (host_bit d2p c) \<and> (x = 2 \<or> x = 1 \<or> x = 9 \<or> x = 13)"
proof -
  let ?x = "wire d2p (u_driving c)"
  have s: "sync_at d2p c0 L b0 0 1 ?x c"
    using sync_start [of c0 c 0 b0 L d2p] assms(2-7) by (simp add: line_DK_def)
  have "unat ?x < 4" "?x \<noteq> 1" using wire_range [of d2p "u_driving c"] assms(7)
    by (simp_all add: word_less_nat_alt line_DK_def)
  then have x: "?x = 0 \<or> ?x = 2 \<or> ?x = 3" by (simp add: word_unat_eq_iff) arith
  then have "push_bit 2 ?x OR sync_symbol 0 AND 0xf \<noteq> 5" "(push_bit 2 ?x OR sync_symbol 0) AND 0xf \<noteq> 5"
    by (auto simp: sync_symbol_def)
  from sync_step [OF assms(1) s _ _ refl this(2)]
  show ?thesis using x by (intro exI [of _ "push_bit 2 ?x OR 1"]) (auto simp: sync_symbol_def numeral_2_eq_2)
qed

lemma sends_part:
  assumes "0 \<le> b" "b + int (length p) \<le> u_bytes c" "u_bytes c \<le> int (length (u_data c))"
    and "p = take (length p) (drop (nat b) (u_data c))"
    and "\<And>k. 0 < k \<Longrightarrow> k < length p \<Longrightarrow> b + int k \<noteq> u_datastart c"
  shows "sends c b p"
  unfolding sends_def
proof (intro conjI allI impI)
  fix k assume k: "k < length p"
  have "p ! k = take (length p) (drop (nat b) (u_data c)) ! k" using assms(4) by simp
  also have "\<dots> = u_data c ! nat (b + int k)" using k assms(1-3) by (simp add: nat_add_distrib)
  finally show "u_data c ! nat (b + int k) = p ! k" ..
qed (use assms in auto)

text \<open>
  C11. Whatever packets the simulated host has prepared, one or a token with its data, it sends them to the
  end, and the bus monitor, which sees only the two lines, logs exactly these packets and takes the
  PID of the last one. This holds in both orientations and both transceiver modes, through sync,
  NRZI, bit stuffing and end of packet, for packets whose PID the monitor accepts (its two halves differ, a
  weaker test than the USB's complement) and does not begin with four ones; such a PID desynchronises it, because
  it does not restart its count of ones at a packet.
\<close>

theorem monitor_logs_sent_packets:
  assumes "quiet d2p" "between_bits c" "u_state c = ST_SYNC" "u_bit c = 1" "u_byte c = 0"
    and "idle_mon L (u_mon c)" "wire d2p (u_driving c) \<noteq> line_DK"
    and "0 < u_bytes c" "u_bytes c \<le> int (length (u_data c))" "u_datastart c \<noteq> u_bytes c"
    and "\<forall>p\<in>set (packets_of c). good_packet p"
  shows "\<exists>n es. u_state ((host_bit d2p ^^ n) c) = ST_IDLE
    \<and> u_lastrxpid ((host_bit d2p ^^ n) c) = ucast (last (packets_of c) ! 0)
    \<and> logged (u_loglevel c) (packets_of c) es \<and> idle_mon (L @ es) (u_mon ((host_bit d2p ^^ n) c))"
proof -
  have job: "same_job c c" using assms(2) by (simp add: same_job_def)
  obtain x where x: "sync_at d2p c L 0 1 2 x (host_bit d2p c)" "x = 2 \<or> x = 1 \<or> x = 9 \<or> x = 13"
    using sync_first [OF assms(1) job assms(3-7)] by blast
  have "reaches d2p (host_bit d2p c) (sent_all c L (packets_of c))"
  proof (cases "0 < u_datastart c \<and> u_datastart c < u_bytes c")
    case True
    define p where "p = take (nat (u_datastart c)) (take (nat (u_bytes c)) (u_data c))"
    define q where "q = drop (nat (u_datastart c)) (take (nat (u_bytes c)) (u_data c))"
    have pq: "packets_of c = [p, q]" using True by (simp add: packets_of_def p_def q_def Let_def)
    have len: "int (length p) = u_datastart c" "u_datastart c + int (length q) = u_bytes c"
      using True assms(9) by (auto simp: p_def q_def min_def)
    have good: "good_packet p" "good_packet q" using assms(11) by (simp_all add: pq)
    have "sends c 0 p"
      using True assms(9) len by (intro sends_part) (auto simp: p_def)
    moreover have "sends c (u_datastart c) q"
      using True assms(9) len by (intro sends_part) (auto simp: q_def drop_take)
    ultimately show ?thesis unfolding pq using first_packet [OF assms(1) x(1) _ x(2)] good len by simp
  next
    case False
    define p where "p = take (nat (u_bytes c)) (u_data c)"
    have pq: "packets_of c = [p]" using False by (auto simp: packets_of_def p_def Let_def)
    have len: "int (length p) = u_bytes c" using assms(8,9) by (simp add: p_def)
    have "sends c 0 p" using False assms(8-10) len by (intro sends_part) (auto simp: p_def)
    then show ?thesis unfolding pq using last_packet [OF assms(1) x(1) _ x(2)] assms(10,11) len by (simp add: pq)
  qed
  then have "reaches d2p c (sent_all c L (packets_of c))" by (rule reaches_step)
  then show ?thesis by (auto simp: reaches_def sent_all_def)
qed

text \<open>The first transfer of the schedule, which sets the device's address: a SETUP token and eight bytes of data.\<close>

definition first_transfer :: usbdpi_ctx where
  "first_transfer = setDeviceAddress ((usbdpi_create 1)\<lparr>u_frame := 1, u_hostSt := HS_STARTFRAME\<rparr>)"

lemma good_packetI: "pid_accepted b \<Longrightarrow> i < 4 \<Longrightarrow> \<not> bit b i \<Longrightarrow> length (b # bs) \<le> 1000 \<Longrightarrow> good_packet (b # bs)"
  by (auto simp: good_packet_def)

lemma first_transfer_packets:
  "packets_of first_transfer = [[0x2D, 0, 0x10], [0xC3, 0, 5, 2, 0, 0xFF, 0, 0, 0, 0xDB, 0x02]]"
  by code_simp

lemma first_transfer_state:
  "between_bits first_transfer" "u_state first_transfer = ST_SYNC" "u_bit first_transfer = 1" "u_byte first_transfer = 0"
  "u_bytes first_transfer = 14" "u_datastart first_transfer = 3" "length (u_data first_transfer) = 32"
  "u_mon first_transfer = monitor_usb_init" "u_driving first_transfer = 0" "u_loglevel first_transfer = 1"
  by (simp_all add: first_transfer_def setDeviceAddress_def usbdpi_create_def between_bits_def add_crc16_def put_data_def
      start_packet_def go_to_def Let_def INSERT_ERR_PID_def INSERT_ERR_CRC_def SEND_MAX_def)

lemma full_speed_device: "quiet D2P_DPPU" "wire D2P_DPPU 0 \<noteq> line_DK"
  by (simp_all add: quiet_def device_drives_def has_def D2P_DP_EN_def D2P_DN_EN_def D2P_D_EN_def D2P_DPPU_def D2P_DNPU_def
      D2P_PU_def D2P_TXMODE_SE_def wire_def line_code_def host_levels_def line_DK_def)

theorem monitor_logs_sent_packets_witness:
  "\<exists>n es. u_state ((host_bit D2P_DPPU ^^ n) first_transfer) = ST_IDLE
    \<and> u_lastrxpid ((host_bit D2P_DPPU ^^ n) first_transfer) = USB_PID_DATA0
    \<and> logged 1 [[0x2D, 0, 0x10], [0xC3, 0, 5, 2, 0, 0xFF, 0, 0, 0, 0xDB, 0x02]] es
    \<and> idle_mon es (u_mon ((host_bit D2P_DPPU ^^ n) first_transfer))"
proof -
  have "idle_mon [] (u_mon first_transfer)"
    by (simp add: first_transfer_state idle_mon_def monitor_usb_init_def)
  moreover have "\<forall>p\<in>set (packets_of first_transfer). good_packet p"
  proof -
    have b: "\<not> bit (0x2D :: u8) 1" "\<not> bit (0xC3 :: u8) 2" by (simp_all add: bit_iff_odd_drop_bit)
    have a: "pid_accepted 0x2D" "pid_accepted 0xC3" by (simp_all add: pid_accepted_def)
    have "good_packet [0x2D, 0, 0x10]" by (rule good_packetI [OF a(1) _ b(1)]) simp_all
    moreover have "good_packet [0xC3, 0, 5, 2, 0, 0xFF, 0, 0, 0, 0xDB, 0x02]" by (rule good_packetI [OF a(2) _ b(2)]) simp_all
    ultimately show ?thesis unfolding first_transfer_packets by (simp only: list.set ball_simps insert_iff simp_thms)
  qed
  ultimately show ?thesis
    using monitor_logs_sent_packets [OF full_speed_device(1), of first_transfer "[]"] full_speed_device(2)
    by (simp add: first_transfer_state first_transfer_packets USB_PID_DATA0_def)
qed

end
