(* ===== verification/Prng.thy ===== *)
theory Prng
  imports Prelude "HOL-Library.Monad_Syntax"
begin

text \<open>
  \<open>sw/device/sca/lib/prng.c\<close>, the generator behind the side-channel capture programs: a Mersenne Twister
  that regenerates its 624 state words in place, and the bytes taken from it by rejection. The static
  variables are the record \<open>prng\<close>; \<open>unsigned long\<close> has 32 bits on the target, so the masks with
  \<open>0xffffffff\<close> do nothing. Shown: the in-place blocks are the linear recurrence of the
  generator's definition, and the bytes are those of its output that survive the rejection.
\<close>

unbundle bit_operations_syntax

section \<open>State and seeding\<close>

definition mt_N :: nat where "mt_N = 624"
definition mt_M :: nat where "mt_M = 397"
definition MATRIX_A :: u32 where "MATRIX_A = 0x9908b0df"
definition UPPER_MASK :: u32 where "UPPER_MASK = 0x80000000"
definition LOWER_MASK :: u32 where "LOWER_MASK = 0x7fffffff"

record prng =
  mt :: "u32 list"
  mti :: nat

text \<open>The static variables before any call: \<open>mti\<close> past the end says that the array is not initialised.\<close>

definition prng_static :: prng where
  "prng_static = \<lparr>mt = replicate mt_N 0, mti = mt_N + 1\<rparr>"

definition init_word :: "nat \<Rightarrow> u32 list \<Rightarrow> u32 list" where
  "init_word i m = m[i := 1812433253 * (m ! (i - 1) XOR drop_bit 30 (m ! (i - 1))) + of_nat i]"

definition init_genrand :: "u32 \<Rightarrow> prng \<Rightarrow> prng" where
  "init_genrand s g = \<lparr>mt = fold init_word [1..<mt_N] ((mt g)[0 := s]), mti = mt_N\<rparr>"

text \<open>The first loop of \<open>init_by_array\<close>, \<open>k\<close> turns of it, from the indices \<open>i\<close> and \<open>j\<close>.\<close>

primrec init_key_loop :: "nat \<Rightarrow> u32 list \<Rightarrow> nat \<Rightarrow> nat \<Rightarrow> u32 list \<Rightarrow> nat \<times> u32 list" where
  "init_key_loop 0 key i j m = (i, m)"
| "init_key_loop (Suc k) key i j m =
    (let m = m[i := (m ! i XOR (m ! (i - 1) XOR drop_bit 30 (m ! (i - 1))) * 1664525) + key ! j + of_nat j];
         m = (if i + 1 \<ge> mt_N then m[0 := m ! (mt_N - 1)] else m)
     in init_key_loop k key (if i + 1 \<ge> mt_N then 1 else i + 1) (if j + 1 \<ge> length key then 0 else j + 1) m)"

text \<open>Its second loop, which mixes the words once more.\<close>

primrec init_mix_loop :: "nat \<Rightarrow> nat \<Rightarrow> u32 list \<Rightarrow> u32 list" where
  "init_mix_loop 0 i m = m"
| "init_mix_loop (Suc k) i m =
    (let m = m[i := (m ! i XOR (m ! (i - 1) XOR drop_bit 30 (m ! (i - 1))) * 1566083941) - of_nat i];
         m = (if i + 1 \<ge> mt_N then m[0 := m ! (mt_N - 1)] else m)
     in init_mix_loop k (if i + 1 \<ge> mt_N then 1 else i + 1) m)"

definition init_by_array :: "u32 list \<Rightarrow> prng \<Rightarrow> prng" where
  "init_by_array key g =
    (let g = init_genrand 19650218 g;
         (i, m) = init_key_loop (max mt_N (length key)) key 1 0 (mt g);
         m = init_mix_loop (mt_N - 1) i m
     in g\<lparr>mt := m[0 := 0x80000000]\<rparr>)"

definition prng_seed :: "u32 \<Rightarrow> prng \<Rightarrow> prng" where
  "prng_seed seed = init_by_array [seed]"

section \<open>Generation\<close>

definition mag01 :: "u32 list" where "mag01 = [0, MATRIX_A]"

text \<open>The new value of a word from its predecessors, the body of the three assignments to \<open>mt[kk]\<close>.\<close>

definition twist_of :: "u32 \<Rightarrow> u32 \<Rightarrow> u32" where
  "twist_of a b = (let y = (a AND UPPER_MASK) OR (b AND LOWER_MASK) in drop_bit 1 y XOR mag01 ! unat (y AND 1))"

definition twist_low :: "nat \<Rightarrow> u32 list \<Rightarrow> u32 list" where
  "twist_low kk m = m[kk := m ! (kk + mt_M) XOR twist_of (m ! kk) (m ! (kk + 1))]"

definition twist_high :: "nat \<Rightarrow> u32 list \<Rightarrow> u32 list" where
  "twist_high kk m = m[kk := m ! (kk + mt_M - mt_N) XOR twist_of (m ! kk) (m ! (kk + 1))]"

definition generate_block :: "u32 list \<Rightarrow> u32 list" where
  "generate_block m =
    (let m = fold twist_low [0..<mt_N - mt_M] m;
         m = fold twist_high [mt_N - mt_M..<mt_N - 1] m
     in m[mt_N - 1 := m ! (mt_M - 1) XOR twist_of (m ! (mt_N - 1)) (m ! 0)])"

definition temper :: "u32 \<Rightarrow> u32" where
  "temper y =
    (let y = y XOR drop_bit 11 y;
         y = y XOR (push_bit 7 y AND 0x9d2c5680);
         y = y XOR (push_bit 15 y AND 0xefc60000)
     in y XOR drop_bit 18 y)"

definition genrand_int32 :: "prng \<Rightarrow> u32 \<times> prng" where
  "genrand_int32 g =
    (let g = (if mti g \<ge> mt_N
              then let g = (if mti g = mt_N + 1 then init_genrand 5489 g else g)
                   in \<lparr>mt = generate_block (mt g), mti = 0\<rparr>
              else g)
     in (temper (mt g ! mti g), g\<lparr>mti := mti g + 1\<rparr>))"

text \<open>Values above 255 are drawn again; the loop has no bound.\<close>

partial_function (option) prng_rand_byte :: "prng \<Rightarrow> (u8 \<times> prng) option" where
  "prng_rand_byte g =
    (let (r, g) = genrand_int32 g; rand = drop_bit 23 r
     in if rand > 255 then prng_rand_byte g else Some (ucast rand, g))"

primrec prng_rand_bytes :: "nat \<Rightarrow> prng \<Rightarrow> (u8 list \<times> prng) option" where
  "prng_rand_bytes 0 g = Some ([], g)"
| "prng_rand_bytes (Suc n) g =
    do { (b, g) \<leftarrow> prng_rand_byte g; (bs, g) \<leftarrow> prng_rand_bytes n g; Some (b # bs, g) }"

section \<open>The state stays an array of 624 words\<close>

lemma fold_length:
  assumes "\<And>i (m :: 'a list). length (f i m) = length m"
  shows "length (fold f is m) = length m"
  by (induction "is" arbitrary: m) (simp_all add: assms)

lemma init_genrand_state [simp]:
  "length (mt (init_genrand s g)) = length (mt g)" "mti (init_genrand s g) = mt_N"
  by (simp_all add: init_genrand_def fold_length init_word_def)

lemma init_key_loop_length [simp]: "length (snd (init_key_loop k key i j m)) = length m"
  by (induction k arbitrary: i j m) (simp_all add: Let_def)

lemma init_mix_loop_length [simp]: "length (init_mix_loop k i m) = length m"
  by (induction k arbitrary: i m) (simp_all add: Let_def)

lemma prng_seed_state:
  "length (mt (prng_seed seed g)) = length (mt g)" "mti (prng_seed seed g) = mt_N"
  using init_key_loop_length [of "max mt_N 1" "[seed]" 1 0 "mt (init_genrand 19650218 g)"]
  by (simp_all add: prng_seed_def init_by_array_def Let_def split_beta)

section \<open>The recurrence\<close>

text \<open>The sequence that the first \<open>N\<close> words define: each further word from those \<open>N\<close>, \<open>N - 1\<close> and \<open>N - M\<close> before.\<close>

function mt_sequence :: "u32 list \<Rightarrow> nat \<Rightarrow> u32" where
  "mt_sequence s k =
    (if k < mt_N then s ! k
     else mt_sequence s (k - mt_N + mt_M) XOR twist_of (mt_sequence s (k - mt_N)) (mt_sequence s (k - mt_N + 1)))"
  by pat_completeness auto
termination
  by (relation "measure snd") (auto simp: mt_N_def mt_M_def)

declare mt_sequence.simps [simp del]

lemma mt_sequence_low: "k < mt_N \<Longrightarrow> mt_sequence s k = s ! k"
  by (simp add: mt_sequence.simps)

lemma mt_sequence_high:
  "mt_sequence s (mt_N + k) = mt_sequence s (k + mt_M) XOR twist_of (mt_sequence s k) (mt_sequence s (k + 1))"
  by (subst mt_sequence.simps) simp

text \<open>The array in the middle of a block: the words below \<open>k\<close> are those of the next block.\<close>

definition in_block :: "u32 list \<Rightarrow> nat \<Rightarrow> nat \<Rightarrow> u32 list \<Rightarrow> bool" where
  "in_block s b k m \<longleftrightarrow> length m = mt_N \<and>
    (\<forall>i<mt_N. m ! i = mt_sequence s (if i < k then b + mt_N + i else b + i))"

lemma in_block_nth:
  "in_block s b k m \<Longrightarrow> i < mt_N \<Longrightarrow> m ! i = mt_sequence s (if i < k then b + mt_N + i else b + i)"
  by (simp add: in_block_def)

lemma in_block_next:
  assumes "in_block s b k m" "k < mt_N"
    and "x = mt_sequence s (b + k + mt_M) XOR twist_of (mt_sequence s (b + k)) (mt_sequence s (b + k + 1))"
  shows "in_block s b (Suc k) (m[k := x])"
proof -
  have "x = mt_sequence s (b + mt_N + k)"
    using mt_sequence_high [of s "b + k"] assms(3) by (simp add: ac_simps)
  with assms(1,2) show ?thesis by (auto simp: in_block_def nth_list_update less_Suc_eq)
qed

lemma mt_sizes: "mt_M < mt_N" "0 < mt_M" "mt_N - mt_M < mt_N" "0 < mt_N" "mt_M + 1 < mt_N"
  by (simp_all add: mt_N_def mt_M_def)

lemma twist_low_next:
  assumes "in_block s b k m" "k < mt_N - mt_M" shows "in_block s b (Suc k) (twist_low k m)"
proof -
  have "k < mt_N" "k + 1 < mt_N" "k + mt_M < mt_N" using assms(2) mt_sizes by linarith+
  moreover have "\<not> k + 1 < k" "\<not> k + mt_M < k" by simp_all
  ultimately show ?thesis unfolding twist_low_def
    by (intro in_block_next [OF assms(1)])
      (simp_all only: in_block_nth [OF assms(1)] less_irrefl if_False ac_simps)
qed

lemma twist_high_next:
  assumes "in_block s b k m" "mt_N - mt_M \<le> k" "k < mt_N - 1" shows "in_block s b (Suc k) (twist_high k m)"
proof -
  have "k < mt_N" "k + 1 < mt_N" "k + mt_M - mt_N < mt_N" "k + mt_M - mt_N < k"
    "b + mt_N + (k + mt_M - mt_N) = b + k + mt_M" using assms(2,3) mt_sizes by linarith+
  moreover have "\<not> k + 1 < k" by simp
  ultimately show ?thesis unfolding twist_high_def
    by (intro in_block_next [OF assms(1)])
      (simp_all only: in_block_nth [OF assms(1)] less_irrefl if_False if_True ac_simps)
qed

lemma fold_in_block:
  assumes "i \<le> j" "in_block s b i m"
    and "\<And>k m. i \<le> k \<Longrightarrow> k < j \<Longrightarrow> in_block s b k m \<Longrightarrow> in_block s b (Suc k) (f k m)"
  shows "in_block s b j (fold f [i..<j] m)"
  using assms(1,3)
proof (induction j rule: nat_induct_at_least)
  case base then show ?case by (simp add: assms(2))
next
  case (Suc j)
  then have "in_block s b j (fold f [i..<j] m)" by simp
  then show ?case using Suc.hyps Suc.prems [of j] by simp
qed

lemma generate_block_next:
  assumes "in_block s b 0 m" shows "in_block s (b + mt_N) 0 (generate_block m)"
proof -
  let ?low = "fold twist_low [0..<mt_N - mt_M] m"
  let ?high = "fold twist_high [mt_N - mt_M..<mt_N - 1] ?low"
  have low: "in_block s b (mt_N - mt_M) ?low"
    using assms by (intro fold_in_block twist_low_next) simp_all
  have high: "in_block s b (mt_N - 1) ?high"
    by (intro fold_in_block low twist_high_next) (simp_all add: mt_N_def mt_M_def)
  have lt: "mt_N - 1 < mt_N" "mt_M - 1 < mt_N - 1" "0 < mt_N - 1" "0 < mt_N" "mt_M - 1 < mt_N"
    using mt_sizes by linarith+
  have ix: "b + mt_N + (mt_M - 1) = b + (mt_N - 1) + mt_M" "b + mt_N + 0 = b + (mt_N - 1) + 1"
    using mt_sizes by linarith+
  have "in_block s b (Suc (mt_N - 1)) (generate_block m)"
    unfolding generate_block_def Let_def using lt
    by (intro in_block_next [OF high])
      (simp_all only: in_block_nth [OF high] less_irrefl if_False if_True ix)
  then show ?thesis using lt by (auto simp: in_block_def ac_simps)
qed

text \<open>The generator after \<open>n\<close> calls from a state filled with the words \<open>s\<close>.\<close>

definition prng_at :: "u32 list \<Rightarrow> nat \<Rightarrow> prng \<Rightarrow> bool" where
  "prng_at s n g \<longleftrightarrow> mti g \<le> mt_N \<and> (\<exists>b. b + mti g = mt_N + n \<and> in_block s b 0 (mt g))"

lemma prng_at_start: "length m = mt_N \<Longrightarrow> prng_at m 0 \<lparr>mt = m, mti = mt_N\<rparr>"
  by (auto simp: prng_at_def in_block_def mt_sequence_low)

lemma genrand_int32_next:
  assumes "prng_at s n g"
  shows "fst (genrand_int32 g) = temper (mt_sequence s (mt_N + n))" "prng_at s (Suc n) (snd (genrand_int32 g))"
proof -
  obtain b where b: "b + mti g = mt_N + n" "in_block s b 0 (mt g)" "mti g \<le> mt_N"
    using assms by (auto simp: prng_at_def)
  define h where "h = (if mti g = mt_N then \<lparr>mt = generate_block (mt g), mti = 0\<rparr> else g)"
  have h: "genrand_int32 g = (temper (mt h ! mti h), h\<lparr>mti := mti h + 1\<rparr>)"
    using b(3) by (auto simp: genrand_int32_def h_def Let_def)
  have "\<exists>c. c + mti h = mt_N + n \<and> in_block s c 0 (mt h) \<and> mti h < mt_N"
  proof (cases "mti g = mt_N")
    case True
    then show ?thesis using b(1) generate_block_next [OF b(2)] mt_sizes
      by (intro exI [of _ "b + mt_N"]) (simp add: h_def)
  next
    case False
    then show ?thesis using b by (intro exI [of _ b]) (simp add: h_def)
  qed
  then obtain c where c: "c + mti h = mt_N + n" "in_block s c 0 (mt h)" "mti h < mt_N" by blast
  then show "fst (genrand_int32 g) = temper (mt_sequence s (mt_N + n))"
    using in_block_nth [OF c(2,3)] by (simp add: h)
  show "prng_at s (Suc n) (snd (genrand_int32 g))"
    using c by (auto simp: h prng_at_def intro: exI [of _ c])
qed

section \<open>Bytes by rejection\<close>

definition mt_output :: "u32 list \<Rightarrow> nat \<Rightarrow> u32" where
  "mt_output s k = drop_bit 23 (temper (mt_sequence s (mt_N + k)))"

text \<open>The bytes that the outputs \<open>n\<close> up to \<open>m\<close> give.\<close>

definition mt_bytes :: "u32 list \<Rightarrow> nat \<Rightarrow> nat \<Rightarrow> u8 list" where
  "mt_bytes s n m = map ucast (filter (\<lambda>r. r \<le> 255) (map (mt_output s) [n..<m]))"

lemma mt_bytes_Cons:
  "n < m \<Longrightarrow> mt_bytes s n m
    = (if mt_output s n \<le> 255 then ucast (mt_output s n) # mt_bytes s (Suc n) m else mt_bytes s (Suc n) m)"
  by (simp add: mt_bytes_def upt_conv_Cons)

lemma prng_rand_byte_next:
  assumes "prng_at s n g" "mt_bytes s n m = b # bs"
  shows "\<exists>g' n'. prng_rand_byte g = Some (b, g') \<and> prng_at s n' g' \<and> mt_bytes s n' m = bs"
  using assms
proof (induction "m - n" arbitrary: n g)
  case 0 then show ?case by (simp add: mt_bytes_def)
next
  case (Suc d)
  obtain r g1 where r: "genrand_int32 g = (r, g1)" by fastforce
  note step = genrand_int32_next [OF Suc.prems(1), unfolded r fst_conv snd_conv]
  have out: "drop_bit 23 r = mt_output s n" by (simp add: mt_output_def step(1))
  have n: "n < m" using Suc.hyps(2) by simp
  show ?case
  proof (cases "mt_output s n \<le> 255")
    case True
    then have "(255 < mt_output s n) = False" by simp
    with True have "prng_rand_byte g = Some (b, g1) \<and> mt_bytes s (Suc n) m = bs"
      using Suc.prems(2) mt_bytes_Cons [OF n, of s] by (subst prng_rand_byte.simps) (simp add: r out Let_def)
    then show ?thesis using step(2) by blast
  next
    case False
    then have "(255 < mt_output s n) = True" by simp
    with False have "prng_rand_byte g = prng_rand_byte g1" "mt_bytes s (Suc n) m = b # bs"
      using Suc.prems(2) mt_bytes_Cons [OF n, of s]
      by (subst prng_rand_byte.simps, simp_all add: r out Let_def)
    then show ?thesis using Suc.hyps(1) [of "Suc n" g1] Suc.hyps(2) step(2) by simp
  qed
qed

lemma prng_rand_bytes_next:
  assumes "prng_at s n g" "len \<le> length (mt_bytes s n m)"
  shows "\<exists>g'. prng_rand_bytes len g = Some (take len (mt_bytes s n m), g')"
  using assms
proof (induction len arbitrary: n g)
  case 0 then show ?case by simp
next
  case (Suc len)
  then obtain b bs where bs: "mt_bytes s n m = b # bs" by (cases "mt_bytes s n m") auto
  obtain g1 n1 where "prng_rand_byte g = Some (b, g1)" "prng_at s n1 g1" "mt_bytes s n1 m = bs"
    using prng_rand_byte_next [OF Suc.prems(1) bs] by blast
  then show ?case using Suc.IH [of n1 g1] Suc.prems(2) by (auto simp: bs)
qed


text \<open>The degenerate state of zeros, from which the generator cannot leave zero, in the second block of its output.\<close>

lemma mt_sequence_zero: "mt_sequence (replicate mt_N 0) k = 0"
proof (induction k rule: less_induct)
  case (less k)
  show ?case
  proof (cases "k < mt_N")
    case True then show ?thesis by (simp add: mt_sequence_low)
  next
    case False
    then obtain j where j: "k = mt_N + j" by (metis le_Suc_ex not_less)
    have "j + mt_M < k" "j < k" "j + 1 < k" using j mt_sizes by linarith+
    note zero = this [THEN less.IH]
    show ?thesis unfolding j mt_sequence_high zero by (simp add: twist_of_def mag01_def)
  qed
qed


section \<open>Tempering loses nothing\<close>

lemma xor_step_inj:
  fixes f :: "u32 \<Rightarrow> u32"
  assumes "\<And>x y. f (x XOR y) = f x XOR f y" "\<And>d. d = f d \<Longrightarrow> d = 0" "x XOR f x = y XOR f y"
  shows "x = y"
proof -
  have "x XOR y = f (x XOR y)"
    unfolding assms(1) using arg_cong [OF assms(3), of bit] by (auto simp: bit_eq_iff bit_xor_iff fun_eq_iff)
  then have "x XOR y = 0" by (rule assms(2))
  then show ?thesis by (auto simp: bit_eq_iff bit_xor_iff)
qed
lemma drop_fix_zero:
  fixes d :: u32
  assumes "d = drop_bit n d" "0 < n" shows "d = 0"
proof -
  have "drop_bit (k * n) d = d" for k
    by (induction k) (simp_all add: drop_bit_drop_bit [symmetric] assms(1) [symmetric])
  from this [of 32] have "drop_bit (32 * n) d = d" .
  show ?thesis
  proof (intro bit_word_eqI)
    fix i :: nat
    assume "i < LENGTH(32)"
    have "\<not> bit d (32 * n + i)" using assms(2) by (auto dest!: bit_imp_le_length)
    then show "bit d i \<longleftrightarrow> bit 0 i" using arg_cong [OF \<open>drop_bit (32 * n) d = d\<close>, of "\<lambda>x. bit x i"]
      by (simp add: bit_drop_bit_eq)
  qed
qed

lemma push_fix_zero:
  fixes d :: u32
  assumes "d = push_bit n d AND m" "0 < n" shows "d = 0"
proof (rule bit_eqI)
  fix i
  have "\<not> bit d i" for i
  proof (induction i rule: less_induct)
    case (less i)
    show ?case
    proof
      assume "bit d i"
      then have "bit (push_bit n d AND m) i" using assms(1) by simp
      then have "n \<le> i" "bit d (i - n)" by (auto simp: bit_and_iff bit_push_bit_iff)
      then show False using less.IH [of "i - n"] assms(2) by simp
    qed
  qed
  then show "bit d i \<longleftrightarrow> bit 0 i" by simp
qed

lemma drop_step_inj: "x XOR drop_bit n x = y XOR drop_bit n y \<Longrightarrow> 0 < n \<Longrightarrow> x = y" for x :: u32
  by (rule xor_step_inj [where f = "drop_bit n"]) (auto intro: drop_fix_zero)

lemma push_step_inj:
  "x XOR (push_bit n x AND m) = y XOR (push_bit n y AND m) \<Longrightarrow> 0 < n \<Longrightarrow> x = y" for x :: u32
proof (rule xor_step_inj [where f = "\<lambda>d. push_bit n d AND m"])
  show "push_bit n (a XOR b) AND m = (push_bit n a AND m) XOR (push_bit n b AND m)" for a b
    by (auto simp: push_bit_xor bit_eq_iff bit_and_iff bit_xor_iff)
qed (auto intro: push_fix_zero)

text \<open>An output determines its state word, so \<open>N\<close> consecutive outputs determine the rest.\<close>

lemma temper_inj: "temper x = temper y \<Longrightarrow> x = y"
  unfolding temper_def Let_def
  by (drule drop_step_inj push_step_inj, rule zero_less_numeral)+ assumption

end
