(* ===== verification/Spec2Isabelle.thy ===== *)
theory Spec2Isabelle
  imports CMemory MmioCopy DifUart DifRvTimer DifPlic DifGpio DifUsbdev DifSpiDevice DifI2c DifAlertHandler
    DifOtpCtrl DifHmac DifClkmgr DifRstmgr DifPwrmgr Otbn DifLcCtrl Print Pmp TcpServer UsbCrc AesSession Bootstrap UsbStack
    UsbLink Prng
begin

text \<open>
  Verification of the C software of the OpenTitan demo of this repository: the device library
  (\<open>src/OpenTitan/sw/device/lib\<close>), the AES reference model (\<open>hw/ip/aes/model\<close>) and the parts of
  the simulation support (\<open>hw/dv/dpi\<close>) that carry an algorithm. Names are those of the source.

  \<^bold>\<open>The machine.\<close> Integers are words of their width, so arithmetic wraps as in C. A pointer
  argument is an option: \<open>NULL\<close> or the object it refers to; a function that writes through a pointer
  returns the new content. A handle is a record of its fields. Registers are reached through the bus of
  \<open>Mmio\<close>: the world is the history of bus events together with the device, a function from the history
  to the answer of the next load, so each theorem holds for every device behaviour that its hypotheses
  allow. Code without loops runs in the state monad over this world; a polling loop may not end, so
  functions that wait return an option, \<open>None\<close> standing for a call that never returns. The loops over
  data are structural recursions, or have a measure; no fuel is used.

  \<^bold>\<open>Theories.\<close>
  \<^item> \<open>Prelude\<close>: word widths, pointers, the loop combinator, bytes of a word, bounds.
  \<^item> \<open>Bitfield\<close> (\<open>base/bitfield.h\<close>), \<open>CMemory\<close> (\<open>base/memory.c\<close>), \<open>Mmio\<close> and \<open>MmioCopy\<close>
    (\<open>base/mmio.c\<close>): each routine equals its mathematical description, bit by bit or byte by byte;
    the block copies move exactly the block at any alignment, and read back what they wrote.
  \<^item> \<open>BusFrame\<close>: which addresses a piece of driver code writes (\<open>within\<close>, \<open>stays\<close>), proved once per driver
    and used wherever two devices share the bus.
  \<^item> \<open>IrqBlock\<close>: the contract that all interrupt registers share, as the locale \<open>irq_block\<close>, interpreted
    in the theory of each driver; \<open>FreePool\<close> the contract of a pool of buffers; \<open>Ring\<close> circular storage.
  \<^item> \<open>DifUart\<close>, \<open>DifRvTimer\<close>, \<open>DifPlic\<close>, \<open>DifGpio\<close>, \<open>DifUsbdev\<close>, \<open>DifSpiDevice\<close>, \<open>DifI2c\<close>,
    \<open>DifAlertHandler\<close>, \<open>DifOtpCtrl\<close>, \<open>DifHmac\<close> (\<open>dif/dif_*.c\<close>): one definition per function of the driver, every
    branch included, then what the operations do: sending and configuring (UART), atomic reads and
    safe arming of the 64-bit timer, the interrupt controller as an implementation of an abstract map from
    interrupts to their state, the ownership of USB buffers as an invariant, the two FIFOs of the SPI
    device as queues of bytes, I2C timing within its bounds, alert classification, the requests
    to the one-time-programmable memory, and pushing a message into the HMAC engine.
  \<^item> \<open>DifClkmgr\<close>, \<open>DifRstmgr\<close>, \<open>DifPwrmgr\<close> (\<open>dif/dif_*.c\<close>): clocks, resets and power. The gates, the hints
    and the software resets are banks of independent switches (the locale \<open>switch_bank\<close> of \<open>SwitchBank\<close>); a
    power configuration is written only while it is unlocked, and returns when its synchronisation ends.
  \<^item> \<open>DifOtbn\<close> (\<open>dif/dif_otbn.c\<close>), \<open>Otbn\<close> (\<open>runtime/otbn.c\<close>): the big number accelerator. Its two memories
    meet the contract \<open>block_memory\<close> of word-wise storage; in every session of calls the code of the loaded
    application stays in the instruction memory, and waiting returns when the accelerator is found idle.
  \<^item> \<open>DifLcCtrl\<close> (\<open>dif/dif_lc_ctrl.c\<close>): the lifecycle controller; the words of a transition, and that the driver
    never gets the mutex it needs for one, which the hardware grants for another value than the driver writes.
  \<^item> \<open>Pmp\<close> (\<open>runtime/pmp.c\<close>): what an accepted configuration protects, and that a locked region stays.
  \<^item> \<open>Print\<close> (\<open>runtime/print.c\<close>): the formatter over any sink that meets the locale \<open>byte_sink\<close>,
    interpreted for \<open>base_snprintf\<close>'s buffer and for the UART driver.
  \<^item> \<open>TcpServer\<close> (\<open>tcp_server.c\<close>): the byte buffers as a bounded queue (locale \<open>bounded_queue\<close>), and
    the interleavings of the two threads as a step relation, with an invariant and a run that breaks it.
  \<^item> \<open>UsbCrc\<close> (\<open>usb_crc.c\<close>): the CRC routines, their agreement and the errors they detect.
  \<^item> \<open>UsbDev\<close> (\<open>lib/usbdev.c\<close>), \<open>UsbPackets\<close>, \<open>UsbControlEp\<close> (\<open>lib/usb_controlep.c\<close>), \<open>UsbSerial\<close>
    (\<open>lib/usb_simpleserial.c\<close>), \<open>UsbStack\<close> (the three together, as in \<open>examples/hello_usbdev\<close>): function
    pointers are names looked up in a table; the control endpoint refines a specification of control
    transfers, serial bytes arrive in order, every reachable state is well formed (locale
    \<open>usb_client\<close>), and the buffer of a request is freed while it is queued for the reply.
  \<^item> \<open>UsbMonitor\<close> (\<open>monitor_usb.c\<close>), \<open>UsbHost\<close> (\<open>usbdpi.c\<close>), \<open>UsbWire\<close>, \<open>UsbLink\<close>: the host of the simulated
    USB bus and the bus monitor, run in lockstep bit time by bit time: the monitor logs exactly the
    packets the host sends, in every orientation of the lines and through bit stuffing.
  \<^item> \<open>Prng\<close> (\<open>sca/lib/prng.c\<close>): the Mersenne Twister's blocks generated in place are its recurrence.
  \<^item> \<open>AesModel\<close>, \<open>InverseCipher\<close>, \<open>AesCipher\<close> (\<open>aes.c\<close>): the cipher with the tables of the source;
    it equals the specification of FIPS 197 round by round and decryption inverts encryption (locale
    \<open>inverse_cipher\<close>).
  \<^item> \<open>DifAes\<close> (\<open>dif/dif_aes.c\<close>), \<open>AesSession\<close>: the AES driver, and the driver together with the cipher: on a
    unit that computes AES as documented, what is read back is the output of the reference model.

  \<^item> \<open>FlashCtrl\<close> (\<open>lib/flash_ctrl.c\<close>): erase, program and read of the embedded flash; a write that reports
    no error has programmed the given words in the order of their addresses, window by window.
  \<^item> \<open>Hmac\<close> (\<open>lib/hmac.c\<close>, \<open>lib/hw_sha256.c\<close>): the digest returned is that of the message, however it
    was cut into updates, for any hash function that the engine computes.
  \<^item> \<open>BootAreas\<close>, \<open>Bootstrap\<close> (\<open>boot_rom/bootstrap.c\<close>): the boot ROM's loader over the SPI device, HMAC
    and flash models: what it programs are the frames whose digest was checked, in order.

  \<^bold>\<open>Interfaces.\<close> The drivers rely on \<open>Mmio\<close> through the laws of plain registers (\<open>word_memory\<close>) or of a
  device given by a hypothesis; the SPI device driver on \<open>MmioCopy\<close> for its SRAM; the formatter on the
  UART driver's polled send; the boot ROM's loader on the SPI device, HMAC and flash models, which do not
  disturb each other by the frame lemmas of \<open>BusFrame\<close>.

  \<^bold>\<open>Not modelled.\<close> Start-up code, assembly, the test programs and the logging macros (output only); the
  sockets, threads and pseudo terminals of the simulation (input and output of the operating system); the
  drivers listed as such in the component list, which are register drivers of the same kind as those
  modelled; vendored code (cryptoc, MPSSE, the UVM sources, CoreMark) and generated headers. Concurrency
  is modelled only for the TCP buffers; interrupt handlers do not interrupt driver code in the model.
\<close>

end
